(* ===== verification/Prelude.thy ===== *)
theory Prelude
  imports Main "HOL-Library.Product_Lexorder"
begin

text \<open>
  Shared vocabulary of the development: identifiers and clocks, service results, table
  operations (the queries of the source), Python's \<^verbatim>\<open>round\<close> of a quotient, and the generic
  facts on lists, tables and rounding the component theories use.
\<close>

section \<open>Identifiers, clocks and durations\<close>

text \<open>
  A UUID is a natural number drawn from a counter kept in the state. Instants are integers
  counting microseconds (the resolution of Python's \<^verbatim>\<open>datetime\<close>), dates are proleptic ordinals
  (\<^verbatim>\<open>date.toordinal()\<close>), for which ordinal 1 is a Monday.
\<close>

type_synonym uid = nat
type_synonym instant = int
type_synonym day = int

definition seconds :: "int \<Rightarrow> int" where
  "seconds n = n * 1000000"

definition minutes :: "int \<Rightarrow> int" where
  "minutes n = seconds (60 * n)"

definition hours :: "int \<Rightarrow> int" where
  "hours n = minutes (60 * n)"

definition days :: "int \<Rightarrow> int" where
  "days n = hours (24 * n)"

lemma duration_pos:
  "0 < n \<Longrightarrow> 0 < seconds n" "0 < n \<Longrightarrow> 0 < minutes n"
  "0 < n \<Longrightarrow> 0 < hours n" "0 < n \<Longrightarrow> 0 < days n"
  by (simp_all add: seconds_def minutes_def hours_def days_def)

text \<open>\<^verbatim>\<open>date.weekday()\<close>: Monday is 0, Saturday 5, Sunday 6.\<close>

definition weekday :: "day \<Rightarrow> int" where
  "weekday d = (d - 1) mod 7"

lemma weekday_range: "0 \<le> weekday d" "weekday d \<le> 6"
  by (simp_all add: weekday_def)

section \<open>Collections of the development\<close>

named_theorems svc_defs \<open>definitions of the service combinators\<close>
named_theorems frame_simps \<open>which tables an operation leaves alone\<close>
named_theorems table_simps \<open>rewriting of table queries after table updates\<close>

section \<open>Tables\<close>

text \<open>
  A table is the list of its rows in insertion order. \<open>update_where\<close> is
  \<^verbatim>\<open>query.filter(P).update(...)\<close> (and the mutation of the mapped object whose id is given),
  \<open>count_where\<close> is \<^verbatim>\<open>query.filter(P).count()\<close>; \<^verbatim>\<open>query.filter(P).first()\<close> is the library's
  \<^const>\<open>find\<close>, \<^verbatim>\<open>all()\<close> is \<^const>\<open>filter\<close>.
\<close>

definition update_where :: "('r \<Rightarrow> bool) \<Rightarrow> ('r \<Rightarrow> 'r) \<Rightarrow> 'r list \<Rightarrow> 'r list" where
  "update_where P f t = map (\<lambda>r. if P r then f r else r) t"

definition count_where :: "('r \<Rightarrow> bool) \<Rightarrow> 'r list \<Rightarrow> nat" where
  "count_where P t = length (filter P t)"

definition delete_where :: "('r \<Rightarrow> bool) \<Rightarrow> 'r list \<Rightarrow> 'r list" where
  "delete_where P t = filter (\<lambda>r. \<not> P r) t"

lemma update_where_Nil [simp]: "update_where P f [] = []"
  by (simp add: update_where_def)

lemma update_where_Cons [simp]:
  "update_where P f (r # t) = (if P r then f r else r) # update_where P f t"
  by (simp add: update_where_def)

lemma update_where_append [simp]:
  "update_where P f (t @ u) = update_where P f t @ update_where P f u"
  by (simp add: update_where_def)

lemma length_update_where [simp]: "length (update_where P f t) = length t"
  by (simp add: update_where_def)

lemma set_update_where:
  "set (update_where P f t) = (\<lambda>r. if P r then f r else r) ` set t"
  by (simp add: update_where_def)

lemma in_update_whereE:
  assumes "r \<in> set (update_where P f t)"
  obtains r0 where "r0 \<in> set t" "r = (if P r0 then f r0 else r0)"
  using assms by (auto simp: set_update_where)

lemma ex_update_where:
  "(\<And>r. P r \<Longrightarrow> Q (f r) = Q r) \<Longrightarrow> (\<exists>x \<in> set (update_where P f t). Q x) = (\<exists>x \<in> set t. Q x)"
  by (induction t) auto

lemma all_update_where:
  "(\<And>r. r \<in> set t \<Longrightarrow> P r \<Longrightarrow> Q r \<Longrightarrow> Q (f r)) \<Longrightarrow> \<forall>x \<in> set t. Q x \<Longrightarrow>
   \<forall>x \<in> set (update_where P f t). Q x"
  by (induction t) auto

lemma update_where_id: "(\<And>r. r \<in> set t \<Longrightarrow> P r \<Longrightarrow> f r = r) \<Longrightarrow> update_where P f t = t"
  by (induction t) auto

lemma update_where_none: "(\<And>r. r \<in> set t \<Longrightarrow> \<not> P r) \<Longrightarrow> update_where P f t = t"
  by (induction t) auto

lemma map_update_where:
  "(\<And>r. P r \<Longrightarrow> g (f r) = g r) \<Longrightarrow> map g (update_where P f t) = map g t"
  by (induction t) auto

lemma filter_update_where:
  "(\<And>r. P r \<Longrightarrow> Q (f r) = Q r) \<Longrightarrow>
   filter Q (update_where P f t) = update_where P f (filter Q t)"
  by (induction t) auto

lemma find_update_where:
  "(\<And>r. P r \<Longrightarrow> Q (f r) = Q r) \<Longrightarrow>
   find Q (update_where P f t) = map_option (\<lambda>r. if P r then f r else r) (find Q t)"
  by (induction t) auto

lemma find_append: "find P (xs @ ys) = (case find P xs of None \<Rightarrow> find P ys | Some r \<Rightarrow> Some r)"
  by (induction xs) auto

lemma find_SomeD: "find P xs = Some r \<Longrightarrow> P r \<and> r \<in> set xs"
  by (induction xs) (auto split: if_splits)

lemma find_NoneD: "find P xs = None \<Longrightarrow> r \<in> set xs \<Longrightarrow> \<not> P r"
  by (auto simp: find_None_iff)

lemma find_cong_set: "(\<And>r. r \<in> set t \<Longrightarrow> P r = Q r) \<Longrightarrow> find P t = find Q t"
  by (induction t) auto

text \<open>A query on a unique key finds the row itself.\<close>

lemma find_key_unique:
  assumes "distinct (map k t)" "r \<in> set t"
  shows "find (\<lambda>x. k x = k r) t = Some r"
  using assms by (induction t) (auto simp: image_iff)

lemma distinct_mapD:
  "distinct (map k t) \<Longrightarrow> x \<in> set t \<Longrightarrow> y \<in> set t \<Longrightarrow> k x = k y \<Longrightarrow> x = y"
  by (auto simp: distinct_map dest: inj_onD)

lemma count_where_Nil [simp]: "count_where P [] = 0"
  by (simp add: count_where_def)

lemma count_where_Cons [simp]:
  "count_where P (r # t) = (if P r then Suc (count_where P t) else count_where P t)"
  by (simp add: count_where_def)

lemma count_where_append [simp]: "count_where P (t @ u) = count_where P t + count_where P u"
  by (simp add: count_where_def)

lemma count_where_le: "count_where P t \<le> length t"
  by (simp add: count_where_def)

lemma count_where_0_iff: "count_where P t = 0 \<longleftrightarrow> (\<forall>r \<in> set t. \<not> P r)"
  by (simp add: count_where_def filter_empty_conv)

lemma count_where_all_iff: "count_where P t = length t \<longleftrightarrow> (\<forall>r \<in> set t. P r)"
proof (induction t)
  case (Cons r t)
  then show ?case using count_where_le [of P t] by auto
qed simp

lemma count_where_mono: "(\<And>r. r \<in> set t \<Longrightarrow> P r \<Longrightarrow> Q r) \<Longrightarrow> count_where P t \<le> count_where Q t"
  by (induction t) (auto intro: le_SucI)

lemma count_where_cong: "(\<And>r. r \<in> set t \<Longrightarrow> P r = Q r) \<Longrightarrow> count_where P t = count_where Q t"
  by (induction t) auto

lemma delete_where_simps [simp]:
  "delete_where P [] = []"
  "delete_where P (r # t) = (if P r then delete_where P t else r # delete_where P t)"
  by (simp_all add: delete_where_def)

lemma set_delete_where [simp]: "set (delete_where P t) = {r \<in> set t. \<not> P r}"
  by (auto simp: delete_where_def)

lemma distinct_map_delete_where: "distinct (map k t) \<Longrightarrow> distinct (map k (delete_where P t))"
  by (simp add: delete_where_def distinct_map_filter)

lemma find_delete_where:
  "(\<And>r. Q r \<Longrightarrow> \<not> P r) \<Longrightarrow> find Q (delete_where P t) = find Q t"
  by (induction t) auto

text \<open>Ids drawn from a supply are below it.\<close>

definition ids_below :: "nat \<Rightarrow> nat list \<Rightarrow> bool" where
  "ids_below n xs \<longleftrightarrow> (\<forall>i \<in> set xs. i < n)"

lemma ids_below_simps [simp]:
  "ids_below n []" "ids_below n (i # xs) \<longleftrightarrow> i < n \<and> ids_below n xs"
  "ids_below n (xs @ ys) \<longleftrightarrow> ids_below n xs \<and> ids_below n ys"
  by (auto simp: ids_below_def)

lemma ids_below_mono: "ids_below n xs \<Longrightarrow> n \<le> m \<Longrightarrow> ids_below m xs"
  by (auto simp: ids_below_def)

lemma ids_below_Suc [simp]: "ids_below n xs \<Longrightarrow> ids_below (Suc n) xs"
  by (erule ids_below_mono) simp

lemma ids_below_fresh: "ids_below n xs \<Longrightarrow> n \<notin> set xs"
  by (auto simp: ids_below_def)

lemma ids_below_delete: "ids_below n (map k t) \<Longrightarrow> ids_below n (map k (delete_where P t))"
  by (auto simp: ids_below_def)

section \<open>Ordered queries\<close>

text \<open>
  \<^verbatim>\<open>order_by(k)\<close> is the library's stable \<^const>\<open>sort_key\<close>; the descending order is the
  ascending one by the negated key. \<open>nulls_last\<close> is the key of
  \<^verbatim>\<open>column.asc().nullslast()\<close>.
\<close>

definition nulls_last :: "int option \<Rightarrow> nat \<times> int" where
  "nulls_last x = (case x of None \<Rightarrow> (1, 0) | Some d \<Rightarrow> (0, d))"

lemma nulls_last_Some_None: "nulls_last (Some d) < nulls_last None"
  by (simp add: nulls_last_def less_prod_def)

lemma nulls_last_mono: "nulls_last (Some a) \<le> nulls_last (Some b) \<longleftrightarrow> a \<le> b"
  by (simp add: nulls_last_def less_eq_prod_def)

section \<open>Numbers as text\<close>

fun show_nat :: "nat \<Rightarrow> string" where
  "show_nat n = (if n < 10 then [char_of (48 + n)] else show_nat (n div 10) @ [char_of (48 + n mod 10)])"

declare show_nat.simps [simp del]

definition show_int :: "int \<Rightarrow> string" where
  "show_int n = (if n < 0 then ''-'' @ show_nat (nat (- n)) else show_nat (nat n))"

section \<open>Python's rounding of a quotient\<close>

text \<open>
  \<^verbatim>\<open>round(a / b)\<close> rounds to the nearest integer and exact halves to the even one. The source
  only rounds quotients of small integers (percentages), where the float quotient is on the
  same side of every half as the exact one, so the exact quotient is rounded here.
\<close>

definition py_round_div :: "int \<Rightarrow> int \<Rightarrow> int" where
  "py_round_div a b =
     (let q = a div b; r = a mod b
      in if 2 * r < b then q
         else if b < 2 * r then q + 1
         else if even q then q else q + 1)"

lemma py_round_div_exact: "0 < b \<Longrightarrow> py_round_div (m * b) b = m"
  by (simp add: py_round_div_def)

lemma py_round_div_0 [simp]: "0 < b \<Longrightarrow> py_round_div 0 b = 0"
  by (simp add: py_round_div_def)

lemma py_round_div_cases:
  obtains (down) "py_round_div a b = a div b" "2 * (a mod b) \<le> b"
  | (up) "py_round_div a b = a div b + 1" "b \<le> 2 * (a mod b)"
proof -
  have "(py_round_div a b = a div b \<and> 2 * (a mod b) \<le> b) \<or>
        (py_round_div a b = a div b + 1 \<and> b \<le> 2 * (a mod b))"
    by (simp add: py_round_div_def Let_def)
  then show thesis using that by blast
qed

lemma nearest_up_aux:
  fixes a b q r :: int
  assumes "0 < b" "r < b" "b \<le> 2 * r" "b * q + r = a"
  shows "2 * a - b \<le> 2 * (b * q + b) \<and> 2 * (b * q + b) \<le> 2 * a + b"
proof -
  define t where "t = b * q"
  from assms have "0 < b" "r < b" "b \<le> 2 * r" "t + r = a" by (simp_all add: t_def)
  then have "2 * a - b \<le> 2 * (t + b) \<and> 2 * (t + b) \<le> 2 * a + b" by presburger
  then show ?thesis by (simp add: t_def)
qed

text \<open>The result is a nearest integer: its distance to the quotient is at most one half.\<close>

lemma py_round_div_nearest:
  assumes "0 < b"
  shows "2 * a - b \<le> 2 * (b * py_round_div a b) \<and> 2 * (b * py_round_div a b) \<le> 2 * a + b"
proof -
  have a: "b * (a div b) + a mod b = a" by simp
  have r: "0 \<le> a mod b" "a mod b < b" using assms by simp_all
  have d: "b * (a div b + 1) = b * (a div b) + b" by (simp add: distrib_left)
  show ?thesis
  proof (cases a b rule: py_round_div_cases)
    case down
    show ?thesis unfolding down(1) using a r down(2) by linarith
  next
    case up
    show ?thesis unfolding up(1) d
      by (rule nearest_up_aux [OF assms r(2) up(2) a])
  qed
qed

lemma py_round_div_ge:
  assumes "0 < b" "m * b \<le> a"
  shows "m \<le> py_round_div a b"
proof -
  have "m * b div b \<le> a div b" by (rule zdiv_mono1 [OF assms(2,1)])
  then have "m \<le> a div b" using assms(1) by simp
  then show ?thesis by (cases a b rule: py_round_div_cases) auto
qed

lemma py_round_div_le:
  assumes "0 < b" "a \<le> m * b"
  shows "py_round_div a b \<le> m"
proof (rule ccontr)
  assume "\<not> ?thesis"
  then have "m + 1 \<le> py_round_div a b" by simp
  then have "b * (m + 1) \<le> b * py_round_div a b" using assms(1) by simp
  moreover have "b * (m + 1) = m * b + b" by (simp add: algebra_simps)
  moreover note py_round_div_nearest [OF assms(1), of a]
  ultimately have "m * b + b \<le> a + b div 2" by linarith
  with assms show False by linarith
qed

lemma py_round_div_mono:
  assumes "0 < b" "a \<le> c"
  shows "py_round_div a b \<le> py_round_div c b"
proof (cases "a div b = c div b")
  case True
  have "a mod b \<le> c mod b"
    using assms True by (metis minus_mult_div_eq_mod diff_right_mono)
  then show ?thesis using True by (auto simp: py_round_div_def Let_def)
next
  case False
  have "a div b \<le> c div b" using assms by (simp add: zdiv_mono1)
  with False have "a div b + 1 \<le> c div b" by simp
  then show ?thesis by (auto simp: py_round_div_def Let_def)
qed

text \<open>
  \<open>percent\<close> is \<^verbatim>\<open>round(100 * part / whole)\<close>, the form of every completion percentage of the
  code.
\<close>

definition percent :: "nat \<Rightarrow> nat \<Rightarrow> int" where
  "percent part whole = py_round_div (100 * int part) (int whole)"

lemma percent_range: "0 < whole \<Longrightarrow> part \<le> whole \<Longrightarrow> 0 \<le> percent part whole \<and> percent part whole \<le> 100"
  unfolding percent_def
  using py_round_div_ge [of "int whole" 0 "100 * int part"]
    py_round_div_le [of "int whole" "100 * int part" 100]
  by simp

lemma percent_mono: "0 < whole \<Longrightarrow> p \<le> q \<Longrightarrow> percent p whole \<le> percent q whole"
  unfolding percent_def by (rule py_round_div_mono) simp_all

lemma percent_all: "0 < whole \<Longrightarrow> percent whole whole = 100"
  unfolding percent_def using py_round_div_exact [of "int whole" 100] by simp

lemma percent_none: "0 < whole \<Longrightarrow> percent 0 whole = 0"
  by (simp add: percent_def)

text \<open>Below 200 parts a full bar means that every part is done.\<close>

lemma percent_100_iff:
  assumes "0 < whole" "part \<le> whole" "whole < 200"
  shows "percent part whole = 100 \<longleftrightarrow> part = whole"
proof
  assume "percent part whole = 100"
  then have "2 * (int whole * 100) \<le> 2 * (100 * int part) + int whole"
    using py_round_div_nearest [of "int whole" "100 * int part"] assms
    by (simp add: percent_def)
  then have "200 * (whole - part) \<le> whole" using assms(2) by simp
  then have "200 * (whole - part) < 200 * 1" using assms(3) by simp
  then have "whole - part = 0" by simp
  with assms(2) show "part = whole" by simp
qed (use assms percent_all in simp)

end
