(* ===== verification/Enums.thy ===== *)
theory Enums
  imports Prelude
begin

text \<open>
  The enumerations of \<^verbatim>\<open>app/db/models/enums.py\<close>. The members of different enumerations share
  names in the source (\<^verbatim>\<open>pending\<close>, \<^verbatim>\<open>active\<close>, \<^verbatim>\<open>done\<close>), so a constructor is prefixed with the
  initials of its class. The functions \<open>*_value\<close> give the \<^verbatim>\<open>StrEnum\<close> value where the code
  writes it into a payload or parses it from a request.
\<close>

datatype user_status = US_pending_verification | US_active | US_locked | US_disabled

datatype mfa_type = Mfa_none | Mfa_totp | Mfa_sms

datatype business_model = BM_b2b | BM_b2c | BM_b2b2c | BM_marketplace | BM_hardware | BM_services

datatype startup_stage = SS_idea | SS_validation | SS_build | SS_launch | SS_growth | SS_scale

datatype membership_role =
  MR_founder | MR_team_member | MR_mentor | MR_accountant | MR_legal_advisor
  | MR_business_consultant | MR_investor

datatype membership_status = MS_active | MS_suspended | MS_removed

datatype job_status = JS_queued | JS_running | JS_succeeded | JS_failed | JS_cancelled

datatype auth_token_purpose = TP_email_verification | TP_password_reset

datatype oauth_provider = OP_google | OP_apple

datatype invitation_status = IS_pending | IS_accepted | IS_expired | IS_revoked

datatype assessment_type = AT_initial | AT_quarterly

datatype assessment_status = AS_in_progress | AS_completed | AS_abandoned

datatype dimension = D_product | D_market | D_money | D_legal | D_team

datatype recommendation_effort = RE_low | RE_medium | RE_high

datatype recommendation_status = RS_pending | RS_accepted | RS_dismissed

datatype roadmap_status = RM_todo | RM_in_progress | RM_done

datatype task_effort = TE_small | TE_medium | TE_large

datatype mission_status = MiS_pending | MiS_complete

datatype mission_task_status = MT_todo | MT_done | MT_snoozed | MT_rejected

datatype canvas_type =
  CT_business_model | CT_lean | CT_value_prop | CT_mission_vision | CT_swot

datatype record_kind = RK_persona | RK_revenue_stream | RK_competitor | RK_pricing

datatype threat_level = TL_low | TL_medium | TL_high

datatype pricing_model_type = PM_subscription | PM_one_time | PM_usage | PM_freemium | PM_tiered

datatype suggestion_op =
  SO_canvas_update | SO_record_create | SO_record_update | SO_record_delete

datatype suggestion_status = SuS_pending | SuS_approved | SuS_rejected

datatype journal_mood = JM_rough | JM_meh | JM_okay | JM_good | JM_great

datatype document_kind =
  DK_business_plan | DK_pitch_deck | DK_financial_model | DK_meeting_notes | DK_one_pager
  | DK_custom

datatype document_status = DS_draft | DS_final

datatype share_access = SA_view | SA_comment

datatype signature_request_status = SR_awaiting | SR_complete | SR_cancelled

datatype course_level = CL_beginner | CL_intermediate | CL_advanced

datatype business_plan_status = PS_generating | PS_complete | PS_failed

datatype briefing_status = BS_generating | BS_ready | BS_failed

section \<open>Values\<close>

fun membership_role_value :: "membership_role \<Rightarrow> string" where
  "membership_role_value MR_founder = ''founder''"
| "membership_role_value MR_team_member = ''team_member''"
| "membership_role_value MR_mentor = ''mentor''"
| "membership_role_value MR_accountant = ''accountant''"
| "membership_role_value MR_legal_advisor = ''legal_advisor''"
| "membership_role_value MR_business_consultant = ''business_consultant''"
| "membership_role_value MR_investor = ''investor''"

fun roadmap_status_value :: "roadmap_status \<Rightarrow> string" where
  "roadmap_status_value RM_todo = ''todo''"
| "roadmap_status_value RM_in_progress = ''in_progress''"
| "roadmap_status_value RM_done = ''done''"

fun assessment_type_value :: "assessment_type \<Rightarrow> string" where
  "assessment_type_value AT_initial = ''initial''"
| "assessment_type_value AT_quarterly = ''quarterly''"

fun startup_stage_value :: "startup_stage \<Rightarrow> string" where
  "startup_stage_value SS_idea = ''idea''"
| "startup_stage_value SS_validation = ''validation''"
| "startup_stage_value SS_build = ''build''"
| "startup_stage_value SS_launch = ''launch''"
| "startup_stage_value SS_growth = ''growth''"
| "startup_stage_value SS_scale = ''scale''"

text \<open>The order of the declaration of the dimensions, in which the code iterates over them.\<close>

definition all_dimensions :: "dimension list" where
  "all_dimensions = [D_product, D_market, D_money, D_legal, D_team]"

lemma set_all_dimensions [simp]: "set all_dimensions = UNIV"
  by (auto simp: all_dimensions_def intro: dimension.exhaust)

lemma distinct_all_dimensions [simp]: "distinct all_dimensions"
  by (simp add: all_dimensions_def)

fun dimension_value :: "dimension \<Rightarrow> string" where
  "dimension_value D_product = ''product''"
| "dimension_value D_market = ''market''"
| "dimension_value D_money = ''money''"
| "dimension_value D_legal = ''legal''"
| "dimension_value D_team = ''team''"

end
