(* ===== verification/Errors.thy ===== *)
theory Errors
  imports Enums
begin

text \<open>
  The exceptions of \<^verbatim>\<open>app/core/errors.py\<close> (and the ones declared beside their component), with
  the error code and HTTP status the exception handler sends, the result type of the services,
  and JSON values.
\<close>

section \<open>Errors\<close>

text \<open>
  One constructor per subclass of \<^verbatim>\<open>AppError\<close>; \<open>AppErr\<close> is an \<^verbatim>\<open>AppError\<close> built with an explicit
  code, status and the fields of its \<^verbatim>\<open>field_errors\<close>. \<open>RequestInvalid\<close> is FastAPI's
  \<^verbatim>\<open>RequestValidationError\<close>. \<open>Uncaught\<close> is any other Python exception that leaves the handler
  (a 500 response), with the exception's class.
\<close>

datatype app_error =
    EmailTaken | WeakPassword | PasswordTooLong | InvalidCredentials | AccountLocked
  | TokenInvalid | MfaInvalidCode | JournalNotConfigured | JournalContentUnreadable
  | FeatureNotEnabled | Forbidden | NotFound | OnboardingIncomplete "string list"
  | OnboardingAlreadyComplete | InviteEmailMismatch | AlreadyMember | CanvasVersionConflict
  | DocumentVersionConflict | SuggestionNotPending | SignatureNotActive | EmailNotVerified
  | RecommendationResolved | DependencyCycle | Unauthorized | MfaNotConfigured
  | AppErr string nat "string list"
  | RequestInvalid "string list"
  | Uncaught string

fun error_code :: "app_error \<Rightarrow> string" where
  "error_code EmailTaken = ''EMAIL_TAKEN''"
| "error_code WeakPassword = ''WEAK_PASSWORD''"
| "error_code PasswordTooLong = ''PASSWORD_TOO_LONG''"
| "error_code InvalidCredentials = ''INVALID_CREDENTIALS''"
| "error_code AccountLocked = ''ACCOUNT_LOCKED''"
| "error_code TokenInvalid = ''TOKEN_INVALID''"
| "error_code MfaInvalidCode = ''MFA_INVALID_CODE''"
| "error_code JournalNotConfigured = ''JOURNAL_NOT_CONFIGURED''"
| "error_code JournalContentUnreadable = ''JOURNAL_CONTENT_UNREADABLE''"
| "error_code FeatureNotEnabled = ''FEATURE_NOT_ENABLED''"
| "error_code Forbidden = ''FORBIDDEN''"
| "error_code NotFound = ''NOT_FOUND''"
| "error_code (OnboardingIncomplete _) = ''ONBOARDING_INCOMPLETE''"
| "error_code OnboardingAlreadyComplete = ''ONBOARDING_ALREADY_COMPLETE''"
| "error_code InviteEmailMismatch = ''INVITE_EMAIL_MISMATCH''"
| "error_code AlreadyMember = ''ALREADY_MEMBER''"
| "error_code CanvasVersionConflict = ''CANVAS_VERSION_CONFLICT''"
| "error_code DocumentVersionConflict = ''DOCUMENT_VERSION_CONFLICT''"
| "error_code SuggestionNotPending = ''SUGGESTION_NOT_PENDING''"
| "error_code SignatureNotActive = ''SIGNATURE_NOT_ACTIVE''"
| "error_code EmailNotVerified = ''EMAIL_NOT_VERIFIED''"
| "error_code RecommendationResolved = ''RECOMMENDATION_RESOLVED''"
| "error_code DependencyCycle = ''DEPENDENCY_CYCLE''"
| "error_code Unauthorized = ''UNAUTHORIZED''"
| "error_code MfaNotConfigured = ''MFA_NOT_CONFIGURED''"
| "error_code (AppErr c _ _) = c"
| "error_code (RequestInvalid _) = ''VALIDATION_ERROR''"
| "error_code (Uncaught _) = ''INTERNAL''"

fun http_status :: "app_error \<Rightarrow> nat" where
  "http_status EmailTaken = 409"
| "http_status WeakPassword = 422"
| "http_status PasswordTooLong = 422"
| "http_status InvalidCredentials = 401"
| "http_status AccountLocked = 429"
| "http_status TokenInvalid = 400"
| "http_status MfaInvalidCode = 401"
| "http_status JournalNotConfigured = 500"
| "http_status JournalContentUnreadable = 500"
| "http_status FeatureNotEnabled = 501"
| "http_status Forbidden = 403"
| "http_status NotFound = 404"
| "http_status (OnboardingIncomplete _) = 422"
| "http_status OnboardingAlreadyComplete = 409"
| "http_status InviteEmailMismatch = 403"
| "http_status AlreadyMember = 409"
| "http_status CanvasVersionConflict = 409"
| "http_status DocumentVersionConflict = 409"
| "http_status SuggestionNotPending = 409"
| "http_status SignatureNotActive = 409"
| "http_status EmailNotVerified = 403"
| "http_status RecommendationResolved = 409"
| "http_status DependencyCycle = 409"
| "http_status Unauthorized = 401"
| "http_status MfaNotConfigured = 500"
| "http_status (AppErr _ st _) = st"
| "http_status (RequestInvalid _) = 422"
| "http_status (Uncaught _) = 500"

text \<open>The 422 with a list of offending fields that many handlers raise.\<close>

definition validation_error :: "string list \<Rightarrow> app_error" where
  "validation_error fields = AppErr ''VALIDATION_ERROR'' 422 fields"

section \<open>Results\<close>

type_synonym 'a result = "app_error + 'a"

text \<open>
  An operation is a function of the database to a result and the database it leaves.
  \<open>run_tx\<close> is a request whose handler commits just before it answers: \<^verbatim>\<open>get_db\<close> closes the
  session of a request that raises without a commit, which rolls its transaction back.
\<close>

definition run_tx :: "('s \<Rightarrow> 'a result \<times> 's) \<Rightarrow> 's \<Rightarrow> 'a result \<times> 's" where
  "run_tx f s = (case f s of (Inl e, _) \<Rightarrow> (Inl e, s) | (Inr a, s') \<Rightarrow> (Inr a, s'))"

definition is_ok :: "'a result \<Rightarrow> bool" where
  "is_ok r = (case r of Inl _ \<Rightarrow> False | Inr _ \<Rightarrow> True)"

lemma is_ok_simps [simp]: "is_ok (Inl e) = False" "is_ok (Inr a) = True"
  by (simp_all add: is_ok_def)

lemma is_okE:
  assumes "is_ok (fst x)"
  obtains a s' where "x = (Inr a, s')"
  using assms by (cases x) (auto simp: is_ok_def split: sum.splits)

lemma run_tx_error: "run_tx f s = (Inl e, s') \<Longrightarrow> s' = s"
  by (auto simp: run_tx_def split: prod.splits sum.splits)

lemma run_tx_ok: "run_tx f s = (Inr a, s') \<longleftrightarrow> f s = (Inr a, s')"
  by (auto simp: run_tx_def split: prod.splits sum.splits)

lemma run_tx_invariant:
  assumes "I s" "\<And>a s'. f s = (Inr a, s') \<Longrightarrow> I s'"
  shows "I (snd (run_tx f s))"
  using assms by (auto simp: run_tx_def split: prod.splits sum.splits)

section \<open>JSON\<close>

text \<open>
  The values of the JSON columns and event payloads. A string that is the text of a UUID
  (\<^verbatim>\<open>str(x.id)\<close>, an ISO instant or date likewise) is kept apart from other strings, since the
  code parses it back. Objects are association lists in insertion order.
\<close>

datatype json =
    JNull | JBool bool | JInt int | JStr string | JUid uid | JTime instant | JDay day
  | JList "json list" | JObj "(string \<times> json) list"

text \<open>Python's truth value of the decoded value.\<close>

fun truthy :: "json \<Rightarrow> bool" where
  "truthy JNull = False"
| "truthy (JBool b) = b"
| "truthy (JInt n) = (n \<noteq> 0)"
| "truthy (JStr x) = (x \<noteq> [])"
| "truthy (JUid _) = True"
| "truthy (JTime _) = True"
| "truthy (JDay _) = True"
| "truthy (JList xs) = (xs \<noteq> [])"
| "truthy (JObj kvs) = (kvs \<noteq> [])"

type_synonym payload = "(string \<times> json) list"

definition jget :: "payload \<Rightarrow> string \<Rightarrow> json" where
  "jget p k = (case map_of p k of None \<Rightarrow> JNull | Some v \<Rightarrow> v)"

definition opt_json :: "('a \<Rightarrow> json) \<Rightarrow> 'a option \<Rightarrow> json" where
  "opt_json f x = (case x of None \<Rightarrow> JNull | Some v \<Rightarrow> f v)"

end
