(* ===== verification/Platform.thy ===== *)
theory Platform
  imports Errors
begin

text \<open>
  The platform layer every service writes through: the job queue rows
  (\<^verbatim>\<open>app/platform/jobs.py\<close>, \<^verbatim>\<open>app/db/models/job.py\<close>), the activity feed
  (\<^verbatim>\<open>app/platform/activity.py\<close>) and the audit log (\<^verbatim>\<open>app/platform/audit.py\<close>), with the root of the
  database record. \<open>fresh\<close> is the supply of new UUIDs; \<open>events\<close> is the list of events the actions
  published (\<^verbatim>\<open>event_bus.published\<close>), kept with the transaction that published them.
\<close>

record job =
  j_id :: uid
  j_type :: string
  j_status :: job_status
  j_startup_id :: "uid option"
  j_payload :: payload
  j_result :: "payload option"
  j_error :: "string option"
  j_attempts :: int
  j_run_after :: "instant option"
  j_created_at :: instant
  j_updated_at :: instant

record activity =
  ac_id :: uid
  ac_startup_id :: uid
  ac_actor_user_id :: "uid option"
  ac_action :: string
  ac_entity_type :: "string option"
  ac_entity_id :: "uid option"
  ac_summary :: string
  ac_meta :: "payload option"
  ac_created_at :: instant

record audit =
  au_id :: uid
  au_actor_user_id :: "uid option"
  au_on_behalf_of_user_id :: "uid option"
  au_startup_id :: "uid option"
  au_action :: string
  au_entity_type :: "string option"
  au_entity_id :: "uid option"
  au_before_hash :: "string option"
  au_after_hash :: "string option"
  au_ip :: "string option"
  au_user_agent :: "string option"

record platform_db =
  fresh :: uid
  events :: "(string \<times> payload) list"
  jobs :: "job list"
  activity_log :: "activity list"
  audit_log :: "audit list"

section \<open>Operations\<close>

text \<open>\<^verbatim>\<open>default=uuid.uuid4\<close>: the id of the next row added.\<close>

definition fresh_id :: "'a platform_db_scheme \<Rightarrow> uid \<times> 'a platform_db_scheme" where
  "fresh_id s = (fresh s, s\<lparr>fresh := Suc (fresh s)\<rparr>)"

definition new_job ::
    "uid \<Rightarrow> instant \<Rightarrow> string \<Rightarrow> payload \<Rightarrow> uid option \<Rightarrow> job" where
  "new_job i now ty p st =
     \<lparr>j_id = i, j_type = ty, j_status = JS_queued, j_startup_id = st, j_payload = p,
      j_result = None, j_error = None, j_attempts = 0, j_run_after = None,
      j_created_at = now, j_updated_at = now\<rparr>"

definition enqueue ::
    "instant \<Rightarrow> string \<Rightarrow> payload \<Rightarrow> uid option \<Rightarrow> 'a platform_db_scheme
     \<Rightarrow> job \<times> 'a platform_db_scheme" where
  "enqueue now ty p st s =
     (let j = new_job (fresh s) now ty p st
      in (j, s\<lparr>fresh := Suc (fresh s), jobs := jobs s @ [j]\<rparr>))"

definition write_activity ::
    "instant \<Rightarrow> uid \<Rightarrow> string \<Rightarrow> string \<Rightarrow> uid option \<Rightarrow> string option \<Rightarrow> uid option
     \<Rightarrow> payload option \<Rightarrow> 'a platform_db_scheme \<Rightarrow> 'a platform_db_scheme" where
  "write_activity now st action summary actor ety eid meta s =
     s\<lparr>fresh := Suc (fresh s),
       activity_log := activity_log s @
         [\<lparr>ac_id = fresh s, ac_startup_id = st, ac_actor_user_id = actor, ac_action = action,
           ac_entity_type = ety, ac_entity_id = eid, ac_summary = summary, ac_meta = meta,
           ac_created_at = now\<rparr>]\<rparr>"

definition write_audit ::
    "string \<Rightarrow> uid option \<Rightarrow> uid option \<Rightarrow> string option
     \<Rightarrow> 'a platform_db_scheme \<Rightarrow> 'a platform_db_scheme" where
  "write_audit action actor st ip s =
     s\<lparr>fresh := Suc (fresh s),
       audit_log := audit_log s @
         [\<lparr>au_id = fresh s, au_actor_user_id = actor, au_on_behalf_of_user_id = None,
           au_startup_id = st, au_action = action, au_entity_type = None, au_entity_id = None,
           au_before_hash = None, au_after_hash = None, au_ip = ip, au_user_agent = None\<rparr>]\<rparr>"

lemma new_job_simps [simp]:
  "j_id (new_job i now ty p st) = i" "j_type (new_job i now ty p st) = ty"
  "j_status (new_job i now ty p st) = JS_queued" "j_startup_id (new_job i now ty p st) = st"
  "j_payload (new_job i now ty p st) = p" "j_attempts (new_job i now ty p st) = 0"
  "j_run_after (new_job i now ty p st) = None"
  by (simp_all add: new_job_def)

lemma write_activity_frame [simp]:
  "events (write_activity now st a m actor ety eid meta s) = events s"
  "jobs (write_activity now st a m actor ety eid meta s) = jobs s"
  "audit_log (write_activity now st a m actor ety eid meta s) = audit_log s"
  "fresh (write_activity now st a m actor ety eid meta s) = Suc (fresh s)"
  by (simp_all add: write_activity_def)

lemma write_audit_frame [simp]:
  "events (write_audit a actor st ip s) = events s"
  "jobs (write_audit a actor st ip s) = jobs s"
  "activity_log (write_audit a actor st ip s) = activity_log s"
  "fresh (write_audit a actor st ip s) = Suc (fresh s)"
  by (simp_all add: write_audit_def)

lemma enqueue_frame [simp]:
  "events (snd (enqueue now ty p st s)) = events s"
  "activity_log (snd (enqueue now ty p st s)) = activity_log s"
  "audit_log (snd (enqueue now ty p st s)) = audit_log s"
  "fresh (snd (enqueue now ty p st s)) = Suc (fresh s)"
  by (simp_all add: enqueue_def Let_def)

end
