(* ===== verification/Tenancy.thy ===== *)
theory Tenancy
  imports Platform
begin

text \<open>
  Users, workspaces (startups) and memberships (\<^verbatim>\<open>app/db/models/user.py\<close>, \<^verbatim>\<open>startup.py\<close>,
  \<^verbatim>\<open>membership.py\<close>) and the request guards: authentication (\<^verbatim>\<open>app/api/deps.py\<close>) and tenancy
  (\<^verbatim>\<open>app/db/tenancy.py\<close>).
\<close>

record user_profile =
  up_full_name :: "string option"
  up_role_title :: string
  up_country :: "string option"
  up_phone :: "string option"
  up_how_heard :: "string option"
  up_avatar_url :: "string option"

record user =
  u_id :: uid
  u_email :: string
  u_password_hash :: "string option"
  u_status :: user_status
  u_email_verified_at :: "instant option"
  u_mfa_type :: mfa_type
  u_mfa_secret :: "string option"
  u_mfa_enabled_at :: "instant option"
  u_failed_login_count :: int
  u_locked_until :: "instant option"
  u_last_login_at :: "instant option"
  u_deleted_at :: "instant option"
  u_profile :: "user_profile option"

record startup_profile =
  sp_goals :: "string list"
  sp_notes :: "string option"
  sp_onboarding_step :: int
  sp_onboarding_completed_at :: "instant option"
  sp_assessment_pending :: bool

record startup =
  st_id :: uid
  st_name :: "string option"
  st_description :: "string option"
  st_website :: "string option"
  st_logo_url :: "string option"
  st_industry :: "string option"
  st_business_model :: "business_model option"
  st_stage :: "startup_stage option"
  st_country :: "string option"
  st_created_by :: uid
  st_deleted_at :: "instant option"
  st_profile :: "startup_profile option"

record membership =
  m_id :: uid
  m_user_id :: uid
  m_startup_id :: uid
  m_role :: membership_role
  m_status :: membership_status
  m_invited_by :: "uid option"
  m_joined_at :: "instant option"
  m_created_at :: instant

record core_db = platform_db +
  users :: "user list"
  startups :: "startup list"
  memberships :: "membership list"

text \<open>
  E-mail columns are \<^verbatim>\<open>CITEXT\<close>: they compare without regard to (ASCII) case.
\<close>

definition lower_char :: "char \<Rightarrow> char" where
  "lower_char c = (let n = of_char c :: nat in if 65 \<le> n \<and> n \<le> 90 then char_of (n + 32) else c)"

definition lower_str :: "string \<Rightarrow> string" where
  "lower_str x = map lower_char x"

definition citext_eq :: "string \<Rightarrow> string \<Rightarrow> bool" where
  "citext_eq a b = (lower_str a = lower_str b)"

lemma char_of_odd:
  "char_of (n :: nat) = Char (odd n) (odd (n div 2)) (odd (n div 4)) (odd (n div 8))
     (odd (n div 16)) (odd (n div 32)) (odd (n div 64)) (odd (n div 128))"
  by (simp add: char_of_def bit_iff_odd)

lemma citext_eq_refl [simp]: "citext_eq a a"
  by (simp add: citext_eq_def)

definition user_by_id :: "'a core_db_scheme \<Rightarrow> uid \<Rightarrow> user option" where
  "user_by_id s i = find (\<lambda>u. u_id u = i) (users s)"

definition user_by_email :: "'a core_db_scheme \<Rightarrow> string \<Rightarrow> user option" where
  "user_by_email s e = find (\<lambda>u. citext_eq (u_email u) e) (users s)"

definition startup_by_id :: "'a core_db_scheme \<Rightarrow> uid \<Rightarrow> startup option" where
  "startup_by_id s i = find (\<lambda>x. st_id x = i) (startups s)"

definition update_user :: "uid \<Rightarrow> (user \<Rightarrow> user) \<Rightarrow> 'a core_db_scheme \<Rightarrow> 'a core_db_scheme" where
  "update_user i f s = s\<lparr>users := update_where (\<lambda>u. u_id u = i) f (users s)\<rparr>"

section \<open>Authentication\<close>

text \<open>
  \<open>decode\<close> stands for \<^verbatim>\<open>jwt.decode\<close> with the server's key: \<open>None\<close> for a \<^verbatim>\<open>JWTError\<close>, otherwise the
  \<^verbatim>\<open>sub\<close> claim. \<^verbatim>\<open>uuid.UUID(user_id)\<close> of a string that is no UUID is a \<^verbatim>\<open>ValueError\<close>.
\<close>

definition get_current_user ::
    "(string \<Rightarrow> json option) \<Rightarrow> string option \<Rightarrow> 'a core_db_scheme \<Rightarrow> user result" where
  "get_current_user decode credentials s =
     (case credentials of
        None \<Rightarrow> Inl Unauthorized
      | Some token \<Rightarrow>
          (case decode token of
             None \<Rightarrow> Inl Unauthorized
           | Some sub \<Rightarrow>
               if \<not> truthy sub then Inl Unauthorized
               else (case sub of
                   JUid subject \<Rightarrow>
                     (case find (\<lambda>u. u_id u = subject \<and> u_deleted_at u = None) (users s) of
                        None \<Rightarrow> Inl Unauthorized
                      | Some user \<Rightarrow>
                          if u_status user = US_disabled then Inl Unauthorized else Inr user)
                 | _ \<Rightarrow> Inl Unauthorized)))"

definition get_optional_user ::
    "(string \<Rightarrow> json option) \<Rightarrow> string option \<Rightarrow> 'a core_db_scheme \<Rightarrow> user option" where
  "get_optional_user decode credentials s =
     (case credentials of
        None \<Rightarrow> None
      | Some _ \<Rightarrow> (case get_current_user decode credentials s of Inl _ \<Rightarrow> None | Inr u \<Rightarrow> Some u))"

definition get_verified_user :: "user \<Rightarrow> user result" where
  "get_verified_user user =
     (if u_email_verified_at user = None then Inl EmailNotVerified else Inr user)"

section \<open>Tenancy\<close>

definition resolve_workspace :: "'a core_db_scheme \<Rightarrow> user \<Rightarrow> uid \<Rightarrow> membership result" where
  "resolve_workspace s user workspace_id =
     (case find (\<lambda>m. m_user_id m = u_id user \<and> m_startup_id m = workspace_id
                     \<and> m_status m = MS_active) (memberships s) of
        None \<Rightarrow> Inl Forbidden
      | Some m \<Rightarrow> Inr m)"

definition require_role :: "membership_role list \<Rightarrow> membership \<Rightarrow> membership result" where
  "require_role roles m =
     (if roles \<noteq> [] \<and> m_role m \<notin> set roles then Inl Forbidden else Inr m)"

text \<open>
  The guard of a workspace endpoint: authentication, membership in the workspace named by the
  header, then the roles the endpoint lists.
\<close>

definition workspace_guard ::
    "(string \<Rightarrow> json option) \<Rightarrow> string option \<Rightarrow> uid \<Rightarrow> membership_role list
     \<Rightarrow> 'a core_db_scheme \<Rightarrow> membership result" where
  "workspace_guard decode credentials workspace_id roles s =
     (case get_current_user decode credentials s of
        Inl e \<Rightarrow> Inl e
      | Inr user \<Rightarrow>
          (case resolve_workspace s user workspace_id of
             Inl e \<Rightarrow> Inl e
           | Inr m \<Rightarrow> require_role roles m))"

lemma get_current_user_okD:
  assumes "get_current_user decode cr s = Inr u"
  shows "u \<in> set (users s)" "u_deleted_at u = None" "u_status u \<noteq> US_disabled"
    "\<exists>token. cr = Some token \<and> decode token = Some (JUid (u_id u))"
  using assms
  by (auto simp: get_current_user_def dest: find_SomeD
           split: option.splits if_splits json.splits)

lemma resolve_workspace_okD:
  assumes "resolve_workspace s u w = Inr m"
  shows "m \<in> set (memberships s)" "m_user_id m = u_id u" "m_startup_id m = w"
    "m_status m = MS_active"
  using assms by (auto simp: resolve_workspace_def dest: find_SomeD split: option.splits)

lemma require_role_ok_iff: "require_role roles m = Inr m' \<longleftrightarrow> m' = m \<and> (roles = [] \<or> m_role m \<in> set roles)"
  by (auto simp: require_role_def)

text \<open>
  The claim of the tenancy layer: a request reaches a workspace's handler only on behalf of a
  live account that is an active member of that workspace, in one of the listed roles.
\<close>

lemma workspace_guard_okD:
  assumes "workspace_guard decode cr w roles s = Inr m"
  shows "\<exists>u token. cr = Some token \<and> decode token = Some (JUid (u_id u)) \<and> u \<in> set (users s) \<and>
    u_deleted_at u = None \<and> u_status u \<noteq> US_disabled \<and> m \<in> set (memberships s) \<and>
    m_user_id m = u_id u \<and> m_startup_id m = w \<and> m_status m = MS_active \<and>
    (roles = [] \<or> m_role m \<in> set roles)"
proof -
  obtain u where u: "get_current_user decode cr s = Inr u"
    and r: "(case resolve_workspace s u w of Inl e \<Rightarrow> Inl e | Inr m \<Rightarrow> require_role roles m) = Inr m"
    using assms by (auto simp: workspace_guard_def split: sum.splits)
  then have "resolve_workspace s u w = Inr m" "roles = [] \<or> m_role m \<in> set roles"
    by (auto simp: require_role_ok_iff split: sum.splits)
  then show ?thesis
    using get_current_user_okD [OF u] resolve_workspace_okD by metis
qed

end
