(* ===== verification/Pagination.thy ===== *)
theory Pagination
  imports Prelude
begin

text \<open>
  The interface of a keyset-paginated listing: a page function that is given the key of the last
  row of the previous page and answers the rows strictly after it in descending key order,
  together with the key to continue from. The client of the interface is the caller who follows
  the cursors; what it gets is proved once here, for every listing of the program.
\<close>

text \<open>\<^verbatim>\<open>order_by(k.desc())\<close>, for a unique key.\<close>

definition desc_by :: "('r \<Rightarrow> 'k::linorder) \<Rightarrow> 'r list \<Rightarrow> 'r list" where
  "desc_by k t = rev (sort_key k t)"

lemma desc_by_sorted: "sorted_wrt (\<lambda>a b. k b \<le> k a) (desc_by k t)"
proof -
  have "sorted_wrt (\<lambda>a b. k a \<le> k b) (sort_key k t)"
    using sorted_sort_key [of k t] by (simp add: sorted_map)
  then show ?thesis by (simp add: desc_by_def sorted_wrt_rev)
qed

lemma set_desc_by [simp]: "set (desc_by k t) = set t"
  by (simp add: desc_by_def)

lemma length_desc_by [simp]: "length (desc_by k t) = length t"
  by (simp add: desc_by_def)

lemma filter_desc_by: "filter P (desc_by k t) = desc_by k (filter P t)"
  by (simp add: desc_by_def filter_sort rev_filter [symmetric])

lemma distinct_desc_by: "distinct (map f t) \<Longrightarrow> distinct (map f (desc_by k t))"
  by (simp add: desc_by_def rev_map [symmetric] distinct_map)

text \<open>A caller that follows the cursors, for at most \<open>n\<close> pages.\<close>

fun follow :: "nat \<Rightarrow> ('c option \<Rightarrow> 'r list \<times> 'c option) \<Rightarrow> 'c option \<Rightarrow> 'r list" where
  "follow 0 pg c = []"
| "follow (Suc n) pg c =
     (case pg c of
        (rows, None) \<Rightarrow> rows
      | (rows, Some c') \<Rightarrow> rows @ follow n pg (Some c'))"

lemma follow_encode:
  assumes "\<And>c. pg' (map_option enc c) = (fst (pg c), map_option enc (snd (pg c)))"
  shows "follow n pg' (map_option enc c) = follow n pg c"
proof (induction n arbitrary: c)
  case (Suc n)
  show ?case
  proof (cases "pg c")
    case (Pair rows nxt)
    then have p: "pg' (map_option enc c) = (rows, map_option enc nxt)" using assms [of c] by simp
    show ?thesis
    proof (cases nxt)
      case (Some k)
      then show ?thesis using Pair p Suc.IH [of "Some k"] by simp
    qed (use Pair p in simp)
  qed
qed simp

locale keyset =
  fixes key :: "'r \<Rightarrow> 'k::linorder"
    and listing :: "'s \<Rightarrow> 'r list"
    and bound :: "int \<Rightarrow> nat"
    and page :: "'s \<Rightarrow> int \<Rightarrow> 'k option \<Rightarrow> 'r list \<times> 'k option"
  assumes bound_pos: "0 < bound l"
    and listing_sorted: "sorted_wrt (\<lambda>a b. key b \<le> key a) (listing s)"
    and page_rows: "fst (page s l c) =
      take (bound l) (case c of None \<Rightarrow> listing s | Some k \<Rightarrow> filter (\<lambda>r. key r < k) (listing s))"
    and page_next: "snd (page s l c) =
      (let rest = (case c of None \<Rightarrow> listing s | Some k \<Rightarrow> filter (\<lambda>r. key r < k) (listing s))
       in if bound l < length rest then Some (key (last (take (bound l) rest))) else None)"
begin

definition rest :: "'s \<Rightarrow> 'k option \<Rightarrow> 'r list" where
  "rest s c = (case c of None \<Rightarrow> listing s | Some k \<Rightarrow> filter (\<lambda>r. key r < k) (listing s))"

lemma page_rows_rest: "fst (page s l c) = take (bound l) (rest s c)"
  by (simp add: page_rows rest_def)

lemma page_next_rest:
  "snd (page s l c) =
     (if bound l < length (rest s c) then Some (key (last (take (bound l) (rest s c)))) else None)"
  by (simp add: page_next rest_def Let_def)

lemma page_length: "length (fst (page s l c)) \<le> bound l"
  by (simp add: page_rows_rest)

lemma rest_sorted: "sorted_wrt (\<lambda>a b. key b \<le> key a) (rest s c)"
  by (cases c) (auto simp: rest_def listing_sorted intro: sorted_wrt_filter)

text \<open>Rows of a strictly descending list after its \<open>n\<close>-th are those below the \<open>n\<close>-th key.\<close>

lemma filter_below_nth:
  assumes "sorted_wrt (\<lambda>a b. key b < key a) xs" "0 < n" "n \<le> length xs"
  shows "filter (\<lambda>r. key r < key (xs ! (n - 1))) xs = drop n xs"
  using assms
proof (induction xs arbitrary: n)
  case (Cons x xs)
  show ?case
  proof (cases "n = 1")
    case True
    have "filter (\<lambda>r. key r < key x) xs = xs" using Cons.prems(1) by simp
    then show ?thesis using True by simp
  next
    case False
    then obtain m where m: "n = Suc m" "0 < m" using Cons.prems(2) by (cases n) auto
    with Cons.prems have l: "m \<le> length xs" by simp
    have "xs ! (m - 1) \<in> set xs" using m l by simp
    then have "\<not> key x < key (xs ! (m - 1))" using Cons.prems(1) by force
    moreover have "(x # xs) ! (n - 1) = xs ! (m - 1)" using m by (cases m) auto
    ultimately show ?thesis using Cons.IH [of m] Cons.prems(1) m l by simp
  qed
qed simp

lemma strict_of_distinct:
  "sorted_wrt (\<lambda>a b. key b \<le> key a) xs \<Longrightarrow> distinct (map key xs) \<Longrightarrow>
   sorted_wrt (\<lambda>a b. key b < key a) xs"
  by (induction xs) (force simp: order.strict_iff_order image_iff)+

lemma rest_next:
  assumes "distinct (map key (listing s))" "bound l < length (rest s c)"
  shows "rest s (snd (page s l c)) = drop (bound l) (rest s c)"
proof -
  let ?n = "bound l" and ?R = "rest s c"
  have d: "distinct (map key ?R)"
    using assms(1) by (cases c) (auto simp: rest_def distinct_map_filter)
  have strict: "sorted_wrt (\<lambda>a b. key b < key a) ?R"
    by (rule strict_of_distinct [OF rest_sorted d])
  have last: "last (take ?n ?R) = ?R ! (?n - 1)"
    using assms(2) bound_pos [of l]
    by (subst last_conv_nth) (auto simp: min_def)
  have nxt: "snd (page s l c) = Some (key (?R ! (?n - 1)))"
    using assms(2) last by (simp add: page_next_rest)
  have "rest s (snd (page s l c)) = filter (\<lambda>r. key r < key (?R ! (?n - 1))) (listing s)"
    unfolding nxt by (simp add: rest_def)
  also have "\<dots> = filter (\<lambda>r. key r < key (?R ! (?n - 1))) ?R"
  proof (cases c)
    case (Some k)
    have "?R ! (?n - 1) \<in> set ?R" using assms(2) by simp
    then have "key (?R ! (?n - 1)) < k" using Some by (simp add: rest_def)
    then show ?thesis using Some by (auto simp: rest_def intro!: filter_cong)
  qed (simp add: rest_def)
  also have "\<dots> = drop ?n ?R"
    by (rule filter_below_nth [OF strict bound_pos]) (use assms(2) in simp)
  finally show ?thesis .
qed

text \<open>Following the cursors yields the listing, each row once and in order.\<close>

lemma follow_rest:
  assumes "distinct (map key (listing s))" "length (rest s c) < n"
  shows "follow n (page s l) c = rest s c"
  using assms(2)
proof (induction n arbitrary: c)
  case (Suc n)
  obtain rows nx where p: "page s l c = (rows, nx)" by (cases "page s l c")
  then have rows: "rows = take (bound l) (rest s c)" using page_rows_rest [of s l c] by simp
  show ?case
  proof (cases "bound l < length (rest s c)")
    case True
    then obtain k where k: "nx = Some k" using p page_next_rest [of s l c] by simp
    have r: "rest s (Some k) = drop (bound l) (rest s c)"
      using rest_next [OF assms(1) True] p k by simp
    have "length (rest s (Some k)) < n"
      using Suc.prems bound_pos [of l] True by (simp add: r)
    then have "follow n (page s l) (Some k) = rest s (Some k)" by (rule Suc.IH)
    then show ?thesis using p k rows r by simp
  next
    case False
    then have "nx = None" using p page_next_rest [of s l c] by simp
    then show ?thesis using p rows False by simp
  qed
qed simp

lemma follow_listing:
  "distinct (map key (listing s)) \<Longrightarrow> length (listing s) < n \<Longrightarrow> follow n (page s l) None = listing s"
  using follow_rest [of s None n l] by (simp add: rest_def)

end

end
