(* ===== verification/Notifications.thy ===== *)
theory Notifications
  imports Tenancy Pagination
begin

text \<open>
  Notifications (\<^verbatim>\<open>app/services/notifications\<close>, \<^verbatim>\<open>app/db/models/notification*.py\<close>) and the event
  bus (\<^verbatim>\<open>app/platform/events.py\<close>) whose handlers they are: categories, preferences, the table
  of handled events, the handler, the listing with its cursors and the read marks.
\<close>

record notification =
  n_id :: uid
  n_user_id :: uid
  n_startup_id :: uid
  n_type :: string
  n_title :: string
  n_body :: string
  n_data :: payload
  n_read_at :: "instant option"
  n_created_at :: instant

record notification_preference =
  np_user_id :: uid
  np_startup_id :: uid
  np_master_email :: bool
  np_categories :: "(string \<times> bool) list"

record notif_db = core_db +
  notifications :: "notification list"
  notification_preferences :: "notification_preference list"
  pending_realtime :: "(uid \<times> uid \<times> notification) list"

section \<open>Categories\<close>

definition categories :: "string list" where
  "categories =
     [''documents'', ''business'', ''roadmap_missions'', ''health_assessment'', ''team'']"

definition event_category :: "(string \<times> string) list" where
  "event_category =
     [(''document.shared'', ''documents''),
      (''document.signature.requested'', ''documents''),
      (''document.signature.signed'', ''documents''),
      (''document.signature.completed'', ''documents''),
      (''business.suggestion.created'', ''business''),
      (''business.suggestion.approved'', ''business''),
      (''business.suggestion.rejected'', ''business''),
      (''business.artifact.completed'', ''business''),
      (''business.plan.generated'', ''business''),
      (''roadmap.replanned'', ''roadmap_missions''),
      (''roadmap.milestone.completed'', ''roadmap_missions''),
      (''mission.completed'', ''roadmap_missions''),
      (''mission.streak.milestone'', ''roadmap_missions''),
      (''healthscore.dropped'', ''health_assessment''),
      (''assessment.completed'', ''health_assessment''),
      (''workspace.member.joined'', ''team''),
      (''mission.ready'', ''roadmap_missions''),
      (''roadmap.milestone.overdue'', ''roadmap_missions''),
      (''assessment.quarterly.due'', ''health_assessment'')]"

definition category_default :: "string \<Rightarrow> bool option" where
  "category_default c = (if c \<in> set categories then Some True else None)"

definition category_for :: "string \<Rightarrow> string option" where
  "category_for e = map_of event_category e"

section \<open>Preferences\<close>

definition pref_row :: "'a notif_db_scheme \<Rightarrow> uid \<Rightarrow> uid \<Rightarrow> notification_preference option" where
  "pref_row s uid st =
     find (\<lambda>p. np_user_id p = uid \<and> np_startup_id p = st) (notification_preferences s)"

text \<open>The effective preferences: the master switch and one flag per category.\<close>

definition effective_preferences ::
    "'a notif_db_scheme \<Rightarrow> uid \<Rightarrow> uid \<Rightarrow> bool \<times> (string \<times> bool) list" where
  "effective_preferences s uid st =
     (let row = pref_row s uid st;
          stored = (case row of None \<Rightarrow> [] | Some r \<Rightarrow> np_categories r)
      in ((case row of None \<Rightarrow> True | Some r \<Rightarrow> np_master_email r),
          map (\<lambda>c. (c, case map_of stored c of Some b \<Rightarrow> b
                       | None \<Rightarrow> the (category_default c))) categories))"

text \<open>\<^verbatim>\<open>dict.update\<close>: an existing key keeps its place, a new one goes to the end.\<close>

fun dict_set :: "'k \<Rightarrow> 'v \<Rightarrow> ('k \<times> 'v) list \<Rightarrow> ('k \<times> 'v) list" where
  "dict_set k v [] = [(k, v)]"
| "dict_set k v ((k', v') # d) = (if k' = k then (k, v) # d else (k', v') # dict_set k v d)"

definition dict_update :: "('k \<times> 'v) list \<Rightarrow> ('k \<times> 'v) list \<Rightarrow> ('k \<times> 'v) list" where
  "dict_update d new = foldl (\<lambda>acc (k, v). dict_set k v acc) d new"

definition set_preferences ::
    "uid \<Rightarrow> uid \<Rightarrow> bool option \<Rightarrow> (string \<times> bool) list option \<Rightarrow> 'a notif_db_scheme
     \<Rightarrow> (bool \<times> (string \<times> bool) list) \<times> 'a notif_db_scheme" where
  "set_preferences uid st master cats s =
     (let row = (case pref_row s uid st of
                   Some r \<Rightarrow> r
                 | None \<Rightarrow> \<lparr>np_user_id = uid, np_startup_id = st, np_master_email = True,
                            np_categories = []\<rparr>);
          row1 = (case master of None \<Rightarrow> row | Some b \<Rightarrow> row\<lparr>np_master_email := b\<rparr>);
          row2 = (case cats of
                    Some (c # cs) \<Rightarrow>
                      row1\<lparr>np_categories := dict_update (np_categories row1)
                              (filter (\<lambda>(k, v). k \<in> set categories) (c # cs))\<rparr>
                  | _ \<Rightarrow> row1);
          s' = (case pref_row s uid st of
                  Some _ \<Rightarrow> s\<lparr>notification_preferences :=
                     update_where (\<lambda>p. np_user_id p = uid \<and> np_startup_id p = st) (\<lambda>_. row2)
                       (notification_preferences s)\<rparr>
                | None \<Rightarrow> s\<lparr>notification_preferences := notification_preferences s @ [row2]\<rparr>)
      in (effective_preferences s' uid st, s'))"

definition email_enabled ::
    "'a notif_db_scheme \<Rightarrow> uid \<Rightarrow> uid \<Rightarrow> string option \<Rightarrow> bool" where
  "email_enabled s uid st category =
     (case category of
        None \<Rightarrow> False
      | Some c \<Rightarrow>
          (let (master, cats) = effective_preferences s uid st
           in master \<and> (case map_of cats c of None \<Rightarrow> False | Some b \<Rightarrow> b)))"

section \<open>Creating notifications\<close>

text \<open>
  One row per recipient, ids from the supply, and the live messages queued on the session until
  it commits.
\<close>

definition notification_rows ::
    "uid \<Rightarrow> instant \<Rightarrow> uid list \<Rightarrow> uid \<Rightarrow> string \<Rightarrow> string \<Rightarrow> string \<Rightarrow> payload
     \<Rightarrow> notification list" where
  "notification_rows i now user_ids st ty title body data =
     map (\<lambda>(k, uid). \<lparr>n_id = i + k, n_user_id = uid, n_startup_id = st, n_type = ty,
                      n_title = title, n_body = body, n_data = data, n_read_at = None,
                      n_created_at = now\<rparr>)
       (List.enumerate 0 user_ids)"

definition create_notifications ::
    "instant \<Rightarrow> uid list \<Rightarrow> uid \<Rightarrow> string \<Rightarrow> string \<Rightarrow> string \<Rightarrow> payload \<Rightarrow> 'a notif_db_scheme
     \<Rightarrow> notification list \<times> 'a notif_db_scheme" where
  "create_notifications now user_ids st ty title body data s =
     (let rows = notification_rows (fresh s) now user_ids st ty title body data
      in (rows, s\<lparr>fresh := fresh s + length user_ids,
                  notifications := notifications s @ rows,
                  pending_realtime := pending_realtime s @
                    map (\<lambda>n. (n_startup_id n, n_user_id n, n)) rows\<rparr>))"

section \<open>The handled events\<close>

datatype recipients = Members_minus_actor | Existing_members | All_active_members

definition active_member_ids :: "'a core_db_scheme \<Rightarrow> uid \<Rightarrow> uid option \<Rightarrow> uid list" where
  "active_member_ids s st exclude =
     (let ids = map m_user_id
                  (filter (\<lambda>m. m_startup_id m = st \<and> m_status m = MS_active) (memberships s))
      in case exclude of None \<Rightarrow> ids | Some e \<Rightarrow> filter (\<lambda>i. i \<noteq> e) ids)"

definition actor_keys :: "string list" where
  "actor_keys = [''actor_id'', ''shared_by'', ''created_by'', ''user_id'', ''shared_by_id'',
     ''applied_by'']"

definition actor :: "payload \<Rightarrow> uid option" where
  "actor p =
     (case find (\<lambda>k. truthy (jget p k)) actor_keys of
        None \<Rightarrow> None
      | Some k \<Rightarrow> (case jget p k of JUid u \<Rightarrow> Some u | _ \<Rightarrow> None))"

definition joiner :: "payload \<Rightarrow> uid option" where
  "joiner p = actor [(''user_id'', jget p ''user_id'')]"

definition recipients_of :: "recipients \<Rightarrow> 'a core_db_scheme \<Rightarrow> uid \<Rightarrow> payload \<Rightarrow> uid list" where
  "recipients_of r s st p =
     (case r of
        Members_minus_actor \<Rightarrow> active_member_ids s st (actor p)
      | Existing_members \<Rightarrow> active_member_ids s st (joiner p)
      | All_active_members \<Rightarrow> active_member_ids s st None)"

definition specs :: "(string \<times> recipients \<times> string) list" where
  "specs =
     [(''document.shared'', Members_minus_actor, ''A document was shared in your workspace''),
      (''document.signature.requested'', Members_minus_actor, ''A document needs a signature''),
      (''document.signature.signed'', Members_minus_actor, ''A signer signed a document''),
      (''document.signature.completed'', Members_minus_actor, ''A document is fully signed''),
      (''business.suggestion.created'', Members_minus_actor, ''A consultant suggested a change''),
      (''business.suggestion.approved'', Members_minus_actor, ''A suggestion was approved''),
      (''business.suggestion.rejected'', Members_minus_actor, ''A suggestion was rejected''),
      (''business.artifact.completed'', Members_minus_actor,
         ''A Business Builder artifact was completed''),
      (''roadmap.replanned'', Members_minus_actor, ''Your roadmap was re-planned''),
      (''roadmap.milestone.completed'', Members_minus_actor,
         ''A roadmap milestone was completed''),
      (''mission.completed'', Members_minus_actor, ''Today's mission is complete''),
      (''mission.streak.milestone'', Members_minus_actor,
         ''You hit a mission streak milestone''),
      (''healthscore.dropped'', Members_minus_actor, ''Your Startup Health Score dropped''),
      (''assessment.completed'', Members_minus_actor, ''A startup assessment was completed''),
      (''workspace.member.joined'', Existing_members, ''A new member joined your workspace''),
      (''mission.ready'', All_active_members, ''Today's mission is ready''),
      (''roadmap.milestone.overdue'', All_active_members, ''A roadmap milestone is overdue''),
      (''assessment.quarterly.due'', All_active_members,
         ''Time for your quarterly startup assessment''),
      (''business.plan.generated'', All_active_members, ''Your AI business plan is ready'')]"

text \<open>
  The e-mail of one notification, when its recipient wants it: \<open>email_jobs\<close> is the loop of
  \<^verbatim>\<open>_handle\<close> over the rows just created.
\<close>

definition email_job :: "uid \<Rightarrow> string option \<Rightarrow> instant \<Rightarrow> notification \<Rightarrow> 'a notif_db_scheme
     \<Rightarrow> 'a notif_db_scheme" where
  "email_job st category now n s =
     (if email_enabled s (n_user_id n) (n_startup_id n) category
      then snd (enqueue now ''email.notification'' [(''notification_id'', JUid (n_id n))]
                  (Some st) s)
      else s)"

fun email_jobs :: "uid \<Rightarrow> string option \<Rightarrow> instant \<Rightarrow> notification list \<Rightarrow> 'a notif_db_scheme
     \<Rightarrow> 'a notif_db_scheme" where
  "email_jobs st category now [] s = s"
| "email_jobs st category now (n # ns) s = email_jobs st category now ns (email_job st category now n s)"

text \<open>\<open>None\<close>: the handler raised (a workspace id that is no UUID), and its savepoint is undone.\<close>

definition handle ::
    "instant \<Rightarrow> string \<Rightarrow> payload \<Rightarrow> 'a notif_db_scheme \<Rightarrow> 'a notif_db_scheme option" where
  "handle now event p s =
     (case map_of specs event of
        None \<Rightarrow> Some s
      | Some (rcp, title) \<Rightarrow>
          if \<not> truthy (jget p ''startup_id'') then Some s
          else (case jget p ''startup_id'' of
              JUid st \<Rightarrow>
                (let user_ids = recipients_of rcp s st p
                 in if user_ids = [] then Some s
                    else (let (rows, s') = create_notifications now user_ids st event title [] p s
                          in Some (email_jobs st (category_for event) now rows s')))
            | _ \<Rightarrow> None))"

definition publish ::
    "instant \<Rightarrow> string \<Rightarrow> payload \<Rightarrow> 'a notif_db_scheme \<Rightarrow> 'a notif_db_scheme" where
  "publish now event p s =
     (let s1 = s\<lparr>events := events s @ [(event, p)]\<rparr>
      in case handle now event p s1 of None \<Rightarrow> s1 | Some s2 \<Rightarrow> s2)"

text \<open>
  What publishing may change: the supply, the event list, the job queue (at its end), the
  notifications (at their end) and the queued live messages. Every other table, of this record
  and of its extensions, is left alone.
\<close>

lemma email_jobs_frame:
  "\<exists>f js. email_jobs st cat now ns s = s\<lparr>fresh := f, jobs := jobs s @ js\<rparr> \<and> fresh s \<le> f"
proof (induction ns arbitrary: s)
  case Nil
  have "email_jobs st cat now [] s = s\<lparr>fresh := fresh s, jobs := jobs s @ []\<rparr>" by simp
  then show ?case by blast
next
  case (Cons n ns)
  obtain f js where 1: "email_job st cat now n s = s\<lparr>fresh := f, jobs := jobs s @ js\<rparr>" "fresh s \<le> f"
  proof (cases "email_enabled s (n_user_id n) (n_startup_id n) cat")
    case True
    then show ?thesis
      by (intro that [where f = "Suc (fresh s)"]) (auto simp: email_job_def enqueue_def Let_def)
  next
    case False
    then show ?thesis by (intro that [where f = "fresh s" and js = "[]"]) (simp_all add: email_job_def)
  qed
  moreover obtain g ks where "email_jobs st cat now ns (email_job st cat now n s) =
      (email_job st cat now n s)\<lparr>fresh := g, jobs := jobs (email_job st cat now n s) @ ks\<rparr>"
    "fresh (email_job st cat now n s) \<le> g"
    using Cons.IH by blast
  ultimately have "email_jobs st cat now (n # ns) s = s\<lparr>fresh := g, jobs := jobs s @ (js @ ks)\<rparr>"
    "fresh s \<le> g"
    by simp_all
  then show ?case by blast
qed

lemma handle_frame:
  assumes "handle now e p s = Some s'"
  shows "\<exists>f js ns rs. s' = s\<lparr>fresh := f, jobs := jobs s @ js, notifications := notifications s @ ns,
           pending_realtime := pending_realtime s @ rs\<rparr> \<and> fresh s \<le> f"
proof (cases "s' = s")
  case True
  then have "s' = s\<lparr>fresh := fresh s, jobs := jobs s @ [], notifications := notifications s @ [],
      pending_realtime := pending_realtime s @ []\<rparr>" by simp
  then show ?thesis by blast
next
  case False
  then obtain st rows s1 cat ids title where
    c: "create_notifications now ids st e title [] p s = (rows, s1)"
    and j: "s' = email_jobs st cat now rows s1"
    using assms
    by (auto simp: handle_def Let_def split: option.splits json.splits if_splits prod.splits)
  obtain f js where "s' = s1\<lparr>fresh := f, jobs := jobs s1 @ js\<rparr>" "fresh s1 \<le> f"
    using email_jobs_frame j by metis
  moreover obtain rs where "s1 = s\<lparr>fresh := fresh s + length ids, notifications := notifications s @ rows,
      pending_realtime := pending_realtime s @ rs\<rparr>"
    using c by (auto simp: create_notifications_def Let_def)
  ultimately have "s' = s\<lparr>fresh := f, jobs := jobs s @ js, notifications := notifications s @ rows,
      pending_realtime := pending_realtime s @ rs\<rparr>" "fresh s \<le> f"
    by simp_all
  then show ?thesis by blast
qed

lemma publish_frame:
  obtains f js ns rs where
    "publish now e p s = s\<lparr>fresh := f, events := events s @ [(e, p)], jobs := jobs s @ js,
       notifications := notifications s @ ns, pending_realtime := pending_realtime s @ rs\<rparr>"
    "fresh s \<le> f"
proof (cases "handle now e p (s\<lparr>events := events s @ [(e, p)]\<rparr>)")
  case None
  show ?thesis
    by (rule that [where f = "fresh s" and js = "[]" and ns = "[]" and rs = "[]"]) (simp_all add: publish_def None)
next
  case (Some s2)
  from handle_frame [OF this] obtain f js ns rs where
    "s2 = s\<lparr>events := events s @ [(e, p)], fresh := f, jobs := jobs s @ js,
       notifications := notifications s @ ns, pending_realtime := pending_realtime s @ rs\<rparr>"
    "fresh s \<le> f" by auto
  then show ?thesis by (intro that [where f = f and js = js and ns = ns and rs = rs]) (simp_all add: publish_def Some)
qed

lemma publish_events [simp]: "events (publish now e p s) = events s @ [(e, p)]"
  by (rule publish_frame [of now e p s]) simp

lemma publish_fresh: "fresh s \<le> fresh (publish now e p s)"
  by (rule publish_frame [of now e p s]) simp

lemma publish_core_frame [simp]:
  "users (publish now e p s) = users s" "startups (publish now e p s) = startups s"
  "memberships (publish now e p s) = memberships s"
  "activity_log (publish now e p s) = activity_log s" "audit_log (publish now e p s) = audit_log s"
  "notification_preferences (publish now e p s) = notification_preferences s"
  by (rule publish_frame [of now e p s]; simp)+

lemma publish_more [simp]: "notif_db.more (publish now e p s) = notif_db.more s"
  by (rule publish_frame [of now e p s]) simp

section \<open>Listing and read marks\<close>

text \<open>
  \<open>encode\<close> and \<open>decode\<close> stand for the base64 text of a cursor: \<^verbatim>\<open>_encode_cursor\<close> and
  \<^verbatim>\<open>_decode_cursor\<close>, where \<open>None\<close> is one of the exceptions the latter turns into a 422.
  \<open>notif_page\<close> is the query itself, on decoded cursors.
\<close>

definition notif_key :: "notification \<Rightarrow> instant \<times> uid" where
  "notif_key n = (n_created_at n, n_id n)"

definition owned_by :: "uid \<Rightarrow> uid \<Rightarrow> bool \<Rightarrow> notification \<Rightarrow> bool" where
  "owned_by uid st unread n \<longleftrightarrow>
     n_user_id n = uid \<and> n_startup_id n = st \<and> (unread \<longrightarrow> n_read_at n = None)"

definition notif_limit :: "int \<Rightarrow> nat" where
  "notif_limit l = nat (max 1 (min l 50))"

definition notif_page ::
    "'a notif_db_scheme \<times> uid \<times> uid \<times> bool \<Rightarrow> int \<Rightarrow> (instant \<times> uid) option
     \<Rightarrow> notification list \<times> (instant \<times> uid) option" where
  "notif_page q limit cursor =
     (let (s, uid, st, unread) = q;
          lim = notif_limit limit;
          rows = desc_by notif_key (filter (owned_by uid st unread) (notifications s));
          rows = (case cursor of
                    None \<Rightarrow> rows
                  | Some (c_ts, c_id) \<Rightarrow>
                      filter (\<lambda>n. n_created_at n < c_ts \<or> (n_created_at n = c_ts \<and> n_id n < c_id)) rows);
          rows = take (lim + 1) rows
      in if lim < length rows
         then (let rows = take lim rows; l = last rows
               in (rows, Some (n_created_at l, n_id l)))
         else (rows, None))"

definition list_notifications ::
    "(instant \<times> uid \<Rightarrow> string) \<Rightarrow> (string \<Rightarrow> (instant \<times> uid) option) \<Rightarrow> 'a notif_db_scheme
     \<Rightarrow> uid \<Rightarrow> uid \<Rightarrow> bool \<Rightarrow> int \<Rightarrow> string option \<Rightarrow> (notification list \<times> string option) result" where
  "list_notifications encode decode s uid st unread limit cursor =
     (let page = (\<lambda>c. let (rows, nxt) = notif_page (s, uid, st, unread) limit c
                      in Inr (rows, map_option encode nxt))
      in case cursor of
           None \<Rightarrow> page None
         | Some c \<Rightarrow>
             if c = [] then page None
             else (case decode c of
                     None \<Rightarrow> Inl (validation_error [''cursor''])
                   | Some k \<Rightarrow> page (Some k)))"

definition unread_count :: "'a notif_db_scheme \<Rightarrow> uid \<Rightarrow> uid \<Rightarrow> nat" where
  "unread_count s uid st = count_where (owned_by uid st True) (notifications s)"

definition mark_read ::
    "instant \<Rightarrow> uid \<Rightarrow> uid \<Rightarrow> uid \<Rightarrow> 'a notif_db_scheme \<Rightarrow> notification result \<times> 'a notif_db_scheme" where
  "mark_read now uid st nid s =
     (case find (\<lambda>n. n_id n = nid \<and> n_user_id n = uid \<and> n_startup_id n = st) (notifications s) of
        None \<Rightarrow> (Inl NotFound, s)
      | Some n \<Rightarrow>
          if n_read_at n = None
          then (Inr (n\<lparr>n_read_at := Some now\<rparr>),
                s\<lparr>notifications := update_where (\<lambda>x. n_id x = nid) (\<lambda>x. x\<lparr>n_read_at := Some now\<rparr>)
                                   (notifications s)\<rparr>)
          else (Inr n, s))"

definition mark_all_read ::
    "instant \<Rightarrow> uid \<Rightarrow> uid \<Rightarrow> 'a notif_db_scheme \<Rightarrow> nat \<times> 'a notif_db_scheme" where
  "mark_all_read now uid st s =
     (count_where (owned_by uid st True) (notifications s),
      s\<lparr>notifications := update_where (owned_by uid st True) (\<lambda>x. x\<lparr>n_read_at := Some now\<rparr>)
                         (notifications s)\<rparr>)"

section \<open>The endpoints\<close>

text \<open>
  A workspace endpoint runs its guard (authentication, a verified e-mail, membership, roles) and
  then its body in one transaction. The endpoints of the later theories are bodies for it.
\<close>

definition workspace_request ::
    "(string \<Rightarrow> json option) \<Rightarrow> string option \<Rightarrow> uid \<Rightarrow> membership_role list \<Rightarrow> bool
     \<Rightarrow> (membership \<Rightarrow> 'a core_db_scheme \<Rightarrow> 'b result \<times> 'a core_db_scheme)
     \<Rightarrow> 'a core_db_scheme \<Rightarrow> 'b result \<times> 'a core_db_scheme" where
  "workspace_request decode cr w roles verified body s =
     (case workspace_guard decode cr w roles s of
        Inl e \<Rightarrow> (Inl e, s)
      | Inr m \<Rightarrow>
          (case get_current_user decode cr s of
             Inl e \<Rightarrow> (Inl e, s)
           | Inr user \<Rightarrow>
               if verified \<and> \<not> is_ok (get_verified_user user) then (Inl EmailNotVerified, s)
               else run_tx (body m) s))"

definition list_notifications_endpoint where
  "list_notifications_endpoint encode decode unread limit cursor m s =
     (list_notifications encode decode s (m_user_id m) (m_startup_id m) unread limit cursor, s)"

definition unread_count_endpoint where
  "unread_count_endpoint m s = (Inr (unread_count s (m_user_id m) (m_startup_id m)) :: nat result, s)"

definition mark_read_endpoint where
  "mark_read_endpoint now nid m s = mark_read now (m_user_id m) (m_startup_id m) nid s"

definition read_all_endpoint where
  "read_all_endpoint now m s =
     (let (n, s') = mark_all_read now (m_user_id m) (m_startup_id m) s in (Inr n :: nat result, s'))"

text \<open>\<^verbatim>\<open>PreferencesUpdate\<close> refuses unknown categories before the body runs.\<close>

definition put_preferences_endpoint where
  "put_preferences_endpoint master cats m s =
     (case cats of
        Some cs \<Rightarrow>
          if list_all (\<lambda>(k, v). k \<in> set categories) cs
          then (let (eff, s') = set_preferences (m_user_id m) (m_startup_id m) master cats s
                in (Inr eff, s'))
          else (Inl (RequestInvalid [''categories'']), s)
      | None \<Rightarrow> (let (eff, s') = set_preferences (m_user_id m) (m_startup_id m) master None s
                in (Inr eff, s')))"

section \<open>What the listing and the marks do\<close>

lemma notif_limit_range: "1 \<le> notif_limit l" "notif_limit l \<le> 50"
  by (simp_all add: notif_limit_def)

definition notif_listing :: "'a notif_db_scheme \<times> uid \<times> uid \<times> bool \<Rightarrow> notification list" where
  "notif_listing q =
     (let (s, uid, st, unread) = q
      in desc_by notif_key (filter (owned_by uid st unread) (notifications s)))"

lemma take_Suc_full: "\<not> n < length (take (n + 1) xs) \<Longrightarrow> take (n + 1) xs = take n xs"
  by simp

interpretation nl: keyset notif_key notif_listing notif_limit notif_page
proof
  show "0 < notif_limit l" for l using notif_limit_range(1) [of l] by simp
  show "sorted_wrt (\<lambda>a b. notif_key b \<le> notif_key a) (notif_listing q)" for q
    by (simp add: notif_listing_def desc_by_sorted split: prod.split)
  have lex: "(n_created_at n < t \<or> (n_created_at n = t \<and> n_id n < i)) = (notif_key n < (t, i))"
    for n t i by (auto simp: notif_key_def less_prod_def)
  show "fst (notif_page q l c) = take (notif_limit l)
      (case c of None \<Rightarrow> notif_listing q | Some k \<Rightarrow> filter (\<lambda>r. notif_key r < k) (notif_listing q))"
    for q l c
    by (cases q; cases c) (auto simp: notif_page_def notif_listing_def lex Let_def min_def)
  show "snd (notif_page q l c) =
      (let rest = (case c of None \<Rightarrow> notif_listing q
                     | Some k \<Rightarrow> filter (\<lambda>r. notif_key r < k) (notif_listing q))
       in if notif_limit l < length rest
          then Some (notif_key (last (take (notif_limit l) rest))) else None)" for q l c
    by (cases q; cases c)
      (auto simp: notif_page_def notif_listing_def lex notif_key_def Let_def min_def)
qed

lemma list_notifications_page:
  assumes "\<forall>k. decode (encode k) = Some k \<and> encode k \<noteq> []"
  shows "list_notifications encode decode s uid st unread l (map_option encode c) =
    Inr (fst (notif_page (s, uid, st, unread) l c),
         map_option encode (snd (notif_page (s, uid, st, unread) l c)))"
  using assms by (cases c) (auto simp: list_notifications_def Let_def split: prod.split)

lemma distinct_notif_listing:
  "distinct (map n_id (notifications s)) \<Longrightarrow>
   distinct (map notif_key (notif_listing (s, uid, st, unread)))"
proof -
  assume "distinct (map n_id (notifications s))"
  then have "distinct (map n_id (notif_listing (s, uid, st, unread)))"
    by (simp add: notif_listing_def distinct_desc_by distinct_map_filter)
  then show ?thesis by (auto simp: distinct_map inj_on_def notif_key_def)
qed

text \<open>
  C5: a client that lists its notifications and follows the cursors of the answers receives every
  notification of its own in that workspace exactly once, newest first, whatever page size it
  asks for, and no page is longer than fifty. (Cursor texts decode to what they encode.)
\<close>

theorem notification_pages_complete:
  assumes "\<forall>k. decode (encode k) = Some k \<and> encode k \<noteq> []"
    and "distinct (map n_id (notifications s))"
  shows "follow (Suc (length (notifications s)))
      (\<lambda>c. case list_notifications encode decode s uid st unread limit c of
             Inl _ \<Rightarrow> ([], None) | Inr p \<Rightarrow> p) None
    = notif_listing (s, uid, st, unread)"
proof -
  let ?q = "(s, uid, st, unread)"
  have "follow (Suc (length (notifications s)))
      (\<lambda>c. case list_notifications encode decode s uid st unread limit c of
             Inl _ \<Rightarrow> ([], None) | Inr p \<Rightarrow> p) (map_option encode None)
    = follow (Suc (length (notifications s))) (notif_page ?q limit) None"
    by (rule follow_encode) (simp add: list_notifications_page [OF assms(1)])
  also have "\<dots> = notif_listing ?q"
    by (rule nl.follow_listing [OF distinct_notif_listing [OF assms(2)]])
      (simp add: notif_listing_def le_imp_less_Suc)
  finally show ?thesis by simp
qed

text \<open>A concrete cursor text, for the witness: both numbers in unary.\<close>

definition unary_encode :: "instant \<times> uid \<Rightarrow> string" where
  "unary_encode k = (case k of (t, i) \<Rightarrow>
     replicate (nat t) CHR ''p'' @ replicate (nat (- t)) CHR ''m'' @ [CHR ''.'']
       @ replicate i CHR ''i'')"

definition unary_decode :: "string \<Rightarrow> (instant \<times> uid) option" where
  "unary_decode c =
     Some (int (length (filter (\<lambda>x. x = CHR ''p'') c)) - int (length (filter (\<lambda>x. x = CHR ''m'') c)),
           length (filter (\<lambda>x. x = CHR ''i'') c))"

lemma unary_decode_encode: "\<forall>k. unary_decode (unary_encode k) = Some k \<and> unary_encode k \<noteq> []"
  by (auto simp: unary_decode_def unary_encode_def filter_replicate)

definition sample_notification :: "uid \<Rightarrow> instant \<Rightarrow> notification" where
  "sample_notification i t =
     \<lparr>n_id = i, n_user_id = 7, n_startup_id = 9, n_type = ''mission.ready'', n_title = [],
      n_body = [], n_data = [], n_read_at = None, n_created_at = t\<rparr>"

definition empty_notif_db :: "unit notif_db_scheme" where
  "empty_notif_db =
     \<lparr>fresh = 0, events = [], jobs = [], activity_log = [], audit_log = [],
      users = [], startups = [], memberships = [],
      notifications = [], notification_preferences = [], pending_realtime = [], \<dots> = ()\<rparr>"

lemma notification_pages_complete_witness:
  "follow 4 (\<lambda>c. case list_notifications unary_encode unary_decode
        (empty_notif_db\<lparr>notifications := [sample_notification 0 5, sample_notification 1 3,
           sample_notification 2 5]\<rparr>) 7 9 True 1 c of
       Inl _ \<Rightarrow> ([], None) | Inr p \<Rightarrow> p) None
   = [sample_notification 2 5, sample_notification 0 5, sample_notification 1 3]"
  using notification_pages_complete [OF unary_decode_encode,
      where s = "empty_notif_db\<lparr>notifications := [sample_notification 0 5, sample_notification 1 3,
           sample_notification 2 5]\<rparr>" and uid = 7 and st = 9 and unread = True and limit = 1]
  by (simp add: notif_listing_def desc_by_def sample_notification_def owned_by_def notif_key_def
      less_prod_def less_eq_prod_def eval_nat_numeral)

lemma owned_by_read [simp]: "owned_by u st True (n\<lparr>n_read_at := Some t\<rparr>) = False"
  by (simp add: owned_by_def)

lemma count_where_update_all:
  "(\<And>r. P r \<Longrightarrow> \<not> P (f r)) \<Longrightarrow> count_where P (update_where P f t) = 0"
  by (induction t) auto

lemma count_where_update_one:
  assumes "distinct (map k t)" "r \<in> set t" "P r" "\<not> P (f r)"
  shows "Suc (count_where P (update_where (\<lambda>x. k x = k r) f t)) = count_where P t"
  using assms
proof (induction t)
  case (Cons a t)
  have "update_where (\<lambda>x. k x = k r) f t = t" if "a = r"
    using Cons.prems(1) that by (auto intro!: update_where_none simp: image_iff)
  moreover have "k a \<noteq> k r" if "a \<noteq> r"
    using Cons.prems(1,2) that by (auto simp: image_iff)
  ultimately show ?case using Cons by (cases "a = r") auto
qed simp

text \<open>
  Marking a notification read is idempotent and keeps the first reading time: it answers the
  row with a reading time, a second call (at any later time) answers the same row and changes
  nothing, and the owner's unread count drops by one exactly when the row was unread. A
  notification of another user or workspace is not found. Marking all answers the count and
  leaves none unread.
\<close>

theorem mark_read_spec:
  assumes "distinct (map n_id (notifications s))"
    and "mark_read now uid st i s = (r, s')"
  shows "(case r of
      Inl e \<Rightarrow> e = NotFound \<and> s' = s \<and> (\<forall>n \<in> set (notifications s). n_id n = i \<longrightarrow> n_user_id n \<noteq> uid \<or> n_startup_id n \<noteq> st)
    | Inr n \<Rightarrow> n_id n = i \<and> n_user_id n = uid \<and> n_startup_id n = st \<and> n_read_at n \<noteq> None
        \<and> mark_read later uid st i s' = (Inr n, s')
        \<and> unread_count s uid st = unread_count s' uid st +
              (if \<exists>m \<in> set (notifications s). n_id m = i \<and> n_read_at m = None then 1 else 0))
    \<and> fst (mark_all_read now uid st s) = unread_count s uid st
    \<and> unread_count (snd (mark_all_read now uid st s)) uid st = 0"
proof -
  let ?P = "\<lambda>n. n_id n = i \<and> n_user_id n = uid \<and> n_startup_id n = st"
  have all: "fst (mark_all_read now uid st s) = unread_count s uid st"
    "unread_count (snd (mark_all_read now uid st s)) uid st = 0"
    by (simp_all add: mark_all_read_def unread_count_def count_where_update_all)
  show ?thesis
  proof (cases "find ?P (notifications s)")
    case None
    then have "r = Inl NotFound" "s' = s" using assms(2) by (simp_all add: mark_read_def)
    then show ?thesis using all find_NoneD [OF None] by auto
  next
    case (Some n)
    have n: "?P n" "n \<in> set (notifications s)" using find_SomeD [OF Some] by auto
    have inj: "inj_on n_id (set (notifications s))" using assms(1) by (simp add: distinct_map)
    have unread: "(\<exists>m \<in> set (notifications s). n_id m = i \<and> n_read_at m = None) \<longleftrightarrow> n_read_at n = None"
      using n inj_onD [OF inj] by metis
    show ?thesis
    proof (cases "n_read_at n")
      case (Some t)
      then have "r = Inr n" "s' = s" using assms(2) \<open>find _ _ = _\<close> by (simp_all add: mark_read_def)
      then show ?thesis using all n Some \<open>find _ _ = _\<close> unfolding unread
        by (simp add: mark_read_def)
    next
      case None
      let ?f = "\<lambda>x :: notification. x\<lparr>n_read_at := Some now\<rparr>"
      let ?t = "update_where (\<lambda>x. n_id x = i) ?f (notifications s)"
      have r: "r = Inr (?f n)" "s' = s\<lparr>notifications := ?t\<rparr>"
        using assms(2) \<open>find _ _ = _\<close> None by (simp_all add: mark_read_def)
      have "find ?P ?t = Some (?f n)"
        using \<open>find _ _ = _\<close> n(1) by (simp add: find_update_where)
      then have again: "mark_read later uid st i s' = (Inr (?f n), s')"
        by (simp add: r mark_read_def)
      have "Suc (count_where (owned_by uid st True) ?t)
          = count_where (owned_by uid st True) (notifications s)"
        using count_where_update_one [OF assms(1) n(2), of "owned_by uid st True" ?f] n(1) None
        by (simp add: owned_by_def)
      then show ?thesis using all again r n(1) None unfolding unread
        by (simp add: unread_count_def)
    qed
  qed
qed

lemma mark_read_spec_witness:
  "(case mark_read 10 7 9 1 (empty_notif_db\<lparr>notifications := [sample_notification 1 3]\<rparr>) of
      (r, s') \<Rightarrow> r = Inr (sample_notification 1 3\<lparr>n_read_at := Some 10\<rparr>) \<and>
        mark_read 20 7 9 1 s' = (r, s') \<and> unread_count s' 7 9 = 0)"
  using mark_read_spec [where s = "empty_notif_db\<lparr>notifications := [sample_notification 1 3]\<rparr>"
      and now = 10 and uid = 7 and st = 9 and i = 1 and later = 20]
  by (simp add: mark_read_def sample_notification_def unread_count_def owned_by_def)

section \<open>What publishing does\<close>

lemma email_enabled_cong:
  "notification_preferences s = notification_preferences s' \<Longrightarrow>
   email_enabled s u st c = email_enabled s' u st c"
  by (simp add: email_enabled_def effective_preferences_def pref_row_def split: option.split)

lemma email_jobs_jobs:
  "\<exists>js. jobs (email_jobs st cat now ns s) = jobs s @ js \<and>
     map j_payload js = map (\<lambda>n. [(''notification_id'', JUid (n_id n))])
       (filter (\<lambda>n. email_enabled s (n_user_id n) (n_startup_id n) cat) ns) \<and>
     (\<forall>j \<in> set js. j_type j = ''email.notification'' \<and> j_status j = JS_queued)"
proof (induction ns arbitrary: s)
  case (Cons n ns)
  let ?s = "email_job st cat now n s"
  have "notification_preferences ?s = notification_preferences s"
    by (simp add: email_job_def enqueue_def Let_def)
  then have e: "email_enabled ?s u x cat = email_enabled s u x cat" for u x
    by (rule email_enabled_cong)
  obtain js where js: "jobs (email_jobs st cat now ns ?s) = jobs ?s @ js"
    "map j_payload js = map (\<lambda>n. [(''notification_id'', JUid (n_id n))])
       (filter (\<lambda>n. email_enabled s (n_user_id n) (n_startup_id n) cat) ns)"
    "\<forall>j \<in> set js. j_type j = ''email.notification'' \<and> j_status j = JS_queued"
    using Cons.IH [of ?s] unfolding e by blast
  show ?case
  proof (cases "email_enabled s (n_user_id n) (n_startup_id n) cat")
    case True
    let ?j = "new_job (fresh s) now ''email.notification'' [(''notification_id'', JUid (n_id n))] (Some st)"
    have "jobs ?s = jobs s @ [?j]" using True by (simp add: email_job_def enqueue_def Let_def)
    then show ?thesis using js True by (intro exI [of _ "?j # js"]) simp
  next
    case False
    then have "?s = s" by (simp add: email_job_def)
    then show ?thesis using js False by (intro exI [of _ js]) simp
  qed
qed simp

lemma map_notification_rows:
  "map n_user_id (notification_rows i now ids st ty title body data) = ids"
  "\<forall>n \<in> set (notification_rows i now ids st ty title body data).
     n_startup_id n = st \<and> n_type n = ty \<and> n_read_at n = None \<and> n_data n = data"
  by (auto simp: notification_rows_def comp_def case_prod_unfold)

lemma recipients_of_active:
  "u \<in> set (recipients_of r s st p) \<Longrightarrow>
   \<exists>m \<in> set (memberships s). m_user_id m = u \<and> m_startup_id m = st \<and> m_status m = MS_active"
  by (auto simp: recipients_of_def active_member_ids_def Let_def
      split: recipients.splits option.splits)

lemma recipients_cong:
  "memberships s = memberships s' \<Longrightarrow> recipients_of r s st p = recipients_of r s' st p"
  by (cases r) (simp_all add: recipients_of_def active_member_ids_def)

lemma publish_handled:
  assumes "map_of specs e = Some (rcp, title)" "jget p ''startup_id'' = JUid st"
    "recipients_of rcp s st p \<noteq> []"
  shows "publish now e p s =
    (let rows = notification_rows (fresh s) now (recipients_of rcp s st p) st e title [] p
     in email_jobs st (category_for e) now rows
         (s\<lparr>events := events s @ [(e, p)], fresh := fresh s + length (recipients_of rcp s st p),
            notifications := notifications s @ rows,
            pending_realtime := pending_realtime s @ map (\<lambda>n. (n_startup_id n, n_user_id n, n)) rows\<rparr>))"
proof -
  have r: "recipients_of rcp (s\<lparr>events := ev\<rparr>) st p = recipients_of rcp s st p" for ev
    by (rule recipients_cong) simp
  show ?thesis
    using assms by (simp add: publish_def handle_def r create_notifications_def Let_def)
qed

lemma email_jobs_notifications [simp]:
  "notifications (email_jobs st cat now ns s) = notifications s"
  using email_jobs_frame [of st cat now ns s] by auto

text \<open>
  C4: publishing a handled event notifies exactly its recipients, in the order of the membership
  rows: each new notification carries the event and its payload, is unread, and belongs to an
  active member of the event's workspace other than the payload's actor (for the events that
  exclude one); and one e-mail job is queued for exactly those recipients whose preferences
  allow the event's category.
\<close>

theorem publish_notifies:
  assumes "map_of specs e = Some (rcp, title)" "jget p ''startup_id'' = JUid st"
  shows "\<exists>ns js. notifications (publish now e p s) = notifications s @ ns
    \<and> map n_user_id ns = recipients_of rcp s st p
    \<and> (\<forall>n \<in> set ns. n_startup_id n = st \<and> n_type n = e \<and> n_data n = p \<and> n_read_at n = None
         \<and> (\<exists>m \<in> set (memberships s). m_user_id m = n_user_id n \<and> m_startup_id m = st \<and> m_status m = MS_active)
         \<and> (rcp = Members_minus_actor \<longrightarrow> actor p \<noteq> Some (n_user_id n)))
    \<and> jobs (publish now e p s) = jobs s @ js
    \<and> map j_payload js = map (\<lambda>n. [(''notification_id'', JUid (n_id n))])
        (filter (\<lambda>n. email_enabled s (n_user_id n) st (category_for e)) ns)
    \<and> (\<forall>j \<in> set js. j_type j = ''email.notification'' \<and> j_status j = JS_queued)"
proof (cases "recipients_of rcp s st p = []")
  case True
  then have "recipients_of rcp (s\<lparr>events := ev\<rparr>) st p = []" for ev
    using recipients_cong [of "s\<lparr>events := ev\<rparr>" s] by simp
  then have "publish now e p s = s\<lparr>events := events s @ [(e, p)]\<rparr>"
    using assms by (simp add: publish_def handle_def)
  then show ?thesis using True by simp
next
  case False
  let ?R = "recipients_of rcp s st p"
  let ?ns = "notification_rows (fresh s) now ?R st e title [] p"
  let ?s = "s\<lparr>events := events s @ [(e, p)], fresh := fresh s + length ?R,
            notifications := notifications s @ ?ns,
            pending_realtime := pending_realtime s @ map (\<lambda>n. (n_startup_id n, n_user_id n, n)) ?ns\<rparr>"
  have pub: "publish now e p s = email_jobs st (category_for e) now ?ns ?s"
    using publish_handled [OF assms False] by (simp add: Let_def)
  have en: "email_enabled ?s u x c = email_enabled s u x c" for u x c
    by (rule email_enabled_cong) simp
  have rows: "map n_user_id ?ns = ?R"
    "\<forall>n \<in> set ?ns. n_startup_id n = st \<and> n_type n = e \<and> n_read_at n = None \<and> n_data n = p"
    by (rule map_notification_rows)+
  have member: "n_user_id n \<in> set ?R" if "n \<in> set ?ns" for n
    using that rows(1) by (metis image_eqI set_map)
  have other: "actor p \<noteq> Some (n_user_id n)" if "n \<in> set ?ns" "rcp = Members_minus_actor" for n
    using member [OF that(1)] that(2)
    by (auto simp: recipients_of_def active_member_ids_def Let_def)
  have filt: "filter (\<lambda>n. email_enabled s (n_user_id n) (n_startup_id n) (category_for e)) ?ns
      = filter (\<lambda>n. email_enabled s (n_user_id n) st (category_for e)) ?ns"
    using rows(2) by (intro filter_cong) simp_all
  obtain js where js: "jobs (email_jobs st (category_for e) now ?ns ?s) = jobs ?s @ js"
    "map j_payload js = map (\<lambda>n. [(''notification_id'', JUid (n_id n))])
       (filter (\<lambda>n. email_enabled s (n_user_id n) st (category_for e)) ?ns)"
    "\<forall>j \<in> set js. j_type j = ''email.notification'' \<and> j_status j = JS_queued"
    using email_jobs_jobs [of st "category_for e" now ?ns ?s] unfolding en filt by blast
  have new: "notifications (publish now e p s) = notifications s @ ?ns"
    "jobs (publish now e p s) = jobs s @ js"
    by (simp_all add: pub js(1))
  show ?thesis
    using new rows(1) js(2,3) rows(2) recipients_of_active [OF member] other
    by (intro exI [of _ ?ns] exI [of _ js]) blast
qed

definition sample_member :: "uid \<Rightarrow> membership_role \<Rightarrow> membership_status \<Rightarrow> membership" where
  "sample_member u r ms =
     \<lparr>m_id = u + 100, m_user_id = u, m_startup_id = 9, m_role = r, m_status = ms,
      m_invited_by = None, m_joined_at = None, m_created_at = 0\<rparr>"

lemma publish_notifies_witness:
  "\<exists>ns. notifications (publish 5 ''mission.completed'' [(''startup_id'', JUid 9), (''user_id'', JUid 7)]
        (empty_notif_db\<lparr>memberships := [sample_member 7 MR_founder MS_active,
           sample_member 8 MR_team_member MS_active, sample_member 6 MR_mentor MS_removed]\<rparr>)) = ns
     \<and> map n_user_id ns = [8]"
proof -
  let ?s = "empty_notif_db\<lparr>memberships := [sample_member 7 MR_founder MS_active,
           sample_member 8 MR_team_member MS_active, sample_member 6 MR_mentor MS_removed]\<rparr>"
  let ?p = "[(''startup_id'', JUid 9), (''user_id'', JUid 7)]"
  have "map_of specs ''mission.completed'' = Some (Members_minus_actor, ''Today's mission is complete'')"
    "jget ?p ''startup_id'' = JUid 9"
    by (simp_all add: specs_def jget_def)
  note publish_notifies [OF this, where s = ?s and now = 5]
  moreover have "recipients_of Members_minus_actor ?s 9 ?p = [8]"
    by (simp add: recipients_of_def active_member_ids_def actor_def actor_keys_def jget_def
        sample_member_def)
  moreover have "notifications ?s = []" by (simp add: empty_notif_db_def)
  ultimately show ?thesis by (metis append_Nil)
qed

section \<open>Preferences\<close>

lemma map_of_dict_set [simp]: "map_of (dict_set k v d) = (map_of d)(k \<mapsto> v)"
  by (induction d) (auto simp: fun_upd_twist)

lemma map_of_dict_update: "map_of (dict_update d new) = map_of d ++ map_of (rev new)"
proof (induction new arbitrary: d)
  case (Cons kv new)
  then show ?case
    by (cases kv) (simp add: dict_update_def map_add_def fun_eq_iff split: option.split)
qed (simp add: dict_update_def)

definition updated_row ::
    "bool option \<Rightarrow> (string \<times> bool) list option \<Rightarrow> notification_preference \<Rightarrow> notification_preference" where
  "updated_row master cats row =
     row\<lparr>np_master_email := (case master of None \<Rightarrow> np_master_email row | Some b \<Rightarrow> b),
         np_categories := dict_update (np_categories row)
           (filter (\<lambda>(k, v). k \<in> set categories) (case cats of None \<Rightarrow> [] | Some cs \<Rightarrow> cs))\<rparr>"

definition default_row :: "uid \<Rightarrow> uid \<Rightarrow> notification_preference" where
  "default_row u st = \<lparr>np_user_id = u, np_startup_id = st, np_master_email = True, np_categories = []\<rparr>"

lemma find_replaced_row:
  "find P t \<noteq> None \<Longrightarrow> P r \<Longrightarrow> find P (update_where P (\<lambda>_. r) t) = Some r"
  by (induction t) auto

lemma find_other_row:
  "(\<And>x. P x \<Longrightarrow> \<not> Q x) \<Longrightarrow> \<not> Q r \<Longrightarrow> find Q (update_where P (\<lambda>_. r) t) = find Q t"
  by (induction t) auto

lemma pref_row_set_preferences:
  "pref_row (snd (set_preferences u st master cats s)) u' st' =
     (if u' = u \<and> st' = st
      then Some (updated_row master cats
             (case pref_row s u st of Some r \<Rightarrow> r | None \<Rightarrow> default_row u st))
      else pref_row s u' st')"
proof -
  let ?P = "\<lambda>p. np_user_id p = u \<and> np_startup_id p = st"
  let ?row = "updated_row master cats (case pref_row s u st of Some r \<Rightarrow> r | None \<Rightarrow> default_row u st)"
  have P: "?P ?row"
    by (auto simp: updated_row_def default_row_def pref_row_def dest: find_SomeD split: option.split)
  have set_row: "notification_preferences (snd (set_preferences u st master cats s)) =
      (case pref_row s u st of
         Some _ \<Rightarrow> update_where ?P (\<lambda>_. ?row) (notification_preferences s)
       | None \<Rightarrow> notification_preferences s @ [?row])"
    by (cases master; cases cats)
      (auto simp: set_preferences_def updated_row_def default_row_def Let_def dict_update_def
        split: option.splits list.splits)
  show ?thesis
  proof (cases "pref_row s u st")
    case None
    then have "find ?P (notification_preferences s) = None" by (simp add: pref_row_def)
    then show ?thesis
      using P None by (auto simp: pref_row_def set_row find_append split: option.split)
  next
    case (Some r)
    then have "find ?P (notification_preferences s) \<noteq> None" by (simp add: pref_row_def)
    note here = find_replaced_row [OF this P]
    show ?thesis
    proof (cases "u' = u \<and> st' = st")
      case True
      then show ?thesis using here Some by (simp add: pref_row_def set_row)
    next
      case False
      then have "find (\<lambda>p. np_user_id p = u' \<and> np_startup_id p = st')
          (update_where ?P (\<lambda>_. ?row) (notification_preferences s))
        = find (\<lambda>p. np_user_id p = u' \<and> np_startup_id p = st') (notification_preferences s)"
        using P by (intro find_other_row) auto
      then show ?thesis using False Some by (auto simp: pref_row_def set_row)
    qed
  qed
qed

lemma map_of_effective:
  "map_of (snd (effective_preferences s u st)) c =
     (if c \<in> set categories
      then Some (case (case pref_row s u st of None \<Rightarrow> None | Some r \<Rightarrow> map_of (np_categories r) c) of
                   Some b \<Rightarrow> b | None \<Rightarrow> True)
      else None)"
  by (auto simp: effective_preferences_def Let_def map_of_map_restrict restrict_map_def
      category_default_def split: option.splits)

lemma map_of_rev_filter:
  "map_of (rev (filter (\<lambda>(k, v). P k) xs)) c = (if P c then map_of (rev xs) c else None)"
  by (induction xs) (auto simp: map_add_def split: option.split)

text \<open>
  Saving preferences and reading them back gives the defaults overlaid by every saved choice:
  the master switch is the given one (or the previous effective one), each category is the last
  given value (or its previous effective one), keys that are no category are ignored, and no
  other user's or workspace's effective preferences change.
\<close>

theorem set_preferences_spec:
  "fst (set_preferences u st master cats s) = effective_preferences (snd (set_preferences u st master cats s)) u st
   \<and> fst (effective_preferences (snd (set_preferences u st master cats s)) u st)
       = (case master of Some b \<Rightarrow> b | None \<Rightarrow> fst (effective_preferences s u st))
   \<and> map_of (snd (effective_preferences (snd (set_preferences u st master cats s)) u st)) c
       = (if c \<notin> set categories then None
          else case map_of (rev (case cats of None \<Rightarrow> [] | Some cs \<Rightarrow> cs)) c of
                 Some b \<Rightarrow> Some b | None \<Rightarrow> map_of (snd (effective_preferences s u st)) c)
   \<and> ((u', st') = (u, st) \<or> effective_preferences (snd (set_preferences u st master cats s)) u' st'
         = effective_preferences s u' st')"
proof (intro conjI)
  let ?s' = "snd (set_preferences u st master cats s)"
  let ?row = "case pref_row s u st of Some r \<Rightarrow> r | None \<Rightarrow> default_row u st"
  have row: "pref_row ?s' u st = Some (updated_row master cats ?row)"
    by (simp add: pref_row_set_preferences)
  show "fst (set_preferences u st master cats s) = effective_preferences ?s' u st"
    by (simp add: set_preferences_def Let_def)
  show "fst (effective_preferences ?s' u st)
      = (case master of Some b \<Rightarrow> b | None \<Rightarrow> fst (effective_preferences s u st))"
    by (auto simp: effective_preferences_def row updated_row_def default_row_def Let_def
        split: option.splits)
  show "map_of (snd (effective_preferences ?s' u st)) c
      = (if c \<notin> set categories then None
         else case map_of (rev (case cats of None \<Rightarrow> [] | Some cs \<Rightarrow> cs)) c of
                Some b \<Rightarrow> Some b | None \<Rightarrow> map_of (snd (effective_preferences s u st)) c)"
    unfolding map_of_effective row
    by (auto simp: updated_row_def default_row_def map_of_dict_update map_of_rev_filter map_add_def
        split: option.splits)
  show "(u', st') = (u, st) \<or> effective_preferences ?s' u' st' = effective_preferences s u' st'"
    by (auto simp: effective_preferences_def pref_row_set_preferences)
qed

end
