(* ===== verification/Member_Requests.thy ===== *)
theory Member_Requests
  imports Notifications
begin

text \<open>
  A request on a workspace whose handler is given the account of the caller beside the membership
  (\<^verbatim>\<open>Depends(require_workspace)\<close> and \<^verbatim>\<open>Depends(get_verified_user)\<close>) and does its own commits.
\<close>

text \<open>The outcome of a handler without its response.\<close>

definition ignore :: "'r result \<Rightarrow> unit result" where
  "ignore r = (case r of Inl e \<Rightarrow> Inl e | Inr _ \<Rightarrow> Inr ())"

definition member_request ::
    "(string \<Rightarrow> json option) \<Rightarrow> string option \<Rightarrow> uid \<Rightarrow> membership_role list
     \<Rightarrow> (user \<Rightarrow> membership \<Rightarrow> 'a core_db_scheme \<Rightarrow> 'b result \<times> 'a core_db_scheme)
     \<Rightarrow> 'a core_db_scheme \<Rightarrow> 'b result \<times> 'a core_db_scheme" where
  "member_request decode cr w roles body s =
     (case workspace_guard decode cr w roles s of
        Inl e \<Rightarrow> (Inl e, s)
      | Inr m \<Rightarrow>
          (case get_current_user decode cr s of
             Inl e \<Rightarrow> (Inl e, s)
           | Inr user \<Rightarrow>
               (case get_verified_user user of Inl e \<Rightarrow> (Inl e, s) | Inr user \<Rightarrow> body user m s)))"

text \<open>The handlers that commit just before they answer are the requests of before.\<close>

lemma member_request_tx:
  "workspace_request decode cr w roles True body = member_request decode cr w roles (\<lambda>_ m. run_tx (body m))"
  by (rule ext) (auto simp: workspace_request_def member_request_def get_verified_user_def split: sum.split)

lemma member_request_invariant:
  assumes "I s" "\<And>u m. I s \<Longrightarrow> m_user_id m = u_id u \<Longrightarrow> m_startup_id m = w \<Longrightarrow> I (snd (body u m s))"
  shows "I (snd (member_request decode cr w roles body s))"
proof (cases "workspace_guard decode cr w roles s")
  case (Inr m)
  show ?thesis
  proof (cases "get_current_user decode cr s")
    case (Inr u)
    then have "m_user_id m = u_id u" "m_startup_id m = w"
      using \<open>workspace_guard decode cr w roles s = Inr m\<close>
      by (auto simp: workspace_guard_def require_role_ok_iff dest: resolve_workspace_okD split: sum.splits)
    then show ?thesis
      using Inr \<open>workspace_guard decode cr w roles s = Inr m\<close> assms
      by (simp add: member_request_def get_verified_user_def)
  qed (use assms(1) Inr in \<open>simp add: member_request_def\<close>)
qed (use assms(1) in \<open>simp add: member_request_def\<close>)

text \<open>Who a request that is let through acts for.\<close>

lemma member_request_caller:
  obtains (refused) e where "member_request decode cr w roles body s = (Inl e, s)"
  | (let_in) u m where "member_request decode cr w roles body s = body u m s" "u \<in> set (users s)"
      "m \<in> set (memberships s)" "m_user_id m = u_id u" "m_startup_id m = w" "m_status m = MS_active"
      "roles = [] \<or> m_role m \<in> set roles"
proof (cases "workspace_guard decode cr w roles s")
  case (Inl e)
  then show ?thesis by (intro refused) (simp add: member_request_def)
next
  case (Inr m)
  show ?thesis
  proof (cases "get_current_user decode cr s")
    case (Inl e)
    then show ?thesis using Inr by (intro refused) (simp add: member_request_def)
  next
    case (Inr u)
    with \<open>workspace_guard decode cr w roles s = Inr m\<close>
    have m: "m \<in> set (memberships s)" "m_user_id m = u_id u" "m_startup_id m = w" "m_status m = MS_active"
      "roles = [] \<or> m_role m \<in> set roles"
      by (auto simp: workspace_guard_def require_role_ok_iff dest: resolve_workspace_okD split: sum.splits)
    show ?thesis
    proof (cases "u_email_verified_at u")
      case None
      then show ?thesis using Inr \<open>workspace_guard decode cr w roles s = Inr m\<close>
        by (intro refused) (simp add: member_request_def get_verified_user_def)
    next
      case (Some t)
      then show ?thesis using Inr \<open>workspace_guard decode cr w roles s = Inr m\<close> m get_current_user_okD(1) [OF Inr]
        by (intro let_in) (simp_all add: member_request_def get_verified_user_def)
    qed
  qed
qed

end
