(* ===== verification/Py_Text.thy ===== *)
theory Py_Text
  imports Tenancy "HOL-Library.Sublist"
begin

text \<open>
  The methods of Python's \<^verbatim>\<open>str\<close> the services use, on text of the code points below 256 (the
  characters of HOL's \<^typ>\<open>char\<close>): \<^verbatim>\<open>strip\<close>, \<^verbatim>\<open>lower\<close>, \<^verbatim>\<open>splitlines\<close>, \<^verbatim>\<open>in\<close>, and slices of lists.
\<close>

definition is_space :: "char \<Rightarrow> bool" where
  "is_space c = (let n = of_char c :: nat in (9 \<le> n \<and> n \<le> 13) \<or> (28 \<le> n \<and> n \<le> 32) \<or> n = 133 \<or> n = 160)"

definition lstrip :: "string \<Rightarrow> string" where
  "lstrip x = dropWhile is_space x"

definition strip :: "string \<Rightarrow> string" where
  "strip x = rev (lstrip (rev (lstrip x)))"

text \<open>The text strips to nothing: \<^verbatim>\<open>not value.strip()\<close>.\<close>

definition blank :: "string \<Rightarrow> bool" where
  "blank x = (strip x = [])"

lemma blank_iff: "blank x \<longleftrightarrow> (\<forall>c \<in> set x. is_space c)"
proof -
  have "blank x \<longleftrightarrow> (\<forall>c \<in> set (dropWhile is_space x). is_space c)"
    by (simp add: blank_def strip_def lstrip_def)
  also have "\<dots> \<longleftrightarrow> (\<forall>c \<in> set x. is_space c)"
    by (induction x) auto
  finally show ?thesis .
qed

definition py_lower_char :: "char \<Rightarrow> char" where
  "py_lower_char c =
     (let n = of_char c :: nat
      in if 65 \<le> n \<and> n \<le> 90 \<or> 192 \<le> n \<and> n \<le> 222 \<and> n \<noteq> 215 then char_of (n + 32) else c)"

definition py_lower :: "string \<Rightarrow> string" where
  "py_lower x = map py_lower_char x"

lemma py_lower_Nil [simp]: "py_lower [] = []" "py_lower x = [] \<longleftrightarrow> x = []"
  by (simp_all add: py_lower_def)

text \<open>\<^verbatim>\<open>needle in text\<close>.\<close>

definition contains :: "string \<Rightarrow> string \<Rightarrow> bool" where
  "contains needle text = sublist needle text"

text \<open>
  \<^verbatim>\<open>splitlines()\<close>: a carriage return followed by a line feed is one break; a last empty line is
  not reported.
\<close>

definition is_linebreak :: "char \<Rightarrow> bool" where
  "is_linebreak c = (let n = of_char c :: nat in (10 \<le> n \<and> n \<le> 13) \<or> (28 \<le> n \<and> n \<le> 30) \<or> n = 133)"

fun splitlines_from :: "string \<Rightarrow> string \<Rightarrow> string list" where
  "splitlines_from cur [] = (if cur = [] then [] else [cur])"
| "splitlines_from cur (c # cs) =
     (if is_linebreak c then
        cur # splitlines_from []
          (if of_char c = (13 :: nat) \<and> cs \<noteq> [] \<and> of_char (hd cs) = (10 :: nat) then tl cs else cs)
      else splitlines_from (cur @ [c]) cs)"

definition splitlines :: "string \<Rightarrow> string list" where
  "splitlines x = splitlines_from [] x"

text \<open>The first line of a text is the text before its first break.\<close>

lemma splitlines_from_first:
  "cur @ x \<noteq> [] \<Longrightarrow> hd (splitlines_from cur x) = cur @ takeWhile (\<lambda>c. \<not> is_linebreak c) x
    \<and> splitlines_from cur x \<noteq> []"
proof (induction x arbitrary: cur)
  case (Cons c x)
  then show ?case using Cons.IH [of "cur @ [c]"] by simp
qed simp

lemma splitlines_first:
  "(case splitlines x of [] \<Rightarrow> [] | l # _ \<Rightarrow> l) = takeWhile (\<lambda>c. \<not> is_linebreak c) x"
proof (cases "x = []")
  case False
  then show ?thesis using splitlines_from_first [of "[]" x] by (auto simp: splitlines_def split: list.split)
qed (simp add: splitlines_def)

text \<open>\<^verbatim>\<open>rows[offset : offset + limit]\<close>, and \<^verbatim>\<open>.offset(offset).limit(limit)\<close>.\<close>

definition py_slice :: "nat \<Rightarrow> nat \<Rightarrow> 'r list \<Rightarrow> 'r list" where
  "py_slice offset limit rows = take limit (drop offset rows)"

lemma set_py_slice: "set (py_slice o' l rows) \<subseteq> set rows"
  by (auto simp: py_slice_def dest: in_set_takeD in_set_dropD)

text \<open>The pages of a fixed length together are the listing.\<close>

lemma concat_pages:
  "concat (map (\<lambda>k. py_slice (k * l) l rows) [0..<n]) = take (n * l) rows"
proof (induction n)
  case (Suc n)
  have "take (n * l + l) rows = take (n * l) rows @ py_slice (n * l) l rows"
    by (simp add: py_slice_def take_add)
  then show ?case using Suc by (simp add: add.commute)
qed (simp add: py_slice_def)

section \<open>The text of a value\<close>

text \<open>
  \<^verbatim>\<open>repr\<close> and \<^verbatim>\<open>str\<close> of a decoded JSON value. A string that stands for an id, an instant or a day is
  written with its number.
\<close>

definition hex_digit :: "nat \<Rightarrow> char" where
  "hex_digit n = (if n < 10 then char_of (48 + n) else char_of (87 + n))"

definition repr_char :: "char \<Rightarrow> char \<Rightarrow> string" where
  "repr_char q c =
     (let n = of_char c :: nat
      in if c = q \<or> n = 92 then [CHR 92, c]
         else if n = 10 then [CHR 92, CHR ''n''] else if n = 13 then [CHR 92, CHR ''r'']
         else if n = 9 then [CHR 92, CHR ''t'']
         else if n < 32 \<or> 127 \<le> n \<and> n \<le> 160 \<or> n = 173 then [CHR 92, CHR ''x'', hex_digit (n div 16), hex_digit (n mod 16)]
         else [c])"

definition repr_str :: "string \<Rightarrow> string" where
  "repr_str x =
     (let q = (if CHR 39 \<in> set x \<and> CHR 34 \<notin> set x then CHR 34 else CHR 39)
      in [q] @ concat (map (repr_char q) x) @ [q])"

fun join :: "string \<Rightarrow> string list \<Rightarrow> string" where
  "join sep [] = []"
| "join sep [x] = x"
| "join sep (x # y # ys) = x @ sep @ join sep (y # ys)"

fun py_repr :: "json \<Rightarrow> string" where
  "py_repr JNull = ''None''"
| "py_repr (JBool b) = (if b then ''True'' else ''False'')"
| "py_repr (JInt n) = show_int n"
| "py_repr (JStr x) = repr_str x"
| "py_repr (JUid i) = repr_str (show_nat i)"
| "py_repr (JTime t) = repr_str (show_int t)"
| "py_repr (JDay d) = repr_str (show_int d)"
| "py_repr (JList xs) = ''['' @ join '', '' (map py_repr xs) @ '']''"
| "py_repr (JObj kvs) = ''{'' @ join '', '' (map (\<lambda>kv. repr_str (fst kv) @ '': '' @ py_repr (snd kv)) kvs) @ ''}''"

text \<open>\<^verbatim>\<open>isinstance(v, str)\<close>; \<^verbatim>\<open>str(v)\<close>, which leaves a string as it is.\<close>

fun is_text :: "json \<Rightarrow> bool" where
  "is_text (JStr _) = True"
| "is_text (JUid _) = True"
| "is_text (JTime _) = True"
| "is_text (JDay _) = True"
| "is_text _ = False"

definition py_str :: "json \<Rightarrow> json" where
  "py_str v = (if is_text v then v else JStr (py_repr v))"

lemma is_text_py_str [simp]: "is_text (py_str v)"
  by (simp add: py_str_def)

section \<open>Loops that may raise\<close>

text \<open>\<^verbatim>\<open>[f(x) for x in xs]\<close>: the first exception leaves the loop.\<close>

fun map_result :: "('a \<Rightarrow> 'b result) \<Rightarrow> 'a list \<Rightarrow> 'b list result" where
  "map_result f [] = Inr []"
| "map_result f (x # xs) =
     (case f x of
        Inl e \<Rightarrow> Inl e
      | Inr y \<Rightarrow> (case map_result f xs of Inl e \<Rightarrow> Inl e | Inr ys \<Rightarrow> Inr (y # ys)))"

lemma map_result_total: "(\<And>x. x \<in> set xs \<Longrightarrow> f x = Inr (g x)) \<Longrightarrow> map_result f xs = Inr (map g xs)"
  by (induction xs) auto

lemma map_result_okD: "map_result f xs = Inr ys \<Longrightarrow> map (\<lambda>x. f x) xs = map Inr ys"
  by (induction xs arbitrary: ys) (auto split: sum.splits)

lemma map_result_errD: "map_result f xs = Inl e \<Longrightarrow> \<exists>x \<in> set xs. f x = Inl e"
  by (induction xs) (auto split: sum.splits)

lemma map_result_cong: "(\<And>x. x \<in> set xs \<Longrightarrow> f x = g x) \<Longrightarrow> map_result f xs = map_result g xs"
  by (induction xs) (simp_all split: sum.split)

end
