(* ===== verification/Documents.thy ===== *)
theory Documents
  imports Member_Requests Py_Text
begin

text \<open>
  Documents and uploaded files (\<^verbatim>\<open>app/services/documents/service.py\<close>, \<^verbatim>\<open>template_defs.py\<close>,
  \<^verbatim>\<open>files.py\<close>, the models of \<^verbatim>\<open>app/db/models/document.py\<close>), with the tables of the shares and
  signature requests the later theories work on.
\<close>

record doc_section =
  sec_id :: json
  sec_heading :: json
  sec_body :: json

record document =
  d_id :: uid
  d_startup_id :: uid
  d_created_by_id :: "uid option"
  d_kind :: document_kind
  d_status :: document_status
  d_ai_generated :: bool
  d_folder :: "string option"
  d_template_key :: "string option"
  d_title :: string
  d_sections :: "doc_section list"
  d_version :: int
  d_created_at :: instant
  d_updated_at :: instant

text \<open>
  A storage key is \<^verbatim>\<open>documents/{startup.id}/{uuid4().hex}{ext}\<close>, kept as its three parts.
\<close>

type_synonym storage_key = "uid \<times> uid \<times> string"

record document_file =
  df_id :: uid
  df_startup_id :: uid
  df_uploaded_by_id :: "uid option"
  df_folder :: "string option"
  df_filename :: string
  df_content_type :: string
  df_size_bytes :: int
  df_storage_key :: storage_key
  df_url :: string
  df_created_at :: instant

record document_share =
  ds_id :: uid
  ds_startup_id :: uid
  ds_document_id :: uid
  ds_shared_by_id :: "uid option"
  ds_email :: string
  ds_access_level :: share_access
  ds_token_hash :: string
  ds_expires_at :: "instant option"
  ds_revoked_at :: "instant option"
  ds_last_viewed_at :: "instant option"
  ds_created_at :: instant

record signature_request =
  sr_id :: uid
  sr_startup_id :: uid
  sr_file_id :: uid
  sr_title :: string
  sr_status :: signature_request_status
  sr_created_by_id :: "uid option"
  sr_expires_at :: "instant option"
  sr_completed_at :: "instant option"
  sr_cancelled_at :: "instant option"
  sr_created_at :: instant

record signature_signer =
  ss_id :: uid
  ss_request_id :: uid
  ss_email :: string
  ss_name :: "string option"
  ss_token_hash :: string
  ss_position :: nat
  ss_signed_at :: "instant option"
  ss_signed_name :: "string option"
  ss_signed_ip :: "string option"
  ss_signed_user_agent :: "string option"

text \<open>\<open>blobs\<close> is the content of the object store, which is outside the transaction.\<close>

record documents_db = notif_db +
  documents :: "document list"
  document_files :: "document_file list"
  document_shares :: "document_share list"
  signature_requests :: "signature_request list"
  signature_signers :: "signature_signer list"
  blobs :: "storage_key list"

text \<open>
  The widths of the text columns: a longer value makes the flush fail with a \<^verbatim>\<open>DataError\<close>, which
  nothing catches.
\<close>

definition fits :: "nat \<Rightarrow> string \<Rightarrow> bool" where
  "fits n x \<longleftrightarrow> length x \<le> n"

definition fits_opt :: "nat \<Rightarrow> string option \<Rightarrow> bool" where
  "fits_opt n x = (case x of None \<Rightarrow> True | Some v \<Rightarrow> fits n v)"

definition data_error :: app_error where
  "data_error = Uncaught ''DataError''"

fun document_kind_value :: "document_kind \<Rightarrow> string" where
  "document_kind_value DK_business_plan = ''business_plan''"
| "document_kind_value DK_pitch_deck = ''pitch_deck''"
| "document_kind_value DK_financial_model = ''financial_model''"
| "document_kind_value DK_meeting_notes = ''meeting_notes''"
| "document_kind_value DK_one_pager = ''one_pager''"
| "document_kind_value DK_custom = ''custom''"

section \<open>Templates\<close>

record document_template =
  dt_key :: string
  dt_name :: string
  dt_description :: string
  dt_kind :: document_kind
  dt_sections :: "string list"

definition document_templates :: "document_template list" where
  "document_templates =
     [\<lparr>dt_key = ''business_plan'', dt_name = ''Business Plan'', dt_description = ''A full business plan.'',
       dt_kind = DK_business_plan,
       dt_sections = [''Executive Summary'', ''Problem'', ''Solution'', ''Market & Customer'', ''Business Model'',
         ''Go-to-Market'', ''Team'', ''Financials'', ''The Ask'']\<rparr>,
      \<lparr>dt_key = ''pitch_deck'', dt_name = ''Pitch Deck'', dt_description = ''An investor pitch narrative.'',
       dt_kind = DK_pitch_deck,
       dt_sections = [''Hook'', ''Problem'', ''Solution'', ''Why Now'', ''Market'', ''Product'', ''Team'', ''The Ask'']\<rparr>,
      \<lparr>dt_key = ''financial_model'', dt_name = ''Financial Model'', dt_description = ''A lightweight financial narrative.'',
       dt_kind = DK_financial_model,
       dt_sections = [''Assumptions'', ''Revenue'', ''Costs'', ''Runway'', ''Projections'']\<rparr>,
      \<lparr>dt_key = ''meeting_notes'', dt_name = ''Meeting Notes'', dt_description = ''Structured meeting notes.'',
       dt_kind = DK_meeting_notes,
       dt_sections = [''Attendees'', ''Agenda'', ''Discussion'', ''Decisions'', ''Action Items'']\<rparr>,
      \<lparr>dt_key = ''one_pager'', dt_name = ''One-Pager'', dt_description = ''A concise one-page overview.'',
       dt_kind = DK_one_pager,
       dt_sections = [''Overview'', ''Problem'', ''Solution'', ''Traction'', ''The Ask'']\<rparr>]"

definition find_template :: "string \<Rightarrow> document_template result" where
  "find_template template_key =
     (case find (\<lambda>t. dt_key t = template_key) document_templates of None \<Rightarrow> Inl NotFound | Some t \<Rightarrow> Inr t)"

text \<open>New sections with new ids.\<close>

fun empty_sections :: "string list \<Rightarrow> 'a platform_db_scheme \<Rightarrow> doc_section list \<times> 'a platform_db_scheme" where
  "empty_sections [] s = ([], s)"
| "empty_sections (h # hs) s =
     (let (i, s1) = fresh_id s; (rest, s2) = empty_sections hs s1
      in (\<lparr>sec_id = JUid i, sec_heading = JStr h, sec_body = JStr []\<rparr> # rest, s2))"

definition instantiate ::
    "string \<Rightarrow> 'a platform_db_scheme \<Rightarrow> (document_kind \<times> string \<times> doc_section list) result \<times> 'a platform_db_scheme" where
  "instantiate template_key s =
     (case find_template template_key of
        Inl e \<Rightarrow> (Inl e, s)
      | Inr t \<Rightarrow> (let (secs, s1) = empty_sections (dt_sections t) s in (Inr (dt_kind t, dt_name t, secs), s1)))"

section \<open>Documents\<close>

definition section_of :: "uid \<Rightarrow> payload \<Rightarrow> doc_section" where
  "section_of new sec =
     \<lparr>sec_id = (if truthy (jget sec ''id'') then py_str (jget sec ''id'') else JUid new),
      sec_heading = jget sec ''heading'', sec_body = jget sec ''body''\<rparr>"

text \<open>A new id is drawn only for a section that brings none.\<close>

fun validate_sections_from ::
    "nat \<Rightarrow> json list \<Rightarrow> 'a platform_db_scheme \<Rightarrow> doc_section list result \<times> 'a platform_db_scheme" where
  "validate_sections_from i [] s = (Inr [], s)"
| "validate_sections_from i (sec # secs) s =
     (case sec of
        JObj kvs \<Rightarrow>
          if \<not> is_text (jget kvs ''heading'') \<or> \<not> is_text (jget kvs ''body'')
          then (Inl (validation_error [''sections.'' @ show_nat i]), s)
          else (let s1 = (if truthy (jget kvs ''id'') then s else snd (fresh_id s))
                in case validate_sections_from (Suc i) secs s1 of
                     (Inl e, s2) \<Rightarrow> (Inl e, s2)
                   | (Inr out, s2) \<Rightarrow> (Inr (section_of (fresh s) kvs # out), s2))
      | _ \<Rightarrow> (Inl (validation_error [''sections.'' @ show_nat i]), s))"

definition validate_sections ::
    "json list \<Rightarrow> 'a platform_db_scheme \<Rightarrow> doc_section list result \<times> 'a platform_db_scheme" where
  "validate_sections = validate_sections_from 0"

text \<open>The sections as the JSON they are stored as.\<close>

definition section_json :: "doc_section \<Rightarrow> json" where
  "section_json sec = JObj [(''id'', sec_id sec), (''heading'', sec_heading sec), (''body'', sec_body sec)]"

definition create_document ::
    "instant \<Rightarrow> uid \<Rightarrow> uid \<Rightarrow> document_kind \<Rightarrow> string \<Rightarrow> json list \<Rightarrow> string option \<Rightarrow> string option \<Rightarrow> bool
     \<Rightarrow> 'a documents_db_scheme \<Rightarrow> document result \<times> 'a documents_db_scheme" where
  "create_document now startup_id created_by_id kind title sections folder template_key ai_generated s =
     (case validate_sections sections s of
        (Inl e, s1) \<Rightarrow> (Inl e, s1)
      | (Inr secs, s1) \<Rightarrow>
          let (i, s2) = fresh_id s1;
              doc = \<lparr>d_id = i, d_startup_id = startup_id, d_created_by_id = Some created_by_id, d_kind = kind,
                     d_status = DS_draft, d_ai_generated = ai_generated, d_folder = folder, d_template_key = template_key,
                     d_title = title, d_sections = secs, d_version = 1, d_created_at = now, d_updated_at = now\<rparr>
          in if fits 200 title \<and> fits_opt 120 folder \<and> fits_opt 50 template_key
             then (Inr doc, publish now ''document.created''
                     [(''startup_id'', JUid startup_id), (''document_id'', JUid i),
                      (''kind'', JStr (document_kind_value kind))]
                     (s2\<lparr>documents := documents s2 @ [doc]\<rparr>))
             else (Inl data_error, s2))"

definition list_documents ::
    "uid \<Rightarrow> document_kind option \<Rightarrow> string option \<Rightarrow> document_status option \<Rightarrow> 'a documents_db_scheme \<Rightarrow> document list" where
  "list_documents startup_id kind folder status s =
     desc_by d_updated_at
       (filter (\<lambda>d. d_startup_id d = startup_id
           \<and> (case kind of None \<Rightarrow> True | Some k \<Rightarrow> d_kind d = k)
           \<and> (case folder of None \<Rightarrow> True | Some f \<Rightarrow> d_folder d = Some f)
           \<and> (case status of None \<Rightarrow> True | Some x \<Rightarrow> d_status d = x)) (documents s))"

definition get_document :: "'a documents_db_scheme \<Rightarrow> membership \<Rightarrow> uid \<Rightarrow> document result" where
  "get_document s m document_id =
     (case find (\<lambda>d. d_id d = document_id \<and> d_startup_id d = m_startup_id m) (documents s) of
        None \<Rightarrow> Inl NotFound
      | Some d \<Rightarrow> Inr d)"

definition update_document ::
    "instant \<Rightarrow> document \<Rightarrow> string \<Rightarrow> json list \<Rightarrow> document_status \<Rightarrow> string option \<Rightarrow> int
     \<Rightarrow> 'a documents_db_scheme \<Rightarrow> document result \<times> 'a documents_db_scheme" where
  "update_document now doc title sections status folder expected_version s =
     (if expected_version \<noteq> d_version doc then (Inl DocumentVersionConflict, s)
      else case validate_sections sections s of
        (Inl e, s1) \<Rightarrow> (Inl e, s1)
      | (Inr secs, s1) \<Rightarrow>
          let doc' = doc\<lparr>d_title := title, d_sections := secs, d_status := status, d_folder := folder,
                         d_version := d_version doc + 1, d_updated_at := now\<rparr>
          in if fits 200 title \<and> fits_opt 120 folder
             then (Inr doc', s1\<lparr>documents := update_where (\<lambda>d. d_id d = d_id doc) (\<lambda>_. doc') (documents s1)\<rparr>)
             else (Inl data_error, s1))"

text \<open>
  Deleting a document deletes its shares (\<^verbatim>\<open>ON DELETE CASCADE\<close>). The business plans that name it are
  cleared as well (\<^verbatim>\<open>ON DELETE SET NULL\<close>): see \<open>delete_plan_document\<close>, where that table is.
\<close>

definition delete_document :: "document \<Rightarrow> 'a documents_db_scheme \<Rightarrow> 'a documents_db_scheme" where
  "delete_document doc s =
     s\<lparr>documents := delete_where (\<lambda>d. d_id d = d_id doc) (documents s),
       document_shares := delete_where (\<lambda>x. ds_document_id x = d_id doc) (document_shares s)\<rparr>"

section \<open>Files\<close>

definition ext_by_content_type :: "(string \<times> string) list" where
  "ext_by_content_type =
     [(''application/pdf'', ''.pdf''),
      (''application/vnd.openxmlformats-officedocument.wordprocessingml.document'', ''.docx''),
      (''application/vnd.openxmlformats-officedocument.spreadsheetml.sheet'', ''.xlsx''),
      (''application/vnd.openxmlformats-officedocument.presentationml.presentation'', ''.pptx''),
      (''image/png'', ''.png''), (''image/jpeg'', ''.jpg''), (''text/plain'', ''.txt''), (''text/csv'', ''.csv'')]"

text \<open>\<open>url_of\<close> is the URL the object store answers for a key.\<close>

definition upload_file ::
    "(storage_key \<Rightarrow> string) \<Rightarrow> instant \<Rightarrow> uid \<Rightarrow> uid \<Rightarrow> string \<Rightarrow> string \<Rightarrow> int \<Rightarrow> string option
     \<Rightarrow> 'a documents_db_scheme \<Rightarrow> document_file result \<times> 'a documents_db_scheme" where
  "upload_file url_of now startup_id uploaded_by_id filename content_type size_bytes folder s =
     (let ext = (case map_of ext_by_content_type content_type of None \<Rightarrow> [] | Some e \<Rightarrow> e);
          (u, s1) = fresh_id s;
          key = (startup_id, u, ext);
          s2 = s1\<lparr>blobs := key # blobs s1\<rparr>;
          (i, s3) = fresh_id s2;
          row = \<lparr>df_id = i, df_startup_id = startup_id, df_uploaded_by_id = Some uploaded_by_id, df_folder = folder,
                 df_filename = filename, df_content_type = content_type, df_size_bytes = size_bytes,
                 df_storage_key = key, df_url = url_of key, df_created_at = now\<rparr>
      in if fits 255 filename \<and> fits_opt 120 folder \<and> fits 120 content_type \<and> fits 1024 (url_of key)
         then (Inr row, publish now ''document.file.uploaded''
                 [(''startup_id'', JUid startup_id), (''file_id'', JUid i), (''content_type'', JStr content_type)]
                 (s3\<lparr>document_files := document_files s3 @ [row]\<rparr>))
         else (Inl data_error, s3))"

definition list_files :: "uid \<Rightarrow> string option \<Rightarrow> 'a documents_db_scheme \<Rightarrow> document_file list" where
  "list_files startup_id folder s =
     desc_by df_created_at
       (filter (\<lambda>f. df_startup_id f = startup_id
           \<and> (case folder of None \<Rightarrow> True | Some x \<Rightarrow> df_folder f = Some x)) (document_files s))"

definition get_file :: "'a documents_db_scheme \<Rightarrow> membership \<Rightarrow> uid \<Rightarrow> document_file result" where
  "get_file s m file_id =
     (case find (\<lambda>f. df_id f = file_id \<and> df_startup_id f = m_startup_id m) (document_files s) of
        None \<Rightarrow> Inl NotFound
      | Some f \<Rightarrow> Inr f)"

text \<open>The requests to sign a file and their signers go with it.\<close>

definition delete_file :: "instant \<Rightarrow> document_file \<Rightarrow> 'a documents_db_scheme \<Rightarrow> 'a documents_db_scheme" where
  "delete_file now f s =
     (let gone = {r \<in> set (signature_requests s). sr_file_id r = df_id f}
      in publish now ''document.file.deleted''
           [(''startup_id'', JUid (df_startup_id f)), (''file_id'', JUid (df_id f))]
           (s\<lparr>blobs := removeAll (df_storage_key f) (blobs s),
              document_files := delete_where (\<lambda>x. df_id x = df_id f) (document_files s),
              signature_signers := delete_where (\<lambda>x. ss_request_id x \<in> sr_id ` gone) (signature_signers s),
              signature_requests := delete_where (\<lambda>r. sr_file_id r = df_id f) (signature_requests s)\<rparr>))"

end
