(* ===== verification/Business_Defs.thy ===== *)
theory Business_Defs
  imports Documents
begin

text \<open>
  What a canvas and a record of the business builder may hold: the blocks of each canvas
  (\<^verbatim>\<open>app/services/business/canvas_defs.py\<close>) and the schemas of the records
  (\<^verbatim>\<open>record_defs.py\<close>), with the validation of both.
\<close>

section \<open>Enumerations\<close>

definition all_canvas_types :: "canvas_type list" where
  "all_canvas_types = [CT_business_model, CT_lean, CT_value_prop, CT_mission_vision, CT_swot]"

definition all_record_kinds :: "record_kind list" where
  "all_record_kinds = [RK_persona, RK_revenue_stream, RK_competitor, RK_pricing]"

lemma set_all_canvas_types [simp]: "set all_canvas_types = UNIV"
  by (auto simp: all_canvas_types_def intro: canvas_type.exhaust)

lemma set_all_record_kinds [simp]: "set all_record_kinds = UNIV"
  by (auto simp: all_record_kinds_def intro: record_kind.exhaust)

fun canvas_type_value :: "canvas_type \<Rightarrow> string" where
  "canvas_type_value CT_business_model = ''business_model''"
| "canvas_type_value CT_lean = ''lean''"
| "canvas_type_value CT_value_prop = ''value_prop''"
| "canvas_type_value CT_mission_vision = ''mission_vision''"
| "canvas_type_value CT_swot = ''swot''"

fun record_kind_value :: "record_kind \<Rightarrow> string" where
  "record_kind_value RK_persona = ''persona''"
| "record_kind_value RK_revenue_stream = ''revenue_stream''"
| "record_kind_value RK_competitor = ''competitor''"
| "record_kind_value RK_pricing = ''pricing''"

fun threat_level_value :: "threat_level \<Rightarrow> string" where
  "threat_level_value TL_low = ''low''"
| "threat_level_value TL_medium = ''medium''"
| "threat_level_value TL_high = ''high''"

fun pricing_model_value :: "pricing_model_type \<Rightarrow> string" where
  "pricing_model_value PM_subscription = ''subscription''"
| "pricing_model_value PM_one_time = ''one_time''"
| "pricing_model_value PM_usage = ''usage''"
| "pricing_model_value PM_freemium = ''freemium''"
| "pricing_model_value PM_tiered = ''tiered''"

fun suggestion_op_value :: "suggestion_op \<Rightarrow> string" where
  "suggestion_op_value SO_canvas_update = ''canvas_update''"
| "suggestion_op_value SO_record_create = ''record_create''"
| "suggestion_op_value SO_record_update = ''record_update''"
| "suggestion_op_value SO_record_delete = ''record_delete''"

fun suggestion_status_value :: "suggestion_status \<Rightarrow> string" where
  "suggestion_status_value SuS_pending = ''pending''"
| "suggestion_status_value SuS_approved = ''approved''"
| "suggestion_status_value SuS_rejected = ''rejected''"

fun business_plan_status_value :: "business_plan_status \<Rightarrow> string" where
  "business_plan_status_value PS_generating = ''generating''"
| "business_plan_status_value PS_complete = ''complete''"
| "business_plan_status_value PS_failed = ''failed''"

text \<open>\<^verbatim>\<open>CanvasType(v)\<close> and \<^verbatim>\<open>RecordKind(v)\<close> of a decoded value: \<open>None\<close> is the \<^verbatim>\<open>ValueError\<close>.\<close>

definition canvas_type_of :: "json \<Rightarrow> canvas_type option" where
  "canvas_type_of v = find (\<lambda>t. JStr (canvas_type_value t) = v) all_canvas_types"

definition record_kind_of :: "json \<Rightarrow> record_kind option" where
  "record_kind_of v = find (\<lambda>k. JStr (record_kind_value k) = v) all_record_kinds"

lemma canvas_type_of_value [simp]: "canvas_type_of (JStr (canvas_type_value t)) = Some t"
  by (cases t) (simp_all add: canvas_type_of_def all_canvas_types_def)

lemma record_kind_of_value [simp]: "record_kind_of (JStr (record_kind_value k)) = Some k"
  by (cases k) (simp_all add: record_kind_of_def all_record_kinds_def)

section \<open>Blocks\<close>

record block_def =
  bd_key :: string
  bd_label :: string
  bd_kind :: string

definition list_blocks :: "(string \<times> string) list \<Rightarrow> block_def list" where
  "list_blocks pairs = map (\<lambda>(k, l). \<lparr>bd_key = k, bd_label = l, bd_kind = ''list''\<rparr>) pairs"

fun canvas_blocks :: "canvas_type \<Rightarrow> block_def list" where
  "canvas_blocks CT_business_model = list_blocks
     [(''key_partners'', ''Key Partners''), (''key_activities'', ''Key Activities''),
      (''key_resources'', ''Key Resources''), (''value_propositions'', ''Value Propositions''),
      (''customer_relationships'', ''Customer Relationships''), (''channels'', ''Channels''),
      (''customer_segments'', ''Customer Segments''), (''cost_structure'', ''Cost Structure''),
      (''revenue_streams'', ''Revenue Streams'')]"
| "canvas_blocks CT_lean = list_blocks
     [(''problem'', ''Problem''), (''solution'', ''Solution''), (''key_metrics'', ''Key Metrics''),
      (''unique_value_proposition'', ''Unique Value Proposition''),
      (''unfair_advantage'', ''Unfair Advantage''), (''channels'', ''Channels''),
      (''customer_segments'', ''Customer Segments''), (''cost_structure'', ''Cost Structure''),
      (''revenue_streams'', ''Revenue Streams'')]"
| "canvas_blocks CT_value_prop = list_blocks
     [(''jobs'', ''Customer Jobs''), (''pains'', ''Pains''), (''gains'', ''Gains''),
      (''products_services'', ''Products & Services''), (''pain_relievers'', ''Pain Relievers''),
      (''gain_creators'', ''Gain Creators'')]"
| "canvas_blocks CT_swot = list_blocks
     [(''strengths'', ''Strengths''), (''weaknesses'', ''Weaknesses''),
      (''opportunities'', ''Opportunities''), (''threats'', ''Threats'')]"
| "canvas_blocks CT_mission_vision =
     [\<lparr>bd_key = ''mission'', bd_label = ''Mission'', bd_kind = ''text''\<rparr>,
      \<lparr>bd_key = ''vision'', bd_label = ''Vision'', bd_kind = ''text''\<rparr>]"

definition empty_value :: "block_def \<Rightarrow> json" where
  "empty_value b = (if bd_kind b = ''text'' then JStr [] else JList [])"

definition empty_blocks :: "canvas_type \<Rightarrow> payload" where
  "empty_blocks ty = map (\<lambda>b. (bd_key b, empty_value b)) (canvas_blocks ty)"

text \<open>The JSON Schema a language model is asked to fill.\<close>

definition string_schema :: json where
  "string_schema = JObj [(''type'', JStr ''string'')]"

definition strings_schema :: json where
  "strings_schema = JObj [(''type'', JStr ''array''), (''items'', string_schema)]"

definition object_schema :: "(string \<times> json) list \<Rightarrow> json" where
  "object_schema props =
     JObj [(''type'', JStr ''object''), (''properties'', JObj props),
       (''required'', JList (map (\<lambda>p. JStr (fst p)) props)), (''additionalProperties'', JBool False)]"

definition canvas_json_schema :: "canvas_type \<Rightarrow> json" where
  "canvas_json_schema ty =
     object_schema (map (\<lambda>b. (bd_key b, if bd_kind b = ''list'' then strings_schema else string_schema))
       (canvas_blocks ty))"

text \<open>\<^verbatim>\<open>isinstance(value, list) and all(isinstance(i, str) for i in value)\<close>.\<close>

fun is_text_list :: "json \<Rightarrow> bool" where
  "is_text_list (JList xs) = (\<forall>x \<in> set xs. is_text x)"
| "is_text_list _ = False"

definition block_kinds :: "canvas_type \<Rightarrow> (string \<times> string) list" where
  "block_kinds ty = map (\<lambda>b. (bd_key b, bd_kind b)) (canvas_blocks ty)"

fun validate_items :: "(string \<times> string) list \<Rightarrow> payload \<Rightarrow> unit result" where
  "validate_items kinds [] = Inr ()"
| "validate_items kinds ((key, value) # rest) =
     (case map_of kinds key of
        None \<Rightarrow> Inl (validation_error [key])
      | Some kind \<Rightarrow>
          if kind = ''text'' \<and> \<not> is_text value then Inl (validation_error [key])
          else if kind = ''list'' \<and> \<not> is_text_list value then Inl (validation_error [key])
          else validate_items kinds rest)"

text \<open>A value that is no object has no \<^verbatim>\<open>items()\<close>.\<close>

definition validate_blocks :: "canvas_type \<Rightarrow> json \<Rightarrow> payload result" where
  "validate_blocks ty blocks =
     (case blocks of
        JObj kvs \<Rightarrow> (case validate_items (block_kinds ty) kvs of Inl e \<Rightarrow> Inl e | Inr _ \<Rightarrow> Inr kvs)
      | _ \<Rightarrow> Inl (Uncaught ''AttributeError''))"

section \<open>Completion\<close>

record canvas_progress =
  co_filled_blocks :: nat
  co_total_blocks :: nat
  co_completion_pct :: int
  co_status :: string

definition filled_blocks :: "canvas_type \<Rightarrow> payload \<Rightarrow> nat" where
  "filled_blocks ty blocks = count_where (\<lambda>b. truthy (jget blocks (bd_key b))) (canvas_blocks ty)"

text \<open>No canvas has a number of blocks that puts a share on a half: the float quotient rounds as the
  exact one.\<close>

definition canvas_completion :: "canvas_type \<Rightarrow> payload \<Rightarrow> canvas_progress" where
  "canvas_completion ty blocks =
     (let whole = length (canvas_blocks ty); filled = filled_blocks ty blocks
      in \<lparr>co_filled_blocks = filled, co_total_blocks = whole,
          co_completion_pct = (if whole = 0 then 0 else percent filled whole),
          co_status = (if filled = 0 then ''start'' else if filled = whole then ''complete'' else ''continue'')\<rparr>)"

definition is_complete :: "canvas_type \<Rightarrow> payload \<Rightarrow> bool" where
  "is_complete ty blocks = (co_status (canvas_completion ty blocks) = ''complete'')"

text \<open>\<^verbatim>\<open>dict.update\<close>: a key that is there keeps its place.\<close>

definition obj_set :: "payload \<Rightarrow> string \<Rightarrow> json \<Rightarrow> payload" where
  "obj_set d k v =
     (if k \<in> fst ` set d then map (\<lambda>(k', v'). (k', if k' = k then v else v')) d else d @ [(k, v)])"

definition obj_update :: "payload \<Rightarrow> payload \<Rightarrow> payload" where
  "obj_update d e = foldl (\<lambda>d (k, v). obj_set d k v) d e"

section \<open>Record schemas\<close>

text \<open>
  The annotations of the models. \<open>A_unit\<close> is \<^verbatim>\<open>float | None = Field(default=None, ge=0, le=1)\<close>, \<open>A_tiers\<close>
  a list of \<^verbatim>\<open>PricingTier\<close>; a field without a default is required.
\<close>

datatype annotation = A_str | A_strs | A_float | A_choice "string list" | A_unit | A_tiers

record field_def =
  fd_key :: string
  fd_type :: annotation
  fd_default :: "json option"

definition fd :: "string \<Rightarrow> annotation \<Rightarrow> json option \<Rightarrow> field_def" where
  "fd k a d = \<lparr>fd_key = k, fd_type = a, fd_default = d\<rparr>"

definition threat_levels :: "string list" where
  "threat_levels = map threat_level_value [TL_low, TL_medium, TL_high]"

definition pricing_models :: "string list" where
  "pricing_models = map pricing_model_value [PM_subscription, PM_one_time, PM_usage, PM_freemium, PM_tiered]"

definition tier_fields :: "field_def list" where
  "tier_fields =
     [fd ''name'' A_str None, fd ''price'' A_str (Some (JStr [])), fd ''features'' A_strs (Some (JList []))]"

fun record_fields :: "record_kind \<Rightarrow> field_def list" where
  "record_fields RK_persona =
     [fd ''name'' A_str None, fd ''demographics'' A_str (Some (JStr [])),
      fd ''goals'' A_strs (Some (JList [])), fd ''frustrations'' A_strs (Some (JList [])),
      fd ''watering_holes'' A_strs (Some (JList [])), fd ''quote'' A_str (Some (JStr []))]"
| "record_fields RK_revenue_stream =
     [fd ''name'' A_str None, fd ''pricing_basis'' A_str (Some (JStr [])),
      fd ''est_monthly'' A_float (Some (JInt 0)), fd ''assumptions'' A_str (Some (JStr []))]"
| "record_fields RK_competitor =
     [fd ''name'' A_str None, fd ''positioning'' A_str (Some (JStr [])),
      fd ''price'' A_str (Some (JStr [])), fd ''strengths'' A_strs (Some (JList [])),
      fd ''weaknesses'' A_strs (Some (JList [])),
      fd ''threat_level'' (A_choice threat_levels) (Some (JStr ''medium'')),
      fd ''map_x'' A_unit (Some JNull), fd ''map_y'' A_unit (Some JNull)]"
| "record_fields RK_pricing =
     [fd ''model_type'' (A_choice pricing_models) None, fd ''tiers'' A_tiers (Some (JList []))]"

text \<open>
  Pydantic's validation of one model: every field is checked, then the unknown keys are reported;
  the errors are the locations, in that order. \<open>check\<close> is the check of an annotated value at a
  location.
\<close>

definition field_result ::
    "(annotation \<Rightarrow> string \<Rightarrow> json \<Rightarrow> string list + json) \<Rightarrow> string \<Rightarrow> payload \<Rightarrow> field_def \<Rightarrow> string list + json" where
  "field_result check pfx kvs f =
     (case map_of kvs (fd_key f) of
        None \<Rightarrow> (case fd_default f of None \<Rightarrow> Inl [pfx @ fd_key f] | Some d \<Rightarrow> Inr d)
      | Some v \<Rightarrow> check (fd_type f) (pfx @ fd_key f) v)"

fun errors_of :: "string list + json \<Rightarrow> string list" where
  "errors_of (Inl es) = es"
| "errors_of (Inr v) = []"

fun value_of :: "string list + json \<Rightarrow> json" where
  "value_of (Inl es) = JNull"
| "value_of (Inr v) = v"

definition check_fields ::
    "(annotation \<Rightarrow> string \<Rightarrow> json \<Rightarrow> string list + json) \<Rightarrow> field_def list \<Rightarrow> string \<Rightarrow> payload
     \<Rightarrow> string list + payload" where
  "check_fields check fds pfx kvs =
     (let rs = map (\<lambda>f. (fd_key f, field_result check pfx kvs f)) fds;
          es = concat (map (errors_of \<circ> snd) rs)
            @ map (\<lambda>kv. pfx @ fst kv) (filter (\<lambda>kv. fst kv \<notin> fd_key ` set fds) kvs)
      in if es = [] then Inr (map (\<lambda>(k, r). (k, value_of r)) rs) else Inl es)"

definition item_loc :: "string \<Rightarrow> nat \<Rightarrow> string" where
  "item_loc loc i = loc @ ''.'' @ show_nat i"

text \<open>
  \<open>to_float\<close> is pydantic's conversion to \<^verbatim>\<open>float\<close> in its lax mode (numbers, booleans and numeric
  texts), \<open>in_unit\<close> the comparison of the result with the bounds 0 and 1.
\<close>

fun check_simple ::
    "(json \<Rightarrow> json option) \<Rightarrow> (json \<Rightarrow> bool) \<Rightarrow> annotation \<Rightarrow> string \<Rightarrow> json \<Rightarrow> string list + json" where
  "check_simple to_float in_unit A_str loc v = (if is_text v then Inr v else Inl [loc])"
| "check_simple to_float in_unit A_strs loc v =
     (case v of
        JList xs \<Rightarrow>
          (let bad = map (\<lambda>(i, x). item_loc loc i) (filter (\<lambda>(i, x). \<not> is_text x) (List.enumerate 0 xs))
           in if bad = [] then Inr v else Inl bad)
      | _ \<Rightarrow> Inl [loc])"
| "check_simple to_float in_unit A_float loc v = (case to_float v of None \<Rightarrow> Inl [loc] | Some w \<Rightarrow> Inr w)"
| "check_simple to_float in_unit (A_choice cs) loc v = (if v \<in> JStr ` set cs then Inr v else Inl [loc])"
| "check_simple to_float in_unit A_unit loc v =
     (if v = JNull then Inr JNull
      else case to_float v of None \<Rightarrow> Inl [loc] | Some w \<Rightarrow> if in_unit w then Inr w else Inl [loc])"
| "check_simple to_float in_unit A_tiers loc v = Inl [loc]"

definition check_tier ::
    "(json \<Rightarrow> json option) \<Rightarrow> (json \<Rightarrow> bool) \<Rightarrow> string \<Rightarrow> json \<Rightarrow> string list + json" where
  "check_tier to_float in_unit loc v =
     (case v of
        JObj kvs \<Rightarrow> (case check_fields (check_simple to_float in_unit) tier_fields (loc @ ''.'') kvs of
                       Inl es \<Rightarrow> Inl es | Inr out \<Rightarrow> Inr (JObj out))
      | _ \<Rightarrow> Inl [loc])"

definition check_value ::
    "(json \<Rightarrow> json option) \<Rightarrow> (json \<Rightarrow> bool) \<Rightarrow> annotation \<Rightarrow> string \<Rightarrow> json \<Rightarrow> string list + json" where
  "check_value to_float in_unit a loc v =
     (if a = A_tiers then
        (case v of
           JList xs \<Rightarrow>
             (let rs = map (\<lambda>(i, x). check_tier to_float in_unit (item_loc loc i) x) (List.enumerate 0 xs);
                  es = concat (map errors_of rs)
              in if es = [] then Inr (JList (map value_of rs)) else Inl es)
         | _ \<Rightarrow> Inl [loc])
      else check_simple to_float in_unit a loc v)"

text \<open>
  \<^verbatim>\<open>RECORD_SCHEMAS[kind](**data)\<close>: a value that is no mapping cannot be unpacked.
\<close>

definition validate ::
    "(json \<Rightarrow> json option) \<Rightarrow> (json \<Rightarrow> bool) \<Rightarrow> record_kind \<Rightarrow> json \<Rightarrow> payload result" where
  "validate to_float in_unit kind data =
     (case data of
        JObj kvs \<Rightarrow>
          (case check_fields (check_value to_float in_unit) (record_fields kind) [] kvs of
             Inl es \<Rightarrow> Inl (validation_error es) | Inr clean \<Rightarrow> Inr clean)
      | _ \<Rightarrow> Inl (Uncaught ''TypeError''))"

end
