(* ===== verification/Business.thy ===== *)
theory Business
  imports Business_Defs
begin

text \<open>
  The business builder (\<^verbatim>\<open>app/services/business\<close>, the models of \<^verbatim>\<open>app/db/models/business.py\<close>): canvases
  under optimistic locking, typed records, the positioning map and the overview of a workspace.
\<close>

record canvas =
  cv_id :: uid
  cv_startup_id :: uid
  cv_type :: canvas_type
  cv_blocks :: payload
  cv_version :: int

record business_record =
  br_id :: uid
  br_startup_id :: uid
  br_kind :: record_kind
  br_data :: payload
  br_position :: nat

record suggestion =
  bs_id :: uid
  bs_startup_id :: uid
  bs_author_id :: uid
  bs_op :: suggestion_op
  bs_target :: payload
  bs_payload :: "payload option"
  bs_base_version :: "int option"
  bs_note :: "string option"
  bs_status :: suggestion_status
  bs_resolved_by_id :: "uid option"
  bs_resolved_at :: "instant option"
  bs_created_at :: instant

record positioning_map =
  pm_id :: uid
  pm_startup_id :: uid
  pm_axes :: payload

record business_plan =
  bp_id :: uid
  bp_startup_id :: uid
  bp_status :: business_plan_status
  bp_document_id :: "uid option"
  bp_created_by_id :: uid
  bp_created_at :: instant

record business_db = documents_db +
  canvases :: "canvas list"
  business_records :: "business_record list"
  suggestions :: "suggestion list"
  positioning_maps :: "positioning_map list"
  business_plans :: "business_plan list"

lemma publish_business_frame [simp]:
  "canvases (publish now e p s) = canvases s" "business_records (publish now e p s) = business_records s"
  "suggestions (publish now e p s) = suggestions s" "positioning_maps (publish now e p s) = positioning_maps s"
  "business_plans (publish now e p s) = business_plans s" "documents (publish now e p s) = documents s"
  by (rule publish_frame [of now e p s]; simp)+

text \<open>
  Deleting a document, with the foreign key of the plans: a plan that names it names none afterwards
  (\<^verbatim>\<open>ON DELETE SET NULL\<close>).
\<close>

definition set_null :: "uid \<Rightarrow> business_plan \<Rightarrow> business_plan" where
  "set_null i p = (if bp_document_id p = Some i then p\<lparr>bp_document_id := None\<rparr> else p)"

definition delete_plan_document :: "document \<Rightarrow> 'a business_db_scheme \<Rightarrow> 'a business_db_scheme" where
  "delete_plan_document doc s = delete_document doc (s\<lparr>business_plans := map (set_null (d_id doc)) (business_plans s)\<rparr>)"

section \<open>Canvases\<close>

text \<open>
  The row of a canvas is made when it is first asked for. The savepoint of the source handles the
  race of two first requests: the loser reads the winner's row, which is what the query here finds.
\<close>

definition get_or_create_canvas :: "uid \<Rightarrow> canvas_type \<Rightarrow> 'a business_db_scheme \<Rightarrow> canvas \<times> 'a business_db_scheme" where
  "get_or_create_canvas startup_id ty s =
     (case find (\<lambda>c. cv_startup_id c = startup_id \<and> cv_type c = ty) (canvases s) of
        Some c \<Rightarrow> (c, s)
      | None \<Rightarrow>
          let (i, s1) = fresh_id s;
              row = \<lparr>cv_id = i, cv_startup_id = startup_id, cv_type = ty, cv_blocks = empty_blocks ty, cv_version = 1\<rparr>
          in (row, s1\<lparr>canvases := canvases s1 @ [row]\<rparr>))"

definition put_row :: "canvas \<Rightarrow> 'a business_db_scheme \<Rightarrow> 'a business_db_scheme" where
  "put_row c s = s\<lparr>canvases := update_where (\<lambda>x. cv_id x = cv_id c) (\<lambda>_. c) (canvases s)\<rparr>"

definition save_canvas ::
    "instant \<Rightarrow> canvas \<Rightarrow> json \<Rightarrow> int \<Rightarrow> 'a business_db_scheme \<Rightarrow> canvas result \<times> 'a business_db_scheme" where
  "save_canvas now canvas blocks expected_version s =
     (case validate_blocks (cv_type canvas) blocks of
        Inl e \<Rightarrow> (Inl e, s)
      | Inr kvs \<Rightarrow>
          if expected_version \<noteq> cv_version canvas then (Inl CanvasVersionConflict, s)
          else
            let was_complete = is_complete (cv_type canvas) (cv_blocks canvas);
                canvas' = canvas\<lparr>cv_blocks := obj_update (empty_blocks (cv_type canvas)) kvs,
                                 cv_version := cv_version canvas + 1\<rparr>;
                s1 = put_row canvas' s;
                now_complete = is_complete (cv_type canvas') (cv_blocks canvas');
                s2 = (if now_complete \<and> \<not> was_complete
                      then publish now ''business.artifact.completed''
                             [(''startup_id'', JUid (cv_startup_id canvas)),
                              (''canvas_type'', JStr (canvas_type_value (cv_type canvas)))] s1
                      else s1)
            in (Inr canvas', s2))"

record canvas_view =
  vv_type :: string
  vv_version :: int
  vv_blocks :: payload
  vv_block_defs :: "block_def list"
  vv_completion :: canvas_progress

definition serialize_canvas :: "canvas \<Rightarrow> canvas_view" where
  "serialize_canvas c =
     \<lparr>vv_type = canvas_type_value (cv_type c), vv_version = cv_version c, vv_blocks = cv_blocks c,
      vv_block_defs = canvas_blocks (cv_type c), vv_completion = canvas_completion (cv_type c) (cv_blocks c)\<rparr>"

section \<open>Records\<close>

text \<open>Rows at equal positions come in the order they were added.\<close>

definition records_of :: "uid \<Rightarrow> record_kind \<Rightarrow> 'a business_db_scheme \<Rightarrow> business_record list" where
  "records_of startup_id kind s =
     filter (\<lambda>r. br_startup_id r = startup_id \<and> br_kind r = kind) (business_records s)"

definition list_records :: "uid \<Rightarrow> record_kind \<Rightarrow> 'a business_db_scheme \<Rightarrow> business_record list" where
  "list_records startup_id kind s = sort_key br_position (records_of startup_id kind s)"

definition create_record ::
    "(json \<Rightarrow> json option) \<Rightarrow> (json \<Rightarrow> bool) \<Rightarrow> instant \<Rightarrow> uid \<Rightarrow> record_kind \<Rightarrow> json
     \<Rightarrow> 'a business_db_scheme \<Rightarrow> business_record result \<times> 'a business_db_scheme" where
  "create_record to_float in_unit now startup_id kind data s =
     (case validate to_float in_unit kind data of
        Inl e \<Rightarrow> (Inl e, s)
      | Inr clean \<Rightarrow>
          let count = length (records_of startup_id kind s);
              (i, s1) = fresh_id s;
              row = \<lparr>br_id = i, br_startup_id = startup_id, br_kind = kind, br_data = clean, br_position = count\<rparr>;
              s2 = s1\<lparr>business_records := business_records s1 @ [row]\<rparr>;
              s3 = (if count = 0
                    then publish now ''business.artifact.completed''
                           [(''startup_id'', JUid startup_id), (''artifact'', JStr (record_kind_value kind))] s2
                    else s2)
          in (Inr row, s3))"

definition update_record ::
    "(json \<Rightarrow> json option) \<Rightarrow> (json \<Rightarrow> bool) \<Rightarrow> business_record \<Rightarrow> json
     \<Rightarrow> 'a business_db_scheme \<Rightarrow> business_record result \<times> 'a business_db_scheme" where
  "update_record to_float in_unit r data s =
     (case validate to_float in_unit (br_kind r) data of
        Inl e \<Rightarrow> (Inl e, s)
      | Inr clean \<Rightarrow>
          let r' = r\<lparr>br_data := clean\<rparr>
          in (Inr r', s\<lparr>business_records := update_where (\<lambda>x. br_id x = br_id r) (\<lambda>_. r') (business_records s)\<rparr>))"

definition delete_record :: "business_record \<Rightarrow> 'a business_db_scheme \<Rightarrow> 'a business_db_scheme" where
  "delete_record r s = s\<lparr>business_records := delete_where (\<lambda>x. br_id x = br_id r) (business_records s)\<rparr>"

definition find_record :: "membership \<Rightarrow> record_kind \<Rightarrow> uid \<Rightarrow> 'a business_db_scheme \<Rightarrow> business_record result" where
  "find_record m kind record_id s =
     (case find (\<lambda>r. br_id r = record_id \<and> br_startup_id r = m_startup_id m \<and> br_kind r = kind) (business_records s) of
        None \<Rightarrow> Inl NotFound
      | Some r \<Rightarrow> Inr r)"

record record_view =
  rv_id :: uid
  rv_kind :: string
  rv_data :: payload
  rv_position :: nat

definition serialize_record :: "business_record \<Rightarrow> record_view" where
  "serialize_record r =
     \<lparr>rv_id = br_id r, rv_kind = record_kind_value (br_kind r), rv_data = br_data r, rv_position = br_position r\<rparr>"

section \<open>Overview\<close>

text \<open>\<^verbatim>\<open>value.replace("_", " ").title()\<close> of an enumeration value (lower-case ASCII words).\<close>

definition upper_char :: "char \<Rightarrow> char" where
  "upper_char c = (let n = of_char c :: nat in if 97 \<le> n \<and> n \<le> 122 then char_of (n - 32) else c)"

fun title_from :: "bool \<Rightarrow> string \<Rightarrow> string" where
  "title_from start [] = []"
| "title_from start (c # cs) =
     (if c = CHR ''_'' then CHR '' '' # title_from True cs
      else (if start then upper_char c else c) # title_from False cs)"

definition title_label :: "string \<Rightarrow> string" where
  "title_label value = title_from True value"

datatype overview_row =
    Canvas_row string string canvas_progress
  | Record_row string string string int nat

definition business_overview :: "uid \<Rightarrow> 'a business_db_scheme \<Rightarrow> overview_row list" where
  "business_overview startup_id s =
     map (\<lambda>ty. Canvas_row (canvas_type_value ty) (title_label (canvas_type_value ty))
            (canvas_completion ty
              (case find (\<lambda>c. cv_startup_id c = startup_id \<and> cv_type c = ty) (canvases s) of
                 None \<Rightarrow> empty_blocks ty | Some c \<Rightarrow> cv_blocks c))) all_canvas_types
     @ map (\<lambda>k. let count = length (records_of startup_id k s)
            in Record_row (record_kind_value k) (title_label (record_kind_value k))
                 (if 1 \<le> count then ''complete'' else ''start'') (if 1 \<le> count then 100 else 0) count)
         all_record_kinds"

section \<open>Positioning map\<close>

definition axis :: "string \<Rightarrow> string \<Rightarrow> string \<Rightarrow> json" where
  "axis label low high = JObj [(''label'', JStr label), (''low'', JStr low), (''high'', JStr high)]"

definition default_axes :: payload where
  "default_axes = [(''x'', axis ''Price'' ''Low'' ''High''), (''y'', axis ''Quality'' ''Low'' ''High'')]"

definition get_or_create_map :: "uid \<Rightarrow> 'a business_db_scheme \<Rightarrow> positioning_map \<times> 'a business_db_scheme" where
  "get_or_create_map startup_id s =
     (case find (\<lambda>p. pm_startup_id p = startup_id) (positioning_maps s) of
        Some p \<Rightarrow> (p, s)
      | None \<Rightarrow>
          let (i, s1) = fresh_id s; row = \<lparr>pm_id = i, pm_startup_id = startup_id, pm_axes = default_axes\<rparr>
          in (row, s1\<lparr>positioning_maps := positioning_maps s1 @ [row]\<rparr>))"

definition axis_keys :: "string list" where
  "axis_keys = [''label'', ''low'', ''high'']"

definition validate_axis :: "payload \<Rightarrow> string \<Rightarrow> unit result" where
  "validate_axis axes ax =
     (case jget axes ax of
        JObj cfg \<Rightarrow>
          (case find (\<lambda>k. \<not> is_text (jget cfg k)) axis_keys of
             None \<Rightarrow> Inr ()
           | Some k \<Rightarrow> Inl (validation_error [ax @ ''.'' @ k]))
      | _ \<Rightarrow> Inl (validation_error [ax]))"

definition validate_axes :: "payload \<Rightarrow> unit result" where
  "validate_axes axes =
     (case validate_axis axes ''x'' of Inl e \<Rightarrow> Inl e | Inr _ \<Rightarrow> validate_axis axes ''y'')"

definition update_axes ::
    "positioning_map \<Rightarrow> payload \<Rightarrow> 'a business_db_scheme \<Rightarrow> positioning_map result \<times> 'a business_db_scheme" where
  "update_axes row axes s =
     (case validate_axes axes of
        Inl e \<Rightarrow> (Inl e, s)
      | Inr _ \<Rightarrow>
          let row' = row\<lparr>pm_axes := axes\<rparr>
          in (Inr row', s\<lparr>positioning_maps := update_where (\<lambda>x. pm_id x = pm_id row) (\<lambda>_. row') (positioning_maps s)\<rparr>))"

record map_competitor =
  mc_id :: uid
  mc_name :: json
  mc_x :: json
  mc_y :: json
  mc_threat_level :: json

definition assemble_map ::
    "uid \<Rightarrow> 'a business_db_scheme \<Rightarrow> (payload \<times> map_competitor list) \<times> 'a business_db_scheme" where
  "assemble_map startup_id s =
     (let (row, s1) = get_or_create_map startup_id s
      in ((pm_axes row,
           map (\<lambda>c. \<lparr>mc_id = br_id c, mc_name = jget (br_data c) ''name'', mc_x = jget (br_data c) ''map_x'',
                       mc_y = jget (br_data c) ''map_y'', mc_threat_level = jget (br_data c) ''threat_level''\<rparr>)
             (list_records startup_id RK_competitor s1)), s1))"

end
