(* ===== verification/Business_Suggestions.thy ===== *)
theory Business_Suggestions
  imports Business
begin

text \<open>
  Suggested changes and their resolution (\<^verbatim>\<open>app/services/business/suggestions.py\<close>), the business plan
  and the endpoints of the builder (\<^verbatim>\<open>app/api/v1/endpoints/business.py\<close>).
\<close>

section \<open>Making a suggestion\<close>

definition parse_canvas_target :: "payload \<Rightarrow> canvas_type result" where
  "parse_canvas_target target =
     (case map_of target ''canvas_type'' of
        None \<Rightarrow> Inl NotFound
      | Some v \<Rightarrow> (case canvas_type_of v of None \<Rightarrow> Inl NotFound | Some t \<Rightarrow> Inr t))"

definition parse_kind_target :: "payload \<Rightarrow> record_kind result" where
  "parse_kind_target target =
     (case map_of target ''kind'' of
        None \<Rightarrow> Inl NotFound
      | Some v \<Rightarrow> (case record_kind_of v of None \<Rightarrow> Inl NotFound | Some k \<Rightarrow> Inr k))"

definition parse_record_id :: "payload \<Rightarrow> uid result" where
  "parse_record_id target =
     (case map_of target ''record_id'' of Some (JUid i) \<Rightarrow> Inr i | _ \<Rightarrow> Inl NotFound)"

text \<open>\<^verbatim>\<open>(payload or {}).get(k, {})\<close>.\<close>

definition payload_part :: "payload option \<Rightarrow> string \<Rightarrow> json" where
  "payload_part p k =
     (case p of None \<Rightarrow> JObj [] | Some kvs \<Rightarrow> (case map_of kvs k of None \<Rightarrow> JObj [] | Some v \<Rightarrow> v))"

text \<open>What the operation of a suggestion stores: its target, its payload and the base version.\<close>

type_synonym proposal = "payload \<times> payload option \<times> int option"

definition check_canvas_update ::
    "membership \<Rightarrow> payload \<Rightarrow> payload option \<Rightarrow> 'a business_db_scheme \<Rightarrow> proposal result \<times> 'a business_db_scheme" where
  "check_canvas_update m target payload s =
     (case parse_canvas_target target of
        Inl e \<Rightarrow> (Inl e, s)
      | Inr ty \<Rightarrow>
          (case validate_blocks ty (payload_part payload ''blocks'') of
             Inl e \<Rightarrow> (Inl e, s)
           | Inr _ \<Rightarrow>
               let (c, s1) = get_or_create_canvas (m_startup_id m) ty s
               in (Inr ([(''canvas_type'', JStr (canvas_type_value ty))], payload, Some (cv_version c)), s1)))"

definition check_record_create ::
    "(json \<Rightarrow> json option) \<Rightarrow> (json \<Rightarrow> bool) \<Rightarrow> payload \<Rightarrow> payload option \<Rightarrow> proposal result" where
  "check_record_create to_float in_unit target payload =
     (case parse_kind_target target of
        Inl e \<Rightarrow> Inl e
      | Inr kind \<Rightarrow>
          (case validate to_float in_unit kind (payload_part payload ''data'') of
             Inl e \<Rightarrow> Inl e
           | Inr _ \<Rightarrow> Inr ([(''kind'', JStr (record_kind_value kind))], payload, None)))"

definition target_record ::
    "membership \<Rightarrow> payload \<Rightarrow> 'a business_db_scheme \<Rightarrow> (record_kind \<times> business_record) result" where
  "target_record m target s =
     (case parse_kind_target target of
        Inl e \<Rightarrow> Inl e
      | Inr kind \<Rightarrow>
          (case parse_record_id target of
             Inl e \<Rightarrow> Inl e
           | Inr rid \<Rightarrow> (case find_record m kind rid s of Inl e \<Rightarrow> Inl e | Inr r \<Rightarrow> Inr (kind, r))))"

definition record_target :: "record_kind \<Rightarrow> business_record \<Rightarrow> payload" where
  "record_target kind r = [(''kind'', JStr (record_kind_value kind)), (''record_id'', JUid (br_id r))]"

definition check_record_update ::
    "(json \<Rightarrow> json option) \<Rightarrow> (json \<Rightarrow> bool) \<Rightarrow> membership \<Rightarrow> payload \<Rightarrow> payload option
     \<Rightarrow> 'a business_db_scheme \<Rightarrow> proposal result" where
  "check_record_update to_float in_unit m target payload s =
     (case target_record m target s of
        Inl e \<Rightarrow> Inl e
      | Inr (kind, r) \<Rightarrow>
          (case validate to_float in_unit kind (payload_part payload ''data'') of
             Inl e \<Rightarrow> Inl e
           | Inr _ \<Rightarrow> Inr (record_target kind r, payload, None)))"

definition check_record_delete :: "membership \<Rightarrow> payload \<Rightarrow> 'a business_db_scheme \<Rightarrow> proposal result" where
  "check_record_delete m target s =
     (case target_record m target s of Inl e \<Rightarrow> Inl e | Inr (kind, r) \<Rightarrow> Inr (record_target kind r, None, None))"

definition check_suggestion ::
    "(json \<Rightarrow> json option) \<Rightarrow> (json \<Rightarrow> bool) \<Rightarrow> membership \<Rightarrow> suggestion_op \<Rightarrow> payload \<Rightarrow> payload option
     \<Rightarrow> 'a business_db_scheme \<Rightarrow> proposal result \<times> 'a business_db_scheme" where
  "check_suggestion to_float in_unit m op target payload s =
     (case op of
        SO_canvas_update \<Rightarrow> check_canvas_update m target payload s
      | SO_record_create \<Rightarrow> (check_record_create to_float in_unit target payload, s)
      | SO_record_update \<Rightarrow> (check_record_update to_float in_unit m target payload s, s)
      | SO_record_delete \<Rightarrow> (check_record_delete m target s, s))"

definition create_suggestion ::
    "(json \<Rightarrow> json option) \<Rightarrow> (json \<Rightarrow> bool) \<Rightarrow> instant \<Rightarrow> membership \<Rightarrow> suggestion_op \<Rightarrow> payload \<Rightarrow> payload option
     \<Rightarrow> string option \<Rightarrow> 'a business_db_scheme \<Rightarrow> suggestion result \<times> 'a business_db_scheme" where
  "create_suggestion to_float in_unit now m op target payload remark s =
     (case check_suggestion to_float in_unit m op target payload s of
        (Inl e, s1) \<Rightarrow> (Inl e, s1)
      | (Inr (target', payload', base_version), s1) \<Rightarrow>
          let (i, s2) = fresh_id s1;
              row = \<lparr>bs_id = i, bs_startup_id = m_startup_id m, bs_author_id = m_user_id m, bs_op = op,
                     bs_target = target', bs_payload = payload', bs_base_version = base_version, bs_note = remark,
                     bs_status = SuS_pending, bs_resolved_by_id = None, bs_resolved_at = None, bs_created_at = now\<rparr>
          in (Inr row, publish now ''business.suggestion.created''
                [(''startup_id'', JUid (m_startup_id m)), (''suggestion_id'', JUid i),
                 (''op'', JStr (suggestion_op_value op)), (''created_by'', JUid (m_user_id m))]
                (s2\<lparr>suggestions := suggestions s2 @ [row]\<rparr>)))"

definition list_suggestions :: "uid \<Rightarrow> suggestion_status option \<Rightarrow> 'a business_db_scheme \<Rightarrow> suggestion list" where
  "list_suggestions startup_id status s =
     desc_by bs_created_at
       (filter (\<lambda>x. bs_startup_id x = startup_id
           \<and> (case status of None \<Rightarrow> True | Some v \<Rightarrow> bs_status x = v)) (suggestions s))"

section \<open>Resolving a suggestion\<close>

text \<open>
  Applying reads the stored target and payload back; what they lack is a Python exception here.
\<close>

definition stored_key :: "payload \<Rightarrow> string \<Rightarrow> json result" where
  "stored_key d k = (case map_of d k of None \<Rightarrow> Inl (Uncaught ''KeyError'') | Some v \<Rightarrow> Inr v)"

definition stored_enum :: "(json \<Rightarrow> 'e option) \<Rightarrow> payload \<Rightarrow> string \<Rightarrow> 'e result" where
  "stored_enum parse d k =
     (case stored_key d k of
        Inl e \<Rightarrow> Inl e
      | Inr v \<Rightarrow> (case parse v of None \<Rightarrow> Inl (Uncaught ''ValueError'') | Some x \<Rightarrow> Inr x))"

definition stored_data :: "suggestion \<Rightarrow> json result" where
  "stored_data x = stored_key (case bs_payload x of None \<Rightarrow> [] | Some p \<Rightarrow> p) ''data''"

definition stored_record :: "membership \<Rightarrow> suggestion \<Rightarrow> 'a business_db_scheme \<Rightarrow> business_record result" where
  "stored_record m x s =
     (case stored_enum record_kind_of (bs_target x) ''kind'' of
        Inl e \<Rightarrow> Inl e
      | Inr kind \<Rightarrow>
          (case stored_key (bs_target x) ''record_id'' of
             Inl e \<Rightarrow> Inl e
           | Inr (JUid i) \<Rightarrow> find_record m kind i s
           | Inr _ \<Rightarrow> Inl data_error))"

definition apply_canvas_update ::
    "instant \<Rightarrow> membership \<Rightarrow> suggestion \<Rightarrow> 'a business_db_scheme \<Rightarrow> unit result \<times> 'a business_db_scheme" where
  "apply_canvas_update now m x s =
     (case stored_enum canvas_type_of (bs_target x) ''canvas_type'' of
        Inl e \<Rightarrow> (Inl e, s)
      | Inr ty \<Rightarrow>
          let (c, s1) = get_or_create_canvas (m_startup_id m) ty s
          in (case bs_base_version x of
                None \<Rightarrow> (Inl (Uncaught ''AssertionError''), s1)
              | Some v \<Rightarrow> map_prod ignore id (save_canvas now c (payload_part (bs_payload x) ''blocks'') v s1)))"

definition apply_record_create ::
    "(json \<Rightarrow> json option) \<Rightarrow> (json \<Rightarrow> bool) \<Rightarrow> instant \<Rightarrow> membership \<Rightarrow> suggestion
     \<Rightarrow> 'a business_db_scheme \<Rightarrow> unit result \<times> 'a business_db_scheme" where
  "apply_record_create to_float in_unit now m x s =
     (case stored_enum record_kind_of (bs_target x) ''kind'' of
        Inl e \<Rightarrow> (Inl e, s)
      | Inr kind \<Rightarrow>
          (case stored_data x of
             Inl e \<Rightarrow> (Inl e, s)
           | Inr d \<Rightarrow> map_prod ignore id (create_record to_float in_unit now (m_startup_id m) kind d s)))"

definition apply_record_update ::
    "(json \<Rightarrow> json option) \<Rightarrow> (json \<Rightarrow> bool) \<Rightarrow> membership \<Rightarrow> suggestion
     \<Rightarrow> 'a business_db_scheme \<Rightarrow> unit result \<times> 'a business_db_scheme" where
  "apply_record_update to_float in_unit m x s =
     (case stored_record m x s of
        Inl e \<Rightarrow> (Inl e, s)
      | Inr r \<Rightarrow>
          (case stored_data x of
             Inl e \<Rightarrow> (Inl e, s)
           | Inr d \<Rightarrow> map_prod ignore id (update_record to_float in_unit r d s)))"

definition apply_record_delete ::
    "membership \<Rightarrow> suggestion \<Rightarrow> 'a business_db_scheme \<Rightarrow> unit result \<times> 'a business_db_scheme" where
  "apply_record_delete m x s =
     (case stored_record m x s of Inl e \<Rightarrow> (Inl e, s) | Inr r \<Rightarrow> (Inr (), delete_record r s))"

definition apply_suggestion ::
    "(json \<Rightarrow> json option) \<Rightarrow> (json \<Rightarrow> bool) \<Rightarrow> instant \<Rightarrow> membership \<Rightarrow> suggestion
     \<Rightarrow> 'a business_db_scheme \<Rightarrow> unit result \<times> 'a business_db_scheme" where
  "apply_suggestion to_float in_unit now m x s =
     (case bs_op x of
        SO_canvas_update \<Rightarrow> apply_canvas_update now m x s
      | SO_record_create \<Rightarrow> apply_record_create to_float in_unit now m x s
      | SO_record_update \<Rightarrow> apply_record_update to_float in_unit m x s
      | SO_record_delete \<Rightarrow> apply_record_delete m x s)"

definition find_suggestion :: "membership \<Rightarrow> uid \<Rightarrow> 'a business_db_scheme \<Rightarrow> suggestion result" where
  "find_suggestion m i s =
     (case find (\<lambda>x. bs_id x = i \<and> bs_startup_id x = m_startup_id m) (suggestions s) of
        None \<Rightarrow> Inl NotFound
      | Some x \<Rightarrow> Inr x)"

definition require_pending :: "suggestion \<Rightarrow> unit result" where
  "require_pending x = (if bs_status x \<noteq> SuS_pending then Inl SuggestionNotPending else Inr ())"

definition resolved_as :: "instant \<Rightarrow> membership \<Rightarrow> suggestion_status \<Rightarrow> suggestion \<Rightarrow> suggestion" where
  "resolved_as now m st x = x\<lparr>bs_status := st, bs_resolved_by_id := Some (m_user_id m), bs_resolved_at := Some now\<rparr>"

text \<open>The end of both resolutions: the row is closed and the event published.\<close>

definition close_suggestion ::
    "instant \<Rightarrow> membership \<Rightarrow> suggestion_status \<Rightarrow> suggestion \<Rightarrow> 'a business_db_scheme
     \<Rightarrow> suggestion \<times> 'a business_db_scheme" where
  "close_suggestion now m st x s =
     (let x' = resolved_as now m st x
      in (x', publish now (''business.suggestion.'' @ suggestion_status_value st)
            [(''startup_id'', JUid (bs_startup_id x)), (''suggestion_id'', JUid (bs_id x)),
             (''op'', JStr (suggestion_op_value (bs_op x))), (''actor_id'', JUid (m_user_id m))]
            (s\<lparr>suggestions := update_where (\<lambda>y. bs_id y = bs_id x) (\<lambda>_. x') (suggestions s)\<rparr>)))"

definition approve_suggestion ::
    "(json \<Rightarrow> json option) \<Rightarrow> (json \<Rightarrow> bool) \<Rightarrow> instant \<Rightarrow> membership \<Rightarrow> uid
     \<Rightarrow> 'a business_db_scheme \<Rightarrow> suggestion result \<times> 'a business_db_scheme" where
  "approve_suggestion to_float in_unit now m i s =
     (case find_suggestion m i s of
        Inl e \<Rightarrow> (Inl e, s)
      | Inr x \<Rightarrow>
          (case require_pending x of
             Inl e \<Rightarrow> (Inl e, s)
           | Inr _ \<Rightarrow>
               (case apply_suggestion to_float in_unit now m x s of
                  (Inl e, s1) \<Rightarrow> (Inl e, s1)
                | (Inr _, s1) \<Rightarrow> map_prod Inr id (close_suggestion now m SuS_approved x s1))))"

definition reject_suggestion ::
    "instant \<Rightarrow> membership \<Rightarrow> uid \<Rightarrow> 'a business_db_scheme \<Rightarrow> suggestion result \<times> 'a business_db_scheme" where
  "reject_suggestion now m i s =
     (case find_suggestion m i s of
        Inl e \<Rightarrow> (Inl e, s)
      | Inr x \<Rightarrow>
          (case require_pending x of
             Inl e \<Rightarrow> (Inl e, s)
           | Inr _ \<Rightarrow> map_prod Inr id (close_suggestion now m SuS_rejected x s)))"

section \<open>Reading a suggestion\<close>

definition current_of :: "suggestion \<Rightarrow> 'a business_db_scheme \<Rightarrow> payload option result" where
  "current_of x s =
     (case bs_op x of
        SO_canvas_update \<Rightarrow>
          (case stored_enum canvas_type_of (bs_target x) ''canvas_type'' of
             Inl e \<Rightarrow> Inl e
           | Inr ty \<Rightarrow>
               Inr (Some (case find (\<lambda>c. cv_startup_id c = bs_startup_id x \<and> cv_type c = ty) (canvases s) of
                  None \<Rightarrow> [(''blocks'', JObj (empty_blocks ty)), (''version'', JInt 0)]
                | Some c \<Rightarrow> [(''blocks'', JObj (cv_blocks c)), (''version'', JInt (cv_version c))])))
      | SO_record_create \<Rightarrow> Inr None
      | _ \<Rightarrow>
          (case stored_key (bs_target x) ''record_id'' of
             Inl e \<Rightarrow> Inl e
           | Inr v \<Rightarrow>
               Inr (map_option (\<lambda>r. [(''data'', JObj (br_data r))])
                 (find (\<lambda>r. JUid (br_id r) = v \<and> br_startup_id r = bs_startup_id x) (business_records s)))))"

definition full_name_of :: "user option \<Rightarrow> string option" where
  "full_name_of u = (case u of None \<Rightarrow> None | Some x \<Rightarrow> (case u_profile x of None \<Rightarrow> None | Some p \<Rightarrow> up_full_name p))"

record suggestion_view =
  sv_row :: suggestion
  sv_current :: "payload option"
  sv_author_name :: "string option"
  sv_author_email :: "string option"
  sv_resolver_name :: "string option"

definition serialize_suggestion :: "'a business_db_scheme \<Rightarrow> suggestion \<Rightarrow> suggestion_view result" where
  "serialize_suggestion s x =
     (case current_of x s of
        Inl e \<Rightarrow> Inl e
      | Inr cur \<Rightarrow>
          let author = user_by_id s (bs_author_id x)
          in Inr \<lparr>sv_row = x, sv_current = cur, sv_author_name = full_name_of author,
                  sv_author_email = map_option u_email author,
                  sv_resolver_name = (case bs_resolved_by_id x of None \<Rightarrow> None
                                      | Some i \<Rightarrow> full_name_of (user_by_id s i))\<rparr>)"

end
