(* ===== verification/Business_Endpoints.thy ===== *)
theory Business_Endpoints
  imports Business_Suggestions
begin

text \<open>
  The endpoints of the business builder (\<^verbatim>\<open>app/api/v1/endpoints/business.py\<close>) and the requests that
  write its tables. Every handler commits just before it answers.
\<close>

definition parse_type :: "string \<Rightarrow> canvas_type result" where
  "parse_type ty = (case canvas_type_of (JStr ty) of None \<Rightarrow> Inl NotFound | Some t \<Rightarrow> Inr t)"

definition kind_paths :: "(string \<times> record_kind) list" where
  "kind_paths =
     [(''personas'', RK_persona), (''revenue-streams'', RK_revenue_stream),
      (''competitors'', RK_competitor), (''pricing'', RK_pricing)]"

definition parse_record_kind :: "string \<Rightarrow> record_kind result" where
  "parse_record_kind kind = (case map_of kind_paths kind of None \<Rightarrow> Inl NotFound | Some k \<Rightarrow> Inr k)"

section \<open>Canvases\<close>

definition get_canvas_endpoint :: "string \<Rightarrow> membership \<Rightarrow> 'a business_db_scheme \<Rightarrow> canvas_view result \<times> 'a business_db_scheme" where
  "get_canvas_endpoint ty m s =
     (case parse_type ty of
        Inl e \<Rightarrow> (Inl e, s)
      | Inr t \<Rightarrow> (let (c, s1) = get_or_create_canvas (m_startup_id m) t s in (Inr (serialize_canvas c), s1)))"

definition put_canvas_endpoint ::
    "instant \<Rightarrow> string \<Rightarrow> payload \<Rightarrow> int \<Rightarrow> membership \<Rightarrow> 'a business_db_scheme \<Rightarrow> canvas_view result \<times> 'a business_db_scheme" where
  "put_canvas_endpoint now ty blocks version m s =
     (case parse_type ty of
        Inl e \<Rightarrow> (Inl e, s)
      | Inr t \<Rightarrow>
          (let (c, s1) = get_or_create_canvas (m_startup_id m) t s
           in case save_canvas now c (JObj blocks) version s1 of
                (Inl e, s2) \<Rightarrow> (Inl e, s2)
              | (Inr saved, s2) \<Rightarrow> (Inr (serialize_canvas saved), s2)))"

definition ai_fill_canvas_endpoint ::
    "instant \<Rightarrow> string \<Rightarrow> membership \<Rightarrow> 'a business_db_scheme \<Rightarrow> (uid \<times> job_status) result \<times> 'a business_db_scheme" where
  "ai_fill_canvas_endpoint now ty m s =
     (case parse_type ty of
        Inl e \<Rightarrow> (Inl e, s)
      | Inr t \<Rightarrow>
          (let (j, s1) = enqueue now ''business.canvas.ai_fill''
                 [(''startup_id'', JUid (m_startup_id m)), (''canvas_type'', JStr (canvas_type_value t))]
                 (Some (m_startup_id m)) s
           in (Inr (j_id j, j_status j), s1)))"

section \<open>Suggestions\<close>

text \<open>The response is built after the commit.\<close>

definition create_suggestion_endpoint ::
    "(json \<Rightarrow> json option) \<Rightarrow> (json \<Rightarrow> bool) \<Rightarrow> instant \<Rightarrow> suggestion_op \<Rightarrow> payload \<Rightarrow> payload option \<Rightarrow> string option
     \<Rightarrow> membership \<Rightarrow> 'a business_db_scheme \<Rightarrow> suggestion_view result \<times> 'a business_db_scheme" where
  "create_suggestion_endpoint to_float in_unit now op target payload remark m s =
     (case run_tx (create_suggestion to_float in_unit now m op target payload remark) s of
        (Inl e, s1) \<Rightarrow> (Inl e, s1)
      | (Inr x, s1) \<Rightarrow> (serialize_suggestion s1 x, s1))"

definition list_suggestions_endpoint ::
    "string option \<Rightarrow> membership \<Rightarrow> 'a business_db_scheme \<Rightarrow> suggestion_view list result" where
  "list_suggestions_endpoint status m s =
     (let answer = (\<lambda>st. map_result (serialize_suggestion s) (list_suggestions (m_startup_id m) st s))
      in case status of
           None \<Rightarrow> answer None
         | Some x \<Rightarrow>
             if x = [] then answer None
             else (case find (\<lambda>v. suggestion_status_value v = x) [SuS_pending, SuS_approved, SuS_rejected] of
                     None \<Rightarrow> Inl NotFound
                   | Some v \<Rightarrow> answer (Some v)))"

definition approve_suggestion_endpoint ::
    "(json \<Rightarrow> json option) \<Rightarrow> (json \<Rightarrow> bool) \<Rightarrow> instant \<Rightarrow> uid \<Rightarrow> membership
     \<Rightarrow> 'a business_db_scheme \<Rightarrow> suggestion_view result \<times> 'a business_db_scheme" where
  "approve_suggestion_endpoint to_float in_unit now i m s =
     (case run_tx (approve_suggestion to_float in_unit now m i) s of
        (Inl e, s1) \<Rightarrow> (Inl e, s1)
      | (Inr x, s1) \<Rightarrow> (serialize_suggestion s1 x, s1))"

definition reject_suggestion_endpoint ::
    "instant \<Rightarrow> uid \<Rightarrow> membership \<Rightarrow> 'a business_db_scheme \<Rightarrow> suggestion_view result \<times> 'a business_db_scheme" where
  "reject_suggestion_endpoint now i m s =
     (case run_tx (reject_suggestion now m i) s of
        (Inl e, s1) \<Rightarrow> (Inl e, s1)
      | (Inr x, s1) \<Rightarrow> (serialize_suggestion s1 x, s1))"

section \<open>Positioning map and plan\<close>

definition get_positioning_map_endpoint ::
    "membership \<Rightarrow> 'a business_db_scheme \<Rightarrow> (payload \<times> map_competitor list) result \<times> 'a business_db_scheme" where
  "get_positioning_map_endpoint m s = (let (v, s1) = assemble_map (m_startup_id m) s in (Inr v, s1))"

definition put_positioning_map_endpoint ::
    "payload \<Rightarrow> membership \<Rightarrow> 'a business_db_scheme \<Rightarrow> payload result \<times> 'a business_db_scheme" where
  "put_positioning_map_endpoint axes m s =
     (let (row, s1) = get_or_create_map (m_startup_id m) s
      in case update_axes row axes s1 of
           (Inl e, s2) \<Rightarrow> (Inl e, s2)
         | (Inr row', s2) \<Rightarrow> (Inr (pm_axes row'), s2))"

definition generate_plan_endpoint ::
    "instant \<Rightarrow> user \<Rightarrow> membership \<Rightarrow> 'a business_db_scheme \<Rightarrow> (uid \<times> business_plan_status) result \<times> 'a business_db_scheme" where
  "generate_plan_endpoint now u m s =
     (let (i, s1) = fresh_id s;
          plan = \<lparr>bp_id = i, bp_startup_id = m_startup_id m, bp_status = PS_generating, bp_document_id = None,
                  bp_created_by_id = u_id u, bp_created_at = now\<rparr>;
          s2 = s1\<lparr>business_plans := business_plans s1 @ [plan]\<rparr>;
          (j, s3) = enqueue now ''business.plan.generate''
            [(''startup_id'', JUid (m_startup_id m)), (''plan_id'', JUid i)] (Some (m_startup_id m)) s2
      in (Inr (i, PS_generating), s3))"

definition get_plan_endpoint :: "membership \<Rightarrow> 'a business_db_scheme \<Rightarrow> business_plan result" where
  "get_plan_endpoint m s =
     (case desc_by bp_created_at (filter (\<lambda>p. bp_startup_id p = m_startup_id m) (business_plans s)) of
        [] \<Rightarrow> Inl NotFound
      | p # _ \<Rightarrow> Inr p)"

section \<open>Records\<close>

record field_view =
  fv_key :: string
  fv_required :: bool
  fv_type :: string
  fv_choices :: "string list option"

text \<open>\<^verbatim>\<open>str(annotation)\<close>.\<close>

fun annotation_text :: "annotation \<Rightarrow> string" where
  "annotation_text A_str = ''<class '' @ [CHR 0x27] @ ''str'' @ [CHR 0x27] @ ''>''"
| "annotation_text A_strs = ''list[str]''"
| "annotation_text A_float = ''<class '' @ [CHR 0x27] @ ''float'' @ [CHR 0x27] @ ''>''"
| "annotation_text (A_choice cs) =
     (if cs = threat_levels then ''<enum '' @ [CHR 0x27] @ ''ThreatLevel'' @ [CHR 0x27] @ ''>''
      else ''<enum '' @ [CHR 0x27] @ ''PricingModelType'' @ [CHR 0x27] @ ''>'')"
| "annotation_text A_unit = ''float | None''"
| "annotation_text A_tiers = ''list[app.services.business.record_defs.PricingTier]''"

definition record_field_views :: "record_kind \<Rightarrow> field_view list" where
  "record_field_views kind =
     map (\<lambda>f. \<lparr>fv_key = fd_key f, fv_required = (fd_default f = None), fv_type = annotation_text (fd_type f),
               fv_choices = (case fd_type f of A_choice cs \<Rightarrow> Some cs | _ \<Rightarrow> None)\<rparr>) (record_fields kind)"

definition list_kind_endpoint ::
    "string \<Rightarrow> membership \<Rightarrow> 'a business_db_scheme \<Rightarrow> (record_view list \<times> field_view list) result" where
  "list_kind_endpoint kind m s =
     (case parse_record_kind kind of
        Inl e \<Rightarrow> Inl e
      | Inr k \<Rightarrow> Inr (map serialize_record (list_records (m_startup_id m) k s), record_field_views k))"

definition create_kind_endpoint ::
    "(json \<Rightarrow> json option) \<Rightarrow> (json \<Rightarrow> bool) \<Rightarrow> instant \<Rightarrow> string \<Rightarrow> payload \<Rightarrow> membership
     \<Rightarrow> 'a business_db_scheme \<Rightarrow> record_view result \<times> 'a business_db_scheme" where
  "create_kind_endpoint to_float in_unit now kind data m s =
     (case parse_record_kind kind of
        Inl e \<Rightarrow> (Inl e, s)
      | Inr k \<Rightarrow>
          (case create_record to_float in_unit now (m_startup_id m) k (JObj data) s of
             (Inl e, s1) \<Rightarrow> (Inl e, s1)
           | (Inr r, s1) \<Rightarrow> (Inr (serialize_record r), s1)))"

definition ai_fill_kind_endpoint ::
    "instant \<Rightarrow> string \<Rightarrow> membership \<Rightarrow> 'a business_db_scheme \<Rightarrow> (uid \<times> job_status) result \<times> 'a business_db_scheme" where
  "ai_fill_kind_endpoint now kind m s =
     (case parse_record_kind kind of
        Inl e \<Rightarrow> (Inl e, s)
      | Inr k \<Rightarrow>
          (let (j, s1) = enqueue now (''business.'' @ record_kind_value k @ ''.ai_fill'')
                 [(''startup_id'', JUid (m_startup_id m)), (''kind'', JStr (record_kind_value k))]
                 (Some (m_startup_id m)) s
           in (Inr (j_id j, j_status j), s1)))"

definition update_kind_endpoint ::
    "(json \<Rightarrow> json option) \<Rightarrow> (json \<Rightarrow> bool) \<Rightarrow> string \<Rightarrow> uid \<Rightarrow> payload \<Rightarrow> membership
     \<Rightarrow> 'a business_db_scheme \<Rightarrow> record_view result \<times> 'a business_db_scheme" where
  "update_kind_endpoint to_float in_unit kind record_id data m s =
     (case parse_record_kind kind of
        Inl e \<Rightarrow> (Inl e, s)
      | Inr k \<Rightarrow>
          (case find_record m k record_id s of
             Inl e \<Rightarrow> (Inl e, s)
           | Inr r \<Rightarrow>
               (case update_record to_float in_unit r (JObj data) s of
                  (Inl e, s1) \<Rightarrow> (Inl e, s1)
                | (Inr r', s1) \<Rightarrow> (Inr (serialize_record r'), s1))))"

definition delete_kind_endpoint ::
    "string \<Rightarrow> uid \<Rightarrow> membership \<Rightarrow> 'a business_db_scheme \<Rightarrow> unit result \<times> 'a business_db_scheme" where
  "delete_kind_endpoint kind record_id m s =
     (case parse_record_kind kind of
        Inl e \<Rightarrow> (Inl e, s)
      | Inr k \<Rightarrow>
          (case find_record m k record_id s of
             Inl e \<Rightarrow> (Inl e, s)
           | Inr r \<Rightarrow> (Inr (), delete_record r s)))"

section \<open>Requests\<close>

datatype business_request =
    BQ_canvas string
  | BQ_save string payload int
  | BQ_fill_canvas string
  | BQ_suggest suggestion_op payload "payload option" "string option"
  | BQ_approve uid
  | BQ_reject uid
  | BQ_map
  | BQ_save_map payload
  | BQ_plan
  | BQ_create string payload
  | BQ_fill_kind string
  | BQ_update string uid payload
  | BQ_delete string uid

text \<open>Anyone in the workspace reads and suggests; the rest is for founders and team members.\<close>

fun business_roles :: "business_request \<Rightarrow> membership_role list" where
  "business_roles (BQ_canvas _) = []"
| "business_roles (BQ_suggest _ _ _ _) = []"
| "business_roles BQ_map = []"
| "business_roles _ = [MR_founder, MR_team_member]"

fun business_body ::
    "(json \<Rightarrow> json option) \<Rightarrow> (json \<Rightarrow> bool) \<Rightarrow> instant \<Rightarrow> business_request \<Rightarrow> user \<Rightarrow> membership
     \<Rightarrow> 'a business_db_scheme \<Rightarrow> unit result \<times> 'a business_db_scheme" where
  "business_body fl un now (BQ_canvas ty) u m s = map_prod ignore id (run_tx (get_canvas_endpoint ty m) s)"
| "business_body fl un now (BQ_save ty b v) u m s = map_prod ignore id (run_tx (put_canvas_endpoint now ty b v m) s)"
| "business_body fl un now (BQ_fill_canvas ty) u m s = map_prod ignore id (run_tx (ai_fill_canvas_endpoint now ty m) s)"
| "business_body fl un now (BQ_suggest op t p n) u m s =
     map_prod ignore id (create_suggestion_endpoint fl un now op t p n m s)"
| "business_body fl un now (BQ_approve i) u m s = map_prod ignore id (approve_suggestion_endpoint fl un now i m s)"
| "business_body fl un now (BQ_reject i) u m s = map_prod ignore id (reject_suggestion_endpoint now i m s)"
| "business_body fl un now BQ_map u m s = map_prod ignore id (run_tx (get_positioning_map_endpoint m) s)"
| "business_body fl un now (BQ_save_map axes) u m s = map_prod ignore id (run_tx (put_positioning_map_endpoint axes m) s)"
| "business_body fl un now BQ_plan u m s = map_prod ignore id (run_tx (generate_plan_endpoint now u m) s)"
| "business_body fl un now (BQ_create k d) u m s = map_prod ignore id (run_tx (create_kind_endpoint fl un now k d m) s)"
| "business_body fl un now (BQ_fill_kind k) u m s = map_prod ignore id (run_tx (ai_fill_kind_endpoint now k m) s)"
| "business_body fl un now (BQ_update k i d) u m s = map_prod ignore id (run_tx (update_kind_endpoint fl un k i d m) s)"
| "business_body fl un now (BQ_delete k i) u m s = map_prod ignore id (run_tx (delete_kind_endpoint k i m) s)"

record business_call =
  bq_credential :: "string option"
  bq_workspace :: uid
  bq_now :: instant
  bq_request :: business_request

definition serve_business ::
    "(json \<Rightarrow> json option) \<Rightarrow> (json \<Rightarrow> bool) \<Rightarrow> (string \<Rightarrow> json option) \<Rightarrow> business_call
     \<Rightarrow> 'a business_db_scheme \<Rightarrow> unit result \<times> 'a business_db_scheme" where
  "serve_business fl un decode q s =
     member_request decode (bq_credential q) (bq_workspace q) (business_roles (bq_request q))
       (business_body fl un (bq_now q) (bq_request q)) s"

end
