(* ===== verification/Llm.thy ===== *)
theory Llm
  imports Py_Text
begin

text \<open>
  The seam to the language model (\<^verbatim>\<open>app/platform/llm.py\<close>): the client of the Chat Completions API over
  the outcome of its HTTP request, the offline stub, and the JSON Schemas a structured answer is asked
  to conform to.
\<close>

section \<open>The API client\<close>

text \<open>
  The outcome of \<^verbatim>\<open>httpx.post\<close>: a transport error, or a status with the decoded body (\<open>None\<close>: not
  JSON). Every failure of the client is a \<^verbatim>\<open>RuntimeError\<close>, which the worker retries.
\<close>

datatype http_result = Transport_error | Http_answer nat "json option"

definition llm_error :: app_error where
  "llm_error = Uncaught ''RuntimeError''"

definition post_chat :: "string \<Rightarrow> http_result \<Rightarrow> json result" where
  "post_chat api_key http =
     (if api_key = [] then Inl llm_error
      else case http of
        Transport_error \<Rightarrow> Inl llm_error
      | Http_answer status body \<Rightarrow>
          if status div 100 \<noteq> 2 then Inl llm_error
          else (case body of None \<Rightarrow> Inl llm_error | Some b \<Rightarrow> Inr b))"

text \<open>\<^verbatim>\<open>v[k]\<close> and \<^verbatim>\<open>v[0]\<close> of a decoded value; \<open>None\<close> is the lookup or type error. Indexing a text gives a
  text, which has no keys.\<close>

fun key_of :: "json \<Rightarrow> string \<Rightarrow> json option" where
  "key_of (JObj kvs) k = map_of kvs k"
| "key_of _ k = None"

fun first_of :: "json \<Rightarrow> json option" where
  "first_of (JList (x # xs)) = Some x"
| "first_of _ = None"

definition content_of :: "json \<Rightarrow> json result" where
  "content_of body =
     (case Option.bind (key_of body ''choices'') (\<lambda>choices.
         Option.bind (first_of choices) (\<lambda>choice.
         Option.bind (key_of choice ''message'') (\<lambda>msg. key_of msg ''content''))) of
        None \<Rightarrow> Inl llm_error
      | Some v \<Rightarrow> Inr (py_str v))"

definition is_blank :: "json \<Rightarrow> bool" where
  "is_blank v = (case v of JStr x \<Rightarrow> blank x | _ \<Rightarrow> False)"

definition complete_text :: "string \<Rightarrow> http_result \<Rightarrow> json result" where
  "complete_text api_key http =
     (case post_chat api_key http of
        Inl e \<Rightarrow> Inl e
      | Inr body \<Rightarrow>
          (case content_of body of
             Inl e \<Rightarrow> Inl e
           | Inr text \<Rightarrow> if is_blank text then Inl llm_error else Inr text))"

text \<open>\<open>loads\<close> is \<^verbatim>\<open>json.loads\<close>, \<open>None\<close> its \<^verbatim>\<open>ValueError\<close>.\<close>

definition complete_json :: "(json \<Rightarrow> json option) \<Rightarrow> string \<Rightarrow> http_result \<Rightarrow> payload result" where
  "complete_json loads api_key http =
     (case post_chat api_key http of
        Inl e \<Rightarrow> Inl e
      | Inr body \<Rightarrow>
          (case content_of body of
             Inl e \<Rightarrow> Inl e
           | Inr text \<Rightarrow> (case loads text of Some (JObj kvs) \<Rightarrow> Inr kvs | _ \<Rightarrow> Inl llm_error)))"

lemma complete_text_okD: "complete_text key http = Inr v \<Longrightarrow> is_text v \<and> \<not> is_blank v"
  by (auto simp: complete_text_def post_chat_def content_of_def split: sum.splits if_splits option.splits)

text \<open>
  An answer without text (\<^verbatim>\<open>"content": null\<close>, what the API sends for a refusal) does not fail: it is
  the text \<^verbatim>\<open>None\<close>.
\<close>

lemma refusal_is_text:
  "complete_text ''key''
     (Http_answer 200 (Some (JObj [(''choices'', JList [JObj [(''message'', JObj [(''content'', JNull)])]])])))
   = Inr (JStr ''None'')"
  by (simp add: complete_text_def post_chat_def content_of_def py_str_def is_blank_def blank_iff is_space_def Let_def)

section \<open>Schemas\<close>

lemma size_map_of: "map_of kvs k = Some v \<Longrightarrow> size v < size_list (size_prod (\<lambda>_. 0) size) kvs"
  by (induction kvs) (auto split: if_splits)

lemma size_jget_object: "jget kvs k = JObj ps \<Longrightarrow> x \<in> set ps \<Longrightarrow> size (snd x) < size_list (size_prod (\<lambda>_. 0) size) kvs"
proof -
  assume "jget kvs k = JObj ps" "x \<in> set ps"
  then have "map_of kvs k = Some (JObj ps)" by (auto simp: jget_def split: option.splits)
  then have "size (JObj ps) < size_list (size_prod (\<lambda>_. 0) size) kvs" by (rule size_map_of)
  moreover have "size (snd x) \<le> size_list (size_prod (\<lambda>_. 0) size) ps"
    using \<open>x \<in> set ps\<close> by (induction ps) (auto simp: size_prod_def)
  ultimately show ?thesis by simp
qed

text \<open>
  What it means for a value to conform to a schema of the keywords the code uses (\<^verbatim>\<open>type\<close>, \<^verbatim>\<open>enum\<close>,
  \<^verbatim>\<open>properties\<close> with every property required and no other allowed, \<^verbatim>\<open>items\<close>, \<^verbatim>\<open>maxItems\<close>).
\<close>

function conforms :: "json \<Rightarrow> json \<Rightarrow> bool" where
  "conforms schema v =
     (case schema of
        JObj node \<Rightarrow>
          (if truthy (jget node ''enum'') then (case jget node ''enum'' of JList vs \<Rightarrow> v \<in> set vs | _ \<Rightarrow> False)
           else if jget node ''type'' = JStr ''object'' then
             (case jget node ''properties'' of
                JObj ps \<Rightarrow>
                  (case v of
                     JObj kvs \<Rightarrow> fst ` set kvs \<subseteq> fst ` set ps
                       \<and> (\<forall>p \<in> set ps. case map_of kvs (fst p) of None \<Rightarrow> False | Some w \<Rightarrow> conforms (snd p) w)
                   | _ \<Rightarrow> False)
              | _ \<Rightarrow> False)
           else if jget node ''type'' = JStr ''array'' then
             (case v of
                JList ws \<Rightarrow>
                  (case map_of node ''items'' of None \<Rightarrow> False | Some items \<Rightarrow> \<forall>w \<in> set ws. conforms items w)
                  \<and> (case jget node ''maxItems'' of JInt n \<Rightarrow> int (length ws) \<le> n | _ \<Rightarrow> True)
              | _ \<Rightarrow> False)
           else if jget node ''type'' = JStr ''number'' then (case v of JInt n \<Rightarrow> True | _ \<Rightarrow> False)
           else jget node ''type'' = JStr ''string'' \<and> is_text v)
      | _ \<Rightarrow> False)"
  by pat_completeness auto
termination
proof (relation "measure (\<lambda>(s, v). size s)", goal_cases)
  case 1
  then show ?case by simp
next
  case (2 schema v node ps kvs p w)
  then show ?case using size_jget_object by (fastforce simp: less_Suc_eq_le)
next
  case (3 schema v node ws items w)
  then show ?case using size_map_of by (fastforce simp: less_Suc_eq_le)
qed

declare conforms.simps [simp del]

section \<open>The offline stub\<close>

text \<open>\<^verbatim>\<open>f"[stub-llm] {key}"\<close>, and the value the stub gives for a schema; a key of the properties names its value.\<close>

definition stub_text :: "string \<Rightarrow> json" where
  "stub_text key = JStr (''[stub-llm] '' @ key)"

function stub_value :: "json \<Rightarrow> string \<Rightarrow> json" where
  "stub_value schema key =
     (case schema of
        JObj node \<Rightarrow>
          (if truthy (jget node ''enum'') then (case first_of (jget node ''enum'') of None \<Rightarrow> JNull | Some x \<Rightarrow> x)
           else if jget node ''type'' = JStr ''object'' then
             (case jget node ''properties'' of
                JObj ps \<Rightarrow> JObj (map (\<lambda>p. (fst p, stub_value (snd p) (fst p))) ps)
              | _ \<Rightarrow> JObj [])
           else if jget node ''type'' = JStr ''array'' then
             JList [case map_of node ''items'' of None \<Rightarrow> stub_text key | Some items \<Rightarrow> stub_value items key]
           else if jget node ''type'' \<in> {JStr ''number'', JStr ''integer''} then JInt 0
           else if jget node ''type'' = JStr ''boolean'' then JBool False
           else stub_text key)
      | _ \<Rightarrow> stub_text key)"
  by pat_completeness auto
termination
proof (relation "measure (\<lambda>(s, k). size s)", goal_cases)
  case 1
  then show ?case by simp
next
  case (2 schema key node ps p)
  then show ?case using size_jget_object by (fastforce simp: less_Suc_eq_le)
next
  case (3 schema key node items)
  then show ?case using size_map_of by (fastforce simp: less_Suc_eq_le)
qed

declare stub_value.simps [simp del]

definition stub_complete_json :: "json \<Rightarrow> payload" where
  "stub_complete_json schema = (case stub_value schema ''value'' of JObj kvs \<Rightarrow> kvs | v \<Rightarrow> [(''value'', v)])"

end
