(* ===== verification/Business_Ai.thy ===== *)
theory Business_Ai
  imports Business_Endpoints Llm
begin

text \<open>
  The worker's jobs of the business builder: filling a canvas and a kind of records
  (\<^verbatim>\<open>app/worker/handlers/ai.py\<close>) and writing the business plan (\<^verbatim>\<open>plan.py\<close>,
  \<^verbatim>\<open>app/services/business/plan_defs.py\<close>). The answers of the language model are arguments.
\<close>

section \<open>What the model is asked for\<close>

definition enum_schema :: "string list \<Rightarrow> json" where
  "enum_schema cs = JObj [(''type'', JStr ''string''), (''enum'', JList (map JStr cs))]"

definition array_schema :: "json \<Rightarrow> json" where
  "array_schema items = JObj [(''type'', JStr ''array''), (''items'', items)]"

definition tier_schema :: json where
  "tier_schema = object_schema [(''name'', string_schema), (''price'', string_schema), (''features'', strings_schema)]"

fun record_item_schema :: "record_kind \<Rightarrow> json" where
  "record_item_schema RK_persona = object_schema
     [(''name'', string_schema), (''demographics'', string_schema), (''goals'', strings_schema),
      (''frustrations'', strings_schema), (''watering_holes'', strings_schema), (''quote'', string_schema)]"
| "record_item_schema RK_revenue_stream = object_schema
     [(''name'', string_schema), (''pricing_basis'', string_schema),
      (''est_monthly'', JObj [(''type'', JStr ''number'')]), (''assumptions'', string_schema)]"
| "record_item_schema RK_competitor = object_schema
     [(''name'', string_schema), (''positioning'', string_schema), (''price'', string_schema),
      (''strengths'', strings_schema), (''weaknesses'', strings_schema), (''threat_level'', enum_schema threat_levels)]"
| "record_item_schema RK_pricing = object_schema
     [(''model_type'', enum_schema pricing_models), (''tiers'', array_schema tier_schema)]"

definition record_json_schema :: "record_kind \<Rightarrow> json" where
  "record_json_schema kind =
     object_schema
       [(''records'', JObj [(''type'', JStr ''array''), (''maxItems'', JInt 3), (''items'', record_item_schema kind)])]"

section \<open>Filling a canvas\<close>

text \<open>
  The handler runs in two parts around the call of the model. The first finds (or makes) the row and
  the blocks that are empty; the second reads the row again, which sees what was committed during the
  call. \<open>startup\<close> of the payload that is gone ends the job at once.
\<close>

definition payload_startup :: "payload \<Rightarrow> 'a core_db_scheme \<Rightarrow> startup option result" where
  "payload_startup p s =
     (case map_of p ''startup_id'' of
        None \<Rightarrow> Inl (Uncaught ''KeyError'')
      | Some (JUid i) \<Rightarrow> Inr (startup_by_id s i)
      | Some _ \<Rightarrow> Inl data_error)"

definition empty_keys :: "canvas_type \<Rightarrow> payload \<Rightarrow> string list" where
  "empty_keys ty blocks = map bd_key (filter (\<lambda>b. \<not> truthy (jget blocks (bd_key b))) (canvas_blocks ty))"

definition canvas_fill_begin ::
    "payload \<Rightarrow> 'a business_db_scheme \<Rightarrow> (canvas_type \<times> uid) option result \<times> 'a business_db_scheme" where
  "canvas_fill_begin p s =
     (case payload_startup p s of
        Inl e \<Rightarrow> (Inl e, s)
      | Inr None \<Rightarrow> (Inr None, s)
      | Inr (Some st) \<Rightarrow>
          (case stored_enum canvas_type_of p ''canvas_type'' of
             Inl e \<Rightarrow> (Inl e, s)
           | Inr ty \<Rightarrow>
               let (c, s1) = get_or_create_canvas (st_id st) ty s
               in (Inr (if empty_keys ty (cv_blocks c) = [] then None else Some (ty, cv_id c)), s1)))"

fun fill_from :: "payload \<Rightarrow> payload \<Rightarrow> block_def list \<Rightarrow> payload \<Rightarrow> payload" where
  "fill_from latest filled [] merged = merged"
| "fill_from latest filled (b # bs) merged =
     fill_from latest filled bs
       (case map_of filled (bd_key b) of
          None \<Rightarrow> merged
        | Some v \<Rightarrow> if truthy (jget latest (bd_key b)) then merged else obj_set merged (bd_key b) v)"

definition canvas_fill_end ::
    "canvas_type \<Rightarrow> uid \<Rightarrow> payload result \<Rightarrow> 'a business_db_scheme \<Rightarrow> unit result \<times> 'a business_db_scheme" where
  "canvas_fill_end ty i answer s =
     (case answer of
        Inl e \<Rightarrow> (Inl e, s)
      | Inr filled \<Rightarrow>
          (case find (\<lambda>c. cv_id c = i) (canvases s) of
             None \<Rightarrow> (Inl (Uncaught ''InvalidRequestError''), s)
           | Some c \<Rightarrow>
               let latest = cv_blocks c; merged = fill_from latest filled (canvas_blocks ty) latest
               in if merged = latest then (Inr (), s)
                  else (case validate_blocks ty (JObj merged) of
                          Inl e \<Rightarrow> (Inl e, s)
                        | Inr _ \<Rightarrow> (Inr (), put_row (c\<lparr>cv_blocks := merged, cv_version := cv_version c + 1\<rparr>) s))))"

definition handle_canvas_ai_fill ::
    "payload \<Rightarrow> payload result \<Rightarrow> 'a business_db_scheme \<Rightarrow> unit result \<times> 'a business_db_scheme" where
  "handle_canvas_ai_fill p answer s =
     (case canvas_fill_begin p s of
        (Inl e, s1) \<Rightarrow> (Inl e, s1)
      | (Inr None, s1) \<Rightarrow> (Inr (), s1)
      | (Inr (Some (ty, i)), s1) \<Rightarrow> canvas_fill_end ty i answer s1)"

section \<open>Filling a kind of records\<close>

text \<open>
  A record that fails the validation (an \<^verbatim>\<open>AppError\<close>) is skipped; one that is no mapping raises a
  \<^verbatim>\<open>TypeError\<close>, which is not.
\<close>

fun is_app_error :: "app_error \<Rightarrow> bool" where
  "is_app_error (Uncaught _) = False"
| "is_app_error _ = True"

fun create_records ::
    "(json \<Rightarrow> json option) \<Rightarrow> (json \<Rightarrow> bool) \<Rightarrow> instant \<Rightarrow> uid \<Rightarrow> record_kind \<Rightarrow> json list
     \<Rightarrow> 'a business_db_scheme \<Rightarrow> unit result \<times> 'a business_db_scheme" where
  "create_records to_float in_unit now startup_id kind [] s = (Inr (), s)"
| "create_records to_float in_unit now startup_id kind (d # ds) s =
     (case create_record to_float in_unit now startup_id kind d s of
        (Inl e, s1) \<Rightarrow>
          if is_app_error e then create_records to_float in_unit now startup_id kind ds s1 else (Inl e, s1)
      | (Inr _, s1) \<Rightarrow> create_records to_float in_unit now startup_id kind ds s1)"

text \<open>\<^verbatim>\<open>(result.get("records") or [])[:3]\<close>: only a list (or a text, of which every character is refused) can
  be sliced.\<close>

definition answered_records :: "payload \<Rightarrow> json list result" where
  "answered_records answer =
     (let v = jget answer ''records''
      in if \<not> truthy v then Inr []
         else case v of
           JList xs \<Rightarrow> Inr (take 3 xs)
         | _ \<Rightarrow> Inl (Uncaught ''TypeError''))"

definition handle_record_ai_fill ::
    "(json \<Rightarrow> json option) \<Rightarrow> (json \<Rightarrow> bool) \<Rightarrow> instant \<Rightarrow> payload \<Rightarrow> payload result
     \<Rightarrow> 'a business_db_scheme \<Rightarrow> unit result \<times> 'a business_db_scheme" where
  "handle_record_ai_fill to_float in_unit now p answer s =
     (case stored_enum record_kind_of p ''kind'' of
        Inl e \<Rightarrow> (Inl e, s)
      | Inr kind \<Rightarrow>
          (case payload_startup p s of
             Inl e \<Rightarrow> (Inl e, s)
           | Inr None \<Rightarrow> (Inr (), s)
           | Inr (Some st) \<Rightarrow>
               if records_of (st_id st) kind s \<noteq> [] then (Inr (), s)
               else (case answer of
                       Inl e \<Rightarrow> (Inl e, s)
                     | Inr kvs \<Rightarrow>
                         (case answered_records kvs of
                            Inl e \<Rightarrow> (Inl e, s)
                          | Inr ds \<Rightarrow> create_records to_float in_unit now (st_id st) kind ds s))))"

section \<open>The business plan\<close>

record plan_section =
  ps_key :: string
  ps_heading :: string
  ps_guidance :: string

definition plan_sections :: "plan_section list" where
  "plan_sections = map (\<lambda>(k, h, g). \<lparr>ps_key = k, ps_heading = h, ps_guidance = g\<rparr>)
     [(''executive_summary'', ''Executive Summary'',
       ''A concise overview of the business, the opportunity, and why it will win.''),
      (''problem'', ''Problem & Opportunity'',
       ''The customer problem, its size and urgency, and the market opportunity.''),
      (''solution'', ''Solution & Product'',
       ''What the product is, how it solves the problem, and its current state.''),
      (''market'', ''Market & Customers'', ''Target customers/segments, market size, and demand evidence.''),
      (''business_model'', ''Business Model'',
       ''How the business makes money: revenue streams, pricing, unit economics.''),
      (''gtm'', ''Go-to-Market'', ''How the business reaches and acquires customers; channels and motion.''),
      (''competition'', ''Competition'',
       ''Key competitors, alternatives, and this startup'' @ [CHR 0x27] @ ''s differentiation.''),
      (''team'', ''Team'', ''The team, relevant strengths, and gaps to fill.''),
      (''financials'', ''Financials & Projections'', ''High-level projections, key assumptions, and funding needs.''),
      (''milestones'', ''Roadmap & Milestones'', ''Near-term milestones and the path to the next stage.'')]"

definition strip_text :: "json \<Rightarrow> json" where
  "strip_text v = (case v of JStr x \<Rightarrow> JStr (strip x) | _ \<Rightarrow> v)"

text \<open>
  \<open>llm\<close> is the outcome of the call for a section. The dash of the title (U+2014) is one character; its
  place is taken by the character 0x97.
\<close>

definition plan_title :: "startup \<Rightarrow> string" where
  "plan_title st =
     (case st_name st of None \<Rightarrow> ''Business'' | Some n \<Rightarrow> if n = [] then ''Business'' else n)
     @ '' '' @ [CHR 0x97] @ '' Business Plan''"

definition write_sections :: "(plan_section \<Rightarrow> json result) \<Rightarrow> json list result" where
  "write_sections llm =
     map_result (\<lambda>x. case llm x of
         Inl e \<Rightarrow> Inl e
       | Inr v \<Rightarrow> Inr (JObj [(''heading'', JStr (ps_heading x)), (''body'', strip_text v)])) plan_sections"

definition plan_complete :: "uid \<Rightarrow> business_plan \<Rightarrow> business_plan" where
  "plan_complete doc_id p = p\<lparr>bp_document_id := Some doc_id, bp_status := PS_complete\<rparr>"

definition finish_plan :: "instant \<Rightarrow> business_plan \<Rightarrow> document \<Rightarrow> 'a business_db_scheme \<Rightarrow> 'a business_db_scheme" where
  "finish_plan now plan doc s =
     publish now ''business.plan.generated''
       [(''startup_id'', JUid (bp_startup_id plan)), (''plan_id'', JUid (bp_id plan)), (''document_id'', JUid (d_id doc))]
       (s\<lparr>business_plans :=
          update_where (\<lambda>x. bp_id x = bp_id plan) (plan_complete (d_id doc)) (business_plans s)\<rparr>)"

definition handle_plan_generate ::
    "instant \<Rightarrow> payload \<Rightarrow> (plan_section \<Rightarrow> json result) \<Rightarrow> 'a business_db_scheme \<Rightarrow> unit result \<times> 'a business_db_scheme" where
  "handle_plan_generate now p llm s =
     (case stored_key p ''plan_id'' of
        Inl e \<Rightarrow> (Inl e, s)
      | Inr v \<Rightarrow>
          (case find (\<lambda>x. JUid (bp_id x) = v) (business_plans s) of
             None \<Rightarrow> (Inr (), s)
           | Some plan \<Rightarrow>
               if bp_status plan \<noteq> PS_generating then (Inr (), s)
               else (case startup_by_id s (bp_startup_id plan) of
                 None \<Rightarrow> (Inr (), s)
               | Some st \<Rightarrow>
                   (case write_sections llm of
                      Inl e \<Rightarrow> (Inl e, s)
                    | Inr secs \<Rightarrow>
                        (case create_document now (st_id st) (bp_created_by_id plan) DK_business_plan (plan_title st) secs
                                None None True s of
                           (Inl e, s1) \<Rightarrow> (Inl e, s1)
                         | (Inr doc, s1) \<Rightarrow> (Inr (), finish_plan now plan doc s1))))))"

end
