(* ===== verification/Doc_Links.thy ===== *)
theory Doc_Links
  imports Documents
begin

text \<open>
  The public links of a document: shares (\<^verbatim>\<open>app/services/documents/shares.py\<close>) and signature requests
  (\<^verbatim>\<open>app/services/documents/signatures.py\<close>). \<open>hash\<close> is SHA-256, the raw tokens are arguments.
  The e-mails with the links are best effort and leave no trace in the database; they are not
  modelled.
\<close>

section \<open>Shares\<close>

text \<open>
  \<^verbatim>\<open>now + timedelta(days=n) if n else None\<close>: zero days is no expiry. A date past the year 9999, at
  which Python raises, is not excluded.
\<close>

definition expiry :: "instant \<Rightarrow> int option \<Rightarrow> instant option" where
  "expiry now expires_in_days =
     (case expires_in_days of None \<Rightarrow> None | Some n \<Rightarrow> if n = 0 then None else Some (now + days n))"

definition expired :: "instant \<Rightarrow> instant option \<Rightarrow> bool" where
  "expired now expires_at = (case expires_at of None \<Rightarrow> False | Some t \<Rightarrow> t \<le> now)"

definition create_share ::
    "(string \<Rightarrow> string) \<Rightarrow> instant \<Rightarrow> string \<Rightarrow> document \<Rightarrow> uid \<Rightarrow> string \<Rightarrow> share_access \<Rightarrow> int option
     \<Rightarrow> 'a documents_db_scheme \<Rightarrow> (document_share \<times> string) result \<times> 'a documents_db_scheme" where
  "create_share hash now raw doc shared_by_id email access_level expires_in_days s =
     (let (i, s1) = fresh_id s;
          row = \<lparr>ds_id = i, ds_startup_id = d_startup_id doc, ds_document_id = d_id doc, ds_shared_by_id = Some shared_by_id,
                 ds_email = email, ds_access_level = access_level, ds_token_hash = hash raw,
                 ds_expires_at = expiry now expires_in_days, ds_revoked_at = None, ds_last_viewed_at = None,
                 ds_created_at = now\<rparr>
      in if \<not> fits 255 email then (Inl data_error, s1)
         else if \<exists>x \<in> set (document_shares s). ds_token_hash x = hash raw then (Inl (Uncaught ''IntegrityError''), s1)
         else (Inr (row, raw), publish now ''document.shared''
                 [(''startup_id'', JUid (d_startup_id doc)), (''document_id'', JUid (d_id doc)),
                  (''share_id'', JUid i), (''shared_by_id'', JUid shared_by_id)]
                 (s1\<lparr>document_shares := document_shares s1 @ [row]\<rparr>)))"

definition list_shares :: "document \<Rightarrow> 'a documents_db_scheme \<Rightarrow> document_share list" where
  "list_shares doc s = desc_by ds_created_at (filter (\<lambda>x. ds_document_id x = d_id doc) (document_shares s))"

definition list_workspace_shares :: "uid \<Rightarrow> 'a documents_db_scheme \<Rightarrow> document_share list" where
  "list_workspace_shares startup_id s =
     desc_by ds_created_at (filter (\<lambda>x. ds_startup_id x = startup_id) (document_shares s))"

definition revoke_share :: "instant \<Rightarrow> document_share \<Rightarrow> 'a documents_db_scheme \<Rightarrow> 'a documents_db_scheme" where
  "revoke_share now share s =
     publish now ''document.share.revoked''
       [(''startup_id'', JUid (ds_startup_id share)), (''share_id'', JUid (ds_id share))]
       (s\<lparr>document_shares :=
            update_where (\<lambda>x. ds_id x = ds_id share) (\<lambda>x. x\<lparr>ds_revoked_at := Some now\<rparr>) (document_shares s)\<rparr>)"

definition open_shared ::
    "(string \<Rightarrow> string) \<Rightarrow> instant \<Rightarrow> string \<Rightarrow> 'a documents_db_scheme \<Rightarrow> document_share result \<times> 'a documents_db_scheme" where
  "open_shared hash now token s =
     (case find (\<lambda>x. ds_token_hash x = hash token) (document_shares s) of
        None \<Rightarrow> (Inl NotFound, s)
      | Some share \<Rightarrow>
          if ds_revoked_at share \<noteq> None \<or> expired now (ds_expires_at share) then (Inl NotFound, s)
          else (Inr (share\<lparr>ds_last_viewed_at := Some now\<rparr>),
                s\<lparr>document_shares := update_where (\<lambda>x. ds_id x = ds_id share)
                                      (\<lambda>x. x\<lparr>ds_last_viewed_at := Some now\<rparr>) (document_shares s)\<rparr>))"

definition find_share :: "'a documents_db_scheme \<Rightarrow> membership \<Rightarrow> uid \<Rightarrow> uid \<Rightarrow> document_share result" where
  "find_share s m document_id share_id =
     (case find (\<lambda>x. ds_id x = share_id \<and> ds_document_id x = document_id \<and> ds_startup_id x = m_startup_id m)
             (document_shares s) of
        None \<Rightarrow> Inl NotFound
      | Some x \<Rightarrow> Inr x)"

definition share_status :: "instant \<Rightarrow> document_share \<Rightarrow> string" where
  "share_status now share =
     (if ds_revoked_at share \<noteq> None then ''revoked''
      else if expired now (ds_expires_at share) then ''expired'' else ''active'')"

section \<open>Signature requests\<close>

record signer_input =
  si_email :: string
  si_name :: "string option"

definition new_signer :: "(string \<Rightarrow> string) \<Rightarrow> uid \<Rightarrow> uid \<Rightarrow> nat \<Rightarrow> signer_input \<Rightarrow> string \<Rightarrow> signature_signer" where
  "new_signer hash i request_id position item raw =
     \<lparr>ss_id = i, ss_request_id = request_id, ss_email = si_email item, ss_name = si_name item,
      ss_token_hash = hash raw, ss_position = position, ss_signed_at = None, ss_signed_name = None,
      ss_signed_ip = None, ss_signed_user_agent = None\<rparr>"

text \<open>The loop over the signers; \<open>raws k\<close> is the token drawn for the \<open>k\<close>th.\<close>

fun add_signers ::
    "(string \<Rightarrow> string) \<Rightarrow> (nat \<Rightarrow> string) \<Rightarrow> uid \<Rightarrow> nat \<Rightarrow> signer_input list \<Rightarrow> 'a documents_db_scheme
     \<Rightarrow> (signature_signer \<times> string) list \<times> 'a documents_db_scheme" where
  "add_signers hash raws rid k [] s = ([], s)"
| "add_signers hash raws rid k (item # items) s =
     (let (i, s1) = fresh_id s;
          signer = new_signer hash i rid k item (raws k);
          (pairs, s2) = add_signers hash raws rid (Suc k) items
                          (s1\<lparr>signature_signers := signature_signers s1 @ [signer]\<rparr>)
      in ((signer, raws k) # pairs, s2))"

definition signers_fit :: "signer_input list \<Rightarrow> bool" where
  "signers_fit items \<longleftrightarrow> (\<forall>x \<in> set items. fits 255 (si_email x) \<and> fits_opt 255 (si_name x))"

definition create_request ::
    "(string \<Rightarrow> string) \<Rightarrow> instant \<Rightarrow> (nat \<Rightarrow> string) \<Rightarrow> document_file \<Rightarrow> uid \<Rightarrow> string \<Rightarrow> signer_input list \<Rightarrow> int option
     \<Rightarrow> 'a documents_db_scheme
     \<Rightarrow> (signature_request \<times> (signature_signer \<times> string) list) result \<times> 'a documents_db_scheme" where
  "create_request hash now raws file created_by_id title signers expires_in_days s =
     (if signers = [] then (Inl (validation_error []), s)
      else let (rid, s1) = fresh_id s;
               req = \<lparr>sr_id = rid, sr_startup_id = df_startup_id file, sr_file_id = df_id file, sr_title = title,
                      sr_status = SR_awaiting, sr_created_by_id = Some created_by_id,
                      sr_expires_at = expiry now expires_in_days, sr_completed_at = None, sr_cancelled_at = None,
                      sr_created_at = now\<rparr>;
               (pairs, s2) = add_signers hash raws rid 0 signers (s1\<lparr>signature_requests := signature_requests s1 @ [req]\<rparr>)
           in if \<not> fits 255 title \<or> \<not> signers_fit signers then (Inl data_error, s2)
              else if \<not> distinct (map ss_token_hash (signature_signers s2)) then (Inl (Uncaught ''IntegrityError''), s2)
              else (Inr (req, pairs), publish now ''document.signature.requested''
                      [(''startup_id'', JUid (df_startup_id file)), (''request_id'', JUid rid),
                       (''file_id'', JUid (df_id file)), (''created_by'', JUid created_by_id)] s2))"

definition list_requests :: "uid \<Rightarrow> 'a documents_db_scheme \<Rightarrow> signature_request list" where
  "list_requests startup_id s =
     desc_by sr_created_at (filter (\<lambda>r. sr_startup_id r = startup_id) (signature_requests s))"

definition get_request :: "'a documents_db_scheme \<Rightarrow> membership \<Rightarrow> uid \<Rightarrow> signature_request result" where
  "get_request s m request_id =
     (case find (\<lambda>r. sr_id r = request_id \<and> sr_startup_id r = m_startup_id m) (signature_requests s) of
        None \<Rightarrow> Inl NotFound
      | Some r \<Rightarrow> Inr r)"

definition signers_of :: "'a documents_db_scheme \<Rightarrow> uid \<Rightarrow> signature_signer list" where
  "signers_of s request_id = sort_key ss_position (filter (\<lambda>x. ss_request_id x = request_id) (signature_signers s))"

definition unsigned_signers :: "'a documents_db_scheme \<Rightarrow> uid \<Rightarrow> signature_signer list" where
  "unsigned_signers s request_id = filter (\<lambda>x. ss_signed_at x = None) (signers_of s request_id)"

definition request_active :: "instant \<Rightarrow> signature_request \<Rightarrow> bool" where
  "request_active now r \<longleftrightarrow> sr_status r = SR_awaiting \<and> \<not> expired now (sr_expires_at r)"

fun reissue ::
    "(string \<Rightarrow> string) \<Rightarrow> (nat \<Rightarrow> string) \<Rightarrow> nat \<Rightarrow> signature_signer list \<Rightarrow> 'a documents_db_scheme
     \<Rightarrow> (signature_signer \<times> string) list \<times> 'a documents_db_scheme" where
  "reissue hash raws k [] s = ([], s)"
| "reissue hash raws k (x # xs) s =
     (let (pairs, s1) = reissue hash raws (Suc k) xs
            (s\<lparr>signature_signers := update_where (\<lambda>y. ss_id y = ss_id x)
                 (\<lambda>y. y\<lparr>ss_token_hash := hash (raws k)\<rparr>) (signature_signers s)\<rparr>)
      in ((x\<lparr>ss_token_hash := hash (raws k)\<rparr>, raws k) # pairs, s1))"

definition reissue_unsigned ::
    "(string \<Rightarrow> string) \<Rightarrow> instant \<Rightarrow> (nat \<Rightarrow> string) \<Rightarrow> signature_request \<Rightarrow> 'a documents_db_scheme
     \<Rightarrow> (signature_signer \<times> string) list result \<times> 'a documents_db_scheme" where
  "reissue_unsigned hash now raws r s =
     (if \<not> request_active now r then (Inl SignatureNotActive, s)
      else let (pairs, s1) = reissue hash raws 0 (unsigned_signers s (sr_id r)) s
           in if distinct (map ss_token_hash (signature_signers s1)) then (Inr pairs, s1)
              else (Inl (Uncaught ''IntegrityError''), s1))"

definition update_request ::
    "uid \<Rightarrow> (signature_request \<Rightarrow> signature_request) \<Rightarrow> 'a documents_db_scheme \<Rightarrow> 'a documents_db_scheme" where
  "update_request i f s = s\<lparr>signature_requests := update_where (\<lambda>r. sr_id r = i) f (signature_requests s)\<rparr>"

definition update_signer ::
    "uid \<Rightarrow> (signature_signer \<Rightarrow> signature_signer) \<Rightarrow> 'a documents_db_scheme \<Rightarrow> 'a documents_db_scheme" where
  "update_signer i f s = s\<lparr>signature_signers := update_where (\<lambda>x. ss_id x = i) f (signature_signers s)\<rparr>"

definition cancel_request ::
    "instant \<Rightarrow> signature_request \<Rightarrow> 'a documents_db_scheme \<Rightarrow> unit result \<times> 'a documents_db_scheme" where
  "cancel_request now r s =
     (if sr_status r \<noteq> SR_awaiting then (Inl SignatureNotActive, s)
      else (Inr (), publish now ''document.signature.cancelled''
              [(''startup_id'', JUid (sr_startup_id r)), (''request_id'', JUid (sr_id r))]
              (update_request (sr_id r) (\<lambda>r. r\<lparr>sr_status := SR_cancelled, sr_cancelled_at := Some now\<rparr>) s)))"

text \<open>\<^verbatim>\<open>query.filter_by(id=signer.request_id).one()\<close>.\<close>

definition request_by_id :: "'a documents_db_scheme \<Rightarrow> uid \<Rightarrow> signature_request result" where
  "request_by_id s i =
     (case find (\<lambda>r. sr_id r = i) (signature_requests s) of None \<Rightarrow> Inl (Uncaught ''NoResultFound'') | Some r \<Rightarrow> Inr r)"

definition open_for_signing ::
    "(string \<Rightarrow> string) \<Rightarrow> instant \<Rightarrow> string \<Rightarrow> 'a documents_db_scheme \<Rightarrow> signature_signer result" where
  "open_for_signing hash now token s =
     (case find (\<lambda>x. ss_token_hash x = hash token) (signature_signers s) of
        None \<Rightarrow> Inl NotFound
      | Some signer \<Rightarrow>
          if ss_signed_at signer \<noteq> None then Inl NotFound
          else (case request_by_id s (ss_request_id signer) of
                  Inl e \<Rightarrow> Inl e
                | Inr r \<Rightarrow> if request_active now r then Inr signer else Inl NotFound))"

definition signed :: "instant \<Rightarrow> string \<Rightarrow> string option \<Rightarrow> string option \<Rightarrow> signature_signer \<Rightarrow> signature_signer" where
  "signed now typed_name ip ua x =
     x\<lparr>ss_signed_at := Some now, ss_signed_name := Some typed_name, ss_signed_ip := ip, ss_signed_user_agent := ua\<rparr>"

definition complete_request :: "instant \<Rightarrow> signature_request \<Rightarrow> 'a documents_db_scheme \<Rightarrow> 'a documents_db_scheme" where
  "complete_request now r s =
     publish now ''document.signature.completed''
       [(''startup_id'', JUid (sr_startup_id r)), (''request_id'', JUid (sr_id r))]
       (update_request (sr_id r) (\<lambda>r. r\<lparr>sr_status := SR_complete, sr_completed_at := Some now\<rparr>) s)"

definition record_signature ::
    "instant \<Rightarrow> signature_signer \<Rightarrow> string \<Rightarrow> string option \<Rightarrow> string option \<Rightarrow> 'a documents_db_scheme
     \<Rightarrow> signature_request result \<times> 'a documents_db_scheme" where
  "record_signature now signer typed_name ip ua s =
     (case request_by_id s (ss_request_id signer) of
        Inl e \<Rightarrow> (Inl e, s)
      | Inr r \<Rightarrow>
          if ss_signed_at signer \<noteq> None \<or> \<not> request_active now r then (Inl NotFound, s)
          else if \<not> fits 255 typed_name \<or> \<not> fits_opt 64 ip \<or> \<not> fits_opt 512 ua then (Inl data_error, s)
          else let s1 = publish now ''document.signature.signed''
                          [(''startup_id'', JUid (sr_startup_id r)), (''request_id'', JUid (sr_id r)),
                           (''signer_id'', JUid (ss_id signer))]
                          (update_signer (ss_id signer) (signed now typed_name ip ua) s)
               in if list_all (\<lambda>x. ss_signed_at x \<noteq> None) (signers_of s1 (sr_id r))
                  then (Inr (r\<lparr>sr_status := SR_complete, sr_completed_at := Some now\<rparr>), complete_request now r s1)
                  else (Inr r, s1))"

fun signature_status_value :: "signature_request_status \<Rightarrow> string" where
  "signature_status_value SR_awaiting = ''awaiting''"
| "signature_status_value SR_complete = ''complete''"
| "signature_status_value SR_cancelled = ''cancelled''"

definition request_status :: "instant \<Rightarrow> signature_request \<Rightarrow> string" where
  "request_status now r =
     (if sr_status r = SR_awaiting \<and> expired now (sr_expires_at r) then ''expired''
      else signature_status_value (sr_status r))"

record signer_view =
  sv_email :: string
  sv_name :: "string option"
  sv_position :: nat
  sv_status :: string
  sv_signed_at :: "instant option"
  sv_signed_name :: "string option"

record request_view =
  rv_id :: uid
  rv_title :: string
  rv_status :: string
  rv_file_id :: uid
  rv_filename :: "string option"
  rv_signed_count :: nat
  rv_total :: nat
  rv_expires_at :: "instant option"
  rv_completed_at :: "instant option"
  rv_created_at :: instant
  rv_signers :: "signer_view list option"

definition serialize_request :: "instant \<Rightarrow> bool \<Rightarrow> 'a documents_db_scheme \<Rightarrow> signature_request \<Rightarrow> request_view" where
  "serialize_request now with_signers s r =
     (let signers = signers_of s (sr_id r)
      in \<lparr>rv_id = sr_id r, rv_title = sr_title r, rv_status = request_status now r, rv_file_id = sr_file_id r,
          rv_filename = map_option df_filename (find (\<lambda>f. df_id f = sr_file_id r) (document_files s)),
          rv_signed_count = count_where (\<lambda>x. ss_signed_at x \<noteq> None) signers, rv_total = length signers,
          rv_expires_at = sr_expires_at r, rv_completed_at = sr_completed_at r, rv_created_at = sr_created_at r,
          rv_signers = (if with_signers
             then Some (map (\<lambda>x. \<lparr>sv_email = ss_email x, sv_name = ss_name x, sv_position = ss_position x,
                    sv_status = (if ss_signed_at x \<noteq> None then ''signed'' else ''pending''),
                    sv_signed_at = ss_signed_at x, sv_signed_name = ss_signed_name x\<rparr>) signers)
             else None)\<rparr>)"

end
