(* ===== verification/Doc_Endpoints.thy ===== *)
theory Doc_Endpoints
  imports Doc_Links
begin

text \<open>
  The endpoints of the documents (\<^verbatim>\<open>app/api/v1/endpoints/documents.py\<close>): the views they answer with,
  and every handler, up to its commit.
\<close>

text \<open>
  A handler that raises rolls the database back; the object store keeps what was done to it.
\<close>

definition doc_tx ::
    "('a documents_db_scheme \<Rightarrow> 'b result \<times> 'a documents_db_scheme) \<Rightarrow> 'a documents_db_scheme
     \<Rightarrow> 'b result \<times> 'a documents_db_scheme" where
  "doc_tx f s = (case f s of (Inl e, s') \<Rightarrow> (Inl e, s\<lparr>blobs := blobs s'\<rparr>) | (Inr a, s') \<Rightarrow> (Inr a, s'))"

definition document_roles :: "membership_role list" where
  "document_roles = [MR_founder, MR_team_member]"

section \<open>Views\<close>

record document_view =
  dv_id :: uid
  dv_kind :: string
  dv_title :: string
  dv_status :: document_status
  dv_ai_generated :: bool
  dv_folder :: "string option"
  dv_template_key :: "string option"
  dv_version :: int
  dv_updated_at :: instant

definition serialize_summary :: "document \<Rightarrow> document_view" where
  "serialize_summary d =
     \<lparr>dv_id = d_id d, dv_kind = document_kind_value (d_kind d), dv_title = d_title d, dv_status = d_status d,
      dv_ai_generated = d_ai_generated d, dv_folder = d_folder d, dv_template_key = d_template_key d,
      dv_version = d_version d, dv_updated_at = d_updated_at d\<rparr>"

definition serialize_document :: "document \<Rightarrow> document_view \<times> doc_section list" where
  "serialize_document d = (serialize_summary d, d_sections d)"

record file_view =
  fv_id :: uid
  fv_filename :: string
  fv_content_type :: string
  fv_size_bytes :: int
  fv_folder :: "string option"
  fv_url :: string
  fv_uploaded_at :: instant

definition serialize_file :: "document_file \<Rightarrow> file_view" where
  "serialize_file f =
     \<lparr>fv_id = df_id f, fv_filename = df_filename f, fv_content_type = df_content_type f,
      fv_size_bytes = df_size_bytes f, fv_folder = df_folder f, fv_url = df_url f, fv_uploaded_at = df_created_at f\<rparr>"

record share_view =
  hv_id :: uid
  hv_email :: string
  hv_access_level :: share_access
  hv_expires_at :: "instant option"
  hv_revoked_at :: "instant option"
  hv_last_viewed_at :: "instant option"
  hv_created_at :: instant
  hv_status :: string
  hv_document_id :: "uid option"

definition serialize_share :: "instant \<Rightarrow> bool \<Rightarrow> document_share \<Rightarrow> share_view" where
  "serialize_share now with_document x =
     \<lparr>hv_id = ds_id x, hv_email = ds_email x, hv_access_level = ds_access_level x, hv_expires_at = ds_expires_at x,
      hv_revoked_at = ds_revoked_at x, hv_last_viewed_at = ds_last_viewed_at x, hv_created_at = ds_created_at x,
      hv_status = share_status now x, hv_document_id = (if with_document then Some (ds_document_id x) else None)\<rparr>"

section \<open>Handlers\<close>

definition startup_one :: "membership \<Rightarrow> 'a core_db_scheme \<Rightarrow> startup result" where
  "startup_one m s =
     (case startup_by_id s (m_startup_id m) of None \<Rightarrow> Inl (Uncaught ''NoResultFound'') | Some x \<Rightarrow> Inr x)"

definition parse_kind :: "string option \<Rightarrow> document_kind option result" where
  "parse_kind kind =
     (case kind of
        None \<Rightarrow> Inr None
      | Some k \<Rightarrow>
          (case find (\<lambda>x. document_kind_value x = k)
                  [DK_business_plan, DK_pitch_deck, DK_financial_model, DK_meeting_notes, DK_one_pager, DK_custom] of
             None \<Rightarrow> Inl NotFound
           | Some x \<Rightarrow> Inr (Some x)))"

definition parse_status :: "string option \<Rightarrow> document_status option result" where
  "parse_status value =
     (case value of
        None \<Rightarrow> Inr None
      | Some v \<Rightarrow> if v = ''draft'' then Inr (Some DS_draft) else if v = ''final'' then Inr (Some DS_final) else Inl NotFound)"

definition list_documents_endpoint where
  "list_documents_endpoint kind folder status m s =
     (case startup_one m s of
        Inl e \<Rightarrow> Inl e
      | Inr startup \<Rightarrow>
          (case parse_kind kind of
             Inl e \<Rightarrow> Inl e
           | Inr k \<Rightarrow>
               (case parse_status status of
                  Inl e \<Rightarrow> Inl e
                | Inr st \<Rightarrow> Inr (map serialize_summary (list_documents (st_id startup) k folder st s)))))"

record document_create =
  dc_kind :: "document_kind option"
  dc_title :: "string option"
  dc_folder :: "string option"
  dc_template_key :: "string option"
  dc_sections :: "json list option"

text \<open>Python's \<^verbatim>\<open>a or b\<close> on optional text.\<close>

definition or_text :: "string option \<Rightarrow> string \<Rightarrow> string" where
  "or_text a b = (case a of None \<Rightarrow> b | Some x \<Rightarrow> if x = [] then b else x)"

text \<open>The kind, title and sections to start from.\<close>

definition starting_point ::
    "document_create \<Rightarrow> 'a platform_db_scheme \<Rightarrow> (document_kind \<times> string \<times> doc_section list) result \<times> 'a platform_db_scheme" where
  "starting_point b s =
     (if or_text (dc_template_key b) [] \<noteq> []
      then (case instantiate (or_text (dc_template_key b) []) s of
              (Inl e, s1) \<Rightarrow> (Inl e, s1)
            | (Inr (kind, title, secs), s1) \<Rightarrow> (Inr (kind, or_text (dc_title b) title, secs), s1))
      else (case validate_sections (case dc_sections b of None \<Rightarrow> [] | Some x \<Rightarrow> x) s of
              (Inl e, s1) \<Rightarrow> (Inl e, s1)
            | (Inr secs, s1) \<Rightarrow>
                (Inr (case dc_kind b of None \<Rightarrow> DK_custom | Some k \<Rightarrow> k, or_text (dc_title b) [], secs), s1)))"

definition create_document_endpoint where
  "create_document_endpoint now b m =
     doc_tx (\<lambda>s. case startup_one m s of
        Inl e \<Rightarrow> (Inl e, s)
      | Inr startup \<Rightarrow>
          (case starting_point b s of
             (Inl e, s1) \<Rightarrow> (Inl e, s1)
           | (Inr (kind, title, secs), s1) \<Rightarrow>
               (case create_document now (st_id startup) (m_user_id m) kind title (map section_json secs)
                       (dc_folder b) (dc_template_key b) False s1 of
                  (Inl e, s2) \<Rightarrow> (Inl e, s2)
                | (Inr doc, s2) \<Rightarrow> (Inr (serialize_document doc), s2))))"

definition max_file_bytes :: int where
  "max_file_bytes = 15 * 1024 * 1024"

text \<open>\<open>size\<close> is the length of the content of the upload, read in chunks up to the limit.\<close>

definition upload_document_file where
  "upload_document_file url_of now filename content_type size_bytes folder m =
     doc_tx (\<lambda>s. if content_type \<notin> set (map fst ext_by_content_type) then (Inl (validation_error []), s)
       else if max_file_bytes < size_bytes then (Inl (validation_error []), s)
       else (case startup_one m s of
               Inl e \<Rightarrow> (Inl e, s)
             | Inr startup \<Rightarrow>
                 (case upload_file url_of now (st_id startup) (m_user_id m) (or_text filename ''file'') content_type
                         size_bytes folder s of
                    (Inl e, s1) \<Rightarrow> (Inl e, s1)
                  | (Inr row, s1) \<Rightarrow> (Inr (serialize_file row), s1))))"

definition list_document_files where
  "list_document_files folder m s =
     (case startup_one m s of
        Inl e \<Rightarrow> Inl e
      | Inr startup \<Rightarrow> Inr (map serialize_file (list_files (st_id startup) folder s)))"

definition get_document_file where
  "get_document_file i m s = (case get_file s m i of Inl e \<Rightarrow> Inl e | Inr f \<Rightarrow> Inr (serialize_file f))"

definition delete_document_file where
  "delete_document_file now i m =
     doc_tx (\<lambda>s. case get_file s m i of Inl e \<Rightarrow> (Inl e, s) | Inr f \<Rightarrow> (Inr (), delete_file now f s))"

definition list_workspace_shares_endpoint where
  "list_workspace_shares_endpoint now m s =
     (case startup_one m s of
        Inl e \<Rightarrow> Inl e
      | Inr startup \<Rightarrow> Inr (map (serialize_share now True) (list_workspace_shares (st_id startup) s)))"

text \<open>The link is the front end's address of the raw token; the model answers the token.\<close>

definition create_share_endpoint where
  "create_share_endpoint hash now raw document_id email access_level expires_in_days m =
     doc_tx (\<lambda>s. case get_document s m document_id of
        Inl e \<Rightarrow> (Inl e, s)
      | Inr doc \<Rightarrow>
          (case create_share hash now raw doc (m_user_id m) email access_level expires_in_days s of
             (Inl e, s1) \<Rightarrow> (Inl e, s1)
           | (Inr (share, raw), s1) \<Rightarrow> (Inr (serialize_share now False share, raw), s1)))"

definition list_shares_endpoint where
  "list_shares_endpoint now document_id m s =
     (case get_document s m document_id of
        Inl e \<Rightarrow> Inl e
      | Inr doc \<Rightarrow> Inr (map (serialize_share now False) (list_shares doc s)))"

definition revoke_share_endpoint where
  "revoke_share_endpoint now document_id share_id m =
     doc_tx (\<lambda>s. case find_share s m document_id share_id of
        Inl e \<Rightarrow> (Inl e, s)
      | Inr share \<Rightarrow> (Inr (), revoke_share now share s))"

text \<open>The public link: no authentication.\<close>

definition open_shared_endpoint where
  "open_shared_endpoint hash now token =
     doc_tx (\<lambda>s. case open_shared hash now token s of
        (Inl e, s1) \<Rightarrow> (Inl e, s1)
      | (Inr share, s1) \<Rightarrow>
          (case find (\<lambda>d. d_id d = ds_document_id share) (documents s1) of
             None \<Rightarrow> (Inl (Uncaught ''NoResultFound''), s1)
           | Some doc \<Rightarrow> (Inr (serialize_document doc, ds_access_level share, ds_expires_at share), s1)))"

definition list_signature_requests_endpoint where
  "list_signature_requests_endpoint now m s =
     (case startup_one m s of
        Inl e \<Rightarrow> Inl e
      | Inr startup \<Rightarrow> Inr (map (serialize_request now True s) (list_requests (st_id startup) s)))"

definition create_signature_request_endpoint where
  "create_signature_request_endpoint hash now raws file_id signers title expires_in_days m =
     doc_tx (\<lambda>s. case get_file s m file_id of
        Inl e \<Rightarrow> (Inl e, s)
      | Inr file \<Rightarrow>
          (case create_request hash now raws file (m_user_id m) (or_text title (df_filename file)) signers expires_in_days s of
             (Inl e, s1) \<Rightarrow> (Inl e, s1)
           | (Inr (req, pairs), s1) \<Rightarrow> (Inr (serialize_request now True s1 req, map snd pairs), s1)))"

definition get_signature_request_endpoint where
  "get_signature_request_endpoint now i m s =
     (case get_request s m i of Inl e \<Rightarrow> Inl e | Inr r \<Rightarrow> Inr (serialize_request now True s r))"

definition remind_signature_request_endpoint where
  "remind_signature_request_endpoint hash now raws i m =
     doc_tx (\<lambda>s. case get_request s m i of
        Inl e \<Rightarrow> (Inl e, s)
      | Inr r \<Rightarrow>
          (case reissue_unsigned hash now raws r s of
             (Inl e, s1) \<Rightarrow> (Inl e, s1)
           | (Inr pairs, s1) \<Rightarrow> (Inr (length pairs), s1)))"

definition cancel_signature_request_endpoint where
  "cancel_signature_request_endpoint now i m =
     doc_tx (\<lambda>s. case get_request s m i of Inl e \<Rightarrow> (Inl e, s) | Inr r \<Rightarrow> cancel_request now r s)"

definition view_for_signing_endpoint where
  "view_for_signing_endpoint hash now token s =
     (case open_for_signing hash now token s of
        Inl e \<Rightarrow> Inl e
      | Inr signer \<Rightarrow>
          (case request_by_id s (ss_request_id signer) of
             Inl e \<Rightarrow> Inl e
           | Inr r \<Rightarrow>
               (case find (\<lambda>f. df_id f = sr_file_id r) (document_files s) of
                  None \<Rightarrow> Inl (Uncaught ''NoResultFound'')
                | Some f \<Rightarrow> Inr (sr_title r, rv_status (serialize_request now False s r), serialize_file f,
                                 ss_email signer, ss_name signer))))"

definition sign_endpoint where
  "sign_endpoint hash now token typed_name ip ua =
     doc_tx (\<lambda>s. if strip typed_name = [] then (Inl (validation_error []), s)
       else (case open_for_signing hash now token s of
               Inl e \<Rightarrow> (Inl e, s)
             | Inr signer \<Rightarrow>
                 (case record_signature now signer (strip typed_name) ip ua s of
                    (Inl e, s1) \<Rightarrow> (Inl e, s1)
                  | (Inr r, s1) \<Rightarrow> (Inr (serialize_request now False s1 r), s1))))"

definition get_document_endpoint where
  "get_document_endpoint i m s = (case get_document s m i of Inl e \<Rightarrow> Inl e | Inr d \<Rightarrow> Inr (serialize_document d))"

record document_save =
  dw_title :: string
  dw_sections :: "json list"
  dw_status :: document_status
  dw_folder :: "string option"
  dw_version :: int

definition update_document_endpoint where
  "update_document_endpoint now i b m =
     doc_tx (\<lambda>s. case get_document s m i of
        Inl e \<Rightarrow> (Inl e, s)
      | Inr doc \<Rightarrow>
          (case update_document now doc (dw_title b) (dw_sections b) (dw_status b) (dw_folder b) (dw_version b) s of
             (Inl e, s1) \<Rightarrow> (Inl e, s1)
           | (Inr doc, s1) \<Rightarrow> (Inr (serialize_document doc), s1)))"

definition delete_document_endpoint where
  "delete_document_endpoint i m =
     doc_tx (\<lambda>s. case get_document s m i of Inl e \<Rightarrow> (Inl e, s) | Inr doc \<Rightarrow> (Inr (), delete_document doc s))"

end
