(* ===== verification/Doc_Inv.thy ===== *)
theory Doc_Inv
  imports Doc_Endpoints
begin

text \<open>
  The invariant of the document tables: ids and token hashes are unique, every share, signature
  request and signer belongs to something, every file has its object in the store, and the status of
  a signature request says what its signers did. Every operation keeps it.
\<close>

section \<open>What the platform leaves alone\<close>

lemma publish_documents [simp]:
  "documents (publish now e p s) = documents s" "document_files (publish now e p s) = document_files s"
  "document_shares (publish now e p s) = document_shares s"
  "signature_requests (publish now e p s) = signature_requests s"
  "signature_signers (publish now e p s) = signature_signers s" "blobs (publish now e p s) = blobs s"
  by (rule publish_frame [of now e p s]; simp)+

lemma validate_sections_frame:
  "\<exists>n \<ge> fresh s. snd (validate_sections_from i xs s) = s\<lparr>fresh := n\<rparr>"
proof (induction xs arbitrary: i s)
  case Nil
  show ?case by (rule exI [of _ "fresh s"]) simp
next
  case (Cons x xs)
  have here: "\<exists>n \<ge> fresh s. s = s\<lparr>fresh := n\<rparr>" by (rule exI [of _ "fresh s"]) simp
  show ?case
  proof (cases "\<exists>kvs. x = JObj kvs \<and> is_text (jget kvs ''heading'') \<and> is_text (jget kvs ''body'')")
    case True
    then obtain kvs where x: "x = JObj kvs" "is_text (jget kvs ''heading'')" "is_text (jget kvs ''body'')" by blast
    define s1 where "s1 = (if truthy (jget kvs ''id'') then s else snd (fresh_id s))"
    obtain n where n: "fresh s1 \<le> n" "snd (validate_sections_from (Suc i) xs s1) = s1\<lparr>fresh := n\<rparr>"
      using Cons.IH [of s1 "Suc i"] by blast
    have "snd (validate_sections_from i (x # xs) s) = s1\<lparr>fresh := n\<rparr>"
      using x n(2) by (cases "validate_sections_from (Suc i) xs s1")
        (simp add: s1_def [symmetric] Let_def split: sum.split)
    moreover have "s1\<lparr>fresh := n\<rparr> = s\<lparr>fresh := n\<rparr>" "fresh s \<le> n"
      using n(1) by (auto simp: s1_def fresh_id_def split: if_splits)
    ultimately show ?thesis by auto
  qed (use here in \<open>cases x; auto\<close>)
qed

lemma validate_sections_cases:
  obtains n where "fresh s \<le> n" "validate_sections xs s = (fst (validate_sections xs s), s\<lparr>fresh := n\<rparr>)"
  using validate_sections_frame [of s 0 xs] unfolding validate_sections_def by (metis prod.collapse)

lemma empty_sections_frame: "snd (empty_sections hs s) = s\<lparr>fresh := fresh s + length hs\<rparr>"
  by (induction hs arbitrary: s) (simp_all add: fresh_id_def Let_def case_prod_unfold)

lemma starting_point_frame: "\<exists>n \<ge> fresh s. snd (starting_point b s) = s\<lparr>fresh := n\<rparr>"
proof -
  have here: "\<exists>n \<ge> fresh s. s = s\<lparr>fresh := n\<rparr>" by (rule exI [of _ "fresh s"]) simp
  have v: "\<exists>n \<ge> fresh s. snd (validate_sections xs s) = s\<lparr>fresh := n\<rparr>" for xs
    unfolding validate_sections_def by (rule validate_sections_frame)
  have i: "\<exists>n \<ge> fresh s. snd (instantiate k s) = s\<lparr>fresh := n\<rparr>" for k
  proof (cases "find_template k")
    case (Inr t)
    then show ?thesis using empty_sections_frame [of "dt_sections t" s]
      by (intro exI [of _ "fresh s + length (dt_sections t)"]) (simp add: instantiate_def case_prod_unfold Let_def)
  qed (use here in \<open>simp add: instantiate_def\<close>)
  have s: "snd (starting_point b s) = (if or_text (dc_template_key b) [] \<noteq> []
      then snd (instantiate (or_text (dc_template_key b) []) s)
      else snd (validate_sections (case dc_sections b of None \<Rightarrow> [] | Some x \<Rightarrow> x) s))"
    by (auto simp: starting_point_def split: prod.split sum.split)
  show ?thesis unfolding s using v i by simp
qed

section \<open>The invariant\<close>

definition docs_ok :: "uid \<Rightarrow> document list \<Rightarrow> bool" where
  "docs_ok n ds \<longleftrightarrow> distinct (map d_id ds) \<and> ids_below n (map d_id ds)"

definition files_ok :: "uid \<Rightarrow> document_file list \<Rightarrow> storage_key list \<Rightarrow> bool" where
  "files_ok n fs bs \<longleftrightarrow> distinct (map df_id fs) \<and> ids_below n (map df_id fs) \<and> distinct (map df_storage_key fs)
     \<and> (\<forall>f \<in> set fs. df_storage_key f \<in> set bs \<and> fst (snd (df_storage_key f)) < n)"

definition shares_ok :: "uid \<Rightarrow> document list \<Rightarrow> document_share list \<Rightarrow> bool" where
  "shares_ok n ds xs \<longleftrightarrow> distinct (map ds_id xs) \<and> ids_below n (map ds_id xs) \<and> distinct (map ds_token_hash xs)
     \<and> (\<forall>x \<in> set xs. \<exists>d \<in> set ds. d_id d = ds_document_id x \<and> d_startup_id d = ds_startup_id x)"

definition signers_in :: "signature_signer list \<Rightarrow> uid \<Rightarrow> signature_signer list" where
  "signers_in gs i = filter (\<lambda>g. ss_request_id g = i) gs"

definition request_ok :: "signature_signer list \<Rightarrow> signature_request \<Rightarrow> bool" where
  "request_ok gs r \<longleftrightarrow> signers_in gs (sr_id r) \<noteq> []
     \<and> (sr_status r = SR_complete \<longleftrightarrow> (\<forall>g \<in> set (signers_in gs (sr_id r)). ss_signed_at g \<noteq> None))
     \<and> (sr_status r = SR_complete \<longleftrightarrow> sr_completed_at r \<noteq> None)
     \<and> (sr_status r = SR_cancelled \<longleftrightarrow> sr_cancelled_at r \<noteq> None)"

definition requests_ok :: "uid \<Rightarrow> document_file list \<Rightarrow> signature_request list \<Rightarrow> signature_signer list \<Rightarrow> bool" where
  "requests_ok n fs rs gs \<longleftrightarrow> distinct (map sr_id rs) \<and> ids_below n (map sr_id rs)
     \<and> distinct (map ss_id gs) \<and> ids_below n (map ss_id gs) \<and> distinct (map ss_token_hash gs)
     \<and> (\<forall>r \<in> set rs. (\<exists>f \<in> set fs. df_id f = sr_file_id r) \<and> request_ok gs r)
     \<and> (\<forall>g \<in> set gs. ss_request_id g \<in> sr_id ` set rs)"

definition doc_inv :: "'a documents_db_scheme \<Rightarrow> bool" where
  "doc_inv s \<longleftrightarrow> docs_ok (fresh s) (documents s) \<and> files_ok (fresh s) (document_files s) (blobs s)
     \<and> shares_ok (fresh s) (documents s) (document_shares s)
     \<and> requests_ok (fresh s) (document_files s) (signature_requests s) (signature_signers s)"

lemma docs_ok_mono: "docs_ok n ds \<Longrightarrow> n \<le> m \<Longrightarrow> docs_ok m ds"
  by (auto simp: docs_ok_def intro: ids_below_mono)

lemma files_ok_mono: "files_ok n fs bs \<Longrightarrow> n \<le> m \<Longrightarrow> set bs \<subseteq> set bs' \<Longrightarrow> files_ok m fs bs'"
  by (auto simp: files_ok_def intro: ids_below_mono)

lemma shares_ok_mono: "shares_ok n ds xs \<Longrightarrow> n \<le> m \<Longrightarrow> set ds \<subseteq> set ds' \<Longrightarrow> shares_ok m ds' xs"
  unfolding shares_ok_def by (blast intro: ids_below_mono)

lemma requests_ok_mono: "requests_ok n fs rs gs \<Longrightarrow> n \<le> m \<Longrightarrow> set fs \<subseteq> set fs' \<Longrightarrow> requests_ok m fs' rs gs"
  unfolding requests_ok_def by (blast intro: ids_below_mono)

text \<open>The rule for the operations that do not write these tables.\<close>

lemma doc_inv_frame:
  assumes "doc_inv s" "fresh s \<le> fresh s'" "documents s' = documents s" "document_files s' = document_files s"
    "document_shares s' = document_shares s" "signature_requests s' = signature_requests s"
    "signature_signers s' = signature_signers s" "set (blobs s) \<subseteq> set (blobs s')"
  shows "doc_inv s'"
  using assms docs_ok_mono files_ok_mono shares_ok_mono [OF _ _ subset_refl] requests_ok_mono [OF _ _ subset_refl]
  unfolding doc_inv_def by metis

lemma doc_inv_publish [simp]: "doc_inv s \<Longrightarrow> doc_inv (publish now e p s)"
  by (rule doc_inv_frame [of s]) (simp_all add: publish_fresh)

lemma doc_inv_fresh: "doc_inv s \<Longrightarrow> fresh s \<le> n \<Longrightarrow> doc_inv (s\<lparr>fresh := n\<rparr>)"
  by (rule doc_inv_frame [of s]) simp_all

lemma doc_tx_inv:
  assumes "doc_inv s" "\<And>a s'. f s = (Inr a, s') \<Longrightarrow> doc_inv s'"
    "\<And>e s'. f s = (Inl e, s') \<Longrightarrow> set (blobs s) \<subseteq> set (blobs s')"
  shows "doc_inv (snd (doc_tx f s))"
proof (cases "f s")
  case (Pair r s')
  show ?thesis
  proof (cases r)
    case (Inl e)
    then show ?thesis using Pair assms(3) by (simp add: doc_tx_def) (rule doc_inv_frame [OF assms(1)]; simp)
  qed (use Pair assms(2) in \<open>simp add: doc_tx_def\<close>)
qed

section \<open>Documents and shares\<close>

lemma create_document_keeps:
  assumes "doc_inv s" "create_document now st u k t secs f tk ai s = (Inr d, s')"
  shows "doc_inv s'"
proof -
  obtain n where n: "fresh s \<le> n" "validate_sections secs s = (fst (validate_sections secs s), s\<lparr>fresh := n\<rparr>)"
    by (rule validate_sections_cases)
  have s': "d_id d = n" "s' = publish now ''document.created''
      [(''startup_id'', JUid st), (''document_id'', JUid n), (''kind'', JStr (document_kind_value k))]
      (s\<lparr>fresh := Suc n, documents := documents s @ [d]\<rparr>)"
    using assms(2) n(2) by (auto simp: create_document_def fresh_id_def Let_def split: sum.splits prod.splits if_splits)
  have "doc_inv (s\<lparr>fresh := n\<rparr>)" by (rule doc_inv_fresh [OF assms(1) n(1)])
  then have "doc_inv (s\<lparr>fresh := Suc n, documents := documents s @ [d]\<rparr>)"
    using s'(1) ids_below_fresh [of n "map d_id (documents s)"]
    unfolding doc_inv_def
    by (auto simp: docs_ok_def intro: files_ok_mono [of n] shares_ok_mono [of n] requests_ok_mono [of n])
  then show ?thesis unfolding s'(2) by simp
qed

lemma update_rows_ok:
  assumes "distinct (map k t)" "k r' = k r" "r \<in> set t"
  shows "map k (update_where (\<lambda>x. k x = k r) (\<lambda>_. r') t) = map k t"
  by (rule map_update_where) (simp add: assms)

lemma update_document_keeps:
  assumes inv: "doc_inv s" and d: "d \<in> set (documents s)"
    and u: "update_document now d t secs stat f v s = (Inr d', s')"
  shows "doc_inv s'"
proof -
  obtain n where n: "fresh s \<le> n" "validate_sections secs s = (fst (validate_sections secs s), s\<lparr>fresh := n\<rparr>)"
    by (rule validate_sections_cases)
  have d': "d_id d' = d_id d" "d_startup_id d' = d_startup_id d"
    and s': "s' = s\<lparr>fresh := n, documents := update_where (\<lambda>x. d_id x = d_id d) (\<lambda>_. d') (documents s)\<rparr>"
    using u n(2) by (auto simp: update_document_def Let_def split: sum.splits prod.splits if_splits)
  let ?ds = "update_where (\<lambda>x. d_id x = d_id d) (\<lambda>_. d') (documents s)"
  have inv': "doc_inv (s\<lparr>fresh := n\<rparr>)" by (rule doc_inv_fresh [OF inv n(1)])
  have ids: "map d_id ?ds = map d_id (documents s)" by (rule map_update_where) (simp add: d')
  have "\<exists>x \<in> set ?ds. d_id x = i \<and> d_startup_id x = st" if ex: "\<exists>x \<in> set (documents s). d_id x = i \<and> d_startup_id x = st" for i st
  proof -
    obtain x where x: "x \<in> set (documents s)" "d_id x = i" "d_startup_id x = st" using ex by blast
    have "d_id x = d_id d \<longrightarrow> x = d" using inv x(1) d by (auto simp: doc_inv_def docs_ok_def dest: distinct_mapD)
    then show ?thesis using x d' by (auto simp: set_update_where)
  qed
  then show ?thesis using inv' ids unfolding s' by (auto simp: doc_inv_def docs_ok_def shares_ok_def)
qed

lemma delete_document_keeps:
  assumes "doc_inv s" "d \<in> set (documents s)"
  shows "doc_inv (delete_document d s)"
proof -
  have "shares_ok (fresh s) (delete_where (\<lambda>x. d_id x = d_id d) (documents s))
      (delete_where (\<lambda>x. ds_document_id x = d_id d) (document_shares s))"
    using assms(1) unfolding doc_inv_def shares_ok_def
    by (simp add: distinct_map_delete_where ids_below_delete) metis
  then show ?thesis
    using assms(1) by (simp add: doc_inv_def delete_document_def docs_ok_def distinct_map_delete_where ids_below_delete)
qed

lemma create_share_keeps:
  assumes "doc_inv s" "d \<in> set (documents s)" "create_share hash now raw d u e a n s = (Inr r, s')"
  shows "doc_inv s'"
proof -
  obtain x y where r: "r = (x, y)" by (cases r)
  have x: "ds_id x = fresh s" "ds_token_hash x = hash raw" "ds_document_id x = d_id d" "ds_startup_id x = d_startup_id d"
    and new: "\<forall>y \<in> set (document_shares s). ds_token_hash y \<noteq> hash raw"
    and s': "\<exists>p. s' = publish now ''document.shared'' p (s\<lparr>fresh := Suc (fresh s), document_shares := document_shares s @ [x]\<rparr>)"
    using assms(3) r by (auto simp: create_share_def fresh_id_def Let_def split: if_splits)
  have "doc_inv (s\<lparr>fresh := Suc (fresh s), document_shares := document_shares s @ [x]\<rparr>)"
    using assms(1,2) x new ids_below_fresh [of "fresh s" "map ds_id (document_shares s)"]
    unfolding doc_inv_def
    by (auto simp: shares_ok_def intro: docs_ok_mono files_ok_mono requests_ok_mono)
  then show ?thesis using s' by auto
qed

lemma update_shares_keeps:
  assumes "doc_inv s" "\<And>x. ds_id (f x) = ds_id x \<and> ds_token_hash (f x) = ds_token_hash x
      \<and> ds_document_id (f x) = ds_document_id x \<and> ds_startup_id (f x) = ds_startup_id x"
  shows "doc_inv (s\<lparr>document_shares := update_where P f (document_shares s)\<rparr>)"
proof -
  note k = map_update_where [of P ds_id f "document_shares s"] map_update_where [of P ds_token_hash f "document_shares s"]
  have "map ds_id (update_where P f (document_shares s)) = map ds_id (document_shares s)"
    "map ds_token_hash (update_where P f (document_shares s)) = map ds_token_hash (document_shares s)"
    by (rule k; simp add: assms(2))+
  then show ?thesis using assms by (auto simp: doc_inv_def shares_ok_def set_update_where)
qed

lemma revoke_share_keeps: "doc_inv s \<Longrightarrow> doc_inv (revoke_share now x s)"
  unfolding revoke_share_def by (rule doc_inv_publish, rule update_shares_keeps) simp_all

lemma open_shared_keeps: "doc_inv s \<Longrightarrow> doc_inv (snd (open_shared hash now token s))"
  by (auto simp: open_shared_def intro!: update_shares_keeps split: option.split)

section \<open>Files\<close>

lemma upload_file_keeps:
  assumes "doc_inv s" "upload_file url_of now st u name ty n folder s = (Inr f, s')"
  shows "doc_inv s'"
proof -
  obtain ext p where f: "df_id f = Suc (fresh s)" "df_storage_key f = (st, fresh s, ext)"
    and s': "s' = publish now ''document.file.uploaded'' p
      (s\<lparr>blobs := (st, fresh s, ext) # blobs s, fresh := Suc (Suc (fresh s)), document_files := document_files s @ [f]\<rparr>)"
    using assms(2) by (auto simp: upload_file_def fresh_id_def Let_def split: if_splits)
  let ?s = "s\<lparr>blobs := (st, fresh s, ext) # blobs s, fresh := Suc (Suc (fresh s)), document_files := document_files s @ [f]\<rparr>"
  have "files_ok (fresh s) (document_files s) (blobs s)" using assms(1) by (simp add: doc_inv_def)
  moreover from this have "df_storage_key x \<noteq> (st, fresh s, ext)" if "x \<in> set (document_files s)" for x
    using that unfolding files_ok_def by (metis fst_conv snd_conv less_irrefl)
  ultimately have "files_ok (Suc (Suc (fresh s))) (document_files s @ [f]) ((st, fresh s, ext) # blobs s)"
    using f by (fastforce simp: files_ok_def ids_below_def)
  then have "doc_inv ?s"
    using assms(1) unfolding doc_inv_def
    by (auto intro: docs_ok_mono shares_ok_mono requests_ok_mono)
  then show ?thesis unfolding s' by simp
qed

lemma signers_in_delete:
  "i \<notin> A \<Longrightarrow> signers_in (delete_where (\<lambda>x. ss_request_id x \<in> A) gs) i = signers_in gs i"
  by (auto simp: signers_in_def delete_where_def intro: filter_cong)

lemma delete_file_keeps:
  assumes inv: "doc_inv s" and f: "f \<in> set (document_files s)"
  shows "doc_inv (delete_file now f s)"
proof -
  let ?fs = "delete_where (\<lambda>x. df_id x = df_id f) (document_files s)"
  let ?A = "sr_id ` {r \<in> set (signature_requests s). sr_file_id r = df_id f}"
  let ?rs = "delete_where (\<lambda>r. sr_file_id r = df_id f) (signature_requests s)"
  let ?gs = "delete_where (\<lambda>x. ss_request_id x \<in> ?A) (signature_signers s)"
  have fok: "files_ok (fresh s) (document_files s) (blobs s)"
    and rok: "requests_ok (fresh s) (document_files s) (signature_requests s) (signature_signers s)"
    using inv by (simp_all add: doc_inv_def)
  have "files_ok (fresh s) ?fs (removeAll (df_storage_key f) (blobs s))"
    using fok f by (auto simp: files_ok_def distinct_map_delete_where ids_below_delete dest: distinct_mapD)
  moreover have "requests_ok (fresh s) ?fs ?rs ?gs"
  proof -
    have k: "sr_id r \<notin> ?A" if "r \<in> set ?rs" for r
      using that rok by (auto simp: requests_ok_def dest: distinct_mapD)
    have "request_ok ?gs r" if "r \<in> set ?rs" for r
    proof -
      have "request_ok (signature_signers s) r" using that rok by (simp add: requests_ok_def)
      then show ?thesis unfolding request_ok_def signers_in_delete [OF k [OF that]] .
    qed
    moreover have "\<exists>x \<in> set ?fs. df_id x = sr_file_id r" if "r \<in> set ?rs" for r
      using that rok unfolding requests_ok_def by fastforce
    moreover have "ss_request_id g \<in> sr_id ` set ?rs" if "g \<in> set ?gs" for g
      using that rok by (fastforce simp: requests_ok_def)
    ultimately show ?thesis using rok
      by (simp add: requests_ok_def distinct_map_delete_where ids_below_delete del: set_delete_where)
  qed
  ultimately show ?thesis
    using inv unfolding delete_file_def Let_def by (intro doc_inv_publish) (simp add: doc_inv_def)
qed

section \<open>Signature requests\<close>

fun new_rows :: "(string \<Rightarrow> string) \<Rightarrow> (nat \<Rightarrow> string) \<Rightarrow> uid \<Rightarrow> nat \<Rightarrow> uid \<Rightarrow> signer_input list \<Rightarrow> signature_signer list" where
  "new_rows hash raws rid k n [] = []"
| "new_rows hash raws rid k n (item # items) =
     new_signer hash n rid k item (raws k) # new_rows hash raws rid (Suc k) (Suc n) items"

lemma add_signers_state:
  "snd (add_signers hash raws rid k items s) = s\<lparr>fresh := fresh s + length items,
     signature_signers := signature_signers s @ new_rows hash raws rid k (fresh s) items\<rparr>"
  by (induction items arbitrary: k s) (simp_all add: fresh_id_def Let_def case_prod_unfold)

lemma new_rows_facts:
  "\<forall>g \<in> set (new_rows hash raws rid k n items). ss_request_id g = rid \<and> ss_signed_at g = None"
  "map ss_id (new_rows hash raws rid k n items) = [n..<n + length items]"
  "new_rows hash raws rid k n items = [] \<longleftrightarrow> items = []"
  by (induction items arbitrary: k n) (simp_all add: new_signer_def upt_rec)

lemma signers_in_append: "signers_in (gs @ hs) i = signers_in gs i @ signers_in hs i"
  by (simp add: signers_in_def)

lemma request_ok_cong:
  "signers_in gs' (sr_id r) = signers_in gs (sr_id r) \<Longrightarrow> request_ok gs' r = request_ok gs r"
  by (simp add: request_ok_def)

lemma no_signers_yet:
  assumes "requests_ok n fs rs gs" "i \<notin> sr_id ` set rs"
  shows "signers_in gs i = []"
  using assms by (auto simp: requests_ok_def signers_in_def filter_empty_conv)

lemma requests_add:
  assumes ok: "requests_ok n fs rs gs" and r: "sr_id r = n" "\<exists>f \<in> set fs. df_id f = sr_file_id r"
    "sr_status r = SR_awaiting" "sr_completed_at r = None" "sr_cancelled_at r = None"
    and rows: "rows = new_rows hash raws n 0 (Suc n) items" "items \<noteq> []"
    and d: "distinct (map ss_token_hash (gs @ rows))"
  shows "requests_ok (Suc n + length items) fs (rs @ [r]) (gs @ rows)"
proof -
  note f = new_rows_facts [of hash raws n 0 "Suc n" items, folded rows(1)]
  have fresh: "n \<notin> sr_id ` set rs" "n \<notin> ss_id ` set gs" "\<forall>x \<in> set rs. sr_id x < n"
    using ok by (auto simp: requests_ok_def ids_below_def)
  have in_rows: "signers_in rows i = (if i = n then rows else [])" for i
    using f(1) by (auto simp: signers_in_def filter_id_conv filter_empty_conv)
  have "request_ok (gs @ rows) x" if "x \<in> set rs" for x
    using that ok fresh by (auto simp: request_ok_def requests_ok_def signers_in_append in_rows)
  moreover have "request_ok (gs @ rows) r"
  proof -
    have "signers_in (gs @ rows) (sr_id r) = rows"
      using no_signers_yet [OF ok fresh(1)] r(1) by (simp add: signers_in_append in_rows)
    moreover obtain g where "g \<in> set rows" "ss_signed_at g = None"
      using f(1,3) rows(2) by (cases rows) auto
    ultimately show ?thesis using r(3-5) by (auto simp: request_ok_def)
  qed
  moreover have "distinct (map ss_id (gs @ rows))" "ids_below (Suc n + length items) (map ss_id (gs @ rows))"
    using ok f(2) by (auto simp: requests_ok_def ids_below_def)
  moreover have "distinct (map sr_id (rs @ [r]))" "ids_below (Suc n + length items) (map sr_id (rs @ [r]))"
    using ok r(1) fresh by (auto simp: requests_ok_def ids_below_def)
  ultimately show ?thesis
    using ok r d f(1) by (auto simp: requests_ok_def)
qed

lemma create_request_keeps:
  assumes "doc_inv s" "f \<in> set (document_files s)" "create_request hash now raws f u t items n s = (Inr x, s')"
  shows "doc_inv s'"
proof -
  let ?rows = "new_rows hash raws (fresh s) 0 (Suc (fresh s)) items"
  obtain r pairs where x: "x = (r, pairs)" by (cases x)
  have r: "items \<noteq> []" "sr_id r = fresh s" "sr_file_id r = df_id f" "sr_status r = SR_awaiting"
    "sr_completed_at r = None" "sr_cancelled_at r = None"
    and s': "\<exists>p. s' = publish now ''document.signature.requested'' p
      (s\<lparr>signature_requests := signature_requests s @ [r], fresh := Suc (fresh s) + length items,
         signature_signers := signature_signers s @ ?rows\<rparr>)"
    and d: "distinct (map ss_token_hash (signature_signers s @ ?rows))"
    using assms(3) x
    by (auto simp: create_request_def fresh_id_def Let_def case_prod_unfold add_signers_state split: if_splits)
  have "requests_ok (Suc (fresh s) + length items) (document_files s) (signature_requests s @ [r]) (signature_signers s @ ?rows)"
    by (rule requests_add [OF _ r(2) _ r(4-6) refl r(1) d]) (use assms(1,2) r(3) in \<open>auto simp: doc_inv_def\<close>)
  moreover have "docs_ok (Suc (fresh s) + length items) (documents s)"
    "files_ok (Suc (fresh s) + length items) (document_files s) (blobs s)"
    "shares_ok (Suc (fresh s) + length items) (documents s) (document_shares s)"
    using assms(1) by (auto simp: doc_inv_def intro: docs_ok_mono files_ok_mono shares_ok_mono)
  ultimately have "doc_inv (s\<lparr>signature_requests := signature_requests s @ [r], fresh := Suc (fresh s) + length items,
         signature_signers := signature_signers s @ ?rows\<rparr>)"
    by (simp add: doc_inv_def)
  then show ?thesis using s' by (auto intro: doc_inv_publish)
qed

text \<open>A change of one request and of its signers.\<close>

lemma requests_change:
  assumes ok: "requests_ok n fs rs gs" and r: "r \<in> set rs"
    and gs': "map ss_id gs' = map ss_id gs" "map ss_request_id gs' = map ss_request_id gs" "distinct (map ss_token_hash gs')"
      "\<And>i. i \<noteq> sr_id r \<Longrightarrow> signers_in gs' i = signers_in gs i"
    and f: "\<And>x. sr_id (f x) = sr_id x \<and> sr_file_id (f x) = sr_file_id x" "request_ok gs' (f r)"
  shows "requests_ok n fs (update_where (\<lambda>x. sr_id x = sr_id r) f rs) gs'"
proof -
  let ?rs = "update_where (\<lambda>x. sr_id x = sr_id r) f rs"
  have ids: "map sr_id ?rs = map sr_id rs" by (rule map_update_where) (simp add: f(1))
  then have idset: "sr_id ` set ?rs = sr_id ` set rs" by (metis list.set_map)
  have "request_ok gs' x \<and> (\<exists>f \<in> set fs. df_id f = sr_file_id x)" if x': "x \<in> set ?rs" for x
  proof -
    obtain y where y: "y \<in> set rs" "x = (if sr_id y = sr_id r then f y else y)" using x' by (rule in_update_whereE)
    have "sr_id y = sr_id r \<Longrightarrow> y = r" using ok y(1) r by (auto simp: requests_ok_def dest: distinct_mapD)
    moreover have "request_ok gs' y" if "sr_id y \<noteq> sr_id r"
      using ok y(1) that request_ok_cong [OF gs'(4) [OF that]] by (simp add: requests_ok_def)
    ultimately show ?thesis using y ok f by (auto simp: requests_ok_def)
  qed
  moreover have "ss_request_id g \<in> sr_id ` set rs" if "g \<in> set gs'" for g
  proof -
    have "ss_request_id g \<in> set (map ss_request_id gs)" unfolding gs'(2) [symmetric] using that by simp
    then show ?thesis using ok by (auto simp: requests_ok_def)
  qed
  ultimately show ?thesis using ok gs'(1,3) by (simp add: requests_ok_def ids idset)
qed

lemma cancel_request_keeps:
  assumes "doc_inv s" "r \<in> set (signature_requests s)" "cancel_request now r s = (Inr a, s')"
  shows "doc_inv s'"
proof -
  have "sr_status r = SR_awaiting" and s': "\<exists>p. s' = publish now ''document.signature.cancelled'' p
      (update_request (sr_id r) (\<lambda>r. r\<lparr>sr_status := SR_cancelled, sr_cancelled_at := Some now\<rparr>) s)"
    using assms(3) by (auto simp: cancel_request_def split: if_splits)
  moreover have ok: "requests_ok (fresh s) (document_files s) (signature_requests s) (signature_signers s)"
    using assms(1) by (simp add: doc_inv_def)
  then have "request_ok (signature_signers s) r" using assms(2) by (simp add: requests_ok_def)
  ultimately have "request_ok (signature_signers s) (r\<lparr>sr_status := SR_cancelled, sr_cancelled_at := Some now\<rparr>)"
    by (auto simp: request_ok_def)
  then have "doc_inv (update_request (sr_id r) (\<lambda>r. r\<lparr>sr_status := SR_cancelled, sr_cancelled_at := Some now\<rparr>) s)"
    using assms(1,2) ok requests_change [OF ok assms(2), of "signature_signers s"]
    by (simp add: doc_inv_def update_request_def requests_ok_def [of _ _ "signature_requests s"])
  then show ?thesis using s' by auto
qed

text \<open>Reminders change token hashes only.\<close>

definition untoken :: "signature_signer \<Rightarrow> signature_signer" where
  "untoken x = x\<lparr>ss_token_hash := []\<rparr>"

lemma untoken_simps [simp]:
  "ss_id (untoken x) = ss_id x" "ss_request_id (untoken x) = ss_request_id x" "ss_signed_at (untoken x) = ss_signed_at x"
  "ss_signed_name (untoken x) = ss_signed_name x" "ss_signed_ip (untoken x) = ss_signed_ip x"
  "ss_signed_user_agent (untoken x) = ss_signed_user_agent x"
  by (simp_all add: untoken_def)

lemma reissue_state:
  "\<exists>gs'. snd (reissue hash raws k xs s) = s\<lparr>signature_signers := gs'\<rparr>
     \<and> map untoken gs' = map untoken (signature_signers s)"
proof (induction xs arbitrary: k s)
  case Nil
  show ?case by (rule exI [of _ "signature_signers s"]) simp
next
  case (Cons x xs)
  let ?gs = "update_where (\<lambda>y. ss_id y = ss_id x) (\<lambda>y. y\<lparr>ss_token_hash := hash (raws k)\<rparr>) (signature_signers s)"
  have "map untoken ?gs = map untoken (signature_signers s)" by (rule map_update_where) (simp add: untoken_def)
  moreover obtain gs' where "snd (reissue hash raws (Suc k) xs (s\<lparr>signature_signers := ?gs\<rparr>)) = s\<lparr>signature_signers := gs'\<rparr>"
    "map untoken gs' = map untoken ?gs"
    using Cons.IH [of "Suc k" "s\<lparr>signature_signers := ?gs\<rparr>"] by auto
  ultimately show ?case by (intro exI [of _ gs']) (simp add: case_prod_unfold Let_def)
qed

lemma untoken_maps:
  assumes "map untoken gs' = map untoken gs"
  shows "map ss_id gs' = map ss_id gs" "map ss_request_id gs' = map ss_request_id gs"
    "map untoken (signers_in gs' i) = map untoken (signers_in gs i)"
proof -
  have f: "map h gs' = map h gs" if "\<And>x. h (untoken x) = h x" for h :: "signature_signer \<Rightarrow> nat"
    using arg_cong [OF assms, of "map h"] that by (simp add: comp_def)
  show "map ss_id gs' = map ss_id gs" "map ss_request_id gs' = map ss_request_id gs" by (rule f, simp)+
  have "map untoken (signers_in xs i) = filter (\<lambda>g. ss_request_id g = i) (map untoken xs)" for xs
    by (simp add: signers_in_def filter_map comp_def)
  then show "map untoken (signers_in gs' i) = map untoken (signers_in gs i)" using assms by simp
qed

lemma untoken_request_ok:
  assumes "map untoken gs' = map untoken gs"
  shows "request_ok gs' r = request_ok gs r"
proof -
  note m = untoken_maps(3) [OF assms, of "sr_id r"]
  from arg_cong [OF m, of length] have "signers_in gs' (sr_id r) = [] \<longleftrightarrow> signers_in gs (sr_id r) = []"
    by (simp flip: length_0_conv)
  moreover have "ss_signed_at ` set (signers_in gs' (sr_id r)) = ss_signed_at ` set (signers_in gs (sr_id r))"
    using arg_cong [OF m, of "\<lambda>xs. ss_signed_at ` set xs"] by (simp add: image_image)
  then have "(\<forall>g \<in> set (signers_in gs' (sr_id r)). ss_signed_at g \<noteq> None)
      \<longleftrightarrow> (\<forall>g \<in> set (signers_in gs (sr_id r)). ss_signed_at g \<noteq> None)"
    by (metis (no_types, lifting) imageE imageI)
  ultimately show ?thesis by (simp add: request_ok_def)
qed

lemma reissue_unsigned_keeps:
  assumes "doc_inv s" "reissue_unsigned hash now raws r s = (Inr x, s')"
  shows "doc_inv s'"
proof -
  obtain gs' where gs: "snd (reissue hash raws 0 (unsigned_signers s (sr_id r)) s) = s\<lparr>signature_signers := gs'\<rparr>"
    and u: "map untoken gs' = map untoken (signature_signers s)"
    using reissue_state [of hash raws 0 "unsigned_signers s (sr_id r)" s] by blast
  have g: "s' = s\<lparr>signature_signers := gs'\<rparr>" "map untoken gs' = map untoken (signature_signers s)"
    and d: "distinct (map ss_token_hash gs')"
    using assms(2) u by (auto simp: reissue_unsigned_def Let_def case_prod_unfold gs split: if_splits)
  have "set (map ss_request_id gs') \<subseteq> sr_id ` set (signature_requests s)"
    unfolding untoken_maps(2) [OF g(2)] using assms(1) by (auto simp: doc_inv_def requests_ok_def)
  then have q: "\<forall>x \<in> set gs'. ss_request_id x \<in> sr_id ` set (signature_requests s)" by auto
  have "requests_ok (fresh s) (document_files s) (signature_requests s) gs'"
    using assms(1) d q unfolding doc_inv_def requests_ok_def untoken_maps(1) [OF g(2)] untoken_request_ok [OF g(2)]
    by blast
  then show ?thesis using assms(1) unfolding g(1) by (simp add: doc_inv_def)
qed

text \<open>A signature.\<close>

lemma signed_simps [simp]:
  "ss_id (signed now n ip ua x) = ss_id x" "ss_request_id (signed now n ip ua x) = ss_request_id x"
  "ss_token_hash (signed now n ip ua x) = ss_token_hash x" "ss_signed_at (signed now n ip ua x) = Some now"
  by (simp_all add: signed_def)

lemma signers_of_set: "set (signers_of s i) = set (signers_in (signature_signers s) i)"
  by (simp add: signers_of_def signers_in_def)

lemma request_by_id_okD: "request_by_id s i = Inr r \<Longrightarrow> r \<in> set (signature_requests s) \<and> sr_id r = i"
  by (auto simp: request_by_id_def dest: find_SomeD split: option.splits)

lemma record_signature_cases:
  assumes "record_signature now g n ip ua s = (Inr r', s')"
  obtains r p where "request_by_id s (ss_request_id g) = Inr r" "ss_signed_at g = None" "request_active now r"
    "fits 255 n" "fits_opt 64 ip" "fits_opt 512 ua"
    "(\<forall>x \<in> set (signers_in (signature_signers (update_signer (ss_id g) (signed now n ip ua) s)) (sr_id r)). ss_signed_at x \<noteq> None)
       \<and> s' = complete_request now r (publish now ''document.signature.signed'' p (update_signer (ss_id g) (signed now n ip ua) s))
     \<or> \<not> (\<forall>x \<in> set (signers_in (signature_signers (update_signer (ss_id g) (signed now n ip ua) s)) (sr_id r)). ss_signed_at x \<noteq> None)
       \<and> s' = publish now ''document.signature.signed'' p (update_signer (ss_id g) (signed now n ip ua) s)"
proof -
  from assms obtain r where r: "request_by_id s (ss_request_id g) = Inr r"
    by (auto simp: record_signature_def split: sum.splits)
  define s0 where "s0 = update_signer (ss_id g) (signed now n ip ua) s"
  define p where "p = [(''startup_id'', JUid (sr_startup_id r)), (''request_id'', JUid (sr_id r)), (''signer_id'', JUid (ss_id g))]"
  define s1 where "s1 = publish now ''document.signature.signed'' p s0"
  have g: "ss_signed_at g = None" "request_active now r" "fits 255 n" "fits_opt 64 ip" "fits_opt 512 ua"
    and e: "(Inr r', s') = (if list_all (\<lambda>x. ss_signed_at x \<noteq> None) (signers_of s1 (sr_id r))
          then (Inr (r\<lparr>sr_status := SR_complete, sr_completed_at := Some now\<rparr>), complete_request now r s1) else (Inr r, s1))"
    using assms r unfolding s1_def s0_def p_def
    by (auto simp: record_signature_def Let_def simp del: not_None_eq split: if_splits)
  have "list_all (\<lambda>x. ss_signed_at x \<noteq> None) (signers_of s1 (sr_id r))
      \<longleftrightarrow> (\<forall>x \<in> set (signers_in (signature_signers s0) (sr_id r)). ss_signed_at x \<noteq> None)"
    by (simp add: list_all_iff signers_of_set s1_def)
  with e show thesis
    by (intro that [OF r g, of p]) (auto simp: s1_def s0_def split: if_splits)
qed

lemma signers_in_update:
  "signers_in (update_where (\<lambda>x. ss_id x = i) f gs) j = update_where (\<lambda>x. ss_id x = i) f (signers_in gs j)"
  if "\<And>x. ss_request_id (f x) = ss_request_id x"
  unfolding signers_in_def by (rule filter_update_where) (simp add: that)

lemma record_signature_keeps:
  assumes inv: "doc_inv s" and g: "g \<in> set (signature_signers s)"
    and s': "record_signature now g n ip ua s = (Inr x, s')"
  shows "doc_inv s'"
  using s'
proof (cases rule: record_signature_cases)
  case (1 r p)
  let ?gs = "update_where (\<lambda>x. ss_id x = ss_id g) (signed now n ip ua) (signature_signers s)"
  note r = request_by_id_okD [OF 1(1)]
  have ok: "requests_ok (fresh s) (document_files s) (signature_requests s) (signature_signers s)"
    using inv by (simp add: doc_inv_def)
  have rok: "request_ok (signature_signers s) r" "sr_status r = SR_awaiting"
    using ok r 1(3) by (auto simp: requests_ok_def request_active_def)
  have gs: "map ss_id ?gs = map ss_id (signature_signers s)" "map ss_request_id ?gs = map ss_request_id (signature_signers s)"
    "map ss_token_hash ?gs = map ss_token_hash (signature_signers s)"
    by (rule map_update_where; simp)+
  have d: "distinct (map ss_token_hash ?gs)" using ok by (simp add: gs requests_ok_def)
  have other: "signers_in ?gs i = signers_in (signature_signers s) i" if "i \<noteq> sr_id r" for i
  proof -
    have "ss_id x \<noteq> ss_id g" if "x \<in> set (signers_in (signature_signers s) i)" for x
      using that \<open>i \<noteq> sr_id r\<close> g ok r by (auto simp: signers_in_def requests_ok_def dest: distinct_mapD)
    then show ?thesis by (simp add: signers_in_update update_where_none)
  qed
  have mine: "signers_in ?gs (sr_id r) \<noteq> []"
  proof -
    have "signers_in ?gs (sr_id r) = update_where (\<lambda>x. ss_id x = ss_id g) (signed now n ip ua) (signers_in (signature_signers s) (sr_id r))"
      by (rule signers_in_update) simp
    then have "length (signers_in ?gs (sr_id r)) = length (signers_in (signature_signers s) (sr_id r))" by simp
    then show ?thesis using rok(1) by (auto simp: request_ok_def)
  qed
  define complete where "complete = (\<forall>x \<in> set (signers_in ?gs (sr_id r)). ss_signed_at x \<noteq> None)"
  have base: "requests_ok (fresh s) (document_files s)
      (update_where (\<lambda>x. sr_id x = sr_id r)
        (\<lambda>r. if complete then r\<lparr>sr_status := SR_complete, sr_completed_at := Some now\<rparr> else r) (signature_requests s)) ?gs"
    by (rule requests_change [OF ok conjunct1 [OF r] gs(1,2) d other])
      (use rok mine in \<open>auto simp: request_ok_def complete_def simp del: not_None_eq\<close>)
  show ?thesis
  proof (cases complete)
    case True
    then have "doc_inv (update_request (sr_id r) (\<lambda>r. r\<lparr>sr_status := SR_complete, sr_completed_at := Some now\<rparr>)
        (update_signer (ss_id g) (signed now n ip ua) s))"
      using base inv by (simp add: doc_inv_def update_request_def update_signer_def)
    then have "doc_inv (update_request (sr_id r) (\<lambda>r. r\<lparr>sr_status := SR_complete, sr_completed_at := Some now\<rparr>)
        (publish now ''document.signature.signed'' p (update_signer (ss_id g) (signed now n ip ua) s)))"
      by (rule doc_inv_frame) (simp_all add: update_request_def publish_fresh)
    then show ?thesis
      using 1(7) True by (auto simp: complete_def complete_request_def update_signer_def simp del: not_None_eq)
  next
    case False
    then have "doc_inv (update_signer (ss_id g) (signed now n ip ua) s)"
      using base inv by (simp add: doc_inv_def update_signer_def update_where_id)
    then show ?thesis using 1(7) False by (auto simp: complete_def update_signer_def simp del: not_None_eq)
  qed
qed

text \<open>What a new document changes.\<close>

lemma create_document_shape:
  assumes "create_document now st u k t secs f tk ai s = (r, s')"
  shows "blobs s' = blobs s \<and> (\<forall>d. r = Inr d \<longrightarrow> fresh s \<le> fresh s' \<and> documents s' = documents s @ [d] \<and> fresh s \<le> d_id d \<and> d_id d < fresh s'
    \<and> signature_requests s' = signature_requests s \<and> signature_signers s' = signature_signers s)"
proof -
  obtain n where n: "fresh s \<le> n" "validate_sections secs s = (fst (validate_sections secs s), s\<lparr>fresh := n\<rparr>)"
    by (rule validate_sections_cases)
  note p = publish_fresh [THEN order_trans [rotated]] publish_fresh [THEN order_less_le_trans [rotated]]
  show ?thesis
    using assms n
    by (cases "fst (validate_sections secs s)")
      (auto simp: create_document_def fresh_id_def Let_def intro!: p split: if_splits)
qed

end
