(* ===== verification/Keyed_Store.thy ===== *)
theory Keyed_Store
  imports Prelude
begin

text \<open>
  The interface of a table with a unique key that is written by \<^verbatim>\<open>INSERT ... ON CONFLICT DO
  UPDATE\<close> (or by a lookup followed by an insert or an update): what a reader finds after a put
  and after a removal. A client gets the last-write-wins reading of any sequence of writes, and
  the agreement of two tables that are always written together.
\<close>

section \<open>The table operation\<close>

definition upsert_where :: "('r \<Rightarrow> bool) \<Rightarrow> ('r \<Rightarrow> 'r) \<Rightarrow> 'r \<Rightarrow> 'r list \<Rightarrow> 'r list" where
  "upsert_where P f new t = (if find P t = None then t @ [new] else update_where P f t)"

text \<open>The row of a key, through the projection of its value.\<close>

definition row_value :: "('r \<Rightarrow> 'k) \<Rightarrow> ('r \<Rightarrow> 'v) \<Rightarrow> 'r list \<Rightarrow> 'k \<Rightarrow> 'v option" where
  "row_value key val t k = map_option val (find (\<lambda>r. key r = k) t)"

lemma row_value_iff:
  assumes "distinct (map key t)"
  shows "row_value key val t k = Some v \<longleftrightarrow> (\<exists>r \<in> set t. key r = k \<and> val r = v)"
  using assms find_key_unique [OF assms] unfolding row_value_def
  by (auto dest: find_SomeD)

lemma row_value_row: "distinct (map key t) \<Longrightarrow> r \<in> set t \<Longrightarrow> row_value key val t (key r) = Some (val r)"
  using find_key_unique [of key t r] by (simp add: row_value_def)

lemma row_valueE:
  assumes "row_value key val t k = Some v"
  obtains r where "r \<in> set t" "key r = k" "val r = v"
  using assms by (auto simp: row_value_def dest: find_SomeD)

lemma row_value_upsert:
  assumes "key new = k" "val new = v" "\<And>r. key r = k \<Longrightarrow> key (f r) = k \<and> val (f r) = v"
  shows "row_value key val (upsert_where (\<lambda>r. key r = k) f new t) = (row_value key val t)(k \<mapsto> v)"
proof (rule ext)
  fix j
  have other: "j \<noteq> k \<Longrightarrow> find (\<lambda>r. key r = j) (update_where (\<lambda>r. key r = k) f t) = find (\<lambda>r. key r = j) t"
    using assms(3) by (induction t) auto
  have same: "find (\<lambda>r. key r = k) (update_where (\<lambda>r. key r = k) f t) = map_option f (find (\<lambda>r. key r = k) t)"
    using assms(3) by (induction t) auto
  show "row_value key val (upsert_where (\<lambda>r. key r = k) f new t) j = ((row_value key val t)(k \<mapsto> v)) j"
  proof (cases "find (\<lambda>r. key r = k) t")
    case None
    then show ?thesis using assms(1,2)
      by (auto simp: row_value_def upsert_where_def find_append split: option.split)
  next
    case (Some r)
    then have "key r = k" by (blast dest: find_SomeD)
    then show ?thesis using Some other same assms(3) [of r]
      by (cases "j = k") (auto simp: row_value_def upsert_where_def)
  qed
qed

lemma row_value_delete:
  "row_value key val (delete_where (\<lambda>r. key r = k) t) = (row_value key val t)(k := None)"
proof (rule ext)
  fix j
  show "row_value key val (delete_where (\<lambda>r. key r = k) t) j = ((row_value key val t)(k := None)) j"
    by (induction t) (auto simp: row_value_def)
qed

lemma distinct_upsert:
  assumes "distinct (map key t)" "key new = k" "\<And>r. key r = k \<Longrightarrow> key (f r) = k"
  shows "distinct (map key (upsert_where (\<lambda>r. key r = k) f new t))"
proof (cases "find (\<lambda>r. key r = k) t")
  case None
  then show ?thesis using assms(1,2) by (auto simp: upsert_where_def find_None_iff)
next
  case (Some r)
  have "map key (update_where (\<lambda>r. key r = k) f t) = map key t"
    by (rule map_update_where) (simp add: assms(3))
  then show ?thesis using Some assms(1) by (simp add: upsert_where_def)
qed

lemma set_upsert:
  assumes "\<And>r. r \<in> set t \<Longrightarrow> Q r" "Q new" "\<And>r. Q r \<Longrightarrow> Q (f r)"
  shows "\<forall>r \<in> set (upsert_where P f new t). Q r"
  using assms by (auto simp: upsert_where_def set_update_where)

lemma upsert_where_ids:
  assumes "distinct (map i t)" "ids_below n (map i t)" "i new = n" "\<And>r. i (f r) = i r"
  shows "distinct (map i (upsert_where P f new t)) \<and> ids_below (Suc n) (map i (upsert_where P f new t))"
proof (cases "find P t")
  case None
  then show ?thesis using assms ids_below_fresh [OF assms(2)] by (auto simp: upsert_where_def)
next
  case (Some r)
  have "map i (update_where P f t) = map i t" by (rule map_update_where) (simp add: assms(4))
  then show ?thesis using Some assms by (simp add: upsert_where_def)
qed

text \<open>Addressing a row by its id or by its unique key is the same.\<close>

lemma update_where_by_key:
  assumes "distinct (map i t)" "distinct (map key t)" "r \<in> set t"
  shows "update_where (\<lambda>x. i x = i r) f t = update_where (\<lambda>x. key x = key r) f t"
  unfolding update_where_def
  using distinct_mapD [OF assms(1) _ assms(3)] distinct_mapD [OF assms(2) _ assms(3)]
  by (intro map_cong) auto

lemma delete_where_by_key:
  assumes "distinct (map i t)" "distinct (map key t)" "r \<in> set t"
  shows "delete_where (\<lambda>x. i x = i r) t = delete_where (\<lambda>x. key x = key r) t"
  unfolding delete_where_def
  using distinct_mapD [OF assms(1) _ assms(3)] distinct_mapD [OF assms(2) _ assms(3)]
  by (intro filter_cong) auto

lemma update_as_upsert:
  assumes "r \<in> set t" "key r = k"
  shows "update_where (\<lambda>x. key x = k) f t = upsert_where (\<lambda>x. key x = k) f new t"
  using assms by (auto simp: upsert_where_def find_None_iff)

section \<open>The interface\<close>

datatype ('k, 'v) store_op = Put 'k 'v | Clear 'k

fun written :: "('k \<Rightarrow> 'v option) \<Rightarrow> ('k, 'v) store_op \<Rightarrow> 'k \<Rightarrow> 'v option" where
  "written m (Put k v) = m(k \<mapsto> v)"
| "written m (Clear k) = m(k := None)"

fun write_key :: "('k, 'v) store_op \<Rightarrow> 'k" where
  "write_key (Put k v) = k"
| "write_key (Clear k) = k"

fun write_value :: "('k, 'v) store_op \<Rightarrow> 'v option" where
  "write_value (Put k v) = Some v"
| "write_value (Clear k) = None"

locale keyed_store =
  fixes look :: "'s \<Rightarrow> 'k \<Rightarrow> 'v option"
    and put :: "'k \<Rightarrow> 'v \<Rightarrow> 's \<Rightarrow> 's"
    and clear :: "'k \<Rightarrow> 's \<Rightarrow> 's"
    and inv :: "'s \<Rightarrow> bool"
  assumes look_put: "inv s \<Longrightarrow> look (put k v s) = (look s)(k \<mapsto> v)"
    and look_clear: "inv s \<Longrightarrow> look (clear k s) = (look s)(k := None)"
    and inv_put: "inv s \<Longrightarrow> inv (put k v s)"
    and inv_clear: "inv s \<Longrightarrow> inv (clear k s)"
begin

primrec perform :: "('k, 'v) store_op \<Rightarrow> 's \<Rightarrow> 's" where
  "perform (Put k v) = put k v"
| "perform (Clear k) = clear k"

lemma perform_inv: "inv s \<Longrightarrow> inv (perform w s)"
  by (cases w) (simp_all add: inv_put inv_clear)

lemma look_perform: "inv s \<Longrightarrow> look (perform w s) = written (look s) w"
  by (cases w) (simp_all add: look_put look_clear)

lemma look_perform_all:
  "inv s \<Longrightarrow> inv (fold perform ws s) \<and> look (fold perform ws s) = fold (\<lambda>w m. written m w) ws (look s)"
proof (induction ws arbitrary: s)
  case (Cons w ws)
  then show ?case using Cons.IH [OF perform_inv [OF Cons.prems], of w] by (simp add: look_perform)
qed simp

text \<open>The last write to a key decides what is found there.\<close>

lemma last_write_wins:
  assumes "inv s" "write_key w = k" "\<forall>x \<in> set later. write_key x \<noteq> k"
  shows "look (fold perform (earlier @ w # later) s) k = write_value w"
proof -
  have later: "fold (\<lambda>w m. written m w) later m k = m k" for m
    using assms(3)
  proof (induction later arbitrary: m)
    case (Cons x later)
    then show ?case by (cases x) auto
  qed simp
  show ?thesis
    using look_perform_all [OF assms(1), of "earlier @ w # later"] assms(2)
    by (cases w) (simp_all add: later)
qed

end

text \<open>Two stores that are always written together stay images of one another.\<close>

locale mirrored_stores =
  source: keyed_store look put clear inv + image: keyed_store look' put' clear' inv'
  for look :: "'s \<Rightarrow> 'k \<Rightarrow> 'v option" and put clear inv
    and look' :: "'t \<Rightarrow> 'k \<Rightarrow> 'w option" and put' clear' inv' +
  fixes g :: "'v \<Rightarrow> 'w"
begin

definition agree :: "'s \<Rightarrow> 't \<Rightarrow> bool" where
  "agree s t \<longleftrightarrow> inv s \<and> inv' t \<and> (\<forall>k. look' t k = map_option g (look s k))"

lemma agree_written:
  assumes "agree s t" "inv s'" "inv' t'" "look s' = written (look s) w" "write_key w = k"
    "look' t' = (look' t)(k := map_option g (write_value w))"
  shows "agree s' t'"
  using assms by (cases w) (simp_all add: agree_def)

lemma agree_put: "agree s t \<Longrightarrow> agree (put k v s) (put' k (g v) t)"
  by (rule agree_written [where w = "Put k v"])
    (simp_all add: agree_def source.look_put image.look_put source.inv_put image.inv_put)

lemma agree_clear: "agree s t \<Longrightarrow> agree (clear k s) (clear' k t)"
  by (rule agree_written [where w = "Clear k"])
    (simp_all add: agree_def source.look_clear image.look_clear source.inv_clear image.inv_clear)

end

end
