(* ===== verification/Monotone_Rows.thy ===== *)
theory Monotone_Rows
  imports Keyed_Store
begin

text \<open>
  The interface of a table whose rows only move forward: a step of the program may delete a row or
  advance what is seen of it along an order, and a deleted id does not come back. The version of a
  document under optimistic locking, the status of a signature request and the recorded signature
  itself are such views; a client gets the comparison of any two moments of a history.
\<close>

locale monotone_rows =
  fixes view :: "'s \<Rightarrow> 'k \<Rightarrow> 'v option"
    and le :: "'v \<Rightarrow> 'v \<Rightarrow> bool"
    and known :: "'s \<Rightarrow> 'k \<Rightarrow> bool"
    and inv :: "'s \<Rightarrow> bool"
    and step :: "'s \<Rightarrow> 's \<Rightarrow> bool"
  assumes le_refl: "le v v"
    and le_trans: "le u v \<Longrightarrow> le v w \<Longrightarrow> le u w"
    and view_known: "inv s \<Longrightarrow> view s k = Some v \<Longrightarrow> known s k"
    and inv_step: "inv s \<Longrightarrow> step s s' \<Longrightarrow> inv s'"
    and known_step: "inv s \<Longrightarrow> step s s' \<Longrightarrow> known s k \<Longrightarrow> known s' k"
    and view_step: "inv s \<Longrightarrow> step s s' \<Longrightarrow> view s k = Some v \<Longrightarrow> view s' k = Some v' \<Longrightarrow> le v v'"
    and gone_step: "inv s \<Longrightarrow> step s s' \<Longrightarrow> known s k \<Longrightarrow> view s k = None \<Longrightarrow> view s' k = None"
begin

lemma inv_steps: "step\<^sup>*\<^sup>* s s' \<Longrightarrow> inv s \<Longrightarrow> inv s'"
  by (induction rule: rtranclp_induct) (auto intro: inv_step)

lemma known_steps: "step\<^sup>*\<^sup>* s s' \<Longrightarrow> inv s \<Longrightarrow> known s k \<Longrightarrow> known s' k"
  by (induction rule: rtranclp_induct) (auto intro: known_step inv_steps)

lemma gone_steps: "step\<^sup>*\<^sup>* s s' \<Longrightarrow> inv s \<Longrightarrow> known s k \<Longrightarrow> view s k = None \<Longrightarrow> view s' k = None"
proof (induction rule: rtranclp_induct)
  case (step y z)
  then show ?case using gone_step [of y z k] inv_steps [of s y] known_steps [of s y k] by blast
qed simp

lemma view_steps:
  "step\<^sup>*\<^sup>* s s' \<Longrightarrow> inv s \<Longrightarrow> view s k = Some v \<Longrightarrow> view s' k = Some v' \<Longrightarrow> le v v'"
proof (induction arbitrary: v' rule: rtranclp_induct)
  case base
  then show ?case by (simp add: le_refl)
next
  case (step y z)
  note inv = inv_steps [OF step.hyps(1) step.prems(1)]
    and known = known_steps [OF step.hyps(1) step.prems(1) view_known [OF step.prems(1,2)]]
  obtain u where u: "view y k = Some u"
    using gone_step [OF inv step.hyps(2) known] step.prems(3) by (cases "view y k") simp_all
  show ?case
    by (rule le_trans [OF step.IH [OF step.prems(1,2) u] view_step [OF inv step.hyps(2) u step.prems(3)]])
qed

end

section \<open>Orders\<close>

text \<open>A version with the content it had: two readings of the same version are the same content.\<close>

definition version_le :: "int \<times> 'c \<Rightarrow> int \<times> 'c \<Rightarrow> bool" where
  "version_le a b \<longleftrightarrow> fst a < fst b \<or> a = b"

lemma version_le_refl [simp]: "version_le a a"
  by (simp add: version_le_def)

lemma version_le_trans: "version_le a b \<Longrightarrow> version_le b c \<Longrightarrow> version_le a c"
  by (auto simp: version_le_def)

text \<open>Something recorded once for all.\<close>

definition recorded_le :: "'v option \<Rightarrow> 'v option \<Rightarrow> bool" where
  "recorded_le a b \<longleftrightarrow> a = None \<or> a = b"

lemma recorded_le_refl [simp]: "recorded_le a a"
  by (simp add: recorded_le_def)

lemma recorded_le_trans: "recorded_le a b \<Longrightarrow> recorded_le b c \<Longrightarrow> recorded_le a c"
  by (auto simp: recorded_le_def)

section \<open>Tables that move forward\<close>

text \<open>
  \<open>moves\<close> compares two states of a table on the ids below the supply: the value of a row that stays
  moves along the order, and an id that is gone stays gone.
\<close>

definition moves :: "('r \<Rightarrow> uid) \<Rightarrow> ('r \<Rightarrow> 'v) \<Rightarrow> ('v \<Rightarrow> 'v \<Rightarrow> bool) \<Rightarrow> uid \<Rightarrow> 'r list \<Rightarrow> 'r list \<Rightarrow> bool" where
  "moves i val le n t t' \<longleftrightarrow>
     (\<forall>k < n. (row_value i val t k = None \<longrightarrow> row_value i val t' k = None)
       \<and> (\<forall>v v'. row_value i val t k = Some v \<longrightarrow> row_value i val t' k = Some v' \<longrightarrow> le v v'))"

lemma movesD:
  "moves i val le n t t' \<Longrightarrow> k < n \<Longrightarrow> row_value i val t k = Some v \<Longrightarrow> row_value i val t' k = Some v' \<Longrightarrow> le v v'"
  "moves i val le n t t' \<Longrightarrow> k < n \<Longrightarrow> row_value i val t k = None \<Longrightarrow> row_value i val t' k = None"
  unfolding moves_def by blast+

lemma moves_refl: "(\<And>v. le v v) \<Longrightarrow> moves i val le n t t"
  by (simp add: moves_def)

lemma moves_less: "moves i val le n t t' \<Longrightarrow> m \<le> n \<Longrightarrow> moves i val le m t t'"
  unfolding moves_def by (meson less_le_trans)

lemma moves_same: "(\<And>v. le v v) \<Longrightarrow> (\<And>k. row_value i val t' k = row_value i val t k) \<Longrightarrow> moves i val le n t t'"
  by (simp add: moves_def)

lemma row_value_append: "k \<notin> i ` set rows \<Longrightarrow> row_value i val (t @ rows) k = row_value i val t k"
proof -
  assume "k \<notin> i ` set rows"
  then have "find (\<lambda>r. i r = k) rows = None" by (auto simp: find_None_iff)
  then show ?thesis by (auto simp: row_value_def find_append split: option.split)
qed

lemma moves_append:
  assumes "\<And>v. le v v" "\<And>r. r \<in> set rows \<Longrightarrow> n \<le> i r"
  shows "moves i val le n t (t @ rows)"
proof -
  have "row_value i val (t @ rows) k = row_value i val t k" if "k < n" for k
    by (rule row_value_append) (use assms(2) that in force)
  then show ?thesis using assms(1) by (simp add: moves_def)
qed

lemma row_value_update:
  assumes "\<And>r. i (f r) = i r"
  shows "row_value i val (update_where P f t) k = map_option (\<lambda>r. val (if P r then f r else r)) (find (\<lambda>r. i r = k) t)"
  using find_update_where [of P "\<lambda>r. i r = k" f t] assms by (simp add: row_value_def option.map_comp comp_def)

lemma moves_update:
  assumes "\<And>v. le v v" "\<And>r. i (f r) = i r" "\<And>r. r \<in> set t \<Longrightarrow> P r \<Longrightarrow> le (val r) (val (f r))"
  shows "moves i val le n t (update_where P f t)"
proof -
  have *: "le (val r) (val (if P r then f r else r))" if "find (\<lambda>r. i r = k) t = Some r" for k r
    using assms(1,3) find_SomeD [OF that] by auto
  have e: "find (\<lambda>r. i r = k) (update_where P f t) = map_option (\<lambda>r. if P r then f r else r) (find (\<lambda>r. i r = k) t)" for k
    by (rule find_update_where) (simp add: assms(2))
  show ?thesis
    unfolding moves_def row_value_def e
  proof (intro allI impI conjI)
    fix k v v'
    assume "map_option val (find (\<lambda>r. i r = k) t) = Some v"
      "map_option val (map_option (\<lambda>r. if P r then f r else r) (find (\<lambda>r. i r = k) t)) = Some v'"
    then obtain r where "find (\<lambda>r. i r = k) t = Some r" "v = val r" "v' = val (if P r then f r else r)" by fastforce
    then show "le v v'" using * by blast
  qed simp
qed

lemma moves_delete:
  assumes "\<And>v. le v v" "distinct (map i t)"
  shows "moves i val le n t (delete_where P t)"
proof -
  have "row_value i val (delete_where P t) k = None \<or> row_value i val (delete_where P t) k = row_value i val t k" for k
  proof (cases "find (\<lambda>r. i r = k) (delete_where P t)")
    case (Some r)
    then have "r \<in> set t" "i r = k" using find_SomeD [OF Some] by auto
    then show ?thesis using Some find_key_unique [OF assms(2)] by (auto simp: row_value_def)
  qed (simp add: row_value_def)
  then show ?thesis unfolding moves_def using assms(1) by (metis option.inject option.distinct(1))
qed

lemma moves_trans:
  assumes "\<And>a b c. le a b \<Longrightarrow> le b c \<Longrightarrow> le a c" "moves i val le n t t'" "moves i val le n' t' t''" "n \<le> n'"
  shows "moves i val le n t t''"
  unfolding moves_def
proof (intro allI impI conjI)
  fix k v v'' assume k: "k < n"
  then have k': "k < n'" using assms(4) by simp
  show "row_value i val t'' k = None" if "row_value i val t k = None"
    using movesD(2) [OF assms(2) k that] movesD(2) [OF assms(3) k'] by blast
  assume v: "row_value i val t k = Some v" "row_value i val t'' k = Some v''"
  then obtain v' where "row_value i val t' k = Some v'"
    using movesD(2) [OF assms(3) k'] by (cases "row_value i val t' k") auto
  then show "le v v''"
    using assms(1) movesD(1) [OF assms(2) k v(1)] movesD(1) [OF assms(3) k' _ v(2)] by blast
qed

text \<open>The rows of a key are set to one value.\<close>

lemma moves_update_same:
  assumes "\<And>r. r \<in> set t \<Longrightarrow> i r = i y \<Longrightarrow> le (val r) (val y)" "\<And>v. le v v"
  shows "moves i val le n t (update_where (\<lambda>x. i x = i y) (\<lambda>_. y) t)"
proof -
  have "find (\<lambda>r. i r = k) (update_where (\<lambda>x. i x = i y) (\<lambda>_. y) t)
      = map_option (\<lambda>r. if i r = i y then y else r) (find (\<lambda>r. i r = k) t)" for k
    by (induction t) auto
  moreover have "le (val r) (val (if i r = i y then y else r))" if "find (\<lambda>r. i r = k) t = Some r" for k r
    using assms find_SomeD [OF that] by auto
  ultimately show ?thesis
    unfolding moves_def row_value_def by (auto simp del: if_image_distrib split del: if_split)
qed

section \<open>Ids from the supply\<close>

definition keyed :: "uid \<Rightarrow> ('r \<Rightarrow> uid) \<Rightarrow> 'r list \<Rightarrow> bool" where
  "keyed n i t \<longleftrightarrow> distinct (map i t) \<and> ids_below n (map i t)"

lemma keyed_add: "keyed n i t \<Longrightarrow> i r = n \<Longrightarrow> keyed (Suc n) i (t @ [r])"
  using ids_below_fresh [of n "map i t"] by (auto simp: keyed_def)

lemma keyed_mono: "keyed n i t \<Longrightarrow> n \<le> m \<Longrightarrow> keyed m i t"
  by (auto simp: keyed_def intro: ids_below_mono)

lemma keyed_Suc [simp]: "keyed n i t \<Longrightarrow> keyed (Suc n) i t"
  by (erule keyed_mono) simp

lemma keyed_put: "keyed n i t \<Longrightarrow> (\<And>r. r \<in> set t \<Longrightarrow> P r \<Longrightarrow> i (f r) = i r) \<Longrightarrow> keyed n i (update_where P f t)"
proof -
  assume k: "keyed n i t" and f: "\<And>r. r \<in> set t \<Longrightarrow> P r \<Longrightarrow> i (f r) = i r"
  have "map i (update_where P f t) = map i t" using f by (auto simp: update_where_def)
  then show ?thesis using k by (simp add: keyed_def)
qed

lemma keyed_delete: "keyed n i t \<Longrightarrow> keyed n i (delete_where P t)"
  by (simp add: keyed_def distinct_map_delete_where ids_below_delete)

lemma keyed_unique: "keyed n i t \<Longrightarrow> r \<in> set t \<Longrightarrow> r' \<in> set t \<Longrightarrow> i r = i r' \<Longrightarrow> r = r'"
  by (auto simp: keyed_def dest: distinct_mapD)

lemma keyed_below: "keyed n i t \<Longrightarrow> r \<in> set t \<Longrightarrow> i r < n"
  by (auto simp: keyed_def ids_below_def)

lemma key_ex1: "distinct (map k t) \<Longrightarrow> v \<in> k ` set t \<Longrightarrow> \<exists>!x. x \<in> set t \<and> k x = v"
  using distinct_mapD [of k t] by blast

end
