(* ===== verification/Business_Inv.thy ===== *)
theory Business_Inv
  imports Business_Ai Doc_Inv Monotone_Rows
begin

text \<open>
  What the tables of the business builder keep: one canvas per type with exactly its blocks, filled with
  values of their kind; suggestions whose stored target and payload can be read back; one positioning
  map per workspace; plans that name a document only once they are complete, and one that exists.
\<close>

section \<open>Dictionaries and blocks\<close>

definition fits_kind :: "string \<Rightarrow> json \<Rightarrow> bool" where
  "fits_kind kind v \<longleftrightarrow> (kind = ''text'' \<longrightarrow> is_text v) \<and> (kind = ''list'' \<longrightarrow> is_text_list v)"

definition blocks_ok :: "canvas_type \<Rightarrow> payload \<Rightarrow> bool" where
  "blocks_ok ty blocks \<longleftrightarrow> map fst blocks = map bd_key (canvas_blocks ty)
     \<and> list_all2 (\<lambda>b kv. fits_kind (bd_kind b) (snd kv)) (canvas_blocks ty) blocks"

lemma distinct_block_keys [simp]: "distinct (map bd_key (canvas_blocks ty))"
  by (cases ty) (simp_all add: list_blocks_def)

lemma map_of_block_kinds:
  "b \<in> set (canvas_blocks ty) \<Longrightarrow> map_of (block_kinds ty) (bd_key b) = Some (bd_kind b)"
  unfolding block_kinds_def
  by (rule map_of_is_SomeI) (simp_all add: comp_def image_iff, blast)

lemma empty_blocks_ok [simp]: "blocks_ok ty (empty_blocks ty)"
  by (simp add: blocks_ok_def empty_blocks_def comp_def list_all2_map2 list.rel_refl empty_value_def fits_kind_def
      list_all2_same)

lemma validate_items_ok_iff:
  "validate_items kinds kvs = Inr () \<longleftrightarrow> (\<forall>(k, v) \<in> set kvs. \<exists>kind. map_of kinds k = Some kind \<and> fits_kind kind v)"
proof (induction kvs)
  case (Cons kv kvs)
  obtain k v where kv: "kv = (k, v)" by (cases kv)
  then show ?case
    using Cons.IH by (cases "map_of kinds k") (simp_all add: fits_kind_def)
qed simp

lemma validate_items_unit: "validate_items kinds kvs = Inr u \<longleftrightarrow> validate_items kinds kvs = Inr ()"
  by simp

lemma validate_blocks_ok_iff:
  "validate_blocks ty v = Inr kvs \<longleftrightarrow>
   v = JObj kvs \<and> (\<forall>(k, w) \<in> set kvs. \<exists>kind. map_of (block_kinds ty) k = Some kind \<and> fits_kind kind w)"
  by (auto simp: validate_blocks_def validate_items_ok_iff [symmetric] split: json.split sum.split)

lemma obj_set_keys: "k \<in> fst ` set d \<Longrightarrow> map fst (obj_set d k v) = map fst d"
  by (simp add: obj_set_def comp_def case_prod_unfold)

lemma map_of_replace:
  "map_of (map (\<lambda>(k', v'). (k', if k' = k then v else v')) d) = (if k \<in> fst ` set d then (map_of d)(k \<mapsto> v) else map_of d)"
  by (induction d) (auto simp: fun_eq_iff)

lemma obj_set_update: "map_of (obj_set d k v) = (map_of d)(k \<mapsto> v)"
proof (cases "k \<in> fst ` set d")
  case False
  have "map_of (d @ [(k, v)]) = (map_of d)(k \<mapsto> v)" if "map_of d k = None"
    using that by (auto simp: fun_eq_iff map_add_def split: option.split)
  then show ?thesis using False by (simp add: obj_set_def map_of_eq_None_iff)
qed (simp add: obj_set_def map_of_replace)

lemma blocks_ok_set:
  assumes "blocks_ok ty d" "map_of (block_kinds ty) k = Some kind" "fits_kind kind v"
  shows "blocks_ok ty (obj_set d k v)"
proof -
  obtain b where b: "b \<in> set (canvas_blocks ty)" "bd_key b = k" "bd_kind b = kind"
    using map_of_SomeD [OF assms(2)] by (auto simp: block_kinds_def)
  have k: "k \<in> fst ` set d"
    using assms(1) b by (metis blocks_ok_def image_eqI list.set_map)
  have fits: "fits_kind (bd_kind b') v" if "b' \<in> set (canvas_blocks ty)" "bd_key b' = k" for b'
    using that b assms(3) distinct_mapD [OF distinct_block_keys that(1) b(1)] by simp
  have "list_all2 (\<lambda>b kv. fits_kind (bd_kind b) (snd kv)) bs (map (\<lambda>(k', v'). (k', if k' = k then v else v')) d')"
    if "list_all2 (\<lambda>b kv. fits_kind (bd_kind b) (snd kv)) bs d'" "map fst d' = map bd_key bs"
      "set bs \<subseteq> set (canvas_blocks ty)" for bs d'
    using that by (induction rule: list_all2_induct) (auto simp: fits)
  then show ?thesis
    using assms(1) k by (simp add: blocks_ok_def obj_set_keys) (simp add: obj_set_def)
qed

lemma blocks_ok_update:
  assumes "blocks_ok ty d" "\<forall>(k, w) \<in> set kvs. \<exists>kind. map_of (block_kinds ty) k = Some kind \<and> fits_kind kind w"
  shows "blocks_ok ty (obj_update d kvs)"
  using assms
proof (induction kvs arbitrary: d)
  case (Cons kv kvs)
  then show ?case
    by (cases kv) (auto simp: obj_update_def intro: blocks_ok_set)
qed (simp add: obj_update_def)

lemma obj_update_map: "distinct (map fst kvs) \<Longrightarrow> map_of (obj_update d kvs) = map_of d ++ map_of kvs"
proof (induction kvs arbitrary: d)
  case (Cons kv kvs)
  obtain k v where kv: "kv = (k, v)" by (cases kv)
  have "map_of kvs k = None" using Cons.prems kv by (simp add: map_of_eq_None_iff)
  then have e: "(m(k \<mapsto> v)) ++ map_of kvs = m ++ map_of (kv # kvs)" for m
    using kv by (auto simp: map_add_def fun_eq_iff split: option.split)
  have "obj_update d (kv # kvs) = obj_update (obj_set d k v) kvs" using kv by (simp add: obj_update_def)
  moreover have "map_of (obj_update (obj_set d k v) kvs) = (map_of d)(k \<mapsto> v) ++ map_of kvs"
    using Cons kv by (simp add: obj_set_update)
  ultimately show ?case by (simp only: e)
qed (simp add: obj_update_def)

section \<open>The invariant\<close>

definition canvas_ok :: "canvas \<Rightarrow> bool" where
  "canvas_ok c \<longleftrightarrow> blocks_ok (cv_type c) (cv_blocks c) \<and> 1 \<le> cv_version c"

text \<open>The stored row of a suggestion can be read back and its payload is accepted.\<close>

definition data_accepted :: "(json \<Rightarrow> json option) \<Rightarrow> (json \<Rightarrow> bool) \<Rightarrow> suggestion \<Rightarrow> record_kind \<Rightarrow> bool" where
  "data_accepted fl un x k \<longleftrightarrow> (\<exists>d clean. stored_data x = Inr d \<and> validate fl un k d = Inr clean)"

definition applicable :: "(json \<Rightarrow> json option) \<Rightarrow> (json \<Rightarrow> bool) \<Rightarrow> suggestion \<Rightarrow> bool" where
  "applicable fl un x \<longleftrightarrow>
     (case bs_op x of
        SO_canvas_update \<Rightarrow>
          (\<exists>ty kvs v. bs_target x = [(''canvas_type'', JStr (canvas_type_value ty))]
             \<and> validate_blocks ty (payload_part (bs_payload x) ''blocks'') = Inr kvs \<and> bs_base_version x = Some v)
      | SO_record_create \<Rightarrow>
          (\<exists>k. bs_target x = [(''kind'', JStr (record_kind_value k))] \<and> data_accepted fl un x k)
      | SO_record_update \<Rightarrow>
          (\<exists>k i. bs_target x = [(''kind'', JStr (record_kind_value k)), (''record_id'', JUid i)]
             \<and> data_accepted fl un x k)
      | SO_record_delete \<Rightarrow>
          (\<exists>k i. bs_target x = [(''kind'', JStr (record_kind_value k)), (''record_id'', JUid i)]))"

definition suggestion_ok :: "(json \<Rightarrow> json option) \<Rightarrow> (json \<Rightarrow> bool) \<Rightarrow> suggestion \<Rightarrow> bool" where
  "suggestion_ok fl un x \<longleftrightarrow> applicable fl un x
     \<and> (bs_status x = SuS_pending \<longleftrightarrow> bs_resolved_at x = None) \<and> (bs_resolved_by_id x = None \<longleftrightarrow> bs_resolved_at x = None)"

definition plan_ok :: "business_plan \<Rightarrow> bool" where
  "plan_ok p \<longleftrightarrow> (bp_status p = PS_generating \<and> bp_document_id p = None)
     \<or> bp_status p = PS_complete"

text \<open>The foreign key of the plans: the document a plan names is there.\<close>

definition plans_linked :: "uid \<Rightarrow> document list \<Rightarrow> business_plan list \<Rightarrow> bool" where
  "plans_linked n ds ps \<longleftrightarrow> ids_below n (map d_id ds)
     \<and> (\<forall>p \<in> set ps. \<forall>d. bp_document_id p = Some d \<longrightarrow> d \<in> d_id ` set ds)"

lemma plans_linked_mono: "plans_linked n ds ps \<Longrightarrow> n \<le> m \<Longrightarrow> plans_linked m ds ps"
  by (auto simp: plans_linked_def intro: ids_below_mono)

lemma plans_linked_Suc [simp]: "plans_linked n ds ps \<Longrightarrow> plans_linked (Suc n) ds ps"
  by (erule plans_linked_mono) simp

lemma plans_linked_add [simp]: "plans_linked n ds ps \<Longrightarrow> bp_document_id p = None \<Longrightarrow> plans_linked n ds (ps @ [p])"
  by (auto simp: plans_linked_def)

definition business_inv :: "(json \<Rightarrow> json option) \<Rightarrow> (json \<Rightarrow> bool) \<Rightarrow> 'a business_db_scheme \<Rightarrow> bool" where
  "business_inv fl un s \<longleftrightarrow>
     keyed (fresh s) cv_id (canvases s) \<and> keyed (fresh s) br_id (business_records s)
     \<and> keyed (fresh s) bs_id (suggestions s) \<and> keyed (fresh s) pm_id (positioning_maps s)
     \<and> keyed (fresh s) bp_id (business_plans s)
     \<and> distinct (map (\<lambda>c. (cv_startup_id c, cv_type c)) (canvases s)) \<and> (\<forall>c \<in> set (canvases s). canvas_ok c)
     \<and> (\<forall>x \<in> set (suggestions s). suggestion_ok fl un x)
     \<and> distinct (map pm_startup_id (positioning_maps s)) \<and> (\<forall>p \<in> set (business_plans s). plan_ok p)
     \<and> plans_linked (fresh s) (documents s) (business_plans s)"


end
