(* ===== verification/Business_Keeps.thy ===== *)
theory Business_Keeps
  imports Business_Inv
begin

text \<open>
  Every operation of the builder keeps the invariant and moves the tables forward: versions of canvases
  only grow, with new content only under a new version; a suggestion changes once, when it is resolved.
\<close>

definition canvas_value :: "canvas \<Rightarrow> int \<times> uid \<times> canvas_type \<times> payload" where
  "canvas_value c = (cv_version c, cv_startup_id c, cv_type c, cv_blocks c)"

text \<open>A canvas stays the canvas of its workspace and type, and its version does not go back.\<close>

definition draft_le :: "int \<times> uid \<times> canvas_type \<times> payload \<Rightarrow> int \<times> uid \<times> canvas_type \<times> payload \<Rightarrow> bool" where
  "draft_le a b \<longleftrightarrow> fst (snd a) = fst (snd b) \<and> fst (snd (snd a)) = fst (snd (snd b)) \<and> version_le a b"

lemma draft_le_refl [simp]: "draft_le a a"
  by (simp add: draft_le_def)

lemma draft_le_trans: "draft_le a b \<Longrightarrow> draft_le b c \<Longrightarrow> draft_le a c"
  using version_le_trans [of a b c] by (auto simp: draft_le_def)

definition suggestion_le :: "suggestion \<Rightarrow> suggestion \<Rightarrow> bool" where
  "suggestion_le x y \<longleftrightarrow> x = y
     \<or> bs_status x = SuS_pending \<and> (\<exists>now m st. st \<noteq> SuS_pending \<and> y = resolved_as now m st x)"

lemma resolved_as_simps [simp]:
  "bs_id (resolved_as now m st x) = bs_id x" "bs_status (resolved_as now m st x) = st"
  "bs_startup_id (resolved_as now m st x) = bs_startup_id x" "bs_op (resolved_as now m st x) = bs_op x"
  "bs_target (resolved_as now m st x) = bs_target x" "bs_payload (resolved_as now m st x) = bs_payload x"
  "bs_base_version (resolved_as now m st x) = bs_base_version x"
  "bs_resolved_at (resolved_as now m st x) = Some now"
  "bs_resolved_by_id (resolved_as now m st x) = Some (m_user_id m)"
  by (simp_all add: resolved_as_def)

lemma suggestion_le_refl [simp]: "suggestion_le x x"
  by (simp add: suggestion_le_def)

lemma suggestion_le_trans: "suggestion_le x y \<Longrightarrow> suggestion_le y z \<Longrightarrow> suggestion_le x z"
  by (auto simp: suggestion_le_def)

text \<open>
  What becomes of a complete plan: it stays complete, and it names its document as long as the document
  is there; a document that was deleted does not come back under its id.
\<close>

definition linked :: "document list \<Rightarrow> uid option \<Rightarrow> uid option" where
  "linked ds x = (case x of None \<Rightarrow> None | Some d \<Rightarrow> if d \<in> d_id ` set ds then Some d else None)"

definition plans_follow :: "uid \<Rightarrow> document list \<Rightarrow> business_plan list \<Rightarrow> document list \<Rightarrow> business_plan list \<Rightarrow> bool" where
  "plans_follow n ds ps ds' ps' \<longleftrightarrow> (\<forall>d \<in> d_id ` set ds'. d < n \<longrightarrow> d \<in> d_id ` set ds)
     \<and> (\<forall>p \<in> set ps. bp_status p = PS_complete \<and> (\<forall>d. bp_document_id p = Some d \<longrightarrow> d \<in> d_id ` set ds \<and> d < n) \<longrightarrow>
          (\<exists>p' \<in> set ps'. bp_id p' = bp_id p \<and> bp_status p' = PS_complete \<and> bp_document_id p' = linked ds' (bp_document_id p)))"

lemma plans_follow_refl [simp]: "plans_follow n ds ps ds ps" "plans_follow n ds ps ds (ps @ qs)"
  by (auto simp: plans_follow_def linked_def split: option.split)

lemma plans_follow_trans:
  assumes "plans_follow n ds ps ds' ps'" "plans_follow m ds' ps' ds'' ps''" "n \<le> m"
  shows "plans_follow n ds ps ds'' ps''"
proof -
  have old: "d \<in> d_id ` set ds" if "d \<in> d_id ` set ds''" "d < n" for d
    using assms that unfolding plans_follow_def by (meson order_less_le_trans)
  have "\<exists>p'' \<in> set ps''. bp_id p'' = bp_id p \<and> bp_status p'' = PS_complete \<and> bp_document_id p'' = linked ds'' (bp_document_id p)"
    if p: "p \<in> set ps" "bp_status p = PS_complete" "\<forall>d. bp_document_id p = Some d \<longrightarrow> d \<in> d_id ` set ds \<and> d < n" for p
  proof -
    obtain p' where p': "p' \<in> set ps'" "bp_id p' = bp_id p" "bp_status p' = PS_complete" "bp_document_id p' = linked ds' (bp_document_id p)"
      using assms(1) p unfolding plans_follow_def by blast
    have "\<forall>d. bp_document_id p' = Some d \<longrightarrow> d \<in> d_id ` set ds' \<and> d < m"
      using p(3) p'(4) assms(3) by (auto simp: linked_def split: option.splits if_splits)
    then obtain p'' where p'': "p'' \<in> set ps''" "bp_id p'' = bp_id p'" "bp_status p'' = PS_complete" "bp_document_id p'' = linked ds'' (bp_document_id p')"
      using assms(2) p'(1,3) unfolding plans_follow_def by blast
    have "linked ds'' (linked ds' (bp_document_id p)) = linked ds'' (bp_document_id p)"
    proof (cases "bp_document_id p")
      case (Some d)
      then have "d < m" using p(3) assms(3) by auto
      then have "d \<in> d_id ` set ds'' \<Longrightarrow> d \<in> d_id ` set ds'" using assms(2) unfolding plans_follow_def by blast
      then show ?thesis using Some by (auto simp: linked_def)
    qed (simp add: linked_def)
    then show ?thesis using p' p'' by auto
  qed
  then show ?thesis using old unfolding plans_follow_def by blast
qed

definition builds ::
    "(json \<Rightarrow> json option) \<Rightarrow> (json \<Rightarrow> bool) \<Rightarrow> 'a business_db_scheme \<Rightarrow> 'a business_db_scheme \<Rightarrow> bool" where
  "builds fl un s s' \<longleftrightarrow> business_inv fl un s' \<and> fresh s \<le> fresh s'
     \<and> moves cv_id canvas_value draft_le (fresh s) (canvases s) (canvases s')
     \<and> moves bs_id id suggestion_le (fresh s) (suggestions s) (suggestions s')
     \<and> cv_id ` set (canvases s) \<subseteq> cv_id ` set (canvases s')
     \<and> plans_follow (fresh s) (documents s) (business_plans s) (documents s') (business_plans s')"

lemma builds_trans: "builds fl un s s' \<Longrightarrow> builds fl un s' s'' \<Longrightarrow> builds fl un s s''"
  unfolding builds_def
  by (auto intro: moves_trans [OF draft_le_trans] moves_trans [OF suggestion_le_trans] plans_follow_trans)

text \<open>The tables are as they were, apart from the supply.\<close>

lemma builds_frame:
  assumes "business_inv fl un s" "fresh s \<le> fresh s'" "canvases s' = canvases s" "suggestions s' = suggestions s"
    "business_records s' = business_records s" "positioning_maps s' = positioning_maps s"
    "business_plans s' = business_plans s" "documents s' = documents s"
  shows "builds fl un s s'"
  using assms by (auto simp: builds_def business_inv_def moves_refl intro: keyed_mono plans_linked_mono)

lemma builds_publish: "builds fl un s s' \<Longrightarrow> builds fl un s (publish now e p s')"
  using publish_fresh [of s' now e p]
  by (auto simp: builds_def business_inv_def intro: keyed_mono plans_linked_mono)

lemma invD:
  assumes "business_inv fl un s"
  shows "keyed (fresh s) cv_id (canvases s)" "keyed (fresh s) bs_id (suggestions s)"
    "keyed (fresh s) br_id (business_records s)" "keyed (fresh s) pm_id (positioning_maps s)"
    "keyed (fresh s) bp_id (business_plans s)" "\<And>c. c \<in> set (canvases s) \<Longrightarrow> canvas_ok c"
    "\<And>x. x \<in> set (suggestions s) \<Longrightarrow> suggestion_ok fl un x"
    "distinct (map (\<lambda>c. (cv_startup_id c, cv_type c)) (canvases s))"
    "distinct (map pm_startup_id (positioning_maps s))" "\<And>p. p \<in> set (business_plans s) \<Longrightarrow> plan_ok p"
    "plans_linked (fresh s) (documents s) (business_plans s)"
  using assms by (auto simp: business_inv_def)

section \<open>Canvases\<close>

lemma get_or_create_frame [simp]:
  "suggestions (snd (get_or_create_canvas w ty s)) = suggestions s"
  "business_records (snd (get_or_create_canvas w ty s)) = business_records s"
  "business_plans (snd (get_or_create_canvas w ty s)) = business_plans s"
  "positioning_maps (snd (get_or_create_canvas w ty s)) = positioning_maps s"
  by (auto simp: get_or_create_canvas_def fresh_id_def Let_def split: option.split)

lemma canvas_lookup:
  assumes "distinct (map (\<lambda>c. (cv_startup_id c, cv_type c)) t)" "c \<in> set t" "cv_startup_id c = w" "cv_type c = ty"
  shows "find (\<lambda>c. cv_startup_id c = w \<and> cv_type c = ty) t = Some c"
  using find_key_unique [OF assms(1,2)] assms(3,4) by simp

lemma get_or_create_ok:
  assumes inv: "business_inv fl un s" and g: "get_or_create_canvas w ty s = (c, s1)"
  shows "builds fl un s s1" "c \<in> set (canvases s1)" "cv_startup_id c = w" "cv_type c = ty"
    "\<And>c'. c' \<in> set (canvases s) \<Longrightarrow> c' \<in> set (canvases s1)"
proof -
  have "builds fl un s s1 \<and> c \<in> set (canvases s1) \<and> cv_startup_id c = w \<and> cv_type c = ty
    \<and> set (canvases s) \<subseteq> set (canvases s1)"
  proof (cases "find (\<lambda>c. cv_startup_id c = w \<and> cv_type c = ty) (canvases s)")
    case None
    define row where "row = \<lparr>cv_id = fresh s, cv_startup_id = w, cv_type = ty, cv_blocks = empty_blocks ty, cv_version = 1\<rparr>"
    have s1: "c = row" "s1 = s\<lparr>fresh := Suc (fresh s), canvases := canvases s @ [row]\<rparr>"
      using g None by (auto simp: get_or_create_canvas_def fresh_id_def row_def Let_def)
    have "(w, ty) \<notin> (\<lambda>c. (cv_startup_id c, cv_type c)) ` set (canvases s)"
      using find_NoneD [OF None] by auto
    then have "business_inv fl un s1"
      using inv keyed_add [OF invD(1) [OF inv], of row]
      by (simp add: s1 business_inv_def canvas_ok_def row_def)
    moreover have "moves cv_id canvas_value draft_le (fresh s) (canvases s) (canvases s @ [row])"
      by (rule moves_append) (simp_all add: row_def)
    ultimately show ?thesis
      unfolding builds_def by (auto simp: s1 row_def moves_refl)
  next
    case (Some c0)
    then show ?thesis
      using g find_SomeD [OF Some] builds_frame [OF inv, of s] by (simp add: get_or_create_canvas_def)
  qed
  then show "builds fl un s s1" "c \<in> set (canvases s1)" "cv_startup_id c = w" "cv_type c = ty"
    "\<And>c'. c' \<in> set (canvases s) \<Longrightarrow> c' \<in> set (canvases s1)" by auto
qed

lemma put_row_ok:
  assumes inv: "business_inv fl un s" and c: "c \<in> set (canvases s)"
    and c': "cv_id c' = cv_id c" "cv_startup_id c' = cv_startup_id c" "cv_type c' = cv_type c"
      "cv_version c' = cv_version c + 1" "blocks_ok (cv_type c) (cv_blocks c')"
  shows "builds fl un s (put_row c' s)"
proof -
  note u = keyed_unique [OF invD(1) [OF inv] _ c]
  have same: "x = c" if "x \<in> set (canvases s)" "cv_id x = cv_id c'" for x
    using u that c'(1) by simp
  have ok: "canvas_ok c'" using invD(6) [OF inv c] c' by (simp add: canvas_ok_def)
  let ?t = "update_where (\<lambda>x. cv_id x = cv_id c') (\<lambda>_. c') (canvases s)"
  have "map (\<lambda>c. (cv_startup_id c, cv_type c)) ?t = map (\<lambda>c. (cv_startup_id c, cv_type c)) (canvases s)"
    unfolding update_where_def using same c' by (auto simp: comp_def)
  moreover have "keyed (fresh s) cv_id ?t"
    by (rule keyed_put [OF invD(1) [OF inv]]) simp
  moreover have "\<forall>x \<in> set ?t. canvas_ok x"
    using invD(6) [OF inv] ok by (auto simp: set_update_where)
  ultimately have "business_inv fl un (put_row c' s)"
    using inv by (simp add: business_inv_def put_row_def)
  moreover have "moves cv_id canvas_value draft_le (fresh s) (canvases s) ?t"
  proof (rule moves_update_same)
    fix r assume "r \<in> set (canvases s)" "cv_id r = cv_id c'"
    then show "draft_le (canvas_value r) (canvas_value c')"
      using same [of r] c' by (simp add: draft_le_def version_le_def canvas_value_def)
  qed simp
  moreover have "cv_id ` set (canvases s) \<subseteq> cv_id ` set ?t"
    by (auto simp: set_update_where image_iff)
  ultimately show ?thesis
    by (simp add: builds_def put_row_def moves_refl)
qed

lemma save_canvas_ok:
  assumes inv: "business_inv fl un s" and c: "c \<in> set (canvases s)" and ok: "save_canvas now c b v s = (Inr c', s')"
  obtains kvs where "b = JObj kvs" "validate_blocks (cv_type c) b = Inr kvs" "v = cv_version c"
    "c' = c\<lparr>cv_blocks := obj_update (empty_blocks (cv_type c)) kvs, cv_version := cv_version c + 1\<rparr>"
    "builds fl un s s'" "canvases s' = update_where (\<lambda>x. cv_id x = cv_id c) (\<lambda>_. c') (canvases s)"
    "suggestions s' = suggestions s"
proof -
  obtain kvs where kvs: "validate_blocks (cv_type c) b = Inr kvs" and v: "v = cv_version c"
    using ok by (auto simp: save_canvas_def split: sum.splits if_splits)
  define d where "d = c\<lparr>cv_blocks := obj_update (empty_blocks (cv_type c)) kvs, cv_version := cv_version c + 1\<rparr>"
  define e p where "e = ''business.artifact.completed''"
    and "p = [(''startup_id'', JUid (cv_startup_id c)), (''canvas_type'', JStr (canvas_type_value (cv_type c)))]"
  have c': "c' = d" and s': "s' = put_row d s \<or> s' = publish now e p (put_row d s)"
    using ok kvs v by (auto simp: save_canvas_def Let_def d_def [symmetric] e_def p_def split: if_splits)
  have "blocks_ok (cv_type c) (cv_blocks d)"
    using kvs blocks_ok_update [OF empty_blocks_ok] by (simp add: d_def validate_blocks_ok_iff)
  then have "builds fl un s (put_row d s)"
    by (intro put_row_ok [OF inv c]) (simp_all add: d_def)
  then have "builds fl un s s'" using s' builds_publish by blast
  moreover have "canvases s' = update_where (\<lambda>x. cv_id x = cv_id c) (\<lambda>_. c') (canvases s)" "suggestions s' = suggestions s"
    using s' c' by (auto simp: put_row_def d_def)
  ultimately show thesis
    using kvs v c' by (intro that [of kvs]) (simp_all add: d_def validate_blocks_ok_iff)
qed

section \<open>Records\<close>

lemma find_record_okD:
  "find_record m k i s = Inr r \<Longrightarrow> r \<in> set (business_records s) \<and> br_id r = i \<and> br_startup_id r = m_startup_id m \<and> br_kind r = k"
  by (auto simp: find_record_def dest: find_SomeD split: option.splits)

lemma create_record_ok:
  assumes inv: "business_inv fl un s" and ok: "create_record fl un now w k d s = (Inr r, s')"
  shows "builds fl un s s'"
proof -
  obtain clean where v: "validate fl un k d = Inr clean"
    using ok by (auto simp: create_record_def split: sum.splits)
  define row where "row = \<lparr>br_id = fresh s, br_startup_id = w, br_kind = k, br_data = clean,
    br_position = length (records_of w k s)\<rparr>"
  define s1 where "s1 = s\<lparr>fresh := Suc (fresh s), business_records := business_records s @ [row]\<rparr>"
  have s': "s' = (if records_of w k s = [] then publish now ''business.artifact.completed''
      [(''startup_id'', JUid w), (''artifact'', JStr (record_kind_value k))] s1 else s1)"
    unfolding s1_def row_def using ok v by (auto simp: create_record_def fresh_id_def Let_def)
  have "business_inv fl un s1"
    using inv keyed_add [OF invD(3) [OF inv], of row] by (simp add: s1_def business_inv_def row_def)
  then have "builds fl un s s1"
    unfolding builds_def by (simp add: s1_def moves_refl)
  then show ?thesis unfolding s' by (simp add: builds_publish)
qed

lemma update_record_ok:
  assumes inv: "business_inv fl un s" and ok: "update_record fl un r d s = (Inr r', s')"
  shows "builds fl un s s'"
proof -
  obtain clean where "r' = r\<lparr>br_data := clean\<rparr>"
      "s' = s\<lparr>business_records := update_where (\<lambda>x. br_id x = br_id r) (\<lambda>_. r\<lparr>br_data := clean\<rparr>) (business_records s)\<rparr>"
    using ok by (auto simp: update_record_def Let_def split: sum.splits)
  moreover have "keyed (fresh s) br_id (update_where (\<lambda>x. br_id x = br_id r) (\<lambda>_. r\<lparr>br_data := clean\<rparr>) (business_records s))"
    by (rule keyed_put [OF invD(3) [OF inv]]) simp
  ultimately show ?thesis
    using inv by (simp add: builds_def business_inv_def moves_refl)
qed

lemma delete_record_ok: "business_inv fl un s \<Longrightarrow> builds fl un s (delete_record r s)"
  by (auto simp: builds_def business_inv_def delete_record_def moves_refl intro: keyed_delete)

section \<open>Suggestions\<close>

text \<open>Every kind of record has a required field, so that an empty payload is refused.\<close>

lemma validate_empty: "\<exists>e. validate fl un k (JObj []) = Inl e"
  by (cases k) (simp_all add: validate_def check_fields_def Let_def field_result_def fd_def)

lemma payload_data:
  assumes "validate fl un k (payload_part p ''data'') = Inr clean"
  shows "\<exists>d. stored_key (case p of None \<Rightarrow> [] | Some kvs \<Rightarrow> kvs) ''data'' = Inr d \<and> validate fl un k d = Inr clean"
  using assms validate_empty [of fl un k]
  by (auto simp: payload_part_def stored_key_def split: option.splits)

lemma applicableI:
  "bs_op x = SO_canvas_update \<Longrightarrow> bs_target x = [(''canvas_type'', JStr (canvas_type_value ty))]
     \<Longrightarrow> validate_blocks ty (payload_part (bs_payload x) ''blocks'') = Inr kvs \<Longrightarrow> bs_base_version x = Some v
     \<Longrightarrow> applicable fl un x"
  "bs_op x = SO_record_create \<Longrightarrow> bs_target x = [(''kind'', JStr (record_kind_value k))]
     \<Longrightarrow> validate fl un k (payload_part (bs_payload x) ''data'') = Inr clean \<Longrightarrow> applicable fl un x"
  "bs_op x = SO_record_update \<Longrightarrow> bs_target x = record_target k r
     \<Longrightarrow> validate fl un k (payload_part (bs_payload x) ''data'') = Inr clean \<Longrightarrow> applicable fl un x"
  "bs_op x = SO_record_delete \<Longrightarrow> bs_target x = record_target k r \<Longrightarrow> applicable fl un x"
proof -
  show "applicable fl un x" if "bs_op x = SO_canvas_update" "bs_target x = [(''canvas_type'', JStr (canvas_type_value ty))]"
    "validate_blocks ty (payload_part (bs_payload x) ''blocks'') = Inr kvs" "bs_base_version x = Some v"
    using that(2-4) unfolding applicable_def that(1) suggestion_op.case by blast
  have d: "data_accepted fl un x k" if "validate fl un k (payload_part (bs_payload x) ''data'') = Inr clean" for clean
    unfolding data_accepted_def stored_data_def using payload_data [OF that] by blast
  show "applicable fl un x" if "bs_op x = SO_record_create" "bs_target x = [(''kind'', JStr (record_kind_value k))]"
    "validate fl un k (payload_part (bs_payload x) ''data'') = Inr clean"
    using that(2) d [OF that(3)] unfolding applicable_def that(1) suggestion_op.case by blast
  show "applicable fl un x" if "bs_op x = SO_record_update" "bs_target x = record_target k r"
    "validate fl un k (payload_part (bs_payload x) ''data'') = Inr clean"
    using that(2) d [OF that(3)] unfolding applicable_def that(1) suggestion_op.case record_target_def by blast
  show "applicable fl un x" if "bs_op x = SO_record_delete" "bs_target x = record_target k r"
    using that(2) unfolding applicable_def that(1) suggestion_op.case record_target_def by blast
qed

lemma check_canvas_update_okE:
  assumes "check_canvas_update m target payload s = (Inr (t, p, v), s1)"
  obtains ty kvs c where "validate_blocks ty (payload_part payload ''blocks'') = Inr kvs"
    "get_or_create_canvas (m_startup_id m) ty s = (c, s1)" "t = [(''canvas_type'', JStr (canvas_type_value ty))]"
    "p = payload" "v = Some (cv_version c)"
proof (cases "parse_canvas_target target")
  case (Inr ty)
  show thesis
  proof (cases "validate_blocks ty (payload_part payload ''blocks'')")
    case kvs: (Inr kvs)
    obtain c s2 where g: "get_or_create_canvas (m_startup_id m) ty s = (c, s2)" by (cases "get_or_create_canvas (m_startup_id m) ty s")
    show thesis
      using assms Inr kvs g by (intro that [OF kvs, of c]) (simp_all add: check_canvas_update_def)
  qed (use assms Inr in \<open>simp add: check_canvas_update_def\<close>)
qed (use assms in \<open>simp add: check_canvas_update_def\<close>)

text \<open>What is stored with a suggestion makes it applicable.\<close>

lemma check_record_create_okE:
  assumes "check_record_create fl un target payload = Inr (t, p, v)"
  obtains k clean where "validate fl un k (payload_part payload ''data'') = Inr clean"
    "t = [(''kind'', JStr (record_kind_value k))]" "p = payload"
proof (cases "parse_kind_target target")
  case (Inr k)
  show thesis
  proof (cases "validate fl un k (payload_part payload ''data'')")
    case clean: (Inr clean)
    show thesis
      using assms Inr clean by (intro that [OF clean]) (simp_all add: check_record_create_def)
  qed (use assms Inr in \<open>simp add: check_record_create_def\<close>)
qed (use assms in \<open>simp add: check_record_create_def\<close>)

lemma check_record_update_okE:
  assumes "check_record_update fl un m target payload s = Inr (t, p, v)"
  obtains k r clean where "validate fl un k (payload_part payload ''data'') = Inr clean"
    "t = record_target k r" "p = payload"
proof (cases "target_record m target s")
  case (Inr kr)
  obtain k r where kr: "kr = (k, r)" by (cases kr)
  show thesis
  proof (cases "validate fl un k (payload_part payload ''data'')")
    case clean: (Inr clean)
    show thesis
      using assms Inr kr clean by (intro that [OF clean, of r]) (simp_all add: check_record_update_def)
  qed (use assms Inr kr in \<open>simp add: check_record_update_def\<close>)
qed (use assms in \<open>simp add: check_record_update_def\<close>)

lemma check_record_delete_okE:
  assumes "check_record_delete m target s = Inr (t, p, v)"
  obtains k r where "t = record_target k r"
proof (cases "target_record m target s")
  case (Inr kr)
  obtain k r where "kr = (k, r)" by (cases kr)
  then show thesis using assms Inr by (intro that [of k r]) (simp add: check_record_delete_def)
qed (use assms in \<open>simp add: check_record_delete_def\<close>)

lemma check_canvas_update_ok:
  assumes inv: "business_inv fl un s" and c: "check_canvas_update m target payload s = (Inr (t, p, v), s1)" 
  shows "builds fl un s s1 \<and> suggestions s1 = suggestions s
    \<and> (\<forall>x. bs_op x = SO_canvas_update \<longrightarrow> bs_target x = t \<longrightarrow> bs_payload x = p \<longrightarrow> bs_base_version x = v \<longrightarrow> applicable fl un x)"
proof -
    obtain ty kvs c where *: "validate_blocks ty (payload_part payload ''blocks'') = Inr kvs"
        "get_or_create_canvas (m_startup_id m) ty s = (c, s1)" "t = [(''canvas_type'', JStr (canvas_type_value ty))]"
        "p = payload" "v = Some (cv_version c)"
      by (rule check_canvas_update_okE [OF c])
    have 1: "suggestions s1 = suggestions s"
      using get_or_create_frame(1) [of "m_startup_id m" ty s] unfolding *(2) by simp
    have 2: "builds fl un s s1" by (rule get_or_create_ok(1) [OF inv *(2)])
    have 3: "applicable fl un x" if "bs_op x = SO_canvas_update" "bs_target x = t" "bs_payload x = p" "bs_base_version x = v" for x
    proof (rule applicableI(1))
      show "bs_op x = SO_canvas_update" by fact
      show "bs_target x = [(''canvas_type'', JStr (canvas_type_value ty))]" using that(2) *(3) by (rule trans)
      show "validate_blocks ty (payload_part (bs_payload x) ''blocks'') = Inr kvs" unfolding that(3) *(4) by (rule *(1))
      show "bs_base_version x = Some (cv_version c)" unfolding that(4) by (rule *(5))
    qed
    show ?thesis using 1 2 3 by blast
qed

lemma check_suggestion_ok:
  assumes inv: "business_inv fl un s" and ok: "check_suggestion fl un m op target payload s = (Inr (t, p, v), s1)"
  shows "builds fl un s s1" "suggestions s1 = suggestions s"
    "\<And>x. bs_op x = op \<Longrightarrow> bs_target x = t \<Longrightarrow> bs_payload x = p \<Longrightarrow> bs_base_version x = v \<Longrightarrow> applicable fl un x"
proof -
  have here: "builds fl un s s" by (rule builds_frame [OF inv]) simp_all
  have "builds fl un s s1 \<and> suggestions s1 = suggestions s
    \<and> (\<forall>x. bs_op x = op \<longrightarrow> bs_target x = t \<longrightarrow> bs_payload x = p \<longrightarrow> bs_base_version x = v \<longrightarrow> applicable fl un x)"
  proof (cases op)
    case SO_canvas_update
    then have c: "check_canvas_update m target payload s = (Inr (t, p, v), s1)" using ok by (simp add: check_suggestion_def)
    show ?thesis unfolding SO_canvas_update by (rule check_canvas_update_ok [OF inv c])
  next
    case SO_record_create
    then have c: "check_record_create fl un target payload = Inr (t, p, v)" and s1: "s1 = s"
      using ok by (auto simp: check_suggestion_def)
    obtain k clean where *: "validate fl un k (payload_part payload ''data'') = Inr clean"
        "t = [(''kind'', JStr (record_kind_value k))]" "p = payload"
      by (rule check_record_create_okE [OF c])
    show ?thesis
      unfolding s1 SO_record_create by (intro conjI allI impI here refl applicableI(2) [of _ k fl un clean]) (simp_all only: *)
  next
    case SO_record_update
    then have c: "check_record_update fl un m target payload s = Inr (t, p, v)" and s1: "s1 = s"
      using ok by (auto simp: check_suggestion_def)
    obtain k r clean where *: "validate fl un k (payload_part payload ''data'') = Inr clean"
        "t = record_target k r" "p = payload"
      by (rule check_record_update_okE [OF c])
    show ?thesis
      unfolding s1 SO_record_update by (intro conjI allI impI here refl applicableI(3) [of _ k r fl un clean]) (simp_all only: *)
  next
    case SO_record_delete
    then have c: "check_record_delete m target s = Inr (t, p, v)" and s1: "s1 = s"
      using ok by (auto simp: check_suggestion_def)
    obtain k r where *: "t = record_target k r" by (rule check_record_delete_okE [OF c])
    show ?thesis
      unfolding s1 SO_record_delete by (intro conjI allI impI here refl applicableI(4) [of _ k r fl un]) (simp_all only: *)
  qed
  then show "builds fl un s s1" "suggestions s1 = suggestions s"
    "\<And>x. bs_op x = op \<Longrightarrow> bs_target x = t \<Longrightarrow> bs_payload x = p \<Longrightarrow> bs_base_version x = v \<Longrightarrow> applicable fl un x"
    by blast+
qed

lemma create_suggestion_ok:
  assumes inv: "business_inv fl un s" and ok: "create_suggestion fl un now m op target payload n s = (Inr x, s')"
  shows "builds fl un s s'"
proof -
  obtain t p v s1 where c: "check_suggestion fl un m op target payload s = (Inr (t, p, v), s1)"
    using ok by (auto simp: create_suggestion_def split: sum.splits prod.splits)
  note k = check_suggestion_ok [OF inv c]
  have inv1: "business_inv fl un s1" using k(1) by (simp add: builds_def)
  define row where "row = \<lparr>bs_id = fresh s1, bs_startup_id = m_startup_id m, bs_author_id = m_user_id m, bs_op = op,
    bs_target = t, bs_payload = p, bs_base_version = v, bs_note = n, bs_status = SuS_pending,
    bs_resolved_by_id = None, bs_resolved_at = None, bs_created_at = now\<rparr>"
  define s2 where "s2 = s1\<lparr>fresh := Suc (fresh s1), suggestions := suggestions s1 @ [row]\<rparr>"
  have "\<exists>e q. s' = publish now e q s2"
    using ok c by (auto simp: create_suggestion_def fresh_id_def Let_def row_def [symmetric] s2_def [symmetric])
  moreover have "suggestion_ok fl un row"
    using k(3) [of row] by (simp add: suggestion_ok_def row_def)
  then have "business_inv fl un s2"
    using inv1 keyed_add [OF invD(2) [OF inv1], of row] by (simp add: s2_def business_inv_def row_def)
  moreover have "moves bs_id id suggestion_le (fresh s1) (suggestions s1) (suggestions s1 @ [row])"
    by (rule moves_append) (simp_all add: row_def)
  ultimately have "builds fl un s1 s2"
    by (simp add: builds_def s2_def moves_refl)
  then show ?thesis
    using \<open>\<exists>e q. s' = publish now e q s2\<close> builds_publish builds_trans [OF k(1)] by blast
qed

text \<open>Closing a suggestion that is pending in the table.\<close>

lemma close_ok:
  assumes inv: "business_inv fl un s" and x: "x \<in> set (suggestions s)" "bs_status x = SuS_pending"
    and st: "st \<noteq> SuS_pending"
  shows "builds fl un s (snd (close_suggestion now m st x s))"
proof -
  let ?y = "resolved_as now m st x"
  let ?t = "update_where (\<lambda>y. bs_id y = bs_id ?y) (\<lambda>_. ?y) (suggestions s)"
  have same: "y = x" if "y \<in> set (suggestions s)" "bs_id y = bs_id x" for y
    by (rule keyed_unique [OF invD(2) [OF inv] that(1) x(1) that(2)])
  have "applicable fl un ?y \<longleftrightarrow> applicable fl un x"
    by (simp add: applicable_def data_accepted_def stored_data_def split: suggestion_op.split)
  then have "suggestion_ok fl un ?y"
    using invD(7) [OF inv x(1)] st by (simp add: suggestion_ok_def)
  then have "\<forall>y \<in> set ?t. suggestion_ok fl un y"
    using invD(7) [OF inv] by (auto simp: set_update_where)
  moreover have "keyed (fresh s) bs_id ?t" by (rule keyed_put [OF invD(2) [OF inv]]) simp
  ultimately have "business_inv fl un (s\<lparr>suggestions := ?t\<rparr>)"
    using inv by (simp add: business_inv_def)
  moreover have "moves bs_id id suggestion_le (fresh s) (suggestions s) ?t"
  proof (rule moves_update_same)
    fix r assume "r \<in> set (suggestions s)" "bs_id r = bs_id ?y"
    then show "suggestion_le (id r) (id ?y)" using same [of r] x(2) st by (auto simp: suggestion_le_def)
  qed simp
  ultimately have "builds fl un s (s\<lparr>suggestions := ?t\<rparr>)"
    by (simp add: builds_def moves_refl)
  then show ?thesis
    by (simp add: close_suggestion_def Let_def builds_publish)
qed

end
