(* ===== verification/Business_Histories.thy ===== *)
theory Business_Histories
  imports Business_Keeps
begin

text \<open>
  The requests and jobs that write the tables of the business builder, and their histories.
\<close>

section \<open>Operations\<close>

lemma builds_refl: "business_inv fl un s \<Longrightarrow> builds fl un s s"
  by (rule builds_frame) simp_all

lemma builds_inv: "builds fl un s s' \<Longrightarrow> business_inv fl un s'"
  by (simp add: builds_def)

lemma map_prod_ok: "map_prod ignore id x = (Inr u, s') \<longleftrightarrow> (\<exists>a. x = (Inr a, s'))"
  by (cases x; cases "fst x") (auto simp: ignore_def)

lemma apply_canvas_ok:
  assumes inv: "business_inv fl un s" and ok: "apply_canvas_update now m x s = (Inr u, s')"
  obtains ty c s1 v c' where "stored_enum canvas_type_of (bs_target x) ''canvas_type'' = Inr ty"
    "get_or_create_canvas (m_startup_id m) ty s = (c, s1)" "bs_base_version x = Some v"
    "save_canvas now c (payload_part (bs_payload x) ''blocks'') v s1 = (Inr c', s')"
proof (cases "stored_enum canvas_type_of (bs_target x) ''canvas_type''")
  case (Inr ty)
  obtain c s1 where g: "get_or_create_canvas (m_startup_id m) ty s = (c, s1)"
    by (cases "get_or_create_canvas (m_startup_id m) ty s")
  show thesis
  proof (cases "bs_base_version x")
    case (Some v)
    obtain r where "save_canvas now c (payload_part (bs_payload x) ''blocks'') v s1 = (Inr r, s')"
      using ok Inr g Some by (auto simp: apply_canvas_update_def map_prod_ok)
    then show thesis by (rule that [OF Inr g Some])
  qed (use ok Inr g in \<open>simp add: apply_canvas_update_def\<close>)
qed (use ok in \<open>simp add: apply_canvas_update_def\<close>)

lemma create_record_frame [simp]: "suggestions (snd (create_record fl un now w k d s)) = suggestions s"
  by (simp add: create_record_def fresh_id_def Let_def split: sum.split)

lemma update_record_frame [simp]: "suggestions (snd (update_record fl un r d s)) = suggestions s"
  by (simp add: update_record_def Let_def split: sum.split)

lemma apply_ok:
  assumes inv: "business_inv fl un s" and ok: "apply_suggestion fl un now m x s = (Inr u, s')"
  shows "builds fl un s s'" "suggestions s' = suggestions s"
proof -
  have "builds fl un s s' \<and> suggestions s' = suggestions s"
  proof (cases "bs_op x")
    case SO_canvas_update
    then have a: "apply_canvas_update now m x s = (Inr u, s')" using ok by (simp add: apply_suggestion_def)
    obtain ty c s1 v c' where *: "get_or_create_canvas (m_startup_id m) ty s = (c, s1)"
        "save_canvas now c (payload_part (bs_payload x) ''blocks'') v s1 = (Inr c', s')"
      by (rule apply_canvas_ok [OF inv a])
    note g = get_or_create_ok [OF inv *(1)]
    have "suggestions s1 = suggestions s"
      using get_or_create_frame(1) [of "m_startup_id m" ty s] unfolding *(1) by simp
    moreover have "builds fl un s1 s' \<and> suggestions s' = suggestions s1"
      by (rule save_canvas_ok [OF builds_inv [OF g(1)] g(2) *(2)]) simp
    ultimately show ?thesis using builds_trans [OF g(1)] by simp
  next
    case SO_record_create
    then have "\<exists>k d r. create_record fl un now (m_startup_id m) k d s = (Inr r, s')"
      using ok by (auto simp: apply_suggestion_def apply_record_create_def map_prod_ok split: sum.splits)
    then obtain k d r where c: "create_record fl un now (m_startup_id m) k d s = (Inr r, s')" by (elim exE)
    show ?thesis
      using create_record_ok [OF inv c] create_record_frame [of fl un now "m_startup_id m" k d s] unfolding c by simp
  next
    case SO_record_update
    then have "\<exists>r d r'. update_record fl un r d s = (Inr r', s')"
      using ok by (auto simp: apply_suggestion_def apply_record_update_def map_prod_ok split: sum.splits)
    then obtain r d r' where c: "update_record fl un r d s = (Inr r', s')" by (elim exE)
    show ?thesis
      using update_record_ok [OF inv c] update_record_frame [of fl un r d s] unfolding c by simp
  next
    case SO_record_delete
    then have "\<exists>r. s' = delete_record r s"
      using ok by (auto simp: apply_suggestion_def apply_record_delete_def split: sum.splits)
    then show ?thesis using delete_record_ok [OF inv] by (auto simp: delete_record_def)
  qed
  then show "builds fl un s s'" "suggestions s' = suggestions s" by blast+
qed

lemma find_suggestion_okD:
  "find_suggestion m i s = Inr x \<Longrightarrow> x \<in> set (suggestions s) \<and> bs_id x = i \<and> bs_startup_id x = m_startup_id m"
  by (auto simp: find_suggestion_def dest: find_SomeD split: option.splits)

lemma approve_ok:
  assumes inv: "business_inv fl un s" and ok: "approve_suggestion fl un now m i s = (Inr y, s')"
  obtains x s1 u where "find_suggestion m i s = Inr x" "bs_status x = SuS_pending"
    "apply_suggestion fl un now m x s = (Inr u, s1)" "close_suggestion now m SuS_approved x s1 = (y, s')"
    "builds fl un s s'"
proof (cases "find_suggestion m i s")
  case (Inr x)
  have p: "bs_status x = SuS_pending"
    using ok Inr by (auto simp: approve_suggestion_def require_pending_def split: if_splits)
  obtain r s1 where a: "apply_suggestion fl un now m x s = (r, s1)" by (cases "apply_suggestion fl un now m x s")
  show thesis
  proof (cases r)
    case r: (Inr u)
    have c: "close_suggestion now m SuS_approved x s1 = (y, s')"
      using ok Inr p a r
      by (cases "close_suggestion now m SuS_approved x s1") (simp add: approve_suggestion_def require_pending_def)
    note a' = apply_ok [OF inv a [unfolded r]]
    have "builds fl un s1 (snd (close_suggestion now m SuS_approved x s1))"
      by (rule close_ok [OF builds_inv [OF a'(1)] _ p]) (use a'(2) find_suggestion_okD [OF Inr] in simp_all)
    then have "builds fl un s s'" using builds_trans [OF a'(1)] c by simp
    then show thesis by (rule that [OF Inr p a [unfolded r] c])
  qed (use ok Inr p a in \<open>simp add: approve_suggestion_def require_pending_def\<close>)
qed (use ok in \<open>simp add: approve_suggestion_def\<close>)

lemma reject_ok:
  assumes inv: "business_inv fl un s" and ok: "reject_suggestion now m i s = (Inr y, s')"
  shows "builds fl un s s'"
proof (cases "find_suggestion m i s")
  case (Inr x)
  have p: "bs_status x = SuS_pending"
    using ok Inr by (auto simp: reject_suggestion_def require_pending_def split: if_splits)
  have "s' = snd (close_suggestion now m SuS_rejected x s)"
    using ok Inr p
    by (cases "close_suggestion now m SuS_rejected x s") (simp add: reject_suggestion_def require_pending_def)
  then show ?thesis
    using close_ok [OF inv _ p, of SuS_rejected now m] find_suggestion_okD [OF Inr] by simp
qed (use ok in \<open>simp add: reject_suggestion_def\<close>)

section \<open>Maps and plans\<close>

lemma get_map_ok:
  assumes inv: "business_inv fl un s" and g: "get_or_create_map w s = (p, s1)"
  shows "builds fl un s s1" "p \<in> set (positioning_maps s1)"
proof -
  have "builds fl un s s1 \<and> p \<in> set (positioning_maps s1)"
  proof (cases "find (\<lambda>p. pm_startup_id p = w) (positioning_maps s)")
    case None
    define row where "row = \<lparr>pm_id = fresh s, pm_startup_id = w, pm_axes = default_axes\<rparr>"
    have s1: "p = row" "s1 = s\<lparr>fresh := Suc (fresh s), positioning_maps := positioning_maps s @ [row]\<rparr>"
      using g None by (auto simp: get_or_create_map_def fresh_id_def row_def Let_def)
    have "w \<notin> pm_startup_id ` set (positioning_maps s)"
      using find_NoneD [OF None] by auto
    then have "business_inv fl un s1"
      using inv keyed_add [OF invD(4) [OF inv], of row] by (simp add: s1 business_inv_def row_def)
    then show ?thesis unfolding builds_def by (simp add: s1 moves_refl)
  next
    case (Some c0)
    then show ?thesis
      using g find_SomeD [OF Some] builds_refl [OF inv] by (simp add: get_or_create_map_def)
  qed
  then show "builds fl un s s1" "p \<in> set (positioning_maps s1)" by blast+
qed

lemma update_axes_ok:
  assumes inv: "business_inv fl un s" and p: "p \<in> set (positioning_maps s)" and ok: "update_axes p axes s = (Inr p', s')"
  shows "builds fl un s s'"
proof -
  let ?t = "update_where (\<lambda>x. pm_id x = pm_id p) (\<lambda>_. p\<lparr>pm_axes := axes\<rparr>) (positioning_maps s)"
  have s': "s' = s\<lparr>positioning_maps := ?t\<rparr>"
    using ok by (auto simp: update_axes_def Let_def split: sum.splits)
  have "x = p" if "x \<in> set (positioning_maps s)" "pm_id x = pm_id p" for x
    by (rule keyed_unique [OF invD(4) [OF inv] that(1) p that(2)])
  then have "map pm_startup_id ?t = map pm_startup_id (positioning_maps s)"
    unfolding update_where_def by (auto simp: comp_def)
  moreover have "keyed (fresh s) pm_id ?t" by (rule keyed_put [OF invD(4) [OF inv]]) simp
  ultimately show ?thesis using inv by (simp add: s' builds_def business_inv_def moves_refl)
qed

lemma enqueue_business_frame [simp]:
  "canvases (snd (enqueue now ty p st s)) = canvases s" "suggestions (snd (enqueue now ty p st s)) = suggestions s"
  "business_records (snd (enqueue now ty p st s)) = business_records s"
  "positioning_maps (snd (enqueue now ty p st s)) = positioning_maps s"
  "business_plans (snd (enqueue now ty p st s)) = business_plans s"
  "documents (snd (enqueue now ty p st s)) = documents s"
  by (simp_all add: enqueue_def Let_def)

lemma enqueue_builds: "business_inv fl un s \<Longrightarrow> builds fl un s (snd (enqueue now ty p st s))"
  by (rule builds_frame) simp_all

lemma generate_plan_ok:
  assumes inv: "business_inv fl un s"
  shows "builds fl un s (snd (generate_plan_endpoint now u m s))"
proof -
  define plan where "plan = \<lparr>bp_id = fresh s, bp_startup_id = m_startup_id m, bp_status = PS_generating,
    bp_document_id = None, bp_created_by_id = u_id u, bp_created_at = now\<rparr>"
  define s1 where "s1 = s\<lparr>fresh := Suc (fresh s), business_plans := business_plans s @ [plan]\<rparr>"
  have "business_inv fl un s1"
    using inv keyed_add [OF invD(5) [OF inv], of plan] by (simp add: s1_def business_inv_def plan_def plan_ok_def)
  then have "builds fl un s s1" "business_inv fl un s1" by (simp_all add: builds_def s1_def moves_refl)
  then show ?thesis
    by (simp add: generate_plan_endpoint_def fresh_id_def Let_def case_prod_unfold
        plan_def [symmetric] s1_def [symmetric] builds_trans [OF _ enqueue_builds])
qed

text \<open>
  The jobs of the worker, every request and the histories of the business builder: no edit of a canvas
  is overwritten by an approval or by the model, a suggestion is resolved once, and approving never
  crashes.
\<close>

section \<open>Jobs\<close>

lemma run_tx_builds:
  assumes "business_inv fl un s" "\<And>v s'. f s = (Inr v, s') \<Longrightarrow> builds fl un s s'"
  shows "builds fl un s (snd (run_tx f s))"
  using assms builds_refl [OF assms(1)] by (cases "f s"; cases "fst (f s)") (auto simp: run_tx_def)

lemma fill_begin_ok:
  assumes inv: "business_inv fl un s" and ok: "canvas_fill_begin p s = (Inr r, s')"
  shows "builds fl un s s'"
proof -
  have "s' = s \<or> (\<exists>w ty. s' = snd (get_or_create_canvas w ty s))"
    using ok by (auto simp: canvas_fill_begin_def Let_def case_prod_unfold split: sum.splits option.splits)
  then show ?thesis
    using builds_refl [OF inv] get_or_create_ok(1) [OF inv] by (metis prod.collapse)
qed

lemma fill_from_ok:
  assumes "blocks_ok ty merged" "\<forall>(k, w) \<in> set filled. k \<in> bd_key ` set bs \<longrightarrow>
      (\<exists>kind. map_of (block_kinds ty) k = Some kind \<and> fits_kind kind w)"
  shows "blocks_ok ty (fill_from latest filled bs merged)"
  using assms
proof (induction bs arbitrary: merged)
  case (Cons b bs)
  have "blocks_ok ty (obj_set merged (bd_key b) v)" if "map_of filled (bd_key b) = Some v" for v
    using Cons.prems map_of_SomeD [OF that] by (auto intro: blocks_ok_set)
  then show ?case
    using Cons.prems by (auto intro!: Cons.IH split: option.split)
qed simp

text \<open>What filling does to one block: a filled block stays, an empty one takes the answer's value.\<close>

lemma fill_from_get:
  "distinct (map bd_key bs) \<Longrightarrow>
   map_of (fill_from latest filled bs merged) k =
     (if k \<in> bd_key ` set bs \<and> \<not> truthy (jget latest k) \<and> map_of filled k \<noteq> None
      then map_of filled k else map_of merged k)"
  by (induction bs arbitrary: merged) (auto simp: obj_set_update split: option.split)

lemma fill_from_keys:
  "bd_key ` set bs \<subseteq> fst ` set merged \<Longrightarrow> map fst (fill_from latest filled bs merged) = map fst merged"
proof (induction bs arbitrary: merged)
  case (Cons b bs)
  have k: "map fst (obj_set merged (bd_key b) v) = map fst merged" for v
    using Cons.prems by (simp add: obj_set_keys)
  then have "bd_key ` set bs \<subseteq> fst ` set (obj_set merged (bd_key b) v)" for v
    using Cons.prems by (metis image_set insert_subset list.simps(15) image_insert)
  then show ?case
    using Cons.IH Cons.prems k by (auto split: option.split)
qed simp

lemma validated_blocks_ok:
  assumes "map fst blocks = map bd_key (canvas_blocks ty)" "validate_blocks ty (JObj blocks) = Inr kvs"
  shows "blocks_ok ty blocks"
proof -
  have fits: "\<forall>(k, w) \<in> set blocks. \<exists>kind. map_of (block_kinds ty) k = Some kind \<and> fits_kind kind w"
    using assms(2) by (simp add: validate_blocks_ok_iff)
  have "list_all2 (\<lambda>b kv. fits_kind (bd_kind b) (snd kv)) bs kvs'"
    if "map fst kvs' = map bd_key bs" "set bs \<subseteq> set (canvas_blocks ty)" "set kvs' \<subseteq> set blocks" for bs kvs'
    using that
  proof (induction bs arbitrary: kvs')
    case (Cons b bs)
    then obtain k w rest where r: "kvs' = (k, w) # rest" "k = bd_key b" by (cases kvs') auto
    then have "fits_kind (bd_kind b) w"
      using Cons.prems fits map_of_block_kinds [of b ty] by auto
    then show ?case using Cons r by simp
  qed simp
  then show ?thesis using assms(1) by (simp add: blocks_ok_def)
qed

lemma fill_end_ok:
  assumes inv: "business_inv fl un s" and ok: "canvas_fill_end ty i answer s = (Inr u, s')"
    and c: "c \<in> set (canvases s)" "cv_id c = i" "cv_type c = ty"
  shows "builds fl un s s'"
proof (cases answer)
  case (Inr filled)
  have f: "find (\<lambda>c. cv_id c = i) (canvases s) = Some c"
    using find_key_unique [of cv_id "canvases s" c] invD(1) [OF inv] c by (simp add: keyed_def)
  have ok_c: "blocks_ok ty (cv_blocks c)" using invD(6) [OF inv c(1)] c(3) by (simp add: canvas_ok_def)
  define merged where "merged = fill_from (cv_blocks c) filled (canvas_blocks ty) (cv_blocks c)"
  show ?thesis
  proof (cases "merged = cv_blocks c")
    case True
    then show ?thesis
      using ok Inr f builds_refl [OF inv] by (simp add: canvas_fill_end_def Let_def merged_def)
  next
    case False
    then obtain kvs where v: "validate_blocks ty (JObj merged) = Inr kvs"
      and s': "s' = put_row (c\<lparr>cv_blocks := merged, cv_version := cv_version c + 1\<rparr>) s"
      using ok Inr f by (auto simp: canvas_fill_end_def Let_def merged_def split: sum.splits)
    have "fst ` set (cv_blocks c) = bd_key ` set (canvas_blocks ty)"
      using ok_c by (metis blocks_ok_def list.set_map)
    then have "map fst merged = map bd_key (canvas_blocks ty)"
      using ok_c fill_from_keys [of "canvas_blocks ty" "cv_blocks c" "cv_blocks c" filled]
      by (simp add: merged_def blocks_ok_def)
    then have "blocks_ok ty merged" by (rule validated_blocks_ok [OF _ v])
    then show ?thesis
      unfolding s' using c by (intro put_row_ok [OF inv c(1)]) simp_all
  qed
qed (use ok in \<open>simp add: canvas_fill_end_def\<close>)

lemma create_records_ok:
  "business_inv fl un s \<Longrightarrow> create_records fl un now w k ds s = (Inr u, s') \<Longrightarrow> builds fl un s s'"
proof (induction ds arbitrary: s)
  case (Cons d ds)
  obtain r s1 where c: "create_record fl un now w k d s = (r, s1)" by (cases "create_record fl un now w k d s")
  show ?case
  proof (cases r)
    case (Inl e)
    then have "s1 = s" using c by (auto simp: create_record_def fresh_id_def Let_def split: sum.splits)
    then show ?thesis using Cons c Inl by (auto split: if_splits)
  next
    case (Inr x)
    have b: "builds fl un s s1" by (rule create_record_ok [OF Cons.prems(1) c [unfolded Inr]])
    then show ?thesis
      using Cons.IH [OF builds_inv [OF b]] Cons.prems(2) c Inr builds_trans [OF b] by simp
  qed
qed (auto intro: builds_refl)

lemma record_fill_ok:
  assumes inv: "business_inv fl un s" and ok: "handle_record_ai_fill fl un now p answer s = (Inr u, s')"
  shows "builds fl un s s'"
proof -
  have "s' = s \<or> (\<exists>w k ds. create_records fl un now w k ds s = (Inr u, s'))"
    using ok by (auto simp: handle_record_ai_fill_def split: sum.splits option.splits if_splits)
  then show ?thesis using builds_refl [OF inv] create_records_ok [OF inv] by blast
qed

lemma create_document_frame:
  "fresh s \<le> fresh (snd (create_document now w u k t secs f key ai s))
   \<and> canvases (snd (create_document now w u k t secs f key ai s)) = canvases s
   \<and> suggestions (snd (create_document now w u k t secs f key ai s)) = suggestions s
   \<and> business_records (snd (create_document now w u k t secs f key ai s)) = business_records s
   \<and> positioning_maps (snd (create_document now w u k t secs f key ai s)) = positioning_maps s
   \<and> business_plans (snd (create_document now w u k t secs f key ai s)) = business_plans s"
proof -
  obtain n where n: "fresh s \<le> n" "validate_sections secs s = (fst (validate_sections secs s), s\<lparr>fresh := n\<rparr>)"
    by (rule validate_sections_cases)
  show ?thesis
  proof (cases "fst (validate_sections secs s)")
    case (Inl e)
    then have "validate_sections secs s = (Inl e, s\<lparr>fresh := n\<rparr>)" using n(2) by simp
    then show ?thesis using n(1) by (simp add: create_document_def)
  next
    case (Inr xs)
    then have v: "validate_sections secs s = (Inr xs, s\<lparr>fresh := n\<rparr>)" using n(2) by simp
    have "\<exists>e p d. snd (create_document now w u k t secs f key ai s)
        \<in> {publish now e p (s\<lparr>fresh := Suc n, documents := d\<rparr>), s\<lparr>fresh := Suc n\<rparr>}"
      by (simp add: create_document_def v fresh_id_def Let_def) blast
    then obtain e p d where "snd (create_document now w u k t secs f key ai s)
        \<in> {publish now e p (s\<lparr>fresh := Suc n, documents := d\<rparr>), s\<lparr>fresh := Suc n\<rparr>}" by (elim exE)
    then show ?thesis
      using n(1) publish_fresh [of "s\<lparr>fresh := Suc n, documents := d\<rparr>" now e p] by auto
  qed
qed

text \<open>A document is added.\<close>

lemma builds_document:
  assumes "business_inv fl un s" "fresh s \<le> fresh s'" "documents s' = documents s @ [d]" "fresh s \<le> d_id d" "d_id d < fresh s'"
    "canvases s' = canvases s" "suggestions s' = suggestions s" "business_records s' = business_records s"
    "positioning_maps s' = positioning_maps s" "business_plans s' = business_plans s"
  shows "builds fl un s s'"
proof -
  have "plans_linked (fresh s') (documents s') (business_plans s')"
    using plans_linked_mono [OF invD(11) [OF assms(1)] assms(2)] assms(3,5,10) by (auto simp: plans_linked_def)
  moreover have "plans_follow (fresh s) (documents s) (business_plans s) (documents s') (business_plans s')"
    using assms(3,4,10) by (auto simp: plans_follow_def linked_def split: option.split)
  ultimately show ?thesis
    using assms by (auto simp: builds_def business_inv_def moves_refl intro: keyed_mono)
qed

lemma finish_plan_ok:
  assumes inv: "business_inv fl un s" and plan: "plan \<in> set (business_plans s)" "bp_status plan = PS_generating"
    and d: "d \<in> set (documents s)"
  shows "builds fl un s (finish_plan now plan d s)"
proof -
  let ?t = "update_where (\<lambda>x. bp_id x = bp_id plan) (plan_complete (d_id d)) (business_plans s)"
  have "keyed (fresh s) bp_id ?t"
    by (rule keyed_put [OF invD(5) [OF inv]]) (simp add: plan_complete_def)
  moreover have "\<forall>x \<in> set ?t. plan_ok x"
    using invD(10) [OF inv] by (auto simp: set_update_where plan_ok_def plan_complete_def)
  moreover have "plans_linked (fresh s) (documents s) ?t"
    using invD(11) [OF inv] d by (auto simp: plans_linked_def set_update_where plan_complete_def)
  ultimately have "business_inv fl un (s\<lparr>business_plans := ?t\<rparr>)"
    using inv by (simp add: business_inv_def)
  moreover have "plans_follow (fresh s) (documents s) (business_plans s) (documents s) ?t"
  proof -
    have "p \<in> set ?t" if "p \<in> set (business_plans s)" "bp_status p = PS_complete" for p
    proof -
      have "bp_id p \<noteq> bp_id plan"
        using keyed_unique [OF invD(5) [OF inv] that(1) plan(1)] that(2) plan(2) by auto
      then show ?thesis using that(1) by (auto simp: set_update_where)
    qed
    then show ?thesis by (auto simp: plans_follow_def linked_def split: option.split)
  qed
  ultimately have "builds fl un s (s\<lparr>business_plans := ?t\<rparr>)"
    by (simp add: builds_def moves_refl)
  then show ?thesis unfolding finish_plan_def by (rule builds_publish)
qed

lemma plan_generate_cases:
  assumes "handle_plan_generate now p llm s = (Inr u, s')"
  obtains (nothing) "s' = s"
  | (written) st plan secs d s1 where "startup_by_id s (bp_startup_id plan) = Some st" "write_sections llm = Inr secs"
      "create_document now (st_id st) (bp_created_by_id plan) DK_business_plan (plan_title st) secs None None True s = (Inr d, s1)"
      "s' = finish_plan now plan d s1" "plan \<in> set (business_plans s)" "bp_status plan = PS_generating"
proof -
  consider "s' = s" | v plan st secs r s1 where "find (\<lambda>x. JUid (bp_id x) = v) (business_plans s) = Some plan"
      "bp_status plan = PS_generating"
      "startup_by_id s (bp_startup_id plan) = Some st" "write_sections llm = Inr secs"
      "create_document now (st_id st) (bp_created_by_id plan) DK_business_plan (plan_title st) secs None None True s = (r, s1)"
      "(case r of Inl e \<Rightarrow> (Inl e, s1) | Inr doc \<Rightarrow> (Inr (), finish_plan now plan doc s1)) = (Inr u, s')"
    using assms unfolding handle_plan_generate_def
    by (simp split: sum.splits option.splits if_splits prod.splits)
  then show thesis
  proof cases
    case (2 v plan st secs r s1)
    show thesis
    proof (cases r)
      case (Inr d)
      then show thesis
        using 2 by (intro written [OF 2(3,4) 2(5) [unfolded Inr]]) (auto dest: find_SomeD)
    qed (use 2(6) in simp)
  qed (rule nothing)
qed

lemma plan_generate_ok:
  assumes inv: "business_inv fl un s" and ok: "handle_plan_generate now p llm s = (Inr u, s')"
  shows "builds fl un s s'"
  using ok
proof (cases rule: plan_generate_cases)
  case nothing
  then show ?thesis using builds_refl [OF inv] by simp
next
  case (written st plan secs d s1)
  note shape = create_document_shape [OF written(3)] and frame = create_document_frame [of s now "st_id st"
      "bp_created_by_id plan" DK_business_plan "plan_title st" secs None None True, unfolded written(3) snd_conv]
  have docs: "fresh s \<le> fresh s1" "documents s1 = documents s @ [d]" "fresh s \<le> d_id d" "d_id d < fresh s1"
    using shape by simp_all
  have b: "builds fl un s s1"
    by (rule builds_document [OF inv docs]) (use frame in simp_all)
  show ?thesis unfolding written(4)
    by (rule builds_trans [OF b finish_plan_ok [OF builds_inv [OF b]]]) (use written(5,6) frame docs in simp_all)
qed

end
