(* ===== verification/Business_Facts.thy ===== *)
theory Business_Facts
  imports Business_Histories
begin

text \<open>
  The histories of the business builder and what holds along them.
\<close>

section \<open>Requests\<close>

lemma save_ok_builds:
  assumes inv: "business_inv fl un s" and g: "get_or_create_canvas w ty s = (c, s1)"
    and sv: "save_canvas now c b v s1 = (Inr c', s')"
  shows "builds fl un s s'"
proof -
  note ok = get_or_create_ok [OF inv g]
  have "builds fl un s1 s'" by (rule save_canvas_ok [OF builds_inv [OF ok(1)] ok(2) sv])
  then show ?thesis by (rule builds_trans [OF ok(1)])
qed

lemma get_canvas_builds:
  "business_inv fl un s \<Longrightarrow> get_canvas_endpoint ty m s = (Inr v, s') \<Longrightarrow> builds fl un s s'"
  by (auto simp: get_canvas_endpoint_def Let_def split: sum.splits prod.splits dest: get_or_create_ok(1))

lemma put_canvas_builds:
  "business_inv fl un s \<Longrightarrow> put_canvas_endpoint now ty b v m s = (Inr r, s') \<Longrightarrow> builds fl un s s'"
  by (auto simp: put_canvas_endpoint_def Let_def split: sum.splits prod.splits dest: save_ok_builds)

lemma enqueue_builds_pair: "business_inv fl un s \<Longrightarrow> enqueue now ty p st s = (j, s') \<Longrightarrow> builds fl un s s'"
  using enqueue_builds [of fl un s now ty p st] by simp

lemma ai_fill_builds:
  "business_inv fl un s \<Longrightarrow> ai_fill_canvas_endpoint now ty m s = (Inr v, s') \<Longrightarrow> builds fl un s s'"
  "business_inv fl un s \<Longrightarrow> ai_fill_kind_endpoint now k m s = (Inr v, s') \<Longrightarrow> builds fl un s s'"
  by (auto simp: ai_fill_canvas_endpoint_def ai_fill_kind_endpoint_def Let_def split: sum.splits prod.splits
      dest: enqueue_builds_pair)

lemma create_kind_builds:
  "business_inv fl un s \<Longrightarrow> create_kind_endpoint fl un now k d m s = (Inr v, s') \<Longrightarrow> builds fl un s s'"
  by (auto simp: create_kind_endpoint_def split: sum.splits prod.splits dest: create_record_ok)

lemma update_kind_builds:
  "business_inv fl un s \<Longrightarrow> update_kind_endpoint fl un k i d m s = (Inr v, s') \<Longrightarrow> builds fl un s s'"
  by (auto simp: update_kind_endpoint_def split: sum.splits prod.splits dest: update_record_ok)

lemma delete_kind_builds:
  "business_inv fl un s \<Longrightarrow> delete_kind_endpoint k i m s = (Inr v, s') \<Longrightarrow> builds fl un s s'"
  by (auto simp: delete_kind_endpoint_def split: sum.splits intro: delete_record_ok)

lemma map_builds:
  assumes inv: "business_inv fl un s"
  shows "get_positioning_map_endpoint m s = (Inr v, s') \<Longrightarrow> builds fl un s s'"
    "put_positioning_map_endpoint axes m s = (Inr v', s') \<Longrightarrow> builds fl un s s'"
proof -
  obtain p s1 where g: "get_or_create_map (m_startup_id m) s = (p, s1)" by (cases "get_or_create_map (m_startup_id m) s")
  note ok = get_map_ok [OF inv g]
  show "builds fl un s s'" if "get_positioning_map_endpoint m s = (Inr v, s')"
    using that ok g by (simp add: get_positioning_map_endpoint_def assemble_map_def)
  show "builds fl un s s'" if "put_positioning_map_endpoint axes m s = (Inr v', s')"
    using that g builds_trans [OF ok(1) update_axes_ok [OF builds_inv [OF ok(1)] ok(2)]]
    by (auto simp: put_positioning_map_endpoint_def split: sum.splits prod.splits)
qed

lemma plan_builds: "business_inv fl un s \<Longrightarrow> generate_plan_endpoint now u m s = (Inr v, s') \<Longrightarrow> builds fl un s s'"
  using generate_plan_ok [of fl un s now u m] by simp

lemma approve_builds: "business_inv fl un s \<Longrightarrow> approve_suggestion fl un now m i s = (Inr y, s') \<Longrightarrow> builds fl un s s'"
  by (erule (1) approve_ok)

text \<open>The three handlers that answer after their commit.\<close>

lemma answered_builds:
  assumes "business_inv fl un s" "\<And>v s'. f s = (Inr v, s') \<Longrightarrow> builds fl un s s'"
  shows "builds fl un s (snd (case run_tx f s of (Inl e, s1) \<Rightarrow> (Inl e, s1) | (Inr x, s1) \<Rightarrow> (g s1 x, s1)))"
proof -
  have "builds fl un s (snd (run_tx f s))" by (rule run_tx_builds [OF assms])
  then show ?thesis by (cases "run_tx f s"; cases "fst (run_tx f s)") simp_all
qed

lemma business_body_builds:
  assumes "business_inv fl un s"
  shows "builds fl un s (snd (business_body fl un now r u m s))"
  by (cases r) (simp_all add: create_suggestion_endpoint_def approve_suggestion_endpoint_def reject_suggestion_endpoint_def,
      (rule answered_builds [OF assms] run_tx_builds [OF assms],
       erule get_canvas_builds [OF assms] put_canvas_builds [OF assms] ai_fill_builds [OF assms]
         create_suggestion_ok [OF assms] approve_builds [OF assms] reject_ok [OF assms] map_builds [OF assms]
         plan_builds [OF assms] create_kind_builds [OF assms] update_kind_builds [OF assms]
         delete_kind_builds [OF assms])+)

lemma serve_business_builds:
  assumes "business_inv fl un s"
  shows "builds fl un s (snd (serve_business fl un decode q s))"
  unfolding serve_business_def
  by (cases rule: member_request_caller [of decode "bq_credential q" "bq_workspace q" "business_roles (bq_request q)"
        "business_body fl un (bq_now q) (bq_request q)" s])
    (simp_all add: business_body_builds [OF assms] builds_refl [OF assms])

section \<open>Steps\<close>

text \<open>
  A request; the two parts of a canvas job, between which other steps may come; the record and plan jobs;
  the deletion of a document, which clears it from the plan that names it; and \<open>elsewhere\<close>, the rest of the
  application, which writes none of these tables and, of the documents, deletes none and gives new ones new
  ids. A job that raises is rolled back.
\<close>

inductive business_step ::
    "(json \<Rightarrow> json option) \<Rightarrow> (json \<Rightarrow> bool) \<Rightarrow> (string \<Rightarrow> json option) \<Rightarrow> 'a business_db_scheme
     \<Rightarrow> 'a business_db_scheme \<Rightarrow> bool"
  for fl :: "json \<Rightarrow> json option" and un :: "json \<Rightarrow> bool" and decode :: "string \<Rightarrow> json option" where
  request: "business_step fl un decode s (snd (serve_business fl un decode q s))"
| fill_begin: "business_step fl un decode s (snd (run_tx (canvas_fill_begin p) s))"
| fill_end: "c \<in> set (canvases s) \<Longrightarrow> cv_id c = i \<Longrightarrow> cv_type c = ty
    \<Longrightarrow> business_step fl un decode s (snd (run_tx (canvas_fill_end ty i answer) s))"
| record_fill: "business_step fl un decode s (snd (run_tx (handle_record_ai_fill fl un now p answer) s))"
| plan_job: "business_step fl un decode s (snd (run_tx (handle_plan_generate now p llm) s))"
| document_deleted: "get_document s m i = Inr doc \<Longrightarrow> business_step fl un decode s (delete_plan_document doc s)"
| elsewhere: "fresh s \<le> fresh s' \<Longrightarrow> canvases s' = canvases s \<Longrightarrow> suggestions s' = suggestions s
    \<Longrightarrow> business_records s' = business_records s \<Longrightarrow> positioning_maps s' = positioning_maps s
    \<Longrightarrow> business_plans s' = business_plans s \<Longrightarrow> d_id ` set (documents s) \<subseteq> d_id ` set (documents s')
    \<Longrightarrow> \<forall>d \<in> d_id ` set (documents s') - d_id ` set (documents s). fresh s \<le> d \<and> d < fresh s'
    \<Longrightarrow> business_step fl un decode s s'"

lemma plans_linked_elsewhere:
  assumes "plans_linked n ds ps" "n \<le> m" "d_id ` set ds \<subseteq> d_id ` set ds'"
    "\<forall>d \<in> d_id ` set ds' - d_id ` set ds. n \<le> d \<and> d < m"
  shows "plans_linked m ds' ps \<and> plans_follow n ds ps ds' ps"
proof -
  have "d < m" if "d \<in> d_id ` set ds'" for d
    using assms that by (cases "d \<in> d_id ` set ds") (auto simp: plans_linked_def ids_below_def)
  then have "plans_linked m ds' ps" using assms(1,3) by (auto simp: plans_linked_def ids_below_def)
  moreover have "plans_follow n ds ps ds' ps"
  proof -
    have "\<forall>d \<in> d_id ` set ds'. d < n \<longrightarrow> d \<in> d_id ` set ds" using assms(4) by (meson DiffI not_less)
    moreover have "linked ds' x = x" if "\<forall>d. x = Some d \<longrightarrow> d \<in> d_id ` set ds \<and> d < n" for x
      using that assms(3) unfolding linked_def by (cases x) (simp_all, blast)
    ultimately show ?thesis unfolding plans_follow_def by auto
  qed
  ultimately show ?thesis by blast
qed

lemma delete_plan_document_builds:
  assumes inv: "business_inv fl un s"
  shows "builds fl un s (delete_plan_document doc s)"
proof -
  let ?ds = "delete_where (\<lambda>d. d_id d = d_id doc) (documents s)" and ?ps = "map (set_null (d_id doc)) (business_plans s)"
  have ids: "d_id ` set ?ds = d_id ` set (documents s) - {d_id doc}" by (auto simp: delete_where_def)
  have "plan_ok p \<Longrightarrow> plan_ok (set_null i p)" for i p by (auto simp: plan_ok_def set_null_def)
  then have ok: "\<forall>p \<in> set ?ps. plan_ok p" using invD(10) [OF inv] by auto
  have "ids_below (fresh s) (map d_id ?ds)"
    using invD(11) [OF inv] by (auto simp: plans_linked_def ids_below_def delete_where_def)
  moreover have "\<forall>p \<in> set ?ps. \<forall>d. bp_document_id p = Some d \<longrightarrow> d \<in> d_id ` set ?ds"
    using invD(11) [OF inv] unfolding ids by (auto simp: plans_linked_def set_null_def split: if_splits)
  ultimately have linked: "plans_linked (fresh s) ?ds ?ps" by (simp only: plans_linked_def)
  have "\<exists>p' \<in> set ?ps. bp_id p' = bp_id p \<and> bp_status p' = PS_complete \<and> bp_document_id p' = linked ?ds (bp_document_id p)"
    if "p \<in> set (business_plans s)" "bp_status p = PS_complete" for p
  proof (rule bexI [of _ "set_null (d_id doc) p"])
    have "d \<in> d_id ` set (documents s)" if "bp_document_id p = Some d" for d
      using invD(11) [OF inv] \<open>p \<in> set (business_plans s)\<close> that by (auto simp: plans_linked_def)
    then have "bp_document_id (set_null (d_id doc) p) = linked ?ds (bp_document_id p)"
      unfolding linked_def ids by (auto simp: set_null_def split: option.split)
    then show "bp_id (set_null (d_id doc) p) = bp_id p \<and> bp_status (set_null (d_id doc) p) = PS_complete
        \<and> bp_document_id (set_null (d_id doc) p) = linked ?ds (bp_document_id p)" using that(2) by (simp add: set_null_def)
  qed (use that in simp)
  then have "plans_follow (fresh s) (documents s) (business_plans s) ?ds ?ps"
    unfolding plans_follow_def ids by blast
  moreover have "keyed (fresh s) bp_id ?ps" using invD(5) [OF inv] by (simp add: keyed_def comp_def set_null_def if_distrib cong: if_cong)
  ultimately show ?thesis
    using inv ok linked by (simp add: builds_def business_inv_def delete_plan_document_def delete_document_def moves_refl)
qed

lemma business_step_builds:
  assumes step: "business_step fl un decode s s'" and inv: "business_inv fl un s"
  shows "builds fl un s s'"
  using step
proof (cases rule: business_step.cases)
  case (request q)
  then show ?thesis by (simp add: serve_business_builds [OF inv])
next
  case (fill_begin p)
  show ?thesis unfolding fill_begin by (rule run_tx_builds [OF inv fill_begin_ok [OF inv]])
next
  case (fill_end c i ty answer)
  show ?thesis unfolding fill_end(1)
    by (rule run_tx_builds [OF inv]) (rule fill_end_ok [OF inv _ fill_end(2-4)])
next
  case (record_fill now p answer)
  show ?thesis unfolding record_fill by (rule run_tx_builds [OF inv record_fill_ok [OF inv]])
next
  case (plan_job now p llm)
  show ?thesis unfolding plan_job by (rule run_tx_builds [OF inv plan_generate_ok [OF inv]])
next
  case (document_deleted m i doc)
  then show ?thesis by (simp add: delete_plan_document_builds [OF inv])
next
  case elsewhere
  then show ?thesis
    using inv plans_linked_elsewhere [OF invD(11) [OF inv] elsewhere(1) elsewhere(7,8)]
      keyed_mono [OF invD(1) [OF inv] elsewhere(1)] keyed_mono [OF invD(2) [OF inv] elsewhere(1)]
      keyed_mono [OF invD(3) [OF inv] elsewhere(1)] keyed_mono [OF invD(4) [OF inv] elsewhere(1)]
      keyed_mono [OF invD(5) [OF inv] elsewhere(1)]
    by (simp add: builds_def business_inv_def moves_refl)
qed

definition no_business :: "'a business_db_scheme \<Rightarrow> bool" where
  "no_business s \<longleftrightarrow> canvases s = [] \<and> suggestions s = [] \<and> business_records s = [] \<and> positioning_maps s = []
     \<and> business_plans s = [] \<and> ids_below (fresh s) (map d_id (documents s))"

definition business_reachable ::
    "(json \<Rightarrow> json option) \<Rightarrow> (json \<Rightarrow> bool) \<Rightarrow> (string \<Rightarrow> json option) \<Rightarrow> 'a business_db_scheme \<Rightarrow> bool" where
  "business_reachable fl un decode s \<longleftrightarrow> (\<exists>s0. no_business s0 \<and> (business_step fl un decode)\<^sup>*\<^sup>* s0 s)"

lemma business_steps_builds:
  "(business_step fl un decode)\<^sup>*\<^sup>* s s' \<Longrightarrow> business_inv fl un s \<Longrightarrow> builds fl un s s'"
proof (induction rule: rtranclp_induct)
  case base
  then show ?case by (rule builds_refl)
next
  case (step y z)
  then show ?case using business_step_builds builds_inv builds_trans by blast
qed

lemma business_reachable_inv: "business_reachable fl un decode s \<Longrightarrow> business_inv fl un s"
proof -
  assume "business_reachable fl un decode s"
  then obtain s0 where s0: "no_business s0" "(business_step fl un decode)\<^sup>*\<^sup>* s0 s" by (auto simp: business_reachable_def)
  have "business_inv fl un s0" using s0(1) by (simp add: no_business_def business_inv_def keyed_def plans_linked_def)
  then show ?thesis using business_steps_builds [OF s0(2)] builds_inv by blast
qed

lemma business_reachable_steps:
  "business_reachable fl un decode s \<Longrightarrow> (business_step fl un decode)\<^sup>*\<^sup>* s s' \<Longrightarrow> business_reachable fl un decode s'"
  unfolding business_reachable_def by (meson rtranclp_trans)

section \<open>What moves forward\<close>

interpretation drafts: monotone_rows "\<lambda>s. row_value cv_id canvas_value (canvases s)" draft_le "\<lambda>s k. k < fresh s"
    "business_inv fl un" "business_step fl un decode" for fl un decode
proof
  fix s s' :: "'a business_db_scheme" and k v v'
  assume inv: "business_inv fl un s"
  have below: "row_value cv_id canvas_value (canvases s) k = Some v \<Longrightarrow> k < fresh s" for v
    using invD(1) [OF inv] by (auto simp: keyed_def row_value_def ids_below_def dest: find_SomeD)
  then show "row_value cv_id canvas_value (canvases s) k = Some v \<Longrightarrow> k < fresh s" by blast
  assume step: "business_step fl un decode s s'"
  note b = business_step_builds [OF step inv]
  then have m: "moves cv_id canvas_value draft_le (fresh s) (canvases s) (canvases s')" by (simp add: builds_def)
  show "business_inv fl un s'" by (rule builds_inv [OF b])
  show "k < fresh s \<Longrightarrow> k < fresh s'" using b by (simp add: builds_def)
  show "draft_le v v'" if "row_value cv_id canvas_value (canvases s) k = Some v"
    "row_value cv_id canvas_value (canvases s') k = Some v'"
    by (rule movesD(1) [OF m below [OF that(1)] that])
  show "row_value cv_id canvas_value (canvases s') k = None"
    if "k < fresh s" "row_value cv_id canvas_value (canvases s) k = None"
    by (rule movesD(2) [OF m that])
qed (simp, rule draft_le_trans)

interpretation resolutions: monotone_rows "\<lambda>s. row_value bs_id id (suggestions s)" suggestion_le "\<lambda>s k. k < fresh s"
    "business_inv fl un" "business_step fl un decode" for fl un decode
proof
  fix s s' :: "'a business_db_scheme" and k v v'
  assume inv: "business_inv fl un s"
  have below: "row_value bs_id id (suggestions s) k = Some v \<Longrightarrow> k < fresh s" for v
    using invD(2) [OF inv] by (auto simp: keyed_def row_value_def ids_below_def dest: find_SomeD)
  then show "row_value bs_id id (suggestions s) k = Some v \<Longrightarrow> k < fresh s" by blast
  assume step: "business_step fl un decode s s'"
  note b = business_step_builds [OF step inv]
  then have m: "moves bs_id id suggestion_le (fresh s) (suggestions s) (suggestions s')" by (simp add: builds_def)
  show "business_inv fl un s'" by (rule builds_inv [OF b])
  show "k < fresh s \<Longrightarrow> k < fresh s'" using b by (simp add: builds_def)
  show "suggestion_le v v'" if "row_value bs_id id (suggestions s) k = Some v"
    "row_value bs_id id (suggestions s') k = Some v'"
    by (rule movesD(1) [OF m below [OF that(1)] that])
  show "row_value bs_id id (suggestions s') k = None"
    if "k < fresh s" "row_value bs_id id (suggestions s) k = None"
    by (rule movesD(2) [OF m that])
qed (simp, rule suggestion_le_trans)

lemma canvas_row: "business_inv fl un s \<Longrightarrow> c \<in> set (canvases s) \<Longrightarrow> row_value cv_id canvas_value (canvases s) (cv_id c) = Some (canvas_value c)"
  using find_key_unique [of cv_id "canvases s" c] invD(1) [of fl un s] by (simp add: row_value_def keyed_def)

lemma suggestion_row: "business_inv fl un s \<Longrightarrow> x \<in> set (suggestions s) \<Longrightarrow> row_value bs_id id (suggestions s) (bs_id x) = Some x"
  using find_key_unique [of bs_id "suggestions s" x] invD(2) [of fl un s] by (simp add: row_value_def keyed_def)

text \<open>
  The properties of the business builder: its tables along every history, suggestions from their filing to
  their resolution, and what the jobs of the worker write.
\<close>

section \<open>The tables\<close>

lemma blocks_ok_valid:
  assumes "blocks_ok ty blocks"
  shows "\<exists>kvs. validate_blocks ty (JObj blocks) = Inr kvs"
proof -
  have "\<exists>kind. map_of (block_kinds ty) k = Some kind \<and> fits_kind kind w" if kw: "(k, w) \<in> set blocks" for k w
  proof -
    obtain i where i: "i < length blocks" "blocks ! i = (k, w)" using kw by (auto simp: in_set_conv_nth)
    have keys: "map fst blocks = map bd_key (canvas_blocks ty)" using assms by (simp add: blocks_ok_def)
    note len = map_eq_imp_length_eq [OF keys]
    let ?b = "canvas_blocks ty ! i"
    have "map fst blocks ! i = bd_key ?b" unfolding keys using i(1) len by simp
    then have "k = bd_key ?b" using i by simp
    moreover have "fits_kind (bd_kind ?b) w" using assms i len by (auto simp: blocks_ok_def list_all2_conv_all_nth)
    ultimately show ?thesis using map_of_block_kinds [of ?b ty] i(1) len by simp
  qed
  then show ?thesis by (auto simp: validate_blocks_ok_iff)
qed

text \<open>
  C30: along every history each workspace has at most one canvas of a type, holding exactly the blocks of
  its type with texts or lists of texts; a suggestion is pending exactly while nobody has resolved it; there
  is one positioning map per workspace. A plan is generating, without a document, or complete; a plan that the
  job completes gets a document of its own; from then on it stays complete, and it names that document as long
  as the document exists, and none once it has been deleted. From any moment to a later one, a canvas that
  shows the same version shows the same content.
\<close>

theorem business_histories:
  assumes "business_reachable fl un decode s" "(business_step fl un decode)\<^sup>*\<^sup>* s s'"
  shows "distinct (map (\<lambda>c. (cv_startup_id c, cv_type c)) (canvases s))
    \<and> (\<forall>c \<in> set (canvases s). 1 \<le> cv_version c \<and> map fst (cv_blocks c) = map bd_key (canvas_blocks (cv_type c))
        \<and> (\<exists>kvs. validate_blocks (cv_type c) (JObj (cv_blocks c)) = Inr kvs))
    \<and> (\<forall>x \<in> set (suggestions s). bs_status x = SuS_pending \<longleftrightarrow> bs_resolved_by_id x = None)
    \<and> (\<forall>p \<in> set (business_plans s). bp_status p \<in> {PS_generating, PS_complete}
        \<and> (bp_status p = PS_generating \<longrightarrow> bp_document_id p = None)
        \<and> (\<forall>d. bp_document_id p = Some d \<longrightarrow> (\<exists>x \<in> set (documents s). d_id x = d)))
    \<and> (\<forall>now q llm u t. handle_plan_generate now q llm s = (Inr u, t) \<longrightarrow>
        (\<forall>p \<in> set (business_plans s). \<forall>p' \<in> set (business_plans t).
           bp_id p' = bp_id p \<and> bp_status p = PS_generating \<and> bp_status p' = PS_complete \<longrightarrow>
           (\<exists>x \<in> set (documents t). bp_document_id p' = Some (d_id x) \<and> fresh s \<le> d_id x)))
    \<and> (\<forall>p \<in> set (business_plans s). bp_status p = PS_complete \<longrightarrow>
        (\<exists>p' \<in> set (business_plans s'). bp_id p' = bp_id p \<and> bp_status p' = PS_complete
           \<and> bp_document_id p' = (case bp_document_id p of None \<Rightarrow> None
               | Some d \<Rightarrow> if \<exists>x \<in> set (documents s'). d_id x = d then Some d else None)))
    \<and> distinct (map pm_startup_id (positioning_maps s))
    \<and> (\<forall>c \<in> set (canvases s). \<forall>c' \<in> set (canvases s'). cv_id c' = cv_id c \<longrightarrow>
        cv_version c \<le> cv_version c' \<and> (cv_version c' = cv_version c \<longrightarrow> c' = c))"
proof -
  note inv = business_reachable_inv [OF assms(1)]
  note inv' = business_reachable_inv [OF business_reachable_steps [OF assms]]
  have valid: "\<exists>kvs. validate_blocks (cv_type c) (JObj (cv_blocks c)) = Inr kvs" if "c \<in> set (canvases s)" for c
    by (rule blocks_ok_valid) (use invD(6) [OF inv that] in \<open>simp add: canvas_ok_def\<close>)
  have moved: "cv_version c \<le> cv_version c' \<and> (cv_version c' = cv_version c \<longrightarrow> c' = c)"
    if "c \<in> set (canvases s)" "c' \<in> set (canvases s')" "cv_id c' = cv_id c" for c c'
  proof -
    have "row_value cv_id canvas_value (canvases s') (cv_id c) = Some (canvas_value c')"
      using canvas_row [OF inv' that(2)] that(3) by simp
    from drafts.view_steps [OF assms(2) inv canvas_row [OF inv that(1)] this] show ?thesis
      using that(3) by (auto simp: draft_le_def version_le_def canvas_value_def)
  qed
  have plans: "bp_status p \<in> {PS_generating, PS_complete} \<and> (bp_status p = PS_generating \<longrightarrow> bp_document_id p = None)
      \<and> (\<forall>d. bp_document_id p = Some d \<longrightarrow> (\<exists>x \<in> set (documents s). d_id x = d))"
    if "p \<in> set (business_plans s)" for p
    using invD(10) [OF inv that] invD(11) [OF inv] that by (auto simp: plan_ok_def plans_linked_def image_iff)
  have job: "\<exists>x \<in> set (documents t). bp_document_id p' = Some (d_id x) \<and> fresh s \<le> d_id x"
    if "handle_plan_generate now q llm s = (Inr u, t)" "p \<in> set (business_plans s)" "p' \<in> set (business_plans t)"
      "bp_id p' = bp_id p \<and> bp_status p = PS_generating \<and> bp_status p' = PS_complete" for now q llm u t p p'
    using that(1)
  proof (cases rule: plan_generate_cases)
    case nothing
    then show ?thesis using keyed_unique [OF invD(5) [OF inv] that(2), of p'] that(3,4) by auto
  next
    case (written st plan secs d s1)
    have s1: "business_plans s1 = business_plans s" "documents s1 = documents s @ [d]" "fresh s \<le> d_id d"
      using create_document_frame [of s now "st_id st" "bp_created_by_id plan" DK_business_plan "plan_title st" secs None None True,
          unfolded written(3)] create_document_shape [OF written(3)] by simp_all
    have p': "p' \<in> set (update_where (\<lambda>x. bp_id x = bp_id plan) (plan_complete (d_id d)) (business_plans s))"
      using that(3) by (simp add: written(4) finish_plan_def s1)
    have "p' \<notin> set (business_plans s)" using keyed_unique [OF invD(5) [OF inv] that(2), of p'] that(4) by auto
    then have "bp_document_id p' = Some (d_id d)" using p' by (auto simp: set_update_where plan_complete_def)
    then show ?thesis using s1 by (simp add: written(4) finish_plan_def)
  qed
  have later: "\<exists>p' \<in> set (business_plans s'). bp_id p' = bp_id p \<and> bp_status p' = PS_complete
      \<and> bp_document_id p' = (case bp_document_id p of None \<Rightarrow> None
          | Some d \<Rightarrow> if \<exists>x \<in> set (documents s'). d_id x = d then Some d else None)"
    if "p \<in> set (business_plans s)" "bp_status p = PS_complete" for p
  proof -
    have "\<forall>d. bp_document_id p = Some d \<longrightarrow> d \<in> d_id ` set (documents s) \<and> d < fresh s"
      using invD(11) [OF inv] that(1) by (auto simp: plans_linked_def ids_below_def)
    moreover have "plans_follow (fresh s) (documents s) (business_plans s) (documents s') (business_plans s')"
      using business_steps_builds [OF assms(2) inv] by (simp add: builds_def)
    ultimately have "\<exists>p' \<in> set (business_plans s'). bp_id p' = bp_id p \<and> bp_status p' = PS_complete
        \<and> bp_document_id p' = linked (documents s') (bp_document_id p)"
      using that unfolding plans_follow_def by blast
    moreover have "linked ds x = (case x of None \<Rightarrow> None | Some d \<Rightarrow> if \<exists>y \<in> set ds. d_id y = d then Some d else None)" for ds x
      by (auto simp: linked_def split: option.split)
    ultimately show ?thesis by simp
  qed
  have open_rows: "bs_status x = SuS_pending \<longleftrightarrow> bs_resolved_by_id x = None" if "x \<in> set (suggestions s)" for x
    using invD(7) [OF inv that] by (simp add: suggestion_ok_def)
  have canvas: "1 \<le> cv_version c \<and> map fst (cv_blocks c) = map bd_key (canvas_blocks (cv_type c))"
    if "c \<in> set (canvases s)" for c
    using invD(6) [OF inv that] by (simp add: canvas_ok_def blocks_ok_def)
  have rows: "\<forall>c \<in> set (canvases s). 1 \<le> cv_version c \<and> map fst (cv_blocks c) = map bd_key (canvas_blocks (cv_type c))
      \<and> (\<exists>kvs. validate_blocks (cv_type c) (JObj (cv_blocks c)) = Inr kvs)" using canvas valid by blast
  have jobs: "\<forall>now q llm u t. handle_plan_generate now q llm s = (Inr u, t) \<longrightarrow>
        (\<forall>p \<in> set (business_plans s). \<forall>p' \<in> set (business_plans t).
           bp_id p' = bp_id p \<and> bp_status p = PS_generating \<and> bp_status p' = PS_complete \<longrightarrow>
           (\<exists>x \<in> set (documents t). bp_document_id p' = Some (d_id x) \<and> fresh s \<le> d_id x))"
    by (intro allI impI ballI) (rule job)
  have lives: "\<forall>p \<in> set (business_plans s). bp_status p = PS_complete \<longrightarrow>
        (\<exists>p' \<in> set (business_plans s'). bp_id p' = bp_id p \<and> bp_status p' = PS_complete
           \<and> bp_document_id p' = (case bp_document_id p of None \<Rightarrow> None
               | Some d \<Rightarrow> if \<exists>x \<in> set (documents s'). d_id x = d then Some d else None))"
    by (intro impI ballI) (rule later)
  have moves: "\<forall>c \<in> set (canvases s). \<forall>c' \<in> set (canvases s'). cv_id c' = cv_id c \<longrightarrow>
        cv_version c \<le> cv_version c' \<and> (cv_version c' = cv_version c \<longrightarrow> c' = c)"
    by (intro impI ballI) (rule moved)
  have opens: "\<forall>x \<in> set (suggestions s). bs_status x = SuS_pending \<longleftrightarrow> bs_resolved_by_id x = None" using open_rows by blast
  have all_plans: "\<forall>p \<in> set (business_plans s). bp_status p \<in> {PS_generating, PS_complete}
        \<and> (bp_status p = PS_generating \<longrightarrow> bp_document_id p = None)
        \<and> (\<forall>d. bp_document_id p = Some d \<longrightarrow> (\<exists>x \<in> set (documents s). d_id x = d))" using plans by blast
  show ?thesis
    by (intro conjI invD(8,9) [OF inv] rows opens all_plans jobs lives moves)
qed

section \<open>Suggestions\<close>

lemma suggestion_filed:
  assumes inv: "business_inv fl un s" and ok: "create_suggestion fl un t a SO_canvas_update target payload n s = (Inr x, s')"
  obtains ty kvs c where "validate_blocks ty (payload_part payload ''blocks'') = Inr kvs" "c \<in> set (canvases s')"
    "cv_startup_id c = m_startup_id a" "cv_type c = ty" "x \<in> set (suggestions s')" "bs_status x = SuS_pending"
    "bs_startup_id x = m_startup_id a" "bs_op x = SO_canvas_update"
    "bs_target x = [(''canvas_type'', JStr (canvas_type_value ty))]" "bs_payload x = payload"
    "bs_base_version x = Some (cv_version c)"
proof -
  obtain r s1 where r: "check_canvas_update a target payload s = (r, s1)" by (cases "check_canvas_update a target payload s")
  have "\<exists>tg p v. r = Inr (tg, p, v)"
    using ok r by (cases r) (auto simp: create_suggestion_def check_suggestion_def split_paired_all)
  then obtain tg p v where c: "check_canvas_update a target payload s = (Inr (tg, p, v), s1)"
    using r by auto
  obtain ty kvs c where *: "validate_blocks ty (payload_part payload ''blocks'') = Inr kvs"
      "get_or_create_canvas (m_startup_id a) ty s = (c, s1)" "tg = [(''canvas_type'', JStr (canvas_type_value ty))]"
      "p = payload" "v = Some (cv_version c)"
    by (rule check_canvas_update_okE [OF c])
  note g = get_or_create_ok [OF inv *(2)]
  have x: "bs_status x = SuS_pending" "bs_startup_id x = m_startup_id a" "bs_op x = SO_canvas_update" "bs_target x = tg"
      "bs_payload x = p" "bs_base_version x = v" "x \<in> set (suggestions s')" "canvases s' = canvases s1"
    using ok c by (auto simp: create_suggestion_def check_suggestion_def fresh_id_def Let_def)
  show thesis
    by (rule that [OF *(1) _ g(3,4)]) (use x g(2) * in simp_all)
qed

text \<open>A resolved suggestion cannot be resolved again.\<close>

lemma resolved_refused:
  assumes inv: "business_inv fl un s" and x: "x \<in> set (suggestions s)" "bs_status x \<noteq> SuS_pending"
  shows "approve_suggestion_endpoint fl un now (bs_id x) m s \<in> {(Inl NotFound, s), (Inl SuggestionNotPending, s)}"
    "reject_suggestion_endpoint now (bs_id x) m s \<in> {(Inl NotFound, s), (Inl SuggestionNotPending, s)}"
proof -
  have "find_suggestion m (bs_id x) s \<in> {Inl NotFound, Inr x}"
  proof (cases "find (\<lambda>y. bs_id y = bs_id x \<and> bs_startup_id y = m_startup_id m) (suggestions s)")
    case (Some y)
    then have "y = x" using find_SomeD [OF Some] keyed_unique [OF invD(2) [OF inv] _ x(1)] by blast
    then show ?thesis using Some by (simp add: find_suggestion_def)
  qed (simp add: find_suggestion_def)
  then show "approve_suggestion_endpoint fl un now (bs_id x) m s \<in> {(Inl NotFound, s), (Inl SuggestionNotPending, s)}"
    "reject_suggestion_endpoint now (bs_id x) m s \<in> {(Inl NotFound, s), (Inl SuggestionNotPending, s)}"
    using x(2) by (auto simp: approve_suggestion_endpoint_def reject_suggestion_endpoint_def run_tx_def
        approve_suggestion_def reject_suggestion_def require_pending_def)
qed

text \<open>What an approved canvas suggestion did.\<close>

lemma approved_canvas:
  assumes inv: "business_inv fl un s" and ok: "approve_suggestion fl un now m (bs_id x) s = (Inr y, s')"
    and x: "x \<in> set (suggestions s)" "bs_op x = SO_canvas_update"
      "bs_target x = [(''canvas_type'', JStr (canvas_type_value ty))]"
      "validate_blocks ty (payload_part (bs_payload x) ''blocks'') = Inr kvs"
  obtains c s1 c' where "get_or_create_canvas (bs_startup_id x) ty s = (c, s1)" "bs_base_version x = Some (cv_version c)"
    "c' \<in> set (canvases s')" "cv_id c' = cv_id c" "cv_version c' = cv_version c + 1"
    "cv_blocks c' = obj_update (empty_blocks ty) kvs" "y = resolved_as now m SuS_approved x" "y \<in> set (suggestions s')"
    "builds fl un s s'"
proof -
  obtain x' s2 u where a: "find_suggestion m (bs_id x) s = Inr x'" "bs_status x' = SuS_pending"
      "apply_suggestion fl un now m x' s = (Inr u, s2)" "close_suggestion now m SuS_approved x' s2 = (y, s')" "builds fl un s s'"
    by (rule approve_ok [OF inv ok])
  have x': "x' = x" "bs_startup_id x = m_startup_id m"
    using find_suggestion_okD [OF a(1)] keyed_unique [OF invD(2) [OF inv] _ x(1)] by auto
  have "apply_canvas_update now m x s = (Inr u, s2)" using a(3) x(2) x' by (simp add: apply_suggestion_def)
  then obtain ty' c s1 v c' where ap: "stored_enum canvas_type_of (bs_target x) ''canvas_type'' = Inr ty'"
      "get_or_create_canvas (m_startup_id m) ty' s = (c, s1)" "bs_base_version x = Some v"
      "save_canvas now c (payload_part (bs_payload x) ''blocks'') v s1 = (Inr c', s2)"
    by (rule apply_canvas_ok [OF inv])
  have ty: "ty' = ty" using ap(1) x(3) by (simp add: stored_enum_def stored_key_def)
  note g = get_or_create_ok [OF inv ap(2)]
  obtain kvs' where sv: "validate_blocks (cv_type c) (payload_part (bs_payload x) ''blocks'') = Inr kvs'" "v = cv_version c"
      "c' = c\<lparr>cv_blocks := obj_update (empty_blocks (cv_type c)) kvs', cv_version := cv_version c + 1\<rparr>"
      "canvases s2 = update_where (\<lambda>x. cv_id x = cv_id c) (\<lambda>_. c') (canvases s1)" "suggestions s2 = suggestions s1"
    by (rule save_canvas_ok [OF builds_inv [OF g(1)] g(2) ap(4)]) blast
  have kvs: "kvs' = kvs" using sv(1) x(4) g(4) ty by simp
  have s': "canvases s' = canvases s2" "suggestions s' = update_where (\<lambda>y. bs_id y = bs_id x) (\<lambda>_. resolved_as now m SuS_approved x) (suggestions s2)"
      "y = resolved_as now m SuS_approved x"
    using a(4) x' by (auto simp: close_suggestion_def Let_def)
  have "suggestions s1 = suggestions s"
    using get_or_create_frame(1) [of "m_startup_id m" ty' s] unfolding ap(2) by simp
  then have "y \<in> set (suggestions s')" using s'(2,3) x(1) sv(5) by (auto simp: set_update_where image_iff)
  moreover have "c' \<in> set (canvases s')" using s'(1) sv(4) g(2) by (auto simp: set_update_where image_iff)
  ultimately show thesis
    using ap(2,3) ty x'(2) sv(2,3) kvs g(4) s'(3) a(5) by (intro that [of c s1 c']) simp_all
qed

lemma answered_ok:
  "(case run_tx f s of (Inl e, s1) \<Rightarrow> (Inl e, s1) | (Inr x, s1) \<Rightarrow> (g s1 x, s1)) = (Inr v, s')
   \<Longrightarrow> \<exists>x. f s = (Inr x, s') \<and> g s' x = Inr v"
  by (auto simp: run_tx_def split: prod.splits sum.splits)

lemma serialize_row: "serialize_suggestion s x = Inr v \<Longrightarrow> sv_row v = x"
  by (auto simp: serialize_suggestion_def Let_def split: sum.splits)

text \<open>The block of a saved canvas.\<close>

lemma saved_block:
  assumes "b \<in> set (canvas_blocks ty)" "distinct (map fst kvs)"
  shows "jget (obj_update (empty_blocks ty) kvs) (bd_key b)
    = (case map_of kvs (bd_key b) of None \<Rightarrow> empty_value b | Some j \<Rightarrow> j)"
proof -
  have "map_of (empty_blocks ty) (bd_key b) = Some (empty_value b)"
    unfolding empty_blocks_def by (rule map_of_is_SomeI) (use assms(1) in \<open>auto simp: comp_def\<close>)
  then show ?thesis
    by (simp add: jget_def obj_update_map [OF assms(2)] map_add_def split: option.split)
qed

text \<open>A canvas that shows the version it had is the canvas it was.\<close>

lemma canvas_unchanged:
  assumes steps: "(business_step fl un decode)\<^sup>*\<^sup>* s s'" and inv: "business_inv fl un s" and c: "c \<in> set (canvases s)"
    and g: "get_or_create_canvas (cv_startup_id c) (cv_type c) s' = (c', s'')" "cv_version c' = cv_version c"
  shows "c' = c \<and> c' \<in> set (canvases s')"
proof -
  note b = business_steps_builds [OF steps inv]
  note inv' = builds_inv [OF b]
  have "cv_id c \<in> cv_id ` set (canvases s')" using b c by (auto simp: builds_def)
  then obtain d where d: "d \<in> set (canvases s')" "cv_id d = cv_id c" by auto
  have le: "draft_le (canvas_value c) (canvas_value d)"
    using drafts.view_steps [OF steps inv canvas_row [OF inv c]] canvas_row [OF inv' d(1)] d(2) by simp
  then have "cv_startup_id d = cv_startup_id c \<and> cv_type d = cv_type c"
    by (simp add: draft_le_def canvas_value_def)
  then have "find (\<lambda>x. cv_startup_id x = cv_startup_id c \<and> cv_type x = cv_type c) (canvases s') = Some d"
    by (intro canvas_lookup [OF invD(8) [OF inv'] d(1)]) simp_all
  then have "c' = d" using g(1) by (simp add: get_or_create_canvas_def)
  then show ?thesis using le g(2) d by (auto simp: draft_le_def version_le_def canvas_value_def)
qed

lemma stays_resolved:
  assumes steps: "(business_step fl un decode)\<^sup>*\<^sup>* s s'" and inv: "business_inv fl un s"
    and x: "x \<in> set (suggestions s)" "bs_status x \<noteq> SuS_pending" "bs_id x = i"
  shows "approve_suggestion_endpoint fl un now i m s' \<in> {(Inl NotFound, s'), (Inl SuggestionNotPending, s')}
    \<and> reject_suggestion_endpoint now i m s' \<in> {(Inl NotFound, s'), (Inl SuggestionNotPending, s')}"
proof (cases "find_suggestion m i s'")
  case (Inl e)
  then show ?thesis
    by (auto simp: approve_suggestion_endpoint_def reject_suggestion_endpoint_def run_tx_def approve_suggestion_def
        reject_suggestion_def find_suggestion_def split: option.splits)
next
  case (Inr y)
  note inv' = builds_inv [OF business_steps_builds [OF steps inv]]
  note y = find_suggestion_okD [OF Inr]
  have "suggestion_le x y"
  proof (rule resolutions.view_steps [OF steps inv suggestion_row [OF inv x(1)]])
    show "row_value bs_id id (suggestions s') (bs_id x) = Some y"
      using suggestion_row [OF inv', of y] y x(3) by simp
  qed
  then have "bs_status y \<noteq> SuS_pending" using x(2) by (auto simp: suggestion_le_def)
  then show ?thesis using resolved_refused [OF inv', of y now m] y by simp
qed

text \<open>
  C31: a suggested canvas change lands on what its author saw or not at all. If a suggestion filed for a
  canvas is approved at any later moment, no edit of that canvas came in between: its content and version
  are those it had when the suggestion was filed. The canvas then holds the suggested blocks, every
  block the suggestion left out emptied, under the next version; and whatever happens afterwards, the
  suggestion is never approved or rejected again.
\<close>

theorem approval_lands:
  assumes "business_reachable fl un decode s0"
    "create_suggestion_endpoint fl un t SO_canvas_update target payload remark a s0 = (Inr w, s1)"
    "(business_step fl un decode)\<^sup>*\<^sup>* s1 s2"
    "approve_suggestion_endpoint fl un now (bs_id (sv_row w)) m s2 = (Inr v, s3)"
  shows "(\<exists>ty kvs c1 c2 c3. validate_blocks ty (payload_part payload ''blocks'') = Inr kvs
      \<and> c1 \<in> set (canvases s1) \<and> cv_startup_id c1 = m_startup_id a \<and> cv_type c1 = ty
      \<and> c2 \<in> set (canvases s2) \<and> c2 = c1
      \<and> c3 \<in> set (canvases s3) \<and> cv_id c3 = cv_id c1 \<and> cv_version c3 = cv_version c1 + 1
      \<and> (\<forall>b \<in> set (canvas_blocks ty). distinct (map fst kvs) \<longrightarrow>
           jget (cv_blocks c3) (bd_key b) = (case map_of kvs (bd_key b) of None \<Rightarrow> empty_value b | Some j \<Rightarrow> j)))
    \<and> (\<forall>s4 m' now'. (business_step fl un decode)\<^sup>*\<^sup>* s3 s4 \<longrightarrow>
         approve_suggestion_endpoint fl un now' (bs_id (sv_row w)) m' s4 \<in> {(Inl NotFound, s4), (Inl SuggestionNotPending, s4)}
         \<and> reject_suggestion_endpoint now' (bs_id (sv_row w)) m' s4 \<in> {(Inl NotFound, s4), (Inl SuggestionNotPending, s4)})"
proof -
  note inv0 = business_reachable_inv [OF assms(1)]
  obtain x where f: "create_suggestion fl un t a SO_canvas_update target payload remark s0 = (Inr x, s1)"
      and w: "sv_row w = x"
    using answered_ok [OF assms(2) [unfolded create_suggestion_endpoint_def]] serialize_row by metis
  note inv1 = builds_inv [OF create_suggestion_ok [OF inv0 f]]
  obtain ty kvs c where x: "validate_blocks ty (payload_part payload ''blocks'') = Inr kvs" "c \<in> set (canvases s1)"
      "cv_startup_id c = m_startup_id a" "cv_type c = ty" "x \<in> set (suggestions s1)" "bs_status x = SuS_pending"
      "bs_startup_id x = m_startup_id a" "bs_op x = SO_canvas_update"
      "bs_target x = [(''canvas_type'', JStr (canvas_type_value ty))]" "bs_payload x = payload"
      "bs_base_version x = Some (cv_version c)"
    by (rule suggestion_filed [OF inv0 f])
  note b12 = business_steps_builds [OF assms(3) inv1]
  note inv2 = builds_inv [OF b12]
  obtain y where ap: "approve_suggestion fl un now m (bs_id x) s2 = (Inr y, s3)"
    using answered_ok [OF assms(4) [unfolded approve_suggestion_endpoint_def]] w by metis
  obtain x2 where x2: "x2 \<in> set (suggestions s2)" "bs_id x2 = bs_id x" "bs_status x2 = SuS_pending"
    using approve_ok [OF inv2 ap] find_suggestion_okD by metis
  have "suggestion_le x x2"
    using resolutions.view_steps [OF assms(3) inv1 suggestion_row [OF inv1 x(5)]] suggestion_row [OF inv2 x2(1)] x2(2) by simp
  then have same: "x2 = x" using x2(3) by (auto simp: suggestion_le_def)
  obtain c2 s2' c3 where l: "get_or_create_canvas (bs_startup_id x) ty s2 = (c2, s2')" "bs_base_version x = Some (cv_version c2)"
      "c3 \<in> set (canvases s3)" "cv_id c3 = cv_id c2" "cv_version c3 = cv_version c2 + 1"
      "cv_blocks c3 = obj_update (empty_blocks ty) kvs" "y = resolved_as now m SuS_approved x" "y \<in> set (suggestions s3)"
      "builds fl un s2 s3"
    by (rule approved_canvas [OF inv2 ap x2(1) [unfolded same] x(8,9)]) (use x(1,10) in auto)
  have c2: "c2 = c \<and> c2 \<in> set (canvases s2)"
    by (rule canvas_unchanged [OF assms(3) inv1 x(2)]) (use l(1,2) x in simp_all)
  have blocks: "jget (cv_blocks c3) (bd_key b) = (case map_of kvs (bd_key b) of None \<Rightarrow> empty_value b | Some j \<Rightarrow> j)"
    if "b \<in> set (canvas_blocks ty)" "distinct (map fst kvs)" for b
    using that by (simp add: l(6) saved_block)
  have final: "approve_suggestion_endpoint fl un now' (bs_id x) m' s4 \<in> {(Inl NotFound, s4), (Inl SuggestionNotPending, s4)}
      \<and> reject_suggestion_endpoint now' (bs_id x) m' s4 \<in> {(Inl NotFound, s4), (Inl SuggestionNotPending, s4)}"
    if steps: "(business_step fl un decode)\<^sup>*\<^sup>* s3 s4" for s4 m' now'
    by (rule stays_resolved [OF steps builds_inv [OF l(9)] l(8)]) (simp_all add: l(7))
  show ?thesis
    using x(1,2,3,4) c2 l(3,4,5) blocks final unfolding w by blast
qed

end
