(* ===== verification/Business_Answers.thy ===== *)
theory Business_Answers
  imports Business_Facts
begin

text \<open>
  The answers of the business builder's requests, and what the jobs write: approving ends well or in one of
  three refusals, the model fills what is empty and nothing else, its conforming answers are accepted.
\<close>

section \<open>Approving never crashes\<close>

definition refusal :: "app_error \<Rightarrow> bool" where
  "refusal e \<longleftrightarrow> e \<in> {NotFound, SuggestionNotPending, CanvasVersionConflict}"

lemma save_canvas_accepted:
  assumes "validate_blocks (cv_type c) b = Inr kvs"
  shows "(\<exists>c' s'. save_canvas now c b v s = (Inr c', s')) \<or> (\<exists>s'. save_canvas now c b v s = (Inl CanvasVersionConflict, s'))"
  using assms by (simp add: save_canvas_def Let_def)

lemma apply_canvas_answers:
  assumes x: "applicable fl un x" "bs_op x = SO_canvas_update" and inv: "business_inv fl un s"
  shows "(\<exists>s'. apply_canvas_update now m x s = (Inr (), s')) \<or> (\<exists>e s'. apply_canvas_update now m x s = (Inl e, s') \<and> refusal e)"
proof -
  obtain ty kvs v where t: "bs_target x = [(''canvas_type'', JStr (canvas_type_value ty))]"
      "validate_blocks ty (payload_part (bs_payload x) ''blocks'') = Inr kvs" "bs_base_version x = Some v"
    using x by (auto simp: applicable_def)
  obtain c s1 where g: "get_or_create_canvas (m_startup_id m) ty s = (c, s1)" by (cases "get_or_create_canvas (m_startup_id m) ty s")
  have "validate_blocks (cv_type c) (payload_part (bs_payload x) ''blocks'') = Inr kvs"
    using t(2) get_or_create_ok(4) [OF inv g] by simp
  from save_canvas_accepted [OF this, of now v s1] show ?thesis
    by (auto simp: apply_canvas_update_def stored_enum_def stored_key_def t g refusal_def ignore_def)
qed

lemma create_record_accepted: "validate fl un k d = Inr clean \<Longrightarrow> \<exists>r s'. create_record fl un now w k d s = (Inr r, s')"
  by (simp add: create_record_def Let_def case_prod_unfold)

lemma update_record_accepted: "validate fl un (br_kind r) d = Inr clean \<Longrightarrow> \<exists>r' s'. update_record fl un r d s = (Inr r', s')"
  by (simp add: update_record_def Let_def)

lemma apply_record_answers:
  assumes "applicable fl un x" "bs_op x \<noteq> SO_canvas_update"
  shows "(\<exists>s'. apply_suggestion fl un now m x s = (Inr (), s')) \<or> (\<exists>e s'. apply_suggestion fl un now m x s = (Inl e, s') \<and> refusal e)"
proof (cases "bs_op x")
  case SO_record_create
  then obtain k d clean where t: "bs_target x = [(''kind'', JStr (record_kind_value k))]" "stored_data x = Inr d"
      "validate fl un k d = Inr clean"
    using assms(1) by (auto simp: applicable_def data_accepted_def)
  obtain r s' where "create_record fl un now (m_startup_id m) k d s = (Inr r, s')"
    using create_record_accepted [OF t(3)] by blast
  then show ?thesis
    using SO_record_create t
    by (simp add: apply_suggestion_def apply_record_create_def stored_enum_def stored_key_def ignore_def)
next
  case SO_record_update
  then obtain k i d clean where t: "bs_target x = [(''kind'', JStr (record_kind_value k)), (''record_id'', JUid i)]"
      "stored_data x = Inr d" "validate fl un k d = Inr clean"
    using assms(1) by (auto simp: applicable_def data_accepted_def)
  show ?thesis
  proof (cases "find_record m k i s")
    case (Inl e)
    then have "e = NotFound" by (auto simp: find_record_def split: option.splits)
    then show ?thesis
      using SO_record_update t Inl
      by (simp add: apply_suggestion_def apply_record_update_def stored_record_def stored_enum_def stored_key_def refusal_def)
  next
    case (Inr r)
    then have "br_kind r = k" using find_record_okD by blast
    then obtain r' s' where "update_record fl un r d s = (Inr r', s')"
      using update_record_accepted t(3) by blast
    then show ?thesis
      using SO_record_update t Inr
      by (simp add: apply_suggestion_def apply_record_update_def stored_record_def stored_enum_def stored_key_def ignore_def)
  qed
next
  case SO_record_delete
  then obtain k i where t: "bs_target x = [(''kind'', JStr (record_kind_value k)), (''record_id'', JUid i)]"
    using assms(1) by (auto simp: applicable_def)
  have "find_record m k i s \<in> Inr ` UNIV \<union> {Inl NotFound}"
    by (auto simp: find_record_def split: option.split)
  then show ?thesis
    using SO_record_delete t
    by (auto simp: apply_suggestion_def apply_record_delete_def stored_record_def stored_enum_def stored_key_def refusal_def)
qed (use assms(2) in simp)

lemma serialize_ok: "applicable fl un x \<Longrightarrow> \<exists>v. serialize_suggestion s x = Inr v \<and> sv_row v = x"
  by (cases "bs_op x")
    (auto simp: applicable_def serialize_suggestion_def current_of_def stored_enum_def stored_key_def Let_def)

lemma map_prod_Inr: "map_prod Inr id z \<noteq> (Inl e, s')"
  by (cases z) simp

lemma approve_refusal:
  assumes inv: "business_inv fl un s" and bad: "approve_suggestion fl un now m i s = (Inl e, s')"
  shows "refusal e"
proof (cases "find_suggestion m i s")
  case (Inl e')
  then have "e' = NotFound" by (auto simp: find_suggestion_def split: option.splits)
  then show ?thesis using bad Inl by (simp add: approve_suggestion_def refusal_def)
next
  case (Inr x)
  have x: "applicable fl un x"
    using invD(7) [OF inv] find_suggestion_okD [OF Inr] by (simp add: suggestion_ok_def)
  show ?thesis
  proof (cases "bs_status x = SuS_pending")
    case False
    then show ?thesis using bad Inr by (simp add: approve_suggestion_def require_pending_def refusal_def)
  next
    case True
    have "(\<exists>s'. apply_suggestion fl un now m x s = (Inr (), s')) \<or> (\<exists>e s'. apply_suggestion fl un now m x s = (Inl e, s') \<and> refusal e)"
    proof (cases "bs_op x = SO_canvas_update")
      case True
      then show ?thesis using apply_canvas_answers [OF x True inv] by (simp add: apply_suggestion_def)
    qed (rule apply_record_answers [OF x])
    then show ?thesis
      using bad Inr True by (auto simp: approve_suggestion_def require_pending_def map_prod_Inr)
  qed
qed

lemma approved_row:
  assumes inv: "business_inv fl un s" and ok: "approve_suggestion fl un now m i s = (Inr y, s')"
  shows "bs_id y = i \<and> bs_status y = SuS_approved \<and> bs_resolved_by_id y = Some (m_user_id m)
    \<and> y \<in> set (suggestions s') \<and> applicable fl un y"
proof -
  obtain x s1 u where a: "find_suggestion m i s = Inr x" "apply_suggestion fl un now m x s = (Inr u, s1)"
      "close_suggestion now m SuS_approved x s1 = (y, s')" "builds fl un s s'"
    by (rule approve_ok [OF inv ok])
  note x = find_suggestion_okD [OF a(1)]
  have y: "y = resolved_as now m SuS_approved x"
    "suggestions s' = update_where (\<lambda>z. bs_id z = bs_id x) (\<lambda>_. y) (suggestions s1)"
    using a(3) by (auto simp: close_suggestion_def Let_def)
  then have "y \<in> set (suggestions s')"
    using x apply_ok(2) [OF inv a(2)] by (auto simp: set_update_where image_iff)
  then show ?thesis
    using y(1) x invD(7) [OF builds_inv [OF a(4)]] by (auto simp: suggestion_ok_def)
qed

lemma listing_answers:
  assumes "\<And>x. x \<in> set (suggestions s) \<Longrightarrow> applicable fl un x"
  shows "case list_suggestions_endpoint f m s of Inl e \<Rightarrow> e = NotFound | Inr vs \<Rightarrow> \<forall>v \<in> set vs. sv_row v \<in> set (suggestions s)"
proof -
  define P where "P r = (case r of Inl e \<Rightarrow> e = NotFound | Inr vs \<Rightarrow> \<forall>v \<in> set vs. sv_row v \<in> set (suggestions s))"
    for r :: "suggestion_view list result"
  have each: "\<exists>vs. map_result (serialize_suggestion s) xs = Inr vs \<and> (\<forall>v \<in> set vs. sv_row v \<in> set (suggestions s))"
    if "set xs \<subseteq> set (suggestions s)" for xs
    using that
  proof (induction xs)
    case (Cons x xs)
    obtain v where "serialize_suggestion s x = Inr v" "sv_row v = x"
      using serialize_ok [OF assms, of x s] Cons.prems by auto
    then show ?case using Cons by auto
  qed simp
  have rows: "P (map_result (serialize_suggestion s) (list_suggestions w st s))" for w st
    using each [of "list_suggestions w st s"] by (auto simp: P_def list_suggestions_def desc_by_def)
  have "P (list_suggestions_endpoint f m s)"
    unfolding list_suggestions_endpoint_def Let_def using rows by (simp add: P_def [of "Inl NotFound"] split: option.split)
  then show ?thesis by (simp add: P_def)
qed

text \<open>
  C32: approving answers. In every reachable state the approval of any suggestion by any editor
  ends well, the suggestion closed in their name, or it is refused as unknown, as resolved already or
  because the canvas moved on, and then nothing has changed. No stored suggestion makes the
  approval or the listing of the suggestions fail otherwise.
\<close>

theorem approve_answers:
  assumes "business_reachable fl un decode s"
  shows "(case approve_suggestion_endpoint fl un now i m s of
        (Inl e, s') \<Rightarrow> s' = s \<and> e \<in> {NotFound, SuggestionNotPending, CanvasVersionConflict}
      | (Inr v, s') \<Rightarrow> bs_id (sv_row v) = i \<and> bs_status (sv_row v) = SuS_approved
          \<and> bs_resolved_by_id (sv_row v) = Some (m_user_id m) \<and> sv_row v \<in> set (suggestions s'))
    \<and> (case list_suggestions_endpoint f m s of Inl e \<Rightarrow> e = NotFound | Inr vs \<Rightarrow> \<forall>v \<in> set vs. sv_row v \<in> set (suggestions s))"
proof
  note inv = business_reachable_inv [OF assms]
  have ok: "applicable fl un x" if "x \<in> set (suggestions s)" for x
    using invD(7) [OF inv that] by (simp add: suggestion_ok_def)
  show "case approve_suggestion_endpoint fl un now i m s of
        (Inl e, s') \<Rightarrow> s' = s \<and> e \<in> {NotFound, SuggestionNotPending, CanvasVersionConflict}
      | (Inr v, s') \<Rightarrow> bs_id (sv_row v) = i \<and> bs_status (sv_row v) = SuS_approved
          \<and> bs_resolved_by_id (sv_row v) = Some (m_user_id m) \<and> sv_row v \<in> set (suggestions s')"
  proof (cases "approve_suggestion fl un now m i s")
    case (Pair r s')
    show ?thesis
    proof (cases r)
      case (Inl e)
      have "refusal e" by (rule approve_refusal [OF inv Pair [unfolded Inl]])
      then show ?thesis
        using Pair Inl by (simp add: approve_suggestion_endpoint_def run_tx_def refusal_def)
    next
      case (Inr y)
      have y: "bs_id y = i" "bs_status y = SuS_approved" "bs_resolved_by_id y = Some (m_user_id m)" "y \<in> set (suggestions s')"
        "applicable fl un y"
        using approved_row [OF inv Pair [unfolded Inr]] by blast+
      then show ?thesis
        using serialize_ok [OF y(5), of s'] Pair Inr by (auto simp: approve_suggestion_endpoint_def run_tx_def)
    qed
  qed
  show "case list_suggestions_endpoint f m s of Inl e \<Rightarrow> e = NotFound | Inr vs \<Rightarrow> \<forall>v \<in> set vs. sv_row v \<in> set (suggestions s)"
    by (rule listing_answers [OF ok])
qed


section \<open>What the model fills\<close>

text \<open>
  C33: the model only fills blocks that are empty when its answer arrives. Whatever was committed while
  the model was thinking, the second part of the job leaves every filled block as it is, gives an empty
  block the value of the answer if there is one, leaves every other row alone, and takes the next version
  exactly when a block changed; it announces nothing, even if the canvas is complete now.
\<close>

theorem fill_spec:
  assumes "business_reachable fl un decode s" "c \<in> set (canvases s)"
    "canvas_fill_end (cv_type c) (cv_id c) (Inr filled) s = (Inr u, s')"
  shows "(\<exists>c' \<in> set (canvases s'). cv_id c' = cv_id c
      \<and> (\<forall>b \<in> set (canvas_blocks (cv_type c)). jget (cv_blocks c') (bd_key b) =
           (if truthy (jget (cv_blocks c) (bd_key b)) \<or> map_of filled (bd_key b) = None
            then jget (cv_blocks c) (bd_key b) else jget filled (bd_key b)))
      \<and> cv_version c' = (if cv_blocks c' = cv_blocks c then cv_version c else cv_version c + 1))
    \<and> filter (\<lambda>d. cv_id d \<noteq> cv_id c) (canvases s') = filter (\<lambda>d. cv_id d \<noteq> cv_id c) (canvases s)
    \<and> business_records s' = business_records s \<and> suggestions s' = suggestions s \<and> events s' = events s"
proof -
  note inv = business_reachable_inv [OF assms(1)]
  have f: "find (\<lambda>d. cv_id d = cv_id c) (canvases s) = Some c"
    using find_key_unique [of cv_id "canvases s" c] invD(1) [OF inv] assms(2) by (simp add: keyed_def)
  define merged where "merged = fill_from (cv_blocks c) filled (canvas_blocks (cv_type c)) (cv_blocks c)"
  have get: "jget merged (bd_key b) = (if truthy (jget (cv_blocks c) (bd_key b)) \<or> map_of filled (bd_key b) = None
      then jget (cv_blocks c) (bd_key b) else jget filled (bd_key b))" if "b \<in> set (canvas_blocks (cv_type c))" for b
    using that by (auto simp: merged_def jget_def fill_from_get)
  show ?thesis
  proof (cases "merged = cv_blocks c")
    case True
    then have "s' = s" using assms(3) f by (simp add: canvas_fill_end_def Let_def merged_def [symmetric])
    then show ?thesis using assms(2) get unfolding True by (intro conjI bexI [of _ c]) simp_all
  next
    case False
    define c' where "c' = c\<lparr>cv_blocks := merged, cv_version := cv_version c + 1\<rparr>"
    have s': "s' = put_row c' s"
      using assms(3) f False by (auto simp: canvas_fill_end_def Let_def merged_def [symmetric] c'_def split: sum.splits)
    have "c' \<in> set (canvases s')"
      using assms(2) by (auto simp: s' put_row_def set_update_where c'_def image_iff)
    moreover have "filter (\<lambda>d. cv_id d \<noteq> cv_id c) (update_where (\<lambda>x. cv_id x = cv_id c) (\<lambda>_. c') t)
        = filter (\<lambda>d. cv_id d \<noteq> cv_id c) t" for t
      by (induction t) (simp_all add: c'_def)
    ultimately show ?thesis
      using get False by (intro conjI bexI [of _ c']) (simp_all add: s' put_row_def c'_def)
  qed
qed

section \<open>Conforming answers\<close>

lemma conforms_string [simp]: "conforms string_schema v = is_text v"
  by (subst conforms.simps) (simp add: string_schema_def jget_def)

lemma conforms_strings: "conforms strings_schema v = is_text_list v"
  by (subst conforms.simps) (cases v; simp add: strings_schema_def jget_def)

lemma conforms_enum: "cs \<noteq> [] \<Longrightarrow> conforms (enum_schema cs) v \<longleftrightarrow> v \<in> JStr ` set cs"
  by (subst conforms.simps) (auto simp: enum_schema_def jget_def)

lemma conforms_number: "conforms (JObj [(''type'', JStr ''number'')]) v \<longleftrightarrow> (\<exists>n. v = JInt n)"
  by (subst conforms.simps) (cases v; simp add: jget_def)

lemma conforms_object:
  "conforms (object_schema ps) v \<longleftrightarrow> (\<exists>kvs. v = JObj kvs \<and> fst ` set kvs \<subseteq> fst ` set ps
     \<and> (\<forall>p \<in> set ps. \<exists>w. map_of kvs (fst p) = Some w \<and> conforms (snd p) w))"
  by (subst conforms.simps) (cases v; auto simp: object_schema_def jget_def split: option.splits)

lemma conforms_array:
  "conforms (array_schema items) v \<longleftrightarrow> (\<exists>ws. v = JList ws \<and> (\<forall>w \<in> set ws. conforms items w))"
  by (subst conforms.simps) (cases v; simp add: array_schema_def jget_def)

text \<open>Every canvas answer that conforms to its schema is accepted.\<close>

lemma canvas_answer_accepted:
  assumes "conforms (canvas_json_schema ty) (JObj filled)"
  shows "validate_blocks ty (JObj filled) = Inr filled \<or> \<not> distinct (map fst filled)"
proof (cases "distinct (map fst filled)")
  case True
  have c: "fst ` set filled \<subseteq> bd_key ` set (canvas_blocks ty)"
    "\<And>b. b \<in> set (canvas_blocks ty) \<Longrightarrow> \<exists>w. map_of filled (bd_key b) = Some w
      \<and> conforms (if bd_kind b = ''list'' then strings_schema else string_schema) w"
    using assms by (auto simp: canvas_json_schema_def conforms_object image_image)
  have "\<exists>kind. map_of (block_kinds ty) k = Some kind \<and> fits_kind kind w" if kw: "(k, w) \<in> set filled" for k w
  proof -
    from c(1) kw obtain b where b: "b \<in> set (canvas_blocks ty)" "k = bd_key b" by force
    have "map_of filled k = Some w" by (rule map_of_is_SomeI [OF True kw])
    then have "conforms (if bd_kind b = ''list'' then strings_schema else string_schema) w" using c(2) [OF b(1)] b(2) by auto
    then show ?thesis
      using map_of_block_kinds [OF b(1)] b(2) by (auto simp: fits_kind_def conforms_strings split: if_splits)
  qed
  then show ?thesis by (auto simp: validate_blocks_ok_iff)
qed simp

end
