(* ===== verification/Business_Records.thy ===== *)
theory Business_Records
  imports Business_Answers
begin

text \<open>
  Records: the answers the model gives for a kind are accepted and listed in their order; where a new
  record comes after deletions; and the plan of a workspace with a long name.
\<close>

section \<open>Accepted records\<close>

lemma check_fields_total:
  assumes "\<And>f. f \<in> set fds \<Longrightarrow> \<exists>w. field_result check pfx kvs f = Inr w" "fst ` set kvs \<subseteq> fd_key ` set fds"
  shows "\<exists>out. check_fields check fds pfx kvs = Inr out"
proof -
  have "errors_of (field_result check pfx kvs f) = []" if "f \<in> set fds" for f
    using assms(1) [OF that] by auto
  moreover have "filter (\<lambda>kv. fst kv \<notin> fd_key ` set fds) kvs = []"
    using assms(2) by (auto simp: filter_empty_conv)
  ultimately show ?thesis by (simp add: check_fields_def Let_def comp_def)
qed

lemma in_enumerate: "(i, x) \<in> set (List.enumerate n xs) \<Longrightarrow> x \<in> set xs"
  by (simp add: enumerate_eq_zip) (rule set_zip_rightD)

lemma check_strs: "is_text_list v \<Longrightarrow> check_simple fl un A_strs loc v = Inr v"
  by (cases v) (auto simp: filter_empty_conv dest: in_enumerate)

lemma tier_accepted:
  assumes "conforms tier_schema v"
  shows "\<exists>w. check_tier fl un loc v = Inr w"
proof -
  obtain kvs n p f where v: "v = JObj kvs" "fst ` set kvs \<subseteq> {''name'', ''price'', ''features''}"
      "map_of kvs ''name'' = Some n" "is_text n" "map_of kvs ''price'' = Some p" "is_text p"
      "map_of kvs ''features'' = Some f" "is_text_list f"
    using assms by (auto simp: tier_schema_def conforms_object conforms_strings)
  have "\<exists>out. check_fields (check_simple fl un) tier_fields (loc @ ''.'') kvs = Inr out"
    by (rule check_fields_total) (use v check_strs in \<open>auto simp: tier_fields_def fd_def field_result_def\<close>)
  then show ?thesis by (auto simp: check_tier_def v(1))
qed

lemma tiers_accepted:
  assumes "conforms (array_schema tier_schema) v"
  shows "\<exists>w. check_value fl un A_tiers loc v = Inr w"
proof -
  obtain ws where v: "v = JList ws" "\<And>w. w \<in> set ws \<Longrightarrow> conforms tier_schema w"
    using assms by (auto simp: conforms_array)
  have "errors_of (check_tier fl un (item_loc loc i) x) = []" if "(i, x) \<in> set (List.enumerate 0 ws)" for i x
    using tier_accepted [OF v(2) [OF in_enumerate [OF that]], of fl un "item_loc loc i"] by auto
  then have "concat (map errors_of (map (\<lambda>(i, x). check_tier fl un (item_loc loc i) x) (List.enumerate 0 ws))) = []"
    by auto
  then show ?thesis by (simp add: check_value_def v(1) Let_def)
qed

lemma check_value_simple: "a \<noteq> A_tiers \<Longrightarrow> check_value fl un a loc v = check_simple fl un a loc v"
  by (simp add: check_value_def)

text \<open>A record that conforms to the schema of its kind passes the validation of its kind.\<close>

lemma record_accepted:
  assumes "conforms (record_item_schema k) v" "\<And>n. fl (JInt n) \<noteq> None"
  shows "\<exists>clean. validate fl un k v = Inr clean"
proof -
  obtain kvs where v: "v = JObj kvs" using assms(1) by (cases k) (auto simp: conforms_object)
  have num: "\<exists>w. fl (JInt n) = Some w" for n
    using assms(2) [of n] by auto
  have "\<exists>out. check_fields (check_value fl un) (record_fields k) [] kvs = Inr out"
  proof (rule check_fields_total)
    show "fst ` set kvs \<subseteq> fd_key ` set (record_fields k)"
      using assms(1) by (cases k) (auto simp: v conforms_object fd_def)
    fix f assume f: "f \<in> set (record_fields k)"
    show "\<exists>w. field_result (check_value fl un) [] kvs f = Inr w"
    proof (cases k)
      case RK_pricing
      have "conforms (record_item_schema RK_pricing) (JObj kvs)" using assms(1) RK_pricing v by simp
      then obtain x y where "map_of kvs ''model_type'' = Some x" "conforms (enum_schema pricing_models) x"
          "map_of kvs ''tiers'' = Some y" "conforms (array_schema tier_schema) y"
        by (auto simp: conforms_object)
      then show ?thesis
        using f RK_pricing tiers_accepted [of y fl un]
        by (auto simp: field_result_def fd_def check_value_simple conforms_enum pricing_models_def)
    next
      case RK_revenue_stream
      then show ?thesis
        using assms(1) f num
        by (auto simp: v conforms_object conforms_number field_result_def fd_def check_value_simple split: option.split)
    next
      case RK_persona
      then show ?thesis
        using assms(1) f
        by (auto simp: v conforms_object conforms_strings field_result_def fd_def check_value_simple check_strs
            simp del: check_simple.simps(2))
    next
      case RK_competitor
      have "fst ` set kvs \<subseteq> {''name'', ''positioning'', ''price'', ''strengths'', ''weaknesses'', ''threat_level''}"
        using assms(1) RK_competitor by (auto simp: v conforms_object)
      then have "map_of kvs ''map_x'' = None" "map_of kvs ''map_y'' = None"
        by (auto simp: map_of_eq_None_iff subset_iff)
      then show ?thesis
        using assms(1) f RK_competitor
        by (auto simp: v conforms_object conforms_strings conforms_enum threat_levels_def field_result_def fd_def
            check_value_simple check_strs simp del: check_simple.simps(2))
    qed
  qed
  then show ?thesis by (auto simp: validate_def v)
qed

section \<open>The job that fills a kind\<close>

lemma create_record_effect:
  assumes "validate fl un k d = Inr clean"
  obtains r s' where "create_record fl un now w k d s = (Inr r, s')" "records_of w k s' = records_of w k s @ [r]"
    "br_position r = length (records_of w k s)" "br_data r = clean"
proof -
  obtain r s' where c: "create_record fl un now w k d s = (Inr r, s')" using create_record_accepted [OF assms] by blast
  then have "records_of w k s' = records_of w k s @ [r] \<and> br_position r = length (records_of w k s) \<and> br_data r = clean"
    using assms by (auto simp: create_record_def fresh_id_def Let_def records_of_def split: if_splits)
  then show thesis using c that by blast
qed

lemma create_records_effect:
  "(\<And>d. d \<in> set ds \<Longrightarrow> \<exists>clean. validate fl un k d = Inr clean) \<Longrightarrow>
   \<exists>s' rs. create_records fl un now w k ds s = (Inr (), s') \<and> records_of w k s' = records_of w k s @ rs
     \<and> map br_position rs = [length (records_of w k s)..<length (records_of w k s) + length ds]
     \<and> map (\<lambda>d. validate fl un k d) ds = map (\<lambda>r. Inr (br_data r)) rs"
proof (induction ds arbitrary: s)
  case (Cons d ds)
  obtain clean where v: "validate fl un k d = Inr clean" using Cons.prems by auto
  obtain r s1 where c: "create_record fl un now w k d s = (Inr r, s1)" "records_of w k s1 = records_of w k s @ [r]"
      "br_position r = length (records_of w k s)" "br_data r = clean"
    by (rule create_record_effect [OF v])
  obtain s' rs where i: "create_records fl un now w k ds s1 = (Inr (), s')" "records_of w k s' = records_of w k s1 @ rs"
      "map br_position rs = [length (records_of w k s1)..<length (records_of w k s1) + length ds]"
      "map (\<lambda>d. validate fl un k d) ds = map (\<lambda>r. Inr (br_data r)) rs"
    using Cons.IH [of s1] Cons.prems by auto
  show ?case
    by (rule exI [of _ s'], rule exI [of _ "r # rs"])
      (use c i v in \<open>simp add: upt_conv_Cons del: upt_Suc\<close>)
qed auto

lemma answered_within:
  assumes "conforms (record_json_schema k) (JObj answer)"
  obtains ds where "map_of answer ''records'' = Some (JList ds)" "length ds \<le> 3"
    "\<forall>d \<in> set ds. conforms (record_item_schema k) d"
proof -
  let ?s = "JObj [(''type'', JStr ''array''), (''maxItems'', JInt 3), (''items'', record_item_schema k)]"
  obtain w where w: "map_of answer ''records'' = Some w" "conforms ?s w"
    using assms by (auto simp: record_json_schema_def conforms_object)
  have "\<exists>ds. w = JList ds \<and> length ds \<le> 3 \<and> (\<forall>d \<in> set ds. conforms (record_item_schema k) d)"
    using w(2) by (subst (asm) conforms.simps) (auto simp: jget_def split: json.splits)
  then obtain ds where ds: "w = JList ds" "length ds \<le> 3" "\<forall>d \<in> set ds. conforms (record_item_schema k) d" by blast
  show thesis by (rule that [OF w(1) [unfolded ds(1)] ds(2,3)])
qed

text \<open>
  Whatever the model answers within the schema it is given becomes records. For a workspace without
  records of the kind, the job ends well, and the listing of the kind shows one record per answered one, at
  most three, in the answered order, each holding what the validation makes of it.
\<close>

theorem record_fill_spec:
  assumes "map_of p ''kind'' = Some (JStr (record_kind_value k))" "payload_startup p s = Inr (Some st)"
    "records_of (st_id st) k s = []" "conforms (record_json_schema k) (JObj answer)" "\<forall>n. fl (JInt n) \<noteq> None"
  shows "\<exists>s' ds. handle_record_ai_fill fl un now p (Inr answer) s = (Inr (), s')
    \<and> map_of answer ''records'' = Some (JList ds) \<and> length ds \<le> 3
    \<and> map (\<lambda>r. Inr (br_data r)) (list_records (st_id st) k s') = map (validate fl un k) ds
    \<and> map br_position (list_records (st_id st) k s') = [0..<length ds]"
proof -
  obtain ds where ds: "map_of answer ''records'' = Some (JList ds)" "length ds \<le> 3"
      "\<forall>d \<in> set ds. conforms (record_item_schema k) d"
    by (rule answered_within [OF assms(4)])
  obtain s' rs where c: "create_records fl un now (st_id st) k ds s = (Inr (), s')" "records_of (st_id st) k s' = rs"
      "map br_position rs = [0..<length ds]" "map (\<lambda>d. validate fl un k d) ds = map (\<lambda>r. Inr (br_data r)) rs"
    using create_records_effect [of ds fl un k now "st_id st" s] record_accepted [OF ds(3) [rule_format], of _ fl] assms(5) assms(3) by auto
  have "answered_records answer = Inr ds"
    using ds(1,2) by (simp add: answered_records_def jget_def Let_def)
  then have "handle_record_ai_fill fl un now p (Inr answer) s = (Inr (), s')"
    using assms(1,2,3) c(1) by (simp add: handle_record_ai_fill_def stored_enum_def stored_key_def)
  moreover have "list_records (st_id st) k s' = rs"
    unfolding list_records_def c(2) by (rule sort_key_id_if_sorted) (simp add: c(3))
  ultimately show ?thesis using ds(1,2) c(3,4) by auto
qed

section \<open>Long names\<close>

text \<open>
  The title of a plan is the workspace's name and sixteen more characters in a column of two hundred. A
  workspace with a longer name never gets its plan: the job fails however the model answers, its writes
  are rolled back and the plan stays \<^verbatim>\<open>generating\<close>.
\<close>

theorem long_name_no_plan:
  assumes "find (\<lambda>x. JUid (bp_id x) = v) (business_plans s) = Some plan" "map_of p ''plan_id'' = Some v"
    "bp_status plan = PS_generating" "startup_by_id s (bp_startup_id plan) = Some st" "st_name st = Some n" "184 < length n"
  shows "\<exists>e. run_tx (handle_plan_generate now p llm) s = (Inl e, s)"
proof -
  have "\<not> fits 200 (plan_title st)" using assms(5,6) by (cases n) (simp_all add: plan_title_def fits_def)
  then have "\<exists>e s1. create_document now (st_id st) (bp_created_by_id plan) DK_business_plan (plan_title st) secs None None True s = (Inl e, s1)" for secs
    by (auto simp: create_document_def Let_def split: sum.split prod.split)
  then have "\<exists>e s1. handle_plan_generate now p llm s = (Inl e, s1)"
    using assms(1,2,3,4)
    by (auto simp: handle_plan_generate_def stored_key_def split: sum.split prod.split) (metis prod.inject sum.distinct(1))
  then show ?thesis by (auto simp: run_tx_def)
qed

end
