(* ===== verification/Roadmap_Templates.thy ===== *)
theory Roadmap_Templates
  imports Notifications
begin

text \<open>
  The roadmap templates: one per stage (\<^verbatim>\<open>app/services/roadmap/templates.py\<close>) and the gallery
  (\<^verbatim>\<open>gallery.py\<close>). A phase is its name, first and last week and milestones; a milestone its
  title, due week and tasks; a task its title and effort.
\<close>

type_synonym task_template = "string \<times> task_effort"
type_synonym milestone_template = "string \<times> int \<times> task_template list"
type_synonym phase_template = "string \<times> int \<times> int \<times> milestone_template list"

definition roadmap_template_version :: int where
  "roadmap_template_version = 1"

definition stage_idea :: "phase_template list" where
  "stage_idea = [
    (''Shape the idea'', 0, 4,
     [
      (''Write your problem statement'', 1,
       [(''Describe the problem in one paragraph'', TE_small),
        (''List who has this problem'', TE_small)]),
      (''Sketch the solution'', 3,
       [(''Draft a one-page concept'', TE_medium)])]),
    (''First signals'', 4, 8,
     [
      (''Talk to 5 potential users'', 6,
       [(''Recruit 5 interviewees'', TE_medium),
        (''Run and note the interviews'', TE_medium)])])]"

definition stage_validation :: "phase_template list" where
  "stage_validation = [
    (''Validation'', 0, 6,
     [
      (''Validate demand'', 2,
       [(''Run 10 customer interviews'', TE_medium),
        (''Synthesize problem hypotheses'', TE_small)]),
      (''Pricing test'', 5,
       [(''Draft 3 pricing options'', TE_small),
        (''Run a willingness-to-pay test'', TE_medium)])]),
    (''Build MVP'', 6, 14,
     [
      (''Core flow'', 10,
       [(''Define the core user journey'', TE_medium),
        (''Build the happy path'', TE_large)])])]"

definition stage_build :: "phase_template list" where
  "stage_build = [
    (''Build MVP'', 0, 10,
     [
      (''Ship the MVP'', 8,
       [(''Finish the core feature set'', TE_large),
        (''Set up analytics'', TE_small)])]),
    (''Closed beta'', 10, 16,
     [
      (''Run a closed beta'', 14,
       [(''Recruit 20 beta users'', TE_medium),
        (''Collect and triage feedback'', TE_medium)])])]"

definition stage_launch :: "phase_template list" where
  "stage_launch = [
    (''Launch prep'', 0, 4,
     [
      (''Prepare go-to-market'', 3,
       [(''Write launch messaging'', TE_medium),
        (''Line up launch channels'', TE_medium)])]),
    (''Public launch'', 4, 8,
     [
      (''Public launch'', 6,
       [(''Ship the public release'', TE_large),
        (''Monitor and respond to issues'', TE_medium)])])]"

definition stage_growth :: "phase_template list" where
  "stage_growth = [
    (''Acquisition'', 0, 8,
     [
      (''Find a repeatable channel'', 6,
       [(''Test 3 acquisition channels'', TE_large),
        (''Double down on the best one'', TE_medium)])]),
    (''Retention'', 8, 16,
     [
      (''Improve retention'', 12,
       [(''Instrument the activation funnel'', TE_medium),
        (''Ship one retention improvement'', TE_large)])])]"

definition stage_scale :: "phase_template list" where
  "stage_scale = [
    (''Scale operations'', 0, 12,
     [
      (''Harden the org'', 8,
       [(''Document core processes'', TE_medium),
        (''Hire against the plan'', TE_large)])]),
    (''Expand'', 12, 24,
     [
      (''Open a new segment or market'', 20,
       [(''Validate the new segment'', TE_large),
        (''Adapt positioning'', TE_medium)])])]"

fun stage_template :: "startup_stage \<Rightarrow> string \<times> phase_template list" where
  "stage_template SS_idea = (''stage.idea'', stage_idea)"
| "stage_template SS_validation = (''stage.validation'', stage_validation)"
| "stage_template SS_build = (''stage.build'', stage_build)"
| "stage_template SS_launch = (''stage.launch'', stage_launch)"
| "stage_template SS_growth = (''stage.growth'', stage_growth)"
| "stage_template SS_scale = (''stage.scale'', stage_scale)"

record gallery_template =
  gt_id :: string
  gt_title :: string
  gt_stage :: "startup_stage option"
  gt_category :: string
  gt_phases :: "phase_template list"

definition gallery_validation_sprint :: gallery_template where
  "gallery_validation_sprint =
    \<lparr>gt_id = ''validation-sprint'', gt_title = ''Validation sprint'', gt_stage = Some SS_validation, gt_category = ''Fintech'', gt_phases = [
    (''Validation sprint'', 0, 4,
     [
      (''Problem interviews'', 1,
       [(''Recruit 10 target users'', TE_medium),
        (''Run and synthesize interviews'', TE_medium)]),
      (''Solution test'', 3,
       [(''Build a concierge test'', TE_large)])])]\<rparr>"

definition gallery_mvp_build :: gallery_template where
  "gallery_mvp_build =
    \<lparr>gt_id = ''mvp-build'', gt_title = ''MVP build'', gt_stage = Some SS_build, gt_category = ''Fintech'', gt_phases = [
    (''MVP'', 0, 8,
     [
      (''Core flow shipped'', 6,
       [(''Build the core feature'', TE_large),
        (''Instrument analytics'', TE_small)])])]\<rparr>"

definition gallery_go_to_market :: gallery_template where
  "gallery_go_to_market =
    \<lparr>gt_id = ''go-to-market'', gt_title = ''Go-to-market'', gt_stage = Some SS_launch, gt_category = ''B2C'', gt_phases = [
    (''Go-to-market'', 0, 6,
     [
      (''Launch plan'', 2,
       [(''Define positioning + channels'', TE_medium),
        (''Prepare launch assets'', TE_medium)])])]\<rparr>"

definition gallery_pre_seed_raise :: gallery_template where
  "gallery_pre_seed_raise =
    \<lparr>gt_id = ''pre-seed-raise'', gt_title = ''Pre-seed raise'', gt_stage = None, gt_category = ''General'', gt_phases = [
    (''Fundraise'', 0, 10,
     [
      (''Deck + data room ready'', 3,
       [(''Write the pitch deck'', TE_large),
        (''Assemble the data room'', TE_medium)]),
      (''Investor outreach'', 8,
       [(''Build the investor list'', TE_medium),
        (''Run outreach + meetings'', TE_large)])])]\<rparr>"

definition gallery_company_formation :: gallery_template where
  "gallery_company_formation =
    \<lparr>gt_id = ''company-formation'', gt_title = ''Company formation'', gt_stage = None, gt_category = ''Nigeria'', gt_phases = [
    (''Incorporation'', 0, 4,
     [
      (''Register the company'', 2,
       [(''Reserve the company name (CAC)'', TE_small),
        (''File incorporation documents'', TE_medium)]),
      (''Tax + banking set up'', 4,
       [(''Obtain TIN'', TE_small),
        (''Open a corporate bank account'', TE_medium)])])]\<rparr>"

definition gallery_scale_playbook :: gallery_template where
  "gallery_scale_playbook =
    \<lparr>gt_id = ''scale-playbook'', gt_title = ''Scale playbook'', gt_stage = Some SS_scale, gt_category = ''General'', gt_phases = [
    (''Scale'', 0, 12,
     [
      (''Repeatable growth engine'', 8,
       [(''Document the growth motion'', TE_medium),
        (''Hire against the plan'', TE_large)])])]\<rparr>"

definition gallery_templates :: "gallery_template list" where
  "gallery_templates = [gallery_validation_sprint,
     gallery_mvp_build,
     gallery_go_to_market,
     gallery_pre_seed_raise,
     gallery_company_formation,
     gallery_scale_playbook]"

definition gallery_get :: "string \<Rightarrow> gallery_template option" where
  "gallery_get k = find (\<lambda>t. gt_id t = k) gallery_templates"

definition template_counts :: "phase_template list \<Rightarrow> nat \<times> nat" where
  "template_counts phases =
     (let milestones = concat (map (\<lambda>(_, _, _, ms). ms) phases);
          tasks = concat (map (\<lambda>(_, _, ts). ts) milestones)
      in (length milestones, length tasks))"

lemmas gallery_defs =
  gallery_validation_sprint_def gallery_mvp_build_def gallery_go_to_market_def gallery_pre_seed_raise_def gallery_company_formation_def gallery_scale_playbook_def

lemma gallery_ids_distinct: "distinct (map gt_id gallery_templates)"
  by (simp add: gallery_templates_def gallery_defs)

lemma gallery_get_Some: "gallery_get k = Some t \<Longrightarrow> gt_id t = k \<and> t \<in> set gallery_templates"
  by (auto simp: gallery_get_def dest: find_SomeD)

end
