(* ===== verification/Roadmap.thy ===== *)
theory Roadmap
  imports Roadmap_Templates
begin

text \<open>
  The roadmap (\<^verbatim>\<open>app/services/roadmap/service.py\<close>, \<^verbatim>\<open>app/db/models/roadmap.py\<close>) and its editing
  endpoints (\<^verbatim>\<open>app/api/v1/endpoints/roadmap.py\<close>): generation from a template, gallery templates,
  phases, milestones and tasks, and the progress of a milestone.
\<close>

record roadmap =
  ro_id :: uid
  ro_startup_id :: uid
  ro_stage :: startup_stage
  ro_template_key :: string
  ro_template_version :: int
  ro_generated_at :: instant
  ro_applied_template_keys :: "string list"

record phase =
  ph_id :: uid
  ph_roadmap_id :: uid
  ph_name :: string
  ph_order :: int
  ph_starts_on :: "day option"
  ph_ends_on :: "day option"

record milestone =
  ms_id :: uid
  ms_phase_id :: uid
  ms_title :: string
  ms_description :: "string option"
  ms_due_on :: "day option"
  ms_owner_id :: "uid option"
  ms_status :: roadmap_status
  ms_progress :: int
  ms_order :: int
  ms_last_replanned_at :: "instant option"
  ms_last_replan_reason :: "string option"

record rtask =
  rt_id :: uid
  rt_milestone_id :: uid
  rt_title :: string
  rt_description :: "string option"
  rt_effort :: task_effort
  rt_status :: roadmap_status
  rt_assignee_id :: "uid option"
  rt_due_on :: "day option"
  rt_order :: int

record replan =
  rp_id :: uid
  rp_roadmap_id :: uid
  rp_applied_by :: uid
  rp_change_count :: nat
  rp_changes :: "json list"
  rp_summary :: string
  rp_created_at :: instant

record task_dependency =
  dp_task_id :: uid
  dp_depends_on_task_id :: uid

record roadmap_db = notif_db +
  roadmaps :: "roadmap list"
  phases :: "phase list"
  milestones :: "milestone list"
  rtasks :: "rtask list"
  task_dependencies :: "task_dependency list"
  replans :: "replan list"

section \<open>Building a tree from a template\<close>

definition weeks :: "day \<Rightarrow> int \<Rightarrow> day" where
  "weeks base n = base + 7 * n"

fun add_tasks :: "uid \<Rightarrow> int \<Rightarrow> task_template list \<Rightarrow> 'a roadmap_db_scheme \<Rightarrow> 'a roadmap_db_scheme" where
  "add_tasks m k [] s = s"
| "add_tasks m k ((title, eff) # ts) s =
     (let (i, s1) = fresh_id s
      in add_tasks m (k + 1) ts (s1\<lparr>rtasks := rtasks s1 @
           [\<lparr>rt_id = i, rt_milestone_id = m, rt_title = title, rt_description = None,
             rt_effort = eff, rt_status = RM_todo, rt_assignee_id = None, rt_due_on = None,
             rt_order = k\<rparr>]\<rparr>))"

fun add_milestones ::
    "day \<Rightarrow> uid \<Rightarrow> int \<Rightarrow> milestone_template list \<Rightarrow> 'a roadmap_db_scheme \<Rightarrow> 'a roadmap_db_scheme" where
  "add_milestones base p k [] s = s"
| "add_milestones base p k ((title, due, ts) # rest) s =
     (let (i, s1) = fresh_id s;
          s2 = s1\<lparr>milestones := milestones s1 @
                 [\<lparr>ms_id = i, ms_phase_id = p, ms_title = title, ms_description = None,
                   ms_due_on = Some (weeks base due), ms_owner_id = None, ms_status = RM_todo,
                   ms_progress = 0, ms_order = k, ms_last_replanned_at = None,
                   ms_last_replan_reason = None\<rparr>]\<rparr>
      in add_milestones base p (k + 1) rest (add_tasks i 0 ts s2))"

fun add_phases ::
    "day \<Rightarrow> uid \<Rightarrow> int \<Rightarrow> phase_template list \<Rightarrow> 'a roadmap_db_scheme \<Rightarrow> 'a roadmap_db_scheme" where
  "add_phases base r k [] s = s"
| "add_phases base r k ((name, sw, ew, ms) # rest) s =
     (let (i, s1) = fresh_id s;
          s2 = s1\<lparr>phases := phases s1 @
                 [\<lparr>ph_id = i, ph_roadmap_id = r, ph_name = name, ph_order = k,
                   ph_starts_on = Some (weeks base sw), ph_ends_on = Some (weeks base ew)\<rparr>]\<rparr>
      in add_phases base r (k + 1) rest (add_milestones base i 0 ms s2))"

definition roadmap_of :: "'a roadmap_db_scheme \<Rightarrow> uid \<Rightarrow> roadmap option" where
  "roadmap_of s st = find (\<lambda>r. ro_startup_id r = st) (roadmaps s)"

definition stage_key :: "startup \<Rightarrow> startup_stage" where
  "stage_key st = (case st_stage st of Some x \<Rightarrow> x | None \<Rightarrow> SS_idea)"

text \<open>
  \<^verbatim>\<open>INSERT ... ON CONFLICT (startup_id) DO NOTHING\<close>: a roadmap that exists is answered as it is.
\<close>

definition generate_roadmap ::
    "instant \<Rightarrow> day \<Rightarrow> startup \<Rightarrow> 'a roadmap_db_scheme \<Rightarrow> roadmap \<times> 'a roadmap_db_scheme" where
  "generate_roadmap now today st s =
     (case roadmap_of s (st_id st) of
        Some r \<Rightarrow> (r, s)
      | None \<Rightarrow>
          (let stage = stage_key st;
               (key, tmpl) = stage_template stage;
               (i, s1) = fresh_id s;
               r = \<lparr>ro_id = i, ro_startup_id = st_id st, ro_stage = stage, ro_template_key = key,
                    ro_template_version = roadmap_template_version, ro_generated_at = now,
                    ro_applied_template_keys = []\<rparr>;
               s2 = add_phases today i 0 tmpl (s1\<lparr>roadmaps := roadmaps s1 @ [r]\<rparr>);
               count = fst (template_counts tmpl)
           in (r, publish now ''roadmap.generated''
                    [(''startup_id'', JUid (st_id st)), (''roadmap_id'', JUid i),
                     (''stage'', JStr (startup_stage_value stage)), (''template_key'', JStr key),
                     (''milestone_count'', JInt (int count))] s2)))"

definition max_phase_order :: "'a roadmap_db_scheme \<Rightarrow> uid \<Rightarrow> int" where
  "max_phase_order s r =
     (case map ph_order (filter (\<lambda>p. ph_roadmap_id p = r) (phases s)) of
        [] \<Rightarrow> -1 | xs \<Rightarrow> foldl max (hd xs) (tl xs))"

definition apply_template ::
    "day \<Rightarrow> roadmap \<Rightarrow> gallery_template \<Rightarrow> 'a roadmap_db_scheme
     \<Rightarrow> (nat \<times> nat \<times> nat) \<times> 'a roadmap_db_scheme" where
  "apply_template today r tmpl s =
     (let start = max_phase_order s (ro_id r) + 1;
          s1 = add_phases today (ro_id r) start (gt_phases tmpl) s;
          (ms, ts) = template_counts (gt_phases tmpl)
      in ((length (gt_phases tmpl), ms, ts),
          s1\<lparr>roadmaps := update_where (\<lambda>x. ro_id x = ro_id r)
                (\<lambda>x. x\<lparr>ro_applied_template_keys := ro_applied_template_keys r @ [gt_id tmpl]\<rparr>)
                (roadmaps s1)\<rparr>))"

section \<open>Progress and overdue\<close>

definition tasks_of :: "'a roadmap_db_scheme \<Rightarrow> uid \<Rightarrow> rtask list" where
  "tasks_of s m = filter (\<lambda>t. rt_milestone_id t = m) (rtasks s)"

definition milestone_progress :: "'a roadmap_db_scheme \<Rightarrow> milestone \<Rightarrow> int" where
  "milestone_progress s m =
     (let ts = tasks_of s (ms_id m)
      in if ts = [] then (if ms_status m = RM_done then 100 else 0)
         else percent (count_where (\<lambda>t. rt_status t = RM_done) ts) (length ts))"

definition update_milestone ::
    "uid \<Rightarrow> (milestone \<Rightarrow> milestone) \<Rightarrow> 'a roadmap_db_scheme \<Rightarrow> 'a roadmap_db_scheme" where
  "update_milestone i f s = s\<lparr>milestones := update_where (\<lambda>m. ms_id m = i) f (milestones s)\<rparr>"

definition recompute_milestone_progress :: "uid \<Rightarrow> 'a roadmap_db_scheme \<Rightarrow> 'a roadmap_db_scheme" where
  "recompute_milestone_progress i s =
     update_milestone i (\<lambda>m. m\<lparr>ms_progress := milestone_progress s m\<rparr>) s"

definition milestone_overdue :: "day \<Rightarrow> milestone \<Rightarrow> bool" where
  "milestone_overdue today m =
     (case ms_due_on m of None \<Rightarrow> False | Some d \<Rightarrow> d < today \<and> ms_status m \<noteq> RM_done)"

definition task_overdue :: "day \<Rightarrow> rtask \<Rightarrow> bool" where
  "task_overdue today t =
     (case rt_due_on t of None \<Rightarrow> False | Some d \<Rightarrow> d < today \<and> rt_status t \<noteq> RM_done)"

section \<open>Scoped lookups\<close>

definition require_roadmap :: "membership \<Rightarrow> 'a roadmap_db_scheme \<Rightarrow> roadmap result" where
  "require_roadmap m s = (case roadmap_of s (m_startup_id m) of None \<Rightarrow> Inl NotFound | Some r \<Rightarrow> Inr r)"

definition phase_in :: "'a roadmap_db_scheme \<Rightarrow> uid \<Rightarrow> uid \<Rightarrow> bool" where
  "phase_in s r p = (\<exists>x \<in> set (phases s). ph_id x = p \<and> ph_roadmap_id x = r)"

definition milestone_in :: "'a roadmap_db_scheme \<Rightarrow> uid \<Rightarrow> uid \<Rightarrow> bool" where
  "milestone_in s r m = (\<exists>x \<in> set (milestones s). ms_id x = m \<and> phase_in s r (ms_phase_id x))"

definition task_in :: "'a roadmap_db_scheme \<Rightarrow> uid \<Rightarrow> uid \<Rightarrow> bool" where
  "task_in s r t = (\<exists>x \<in> set (rtasks s). rt_id x = t \<and> milestone_in s r (rt_milestone_id x))"

definition find_phase :: "membership \<Rightarrow> uid \<Rightarrow> 'a roadmap_db_scheme \<Rightarrow> phase result" where
  "find_phase m i s =
     (case require_roadmap m s of
        Inl e \<Rightarrow> Inl e
      | Inr r \<Rightarrow> (case find (\<lambda>p. ph_id p = i \<and> ph_roadmap_id p = ro_id r) (phases s) of
                    None \<Rightarrow> Inl NotFound | Some p \<Rightarrow> Inr p))"

definition find_milestone :: "membership \<Rightarrow> uid \<Rightarrow> 'a roadmap_db_scheme \<Rightarrow> milestone result" where
  "find_milestone m i s =
     (case require_roadmap m s of
        Inl e \<Rightarrow> Inl e
      | Inr r \<Rightarrow> (case find (\<lambda>x. ms_id x = i \<and> phase_in s (ro_id r) (ms_phase_id x)) (milestones s) of
                    None \<Rightarrow> Inl NotFound | Some x \<Rightarrow> Inr x))"

definition find_task :: "membership \<Rightarrow> uid \<Rightarrow> 'a roadmap_db_scheme \<Rightarrow> rtask result" where
  "find_task m i s =
     (case require_roadmap m s of
        Inl e \<Rightarrow> Inl e
      | Inr r \<Rightarrow> (case find (\<lambda>x. rt_id x = i \<and> milestone_in s (ro_id r) (rt_milestone_id x)) (rtasks s) of
                    None \<Rightarrow> Inl NotFound | Some x \<Rightarrow> Inr x))"

definition validate_member :: "membership \<Rightarrow> uid option \<Rightarrow> string \<Rightarrow> 'a core_db_scheme \<Rightarrow> unit result" where
  "validate_member m u field s =
     (case u of
        None \<Rightarrow> Inr ()
      | Some i \<Rightarrow>
          (if \<exists>x \<in> set (memberships s). m_startup_id x = m_startup_id m \<and> m_user_id x = i \<and> m_status x = MS_active
           then Inr () else Inl (validation_error [field])))"

definition next_order :: "int list \<Rightarrow> int" where
  "next_order orders = (case orders of [] \<Rightarrow> 0 | x # xs \<Rightarrow> foldl max x xs + 1)"

definition order_or :: "int option \<Rightarrow> int list \<Rightarrow> int" where
  "order_or body orders = (case body of Some k \<Rightarrow> k | None \<Rightarrow> next_order orders)"

end
