(* ===== verification/Roadmap_Deps.thy ===== *)
theory Roadmap_Deps
  imports Roadmap
begin

text \<open>
  Task dependencies (\<^verbatim>\<open>app/services/roadmap/dependencies.py\<close>): the edges of a roadmap, the
  depth-first search that refuses an edge closing a loop, and the insertion of an edge, with the
  proof that the search decides reachability.
\<close>

definition roadmap_edges :: "'a roadmap_db_scheme \<Rightarrow> uid \<Rightarrow> (uid \<times> uid) list" where
  "roadmap_edges s r =
     map (\<lambda>e. (dp_task_id e, dp_depends_on_task_id e))
       (filter (\<lambda>e. task_in s r (dp_task_id e)) (task_dependencies s))"

text \<open>\<^verbatim>\<open>dependency_map(...).get(node, [])\<close>\<close>

definition deps_of :: "(uid \<times> uid) list \<Rightarrow> uid \<Rightarrow> uid list" where
  "deps_of es n = map snd (filter (\<lambda>e. fst e = n) es)"

lemma set_deps_of: "set (deps_of es n) = {d. (n, d) \<in> set es}"
  by (force simp: deps_of_def)

text \<open>
  The loop of \<^verbatim>\<open>would_create_cycle\<close>. The head of the list is the top of Python's stack, so
  \<^verbatim>\<open>stack.extend(xs)\<close> puts \<open>rev xs\<close> in front. Each round either shortens the stack or marks one
  more of the finitely many nodes it can ever hold.
\<close>

function dfs :: "(uid \<times> uid) list \<Rightarrow> uid \<Rightarrow> uid list \<Rightarrow> uid list \<Rightarrow> bool" where
  "dfs es target [] seen = False"
| "dfs es target (node # stack) seen =
     (if node = target then True
      else if node \<in> set seen then dfs es target stack seen
      else dfs es target (rev (deps_of es node) @ stack) (node # seen))"
  by pat_completeness auto

termination
proof (relation "inv_image (less_than <*lex*> less_than)
    (\<lambda>(es, target, stack, seen). (card ((set stack \<union> snd ` set es) - set seen), length stack))")
  fix es :: "(uid \<times> uid) list" and target node :: uid and stack seen :: "uid list"
  show "wf (inv_image (less_than <*lex*> less_than)
    (\<lambda>(es :: (uid \<times> uid) list, target :: uid, stack :: uid list, seen :: uid list).
        (card ((set stack \<union> snd ` set es) - set seen), length stack)))"
    by (rule wf_inv_image) auto
  assume "node \<noteq> target"
  show "((es, target, stack, seen), es, target, node # stack, seen) \<in> inv_image (less_than <*lex*> less_than)
    (\<lambda>(es, target, stack, seen). (card ((set stack \<union> snd ` set es) - set seen), length stack))"
    if "node \<in> set seen"
  proof -
    have "(set (node # stack) \<union> snd ` set es) - set seen = (set stack \<union> snd ` set es) - set seen"
      using that by auto
    then show ?thesis by simp
  qed
  show "((es, target, rev (deps_of es node) @ stack, node # seen), es, target, node # stack, seen)
      \<in> inv_image (less_than <*lex*> less_than)
    (\<lambda>(es, target, stack, seen). (card ((set stack \<union> snd ` set es) - set seen), length stack))"
    if "node \<notin> set seen"
  proof -
    let ?A = "(set (node # stack) \<union> snd ` set es) - set seen"
    have "(set (rev (deps_of es node) @ stack) \<union> snd ` set es) - set (node # seen) \<subseteq> ?A - {node}"
      by (auto simp: set_deps_of image_iff) force
    then have "card ((set (rev (deps_of es node) @ stack) \<union> snd ` set es) - set (node # seen)) \<le> card (?A - {node})"
      by (intro card_mono) auto
    also have "\<dots> < card ?A"
      using that by (intro psubset_card_mono) auto
    finally show ?thesis by simp
  qed
qed

definition would_create_cycle :: "'a roadmap_db_scheme \<Rightarrow> uid \<Rightarrow> uid \<Rightarrow> uid \<Rightarrow> bool" where
  "would_create_cycle s r task_id depends_on =
     dfs (roadmap_edges s r) task_id [depends_on] []"

definition add_dependency ::
    "uid \<Rightarrow> uid \<Rightarrow> 'a roadmap_db_scheme \<Rightarrow> bool \<times> 'a roadmap_db_scheme" where
  "add_dependency t d s =
     (case find (\<lambda>e. dp_task_id e = t \<and> dp_depends_on_task_id e = d) (task_dependencies s) of
        Some _ \<Rightarrow> (False, s)
      | None \<Rightarrow> (True, s\<lparr>task_dependencies := task_dependencies s @
                          [\<lparr>dp_task_id = t, dp_depends_on_task_id = d\<rparr>]\<rparr>))"

section \<open>The search decides reachability\<close>

lemma dfs_sound:
  "dfs es target stack seen \<Longrightarrow> \<exists>x \<in> set stack. (x, target) \<in> (set es)\<^sup>*"
proof (induction es target stack seen rule: dfs.induct)
  case (2 es target node stack seen)
  consider "node = target" | "node \<noteq> target" "node \<in> set seen" | "node \<noteq> target" "node \<notin> set seen" by blast
  then show ?case
  proof cases
    case 3
    then have "dfs es target (rev (deps_of es node) @ stack) (node # seen)" using 2(3) by simp
    then obtain x where x: "x \<in> set (rev (deps_of es node) @ stack)" "(x, target) \<in> (set es)\<^sup>*"
      using 2(2) 3 by blast
    then show ?thesis
    proof (cases "x \<in> set stack")
      case False
      then have "(node, x) \<in> set es" using x(1) by (simp add: set_deps_of)
      then show ?thesis using x(2) by (auto intro: converse_rtrancl_into_rtrancl)
    qed auto
  qed (use 2 in auto)
qed simp

text \<open>
  The invariant of the loop: everything a seen node points to is seen or still on the stack. When
  the stack runs empty the seen nodes are closed under the edges, so nothing outside them, the
  target in particular, can be reached from where the search started.
\<close>

lemma dfs_complete:
  assumes "\<not> dfs es target stack seen" "target \<notin> set seen"
    and "\<forall>x \<in> set seen. \<forall>y. (x, y) \<in> set es \<longrightarrow> y \<in> set seen \<union> set stack"
  shows "\<exists>C. set seen \<union> set stack \<subseteq> C \<and> target \<notin> C \<and> (\<forall>x \<in> C. \<forall>y. (x, y) \<in> set es \<longrightarrow> y \<in> C)"
  using assms
proof (induction es target stack seen rule: dfs.induct)
  case (1 es target seen)
  then show ?case by (intro exI [of _ "set seen"]) simp
next
  case (2 es target node stack seen)
  have nt: "node \<noteq> target" using 2(3) by auto
  show ?case
  proof (cases "node \<in> set seen")
    case True
    then have "\<not> dfs es target stack seen" using 2(3) nt by simp
    moreover have "\<forall>x \<in> set seen. \<forall>y. (x, y) \<in> set es \<longrightarrow> y \<in> set seen \<union> set stack"
      using 2(5) True by auto
    ultimately obtain C where "set seen \<union> set stack \<subseteq> C" "target \<notin> C"
      "\<forall>x \<in> C. \<forall>y. (x, y) \<in> set es \<longrightarrow> y \<in> C"
      using 2(1) [OF nt True _ 2(4)] by metis
    then show ?thesis using True by (intro exI [of _ C]) auto
  next
    case False
    have "\<not> dfs es target (rev (deps_of es node) @ stack) (node # seen)" using 2(3) nt False by simp
    moreover have "target \<notin> set (node # seen)" using nt 2(4) by simp
    moreover have "\<forall>x \<in> set (node # seen). \<forall>y. (x, y) \<in> set es \<longrightarrow>
        y \<in> set (node # seen) \<union> set (rev (deps_of es node) @ stack)"
      using 2(5) by (auto simp: set_deps_of)
    ultimately obtain C where "set (node # seen) \<union> set (rev (deps_of es node) @ stack) \<subseteq> C"
      "target \<notin> C" "\<forall>x \<in> C. \<forall>y. (x, y) \<in> set es \<longrightarrow> y \<in> C"
      using 2(2) [OF nt False] by metis
    then show ?thesis by (intro exI [of _ C]) auto
  qed
qed

lemma dfs_iff: "dfs es target [start] [] \<longleftrightarrow> (start, target) \<in> (set es)\<^sup>*"
proof
  assume "dfs es target [start] []"
  then show "(start, target) \<in> (set es)\<^sup>*" using dfs_sound [of es target "[start]" "[]"] by simp
next
  assume reach: "(start, target) \<in> (set es)\<^sup>*"
  show "dfs es target [start] []"
  proof (rule ccontr)
    assume "\<not> ?thesis"
    then obtain C where C: "start \<in> C" "target \<notin> C" "\<forall>x \<in> C. \<forall>y. (x, y) \<in> set es \<longrightarrow> y \<in> C"
      using dfs_complete [of es target "[start]" "[]"] by auto
    from reach C(1) have "target \<in> C"
      by (induction rule: rtrancl_induct) (use C(3) in auto)
    with C(2) show False by blast
  qed
qed

definition dep_rel :: "'a roadmap_db_scheme \<Rightarrow> (uid \<times> uid) set" where
  "dep_rel s = (\<lambda>e. (dp_task_id e, dp_depends_on_task_id e)) ` set (task_dependencies s)"

text \<open>Both ends of every edge are tasks of one roadmap.\<close>

definition edges_local :: "'a roadmap_db_scheme \<Rightarrow> bool" where
  "edges_local s \<longleftrightarrow> (\<forall>r. \<forall>(a, b) \<in> dep_rel s. task_in s r a \<longleftrightarrow> task_in s r b)"

lemma set_roadmap_edges: "set (roadmap_edges s r) = {(a, b) \<in> dep_rel s. task_in s r a}"
  by (auto simp: roadmap_edges_def dep_rel_def)

lemma local_path:
  assumes "edges_local s" "(a, b) \<in> (dep_rel s)\<^sup>*" "task_in s r a"
  shows "(a, b) \<in> (set (roadmap_edges s r))\<^sup>* \<and> task_in s r b"
  using assms(2)
proof (induction rule: rtrancl_induct)
  case (step y z)
  then have "task_in s r z" using assms(1) by (auto simp: edges_local_def)
  moreover have "(y, z) \<in> set (roadmap_edges s r)" using step by (simp add: set_roadmap_edges)
  ultimately show ?case using step.IH by (meson rtrancl.rtrancl_into_rtrancl)
qed (use assms(3) in simp)

lemma would_create_cycle_reach:
  assumes "edges_local s" "task_in s r d"
  shows "would_create_cycle s r t d \<longleftrightarrow> (d, t) \<in> (dep_rel s)\<^sup>*"
proof -
  have "(set (roadmap_edges s r))\<^sup>* \<subseteq> (dep_rel s)\<^sup>*"
    by (rule rtrancl_mono) (auto simp: set_roadmap_edges)
  then show ?thesis
    unfolding would_create_cycle_def dfs_iff using local_path [OF assms(1) _ assms(2)] by blast
qed

end
