(* ===== verification/Roadmap_Edit.thy ===== *)
theory Roadmap_Edit
  imports Roadmap_Deps
begin

text \<open>
  The editing endpoints of the roadmap (\<^verbatim>\<open>app/api/v1/endpoints/roadmap.py\<close>). Each is the body
  that runs after its guard with the caller's membership; deleting a row deletes what hangs on it
  (\<^verbatim>\<open>ON DELETE CASCADE\<close>). The request bodies are the records of \<^verbatim>\<open>app/schemas/roadmap.py\<close>: a field
  of an update is \<open>None\<close> when it is unset, and a nullable one may be set to null.
\<close>

record phase_create =
  pc_name :: string
  pc_order :: "int option"
  pc_starts_on :: "day option"
  pc_ends_on :: "day option"

record phase_update =
  pu_name :: "string option"
  pu_order :: "int option"
  pu_starts_on :: "day option option"
  pu_ends_on :: "day option option"

record milestone_create =
  mc_phase_id :: uid
  mc_title :: string
  mc_description :: "string option"
  mc_due_on :: "day option"
  mc_owner_id :: "uid option"
  mc_status :: "roadmap_status option"
  mc_order :: "int option"

record milestone_update =
  mu_title :: "string option"
  mu_description :: "string option option"
  mu_due_on :: "day option option"
  mu_owner_id :: "uid option option"
  mu_status :: "roadmap_status option"
  mu_order :: "int option"

record task_create =
  tc_milestone_id :: uid
  tc_title :: string
  tc_description :: "string option"
  tc_effort :: "task_effort option"
  tc_status :: "roadmap_status option"
  tc_assignee_id :: "uid option"
  tc_due_on :: "day option"
  tc_order :: "int option"

record task_update =
  tu_title :: "string option"
  tu_description :: "string option option"
  tu_effort :: "task_effort option"
  tu_status :: "roadmap_status option"
  tu_assignee_id :: "uid option option"
  tu_due_on :: "day option option"
  tu_order :: "int option"

definition set_field :: "'v option \<Rightarrow> 'v \<Rightarrow> 'v" where
  "set_field new old = (case new of None \<Rightarrow> old | Some v \<Rightarrow> v)"

section \<open>Deletion with its cascade\<close>

definition delete_tasks :: "(rtask \<Rightarrow> bool) \<Rightarrow> 'a roadmap_db_scheme \<Rightarrow> 'a roadmap_db_scheme" where
  "delete_tasks P s =
     (let gone = map rt_id (filter P (rtasks s))
      in s\<lparr>rtasks := delete_where P (rtasks s),
           task_dependencies := delete_where (\<lambda>e. dp_task_id e \<in> set gone \<or> dp_depends_on_task_id e \<in> set gone)
             (task_dependencies s)\<rparr>)"

definition delete_milestones :: "(milestone \<Rightarrow> bool) \<Rightarrow> 'a roadmap_db_scheme \<Rightarrow> 'a roadmap_db_scheme" where
  "delete_milestones P s =
     (let gone = map ms_id (filter P (milestones s))
      in delete_tasks (\<lambda>t. rt_milestone_id t \<in> set gone) (s\<lparr>milestones := delete_where P (milestones s)\<rparr>))"

definition delete_phase_row :: "uid \<Rightarrow> 'a roadmap_db_scheme \<Rightarrow> 'a roadmap_db_scheme" where
  "delete_phase_row i s =
     delete_milestones (\<lambda>m. ms_phase_id m = i) (s\<lparr>phases := delete_where (\<lambda>p. ph_id p = i) (phases s)\<rparr>)"

section \<open>The endpoints\<close>

definition get_roadmap ::
    "instant \<Rightarrow> day \<Rightarrow> membership \<Rightarrow> 'a roadmap_db_scheme \<Rightarrow> roadmap result \<times> 'a roadmap_db_scheme" where
  "get_roadmap now today m s =
     (case startup_by_id s (m_startup_id m) of
        None \<Rightarrow> (Inl NotFound, s)
      | Some st \<Rightarrow>
          (case roadmap_of s (m_startup_id m) of
             Some r \<Rightarrow> (Inr r, s)
           | None \<Rightarrow> (let (r, s1) = generate_roadmap now today st s in (Inr r, s1))))"

definition post_generate ::
    "instant \<Rightarrow> day \<Rightarrow> membership \<Rightarrow> 'a roadmap_db_scheme \<Rightarrow> uid result \<times> 'a roadmap_db_scheme" where
  "post_generate now today m s =
     (case startup_by_id s (m_startup_id m) of
        None \<Rightarrow> (Inl NotFound, s)
      | Some st \<Rightarrow>
          (let (_, s1) = generate_roadmap now today st s;
               (j, s2) = enqueue now ''roadmap.generate'' [(''startup_id'', JUid (st_id st))] (Some (st_id st)) s1
           in (Inr (j_id j),
               s2\<lparr>jobs := update_where (\<lambda>x. j_id x = j_id j) (\<lambda>x. x\<lparr>j_status := JS_succeeded\<rparr>) (jobs s2)\<rparr>)))"

text \<open>The answer: whether the template had been applied, and what was added.\<close>

definition apply_template_ep ::
    "instant \<Rightarrow> day \<Rightarrow> string \<Rightarrow> membership \<Rightarrow> 'a roadmap_db_scheme
     \<Rightarrow> (bool \<times> nat \<times> nat \<times> nat) result \<times> 'a roadmap_db_scheme" where
  "apply_template_ep now today tid m s =
     (case gallery_get tid of
        None \<Rightarrow> (Inl NotFound, s)
      | Some tmpl \<Rightarrow>
          (case startup_by_id s (m_startup_id m) of
             None \<Rightarrow> (Inl NotFound, s)
           | Some st \<Rightarrow>
               (let (r, s1) = (case roadmap_of s (m_startup_id m) of
                                 Some r \<Rightarrow> (r, s) | None \<Rightarrow> generate_roadmap now today st s)
                in if tid \<in> set (ro_applied_template_keys r) then (Inr (True, 0, 0, 0), s1)
                   else (let (added, s2) = apply_template today r tmpl s1;
                             (p, ms, ts) = added
                         in (Inr (False, added),
                             publish now ''roadmap.template.applied''
                               [(''startup_id'', JUid (m_startup_id m)), (''roadmap_id'', JUid (ro_id r)),
                                (''template_id'', JStr tid),
                                (''added'', JObj [(''phases'', JInt (int p)), (''milestones'', JInt (int ms)),
                                                  (''tasks'', JInt (int ts))])] s2)))))"

definition create_phase ::
    "phase_create \<Rightarrow> membership \<Rightarrow> 'a roadmap_db_scheme \<Rightarrow> phase result \<times> 'a roadmap_db_scheme" where
  "create_phase body m s =
     (case require_roadmap m s of
        Inl e \<Rightarrow> (Inl e, s)
      | Inr r \<Rightarrow>
          (let (i, s1) = fresh_id s;
               p = \<lparr>ph_id = i, ph_roadmap_id = ro_id r, ph_name = pc_name body,
                    ph_order = order_or (pc_order body)
                      (map ph_order (filter (\<lambda>p. ph_roadmap_id p = ro_id r) (phases s))),
                    ph_starts_on = pc_starts_on body, ph_ends_on = pc_ends_on body\<rparr>
           in (Inr p, s1\<lparr>phases := phases s1 @ [p]\<rparr>)))"

definition update_phase ::
    "uid \<Rightarrow> phase_update \<Rightarrow> membership \<Rightarrow> 'a roadmap_db_scheme \<Rightarrow> phase result \<times> 'a roadmap_db_scheme" where
  "update_phase i body m s =
     (case find_phase m i s of
        Inl e \<Rightarrow> (Inl e, s)
      | Inr p \<Rightarrow>
          (let f = (\<lambda>p :: phase. p\<lparr>ph_name := set_field (pu_name body) (ph_name p),
                           ph_order := set_field (pu_order body) (ph_order p),
                           ph_starts_on := set_field (pu_starts_on body) (ph_starts_on p),
                           ph_ends_on := set_field (pu_ends_on body) (ph_ends_on p)\<rparr>)
           in (Inr (f p), s\<lparr>phases := update_where (\<lambda>x. ph_id x = i) f (phases s)\<rparr>)))"

definition delete_phase ::
    "uid \<Rightarrow> membership \<Rightarrow> 'a roadmap_db_scheme \<Rightarrow> unit result \<times> 'a roadmap_db_scheme" where
  "delete_phase i m s =
     (case find_phase m i s of Inl e \<Rightarrow> (Inl e, s) | Inr p \<Rightarrow> (Inr (), delete_phase_row i s))"

definition create_milestone_ep ::
    "milestone_create \<Rightarrow> membership \<Rightarrow> 'a roadmap_db_scheme \<Rightarrow> milestone result \<times> 'a roadmap_db_scheme" where
  "create_milestone_ep body m s =
     (case find_phase m (mc_phase_id body) s of
        Inl e \<Rightarrow> (Inl e, s)
      | Inr p \<Rightarrow>
          (case validate_member m (mc_owner_id body) ''owner_id'' s of
             Inl e \<Rightarrow> (Inl e, s)
           | Inr _ \<Rightarrow>
               (let (i, s1) = fresh_id s;
                    st = (case mc_status body of Some x \<Rightarrow> x | None \<Rightarrow> RM_todo);
                    ms = \<lparr>ms_id = i, ms_phase_id = ph_id p, ms_title = mc_title body,
                          ms_description = mc_description body, ms_due_on = mc_due_on body,
                          ms_owner_id = mc_owner_id body, ms_status = st,
                          ms_progress = (if st = RM_done then 100 else 0),
                          ms_order = order_or (mc_order body)
                            (map ms_order (filter (\<lambda>x. ms_phase_id x = ph_id p) (milestones s))),
                          ms_last_replanned_at = None, ms_last_replan_reason = None\<rparr>
                in (Inr ms, s1\<lparr>milestones := milestones s1 @ [ms]\<rparr>))))"

definition apply_milestone_update :: "milestone_update \<Rightarrow> milestone \<Rightarrow> milestone" where
  "apply_milestone_update body x =
     x\<lparr>ms_title := set_field (mu_title body) (ms_title x),
       ms_description := set_field (mu_description body) (ms_description x),
       ms_due_on := set_field (mu_due_on body) (ms_due_on x),
       ms_owner_id := set_field (mu_owner_id body) (ms_owner_id x),
       ms_status := set_field (mu_status body) (ms_status x),
       ms_order := set_field (mu_order body) (ms_order x)\<rparr>"

text \<open>\<open>name\<close> is \<^verbatim>\<open>_actor_name(user)\<close>.\<close>

definition actor_name :: "user \<Rightarrow> string" where
  "actor_name u =
     (case u_profile u of
        None \<Rightarrow> ''A teammate''
      | Some p \<Rightarrow> (case up_full_name p of None \<Rightarrow> ''A teammate'' | Some n \<Rightarrow> if n = [] then ''A teammate'' else n))"

definition update_milestone_ep ::
    "instant \<Rightarrow> uid \<Rightarrow> milestone_update \<Rightarrow> user \<Rightarrow> membership \<Rightarrow> 'a roadmap_db_scheme
     \<Rightarrow> unit result \<times> 'a roadmap_db_scheme" where
  "update_milestone_ep now i body user m s =
     (case find_milestone m i s of
        Inl e \<Rightarrow> (Inl e, s)
      | Inr x \<Rightarrow>
          (case (case mu_owner_id body of None \<Rightarrow> Inr () | Some o' \<Rightarrow> validate_member m o' ''owner_id'' s) of
             Inl e \<Rightarrow> (Inl e, s)
           | Inr _ \<Rightarrow>
               (let s1 = recompute_milestone_progress i (update_milestone i (apply_milestone_update body) s);
                    y = apply_milestone_update body x
                in if ms_status y = RM_done \<and> ms_status x \<noteq> RM_done
                   then (case require_roadmap m s1 of
                           Inl e \<Rightarrow> (Inl e, s1)
                         | Inr r \<Rightarrow>
                             (Inr (), write_activity now (m_startup_id m) ''roadmap.milestone.completed''
                                (actor_name user @ '' completed milestone '' @ [CHR 0x27] @ ms_title y @ [CHR 0x27])
                                (Some (u_id user)) (Some ''roadmap_milestone'') (Some i) None
                                (publish now ''roadmap.milestone.completed''
                                   [(''startup_id'', JUid (m_startup_id m)), (''roadmap_id'', JUid (ro_id r)),
                                    (''milestone_id'', JUid i), (''title'', JStr (ms_title y)),
                                    (''actor_id'', JUid (m_user_id m))] s1)))
                   else (Inr (), s1))))"

definition delete_milestone_ep ::
    "uid \<Rightarrow> membership \<Rightarrow> 'a roadmap_db_scheme \<Rightarrow> unit result \<times> 'a roadmap_db_scheme" where
  "delete_milestone_ep i m s =
     (case find_milestone m i s of
        Inl e \<Rightarrow> (Inl e, s)
      | Inr x \<Rightarrow> (Inr (), delete_milestones (\<lambda>y. ms_id y = i) s))"

definition create_task_ep ::
    "task_create \<Rightarrow> membership \<Rightarrow> 'a roadmap_db_scheme \<Rightarrow> rtask result \<times> 'a roadmap_db_scheme" where
  "create_task_ep body m s =
     (case find_milestone m (tc_milestone_id body) s of
        Inl e \<Rightarrow> (Inl e, s)
      | Inr x \<Rightarrow>
          (case validate_member m (tc_assignee_id body) ''assignee_id'' s of
             Inl e \<Rightarrow> (Inl e, s)
           | Inr _ \<Rightarrow>
               (let (i, s1) = fresh_id s;
                    t = \<lparr>rt_id = i, rt_milestone_id = ms_id x, rt_title = tc_title body,
                         rt_description = tc_description body,
                         rt_effort = (case tc_effort body of Some y \<Rightarrow> y | None \<Rightarrow> TE_medium),
                         rt_status = (case tc_status body of Some y \<Rightarrow> y | None \<Rightarrow> RM_todo),
                         rt_assignee_id = tc_assignee_id body, rt_due_on = tc_due_on body,
                         rt_order = order_or (tc_order body) (map rt_order (tasks_of s (ms_id x)))\<rparr>
                in (Inr t, recompute_milestone_progress (ms_id x) (s1\<lparr>rtasks := rtasks s1 @ [t]\<rparr>)))))"

definition apply_task_update :: "task_update \<Rightarrow> rtask \<Rightarrow> rtask" where
  "apply_task_update body t =
     t\<lparr>rt_title := set_field (tu_title body) (rt_title t),
       rt_description := set_field (tu_description body) (rt_description t),
       rt_effort := set_field (tu_effort body) (rt_effort t),
       rt_status := set_field (tu_status body) (rt_status t),
       rt_assignee_id := set_field (tu_assignee_id body) (rt_assignee_id t),
       rt_due_on := set_field (tu_due_on body) (rt_due_on t),
       rt_order := set_field (tu_order body) (rt_order t)\<rparr>"

definition update_task_row :: "uid \<Rightarrow> (rtask \<Rightarrow> rtask) \<Rightarrow> 'a roadmap_db_scheme \<Rightarrow> 'a roadmap_db_scheme" where
  "update_task_row i f s = s\<lparr>rtasks := update_where (\<lambda>t. rt_id t = i) f (rtasks s)\<rparr>"

definition update_task_ep ::
    "uid \<Rightarrow> task_update \<Rightarrow> membership \<Rightarrow> 'a roadmap_db_scheme \<Rightarrow> rtask result \<times> 'a roadmap_db_scheme" where
  "update_task_ep i body m s =
     (case find_task m i s of
        Inl e \<Rightarrow> (Inl e, s)
      | Inr t \<Rightarrow>
          (case (case tu_assignee_id body of None \<Rightarrow> Inr () | Some a \<Rightarrow> validate_member m a ''assignee_id'' s) of
             Inl e \<Rightarrow> (Inl e, s)
           | Inr _ \<Rightarrow>
               (Inr (apply_task_update body t),
                recompute_milestone_progress (rt_milestone_id t)
                  (update_task_row i (apply_task_update body) s))))"

definition delete_task_ep ::
    "uid \<Rightarrow> membership \<Rightarrow> 'a roadmap_db_scheme \<Rightarrow> unit result \<times> 'a roadmap_db_scheme" where
  "delete_task_ep i m s =
     (case find_task m i s of
        Inl e \<Rightarrow> (Inl e, s)
      | Inr t \<Rightarrow> (Inr (), recompute_milestone_progress (rt_milestone_id t) (delete_tasks (\<lambda>x. rt_id x = i) s)))"

definition create_dependency_ep ::
    "uid \<Rightarrow> uid \<Rightarrow> membership \<Rightarrow> 'a roadmap_db_scheme \<Rightarrow> bool result \<times> 'a roadmap_db_scheme" where
  "create_dependency_ep task_id depends_on m s =
     (case find_task m task_id s of
        Inl e \<Rightarrow> (Inl e, s)
      | Inr dependent \<Rightarrow>
          if depends_on = rt_id dependent then (Inl (validation_error [''depends_on_task_id'']), s)
          else (case find_task m depends_on s of
                  Inl e \<Rightarrow> (Inl e, s)
                | Inr dependency \<Rightarrow>
                    (case require_roadmap m s of
                       Inl e \<Rightarrow> (Inl e, s)
                     | Inr r \<Rightarrow>
                         if would_create_cycle s (ro_id r) (rt_id dependent) (rt_id dependency)
                         then (Inl DependencyCycle, s)
                         else (let (created, s1) = add_dependency (rt_id dependent) (rt_id dependency) s
                               in (Inr created, s1)))))"

definition delete_dependency_ep ::
    "uid \<Rightarrow> uid \<Rightarrow> membership \<Rightarrow> 'a roadmap_db_scheme \<Rightarrow> unit result \<times> 'a roadmap_db_scheme" where
  "delete_dependency_ep task_id depends_on m s =
     (case find_task m task_id s of
        Inl e \<Rightarrow> (Inl e, s)
      | Inr t \<Rightarrow>
          (let P = (\<lambda>e. dp_task_id e = rt_id t \<and> dp_depends_on_task_id e = depends_on)
           in if find P (task_dependencies s) = None then (Inl NotFound, s)
              else (Inr (), s\<lparr>task_dependencies := delete_where P (task_dependencies s)\<rparr>)))"

end
