(* ===== verification/Roadmap_Inv.thy ===== *)
theory Roadmap_Inv
  imports Roadmap_Edit
begin

text \<open>
  What every request on a roadmap keeps: ids are unique and drawn from the supply, rows hang on
  existing rows, the stored progress of a milestone is the one its tasks give, both ends of a
  dependency are tasks of one roadmap, and the dependencies have no loop.
\<close>

definition progress_ok :: "'a roadmap_db_scheme \<Rightarrow> bool" where
  "progress_ok s \<longleftrightarrow> (\<forall>m \<in> set (milestones s). ms_progress m = milestone_progress s m)"

definition edges_inside :: "'a roadmap_db_scheme \<Rightarrow> bool" where
  "edges_inside s \<longleftrightarrow> (\<forall>(a, b) \<in> dep_rel s. \<exists>r. task_in s r a \<and> task_in s r b)"

definition tree_ok :: "'a roadmap_db_scheme \<Rightarrow> bool" where
  "tree_ok s \<longleftrightarrow>
     distinct (map ph_id (phases s)) \<and> distinct (map ms_id (milestones s)) \<and> distinct (map rt_id (rtasks s))
     \<and> ids_below (fresh s) (map ph_id (phases s)) \<and> ids_below (fresh s) (map ms_id (milestones s))
     \<and> ids_below (fresh s) (map rt_id (rtasks s))
     \<and> set (map rt_milestone_id (rtasks s)) \<subseteq> set (map ms_id (milestones s))
     \<and> set (map ms_phase_id (milestones s)) \<subseteq> set (map ph_id (phases s))"

definition roadmap_inv :: "'a roadmap_db_scheme \<Rightarrow> bool" where
  "roadmap_inv s \<longleftrightarrow> tree_ok s \<and> progress_ok s \<and> edges_inside s \<and> acyclic (dep_rel s)"

section \<open>Rows that are only added to, or updated in place\<close>

lemma task_in_mono:
  assumes "task_in s r t"
    and "\<And>x. x \<in> set (rtasks s) \<Longrightarrow> rt_id x = t \<Longrightarrow> \<exists>x' \<in> set (rtasks s'). rt_id x' = t \<and> rt_milestone_id x' = rt_milestone_id x"
    and "\<And>x. x \<in> set (milestones s) \<Longrightarrow> \<exists>x' \<in> set (milestones s'). ms_id x' = ms_id x \<and> ms_phase_id x' = ms_phase_id x"
    and "\<And>x. x \<in> set (phases s) \<Longrightarrow> \<exists>x' \<in> set (phases s'). ph_id x' = ph_id x \<and> ph_roadmap_id x' = ph_roadmap_id x"
  shows "task_in s' r t"
proof -
  obtain x m p where "x \<in> set (rtasks s)" "rt_id x = t" "m \<in> set (milestones s)" "ms_id m = rt_milestone_id x"
    "p \<in> set (phases s)" "ph_id p = ms_phase_id m" "ph_roadmap_id p = r"
    using assms(1) by (auto simp: task_in_def milestone_in_def phase_in_def)
  moreover obtain p' where "p' \<in> set (phases s')" "ph_id p' = ph_id p" "ph_roadmap_id p' = ph_roadmap_id p"
    using assms(4) calculation by blast
  moreover obtain m' where "m' \<in> set (milestones s')" "ms_id m' = ms_id m" "ms_phase_id m' = ms_phase_id m"
    using assms(3) calculation by blast
  moreover obtain x' where "x' \<in> set (rtasks s')" "rt_id x' = t" "rt_milestone_id x' = rt_milestone_id x"
    using assms(2) calculation by blast
  ultimately show ?thesis
    unfolding task_in_def milestone_in_def phase_in_def by (intro bexI [of _ x'] conjI bexI [of _ m'] bexI [of _ p']) simp_all
qed

lemma in_map_pair:
  assumes "map (\<lambda>x. (k x, l x)) t = map (\<lambda>x. (k x, l x)) u" "x \<in> set t"
  shows "\<exists>x' \<in> set u. k x' = k x \<and> l x' = l x"
proof -
  have "(k x, l x) \<in> set (map (\<lambda>x. (k x, l x)) t)" using assms(2) by simp
  then have "(k x, l x) \<in> set (map (\<lambda>x. (k x, l x)) u)" by (simp only: assms(1))
  then show ?thesis by auto
qed

lemma map_pair_fst:
  assumes "map (\<lambda>x. (k x, l x)) t = map (\<lambda>x. (k x, l x)) u"
  shows "map k t = map k u \<and> map l t = map l u"
  using arg_cong [OF assms, of "map fst"] arg_cong [OF assms, of "map snd"] by (simp add: comp_def)

text \<open>A change that keeps the ids and parents of all rows keeps the tree and the edges.\<close>

lemma shape_kept:
  assumes "map (\<lambda>x. (rt_id x, rt_milestone_id x)) (rtasks s') = map (\<lambda>x. (rt_id x, rt_milestone_id x)) (rtasks s)"
    and "map (\<lambda>x. (ms_id x, ms_phase_id x)) (milestones s') = map (\<lambda>x. (ms_id x, ms_phase_id x)) (milestones s)"
    and "map (\<lambda>x. (ph_id x, ph_roadmap_id x)) (phases s') = map (\<lambda>x. (ph_id x, ph_roadmap_id x)) (phases s)"
    and "set (task_dependencies s') \<subseteq> set (task_dependencies s)" "fresh s \<le> fresh s'"
  shows "tree_ok s \<Longrightarrow> tree_ok s'" "edges_inside s \<Longrightarrow> edges_inside s'"
    "acyclic (dep_rel s) \<Longrightarrow> acyclic (dep_rel s')"
proof -
  note m = map_pair_fst [OF assms(1)] map_pair_fst [OF assms(2)] map_pair_fst [OF assms(3)]
  show "tree_ok s'" if "tree_ok s"
    using that m ids_below_mono [OF _ assms(5)] unfolding tree_ok_def by presburger
  have sub: "dep_rel s' \<subseteq> dep_rel s" using assms(4) by (auto simp: dep_rel_def)
  then show "acyclic (dep_rel s')" if "acyclic (dep_rel s)" using that by (rule acyclic_subset [rotated])
  have "task_in s' r t" if "task_in s r t" for r t
  proof (rule task_in_mono [OF that])
    show "\<exists>x' \<in> set (rtasks s'). rt_id x' = t \<and> rt_milestone_id x' = rt_milestone_id x"
      if "x \<in> set (rtasks s)" "rt_id x = t" for x
      using in_map_pair [OF assms(1) [symmetric] that(1)] that(2) by simp
    show "\<exists>x' \<in> set (milestones s'). ms_id x' = ms_id x \<and> ms_phase_id x' = ms_phase_id x"
      if "x \<in> set (milestones s)" for x
      by (rule in_map_pair [OF assms(2) [symmetric] that])
    show "\<exists>x' \<in> set (phases s'). ph_id x' = ph_id x \<and> ph_roadmap_id x' = ph_roadmap_id x"
      if "x \<in> set (phases s)" for x
      by (rule in_map_pair [OF assms(3) [symmetric] that])
  qed
  then show "edges_inside s'" if "edges_inside s"
    using that sub unfolding edges_inside_def by fast
qed

lemma milestone_progress_cong:
  "tasks_of s' (ms_id m) = tasks_of s (ms_id m) \<Longrightarrow> milestone_progress s' m = milestone_progress s m"
  by (simp add: milestone_progress_def)

lemma milestone_progress_fields [simp]:
  "milestone_progress s (m\<lparr>ms_progress := p\<rparr>) = milestone_progress s m"
  by (simp add: milestone_progress_def)

lemma milestone_progress_tables [simp]:
  "milestone_progress (update_milestone i f s) m = milestone_progress s m"
  "milestone_progress (milestones_update g s) m = milestone_progress s m"
  "milestone_progress (fresh_update h s) m = milestone_progress s m"
  by (simp_all add: milestone_progress_def tasks_of_def update_milestone_def)

text \<open>
  The recomputation repairs the milestone it is given, so an operation that ends with it only has
  to leave the tasks of the other milestones alone.
\<close>

lemma progress_recompute:
  assumes "\<And>m. m \<in> set (milestones s) \<Longrightarrow> ms_id m \<noteq> i \<Longrightarrow> ms_progress m = milestone_progress s m"
  shows "progress_ok (recompute_milestone_progress i s)"
  using assms
  by (auto simp: progress_ok_def recompute_milestone_progress_def update_milestone_def elim!: in_update_whereE)

lemma recompute_shape:
  "map (\<lambda>x. (ms_id x, ms_phase_id x)) (milestones (recompute_milestone_progress i s)) =
     map (\<lambda>x. (ms_id x, ms_phase_id x)) (milestones s)"
  "rtasks (recompute_milestone_progress i s) = rtasks s"
  "phases (recompute_milestone_progress i s) = phases s"
  "task_dependencies (recompute_milestone_progress i s) = task_dependencies s"
  "fresh (recompute_milestone_progress i s) = fresh s"
  "roadmaps (recompute_milestone_progress i s) = roadmaps s"
  by (simp_all add: recompute_milestone_progress_def update_milestone_def map_update_where)

lemma recompute_inv:
  assumes "tree_ok s" "edges_inside s" "acyclic (dep_rel s)"
    and "\<And>m. m \<in> set (milestones s) \<Longrightarrow> ms_id m \<noteq> i \<Longrightarrow> ms_progress m = milestone_progress s m"
  shows "roadmap_inv (recompute_milestone_progress i s)"
  unfolding roadmap_inv_def
  using shape_kept [of "recompute_milestone_progress i s" s] assms progress_recompute [of s i]
  by (simp add: recompute_shape)

text \<open>Other tables of the database do not matter.\<close>

lemma roadmap_inv_cong:
  assumes "roadmap_inv s" "rtasks s' = rtasks s" "milestones s' = milestones s" "phases s' = phases s"
    "task_dependencies s' = task_dependencies s" "fresh s \<le> fresh s'"
  shows "roadmap_inv s'"
proof -
  have "milestone_progress s' m = milestone_progress s m" for m
    by (rule milestone_progress_cong) (simp add: tasks_of_def assms(2))
  then have "progress_ok s'" using assms(1,3) by (simp add: roadmap_inv_def progress_ok_def)
  then show ?thesis
    using shape_kept [of s' s] assms by (simp add: roadmap_inv_def)
qed

lemma publish_roadmap [simp]:
  "roadmaps (publish now e p s) = roadmaps s" "phases (publish now e p s) = phases s"
  "milestones (publish now e p s) = milestones s" "rtasks (publish now e p s) = rtasks s"
  "task_dependencies (publish now e p s) = task_dependencies s" "replans (publish now e p s) = replans s"
  by (rule publish_frame [of now e p s]; simp)+

lemma write_activity_roadmap [simp]:
  "roadmaps (write_activity now st a m ac ety eid meta s) = roadmaps s"
  "phases (write_activity now st a m ac ety eid meta s) = phases s"
  "milestones (write_activity now st a m ac ety eid meta s) = milestones s"
  "rtasks (write_activity now st a m ac ety eid meta s) = rtasks s"
  "task_dependencies (write_activity now st a m ac ety eid meta s) = task_dependencies s"
  by (simp_all add: write_activity_def)

lemma publish_inv: "roadmap_inv s \<Longrightarrow> roadmap_inv (publish now e p s)"
  by (erule roadmap_inv_cong) (simp_all add: publish_fresh)

lemma write_activity_inv: "roadmap_inv s \<Longrightarrow> roadmap_inv (write_activity now st a m ac ety eid meta s)"
  by (erule roadmap_inv_cong) simp_all

section \<open>New rows\<close>

lemma grown:
  assumes "set (rtasks s) \<subseteq> set (rtasks s')" "set (milestones s) \<subseteq> set (milestones s')"
    "set (phases s) \<subseteq> set (phases s')" "task_dependencies s' = task_dependencies s"
  shows "edges_inside s \<Longrightarrow> edges_inside s'" "acyclic (dep_rel s) \<Longrightarrow> acyclic (dep_rel s')"
proof -
  have d: "dep_rel s' = dep_rel s" by (simp add: dep_rel_def assms(4))
  then show "acyclic (dep_rel s) \<Longrightarrow> acyclic (dep_rel s')" by simp
  have "task_in s' r t" if "task_in s r t" for r t
    using that by (rule task_in_mono) (use assms(1-3) in blast)+
  then show "edges_inside s \<Longrightarrow> edges_inside s'" unfolding edges_inside_def d by fast
qed

lemma tree_ok_fresh:
  assumes "tree_ok s"
  shows "fresh s \<notin> set (map ph_id (phases s))" "fresh s \<notin> set (map ms_id (milestones s))"
    "fresh s \<notin> set (map rt_id (rtasks s))" "fresh s \<notin> set (map rt_milestone_id (rtasks s))"
    "fresh s \<notin> set (map ms_phase_id (milestones s))"
  using assms unfolding tree_ok_def by (blast dest: ids_below_fresh)+

lemma new_phase_inv:
  assumes "roadmap_inv s" "ph_id p = fresh s"
  shows "roadmap_inv (s\<lparr>fresh := Suc (fresh s), phases := phases s @ [p]\<rparr>)"
proof -
  let ?s = "s\<lparr>fresh := Suc (fresh s), phases := phases s @ [p]\<rparr>"
  have t: "tree_ok s" using assms(1) by (simp add: roadmap_inv_def)
  then have "tree_ok ?s" using tree_ok_fresh [OF t] assms(2) by (auto simp: tree_ok_def)
  moreover have "milestone_progress ?s m = milestone_progress s m" for m
    by (rule milestone_progress_cong) (simp add: tasks_of_def)
  then have "progress_ok ?s" using assms(1) by (simp add: roadmap_inv_def progress_ok_def)
  ultimately show ?thesis using grown [of s ?s] assms(1) by (auto simp: roadmap_inv_def)
qed

lemma new_milestone_inv:
  assumes "roadmap_inv s" "ms_id m = fresh s" "ms_phase_id m \<in> set (map ph_id (phases s))"
    and "ms_progress m = (if ms_status m = RM_done then 100 else 0)"
  shows "roadmap_inv (s\<lparr>fresh := Suc (fresh s), milestones := milestones s @ [m]\<rparr>)"
proof -
  let ?s = "s\<lparr>fresh := Suc (fresh s), milestones := milestones s @ [m]\<rparr>"
  have t: "tree_ok s" using assms(1) by (simp add: roadmap_inv_def)
  then have "tree_ok ?s" using tree_ok_fresh [OF t] assms(2,3) by (auto simp: tree_ok_def)
  moreover have "milestone_progress ?s x = milestone_progress s x" for x
    by (rule milestone_progress_cong) (simp add: tasks_of_def)
  moreover have "tasks_of s (ms_id m) = []"
    using tree_ok_fresh(4) [OF t] assms(2) by (auto simp: tasks_of_def filter_empty_conv image_iff)
  then have "milestone_progress s m = ms_progress m" using assms(4) by (simp add: milestone_progress_def)
  ultimately have "progress_ok ?s" "tree_ok ?s"
    using assms(1) by (auto simp: roadmap_inv_def progress_ok_def)
  then show ?thesis using grown [of s ?s] assms(1) by (auto simp: roadmap_inv_def)
qed

lemma new_task_inv:
  assumes "roadmap_inv s" "rt_id t = fresh s" "rt_milestone_id t \<in> set (map ms_id (milestones s))"
  shows "roadmap_inv (recompute_milestone_progress (rt_milestone_id t)
    (s\<lparr>fresh := Suc (fresh s), rtasks := rtasks s @ [t]\<rparr>))"
proof -
  let ?s = "s\<lparr>fresh := Suc (fresh s), rtasks := rtasks s @ [t]\<rparr>"
  have tr: "tree_ok s" using assms(1) by (simp add: roadmap_inv_def)
  then have "tree_ok ?s" using tree_ok_fresh [OF tr] assms(2,3) by (auto simp: tree_ok_def)
  moreover have "ms_progress m = milestone_progress ?s m"
    if "m \<in> set (milestones ?s)" "ms_id m \<noteq> rt_milestone_id t" for m
  proof -
    have "milestone_progress ?s m = milestone_progress s m"
      by (rule milestone_progress_cong) (use that(2) in \<open>simp add: tasks_of_def\<close>)
    then show ?thesis using assms(1) that(1) by (simp add: roadmap_inv_def progress_ok_def)
  qed
  ultimately show ?thesis
    using grown [of s ?s] assms(1) by (intro recompute_inv) (auto simp: roadmap_inv_def)
qed

section \<open>Template trees\<close>

text \<open>
  A template's tasks start open, below a milestone at progress 0: there the recomputation would
  change nothing.
\<close>

definition open_milestone :: "uid \<Rightarrow> 'a roadmap_db_scheme \<Rightarrow> bool" where
  "open_milestone i s \<longleftrightarrow>
     (\<forall>t \<in> set (tasks_of s i). rt_status t \<noteq> RM_done) \<and>
     (\<exists>m \<in> set (milestones s). ms_id m = i) \<and>
     (\<forall>m \<in> set (milestones s). ms_id m = i \<longrightarrow> ms_progress m = 0 \<and> ms_status m \<noteq> RM_done)"

lemma open_recompute:
  assumes "open_milestone i s"
  shows "recompute_milestone_progress i s = s"
proof -
  have p: "milestone_progress s m = 0" if "m \<in> set (milestones s)" "ms_id m = i" for m
  proof (cases "tasks_of s i = []")
    case True
    then show ?thesis using assms that by (simp add: milestone_progress_def open_milestone_def)
  next
    case False
    have "count_where (\<lambda>t. rt_status t = RM_done) (tasks_of s i) = 0"
      using assms by (simp add: count_where_0_iff open_milestone_def)
    then show ?thesis using False that by (simp add: milestone_progress_def percent_none)
  qed
  have "update_where (\<lambda>m. ms_id m = i) (\<lambda>m. m\<lparr>ms_progress := milestone_progress s m\<rparr>) (milestones s) = milestones s"
    using p assms by (intro update_where_id) (auto simp: open_milestone_def)
  then show ?thesis by (simp add: recompute_milestone_progress_def update_milestone_def)
qed

lemma add_tasks_inv:
  "roadmap_inv s \<Longrightarrow> open_milestone i s \<Longrightarrow>
   roadmap_inv (add_tasks i k ts s) \<and> phases (add_tasks i k ts s) = phases s
   \<and> milestones (add_tasks i k ts s) = milestones s \<and> roadmaps (add_tasks i k ts s) = roadmaps s"
proof (induction ts arbitrary: k s)
  case (Cons tk ts)
  obtain title eff where tk: "tk = (title, eff)" by (cases tk)
  let ?t = "\<lparr>rt_id = fresh s, rt_milestone_id = i, rt_title = title, rt_description = None,
     rt_effort = eff, rt_status = RM_todo, rt_assignee_id = None, rt_due_on = None, rt_order = k\<rparr>"
  let ?s = "s\<lparr>fresh := Suc (fresh s), rtasks := rtasks s @ [?t]\<rparr>"
  have o': "open_milestone i ?s" using Cons.prems(2) by (auto simp: open_milestone_def tasks_of_def)
  have "roadmap_inv (recompute_milestone_progress (rt_milestone_id ?t) ?s)"
    by (rule new_task_inv [OF Cons.prems(1)]) (use Cons.prems(2) in \<open>auto simp: open_milestone_def\<close>)
  then have "roadmap_inv ?s" using open_recompute [OF o'] by simp
  moreover have "add_tasks i k (tk # ts) s = add_tasks i (k + 1) ts ?s" by (simp add: tk fresh_id_def)
  ultimately show ?case using Cons.IH [OF _ o', of "k + 1"] by simp
qed simp

lemma add_milestones_inv:
  "roadmap_inv s \<Longrightarrow> p \<in> set (map ph_id (phases s)) \<Longrightarrow>
   roadmap_inv (add_milestones base p k ms s) \<and> phases (add_milestones base p k ms s) = phases s
   \<and> roadmaps (add_milestones base p k ms s) = roadmaps s"
proof (induction ms arbitrary: k s)
  case (Cons mt rest)
  obtain title due ts where mt: "mt = (title, due, ts)" by (cases mt)
  let ?m = "\<lparr>ms_id = fresh s, ms_phase_id = p, ms_title = title, ms_description = None,
     ms_due_on = Some (weeks base due), ms_owner_id = None, ms_status = RM_todo, ms_progress = 0,
     ms_order = k, ms_last_replanned_at = None, ms_last_replan_reason = None\<rparr>"
  let ?s = "s\<lparr>fresh := Suc (fresh s), milestones := milestones s @ [?m]\<rparr>"
  have inv: "roadmap_inv ?s"
    by (rule new_milestone_inv [OF Cons.prems(1)]) (use Cons.prems(2) in simp_all)
  have t: "tree_ok s" using Cons.prems(1) by (simp add: roadmap_inv_def)
  have "open_milestone (fresh s) ?s"
    using tree_ok_fresh(2,4) [OF t] by (auto simp: open_milestone_def tasks_of_def image_iff)
  note at = add_tasks_inv [OF inv this, of 0 ts]
  have "add_milestones base p k (mt # rest) s = add_milestones base p (k + 1) rest (add_tasks (fresh s) 0 ts ?s)"
    by (simp add: mt fresh_id_def)
  then show ?case using Cons.IH [of "add_tasks (fresh s) 0 ts ?s" "k + 1"] at Cons.prems(2) by simp
qed simp

lemma add_phases_inv:
  "roadmap_inv s \<Longrightarrow> roadmap_inv (add_phases base r k ps s) \<and> roadmaps (add_phases base r k ps s) = roadmaps s"
proof (induction ps arbitrary: k s)
  case (Cons pt rest)
  obtain name sw ew ms where pt: "pt = (name, sw, ew, ms)" by (cases pt)
  let ?p = "\<lparr>ph_id = fresh s, ph_roadmap_id = r, ph_name = name, ph_order = k,
     ph_starts_on = Some (weeks base sw), ph_ends_on = Some (weeks base ew)\<rparr>"
  let ?s = "s\<lparr>fresh := Suc (fresh s), phases := phases s @ [?p]\<rparr>"
  have "roadmap_inv ?s" by (rule new_phase_inv [OF Cons.prems]) simp
  note am = add_milestones_inv [OF this, of "fresh s" base 0 ms]
  have "add_phases base r k (pt # rest) s = add_phases base r (k + 1) rest (add_milestones base (fresh s) 0 ms ?s)"
    by (simp add: pt fresh_id_def)
  then show ?case using Cons.IH [of "add_milestones base (fresh s) 0 ms ?s" "k + 1"] am by simp
qed simp

lemma generate_inv: "roadmap_inv s \<Longrightarrow> roadmap_inv (snd (generate_roadmap now today st s))"
proof (cases "roadmap_of s (st_id st)")
  case None
  assume inv: "roadmap_inv s"
  have 1: "roadmap_inv (s\<lparr>fresh := Suc (fresh s), roadmaps := roadmaps s @ [r]\<rparr>)" for r
    by (rule roadmap_inv_cong [OF inv]) simp_all
  have "roadmap_inv (add_phases b x k ps (s\<lparr>fresh := Suc (fresh s), roadmaps := roadmaps s @ [r]\<rparr>))" for b x k ps r
    using add_phases_inv [OF 1] by blast
  then show ?thesis
    using None by (simp add: generate_roadmap_def fresh_id_def Let_def case_prod_unfold publish_inv)
qed (simp add: generate_roadmap_def)

lemma apply_template_inv: "roadmap_inv s \<Longrightarrow> roadmap_inv (snd (apply_template today r tmpl s))"
proof -
  assume "roadmap_inv s"
  then have 1: "roadmap_inv (add_phases today (ro_id r) k (gt_phases tmpl) s)" for k
    using add_phases_inv by blast
  show ?thesis
    by (rule roadmap_inv_cong [OF 1 [of "max_phase_order s (ro_id r) + 1"]])
      (simp_all add: apply_template_def Let_def case_prod_unfold)
qed

section \<open>Updates in place\<close>

lemma update_milestone_inv:
  assumes "roadmap_inv s" "\<And>m. ms_id (f m) = ms_id m \<and> ms_phase_id (f m) = ms_phase_id m"
  shows "roadmap_inv (recompute_milestone_progress i (update_milestone i f s))"
proof (rule recompute_inv)
  let ?s = "update_milestone i f s"
  have sh: "map (\<lambda>x. (ms_id x, ms_phase_id x)) (milestones ?s) = map (\<lambda>x. (ms_id x, ms_phase_id x)) (milestones s)"
    "rtasks ?s = rtasks s" "phases ?s = phases s" "task_dependencies ?s = task_dependencies s" "fresh ?s = fresh s"
    using assms(2) by (simp_all add: update_milestone_def map_update_where)
  note k = shape_kept [of ?s s]
  show "tree_ok ?s" "edges_inside ?s" "acyclic (dep_rel ?s)"
    using k assms(1) by (simp_all add: sh roadmap_inv_def)
  show "ms_progress m = milestone_progress ?s m" if "m \<in> set (milestones ?s)" "ms_id m \<noteq> i" for m
    using that assms by (auto simp: update_milestone_def roadmap_inv_def progress_ok_def milestone_progress_def
        tasks_of_def elim!: in_update_whereE split: if_splits)
qed

lemma update_task_inv:
  assumes "roadmap_inv s" "\<And>t. rt_id (f t) = rt_id t \<and> rt_milestone_id (f t) = rt_milestone_id t"
    and "t \<in> set (rtasks s)"
  shows "roadmap_inv (recompute_milestone_progress (rt_milestone_id t) (update_task_row (rt_id t) f s))"
proof (rule recompute_inv)
  let ?s = "update_task_row (rt_id t) f s"
  have sh: "map (\<lambda>x. (rt_id x, rt_milestone_id x)) (rtasks ?s) = map (\<lambda>x. (rt_id x, rt_milestone_id x)) (rtasks s)"
    "milestones ?s = milestones s" "phases ?s = phases s" "task_dependencies ?s = task_dependencies s" "fresh ?s = fresh s"
    using assms(2) by (simp_all add: update_task_row_def map_update_where)
  note k = shape_kept [of ?s s]
  show "tree_ok ?s" "edges_inside ?s" "acyclic (dep_rel ?s)"
    using k assms(1) by (simp_all add: sh roadmap_inv_def)
  show "ms_progress m = milestone_progress ?s m"
    if m: "m \<in> set (milestones ?s)" "ms_id m \<noteq> rt_milestone_id t" for m
  proof -
    have keep: "rt_id x \<noteq> rt_id t" if "x \<in> set (tasks_of s (ms_id m))" for x
      using assms(1,3) that m(2) by (auto simp: tasks_of_def roadmap_inv_def tree_ok_def dest: distinct_mapD)
    have "tasks_of ?s (ms_id m) = update_where (\<lambda>x. rt_id x = rt_id t) f (tasks_of s (ms_id m))"
      unfolding tasks_of_def update_task_row_def using assms(2) by (simp add: filter_update_where)
    also have "\<dots> = tasks_of s (ms_id m)" by (rule update_where_none [OF keep])
    finally have "tasks_of ?s (ms_id m) = tasks_of s (ms_id m)" .
    then have "milestone_progress ?s m = milestone_progress s m" by (rule milestone_progress_cong)
    then show ?thesis using assms(1) m(1) by (simp add: sh roadmap_inv_def progress_ok_def)
  qed
qed

lemma update_phase_inv:
  assumes "roadmap_inv s" "\<And>p. ph_id (f p) = ph_id p \<and> ph_roadmap_id (f p) = ph_roadmap_id p"
  shows "roadmap_inv (s\<lparr>phases := update_where P f (phases s)\<rparr>)"
proof -
  let ?s = "s\<lparr>phases := update_where P f (phases s)\<rparr>"
  have sh: "map (\<lambda>x. (ph_id x, ph_roadmap_id x)) (phases ?s) = map (\<lambda>x. (ph_id x, ph_roadmap_id x)) (phases s)"
    using assms(2) by (simp add: map_update_where)
  have "milestone_progress ?s m = milestone_progress s m" for m
    by (rule milestone_progress_cong) (simp add: tasks_of_def)
  then have "progress_ok ?s" using assms(1) by (simp add: roadmap_inv_def progress_ok_def)
  then show ?thesis using shape_kept [of ?s s] sh assms(1) by (simp add: roadmap_inv_def)
qed

section \<open>Deletions\<close>

lemma delete_tasks_kept:
  assumes "tree_ok s" "edges_inside s" "acyclic (dep_rel s)"
  shows "tree_ok (delete_tasks P s)" "edges_inside (delete_tasks P s)" "acyclic (dep_rel (delete_tasks P s))"
proof -
  let ?s = "delete_tasks P s"
  show "tree_ok ?s"
    using assms(1) by (auto simp: tree_ok_def delete_tasks_def Let_def distinct_map_delete_where ids_below_delete)
  have sub: "dep_rel ?s \<subseteq> dep_rel s" by (auto simp: dep_rel_def delete_tasks_def Let_def)
  then show "acyclic (dep_rel ?s)" using assms(3) by (rule acyclic_subset [rotated])
  have kept: "task_in ?s r t" if t: "task_in s r t" and n: "t \<notin> rt_id ` {x \<in> set (rtasks s). P x}" for r t
    by (rule task_in_mono [OF t]) (use n in \<open>auto simp: delete_tasks_def Let_def\<close>)
  show "edges_inside ?s"
    unfolding edges_inside_def
  proof (clarify)
    fix a b assume ab: "(a, b) \<in> dep_rel ?s"
    then have "a \<notin> rt_id ` {x \<in> set (rtasks s). P x}" "b \<notin> rt_id ` {x \<in> set (rtasks s). P x}"
      by (auto simp: dep_rel_def delete_tasks_def Let_def)
    moreover obtain r where "task_in s r a" "task_in s r b"
      using assms(2) subsetD [OF sub ab] by (auto simp: edges_inside_def)
    ultimately show "\<exists>r. task_in ?s r a \<and> task_in ?s r b" using kept by blast
  qed
qed

lemma tasks_of_delete:
  "(\<And>t. rt_milestone_id t = i \<Longrightarrow> \<not> P t) \<Longrightarrow> tasks_of (delete_tasks P s) i = tasks_of s i"
  by (auto simp: tasks_of_def delete_tasks_def delete_where_def Let_def intro: filter_cong)

lemma delete_task_inv:
  assumes "roadmap_inv s" "t \<in> set (rtasks s)"
  shows "roadmap_inv (recompute_milestone_progress (rt_milestone_id t) (delete_tasks (\<lambda>x. rt_id x = rt_id t) s))"
proof (rule recompute_inv)
  let ?s = "delete_tasks (\<lambda>x. rt_id x = rt_id t) s"
  show "tree_ok ?s" "edges_inside ?s" "acyclic (dep_rel ?s)"
    using delete_tasks_kept assms(1) by (auto simp: roadmap_inv_def)
  show "ms_progress m = milestone_progress ?s m"
    if m: "m \<in> set (milestones ?s)" "ms_id m \<noteq> rt_milestone_id t" for m
  proof -
    have keep: "rt_id x \<noteq> rt_id t" if "x \<in> set (rtasks s)" "rt_milestone_id x = ms_id m" for x
      using assms that m(2) by (auto simp: roadmap_inv_def tree_ok_def dest: distinct_mapD)
    have "tasks_of ?s (ms_id m) = tasks_of s (ms_id m)"
      unfolding tasks_of_def delete_tasks_def delete_where_def Let_def
      by (simp, rule filter_cong) (use keep in auto)
    then have "milestone_progress ?s m = milestone_progress s m" by (rule milestone_progress_cong)
    then show ?thesis using assms(1) m(1)
      by (simp add: delete_tasks_def Let_def roadmap_inv_def progress_ok_def)
  qed
qed

text \<open>Milestones go with their tasks; what is left of the tree hangs on what is left.\<close>

lemma delete_milestones_kept:
  assumes "set (map rt_milestone_id (rtasks s)) \<subseteq> set (map ms_id (milestones s))"
    "distinct (map ph_id (phases s))" "distinct (map ms_id (milestones s))" "distinct (map rt_id (rtasks s))"
    "ids_below (fresh s) (map ph_id (phases s))" "ids_below (fresh s) (map ms_id (milestones s))"
    "ids_below (fresh s) (map rt_id (rtasks s))" "progress_ok s" "acyclic (dep_rel s)"
    and "set (map ms_phase_id (delete_where P (milestones s))) \<subseteq> set (map ph_id (phases s))"
    and "\<And>a b. (a, b) \<in> dep_rel (delete_milestones P s) \<Longrightarrow>
      \<exists>r. task_in (delete_milestones P s) r a \<and> task_in (delete_milestones P s) r b"
  shows "roadmap_inv (delete_milestones P s)"
proof -
  let ?g = "ms_id ` {m \<in> set (milestones s). P m}"
  let ?s = "delete_milestones P s"
  have tables: "milestones ?s = delete_where P (milestones s)" "phases ?s = phases s" "fresh ?s = fresh s"
    "rtasks ?s = delete_where (\<lambda>t. rt_milestone_id t \<in> ?g) (rtasks s)"
    by (auto simp: delete_milestones_def delete_tasks_def Let_def)
  have gone: "ms_id m \<notin> ?g" if "m \<in> set (milestones ?s)" for m
    using that assms(3) by (auto simp: tables dest: distinct_mapD)
  have up: "set (map rt_milestone_id (rtasks ?s)) \<subseteq> set (map ms_id (milestones ?s))"
  proof
    fix i assume "i \<in> set (map rt_milestone_id (rtasks ?s))"
    then obtain t where t: "t \<in> set (rtasks s)" "i = rt_milestone_id t" "i \<notin> ?g" by (auto simp: tables)
    then obtain m where "m \<in> set (milestones s)" "ms_id m = i" using assms(1) by auto
    with t(3) show "i \<in> set (map ms_id (milestones ?s))" by (auto simp: tables)
  qed
  have "tree_ok ?s"
    unfolding tree_ok_def
    using assms(2-7,10) up by (simp add: tables distinct_map_delete_where ids_below_delete)
  moreover have "progress_ok ?s"
    unfolding progress_ok_def
  proof
    fix m assume m: "m \<in> set (milestones ?s)"
    have g: "(\<not> rt_milestone_id t \<in> ?g \<and> rt_milestone_id t = ms_id m) \<longleftrightarrow> rt_milestone_id t = ms_id m" for t
      using gone [OF m] by metis
    have "tasks_of ?s (ms_id m) = tasks_of s (ms_id m)"
      unfolding tasks_of_def tables delete_where_def filter_filter g ..
    then have "milestone_progress ?s m = milestone_progress s m" by (rule milestone_progress_cong)
    then show "ms_progress m = milestone_progress ?s m"
      using assms(8) m by (simp add: tables progress_ok_def)
  qed
  moreover have "dep_rel ?s \<subseteq> dep_rel s"
    by (auto simp: dep_rel_def delete_milestones_def delete_tasks_def Let_def)
  then have "acyclic (dep_rel ?s)" using assms(9) by (rule acyclic_subset [rotated])
  ultimately show ?thesis using assms(11) by (auto simp: roadmap_inv_def edges_inside_def)
qed

lemma dep_rel_delete_milestones:
  assumes "(a, b) \<in> dep_rel (delete_milestones P s)"
  shows "(a, b) \<in> dep_rel s"
    "\<forall>t \<in> set (rtasks s). rt_id t = a \<or> rt_id t = b \<longrightarrow> rt_milestone_id t \<notin> ms_id ` {m \<in> set (milestones s). P m}"
proof -
  let ?g = "ms_id ` {m \<in> set (milestones s). P m}"
  obtain e where e: "e \<in> set (task_dependencies s)" "a = dp_task_id e" "b = dp_depends_on_task_id e"
    "a \<notin> rt_id ` {t \<in> set (rtasks s). rt_milestone_id t \<in> ?g}"
    "b \<notin> rt_id ` {t \<in> set (rtasks s). rt_milestone_id t \<in> ?g}"
    using assms by (auto simp: dep_rel_def delete_milestones_def delete_tasks_def Let_def)
  then show "(a, b) \<in> dep_rel s" by (auto simp: dep_rel_def)
  show "\<forall>t \<in> set (rtasks s). rt_id t = a \<or> rt_id t = b \<longrightarrow> rt_milestone_id t \<notin> ?g"
    using e(4,5) by blast
qed

lemma delete_milestones_inv:
  assumes "roadmap_inv s"
  shows "roadmap_inv (delete_milestones P s)"
proof (rule delete_milestones_kept)
  show "\<exists>r. task_in (delete_milestones P s) r a \<and> task_in (delete_milestones P s) r b"
    if ab: "(a, b) \<in> dep_rel (delete_milestones P s)" for a b
  proof -
    obtain r where r: "task_in s r a" "task_in s r b"
      using assms dep_rel_delete_milestones(1) [OF ab] by (auto simp: roadmap_inv_def edges_inside_def)
    have "task_in (delete_milestones P s) r t" if "task_in s r t" "t = a \<or> t = b" for t
    proof -
      from that(1) obtain x m where x: "x \<in> set (rtasks s)" "rt_id x = t" "m \<in> set (milestones s)"
        "ms_id m = rt_milestone_id x" "phase_in s r (ms_phase_id m)"
        by (auto simp: task_in_def milestone_in_def)
      have n: "rt_milestone_id x \<notin> ms_id ` {m \<in> set (milestones s). P m}"
        using dep_rel_delete_milestones(2) [OF ab] x(1,2) that(2) by blast
      then have "\<not> P m" using x(3,4) by (metis (mono_tags, lifting) image_eqI mem_Collect_eq)
      then have "x \<in> set (rtasks (delete_milestones P s))" "m \<in> set (milestones (delete_milestones P s))"
        using n x by (auto simp: delete_milestones_def delete_tasks_def Let_def)
      moreover have "phase_in (delete_milestones P s) r (ms_phase_id m)"
        using x(5) by (simp add: phase_in_def delete_milestones_def delete_tasks_def Let_def)
      ultimately show ?thesis using x unfolding task_in_def milestone_in_def by metis
    qed
    then show ?thesis using r by blast
  qed
qed (use assms in \<open>auto simp: roadmap_inv_def tree_ok_def\<close>)

lemma delete_phase_inv:
  assumes "roadmap_inv s"
  shows "roadmap_inv (delete_phase_row i s)"
proof -
  let ?P = "\<lambda>m. ms_phase_id m = i"
  let ?t = "delete_milestones ?P s"
  have t: "roadmap_inv ?t" by (rule delete_milestones_inv [OF assms])
  let ?s = "delete_phase_row i s"
  have eq: "?s = ?t\<lparr>phases := delete_where (\<lambda>p. ph_id p = i) (phases ?t)\<rparr>"
    by (simp add: delete_phase_row_def delete_milestones_def delete_tasks_def Let_def)
  have none: "ms_phase_id m \<noteq> i" if "m \<in> set (milestones ?t)" for m
    using that by (auto simp: delete_milestones_def delete_tasks_def Let_def)
  have "set (map ms_phase_id (milestones ?t)) \<subseteq> set (map ph_id (phases ?s))"
  proof
    have sub: "set (map ms_phase_id (milestones ?t)) \<subseteq> set (map ph_id (phases ?t))"
      using t unfolding roadmap_inv_def tree_ok_def by blast
    fix x assume x: "x \<in> set (map ms_phase_id (milestones ?t))"
    have "x \<noteq> i" using x none by auto
    moreover have "x \<in> set (map ph_id (phases ?t))" using subsetD [OF sub x] .
    ultimately show "x \<in> set (map ph_id (phases ?s))" by (auto simp: eq)
  qed
  then have "tree_ok ?s"
    using t by (simp add: eq roadmap_inv_def tree_ok_def distinct_map_delete_where ids_below_delete)
  moreover have "milestone_progress ?s m = milestone_progress ?t m" for m
    by (rule milestone_progress_cong) (simp add: eq tasks_of_def)
  then have "progress_ok ?s" using t by (simp add: eq roadmap_inv_def progress_ok_def)
  moreover have dep: "dep_rel ?s = dep_rel ?t" by (simp add: eq dep_rel_def)
  moreover have "task_in ?s r x" if x: "task_in ?t r x" for r x
  proof -
    have "milestone_in ?s r m" if m: "milestone_in ?t r m" for m
    proof -
      from m obtain y p where "y \<in> set (milestones ?t)" "ms_id y = m" "p \<in> set (phases ?t)"
        "ph_id p = ms_phase_id y" "ph_roadmap_id p = r"
        by (auto simp: milestone_in_def phase_in_def)
      moreover have "ph_id p \<noteq> i" using none calculation by metis
      ultimately show ?thesis
        unfolding milestone_in_def phase_in_def by (intro bexI [of _ y] conjI bexI [of _ p]) (simp_all add: eq)
    qed
    then show ?thesis using x by (auto simp: task_in_def eq)
  qed
  then have "edges_inside ?s" using t unfolding dep edges_inside_def roadmap_inv_def by fast
  ultimately show ?thesis using t by (simp add: roadmap_inv_def)
qed

end
