(* ===== verification/Replan.thy ===== *)
theory Replan
  imports Roadmap_Inv
begin

text \<open>
  Re-planning (\<^verbatim>\<open>app/services/roadmap/replan.py\<close>): the milestones that slipped, the precedence
  between milestones that their tasks' dependencies give, its topological order, the shift each
  milestone takes (its own slip or its upstream's, whichever is larger) and the application of
  chosen changes. A Python set of upstream milestones is a list without repetition here; its order
  only decides which of several equally late upstreams a reason names.
\<close>

definition replan_buffer_days :: int where
  "replan_buffer_days = 7"

record change =
  ch_change_id :: uid
  ch_milestone_id :: uid
  ch_title :: string
  ch_old_due :: day
  ch_new_due :: day
  ch_reason :: string

definition roadmap_milestones :: "'a roadmap_db_scheme \<Rightarrow> uid \<Rightarrow> milestone list" where
  "roadmap_milestones s r = filter (\<lambda>m. phase_in s r (ms_phase_id m)) (milestones s)"

definition detect_drift :: "day \<Rightarrow> 'a roadmap_db_scheme \<Rightarrow> uid \<Rightarrow> milestone list" where
  "detect_drift today s r = filter (milestone_overdue today) (roadmap_milestones s r)"

section \<open>Precedence and its topological order\<close>

type_synonym preds = "(uid \<times> uid list) list"

definition preds_of :: "preds \<Rightarrow> uid \<Rightarrow> uid list" where
  "preds_of ps n = (case map_of ps n of None \<Rightarrow> [] | Some us \<Rightarrow> us)"

text \<open>\<^verbatim>\<open>preds.setdefault(down, set()).add(up)\<close>\<close>

fun add_pred :: "uid \<Rightarrow> uid \<Rightarrow> preds \<Rightarrow> preds" where
  "add_pred d u [] = [(d, [u])]"
| "add_pred d u ((k, us) # ps) =
     (if k = d then (k, if u \<in> set us then us else us @ [u]) # ps else (k, us) # add_pred d u ps)"

definition task_milestone :: "'a roadmap_db_scheme \<Rightarrow> uid \<Rightarrow> uid \<Rightarrow> uid option" where
  "task_milestone s r t =
     map_option rt_milestone_id (find (\<lambda>x. rt_id x = t \<and> milestone_in s r (rt_milestone_id x)) (rtasks s))"

definition milestone_precedence :: "'a roadmap_db_scheme \<Rightarrow> uid \<Rightarrow> preds" where
  "milestone_precedence s r =
     foldl (\<lambda>ps e. case (task_milestone s r (dp_task_id e), task_milestone s r (dp_depends_on_task_id e)) of
                    (Some d, Some u) \<Rightarrow> if d \<noteq> u then add_pred d u ps else ps
                  | _ \<Rightarrow> ps) [] (task_dependencies s)"

text \<open>
  \<^verbatim>\<open>visit\<close> over a list of nodes: \<open>stack\<close> is the set of nodes being visited, the accumulator the
  nodes ordered so far (which are also the seen ones). The stack grows with every nested visit of
  a node that has upstreams, so the recursion ends even when the precedence has a cycle.
\<close>

function visits :: "preds \<Rightarrow> uid list \<Rightarrow> uid list \<Rightarrow> uid list \<Rightarrow> uid list" where
  "visits ps [] stack ordered = ordered"
| "visits ps (n # ns) stack ordered =
     (if n \<in> set ordered \<or> n \<in> set stack then visits ps ns stack ordered
      else (let ordered' = visits ps (preds_of ps n) (n # stack) ordered
            in visits ps ns stack (if n \<in> set ordered' then ordered' else ordered' @ [n])))"
  by pat_completeness auto

termination
proof (relation "inv_image (less_than <*lex*> less_than)
    (\<lambda>(ps, ns, stack, ordered). (card (fst ` set ps - set stack), length ns))")
  fix ps :: preds and n :: uid and ns stack ordered :: "uid list"
  show "wf (inv_image (less_than <*lex*> less_than)
    (\<lambda>(ps :: preds, ns :: uid list, stack :: uid list, ordered :: uid list).
      (card (fst ` set ps - set stack), length ns)))"
    by (rule wf_inv_image) auto
  assume n: "\<not> (n \<in> set ordered \<or> n \<in> set stack)"
  show "((ps, preds_of ps n, n # stack, ordered), ps, n # ns, stack, ordered)
    \<in> inv_image (less_than <*lex*> less_than)
      (\<lambda>(ps, ns, stack, ordered). (card (fst ` set ps - set stack), length ns))"
  proof (cases "n \<in> fst ` set ps")
    case True
    have "card (fst ` set ps - set (n # stack)) < card (fst ` set ps - set stack)"
      using n True by (intro psubset_card_mono) auto
    then show ?thesis by simp
  next
    case False
    then have "preds_of ps n = []"
      by (auto simp: preds_of_def split: option.split dest!: map_of_SomeD) (metis fst_conv image_eqI)
    moreover have "fst ` set ps - set (n # stack) = fst ` set ps - set stack" using False by auto
    ultimately show ?thesis by simp
  qed
qed auto

definition toposort :: "uid list \<Rightarrow> preds \<Rightarrow> uid list" where
  "toposort nodes ps = visits ps nodes [] []"

section \<open>The proposal\<close>

definition base_shift :: "day \<Rightarrow> milestone \<Rightarrow> int" where
  "base_shift today m =
     (case ms_due_on m of
        None \<Rightarrow> 0
      | Some d \<Rightarrow> if d < today \<and> ms_status m \<noteq> RM_done
                  then max 0 (today + replan_buffer_days - d) else 0)"

text \<open>
  One milestone's shift, and the upstream that drives it: the loop over its upstreams, with the
  shifts computed so far.
\<close>

definition take_upstream :: "(uid \<Rightarrow> int) \<Rightarrow> uid list \<Rightarrow> int \<Rightarrow> int \<times> uid option" where
  "take_upstream shift ups own =
     foldl (\<lambda>(x, w) u. if x < shift u then (shift u, Some u) else (x, w)) (own, None) ups"

definition shifts :: "(uid \<Rightarrow> int) \<Rightarrow> preds \<Rightarrow> uid list \<Rightarrow> (uid \<times> int \<times> uid option) list" where
  "shifts base ps order =
     foldl (\<lambda>acc n. acc @ [(n, take_upstream
               (\<lambda>u. case map_of acc u of None \<Rightarrow> 0 | Some (x, _) \<Rightarrow> x) (preds_of ps n) (base n))]) [] order"

definition change_reason :: "day \<Rightarrow> (uid \<Rightarrow> string) \<Rightarrow> int \<Rightarrow> int \<Rightarrow> day \<Rightarrow> uid option \<Rightarrow> string" where
  "change_reason today title own s due winner =
     (case winner of
        None \<Rightarrow> show_int (today - due) @ '' days overdue and not yet done.''
      | Some u \<Rightarrow>
          if 0 < own
          then show_int (today - due) @ '' days overdue; shifts '' @ show_int s
                 @ '' days with its dependency '' @ [CHR 0x27] @ title u @ [CHR 0x27] @ ''.''
          else ''Shifts '' @ show_int s @ '' days with its dependency '' @ [CHR 0x27] @ title u @ [CHR 0x27] @ ''.'')"

definition milestone_by_id :: "milestone list \<Rightarrow> uid \<Rightarrow> milestone option" where
  "milestone_by_id ms i = find (\<lambda>m. ms_id m = i) ms"

definition change_of ::
    "day \<Rightarrow> milestone list \<Rightarrow> uid \<times> int \<times> uid option \<Rightarrow> change option" where
  "change_of today ms entry =
     (let (i, s, winner) = entry
      in case milestone_by_id ms i of
           None \<Rightarrow> None
         | Some m \<Rightarrow>
             if s \<le> 0 then None
             else (case ms_due_on m of
                     None \<Rightarrow> None
                   | Some d \<Rightarrow>
                       Some \<lparr>ch_change_id = i, ch_milestone_id = i, ch_title = ms_title m,
                             ch_old_due = d, ch_new_due = d + s,
                             ch_reason = change_reason today
                               (\<lambda>u. case milestone_by_id ms u of None \<Rightarrow> [] | Some x \<Rightarrow> ms_title x)
                               (base_shift today m) s d winner\<rparr>))"

definition base_of :: "day \<Rightarrow> milestone list \<Rightarrow> uid \<Rightarrow> int" where
  "base_of today ms i = (case milestone_by_id ms i of None \<Rightarrow> 0 | Some m \<Rightarrow> base_shift today m)"

definition compute_shifts :: "day \<Rightarrow> 'a roadmap_db_scheme \<Rightarrow> uid \<Rightarrow> (uid \<times> int \<times> uid option) list" where
  "compute_shifts today s r =
     (let ms = roadmap_milestones s r;
          ps = milestone_precedence s r
      in shifts (base_of today ms) ps (toposort (map ms_id ms) ps))"

definition compute_replan :: "day \<Rightarrow> 'a roadmap_db_scheme \<Rightarrow> uid \<Rightarrow> change list" where
  "compute_replan today s r = List.map_filter (change_of today (roadmap_milestones s r)) (compute_shifts today s r)"

section \<open>Applying changes\<close>

definition apply_change :: "instant \<Rightarrow> change \<Rightarrow> 'a roadmap_db_scheme \<Rightarrow> 'a roadmap_db_scheme" where
  "apply_change now c =
     update_milestone (ch_milestone_id c)
       (\<lambda>m. m\<lparr>ms_due_on := Some (ch_new_due c), ms_last_replanned_at := Some now,
             ms_last_replan_reason := Some (ch_reason c)\<rparr>)"

definition change_json :: "change \<Rightarrow> json" where
  "change_json c =
     JObj [(''milestone_id'', JUid (ch_milestone_id c)), (''title'', JStr (ch_title c)),
           (''old_due'', JDay (ch_old_due c)), (''new_due'', JDay (ch_new_due c)),
           (''reason'', JStr (ch_reason c))]"

record replan_result =
  rr_applied :: "uid list"
  rr_skipped :: "uid list"
  rr_replan_id :: "uid option"
  rr_summary :: "string option"

definition apply_replan ::
    "instant \<Rightarrow> day \<Rightarrow> roadmap \<Rightarrow> uid \<Rightarrow> uid list \<Rightarrow> 'a roadmap_db_scheme
     \<Rightarrow> replan_result \<times> 'a roadmap_db_scheme" where
  "apply_replan now today r actor_id change_ids s =
     (let proposal = compute_replan today s (ro_id r);
          get = (\<lambda>i. find (\<lambda>c. ch_change_id c = i) proposal);
          chosen = List.map_filter get change_ids;
          applied = filter (\<lambda>i. get i \<noteq> None) change_ids;
          skipped = filter (\<lambda>i. get i = None) change_ids;
          s1 = foldl (\<lambda>s c. apply_change now c s) s chosen
      in if applied = []
         then (\<lparr>rr_applied = [], rr_skipped = skipped, rr_replan_id = None, rr_summary = None\<rparr>, s1)
         else (let n = length applied;
                   summary = ''Re-planned '' @ show_nat n @ '' milestone'' @ (if n \<noteq> 1 then ''s'' else []);
                   (i, s2) = fresh_id s1;
                   s3 = s2\<lparr>replans := replans s2 @
                          [\<lparr>rp_id = i, rp_roadmap_id = ro_id r, rp_applied_by = actor_id,
                            rp_change_count = n, rp_changes = map change_json chosen,
                            rp_summary = summary, rp_created_at = now\<rparr>]\<rparr>
               in (\<lparr>rr_applied = applied, rr_skipped = skipped, rr_replan_id = Some i,
                    rr_summary = Some summary\<rparr>,
                   publish now ''roadmap.replanned''
                     [(''startup_id'', JUid (ro_startup_id r)), (''roadmap_id'', JUid (ro_id r)),
                      (''replan_id'', JUid i), (''change_count'', JInt (int n)),
                      (''applied_by'', JUid actor_id)] s3)))"

definition replan_apply ::
    "instant \<Rightarrow> day \<Rightarrow> uid list \<Rightarrow> user \<Rightarrow> membership \<Rightarrow> 'a roadmap_db_scheme
     \<Rightarrow> replan_result result \<times> 'a roadmap_db_scheme" where
  "replan_apply now today change_ids user m s =
     (case require_roadmap m s of
        Inl e \<Rightarrow> (Inl e, s)
      | Inr r \<Rightarrow>
          (let (res, s1) = apply_replan now today r (u_id user) change_ids s
           in (Inr res,
               if rr_applied res = [] then s1
               else write_activity now (m_startup_id m) ''roadmap.replanned''
                      (actor_name user @ '' applied a roadmap re-plan ('' @ show_nat (length (rr_applied res))
                         @ '' milestone(s) shifted)'')
                      (Some (u_id user)) (Some ''roadmap'') (Some (ro_id r)) None s1)))"

definition replan_preview ::
    "day \<Rightarrow> membership \<Rightarrow> 'a roadmap_db_scheme \<Rightarrow> (nat \<times> change list) result" where
  "replan_preview today m s =
     (case require_roadmap m s of
        Inl e \<Rightarrow> Inl e
      | Inr r \<Rightarrow> Inr (length (detect_drift today s (ro_id r)), compute_replan today s (ro_id r)))"

section \<open>The order\<close>

definition pred_rel :: "preds \<Rightarrow> (uid \<times> uid) set" where
  "pred_rel ps = {(n, u). u \<in> set (preds_of ps n)}"

text \<open>Every node of the list comes after its upstreams.\<close>

definition closed_order :: "preds \<Rightarrow> uid list \<Rightarrow> bool" where
  "closed_order ps xs \<longleftrightarrow> (\<forall>i < length xs. set (preds_of ps (xs ! i)) \<subseteq> set (take i xs))"

lemma closed_order_Nil [simp]: "closed_order ps []"
  by (simp add: closed_order_def)

lemma closed_order_snoc:
  "closed_order ps (xs @ [n]) \<longleftrightarrow> closed_order ps xs \<and> set (preds_of ps n) \<subseteq> set xs"
  by (auto simp: closed_order_def nth_append less_Suc_eq split: if_splits)

lemma visits_prefix: "\<exists>zs. visits ps ns stack ord = ord @ zs"
proof (induction ps ns stack ord rule: visits.induct)
  case (2 ps n ns stack ord)
  show ?case
  proof (cases "n \<in> set ord \<or> n \<in> set stack")
    case True
    then show ?thesis using 2(1) by auto
  next
    case False
    obtain zs where "visits ps (preds_of ps n) (n # stack) ord = ord @ zs" using 2(2) [OF False] by blast
    then show ?thesis using 2(3) [OF False refl] False by (auto simp: Let_def) 
  qed
qed simp

lemma visits_distinct: "distinct ord \<Longrightarrow> distinct (visits ps ns stack ord)"
proof (induction ps ns stack ord rule: visits.induct)
  case (2 ps n ns stack ord)
  then show ?case by (auto simp: Let_def)
qed simp

lemma visits_subset:
  "set (visits ps ns stack ord) \<subseteq> set ord \<union> set ns \<union> snd ` Sigma UNIV (\<lambda>n. set (preds_of ps n))"
proof (induction ps ns stack ord rule: visits.induct)
  case (2 ps n ns stack ord)
  show ?case
  proof (cases "n \<in> set ord \<or> n \<in> set stack")
    case True
    then show ?thesis using 2(1) by auto
  next
    case False
    have "set (preds_of ps n) \<subseteq> snd ` Sigma UNIV (\<lambda>n. set (preds_of ps n))" by force
    then show ?thesis using 2(2) [OF False] 2(3) [OF False refl] False by (auto simp: Let_def split: if_splits)
  qed
qed simp

lemma visits_order:
  assumes "acyclic (pred_rel ps)" "closed_order ps ord"
    and "\<forall>n \<in> set ns. \<forall>x \<in> set stack. (x, n) \<in> (pred_rel ps)\<^sup>+"
  shows "closed_order ps (visits ps ns stack ord) \<and> set ns \<subseteq> set (visits ps ns stack ord)"
  using assms
proof (induction ps ns stack ord rule: visits.induct)
  case (2 ps n ns stack ord)
  have ns: "n \<notin> set stack" using 2(4,6) by (auto simp: acyclic_def)
  show ?case
  proof (cases "n \<in> set ord")
    case True
    have "closed_order ps (visits ps ns stack ord) \<and> set ns \<subseteq> set (visits ps ns stack ord)"
      using 2(1) [of] True 2(4-6) by simp
    moreover have "n \<in> set (visits ps ns stack ord)"
      using visits_prefix [of ps ns stack ord] True by auto
    ultimately show ?thesis using True by simp
  next
    case False
    then have nn: "\<not> (n \<in> set ord \<or> n \<in> set stack)" using ns by simp
    let ?o = "visits ps (preds_of ps n) (n # stack) ord"
    have "\<forall>u \<in> set (preds_of ps n). \<forall>x \<in> set (n # stack). (x, u) \<in> (pred_rel ps)\<^sup>+"
    proof (intro ballI)
      fix u x assume u: "u \<in> set (preds_of ps n)" and x: "x \<in> set (n # stack)"
      have e: "(n, u) \<in> pred_rel ps" using u by (simp add: pred_rel_def)
      show "(x, u) \<in> (pred_rel ps)\<^sup>+"
      proof (cases "x = n")
        case False
        then have "(x, n) \<in> (pred_rel ps)\<^sup>+" using x 2(6) by simp
        then show ?thesis using e by (rule trancl_into_trancl)
      qed (use e in blast)
    qed
    then have o': "closed_order ps ?o" "set (preds_of ps n) \<subseteq> set ?o" using 2(2) [OF nn 2(4,5)] by blast+
    let ?o2 = "if n \<in> set ?o then ?o else ?o @ [n]"
    have "closed_order ps ?o2" using o' by (simp add: closed_order_snoc)
    then have "closed_order ps (visits ps ns stack ?o2) \<and> set ns \<subseteq> set (visits ps ns stack ?o2)"
      using 2(3) [OF nn refl 2(4)] 2(6) by simp
    moreover have "n \<in> set (visits ps ns stack ?o2)"
      using visits_prefix [of ps ns stack ?o2] by auto
    moreover have "visits ps (n # ns) stack ord = visits ps ns stack ?o2" using nn by (simp add: Let_def)
    ultimately show ?thesis by simp
  qed
qed simp

lemma visits_covers: "set ns \<subseteq> set (visits ps ns stack ord) \<union> set stack"
proof (induction ps ns stack ord rule: visits.induct)
  case (2 ps n ns stack ord)
  show ?case
  proof (cases "n \<in> set ord \<or> n \<in> set stack")
    case True
    then show ?thesis using 2(1) visits_prefix [of ps ns stack ord] by auto
  next
    case False
    let ?o = "visits ps (preds_of ps n) (n # stack) ord"
    let ?o2 = "if n \<in> set ?o then ?o else ?o @ [n]"
    have "visits ps (n # ns) stack ord = visits ps ns stack ?o2" using False by (simp add: Let_def)
    moreover have "n \<in> set (visits ps ns stack ?o2)" using visits_prefix [of ps ns stack ?o2] by auto
    ultimately show ?thesis using 2(3) [OF False refl] by auto
  qed
qed simp

text \<open>
  The order of the milestones: each once, all of them, and, when the precedence has no cycle, each
  after everything it waits for.
\<close>

lemma toposort_spec:
  "distinct (toposort nodes ps)" "set nodes \<subseteq> set (toposort nodes ps)"
  "acyclic (pred_rel ps) \<Longrightarrow> closed_order ps (toposort nodes ps)"
  using visits_covers [of nodes ps "[]" "[]"] visits_order [of ps "[]" nodes "[]"]
  by (simp_all add: toposort_def visits_distinct)

section \<open>The shifts\<close>

lemma take_upstream_spec:
  "own \<le> fst (take_upstream sh ups own)"
  "u \<in> set ups \<Longrightarrow> sh u \<le> fst (take_upstream sh ups own)"
  "snd (take_upstream sh ups own) = None \<Longrightarrow> fst (take_upstream sh ups own) = own"
  "snd (take_upstream sh ups own) = Some v \<Longrightarrow> v \<in> set ups \<and> fst (take_upstream sh ups own) = sh v"
proof -
  let ?f = "\<lambda>(x, w) u. if x < sh u then (sh u, Some u) else (x, w)"
  have "own \<le> fst (foldl ?f (own, w) ups)
      \<and> (\<forall>u \<in> set ups. sh u \<le> fst (foldl ?f (own, w) ups))
      \<and> (foldl ?f (own, w) ups = (own, w) \<or> (\<exists>v \<in> set ups. foldl ?f (own, w) ups = (sh v, Some v)))" for own w
  proof (induction ups arbitrary: own w)
    case (Cons a ups)
    show ?case
    proof (cases "own < sh a")
      case True
      then show ?thesis using Cons.IH [of "sh a" "Some a"] by auto
    next
      case False
      then show ?thesis using Cons.IH [of own w] by auto
    qed
  qed simp
  note * = this [of own None]
  show "own \<le> fst (take_upstream sh ups own)" using * by (simp add: take_upstream_def)
  show "u \<in> set ups \<Longrightarrow> sh u \<le> fst (take_upstream sh ups own)" using * by (simp add: take_upstream_def)
  show "snd (take_upstream sh ups own) = None \<Longrightarrow> fst (take_upstream sh ups own) = own"
    using * by (auto simp: take_upstream_def)
  show "snd (take_upstream sh ups own) = Some v \<Longrightarrow> v \<in> set ups \<and> fst (take_upstream sh ups own) = sh v"
    using * by (auto simp: take_upstream_def)
qed

definition shift_in :: "(uid \<times> int \<times> uid option) list \<Rightarrow> uid \<Rightarrow> int" where
  "shift_in sh u = (case map_of sh u of None \<Rightarrow> 0 | Some (x, _) \<Rightarrow> x)"

lemma shifts_snoc:
  "shifts base ps (order @ [n]) = shifts base ps order @
     [(n, take_upstream (shift_in (shifts base ps order)) (preds_of ps n) (base n))]"
  by (simp add: shifts_def shift_in_def [abs_def])

lemma shifts_keys: "map fst (shifts base ps order) = order"
  by (induction order rule: rev_induct) (simp_all add: shifts_snoc, simp add: shifts_def)

lemma shift_in_append:
  "n \<in> set (map fst xs) \<Longrightarrow> shift_in (xs @ ys) n = shift_in xs n"
  by (auto simp: shift_in_def map_add_def dom_map_of_conv_image_fst [symmetric] split: option.splits)

lemma shift_in_snoc: "n \<notin> set (map fst xs) \<Longrightarrow> shift_in (xs @ [(n, e)]) n = fst e"
proof -
  assume "n \<notin> set (map fst xs)"
  then have "map_of xs n = None" by (simp add: map_of_eq_None_iff)
  then show ?thesis by (cases e) (simp add: shift_in_def map_add_def)
qed

lemma shifts_spec:
  assumes "distinct order" "n \<in> set order"
  shows "base n \<le> shift_in (shifts base ps order) n"
    and "closed_order ps order \<Longrightarrow> u \<in> set (preds_of ps n) \<Longrightarrow>
      shift_in (shifts base ps order) u \<le> shift_in (shifts base ps order) n"
    and "closed_order ps order \<Longrightarrow> shift_in (shifts base ps order) n = base n \<or>
      (\<exists>v \<in> set (preds_of ps n). shift_in (shifts base ps order) n = shift_in (shifts base ps order) v)"
proof -
  have "base n \<le> shift_in (shifts base ps order) n \<and>
    (closed_order ps order \<longrightarrow>
      (\<forall>u \<in> set (preds_of ps n). shift_in (shifts base ps order) u \<le> shift_in (shifts base ps order) n) \<and>
      (shift_in (shifts base ps order) n = base n \<or>
       (\<exists>v \<in> set (preds_of ps n). shift_in (shifts base ps order) n = shift_in (shifts base ps order) v)))"
    using assms
  proof (induction order rule: rev_induct)
    case (snoc k order)
    let ?S = "shifts base ps order" and ?T = "shifts base ps (order @ [k])"
    have old: "shift_in ?T x = shift_in ?S x" if "x \<in> set order" for x
      using that unfolding shifts_snoc by (intro shift_in_append) (simp add: shifts_keys)
    have new: "shift_in ?T k = fst (take_upstream (shift_in ?S) (preds_of ps k) (base k))"
      using snoc.prems(1) unfolding shifts_snoc by (intro shift_in_snoc) (simp add: shifts_keys)
    show ?case
    proof (cases "n = k")
      case False
      then have n: "n \<in> set order" "distinct order" using snoc.prems by auto
      have ups: "u \<in> set order" if "closed_order ps order" "u \<in> set (preds_of ps n)" for u
      proof -
        obtain i where "i < length order" "order ! i = n" using n(1) by (auto simp: in_set_conv_nth)
        then have "u \<in> set (take i order)" using that by (auto simp: closed_order_def)
        then show ?thesis by (rule in_set_takeD)
      qed
      then show ?thesis using snoc.IH [OF n(2,1)] old n(1) by (auto simp: closed_order_snoc)
    next
      case True
      have ups: "shift_in ?T u = shift_in ?S u"
        if "closed_order ps (order @ [k])" "u \<in> set (preds_of ps k)" for u
        using that old by (auto simp: closed_order_snoc)
      note t = take_upstream_spec [where sh = "shift_in ?S" and ups = "preds_of ps k" and own = "base k"]
      show ?thesis
      proof (cases "snd (take_upstream (shift_in ?S) (preds_of ps k) (base k))")
        case None
        then show ?thesis using t(1,3) t(2) True new ups by auto
      next
        case (Some v)
        then show ?thesis using t(1) t(4) [OF Some] t(2) True new ups by auto
      qed
    qed
  qed simp
  then show "base n \<le> shift_in (shifts base ps order) n"
    "closed_order ps order \<Longrightarrow> u \<in> set (preds_of ps n) \<Longrightarrow>
      shift_in (shifts base ps order) u \<le> shift_in (shifts base ps order) n"
    "closed_order ps order \<Longrightarrow> shift_in (shifts base ps order) n = base n \<or>
      (\<exists>v \<in> set (preds_of ps n). shift_in (shifts base ps order) n = shift_in (shifts base ps order) v)"
    by auto
qed

text \<open>
  Without a cycle the shift of a milestone is the largest own slip among the milestones it waits
  for, itself included.
\<close>

lemma shift_is_max:
  assumes "distinct order" "closed_order ps order" "n \<in> set order" "acyclic (pred_rel ps)" "finite (pred_rel ps)"
  shows "(\<forall>x. (n, x) \<in> (pred_rel ps)\<^sup>* \<longrightarrow> base x \<le> shift_in (shifts base ps order) n) \<and>
    (\<exists>x. (n, x) \<in> (pred_rel ps)\<^sup>* \<and> shift_in (shifts base ps order) n = base x)"
proof
  let ?S = "shifts base ps order"
  have mem: "x \<in> set order" if e: "(y, x) \<in> pred_rel ps" and y: "y \<in> set order" for x y
  proof -
    obtain i where "i < length order" "order ! i = y" using y by (auto simp: in_set_conv_nth)
    then have "x \<in> set (take i order)" using assms(2) e by (auto simp: closed_order_def pred_rel_def)
    then show ?thesis by (rule in_set_takeD)
  qed
  show "\<forall>x. (n, x) \<in> (pred_rel ps)\<^sup>* \<longrightarrow> base x \<le> shift_in ?S n"
  proof (intro allI impI)
    fix x assume "(n, x) \<in> (pred_rel ps)\<^sup>*"
    then have "shift_in ?S x \<le> shift_in ?S n \<and> x \<in> set order"
    proof (induction rule: rtrancl_induct)
      case (step y z)
      then show ?case
        using shifts_spec(2) [OF assms(1) _ assms(2), of y z base] mem by (fastforce simp: pred_rel_def)
    qed (use assms(3) in simp)
    then show "base x \<le> shift_in ?S n" using shifts_spec(1) [OF assms(1), of x base ps] by simp
  qed
  have "wf ((pred_rel ps)\<inverse>)" using assms(4,5) by (simp add: finite_acyclic_wf_converse)
  then have "n \<in> set order \<longrightarrow> (\<exists>x. (n, x) \<in> (pred_rel ps)\<^sup>* \<and> shift_in ?S n = base x)"
  proof (induction n rule: wf_induct_rule)
    case (less n)
    show ?case
    proof
      assume n: "n \<in> set order"
      consider "shift_in ?S n = base n" | v where "v \<in> set (preds_of ps n)" "shift_in ?S n = shift_in ?S v"
        using shifts_spec(3) [OF assms(1) n assms(2)] by blast
      then show "\<exists>x. (n, x) \<in> (pred_rel ps)\<^sup>* \<and> shift_in ?S n = base x"
      proof cases
        case 2
        then have e: "(n, v) \<in> pred_rel ps" by (simp add: pred_rel_def)
        then obtain x where "(v, x) \<in> (pred_rel ps)\<^sup>*" "shift_in ?S v = base x"
          using less mem [OF e n] by auto
        then show ?thesis using e 2(2) by (metis converse_rtrancl_into_rtrancl)
      qed blast
    qed
  qed
  then show "\<exists>x. (n, x) \<in> (pred_rel ps)\<^sup>* \<and> shift_in ?S n = base x" using assms(3) by blast
qed

text \<open>
  With or without a cycle the shift of a milestone is at least its own slip, and it is the own slip
  of a milestone it waits for.
\<close>

lemma shift_is_some_base:
  assumes "distinct order" "n \<in> set order" "\<And>x. 0 \<le> base x"
  shows "\<exists>x. (n, x) \<in> (pred_rel ps)\<^sup>* \<and> shift_in (shifts base ps order) n = base x"
  using assms(1,2)
proof (induction order arbitrary: n rule: rev_induct)
  case (snoc k order)
  let ?S = "shifts base ps order" and ?T = "shifts base ps (order @ [k])"
  have old: "shift_in ?T x = shift_in ?S x" if "x \<in> set order" for x
    using that unfolding shifts_snoc by (intro shift_in_append) (simp add: shifts_keys)
  have new: "shift_in ?T k = fst (take_upstream (shift_in ?S) (preds_of ps k) (base k))"
    using snoc.prems(1) unfolding shifts_snoc by (intro shift_in_snoc) (simp add: shifts_keys)
  show ?case
  proof (cases "n = k")
    case False
    then show ?thesis using snoc old by auto
  next
    case True
    note t = take_upstream_spec [where sh = "shift_in ?S" and ups = "preds_of ps k" and own = "base k"]
    consider "shift_in ?T k = base k"
      | v where "v \<in> set (preds_of ps k)" "shift_in ?T k = shift_in ?S v" "base k < shift_in ?S v"
      using t(1) t(3) t(4) new by (cases "snd (take_upstream (shift_in ?S) (preds_of ps k) (base k))") force+
    then show ?thesis
    proof cases
      case 2
      have "v \<in> set order"
      proof (rule ccontr)
        assume "v \<notin> set order"
        then have "v \<notin> fst ` set ?S" using shifts_keys [of base ps order] by (metis list.set_map)
        then have "map_of ?S v = None" by (simp add: map_of_eq_None_iff)
        then have "shift_in ?S v = 0" by (simp add: shift_in_def)
        then show False using 2(3) assms(3) [of k] by simp
      qed
      then obtain x where "(v, x) \<in> (pred_rel ps)\<^sup>*" "shift_in ?S v = base x" using snoc by auto
      moreover have "(k, v) \<in> pred_rel ps" using 2(1) by (simp add: pred_rel_def)
      ultimately show ?thesis using True 2(2) by (metis converse_rtrancl_into_rtrancl)
    qed (use True in blast)
  qed
qed simp

lemma base_of_nonneg: "0 \<le> base_of today ms x"
  by (simp add: base_of_def base_shift_def split: option.split)

lemma finite_pred_rel: "finite (pred_rel ps)"
proof (rule finite_subset)
  show "pred_rel ps \<subseteq> (\<Union>(k, us) \<in> set ps. {k} \<times> set us)"
    by (auto simp: pred_rel_def preds_of_def split: option.splits dest!: map_of_SomeD [OF sym] intro!: bexI)
qed auto

section \<open>The proposal\<close>

lemma in_map_filter: "y \<in> set (List.map_filter f xs) \<longleftrightarrow> (\<exists>x \<in> set xs. f x = Some y)"
  by (force simp: List.map_filter_def)

lemma find_by_id:
  assumes "distinct (map ms_id ms)" "m \<in> set ms"
  shows "milestone_by_id ms (ms_id m) = Some m"
  unfolding milestone_by_id_def by (rule find_key_unique [OF assms])

lemma roadmap_milestones_distinct:
  "distinct (map ms_id (milestones s)) \<Longrightarrow> distinct (map ms_id (roadmap_milestones s r))"
  by (simp add: roadmap_milestones_def distinct_map_filter)

lemma shifts_map_of:
  assumes "distinct order" "(n, x, w) \<in> set (shifts base ps order)"
  shows "shift_in (shifts base ps order) n = x"
proof -
  have "distinct (map fst (shifts base ps order))" using assms(1) by (simp add: shifts_keys)
  then show ?thesis using assms(2) by (simp add: shift_in_def)
qed

lemma in_compute_replan:
  assumes "distinct (map ms_id (milestones s))"
  shows "c \<in> set (compute_replan today s r) \<longleftrightarrow>
    (\<exists>m d x w. m \<in> set (roadmap_milestones s r) \<and> ms_due_on m = Some d \<and> 0 < x
      \<and> (ms_id m, x, w) \<in> set (compute_shifts today s r)
      \<and> change_of today (roadmap_milestones s r) (ms_id m, x, w) = Some c)"
proof -
  note dm = roadmap_milestones_distinct [OF assms, of r]
  have "\<exists>m d. m \<in> set (roadmap_milestones s r) \<and> ms_id m = i \<and> ms_due_on m = Some d \<and> 0 < x"
    if "change_of today (roadmap_milestones s r) (i, x, w) = Some c" for i x w
    using that find_SomeD
    by (fastforce simp: change_of_def milestone_by_id_def split: option.splits if_splits)
  then show ?thesis
    unfolding compute_replan_def in_map_filter by fastforce
qed

lemma change_of_fields:
  assumes "change_of today ms (i, x, w) = Some c"
  shows "ch_change_id c = i" "ch_milestone_id c = i"
    "\<exists>m. milestone_by_id ms i = Some m \<and> ms_due_on m = Some (ch_old_due c) \<and> ms_title m = ch_title c"
    "ch_new_due c = ch_old_due c + x" "0 < x"
  using assms by (auto simp: change_of_def split: option.splits if_splits)

lemma compute_shifts_keys:
  "map fst (compute_shifts today s r) =
     toposort (map ms_id (roadmap_milestones s r)) (milestone_precedence s r)"
  by (simp add: compute_shifts_def shifts_keys Let_def)

lemma compute_shift_entry:
  assumes "m \<in> set (roadmap_milestones s r)"
  obtains w where "(ms_id m, shift_in (compute_shifts today s r) (ms_id m), w) \<in> set (compute_shifts today s r)"
proof -
  let ?ns = "map ms_id (roadmap_milestones s r)"
  have "ms_id m \<in> set (map fst (compute_shifts today s r))"
    unfolding compute_shifts_keys using toposort_spec(2) [of ?ns "milestone_precedence s r"] assms by auto
  then obtain x w where e: "(ms_id m, x, w) \<in> set (compute_shifts today s r)" by auto
  then have "shift_in (compute_shifts today s r) (ms_id m) = x"
    unfolding compute_shifts_def Let_def by (intro shifts_map_of toposort_spec(1))
  with e that show thesis by blast
qed

lemma shift_base:
  assumes "distinct (map ms_id (milestones s))" "m \<in> set (roadmap_milestones s r)"
  shows "base_shift today m \<le> shift_in (compute_shifts today s r) (ms_id m)"
proof -
  let ?ms = "roadmap_milestones s r"
  let ?ord = "toposort (map ms_id ?ms) (milestone_precedence s r)"
  have "ms_id m \<in> set ?ord" using toposort_spec(2) [of "map ms_id ?ms"] assms(2) by fastforce
  then have "base_of today ?ms (ms_id m) \<le> shift_in (shifts (base_of today ?ms) (milestone_precedence s r) ?ord) (ms_id m)"
    by (rule shifts_spec(1) [OF toposort_spec(1)])
  then show ?thesis
    using find_by_id [OF roadmap_milestones_distinct [OF assms(1)] assms(2)]
    by (simp add: base_of_def compute_shifts_def Let_def)
qed

lemma replan_proposal_drift:
  assumes "distinct (map ms_id (milestones s))" "m \<in> set (detect_drift today s r)"
  shows "\<exists>c \<in> set (compute_replan today s r). ch_milestone_id c = ms_id m \<and> today + 7 \<le> ch_new_due c"
proof -
  let ?ms = "roadmap_milestones s r" and ?S = "compute_shifts today s r"
  have m: "m \<in> set ?ms" "milestone_overdue today m" using assms(2) by (simp_all add: detect_drift_def)
  then obtain d where d: "ms_due_on m = Some d" "d < today" "ms_status m \<noteq> RM_done"
    by (auto simp: milestone_overdue_def split: option.splits)
  then have b: "base_shift today m = today + 7 - d" by (simp add: base_shift_def replan_buffer_days_def)
  obtain w where e: "(ms_id m, shift_in ?S (ms_id m), w) \<in> set ?S" by (rule compute_shift_entry [OF m(1)])
  have sh: "today + 7 - d \<le> shift_in ?S (ms_id m)" using shift_base [OF assms(1) m(1), of today] b by simp
  then have pos: "0 < shift_in ?S (ms_id m)" using d(2) by simp
  have id: "milestone_by_id ?ms (ms_id m) = Some m"
    by (rule find_by_id [OF roadmap_milestones_distinct [OF assms(1)] m(1)])
  then obtain c where c: "change_of today ?ms (ms_id m, shift_in ?S (ms_id m), w) = Some c"
    using d(1) pos by (auto simp: change_of_def)
  then have "c \<in> set (compute_replan today s r)"
    using in_compute_replan [OF assms(1)] m(1) d(1) pos e by blast
  moreover have "ch_milestone_id c = ms_id m" "today + 7 \<le> ch_new_due c"
    using change_of_fields [OF c] id d(1) sh by auto
  ultimately show ?thesis
    by blast
qed

text \<open>
  C9: the proposal of a re-plan. Each change moves its milestone strictly later, by the shift of
  that milestone; every slipped milestone has a change, to at least seven days from today; every
  shift is at least the milestone's own slip and is the own slip of a milestone it transitively
  waits for. Provided the precedence between milestones has no cycle, it is the largest of those
  slips, so that nothing is moved less than its upstream. (The dependencies between tasks never
  have a cycle, yet the precedence they give between milestones can: see
  \<open>milestones_in_a_circle\<close> below.)
\<close>

theorem replan_proposal:
  assumes "distinct (map ms_id (milestones s))"
  shows "(\<forall>c \<in> set (compute_replan today s r). ch_old_due c < ch_new_due c
      \<and> ch_new_due c = ch_old_due c + shift_in (compute_shifts today s r) (ch_milestone_id c)
      \<and> (\<exists>m \<in> set (roadmap_milestones s r). ms_id m = ch_milestone_id c \<and> ms_due_on m = Some (ch_old_due c)))
    \<and> (\<forall>m \<in> set (detect_drift today s r). \<exists>c \<in> set (compute_replan today s r).
         ch_milestone_id c = ms_id m \<and> today + 7 \<le> ch_new_due c)
    \<and> (\<forall>m \<in> set (roadmap_milestones s r).
          base_of today (roadmap_milestones s r) (ms_id m) \<le> shift_in (compute_shifts today s r) (ms_id m) \<and>
          (\<exists>x. (ms_id m, x) \<in> (pred_rel (milestone_precedence s r))\<^sup>* \<and>
             shift_in (compute_shifts today s r) (ms_id m) = base_of today (roadmap_milestones s r) x) \<and>
          (acyclic (pred_rel (milestone_precedence s r)) \<longrightarrow>
            (\<forall>x. (ms_id m, x) \<in> (pred_rel (milestone_precedence s r))\<^sup>* \<longrightarrow>
               base_of today (roadmap_milestones s r) x \<le> shift_in (compute_shifts today s r) (ms_id m))))"
proof (intro conjI ballI impI)
  let ?ms = "roadmap_milestones s r" and ?S = "compute_shifts today s r"
  let ?ord = "toposort (map ms_id ?ms) (milestone_precedence s r)"
  {
    fix c assume "c \<in> set (compute_replan today s r)"
    then obtain m d x w where m: "m \<in> set ?ms" "(ms_id m, x, w) \<in> set ?S"
      "change_of today ?ms (ms_id m, x, w) = Some c"
      using in_compute_replan [OF assms] by blast
    have "shift_in ?S (ms_id m) = x"
      using m(2) unfolding compute_shifts_def Let_def by (intro shifts_map_of toposort_spec(1))
    moreover have "milestone_by_id ?ms (ms_id m) = Some m"
      by (rule find_by_id [OF roadmap_milestones_distinct [OF assms] m(1)])
    ultimately show "ch_old_due c < ch_new_due c"
      "ch_new_due c = ch_old_due c + shift_in ?S (ch_milestone_id c)"
      "\<exists>m \<in> set ?ms. ms_id m = ch_milestone_id c \<and> ms_due_on m = Some (ch_old_due c)"
      using change_of_fields [OF m(3)] m(1) by auto
  }
  fix m assume "m \<in> set (detect_drift today s r)"
  then show "\<exists>c \<in> set (compute_replan today s r). ch_milestone_id c = ms_id m \<and> today + 7 \<le> ch_new_due c"
    by (rule replan_proposal_drift [OF assms])
next
  let ?ms = "roadmap_milestones s r" and ?S = "compute_shifts today s r"
  let ?ord = "toposort (map ms_id ?ms) (milestone_precedence s r)"
  fix m assume m: "m \<in> set ?ms"
  have o: "ms_id m \<in> set ?ord" using toposort_spec(2) [of "map ms_id ?ms"] m by fastforce
  have S: "?S = shifts (base_of today ?ms) (milestone_precedence s r) ?ord"
    by (simp add: compute_shifts_def Let_def)
  show "base_of today ?ms (ms_id m) \<le> shift_in ?S (ms_id m)"
    unfolding S by (rule shifts_spec(1) [OF toposort_spec(1) o])
  show "\<exists>x. (ms_id m, x) \<in> (pred_rel (milestone_precedence s r))\<^sup>* \<and>
      shift_in ?S (ms_id m) = base_of today ?ms x"
    unfolding S by (rule shift_is_some_base [OF toposort_spec(1) o base_of_nonneg])
  assume ac: "acyclic (pred_rel (milestone_precedence s r))"
  show "\<forall>x. (ms_id m, x) \<in> (pred_rel (milestone_precedence s r))\<^sup>* \<longrightarrow> base_of today ?ms x \<le> shift_in ?S (ms_id m)"
    using shift_is_max [OF toposort_spec(1) toposort_spec(3) [OF ac] o ac finite_pred_rel] unfolding S by blast
qed

section \<open>Applying the whole proposal\<close>

definition moved :: "instant \<Rightarrow> change \<Rightarrow> milestone \<Rightarrow> milestone" where
  "moved now c m = m\<lparr>ms_due_on := Some (ch_new_due c), ms_last_replanned_at := Some now,
     ms_last_replan_reason := Some (ch_reason c)\<rparr>"

definition moved_by :: "instant \<Rightarrow> change list \<Rightarrow> milestone \<Rightarrow> milestone" where
  "moved_by now cs m = foldl (\<lambda>m c. if ms_id m = ch_milestone_id c then moved now c m else m) m cs"

lemma moved_fields [simp]:
  "ms_id (moved now c m) = ms_id m" "ms_phase_id (moved now c m) = ms_phase_id m"
  "ms_status (moved now c m) = ms_status m" "ms_due_on (moved now c m) = Some (ch_new_due c)"
  "ms_progress (moved now c m) = ms_progress m"
  by (simp_all add: moved_def)

lemma moved_by_fields [simp]:
  "ms_id (moved_by now cs m) = ms_id m" "ms_phase_id (moved_by now cs m) = ms_phase_id m"
  "ms_status (moved_by now cs m) = ms_status m" "ms_progress (moved_by now cs m) = ms_progress m"
  by (induction cs rule: rev_induct) (simp_all add: moved_by_def)

lemma moved_by_due:
  "ms_due_on (moved_by now cs m) =
     (let xs = filter (\<lambda>c. ch_milestone_id c = ms_id m) cs
      in if xs = [] then ms_due_on m else Some (ch_new_due (last xs)))"
proof (induction cs rule: rev_induct)
  case (snoc c cs)
  have "moved_by now (cs @ [c]) m =
      (if ms_id m = ch_milestone_id c then moved now c (moved_by now cs m) else moved_by now cs m)"
    using moved_by_fields(1) [of now cs m] by (simp add: moved_by_def)
  then show ?case using snoc by (auto simp: Let_def)
qed (simp add: moved_by_def)

lemma moved_by_Nil [simp]: "moved_by now [] = (\<lambda>m. m)"
  by (simp add: moved_by_def fun_eq_iff)

lemma apply_changes_tables:
  "milestones (foldl (\<lambda>s c. apply_change now c s) s cs) = map (moved_by now cs) (milestones s)"
  "rtasks (foldl (\<lambda>s c. apply_change now c s) s cs) = rtasks s"
  "phases (foldl (\<lambda>s c. apply_change now c s) s cs) = phases s"
  "task_dependencies (foldl (\<lambda>s c. apply_change now c s) s cs) = task_dependencies s"
  "fresh (foldl (\<lambda>s c. apply_change now c s) s cs) = fresh s"
proof (induction cs rule: rev_induct)
  case (snoc c cs)
  have "moved_by now (cs @ [c]) m =
      (if ms_id m = ch_milestone_id c then moved now c (moved_by now cs m) else moved_by now cs m)" for m
    using moved_by_fields(1) [of now cs m] by (simp add: moved_by_def)
  then show "milestones (foldl (\<lambda>s c. apply_change now c s) s (cs @ [c])) = map (moved_by now (cs @ [c])) (milestones s)"
    using snoc(1) by (simp add: apply_change_def update_milestone_def update_where_def moved_def [symmetric])
qed (simp_all add: apply_change_def update_milestone_def moved_by_def)

text \<open>A re-plan touches dates only, so it keeps the roadmap well formed.\<close>

lemma apply_changes_inv:
  assumes "roadmap_inv s"
  shows "roadmap_inv (foldl (\<lambda>s c. apply_change now c s) s cs)"
proof -
  let ?s = "foldl (\<lambda>s c. apply_change now c s) s cs"
  note t = apply_changes_tables [of now s cs]
  have "tree_ok ?s" "edges_inside ?s" "acyclic (dep_rel ?s)"
    using assms by (auto simp: roadmap_inv_def t comp_def intro!: shape_kept [of ?s s])
  moreover have "milestone_progress ?s (moved_by now cs m) = milestone_progress s m" for m
    by (simp add: milestone_progress_def tasks_of_def t)
  then have "progress_ok ?s" using assms by (auto simp: roadmap_inv_def progress_ok_def t)
  ultimately show ?thesis by (simp add: roadmap_inv_def)
qed

lemma map_filter_sub:
  assumes "\<And>x y. f x = Some y \<Longrightarrow> g y = h x" "distinct (map h xs)"
  shows "distinct (map g (List.map_filter f xs)) \<and> set (map g (List.map_filter f xs)) \<subseteq> set (map h xs)"
  using assms(2)
proof (induction xs)
  case (Cons x xs)
  then show ?case using assms(1) [of x] by (cases "f x") (auto simp: List.map_filter_def)
qed (simp add: List.map_filter_def)

lemma compute_replan_distinct: "distinct (map ch_change_id (compute_replan today s r))"
proof -
  have "distinct (map fst (compute_shifts today s r))"
    unfolding compute_shifts_keys by (rule toposort_spec(1))
  moreover have "change_of today (roadmap_milestones s r) e = Some c \<Longrightarrow> ch_change_id c = fst e" for e c
    using change_of_fields(1) [of _ _ "fst e" "fst (snd e)" "snd (snd e)"] by simp
  ultimately show ?thesis
    using map_filter_sub [of "change_of today (roadmap_milestones s r)" ch_change_id fst "compute_shifts today s r"]
    by (simp add: compute_replan_def)
qed

lemma choose_all:
  assumes "distinct (map k cs)"
  shows "List.map_filter (\<lambda>i. find (\<lambda>c. k c = i) cs) (map k cs) = cs"
proof -
  have "List.map_filter (\<lambda>i. find (\<lambda>c. k c = i) cs) (map k ds) = ds" if "set ds \<subseteq> set cs" for ds
    using that
  proof (induction ds)
    case (Cons d ds)
    then have "find (\<lambda>c. k c = k d) cs = Some d" using find_key_unique [OF assms, of d] by simp
    then show ?case using Cons by (simp add: List.map_filter_def)
  qed (simp add: List.map_filter_def)
  then show ?thesis by blast
qed

lemma base_shift_0_iff: "base_shift today m = 0 \<longleftrightarrow> \<not> milestone_overdue today m"
  by (auto simp: base_shift_def milestone_overdue_def replan_buffer_days_def split: option.split)

lemma shifts_all_0:
  assumes "\<And>n. base n = 0"
  shows "\<forall>(n, x, w) \<in> set (shifts base ps order). x = 0"
proof (induction order rule: rev_induct)
  case (snoc n order)
  have 0: "shift_in (shifts base ps order) u = 0" for u
    using snoc by (fastforce simp: shift_in_def split: option.split dest: map_of_SomeD)
  have "fst (take_upstream (shift_in (shifts base ps order)) (preds_of ps n) (base n)) = 0"
    using take_upstream_spec(3,4) [of "shift_in (shifts base ps order)" "preds_of ps n" "base n"] assms 0
    by (cases "snd (take_upstream (shift_in (shifts base ps order)) (preds_of ps n) (base n))") auto
  then show ?case
    using snoc by (cases "take_upstream (shift_in (shifts base ps order)) (preds_of ps n) (base n)")
      (simp add: shifts_snoc)
qed (simp add: shifts_def)

lemma no_drift_no_changes:
  assumes "detect_drift today s r = []"
  shows "compute_replan today s r = []"
proof -
  have "base_of today (roadmap_milestones s r) n = 0" for n
    using assms find_SomeD by (fastforce simp: base_of_def base_shift_0_iff detect_drift_def filter_empty_conv
        milestone_by_id_def split: option.split)
  then have "\<forall>(n, x, w) \<in> set (compute_shifts today s r). x = 0"
    unfolding compute_shifts_def Let_def by (rule shifts_all_0)
  then have "change_of today (roadmap_milestones s r) e = None" if "e \<in> set (compute_shifts today s r)" for e
    using that by (auto simp: change_of_def split: option.splits)
  then show ?thesis by (simp add: compute_replan_def List.map_filter_def)
qed

lemma moved_all_no_drift:
  assumes "distinct (map ms_id (milestones s))" "milestones s' = map (moved_by now (compute_replan today s r)) (milestones s)"
    and "phases s' = phases s"
  shows "detect_drift today s' r = []"
proof -
  let ?cs = "compute_replan today s r"
  have "\<not> milestone_overdue today (moved_by now ?cs m)" if m: "m \<in> set (roadmap_milestones s r)" for m
  proof
    assume late: "milestone_overdue today (moved_by now ?cs m)"
    let ?xs = "filter (\<lambda>c. ch_milestone_id c = ms_id m) ?cs"
    note d = moved_by_due [of now ?cs m, unfolded Let_def]
    show False
    proof (cases "?xs = []")
      case True
      then have "milestone_overdue today m" using late d by (auto simp: milestone_overdue_def split: option.splits)
      then have "m \<in> set (detect_drift today s r)" using m by (simp add: detect_drift_def)
      then show False using replan_proposal_drift [OF assms(1)] True by (fastforce simp: filter_empty_conv)
    next
      case False
      define c where "c = last ?xs"
      then have c: "c \<in> set ?cs" "ch_milestone_id c = ms_id m" using last_in_set [OF False] by auto
      have due: "ms_due_on (moved_by now ?cs m) = Some (ch_new_due c)" using d False by (simp add: c_def)
      obtain x w where w: "change_of today (roadmap_milestones s r) (ms_id m, x, w) = Some c"
        "(ms_id m, x, w) \<in> set (compute_shifts today s r)"
        using in_compute_replan [OF assms(1), of c today r] c change_of_fields(2) by fastforce
      have id: "milestone_by_id (roadmap_milestones s r) (ms_id m) = Some m"
        by (rule find_by_id [OF roadmap_milestones_distinct [OF assms(1)] m])
      have x: "x = shift_in (compute_shifts today s r) (ms_id m)"
        using w(2) unfolding compute_shifts_def Let_def by (metis shifts_map_of toposort_spec(1))
      have f: "ms_due_on m = Some (ch_old_due c)" "ch_new_due c = ch_old_due c + x" "0 < x"
        using change_of_fields [OF w(1)] id by auto
      have "base_shift today m \<le> x" unfolding x by (rule shift_base [OF assms(1) m])
      then have "today \<le> ch_new_due c \<or> ms_status m = RM_done"
        using f by (auto simp: base_shift_def replan_buffer_days_def split: if_splits)
      then show False using late due by (auto simp: milestone_overdue_def)
    qed
  qed
  then show ?thesis
    using assms(2,3) by (auto simp: detect_drift_def roadmap_milestones_def phase_in_def filter_empty_conv)
qed

text \<open>
  Applying every proposed change. None of them is skipped, afterwards no milestone of the
  roadmap is overdue and the next preview is empty; the progress and the statuses of the
  milestones, the tasks and the dependencies are untouched.
\<close>

theorem replan_settles:
  assumes "distinct (map ms_id (milestones s))"
  shows "let res = apply_replan now today r a (map ch_change_id (compute_replan today s (ro_id r))) s
    in rr_skipped (fst res) = [] \<and> rr_applied (fst res) = map ch_change_id (compute_replan today s (ro_id r))
       \<and> detect_drift today (snd res) (ro_id r) = [] \<and> compute_replan today (snd res) (ro_id r) = []
       \<and> map (\<lambda>m. (ms_id m, ms_status m, ms_progress m)) (milestones (snd res))
           = map (\<lambda>m. (ms_id m, ms_status m, ms_progress m)) (milestones s)
       \<and> rtasks (snd res) = rtasks s \<and> task_dependencies (snd res) = task_dependencies s"
proof -
  let ?cs = "compute_replan today s (ro_id r)"
  let ?res = "apply_replan now today r a (map ch_change_id ?cs) s"
  let ?get = "\<lambda>i. find (\<lambda>c. ch_change_id c = i) ?cs"
  note k = compute_replan_distinct [of today s "ro_id r"]
  have get: "?get (ch_change_id c) \<noteq> None" if "c \<in> set ?cs" for c
    using find_key_unique [OF k that] by simp
  have choice: "List.map_filter ?get (map ch_change_id ?cs) = ?cs"
    "filter (\<lambda>i. ?get i \<noteq> None) (map ch_change_id ?cs) = map ch_change_id ?cs"
    "filter (\<lambda>i. ?get i = None) (map ch_change_id ?cs) = []"
    using choose_all [OF k] get by (auto simp: filter_id_conv filter_empty_conv)
  note t = apply_changes_tables [of now s ?cs]
  have tables: "milestones (snd ?res) = map (moved_by now ?cs) (milestones s)" "phases (snd ?res) = phases s"
    "rtasks (snd ?res) = rtasks s" "task_dependencies (snd ?res) = task_dependencies s"
    by (simp_all add: apply_replan_def choice t Let_def case_prod_unfold fresh_id_def del: not_None_eq)
  have "rr_skipped (fst ?res) = []" "rr_applied (fst ?res) = map ch_change_id ?cs"
    by (simp_all add: apply_replan_def choice Let_def case_prod_unfold del: not_None_eq)
  moreover have drift: "detect_drift today (snd ?res) (ro_id r) = []"
    by (rule moved_all_no_drift [OF assms tables(1,2)])
  moreover have "compute_replan today (snd ?res) (ro_id r) = []" by (rule no_drift_no_changes [OF drift])
  ultimately show ?thesis by (simp add: tables Let_def comp_def)
qed

section \<open>A roadmap that slipped\<close>

definition empty_roadmap_db :: "unit roadmap_db_scheme" where
  "empty_roadmap_db = notif_db.extend empty_notif_db
     (roadmap_db.fields [] [] [] [] [] [])"

definition sample_roadmap :: roadmap where
  "sample_roadmap =
     \<lparr>ro_id = 11, ro_startup_id = 9, ro_stage = SS_idea, ro_template_key = ''idea'', ro_template_version = 1,
      ro_generated_at = 0, ro_applied_template_keys = []\<rparr>"

definition sample_milestone :: "uid \<Rightarrow> day \<Rightarrow> milestone" where
  "sample_milestone i d =
     \<lparr>ms_id = i, ms_phase_id = 2, ms_title = ''m'', ms_description = None, ms_due_on = Some d,
      ms_owner_id = None, ms_status = RM_todo, ms_progress = 0, ms_order = 0,
      ms_last_replanned_at = None, ms_last_replan_reason = None\<rparr>"

definition sample_task :: "uid \<Rightarrow> uid \<Rightarrow> rtask" where
  "sample_task i m =
     \<lparr>rt_id = i, rt_milestone_id = m, rt_title = ''t'', rt_description = None, rt_effort = TE_medium,
      rt_status = RM_todo, rt_assignee_id = None, rt_due_on = None, rt_order = 0\<rparr>"

text \<open>Two milestones, the second one waits for the first through a task; the third stands alone.\<close>

definition slipped_db :: "unit roadmap_db_scheme" where
  "slipped_db = empty_roadmap_db\<lparr>fresh := 20, roadmaps := [sample_roadmap],
     phases := [\<lparr>ph_id = 2, ph_roadmap_id = 11, ph_name = ''p'', ph_order = 0, ph_starts_on = None, ph_ends_on = None\<rparr>],
     milestones := [sample_milestone 3 93, sample_milestone 4 110, sample_milestone 8 90\<lparr>ms_status := RM_done\<rparr>],
     rtasks := [sample_task 5 3, sample_task 6 4],
     task_dependencies := [\<lparr>dp_task_id = 6, dp_depends_on_task_id = 5\<rparr>]\<rparr>"

lemmas slipped_simps = slipped_db_def empty_roadmap_db_def empty_notif_db_def roadmap_db.defs notif_db.defs
  sample_roadmap_def sample_milestone_def sample_task_def

lemma slipped_tables:
  "map ms_id (milestones slipped_db) = [3, 4, 8]"
  "detect_drift 100 slipped_db 11 = [sample_milestone 3 93]"
  "milestone_precedence slipped_db 11 = [(4, [3])]"
  "map ms_id (roadmap_milestones slipped_db 11) = [3, 4, 8]"
  "base_of 100 (roadmap_milestones slipped_db 11) 3 = 14"
  by (simp_all add: slipped_simps detect_drift_def roadmap_milestones_def phase_in_def milestone_overdue_def
      milestone_precedence_def task_milestone_def milestone_in_def base_of_def milestone_by_id_def base_shift_def
      replan_buffer_days_def)

text \<open>
  Two milestones whose tasks wait for each other crosswise: a task of the second for one of the
  first, another of the first for another of the second. The tasks have no cycle, so every edge was
  accepted, but the milestones do: the topological order skips the edge back, and the second
  milestone is moved twelve days only although the first, which it waits for, slips by twenty-seven.
\<close>

definition crosswise_db :: "unit roadmap_db_scheme" where
  "crosswise_db = slipped_db\<lparr>
     milestones := [sample_milestone 3 80, sample_milestone 4 95],
     rtasks := [sample_task 5 3, sample_task 6 3, sample_task 7 4, sample_task 8 4],
     task_dependencies := [\<lparr>dp_task_id = 7, dp_depends_on_task_id = 5\<rparr>, \<lparr>dp_task_id = 6, dp_depends_on_task_id = 8\<rparr>]\<rparr>"

lemma milestones_in_a_circle:
  "acyclic (dep_rel crosswise_db)"
  "milestone_precedence crosswise_db 11 = [(4, [3]), (3, [4])]"
  "base_of 100 (roadmap_milestones crosswise_db 11) 3 = 27"
  "shift_in (compute_shifts 100 crosswise_db 11) 4 = 12"
proof -
  have "dep_rel crosswise_db = {(7, 5), (6, 8)}" by (auto simp: dep_rel_def crosswise_db_def)
  then show "acyclic (dep_rel crosswise_db)"
    by (intro acyclicI_order [where f = "\<lambda>x. if x = 6 \<or> x = 7 then 1 else 0 :: nat"]) auto
  show p: "milestone_precedence crosswise_db 11 = [(4, [3]), (3, [4])]"
    by (simp add: crosswise_db_def slipped_simps milestone_precedence_def task_milestone_def milestone_in_def phase_in_def)
  have m: "roadmap_milestones crosswise_db 11 = [sample_milestone 3 80, sample_milestone 4 95]"
    by (simp add: crosswise_db_def slipped_simps roadmap_milestones_def phase_in_def)
  show b: "base_of 100 (roadmap_milestones crosswise_db 11) 3 = 27"
    by (simp add: m base_of_def milestone_by_id_def base_shift_def replan_buffer_days_def sample_milestone_def)
  have "toposort [3, 4] [(4, [3]), (3, [4])] = [4, 3]" by (simp add: toposort_def preds_of_def)
  then show "shift_in (compute_shifts 100 crosswise_db 11) 4 = 12"
    by (simp add: compute_shifts_def p m shifts_def shift_in_def take_upstream_def preds_of_def base_of_def
        milestone_by_id_def base_shift_def replan_buffer_days_def sample_milestone_def)
qed

theorem replan_proposal_witness:
  "(\<exists>c \<in> set (compute_replan 100 slipped_db 11). ch_milestone_id c = 3 \<and> 107 \<le> ch_new_due c)
   \<and> 14 \<le> shift_in (compute_shifts 100 slipped_db 11) 4"
proof -
  have p: "pred_rel [(4 :: uid, [3 :: uid])] = {(4, 3)}"
    by (auto simp: pred_rel_def preds_of_def split: if_splits)
  then have ac: "acyclic (pred_rel (milestone_precedence slipped_db 11))"
    by (simp add: slipped_tables acyclic_def trancl_insert)
  have d: "distinct (map ms_id (milestones slipped_db))" by (simp add: slipped_tables)
  have "4 \<in> set (map ms_id (roadmap_milestones slipped_db 11))" by (simp add: slipped_tables(4))
  then obtain m where m: "m \<in> set (roadmap_milestones slipped_db 11)" "ms_id m = 4"
    by auto
  note all = replan_proposal [OF d, of 100 11]
  have "\<exists>c \<in> set (compute_replan 100 slipped_db 11). ch_milestone_id c = ms_id (sample_milestone 3 93) \<and> 100 + 7 \<le> ch_new_due c"
    using all unfolding slipped_tables(2) by (metis list.set_intros(1))
  moreover have "(ms_id m, 3) \<in> (pred_rel (milestone_precedence slipped_db 11))\<^sup>*"
    using m(2) p by (simp add: slipped_tables r_into_rtrancl)
  then have "base_of 100 (roadmap_milestones slipped_db 11) 3 \<le> shift_in (compute_shifts 100 slipped_db 11) (ms_id m)"
    using all ac m(1) by blast
  ultimately show ?thesis using m(2) by (simp add: slipped_tables sample_milestone_def)
qed

theorem replan_settles_witness:
  "detect_drift 100 slipped_db 11 \<noteq> [] \<and>
   (let s = snd (apply_replan 5 100 sample_roadmap 7
              (map ch_change_id (compute_replan 100 slipped_db 11)) slipped_db)
    in detect_drift 100 s 11 = [] \<and> compute_replan 100 s 11 = [])"
  using replan_settles [of slipped_db 5 100 sample_roadmap 7]
  by (simp add: slipped_tables Let_def sample_roadmap_def)

end
