(* ===== verification/Roadmap_Requests.thy ===== *)
theory Roadmap_Requests
  imports Replan
begin

text \<open>
  The requests of the roadmap as one step relation. A request runs behind the workspace guard (an
  editor role for every one that writes, any active member for \<^verbatim>\<open>GET /roadmap\<close>) and in one
  transaction, so the error answers leave no trace; a roadmap stays well formed along every
  history of requests.
\<close>

datatype roadmap_request =
    RQ_get
  | RQ_generate
  | RQ_apply_template string
  | RQ_create_phase phase_create
  | RQ_update_phase uid phase_update
  | RQ_delete_phase uid
  | RQ_create_milestone milestone_create
  | RQ_update_milestone uid milestone_update
  | RQ_delete_milestone uid
  | RQ_create_task task_create
  | RQ_update_task uid task_update
  | RQ_delete_task uid
  | RQ_create_dependency uid uid
  | RQ_delete_dependency uid uid
  | RQ_replan "uid list"

definition editors :: "membership_role list" where
  "editors = [MR_founder, MR_team_member]"

definition forget :: "('r \<Rightarrow> unit result) \<Rightarrow> 'r \<times> 's \<Rightarrow> unit result \<times> 's" where
  "forget f x = (f (fst x), snd x)"

definition done_ok :: "'r result \<Rightarrow> unit result" where
  "done_ok r = (case r of Inl e \<Rightarrow> Inl e | Inr _ \<Rightarrow> Inr ())"

fun roadmap_body ::
    "instant \<Rightarrow> day \<Rightarrow> user \<Rightarrow> roadmap_request \<Rightarrow> membership \<Rightarrow> 'a roadmap_db_scheme
     \<Rightarrow> unit result \<times> 'a roadmap_db_scheme" where
  "roadmap_body now today u RQ_get m s = forget done_ok (get_roadmap now today m s)"
| "roadmap_body now today u RQ_generate m s = forget done_ok (post_generate now today m s)"
| "roadmap_body now today u (RQ_apply_template t) m s = forget done_ok (apply_template_ep now today t m s)"
| "roadmap_body now today u (RQ_create_phase b) m s = forget done_ok (create_phase b m s)"
| "roadmap_body now today u (RQ_update_phase i b) m s = forget done_ok (update_phase i b m s)"
| "roadmap_body now today u (RQ_delete_phase i) m s = delete_phase i m s"
| "roadmap_body now today u (RQ_create_milestone b) m s = forget done_ok (create_milestone_ep b m s)"
| "roadmap_body now today u (RQ_update_milestone i b) m s = update_milestone_ep now i b u m s"
| "roadmap_body now today u (RQ_delete_milestone i) m s = delete_milestone_ep i m s"
| "roadmap_body now today u (RQ_create_task b) m s = forget done_ok (create_task_ep b m s)"
| "roadmap_body now today u (RQ_update_task i b) m s = forget done_ok (update_task_ep i b m s)"
| "roadmap_body now today u (RQ_delete_task i) m s = delete_task_ep i m s"
| "roadmap_body now today u (RQ_create_dependency t d) m s = forget done_ok (create_dependency_ep t d m s)"
| "roadmap_body now today u (RQ_delete_dependency t d) m s = delete_dependency_ep t d m s"
| "roadmap_body now today u (RQ_replan ids) m s = forget done_ok (replan_apply now today ids u m s)"

definition roadmap_roles :: "roadmap_request \<Rightarrow> membership_role list" where
  "roadmap_roles q = (if q = RQ_get then [] else editors)"

text \<open>A request as it arrives: its credential, its workspace, the clock and its body.\<close>

record roadmap_call =
  rc_credential :: "string option"
  rc_workspace :: uid
  rc_now :: instant
  rc_today :: day
  rc_user :: user
  rc_request :: roadmap_request

definition serve_roadmap ::
    "(string \<Rightarrow> json option) \<Rightarrow> roadmap_call \<Rightarrow> 'a roadmap_db_scheme \<Rightarrow> unit result \<times> 'a roadmap_db_scheme" where
  "serve_roadmap decode q s =
     workspace_request decode (rc_credential q) (rc_workspace q) (roadmap_roles (rc_request q)) True
       (roadmap_body (rc_now q) (rc_today q) (rc_user q) (rc_request q)) s"

section \<open>Lookups find rows of the caller's roadmap\<close>

lemma find_phase_ok:
  assumes "find_phase m i s = Inr p"
  shows "p \<in> set (phases s)" "ph_id p = i"
  using assms find_SomeD by (fastforce simp: find_phase_def split: sum.splits option.splits)+

lemma find_milestone_ok:
  assumes "find_milestone m i s = Inr x"
  shows "x \<in> set (milestones s)" "ms_id x = i"
  using assms find_SomeD by (fastforce simp: find_milestone_def split: sum.splits option.splits)+

lemma find_task_ok:
  assumes "find_task m i s = Inr t"
  shows "t \<in> set (rtasks s)" "rt_id t = i"
    "\<exists>r. require_roadmap m s = Inr r \<and> task_in s (ro_id r) i"
  using assms find_SomeD by (fastforce simp: find_task_def task_in_def split: sum.splits option.splits)+

section \<open>Dependencies\<close>

text \<open>A task hangs on one roadmap, so an edge inside some roadmap is inside its task's one.\<close>

lemma task_in_unique:
  assumes "tree_ok s" "task_in s r t" "task_in s r' t"
  shows "r = r'"
proof -
  obtain x m p where x: "x \<in> set (rtasks s)" "rt_id x = t" and m: "m \<in> set (milestones s)" "ms_id m = rt_milestone_id x"
    and p: "p \<in> set (phases s)" "ph_id p = ms_phase_id m" "ph_roadmap_id p = r"
    using assms(2) by (fastforce simp: task_in_def milestone_in_def phase_in_def)
  obtain x' m' p' where x': "x' \<in> set (rtasks s)" "rt_id x' = t" and m': "m' \<in> set (milestones s)" "ms_id m' = rt_milestone_id x'"
    and p': "p' \<in> set (phases s)" "ph_id p' = ms_phase_id m'" "ph_roadmap_id p' = r'"
    using assms(3) by (fastforce simp: task_in_def milestone_in_def phase_in_def)
  have d: "distinct (map rt_id (rtasks s))" "distinct (map ms_id (milestones s))" "distinct (map ph_id (phases s))"
    using assms(1) by (simp_all add: tree_ok_def)
  have "x = x'" using distinct_mapD [OF d(1) x(1) x'(1)] x(2) x'(2) by simp
  then have "m = m'" using distinct_mapD [OF d(2) m(1) m'(1)] m(2) m'(2) by simp
  then have "p = p'" using distinct_mapD [OF d(3) p(1) p'(1)] p(2) p'(2) by simp
  then show ?thesis using p(3) p'(3) by simp
qed

lemma edges_inside_local:
  assumes "tree_ok s" "edges_inside s"
  shows "edges_local s"
  using assms(2) task_in_unique [OF assms(1)] unfolding edges_local_def edges_inside_def
  by (smt (verit, ccfv_threshold) case_prodD case_prodI2)

lemma would_create_cycle_iff:
  assumes "roadmap_inv s" "task_in s r d"
  shows "would_create_cycle s r t d \<longleftrightarrow> (d, t) \<in> (dep_rel s)\<^sup>*"
  using assms by (intro would_create_cycle_reach edges_inside_local) (simp_all add: roadmap_inv_def)

lemma dep_rel_add:
  "dep_rel (s\<lparr>task_dependencies := task_dependencies s @ [\<lparr>dp_task_id = t, dp_depends_on_task_id = d\<rparr>]\<rparr>)
     = insert (t, d) (dep_rel s)"
  by (auto simp: dep_rel_def)

lemma add_dependency_edge:
  "fst (add_dependency t d s) \<longleftrightarrow> (t, d) \<notin> dep_rel s"
  "dep_rel (snd (add_dependency t d s)) = insert (t, d) (dep_rel s)"
proof -
  let ?P = "\<lambda>e. dp_task_id e = t \<and> dp_depends_on_task_id e = d"
  have old: "(t, d) \<in> dep_rel s \<longleftrightarrow> find ?P (task_dependencies s) \<noteq> None"
    by (auto simp: dep_rel_def find_None_iff)
  show "fst (add_dependency t d s) \<longleftrightarrow> (t, d) \<notin> dep_rel s"
    unfolding old by (simp add: add_dependency_def split: option.split)
  show "dep_rel (snd (add_dependency t d s)) = insert (t, d) (dep_rel s)"
    using old by (cases "find ?P (task_dependencies s)") (auto simp: add_dependency_def dep_rel_add)
qed

lemma add_dependency_inv:
  assumes "roadmap_inv s" "task_in s r t" "task_in s r d" "(d, t) \<notin> (dep_rel s)\<^sup>*"
  shows "roadmap_inv (snd (add_dependency t d s))"
proof (cases "find (\<lambda>e. dp_task_id e = t \<and> dp_depends_on_task_id e = d) (task_dependencies s)")
  case None
  let ?s = "s\<lparr>task_dependencies := task_dependencies s @ [\<lparr>dp_task_id = t, dp_depends_on_task_id = d\<rparr>]\<rparr>"
  have "task_in ?s = task_in s" by (simp add: fun_eq_iff task_in_def milestone_in_def phase_in_def)
  moreover have "milestone_progress ?s = milestone_progress s"
    by (simp add: fun_eq_iff milestone_progress_def tasks_of_def)
  ultimately have "roadmap_inv ?s"
    using assms by (auto simp: roadmap_inv_def tree_ok_def progress_ok_def edges_inside_def dep_rel_add)
  then show ?thesis using None by (simp add: add_dependency_def)
qed (use assms(1) in \<open>simp add: add_dependency_def\<close>)

section \<open>Every request keeps the roadmap well formed\<close>

lemma forget_simps [simp]: "snd (forget f x) = snd x"
  by (simp add: forget_def)

lemma get_roadmap_inv: "roadmap_inv s \<Longrightarrow> roadmap_inv (snd (get_roadmap now today m s))"
  by (simp add: get_roadmap_def generate_inv case_prod_unfold Let_def split: option.split)

lemma post_generate_inv:
  assumes "roadmap_inv s"
  shows "roadmap_inv (snd (post_generate now today m s))"
proof (cases "startup_by_id s (m_startup_id m)")
  case (Some st)
  then show ?thesis
    by (auto simp: post_generate_def case_prod_unfold Let_def enqueue_def fresh_id_def
        intro!: roadmap_inv_cong [OF generate_inv [OF assms, of now today st]])
qed (use assms in \<open>simp add: post_generate_def\<close>)

lemma apply_template_ep_inv: "roadmap_inv s \<Longrightarrow> roadmap_inv (snd (apply_template_ep now today tid m s))"
  by (simp add: apply_template_ep_def case_prod_unfold Let_def generate_inv apply_template_inv publish_inv
      split: option.split)

lemma create_phase_inv: "roadmap_inv s \<Longrightarrow> roadmap_inv (snd (create_phase b m s))"
  by (simp add: create_phase_def Let_def fresh_id_def new_phase_inv split: sum.split)

lemma update_phase_ep_inv: "roadmap_inv s \<Longrightarrow> roadmap_inv (snd (update_phase i b m s))"
  by (simp add: update_phase_def Let_def update_phase_inv split: sum.split)

lemma delete_phase_ep_inv: "roadmap_inv s \<Longrightarrow> roadmap_inv (snd (delete_phase i m s))"
  by (simp add: delete_phase_def delete_phase_inv split: sum.split)

lemma create_milestone_inv:
  assumes "roadmap_inv s"
  shows "roadmap_inv (snd (create_milestone_ep b m s))"
proof (cases "find_phase m (mc_phase_id b) s")
  case (Inr p)
  then have "ph_id p \<in> set (map ph_id (phases s))" using find_phase_ok(1) by fastforce
  then show ?thesis
    using assms Inr by (simp add: create_milestone_ep_def Let_def fresh_id_def new_milestone_inv split: sum.split)
qed (use assms in \<open>simp add: create_milestone_ep_def\<close>)

lemma update_milestone_ep_inv:
  assumes "roadmap_inv s"
  shows "roadmap_inv (snd (update_milestone_ep now i b u m s))"
proof -
  have "roadmap_inv (recompute_milestone_progress i (update_milestone i (apply_milestone_update b) s))"
    by (rule update_milestone_inv [OF assms]) (simp add: apply_milestone_update_def)
  then show ?thesis
    using assms by (simp add: update_milestone_ep_def Let_def publish_inv write_activity_inv
        split: sum.split option.split)
qed

lemma delete_milestone_ep_inv: "roadmap_inv s \<Longrightarrow> roadmap_inv (snd (delete_milestone_ep i m s))"
  by (simp add: delete_milestone_ep_def delete_milestones_inv split: sum.split)

lemma create_task_inv:
  assumes "roadmap_inv s"
  shows "roadmap_inv (snd (create_task_ep b m s))"
proof (cases "find_milestone m (tc_milestone_id b) s")
  case (Inr x)
  have x: "ms_id x \<in> set (map ms_id (milestones s))" using find_milestone_ok(1) [OF Inr] by simp
  have "roadmap_inv (recompute_milestone_progress (ms_id x) (s\<lparr>fresh := Suc (fresh s), rtasks := rtasks s @ [t]\<rparr>))"
    if "rt_id t = fresh s" "rt_milestone_id t = ms_id x" for t
    using new_task_inv [OF assms that(1)] that(2) x by simp
  then show ?thesis
    using assms Inr by (simp add: create_task_ep_def Let_def fresh_id_def split: sum.split)
qed (use assms in \<open>simp add: create_task_ep_def\<close>)

lemma update_task_ep_inv:
  assumes "roadmap_inv s"
  shows "roadmap_inv (snd (update_task_ep i b m s))"
proof (cases "find_task m i s")
  case (Inr t)
  have "roadmap_inv (recompute_milestone_progress (rt_milestone_id t) (update_task_row (rt_id t) (apply_task_update b) s))"
    using find_task_ok(1) [OF Inr] by (intro update_task_inv [OF assms]) (simp_all add: apply_task_update_def)
  then show ?thesis
    using assms Inr find_task_ok(2) [OF Inr] by (simp add: update_task_ep_def split: sum.split)
qed (use assms in \<open>simp add: update_task_ep_def\<close>)

lemma delete_task_ep_inv:
  assumes "roadmap_inv s"
  shows "roadmap_inv (snd (delete_task_ep i m s))"
proof (cases "find_task m i s")
  case (Inr t)
  then show ?thesis
    using delete_task_inv [OF assms find_task_ok(1) [OF Inr]] find_task_ok(2) [OF Inr]
    by (simp add: delete_task_ep_def)
qed (use assms in \<open>simp add: delete_task_ep_def\<close>)

text \<open>What the endpoint answers for two different tasks of the caller's roadmap.\<close>

lemma create_dependency_cases:
  assumes "roadmap_inv s" "find_task m t s = Inr x" "find_task m d s = Inr y" "t \<noteq> d"
  shows "create_dependency_ep t d m s =
    (if (d, t) \<in> (dep_rel s)\<^sup>* then (Inl DependencyCycle, s)
     else (Inr (fst (add_dependency t d s)), snd (add_dependency t d s)))"
proof -
  obtain r where r: "require_roadmap m s = Inr r" "task_in s (ro_id r) d" using find_task_ok(3) [OF assms(3)] by blast
  show ?thesis
    using assms r find_task_ok(2) [OF assms(2)] find_task_ok(2) [OF assms(3)]
      would_create_cycle_iff [OF assms(1) r(2), of t]
    by (simp add: create_dependency_ep_def case_prod_unfold Let_def)
qed

lemma create_dependency_inv:
  assumes "roadmap_inv s"
  shows "roadmap_inv (snd (create_dependency_ep t d m s))"
proof (cases "\<exists>x y. find_task m t s = Inr x \<and> find_task m d s = Inr y \<and> t \<noteq> d")
  case True
  then obtain x y where x: "find_task m t s = Inr x" and y: "find_task m d s = Inr y" and ne: "t \<noteq> d" by blast
  obtain r where "require_roadmap m s = Inr r" "task_in s (ro_id r) d" "task_in s (ro_id r) t"
    using find_task_ok(3) [OF x] find_task_ok(3) [OF y] by auto
  then show ?thesis
    using create_dependency_cases [OF assms x y ne] add_dependency_inv [OF assms] assms by auto
next
  case False
  have "snd (create_dependency_ep t d m s) = s"
  proof (cases "find_task m t s")
    case (Inr x)
    then have "t = d \<or> (\<exists>e. find_task m d s = Inl e)" using False by (cases "find_task m d s") auto
    then show ?thesis
      using Inr find_task_ok(2) [OF Inr] by (auto simp: create_dependency_ep_def)
  qed (simp add: create_dependency_ep_def)
  then show ?thesis using assms by simp
qed

lemma delete_dependency_inv:
  assumes "roadmap_inv s"
  shows "roadmap_inv (snd (delete_dependency_ep t d m s))"
proof -
  have "roadmap_inv (s\<lparr>task_dependencies := delete_where P (task_dependencies s)\<rparr>)" for P
  proof -
    let ?s = "s\<lparr>task_dependencies := delete_where P (task_dependencies s)\<rparr>"
    have "tree_ok ?s" "edges_inside ?s" "acyclic (dep_rel ?s)"
      using assms by (auto simp: roadmap_inv_def intro!: shape_kept [of ?s s])
    moreover have "progress_ok ?s"
      using assms by (simp add: roadmap_inv_def progress_ok_def milestone_progress_def tasks_of_def)
    ultimately show ?thesis by (simp add: roadmap_inv_def)
  qed
  then show ?thesis using assms by (simp add: delete_dependency_ep_def Let_def split: sum.split)
qed

lemma apply_replan_inv: "roadmap_inv s \<Longrightarrow> roadmap_inv (snd (apply_replan now today r a ids s))"
  by (simp add: apply_replan_def Let_def case_prod_unfold apply_changes_inv)
    (auto intro!: publish_inv intro: roadmap_inv_cong [OF apply_changes_inv] simp: fresh_id_def)

lemma replan_apply_inv: "roadmap_inv s \<Longrightarrow> roadmap_inv (snd (replan_apply now today ids u m s))"
  by (simp add: replan_apply_def Let_def case_prod_unfold apply_replan_inv write_activity_inv split: sum.split)

lemma roadmap_body_inv: "roadmap_inv s \<Longrightarrow> roadmap_inv (snd (roadmap_body now today u q m s))"
  by (cases q) (simp_all add: get_roadmap_inv post_generate_inv apply_template_ep_inv create_phase_inv
      update_phase_ep_inv delete_phase_ep_inv create_milestone_inv update_milestone_ep_inv delete_milestone_ep_inv
      create_task_inv update_task_ep_inv delete_task_ep_inv create_dependency_inv delete_dependency_inv
      replan_apply_inv)

lemma workspace_request_invariant:
  assumes "I s" "\<And>m. I s \<Longrightarrow> I (snd (body m s))"
  shows "I (snd (workspace_request decode cr w roles v body s))"
proof -
  have "I (snd (run_tx (body m) s))" for m
    by (rule run_tx_invariant [of I, OF assms(1)]) (use assms(2) [OF assms(1), of m] in simp)
  then show ?thesis using assms(1) by (simp add: workspace_request_def split: sum.split)
qed

lemma serve_roadmap_inv: "roadmap_inv s \<Longrightarrow> roadmap_inv (snd (serve_roadmap decode q s))"
  unfolding serve_roadmap_def by (rule workspace_request_invariant [of roadmap_inv]) (simp_all add: roadmap_body_inv)

section \<open>Histories\<close>

text \<open>
  A history starts with no roadmap. \<open>elsewhere\<close> is whatever the rest of the application does: it
  may draw ids but writes none of the roadmap's tables.
\<close>

inductive roadmap_reachable :: "(string \<Rightarrow> json option) \<Rightarrow> 'a roadmap_db_scheme \<Rightarrow> bool"
  for decode :: "string \<Rightarrow> json option" where
  start: "phases s = [] \<Longrightarrow> milestones s = [] \<Longrightarrow> rtasks s = [] \<Longrightarrow> task_dependencies s = []
    \<Longrightarrow> roadmap_reachable decode s"
| request: "roadmap_reachable decode s \<Longrightarrow> roadmap_reachable decode (snd (serve_roadmap decode q s))"
| elsewhere: "roadmap_reachable decode s \<Longrightarrow> phases s' = phases s \<Longrightarrow> milestones s' = milestones s
    \<Longrightarrow> rtasks s' = rtasks s \<Longrightarrow> task_dependencies s' = task_dependencies s \<Longrightarrow> fresh s \<le> fresh s'
    \<Longrightarrow> roadmap_reachable decode s'"

lemma roadmap_reachable_inv: "roadmap_reachable decode s \<Longrightarrow> roadmap_inv s"
proof (induction rule: roadmap_reachable.induct)
  case (start s)
  then show ?case by (simp add: roadmap_inv_def tree_ok_def progress_ok_def edges_inside_def dep_rel_def acyclic_def)
next
  case (request s q)
  then show ?case by (rule_tac serve_roadmap_inv)
next
  case (elsewhere s s')
  then show ?case by (metis roadmap_inv_cong)
qed

lemma progress_bar:
  assumes "ts = tasks_of s (ms_id m)" "ts \<noteq> []"
  shows "0 \<le> milestone_progress s m" "milestone_progress s m \<le> 100"
    "\<forall>t \<in> set ts. rt_status t = RM_done \<Longrightarrow> milestone_progress s m = 100"
    "length ts < 200 \<Longrightarrow> milestone_progress s m = 100 \<Longrightarrow> \<forall>t \<in> set ts. rt_status t = RM_done"
proof -
  let ?n = "count_where (\<lambda>t. rt_status t = RM_done) ts"
  have p: "milestone_progress s m = percent ?n (length ts)" using assms by (simp add: milestone_progress_def Let_def)
  have l: "0 < length ts" "?n \<le> length ts" using assms(2) by (simp_all add: count_where_le)
  show "0 \<le> milestone_progress s m" "milestone_progress s m \<le> 100" using percent_range [OF l] p by simp_all
  show "milestone_progress s m = 100" if "\<forall>t \<in> set ts. rt_status t = RM_done"
    using that percent_all [OF l(1)] p count_where_all_iff [of "\<lambda>t. rt_status t = RM_done" ts] by simp
  show "\<forall>t \<in> set ts. rt_status t = RM_done" if "length ts < 200" "milestone_progress s m = 100"
    using percent_100_iff [OF l that(1)] that(2) p count_where_all_iff [of "\<lambda>t. rt_status t = RM_done" ts] by simp
qed

text \<open>
  C7: along every history of requests, the roadmap stays well formed: ids are unique, no row hangs
  on a deleted one, the two ends of a dependency are tasks of one roadmap, and the dependencies
  never form a loop. The bar of a milestone is the one its tasks give: between 0 and 100, 100 when
  every task is done, and 100 only then while the milestone has fewer than 200 tasks.
\<close>

theorem roadmap_history:
  assumes "roadmap_reachable decode s"
  shows "distinct (map ph_id (phases s)) \<and> distinct (map ms_id (milestones s)) \<and> distinct (map rt_id (rtasks s))
    \<and> rt_milestone_id ` set (rtasks s) \<subseteq> ms_id ` set (milestones s)
    \<and> ms_phase_id ` set (milestones s) \<subseteq> ph_id ` set (phases s)
    \<and> (\<forall>(a, b) \<in> dep_rel s. \<exists>r. task_in s r a \<and> task_in s r b)
    \<and> (\<forall>t. (t, t) \<notin> (dep_rel s)\<^sup>+)
    \<and> (\<forall>m \<in> set (milestones s).
        (let ts = tasks_of s (ms_id m); complete = (\<forall>t \<in> set ts. rt_status t = RM_done)
         in ms_progress m = milestone_progress s m
            \<and> (ts \<noteq> [] \<longrightarrow> 0 \<le> ms_progress m \<and> ms_progress m \<le> 100 \<and> (complete \<longrightarrow> ms_progress m = 100)
                 \<and> (length ts < 200 \<longrightarrow> ms_progress m = 100 \<longrightarrow> complete))))"
proof -
  have i: "roadmap_inv s" by (rule roadmap_reachable_inv [OF assms])
  then have p: "ms_progress m = milestone_progress s m" if "m \<in> set (milestones s)" for m
    using that by (simp add: roadmap_inv_def progress_ok_def)
  show ?thesis
    using i progress_bar [OF refl, of s] p by (auto simp: roadmap_inv_def tree_ok_def edges_inside_def acyclic_def Let_def)
qed

text \<open>
  C8: the dependency endpoint. For two different tasks of the caller's roadmap it refuses the edge
  exactly when the dependency already waits, directly or not, for the task; otherwise the edge is
  there afterwards, the answer tells whether it is new, and nothing else is added.
\<close>

theorem dependency_refused_iff:
  assumes "roadmap_reachable decode s" "find_task m t s = Inr x" "find_task m d s = Inr y" "t \<noteq> d"
  shows "(let res = create_dependency_ep t d m s
    in if (d, t) \<in> (dep_rel s)\<^sup>* then res = (Inl DependencyCycle, s)
       else fst res = Inr ((t, d) \<notin> dep_rel s) \<and> dep_rel (snd res) = insert (t, d) (dep_rel s)
            \<and> (d, t) \<notin> (dep_rel (snd res))\<^sup>*)"
proof -
  note c = create_dependency_cases [OF roadmap_reachable_inv [OF assms(1)] assms(2-4)]
  have "roadmap_inv (snd (create_dependency_ep t d m s))"
    by (rule create_dependency_inv [OF roadmap_reachable_inv [OF assms(1)]])
  then have ac: "acyclic (dep_rel (snd (create_dependency_ep t d m s)))" by (simp add: roadmap_inv_def)
  have new: "fst (add_dependency t d s) \<longleftrightarrow> (t, d) \<notin> dep_rel s"
    and rel: "dep_rel (snd (add_dependency t d s)) = insert (t, d) (dep_rel s)"
    by (simp_all add: add_dependency_edge)
  show ?thesis
  proof (cases "(d, t) \<in> (dep_rel s)\<^sup>*")
    case False
    have "(d, t) \<notin> (insert (t, d) (dep_rel s))\<^sup>*"
      using ac False c rel assms(4) by (simp add: acyclic_insert)
        (metis acyclic_def insertI1 r_into_trancl rtrancl_trancl_trancl trancl_rtrancl_trancl acyclic_insert)
    then show ?thesis using c False new rel by (simp add: Let_def)
  qed (use c in \<open>simp add: Let_def\<close>)
qed

lemma add_tree_startups:
  "startups (add_tasks i k ts s) = startups s" "startups (add_milestones d p k ms s) = startups s"
  "startups (add_phases d r k ps s) = startups s"
proof -
  show t: "startups (add_tasks i k ts s) = startups s" for s :: "'a roadmap_db_scheme" and i k ts
    by (induction i k ts s rule: add_tasks.induct) (simp_all add: fresh_id_def)
  show m: "startups (add_milestones d p k ms s) = startups s" for s :: "'a roadmap_db_scheme" and d p k ms
    by (induction d p k ms s rule: add_milestones.induct) (simp_all add: fresh_id_def t)
  show "startups (add_phases d r k ps s) = startups s"
    by (induction d r k ps s rule: add_phases.induct) (simp_all add: fresh_id_def m)
qed

lemma generate_finds:
  assumes "roadmap_inv s" "startup_by_id s i = Some st"
  shows "roadmap_of (snd (generate_roadmap now today st s)) i = Some (fst (generate_roadmap now today st s))"
    "startups (snd (generate_roadmap now today st s)) = startups s"
proof -
  have i: "st_id st = i" using assms(2) find_SomeD by (fastforce simp: startup_by_id_def)
  have inv: "roadmap_inv (s\<lparr>fresh := Suc (fresh s), roadmaps := rs\<rparr>)" for rs
    by (rule roadmap_inv_cong [OF assms(1)]) simp_all
  show "roadmap_of (snd (generate_roadmap now today st s)) i = Some (fst (generate_roadmap now today st s))"
    using i by (auto simp: generate_roadmap_def Let_def case_prod_unfold fresh_id_def roadmap_of_def find_append
        add_phases_inv [OF inv] split: option.split)
  show "startups (snd (generate_roadmap now today st s)) = startups s"
    by (simp add: generate_roadmap_def Let_def case_prod_unfold fresh_id_def add_tree_startups split: option.split)
qed

text \<open>
  Applying a gallery template is idempotent. The first application to a roadmap (which is
  generated if there is none) records the template, so that a second one answers that it was
  already applied, adds nothing and changes nothing.
\<close>

theorem template_applied_once:
  assumes "roadmap_reachable decode s" "apply_template_ep now today t m s = (Inr a, s1)"
  shows "apply_template_ep now' today' t m s1 = (Inr (True, 0, 0, 0), s1)
    \<and> (fst a \<longleftrightarrow> (\<exists>r. roadmap_of s (m_startup_id m) = Some r \<and> t \<in> set (ro_applied_template_keys r)))"
proof -
  have inv: "roadmap_inv s" by (rule roadmap_reachable_inv [OF assms(1)])
  obtain g st where g: "gallery_get t = Some g" "gt_id g = t" and st: "startup_by_id s (m_startup_id m) = Some st"
    using assms(2) gallery_get_Some by (auto simp: apply_template_ep_def split: option.splits)
  define x where "x = (case roadmap_of s (m_startup_id m) of Some r \<Rightarrow> (r, s) | None \<Rightarrow> generate_roadmap now today st s)"
  have x: "roadmap_of (snd x) (m_startup_id m) = Some (fst x)" "startups (snd x) = startups s"
    "roadmap_inv (snd x)"
    using generate_finds [OF inv st] generate_inv [OF inv] inv by (auto simp: x_def split: option.split)
  have sid: "st_id st = m_startup_id m" using st find_SomeD by (fastforce simp: startup_by_id_def)
  have new: "t \<notin> set (ro_applied_template_keys (fst x))" if "roadmap_of s (m_startup_id m) = None"
    using that sid by (auto simp: x_def generate_roadmap_def Let_def case_prod_unfold roadmap_of_def
        dest: find_SomeD split: option.split)
  show ?thesis
  proof (cases "t \<in> set (ro_applied_template_keys (fst x))")
    case True
    then have "s1 = snd x" "a = (True, 0, 0, 0)"
      using assms(2) g st by (auto simp: apply_template_ep_def x_def [symmetric] case_prod_unfold Let_def)
    then show ?thesis
      using True x new g st by (cases "roadmap_of s (m_startup_id m)")
        (auto simp: apply_template_ep_def x_def startup_by_id_def)
  next
    case False
    define s2 where "s2 = snd (apply_template today (fst x) g (snd x))"
    let ?r = "(fst x)\<lparr>ro_applied_template_keys := ro_applied_template_keys (fst x) @ [t]\<rparr>"
    have s1: "\<not> fst a" "roadmaps s1 = roadmaps s2" "startups s1 = startups s2"
      using assms(2) g st False
      by (auto simp: apply_template_ep_def x_def [symmetric] case_prod_unfold Let_def s2_def)
    have "roadmap_of s2 (m_startup_id m) = Some ?r"
      using x(1) by (simp add: find_update_where s2_def apply_template_def Let_def case_prod_unfold roadmap_of_def add_phases_inv [OF x(3)] g(2))
    moreover have "startups s2 = startups s"
      by (simp add: s2_def apply_template_def Let_def case_prod_unfold add_tree_startups x(2))
    ultimately have "apply_template_ep now' today' t m s1 = (Inr (True, 0, 0, 0), s1)"
      using s1 g st by (simp add: apply_template_ep_def roadmap_of_def startup_by_id_def)
    moreover have "\<not> (\<exists>r. roadmap_of s (m_startup_id m) = Some r \<and> t \<in> set (ro_applied_template_keys r))"
      using False by (auto simp: x_def)
    ultimately show ?thesis using s1(1) by blast
  qed
qed

section \<open>A history\<close>

definition sample_founder :: user where
  "sample_founder =
     \<lparr>u_id = 7, u_email = ''a@b.c'', u_password_hash = None, u_status = US_active,
      u_email_verified_at = Some 0, u_mfa_type = Mfa_none, u_mfa_secret = None,
      u_mfa_enabled_at = None, u_failed_login_count = 0, u_locked_until = None,
      u_last_login_at = None, u_deleted_at = None, u_profile = None\<rparr>"

definition fresh_start :: "unit roadmap_db_scheme" where
  "fresh_start = empty_roadmap_db\<lparr>fresh := 20, users := [sample_founder],
     memberships := [sample_member 7 MR_founder MS_active], roadmaps := [sample_roadmap]\<rparr>"

definition by_founder :: "roadmap_request \<Rightarrow> roadmap_call" where
  "by_founder q = \<lparr>rc_credential = Some [], rc_workspace = 9, rc_now = 5, rc_today = 100,
     rc_user = sample_founder, rc_request = q\<rparr>"

definition sample_requests :: "roadmap_request list" where
  "sample_requests =
     [RQ_create_phase \<lparr>pc_name = ''p'', pc_order = None, pc_starts_on = None, pc_ends_on = None\<rparr>,
      RQ_create_milestone \<lparr>mc_phase_id = 20, mc_title = ''m'', mc_description = None, mc_due_on = None,
        mc_owner_id = Some 7, mc_status = None, mc_order = None\<rparr>,
      RQ_create_task \<lparr>tc_milestone_id = 21, tc_title = ''a'', tc_description = None, tc_effort = None,
        tc_status = Some RM_done, tc_assignee_id = None, tc_due_on = None, tc_order = None\<rparr>,
      RQ_create_task \<lparr>tc_milestone_id = 21, tc_title = ''b'', tc_description = None, tc_effort = None,
        tc_status = None, tc_assignee_id = None, tc_due_on = None, tc_order = None\<rparr>,
      RQ_create_dependency 23 22]"

definition worked_db :: "unit roadmap_db_scheme" where
  "worked_db = foldl (\<lambda>s q. snd (serve_roadmap (\<lambda>_. Some (JUid 7)) (by_founder q) s)) fresh_start sample_requests"

lemma worked_db_reachable: "roadmap_reachable (\<lambda>_. Some (JUid 7)) worked_db"
proof -
  have "roadmap_reachable (\<lambda>_. Some (JUid 7)) (foldl (\<lambda>s q. snd (serve_roadmap (\<lambda>_. Some (JUid 7)) (by_founder q) s)) s qs)"
    if "roadmap_reachable (\<lambda>_. Some (JUid 7)) s" for s :: "unit roadmap_db_scheme" and qs
    using that by (induction qs arbitrary: s) (auto intro: roadmap_reachable.request)
  then show ?thesis
    unfolding worked_db_def by (simp add: roadmap_reachable.start fresh_start_def slipped_simps)
qed

lemma worked_db_eval:
  "serve_roadmap (\<lambda>_. Some (JUid 7)) (by_founder q) s =
     run_tx (roadmap_body 5 100 sample_founder q (sample_member 7 MR_founder MS_active)) s"
  if "users s = [sample_founder]" "memberships s = [sample_member 7 MR_founder MS_active]"
    "q \<noteq> RQ_get"
  using that by (simp add: serve_roadmap_def by_founder_def workspace_request_def workspace_guard_def
      get_current_user_def resolve_workspace_def require_role_def roadmap_roles_def editors_def
      get_verified_user_def sample_founder_def sample_member_def)

lemmas body_simps = worked_db_eval run_tx_def forget_def done_ok_def create_phase_def create_milestone_ep_def
  create_task_ep_def create_dependency_ep_def find_phase_def find_milestone_def find_task_def require_roadmap_def
  roadmap_of_def validate_member_def sample_member_def order_or_def next_order_def phase_in_def milestone_in_def
  tasks_of_def recompute_milestone_progress_def update_milestone_def milestone_progress_def fresh_id_def
  would_create_cycle_def dfs.simps roadmap_edges_def deps_of_def add_dependency_def task_in_def update_where_def

lemma worked_db_value:
  "map (\<lambda>t. (rt_id t, rt_milestone_id t, rt_status t)) (rtasks worked_db) = [(22, 21, RM_done), (23, 21, RM_todo)]"
  "map (\<lambda>m. (ms_id m, ms_progress m)) (milestones worked_db) = [(21, 50)]"
  "task_dependencies worked_db = [\<lparr>dp_task_id = 23, dp_depends_on_task_id = 22\<rparr>]"
  "map_sum id rt_id (find_task (sample_member 7 MR_founder MS_active) 22 worked_db) = Inr 22"
  "map_sum id rt_id (find_task (sample_member 7 MR_founder MS_active) 23 worked_db) = Inr 23"
  by (simp add: worked_db_def sample_requests_def fresh_start_def slipped_simps body_simps Let_def
      percent_def py_round_div_def)+

definition sample_startup :: startup where
  "sample_startup =
     \<lparr>st_id = 9, st_name = None, st_description = None, st_website = None, st_logo_url = None,
      st_industry = None, st_business_model = None, st_stage = None, st_country = None, st_created_by = 7,
      st_deleted_at = None, st_profile = None\<rparr>"

theorem template_applied_once_witness:
  "\<exists>n s1. apply_template_ep 6 101 ''mvp-build'' (sample_member 7 MR_founder MS_active)
        (fresh_start\<lparr>startups := [sample_startup]\<rparr>) = (Inr (False, n), s1)
    \<and> apply_template_ep 7 102 ''mvp-build'' (sample_member 7 MR_founder MS_active) s1 = (Inr (True, 0, 0, 0), s1)"
proof -
  let ?m = "sample_member 7 MR_founder MS_active" and ?s = "fresh_start\<lparr>startups := [sample_startup]\<rparr>"
  have r: "roadmap_reachable (\<lambda>_. None) ?s"
    by (rule roadmap_reachable.start) (simp_all add: fresh_start_def slipped_simps)
  have none: "roadmap_of ?s (m_startup_id ?m) = Some sample_roadmap"
    by (simp add: roadmap_of_def fresh_start_def sample_member_def sample_roadmap_def)
  have "gallery_get ''mvp-build'' \<noteq> None"
    by (simp add: gallery_get_def gallery_templates_def gallery_defs)
  moreover have "startup_by_id ?s (m_startup_id ?m) = Some sample_startup"
    by (simp add: startup_by_id_def sample_startup_def sample_member_def)
  ultimately have "is_ok (fst (apply_template_ep 6 101 ''mvp-build'' ?m ?s))"
    using none by (simp add: apply_template_ep_def case_prod_unfold Let_def split: option.splits)
  then obtain a s1 where e: "apply_template_ep 6 101 ''mvp-build'' ?m ?s = (Inr a, s1)" by (rule is_okE)
  have "\<not> fst a" using template_applied_once [OF r e] none by (simp add: sample_roadmap_def)
  moreover have "apply_template_ep 7 102 ''mvp-build'' ?m s1 = (Inr (True, 0, 0, 0), s1)"
    using template_applied_once [OF r e] by blast
  ultimately show ?thesis using e by (cases a) auto
qed

theorem roadmap_history_witness:
  "map (\<lambda>m. (ms_id m, ms_progress m)) (milestones worked_db) = [(21, 50)]
   \<and> distinct (map rt_id (rtasks worked_db)) \<and> dep_rel worked_db = {(23, 22)}
   \<and> (\<forall>t. (t, t) \<notin> (dep_rel worked_db)\<^sup>+)"
  using roadmap_history [OF worked_db_reachable] worked_db_value by (simp add: dep_rel_def)

theorem dependency_refused_iff_witness:
  "create_dependency_ep 22 23 (sample_member 7 MR_founder MS_active) worked_db = (Inl DependencyCycle, worked_db)"
proof -
  let ?m = "sample_member 7 MR_founder MS_active"
  obtain x y where "find_task ?m 22 worked_db = Inr x" "find_task ?m 23 worked_db = Inr y"
    using worked_db_value(4,5) by (cases "find_task ?m 22 worked_db"; cases "find_task ?m 23 worked_db") auto
  from dependency_refused_iff [OF worked_db_reachable this] show ?thesis
    by (simp add: Let_def dep_rel_def worked_db_value r_into_rtrancl)
qed

end
