(* ===== verification/Business_Samples.thy ===== *)
theory Business_Samples
  imports Business_Records Roadmap_Requests
begin

text \<open>
  A founder's canvases, records and suggestions, evaluated: the witnesses of the properties of the business
  builder, and what a deletion does to the order of the records.
\<close>

definition business_ground :: "unit business_db_scheme" where
  "business_ground = documents_db.extend (notif_db.extend (empty_notif_db\<lparr>fresh := 40, users := [sample_founder],
       startups := [sample_startup], memberships := [sample_member 7 MR_founder MS_active]\<rparr>)
     (documents_db.fields [] [] [] [] [] [])) (business_db.fields [] [] [] [] [])"

definition whole_number :: "json \<Rightarrow> json option" where
  "whole_number v = (case v of JInt n \<Rightarrow> Some v | _ \<Rightarrow> None)"

definition zero_or_one :: "json \<Rightarrow> bool" where
  "zero_or_one v \<longleftrightarrow> v \<in> {JInt 0, JInt 1}"

definition by_owner :: "business_request \<Rightarrow> business_call" where
  "by_owner q = \<lparr>bq_credential = Some [], bq_workspace = 9, bq_now = 5, bq_request = q\<rparr>"

definition business_after :: "business_request list \<Rightarrow> unit business_db_scheme" where
  "business_after qs =
     foldl (\<lambda>s q. snd (serve_business whole_number zero_or_one (\<lambda>_. Some (JUid 7)) (by_owner q) s)) business_ground qs"

lemma business_after_reachable: "business_reachable whole_number zero_or_one (\<lambda>_. Some (JUid 7)) (business_after qs)"
proof (induction qs rule: rev_induct)
  case Nil
  have "no_business business_ground"
    by (simp add: no_business_def business_ground_def notif_db.defs documents_db.defs business_db.defs)
  then show ?case unfolding business_reachable_def business_after_def by auto
next
  case (snoc q qs)
  have "business_step whole_number zero_or_one (\<lambda>_. Some (JUid 7)) (business_after qs) (business_after (qs @ [q]))"
    by (simp add: business_after_def business_step.request)
  then show ?case by (rule business_reachable_steps [OF snoc r_into_rtranclp])
qed

definition swot_target :: payload where
  "swot_target = [(''canvas_type'', JStr ''swot'')]"

definition swot_payload :: "payload option" where
  "swot_payload = Some [(''blocks'', JObj [(''threats'', JList [JStr ''rivals''])])]"

abbreviation owner :: membership where
  "owner \<equiv> sample_member 7 MR_founder MS_active"

definition persona :: "string \<Rightarrow> business_request" where
  "persona n = BQ_create ''personas'' [(''name'', JStr n)]"

section \<open>Records after deletions\<close>

text \<open>
  The position of a new record is the number of records there are. After the first two of three records
  are deleted, a new one is listed before the one that was there already.
\<close>

theorem new_record_jumps_ahead:
  "map (\<lambda>r. (jget (br_data r) ''name'', br_position r))
     (list_records 9 RK_persona (business_after
       [persona ''a'', persona ''b'', persona ''c'', BQ_delete ''personas'' 40, BQ_delete ''personas'' 43, persona ''d'']))
   = [(JStr ''d'', 1), (JStr ''c'', 2)]"
  by code_simp

text \<open>
  A suggestion without a payload is accepted and, once approved, empties the canvas.
\<close>

theorem empty_suggestion_clears:
  "map cv_blocks (canvases (business_after
     [BQ_save ''swot'' [(''strengths'', JList [JStr ''team''])] 1, BQ_suggest SO_canvas_update swot_target None None,
      BQ_approve 41])) = [empty_blocks CT_swot]"
  by code_simp

section \<open>Witnesses\<close>

definition saved_swot :: "unit business_db_scheme" where
  "saved_swot = business_after [BQ_save ''swot'' [(''strengths'', JList [JStr ''team''])] 1]"

definition suggested_swot :: "unit business_db_scheme" where
  "suggested_swot = business_after [BQ_save ''swot'' [(''strengths'', JList [JStr ''team''])] 1,
     BQ_suggest SO_canvas_update swot_target swot_payload None]"

lemmas saved_reachable = business_after_reachable [of "[BQ_save ''swot'' [(''strengths'', JList [JStr ''team''])] 1]",
    folded saved_swot_def]
lemmas suggested_reachable =
  business_after_reachable [of "[BQ_save ''swot'' [(''strengths'', JList [JStr ''team''])] 1,
     BQ_suggest SO_canvas_update swot_target swot_payload None]", folded suggested_swot_def]

definition swot_canvas :: canvas where
  "swot_canvas = hd (canvases saved_swot)"

lemma swot_canvas_in: "swot_canvas \<in> set (canvases saved_swot)" "cv_type swot_canvas = CT_swot"
  "jget (cv_blocks swot_canvas) ''strengths'' = JList [JStr ''team'']" "jget (cv_blocks swot_canvas) ''threats'' = JList []"
  by code_simp+

theorem business_histories_witness:
  "swot_canvas \<in> set (canvases saved_swot) \<and> 1 \<le> cv_version swot_canvas
   \<and> map fst (cv_blocks swot_canvas) = map bd_key (canvas_blocks (cv_type swot_canvas))"
  using business_histories [OF saved_reachable rtranclp.rtrancl_refl] swot_canvas_in(1) by blast

theorem approval_lands_witness:
  "\<exists>w s1 v s3 c3. create_suggestion_endpoint whole_number zero_or_one 6 SO_canvas_update swot_target swot_payload None owner
       saved_swot = (Inr w, s1)
     \<and> approve_suggestion_endpoint whole_number zero_or_one 7 (bs_id (sv_row w)) owner s1 = (Inr v, s3)
     \<and> c3 \<in> set (canvases s3)
     \<and> approve_suggestion_endpoint whole_number zero_or_one 8 (bs_id (sv_row w)) owner s3
         \<in> {(Inl NotFound, s3), (Inl SuggestionNotPending, s3)}"
proof -
  let ?f = "create_suggestion_endpoint whole_number zero_or_one 6 SO_canvas_update swot_target swot_payload None owner saved_swot"
  have "is_ok (fst ?f)" by code_simp
  then obtain w s1 where f: "?f = (Inr w, s1)" by (rule is_okE)
  let ?g = "approve_suggestion_endpoint whole_number zero_or_one 7 (bs_id (sv_row w)) owner s1"
  have "case ?f of (Inl e, s) \<Rightarrow> False
    | (Inr w, s) \<Rightarrow> is_ok (fst (approve_suggestion_endpoint whole_number zero_or_one 7 (bs_id (sv_row w)) owner s))" by code_simp
  then have "is_ok (fst ?g)" using f by simp
  then obtain v s3 where g: "?g = (Inr v, s3)" by (rule is_okE)
  note all = approval_lands [OF saved_reachable f rtranclp.rtrancl_refl g]
  obtain c3 where "c3 \<in> set (canvases s3)" using conjunct1 [OF all] by blast
  then show ?thesis
    using f g conjunct2 [OF all, rule_format, OF rtranclp.rtrancl_refl, THEN conjunct1, of 8 owner] by blast
qed

theorem approve_answers_witness:
  "\<exists>v s'. approve_suggestion_endpoint whole_number zero_or_one 7 41 owner suggested_swot = (Inr v, s')
     \<and> bs_status (sv_row v) = SuS_approved \<and> bs_resolved_by_id (sv_row v) = Some 7"
proof -
  let ?g = "approve_suggestion_endpoint whole_number zero_or_one 7 41 owner suggested_swot"
  have "is_ok (fst ?g)" by code_simp
  then obtain v s' where g: "?g = (Inr v, s')" by (rule is_okE)
  have "bs_status (sv_row v) = SuS_approved \<and> bs_resolved_by_id (sv_row v) = Some (m_user_id owner)"
    using conjunct1 [OF approve_answers [OF suggested_reachable, where now = 7 and i = 41 and m = owner]] unfolding g by simp
  then show ?thesis using g by (simp add: sample_member_def)
qed

definition swot_answer :: payload where
  "swot_answer = [(''strengths'', JList [JStr ''x'']), (''threats'', JList [JStr ''rivals''])]"

theorem fill_spec_witness:
  "\<exists>s' c'. canvas_fill_end CT_swot (cv_id swot_canvas) (Inr swot_answer) saved_swot = (Inr (), s') \<and> c' \<in> set (canvases s')
     \<and> jget (cv_blocks c') ''strengths'' = JList [JStr ''team''] \<and> jget (cv_blocks c') ''threats'' = JList [JStr ''rivals'']"
proof -
  let ?g = "canvas_fill_end (cv_type swot_canvas) (cv_id swot_canvas) (Inr swot_answer) saved_swot"
  have "is_ok (fst ?g)" by code_simp
  then obtain u s' where g: "?g = (Inr u, s')" by (rule is_okE)
  obtain c' where c': "c' \<in> set (canvases s')"
      "\<forall>b \<in> set (canvas_blocks (cv_type swot_canvas)). jget (cv_blocks c') (bd_key b) =
           (if truthy (jget (cv_blocks swot_canvas) (bd_key b)) \<or> map_of swot_answer (bd_key b) = None
            then jget (cv_blocks swot_canvas) (bd_key b) else jget swot_answer (bd_key b))"
    using fill_spec [OF saved_reachable swot_canvas_in(1) g] by blast
  from c'(2) have "jget (cv_blocks c') ''strengths'' = JList [JStr ''team'']" "jget (cv_blocks c') ''threats'' = JList [JStr ''rivals'']"
    by (simp_all add: swot_canvas_in list_blocks_def swot_answer_def jget_def [of "(''strengths'', _) # _"])
  then show ?thesis using g c'(1) swot_canvas_in(2) by auto
qed

definition persona_answer :: payload where
  "persona_answer = [(''records'', JList [JObj [(''name'', JStr ''Ana''), (''demographics'', JStr []), (''goals'', JList []),
     (''frustrations'', JList []), (''watering_holes'', JList []), (''quote'', JStr [])]])]"

theorem record_fill_spec_witness:
  "\<exists>s'. handle_record_ai_fill whole_number zero_or_one 5 [(''startup_id'', JUid 9), (''kind'', JStr ''persona'')]
       (Inr persona_answer) business_ground = (Inr (), s')
     \<and> map br_position (list_records 9 RK_persona s') = [0]"
proof -
  let ?p = "[(''startup_id'', JUid 9), (''kind'', JStr ''persona'')]"
  have h: "map_of ?p ''kind'' = Some (JStr (record_kind_value RK_persona))"
    "payload_startup ?p business_ground = Inr (Some sample_startup)" "records_of (st_id sample_startup) RK_persona business_ground = []"
    "conforms (record_json_schema RK_persona) (JObj persona_answer)" "st_id sample_startup = 9"
    by code_simp+
  have n: "\<forall>n. whole_number (JInt n) \<noteq> None" by (simp add: whole_number_def)
  from record_fill_spec [OF h(1-4) n, of zero_or_one 5] obtain s' ds where
    "handle_record_ai_fill whole_number zero_or_one 5 ?p (Inr persona_answer) business_ground = (Inr (), s')"
    "map_of persona_answer ''records'' = Some (JList ds)"
    "map br_position (list_records 9 RK_persona s') = [0..<length ds]" using h(5) by auto
  then show ?thesis by (auto simp: persona_answer_def)
qed

end
