(* ===== verification/Learning_Catalog.thy ===== *)
theory Learning_Catalog
  imports Errors
begin

text \<open>
  The catalog of the learning academy (\<^verbatim>\<open>app/services/learning/catalog.py\<close>): courses with their ordered
  lessons, the paths that join courses by id, the articles, and the lookups by id.
\<close>

record lesson =
  le_id :: string
  le_title :: string
  le_order :: nat
  le_video_ref :: string
  le_duration_min :: nat
  le_transcript :: string

record course =
  co_id :: string
  co_title :: string
  co_level :: course_level
  co_stage_tags :: "startup_stage list"
  co_lessons :: "lesson list"

record learning_path =
  lt_id :: string
  lt_title :: string
  lt_stage :: startup_stage
  lt_course_ids :: "string list"

record article =
  ar_id :: string
  ar_title :: string
  ar_tags :: "string list"
  ar_body :: string

fun course_level_value :: "course_level \<Rightarrow> string" where
  "course_level_value CL_beginner = ''beginner''"
| "course_level_value CL_intermediate = ''intermediate''"
| "course_level_value CL_advanced = ''advanced''"

definition placeholder_prefix :: string where
  "placeholder_prefix = ''[Placeholder] ''"

text \<open>\<^verbatim>\<open>_course\<close>: the lessons are numbered from 1 and named after the course.\<close>

fun number_lessons :: "string \<Rightarrow> nat \<Rightarrow> (string \<times> nat) list \<Rightarrow> lesson list" where
  "number_lessons course_id n [] = []"
| "number_lessons course_id n ((lesson_title, duration) # rest) =
     \<lparr>le_id = course_id @ ''-'' @ show_nat n, le_title = placeholder_prefix @ lesson_title, le_order = n,
      le_video_ref = ''placeholder://'' @ course_id @ ''/'' @ show_nat n, le_duration_min = duration,
      le_transcript = ''Placeholder transcript.''\<rparr> # number_lessons course_id (Suc n) rest"

definition make_course ::
    "string \<Rightarrow> string \<Rightarrow> course_level \<Rightarrow> startup_stage list \<Rightarrow> (string \<times> nat) list \<Rightarrow> course" where
  "make_course course_id title level stage_tags lessons =
     \<lparr>co_id = course_id, co_title = placeholder_prefix @ title, co_level = level, co_stage_tags = stage_tags,
      co_lessons = number_lessons course_id 1 lessons\<rparr>"

definition all_courses :: "course list" where
  "all_courses =
    [make_course ''idea-shape-the-problem'' ''Shape the problem'' CL_beginner [SS_idea, SS_validation]
       [(''Write a problem statement'', 8), (''Find who has the problem'', 10), (''Size the pain'', 12)],
     make_course ''validation-talk-to-customers'' ''Talk to customers'' CL_beginner [SS_validation]
       [(''Recruit interviewees'', 9), (''Run the interview'', 14), (''Synthesize what you heard'', 11)],
     make_course ''build-scope-the-mvp'' ''Scope the MVP'' CL_intermediate [SS_validation, SS_build]
       [(''Pick the one core flow'', 12), (''Cut everything else'', 10)],
     make_course ''launch-plan-go-to-market'' ''Plan your go-to-market'' CL_intermediate [SS_launch]
       [(''Choose launch channels'', 11), (''Write launch messaging'', 9)],
     make_course ''growth-find-a-channel'' ''Find a repeatable channel'' CL_advanced [SS_growth]
       [(''Test three channels'', 13), (''Double down on the winner'', 10)],
     make_course ''scale-build-the-org'' ''Build the org'' CL_advanced [SS_scale]
       [(''Document core processes'', 12), (''Hire against the plan'', 14)]]"

definition all_paths :: "learning_path list" where
  "all_paths =
    [\<lparr>lt_id = ''path-validation-foundations'', lt_title = placeholder_prefix @ ''Validation foundations'',
      lt_stage = SS_validation,
      lt_course_ids = [''idea-shape-the-problem'', ''validation-talk-to-customers'', ''build-scope-the-mvp'']\<rparr>,
     \<lparr>lt_id = ''path-launch-to-growth'', lt_title = placeholder_prefix @ ''From launch to growth'',
      lt_stage = SS_launch,
      lt_course_ids = [''launch-plan-go-to-market'', ''growth-find-a-channel'']\<rparr>]"

definition all_articles :: "article list" where
  "all_articles =
    [\<lparr>ar_id = ''article-interview-questions'', ar_title = placeholder_prefix @ ''Questions that get honest answers'',
      ar_tags = [''validation'', ''customers''], ar_body = ''Placeholder article body.''\<rparr>,
     \<lparr>ar_id = ''article-pricing-basics'', ar_title = placeholder_prefix @ ''Pricing basics'',
      ar_tags = [''pricing'', ''validation''], ar_body = ''Placeholder article body.''\<rparr>]"

text \<open>The dictionaries: the last entry of a key would win.\<close>

definition courses :: "string \<Rightarrow> course option" where
  "courses k = map_of (rev (map (\<lambda>c. (co_id c, c)) all_courses)) k"

definition lessons :: "string \<Rightarrow> (course \<times> lesson) option" where
  "lessons k = map_of (rev (concat (map (\<lambda>c. map (\<lambda>l. (le_id l, (c, l))) (co_lessons c)) all_courses))) k"

definition get_course :: "string \<Rightarrow> course result" where
  "get_course course_id = (case courses course_id of None \<Rightarrow> Inl NotFound | Some course \<Rightarrow> Inr course)"

definition get_lesson :: "string \<Rightarrow> (course \<times> lesson) result" where
  "get_lesson lesson_id = (case lessons lesson_id of None \<Rightarrow> Inl NotFound | Some found \<Rightarrow> Inr found)"

definition course_duration_min :: "course \<Rightarrow> nat" where
  "course_duration_min course = sum_list (map le_duration_min (co_lessons course))"

text \<open>\<^verbatim>\<open>COURSES[course_id]\<close> of an unknown id is a \<^verbatim>\<open>KeyError\<close>.\<close>

fun path_durations :: "string list \<Rightarrow> nat result" where
  "path_durations [] = Inr 0"
| "path_durations (k # ks) =
     (case courses k of
        None \<Rightarrow> Inl (Uncaught ''KeyError'')
      | Some c \<Rightarrow> (case path_durations ks of Inl e \<Rightarrow> Inl e | Inr n \<Rightarrow> Inr (course_duration_min c + n)))"

definition path_duration_min :: "learning_path \<Rightarrow> nat result" where
  "path_duration_min path = path_durations (lt_course_ids path)"

section \<open>What the rest of the component uses of the catalog\<close>

lemma course_ids:
  "map co_id all_courses = [''idea-shape-the-problem'', ''validation-talk-to-customers'', ''build-scope-the-mvp'',
     ''launch-plan-go-to-market'', ''growth-find-a-channel'', ''scale-build-the-org'']"
  by (simp add: all_courses_def make_course_def)

lemma catalog_ids: "distinct (map co_id all_courses)" "distinct (map le_id (concat (map co_lessons all_courses)))"
  by (simp add: course_ids) (simp add: all_courses_def make_course_def show_nat.simps)

lemma courses_iff: "courses k = Some c \<longleftrightarrow> c \<in> set all_courses \<and> co_id c = k"
proof -
  have d: "distinct (map fst (rev (map (\<lambda>c. (co_id c, c)) all_courses)))"
    using catalog_ids(1) by (simp add: rev_map [symmetric] comp_def)
  show ?thesis unfolding courses_def by (subst map_of_eq_Some_iff [OF d]) auto
qed

lemma lessons_iff:
  "lessons k = Some (c, l) \<longleftrightarrow> c \<in> set all_courses \<and> l \<in> set (co_lessons c) \<and> le_id l = k"
proof -
  let ?t = "concat (map (\<lambda>c. map (\<lambda>l. (le_id l, (c, l))) (co_lessons c)) all_courses)"
  have "map fst ?t = map le_id (concat (map co_lessons all_courses))"
    by (simp add: map_concat comp_def)
  then have d: "distinct (map fst (rev ?t))" using catalog_ids(2) by (simp add: rev_map [symmetric])
  show ?thesis unfolding lessons_def by (subst map_of_eq_Some_iff [OF d]) auto
qed

lemma course_lessons:
  assumes "c \<in> set all_courses"
  shows "distinct (map le_id (co_lessons c))" "0 < length (co_lessons c)" "length (co_lessons c) < 200"
proof -
  have "\<forall>c \<in> set all_courses. distinct (map le_id (co_lessons c)) \<and> 0 < length (co_lessons c) \<and> length (co_lessons c) < 200"
    by code_simp
  then show "distinct (map le_id (co_lessons c))" "0 < length (co_lessons c)" "length (co_lessons c) < 200"
    using assms by blast+
qed

lemma lesson_course: "c \<in> set all_courses \<Longrightarrow> c' \<in> set all_courses \<Longrightarrow> l \<in> set (co_lessons c) \<Longrightarrow> l' \<in> set (co_lessons c')
    \<Longrightarrow> le_id l = le_id l' \<Longrightarrow> c = c' \<and> l = l'"
  using lessons_iff [of "le_id l" c l] lessons_iff [of "le_id l" c' l'] by simp

lemma get_course_ok: "get_course k = Inr c \<longleftrightarrow> c \<in> set all_courses \<and> co_id c = k"
  using courses_iff [of k c] by (auto simp: get_course_def split: option.split)

lemma get_lesson_ok:
  "get_lesson k = Inr (c, l) \<longleftrightarrow> c \<in> set all_courses \<and> l \<in> set (co_lessons c) \<and> le_id l = k"
  using lessons_iff [of k c l] by (auto simp: get_lesson_def split: option.split)

lemma get_course_known [simp]: "c \<in> set all_courses \<Longrightarrow> get_course (co_id c) = Inr c"
  by (simp add: get_course_ok)

lemma get_error: "get_course k = Inl e \<Longrightarrow> e = NotFound" "get_lesson k = Inl e \<Longrightarrow> e = NotFound"
  by (auto simp: get_course_def get_lesson_def split: option.splits)

text \<open>Every path leads to courses of the catalog, so that showing it does not fail.\<close>

lemma path_durations_known: "set ks \<subseteq> co_id ` set all_courses \<Longrightarrow> \<exists>n. path_durations ks = Inr n"
proof (induction ks)
  case (Cons k ks)
  then obtain c where "courses k = Some c" using courses_iff [of k] by auto
  then show ?case using Cons by auto
qed simp

lemma path_known:
  assumes "p \<in> set all_paths"
  shows "\<exists>n. path_duration_min p = Inr n"
proof -
  have "co_id ` set all_courses = {''idea-shape-the-problem'', ''validation-talk-to-customers'', ''build-scope-the-mvp'',
     ''launch-plan-go-to-market'', ''growth-find-a-channel'', ''scale-build-the-org''}"
    using arg_cong [OF course_ids, of set] by simp
  then have "\<forall>p \<in> set all_paths. set (lt_course_ids p) \<subseteq> co_id ` set all_courses" by (simp add: all_paths_def)
  then show ?thesis unfolding path_duration_min_def by (intro path_durations_known) (use assms in blast)
qed

end
