(* ===== verification/Learning.thy ===== *)
theory Learning
  imports Learning_Catalog Member_Requests Pagination "HOL-Library.Char_ord" "HOL-Library.List_Lexorder"
begin

text \<open>
  The learning academy (\<^verbatim>\<open>app/services/learning/service.py\<close>, \<^verbatim>\<open>app/api/v1/endpoints/learning.py\<close>): who has
  enrolled in which course of the catalog, which lessons are done, and the certificates.
\<close>

record enrollment =
  en_id :: uid
  en_startup_id :: uid
  en_user_id :: uid
  en_course_id :: string
  en_progress :: int
  en_completed_at :: "instant option"
  en_updated_at :: instant

record lesson_progress =
  lp_id :: uid
  lp_startup_id :: uid
  lp_user_id :: uid
  lp_course_id :: string
  lp_lesson_id :: string
  lp_completed_at :: instant

record certificate =
  ce_id :: uid
  ce_startup_id :: uid
  ce_user_id :: uid
  ce_course_id :: string
  ce_credential_code :: string
  ce_issued_at :: instant

record learning_db = notif_db +
  enrollments :: "enrollment list"
  lesson_rows :: "lesson_progress list"
  certificates :: "certificate list"

lemma publish_learning_frame [simp]:
  "enrollments (publish now e p s) = enrollments s" "lesson_rows (publish now e p s) = lesson_rows s"
  "certificates (publish now e p s) = certificates s"
  by (rule publish_frame [of now e p s]; simp)+

section \<open>Enrolment\<close>

definition find_enrollment :: "uid \<Rightarrow> uid \<Rightarrow> string \<Rightarrow> 'a learning_db_scheme \<Rightarrow> enrollment option" where
  "find_enrollment startup_id user_id course_id s =
     find (\<lambda>e. en_startup_id e = startup_id \<and> en_user_id e = user_id \<and> en_course_id e = course_id) (enrollments s)"

text \<open>
  The savepoint of the source handles the race of two first enrolments: the loser reads the row of the
  winner, which is what the query here finds.
\<close>

definition get_or_create_enrollment ::
    "instant \<Rightarrow> uid \<Rightarrow> uid \<Rightarrow> string \<Rightarrow> 'a learning_db_scheme \<Rightarrow> (enrollment \<times> bool) result \<times> 'a learning_db_scheme" where
  "get_or_create_enrollment now startup_id user_id course_id s =
     (case get_course course_id of
        Inl e \<Rightarrow> (Inl e, s)
      | Inr _ \<Rightarrow>
          (case find_enrollment startup_id user_id course_id s of
             Some row \<Rightarrow> (Inr (row, False), s)
           | None \<Rightarrow>
               let row = \<lparr>en_id = fresh s, en_startup_id = startup_id, en_user_id = user_id,
                          en_course_id = course_id, en_progress = 0, en_completed_at = None, en_updated_at = now\<rparr>
               in (Inr (row, True), s\<lparr>fresh := Suc (fresh s), enrollments := enrollments s @ [row]\<rparr>)))"

section \<open>Completing a lesson\<close>

definition course_progress :: "uid \<Rightarrow> uid \<Rightarrow> course \<Rightarrow> 'a learning_db_scheme \<Rightarrow> int" where
  "course_progress startup_id user_id course s =
     (let lesson_ids = map le_id (co_lessons course)
      in if lesson_ids = [] then 0
         else percent (count_where (\<lambda>r. lp_startup_id r = startup_id \<and> lp_user_id r = user_id
                                      \<and> lp_lesson_id r \<in> set lesson_ids) (lesson_rows s))
                (length lesson_ids))"

definition record_lesson ::
    "instant \<Rightarrow> uid \<Rightarrow> uid \<Rightarrow> string \<Rightarrow> string \<Rightarrow> 'a learning_db_scheme \<Rightarrow> 'a learning_db_scheme" where
  "record_lesson now startup_id user_id course_id lesson_id s =
     (if \<exists>r \<in> set (lesson_rows s). lp_startup_id r = startup_id \<and> lp_user_id r = user_id \<and> lp_lesson_id r = lesson_id
      then s
      else s\<lparr>fresh := Suc (fresh s), lesson_rows := lesson_rows s @
        [\<lparr>lp_id = fresh s, lp_startup_id = startup_id, lp_user_id = user_id, lp_course_id = course_id,
          lp_lesson_id = lesson_id, lp_completed_at = now\<rparr>]\<rparr>)"

definition certificate_event :: "certificate \<Rightarrow> payload" where
  "certificate_event cert =
     [(''startup_id'', JUid (ce_startup_id cert)), (''user_id'', JUid (ce_user_id cert)),
      (''course_id'', JStr (ce_course_id cert)), (''certificate_id'', JUid (ce_id cert))]"

definition certificate_job :: "certificate \<Rightarrow> payload" where
  "certificate_job cert = [(''certificate_id'', JUid (ce_id cert))]"

text \<open>\<open>code\<close> is \<^verbatim>\<open>secrets.token_urlsafe(16)\<close>; both constraints of the table are checked by the flush.\<close>

definition issue_certificate ::
    "instant \<Rightarrow> string \<Rightarrow> uid \<Rightarrow> uid \<Rightarrow> string \<Rightarrow> 'a learning_db_scheme \<Rightarrow> certificate result \<times> 'a learning_db_scheme" where
  "issue_certificate now code startup_id user_id course_id s =
     (if \<exists>c \<in> set (certificates s). ce_credential_code c = code
          \<or> ce_startup_id c = startup_id \<and> ce_user_id c = user_id \<and> ce_course_id c = course_id
      then (Inl (Uncaught ''IntegrityError''), s)
      else
        let cert = \<lparr>ce_id = fresh s, ce_startup_id = startup_id, ce_user_id = user_id, ce_course_id = course_id,
                    ce_credential_code = code, ce_issued_at = now\<rparr>;
            s1 = publish now ''learning.course.completed'' (certificate_event cert)
                   (s\<lparr>fresh := Suc (fresh s), certificates := certificates s @ [cert]\<rparr>);
            (_, s2) = enqueue now ''learning.certificate.generate'' (certificate_job cert) (Some startup_id) s1
        in (Inr cert, s2))"

text \<open>
  What follows the lock of the enrolment row: other requests may have committed since it was read, and
  the query with \<^verbatim>\<open>populate_existing\<close> reads what they left. \<^verbatim>\<open>updated_at\<close> moves when a column does.
\<close>

definition stamped :: "instant \<Rightarrow> enrollment \<Rightarrow> enrollment \<Rightarrow> enrollment" where
  "stamped now old row = (if row = old then old else row\<lparr>en_updated_at := now\<rparr>)"

definition put_enrollment :: "enrollment \<Rightarrow> 'a learning_db_scheme \<Rightarrow> 'a learning_db_scheme" where
  "put_enrollment row s =
     s\<lparr>enrollments := update_where (\<lambda>e. en_id e = en_id row) (\<lambda>_. row) (enrollments s)\<rparr>"

definition finish_lesson ::
    "instant \<Rightarrow> string \<Rightarrow> uid \<Rightarrow> uid \<Rightarrow> course \<Rightarrow> string \<Rightarrow> uid \<Rightarrow> 'a learning_db_scheme
     \<Rightarrow> (enrollment \<times> certificate option) result \<times> 'a learning_db_scheme" where
  "finish_lesson now code startup_id user_id course lesson_id enrollment_id s =
     (case find (\<lambda>e. en_id e = enrollment_id) (enrollments s) of
        None \<Rightarrow> (Inl (Uncaught ''NoResultFound''), s)
      | Some old \<Rightarrow>
          let s1 = record_lesson now startup_id user_id (co_id course) lesson_id s;
              progress = course_progress startup_id user_id course s1
          in if progress = 100 \<and> en_completed_at old = None
             then let row = stamped now old (old\<lparr>en_progress := progress, en_completed_at := Some now\<rparr>)
                  in (case issue_certificate now code startup_id user_id (co_id course) (put_enrollment row s1) of
                        (Inl e, s2) \<Rightarrow> (Inl e, s2)
                      | (Inr cert, s2) \<Rightarrow> (Inr (row, Some cert), s2))
             else let row = stamped now old (old\<lparr>en_progress := progress\<rparr>)
                  in (Inr (row, None), put_enrollment row s1))"

definition complete_lesson ::
    "instant \<Rightarrow> string \<Rightarrow> uid \<Rightarrow> uid \<Rightarrow> string \<Rightarrow> 'a learning_db_scheme
     \<Rightarrow> (enrollment \<times> certificate option) result \<times> 'a learning_db_scheme" where
  "complete_lesson now code startup_id user_id lesson_id s =
     (case get_lesson lesson_id of
        Inl e \<Rightarrow> (Inl e, s)
      | Inr (course, _) \<Rightarrow>
          (case get_or_create_enrollment now startup_id user_id (co_id course) s of
             (Inl e, s1) \<Rightarrow> (Inl e, s1)
           | (Inr (enrollment, _), s1) \<Rightarrow>
               finish_lesson now code startup_id user_id course lesson_id (en_id enrollment) s1))"

section \<open>Reading\<close>

definition list_certificates :: "uid \<Rightarrow> uid \<Rightarrow> 'a learning_db_scheme \<Rightarrow> certificate list" where
  "list_certificates startup_id user_id s =
     desc_by ce_issued_at (filter (\<lambda>c. ce_startup_id c = startup_id \<and> ce_user_id c = user_id) (certificates s))"

definition enrollments_by_course :: "uid \<Rightarrow> uid \<Rightarrow> 'a learning_db_scheme \<Rightarrow> string \<Rightarrow> enrollment option" where
  "enrollments_by_course startup_id user_id s k =
     map_of (rev (map (\<lambda>e. (en_course_id e, e))
       (filter (\<lambda>e. en_startup_id e = startup_id \<and> en_user_id e = user_id) (enrollments s)))) k"

definition completed_lesson_ids :: "uid \<Rightarrow> uid \<Rightarrow> string \<Rightarrow> 'a learning_db_scheme \<Rightarrow> string list" where
  "completed_lesson_ids startup_id user_id course_id s =
     map lp_lesson_id (filter (\<lambda>r. lp_startup_id r = startup_id \<and> lp_user_id r = user_id \<and> lp_course_id r = course_id)
       (lesson_rows s))"

fun level_rank :: "course_level \<Rightarrow> nat" where
  "level_rank CL_beginner = 0"
| "level_rank CL_intermediate = 1"
| "level_rank CL_advanced = 2"

fun position_in :: "course list \<Rightarrow> string \<Rightarrow> nat" where
  "position_in [] k = 0"
| "position_in (c # cs) k = (if co_id c = k then 0 else Suc (position_in cs k))"

definition catalog_position :: "string \<Rightarrow> nat" where
  "catalog_position k = position_in all_courses k"

definition recommendation_key :: "course \<Rightarrow> nat \<times> nat" where
  "recommendation_key c = (level_rank (co_level c), catalog_position (co_id c))"

definition recommended_courses :: "startup_stage option \<Rightarrow> string list \<Rightarrow> course list" where
  "recommended_courses stage completed_ids =
     (let candidates = (case stage of
            None \<Rightarrow> filter (\<lambda>c. co_level c = CL_beginner) all_courses
          | Some st \<Rightarrow> filter (\<lambda>c. st \<in> set (co_stage_tags c)) all_courses);
          remaining = filter (\<lambda>c. co_id c \<notin> set completed_ids) candidates
      in sort_key recommendation_key remaining)"

text \<open>
  \<^verbatim>\<open>order_by(updated_at.desc(), course_id)\<close>. The ids of the catalog begin with different letters, so
  that every collation orders them like the characters.
\<close>

definition watching_key :: "enrollment \<Rightarrow> int \<times> string" where
  "watching_key e = (- en_updated_at e, en_course_id e)"

fun known_courses :: "enrollment list \<Rightarrow> (course \<times> enrollment) list" where
  "known_courses [] = []"
| "known_courses (e # es) =
     (case courses (en_course_id e) of None \<Rightarrow> known_courses es | Some c \<Rightarrow> (c, e) # known_courses es)"

definition continue_watching :: "uid \<Rightarrow> uid \<Rightarrow> 'a learning_db_scheme \<Rightarrow> (course \<times> enrollment) list" where
  "continue_watching startup_id user_id s =
     known_courses (sort_key watching_key
       (filter (\<lambda>e. en_startup_id e = startup_id \<and> en_user_id e = user_id \<and> en_completed_at e = None) (enrollments s)))"

text \<open>A path shows the mean of its courses; one the caller has not begun counts as nothing.\<close>

definition path_progress :: "learning_path \<Rightarrow> (string \<Rightarrow> int option) \<Rightarrow> int" where
  "path_progress path progress =
     (let values = map (\<lambda>k. case progress k of None \<Rightarrow> 0 | Some p \<Rightarrow> p) (lt_course_ids path)
      in py_round_div (sum_list values) (int (length values)))"

section \<open>Views\<close>

record course_card =
  cs_id :: string
  cs_title :: string
  cs_level :: string
  cs_stage_tags :: "string list"
  cs_lesson_count :: nat
  cs_duration_min :: nat
  cs_enrolled :: bool
  cs_progress :: int
  cs_completed :: bool

definition course_summary :: "course \<Rightarrow> enrollment option \<Rightarrow> course_card" where
  "course_summary course enrollment =
     \<lparr>cs_id = co_id course, cs_title = co_title course, cs_level = course_level_value (co_level course),
      cs_stage_tags = map startup_stage_value (co_stage_tags course), cs_lesson_count = length (co_lessons course),
      cs_duration_min = course_duration_min course, cs_enrolled = (enrollment \<noteq> None),
      cs_progress = (case enrollment of None \<Rightarrow> 0 | Some e \<Rightarrow> en_progress e),
      cs_completed = (case enrollment of None \<Rightarrow> False | Some e \<Rightarrow> en_completed_at e \<noteq> None)\<rparr>"

definition course_detail ::
    "course \<Rightarrow> enrollment option \<Rightarrow> string list \<Rightarrow> course_card \<times> (lesson \<times> bool) list" where
  "course_detail course enrollment completed_ids =
     (course_summary course enrollment, map (\<lambda>l. (l, le_id l \<in> set completed_ids)) (co_lessons course))"

record path_card =
  pv_id :: string
  pv_title :: string
  pv_stage :: string
  pv_course_ids :: "string list"
  pv_course_count :: nat
  pv_duration_min :: nat
  pv_progress :: int

definition path_view :: "learning_path \<Rightarrow> (string \<Rightarrow> int option) \<Rightarrow> path_card result" where
  "path_view path progress =
     (case path_duration_min path of
        Inl e \<Rightarrow> Inl e
      | Inr duration \<Rightarrow>
          Inr \<lparr>pv_id = lt_id path, pv_title = lt_title path, pv_stage = startup_stage_value (lt_stage path),
               pv_course_ids = lt_course_ids path, pv_course_count = length (lt_course_ids path),
               pv_duration_min = duration, pv_progress = path_progress path progress\<rparr>)"

section \<open>Endpoints\<close>

definition academy :: "membership_role list" where
  "academy = [MR_founder, MR_team_member]"

definition get_recommendations ::
    "membership \<Rightarrow> 'a learning_db_scheme \<Rightarrow> (string option \<times> course_card list \<times> course_card list) result" where
  "get_recommendations membership s =
     (case startup_by_id s (m_startup_id membership) of
        None \<Rightarrow> Inl (Uncaught ''NoResultFound'')
      | Some startup \<Rightarrow>
          let enrollments = enrollments_by_course (st_id startup) (m_user_id membership) s;
              completed = filter (\<lambda>k. case enrollments k of None \<Rightarrow> False | Some e \<Rightarrow> en_completed_at e \<noteq> None)
                (map en_course_id (filter (\<lambda>e. en_startup_id e = st_id startup \<and> en_user_id e = m_user_id membership)
                   (learning_db.enrollments s)));
              shelf = recommended_courses (st_stage startup) completed;
              watching = continue_watching (st_id startup) (m_user_id membership) s
          in Inr (map_option startup_stage_value (st_stage startup),
                  map (\<lambda>c. course_summary c (enrollments (co_id c))) shelf,
                  map (\<lambda>(c, e). course_summary c (Some e)) watching))"

definition list_courses :: "membership \<Rightarrow> 'a learning_db_scheme \<Rightarrow> course_card list" where
  "list_courses membership s =
     (let enrollments = enrollments_by_course (m_startup_id membership) (m_user_id membership) s
      in map (\<lambda>c. course_summary c (enrollments (co_id c))) all_courses)"

definition get_course_detail ::
    "string \<Rightarrow> membership \<Rightarrow> 'a learning_db_scheme \<Rightarrow> (course_card \<times> (lesson \<times> bool) list) result" where
  "get_course_detail course_id membership s =
     (case get_course course_id of
        Inl e \<Rightarrow> Inl e
      | Inr course \<Rightarrow>
          Inr (course_detail course (enrollments_by_course (m_startup_id membership) (m_user_id membership) s (co_id course))
                 (completed_lesson_ids (m_startup_id membership) (m_user_id membership) (co_id course) s)))"

fun path_views :: "(string \<Rightarrow> int option) \<Rightarrow> learning_path list \<Rightarrow> path_card list result" where
  "path_views progress [] = Inr []"
| "path_views progress (p # ps) =
     (case path_view p progress of
        Inl e \<Rightarrow> Inl e
      | Inr v \<Rightarrow> (case path_views progress ps of Inl e \<Rightarrow> Inl e | Inr vs \<Rightarrow> Inr (v # vs)))"

definition list_paths :: "membership \<Rightarrow> 'a learning_db_scheme \<Rightarrow> path_card list result" where
  "list_paths membership s =
     path_views (\<lambda>k. map_option en_progress (enrollments_by_course (m_startup_id membership) (m_user_id membership) s k))
       all_paths"

text \<open>The new or existing row, and whether it is new (201 or 200).\<close>

definition create_enrollment ::
    "instant \<Rightarrow> string \<Rightarrow> membership \<Rightarrow> 'a learning_db_scheme \<Rightarrow> (enrollment \<times> bool) result \<times> 'a learning_db_scheme" where
  "create_enrollment now course_id membership =
     run_tx (get_or_create_enrollment now (m_startup_id membership) (m_user_id membership) course_id)"

text \<open>The body is \<^verbatim>\<open>{completed: true}\<close>, nothing else is valid.\<close>

definition update_lesson_progress ::
    "instant \<Rightarrow> string \<Rightarrow> string \<Rightarrow> json \<Rightarrow> membership \<Rightarrow> 'a learning_db_scheme
     \<Rightarrow> (enrollment \<times> certificate option) result \<times> 'a learning_db_scheme" where
  "update_lesson_progress now code lesson_id completed membership s =
     (if completed \<noteq> JBool True then (Inl (RequestInvalid [''completed'']), s)
      else run_tx (complete_lesson now code (m_startup_id membership) (m_user_id membership) lesson_id) s)"

definition list_my_certificates :: "membership \<Rightarrow> 'a learning_db_scheme \<Rightarrow> certificate list" where
  "list_my_certificates membership s = list_certificates (m_startup_id membership) (m_user_id membership) s"

end
