(* ===== verification/Learning_Inv.thy ===== *)
theory Learning_Inv
  imports Learning Monotone_Rows
begin

text \<open>
  What holds of the tables of the learning academy, and that enrolling and completing lessons keep it.
\<close>

section \<open>Keys\<close>

definition en_key :: "enrollment \<Rightarrow> uid \<times> uid \<times> string" where
  "en_key e = (en_startup_id e, en_user_id e, en_course_id e)"

definition lp_key :: "lesson_progress \<Rightarrow> uid \<times> uid \<times> string" where
  "lp_key r = (lp_startup_id r, lp_user_id r, lp_lesson_id r)"

definition ce_key :: "certificate \<Rightarrow> uid \<times> uid \<times> string" where
  "ce_key c = (ce_startup_id c, ce_user_id c, ce_course_id c)"

text \<open>The lessons somebody has done in a workspace, and how far this is in a course.\<close>

definition lessons_done :: "lesson_progress list \<Rightarrow> uid \<Rightarrow> uid \<Rightarrow> string set" where
  "lessons_done rows w u = {k. (w, u, k) \<in> lp_key ` set rows}"

definition lesson_ids :: "course \<Rightarrow> string set" where
  "lesson_ids c = le_id ` set (co_lessons c)"

lemma lesson_ids_card: "c \<in> set all_courses \<Longrightarrow> card (lesson_ids c) = length (co_lessons c)"
  using distinct_card [OF course_lessons(1)] by (simp add: lesson_ids_def)

lemma lesson_ids_finite [simp]: "finite (lesson_ids c)"
  by (simp add: lesson_ids_def)

lemma counted_done:
  assumes "distinct (map lp_key rows)"
  shows "count_where (\<lambda>r. lp_startup_id r = w \<and> lp_user_id r = u \<and> lp_lesson_id r \<in> ids) rows
    = card (ids \<inter> lessons_done rows w u)"
proof -
  let ?P = "\<lambda>r. lp_startup_id r = w \<and> lp_user_id r = u \<and> lp_lesson_id r \<in> ids"
  have "distinct (map lp_key (filter ?P rows))" by (simp add: assms distinct_map_filter)
  moreover have "map lp_key (filter ?P rows) = map (\<lambda>r. (w, u, lp_lesson_id r)) (filter ?P rows)"
    by (auto simp: lp_key_def)
  ultimately have "distinct (map lp_lesson_id (filter ?P rows))"
    by (auto simp: distinct_map inj_on_def)
  then have "length (filter ?P rows) = card (set (map lp_lesson_id (filter ?P rows)))"
    using distinct_card by fastforce
  also have "set (map lp_lesson_id (filter ?P rows)) = ids \<inter> lessons_done rows w u"
    by (force simp: lessons_done_def lp_key_def)
  finally show ?thesis by (simp add: count_where_def)
qed

definition progress_in :: "course \<Rightarrow> string set \<Rightarrow> int" where
  "progress_in c k = percent (card (lesson_ids c \<inter> k)) (length (co_lessons c))"

lemma course_progress_done:
  assumes "distinct (map lp_key (lesson_rows s))" "c \<in> set all_courses"
  shows "course_progress w u c s = progress_in c (lessons_done (lesson_rows s) w u)"
  using course_lessons(2) [OF assms(2)] counted_done [OF assms(1), of w u "lesson_ids c"]
  by (simp add: course_progress_def progress_in_def lesson_ids_def Let_def)

lemma progress_bound: "c \<in> set all_courses \<Longrightarrow> card (lesson_ids c \<inter> k) \<le> length (co_lessons c)"
  using card_mono [of "lesson_ids c" "lesson_ids c \<inter> k"] lesson_ids_card [of c] by simp

lemma progress_in_range: "c \<in> set all_courses \<Longrightarrow> 0 \<le> progress_in c k \<and> progress_in c k \<le> 100"
  unfolding progress_in_def by (rule percent_range [OF course_lessons(2) progress_bound])

lemma progress_in_mono: "c \<in> set all_courses \<Longrightarrow> k \<subseteq> k' \<Longrightarrow> progress_in c k \<le> progress_in c k'"
  unfolding progress_in_def by (rule percent_mono [OF course_lessons(2)]) (auto intro: card_mono)

lemma progress_in_full:
  assumes "c \<in> set all_courses"
  shows "progress_in c k = 100 \<longleftrightarrow> lesson_ids c \<subseteq> k"
proof -
  have "progress_in c k = 100 \<longleftrightarrow> card (lesson_ids c \<inter> k) = card (lesson_ids c)"
    unfolding progress_in_def lesson_ids_card [OF assms]
    by (rule percent_100_iff [OF course_lessons(2) progress_bound course_lessons(3)]) (use assms in simp_all)
  also have "\<dots> \<longleftrightarrow> lesson_ids c \<inter> k = lesson_ids c"
    using card_subset_eq [of "lesson_ids c" "lesson_ids c \<inter> k"] by auto
  finally show ?thesis by blast
qed

section \<open>The invariant\<close>

definition enrollment_ok :: "lesson_progress list \<Rightarrow> enrollment \<Rightarrow> bool" where
  "enrollment_ok rows e \<longleftrightarrow>
     (\<exists>c \<in> set all_courses. en_course_id e = co_id c
        \<and> en_progress e = progress_in c (lessons_done rows (en_startup_id e) (en_user_id e))
        \<and> (en_completed_at e \<noteq> None \<longleftrightarrow> en_progress e = 100))"

definition lesson_ok :: "enrollment list \<Rightarrow> lesson_progress \<Rightarrow> bool" where
  "lesson_ok ens r \<longleftrightarrow>
     (\<exists>c \<in> set all_courses. lp_course_id r = co_id c \<and> lp_lesson_id r \<in> lesson_ids c
        \<and> (lp_startup_id r, lp_user_id r, co_id c) \<in> en_key ` set ens)"

definition finished_keys :: "enrollment list \<Rightarrow> (uid \<times> uid \<times> string) set" where
  "finished_keys ens = en_key ` {e \<in> set ens. en_completed_at e \<noteq> None}"

definition told_courses :: "'a learning_db_scheme \<Rightarrow> payload list" where
  "told_courses s = map snd (filter (\<lambda>x. fst x = ''learning.course.completed'') (events s))"

definition ordered_jobs :: "'a learning_db_scheme \<Rightarrow> payload list" where
  "ordered_jobs s = map j_payload (filter (\<lambda>j. j_type j = ''learning.certificate.generate'') (jobs s))"

definition learning_inv :: "'a learning_db_scheme \<Rightarrow> bool" where
  "learning_inv s \<longleftrightarrow>
     keyed (fresh s) en_id (enrollments s) \<and> distinct (map en_key (enrollments s))
     \<and> distinct (map lp_key (lesson_rows s)) \<and> distinct (map ce_key (certificates s))
     \<and> (\<forall>e \<in> set (enrollments s). enrollment_ok (lesson_rows s) e)
     \<and> (\<forall>r \<in> set (lesson_rows s). lesson_ok (enrollments s) r)
     \<and> ce_key ` set (certificates s) = finished_keys (enrollments s)
     \<and> told_courses s = map certificate_event (certificates s)
     \<and> ordered_jobs s = map certificate_job (certificates s)"

lemma learningD:
  assumes "learning_inv s"
  shows "keyed (fresh s) en_id (enrollments s)" "distinct (map en_key (enrollments s))"
    "distinct (map lp_key (lesson_rows s))" "distinct (map ce_key (certificates s))"
    "e \<in> set (enrollments s) \<Longrightarrow> enrollment_ok (lesson_rows s) e"
    "r \<in> set (lesson_rows s) \<Longrightarrow> lesson_ok (enrollments s) r"
    "ce_key ` set (certificates s) = finished_keys (enrollments s)"
    "told_courses s = map certificate_event (certificates s)"
    "ordered_jobs s = map certificate_job (certificates s)"
  using assms by (simp_all add: learning_inv_def)

text \<open>An enrolment only moves forward.\<close>

type_synonym advance = "(uid \<times> uid \<times> string) \<times> int \<times> instant option"

definition en_value :: "enrollment \<Rightarrow> advance" where
  "en_value e = (en_key e, en_progress e, en_completed_at e)"

definition advance_le :: "advance \<Rightarrow> advance \<Rightarrow> bool" where
  "advance_le a b \<longleftrightarrow> fst a = fst b \<and> fst (snd a) \<le> fst (snd b) \<and> recorded_le (snd (snd a)) (snd (snd b))"

lemma advance_le_refl [simp]: "advance_le a a"
  by (simp add: advance_le_def)

lemma advance_le_trans: "advance_le a b \<Longrightarrow> advance_le b c \<Longrightarrow> advance_le a c"
  using recorded_le_trans [of "snd (snd a)"] by (auto simp: advance_le_def)

definition learns :: "'a learning_db_scheme \<Rightarrow> 'a learning_db_scheme \<Rightarrow> bool" where
  "learns s s' \<longleftrightarrow> learning_inv s' \<and> fresh s \<le> fresh s'
     \<and> moves en_id en_value advance_le (fresh s) (enrollments s) (enrollments s')
     \<and> set (lesson_rows s) \<subseteq> set (lesson_rows s') \<and> set (certificates s) \<subseteq> set (certificates s')"

lemma learns_refl: "learning_inv s \<Longrightarrow> learns s s"
  by (simp add: learns_def moves_refl)

text \<open>
  Enrolling, and completing a lesson whatever was committed before its lock, keep the invariant and move
  the enrolments forward.
\<close>

lemma learns_inv: "learns s s' \<Longrightarrow> learning_inv s'"
  by (simp add: learns_def)

lemma learns_trans: "learns s s' \<Longrightarrow> learns s' s'' \<Longrightarrow> learns s s''"
  unfolding learns_def by (auto intro: moves_trans [OF advance_le_trans])

lemma learns_frame:
  assumes "learning_inv s" "fresh s \<le> fresh s'" "enrollments s' = enrollments s" "lesson_rows s' = lesson_rows s"
    "certificates s' = certificates s" "told_courses s' = told_courses s" "ordered_jobs s' = ordered_jobs s"
  shows "learns s s'"
  using assms by (auto simp: learns_def learning_inv_def moves_refl intro: keyed_mono)

section \<open>Enrolling\<close>

lemma progress_in_none: "c \<in> set all_courses \<Longrightarrow> lesson_ids c \<inter> k = {} \<Longrightarrow> progress_in c k = 0"
  using percent_none [OF course_lessons(2)] by (simp add: progress_in_def)

lemma progress_in_cong: "lesson_ids c \<inter> k = lesson_ids c \<inter> k' \<Longrightarrow> progress_in c k = progress_in c k'"
  by (simp add: progress_in_def)

lemma course_of_lesson:
  "c \<in> set all_courses \<Longrightarrow> c' \<in> set all_courses \<Longrightarrow> k \<in> lesson_ids c \<Longrightarrow> k \<in> lesson_ids c' \<Longrightarrow> c = c'"
  using lesson_course [of c c'] by (auto simp: lesson_ids_def)

lemma same_course: "c \<in> set all_courses \<Longrightarrow> c' \<in> set all_courses \<Longrightarrow> co_id c = co_id c' \<Longrightarrow> c = c'"
  using distinct_mapD [OF catalog_ids(1)] by blast

text \<open>Nothing of a course is done before the enrolment.\<close>

lemma nothing_done:
  assumes inv: "learning_inv s" and c: "c \<in> set all_courses" and key: "(w, u, co_id c) \<notin> en_key ` set (enrollments s)"
  shows "lesson_ids c \<inter> lessons_done (lesson_rows s) w u = {}"
proof (rule ccontr)
  assume "\<not> ?thesis"
  then obtain r where r: "r \<in> set (lesson_rows s)" "lp_key r = (w, u, lp_lesson_id r)" "lp_lesson_id r \<in> lesson_ids c"
    by (auto simp: lessons_done_def lp_key_def)
  obtain c' where c': "c' \<in> set all_courses" "lp_lesson_id r \<in> lesson_ids c'"
      "(lp_startup_id r, lp_user_id r, co_id c') \<in> en_key ` set (enrollments s)"
    using learningD(6) [OF inv r(1)] by (auto simp: lesson_ok_def)
  have "c = c'" by (rule course_of_lesson [OF c c'(1) r(3) c'(2)])
  then show False using c'(3) key r(2) by (simp add: lp_key_def)
qed

lemma find_enrollment_key:
  "find_enrollment w u k s = find (\<lambda>e. en_key e = (w, u, k)) (enrollments s)"
  by (simp add: find_enrollment_def en_key_def)

lemma enroll_ok:
  assumes inv: "learning_inv s" and ok: "get_or_create_enrollment now w u k s = (Inr (e, b), s')"
  shows "learns s s'" "e \<in> set (enrollments s')" "en_key e = (w, u, k)" "k \<in> co_id ` set all_courses"
    "certificates s' = certificates s" "lesson_rows s' = lesson_rows s" "set (enrollments s) \<subseteq> set (enrollments s')"
    "b \<longleftrightarrow> e \<notin> set (enrollments s)"
proof -
  obtain c where c: "c \<in> set all_courses" "co_id c = k"
    using ok by (auto simp: get_or_create_enrollment_def get_course_ok Let_def split: sum.splits)
  have "learns s s' \<and> e \<in> set (enrollments s') \<and> en_key e = (w, u, k) \<and> certificates s' = certificates s
    \<and> lesson_rows s' = lesson_rows s \<and> set (enrollments s) \<subseteq> set (enrollments s') \<and> (b \<longleftrightarrow> e \<notin> set (enrollments s))"
  proof (cases "find_enrollment w u k s")
    case (Some x)
    then have "e = x" "s' = s" "\<not> b"
      using ok by (auto simp: get_or_create_enrollment_def split: sum.splits)
    then show ?thesis using Some find_SomeD learns_refl [OF inv] unfolding find_enrollment_key by fastforce
  next
    case None
    define row where "row = \<lparr>en_id = fresh s, en_startup_id = w, en_user_id = u, en_course_id = k,
      en_progress = 0, en_completed_at = None, en_updated_at = now\<rparr>"
    have s': "e = row" "b" "s' = s\<lparr>fresh := Suc (fresh s), enrollments := enrollments s @ [row]\<rparr>"
      using ok None by (auto simp: get_or_create_enrollment_def row_def Let_def split: sum.splits)
    have new: "(w, u, k) \<notin> en_key ` set (enrollments s)"
      using find_NoneD [OF None [unfolded find_enrollment_key]] by (metis imageE)
    have "enrollment_ok (lesson_rows s) row"
      using c progress_in_none [OF c(1) nothing_done [OF inv c(1)]] new
      by (auto simp: enrollment_ok_def row_def intro!: bexI [of _ c])
    moreover have "finished_keys (enrollments s @ [row]) = finished_keys (enrollments s)"
      by (auto simp: finished_keys_def row_def)
    moreover have "lesson_ok (enrollments s @ [row]) r" if "r \<in> set (lesson_rows s)" for r
      using learningD(6) [OF inv that] by (auto simp: lesson_ok_def)
    ultimately have "learning_inv s'"
      using inv new keyed_add [OF learningD(1) [OF inv], of row]
      by (simp add: s' learning_inv_def told_courses_def ordered_jobs_def row_def en_key_def)
    moreover have "moves en_id en_value advance_le (fresh s) (enrollments s) (enrollments s @ [row])"
      by (rule moves_append) (simp_all add: row_def)
    moreover have "row \<notin> set (enrollments s)" using new by (auto simp: row_def en_key_def image_iff)
    ultimately show ?thesis by (auto simp: learns_def s' row_def en_key_def)
  qed
  then show "learns s s'" "e \<in> set (enrollments s')" "en_key e = (w, u, k)" "certificates s' = certificates s"
    "lesson_rows s' = lesson_rows s" "set (enrollments s) \<subseteq> set (enrollments s')" "b \<longleftrightarrow> e \<notin> set (enrollments s)"
    by blast+
  show "k \<in> co_id ` set all_courses" using c by blast
qed

section \<open>Recording a lesson\<close>

lemma record_lesson_frame [simp]:
  "enrollments (record_lesson now w u k l s) = enrollments s" "certificates (record_lesson now w u k l s) = certificates s"
  "told_courses (record_lesson now w u k l s) = told_courses s" "ordered_jobs (record_lesson now w u k l s) = ordered_jobs s"
  "startups (record_lesson now w u k l s) = startups s"
  by (simp_all add: record_lesson_def told_courses_def ordered_jobs_def)

lemma record_lesson_rows:
  assumes "distinct (map lp_key (lesson_rows s))"
  shows "distinct (map lp_key (lesson_rows (record_lesson now w u k l s)))"
    "lessons_done (lesson_rows (record_lesson now w u k l s)) w' u' =
       lessons_done (lesson_rows s) w' u' \<union> (if w' = w \<and> u' = u then {l} else {})"
    "set (lesson_rows s) \<subseteq> set (lesson_rows (record_lesson now w u k l s))"
    "fresh s \<le> fresh (record_lesson now w u k l s)"
    "r \<in> set (lesson_rows (record_lesson now w u k l s)) \<Longrightarrow>
       r \<in> set (lesson_rows s) \<or> lp_startup_id r = w \<and> lp_user_id r = u \<and> lp_course_id r = k \<and> lp_lesson_id r = l"
  using assms by (auto simp: record_lesson_def lessons_done_def lp_key_def image_iff split: if_splits)

text \<open>The progress of the other enrolments is untouched.\<close>

lemma record_other_ok:
  assumes inv: "learning_inv s" and c: "c \<in> set all_courses" "l \<in> lesson_ids c"
    and e: "e \<in> set (enrollments s)" "en_key e \<noteq> (w, u, co_id c)"
  shows "enrollment_ok (lesson_rows (record_lesson now w u (co_id c) l s)) e"
proof -
  obtain c' where c': "c' \<in> set all_courses" "en_course_id e = co_id c'"
      "en_progress e = progress_in c' (lessons_done (lesson_rows s) (en_startup_id e) (en_user_id e))"
      "en_completed_at e \<noteq> None \<longleftrightarrow> en_progress e = 100"
    using learningD(5) [OF inv e(1)] by (auto simp: enrollment_ok_def)
  have "l \<notin> lesson_ids c'" if "en_startup_id e = w" "en_user_id e = u"
    using course_of_lesson [OF c(1) c'(1) c(2)] e(2) that c'(2) by (auto simp: en_key_def)
  then have "progress_in c' (lessons_done (lesson_rows (record_lesson now w u (co_id c) l s)) (en_startup_id e) (en_user_id e))
      = en_progress e"
    unfolding c'(3) record_lesson_rows(2) [OF learningD(3) [OF inv]] by (intro progress_in_cong) auto
  then show ?thesis using c' by (auto simp: enrollment_ok_def)
qed

section \<open>Finishing a lesson\<close>

lemma in_put:
  "x \<in> set (update_where (\<lambda>e. en_id e = en_id row) (\<lambda>_. row) t) \<Longrightarrow> x = row \<or> x \<in> set t \<and> en_id x \<noteq> en_id row"
  by (auto simp: set_update_where split: if_splits)

text \<open>
  The row that takes the place of the enrolment of the lesson's course carries the present progress and is
  completed when this is full.
\<close>

definition finishing :: "'a learning_db_scheme \<Rightarrow> enrollment \<Rightarrow> enrollment \<Rightarrow> course \<Rightarrow> string \<Rightarrow> bool" where
  "finishing s old row c l \<longleftrightarrow>
     learning_inv s \<and> old \<in> set (enrollments s) \<and> c \<in> set all_courses \<and> l \<in> lesson_ids c
     \<and> en_course_id old = co_id c \<and> en_id row = en_id old \<and> en_key row = en_key old
     \<and> en_progress row = progress_in c (insert l (lessons_done (lesson_rows s) (en_startup_id old) (en_user_id old)))
     \<and> (en_completed_at old \<noteq> None \<longrightarrow> en_completed_at row = en_completed_at old)
     \<and> (en_completed_at old = None \<longrightarrow> (en_completed_at row \<noteq> None \<longleftrightarrow> en_progress row = 100))"

lemma finishingD:
  assumes "finishing s old row c l"
  shows "learning_inv s" "old \<in> set (enrollments s)" "c \<in> set all_courses" "l \<in> lesson_ids c"
    "en_course_id old = co_id c" "en_id row = en_id old" "en_key row = en_key old"
    "en_progress row = progress_in c (insert l (lessons_done (lesson_rows s) (en_startup_id old) (en_user_id old)))"
    "en_completed_at old \<noteq> None \<Longrightarrow> en_completed_at row = en_completed_at old"
    "en_completed_at old = None \<Longrightarrow> en_completed_at row \<noteq> None \<longleftrightarrow> en_progress row = 100"
  using assms by (simp_all add: finishing_def)

definition recorded :: "instant \<Rightarrow> enrollment \<Rightarrow> course \<Rightarrow> string \<Rightarrow> 'a learning_db_scheme \<Rightarrow> 'a learning_db_scheme" where
  "recorded t old c l s = record_lesson t (en_startup_id old) (en_user_id old) (co_id c) l s"

definition replaced :: "enrollment \<Rightarrow> enrollment list \<Rightarrow> enrollment list" where
  "replaced row t = update_where (\<lambda>e. en_id e = en_id row) (\<lambda>_. row) t"

lemma recorded_done:
  assumes "finishing s old row c l"
  shows "lessons_done (lesson_rows (recorded t old c l s)) (en_startup_id old) (en_user_id old)
     = insert l (lessons_done (lesson_rows s) (en_startup_id old) (en_user_id old))"
  by (simp add: recorded_def record_lesson_rows(2) [OF learningD(3) [OF finishingD(1) [OF assms]]])

lemma old_ok:
  assumes "finishing s old row c l"
  shows "en_progress old = progress_in c (lessons_done (lesson_rows s) (en_startup_id old) (en_user_id old))"
    "en_completed_at old \<noteq> None \<longleftrightarrow> en_progress old = 100"
proof -
  obtain c' where c': "c' \<in> set all_courses" "en_course_id old = co_id c'"
      "en_progress old = progress_in c' (lessons_done (lesson_rows s) (en_startup_id old) (en_user_id old))"
      "en_completed_at old \<noteq> None \<longleftrightarrow> en_progress old = 100"
    using learningD(5) [OF finishingD(1,2) [OF assms]] by (auto simp: enrollment_ok_def)
  have "c' = c" by (rule same_course [OF c'(1) finishingD(3) [OF assms]]) (use c'(2) finishingD(5) [OF assms] in simp)
  then show "en_progress old = progress_in c (lessons_done (lesson_rows s) (en_startup_id old) (en_user_id old))"
    "en_completed_at old \<noteq> None \<longleftrightarrow> en_progress old = 100" using c' by simp_all
qed

lemma progress_grows: "finishing s old row c l \<Longrightarrow> en_progress old \<le> en_progress row"
  unfolding finishingD(8) old_ok(1) by (rule progress_in_mono [OF finishingD(3)]) auto

lemma new_row_ok:
  assumes f: "finishing s old row c l"
  shows "enrollment_ok (lesson_rows (recorded t old c l s)) row"
proof -
  have "en_completed_at row \<noteq> None \<longleftrightarrow> en_progress row = 100"
  proof (cases "en_completed_at old")
    case (Some x)
    then have "en_progress old = 100" using old_ok(2) [OF f] by simp
    moreover have "en_progress row \<le> 100"
      unfolding finishingD(8) [OF f] using progress_in_range [OF finishingD(3) [OF f]] by blast
    ultimately have "en_progress row = 100" using progress_grows [OF f] by simp
    then show ?thesis using finishingD(9) [OF f] Some by simp
  qed (use finishingD(10) [OF f] in blast)
  then show ?thesis
    using finishingD(3,5,7,8) [OF f] recorded_done [OF f, of t] by (auto simp: enrollment_ok_def en_key_def)
qed

lemma only_old:
  assumes "finishing s old row c l" "e \<in> set (enrollments s)" "en_id e = en_id old \<or> en_key e = en_key old"
  shows "e = old"
  using keyed_unique [OF learningD(1) _ finishingD(2)] distinct_mapD [OF learningD(2) _ finishingD(2)]
    finishingD(1) assms by blast

lemma in_replaced:
  assumes f: "finishing s old row c l"
  shows "e \<in> set (replaced row (enrollments s)) \<longleftrightarrow> e = row \<or> e \<in> set (enrollments s) \<and> e \<noteq> old"
proof
  assume "e \<in> set (replaced row (enrollments s))"
  then show "e = row \<or> e \<in> set (enrollments s) \<and> e \<noteq> old"
    using in_put [of e row "enrollments s"] finishingD(6) [OF f] by (auto simp: replaced_def)
next
  assume "e = row \<or> e \<in> set (enrollments s) \<and> e \<noteq> old"
  then show "e \<in> set (replaced row (enrollments s))"
    using only_old [OF f, of e] finishingD(2,6) [OF f] by (auto simp: replaced_def set_update_where image_iff)
qed

lemma replaced_enrollments_ok:
  assumes f: "finishing s old row c l" and e: "e \<in> set (replaced row (enrollments s))"
  shows "enrollment_ok (lesson_rows (recorded t old c l s)) e"
proof (cases "e = row")
  case False
  then have o: "e \<in> set (enrollments s)" "e \<noteq> old" using e in_replaced [OF f] by auto
  then have "en_key e \<noteq> (en_startup_id old, en_user_id old, co_id c)"
    using only_old [OF f o(1)] finishingD(5) [OF f] by (auto simp: en_key_def)
  then show ?thesis
    unfolding recorded_def by (rule record_other_ok [OF finishingD(1,3,4) [OF f] o(1)])
qed (simp add: new_row_ok [OF f])

lemma replaced_map:
  assumes f: "finishing s old row c l"
  shows "map en_key (replaced row (enrollments s)) = map en_key (enrollments s)"
    "map en_id (replaced row (enrollments s)) = map en_id (enrollments s)"
proof -
  have "(if en_id e = en_id row then row else e) = (if e = old then row else e)" if "e \<in> set (enrollments s)" for e
    using only_old [OF f that] finishingD(6) [OF f] by auto
  then have "replaced row (enrollments s) = map (\<lambda>e. if e = old then row else e) (enrollments s)"
    by (auto simp: replaced_def update_where_def)
  then show "map en_key (replaced row (enrollments s)) = map en_key (enrollments s)"
    "map en_id (replaced row (enrollments s)) = map en_id (enrollments s)"
    using finishingD(6,7) [OF f] by simp_all
qed

lemma replaced_lessons_ok:
  assumes f: "finishing s old row c l" and r: "r \<in> set (lesson_rows (recorded t old c l s))"
  shows "lesson_ok (replaced row (enrollments s)) r"
proof -
  have keys: "en_key ` set (replaced row (enrollments s)) = en_key ` set (enrollments s)"
    using arg_cong [OF replaced_map(1) [OF f], of set] by simp
  consider "r \<in> set (lesson_rows s)"
    | "lp_startup_id r = en_startup_id old" "lp_user_id r = en_user_id old" "lp_course_id r = co_id c" "lp_lesson_id r = l"
    using record_lesson_rows(5) [OF learningD(3) [OF finishingD(1) [OF f]] r [unfolded recorded_def]] by blast
  then show ?thesis
  proof cases
    case 1
    show ?thesis using learningD(6) [OF finishingD(1) [OF f] 1] unfolding lesson_ok_def keys .
  next
    case 2
    have "en_key old \<in> en_key ` set (enrollments s)" using finishingD(2) [OF f] by blast
    then show ?thesis
      unfolding lesson_ok_def keys using 2 finishingD(3-5) [OF f] by (auto simp: en_key_def intro!: bexI [of _ c])
  qed
qed

lemma replaced_finished:
  assumes f: "finishing s old row c l"
  shows "finished_keys (replaced row (enrollments s)) = (if en_completed_at row = None then finished_keys (enrollments s)
     else insert (en_key old) (finished_keys (enrollments s)))"
proof -
  let ?comp = "\<lambda>e. en_completed_at e \<noteq> None" and ?S = "set (enrollments s)"
  have o: "\<not> ?comp old" if "\<not> ?comp row"
    using finishingD(9) [OF f] that by (cases "en_completed_at old") simp_all
  have new: "{e \<in> set (replaced row (enrollments s)). ?comp e}
      = (if ?comp row then insert row else id) ({e \<in> ?S. ?comp e} - {old})"
    using in_replaced [OF f] by auto
  show ?thesis
  proof (cases "?comp row")
    case True
    have "insert (en_key old) (en_key ` ({e \<in> ?S. ?comp e} - {old})) = insert (en_key old) (en_key ` {e \<in> ?S. ?comp e})"
      by auto
    then show ?thesis using True finishingD(7) [OF f] by (simp add: finished_keys_def new del: not_None_eq)
  next
    case False
    then have "{e \<in> ?S. ?comp e} - {old} = {e \<in> ?S. ?comp e}" using o by auto
    then show ?thesis using False by (simp add: finished_keys_def new del: not_None_eq)
  qed
qed

lemma replaced_moves:
  assumes f: "finishing s old row c l"
  shows "moves en_id en_value advance_le (fresh s) (enrollments s) (replaced row (enrollments s))"
  unfolding replaced_def
proof (rule moves_update_same)
  fix e assume "e \<in> set (enrollments s)" "en_id e = en_id row"
  then have "e = old" using only_old [OF f] finishingD(6) [OF f] by auto
  then show "advance_le (en_value e) (en_value row)"
    using finishingD(7,9) [OF f] progress_grows [OF f]
    by (cases "en_completed_at old") (simp_all add: advance_le_def en_value_def recorded_le_def)
qed simp

section \<open>Certificates\<close>

lemma stamped_simps [simp]:
  "en_id (stamped t o' row) = en_id row" "en_key (stamped t o' row) = en_key row"
  "en_startup_id (stamped t o' row) = en_startup_id row" "en_user_id (stamped t o' row) = en_user_id row"
  "en_course_id (stamped t o' row) = en_course_id row"
  "en_progress (stamped t o' row) = en_progress row" "en_completed_at (stamped t o' row) = en_completed_at row"
  by (auto simp: stamped_def en_key_def)

text \<open>No handler of the bus listens to the completion of a course.\<close>

lemma publish_completed:
  "publish now ''learning.course.completed'' p s = s\<lparr>events := events s @ [(''learning.course.completed'', p)]\<rparr>"
proof -
  have "map_of specs ''learning.course.completed'' = None" by code_simp
  then show ?thesis by (simp add: publish_def handle_def)
qed

lemma issue_ok:
  assumes "issue_certificate now code w u k s = (Inr cert, s')"
  shows "ce_key cert = (w, u, k)" "(w, u, k) \<notin> ce_key ` set (certificates s)" "ce_credential_code cert = code"
    "certificates s' = certificates s @ [cert]" "enrollments s' = enrollments s" "lesson_rows s' = lesson_rows s"
    "told_courses s' = told_courses s @ [certificate_event cert]" "ordered_jobs s' = ordered_jobs s @ [certificate_job cert]"
    "fresh s \<le> fresh s'"
  using assms
  by (auto simp: issue_certificate_def Let_def enqueue_def publish_completed ce_key_def told_courses_def ordered_jobs_def
      new_job_def split: if_splits)

lemma put_enrollment_frame [simp]:
  "enrollments (put_enrollment row s) = replaced row (enrollments s)" "lesson_rows (put_enrollment row s) = lesson_rows s"
  "certificates (put_enrollment row s) = certificates s" "fresh (put_enrollment row s) = fresh s"
  "told_courses (put_enrollment row s) = told_courses s" "ordered_jobs (put_enrollment row s) = ordered_jobs s"
  by (simp_all add: put_enrollment_def replaced_def told_courses_def ordered_jobs_def)

lemma finish_cases:
  assumes inv: "learning_inv s" and e: "e \<in> set (enrollments s)" "en_key e = (w, u, co_id c)"
    and c: "c \<in> set all_courses" "l \<in> lesson_ids c"
    and ok: "finish_lesson now code w u c l (en_id e) s = (Inr (row, cert), s')"
  shows "finishing s e row c l"
    "cert = None \<Longrightarrow> s' = put_enrollment row (recorded now e c l s) \<and> en_completed_at row = en_completed_at e"
    "cert = Some x \<Longrightarrow> issue_certificate now code w u (co_id c) (put_enrollment row (recorded now e c l s)) = (Inr x, s')
       \<and> en_completed_at e = None \<and> en_completed_at row = Some now"
proof -
  have key: "en_startup_id e = w" "en_user_id e = u" "en_course_id e = co_id c" using e(2) by (simp_all add: en_key_def)
  have f: "find (\<lambda>x. en_id x = en_id e) (enrollments s) = Some e"
    by (rule find_key_unique [OF _ e(1)]) (use learningD(1) [OF inv] in \<open>simp add: keyed_def\<close>)
  let ?s1 = "recorded now e c l s" and ?p = "progress_in c (insert l (lessons_done (lesson_rows s) w u))"
  have s1: "record_lesson now w u (co_id c) l s = ?s1" by (simp add: recorded_def key)
  have "lessons_done (lesson_rows ?s1) w u = insert l (lessons_done (lesson_rows s) w u)"
    using record_lesson_rows(2) [OF learningD(3) [OF inv], of now w u "co_id c" l w u] unfolding s1 by simp
  then have p: "course_progress w u c ?s1 = ?p"
    using course_progress_done [OF record_lesson_rows(1) [OF learningD(3) [OF inv], of now w u "co_id c" l] c(1), of w u]
    unfolding s1 by simp
  have r: "cert = None \<and> row = stamped now e (e\<lparr>en_progress := ?p\<rparr>) \<and> s' = put_enrollment row ?s1
        \<and> \<not> (?p = 100 \<and> en_completed_at e = None)
    \<or> (\<exists>x. cert = Some x \<and> row = stamped now e (e\<lparr>en_progress := ?p, en_completed_at := Some now\<rparr>)
        \<and> issue_certificate now code w u (co_id c) (put_enrollment row ?s1) = (Inr x, s') \<and> ?p = 100 \<and> en_completed_at e = None)"
    using ok unfolding finish_lesson_def f s1 p by (auto simp: p Let_def split: if_splits prod.splits sum.splits)
  then show "cert = None \<Longrightarrow> s' = put_enrollment row ?s1 \<and> en_completed_at row = en_completed_at e"
    "cert = Some x \<Longrightarrow> issue_certificate now code w u (co_id c) (put_enrollment row ?s1) = (Inr x, s')
       \<and> en_completed_at e = None \<and> en_completed_at row = Some now" by auto
  show "finishing s e row c l"
    using inv e c key r by (auto simp: finishing_def en_key_def)
qed

lemma finish_ok:
  assumes inv: "learning_inv s" and e: "e \<in> set (enrollments s)" "en_key e = (w, u, co_id c)"
    and c: "c \<in> set all_courses" "l \<in> lesson_ids c"
    and ok: "finish_lesson now code w u c l (en_id e) s = (Inr (row, cert), s')"
  shows "learns s s'"
proof -
  note f = finish_cases(1) [OF assms] and none = finish_cases(2) [OF assms] and some = finish_cases(3) [OF assms]
  let ?s1 = "recorded now e c l s"
  note rows = record_lesson_rows(1,3,4) [OF learningD(3) [OF inv], of now "en_startup_id e" "en_user_id e" "co_id c" l, folded recorded_def]
  have frame: "enrollments ?s1 = enrollments s" "certificates ?s1 = certificates s" "told_courses ?s1 = told_courses s"
    "ordered_jobs ?s1 = ordered_jobs s" by (simp_all add: recorded_def)
  have keyed: "keyed (fresh ?s1) en_id (replaced row (enrollments s))"
    using learningD(1) [OF inv] rows(3) unfolding keyed_def replaced_map [OF f] by (auto intro: ids_below_mono)
  have base: "learning_inv s'" if "fresh ?s1 \<le> fresh s'" "enrollments s' = replaced row (enrollments s)"
      "lesson_rows s' = lesson_rows ?s1" "distinct (map ce_key (certificates s'))"
      "ce_key ` set (certificates s') = finished_keys (enrollments s')" "told_courses s' = map certificate_event (certificates s')"
      "ordered_jobs s' = map certificate_job (certificates s')"
    using that keyed_mono [OF keyed that(1)] learningD(2) [OF inv] rows(1) replaced_enrollments_ok [OF f] replaced_lessons_ok [OF f]
    unfolding learning_inv_def by (simp add: replaced_map [OF f])
  note fin = replaced_finished [OF f] and old = learningD(4,7,8,9) [OF inv]
  show ?thesis
  proof (cases cert)
    case None
    note s' = none [OF None]
    have "finished_keys (replaced row (enrollments s)) = finished_keys (enrollments s)"
      unfolding fin using s' e(1) finishingD(7) [OF f] by (auto simp: finished_keys_def)
    then have "learning_inv s'"
      by (intro base) (use s' old in \<open>simp_all add: frame\<close>)
    then show ?thesis using s' replaced_moves [OF f] rows(2,3) by (simp add: learns_def frame)
  next
    case (Some x)
    note s' = some [OF Some] and i = issue_ok [OF conjunct1 [OF some [OF Some]]]
    have "finished_keys (replaced row (enrollments s)) = insert (w, u, co_id c) (finished_keys (enrollments s))"
      unfolding fin using s' e(2) by simp
    then have "learning_inv s'"
      by (intro base) (use i old in \<open>simp_all add: frame\<close>)
    then show ?thesis using i replaced_moves [OF f] rows(2,3) by (auto simp: learns_def frame)
  qed
qed

end
