(* ===== verification/Learning_Facts.thy ===== *)
theory Learning_Facts
  imports Learning_Inv
begin

text \<open>
  Completing a lesson on every branch, the requests and the histories of the learning academy, and what
  holds along them.
\<close>

section \<open>One completion\<close>

definition code_free :: "string \<Rightarrow> 'a learning_db_scheme \<Rightarrow> bool" where
  "code_free code s \<longleftrightarrow> code \<notin> ce_credential_code ` set (certificates s)"

lemma enroll_total:
  "c \<in> set all_courses \<Longrightarrow> \<exists>e b s1. get_or_create_enrollment now w u (co_id c) s = (Inr (e, b), s1)"
  by (cases "find_enrollment w u (co_id c) s") (force simp: get_or_create_enrollment_def Let_def)+

lemma issue_total:
  assumes "code_free code s" "(w, u, k) \<notin> ce_key ` set (certificates s)"
  shows "\<exists>x s'. issue_certificate now code w u k s = (Inr x, s')"
proof -
  have "\<not> (\<exists>c \<in> set (certificates s). ce_credential_code c = code
      \<or> ce_startup_id c = w \<and> ce_user_id c = u \<and> ce_course_id c = k)"
    using assms by (auto simp: code_free_def ce_key_def image_iff)
  then show ?thesis by (simp add: issue_certificate_def Let_def case_prod_unfold)
qed

lemma finish_total:
  assumes inv: "learning_inv s" and e: "e \<in> set (enrollments s)" "en_key e = (w, u, co_id c)" and code: "code_free code s"
  shows "\<exists>row cert s'. finish_lesson now code w u c l (en_id e) s = (Inr (row, cert), s')"
proof -
  have f: "find (\<lambda>x. en_id x = en_id e) (enrollments s) = Some e"
    by (rule find_key_unique [OF _ e(1)]) (use learningD(1) [OF inv] in \<open>simp add: keyed_def\<close>)
  have new: "(w, u, co_id c) \<notin> ce_key ` set (certificates s)" if open_row: "en_completed_at e = None"
  proof
    assume "(w, u, co_id c) \<in> ce_key ` set (certificates s)"
    then have "en_key e \<in> finished_keys (enrollments s)" by (simp add: learningD(7) [OF inv] e(2))
    then obtain e' where e': "e' \<in> set (enrollments s)" "en_completed_at e' \<noteq> None" "en_key e = en_key e'"
      unfolding finished_keys_def by blast
    then show False using distinct_mapD [OF learningD(2) [OF inv] e(1) e'(1)] open_row by simp
  qed
  have i: "\<exists>x s'. issue_certificate now code w u (co_id c) (put_enrollment row (record_lesson now w u (co_id c) l s)) = (Inr x, s')"
    if open_row: "en_completed_at e = None" for row
    by (rule issue_total) (use code new [OF open_row] in \<open>simp_all add: code_free_def\<close>)
  let ?p = "course_progress w u c (record_lesson now w u (co_id c) l s)"
  show ?thesis
  proof (cases "?p = 100 \<and> en_completed_at e = None")
    case True
    obtain x s' where "issue_certificate now code w u (co_id c) (put_enrollment
        (stamped now e (e\<lparr>en_progress := ?p, en_completed_at := Some now\<rparr>)) (record_lesson now w u (co_id c) l s)) = (Inr x, s')"
      using i True by blast
    then show ?thesis using True by (simp add: finish_lesson_def f Let_def)
  qed (auto simp: finish_lesson_def f Let_def)
qed

lemma complete_total:
  assumes inv: "learning_inv s" and c: "c \<in> set all_courses" "k \<in> lesson_ids c" and code: "code_free code s"
  obtains e b s1 row cert s' where "get_or_create_enrollment now w u (co_id c) s = (Inr (e, b), s1)"
    "finish_lesson now code w u c k (en_id e) s1 = (Inr (row, cert), s')"
    "complete_lesson now code w u k s = (Inr (row, cert), s')"
proof -
  obtain l where l: "get_lesson k = Inr (c, l)" using c by (auto simp: lesson_ids_def get_lesson_ok)
  obtain e b s1 where g: "get_or_create_enrollment now w u (co_id c) s = (Inr (e, b), s1)" using enroll_total [OF c(1)] by blast
  note ok = enroll_ok [OF inv g]
  have "code_free code s1" using code ok(5) by (simp add: code_free_def)
  then obtain row cert s' where f: "finish_lesson now code w u c k (en_id e) s1 = (Inr (row, cert), s')"
    using finish_total [OF learns_inv [OF ok(1)] ok(2,3)] by blast
  have "complete_lesson now code w u k s = (Inr (row, cert), s')" using l g f by (simp add: complete_lesson_def)
  then show thesis by (rule that [OF g f])
qed

lemma complete_ok:
  assumes "complete_lesson now code w u k s = (Inr (row, cert), s')"
  obtains c e b s1 where "c \<in> set all_courses" "k \<in> lesson_ids c"
    "get_or_create_enrollment now w u (co_id c) s = (Inr (e, b), s1)"
    "finish_lesson now code w u c k (en_id e) s1 = (Inr (row, cert), s')"
proof (cases "get_lesson k")
  case (Inr x)
  obtain c l where x: "x = (c, l)" by (cases x)
  have c: "c \<in> set all_courses" "k \<in> lesson_ids c" using Inr x by (auto simp: lesson_ids_def get_lesson_ok)
  obtain e b s1 where g: "get_or_create_enrollment now w u (co_id c) s = (Inr (e, b), s1)" using enroll_total [OF c(1)] by blast
  have "finish_lesson now code w u c k (en_id e) s1 = (Inr (row, cert), s')"
    using assms Inr x g by (simp add: complete_lesson_def)
  then show thesis by (rule that [OF c g])
qed (use assms in \<open>simp add: complete_lesson_def\<close>)

text \<open>What a completion does to the lessons, the enrolment and the certificates.\<close>

lemma complete_effect:
  assumes inv: "learning_inv s" and c: "c \<in> set all_courses" "k \<in> lesson_ids c"
    and ok: "complete_lesson now code w u k s = (Inr (row, cert), s')"
  shows "learns s s'" "row \<in> set (enrollments s')" "en_key row = (w, u, co_id c)"
    "lessons_done (lesson_rows s') w' u' = lessons_done (lesson_rows s) w' u' \<union> (if w' = w \<and> u' = u then {k} else {})"
    "cert \<noteq> None \<longleftrightarrow> lesson_ids c \<subseteq> insert k (lessons_done (lesson_rows s) w u) \<and> \<not> lesson_ids c \<subseteq> lessons_done (lesson_rows s) w u"
    "certificates s' = certificates s @ (case cert of None \<Rightarrow> [] | Some x \<Rightarrow> [x])"
    "cert = Some x \<Longrightarrow> ce_credential_code x = code \<and> ce_key x = (w, u, co_id c)"
proof -
  obtain c' e b s1 where g: "c' \<in> set all_courses" "k \<in> lesson_ids c'"
      "get_or_create_enrollment now w u (co_id c') s = (Inr (e, b), s1)"
      "finish_lesson now code w u c' k (en_id e) s1 = (Inr (row, cert), s')" by (rule complete_ok [OF ok])
  have [simp]: "c' = c" by (rule course_of_lesson [OF g(1) c(1) g(2) c(2)])
  note e = enroll_ok [OF inv g(3)]
  note inv1 = learns_inv [OF e(1)]
  note fin = finish_cases [OF inv1 e(2,3) g(1,2,4)]
  note f = fin(1) [simplified]
  show "learns s s'" by (rule learns_trans [OF e(1) finish_ok [OF inv1 e(2,3) g(1,2,4)]])
  have key: "en_startup_id e = w" "en_user_id e = u" using e(3) by (simp_all add: en_key_def)
  let ?s1 = "recorded now e c k s1"
  have rows: "lesson_rows s' = lesson_rows ?s1" and ens: "enrollments s' = replaced row (enrollments s1)"
    using fin(2) issue_ok(5,6) [OF conjunct1 [OF fin(3)]] by (cases cert; force simp: recorded_def)+
  show "row \<in> set (enrollments s')" using in_replaced [OF f] by (simp add: ens)
  show "en_key row = (w, u, co_id c)" using finishingD(7) [OF f] e(3) by simp
  show "lessons_done (lesson_rows s') w' u' = lessons_done (lesson_rows s) w' u' \<union> (if w' = w \<and> u' = u then {k} else {})"
    unfolding rows recorded_def key record_lesson_rows(2) [OF learningD(3) [OF inv1]] e(6) by simp
  show "certificates s' = certificates s @ (case cert of None \<Rightarrow> [] | Some x \<Rightarrow> [x])"
    using fin(2) issue_ok(4) [OF conjunct1 [OF fin(3)]] e(5) by (cases cert; force simp: recorded_def)
  show "ce_credential_code x = code \<and> ce_key x = (w, u, co_id c)" if "cert = Some x"
    using issue_ok(1,3) [OF conjunct1 [OF fin(3) [OF that]]] by simp
  have old: "en_completed_at e \<noteq> None \<longleftrightarrow> lesson_ids c \<subseteq> lessons_done (lesson_rows s) w u"
    unfolding old_ok(2) [OF f] old_ok(1) [OF f] progress_in_full [OF c(1)] key e(6) ..
  have new: "en_progress row = 100 \<longleftrightarrow> lesson_ids c \<subseteq> insert k (lessons_done (lesson_rows s) w u)"
    unfolding finishingD(8) [OF f] progress_in_full [OF c(1)] key e(6) ..
  show "cert \<noteq> None \<longleftrightarrow> lesson_ids c \<subseteq> insert k (lessons_done (lesson_rows s) w u) \<and> \<not> lesson_ids c \<subseteq> lessons_done (lesson_rows s) w u"
  proof (cases cert)
    case None
    then show ?thesis using fin(2) finishingD(10) [OF f] old new by auto
  next
    case (Some x)
    then show ?thesis using fin(3) [OF Some] finishingD(10) [OF f] old new by auto
  qed
qed

text \<open>A repeated completion changes nothing.\<close>

lemma complete_again:
  assumes inv: "learning_inv s" and c: "c \<in> set all_courses" "k \<in> lesson_ids c"
    and again: "k \<in> lessons_done (lesson_rows s) w u"
  shows "\<exists>row \<in> set (enrollments s). complete_lesson now code w u k s = (Inr (row, None), s)"
proof -
  obtain l where l: "get_lesson k = Inr (c, l)" using c by (auto simp: lesson_ids_def get_lesson_ok)
  obtain r where r: "r \<in> set (lesson_rows s)" "lp_key r = (w, u, k)" using again by (auto simp: lessons_done_def)
  have "(w, u, co_id c) \<in> en_key ` set (enrollments s)"
    using nothing_done [OF inv c(1)] c(2) again by blast
  then obtain e where e: "e \<in> set (enrollments s)" "en_key e = (w, u, co_id c)" by auto
  have "find_enrollment w u (co_id c) s = Some e"
    unfolding find_enrollment_key using find_key_unique [OF learningD(2) [OF inv] e(1)] e(2) by simp
  then have g: "get_or_create_enrollment now w u (co_id c) s = (Inr (e, False), s)"
    using c(1) by (simp add: get_or_create_enrollment_def)
  have same: "record_lesson now w u (co_id c) k s = s"
    using r by (auto simp: record_lesson_def lp_key_def)
  have f: "find (\<lambda>x. en_id x = en_id e) (enrollments s) = Some e"
    by (rule find_key_unique [OF _ e(1)]) (use learningD(1) [OF inv] in \<open>simp add: keyed_def\<close>)
  obtain c' where c': "c' \<in> set all_courses" "en_course_id e = co_id c'"
      "en_progress e = progress_in c' (lessons_done (lesson_rows s) (en_startup_id e) (en_user_id e))"
      "en_completed_at e \<noteq> None \<longleftrightarrow> en_progress e = 100"
    using learningD(5) [OF inv e(1)] by (auto simp: enrollment_ok_def)
  have "c' = c" by (rule same_course [OF c'(1) c(1)]) (use c'(2) e(2) in \<open>simp add: en_key_def\<close>)
  then have p: "course_progress w u c s = en_progress e"
    using course_progress_done [OF learningD(3) [OF inv] c(1), of w u] c'(3) e(2) by (simp add: en_key_def)
  have row: "e\<lparr>en_progress := course_progress w u c s\<rparr> = e" by (simp add: p)
  have "put_enrollment e s = s"
    using update_where_id [of "enrollments s" "\<lambda>x. en_id x = en_id e" "\<lambda>_. e"] keyed_unique [OF learningD(1) [OF inv] e(1)]
    by (simp add: put_enrollment_def)
  then have "finish_lesson now code w u c k (en_id e) s = (Inr (e, None), s)"
    using c'(4) by (auto simp: finish_lesson_def f same Let_def p row stamped_def)
  then show ?thesis using e(1) l g by (auto simp: complete_lesson_def)
qed

text \<open>
  The histories of the learning academy and what holds along them: one certificate for each finished
  course, whatever the order of the lessons and the interleaving of the requests.
\<close>

section \<open>Requests\<close>

datatype learning_request =
    Enroll_in string
  | Finish string string json

record learning_call =
  lq_credential :: "string option"
  lq_workspace :: uid
  lq_now :: instant
  lq_request :: learning_request

fun learning_body ::
    "instant \<Rightarrow> learning_request \<Rightarrow> user \<Rightarrow> membership \<Rightarrow> 'a learning_db_scheme \<Rightarrow> unit result \<times> 'a learning_db_scheme" where
  "learning_body now (Enroll_in k) u m s = map_prod ignore id (create_enrollment now k m s)"
| "learning_body now (Finish code k b) u m s = map_prod ignore id (update_lesson_progress now code k b m s)"

definition serve_learning ::
    "(string \<Rightarrow> json option) \<Rightarrow> learning_call \<Rightarrow> 'a learning_db_scheme \<Rightarrow> unit result \<times> 'a learning_db_scheme" where
  "serve_learning decode q s =
     member_request decode (lq_credential q) (lq_workspace q) academy (learning_body (lq_now q) (lq_request q)) s"

lemma run_tx_learns:
  assumes "learning_inv s" "\<And>v s'. f s = (Inr v, s') \<Longrightarrow> learns s s'"
  shows "learns s (snd (run_tx f s))"
  using assms learns_refl [OF assms(1)] by (cases "f s"; cases "fst (f s)") (auto simp: run_tx_def)

lemma complete_learns: "learning_inv s \<Longrightarrow> complete_lesson now code w u k s = (Inr v, s') \<Longrightarrow> learns s s'"
proof -
  assume inv: "learning_inv s" and ok: "complete_lesson now code w u k s = (Inr v, s')"
  obtain row cert where v: "v = (row, cert)" by (cases v)
  obtain c e b s1 where "c \<in> set all_courses" "k \<in> lesson_ids c" by (rule complete_ok [OF ok [unfolded v]])
  then show ?thesis by (rule complete_effect(1) [OF inv _ _ ok [unfolded v]])
qed

lemma learning_body_learns: "learning_inv s \<Longrightarrow> learns s (snd (learning_body now q u m s))"
proof (cases q)
  case (Enroll_in k)
  assume inv: "learning_inv s"
  have "learns s (snd (create_enrollment now k m s))"
    unfolding create_enrollment_def by (rule run_tx_learns [OF inv]) (auto dest: enroll_ok(1) [OF inv])
  then show ?thesis using Enroll_in by simp
next
  case (Finish code k b)
  assume inv: "learning_inv s"
  have "learns s (snd (run_tx (complete_lesson now code (m_startup_id m) (m_user_id m) k) s))"
    by (rule run_tx_learns [OF inv complete_learns [OF inv]])
  then show ?thesis using Finish learns_refl [OF inv] by (simp add: update_lesson_progress_def)
qed

lemma serve_learning_learns:
  assumes "learning_inv s"
  shows "learns s (snd (serve_learning decode q s))"
  unfolding serve_learning_def
  by (cases rule: member_request_caller [of decode "lq_credential q" "lq_workspace q" academy
        "learning_body (lq_now q) (lq_request q)" s])
    (simp_all add: learning_body_learns [OF assms] learns_refl [OF assms])

section \<open>Histories\<close>

text \<open>
  A request; a completion that waited for the lock of an enrolment it read before, while other steps came
  between (\<open>resumed\<close>); and \<open>elsewhere\<close>, the rest of the application, which writes none of these tables and
  neither the event nor the job of the academy.
\<close>

inductive learning_step :: "(string \<Rightarrow> json option) \<Rightarrow> 'a learning_db_scheme \<Rightarrow> 'a learning_db_scheme \<Rightarrow> bool"
  for decode :: "string \<Rightarrow> json option" where
  request: "learning_step decode s (snd (serve_learning decode q s))"
| resumed: "e \<in> set (enrollments s) \<Longrightarrow> en_key e = (w, u, co_id c) \<Longrightarrow> c \<in> set all_courses \<Longrightarrow> k \<in> lesson_ids c
    \<Longrightarrow> learning_step decode s (snd (run_tx (finish_lesson now code w u c k (en_id e)) s))"
| elsewhere: "fresh s \<le> fresh s' \<Longrightarrow> enrollments s' = enrollments s \<Longrightarrow> lesson_rows s' = lesson_rows s
    \<Longrightarrow> certificates s' = certificates s \<Longrightarrow> told_courses s' = told_courses s \<Longrightarrow> ordered_jobs s' = ordered_jobs s
    \<Longrightarrow> learning_step decode s s'"

lemma learning_step_learns:
  assumes step: "learning_step decode s s'" and inv: "learning_inv s"
  shows "learns s s'"
  using step
proof (cases rule: learning_step.cases)
  case (request q)
  then show ?thesis by (simp add: serve_learning_learns [OF inv])
next
  case (resumed e w u c k now code)
  have "learns s t" if "finish_lesson now code w u c k (en_id e) s = (Inr v, t)" for v t
    using finish_ok [OF inv resumed(2-5)] that by (cases v) auto
  then show ?thesis unfolding resumed(1) by (rule run_tx_learns [OF inv])
next
  case elsewhere
  then show ?thesis by (intro learns_frame [OF inv])
qed

definition learning_reachable :: "(string \<Rightarrow> json option) \<Rightarrow> 'a learning_db_scheme \<Rightarrow> bool" where
  "learning_reachable decode s \<longleftrightarrow> (\<exists>s0. enrollments s0 = [] \<and> lesson_rows s0 = [] \<and> certificates s0 = []
     \<and> told_courses s0 = [] \<and> ordered_jobs s0 = [] \<and> (learning_step decode)\<^sup>*\<^sup>* s0 s)"

lemma learning_steps_learns: "(learning_step decode)\<^sup>*\<^sup>* s s' \<Longrightarrow> learning_inv s \<Longrightarrow> learns s s'"
proof (induction rule: rtranclp_induct)
  case base
  then show ?case by (rule learns_refl)
next
  case (step y z)
  then show ?case using learning_step_learns learns_inv learns_trans by blast
qed

lemma learning_reachable_inv: "learning_reachable decode s \<Longrightarrow> learning_inv s"
proof -
  assume "learning_reachable decode s"
  then obtain s0 where s0: "enrollments s0 = []" "lesson_rows s0 = []" "certificates s0 = []" "told_courses s0 = []"
      "ordered_jobs s0 = []" "(learning_step decode)\<^sup>*\<^sup>* s0 s" by (auto simp: learning_reachable_def)
  have "learning_inv s0" using s0(1-5) by (simp add: learning_inv_def keyed_def finished_keys_def)
  then show ?thesis using learning_steps_learns [OF s0(6)] learns_inv by blast
qed

interpretation learners: monotone_rows "\<lambda>s. row_value en_id en_value (enrollments s)" advance_le "\<lambda>s k. k < fresh s"
    learning_inv "learning_step decode" for decode
proof
  fix s s' :: "'a learning_db_scheme" and k v v'
  assume inv: "learning_inv s"
  have below: "row_value en_id en_value (enrollments s) k = Some v \<Longrightarrow> k < fresh s" for v
    using learningD(1) [OF inv] by (auto simp: keyed_def row_value_def ids_below_def dest: find_SomeD)
  then show "row_value en_id en_value (enrollments s) k = Some v \<Longrightarrow> k < fresh s" by blast
  assume step: "learning_step decode s s'"
  note l = learning_step_learns [OF step inv]
  then have m: "moves en_id en_value advance_le (fresh s) (enrollments s) (enrollments s')" by (simp add: learns_def)
  show "learning_inv s'" by (rule learns_inv [OF l])
  show "k < fresh s \<Longrightarrow> k < fresh s'" using l by (simp add: learns_def)
  show "advance_le v v'" if "row_value en_id en_value (enrollments s) k = Some v"
    "row_value en_id en_value (enrollments s') k = Some v'"
    by (rule movesD(1) [OF m below [OF that(1)] that])
  show "row_value en_id en_value (enrollments s') k = None"
    if "k < fresh s" "row_value en_id en_value (enrollments s) k = None"
    by (rule movesD(2) [OF m that])
qed (simp, rule advance_le_trans)

lemma enrollment_row: "learning_inv s \<Longrightarrow> e \<in> set (enrollments s) \<Longrightarrow> row_value en_id en_value (enrollments s) (en_id e) = Some (en_value e)"
  by (rule row_value_row) (use learningD(1) [of s] in \<open>simp_all add: keyed_def\<close>)

section \<open>The tables\<close>

lemma finished_iff:
  assumes inv: "learning_inv s" and e: "e \<in> set (enrollments s)"
  shows "en_completed_at e \<noteq> None \<longleftrightarrow> en_key e \<in> ce_key ` set (certificates s)"
proof
  assume "en_completed_at e \<noteq> None"
  then show "en_key e \<in> ce_key ` set (certificates s)"
    unfolding learningD(7) [OF inv] finished_keys_def using e by blast
next
  assume "en_key e \<in> ce_key ` set (certificates s)"
  then obtain e' where e': "e' \<in> set (enrollments s)" "en_completed_at e' \<noteq> None" "en_key e = en_key e'"
    unfolding learningD(7) [OF inv] finished_keys_def by blast
  then show "en_completed_at e \<noteq> None" using distinct_mapD [OF learningD(2) [OF inv] e e'(1)] by simp
qed

lemma done_iff: "k \<in> lessons_done rows w u \<longleftrightarrow> (\<exists>r \<in> set rows. lp_startup_id r = w \<and> lp_user_id r = u \<and> lp_lesson_id r = k)"
  by (auto simp: lessons_done_def lp_key_def image_iff)

lemma completed_lessons:
  assumes inv: "learning_inv s" and e: "e \<in> set (enrollments s)"
  obtains c where "c \<in> set all_courses" "en_course_id e = co_id c"
    "en_progress e = course_progress (en_startup_id e) (en_user_id e) c s"
    "en_completed_at e \<noteq> None \<longleftrightarrow> (\<forall>l \<in> set (co_lessons c). \<exists>r \<in> set (lesson_rows s).
       lp_startup_id r = en_startup_id e \<and> lp_user_id r = en_user_id e \<and> lp_lesson_id r = le_id l)"
proof -
  obtain c where c: "c \<in> set all_courses" "en_course_id e = co_id c"
      "en_progress e = progress_in c (lessons_done (lesson_rows s) (en_startup_id e) (en_user_id e))"
      "en_completed_at e \<noteq> None \<longleftrightarrow> en_progress e = 100"
    using learningD(5) [OF inv e] by (auto simp: enrollment_ok_def)
  have "en_completed_at e \<noteq> None \<longleftrightarrow> lesson_ids c \<subseteq> lessons_done (lesson_rows s) (en_startup_id e) (en_user_id e)"
    unfolding c(4) c(3) by (rule progress_in_full [OF c(1)])
  then have lessons: "en_completed_at e \<noteq> None \<longleftrightarrow> (\<forall>l \<in> set (co_lessons c). \<exists>r \<in> set (lesson_rows s).
       lp_startup_id r = en_startup_id e \<and> lp_user_id r = en_user_id e \<and> lp_lesson_id r = le_id l)"
    by (simp only: lesson_ids_def image_subset_iff done_iff)
  have "en_progress e = course_progress (en_startup_id e) (en_user_id e) c s"
    by (simp add: c(3) course_progress_done [OF learningD(3) [OF inv] c(1)])
  then show thesis by (rule that [OF c(1,2) _ lessons])
qed

text \<open>
  C34: along every history, completions that waited for each other's lock included, a member has one
  enrolment in a course, which shows the rounded share of its lessons that are done; it is completed
  exactly when all of them are, and exactly then there is one certificate, announced once and sent once to
  the worker. Progress never falls, and neither a completion nor a certificate is ever taken back.
\<close>

theorem learning_histories:
  assumes "learning_reachable decode s" "(learning_step decode)\<^sup>*\<^sup>* s s'"
  shows "distinct (map (\<lambda>e. (en_startup_id e, en_user_id e, en_course_id e)) (enrollments s))
    \<and> distinct (map (\<lambda>x. (ce_startup_id x, ce_user_id x, ce_course_id x)) (certificates s))
    \<and> (\<forall>e \<in> set (enrollments s). \<exists>c \<in> set all_courses. en_course_id e = co_id c
        \<and> en_progress e = course_progress (en_startup_id e) (en_user_id e) c s
        \<and> (en_completed_at e \<noteq> None \<longleftrightarrow> (\<forall>l \<in> set (co_lessons c). \<exists>r \<in> set (lesson_rows s).
             lp_startup_id r = en_startup_id e \<and> lp_user_id r = en_user_id e \<and> lp_lesson_id r = le_id l))
        \<and> (en_completed_at e \<noteq> None \<longleftrightarrow> (en_startup_id e, en_user_id e, en_course_id e)
             \<in> (\<lambda>x. (ce_startup_id x, ce_user_id x, ce_course_id x)) ` set (certificates s)))
    \<and> map snd (filter (\<lambda>x. fst x = ''learning.course.completed'') (events s)) = map certificate_event (certificates s)
    \<and> map j_payload (filter (\<lambda>j. j_type j = ''learning.certificate.generate'') (jobs s)) = map certificate_job (certificates s)
    \<and> (\<forall>e \<in> set (enrollments s). \<forall>e' \<in> set (enrollments s'). en_id e' = en_id e \<longrightarrow>
        en_progress e \<le> en_progress e' \<and> (en_completed_at e \<noteq> None \<longrightarrow> en_completed_at e' = en_completed_at e))
    \<and> set (certificates s) \<subseteq> set (certificates s')"
proof -
  note inv = learning_reachable_inv [OF assms(1)]
  note l = learning_steps_learns [OF assms(2) inv]
  have row: "\<exists>c \<in> set all_courses. en_course_id e = co_id c
      \<and> en_progress e = course_progress (en_startup_id e) (en_user_id e) c s
      \<and> (en_completed_at e \<noteq> None \<longleftrightarrow> (\<forall>l \<in> set (co_lessons c). \<exists>r \<in> set (lesson_rows s).
           lp_startup_id r = en_startup_id e \<and> lp_user_id r = en_user_id e \<and> lp_lesson_id r = le_id l))
      \<and> (en_completed_at e \<noteq> None \<longleftrightarrow> en_key e \<in> ce_key ` set (certificates s))" if e: "e \<in> set (enrollments s)" for e
    by (rule completed_lessons [OF inv e]) (use finished_iff [OF inv e] in blast)
  have moved: "en_progress e \<le> en_progress e' \<and> (en_completed_at e \<noteq> None \<longrightarrow> en_completed_at e' = en_completed_at e)"
    if "e \<in> set (enrollments s)" "e' \<in> set (enrollments s')" "en_id e' = en_id e" for e e'
  proof -
    have "row_value en_id en_value (enrollments s') (en_id e) = Some (en_value e')"
      using enrollment_row [OF learns_inv [OF l] that(2)] that(3) by simp
    from learners.view_steps [OF assms(2) inv enrollment_row [OF inv that(1)] this] show ?thesis
      by (auto simp: advance_le_def en_value_def recorded_le_def)
  qed
  have certs: "set (certificates s) \<subseteq> set (certificates s')" using l by (simp add: learns_def)
  show ?thesis
    unfolding en_key_def [symmetric] ce_key_def [symmetric] told_courses_def [symmetric] ordered_jobs_def [symmetric]
    by (intro conjI ballI impI learningD(2,4,8,9) [OF inv] certs row) (use moved in blast)+
qed

section \<open>Finishing a course\<close>

text \<open>A member who completes lessons one after the other, each with the code drawn for it.\<close>

fun complete_all ::
    "(instant \<times> string \<times> string) list \<Rightarrow> membership \<Rightarrow> 'a learning_db_scheme
     \<Rightarrow> (enrollment \<times> certificate option) result list \<times> 'a learning_db_scheme" where
  "complete_all [] m s = ([], s)"
| "complete_all ((now, code, k) # qs) m s =
     (case update_lesson_progress now code k (JBool True) m s of
        (r, s1) \<Rightarrow> (case complete_all qs m s1 of (rs, s2) \<Rightarrow> (r # rs, s2)))"

definition issued :: "(enrollment \<times> certificate option) result \<Rightarrow> bool" where
  "issued r = (case r of Inl _ \<Rightarrow> False | Inr (_, cert) \<Rightarrow> cert \<noteq> None)"

lemma update_lesson_effect:
  assumes inv: "learning_inv s" and c: "c \<in> set all_courses" "k \<in> lesson_ids c" and code: "code_free code s"
  obtains row cert s' where "update_lesson_progress now code k (JBool True) m s = (Inr (row, cert), s')"
    "complete_lesson now code (m_startup_id m) (m_user_id m) k s = (Inr (row, cert), s')"
proof -
  obtain row cert s' where "complete_lesson now code (m_startup_id m) (m_user_id m) k s = (Inr (row, cert), s')"
    by (rule complete_total [OF inv c code])
  then show thesis by (intro that) (simp_all add: update_lesson_progress_def run_tx_def)
qed

lemma complete_all_effect:
  assumes "learning_inv s" "c \<in> set all_courses" "set (map (snd \<circ> snd) qs) \<subseteq> lesson_ids c"
    "distinct (map (fst \<circ> snd) qs)" "\<forall>q \<in> set qs. code_free (fst (snd q)) s" "complete_all qs m s = (rs, s')"
  shows "learning_inv s' \<and> (\<forall>r \<in> set rs. is_ok r)
    \<and> lessons_done (lesson_rows s') (m_startup_id m) (m_user_id m)
        = lessons_done (lesson_rows s) (m_startup_id m) (m_user_id m) \<union> set (map (snd \<circ> snd) qs)
    \<and> length (filter issued rs) = (if lesson_ids c \<subseteq> lessons_done (lesson_rows s) (m_startup_id m) (m_user_id m) then 0
        else if lesson_ids c \<subseteq> lessons_done (lesson_rows s) (m_startup_id m) (m_user_id m) \<union> set (map (snd \<circ> snd) qs) then 1 else 0)"
  using assms
proof (induction qs arbitrary: s rs)
  case Nil
  then show ?case by auto
next
  case (Cons q qs)
  obtain now code k where q: "q = (now, code, k)" by (cases q)
  have k: "k \<in> lesson_ids c" and code: "code_free code s" using Cons.prems(3,5) by (simp_all add: q)
  obtain row cert s1 where r: "update_lesson_progress now code k (JBool True) m s = (Inr (row, cert), s1)"
      "complete_lesson now code (m_startup_id m) (m_user_id m) k s = (Inr (row, cert), s1)"
    by (rule update_lesson_effect [OF Cons.prems(1,2) k code])
  note eff = complete_effect [OF Cons.prems(1,2) k r(2)]
  obtain rs1 where rest: "complete_all qs m s1 = (rs1, s')" "rs = Inr (row, cert) # rs1"
    using Cons.prems(6) by (auto simp: q r(1) split: prod.splits)
  have "\<forall>q \<in> set qs. code_free (fst (snd q)) s1"
    using Cons.prems(4,5) eff(6,7) by (cases cert) (auto simp: code_free_def q image_iff)
  moreover have "distinct (map (fst \<circ> snd) qs)" "set (map (snd \<circ> snd) qs) \<subseteq> lesson_ids c"
    using Cons.prems(3,4) by (simp_all add: q comp_def)
  ultimately have ih: "learning_inv s' \<and> (\<forall>r \<in> set rs1. is_ok r)
    \<and> lessons_done (lesson_rows s') (m_startup_id m) (m_user_id m)
        = lessons_done (lesson_rows s1) (m_startup_id m) (m_user_id m) \<union> set (map (snd \<circ> snd) qs)
    \<and> length (filter issued rs1) = (if lesson_ids c \<subseteq> lessons_done (lesson_rows s1) (m_startup_id m) (m_user_id m) then 0
        else if lesson_ids c \<subseteq> lessons_done (lesson_rows s1) (m_startup_id m) (m_user_id m) \<union> set (map (snd \<circ> snd) qs) then 1 else 0)"
    using Cons.IH [OF learns_inv [OF eff(1)] Cons.prems(2) _ _ _ rest(1)] by blast
  let ?D = "lessons_done (lesson_rows s) (m_startup_id m) (m_user_id m)" and ?K = "set (map (snd \<circ> snd) qs)"
  have D1: "lessons_done (lesson_rows s1) (m_startup_id m) (m_user_id m) = insert k ?D" unfolding eff(4) by simp
  have K: "?D \<union> set (map (snd \<circ> snd) (q # qs)) = insert k ?D \<union> ?K" by (simp add: q)
  have issue: "issued (Inr (row, cert)) \<longleftrightarrow> lesson_ids c \<subseteq> insert k ?D \<and> \<not> lesson_ids c \<subseteq> ?D"
    using eff(5) by (simp add: issued_def)
  have len: "length (filter issued rs) = (if issued (Inr (row, cert)) then 1 else 0)
      + (if lesson_ids c \<subseteq> insert k ?D then 0 else if lesson_ids c \<subseteq> insert k ?D \<union> ?K then 1 else 0)"
    using ih unfolding D1 rest(2) by simp
  have "length (filter issued rs) = (if lesson_ids c \<subseteq> ?D then 0 else if lesson_ids c \<subseteq> insert k ?D \<union> ?K then 1 else 0)"
    unfolding len issue by (cases "lesson_ids c \<subseteq> ?D"; cases "lesson_ids c \<subseteq> insert k ?D") auto
  then show ?case
    using ih unfolding K D1 by (simp add: rest(2))
qed

lemma course_finished_iff:
  assumes t: "learning_inv t" and c: "c \<in> set all_courses"
  shows "lesson_ids c \<subseteq> lessons_done (lesson_rows t) w u
  \<longleftrightarrow> (\<exists>e. find_enrollment w u (co_id c) t = Some e \<and> en_completed_at e \<noteq> None)"
proof (cases "find_enrollment w u (co_id c) t")
  case None
  then have "(w, u, co_id c) \<notin> en_key ` set (enrollments t)"
    using find_NoneD [OF None [unfolded find_enrollment_key]] by (metis imageE)
  then have "lesson_ids c \<inter> lessons_done (lesson_rows t) w u = {}" by (rule nothing_done [OF t c])
  moreover have "lesson_ids c \<noteq> {}" using course_lessons(2) [OF c] by (auto simp: lesson_ids_def)
  ultimately show ?thesis using None by auto
next
  case (Some e)
  then have e: "e \<in> set (enrollments t)" "en_key e = (w, u, co_id c)"
    using find_SomeD unfolding find_enrollment_key by fastforce+
  obtain c' where c': "c' \<in> set all_courses" "en_course_id e = co_id c'"
      "en_progress e = progress_in c' (lessons_done (lesson_rows t) (en_startup_id e) (en_user_id e))"
      "en_completed_at e \<noteq> None \<longleftrightarrow> en_progress e = 100"
    using learningD(5) [OF t e(1)] by (auto simp: enrollment_ok_def)
  have "c' = c" by (rule same_course [OF c'(1) c]) (use c'(2) e(2) in \<open>simp add: en_key_def\<close>)
  then show ?thesis using Some c'(3,4) e(2) progress_in_full [OF c] by (simp add: en_key_def)
qed

text \<open>
  C35: whoever completes all lessons of a course, in any order and with any repetitions, is always answered,
  ends with the course at 100 and completed, and is given a certificate by exactly one of the answers, or
  by none when the course was finished before; afterwards there is exactly one certificate for it.
\<close>

theorem course_completes:
  assumes "learning_reachable decode s" "c \<in> set all_courses" "set (map (snd \<circ> snd) qs) = set (map le_id (co_lessons c))"
    and "distinct (map (fst \<circ> snd) qs)" "\<forall>(now, code, k) \<in> set qs. \<forall>x \<in> set (certificates s). ce_credential_code x \<noteq> code"
    and "complete_all qs m s = (rs, s')"
  shows "(\<forall>r \<in> set rs. is_ok r)
    \<and> length (filter issued rs) = (if \<exists>e. find_enrollment (m_startup_id m) (m_user_id m) (co_id c) s = Some e \<and> en_completed_at e \<noteq> None then 0 else 1)
    \<and> (\<exists>e. find_enrollment (m_startup_id m) (m_user_id m) (co_id c) s' = Some e \<and> en_progress e = 100 \<and> en_completed_at e \<noteq> None)
    \<and> (\<exists>!x. x \<in> set (certificates s') \<and> ce_startup_id x = m_startup_id m \<and> ce_user_id x = m_user_id m \<and> ce_course_id x = co_id c)"
proof -
  let ?w = "m_startup_id m" and ?u = "m_user_id m"
  note inv = learning_reachable_inv [OF assms(1)]
  have ids: "set (map (snd \<circ> snd) qs) = lesson_ids c" using assms(3) by (simp add: lesson_ids_def)
  have "\<forall>q \<in> set qs. code_free (fst (snd q)) s" using assms(5) by (force simp: code_free_def)
  then have eff: "learning_inv s'" "\<forall>r \<in> set rs. is_ok r" "lesson_ids c \<subseteq> lessons_done (lesson_rows s') ?w ?u"
      "length (filter issued rs) = (if lesson_ids c \<subseteq> lessons_done (lesson_rows s) ?w ?u then 0 else 1)"
    using complete_all_effect [OF inv assms(2) _ assms(4) _ assms(6)] unfolding ids by auto
  obtain e where e: "find_enrollment ?w ?u (co_id c) s' = Some e" "en_completed_at e \<noteq> None"
    using course_finished_iff [OF eff(1) assms(2)] eff(3) by blast
  have in_s: "e \<in> set (enrollments s')" "en_key e = (?w, ?u, co_id c)"
    using e(1) find_SomeD unfolding find_enrollment_key by fastforce+
  have "en_progress e = 100" using learningD(5) [OF eff(1) in_s(1)] e(2) by (auto simp: enrollment_ok_def)
  moreover have "(?w, ?u, co_id c) \<in> ce_key ` set (certificates s')"
    using finished_iff [OF eff(1) in_s(1)] e(2) in_s(2) by simp
  then have "\<exists>!x. x \<in> set (certificates s') \<and> ce_key x = (?w, ?u, co_id c)"
    by (rule key_ex1 [OF learningD(4) [OF eff(1)]])
  then have "\<exists>!x. x \<in> set (certificates s') \<and> ce_startup_id x = ?w \<and> ce_user_id x = ?u \<and> ce_course_id x = co_id c"
    by (simp add: ce_key_def)
  ultimately show ?thesis using eff(2,4) course_finished_iff [OF inv assms(2)] e by auto
qed

end
