(* ===== verification/Learning_Samples.thy ===== *)
theory Learning_Samples
  imports Learning_Facts Roadmap_Requests
begin

text \<open>What the screens of the academy show, and the properties at concrete states.\<close>

section \<open>Screens\<close>

text \<open>
  The answers of the reading endpoints are functions of the caller's own rows: two databases in which these
  are the same show the same.
\<close>

definition own :: "membership \<Rightarrow> 'a learning_db_scheme \<Rightarrow> enrollment list \<times> lesson_progress list \<times> certificate list" where
  "own m s =
     (filter (\<lambda>e. en_startup_id e = m_startup_id m \<and> en_user_id e = m_user_id m) (enrollments s),
      filter (\<lambda>r. lp_startup_id r = m_startup_id m \<and> lp_user_id r = m_user_id m) (lesson_rows s),
      filter (\<lambda>x. ce_startup_id x = m_startup_id m \<and> ce_user_id x = m_user_id m) (certificates s))"

lemma own_by_course:
  "own m s = own m t \<Longrightarrow>
   enrollments_by_course (m_startup_id m) (m_user_id m) s = enrollments_by_course (m_startup_id m) (m_user_id m) t"
  by (rule ext) (simp add: own_def enrollments_by_course_def)

lemma own_watching:
  assumes "own m s = own m t"
  shows "continue_watching (m_startup_id m) (m_user_id m) s = continue_watching (m_startup_id m) (m_user_id m) t"
proof -
  have "filter (\<lambda>e. en_completed_at e = None) (filter (\<lambda>e. en_startup_id e = m_startup_id m \<and> en_user_id e = m_user_id m) (enrollments s))
      = filter (\<lambda>e. en_completed_at e = None) (filter (\<lambda>e. en_startup_id e = m_startup_id m \<and> en_user_id e = m_user_id m) (enrollments t))"
    using assms by (simp add: own_def del: filter_filter)
  then show ?thesis by (simp add: continue_watching_def conj_ac)
qed

lemma own_lessons:
  assumes "own m s = own m t"
  shows "completed_lesson_ids (m_startup_id m) (m_user_id m) k s = completed_lesson_ids (m_startup_id m) (m_user_id m) k t"
proof -
  have "filter (\<lambda>r. lp_course_id r = k) (filter (\<lambda>r. lp_startup_id r = m_startup_id m \<and> lp_user_id r = m_user_id m) (lesson_rows s))
      = filter (\<lambda>r. lp_course_id r = k) (filter (\<lambda>r. lp_startup_id r = m_startup_id m \<and> lp_user_id r = m_user_id m) (lesson_rows t))"
    using assms by (simp add: own_def del: filter_filter)
  then show ?thesis by (simp add: completed_lesson_ids_def conj_ac)
qed

lemma screens_own:
  assumes "own m s = own m t" "startups s = startups t"
  shows "list_courses m s = list_courses m t" "get_course_detail k m s = get_course_detail k m t"
    "list_paths m s = list_paths m t" "list_my_certificates m s = list_my_certificates m t"
    "get_recommendations m s = get_recommendations m t"
proof -
  note mine = own_by_course [OF assms(1)]
  show "list_courses m s = list_courses m t" "list_paths m s = list_paths m t" by (simp_all add: list_courses_def list_paths_def mine)
  show "get_course_detail k m s = get_course_detail k m t"
    by (simp add: get_course_detail_def mine own_lessons [OF assms(1)] split: sum.split)
  show "list_my_certificates m s = list_my_certificates m t"
    using assms(1) by (simp add: list_my_certificates_def list_certificates_def own_def)
  have id: "st_id st = m_startup_id m" if "startup_by_id t (m_startup_id m) = Some st" for st
    using that by (auto simp: startup_by_id_def dest: find_SomeD)
  have "startup_by_id s = startup_by_id t" by (rule ext) (simp add: startup_by_id_def assms(2))
  then show "get_recommendations m s = get_recommendations m t"
    using assms(1) id own_watching [OF assms(1)] by (auto simp: get_recommendations_def mine own_def Let_def split: option.split)
qed

text \<open>A path can be finished while it shows less, and no path shows 100 before it is finished.\<close>

lemma path_not_full:
  assumes "\<And>k. k \<in> set (lt_course_ids p) \<Longrightarrow> (case f k of None \<Rightarrow> 0 | Some n \<Rightarrow> n) \<le> 100" "lt_course_ids p \<noteq> []"
  shows "path_progress p f \<le> 100"
proof -
  let ?v = "map (\<lambda>k. case f k of None \<Rightarrow> 0 | Some n \<Rightarrow> n) (lt_course_ids p)"
  have "sum_list ?v \<le> sum_list (map (\<lambda>_. 100 :: int) (lt_course_ids p))"
    by (rule sum_list_mono) (use assms(1) in auto)
  then have "sum_list ?v \<le> 100 * int (length ?v)" by (simp add: sum_list_triv)
  then show ?thesis unfolding path_progress_def Let_def by (intro py_round_div_le) (use assms(2) in simp_all)
qed

section \<open>At concrete states\<close>

definition academy_ground :: "unit learning_db_scheme" where
  "academy_ground = notif_db.extend (empty_notif_db\<lparr>fresh := 40, users := [sample_founder],
     startups := [sample_startup], memberships := [sample_member 7 MR_founder MS_active]\<rparr>) (learning_db.fields [] [] [])"

definition by_learner :: "learning_request \<Rightarrow> learning_call" where
  "by_learner q = \<lparr>lq_credential = Some [], lq_workspace = 9, lq_now = 5, lq_request = q\<rparr>"

definition academy_after :: "learning_request list \<Rightarrow> unit learning_db_scheme" where
  "academy_after qs = foldl (\<lambda>s q. snd (serve_learning (\<lambda>_. Some (JUid 7)) (by_learner q) s)) academy_ground qs"

lemma academy_after_step:
  "learning_step (\<lambda>_. Some (JUid 7)) (academy_after qs) (academy_after (qs @ [q]))"
  by (simp add: academy_after_def learning_step.request)

lemma academy_after_reachable: "learning_reachable (\<lambda>_. Some (JUid 7)) (academy_after qs)"
proof -
  have "(learning_step (\<lambda>_. Some (JUid 7)))\<^sup>*\<^sup>* academy_ground (academy_after qs)"
  proof (induction qs rule: rev_induct)
    case (snoc q qs)
    then show ?case using academy_after_step [of qs q] by (rule rtranclp.rtrancl_into_rtrancl)
  qed (simp add: academy_after_def)
  moreover have "enrollments academy_ground = []" "lesson_rows academy_ground = []" "certificates academy_ground = []"
    "told_courses academy_ground = []" "ordered_jobs academy_ground = []" by code_simp+
  ultimately show ?thesis unfolding learning_reachable_def by blast
qed

abbreviation half :: "learning_request list" where
  "half \<equiv> [Enroll_in ''build-scope-the-mvp'', Finish ''aa'' ''build-scope-the-mvp-1'' (JBool True)]"

definition half_way :: "unit learning_db_scheme" where
  "half_way = academy_after half"

definition mvp_row :: "int \<Rightarrow> enrollment" where
  "mvp_row n = \<lparr>en_id = 40, en_startup_id = 9, en_user_id = 7, en_course_id = ''build-scope-the-mvp'', en_progress = n,
     en_completed_at = (if n = 100 then Some 5 else None), en_updated_at = 5\<rparr>"

definition finished_mvp :: "unit learning_db_scheme" where
  "finished_mvp = academy_after (half @ [Finish ''bb'' ''build-scope-the-mvp-2'' (JBool True)])"

lemma mvp_states: "enrollments half_way = [mvp_row 50]" "enrollments finished_mvp = [mvp_row 100]"
  by code_simp+

theorem learning_histories_witness:
  "enrollments half_way = [mvp_row 50] \<and> enrollments finished_mvp = [mvp_row 100]
   \<and> en_progress (mvp_row 50) = course_progress 9 7 (all_courses ! 2) half_way
   \<and> set (certificates half_way) \<subseteq> set (certificates finished_mvp)"
proof -
  have r: "learning_reachable (\<lambda>_. Some (JUid 7)) half_way" unfolding half_way_def by (rule academy_after_reachable)
  have s: "(learning_step (\<lambda>_. Some (JUid 7)))\<^sup>*\<^sup>* half_way finished_mvp"
    unfolding half_way_def finished_mvp_def by (intro r_into_rtranclp academy_after_step)
  note all = learning_histories [OF r s]
  have "mvp_row 50 \<in> set (enrollments half_way)" by (simp add: mvp_states)
  with all [THEN conjunct2, THEN conjunct2, THEN conjunct1] obtain c where c: "c \<in> set all_courses" "en_course_id (mvp_row 50) = co_id c"
      "en_progress (mvp_row 50) = course_progress (en_startup_id (mvp_row 50)) (en_user_id (mvp_row 50)) c half_way"
    by blast
  have "all_courses ! 2 \<in> set all_courses" "co_id (all_courses ! 2) = ''build-scope-the-mvp''" by code_simp+
  then have "c = all_courses ! 2" using same_course [OF c(1)] c(2) by (simp add: mvp_row_def)
  moreover have "set (certificates half_way) \<subseteq> set (certificates finished_mvp)" using all by (elim conjE)
  ultimately show ?thesis using c(3) mvp_states by (simp add: mvp_row_def)
qed

definition mvp_rest :: "(instant \<times> string \<times> string) list" where
  "mvp_rest = [(6, ''bb'', ''build-scope-the-mvp-1''), (7, ''cc'', ''build-scope-the-mvp-2''), (8, ''dd'', ''build-scope-the-mvp-2'')]"

theorem course_completes_witness:
  "\<exists>rs s'. complete_all mvp_rest (sample_member 7 MR_founder MS_active) half_way = (rs, s') \<and> map issued rs = [False, True, False]
     \<and> length (filter issued rs) = 1 \<and> (\<exists>e. find_enrollment 9 7 ''build-scope-the-mvp'' s' = Some e \<and> en_progress e = 100)"
proof -
  have r: "learning_reachable (\<lambda>_. Some (JUid 7)) half_way" unfolding half_way_def by (rule academy_after_reachable)
  obtain rs s' where c: "complete_all mvp_rest (sample_member 7 MR_founder MS_active) half_way = (rs, s')"
    by (cases "complete_all mvp_rest (sample_member 7 MR_founder MS_active) half_way")
  have "map issued (fst (complete_all mvp_rest (sample_member 7 MR_founder MS_active) half_way)) = [False, True, False]" by code_simp
  moreover have "distinct (map (fst \<circ> snd) mvp_rest)" by code_simp
  moreover have "certificates half_way = []" by code_simp
  moreover have "all_courses ! 2 \<in> set all_courses" "set (map (snd \<circ> snd) mvp_rest) = set (map le_id (co_lessons (all_courses ! 2)))"
    "co_id (all_courses ! 2) = ''build-scope-the-mvp''" by code_simp+
  moreover have "m_startup_id (sample_member 7 MR_founder MS_active) = 9" "m_user_id (sample_member 7 MR_founder MS_active) = 7" by (simp_all add: sample_member_def)
  ultimately show ?thesis
    using course_completes [OF r _ _ _ _ c, of "all_courses ! 2"] c mvp_states(1)
    by (auto simp: mvp_row_def find_enrollment_def)
qed

end
