(* ===== verification/Onboarding.thy ===== *)
theory Onboarding
  imports Roadmap Member_Requests
begin

text \<open>
  Onboarding (\<^verbatim>\<open>app/services/onboarding\<close>, \<^verbatim>\<open>app/api/v1/endpoints/onboarding\<close>, \<^verbatim>\<open>endpoints/invitations.py\<close>): the
  draft workspace of a founder, its steps, the invitations and the completion. The hash of the tokens, the
  sender of e-mails and the object store are arguments; tokens are drawn by the caller.
\<close>

record invitation =
  in_id :: uid
  in_startup_id :: uid
  in_email :: string
  in_role :: membership_role
  in_token_hash :: string
  in_status :: invitation_status
  in_invited_by :: uid
  in_expires_at :: instant
  in_accepted_at :: "instant option"
  in_accepted_user_id :: "uid option"

record onboarding_db = roadmap_db +
  invitations :: "invitation list"

lemma publish_onboarding_frame [simp]: "invitations (publish now e p s) = invitations s"
  by (rule publish_frame [of now e p s]; simp)

section \<open>The workspace\<close>

text \<open>
  \<^verbatim>\<open>order_by(created_at.desc()).first()\<close>: rows are kept in the order of their creation. A workspace is
  created with its profile and the membership of its founder.
\<close>

definition draft_startup :: "uid \<Rightarrow> uid \<Rightarrow> startup" where
  "draft_startup i user_id =
     \<lparr>st_id = i, st_name = None, st_description = None, st_website = None, st_logo_url = None, st_industry = None,
      st_business_model = None, st_stage = None, st_country = None, st_created_by = user_id, st_deleted_at = None,
      st_profile = Some \<lparr>sp_goals = [], sp_notes = None, sp_onboarding_step = 1, sp_onboarding_completed_at = None,
                         sp_assessment_pending = True\<rparr>\<rparr>"

definition founder_membership :: "instant \<Rightarrow> uid \<Rightarrow> uid \<Rightarrow> uid \<Rightarrow> membership" where
  "founder_membership now i user_id startup_id =
     \<lparr>m_id = i, m_user_id = user_id, m_startup_id = startup_id, m_role = MR_founder, m_status = MS_active,
      m_invited_by = None, m_joined_at = Some now, m_created_at = now\<rparr>"

definition own_workspace :: "uid \<Rightarrow> 'a onboarding_db_scheme \<Rightarrow> startup option" where
  "own_workspace user_id s = find (\<lambda>x. st_created_by x = user_id \<and> st_deleted_at x = None) (rev (startups s))"

definition resolve_or_create_workspace ::
    "instant \<Rightarrow> user \<Rightarrow> 'a onboarding_db_scheme \<Rightarrow> startup \<times> 'a onboarding_db_scheme" where
  "resolve_or_create_workspace now user s =
     (case own_workspace (u_id user) s of
        Some existing \<Rightarrow> (existing, s)
      | None \<Rightarrow>
          let startup = draft_startup (fresh s) (u_id user);
              m = founder_membership now (Suc (fresh s)) (u_id user) (st_id startup);
              s1 = s\<lparr>fresh := Suc (Suc (fresh s)), startups := startups s @ [startup], memberships := memberships s @ [m]\<rparr>
          in (startup, publish now ''workspace.created''
                [(''startup_id'', JUid (st_id startup)), (''created_by'', JUid (u_id user))] s1))"

text \<open>A workspace without its profile row makes \<^verbatim>\<open>startup.profile.x\<close> raise.\<close>

definition ensure_draft :: "startup \<Rightarrow> unit result" where
  "ensure_draft startup =
     (case st_profile startup of
        None \<Rightarrow> Inl (Uncaught ''AttributeError'')
      | Some p \<Rightarrow> if sp_onboarding_completed_at p \<noteq> None then Inl OnboardingAlreadyComplete else Inr ())"

definition put_startup :: "startup \<Rightarrow> 'a core_db_scheme \<Rightarrow> 'a core_db_scheme" where
  "put_startup startup s = s\<lparr>startups := update_where (\<lambda>x. st_id x = st_id startup) (\<lambda>_. startup) (startups s)\<rparr>"

record onboarding_view =
  ov_step :: int
  ov_completed :: bool
  ov_assessment_pending :: bool
  ov_founder_profile :: "user_profile option"
  ov_startup :: startup
  ov_goals :: "string list"
  ov_notes :: "string option"
  ov_invites :: "(string \<times> membership_role \<times> invitation_status) list"

definition serialize_state :: "startup \<Rightarrow> user \<Rightarrow> 'a onboarding_db_scheme \<Rightarrow> onboarding_view result" where
  "serialize_state startup user s =
     (case st_profile startup of
        None \<Rightarrow> Inl (Uncaught ''AttributeError'')
      | Some p \<Rightarrow>
          Inr \<lparr>ov_step = sp_onboarding_step p, ov_completed = (sp_onboarding_completed_at p \<noteq> None),
               ov_assessment_pending = sp_assessment_pending p, ov_founder_profile = u_profile user,
               ov_startup = startup, ov_goals = sp_goals p, ov_notes = sp_notes p,
               ov_invites = map (\<lambda>i. (in_email i, in_role i, in_status i))
                 (filter (\<lambda>i. in_startup_id i = st_id startup) (invitations s))\<rparr>)"

section \<open>The steps\<close>

text \<open>A field that was not sent is \<open>None\<close>, one sent as null is \<open>Some None\<close>.\<close>

record state_patch =
  pa_step :: int
  pa_full_name :: "string option option"
  pa_role_title :: "string option option"
  pa_country :: "string option option"
  pa_phone :: "string option option"
  pa_how_heard :: "string option option"
  pa_name :: "string option option"
  pa_description :: "string option option"
  pa_website :: "string option option"
  pa_industry :: "string option option"
  pa_business_model :: "business_model option option"
  pa_stage :: "startup_stage option option"
  pa_goals :: "string list option option"
  pa_notes :: "string option option"

definition valid_patch :: "state_patch \<Rightarrow> string list" where
  "valid_patch p =
     (if 1 \<le> pa_step p \<and> pa_step p \<le> 6 then [] else [''step''])
     @ (case pa_goals p of Some (Some gs) \<Rightarrow> if length gs \<le> 3 then [] else [''goals''] | _ \<Rightarrow> [])"

definition patched_field :: "'v option option \<Rightarrow> 'v option \<Rightarrow> 'v option" where
  "patched_field x old = (case x of None \<Rightarrow> old | Some v \<Rightarrow> v)"

text \<open>The columns that cannot be null keep their value when null is sent.\<close>

definition patched_required :: "'v option option \<Rightarrow> 'v \<Rightarrow> 'v" where
  "patched_required x old = (case x of Some (Some v) \<Rightarrow> v | _ \<Rightarrow> old)"

definition patch_profile :: "state_patch \<Rightarrow> user_profile \<Rightarrow> user_profile" where
  "patch_profile p up = up\<lparr>up_full_name := patched_field (pa_full_name p) (up_full_name up),
     up_role_title := patched_required (pa_role_title p) (up_role_title up),
     up_country := patched_field (pa_country p) (up_country up), up_phone := patched_field (pa_phone p) (up_phone up),
     up_how_heard := patched_field (pa_how_heard p) (up_how_heard up)\<rparr>"

definition patch_startup :: "state_patch \<Rightarrow> startup \<Rightarrow> startup" where
  "patch_startup p st = st\<lparr>st_name := patched_field (pa_name p) (st_name st),
     st_description := patched_field (pa_description p) (st_description st),
     st_website := patched_field (pa_website p) (st_website st), st_industry := patched_field (pa_industry p) (st_industry st),
     st_business_model := patched_field (pa_business_model p) (st_business_model st),
     st_stage := patched_field (pa_stage p) (st_stage st)\<rparr>"

definition patch_startup_profile :: "state_patch \<Rightarrow> startup_profile \<Rightarrow> startup_profile" where
  "patch_startup_profile p sp = sp\<lparr>sp_goals := patched_required (pa_goals p) (sp_goals sp),
     sp_notes := patched_field (pa_notes p) (sp_notes sp),
     sp_onboarding_step := max (sp_onboarding_step sp) (pa_step p)\<rparr>"

definition touches_profile :: "state_patch \<Rightarrow> bool" where
  "touches_profile p \<longleftrightarrow> pa_full_name p \<noteq> None \<or> (case pa_role_title p of Some (Some _) \<Rightarrow> True | _ \<Rightarrow> False)
     \<or> pa_country p \<noteq> None \<or> pa_phone p \<noteq> None \<or> pa_how_heard p \<noteq> None"

definition fits_column :: "nat \<Rightarrow> string option \<Rightarrow> bool" where
  "fits_column n x \<longleftrightarrow> (case x of None \<Rightarrow> True | Some t \<Rightarrow> length t \<le> n)"

text \<open>The flush is where a text that is too long for its column fails.\<close>

definition apply_step ::
    "startup \<Rightarrow> user \<Rightarrow> state_patch \<Rightarrow> 'a onboarding_db_scheme \<Rightarrow> (startup \<times> user) result \<times> 'a onboarding_db_scheme" where
  "apply_step startup user p s =
     (if u_profile user = None \<and> touches_profile p then (Inl (Uncaught ''AttributeError''), s)
      else case st_profile startup of
             None \<Rightarrow> (Inl (Uncaught ''AttributeError''), s)
           | Some sp \<Rightarrow>
               let user = user\<lparr>u_profile := map_option (patch_profile p) (u_profile user)\<rparr>;
                   startup = (patch_startup p startup)\<lparr>st_profile := Some (patch_startup_profile p sp)\<rparr>
               in if (case u_profile user of None \<Rightarrow> True | Some up \<Rightarrow> fits_column 2 (up_country up) \<and> fits_column 32 (up_phone up))
                  then (Inr (startup, user), put_startup startup (update_user (u_id user) (\<lambda>_. user) s))
                  else (Inl (Uncaught ''DataError''), s))"

section \<open>Invitations\<close>

definition invite_ttl :: int where
  "invite_ttl = days 14"

record invite_mail =
  im_to :: string
  im_subject :: string
  im_token :: string

definition is_active_member_email :: "startup \<Rightarrow> string \<Rightarrow> 'a onboarding_db_scheme \<Rightarrow> bool" where
  "is_active_member_email startup email s \<longleftrightarrow>
     (\<exists>m \<in> set (memberships s). m_startup_id m = st_id startup \<and> m_status m = MS_active
        \<and> (\<exists>u \<in> set (users s). u_id u = m_user_id m \<and> citext_eq (u_email u) email))"

definition pending_for :: "startup \<Rightarrow> string \<Rightarrow> 'a onboarding_db_scheme \<Rightarrow> invitation option" where
  "pending_for startup email s =
     find (\<lambda>i. in_startup_id i = st_id startup \<and> citext_eq (in_email i) email \<and> in_status i = IS_pending) (invitations s)"

definition new_invitation ::
    "(string \<Rightarrow> string) \<Rightarrow> instant \<Rightarrow> uid \<Rightarrow> startup \<Rightarrow> user \<Rightarrow> string \<Rightarrow> membership_role \<Rightarrow> string \<Rightarrow> invitation" where
  "new_invitation hash now i startup inviter email role raw =
     \<lparr>in_id = i, in_startup_id = st_id startup, in_email = email, in_role = role, in_token_hash = hash raw,
      in_status = IS_pending, in_invited_by = u_id inviter, in_expires_at = now + invite_ttl,
      in_accepted_at = None, in_accepted_user_id = None\<rparr>"

definition invite_email :: "startup \<Rightarrow> string \<Rightarrow> string \<Rightarrow> invite_mail" where
  "invite_email startup email raw =
     \<lparr>im_to = email,
      im_subject = ''You'' @ [CHR 0x27] @ ''re invited to join ''
        @ (case st_name startup of None \<Rightarrow> ''a startup'' | Some n \<Rightarrow> if n = [] then ''a startup'' else n) @ '' on Cofoundaz'',
      im_token = raw\<rparr>"

text \<open>
  The loop over the items, each with the token drawn for it: what was created and skipped, and the
  messages handed to the sender, which no rollback takes back. The session does not flush in the loop, so
  that the query of the pending invitations reads the table \<open>s0\<close> of before; the same holds for the members.
\<close>

fun invite_all ::
    "(string \<Rightarrow> string) \<Rightarrow> (invite_mail \<Rightarrow> unit result) \<Rightarrow> instant \<Rightarrow> startup \<Rightarrow> user \<Rightarrow> 'a onboarding_db_scheme
     \<Rightarrow> string list \<Rightarrow> (string \<times> membership_role \<times> string) list \<Rightarrow> 'a onboarding_db_scheme
     \<Rightarrow> (string list \<times> string list) result \<times> invite_mail list \<times> 'a onboarding_db_scheme" where
  "invite_all hash send now startup inviter s0 handled [] s = (Inr ([], []), [], s)"
| "invite_all hash send now startup inviter s0 handled ((email, role, raw) # items) s =
     (if lower_str email \<in> set handled \<or> pending_for startup email s0 \<noteq> None \<or> is_active_member_email startup email s0
      then (case invite_all hash send now startup inviter s0 handled items s of
              (Inl e, ms, s') \<Rightarrow> (Inl e, ms, s')
            | (Inr (created, skipped), ms, s') \<Rightarrow> (Inr (created, email # skipped), ms, s'))
      else
        let s1 = s\<lparr>fresh := Suc (fresh s), invitations := invitations s @
                     [new_invitation hash now (fresh s) startup inviter email role raw]\<rparr>;
            mail = invite_email startup email raw
        in case send mail of
             Inl e \<Rightarrow> (Inl e, [], s1)
           | Inr _ \<Rightarrow>
               let s2 = publish now ''workspace.member.invited''
                     [(''startup_id'', JUid (st_id startup)), (''email'', JStr email), (''role'', JStr (membership_role_value role))] s1
               in (case invite_all hash send now startup inviter s0 (lower_str email # handled) items s2 of
                     (Inl e, ms, s') \<Rightarrow> (Inl e, mail # ms, s')
                   | (Inr (created, skipped), ms, s') \<Rightarrow> (Inr (email # created, skipped), mail # ms, s')))"

text \<open>The flush checks the unique token hashes.\<close>

definition create_invitations ::
    "(string \<Rightarrow> string) \<Rightarrow> (invite_mail \<Rightarrow> unit result) \<Rightarrow> instant \<Rightarrow> startup \<Rightarrow> user \<Rightarrow> (string \<times> membership_role \<times> string) list
     \<Rightarrow> 'a onboarding_db_scheme \<Rightarrow> (string list \<times> string list) result \<times> invite_mail list \<times> 'a onboarding_db_scheme" where
  "create_invitations hash send now startup inviter items s =
     (case invite_all hash send now startup inviter s [] items s of
        (Inl e, ms, s') \<Rightarrow> (Inl e, ms, s')
      | (Inr r, ms, s') \<Rightarrow>
          if distinct (map in_token_hash (invitations s')) then (Inr r, ms, s')
          else (Inl (Uncaught ''IntegrityError''), ms, s'))"

definition invitation_by_token :: "(string \<Rightarrow> string) \<Rightarrow> string \<Rightarrow> 'a onboarding_db_scheme \<Rightarrow> invitation option" where
  "invitation_by_token hash raw s = find (\<lambda>i. in_token_hash i = hash raw) (invitations s)"

record invitation_preview =
  ip_startup_name :: "string option"
  ip_role :: membership_role
  ip_inviter_name :: "string option"
  ip_email :: string
  ip_status :: invitation_status

definition preview_invitation ::
    "(string \<Rightarrow> string) \<Rightarrow> instant \<Rightarrow> string \<Rightarrow> 'a onboarding_db_scheme \<Rightarrow> invitation_preview result" where
  "preview_invitation hash now raw s =
     (case invitation_by_token hash raw s of
        None \<Rightarrow> Inl NotFound
      | Some i \<Rightarrow>
          if in_status i \<noteq> IS_pending \<or> in_expires_at i < now then Inl NotFound
          else Inr \<lparr>ip_startup_name = (case startup_by_id s (in_startup_id i) of None \<Rightarrow> None | Some st \<Rightarrow> st_name st),
                    ip_role = in_role i,
                    ip_inviter_name = (case user_by_id s (in_invited_by i) of None \<Rightarrow> None
                       | Some u \<Rightarrow> (case u_profile u of None \<Rightarrow> None | Some p \<Rightarrow> up_full_name p)),
                    ip_email = in_email i, ip_status = in_status i\<rparr>)"

definition accepted :: "instant \<Rightarrow> user \<Rightarrow> invitation \<Rightarrow> invitation" where
  "accepted now user i = i\<lparr>in_status := IS_accepted, in_accepted_at := Some now, in_accepted_user_id := Some (u_id user)\<rparr>"

definition joined_membership :: "instant \<Rightarrow> uid \<Rightarrow> user \<Rightarrow> invitation \<Rightarrow> membership" where
  "joined_membership now k user i =
     \<lparr>m_id = k, m_user_id = u_id user, m_startup_id = in_startup_id i, m_role = in_role i, m_status = MS_active,
      m_invited_by = Some (in_invited_by i), m_joined_at = Some now, m_created_at = now\<rparr>"

definition accept_invitation ::
    "(string \<Rightarrow> string) \<Rightarrow> instant \<Rightarrow> user \<Rightarrow> string \<Rightarrow> 'a onboarding_db_scheme \<Rightarrow> membership result \<times> 'a onboarding_db_scheme" where
  "accept_invitation hash now user raw s =
     (case invitation_by_token hash raw s of
        None \<Rightarrow> (Inl TokenInvalid, s)
      | Some i \<Rightarrow>
          if in_status i \<noteq> IS_pending \<or> in_expires_at i < now then (Inl TokenInvalid, s)
          else if lower_str (u_email user) \<noteq> lower_str (in_email i) then (Inl InviteEmailMismatch, s)
          else
            let (m, s1) = (case find (\<lambda>m. m_user_id m = u_id user \<and> m_startup_id m = in_startup_id i) (memberships s) of
                  Some existing \<Rightarrow> (existing, s)
                | None \<Rightarrow> let m = joined_membership now (fresh s) user i
                          in (m, s\<lparr>fresh := Suc (fresh s), memberships := memberships s @ [m]\<rparr>));
                s2 = s1\<lparr>invitations := update_where (\<lambda>x. in_id x = in_id i) (accepted now user) (invitations s1)\<rparr>
            in (Inr m, publish now ''workspace.member.joined''
                 [(''startup_id'', JUid (in_startup_id i)), (''user_id'', JUid (u_id user)),
                  (''role'', JStr (membership_role_value (in_role i)))] s2))"

section \<open>The completion\<close>

definition truthy_text :: "string option \<Rightarrow> bool" where
  "truthy_text x \<longleftrightarrow> (case x of None \<Rightarrow> False | Some t \<Rightarrow> t \<noteq> [])"

definition gate :: "startup \<Rightarrow> startup_profile \<Rightarrow> user \<Rightarrow> string list" where
  "gate startup sp user =
     (if (case u_profile user of None \<Rightarrow> False | Some p \<Rightarrow> truthy_text (up_full_name p)) then [] else [''full_name''])
     @ (if truthy_text (st_name startup) then [] else [''name''])
     @ (if truthy_text (st_industry startup) then [] else [''industry''])
     @ (if st_stage startup \<noteq> None then [] else [''stage''])
     @ (if sp_goals sp \<noteq> [] then [] else [''goals''])"

record onboarding_result =
  or_completed :: bool
  or_assessment_pending :: bool
  or_job_ids :: "uid list"

definition startup_payload_of :: "startup \<Rightarrow> payload" where
  "startup_payload_of startup = [(''startup_id'', JUid (st_id startup))]"

definition complete_onboarding ::
    "instant \<Rightarrow> day \<Rightarrow> startup \<Rightarrow> user \<Rightarrow> 'a onboarding_db_scheme \<Rightarrow> onboarding_result result \<times> 'a onboarding_db_scheme" where
  "complete_onboarding now today startup user s =
     (case st_profile startup of
        None \<Rightarrow> (Inl (Uncaught ''AttributeError''), s)
      | Some sp \<Rightarrow>
          if sp_onboarding_completed_at sp \<noteq> None
          then (Inr \<lparr>or_completed = True, or_assessment_pending = sp_assessment_pending sp, or_job_ids = []\<rparr>, s)
          else if gate startup sp user \<noteq> [] then (Inl (OnboardingIncomplete (gate startup sp user)), s)
          else
            let startup = startup\<lparr>st_profile := Some (sp\<lparr>sp_onboarding_completed_at := Some now, sp_assessment_pending := True\<rparr>)\<rparr>;
                s1 = put_startup startup s;
                (_, s2) = generate_roadmap now today startup s1;
                (j1, s3) = enqueue now ''roadmap.generate'' (startup_payload_of startup) (Some (st_id startup)) s2;
                s4 = s3\<lparr>jobs := update_where (\<lambda>j. j_id j = j_id j1) (\<lambda>j. j\<lparr>j_status := JS_succeeded\<rparr>) (jobs s3)\<rparr>;
                (j2, s5) = enqueue now ''healthscore.initialize'' (startup_payload_of startup) (Some (st_id startup)) s4;
                p = [(''startup_id'', JUid (st_id startup)), (''user_id'', JUid (u_id user))];
                s6 = publish now ''notification.onboarding_complete'' p (publish now ''onboarding.completed'' p s5)
            in (Inr \<lparr>or_completed = True, or_assessment_pending = True, or_job_ids = [j_id j1, j_id j2]\<rparr>, s6))"

section \<open>Endpoints\<close>

text \<open>A request of a verified account, outside of any workspace.\<close>

definition account_request ::
    "(string \<Rightarrow> json option) \<Rightarrow> string option \<Rightarrow> (user \<Rightarrow> 'a core_db_scheme \<Rightarrow> 'b \<times> 'a core_db_scheme)
     \<Rightarrow> (app_error \<Rightarrow> 'b) \<Rightarrow> 'a core_db_scheme \<Rightarrow> 'b \<times> 'a core_db_scheme" where
  "account_request decode cr body refuse s =
     (case get_current_user decode cr s of
        Inl e \<Rightarrow> (refuse e, s)
      | Inr user \<Rightarrow> (case get_verified_user user of Inl e \<Rightarrow> (refuse e, s) | Inr user \<Rightarrow> body user s))"

definition get_state :: "instant \<Rightarrow> user \<Rightarrow> 'a onboarding_db_scheme \<Rightarrow> onboarding_view result \<times> 'a onboarding_db_scheme" where
  "get_state now user =
     run_tx (\<lambda>s. case resolve_or_create_workspace now user s of (startup, s1) \<Rightarrow> (serialize_state startup user s1, s1))"

definition patch_state ::
    "instant \<Rightarrow> state_patch \<Rightarrow> user \<Rightarrow> 'a onboarding_db_scheme \<Rightarrow> onboarding_view result \<times> 'a onboarding_db_scheme" where
  "patch_state now p user =
     run_tx (\<lambda>s.
       if valid_patch p \<noteq> [] then (Inl (RequestInvalid (valid_patch p)), s)
       else case resolve_or_create_workspace now user s of
         (startup, s1) \<Rightarrow>
           (case ensure_draft startup of
              Inl e \<Rightarrow> (Inl e, s1)
            | Inr _ \<Rightarrow>
                (case apply_step startup user p s1 of
                   (Inl e, s2) \<Rightarrow> (Inl e, s2)
                 | (Inr (startup, user), s2) \<Rightarrow> (serialize_state startup user s2, s2))))"

definition logo_types :: "(string \<times> string) list" where
  "logo_types = [(''image/png'', ''png''), (''image/jpeg'', ''jpg''), (''image/svg+xml'', ''svg''), (''image/webp'', ''webp'')]"

definition max_logo_bytes :: nat where
  "max_logo_bytes = 2 * 1024 * 1024"

text \<open>The chunks of the upload as they are read, up to the first empty one.\<close>

fun read_logo :: "string list \<Rightarrow> string \<Rightarrow> string result" where
  "read_logo [] content = Inr content"
| "read_logo (chunk # chunks) content =
     (if chunk = [] then Inr content
      else if max_logo_bytes < length (content @ chunk) then Inl (AppErr ''VALIDATION_ERROR'' 422 [])
      else read_logo chunks (content @ chunk))"

definition logo_key :: "(uid \<Rightarrow> string) \<Rightarrow> uid \<Rightarrow> string \<Rightarrow> string \<Rightarrow> string" where
  "logo_key text_of startup_id hex ext = ''logos/'' @ text_of startup_id @ ''/'' @ hex @ ''.'' @ ext"

definition upload_logo ::
    "(uid \<Rightarrow> string) \<Rightarrow> (string \<Rightarrow> string \<Rightarrow> string \<Rightarrow> string result) \<Rightarrow> instant \<Rightarrow> string \<Rightarrow> string \<Rightarrow> string list
     \<Rightarrow> user \<Rightarrow> 'a onboarding_db_scheme \<Rightarrow> string result \<times> 'a onboarding_db_scheme" where
  "upload_logo text_of save now content_type hex chunks user =
     run_tx (\<lambda>s.
       case map_of logo_types content_type of
         None \<Rightarrow> (Inl (AppErr ''VALIDATION_ERROR'' 422 []), s)
       | Some ext \<Rightarrow>
           (case resolve_or_create_workspace now user s of
              (startup, s1) \<Rightarrow>
                (case ensure_draft startup of
                   Inl e \<Rightarrow> (Inl e, s1)
                 | Inr _ \<Rightarrow>
                     (case read_logo chunks [] of
                        Inl e \<Rightarrow> (Inl e, s1)
                      | Inr content \<Rightarrow>
                          (case save (logo_key text_of (st_id startup) hex ext) content content_type of
                             Inl e \<Rightarrow> (Inl e, s1)
                           | Inr url \<Rightarrow> (Inr url, put_startup (startup\<lparr>st_logo_url := Some url\<rparr>) s1))))))"

text \<open>The messages sent stay sent when the request fails.\<close>

definition post_invites ::
    "(string \<Rightarrow> string) \<Rightarrow> (invite_mail \<Rightarrow> unit result) \<Rightarrow> instant \<Rightarrow> (string \<times> membership_role \<times> string) list
     \<Rightarrow> user \<Rightarrow> 'a onboarding_db_scheme \<Rightarrow> ((string list \<times> string list) result \<times> invite_mail list) \<times> 'a onboarding_db_scheme" where
  "post_invites hash send now items user s =
     (case resolve_or_create_workspace now user s of
        (startup, s1) \<Rightarrow>
          (case ensure_draft startup of
             Inl e \<Rightarrow> ((Inl e, []), s)
           | Inr _ \<Rightarrow>
               (case create_invitations hash send now startup user items s1 of
                  (Inl e, ms, s2) \<Rightarrow> ((Inl e, ms), s)
                | (Inr r, ms, s2) \<Rightarrow> ((Inr r, ms), s2))))"

definition post_complete ::
    "instant \<Rightarrow> day \<Rightarrow> user \<Rightarrow> 'a onboarding_db_scheme \<Rightarrow> onboarding_result result \<times> 'a onboarding_db_scheme" where
  "post_complete now today user =
     run_tx (\<lambda>s. case resolve_or_create_workspace now user s of (startup, s1) \<Rightarrow> complete_onboarding now today startup user s1)"

definition invitee_name :: "user \<Rightarrow> string" where
  "invitee_name user = (case u_profile user of None \<Rightarrow> ''A teammate''
     | Some p \<Rightarrow> if truthy_text (up_full_name p) then the (up_full_name p) else ''A teammate'')"

definition accept_endpoint ::
    "(string \<Rightarrow> string) \<Rightarrow> instant \<Rightarrow> string \<Rightarrow> user \<Rightarrow> 'a onboarding_db_scheme \<Rightarrow> (uid \<times> membership_role) result \<times> 'a onboarding_db_scheme" where
  "accept_endpoint hash now raw user =
     run_tx (\<lambda>s. case accept_invitation hash now user raw s of
         (Inl e, s1) \<Rightarrow> (Inl e, s1)
       | (Inr m, s1) \<Rightarrow>
           (Inr (m_startup_id m, m_role m),
            write_activity now (m_startup_id m) ''member.joined'' (invitee_name user @ '' joined the workspace'')
              (Some (u_id user)) (Some ''membership'') (Some (m_id m)) None s1))"

end
