(* ===== verification/Onboarding_Inv.thy ===== *)
theory Onboarding_Inv
  imports Onboarding Monotone_Rows
begin

text \<open>
  What holds of the invitations and memberships, and that the requests of onboarding keep it: an invitation
  changes once, when it is accepted, and an account has one membership in a workspace.
\<close>

section \<open>The invariant\<close>

definition member_key :: "membership \<Rightarrow> uid \<times> uid" where
  "member_key m = (m_user_id m, m_startup_id m)"

definition address :: "invitation \<Rightarrow> uid \<times> string" where
  "address i = (in_startup_id i, lower_str (in_email i))"

definition invitation_ok :: "membership list \<Rightarrow> invitation \<Rightarrow> bool" where
  "invitation_ok ms i \<longleftrightarrow>
     in_status i = IS_pending \<and> in_accepted_at i = None \<and> in_accepted_user_id i = None
     \<or> in_status i = IS_accepted \<and> in_accepted_at i \<noteq> None
        \<and> (\<exists>u. in_accepted_user_id i = Some u \<and> (u, in_startup_id i) \<in> member_key ` set ms)"

definition onboarding_base :: "'a onboarding_db_scheme \<Rightarrow> bool" where
  "onboarding_base s \<longleftrightarrow>
     keyed (fresh s) in_id (invitations s) \<and> distinct (map member_key (memberships s))
     \<and> ids_below (fresh s) (map m_startup_id (memberships s))
     \<and> ids_below (fresh s) (map in_startup_id (invitations s))
     \<and> ids_below (fresh s) (map st_id (startups s))
     \<and> (\<forall>i \<in> set (invitations s). invitation_ok (memberships s) i)
     \<and> distinct (map address (filter (\<lambda>i. in_status i = IS_pending) (invitations s)))"

definition onboarding_inv :: "'a onboarding_db_scheme \<Rightarrow> bool" where
  "onboarding_inv s \<longleftrightarrow> onboarding_base s \<and> distinct (map in_token_hash (invitations s))"

lemma baseD:
  assumes "onboarding_base s"
  shows "keyed (fresh s) in_id (invitations s)" "distinct (map member_key (memberships s))"
    "ids_below (fresh s) (map m_startup_id (memberships s))" "ids_below (fresh s) (map in_startup_id (invitations s))"
    "ids_below (fresh s) (map st_id (startups s))" "i \<in> set (invitations s) \<Longrightarrow> invitation_ok (memberships s) i"
    "distinct (map address (filter (\<lambda>i. in_status i = IS_pending) (invitations s)))"
  using assms by (simp_all add: onboarding_base_def)

lemma onboardingD: "onboarding_inv s \<Longrightarrow> onboarding_base s" "onboarding_inv s \<Longrightarrow> distinct (map in_token_hash (invitations s))"
  by (simp_all add: onboarding_inv_def)

text \<open>An invitation only changes by being accepted, by the account it was addressed to and before it expires.\<close>

definition invitation_le :: "instant \<Rightarrow> invitation \<Rightarrow> invitation \<Rightarrow> bool" where
  "invitation_le since i j \<longleftrightarrow>
     i = j \<or> in_status i = IS_pending \<and> (\<exists>now u. j = accepted now u i \<and> since \<le> now \<and> now \<le> in_expires_at i
       \<and> lower_str (u_email u) = lower_str (in_email i))"

lemma accepted_simps [simp]:
  "in_id (accepted now u i) = in_id i" "in_startup_id (accepted now u i) = in_startup_id i"
  "in_email (accepted now u i) = in_email i" "in_role (accepted now u i) = in_role i"
  "in_token_hash (accepted now u i) = in_token_hash i" "in_status (accepted now u i) = IS_accepted"
  "in_expires_at (accepted now u i) = in_expires_at i" "in_accepted_user_id (accepted now u i) = Some (u_id u)"
  "in_accepted_at (accepted now u i) = Some now"
  by (simp_all add: accepted_def)

lemma invitation_le_refl [simp]: "invitation_le since i i"
  by (simp add: invitation_le_def)

lemma invitation_le_trans: "invitation_le since i j \<Longrightarrow> invitation_le since j k \<Longrightarrow> invitation_le since i k"
  by (auto simp: invitation_le_def)

definition onboards :: "instant \<Rightarrow> 'a onboarding_db_scheme \<Rightarrow> 'a onboarding_db_scheme \<Rightarrow> bool" where
  "onboards now s s' \<longleftrightarrow> onboarding_base s' \<and> fresh s \<le> fresh s'
     \<and> moves in_id id (invitation_le now) (fresh s) (invitations s) (invitations s')
     \<and> in_id ` set (invitations s) \<subseteq> in_id ` set (invitations s')
     \<and> member_key ` set (memberships s) \<subseteq> member_key ` set (memberships s')"

lemma onboards_refl: "onboarding_base s \<Longrightarrow> onboards now s s"
  by (simp add: onboards_def moves_refl)

lemma onboards_base: "onboards now s s' \<Longrightarrow> onboarding_base s'"
  by (simp add: onboards_def)

lemma onboards_trans: "onboards now s s' \<Longrightarrow> onboards now s' s'' \<Longrightarrow> onboards now s s''"
proof -
  assume 1: "onboards now s s'" and 2: "onboards now s' s''"
  have "moves in_id id (invitation_le now) (fresh s) (invitations s) (invitations s'')"
    using 1 2 unfolding onboards_def by (auto intro: moves_trans [OF invitation_le_trans])
  then show ?thesis using 1 2 unfolding onboards_def by (meson order_trans)
qed

text \<open>Whatever leaves the three tables alone, up to other columns of the workspaces.\<close>

lemma member_ok_mono: "invitation_ok ms i \<Longrightarrow> member_key ` set ms \<subseteq> member_key ` set ms' \<Longrightarrow> invitation_ok ms' i"
  by (auto simp: invitation_ok_def)

lemma onboards_elsewhere:
  assumes base: "onboarding_base s" and same: "fresh s \<le> fresh s'" "invitations s' = invitations s"
    and keys: "map member_key (memberships s') = map member_key (memberships s)"
    and ids: "map st_id (startups s') = map st_id (startups s)"
  shows "onboards now s s'"
proof -
  have k: "member_key ` set (memberships s') = member_key ` set (memberships s)" using keys by (metis set_map)
  have "map (snd \<circ> member_key) (memberships s') = map (snd \<circ> member_key) (memberships s)" using keys by (metis map_map)
  then have "map m_startup_id (memberships s') = map m_startup_id (memberships s)" by (simp add: comp_def member_key_def)
  then have "onboarding_base s'"
    using base same keys ids k unfolding onboarding_base_def by (auto intro: keyed_mono ids_below_mono member_ok_mono)
  then show ?thesis using same k by (simp add: onboards_def moves_refl)
qed

lemma onboards_frame:
  "onboarding_base s \<Longrightarrow> fresh s \<le> fresh s' \<Longrightarrow> invitations s' = invitations s \<Longrightarrow> memberships s' = memberships s
   \<Longrightarrow> map st_id (startups s') = map st_id (startups s) \<Longrightarrow> onboards now s s'"
  by (rule onboards_elsewhere) simp_all

lemma onboards_publish: "onboards now s s' \<Longrightarrow> onboards now s (publish t e p s')"
  using onboards_trans onboards_frame [of s' "publish t e p s'" now] onboards_base publish_fresh by (metis publish_core_frame(2,3) publish_onboarding_frame)

lemma put_startup_ids [simp]: "map st_id (startups (put_startup st s)) = map st_id (startups s)"
  by (simp add: put_startup_def update_where_def)

section \<open>The workspace\<close>

lemma draft_startup_simps [simp]:
  "st_id (draft_startup i u) = i" "st_created_by (draft_startup i u) = u" "st_deleted_at (draft_startup i u) = None"
  by (simp_all add: draft_startup_def)

lemma own_workspace_in: "own_workspace u s = Some st \<Longrightarrow> st \<in> set (startups s) \<and> st_created_by st = u \<and> st_deleted_at st = None"
  by (auto simp: own_workspace_def dest: find_SomeD)

lemma resolve_ok:
  assumes base: "onboarding_base s" and r: "resolve_or_create_workspace now user s = (st, s')"
  shows "onboards now s s'" "st \<in> set (startups s')" "invitations s' = invitations s" "st_created_by st = u_id user"
    "own_workspace (u_id user) s' = Some st"
proof -
  have "onboards now s s' \<and> st \<in> set (startups s') \<and> invitations s' = invitations s \<and> st_created_by st = u_id user
    \<and> own_workspace (u_id user) s' = Some st"
  proof (cases "own_workspace (u_id user) s")
    case (Some x)
    then have "st = x" "s' = s" using r by (simp_all add: resolve_or_create_workspace_def)
    then show ?thesis using own_workspace_in [OF Some] onboards_refl [OF base] Some by simp
  next
    case None
    let ?st = "draft_startup (fresh s) (u_id user)" and ?m = "founder_membership now (Suc (fresh s)) (u_id user) (fresh s)"
    let ?s1 = "s\<lparr>fresh := Suc (Suc (fresh s)), startups := startups s @ [?st], memberships := memberships s @ [?m]\<rparr>"
    have st: "st = ?st" "s' = publish now ''workspace.created'' [(''startup_id'', JUid (fresh s)), (''created_by'', JUid (u_id user))] ?s1"
      using r None by (auto simp: resolve_or_create_workspace_def Let_def)
    have new: "member_key ?m \<notin> member_key ` set (memberships s)"
      using ids_below_fresh [OF baseD(3) [OF base]] by (auto simp: member_key_def founder_membership_def)
    have "onboarding_base ?s1"
      using base new unfolding onboarding_base_def
      by (auto simp: founder_membership_def intro: keyed_mono ids_below_mono member_ok_mono)
    then have "onboards now s ?s1" using base by (auto simp: onboards_def moves_refl)
    moreover have "own_workspace (u_id user) s' = Some ?st" by (simp add: st own_workspace_def)
    ultimately show ?thesis by (simp add: st onboards_publish)
  qed
  then show "onboards now s s'" "st \<in> set (startups s')" "invitations s' = invitations s" "st_created_by st = u_id user"
    "own_workspace (u_id user) s' = Some st" by blast+
qed

lemma startup_below: "onboarding_base s \<Longrightarrow> st \<in> set (startups s) \<Longrightarrow> st_id st < fresh s"
  using baseD(5) by (auto simp: ids_below_def)

lemma apply_step_ok:
  assumes base: "onboarding_base s" and ok: "apply_step st user p s = (Inr r, s')"
  shows "onboards now s s'"
proof -
  have "\<exists>x y i. s' = put_startup x (update_user i (\<lambda>_. y) s)"
    using ok by (auto simp: apply_step_def Let_def split: if_splits option.splits)
  then obtain x y i where "s' = put_startup x (update_user i (\<lambda>_. y) s)" by blast
  then show ?thesis by (intro onboards_frame [OF base]) (simp_all, simp_all add: put_startup_def update_user_def)
qed

text \<open>Inviting, accepting and completing keep the invariant of onboarding.\<close>

section \<open>Inviting\<close>

lemma new_invitation_simps [simp]:
  "in_id (new_invitation h t k st u e ro raw) = k" "in_startup_id (new_invitation h t k st u e ro raw) = st_id st"
  "in_status (new_invitation h t k st u e ro raw) = IS_pending" "in_email (new_invitation h t k st u e ro raw) = e"
  "in_token_hash (new_invitation h t k st u e ro raw) = h raw" "in_role (new_invitation h t k st u e ro raw) = ro"
  "in_expires_at (new_invitation h t k st u e ro raw) = t + invite_ttl" "invitation_ok ms (new_invitation h t k st u e ro raw)"
  "address (new_invitation h t k st u e ro raw) = (st_id st, lower_str e)"
  by (simp_all add: new_invitation_def invitation_ok_def address_def)

definition covered :: "startup \<Rightarrow> 'a onboarding_db_scheme \<Rightarrow> string list \<Rightarrow> 'a onboarding_db_scheme \<Rightarrow> bool" where
  "covered st s0 handled s \<longleftrightarrow>
     (\<forall>i \<in> set (invitations s). in_status i = IS_pending \<longrightarrow> in_startup_id i = st_id st \<longrightarrow>
        lower_str (in_email i) \<in> set handled \<or> pending_for st (in_email i) s0 \<noteq> None)"

lemma pending_for_iff:
  "pending_for st e s = None \<longleftrightarrow>
   (\<forall>i \<in> set (invitations s). in_status i = IS_pending \<longrightarrow> address i \<noteq> (st_id st, lower_str e))"
  by (auto simp: pending_for_def find_None_iff address_def citext_eq_def)

lemma pending_for_cong: "lower_str e = lower_str e' \<Longrightarrow> pending_for st e s = pending_for st e' s"
  by (simp add: pending_for_def citext_eq_def)

lemma covered_start: "covered st s [] s"
proof -
  have "pending_for st (in_email i) s \<noteq> None"
    if "i \<in> set (invitations s)" "in_status i = IS_pending" "in_startup_id i = st_id st" for i
    using that by (auto simp: pending_for_iff address_def)
  then show ?thesis by (simp add: covered_def)
qed

lemma add_invitation_ok:
  assumes base: "onboarding_base s" and st: "st_id st < fresh s" and cov: "covered st s0 handled s"
    and new: "lower_str e \<notin> set handled" "pending_for st e s0 = None"
    and s1_def: "s1 = s\<lparr>fresh := Suc (fresh s), invitations := invitations s @ [new_invitation h now (fresh s) st u e ro raw]\<rparr>"
  shows "onboards now s s1" "covered st s0 (lower_str e # handled) s1"
proof -
  have free: "address i \<noteq> (st_id st, lower_str e)" if "i \<in> set (invitations s)" "in_status i = IS_pending" for i
  proof
    assume a: "address i = (st_id st, lower_str e)"
    then have "lower_str (in_email i) \<in> set handled \<or> pending_for st (in_email i) s0 \<noteq> None"
      using cov that by (auto simp: covered_def address_def)
    moreover have "pending_for st (in_email i) s0 = pending_for st e s0"
      by (rule pending_for_cong) (use a in \<open>simp add: address_def\<close>)
    ultimately show False using a new by (simp add: address_def)
  qed
  have "(st_id st, lower_str e) \<notin> address ` set (filter (\<lambda>i. in_status i = IS_pending) (invitations s))"
  proof
    assume "(st_id st, lower_str e) \<in> address ` set (filter (\<lambda>i. in_status i = IS_pending) (invitations s))"
    then obtain i where i: "i \<in> set (filter (\<lambda>i. in_status i = IS_pending) (invitations s))" "(st_id st, lower_str e) = address i"
      by blast
    show False using free [of i] i(1) i(2) [symmetric] by simp
  qed
  then have "onboarding_base s1"
    using base st keyed_add [OF baseD(1) [OF base], of "new_invitation h now (fresh s) st u e ro raw"]
    unfolding onboarding_base_def s1_def by simp
  moreover have "moves in_id id (invitation_le now) (fresh s) (invitations s) (invitations s1)"
    unfolding s1_def by simp (rule moves_append, simp_all)
  ultimately show "onboards now s s1" by (auto simp: onboards_def s1_def)
  show "covered st s0 (lower_str e # handled) s1" using cov by (auto simp: covered_def s1_def)
qed

lemma invite_all_ok:
  assumes "onboarding_base s" "st_id st < fresh s" "covered st s0 handled s"
  shows "onboards now s (snd (snd (invite_all h send now st u s0 handled items s)))"
  using assms
proof (induction items arbitrary: s handled)
  case Nil
  then show ?case by (simp add: onboards_refl)
next
  case (Cons item items)
  obtain e ro raw where item: "item = (e, ro, raw)" by (cases item)
  show ?case
  proof (cases "lower_str e \<in> set handled \<or> pending_for st e s0 \<noteq> None \<or> is_active_member_email st e s0")
    case True
    then show ?thesis using Cons.IH [OF Cons.prems] by (auto simp: item split: prod.splits sum.splits)
  next
    case False
    let ?s1 = "s\<lparr>fresh := Suc (fresh s), invitations := invitations s @ [new_invitation h now (fresh s) st u e ro raw]\<rparr>"
    have free: "lower_str e \<notin> set handled" "pending_for st e s0 = None" using False by simp_all
    note add = add_invitation_ok [OF Cons.prems free refl, where h = h and now = now and u = u and ro = ro and raw = raw]
    show ?thesis
    proof (cases "send (invite_email st e raw)")
      case (Inl x)
      then show ?thesis using False add(1) by (simp add: item Let_def)
    next
      case (Inr x)
      let ?p = "[(''startup_id'', JUid (st_id st)), (''email'', JStr e), (''role'', JStr (membership_role_value ro))]"
      let ?s2 = "publish now ''workspace.member.invited'' ?p ?s1"
      have 2: "onboards now s ?s2" by (rule onboards_publish [OF add(1)])
      have "st_id st < fresh ?s2" using Cons.prems(2) 2 unfolding onboards_def by linarith
      moreover have "covered st s0 (lower_str e # handled) ?s2" using add(2) by (simp add: covered_def)
      ultimately have "onboards now ?s2 (snd (snd (invite_all h send now st u s0 (lower_str e # handled) items ?s2)))"
        by (rule Cons.IH [OF onboards_base [OF 2]])
      then have "onboards now s (snd (snd (invite_all h send now st u s0 (lower_str e # handled) items ?s2)))"
        by (rule onboards_trans [OF 2])
      then show ?thesis using False Inr by (auto simp: item Let_def split: prod.splits sum.splits)
    qed
  qed
qed

lemma create_invitations_ok:
  assumes "onboarding_base s" "st_id st < fresh s" "create_invitations h send now st u items s = (Inr r, ms, s')"
  shows "onboards now s s'" "distinct (map in_token_hash (invitations s'))"
  using invite_all_ok [OF assms(1,2) covered_start, of now h send u items] assms(3)
  by (auto simp: create_invitations_def split: prod.splits sum.splits if_splits)

section \<open>Accepting\<close>

lemma pending_update:
  "filter (\<lambda>i. in_status i = IS_pending) (update_where P (accepted now u) t)
     = filter (\<lambda>i. \<not> P i) (filter (\<lambda>i. in_status i = IS_pending) t)"
  by (induction t) auto

lemma accept_state:
  assumes "accept_invitation h now u raw s = (Inr m, s')"
  obtains i s1 where "i \<in> set (invitations s)" "in_token_hash i = h raw" "in_status i = IS_pending" "now \<le> in_expires_at i"
    "lower_str (u_email u) = lower_str (in_email i)"
    "s1 = s \<and> m \<in> set (memberships s) \<and> member_key m = (u_id u, in_startup_id i)
       \<or> (u_id u, in_startup_id i) \<notin> member_key ` set (memberships s) \<and> m = joined_membership now (fresh s) u i
         \<and> s1 = s\<lparr>fresh := Suc (fresh s), memberships := memberships s @ [m]\<rparr>"
    "s' = publish now ''workspace.member.joined'' [(''startup_id'', JUid (in_startup_id i)), (''user_id'', JUid (u_id u)),
        (''role'', JStr (membership_role_value (in_role i)))]
       (s1\<lparr>invitations := update_where (\<lambda>x. in_id x = in_id i) (accepted now u) (invitations s1)\<rparr>)"
proof (cases "invitation_by_token h raw s")
  case None
  then show thesis using assms by (simp add: accept_invitation_def)
next
  case (Some i)
  then have i: "i \<in> set (invitations s)" "in_token_hash i = h raw"
    by (auto simp: invitation_by_token_def dest: find_SomeD)
  have ok: "in_status i = IS_pending" "now \<le> in_expires_at i" "lower_str (u_email u) = lower_str (in_email i)"
    using assms Some by (auto simp: accept_invitation_def split: if_splits)
  show thesis
  proof (cases "find (\<lambda>m. m_user_id m = u_id u \<and> m_startup_id m = in_startup_id i) (memberships s)")
    case (Some x)
    then have "m = x" using assms \<open>invitation_by_token h raw s = Some i\<close> ok by (simp add: accept_invitation_def)
    then have "s = s \<and> m \<in> set (memberships s) \<and> member_key m = (u_id u, in_startup_id i)"
      using find_SomeD [OF Some] by (simp add: member_key_def)
    then show thesis
      by (rule that [OF i ok disjI1]) (use assms Some \<open>invitation_by_token h raw s = Some i\<close> ok in \<open>simp add: accept_invitation_def\<close>)
  next
    case None
    have "(u_id u, in_startup_id i) \<notin> member_key ` set (memberships s)"
    proof
      assume "(u_id u, in_startup_id i) \<in> member_key ` set (memberships s)"
      then obtain x where x: "x \<in> set (memberships s)" "(u_id u, in_startup_id i) = member_key x" by blast
      show False using find_NoneD [OF None x(1)] x(2) by (simp add: member_key_def)
    qed
    moreover have "m = joined_membership now (fresh s) u i"
      using assms None \<open>invitation_by_token h raw s = Some i\<close> ok by (simp add: accept_invitation_def Let_def)
    ultimately show thesis
      by (intro that [OF i ok disjI2]) (use assms None \<open>invitation_by_token h raw s = Some i\<close> ok in \<open>auto simp: accept_invitation_def Let_def\<close>)
  qed
qed

lemma accept_ok:
  assumes inv: "onboarding_inv s" and ok: "accept_invitation h now u raw s = (Inr m, s')"
  shows "onboards now s s'"
proof -
  note base = onboardingD(1) [OF inv]
  obtain i s1 where i: "i \<in> set (invitations s)" "in_token_hash i = h raw" "in_status i = IS_pending"
      "now \<le> in_expires_at i" "lower_str (u_email u) = lower_str (in_email i)"
    and s1: "s1 = s \<and> m \<in> set (memberships s) \<and> member_key m = (u_id u, in_startup_id i)
       \<or> (u_id u, in_startup_id i) \<notin> member_key ` set (memberships s) \<and> m = joined_membership now (fresh s) u i
         \<and> s1 = s\<lparr>fresh := Suc (fresh s), memberships := memberships s @ [m]\<rparr>"
    and s': "s' = publish now ''workspace.member.joined'' [(''startup_id'', JUid (in_startup_id i)), (''user_id'', JUid (u_id u)),
        (''role'', JStr (membership_role_value (in_role i)))]
       (s1\<lparr>invitations := update_where (\<lambda>x. in_id x = in_id i) (accepted now u) (invitations s1)\<rparr>)"
    by (rule accept_state [OF ok])
  have below: "in_startup_id i < fresh s" using baseD(4) [OF base] i(1) by (auto simp: ids_below_def)
  have s1_base: "onboarding_base s1 \<and> invitations s1 = invitations s \<and> fresh s \<le> fresh s1
      \<and> member_key ` set (memberships s) \<subseteq> member_key ` set (memberships s1) \<and> (u_id u, in_startup_id i) \<in> member_key ` set (memberships s1)"
    using s1
  proof (elim disjE conjE)
    assume "s1 = s" "m \<in> set (memberships s)" "member_key m = (u_id u, in_startup_id i)"
    then show ?thesis using base by force
  next
    assume *: "(u_id u, in_startup_id i) \<notin> member_key ` set (memberships s)" "m = joined_membership now (fresh s) u i"
      "s1 = s\<lparr>fresh := Suc (fresh s), memberships := memberships s @ [m]\<rparr>"
    have "onboarding_base s1"
      using base *(1) below unfolding onboarding_base_def *(2,3)
      by (auto simp: joined_membership_def member_key_def intro: member_ok_mono)
    then show ?thesis by (auto simp: *(2,3) joined_membership_def member_key_def)
  qed
  let ?t = "update_where (\<lambda>x. in_id x = in_id i) (accepted now u) (invitations s)"
  have one: "x = i" if "x \<in> set (invitations s)" "in_id x = in_id i" for x
    using keyed_unique [OF baseD(1) [OF base] that(1) i(1) that(2)] .
  have "onboarding_base (s1\<lparr>invitations := ?t\<rparr>)"
  proof -
    have "keyed (fresh s1) in_id ?t"
      using s1_base baseD(1) by (intro keyed_put) (auto simp: onboarding_base_def)
    moreover have "map in_startup_id ?t = map in_startup_id (invitations s)" by (rule map_update_where) simp
    moreover have "invitation_ok (memberships s1) x" if x: "x \<in> set ?t" for x
    proof -
      obtain y where y: "y \<in> set (invitations s)" "x = (if in_id y = in_id i then accepted now u y else y)"
        by (rule in_update_whereE [OF x])
      show ?thesis
      proof (cases "in_id y = in_id i")
        case True
        then have "x = accepted now u i" using y(2) one [OF y(1) True] by simp
        then show ?thesis using s1_base by (simp add: invitation_ok_def)
      next
        case False
        then show ?thesis using y s1_base baseD(6) [of s1 y] by simp
      qed
    qed
    moreover have "distinct (map address (filter (\<lambda>i. in_status i = IS_pending) ?t))"
      unfolding pending_update by (rule distinct_map_filter) (rule baseD(7) [OF base])
    moreover have "ids_below (fresh s1) (map in_startup_id (invitations s))"
      using s1_base baseD(4) [of s1] by simp
    ultimately show ?thesis using s1_base unfolding onboarding_base_def by simp
  qed
  moreover have "moves in_id id (invitation_le now) (fresh s) (invitations s) ?t"
    by (rule moves_update) (use one i(3,4,5) in \<open>simp_all, force simp: invitation_le_def\<close>)
  moreover have "map in_token_hash ?t = map in_token_hash (invitations s)" by (rule map_update_where) simp
  moreover have "in_id ` set ?t = in_id ` set (invitations s)" by (metis set_map map_update_where accepted_simps(1))
  ultimately have "onboards now s (s1\<lparr>invitations := ?t\<rparr>)" using s1_base by (simp add: onboards_def)
  then show ?thesis unfolding s' using s1_base by (simp add: onboards_publish)
qed

section \<open>Completing\<close>

lemma add_tasks_onboarding [simp]:
  "invitations (add_tasks i k ts s) = invitations s" "memberships (add_tasks i k ts s) = memberships s"
  "startups (add_tasks i k ts s) = startups s"
  by (induction ts arbitrary: k s) (auto simp: fresh_id_def Let_def)

lemma add_milestones_onboarding [simp]:
  "invitations (add_milestones b p k ms s) = invitations s" "memberships (add_milestones b p k ms s) = memberships s"
  "startups (add_milestones b p k ms s) = startups s"
  by (induction ms arbitrary: k s) (auto simp: fresh_id_def Let_def)

lemma add_phases_onboarding [simp]:
  "invitations (add_phases b r k ps s) = invitations s" "memberships (add_phases b r k ps s) = memberships s"
  "startups (add_phases b r k ps s) = startups s"
  by (induction ps arbitrary: k s) (auto simp: fresh_id_def Let_def)

lemma add_tasks_fresh: "fresh s \<le> fresh (add_tasks i k ts s)"
proof (induction ts arbitrary: k s)
  case (Cons t ts)
  then show ?case by (cases t) (auto simp: fresh_id_def Let_def intro: Suc_leD order_trans [OF _ Cons.IH])
qed simp

lemma add_milestones_fresh: "fresh s \<le> fresh (add_milestones b p k ms s)"
proof (induction ms arbitrary: k s)
  case (Cons t ts)
  then show ?case
    by (cases t) (auto simp: fresh_id_def Let_def intro!: order_trans [OF _ Cons.IH] order_trans [OF _ add_tasks_fresh])
qed simp

lemma add_phases_fresh: "fresh s \<le> fresh (add_phases b r k ps s)"
proof (induction ps arbitrary: k s)
  case (Cons t ts)
  then show ?case
    by (cases t) (auto simp: fresh_id_def Let_def intro!: order_trans [OF _ Cons.IH] order_trans [OF _ add_milestones_fresh])
qed simp

lemma generate_onboards:
  assumes "onboarding_base s"
  shows "onboards now s (snd (generate_roadmap now today st s))"
proof (cases "roadmap_of s (st_id st)")
  case None
  show ?thesis
    using None by (auto simp: generate_roadmap_def fresh_id_def Let_def case_prod_unfold intro!: onboards_publish onboards_frame [OF assms]
        order_trans [OF _ add_phases_fresh])
qed (simp add: generate_roadmap_def onboards_refl [OF assms])

lemma enqueue_onboards: "onboarding_base s \<Longrightarrow> enqueue now ty p st s = (j, s') \<Longrightarrow> onboards now s s'"
  by (rule onboards_frame) (auto simp: enqueue_def Let_def)

lemma completion_ok:
  assumes base: "onboarding_base s" and ok: "complete_onboarding now today st u s = (Inr r, s')"
  shows "onboards now s s'"
proof -
  obtain sp where sp: "st_profile st = Some sp" using ok by (cases "st_profile st") (simp_all add: complete_onboarding_def)
  show ?thesis
  proof (cases "sp_onboarding_completed_at sp")
    case (Some t)
    then show ?thesis using ok sp onboards_refl [OF base] by (simp add: complete_onboarding_def)
  next
    case None
    have g: "gate st sp u = []" using ok sp None by (simp add: complete_onboarding_def split: if_splits)
    let ?st = "st\<lparr>st_profile := Some (sp\<lparr>sp_onboarding_completed_at := Some now, sp_assessment_pending := True\<rparr>)\<rparr>"
    obtain ro s2 where r: "generate_roadmap now today ?st (put_startup ?st s) = (ro, s2)"
      by (cases "generate_roadmap now today ?st (put_startup ?st s)")
    obtain j1 s3 where j1: "enqueue now ''roadmap.generate'' (startup_payload_of ?st) (Some (st_id ?st)) s2 = (j1, s3)"
      by (cases "enqueue now ''roadmap.generate'' (startup_payload_of ?st) (Some (st_id ?st)) s2")
    let ?s4 = "s3\<lparr>jobs := update_where (\<lambda>j. j_id j = j_id j1) (\<lambda>j. j\<lparr>j_status := JS_succeeded\<rparr>) (jobs s3)\<rparr>"
    obtain j2 s5 where j2: "enqueue now ''healthscore.initialize'' (startup_payload_of ?st) (Some (st_id ?st)) ?s4 = (j2, s5)"
      by (cases "enqueue now ''healthscore.initialize'' (startup_payload_of ?st) (Some (st_id ?st)) ?s4")
    have "onboards now s (put_startup ?st s)"
      by (rule onboards_frame [OF base]) (simp_all, simp_all add: put_startup_def)
    moreover have "onboards now (put_startup ?st s) s2" using generate_onboards [OF onboards_base [OF calculation], of now today ?st] r by simp
    ultimately have 2: "onboards now s s2" by (rule onboards_trans)
    have 3: "onboards now s s3" by (rule onboards_trans [OF 2 enqueue_onboards [OF onboards_base [OF 2] j1]])
    have 4: "onboards now s ?s4" by (rule onboards_trans [OF 3 onboards_frame [OF onboards_base [OF 3]]]) simp_all
    have 5: "onboards now s s5" by (rule onboards_trans [OF 4 enqueue_onboards [OF onboards_base [OF 4] j2]])
    have "\<exists>p q e f. s' = publish now e p (publish now f q s5)"
      using ok sp None g r j1 j2 by (auto simp: complete_onboarding_def Let_def)
    then show ?thesis using onboards_publish [OF onboards_publish [OF 5]] by auto
  qed
qed

end
