(* ===== verification/Onboarding_Histories.thy ===== *)
theory Onboarding_Histories
  imports Onboarding_Inv
begin

text \<open>
  The requests of onboarding and their histories, and what holds along them. Requests are served one after
  the other: two that overlap are not ordered by a lock here, only by the unique constraints.
\<close>

section \<open>Requests\<close>

text \<open>What the sender of e-mails and the object store answer belongs to the call.\<close>

datatype onboarding_request =
    Read_state
  | Patch_state state_patch
  | Upload_logo "string \<Rightarrow> string \<Rightarrow> string \<Rightarrow> string result" string string "string list"
  | Invite_people "invite_mail \<Rightarrow> unit result" "(string \<times> membership_role \<times> string) list"
  | Finish_onboarding day
  | Accept_invite string

record onboarding_call =
  oq_credential :: "string option"
  oq_now :: instant
  oq_request :: onboarding_request

fun onboarding_body ::
    "(uid \<Rightarrow> string) \<Rightarrow> (string \<Rightarrow> string) \<Rightarrow> instant \<Rightarrow> onboarding_request \<Rightarrow> user \<Rightarrow> 'a onboarding_db_scheme
     \<Rightarrow> unit result \<times> 'a onboarding_db_scheme" where
  "onboarding_body text_of hash now Read_state u s = map_prod ignore id (get_state now u s)"
| "onboarding_body text_of hash now (Patch_state p) u s = map_prod ignore id (patch_state now p u s)"
| "onboarding_body text_of hash now (Upload_logo save ct hex chunks) u s =
     map_prod ignore id (upload_logo text_of save now ct hex chunks u s)"
| "onboarding_body text_of hash now (Invite_people send items) u s =
     map_prod (ignore \<circ> fst) id (post_invites hash send now items u s)"
| "onboarding_body text_of hash now (Finish_onboarding today) u s = map_prod ignore id (post_complete now today u s)"
| "onboarding_body text_of hash now (Accept_invite raw) u s = map_prod ignore id (accept_endpoint hash now raw u s)"

definition serve_onboarding ::
    "(uid \<Rightarrow> string) \<Rightarrow> (string \<Rightarrow> string) \<Rightarrow> (string \<Rightarrow> json option) \<Rightarrow> onboarding_call \<Rightarrow> 'a onboarding_db_scheme
     \<Rightarrow> unit result \<times> 'a onboarding_db_scheme" where
  "serve_onboarding text_of hash decode q s =
     account_request decode (oq_credential q) (onboarding_body text_of hash (oq_now q) (oq_request q)) Inl s"

section \<open>Each request keeps the invariant\<close>

definition kept :: "instant \<Rightarrow> 'a onboarding_db_scheme \<Rightarrow> 'a onboarding_db_scheme \<Rightarrow> bool" where
  "kept now s s' \<longleftrightarrow> onboards now s s' \<and> onboarding_inv s'"

lemma keptD: "kept now s s' \<Longrightarrow> onboards now s s'" "kept now s s' \<Longrightarrow> onboarding_inv s'"
  by (simp_all add: kept_def)

lemma kept_refl: "onboarding_inv s \<Longrightarrow> kept now s s"
  by (simp add: kept_def onboarding_inv_def onboards_refl)

lemma kept_trans: "kept now s s' \<Longrightarrow> kept now s' s'' \<Longrightarrow> kept now s s''"
  unfolding kept_def using onboards_trans by blast

lemma kept_quiet: "onboarding_inv s \<Longrightarrow> onboards now s s' \<Longrightarrow> invitations s' = invitations s \<Longrightarrow> kept now s s'"
  by (simp add: kept_def onboarding_inv_def onboards_base)

lemma invitation_le_since: "since \<le> now \<Longrightarrow> invitation_le now i j \<Longrightarrow> invitation_le since i j"
  unfolding invitation_le_def by (elim disjE conjE exE) (blast, blast intro: order_trans)

lemma kept_since: "since \<le> now \<Longrightarrow> kept now s s' \<Longrightarrow> kept since s s'"
  unfolding kept_def onboards_def moves_def by (simp add: invitation_le_since)

lemma run_tx_kept:
  assumes "onboarding_inv s" "\<And>v s'. f s = (Inr v, s') \<Longrightarrow> kept now s s'"
  shows "kept now s (snd (run_tx f s))"
  using assms kept_refl [OF assms(1)] by (cases "f s"; cases "fst (f s)") (auto simp: run_tx_def)

lemma resolve_kept:
  assumes "onboarding_inv s" "resolve_or_create_workspace now u s = (st, s')"
  shows "kept now s s'" "st \<in> set (startups s')"
  using resolve_ok [OF onboardingD(1) [OF assms(1)] assms(2)] kept_quiet [OF assms(1)] by simp_all

lemma apply_step_invitations: "apply_step st user p s = (Inr r, s') \<Longrightarrow> invitations s' = invitations s"
  by (auto simp: apply_step_def Let_def put_startup_def update_user_def split: if_splits option.splits)

lemma apply_step_kept: "onboarding_inv s \<Longrightarrow> apply_step st user p s = (Inr r, s') \<Longrightarrow> kept now s s'"
  by (rule kept_quiet [OF _ apply_step_ok [OF onboardingD(1)] apply_step_invitations])

lemma put_startup_kept: "onboarding_inv s \<Longrightarrow> kept now s (put_startup st s)"
  by (rule kept_quiet [OF _ onboards_frame [OF onboardingD(1)]]) (simp_all, simp_all add: put_startup_def)

lemma generate_invitations [simp]: "invitations (snd (generate_roadmap now today st s)) = invitations s"
  by (cases "roadmap_of s (st_id st)") (auto simp: generate_roadmap_def fresh_id_def Let_def case_prod_unfold)

lemma enqueue_invitations [simp]: "invitations (snd (enqueue now ty p st s)) = invitations s"
  by (simp add: enqueue_def Let_def)

lemma complete_invitations: "complete_onboarding now today st u s = (Inr r, s') \<Longrightarrow> invitations s' = invitations s"
  by (auto simp: complete_onboarding_def Let_def case_prod_unfold put_startup_def split: option.splits if_splits)

lemma complete_kept: "onboarding_inv s \<Longrightarrow> complete_onboarding now today st u s = (Inr r, s') \<Longrightarrow> kept now s s'"
  by (rule kept_quiet [OF _ completion_ok [OF onboardingD(1)] complete_invitations])

lemma create_invitations_kept:
  assumes inv: "onboarding_inv s" and st: "st \<in> set (startups s)"
    and ok: "create_invitations h send now st u items s = (Inr r, ms, s')"
  shows "kept now s s'"
proof -
  note base = onboardingD(1) [OF inv]
  note c = create_invitations_ok [OF base startup_below [OF base st] ok]
  show ?thesis using c onboards_base [OF c(1)] by (simp add: kept_def onboarding_inv_def)
qed

lemma accepted_tokens [simp]: "map in_token_hash (update_where P (accepted now u) t) = map in_token_hash t"
  by (rule map_update_where) simp

lemma accept_kept:
  assumes inv: "onboarding_inv s" and ok: "accept_invitation h now u raw s = (Inr m, s')"
  shows "kept now s s'"
proof -
  have "map in_token_hash (invitations s') = map in_token_hash (invitations s)"
    by (rule accept_state [OF ok]) auto
  then show ?thesis
    using accept_ok [OF assms] onboardingD(2) [OF inv] by (simp add: kept_def onboarding_inv_def onboards_base)
qed

lemma activity_kept: "onboarding_inv s \<Longrightarrow> kept now s (write_activity t st a x u e i d s)"
  by (rule kept_quiet [OF _ onboards_frame [OF onboardingD(1)]]) (simp_all add: write_activity_def Let_def)

lemma onboarding_body_kept:
  assumes inv: "onboarding_inv s"
  shows "kept now s (snd (onboarding_body text_of h now q u s))"
proof -
  obtain st s1 where r: "resolve_or_create_workspace now u s = (st, s1)"
    by (cases "resolve_or_create_workspace now u s")
  note 1 = resolve_kept [OF inv r]
  note inv1 = keptD(2) [OF 1(1)]
  show ?thesis
  proof (cases q)
    case Read_state
    have "kept now s (snd (get_state now u s))"
      unfolding get_state_def by (rule run_tx_kept [OF inv]) (use r 1 in auto)
    then show ?thesis by (simp add: Read_state)
  next
    case (Patch_state p)
    have "kept now s (snd (patch_state now p u s))"
      unfolding patch_state_def
      by (rule run_tx_kept [OF inv])
        (use r in \<open>auto split: if_splits sum.splits prod.splits intro: kept_trans [OF 1(1) apply_step_kept [OF inv1]]\<close>)
    then show ?thesis by (simp add: Patch_state)
  next
    case (Upload_logo save ct hex chunks)
    have "kept now s (snd (upload_logo text_of save now ct hex chunks u s))"
      unfolding upload_logo_def
      by (rule run_tx_kept [OF inv])
        (use r in \<open>auto split: option.splits sum.splits intro: kept_trans [OF 1(1) put_startup_kept [OF inv1]]\<close>)
    then show ?thesis by (simp add: Upload_logo)
  next
    case (Invite_people send items)
    have "kept now s (snd (post_invites h send now items u s))"
      using r by (auto simp: post_invites_def kept_refl [OF inv] split: sum.splits prod.splits
          intro: kept_trans [OF 1(1) create_invitations_kept [OF inv1 1(2)]])
    then show ?thesis by (simp add: Invite_people)
  next
    case (Finish_onboarding today)
    have "kept now s (snd (post_complete now today u s))"
      unfolding post_complete_def
      by (rule run_tx_kept [OF inv]) (use r in \<open>auto intro: kept_trans [OF 1(1) complete_kept [OF inv1]]\<close>)
    then show ?thesis by (simp add: Finish_onboarding)
  next
    case (Accept_invite raw)
    have "kept now s (snd (accept_endpoint h now raw u s))"
      unfolding accept_endpoint_def
      by (rule run_tx_kept [OF inv])
        (auto split: sum.splits prod.splits intro: kept_trans [OF accept_kept [OF inv] activity_kept [OF keptD(2) [OF accept_kept [OF inv]]]])
    then show ?thesis by (simp add: Accept_invite)
  qed
qed

lemma serve_onboarding_kept: "onboarding_inv s \<Longrightarrow> kept (oq_now q) s (snd (serve_onboarding text_of h decode q s))"
  by (auto simp: serve_onboarding_def account_request_def kept_refl onboarding_body_kept split: sum.split)

text \<open>Histories of onboarding: what becomes of an invitation, and what accepting one does.\<close>

section \<open>Histories\<close>

text \<open>
  A request at or after the instant \<open>since\<close>, and \<open>elsewhere\<close>, the rest of the application: it creates
  neither invitations nor workspaces nor memberships, and may change their other columns.
\<close>

inductive onboarding_step ::
    "(uid \<Rightarrow> string) \<Rightarrow> (string \<Rightarrow> string) \<Rightarrow> (string \<Rightarrow> json option) \<Rightarrow> instant
     \<Rightarrow> 'a onboarding_db_scheme \<Rightarrow> 'a onboarding_db_scheme \<Rightarrow> bool"
  for text_of :: "uid \<Rightarrow> string" and hash :: "string \<Rightarrow> string" and decode :: "string \<Rightarrow> json option" and since :: instant where
  request: "since \<le> oq_now q \<Longrightarrow> onboarding_step text_of hash decode since s (snd (serve_onboarding text_of hash decode q s))"
| elsewhere: "fresh s \<le> fresh s' \<Longrightarrow> invitations s' = invitations s
    \<Longrightarrow> map member_key (memberships s') = map member_key (memberships s)
    \<Longrightarrow> map st_id (startups s') = map st_id (startups s) \<Longrightarrow> onboarding_step text_of hash decode since s s'"

definition onboarding_reachable ::
    "(uid \<Rightarrow> string) \<Rightarrow> (string \<Rightarrow> string) \<Rightarrow> (string \<Rightarrow> json option) \<Rightarrow> 'a onboarding_db_scheme \<Rightarrow> bool" where
  "onboarding_reachable text_of hash decode s \<longleftrightarrow> (\<exists>since s0. invitations s0 = [] \<and> memberships s0 = [] \<and> startups s0 = []
     \<and> (onboarding_step text_of hash decode since)\<^sup>*\<^sup>* s0 s)"

lemma onboarding_step_kept:
  assumes "onboarding_step text_of hash decode since s s'" "onboarding_inv s"
  shows "kept since s s'"
  using assms(1)
proof (cases rule: onboarding_step.cases)
  case (request q)
  then show ?thesis using kept_since [OF _ serve_onboarding_kept [OF assms(2)]] by simp
next
  case elsewhere
  then show ?thesis by (intro kept_quiet [OF assms(2) onboards_elsewhere [OF onboardingD(1) [OF assms(2)]]])
qed

lemma onboarding_steps_kept:
  "(onboarding_step text_of hash decode since)\<^sup>*\<^sup>* s s' \<Longrightarrow> onboarding_inv s \<Longrightarrow> kept since s s'"
proof (induction rule: rtranclp_induct)
  case (step y z)
  then show ?case using onboarding_step_kept keptD(2) kept_trans by blast
qed (rule kept_refl)

lemma onboarding_reachable_inv: "onboarding_reachable text_of hash decode s \<Longrightarrow> onboarding_inv s"
proof -
  assume "onboarding_reachable text_of hash decode s"
  then obtain since s0 where s0: "invitations s0 = []" "memberships s0 = []" "startups s0 = []"
      "(onboarding_step text_of hash decode since)\<^sup>*\<^sup>* s0 s" by (auto simp: onboarding_reachable_def)
  have "onboarding_inv s0" using s0(1-3) by (simp add: onboarding_inv_def onboarding_base_def keyed_def)
  then show ?thesis using onboarding_steps_kept [OF s0(4)] keptD(2) by blast
qed

interpretation invited: monotone_rows "\<lambda>s. row_value in_id id (invitations s)" "invitation_le since" "\<lambda>s k. k < fresh s"
    onboarding_inv "onboarding_step text_of hash decode since" for text_of hash decode since
proof
  fix s s' :: "'a onboarding_db_scheme" and k v v'
  assume inv: "onboarding_inv s"
  note keys = baseD(1) [OF onboardingD(1) [OF inv]]
  have below: "row_value in_id id (invitations s) k = Some v \<Longrightarrow> k < fresh s" for v
    using keys by (auto simp: keyed_def row_value_def ids_below_def dest: find_SomeD)
  then show "row_value in_id id (invitations s) k = Some v \<Longrightarrow> k < fresh s" by blast
  assume step: "onboarding_step text_of hash decode since s s'"
  note l = onboarding_step_kept [OF step inv]
  then have m: "moves in_id id (invitation_le since) (fresh s) (invitations s) (invitations s')"
    by (simp add: kept_def onboards_def)
  show "onboarding_inv s'" by (rule keptD(2) [OF l])
  show "k < fresh s \<Longrightarrow> k < fresh s'" using l by (simp add: kept_def onboards_def)
  show "invitation_le since v v'" if "row_value in_id id (invitations s) k = Some v"
    "row_value in_id id (invitations s') k = Some v'"
    by (rule movesD(1) [OF m below [OF that(1)] that])
  show "row_value in_id id (invitations s') k = None"
    if "k < fresh s" "row_value in_id id (invitations s) k = None"
    by (rule movesD(2) [OF m that])
qed (simp, rule invitation_le_trans)

lemma invitation_row:
  "onboarding_inv s \<Longrightarrow> i \<in> set (invitations s) \<Longrightarrow> row_value in_id id (invitations s) (in_id i) = Some i"
  using row_value_row [of in_id "invitations s" i id] baseD(1) [OF onboardingD(1), of s] by (simp add: keyed_def)

lemma invitation_later:
  assumes inv: "onboarding_inv s" and steps: "(onboarding_step text_of hash decode since)\<^sup>*\<^sup>* s s'" and i: "i \<in> set (invitations s)"
  obtains j where "j \<in> set (invitations s')" "in_id j = in_id i" "invitation_le since i j"
proof -
  note inv' = invited.inv_steps [OF steps inv]
  have "in_id i \<in> in_id ` set (invitations s')"
    using onboarding_steps_kept [OF steps inv] i by (auto simp: kept_def onboards_def)
  then obtain j where j: "j \<in> set (invitations s')" "in_id i = in_id j" by blast
  have "invitation_le since i j"
    by (rule invited.view_steps [OF steps inv invitation_row [OF inv i]]) (simp add: j(2) invitation_row [OF inv' j(1)])
  then show thesis by (rule that [OF j(1) j(2) [symmetric]])
qed

text \<open>
  C36: along every history, no two invitations share a token hash, a workspace has at most one pending
  invitation for an address and an account at most one membership in it. An invitation is never deleted
  or changed but once, when it is accepted: by the account it was addressed to, whatever the case of the
  letters, before it expires, and that account is a member of the workspace from then on.
\<close>

theorem invitation_histories:
  assumes "onboarding_reachable text_of hash decode s" "(onboarding_step text_of hash decode since)\<^sup>*\<^sup>* s s'"
  shows "distinct (map in_token_hash (invitations s))
    \<and> distinct (map (\<lambda>i. (in_startup_id i, lower_str (in_email i))) (filter (\<lambda>i. in_status i = IS_pending) (invitations s)))
    \<and> distinct (map (\<lambda>m. (m_user_id m, m_startup_id m)) (memberships s))
    \<and> (\<forall>i \<in> set (invitations s). \<exists>j \<in> set (invitations s'). in_id j = in_id i
        \<and> (j = i \<or> in_status i = IS_pending \<and> (\<exists>now (u :: user). since \<le> now \<and> now \<le> in_expires_at i
             \<and> lower_str (u_email u) = lower_str (in_email i)
             \<and> j = i\<lparr>in_status := IS_accepted, in_accepted_at := Some now, in_accepted_user_id := Some (u_id u)\<rparr>
             \<and> (u_id u, in_startup_id i) \<in> (\<lambda>m. (m_user_id m, m_startup_id m)) ` set (memberships s'))))"
proof -
  note inv = onboarding_reachable_inv [OF assms(1)]
  note base = onboardingD(1) [OF inv] and inv' = invited.inv_steps [OF assms(2) inv]
  have "\<exists>j \<in> set (invitations s'). in_id j = in_id i
        \<and> (j = i \<or> in_status i = IS_pending \<and> (\<exists>now u. since \<le> now \<and> now \<le> in_expires_at i
             \<and> lower_str (u_email u) = lower_str (in_email i) \<and> j = accepted now u i
             \<and> (u_id u, in_startup_id i) \<in> member_key ` set (memberships s')))" if i: "i \<in> set (invitations s)" for i
  proof -
    obtain j where j: "j \<in> set (invitations s')" "in_id j = in_id i" "invitation_le since i j"
      by (rule invitation_later [OF inv assms(2) i])
    have "invitation_ok (memberships s') j" by (rule baseD(6) [OF onboardingD(1) [OF inv'] j(1)])
    then have "(u_id u, in_startup_id i) \<in> member_key ` set (memberships s')" if "j = accepted now u i" for now u
      using that by (auto simp: invitation_ok_def)
    then show ?thesis using j unfolding invitation_le_def by blast
  qed
  note later = this
  have views: "(\<lambda>m. (m_user_id m, m_startup_id m)) = member_key" "(\<lambda>i. (in_startup_id i, lower_str (in_email i))) = address"
    by (simp_all add: fun_eq_iff member_key_def address_def)
  show ?thesis
    unfolding views by (intro conjI ballI onboardingD(2) [OF inv] baseD(2,7) [OF base] later [unfolded accepted_def])
qed

section \<open>Accepting\<close>

lemma token_found:
  "onboarding_inv s \<Longrightarrow> i \<in> set (invitations s) \<Longrightarrow> in_token_hash i = h raw \<Longrightarrow> invitation_by_token h raw s = Some i"
  using find_key_unique [of in_token_hash "invitations s" i] onboardingD(2) [of s] by (simp add: invitation_by_token_def)

lemma accept_refused:
  "accept_endpoint h now raw u s = (Inl e, s') \<Longrightarrow> s' = s
     \<and> (e = TokenInvalid \<and> \<not> (\<exists>i. invitation_by_token h raw s = Some i \<and> in_status i = IS_pending \<and> now \<le> in_expires_at i)
       \<or> e = InviteEmailMismatch \<and> (\<exists>i. invitation_by_token h raw s = Some i \<and> lower_str (u_email u) \<noteq> lower_str (in_email i)))"
  by (auto simp: accept_endpoint_def run_tx_def accept_invitation_def Let_def split: option.splits if_splits prod.splits sum.splits)

lemma accept_endpoint_ok:
  "accept_endpoint h now raw u s = (Inr (w, role), s') \<Longrightarrow>
   \<exists>m s1. accept_invitation h now u raw s = (Inr m, s1) \<and> w = m_startup_id m \<and> role = m_role m
     \<and> invitations s' = invitations s1 \<and> memberships s' = memberships s1"
  by (auto simp: accept_endpoint_def run_tx_ok write_activity_def Let_def split: prod.splits sum.splits)

lemma spent_token:
  "onboarding_inv s \<Longrightarrow> i \<in> set (invitations s) \<Longrightarrow> in_token_hash i = h raw \<Longrightarrow> in_status i \<noteq> IS_pending \<or> in_expires_at i < now
   \<Longrightarrow> accept_endpoint h now raw u s = (Inl TokenInvalid, s)"
  using token_found [of s i h raw] by (auto simp: accept_endpoint_def run_tx_def accept_invitation_def)

text \<open>
  C37: accepting succeeds exactly for the token of a pending invitation that has not expired, held by the
  account it was addressed to, and is refused without any effect otherwise. It settles this invitation and
  no other; whoever is a member already stays what they were, anybody else becomes an active member with
  the role of the invitation; and the token is spent for everybody.
\<close>

theorem accept_spec:
  assumes "onboarding_reachable text_of hash decode s" "accept_endpoint hash now raw u s = (r, s')"
  shows "case r of
      Inl e \<Rightarrow> s' = s \<and> \<not> (\<exists>i \<in> set (invitations s). in_token_hash i = hash raw \<and> in_status i = IS_pending
        \<and> now \<le> in_expires_at i \<and> lower_str (u_email u) = lower_str (in_email i)) \<and> e \<in> {TokenInvalid, InviteEmailMismatch}
    | Inr (w, role) \<Rightarrow> (\<exists>i \<in> set (invitations s). in_token_hash i = hash raw \<and> in_status i = IS_pending \<and> now \<le> in_expires_at i
        \<and> lower_str (u_email u) = lower_str (in_email i) \<and> w = in_startup_id i
        \<and> invitations s' = map (\<lambda>x. if x = i then i\<lparr>in_status := IS_accepted, in_accepted_at := Some now,
              in_accepted_user_id := Some (u_id u)\<rparr> else x) (invitations s)
        \<and> (if \<exists>m \<in> set (memberships s). m_user_id m = u_id u \<and> m_startup_id m = w
           then memberships s' = memberships s \<and> (\<exists>m \<in> set (memberships s). m_user_id m = u_id u \<and> m_startup_id m = w \<and> m_role m = role)
           else role = in_role i \<and> memberships s' = memberships s @ [joined_membership now (fresh s) u i]))
      \<and> (\<forall>now' u'. accept_endpoint hash now' raw u' s' = (Inl TokenInvalid, s'))"
proof (cases r)
  case (Inl e)
  have "accept_endpoint hash now raw u s = (Inl e, s')" using assms(2) Inl by simp
  from accept_refused [OF this] show ?thesis
    using token_found [OF onboarding_reachable_inv [OF assms(1)], of _ hash raw] Inl by fastforce
next
  case (Inr v)
  note inv = onboarding_reachable_inv [OF assms(1)]
  obtain w role where v: "v = (w, role)" by (cases v)
  have "accept_endpoint hash now raw u s = (Inr (w, role), s')" using assms(2) Inr v by simp
  from accept_endpoint_ok [OF this] obtain m t where ok: "accept_invitation hash now u raw s = (Inr m, t)"
      "w = m_startup_id m" "role = m_role m" "invitations s' = invitations t" "memberships s' = memberships t" by blast
  obtain i s1 where i: "i \<in> set (invitations s)" "in_token_hash i = hash raw" "in_status i = IS_pending"
      "now \<le> in_expires_at i" "lower_str (u_email u) = lower_str (in_email i)"
    and s1: "s1 = s \<and> m \<in> set (memberships s) \<and> member_key m = (u_id u, in_startup_id i)
       \<or> (u_id u, in_startup_id i) \<notin> member_key ` set (memberships s) \<and> m = joined_membership now (fresh s) u i
         \<and> s1 = s\<lparr>fresh := Suc (fresh s), memberships := memberships s @ [m]\<rparr>"
    and t: "t = publish now ''workspace.member.joined'' [(''startup_id'', JUid (in_startup_id i)), (''user_id'', JUid (u_id u)),
        (''role'', JStr (membership_role_value (in_role i)))]
       (s1\<lparr>invitations := update_where (\<lambda>x. in_id x = in_id i) (accepted now u) (invitations s1)\<rparr>)"
    by (rule accept_state [OF ok(1)])
  have one: "in_id x = in_id i \<longleftrightarrow> x = i" if "x \<in> set (invitations s)" for x
    using keyed_unique [OF baseD(1) [OF onboardingD(1) [OF inv]] that i(1)] by auto
  have inv_s1: "invitations s1 = invitations s" using s1 by auto
  have invs: "invitations s' = map (\<lambda>x. if x = i then accepted now u i else x) (invitations s)"
    using one by (auto simp: ok(4) t inv_s1 update_where_def)
  have ms: "w = in_startup_id i \<and> (if (u_id u, in_startup_id i) \<in> member_key ` set (memberships s)
      then memberships s' = memberships s \<and> m \<in> set (memberships s) \<and> member_key m = (u_id u, in_startup_id i)
      else role = in_role i \<and> memberships s' = memberships s @ [joined_membership now (fresh s) u i])"
    using s1
  proof (elim disjE conjE)
    assume "s1 = s" "m \<in> set (memberships s)" "member_key m = (u_id u, in_startup_id i)"
    then show ?thesis by (force simp: ok t member_key_def)
  next
    assume "(u_id u, in_startup_id i) \<notin> member_key ` set (memberships s)" "m = joined_membership now (fresh s) u i"
      "s1 = s\<lparr>fresh := Suc (fresh s), memberships := memberships s @ [m]\<rparr>"
    then show ?thesis by (simp add: ok t joined_membership_def)
  qed
  have key: "(u_id u, in_startup_id i) \<in> member_key ` set (memberships s)
      \<longleftrightarrow> (\<exists>m \<in> set (memberships s). m_user_id m = u_id u \<and> m_startup_id m = in_startup_id i)"
    by (force simp: member_key_def)
  have inv': "onboarding_inv s'"
    using accept_kept [OF inv ok(1)] onboarding_body_kept [OF inv, where q = "Accept_invite raw" and u = u and h = hash and now = now] assms(2)
    by (simp add: kept_def)
  have "accepted now u i \<in> set (invitations s')" using i(1) by (force simp: invs)
  then have "accept_endpoint hash now' raw u' s' = (Inl TokenInvalid, s')" for now' u'
    by (rule spent_token [OF inv']) (simp_all add: i(2))
  moreover have "\<exists>m \<in> set (memberships s). m_user_id m = u_id u \<and> m_startup_id m = in_startup_id i \<and> m_role m = role"
    if "(u_id u, in_startup_id i) \<in> member_key ` set (memberships s)"
    using ms that ok(3) by (auto simp: member_key_def)
  ultimately show ?thesis
    using i ms unfolding key by (auto simp: Inr v invs accepted_def intro!: bexI [OF _ i(1)])
qed

end
