(* ===== verification/Onboarding_Ends.thy ===== *)
theory Onboarding_Ends
  imports Onboarding_Histories Roadmap_Requests Replan
begin

text \<open>Two ends: the invitation nobody took in time, and the completion of onboarding.\<close>

section \<open>An invitation that expired\<close>

lemma invite_all_blocked:
  assumes "pending_for st e0 s0 \<noteq> None" "invite_all h send now st u s0 handled items s = (r, ms, s')"
  shows "(\<forall>m \<in> set ms. lower_str (im_to m) \<noteq> lower_str e0)
    \<and> (\<forall>created skipped. r = Inr (created, skipped) \<longrightarrow>
        filter (\<lambda>e. lower_str e = lower_str e0) created = []
        \<and> filter (\<lambda>e. lower_str e = lower_str e0) skipped = filter (\<lambda>e. lower_str e = lower_str e0) (map fst items))"
  using assms(2)
proof (induction items arbitrary: handled s r ms s')
  case Nil
  then show ?case by auto
next
  case (Cons item items)
  obtain e ro raw where item: "item = (e, ro, raw)" by (cases item)
  show ?case
  proof (cases "lower_str e \<in> set handled \<or> pending_for st e s0 \<noteq> None \<or> is_active_member_email st e s0")
    case True
    obtain r1 ms1 s1 where rest: "invite_all h send now st u s0 handled items s = (r1, ms1, s1)"
      by (cases "invite_all h send now st u s0 handled items s")
    then have "ms = ms1" "r = (case r1 of Inl x \<Rightarrow> Inl x | Inr (c, k) \<Rightarrow> Inr (c, e # k))"
      using Cons.prems True by (auto simp: item split: sum.splits)
    then show ?thesis using Cons.IH [OF rest] by (auto simp: item split: sum.splits)
  next
    case False
    have other: "lower_str e \<noteq> lower_str e0" using False assms(1) pending_for_cong [of e e0 st s0] by auto
    define s1 where "s1 = s\<lparr>fresh := Suc (fresh s), invitations := invitations s @ [new_invitation h now (fresh s) st u e ro raw]\<rparr>"
    define s2 where "s2 = publish now ''workspace.member.invited''
      [(''startup_id'', JUid (st_id st)), (''email'', JStr e), (''role'', JStr (membership_role_value ro))] s1"
    have to: "im_to (invite_email st e raw) = e" by (simp add: invite_email_def)
    show ?thesis
    proof (cases "send (invite_email st e raw)")
      case (Inl x)
      then show ?thesis using Cons.prems False by (auto simp: item Let_def)
    next
      case (Inr x)
      obtain r1 ms1 t where rest: "invite_all h send now st u s0 (lower_str e # handled) items s2 = (r1, ms1, t)"
        by (cases "invite_all h send now st u s0 (lower_str e # handled) items s2")
      then have "ms = invite_email st e raw # ms1" "r = (case r1 of Inl x \<Rightarrow> Inl x | Inr (c, k) \<Rightarrow> Inr (e # c, k))"
        using Cons.prems False Inr by (auto simp: item Let_def s1_def [symmetric] s2_def [symmetric] split: sum.splits)
      then show ?thesis using Cons.IH [OF rest] other to by (auto simp: item split: sum.splits)
    qed
  qed
qed

lemma post_invites_blocked:
  assumes inv: "onboarding_inv s" and i: "i \<in> set (invitations s)" "in_status i = IS_pending"
    and own: "own_workspace (u_id u) s = Some st" "st_id st = in_startup_id i"
    and post: "post_invites h send now items u s = ((r, ms), s')"
  shows "(\<forall>m \<in> set ms. lower_str (im_to m) \<noteq> lower_str (in_email i))
    \<and> (\<forall>created skipped. r = Inr (created, skipped) \<longrightarrow>
        filter (\<lambda>e. lower_str e = lower_str (in_email i)) created = []
        \<and> filter (\<lambda>e. lower_str e = lower_str (in_email i)) skipped
            = filter (\<lambda>e. lower_str e = lower_str (in_email i)) (map fst items))"
proof -
  have res: "resolve_or_create_workspace now u s = (st, s)" using own(1) by (simp add: resolve_or_create_workspace_def)
  have "pending_for st (in_email i) s \<noteq> None" using i own(2) by (auto simp: pending_for_iff address_def)
  note blocked = invite_all_blocked [OF this, of h send now u "[]" items s]
  obtain r1 ms1 s1 where all: "invite_all h send now st u s [] items s = (r1, ms1, s1)"
    by (cases "invite_all h send now st u s [] items s")
  show ?thesis
  proof (cases "ensure_draft st")
    case (Inl e)
    then show ?thesis using post res by (auto simp: post_invites_def)
  next
    case (Inr x)
    then have "ms = ms1 \<and> (r = r1 \<or> (\<exists>e. r = Inl e))"
      using post res all by (auto simp: post_invites_def create_invitations_def split: sum.splits if_splits)
    then show ?thesis using blocked [OF all] by auto
  qed
qed

text \<open>
  C38: nothing takes an invitation back once it has expired: it stays pending in every later history, its
  token opens nothing, and every later invitation of that address to that workspace is reported as skipped,
  so that no message is sent to it again.
\<close>

theorem expired_invitation_blocks:
  assumes "onboarding_reachable text_of hash decode s" "i \<in> set (invitations s)" "in_status i = IS_pending"
    and "in_expires_at i < since" "since \<le> now" "(onboarding_step text_of hash decode since)\<^sup>*\<^sup>* s s'"
    and "own_workspace (u_id u) s' = Some st" "st_id st = in_startup_id i"
    and "post_invites hash send now items u s' = ((r, ms), s'')"
  shows "i \<in> set (invitations s')
    \<and> (\<forall>raw v. hash raw = in_token_hash i \<longrightarrow>
        accept_endpoint hash now raw v s' = (Inl TokenInvalid, s') \<and> preview_invitation hash now raw s' = Inl NotFound)
    \<and> (\<forall>m \<in> set ms. lower_str (im_to m) \<noteq> lower_str (in_email i))
    \<and> (\<forall>created skipped. r = Inr (created, skipped) \<longrightarrow>
        filter (\<lambda>e. lower_str e = lower_str (in_email i)) created = []
        \<and> filter (\<lambda>e. lower_str e = lower_str (in_email i)) skipped
            = filter (\<lambda>e. lower_str e = lower_str (in_email i)) (map fst items))"
proof -
  note inv = onboarding_reachable_inv [OF assms(1)]
  note inv' = invited.inv_steps [OF assms(6) inv]
  obtain j where j: "j \<in> set (invitations s')" "invitation_le since i j"
    by (rule invitation_later [OF inv assms(6,2)])
  have "j = i" using j(2) assms(4) unfolding invitation_le_def by (meson dual_order.strict_trans2 not_less_iff_gr_or_eq order_trans)
  then have i: "i \<in> set (invitations s')" using j(1) by simp
  have late: "in_expires_at i < now" using assms(4,5) by simp
  have "accept_endpoint hash now raw v s' = (Inl TokenInvalid, s') \<and> preview_invitation hash now raw s' = Inl NotFound"
    if "hash raw = in_token_hash i" for raw v
    using spent_token [OF inv' i, of hash raw now v] token_found [OF inv' i, of hash raw] that late
    by (simp add: preview_invitation_def)
  then show ?thesis using i post_invites_blocked [OF inv' i assms(3,7,8,9)] by blast
qed

section \<open>Completing\<close>

lemma find_replace:
  "find P xs = Some x \<Longrightarrow> P y \<Longrightarrow> Q x \<Longrightarrow> find P (map (\<lambda>a. if Q a then y else a) xs) = Some y"
  by (induction xs) (auto split: if_splits)

lemma own_workspace_put:
  assumes "own_workspace u s = Some st" "st_created_by st' = u" "st_deleted_at st' = None" "st_id st' = st_id st"
  shows "own_workspace u (put_startup st' s) = Some st'"
  using find_replace [of "\<lambda>x. st_created_by x = u \<and> st_deleted_at x = None" "rev (startups s)" st st' "\<lambda>x. st_id x = st_id st"] assms
  by (simp add: own_workspace_def put_startup_def update_where_def rev_map)

lemma own_workspace_cong: "startups s = startups t \<Longrightarrow> own_workspace u s = own_workspace u t"
  by (simp add: own_workspace_def)

lemma tree_roadmaps [simp]:
  "roadmaps (add_tasks i k ts s) = roadmaps s" "roadmaps (add_milestones d p k ms s) = roadmaps s"
  "roadmaps (add_phases d r k ps s) = roadmaps s"
proof -
  show t: "roadmaps (add_tasks i k ts s) = roadmaps s" for s :: "'a roadmap_db_scheme" and i k ts
    by (induction i k ts s rule: add_tasks.induct) (simp_all add: fresh_id_def)
  show m: "roadmaps (add_milestones d p k ms s) = roadmaps s" for s :: "'a roadmap_db_scheme" and d p k ms
    by (induction d p k ms s rule: add_milestones.induct) (simp_all add: fresh_id_def t)
  show "roadmaps (add_phases d r k ps s) = roadmaps s"
    by (induction d r k ps s rule: add_phases.induct) (simp_all add: fresh_id_def m)
qed

lemma generate_tables:
  "roadmap_of (snd (generate_roadmap now today st s)) (st_id st) \<noteq> None"
  "startups (snd (generate_roadmap now today st s)) = startups s"
  by (auto simp: generate_roadmap_def Let_def case_prod_unfold fresh_id_def roadmap_of_def find_append add_tree_startups
      split: option.split)

lemma onboarding_told [simp]:
  "publish now ''onboarding.completed'' p s = s\<lparr>events := events s @ [(''onboarding.completed'', p)]\<rparr>"
  "publish now ''notification.onboarding_complete'' p s = s\<lparr>events := events s @ [(''notification.onboarding_complete'', p)]\<rparr>"
  by (simp_all add: publish_def handle_def specs_def)

definition finished_workspace :: "instant \<Rightarrow> startup \<Rightarrow> startup_profile \<Rightarrow> startup" where
  "finished_workspace now st sp =
     st\<lparr>st_profile := Some (sp\<lparr>sp_onboarding_completed_at := Some now, sp_assessment_pending := True\<rparr>)\<rparr>"

lemma complete_first:
  assumes own: "own_workspace (u_id u) s = Some st" "st_profile st = Some sp" "sp_onboarding_completed_at sp = None" "gate st sp u = []"
  shows "\<exists>a b s'. complete_onboarding now today st u s
      = (Inr \<lparr>or_completed = True, or_assessment_pending = True, or_job_ids = [a, b]\<rparr>, s')
    \<and> own_workspace (u_id u) s' = Some (finished_workspace now st sp) \<and> roadmap_of s' (st_id st) \<noteq> None
    \<and> (\<exists>j \<in> set (jobs s'). j_id j = a \<and> j_type j = ''roadmap.generate'' \<and> j_status j = JS_succeeded)
    \<and> (\<exists>j \<in> set (jobs s'). j_id j = b \<and> j_type j = ''healthscore.initialize'' \<and> j_status j = JS_queued)
    \<and> (\<exists>es. events s' = es @ [(''onboarding.completed'', [(''startup_id'', JUid (st_id st)), (''user_id'', JUid (u_id u))]),
          (''notification.onboarding_complete'', [(''startup_id'', JUid (st_id st)), (''user_id'', JUid (u_id u))])])"
proof -
  let ?st = "finished_workspace now st sp"
  define s2 where "s2 = snd (generate_roadmap now today ?st (put_startup ?st s))"
  have id: "st_id ?st = st_id st" by (simp add: finished_workspace_def)
  have "own_workspace (u_id u) (put_startup ?st s) = Some ?st"
    by (rule own_workspace_put [OF own(1)]) (use own_workspace_in [OF own(1)] in \<open>simp_all add: finished_workspace_def\<close>)
  then have 2: "own_workspace (u_id u) s2 = Some ?st" "roadmap_of s2 (st_id st) \<noteq> None"
    using generate_tables [of now today ?st "put_startup ?st s"] own_workspace_cong [of s2 "put_startup ?st s"]
    by (simp_all add: s2_def id)
  let ?J1 = "new_job (fresh s2) now ''roadmap.generate'' [(''startup_id'', JUid (st_id st))] (Some (st_id st))"
  let ?J2 = "new_job (Suc (fresh s2)) now ''healthscore.initialize'' [(''startup_id'', JUid (st_id st))] (Some (st_id st))"
  let ?p = "[(''startup_id'', JUid (st_id st)), (''user_id'', JUid (u_id u))]"
  let ?s' = "s2\<lparr>fresh := Suc (Suc (fresh s2)),
      jobs := update_where (\<lambda>j. j_id j = fresh s2) (\<lambda>j. j\<lparr>j_status := JS_succeeded\<rparr>) (jobs s2 @ [?J1]) @ [?J2],
      events := events s2 @ [(''onboarding.completed'', ?p), (''notification.onboarding_complete'', ?p)]\<rparr>"
  have "complete_onboarding now today st u s
      = (Inr \<lparr>or_completed = True, or_assessment_pending = True, or_job_ids = [fresh s2, Suc (fresh s2)]\<rparr>, ?s')"
    using own(2-4) by (simp add: complete_onboarding_def Let_def case_prod_unfold finished_workspace_def [symmetric]
        s2_def [symmetric] enqueue_def startup_payload_of_def id new_job_def)
  moreover have "own_workspace (u_id u) ?s' = Some ?st" "roadmap_of ?s' (st_id st) \<noteq> None"
    using 2 by (simp_all add: own_workspace_def roadmap_of_def)
  moreover have "\<exists>j \<in> set (jobs ?s'). j_id j = fresh s2 \<and> j_type j = ''roadmap.generate'' \<and> j_status j = JS_succeeded"
    by (rule bexI [of _ "?J1\<lparr>j_status := JS_succeeded\<rparr>"]) (simp_all add: new_job_def update_where_def)
  moreover have "\<exists>j \<in> set (jobs ?s'). j_id j = Suc (fresh s2) \<and> j_type j = ''healthscore.initialize'' \<and> j_status j = JS_queued"
    by (rule bexI [of _ ?J2]) (simp_all add: new_job_def)
  moreover have "\<exists>es. events ?s' = es @ [(''onboarding.completed'', ?p), (''notification.onboarding_complete'', ?p)]" by simp
  ultimately show ?thesis by blast
qed

text \<open>A workspace that is complete.\<close>

lemma complete_closed:
  assumes "own_workspace (u_id u) s = Some st" "st_profile st = Some sp" "sp_onboarding_completed_at sp \<noteq> None"
  shows "post_complete now today u s = (Inr \<lparr>or_completed = True, or_assessment_pending = sp_assessment_pending sp, or_job_ids = []\<rparr>, s)"
    "valid_patch p = [] \<Longrightarrow> patch_state now p u s = (Inl OnboardingAlreadyComplete, s)"
    "map_of logo_types ct \<noteq> None \<Longrightarrow> upload_logo text_of save now ct hex chunks u s = (Inl OnboardingAlreadyComplete, s)"
    "post_invites h send now items u s = ((Inl OnboardingAlreadyComplete, []), s)"
  using assms by (auto simp: post_complete_def patch_state_def upload_logo_def post_invites_def run_tx_def ensure_draft_def
      resolve_or_create_workspace_def complete_onboarding_def)

text \<open>
  C39: completing is refused, without any effect, until the account's workspace has what the gate asks for.
  The first completion generates the roadmap, hands out its finished job and one waiting job, tells of it
  last, and closes the workspace: in the state it leaves a repeated completion changes nothing, and no step,
  no logo and no invitation is taken.
\<close>

theorem completion_closes:
  assumes "post_complete now today u s = (r, s')"
  shows "case r of
      Inl e \<Rightarrow> s' = s
    | Inr x \<Rightarrow> \<exists>st sp. own_workspace (u_id u) s' = Some st \<and> st_profile st = Some sp \<and> sp_onboarding_completed_at sp \<noteq> None
        \<and> (if or_job_ids x = [] then s' = s
           else sp_onboarding_completed_at sp = Some now \<and> sp_assessment_pending sp \<and> gate st sp u = []
             \<and> roadmap_of s' (st_id st) \<noteq> None
             \<and> (\<exists>a b. or_job_ids x = [a, b]
                 \<and> (\<exists>j \<in> set (jobs s'). j_id j = a \<and> j_type j = ''roadmap.generate'' \<and> j_status j = JS_succeeded)
                 \<and> (\<exists>j \<in> set (jobs s'). j_id j = b \<and> j_type j = ''healthscore.initialize'' \<and> j_status j = JS_queued))
             \<and> (\<exists>es. events s' = es @ map (\<lambda>e. (e, [(''startup_id'', JUid (st_id st)), (''user_id'', JUid (u_id u))]))
                 [''onboarding.completed'', ''notification.onboarding_complete'']))
        \<and> (\<forall>now' today'. post_complete now' today' u s'
             = (Inr \<lparr>or_completed = True, or_assessment_pending = sp_assessment_pending sp, or_job_ids = []\<rparr>, s'))
        \<and> (\<forall>now' p. valid_patch p = [] \<longrightarrow> patch_state now' p u s' = (Inl OnboardingAlreadyComplete, s'))
        \<and> (\<forall>text_of save now' ct hex chunks. map_of logo_types ct \<noteq> None \<longrightarrow>
             upload_logo text_of save now' ct hex chunks u s' = (Inl OnboardingAlreadyComplete, s'))
        \<and> (\<forall>h send now' items. post_invites h send now' items u s' = ((Inl OnboardingAlreadyComplete, []), s'))"
proof (cases r)
  case (Inl e)
  then show ?thesis using assms run_tx_error by (auto simp: post_complete_def)
next
  case (Inr x)
  obtain st s1 where res: "resolve_or_create_workspace now u s = (st, s1)" by (cases "resolve_or_create_workspace now u s")
  have c: "complete_onboarding now today st u s1 = (Inr x, s')" using assms Inr res by (simp add: post_complete_def run_tx_ok)
  have own: "own_workspace (u_id u) s1 = Some st"
    using res by (auto simp: resolve_or_create_workspace_def Let_def own_workspace_def split: option.splits)
  obtain sp where sp: "st_profile st = Some sp" using c by (cases "st_profile st") (simp_all add: complete_onboarding_def)
  show ?thesis
  proof (cases "sp_onboarding_completed_at sp")
    case (Some t)
    have s': "s' = s1" "or_job_ids x = []" using c sp Some by (auto simp: complete_onboarding_def)
    have "s1 = s"
    proof (cases "own_workspace (u_id u) s")
      case None
      then show ?thesis using res sp Some by (auto simp: resolve_or_create_workspace_def Let_def draft_startup_def)
    qed (use res in \<open>simp add: resolve_or_create_workspace_def\<close>)
    then show ?thesis
      using own sp Some s' complete_closed [OF own sp] by (simp add: Inr)
  next
    case None
    have gate: "gate st sp u = []" using c sp None by (simp add: complete_onboarding_def split: if_splits)
    let ?st = "finished_workspace now st sp" and ?sp = "sp\<lparr>sp_onboarding_completed_at := Some now, sp_assessment_pending := True\<rparr>"
    note f = complete_first [OF own sp None gate, of now today]
    have own': "own_workspace (u_id u) s' = Some ?st" using f c by auto
    have sp': "st_profile ?st = Some ?sp" "sp_onboarding_completed_at ?sp \<noteq> None" by (simp_all add: finished_workspace_def)
    have "gate ?st ?sp u = []" "st_id ?st = st_id st" using gate by (simp_all add: gate_def finished_workspace_def)
    then show ?thesis
      using f c own' complete_closed [OF own' sp'] by (auto simp: Inr sp' intro!: exI [of _ ?st])
  qed
qed

section \<open>The way to the completion\<close>

lemma resolve_users: "resolve_or_create_workspace now u s = (st, s1) \<Longrightarrow> users s1 = users s"
  by (auto simp: resolve_or_create_workspace_def Let_def split: option.splits)

lemma resolve_own: "resolve_or_create_workspace now u s = (st, s1) \<Longrightarrow> own_workspace (u_id u) s1 = Some st"
  by (auto simp: resolve_or_create_workspace_def Let_def own_workspace_def split: option.splits)

lemma current_user_put:
  assumes "get_current_user decode cr s = Inr u" "users s' = update_where (\<lambda>x. u_id x = u_id u) (\<lambda>_. u') (users s)"
    and "u_id u' = u_id u" "u_deleted_at u' = u_deleted_at u" "u_status u' = u_status u"
  shows "get_current_user decode cr s' = Inr u'"
proof -
  obtain t i where t: "cr = Some t" "decode t = Some (JUid i)" "truthy (JUid i)"
      "find (\<lambda>x. u_id x = i \<and> u_deleted_at x = None) (users s) = Some u" "u_status u \<noteq> US_disabled"
    using assms(1) by (auto simp: get_current_user_def split: option.splits if_splits json.splits)
  have "find (\<lambda>x. u_id x = i \<and> u_deleted_at x = None) (users s') = Some u'"
    using find_replace [OF t(4), of u' "\<lambda>x. u_id x = u_id u"] find_SomeD [OF t(4)] assms(2-4)
    by (simp add: update_where_def)
  then show ?thesis using t assms(5) by (simp add: get_current_user_def)
qed

definition drafting :: "startup \<Rightarrow> bool" where
  "drafting st \<longleftrightarrow> (\<exists>sp. st_profile st = Some sp \<and> sp_onboarding_completed_at sp = None)"

lemma resolve_drafting:
  "(\<forall>st. own_workspace (u_id u) s = Some st \<longrightarrow> drafting st) \<Longrightarrow> resolve_or_create_workspace now u s = (st, s1) \<Longrightarrow> drafting st"
  by (auto simp: resolve_or_create_workspace_def Let_def drafting_def draft_startup_def split: option.splits)

lemma patch_state_ok:
  assumes "\<forall>st. own_workspace (u_id u) s = Some st \<longrightarrow> drafting st" "valid_patch p = []" "u_profile u = Some up"
    and "fits_column 2 (up_country (patch_profile p up))" "fits_column 32 (up_phone (patch_profile p up))"
  obtains st sp v s1 where "patch_state now p u s = (Inr v, s1)" "st_profile st = Some sp" "sp_onboarding_completed_at sp = None"
    "own_workspace (u_id u) s1 = Some ((patch_startup p st)\<lparr>st_profile := Some (patch_startup_profile p sp)\<rparr>)"
    "users s1 = update_where (\<lambda>x. u_id x = u_id u) (\<lambda>_. u\<lparr>u_profile := Some (patch_profile p up)\<rparr>) (users s)"
proof -
  obtain st s0 where r: "resolve_or_create_workspace now u s = (st, s0)" by (cases "resolve_or_create_workspace now u s")
  obtain sp where sp: "st_profile st = Some sp" "sp_onboarding_completed_at sp = None"
    using resolve_drafting [OF assms(1) r] by (auto simp: drafting_def)
  let ?st = "(patch_startup p st)\<lparr>st_profile := Some (patch_startup_profile p sp)\<rparr>" and ?u = "u\<lparr>u_profile := Some (patch_profile p up)\<rparr>"
  let ?s1 = "put_startup ?st (update_user (u_id u) (\<lambda>_. ?u) s0)"
  have "apply_step st u p s0 = (Inr (?st, ?u), ?s1)"
    using assms(3-5) sp by (simp add: apply_step_def Let_def)
  then have "\<exists>v. patch_state now p u s = (Inr v, ?s1)"
    using assms(2) sp r by (simp add: patch_state_def run_tx_ok ensure_draft_def serialize_state_def)
  moreover have "own_workspace (u_id u) ?s1 = Some ?st"
    using own_workspace_put [of "u_id u" "update_user (u_id u) (\<lambda>_. ?u) s0" st ?st] resolve_own [OF r] own_workspace_in [OF resolve_own [OF r]]
    by (simp add: patch_startup_def own_workspace_def update_user_def)
  moreover have "users ?s1 = update_where (\<lambda>x. u_id x = u_id u) (\<lambda>_. ?u) (users s)"
    by (simp add: put_startup_def update_user_def resolve_users [OF r])
  ultimately show thesis using that sp by blast
qed

text \<open>
  C40: onboarding can always be finished. A verified account that has no workspace or whose workspace is a
  draft, and that sends the five things the gate asks for in one step, at whatever instants, is answered,
  and its next request to complete succeeds with the two jobs.
\<close>

theorem wizard_finishes:
  assumes "get_current_user decode cr s = Inr u" "get_verified_user u = Inr u" "u_profile u = Some up"
    and "\<forall>st. own_workspace (u_id u) s = Some st \<longrightarrow> drafting st"
    and "valid_patch p = []" "fits_column 2 (up_country (patch_profile p up))" "fits_column 32 (up_phone (patch_profile p up))"
    and "\<forall>x \<in> {pa_full_name p, pa_name p, pa_industry p}. \<exists>t. x = Some (Some t) \<and> t \<noteq> []"
    and "pa_stage p = Some (Some stage)" "pa_goals p = Some (Some goals)" "goals \<noteq> []"
  shows "\<exists>v s1 x s2. account_request decode cr (patch_state now p) Inl s = (Inr v, s1)
    \<and> account_request decode cr (post_complete now' today) Inl s1 = (Inr x, s2)
    \<and> or_completed x \<and> or_assessment_pending x \<and> length (or_job_ids x) = 2"
proof -
  obtain st sp v s1 where patch: "patch_state now p u s = (Inr v, s1)" "st_profile st = Some sp" "sp_onboarding_completed_at sp = None"
      "own_workspace (u_id u) s1 = Some ((patch_startup p st)\<lparr>st_profile := Some (patch_startup_profile p sp)\<rparr>)"
      "users s1 = update_where (\<lambda>x. u_id x = u_id u) (\<lambda>_. u\<lparr>u_profile := Some (patch_profile p up)\<rparr>) (users s)"
    by (rule patch_state_ok [OF assms(4,5,3,6,7)])
  let ?u = "u\<lparr>u_profile := Some (patch_profile p up)\<rparr>" and ?sp = "patch_startup_profile p sp"
  let ?st = "(patch_startup p st)\<lparr>st_profile := Some ?sp\<rparr>"
  have user: "get_current_user decode cr s1 = Inr ?u" "get_verified_user ?u = Inr ?u"
    using current_user_put [OF assms(1) patch(5)] assms(2) by (simp_all add: get_verified_user_def split: if_splits)
  have "gate ?st ?sp ?u = []"
    using assms(8-11) by (auto simp: gate_def truthy_text_def patch_profile_def patch_startup_def patch_startup_profile_def
        patched_field_def patched_required_def)
  then obtain a b s2 where "complete_onboarding now' today ?st ?u s1
      = (Inr \<lparr>or_completed = True, or_assessment_pending = True, or_job_ids = [a, b]\<rparr>, s2)"
    using complete_first [of ?u s1 ?st ?sp now' today] patch(3,4) by (auto simp: patch_startup_profile_def)
  then have "post_complete now' today ?u s1 = (Inr \<lparr>or_completed = True, or_assessment_pending = True, or_job_ids = [a, b]\<rparr>, s2)"
    using patch(4) by (simp add: post_complete_def run_tx_ok resolve_or_create_workspace_def)
  then show ?thesis using patch(1) assms(1,2) user by (simp add: account_request_def)
qed

text \<open>The properties of onboarding at concrete states.\<close>

definition blank_profile :: user_profile where
  "blank_profile = \<lparr>up_full_name = None, up_role_title = ''CEO'', up_country = None, up_phone = None, up_how_heard = None, up_avatar_url = None\<rparr>"

definition onboarding_ground :: "unit onboarding_db_scheme" where
  "onboarding_ground = roadmap_db.extend (empty_roadmap_db\<lparr>fresh := 40,
     users := [sample_founder\<lparr>u_profile := Some blank_profile\<rparr>, sample_founder\<lparr>u_id := 8, u_email := ''B@x.y''\<rparr>]\<rparr>) (onboarding_db.fields [])"

definition two_accounts :: "string \<Rightarrow> json option" where
  "two_accounts t = Some (JUid (if t = ''f'' then 7 else 8))"

definition plain_hash :: "string \<Rightarrow> string" where
  "plain_hash raw = ''h:'' @ raw"

fun onboarding_serves :: "unit onboarding_db_scheme \<Rightarrow> string \<times> instant \<times> onboarding_request \<Rightarrow> unit onboarding_db_scheme" where
  "onboarding_serves s (t, now, q) = snd (serve_onboarding (\<lambda>_. ''w'') plain_hash two_accounts
     \<lparr>oq_credential = Some t, oq_now = now, oq_request = q\<rparr> s)"

abbreviation sample_step :: "instant \<Rightarrow> unit onboarding_db_scheme \<Rightarrow> unit onboarding_db_scheme \<Rightarrow> bool" where
  "sample_step \<equiv> onboarding_step (\<lambda>_. ''w'') plain_hash two_accounts"

lemma serves_step: "since \<le> now \<Longrightarrow> sample_step since s (onboarding_serves s (t, now, q))"
  using onboarding_step.request [of since "\<lparr>oq_credential = Some t, oq_now = now, oq_request = q\<rparr>"] by simp

definition invited_one :: "unit onboarding_db_scheme" where
  "invited_one = onboarding_serves onboarding_ground (''f'', 5, Invite_people (\<lambda>_. Inr ()) [(''b@x.y'', MR_team_member, ''r'')])"

definition joined_one :: "unit onboarding_db_scheme" where
  "joined_one = onboarding_serves invited_one (''g'', 6, Accept_invite ''r'')"

definition invitation_of_b :: invitation where
  "invitation_of_b = \<lparr>in_id = 42, in_startup_id = 40, in_email = ''b@x.y'', in_role = MR_team_member, in_token_hash = ''h:r'',
     in_status = IS_pending, in_invited_by = 7, in_expires_at = 5 + invite_ttl, in_accepted_at = None, in_accepted_user_id = None\<rparr>"

lemma invited_states:
  "invitations invited_one = [invitation_of_b]" "map member_key (memberships invited_one) = [(7, 40)]"
  "map in_status (invitations joined_one) = [IS_accepted]" "map member_key (memberships joined_one) = [(7, 40), (8, 40)]"
  by code_simp+

lemma invited_reachable: "onboarding_reachable (\<lambda>_. ''w'') plain_hash two_accounts invited_one"
proof -
  have "invitations onboarding_ground = []" "memberships onboarding_ground = []" "startups onboarding_ground = []" by code_simp+
  moreover have "sample_step 0 onboarding_ground invited_one" unfolding invited_one_def by (rule serves_step) simp
  ultimately show ?thesis unfolding onboarding_reachable_def by blast
qed

theorem invitation_histories_witness:
  "invitations invited_one = [invitation_of_b] \<and> (8, 40) \<in> member_key ` set (memberships joined_one)
   \<and> (\<exists>j \<in> set (invitations joined_one). in_id j = 42 \<and> in_status j = IS_accepted)"
proof -
  have s: "(sample_step 6)\<^sup>*\<^sup>* invited_one joined_one"
    unfolding joined_one_def by (intro r_into_rtranclp serves_step) simp
  note all = invitation_histories [OF invited_reachable s]
  have "invitation_of_b \<in> set (invitations invited_one)" by (simp add: invited_states)
  from all [THEN conjunct2, THEN conjunct2, THEN conjunct2, THEN bspec, OF this]
  obtain j where j: "j \<in> set (invitations joined_one)" "in_id j = 42" by (elim bexE conjE) (simp add: invitation_of_b_def)
  have "in_status j = IS_accepted" using invited_states(3) j(1) by auto
  moreover have "(8, 40) \<in> member_key ` set (memberships joined_one)"
    using invited_states(4) by (metis list.set_intros(1,2) set_map)
  ultimately show ?thesis using j invited_states(1) by blast
qed

definition account_of_b :: user where
  "account_of_b = sample_founder\<lparr>u_id := 8, u_email := ''B@x.y''\<rparr>"

theorem accept_spec_witness:
  "\<exists>s'. accept_endpoint plain_hash 6 ''r'' account_of_b invited_one = (Inr (40, MR_team_member), s')
    \<and> accept_endpoint plain_hash 7 ''r'' account_of_b s' = (Inl TokenInvalid, s')"
proof -
  obtain r s' where a: "accept_endpoint plain_hash 6 ''r'' account_of_b invited_one = (r, s')"
    by (cases "accept_endpoint plain_hash 6 ''r'' account_of_b invited_one")
  have "fst (accept_endpoint plain_hash 6 ''r'' account_of_b invited_one) = Inr (40, MR_team_member)" by code_simp
  then have "r = Inr (40, MR_team_member)" by (simp add: a)
  then show ?thesis using accept_spec [OF invited_reachable a] a by auto
qed

theorem expired_invitation_blocks_witness:
  "post_invites plain_hash (\<lambda>_. Inr ()) (days 30) [(''B@X.y'', MR_team_member, ''q'')] (sample_founder\<lparr>u_profile := Some blank_profile\<rparr>) invited_one
     = ((Inr ([], [''B@X.y'']), []), invited_one)
   \<and> accept_endpoint plain_hash (days 30) ''r'' account_of_b invited_one = (Inl TokenInvalid, invited_one)
   \<and> invitation_of_b \<in> set (invitations invited_one)"
proof -
  let ?f = "sample_founder\<lparr>u_profile := Some blank_profile\<rparr>"
  have p: "post_invites plain_hash (\<lambda>_. Inr ()) (days 30) [(''B@X.y'', MR_team_member, ''q'')] ?f invited_one
     = ((Inr ([], [''B@X.y'']), []), invited_one)" by code_simp
  have i: "invitation_of_b \<in> set (invitations invited_one)" "in_status invitation_of_b = IS_pending"
      "in_expires_at invitation_of_b < days 20" "days 20 \<le> days 30" "plain_hash ''r'' = in_token_hash invitation_of_b"
    by (simp add: invited_states(1), code_simp+)
  have "own_workspace 7 invited_one \<noteq> None" "map_option st_id (own_workspace 7 invited_one) = Some 40" by code_simp+
  then obtain st where st: "own_workspace (u_id ?f) invited_one = Some st" "st_id st = in_startup_id invitation_of_b"
    by (auto simp: sample_founder_def invitation_of_b_def)
  show ?thesis
    using expired_invitation_blocks [OF invited_reachable i(1-4) rtranclp.rtrancl_refl st p] p i by simp
qed

definition full_patch :: state_patch where
  "full_patch = \<lparr>pa_step = 5, pa_full_name = Some (Some ''Ada''), pa_role_title = None, pa_country = Some (Some ''FR''), pa_phone = None,
     pa_how_heard = None, pa_name = Some (Some ''Analytical''), pa_description = None, pa_website = None,
     pa_industry = Some (Some ''computing''), pa_business_model = None, pa_stage = Some (Some SS_idea),
     pa_goals = Some (Some [''ship'']), pa_notes = None\<rparr>"

theorem wizard_finishes_witness:
  "\<exists>v s1 x s2. account_request two_accounts (Some ''f'') (patch_state 5 full_patch) Inl onboarding_ground = (Inr v, s1)
    \<and> account_request two_accounts (Some ''f'') (post_complete 6 20000) Inl s1 = (Inr x, s2)
    \<and> or_completed x \<and> length (or_job_ids x) = 2"
proof -
  let ?f = "sample_founder\<lparr>u_profile := Some blank_profile\<rparr>"
  have "get_current_user two_accounts (Some ''f'') onboarding_ground = Inr ?f" "get_verified_user ?f = Inr ?f"
    "own_workspace (u_id ?f) onboarding_ground = None" "valid_patch full_patch = []"
    "fits_column 2 (up_country (patch_profile full_patch blank_profile))" "fits_column 32 (up_phone (patch_profile full_patch blank_profile))"
    by code_simp+
  then show ?thesis
    using wizard_finishes [of two_accounts "Some ''f''" onboarding_ground ?f blank_profile full_patch SS_idea "[''ship'']" 5 6 20000]
    by (auto simp: full_patch_def)
qed

definition ready_to_complete :: "unit onboarding_db_scheme" where
  "ready_to_complete = onboarding_serves onboarding_ground (''f'', 5, Patch_state full_patch)"

theorem completion_closes_witness:
  "\<exists>x s'. post_complete 6 20000 (sample_founder\<lparr>u_profile := Some (patch_profile full_patch blank_profile)\<rparr>) ready_to_complete = (Inr x, s')
    \<and> length (or_job_ids x) = 2
    \<and> post_complete 7 20000 (sample_founder\<lparr>u_profile := Some (patch_profile full_patch blank_profile)\<rparr>) s'
       = (Inr \<lparr>or_completed = True, or_assessment_pending = True, or_job_ids = []\<rparr>, s')"
proof -
  let ?f = "sample_founder\<lparr>u_profile := Some (patch_profile full_patch blank_profile)\<rparr>"
  let ?st = "the (own_workspace 7 ready_to_complete)" and ?sp = "the (st_profile (the (own_workspace 7 ready_to_complete)))"
  have "own_workspace 7 ready_to_complete \<noteq> None" "st_profile ?st \<noteq> None" "sp_onboarding_completed_at ?sp = None" "gate ?st ?sp ?f = []"
    by code_simp+
  then have own: "own_workspace (u_id ?f) ready_to_complete = Some ?st" "st_profile ?st = Some ?sp" "sp_onboarding_completed_at ?sp = None"
      "gate ?st ?sp ?f = []" by (simp_all add: sample_founder_def)
  have "\<exists>a b s'. complete_onboarding 6 20000 ?st ?f ready_to_complete
      = (Inr \<lparr>or_completed = True, or_assessment_pending = True, or_job_ids = [a, b]\<rparr>, s')"
    using complete_first [OF own, of 6 20000] by blast
  then obtain x s' where c: "post_complete 6 20000 ?f ready_to_complete = (Inr x, s')" and x: "length (or_job_ids x) = 2"
    using own(1) by (auto simp: post_complete_def run_tx_ok resolve_or_create_workspace_def)
  then have "or_job_ids x \<noteq> []" by auto
  then have "\<forall>now' today'. post_complete now' today' ?f s' = (Inr \<lparr>or_completed = True, or_assessment_pending = True, or_job_ids = []\<rparr>, s')"
    using completion_closes [OF c] by auto
  then show ?thesis using c x by simp
qed

end
