(* ===== verification/Claim_Once.thy ===== *)
theory Claim_Once
  imports Prelude
begin

text \<open>
  The interface of a single-use credential: a claim that succeeds marks its key as spent, a spent
  key is never claimed again, and claims never un-spend a key. Several components rely on it
  (one-time links, refresh tokens, backup codes, scheduled runs); what their callers get is
  proved once here: in any history, interleaved with any other operations that keep spent keys
  spent, a key is claimed successfully at most once.
\<close>

datatype ('i, 's) event = Claim 'i | Other "'s \<Rightarrow> 's"

fun run_events :: "('i \<Rightarrow> 's \<Rightarrow> bool \<times> 's) \<Rightarrow> ('i, 's) event list \<Rightarrow> 's \<Rightarrow> ('i \<times> bool) list \<times> 's" where
  "run_events claim [] s = ([], s)"
| "run_events claim (Claim i # es) s =
     (case claim i s of (b, s1) \<Rightarrow> case run_events claim es s1 of (rs, s2) \<Rightarrow> ((i, b) # rs, s2))"
| "run_events claim (Other f # es) s = run_events claim es (f s)"

definition wins :: "('i \<Rightarrow> bool) \<Rightarrow> ('i \<times> bool) list \<Rightarrow> nat" where
  "wins P rs = length (filter (\<lambda>(i, b). b \<and> P i) rs)"

lemma wins_simps [simp]:
  "wins P [] = 0" "wins P ((i, b) # rs) = (if b \<and> P i then Suc (wins P rs) else wins P rs)"
  by (simp_all add: wins_def)

locale claim_once =
  fixes claim :: "'i \<Rightarrow> 's \<Rightarrow> bool \<times> 's"
    and of_key :: "'k \<Rightarrow> 'i \<Rightarrow> bool"
    and spent :: "'k \<Rightarrow> 's \<Rightarrow> bool"
    and inv :: "'s \<Rightarrow> bool"
  assumes claim_spends: "inv s \<Longrightarrow> of_key k i \<Longrightarrow> claim i s = (True, s') \<Longrightarrow> spent k s'"
    and spent_refused: "inv s \<Longrightarrow> of_key k i \<Longrightarrow> spent k s \<Longrightarrow> \<not> fst (claim i s)"
    and spent_stays: "inv s \<Longrightarrow> spent k s \<Longrightarrow> spent k (snd (claim i s))"
    and inv_stays: "inv s \<Longrightarrow> inv (snd (claim i s))"
begin

definition harmless :: "'k \<Rightarrow> ('i, 's) event list \<Rightarrow> bool" where
  "harmless k es \<longleftrightarrow>
     (\<forall>f s. Other f \<in> set es \<longrightarrow> inv s \<longrightarrow> inv (f s) \<and> (spent k s \<longrightarrow> spent k (f s)))"

lemma harmless_Cons:
  "harmless k (e # es) \<Longrightarrow> harmless k es"
  "harmless k (Other f # es) \<Longrightarrow> inv s \<Longrightarrow> inv (f s)"
  "harmless k (Other f # es) \<Longrightarrow> inv s \<Longrightarrow> spent k s \<Longrightarrow> spent k (f s)"
  by (auto simp: harmless_def)

lemma no_wins_when_spent:
  "inv s \<Longrightarrow> spent k s \<Longrightarrow> harmless k es \<Longrightarrow> wins (of_key k) (fst (run_events claim es s)) = 0"
proof (induction es arbitrary: s)
  case (Cons e es)
  note h = harmless_Cons(1) [OF Cons.prems(3)]
  show ?case
  proof (cases e)
    case (Claim i)
    obtain b s1 where c: "claim i s = (b, s1)" by (cases "claim i s")
    have "spent k s1" "inv s1"
      using spent_stays [OF Cons.prems(1,2), of i] inv_stays [OF Cons.prems(1), of i] c by simp_all
    then have "wins (of_key k) (fst (run_events claim es s1)) = 0" using Cons.IH h by blast
    moreover have "\<not> (b \<and> of_key k i)"
      using spent_refused [OF Cons.prems(1) _ Cons.prems(2), of i] c by auto
    ultimately show ?thesis using Claim c by (simp add: case_prod_unfold)
  next
    case (Other f)
    then show ?thesis
      using Cons.IH [of "f s"] Cons.prems h harmless_Cons(2,3) [of k f es s] by simp
  qed
qed simp

lemma at_most_one_win:
  "inv s \<Longrightarrow> harmless k es \<Longrightarrow> wins (of_key k) (fst (run_events claim es s)) \<le> 1"
proof (induction es arbitrary: s)
  case (Cons e es)
  note h = harmless_Cons(1) [OF Cons.prems(2)]
  show ?case
  proof (cases e)
    case (Claim i)
    obtain b s1 where c: "claim i s = (b, s1)" by (cases "claim i s")
    have inv: "inv s1" using inv_stays [OF Cons.prems(1), of i] c by simp
    show ?thesis
    proof (cases "b \<and> of_key k i")
      case True
      then have "spent k s1" using claim_spends [OF Cons.prems(1), of k i s1] c by simp
      then have "wins (of_key k) (fst (run_events claim es s1)) = 0"
        using no_wins_when_spent [OF inv] h by blast
      then show ?thesis using Claim c by (simp add: case_prod_unfold)
    next
      case False
      then show ?thesis using Claim c Cons.IH [OF inv h] by (auto simp: case_prod_unfold)
    qed
  next
    case (Other f)
    then show ?thesis using Cons.IH [of "f s"] Cons.prems h harmless_Cons(2) [of k f es s] by simp
  qed
qed simp

end

end
