(* ===== verification/Auth_Sessions.thy ===== *)
theory Auth_Sessions
  imports Notifications Claim_Once
begin

text \<open>
  Refresh-token sessions (\<^verbatim>\<open>app/services/auth/sessions.py\<close>), one-time e-mail tokens
  (\<^verbatim>\<open>app/services/auth/tokens.py\<close>) and backup codes (\<^verbatim>\<open>app/services/auth/mfa.py\<close>) over the tables
  of \<^verbatim>\<open>app/db/models/auth.py\<close>. SHA-256 is the parameter \<open>hash\<close>; the random raw tokens are
  arguments of the operations that draw them.
\<close>

record auth_session =
  se_id :: uid
  se_user_id :: uid
  se_refresh_token_hash :: string
  se_family_id :: uid
  se_ip :: "string option"
  se_user_agent :: "string option"
  se_expires_at :: instant
  se_rotated_at :: "instant option"
  se_revoked_at :: "instant option"

record auth_token =
  tk_id :: uid
  tk_user_id :: uid
  tk_purpose :: auth_token_purpose
  tk_token_hash :: string
  tk_expires_at :: instant
  tk_consumed_at :: "instant option"

record mfa_backup_code =
  bc_id :: uid
  bc_user_id :: uid
  bc_code_hash :: string
  bc_consumed_at :: "instant option"

record auth_db = notif_db +
  auth_sessions :: "auth_session list"
  auth_tokens :: "auth_token list"
  backup_codes :: "mfa_backup_code list"

definition refresh_token_expire_days :: int where
  "refresh_token_expire_days = 30"

section \<open>Sessions\<close>

text \<open>
  \<^verbatim>\<open>issue_token_pair\<close>: \<open>fam\<close> is the family to continue, or a new one. The column of the hash is
  unique, so a drawn token whose hash is taken fails the flush. The access token is the
  caller's (a signature over the user's id).
\<close>

definition issue_token_pair ::
    "(string \<Rightarrow> string) \<Rightarrow> instant \<Rightarrow> string \<Rightarrow> uid \<Rightarrow> string option \<Rightarrow> string option \<Rightarrow> uid option
     \<Rightarrow> 'a auth_db_scheme \<Rightarrow> (uid \<times> string) result \<times> 'a auth_db_scheme" where
  "issue_token_pair hash now raw uid ip ua fam s =
     (if \<exists>x \<in> set (auth_sessions s). se_refresh_token_hash x = hash raw
      then (Inl (Uncaught ''IntegrityError''), s)
      else (let (i, s1) = fresh_id s;
                (f, s2) = (case fam of Some f \<Rightarrow> (f, s1) | None \<Rightarrow> fresh_id s1);
                row = \<lparr>se_id = i, se_user_id = uid, se_refresh_token_hash = hash raw,
                       se_family_id = f, se_ip = ip, se_user_agent = ua,
                       se_expires_at = now + days refresh_token_expire_days,
                       se_rotated_at = None, se_revoked_at = None\<rparr>
            in (Inr (uid, raw), s2\<lparr>auth_sessions := auth_sessions s2 @ [row]\<rparr>)))"

definition revoke_family :: "instant \<Rightarrow> uid \<Rightarrow> 'a auth_db_scheme \<Rightarrow> 'a auth_db_scheme" where
  "revoke_family now f s =
     s\<lparr>auth_sessions := update_where (\<lambda>x. se_family_id x = f \<and> se_revoked_at x = None)
         (\<lambda>x. x\<lparr>se_revoked_at := Some now\<rparr>) (auth_sessions s)\<rparr>"

definition session_live :: "instant \<Rightarrow> auth_session \<Rightarrow> bool" where
  "session_live now x \<longleftrightarrow> se_rotated_at x = None \<and> se_revoked_at x = None \<and> now \<le> se_expires_at x"

definition rotate_refresh ::
    "(string \<Rightarrow> string) \<Rightarrow> instant \<Rightarrow> string \<Rightarrow> string \<Rightarrow> string option \<Rightarrow> string option
     \<Rightarrow> 'a auth_db_scheme \<Rightarrow> (uid \<times> string \<times> user) result \<times> 'a auth_db_scheme" where
  "rotate_refresh hash now raw new_raw ip ua s =
     (case find (\<lambda>x. se_refresh_token_hash x = hash raw) (auth_sessions s) of
        None \<Rightarrow> (Inl Unauthorized, s)
      | Some sess \<Rightarrow>
          (let mine = (\<lambda>x. se_id x = se_id sess \<and> session_live now x);
               claimed = count_where mine (auth_sessions s);
               s1 = s\<lparr>auth_sessions :=
                        update_where mine (\<lambda>x. x\<lparr>se_rotated_at := Some now\<rparr>) (auth_sessions s)\<rparr>
           in if claimed = 0
              then (Inl Unauthorized, revoke_family now (se_family_id sess) s1)
              else (case user_by_id s1 (se_user_id sess) of
                      None \<Rightarrow> (Inl Unauthorized, s1)
                    | Some user \<Rightarrow>
                        (case issue_token_pair hash now new_raw (u_id user) ip ua
                                (Some (se_family_id sess)) s1 of
                           (Inl e, s2) \<Rightarrow> (Inl e, s2)
                         | (Inr (access, new), s2) \<Rightarrow> (Inr (access, new, user), s2)))))"

definition revoke_session ::
    "(string \<Rightarrow> string) \<Rightarrow> instant \<Rightarrow> string \<Rightarrow> 'a auth_db_scheme \<Rightarrow> 'a auth_db_scheme" where
  "revoke_session hash now raw s =
     (case find (\<lambda>x. se_refresh_token_hash x = hash raw) (auth_sessions s) of
        None \<Rightarrow> s
      | Some sess \<Rightarrow>
          if se_revoked_at sess = None
          then s\<lparr>auth_sessions := update_where (\<lambda>x. se_id x = se_id sess)
                   (\<lambda>x. x\<lparr>se_revoked_at := Some now\<rparr>) (auth_sessions s)\<rparr>
          else s)"

definition revoke_all_for_user :: "instant \<Rightarrow> uid \<Rightarrow> 'a auth_db_scheme \<Rightarrow> nat \<times> 'a auth_db_scheme" where
  "revoke_all_for_user now uid s =
     (let P = (\<lambda>x. se_user_id x = uid \<and> se_revoked_at x = None)
      in (count_where P (auth_sessions s),
          s\<lparr>auth_sessions := update_where P (\<lambda>x. x\<lparr>se_revoked_at := Some now\<rparr>) (auth_sessions s)\<rparr>))"

text \<open>
  The endpoints \<^verbatim>\<open>/auth/refresh\<close> and \<^verbatim>\<open>/auth/logout\<close>: the token is the cookie's, or the body's.
  \<^verbatim>\<open>refresh\<close> commits only after \<^verbatim>\<open>rotate_refresh\<close> returned.
\<close>

definition read_refresh :: "string option \<Rightarrow> string option \<Rightarrow> string" where
  "read_refresh cookie body =
     (case cookie of
        Some c \<Rightarrow> if c \<noteq> [] then c else (case body of None \<Rightarrow> [] | Some b \<Rightarrow> b)
      | None \<Rightarrow> (case body of None \<Rightarrow> [] | Some b \<Rightarrow> b))"

definition refresh_endpoint ::
    "(string \<Rightarrow> string) \<Rightarrow> instant \<Rightarrow> string option \<Rightarrow> string option \<Rightarrow> string \<Rightarrow> string option
     \<Rightarrow> string option \<Rightarrow> 'a auth_db_scheme \<Rightarrow> (uid \<times> string) result \<times> 'a auth_db_scheme" where
  "refresh_endpoint hash now cookie body new_raw ip ua s =
     (let raw = read_refresh cookie body
      in if raw = [] then (Inl Unauthorized, s)
         else (case run_tx (rotate_refresh hash now raw new_raw ip ua) s of
                 (Inl e, s') \<Rightarrow> (Inl e, s')
               | (Inr (access, new, _), s') \<Rightarrow> (Inr (access, new), s')))"

definition logout_endpoint ::
    "(string \<Rightarrow> string) \<Rightarrow> instant \<Rightarrow> string option \<Rightarrow> string option \<Rightarrow> 'a auth_db_scheme
     \<Rightarrow> unit result \<times> 'a auth_db_scheme" where
  "logout_endpoint hash now cookie body s =
     (let raw = read_refresh cookie body
      in (Inr (), if raw = [] then s else revoke_session hash now raw s))"

section \<open>One-time tokens\<close>

definition invalidate_unconsumed_tokens ::
    "instant \<Rightarrow> uid \<Rightarrow> auth_token_purpose \<Rightarrow> 'a auth_db_scheme \<Rightarrow> 'a auth_db_scheme" where
  "invalidate_unconsumed_tokens now uid purpose s =
     s\<lparr>auth_tokens := update_where
         (\<lambda>x. tk_user_id x = uid \<and> tk_purpose x = purpose \<and> tk_consumed_at x = None)
         (\<lambda>x. x\<lparr>tk_consumed_at := Some now\<rparr>) (auth_tokens s)\<rparr>"

definition issue_auth_token ::
    "(string \<Rightarrow> string) \<Rightarrow> instant \<Rightarrow> string \<Rightarrow> uid \<Rightarrow> auth_token_purpose \<Rightarrow> int
     \<Rightarrow> 'a auth_db_scheme \<Rightarrow> string result \<times> 'a auth_db_scheme" where
  "issue_auth_token hash now raw uid purpose ttl s =
     (if \<exists>x \<in> set (auth_tokens s). tk_token_hash x = hash raw
      then (Inl (Uncaught ''IntegrityError''), s)
      else (let (i, s1) = fresh_id s
            in (Inr raw, s1\<lparr>auth_tokens := auth_tokens s1 @
                  [\<lparr>tk_id = i, tk_user_id = uid, tk_purpose = purpose, tk_token_hash = hash raw,
                    tk_expires_at = now + ttl, tk_consumed_at = None\<rparr>]\<rparr>)))"

definition consume_auth_token ::
    "(string \<Rightarrow> string) \<Rightarrow> instant \<Rightarrow> auth_token_purpose \<Rightarrow> string
     \<Rightarrow> 'a auth_db_scheme \<Rightarrow> user result \<times> 'a auth_db_scheme" where
  "consume_auth_token hash now purpose raw s =
     (let mine = (\<lambda>x. tk_token_hash x = hash raw \<and> tk_purpose x = purpose
                      \<and> tk_consumed_at x = None \<and> now \<le> tk_expires_at x);
          claimed = count_where mine (auth_tokens s);
          s1 = s\<lparr>auth_tokens := update_where mine (\<lambda>x. x\<lparr>tk_consumed_at := Some now\<rparr>) (auth_tokens s)\<rparr>
      in if claimed = 0 then (Inl TokenInvalid, s1)
         else (case find (\<lambda>x. tk_token_hash x = hash raw \<and> tk_purpose x = purpose) (auth_tokens s1) of
                 None \<Rightarrow> (Inl TokenInvalid, s1)
               | Some row \<Rightarrow>
                   (case user_by_id s1 (tk_user_id row) of
                      None \<Rightarrow> (Inl TokenInvalid, s1)
                    | Some user \<Rightarrow> (Inr user, s1))))"

section \<open>Backup codes\<close>

text \<open>\<open>codes\<close> are the ten drawn codes; the previous ones of the user are deleted.\<close>

fun add_backup_codes :: "(string \<Rightarrow> string) \<Rightarrow> uid \<Rightarrow> string list \<Rightarrow> 'a auth_db_scheme \<Rightarrow> 'a auth_db_scheme" where
  "add_backup_codes hash uid [] s = s"
| "add_backup_codes hash uid (c # cs) s =
     (let (i, s1) = fresh_id s
      in add_backup_codes hash uid cs (s1\<lparr>backup_codes := backup_codes s1 @
           [\<lparr>bc_id = i, bc_user_id = uid, bc_code_hash = hash c, bc_consumed_at = None\<rparr>]\<rparr>))"

definition generate_backup_codes ::
    "(string \<Rightarrow> string) \<Rightarrow> uid \<Rightarrow> string list \<Rightarrow> 'a auth_db_scheme \<Rightarrow> 'a auth_db_scheme" where
  "generate_backup_codes hash uid codes s =
     add_backup_codes hash uid codes
       (s\<lparr>backup_codes := delete_where (\<lambda>x. bc_user_id x = uid) (backup_codes s)\<rparr>)"

definition consume_backup_code ::
    "(string \<Rightarrow> string) \<Rightarrow> instant \<Rightarrow> uid \<Rightarrow> string \<Rightarrow> 'a auth_db_scheme \<Rightarrow> bool \<times> 'a auth_db_scheme" where
  "consume_backup_code hash now uid code s =
     (case find (\<lambda>x. bc_user_id x = uid \<and> bc_code_hash x = hash code \<and> bc_consumed_at x = None)
             (backup_codes s) of
        None \<Rightarrow> (False, s)
      | Some row \<Rightarrow>
          (True, s\<lparr>backup_codes := update_where (\<lambda>x. bc_id x = bc_id row)
                     (\<lambda>x. x\<lparr>bc_consumed_at := Some now\<rparr>) (backup_codes s)\<rparr>))"

section \<open>The invariant of the tables\<close>

text \<open>Primary keys come from the supply, and the unique columns are unique.\<close>

definition auth_inv :: "'a auth_db_scheme \<Rightarrow> bool" where
  "auth_inv s \<longleftrightarrow>
     distinct (map se_id (auth_sessions s)) \<and> distinct (map se_refresh_token_hash (auth_sessions s))
     \<and> distinct (map tk_id (auth_tokens s)) \<and> distinct (map tk_token_hash (auth_tokens s))
     \<and> distinct (map bc_id (backup_codes s))
     \<and> ids_below (fresh s) (map se_id (auth_sessions s))
     \<and> ids_below (fresh s) (map tk_id (auth_tokens s))
     \<and> ids_below (fresh s) (map bc_id (backup_codes s))"

lemma auth_inv_cong:
  assumes "auth_inv s" "map se_id (auth_sessions s') = map se_id (auth_sessions s)"
    "map se_refresh_token_hash (auth_sessions s') = map se_refresh_token_hash (auth_sessions s)"
    "map tk_id (auth_tokens s') = map tk_id (auth_tokens s)"
    "map tk_token_hash (auth_tokens s') = map tk_token_hash (auth_tokens s)"
    "map bc_id (backup_codes s') = map bc_id (backup_codes s)" "fresh s \<le> fresh s'"
  shows "auth_inv s'"
  using assms by (auto simp: auth_inv_def elim: ids_below_mono)

lemma revoke_family_inv: "auth_inv s \<Longrightarrow> auth_inv (revoke_family now f s)"
  by (erule auth_inv_cong) (simp_all add: revoke_family_def map_update_where)

lemma revoke_session_inv: "auth_inv s \<Longrightarrow> auth_inv (revoke_session hash now raw s)"
  by (erule auth_inv_cong)
    (simp_all add: revoke_session_def map_update_where split: option.split)

lemma revoke_all_inv: "auth_inv s \<Longrightarrow> auth_inv (snd (revoke_all_for_user now u s))"
  by (erule auth_inv_cong) (simp_all add: revoke_all_for_user_def Let_def map_update_where)

lemma invalidate_inv: "auth_inv s \<Longrightarrow> auth_inv (invalidate_unconsumed_tokens now u p s)"
  by (erule auth_inv_cong) (simp_all add: invalidate_unconsumed_tokens_def map_update_where)

lemma consume_token_inv: "auth_inv s \<Longrightarrow> auth_inv (snd (consume_auth_token hash now p raw s))"
  by (erule auth_inv_cong)
    (simp_all add: consume_auth_token_def Let_def map_update_where split: option.split)

lemma consume_code_inv: "auth_inv s \<Longrightarrow> auth_inv (snd (consume_backup_code hash now u c s))"
  by (erule auth_inv_cong)
    (simp_all add: consume_backup_code_def map_update_where split: option.split)

lemma issue_auth_token_inv: "auth_inv s \<Longrightarrow> auth_inv (snd (issue_auth_token hash now raw u p ttl s))"
  by (auto simp: issue_auth_token_def fresh_id_def auth_inv_def Let_def dest: ids_below_fresh)

lemma issue_token_pair_inv: "auth_inv s \<Longrightarrow> auth_inv (snd (issue_token_pair hash now raw u ip ua f s))"
  by (cases f) (auto simp: issue_token_pair_def fresh_id_def auth_inv_def Let_def
      dest: ids_below_fresh)

lemma add_backup_codes_inv: "auth_inv s \<Longrightarrow> auth_inv (add_backup_codes hash u cs s)"
proof (induction cs arbitrary: s)
  case (Cons c cs)
  have "auth_inv (s\<lparr>fresh := Suc (fresh s), backup_codes := backup_codes s @
      [\<lparr>bc_id = fresh s, bc_user_id = u, bc_code_hash = hash c, bc_consumed_at = None\<rparr>]\<rparr>)"
    using Cons.prems by (auto simp: auth_inv_def dest: ids_below_fresh)
  then show ?case using Cons.IH by (simp add: fresh_id_def Let_def)
qed simp

lemma generate_codes_inv: "auth_inv s \<Longrightarrow> auth_inv (generate_backup_codes hash u cs s)"
  unfolding generate_backup_codes_def
  by (rule add_backup_codes_inv) (simp add: auth_inv_def distinct_map_delete_where ids_below_delete)

lemma rotate_refresh_inv: "auth_inv s \<Longrightarrow> auth_inv (snd (rotate_refresh hash now raw new ip ua s))"
proof -
  assume inv: "auth_inv s"
  have s1: "auth_inv (s\<lparr>auth_sessions := update_where P (\<lambda>x. x\<lparr>se_rotated_at := Some now\<rparr>) (auth_sessions s)\<rparr>)"
    for P by (rule auth_inv_cong [OF inv]) (simp_all add: map_update_where)
  have iss: "issue_token_pair hash now raw u ip ua f
      (s\<lparr>auth_sessions := update_where P (\<lambda>x. x\<lparr>se_rotated_at := Some now\<rparr>) (auth_sessions s)\<rparr>)
      = (r, s2) \<Longrightarrow> auth_inv s2" for raw u ip ua f P r s2
    using issue_token_pair_inv [OF s1] by (metis snd_conv)
  show ?thesis
    using inv revoke_family_inv [OF s1] s1
    by (auto simp: rotate_refresh_def Let_def dest: iss split: option.splits sum.splits prod.splits)
qed

lemmas auth_op_inv =
  revoke_family_inv revoke_session_inv revoke_all_inv invalidate_inv consume_token_inv
  consume_code_inv issue_auth_token_inv issue_token_pair_inv generate_codes_inv rotate_refresh_inv

section \<open>Single use\<close>

text \<open>
  A history of the authentication tables: the two claims (rotating a refresh token, consuming a
  one-time token), each run as a request of its own, and every other operation on the tables.
\<close>

datatype auth_claim =
    Rotate instant string string "string option" "string option"
  | Consume instant auth_token_purpose string

datatype auth_op =
    Issue_pair instant string uid "string option" "string option"
  | Revoke_session instant string
  | Revoke_all instant uid
  | Issue_token instant string uid auth_token_purpose int
  | Invalidate instant uid auth_token_purpose
  | Generate_codes uid "string list"
  | Use_code instant uid string

fun run_claim :: "(string \<Rightarrow> string) \<Rightarrow> auth_claim \<Rightarrow> 'a auth_db_scheme \<Rightarrow> bool \<times> 'a auth_db_scheme" where
  "run_claim hash (Rotate now raw new ip ua) s =
     (case run_tx (rotate_refresh hash now raw new ip ua) s of (r, s') \<Rightarrow> (is_ok r, s'))"
| "run_claim hash (Consume now purpose raw) s =
     (case run_tx (consume_auth_token hash now purpose raw) s of (r, s') \<Rightarrow> (is_ok r, s'))"

fun run_op :: "(string \<Rightarrow> string) \<Rightarrow> auth_op \<Rightarrow> 'a auth_db_scheme \<Rightarrow> 'a auth_db_scheme" where
  "run_op hash (Issue_pair now raw u ip ua) s = snd (issue_token_pair hash now raw u ip ua None s)"
| "run_op hash (Revoke_session now raw) s = revoke_session hash now raw s"
| "run_op hash (Revoke_all now u) s = snd (revoke_all_for_user now u s)"
| "run_op hash (Issue_token now raw u p ttl) s = snd (issue_auth_token hash now raw u p ttl s)"
| "run_op hash (Invalidate now u p) s = invalidate_unconsumed_tokens now u p s"
| "run_op hash (Generate_codes u cs) s = generate_backup_codes hash u cs s"
| "run_op hash (Use_code now u c) s = snd (consume_backup_code hash now u c s)"

fun auth_event :: "(string \<Rightarrow> string) \<Rightarrow> auth_claim + auth_op \<Rightarrow> (auth_claim, 'a auth_db_scheme) event" where
  "auth_event hash (Inl c) = Claim c"
| "auth_event hash (Inr oper) = Other (run_op hash oper)"

datatype auth_key = Refresh_key string | Token_key auth_token_purpose string

fun claims_key :: "(string \<Rightarrow> string) \<Rightarrow> auth_key \<Rightarrow> auth_claim \<Rightarrow> bool" where
  "claims_key hash (Refresh_key h) (Rotate _ raw _ _ _) = (hash raw = h)"
| "claims_key hash (Token_key p h) (Consume _ p' raw) = (p' = p \<and> hash raw = h)"
| "claims_key hash _ _ = False"

text \<open>
  A spent key: its row exists (so that the unique column refuses another one) and is rotated or
  revoked, respectively consumed.
\<close>

fun key_spent :: "auth_key \<Rightarrow> 'a auth_db_scheme \<Rightarrow> bool" where
  "key_spent (Refresh_key h) s =
     ((\<exists>x \<in> set (auth_sessions s). se_refresh_token_hash x = h) \<and>
      (\<forall>x \<in> set (auth_sessions s). se_refresh_token_hash x = h \<longrightarrow>
          se_rotated_at x \<noteq> None \<or> se_revoked_at x \<noteq> None))"
| "key_spent (Token_key p h) s =
     ((\<exists>x \<in> set (auth_tokens s). tk_token_hash x = h) \<and>
      (\<forall>x \<in> set (auth_tokens s). tk_token_hash x = h \<and> tk_purpose x = p \<longrightarrow> tk_consumed_at x \<noteq> None))"

text \<open>Updates of rows that keep hashes and never clear a mark keep keys spent.\<close>

lemma session_update_spent:
  assumes "key_spent k s" "auth_tokens s' = auth_tokens s"
    "auth_sessions s' = update_where P f (auth_sessions s)"
    "\<And>x. se_refresh_token_hash (f x) = se_refresh_token_hash x"
    "\<And>x. se_rotated_at x \<noteq> None \<or> se_revoked_at x \<noteq> None \<Longrightarrow>
          se_rotated_at (f x) \<noteq> None \<or> se_revoked_at (f x) \<noteq> None"
  shows "key_spent k s'"
proof (cases k)
  case (Refresh_key h)
  then have "\<exists>x \<in> set (auth_sessions s). se_refresh_token_hash x = h"
    and all: "\<forall>x \<in> set (auth_sessions s). se_refresh_token_hash x = h \<longrightarrow>
          se_rotated_at x \<noteq> None \<or> se_revoked_at x \<noteq> None"
    using assms(1) by auto
  then have "\<exists>x \<in> set (update_where P f (auth_sessions s)). se_refresh_token_hash x = h"
    by (subst ex_update_where) (simp_all add: assms(4))
  moreover have "\<forall>x \<in> set (update_where P f (auth_sessions s)). se_refresh_token_hash x = h \<longrightarrow>
          se_rotated_at x \<noteq> None \<or> se_revoked_at x \<noteq> None"
    by (rule all_update_where [OF _ all]) (use assms(4,5) in auto)
  ultimately show ?thesis using Refresh_key by (simp add: assms(3))
next
  case (Token_key p h)
  then show ?thesis using assms(1,2) by simp
qed

lemma token_update_spent:
  assumes "key_spent k s" "auth_sessions s' = auth_sessions s"
    "auth_tokens s' = update_where P (\<lambda>x. x\<lparr>tk_consumed_at := Some now\<rparr>) (auth_tokens s)"
  shows "key_spent k s'"
proof (cases k)
  case (Refresh_key h)
  then show ?thesis using assms(1,2) by simp
next
  case (Token_key p h)
  then have "\<exists>x \<in> set (auth_tokens s). tk_token_hash x = h"
    and all: "\<forall>x \<in> set (auth_tokens s). tk_token_hash x = h \<and> tk_purpose x = p \<longrightarrow> tk_consumed_at x \<noteq> None"
    using assms(1) by auto
  then have "\<exists>x \<in> set (auth_tokens s'). tk_token_hash x = h"
    unfolding assms(3) by (subst ex_update_where) simp_all
  moreover have "\<forall>x \<in> set (auth_tokens s'). tk_token_hash x = h \<and> tk_purpose x = p \<longrightarrow> tk_consumed_at x \<noteq> None"
    unfolding assms(3) by (rule all_update_where [OF _ all]) simp
  ultimately show ?thesis using Token_key by simp
qed

lemma key_spent_cong:
  "key_spent k s \<Longrightarrow> auth_sessions s' = auth_sessions s \<Longrightarrow> auth_tokens s' = auth_tokens s \<Longrightarrow> key_spent k s'"
  by (cases k) auto

lemma revoke_family_spent: "key_spent k s \<Longrightarrow> key_spent k (revoke_family now f s)"
  by (erule session_update_spent [where f = "\<lambda>x. x\<lparr>se_revoked_at := Some now\<rparr>"]) (simp_all add: revoke_family_def)

lemma rotated_spent:
  "key_spent k s \<Longrightarrow> key_spent k (s\<lparr>auth_sessions :=
     update_where P (\<lambda>x. x\<lparr>se_rotated_at := Some now\<rparr>) (auth_sessions s)\<rparr>)"
  by (erule session_update_spent [where P = P and f = "\<lambda>x. x\<lparr>se_rotated_at := Some now\<rparr>"]) simp_all

lemma issue_token_pair_spent:
  "key_spent k s \<Longrightarrow> key_spent k (snd (issue_token_pair hash now raw u ip ua f s))"
  by (cases k; cases f)
    (auto simp: issue_token_pair_def fresh_id_def Let_def)

lemma issue_auth_token_spent:
  "key_spent k s \<Longrightarrow> key_spent k (snd (issue_auth_token hash now raw u p ttl s))"
  by (cases k) (auto simp: issue_auth_token_def fresh_id_def Let_def)

lemma revoke_session_spent: "key_spent k s \<Longrightarrow> key_spent k (revoke_session hash now raw s)"
proof (cases "find (\<lambda>x. se_refresh_token_hash x = hash raw) (auth_sessions s)")
  case (Some x)
  assume "key_spent k s"
  then show ?thesis
    using Some by (auto simp: revoke_session_def intro: session_update_spent)
qed (simp add: revoke_session_def)

lemma revoke_all_spent: "key_spent k s \<Longrightarrow> key_spent k (snd (revoke_all_for_user now u s))"
  by (erule session_update_spent [where f = "\<lambda>x. x\<lparr>se_revoked_at := Some now\<rparr>"]) (simp_all add: revoke_all_for_user_def Let_def)

lemma invalidate_spent: "key_spent k s \<Longrightarrow> key_spent k (invalidate_unconsumed_tokens now u p s)"
  by (erule token_update_spent) (simp_all add: invalidate_unconsumed_tokens_def)

lemma consume_token_state:
  "snd (consume_auth_token hash now p raw s) = s\<lparr>auth_tokens := update_where
     (\<lambda>x. tk_token_hash x = hash raw \<and> tk_purpose x = p \<and> tk_consumed_at x = None \<and> now \<le> tk_expires_at x)
     (\<lambda>x. x\<lparr>tk_consumed_at := Some now\<rparr>) (auth_tokens s)\<rparr>"
  by (simp add: consume_auth_token_def Let_def split: option.split)

lemma consume_token_spent: "key_spent k s \<Longrightarrow> key_spent k (snd (consume_auth_token hash now p raw s))"
  by (erule token_update_spent) (simp_all add: consume_token_state)

lemma add_codes_frame [simp]:
  "auth_sessions (add_backup_codes hash u cs s) = auth_sessions s"
  "auth_tokens (add_backup_codes hash u cs s) = auth_tokens s"
  by (induction cs arbitrary: s) (simp_all add: fresh_id_def Let_def)

lemma generate_codes_spent: "key_spent k s \<Longrightarrow> key_spent k (generate_backup_codes hash u cs s)"
  by (erule key_spent_cong) (simp_all add: generate_backup_codes_def)

lemma consume_code_spent: "key_spent k s \<Longrightarrow> key_spent k (snd (consume_backup_code hash now u c s))"
  by (erule key_spent_cong) (simp_all add: consume_backup_code_def split: option.split)

lemma rotate_refresh_spent:
  "key_spent k s \<Longrightarrow> key_spent k (snd (rotate_refresh hash now raw new ip ua s))"
proof -
  assume sp: "key_spent k s"
  note s1 = rotated_spent [OF sp]
  have iss: "issue_token_pair hash now raw u ip ua f
      (s\<lparr>auth_sessions := update_where P (\<lambda>x. x\<lparr>se_rotated_at := Some now\<rparr>) (auth_sessions s)\<rparr>)
      = (r, s2) \<Longrightarrow> key_spent k s2" for raw u ip ua f P r s2
    using issue_token_pair_spent [OF s1] by (metis snd_conv)
  show ?thesis
    using sp revoke_family_spent [OF s1] s1
    by (auto simp: rotate_refresh_def Let_def dest: iss split: option.splits sum.splits prod.splits)
qed

lemmas auth_op_spent =
  issue_token_pair_spent issue_auth_token_spent revoke_session_spent revoke_all_spent
  invalidate_spent generate_codes_spent consume_code_spent

lemma find_session_live:
  assumes "auth_inv s" "find (\<lambda>x. se_refresh_token_hash x = h) (auth_sessions s) = Some sess"
  shows "count_where (\<lambda>x. se_id x = se_id sess \<and> session_live now x) (auth_sessions s) = 0
    \<longleftrightarrow> \<not> session_live now sess"
proof -
  have "sess \<in> set (auth_sessions s)" using find_SomeD [OF assms(2)] by simp
  moreover have "x = sess" if "x \<in> set (auth_sessions s)" "se_id x = se_id sess" for x
    using assms(1) calculation that by (auto simp: auth_inv_def dest: distinct_mapD)
  ultimately show ?thesis by (auto simp: count_where_0_iff)
qed

lemma rotate_refresh_ok:
  assumes "auth_inv s" "rotate_refresh hash now raw new_raw ip ua s = (Inr (a, new, user), s')"
  obtains sess row where
    "sess \<in> set (auth_sessions s)" "se_refresh_token_hash sess = hash raw" "session_live now sess"
    "user \<in> set (users s)" "u_id user = se_user_id sess" "a = u_id user" "new = new_raw"
    "auth_sessions s' = update_where (\<lambda>x. se_id x = se_id sess \<and> session_live now x)
       (\<lambda>x. x\<lparr>se_rotated_at := Some now\<rparr>) (auth_sessions s) @ [row]"
    "se_refresh_token_hash row = hash new_raw" "se_family_id row = se_family_id sess"
    "se_user_id row = se_user_id sess" "session_live now row"
    "\<forall>x \<in> set (auth_sessions s). se_refresh_token_hash x \<noteq> hash new_raw"
    "auth_tokens s' = auth_tokens s" "users s' = users s"
proof -
  obtain sess where f: "find (\<lambda>x. se_refresh_token_hash x = hash raw) (auth_sessions s) = Some sess"
    using assms(2) by (auto simp: rotate_refresh_def split: option.splits)
  let ?s1 = "s\<lparr>auth_sessions := update_where (\<lambda>x. se_id x = se_id sess \<and> session_live now x)
       (\<lambda>x. x\<lparr>se_rotated_at := Some now\<rparr>) (auth_sessions s)\<rparr>"
  have live: "session_live now sess"
    using assms(2) find_session_live [OF assms(1) f]
    by (auto simp: rotate_refresh_def f Let_def split: if_splits)
  have c: "count_where (\<lambda>x. se_id x = se_id sess \<and> session_live now x) (auth_sessions s) \<noteq> 0"
    using find_session_live [OF assms(1) f] live by blast
  have "(Inr (a, new, user), s') = (case user_by_id ?s1 (se_user_id sess) of
      None \<Rightarrow> (Inl Unauthorized, ?s1)
    | Some user \<Rightarrow> (case issue_token_pair hash now new_raw (u_id user) ip ua (Some (se_family_id sess)) ?s1 of
         (Inl e, s2) \<Rightarrow> (Inl e, s2)
       | (Inr (access, new), s2) \<Rightarrow> (Inr (access, new, user), s2)))"
    using c by (simp only: assms(2) [symmetric]) (simp add: rotate_refresh_def f Let_def)
  then obtain u where u: "find (\<lambda>u. u_id u = se_user_id sess) (users s) = Some u"
    and p: "issue_token_pair hash now new_raw (u_id u) ip ua (Some (se_family_id sess)) ?s1 = (Inr (a, new), s')"
    and "user = u"
    by (auto simp: user_by_id_def split: option.splits sum.splits prod.splits)
  from p have nh: "\<forall>x \<in> set (auth_sessions ?s1). se_refresh_token_hash x \<noteq> hash new_raw"
    and s': "auth_sessions s' = auth_sessions ?s1 @
       [\<lparr>se_id = fresh s, se_user_id = u_id u, se_refresh_token_hash = hash new_raw,
         se_family_id = se_family_id sess, se_ip = ip, se_user_agent = ua,
         se_expires_at = now + days refresh_token_expire_days,
         se_rotated_at = None, se_revoked_at = None\<rparr>]"
    and "auth_tokens s' = auth_tokens s" "users s' = users s" "a = u_id u" "new = new_raw"
    by (auto simp: issue_token_pair_def fresh_id_def Let_def split: if_splits)
  have "\<forall>x \<in> set (auth_sessions s). se_refresh_token_hash x \<noteq> hash new_raw"
    using nh ex_update_where [of "\<lambda>x. se_id x = se_id sess \<and> session_live now x"
      "\<lambda>x. se_refresh_token_hash x = hash new_raw" "\<lambda>x. x\<lparr>se_rotated_at := Some now\<rparr>" "auth_sessions s"]
    by auto
  moreover have "0 < days refresh_token_expire_days"
    by (rule duration_pos) (simp add: refresh_token_expire_days_def)
  ultimately show thesis
    using that [OF _ _ live _ _ _ _ _ _ _ _ _ _ \<open>auth_tokens s' = auth_tokens s\<close> \<open>users s' = users s\<close>]
      find_SomeD [OF f] find_SomeD [OF u] s' \<open>user = u\<close> \<open>a = u_id u\<close> \<open>new = new_raw\<close>
    by (simp add: session_live_def)
qed

lemma rotate_claim_spends:
  assumes "auth_inv s" "rotate_refresh hash now raw new_raw ip ua s = (Inr r, s')"
  shows "key_spent (Refresh_key (hash raw)) s'"
proof -
  obtain a new user where r: "r = (a, new, user)" by (cases r) auto
  show ?thesis
    using assms(1) assms(2) [unfolded r]
  proof (rule rotate_refresh_ok)
    fix sess row
    assume sess: "sess \<in> set (auth_sessions s)" "se_refresh_token_hash sess = hash raw" "session_live now sess"
      and s': "auth_sessions s' = update_where (\<lambda>x. se_id x = se_id sess \<and> session_live now x)
         (\<lambda>x. x\<lparr>se_rotated_at := Some now\<rparr>) (auth_sessions s) @ [row]"
      and row: "se_refresh_token_hash row = hash new_raw"
        "\<forall>x \<in> set (auth_sessions s). se_refresh_token_hash x \<noteq> hash new_raw"
    have uniq: "x = sess" if "x \<in> set (auth_sessions s)" "se_refresh_token_hash x = hash raw" for x
      using assms(1) that sess by (auto simp: auth_inv_def dest: distinct_mapD)
    let ?P = "\<lambda>x. se_id x = se_id sess \<and> session_live now x"
    let ?f = "\<lambda>x :: auth_session. x\<lparr>se_rotated_at := Some now\<rparr>"
    have "hash raw \<noteq> hash new_raw" using row(2) sess(1,2) by metis
    moreover have "\<exists>x \<in> set (update_where ?P ?f (auth_sessions s)). se_refresh_token_hash x = hash raw"
      using sess(1,2) by (subst ex_update_where) auto
    moreover have "se_rotated_at x \<noteq> None"
      if x: "x \<in> set (update_where ?P ?f (auth_sessions s))" "se_refresh_token_hash x = hash raw" for x
      using x(1)
    proof (rule in_update_whereE)
      fix r0 assume r0: "r0 \<in> set (auth_sessions s)" "x = (if ?P r0 then ?f r0 else r0)"
      then have "r0 = sess" using uniq x(2) by (simp split: if_splits)
      then show ?thesis using r0(2) sess(3) by simp
    qed
    ultimately show ?thesis using row(1) by (auto simp: s')
  qed
qed

lemma rotate_refused:
  assumes "auth_inv s" "key_spent (Refresh_key (hash raw)) s"
  shows "\<not> is_ok (fst (rotate_refresh hash now raw new_raw ip ua s))"
proof
  assume "is_ok (fst (rotate_refresh hash now raw new_raw ip ua s))"
  then obtain a new user s' where r: "rotate_refresh hash now raw new_raw ip ua s = (Inr (a, new, user), s')"
    by (auto elim!: is_okE)
  from assms(1) r show False
  proof (rule rotate_refresh_ok)
    fix sess
    assume "sess \<in> set (auth_sessions s)" "se_refresh_token_hash sess = hash raw" "session_live now sess"
    then show False using assms(2) by (auto simp: session_live_def)
  qed
qed

lemma consume_token_ok:
  assumes "auth_inv s" "consume_auth_token hash now p raw s = (Inr user, s')"
  obtains row where "row \<in> set (auth_tokens s)" "tk_token_hash row = hash raw" "tk_purpose row = p"
    "tk_consumed_at row = None" "now \<le> tk_expires_at row" "user \<in> set (users s)"
    "u_id user = tk_user_id row"
proof -
  let ?P = "\<lambda>x. tk_token_hash x = hash raw \<and> tk_purpose x = p \<and> tk_consumed_at x = None \<and> now \<le> tk_expires_at x"
  let ?Q = "\<lambda>x. tk_token_hash x = hash raw \<and> tk_purpose x = p"
  let ?f = "\<lambda>x :: auth_token. x\<lparr>tk_consumed_at := Some now\<rparr>"
  have c: "count_where ?P (auth_tokens s) \<noteq> 0"
    using assms(2) by (auto simp: consume_auth_token_def Let_def split: if_splits)
  then obtain row where row: "row \<in> set (auth_tokens s)" "?P row" by (auto simp: count_where_0_iff)
  obtain y u where y: "find ?Q (update_where ?P ?f (auth_tokens s)) = Some y"
    and u: "find (\<lambda>u. u_id u = tk_user_id y) (users s) = Some u" "user = u"
    using assms(2) c
    by (auto simp: consume_auth_token_def user_by_id_def Let_def split: option.splits)
  then obtain x where x: "find ?Q (auth_tokens s) = Some x" "y = (if ?P x then ?f x else x)"
    by (auto simp: find_update_where)
  have "x = row"
    using find_SomeD [OF x(1)] row assms(1) by (auto simp: auth_inv_def dest: distinct_mapD)
  then have "tk_user_id y = tk_user_id row" using x(2) by simp
  then show thesis using that row u find_SomeD [OF u(1)] by metis
qed

lemma consume_claim_spends:
  assumes "auth_inv s" "consume_auth_token hash now p raw s = (Inr user, s')"
  shows "key_spent (Token_key p (hash raw)) s'"
  using assms
proof (rule consume_token_ok)
  fix row
  assume row: "row \<in> set (auth_tokens s)" "tk_token_hash row = hash raw" "tk_purpose row = p"
    "tk_consumed_at row = None" "now \<le> tk_expires_at row"
  have uniq: "x = row" if "x \<in> set (auth_tokens s)" "tk_token_hash x = hash raw" for x
    using assms(1) that row by (auto simp: auth_inv_def dest: distinct_mapD)
  have "s' = snd (consume_auth_token hash now p raw s)" using assms(2) by simp
  then have s': "auth_tokens s' = update_where (\<lambda>x. tk_token_hash x = hash raw \<and> tk_purpose x = p
      \<and> tk_consumed_at x = None \<and> now \<le> tk_expires_at x) (\<lambda>x. x\<lparr>tk_consumed_at := Some now\<rparr>) (auth_tokens s)"
    by (simp only: consume_token_state) simp
  have "\<exists>x \<in> set (auth_tokens s'). tk_token_hash x = hash raw"
    using row(1,2) unfolding s' by (subst ex_update_where) auto
  moreover have "tk_consumed_at x \<noteq> None"
    if x: "x \<in> set (auth_tokens s')" "tk_token_hash x = hash raw" for x
    using x(1) unfolding s'
  proof (rule in_update_whereE)
    fix r0
    assume r0: "r0 \<in> set (auth_tokens s)" "x = (if tk_token_hash r0 = hash raw \<and> tk_purpose r0 = p
      \<and> tk_consumed_at r0 = None \<and> now \<le> tk_expires_at r0 then r0\<lparr>tk_consumed_at := Some now\<rparr> else r0)"
    then have "r0 = row" using uniq x(2) by (simp split: if_splits)
    then show ?thesis using r0(2) row by simp
  qed
  ultimately show ?thesis by auto
qed

lemma consume_refused:
  assumes "auth_inv s" "key_spent (Token_key p (hash raw)) s"
  shows "\<not> is_ok (fst (consume_auth_token hash now p raw s))"
proof
  assume "is_ok (fst (consume_auth_token hash now p raw s))"
  then obtain u s' where "consume_auth_token hash now p raw s = (Inr u, s')"
    by (rule is_okE)
  from assms(1) this show False
  proof (rule consume_token_ok)
    fix row
    assume "row \<in> set (auth_tokens s)" "tk_token_hash row = hash raw" "tk_purpose row = p"
      "tk_consumed_at row = None"
    then show False using assms(2) by auto
  qed
qed

lemma run_tx_snd: "snd (run_tx f s) = s \<or> (is_ok (fst (f s)) \<and> snd (run_tx f s) = snd (f s))"
  by (auto simp: run_tx_def split: prod.split sum.split)

lemma run_claim_inv: "auth_inv s \<Longrightarrow> auth_inv (snd (run_claim hash c s))"
proof (cases c)
  case (Rotate now raw new ip ua)
  assume "auth_inv s"
  then show ?thesis
    using run_tx_snd [of "rotate_refresh hash now raw new ip ua" s] rotate_refresh_inv Rotate
    by (auto simp: case_prod_unfold)
next
  case (Consume now p raw)
  assume "auth_inv s"
  then show ?thesis
    using run_tx_snd [of "consume_auth_token hash now p raw" s] consume_token_inv Consume
    by (auto simp: case_prod_unfold)
qed

lemma run_claim_spent: "key_spent k s \<Longrightarrow> key_spent k (snd (run_claim hash c s))"
proof (cases c)
  case (Rotate now raw new ip ua)
  assume "key_spent k s"
  then show ?thesis
    using run_tx_snd [of "rotate_refresh hash now raw new ip ua" s] rotate_refresh_spent Rotate
    by (auto simp: case_prod_unfold)
next
  case (Consume now p raw)
  assume "key_spent k s"
  then show ?thesis
    using run_tx_snd [of "consume_auth_token hash now p raw" s] consume_token_spent Consume
    by (auto simp: case_prod_unfold)
qed

lemma run_tx_fst: "is_ok (fst (run_tx f s)) = is_ok (fst (f s))"
  by (auto simp: run_tx_def split: prod.split sum.split)

interpretation once: claim_once "run_claim hash" "claims_key hash" key_spent auth_inv
  for hash :: "string \<Rightarrow> string"
proof
  fix s s' :: "'a auth_db_scheme" and k c
  assume inv: "auth_inv s"
  show "key_spent k s'" if key: "claims_key hash k c" and won: "run_claim hash c s = (True, s')"
  proof (cases c)
    case (Rotate now raw new ip ua)
    then obtain r where eq: "rotate_refresh hash now raw new ip ua s = (Inr r, s')"
      using won by (auto simp: run_tx_def is_ok_def split: prod.splits sum.splits)
    then show ?thesis
      using rotate_claim_spends [OF inv eq] key Rotate by (cases k) auto
  next
    case (Consume now p raw)
    then obtain r where eq: "consume_auth_token hash now p raw s = (Inr r, s')"
      using won by (auto simp: run_tx_def is_ok_def split: prod.splits sum.splits)
    then show ?thesis
      using consume_claim_spends [OF inv eq] key Consume by (cases k) auto
  qed
  show "\<not> fst (run_claim hash c s)" if "claims_key hash k c" "key_spent k s"
    using that rotate_refused [OF inv] consume_refused [OF inv]
    by (cases c; cases k) (auto simp: case_prod_unfold run_tx_fst)
qed (simp_all add: run_claim_inv run_claim_spent)

lemma run_op_inv: "auth_inv s \<Longrightarrow> auth_inv (run_op hash oper s)"
  by (cases oper) (simp_all add: auth_op_inv)

lemma run_op_spent: "key_spent k s \<Longrightarrow> key_spent k (run_op hash oper s)"
  by (cases oper) (simp_all add: auth_op_spent)

text \<open>
  C1: in every history of requests on the authentication tables (refreshes, consumptions of
  one-time links, logins, logouts, password changes, re-issued links, backup codes), in any order
  and at any times, a refresh token is rotated successfully at most once, and a one-time link of a
  purpose is consumed successfully at most once.
\<close>

theorem auth_single_use:
  fixes s :: "'s auth_db_scheme"
  assumes "auth_inv s"
  shows "wins (claims_key hash k) (fst (run_events (run_claim hash) (map (auth_event hash) steps) s)) \<le> 1"
proof (rule once.at_most_one_win [OF assms])
  show "once.harmless k (map (auth_event hash) steps :: (auth_claim, 's auth_db_scheme) event list)"
    unfolding once.harmless_def
  proof (intro allI impI)
    fix f :: "'s auth_db_scheme \<Rightarrow> 's auth_db_scheme" and t :: "'s auth_db_scheme"
    assume "Other f \<in> set (map (auth_event hash) steps)" "auth_inv t"
    then obtain step where "auth_event hash step = Other f" by auto
    then obtain oper where "f = run_op hash oper" by (cases step) auto
    then show "auth_inv (f t) \<and> (key_spent k t \<longrightarrow> key_spent k (f t))"
      using run_op_inv [OF \<open>auth_inv t\<close>] run_op_spent by blast
  qed
qed

definition sample_user :: "uid \<Rightarrow> user_status \<Rightarrow> user" where
  "sample_user i status =
     \<lparr>u_id = i, u_email = ''a@b.c'', u_password_hash = Some ''h:pw1'', u_status = status,
      u_email_verified_at = None, u_mfa_type = Mfa_none, u_mfa_secret = None,
      u_mfa_enabled_at = None, u_failed_login_count = 0, u_locked_until = None,
      u_last_login_at = None, u_deleted_at = None, u_profile = None\<rparr>"

definition empty_auth_db :: "unit auth_db_scheme" where
  "empty_auth_db =
     \<lparr>fresh = 50, events = [], jobs = [], activity_log = [], audit_log = [],
      users = [sample_user 7 US_active], startups = [], memberships = [],
      notifications = [], notification_preferences = [], pending_realtime = [],
      auth_sessions = [], auth_tokens = [], backup_codes = [], \<dots> = ()\<rparr>"

definition sample_session :: "uid \<Rightarrow> string \<Rightarrow> instant option \<Rightarrow> auth_session" where
  "sample_session i h rot =
     \<lparr>se_id = i, se_user_id = 7, se_refresh_token_hash = h, se_family_id = 3, se_ip = None,
      se_user_agent = None, se_expires_at = 1000, se_rotated_at = rot, se_revoked_at = None\<rparr>"

lemma auth_single_use_witness:
  "wins (claims_key id (Refresh_key ''r1''))
     (fst (run_events (run_claim id) (map (auth_event id)
        [Inl (Rotate 5 ''r1'' ''r2'' None None), Inl (Rotate 6 ''r1'' ''r3'' None None)])
       (empty_auth_db\<lparr>auth_sessions := [sample_session 1 ''r1'' None]\<rparr>))) = 1"
proof -
  let ?s = "empty_auth_db\<lparr>auth_sessions := [sample_session 1 ''r1'' None]\<rparr>"
  have "auth_inv ?s"
    by (simp add: auth_inv_def empty_auth_db_def sample_session_def)
  note auth_single_use [OF this, of id "Refresh_key ''r1''" "[Inl (Rotate 5 ''r1'' ''r2'' None None),
      Inl (Rotate 6 ''r1'' ''r3'' None None)]"]
  moreover have "0 < wins (claims_key id (Refresh_key ''r1''))
     (fst (run_events (run_claim id) (map (auth_event id)
        [Inl (Rotate 5 ''r1'' ''r2'' None None), Inl (Rotate 6 ''r1'' ''r3'' None None)]) ?s))"
    by (simp add: run_tx_def rotate_refresh_def empty_auth_db_def sample_session_def
        session_live_def user_by_id_def sample_user_def issue_token_pair_def fresh_id_def
        case_prod_unfold Let_def)
  ultimately show ?thesis by simp
qed

text \<open>
  C6: a replayed refresh token. The service revokes every session of the token's family before it
  raises; but the request that runs it ends without a commit, so its transaction is undone: the
  client is refused, every session of the family stays exactly as it was, and a live one can
  still be rotated.
\<close>

theorem replay_revocation_lost:
  assumes "auth_inv s" "sess \<in> set (auth_sessions s)" "se_refresh_token_hash sess = hash raw"
    and "se_rotated_at sess \<noteq> None" "raw \<noteq> []"
  shows "fst (rotate_refresh hash now raw new_raw ip ua s) = Inl Unauthorized
    \<and> (\<forall>x \<in> set (auth_sessions (snd (rotate_refresh hash now raw new_raw ip ua s))).
         se_family_id x = se_family_id sess \<longrightarrow> se_revoked_at x \<noteq> None)
    \<and> refresh_endpoint hash now (Some raw) body new_raw ip ua s = (Inl Unauthorized, s)"
proof -
  have "find (\<lambda>x. se_refresh_token_hash x = se_refresh_token_hash sess) (auth_sessions s) = Some sess"
    using find_key_unique [of se_refresh_token_hash "auth_sessions s" sess] assms(1,2)
    by (simp add: auth_inv_def)
  then have f: "find (\<lambda>x. se_refresh_token_hash x = hash raw) (auth_sessions s) = Some sess"
    using assms(3) by simp
  let ?mine = "\<lambda>x. se_id x = se_id sess \<and> session_live now x"
  let ?s1 = "s\<lparr>auth_sessions := update_where ?mine (\<lambda>x. x\<lparr>se_rotated_at := Some now\<rparr>) (auth_sessions s)\<rparr>"
  have "count_where ?mine (auth_sessions s) = 0"
    using find_session_live [OF assms(1) f] assms(4) by (simp add: session_live_def)
  then have r: "rotate_refresh hash now raw new_raw ip ua s
      = (Inl Unauthorized, revoke_family now (se_family_id sess) ?s1)"
    by (simp add: rotate_refresh_def f Let_def)
  have "\<forall>x \<in> set (auth_sessions (revoke_family now (se_family_id sess) t)).
      se_family_id x = se_family_id sess \<longrightarrow> se_revoked_at x \<noteq> None" for t :: "'a auth_db_scheme"
    by (auto simp: revoke_family_def elim!: in_update_whereE split: if_splits)
  then show ?thesis
    using r assms(5) by (simp add: refresh_endpoint_def run_tx_def read_refresh_def)
qed

lemma replay_revocation_lost_witness:
  "(let s = empty_auth_db\<lparr>auth_sessions := [sample_session 1 ''r1'' (Some 5), sample_session 2 ''r2'' None]\<rparr>;
        s' = snd (refresh_endpoint id 6 (Some ''r1'') None ''r3'' None None s)
    in s' = s \<and> is_ok (fst (refresh_endpoint id 7 (Some ''r2'') None ''r4'' None None s')))"
proof -
  let ?s = "empty_auth_db\<lparr>auth_sessions := [sample_session 1 ''r1'' (Some 5), sample_session 2 ''r2'' None]\<rparr>"
  have "refresh_endpoint id 6 (Some ''r1'') None ''r3'' None None ?s = (Inl Unauthorized, ?s)"
    using replay_revocation_lost [of ?s "sample_session 1 ''r1'' (Some 5)" id "''r1''"]
    by (simp add: auth_inv_def empty_auth_db_def sample_session_def)
  moreover have "is_ok (fst (refresh_endpoint id 7 (Some ''r2'') None ''r4'' None None ?s))"
    by (simp add: refresh_endpoint_def read_refresh_def run_tx_def rotate_refresh_def empty_auth_db_def
        sample_session_def session_live_def user_by_id_def sample_user_def issue_token_pair_def
        fresh_id_def case_prod_unfold Let_def)
  ultimately show ?thesis by simp
qed

end
