(* ===== verification/Passwords.thy ===== *)
theory Passwords
  imports Errors
begin

text \<open>
  Passwords (\<^verbatim>\<open>app/services/auth/password.py\<close>, \<^verbatim>\<open>app/core/security.py\<close>): the strength gate of
  the paths that set one, and the bytes bcrypt is given. A password is the list of its Unicode
  code points; \<open>utf8\<close> is Python's encoder. \<open>is_digit\<close> stands for the Unicode class of \<^verbatim>\<open>\d\<close>.
\<close>

type_synonym password = "nat list"

definition bcrypt_max_password_bytes :: nat where
  "bcrypt_max_password_bytes = 72"

definition utf8_char :: "nat \<Rightarrow> nat list" where
  "utf8_char c =
     (if c < 128 then [c]
      else if c < 2048 then [192 + c div 64, 128 + c mod 64]
      else if c < 65536 then [224 + c div 4096, 128 + c div 64 mod 64, 128 + c mod 64]
      else [240 + c div 262144, 128 + c div 4096 mod 64, 128 + c div 64 mod 64, 128 + c mod 64])"

definition utf8 :: "password \<Rightarrow> nat list" where
  "utf8 p = concat (map utf8_char p)"

definition prepare_secret :: "password \<Rightarrow> nat list" where
  "prepare_secret p = take bcrypt_max_password_bytes (utf8 p)"

definition validate_password_strength :: "(nat \<Rightarrow> bool) \<Rightarrow> password \<Rightarrow> unit result" where
  "validate_password_strength is_digit p =
     (if length p < 8 \<or> \<not> list_ex is_digit p then Inl WeakPassword
      else if bcrypt_max_password_bytes < length (utf8 p) then Inl PasswordTooLong
      else Inr ())"

text \<open>
  \<open>checkpw\<close> is \<^verbatim>\<open>bcrypt.checkpw\<close>, \<open>None\<close> when the stored hash is malformed (\<^verbatim>\<open>ValueError\<close>).
\<close>

definition verify_password ::
    "(nat list \<Rightarrow> string \<Rightarrow> bool option) \<Rightarrow> password \<Rightarrow> string \<Rightarrow> bool" where
  "verify_password checkpw p h = (case checkpw (prepare_secret p) h of None \<Rightarrow> False | Some b \<Rightarrow> b)"

definition get_password_hash :: "(nat list \<Rightarrow> string) \<Rightarrow> password \<Rightarrow> string" where
  "get_password_hash hashpw p = hashpw (prepare_secret p)"

section \<open>The encoder loses nothing\<close>

definition code_points :: "password \<Rightarrow> bool" where
  "code_points p \<longleftrightarrow> (\<forall>c \<in> set p. c < 1114112)"

text \<open>The first byte tells how many bytes a character takes, and the bytes tell the character.\<close>

lemma utf8_char_neq_Nil [simp]: "utf8_char c \<noteq> []"
  by (simp add: utf8_char_def)

definition seq_length :: "nat \<Rightarrow> nat" where
  "seq_length b = (if b < 128 then 1 else if b < 224 then 2 else if b < 240 then 3 else 4)"

lemma utf8_char_length:
  assumes "c < 1114112"
  shows "length (utf8_char c) = seq_length (hd (utf8_char c))"
proof -
  have "c div 64 < 32" if "c < 2048" using that by (simp add: less_mult_imp_div_less)
  moreover have "c div 4096 < 16" if "c < 65536" using that by (simp add: less_mult_imp_div_less)
  moreover have "b < 48" if "b < 32" for b :: nat using that by simp
  ultimately show ?thesis by (auto simp: utf8_char_def seq_length_def)
qed

lemma split_digits: "(c :: nat) = 64 * (c div 64) + c mod 64"
  by simp

lemma utf8_char_inj:
  assumes "utf8_char c = utf8_char d"
  shows "c = d"
proof -
  have two: "c = d" if "c div 64 = d div 64" "c mod 64 = d mod 64"
    using that by (metis mult_div_mod_eq)
  have three: "c div 64 = d div 64" if "c div 4096 = d div 4096" "c div 64 mod 64 = d div 64 mod 64"
  proof -
    have "c div 64 div 64 = d div 64 div 64" using that(1) by (simp add: div_mult2_eq [symmetric])
    then show ?thesis using that(2) by (metis mult_div_mod_eq)
  qed
  have four: "c div 4096 = d div 4096" if "c div 262144 = d div 262144" "c div 4096 mod 64 = d div 4096 mod 64"
  proof -
    have "c div 4096 div 64 = d div 4096 div 64" using that(1) by (simp add: div_mult2_eq [symmetric])
    then show ?thesis using that(2) by (metis mult_div_mod_eq)
  qed
  show ?thesis
    using assms two three four by (auto simp: utf8_char_def split: if_splits)
qed

lemma utf8_inj: "code_points p \<Longrightarrow> code_points q \<Longrightarrow> utf8 p = utf8 q \<Longrightarrow> p = q"
proof (induction p arbitrary: q)
  case Nil
  then show ?case by (cases q) (simp_all add: utf8_def)
next
  case (Cons c p)
  then obtain d q' where q: "q = d # q'" by (cases q) (simp_all add: utf8_def)
  have eq: "utf8_char c @ utf8 p = utf8_char d @ utf8 q'"
    using Cons.prems(3) by (simp add: utf8_def q)
  have "hd (utf8_char c) = hd (utf8_char d)"
    using arg_cong [OF eq, of hd] by simp
  then have "length (utf8_char c) = length (utf8_char d)"
    using utf8_char_length Cons.prems(1,2) by (simp add: code_points_def q)
  then have "utf8_char c = utf8_char d" "utf8 p = utf8 q'" using eq by auto
  then show ?case
    using Cons.IH [of q'] Cons.prems(1,2) utf8_char_inj by (simp add: code_points_def q)
qed

text \<open>
  A password that passes the strength gate is hashed whole: no byte of it is cut off, so two
  different accepted passwords never share the secret bcrypt sees (the silent truncation the gate
  is there to stop).
\<close>

theorem accepted_passwords_distinct:
  assumes "validate_password_strength is_digit p = Inr ()" "validate_password_strength is_digit q = Inr ()"
    and "code_points p" "code_points q"
  shows "prepare_secret p = utf8 p \<and> (prepare_secret p = prepare_secret q \<longleftrightarrow> p = q)"
proof -
  have "length (utf8 p) \<le> 72" "length (utf8 q) \<le> 72"
    using assms(1,2)
    by (simp_all add: validate_password_strength_def bcrypt_max_password_bytes_def split: if_splits)
  then have "prepare_secret p = utf8 p" "prepare_secret q = utf8 q"
    by (simp_all add: prepare_secret_def bcrypt_max_password_bytes_def)
  then show ?thesis using utf8_inj [OF assms(3,4)] by auto
qed

lemma accepted_passwords_distinct_witness:
  "prepare_secret [233, 8364, 97, 98, 99, 100, 101, 49] = utf8 [233, 8364, 97, 98, 99, 100, 101, 49]
   \<and> prepare_secret [233, 8364, 97, 98, 99, 100, 101, 49] \<noteq> prepare_secret [233, 8364, 97, 98, 99, 100, 101, 50]"
proof -
  let ?p = "[233, 8364, 97, 98, 99, 100, 101, 49] :: password"
  let ?q = "[233, 8364, 97, 98, 99, 100, 101, 50] :: password"
  let ?d = "\<lambda>c :: nat. 48 \<le> c \<and> c \<le> 57"
  have "validate_password_strength ?d ?p = Inr ()" "validate_password_strength ?d ?q = Inr ()"
    "code_points ?p" "code_points ?q"
    by (simp_all add: validate_password_strength_def utf8_def utf8_char_def code_points_def
        bcrypt_max_password_bytes_def)
  note * = accepted_passwords_distinct [OF this]
  have "?p \<noteq> ?q" by simp
  with * show ?thesis by blast
qed

end
