(* ===== verification/Auth_Login.thy ===== *)
theory Auth_Login
  imports Auth_Sessions Passwords
begin

text \<open>
  The authentication endpoints (\<^verbatim>\<open>app/api/v1/endpoints/auth\<close>): sign-up and verification, login
  with its lockout, two-factor, password reset. What is not the program's is in \<open>auth_env\<close>: the
  hash functions, the signer, TOTP and the secret box, and Redis, whose commands are functions on
  a store \<open>'r\<close>. Values drawn at random are arguments.
\<close>

record 'r auth_env =
  ae_hash :: "string \<Rightarrow> string"
  ae_checkpw :: "nat list \<Rightarrow> string \<Rightarrow> bool option"
  ae_hashpw :: "nat list \<Rightarrow> string"
  ae_is_digit :: "nat \<Rightarrow> bool"
  ae_totp :: "string \<Rightarrow> string \<Rightarrow> instant \<Rightarrow> bool"
  ae_encrypt :: "string \<Rightarrow> string result"
  ae_decrypt :: "string \<Rightarrow> string result"
  ae_setex :: "instant \<Rightarrow> string \<Rightarrow> int \<Rightarrow> uid \<Rightarrow> 'r \<Rightarrow> 'r"
  ae_set_nx :: "instant \<Rightarrow> string \<Rightarrow> int \<Rightarrow> 'r \<Rightarrow> bool \<times> 'r"
  ae_get :: "instant \<Rightarrow> string \<Rightarrow> 'r \<Rightarrow> uid option"
  ae_delete :: "string \<Rightarrow> 'r \<Rightarrow> 'r"
  ae_base_url :: string

definition login_max_fails :: int where
  "login_max_fails = 5"

definition login_lockout_minutes :: int where
  "login_lockout_minutes = 15"

section \<open>E-mails\<close>

record email_message =
  em_to :: string
  em_subject :: string
  em_action_url :: string

definition verification_email :: "string \<Rightarrow> string \<Rightarrow> string \<Rightarrow> email_message" where
  "verification_email base to raw =
     \<lparr>em_to = to, em_subject = ''Verify your email'', em_action_url = base @ ''/verify-email/'' @ raw\<rparr>"

definition password_reset_email :: "string \<Rightarrow> string \<Rightarrow> string \<Rightarrow> email_message" where
  "password_reset_email base to raw =
     \<lparr>em_to = to, em_subject = ''Reset your password'', em_action_url = base @ ''/reset-password/'' @ raw\<rparr>"

text \<open>
  What a request changes: the database (undone by an exception before the commit), and outside of
  it the Redis store and the e-mails handed to the provider.
\<close>

record ('r, 'd) world =
  db :: 'd
  redis :: 'r
  outbox :: "email_message list"

section \<open>Sign-up and verification\<close>

definition send_verification ::
    "'r auth_env \<Rightarrow> instant \<Rightarrow> string \<Rightarrow> user \<Rightarrow> 'a auth_db_scheme
     \<Rightarrow> email_message result \<times> 'a auth_db_scheme" where
  "send_verification env now raw user s =
     (let s1 = invalidate_unconsumed_tokens now (u_id user) TP_email_verification s
      in case issue_auth_token (ae_hash env) now raw (u_id user) TP_email_verification (hours 24) s1 of
           (Inl e, s2) \<Rightarrow> (Inl e, s2)
         | (Inr raw, s2) \<Rightarrow> (Inr (verification_email (ae_base_url env) (u_email user) raw), s2))"

definition new_user :: "uid \<Rightarrow> string \<Rightarrow> string \<Rightarrow> user" where
  "new_user i email pwhash =
     \<lparr>u_id = i, u_email = email, u_password_hash = Some pwhash, u_status = US_pending_verification,
      u_email_verified_at = None, u_mfa_type = Mfa_none, u_mfa_secret = None,
      u_mfa_enabled_at = None, u_failed_login_count = 0, u_locked_until = None,
      u_last_login_at = None, u_deleted_at = None,
      u_profile = Some \<lparr>up_full_name = None, up_role_title = ''Founder & CEO'', up_country = None,
                        up_phone = None, up_how_heard = None, up_avatar_url = None\<rparr>\<rparr>"

definition signup ::
    "'r auth_env \<Rightarrow> instant \<Rightarrow> string \<Rightarrow> password \<Rightarrow> string \<Rightarrow> string option
     \<Rightarrow> ('r, 'a auth_db_scheme) world \<Rightarrow> uid result \<times> ('r, 'a auth_db_scheme) world" where
  "signup env now email pw raw ip w =
     (case validate_password_strength (ae_is_digit env) pw of
        Inl e \<Rightarrow> (Inl e, w)
      | Inr _ \<Rightarrow>
          if user_by_email (db w) email \<noteq> None then (Inl EmailTaken, w)
          else (let (i, s1) = fresh_id (db w);
                    user = new_user i email (get_password_hash (ae_hashpw env) pw);
                    s2 = s1\<lparr>users := users s1 @ [user]\<rparr>
                in case send_verification env now raw user s2 of
                     (Inl e, _) \<Rightarrow> (Inl e, w)
                   | (Inr mail, s3) \<Rightarrow>
                       (Inr i, w\<lparr>outbox := outbox w @ [mail],
                          db := publish now ''auth.user.registered'' [(''user_id'', JUid i)]
                                  (write_audit ''auth.user.registered'' (Some i) None ip s3)\<rparr>)))"

definition verify ::
    "'r auth_env \<Rightarrow> instant \<Rightarrow> string \<Rightarrow> 'a auth_db_scheme \<Rightarrow> unit result \<times> 'a auth_db_scheme" where
  "verify env now raw =
     run_tx (\<lambda>s. case consume_auth_token (ae_hash env) now TP_email_verification raw s of
         (Inl e, s1) \<Rightarrow> (Inl e, s1)
       | (Inr user, s1) \<Rightarrow>
           (Inr (), publish now ''auth.user.verified'' [(''user_id'', JUid (u_id user))]
              (update_user (u_id user)
                 (\<lambda>u. u\<lparr>u_status := US_active, u_email_verified_at := Some now\<rparr>) s1)))"

definition resend ::
    "'r auth_env \<Rightarrow> instant \<Rightarrow> string \<Rightarrow> string \<Rightarrow> ('r, 'a auth_db_scheme) world
     \<Rightarrow> unit result \<times> ('r, 'a auth_db_scheme) world" where
  "resend env now email raw w =
     (let (first, r) = ae_set_nx env now (''verify_resend_cooldown:'' @ email) 60 (redis w);
          w1 = w\<lparr>redis := r\<rparr>
      in if \<not> first then (Inr (), w1)
         else (case find (\<lambda>u. citext_eq (u_email u) email \<and> u_status u = US_pending_verification)
                      (users (db w)) of
                 None \<Rightarrow> (Inr (), w1)
               | Some user \<Rightarrow>
                   (case send_verification env now raw user (db w) of
                      (Inl e, _) \<Rightarrow> (Inl e, w1)
                    | (Inr mail, s2) \<Rightarrow> (Inr (), w1\<lparr>outbox := outbox w @ [mail], db := s2\<rparr>))))"

section \<open>Login\<close>

datatype login_answer = Mfa_required string | Logged_in uid string

definition failed_login :: "instant \<Rightarrow> user \<Rightarrow> user" where
  "failed_login now u =
     (let c = u_failed_login_count u + 1
      in if login_max_fails \<le> c
         then u\<lparr>u_failed_login_count := 0,
                u_locked_until := Some (now + minutes login_lockout_minutes)\<rparr>
         else u\<lparr>u_failed_login_count := c\<rparr>)"

definition locked :: "instant \<Rightarrow> user \<Rightarrow> bool" where
  "locked now u = (case u_locked_until u of None \<Rightarrow> False | Some t \<Rightarrow> now < t)"

definition password_matches :: "'r auth_env \<Rightarrow> password \<Rightarrow> user \<Rightarrow> bool" where
  "password_matches env pw u =
     (case u_password_hash u of None \<Rightarrow> False | Some h \<Rightarrow> verify_password (ae_checkpw env) pw h)"

definition login ::
    "'r auth_env \<Rightarrow> instant \<Rightarrow> string \<Rightarrow> password \<Rightarrow> string \<Rightarrow> string \<Rightarrow> string option \<Rightarrow> string option
     \<Rightarrow> ('r, 'a auth_db_scheme) world \<Rightarrow> login_answer result \<times> ('r, 'a auth_db_scheme) world" where
  "login env now email pw raw ticket ip ua w =
     (let s = db w in
      case user_by_email s email of
        None \<Rightarrow> (Inl InvalidCredentials, w\<lparr>db := write_audit ''auth.login.failed'' None None ip s\<rparr>)
      | Some user \<Rightarrow>
          if locked now user then (Inl AccountLocked, w)
          else if \<not> password_matches env pw user
          then (Inl InvalidCredentials,
                w\<lparr>db := write_audit ''auth.login.failed'' (Some (u_id user)) None ip
                          (update_user (u_id user) (failed_login now) s)\<rparr>)
          else if u_status user = US_disabled then (Inl InvalidCredentials, w)
          else (let s1 = update_user (u_id user)
                           (\<lambda>u. u\<lparr>u_failed_login_count := 0, u_locked_until := None\<rparr>) s
                in if u_mfa_type user \<noteq> Mfa_none
                   then (Inr (Mfa_required ticket),
                         w\<lparr>db := s1, redis := ae_setex env now (''mfa_ticket:'' @ ticket) 300
                                               (u_id user) (redis w)\<rparr>)
                   else (let s2 = update_user (u_id user) (\<lambda>u. u\<lparr>u_last_login_at := Some now\<rparr>) s1
                         in case issue_token_pair (ae_hash env) now raw (u_id user) ip ua None s2 of
                              (Inl e, _) \<Rightarrow> (Inl e, w)
                            | (Inr (a, r), s3) \<Rightarrow>
                                (Inr (Logged_in a r),
                                 w\<lparr>db := write_audit ''auth.login.success'' (Some (u_id user)) None ip s3\<rparr>))))"

section \<open>Two-factor\<close>

definition totp_setup ::
    "'r auth_env \<Rightarrow> string \<Rightarrow> user \<Rightarrow> 'a auth_db_scheme \<Rightarrow> string result \<times> 'a auth_db_scheme" where
  "totp_setup env secret user s =
     (if u_mfa_type user = Mfa_totp then (Inl (AppErr ''MFA_ALREADY_ENABLED'' 409 []), s)
      else (case ae_encrypt env secret of
              Inl e \<Rightarrow> (Inl e, s)
            | Inr c \<Rightarrow> (Inr secret, update_user (u_id user) (\<lambda>u. u\<lparr>u_mfa_secret := Some c\<rparr>) s)))"

definition has_secret :: "user \<Rightarrow> string option" where
  "has_secret u = (case u_mfa_secret u of None \<Rightarrow> None | Some c \<Rightarrow> if c = [] then None else Some c)"

definition totp_verify ::
    "'r auth_env \<Rightarrow> instant \<Rightarrow> string \<Rightarrow> string list \<Rightarrow> user \<Rightarrow> 'a auth_db_scheme
     \<Rightarrow> string list result \<times> 'a auth_db_scheme" where
  "totp_verify env now code codes user s =
     (case has_secret user of
        None \<Rightarrow> (Inl MfaInvalidCode, s)
      | Some c \<Rightarrow>
          (case ae_decrypt env c of
             Inl e \<Rightarrow> (Inl e, s)
           | Inr secret \<Rightarrow>
               if \<not> ae_totp env secret code now then (Inl MfaInvalidCode, s)
               else (Inr codes,
                     write_audit ''auth.mfa.enabled'' (Some (u_id user)) None None
                       (generate_backup_codes (ae_hash env) (u_id user) codes
                          (update_user (u_id user)
                             (\<lambda>u. u\<lparr>u_mfa_type := Mfa_totp, u_mfa_enabled_at := Some now\<rparr>) s)))))"

definition resolve_mfa_ticket :: "'r auth_env \<Rightarrow> instant \<Rightarrow> string \<Rightarrow> 'r \<Rightarrow> uid option \<times> 'r" where
  "resolve_mfa_ticket env now ticket r =
     (case ae_get env now (''mfa_ticket:'' @ ticket) r of
        Some u \<Rightarrow> (Some u, ae_delete env (''mfa_ticket:'' @ ticket) r)
      | None \<Rightarrow> (None, r))"

definition challenge ::
    "'r auth_env \<Rightarrow> instant \<Rightarrow> string \<Rightarrow> string \<Rightarrow> string \<Rightarrow> string option \<Rightarrow> string option
     \<Rightarrow> ('r, 'a auth_db_scheme) world \<Rightarrow> (uid \<times> string) result \<times> ('r, 'a auth_db_scheme) world" where
  "challenge env now ticket code raw ip ua w =
     (case resolve_mfa_ticket env now ticket (redis w) of
        (None, r) \<Rightarrow> (Inl MfaInvalidCode, w\<lparr>redis := r\<rparr>)
      | (Some uid, r) \<Rightarrow>
          (let w1 = w\<lparr>redis := r\<rparr>; s = db w in
           case user_by_id s uid of
             None \<Rightarrow> (Inl MfaInvalidCode, w1)
           | Some user \<Rightarrow>
               (case has_secret user of
                  None \<Rightarrow> (Inl MfaInvalidCode, w1)
                | Some c \<Rightarrow>
                    (case ae_decrypt env c of
                       Inl e \<Rightarrow> (Inl e, w1)
                     | Inr secret \<Rightarrow>
                         (let (ok, s1) = (if ae_totp env secret code now then (True, s)
                                          else consume_backup_code (ae_hash env) now (u_id user) code s)
                          in if \<not> ok
                             then (Inl MfaInvalidCode,
                                   w1\<lparr>db := write_audit ''auth.mfa.challenge.failed'' (Some (u_id user)) None ip s1\<rparr>)
                             else (let s2 = update_user (u_id user) (\<lambda>u. u\<lparr>u_last_login_at := Some now\<rparr>) s1
                                   in case issue_token_pair (ae_hash env) now raw (u_id user) ip ua None s2 of
                                        (Inl e, _) \<Rightarrow> (Inl e, w1)
                                      | (Inr (a, new), s3) \<Rightarrow>
                                          (Inr (a, new),
                                           w1\<lparr>db := write_audit ''auth.mfa.challenge.success''
                                                     (Some (u_id user)) None ip s3\<rparr>)))))))"

section \<open>Password reset\<close>

definition forgot ::
    "'r auth_env \<Rightarrow> instant \<Rightarrow> string \<Rightarrow> string \<Rightarrow> string option \<Rightarrow> ('r, 'a auth_db_scheme) world
     \<Rightarrow> unit result \<times> ('r, 'a auth_db_scheme) world" where
  "forgot env now email raw ip w =
     (let (first, r) = ae_set_nx env now (''password_reset_cooldown:'' @ email) 60 (redis w);
          w1 = w\<lparr>redis := r\<rparr>
      in if \<not> first then (Inr (), w1)
         else (case user_by_email (db w) email of
                 None \<Rightarrow> (Inr (), w1)
               | Some user \<Rightarrow>
                   if u_status user = US_disabled then (Inr (), w1)
                   else (let s1 = invalidate_unconsumed_tokens now (u_id user) TP_password_reset (db w)
                         in case issue_auth_token (ae_hash env) now raw (u_id user) TP_password_reset
                                   (hours 1) s1 of
                              (Inl e, _) \<Rightarrow> (Inl e, w1)
                            | (Inr raw, s2) \<Rightarrow>
                                (Inr (), w1\<lparr>outbox := outbox w @
                                    [password_reset_email (ae_base_url env) (u_email user) raw],
                                  db := write_audit ''auth.password.reset_requested''
                                          (Some (u_id user)) None ip s2\<rparr>))))"

definition reset ::
    "'r auth_env \<Rightarrow> instant \<Rightarrow> string \<Rightarrow> password \<Rightarrow> string option
     \<Rightarrow> 'a auth_db_scheme \<Rightarrow> unit result \<times> 'a auth_db_scheme" where
  "reset env now raw pw ip =
     run_tx (\<lambda>s. case validate_password_strength (ae_is_digit env) pw of
         Inl e \<Rightarrow> (Inl e, s)
       | Inr _ \<Rightarrow>
           (case consume_auth_token (ae_hash env) now TP_password_reset raw s of
              (Inl e, s1) \<Rightarrow> (Inl e, s1)
            | (Inr user, s1) \<Rightarrow>
                (let s2 = update_user (u_id user)
                            (\<lambda>u. u\<lparr>u_password_hash := Some (get_password_hash (ae_hashpw env) pw)\<rparr>) s1;
                     s3 = snd (revoke_all_for_user now (u_id user) s2)
                 in (Inr (), write_audit ''auth.password.reset'' (Some (u_id user)) None ip s3))))"

section \<open>The lockout\<close>

lemma user_by_email_update:
  "(\<And>u. u_email (f u) = u_email u) \<Longrightarrow>
   user_by_email (update_user i f s) e = map_option (\<lambda>u. if u_id u = i then f u else u) (user_by_email s e)"
  by (simp add: user_by_email_def update_user_def find_update_where)

lemma user_by_email_audit [simp]: "user_by_email (write_audit a u st ip s) e = user_by_email s e"
  by (simp add: user_by_email_def write_audit_def)

lemma failed_login_simps [simp]:
  "u_id (failed_login now u) = u_id u" "u_email (failed_login now u) = u_email u"
  "u_password_hash (failed_login now u) = u_password_hash u"
  by (simp_all add: failed_login_def Let_def)

text \<open>An attempt, and a run of attempts on one e-mail address.\<close>

record attempt =
  at_now :: instant
  at_password :: password

definition attempt_login ::
    "'r auth_env \<Rightarrow> string \<Rightarrow> attempt \<Rightarrow> ('r, 'a auth_db_scheme) world \<Rightarrow> ('r, 'a auth_db_scheme) world" where
  "attempt_login env email a w = snd (login env (at_now a) email (at_password a) [] [] None None w)"

lemma login_wrong:
  assumes "user_by_email (db w) email = Some u" "\<not> locked now u" "\<not> password_matches env pw u"
  shows "fst (login env now email pw raw ticket ip ua w) = Inl InvalidCredentials"
    "user_by_email (db (snd (login env now email pw raw ticket ip ua w))) email = Some (failed_login now u)"
  using assms by (simp_all add: login_def Let_def user_by_email_update)

lemma password_matches_failed [simp]:
  "password_matches env pw (failed_login now u) = password_matches env pw u"
  by (simp add: password_matches_def)

lemma wrong_run:
  assumes "user_by_email (db w) email = Some u" "\<forall>a \<in> set as. \<not> locked (at_now a) u"
    and "u_failed_login_count u + int (length as) < login_max_fails"
    and "\<forall>a \<in> set as. \<not> password_matches env (at_password a) u"
  shows "user_by_email (db (foldl (\<lambda>w a. attempt_login env email a w) w as)) email =
    Some (u\<lparr>u_failed_login_count := u_failed_login_count u + int (length as)\<rparr>)"
  using assms
proof (induction as arbitrary: w u)
  case (Cons a as)
  let ?u = "u\<lparr>u_failed_login_count := u_failed_login_count u + 1\<rparr>"
  have "failed_login (at_now a) u = ?u"
    using Cons.prems(3) by (simp add: failed_login_def Let_def)
  moreover have "\<not> locked (at_now a) u" using Cons.prems(2) by simp
  ultimately have "user_by_email (db (attempt_login env email a w)) email = Some ?u"
    using login_wrong(2) [of w email u "at_now a" env "at_password a"] Cons.prems
    by (simp add: attempt_login_def)
  moreover have "password_matches env p ?u = password_matches env p u" for p
    by (simp add: password_matches_def)
  moreover have "locked now ?u = locked now u" for now by (simp add: locked_def)
  ultimately show ?case
    using Cons.IH [of "attempt_login env email a w" ?u] Cons.prems by (simp add: add.assoc)
qed simp

text \<open>
  C2: the lockout. For an account that was never locked, or whose earlier lock has run out, with some failures
  already counted, further wrong passwords up to four in total only count; the fifth locks the account
  (again) for fifteen minutes, and
  until then every attempt, with the right password too, is refused as locked and changes
  nothing; afterwards the account is open again with its count at zero.
\<close>

theorem login_lockout:
  assumes "user_by_email (db w) email = Some u" "\<forall>a \<in> set (as @ [b]). \<forall>t. u_locked_until u = Some t \<longrightarrow> t \<le> at_now a"
    and "u_failed_login_count u + int (length as) + 1 = login_max_fails"
    and "\<forall>a \<in> set (as @ [b]). \<not> password_matches env (at_password a) u"
  shows "(\<exists>u'. user_by_email (db (foldl (\<lambda>w a. attempt_login env email a w) w as)) email = Some u'
        \<and> u_locked_until u' = u_locked_until u \<and> u_failed_login_count u' = login_max_fails - 1)
    \<and> (\<exists>u'. user_by_email (db (foldl (\<lambda>w a. attempt_login env email a w) w (as @ [b]))) email = Some u'
        \<and> u_failed_login_count u' = 0 \<and> (\<forall>now. locked now u' = (now < at_now b + minutes 15)))
    \<and> (now < at_now b + minutes 15 \<longrightarrow>
      login env now email pw raw ticket ip ua (foldl (\<lambda>w a. attempt_login env email a w) w (as @ [b]))
        = (Inl AccountLocked, foldl (\<lambda>w a. attempt_login env email a w) w (as @ [b])))"
proof -
  let ?w = "foldl (\<lambda>w a. attempt_login env email a w) w as"
  let ?u = "u\<lparr>u_failed_login_count := u_failed_login_count u + int (length as)\<rparr>"
  have free: "\<not> locked (at_now a) u" if "a \<in> set (as @ [b])" for a
    using assms(2) that by (auto simp: locked_def split: option.split)
  have 1: "user_by_email (db ?w) email = Some ?u"
    by (rule wrong_run) (use assms free in auto)
  have "password_matches env p ?u = password_matches env p u" for p
    by (simp add: password_matches_def)
  moreover have "\<not> locked (at_now b) ?u" using free [of b] by (simp add: locked_def)
  ultimately have 2: "user_by_email (db (attempt_login env email b ?w)) email = Some (failed_login (at_now b) ?u)"
    using login_wrong(2) [OF 1] assms(4) by (simp add: attempt_login_def)
  have l: "failed_login (at_now b) ?u = u\<lparr>u_failed_login_count := 0,
      u_locked_until := Some (at_now b + minutes 15)\<rparr>"
    using assms(3) by (simp add: failed_login_def login_lockout_minutes_def Let_def)
  show ?thesis
    using 1 2 l assms(3) by (simp add: locked_def login_def)
qed

definition sample_env :: "unit auth_env" where
  "sample_env =
     \<lparr>ae_hash = id, ae_checkpw = (\<lambda>b h. Some (b = map of_char h)), ae_hashpw = map char_of,
      ae_is_digit = (\<lambda>c. 48 \<le> c \<and> c \<le> 57), ae_totp = (\<lambda>secret code now. secret = code),
      ae_encrypt = Inr, ae_decrypt = Inr, ae_setex = (\<lambda>now k ex v r. r),
      ae_set_nx = (\<lambda>now k ex r. (True, r)), ae_get = (\<lambda>now k r. None), ae_delete = (\<lambda>k r. r),
      ae_base_url = ''https://app''\<rparr>"

definition sample_world :: "(unit, unit auth_db_scheme) world" where
  "sample_world = \<lparr>db = empty_auth_db, redis = (), outbox = []\<rparr>"

lemma sample_matches:
  "password_matches sample_env p (sample_user i st) = (prepare_secret p = map of_char ''h:pw1'')"
  by (simp add: password_matches_def sample_env_def sample_user_def verify_password_def)

lemma login_lockout_witness:
  "(let w = foldl (\<lambda>w t. attempt_login sample_env ''A@b.c'' \<lparr>at_now = t, at_password = [1]\<rparr> w)
              sample_world [10, 20, 30, 40, 50]
    in login sample_env 60 ''a@B.c'' [104, 58, 112, 119, 49] ''r'' ''t'' None None w = (Inl AccountLocked, w))"
proof -
  let ?a = "\<lambda>t. \<lparr>at_now = t, at_password = [1]\<rparr>"
  have u: "user_by_email (db sample_world) ''A@b.c'' = Some (sample_user 7 US_active)"
    by (simp add: user_by_email_def sample_world_def empty_auth_db_def sample_user_def citext_eq_def
        lower_str_def lower_char_def char_of_odd)
  have m: "\<not> password_matches sample_env [1] (sample_user 7 US_active)"
    by (simp add: sample_matches prepare_secret_def bcrypt_max_password_bytes_def utf8_def utf8_char_def)
  have same: "user_by_email (db w) ''a@B.c'' = user_by_email (db w) ''A@b.c''" for w :: "(unit, unit auth_db_scheme) world"
    by (simp add: user_by_email_def citext_eq_def lower_str_def lower_char_def char_of_odd)
  have l: "login sample_env 60 ''a@B.c'' pw r t ip ua w = login sample_env 60 ''A@b.c'' pw r t ip ua w"
    for pw r t ip ua and w :: "(unit, unit auth_db_scheme) world" by (simp add: login_def Let_def same)
  have "login sample_env 60 ''A@b.c'' [104, 58, 112, 119, 49] ''r'' ''t'' None None
      (foldl (\<lambda>w a. attempt_login sample_env ''A@b.c'' a w) sample_world ([?a 10, ?a 20, ?a 30, ?a 40] @ [?a 50]))
    = (Inl AccountLocked, foldl (\<lambda>w a. attempt_login sample_env ''A@b.c'' a w) sample_world
         ([?a 10, ?a 20, ?a 30, ?a 40] @ [?a 50]))"
    using login_lockout [OF u, of "[?a 10, ?a 20, ?a 30, ?a 40]" "?a 50" sample_env 60] m
    by (simp add: sample_user_def login_max_fails_def minutes_def seconds_def)
  then show ?thesis by (simp add: l Let_def)
qed

section \<open>What a login grants\<close>

lemma issue_token_pair_ok:
  assumes "issue_token_pair hash now raw uid ip ua f s = (Inr (a, r), s')"
  obtains row where "a = uid" "r = raw" "auth_sessions s' = auth_sessions s @ [row]"
    "se_user_id row = uid" "se_refresh_token_hash row = hash raw" "session_live now row"
    "\<forall>x \<in> set (auth_sessions s). se_refresh_token_hash x \<noteq> hash raw"
proof -
  have "0 < days refresh_token_expire_days"
    by (rule duration_pos) (simp add: refresh_token_expire_days_def)
  then show thesis
    using assms that
    by (cases f) (auto simp: issue_token_pair_def fresh_id_def session_live_def Let_def split: if_splits)
qed

lemma update_user_sessions [simp]:
  "auth_sessions (update_user i f s) = auth_sessions s"
  "auth_tokens (update_user i f s) = auth_tokens s"
  by (simp_all add: update_user_def)

lemma write_audit_auth [simp]:
  "auth_sessions (write_audit a u st ip s) = auth_sessions s"
  "auth_tokens (write_audit a u st ip s) = auth_tokens s"
  "users (write_audit a u st ip s) = users s"
  by (simp_all add: write_audit_def)

text \<open>
  C3: a login adds a session only for the account of that e-mail address, and only when it is not
  locked, its password matches, it is not disabled and has no second factor; the new session is
  live and its failure count is cleared. Every other answer, the request for a second factor
  included, leaves the sessions as they were.
\<close>

theorem login_grants:
  assumes "login env now email pw raw ticket ip ua w = (r, w')"
  shows "(\<exists>u row. r = Inr (Logged_in (u_id u) raw) \<and> user_by_email (db w) email = Some u
       \<and> \<not> locked now u \<and> password_matches env pw u \<and> u_status u \<noteq> US_disabled \<and> u_mfa_type u = Mfa_none
       \<and> auth_sessions (db w') = auth_sessions (db w) @ [row] \<and> se_user_id row = u_id u \<and> session_live now row
       \<and> (\<exists>u'. user_by_email (db w') email = Some u' \<and> u_failed_login_count u' = 0 \<and> \<not> locked now u'))
    \<or> ((\<forall>i x. r \<noteq> Inr (Logged_in i x)) \<and> auth_sessions (db w') = auth_sessions (db w))"
proof (cases "\<exists>i x. r = Inr (Logged_in i x)")
  case False
  then show ?thesis
    using assms by (auto simp: login_def Let_def split: option.splits if_splits sum.splits prod.splits)
next
  case True
  then obtain i x where r: "r = Inr (Logged_in i x)" by blast
  then obtain u where u: "user_by_email (db w) email = Some u"
    using assms by (auto simp: login_def Let_def split: option.splits)
  let ?s2 = "update_user (u_id u) (\<lambda>u. u\<lparr>u_last_login_at := Some now\<rparr>)
     (update_user (u_id u) (\<lambda>u. u\<lparr>u_failed_login_count := 0, u_locked_until := None\<rparr>) (db w))"
  obtain s3 where p: "issue_token_pair (ae_hash env) now raw (u_id u) ip ua None ?s2 = (Inr (i, x), s3)"
    and w': "w' = w\<lparr>db := write_audit ''auth.login.success'' (Some (u_id u)) None ip s3\<rparr>"
    and ok: "\<not> locked now u" "password_matches env pw u" "u_status u \<noteq> US_disabled" "u_mfa_type u = Mfa_none"
    using assms r u
    by (auto simp: login_def Let_def split: if_splits sum.splits prod.splits)
  obtain row where row: "i = u_id u" "x = raw" "auth_sessions s3 = auth_sessions (db w) @ [row]"
    "se_user_id row = u_id u" "session_live now row"
    using issue_token_pair_ok [OF p] by (metis update_user_sessions(1))
  have "users s3 = users ?s2"
    using p by (auto simp: issue_token_pair_def fresh_id_def Let_def split: if_splits)
  then have "user_by_email s3 email = user_by_email ?s2 email" by (simp add: user_by_email_def)
  then have "user_by_email (db w') email =
      Some (u\<lparr>u_failed_login_count := 0, u_locked_until := None, u_last_login_at := Some now\<rparr>)"
    using u by (simp add: w' user_by_email_update)
  then show ?thesis using r u ok row w' by (auto simp: locked_def)
qed

lemma login_grants_witness:
  "(case login sample_env 5 ''a@b.c'' [104, 58, 112, 119, 49] ''r'' ''t'' None None sample_world of
      (r, w') \<Rightarrow> (\<exists>row. auth_sessions (db w') = auth_sessions (db sample_world) @ [row] \<and> session_live 5 row))"
proof -
  let ?l = "login sample_env 5 ''a@b.c'' [104, 58, 112, 119, 49] ''r'' ''t'' None None sample_world"
  have "fst ?l = Inr (Logged_in 7 ''r'')"
    by (simp add: login_def user_by_email_def sample_world_def empty_auth_db_def citext_eq_def
        lower_str_def lower_char_def char_of_odd locked_def password_matches_def verify_password_def sample_env_def
        prepare_secret_def bcrypt_max_password_bytes_def utf8_def utf8_char_def sample_user_def
        issue_token_pair_def update_user_def fresh_id_def Let_def)
  then obtain w' where w': "?l = (Inr (Logged_in 7 ''r''), w')" by (cases ?l) simp
  show ?thesis using login_grants [OF w'] unfolding w' by auto
qed

section \<open>Verification and reset\<close>

lemma publish_auth [simp]:
  "auth_sessions (publish now e p s) = auth_sessions s"
  "auth_tokens (publish now e p s) = auth_tokens s"
  "backup_codes (publish now e p s) = backup_codes s"
  by (rule publish_frame [of now e p s]; simp)+

lemma verify_cases:
  assumes "verify env now raw s = (Inr (), s')"
  obtains user s1 where "consume_auth_token (ae_hash env) now TP_email_verification raw s = (Inr user, s1)"
    "s' = publish now ''auth.user.verified'' [(''user_id'', JUid (u_id user))]
       (update_user (u_id user) (\<lambda>u. u\<lparr>u_status := US_active, u_email_verified_at := Some now\<rparr>) s1)"
  using assms by (auto simp: verify_def run_tx_def split: prod.splits sum.splits)

lemma consume_token_users [simp]: "users (snd (consume_auth_token hash now p raw s)) = users s"
  by (simp add: consume_token_state)

text \<open>
  A verification link activates its owner's account, whatever status the account had when
  the link was used: a disabled account that still holds an unused link becomes active and is
  accepted by the authentication guard again. The link is spent and no other account changes.
\<close>

theorem verify_activates:
  assumes "auth_inv s" "verify env now raw s = (Inr (), s')"
  shows "\<exists>u. u \<in> set (users s)
    \<and> users s' = update_where (\<lambda>x. u_id x = u_id u)
        (\<lambda>u. u\<lparr>u_status := US_active, u_email_verified_at := Some now\<rparr>) (users s)
    \<and> (\<exists>t \<in> set (auth_tokens s). tk_user_id t = u_id u \<and> tk_token_hash t = ae_hash env raw
          \<and> tk_consumed_at t = None \<and> now \<le> tk_expires_at t)
    \<and> key_spent (Token_key TP_email_verification (ae_hash env raw)) s'"
  using assms(2)
proof (rule verify_cases)
  fix user s1
  assume c: "consume_auth_token (ae_hash env) now TP_email_verification raw s = (Inr user, s1)"
    and s': "s' = publish now ''auth.user.verified'' [(''user_id'', JUid (u_id user))]
       (update_user (u_id user) (\<lambda>u. u\<lparr>u_status := US_active, u_email_verified_at := Some now\<rparr>) s1)"
  have "users s1 = users s"
    using consume_token_users [of "ae_hash env" now TP_email_verification raw s] c by simp
  then have us: "users s' = update_where (\<lambda>x. u_id x = u_id user)
        (\<lambda>u. u\<lparr>u_status := US_active, u_email_verified_at := Some now\<rparr>) (users s)"
    by (simp add: s' update_user_def)
  have "auth_sessions s' = auth_sessions s1" "auth_tokens s' = auth_tokens s1"
    by (simp_all add: s')
  then have sp: "key_spent (Token_key TP_email_verification (ae_hash env raw)) s'"
    using key_spent_cong [OF consume_claim_spends [OF assms(1) c]] by blast
  from assms(1) c show ?thesis
  proof (rule consume_token_ok)
    fix row
    assume "row \<in> set (auth_tokens s)" "tk_token_hash row = ae_hash env raw"
      "tk_consumed_at row = None" "now \<le> tk_expires_at row" "user \<in> set (users s)"
      "u_id user = tk_user_id row"
    then show ?thesis using us sp by (intro exI [of _ user] conjI bexI [of _ row]) simp_all
  qed
qed

lemma verify_activates_witness:
  "(let s = empty_auth_db\<lparr>users := [sample_user 7 US_disabled], auth_tokens :=
       [\<lparr>tk_id = 1, tk_user_id = 7, tk_purpose = TP_email_verification, tk_token_hash = ''v'',
         tk_expires_at = 100, tk_consumed_at = None\<rparr>]\<rparr>;
        (r, s') = verify sample_env 5 ''v'' s
    in is_ok r \<and> map u_status (users s') = [US_active])"
proof -
  let ?s = "empty_auth_db\<lparr>users := [sample_user 7 US_disabled], auth_tokens :=
       [\<lparr>tk_id = 1, tk_user_id = 7, tk_purpose = TP_email_verification, tk_token_hash = ''v'',
         tk_expires_at = 100, tk_consumed_at = None\<rparr>]\<rparr>"
  have inv: "auth_inv ?s" by (simp add: auth_inv_def empty_auth_db_def)
  obtain s' where v: "verify sample_env 5 ''v'' ?s = (Inr (), s')"
  proof -
    have "is_ok (fst (verify sample_env 5 ''v'' ?s))"
      by (simp add: verify_def run_tx_fst consume_auth_token_def empty_auth_db_def user_by_id_def
          sample_user_def sample_env_def Let_def)
    then show thesis using that by (auto elim: is_okE)
  qed
  from verify_activates [OF inv v] have "map u_status (users s') = [US_active]"
    by (auto simp: sample_user_def empty_auth_db_def)
  then show ?thesis using v by simp
qed

text \<open>
  A password reset sets its owner's password to the given one and ends every session of that
  account, but it leaves the lockout of every account as it was: a locked account stays locked
  after its owner reset the password.
\<close>

theorem reset_keeps_lockout:
  assumes "auth_inv s" "reset env now raw pw ip s = (Inr (), s')"
  shows "\<exists>u. u \<in> set (users s)
    \<and> users s' = update_where (\<lambda>x. u_id x = u_id u)
        (\<lambda>u. u\<lparr>u_password_hash := Some (get_password_hash (ae_hashpw env) pw)\<rparr>) (users s)
    \<and> (\<forall>x \<in> set (auth_sessions s'). se_user_id x = u_id u \<longrightarrow> se_revoked_at x \<noteq> None)
    \<and> key_spent (Token_key TP_password_reset (ae_hash env raw)) s'
    \<and> map u_locked_until (users s') = map u_locked_until (users s)
    \<and> map (locked later) (users s') = map (locked later) (users s)"
proof -
  obtain user s1 where c: "consume_auth_token (ae_hash env) now TP_password_reset raw s = (Inr user, s1)"
    and s': "s' = write_audit ''auth.password.reset'' (Some (u_id user)) None ip
       (snd (revoke_all_for_user now (u_id user)
         (update_user (u_id user) (\<lambda>u. u\<lparr>u_password_hash := Some (get_password_hash (ae_hashpw env) pw)\<rparr>) s1)))"
    using assms(2) by (auto simp: reset_def run_tx_def Let_def split: prod.splits sum.splits)
  let ?f = "\<lambda>u :: user. u\<lparr>u_password_hash := Some (get_password_hash (ae_hashpw env) pw)\<rparr>"
  have "users s1 = users s"
    using consume_token_users [of "ae_hash env" now TP_password_reset raw s] c by simp
  then have us: "users s' = update_where (\<lambda>x. u_id x = u_id user) ?f (users s)"
    by (simp add: s' update_user_def revoke_all_for_user_def Let_def)
  have se: "\<forall>x \<in> set (auth_sessions s'). se_user_id x = u_id user \<longrightarrow> se_revoked_at x \<noteq> None"
    by (auto simp: s' revoke_all_for_user_def Let_def elim!: in_update_whereE split: if_splits)
  have "key_spent (Token_key TP_password_reset (ae_hash env raw)) s1"
    by (rule consume_claim_spends [OF assms(1) c])
  then have sp: "key_spent (Token_key TP_password_reset (ae_hash env raw)) s'"
    by (simp add: s' revoke_all_for_user_def Let_def)
  have lk: "map u_locked_until (users s') = map u_locked_until (users s)"
    "map (locked later) (users s') = map (locked later) (users s)"
    unfolding us by (rule map_update_where; simp add: locked_def)+
  from assms(1) c show ?thesis
    by (rule consume_token_ok) (use us se sp lk in blast)
qed

lemma reset_keeps_lockout_witness:
  "(let s = empty_auth_db\<lparr>users := [(sample_user 7 US_active)\<lparr>u_locked_until := Some 900\<rparr>], auth_tokens :=
       [\<lparr>tk_id = 1, tk_user_id = 7, tk_purpose = TP_password_reset, tk_token_hash = ''v'',
         tk_expires_at = 100, tk_consumed_at = None\<rparr>]\<rparr>;
        (r, s') = reset sample_env 5 ''v'' [97, 98, 99, 100, 101, 102, 103, 49] None s
    in is_ok r \<and> map (locked 6) (users s') = [True])"
proof -
  let ?s = "empty_auth_db\<lparr>users := [(sample_user 7 US_active)\<lparr>u_locked_until := Some 900\<rparr>], auth_tokens :=
       [\<lparr>tk_id = 1, tk_user_id = 7, tk_purpose = TP_password_reset, tk_token_hash = ''v'',
         tk_expires_at = 100, tk_consumed_at = None\<rparr>]\<rparr>"
  let ?pw = "[97, 98, 99, 100, 101, 102, 103, 49] :: password"
  have inv: "auth_inv ?s" by (simp add: auth_inv_def empty_auth_db_def)
  obtain s' where v: "reset sample_env 5 ''v'' ?pw None ?s = (Inr (), s')"
  proof -
    have "is_ok (fst (reset sample_env 5 ''v'' ?pw None ?s))"
      by (simp add: reset_def run_tx_fst consume_auth_token_def empty_auth_db_def user_by_id_def
          sample_user_def sample_env_def Let_def validate_password_strength_def utf8_def utf8_char_def
          bcrypt_max_password_bytes_def)
    then show thesis using that by (auto elim: is_okE)
  qed
  from reset_keeps_lockout [OF inv v, of 6] have "map (locked 6) (users s') = [True]"
    by (auto simp: sample_user_def empty_auth_db_def locked_def)
  then show ?thesis using v by simp
qed

end
