(* ===== verification/Roadmap_Views.thy ===== *)
theory Roadmap_Views
  imports Roadmap_Requests "HOL-Library.Multiset"
begin

text \<open>
  What the roadmap screens read: the tree (\<^verbatim>\<open>serialize_tree\<close>), the dependency graph, the gallery
  with what has been applied, and the history of re-plans. A view carries the row whose columns it
  copies, beside the fields it computes.
\<close>

definition person_ref :: "'a core_db_scheme \<Rightarrow> uid option \<Rightarrow> (uid \<times> string option) option" where
  "person_ref s i =
     (case i of
        None \<Rightarrow> None
      | Some u \<Rightarrow>
          (case find (\<lambda>x. u_id x = u) (users s) of
             None \<Rightarrow> None
           | Some x \<Rightarrow> Some (u, case u_profile x of None \<Rightarrow> None | Some p \<Rightarrow> up_full_name p)))"

text \<open>The dictionary's keys in the order of their first edge.\<close>

definition dependency_map :: "'a roadmap_db_scheme \<Rightarrow> uid \<Rightarrow> (uid \<times> uid list) list" where
  "dependency_map s r =
     (let es = roadmap_edges s r in map (\<lambda>t. (t, deps_of es t)) (rev (remdups (rev (map fst es)))))"

record task_view =
  tv_task :: rtask
  tv_assignee :: "(uid \<times> string option) option"
  tv_overdue :: bool
  tv_depends_on :: "uid list"

record milestone_view =
  mv_milestone :: milestone
  mv_owner :: "(uid \<times> string option) option"
  mv_overdue :: bool
  mv_dependency_count :: nat
  mv_replanned :: "(instant \<times> string option) option"
  mv_tasks :: "task_view list"

record tree_view =
  tr_slipped_count :: nat
  tr_current_stage :: "startup_stage option"
  tr_phases :: "(phase \<times> milestone_view list) list"

definition task_view_of :: "day \<Rightarrow> 'a roadmap_db_scheme \<Rightarrow> uid \<Rightarrow> rtask \<Rightarrow> task_view" where
  "task_view_of today s r t =
     \<lparr>tv_task = t, tv_assignee = person_ref s (rt_assignee_id t), tv_overdue = task_overdue today t,
      tv_depends_on = (case map_of (dependency_map s r) (rt_id t) of None \<Rightarrow> [] | Some ds \<Rightarrow> ds)\<rparr>"

definition milestone_view_of :: "day \<Rightarrow> 'a roadmap_db_scheme \<Rightarrow> uid \<Rightarrow> milestone \<Rightarrow> milestone_view" where
  "milestone_view_of today s r m =
     (let ts = sort_key rt_order (tasks_of s (ms_id m))
      in \<lparr>mv_milestone = m, mv_owner = person_ref s (ms_owner_id m), mv_overdue = milestone_overdue today m,
          mv_dependency_count = count_where (\<lambda>t. rt_id t \<in> set (map fst (dependency_map s r))) ts,
          mv_replanned = map_option (\<lambda>at. (at, ms_last_replan_reason m)) (ms_last_replanned_at m),
          mv_tasks = map (task_view_of today s r) ts\<rparr>)"

definition serialize_tree :: "day \<Rightarrow> 'a roadmap_db_scheme \<Rightarrow> roadmap \<Rightarrow> startup \<Rightarrow> tree_view" where
  "serialize_tree today s r st =
     (let ps = sort_key ph_order (filter (\<lambda>p. ph_roadmap_id p = ro_id r) (phases s))
      in \<lparr>tr_slipped_count = length (detect_drift today s (ro_id r)),
          tr_current_stage = st_stage st,
          tr_phases = map (\<lambda>p. (p, map (milestone_view_of today s (ro_id r))
                       (sort_key ms_order (filter (\<lambda>m. ms_phase_id m = ph_id p) (milestones s))))) ps\<rparr>)"

record dependency_node =
  dn_task :: uid
  dn_title :: string
  dn_milestone :: "uid \<times> string"
  dn_phase :: "uid \<times> string"

text \<open>The join of tasks, milestones and phases.\<close>

definition task_rows :: "'a roadmap_db_scheme \<Rightarrow> uid \<Rightarrow> dependency_node list" where
  "task_rows s r =
     concat (map (\<lambda>t. concat (map (\<lambda>m.
       map (\<lambda>p. \<lparr>dn_task = rt_id t, dn_title = rt_title t, dn_milestone = (ms_id m, ms_title m),
                 dn_phase = (ph_id p, ph_name p)\<rparr>)
         (filter (\<lambda>p. ph_id p = ms_phase_id m \<and> ph_roadmap_id p = r) (phases s)))
       (filter (\<lambda>m. ms_id m = rt_milestone_id t) (milestones s)))) (rtasks s))"

definition get_dependencies ::
    "membership \<Rightarrow> 'a roadmap_db_scheme
     \<Rightarrow> (dependency_node list \<times> (uid \<times> uid) list \<times> (string option \<times> string option) list) result" where
  "get_dependencies m s =
     (case require_roadmap m s of
        Inl e \<Rightarrow> Inl e
      | Inr r \<Rightarrow>
          (let rows = task_rows s (ro_id r);
               title = map_of (map (\<lambda>n. (dn_task n, dn_title n)) (rev rows));
               edges = concat (map (\<lambda>(t, ds). map (Pair t) ds) (dependency_map s (ro_id r)))
           in Inr (rows, edges, map (\<lambda>(t, d). (title t, title d)) edges)))"

definition list_templates :: "membership \<Rightarrow> 'a roadmap_db_scheme \<Rightarrow> (gallery_template \<times> nat \<times> nat \<times> bool) list" where
  "list_templates m s =
     (let applied = (case roadmap_of s (m_startup_id m) of None \<Rightarrow> [] | Some r \<Rightarrow> ro_applied_template_keys r)
      in map (\<lambda>t. case template_counts (gt_phases t) of (mc, tc) \<Rightarrow> (t, mc, tc, gt_id t \<in> set applied)) gallery_templates)"

definition replan_history :: "membership \<Rightarrow> 'a roadmap_db_scheme \<Rightarrow> replan list result" where
  "replan_history m s =
     (case require_roadmap m s of
        Inl e \<Rightarrow> Inl e
      | Inr r \<Rightarrow> Inr (sort_key (\<lambda>x. - rp_created_at x) (filter (\<lambda>x. rp_roadmap_id x = ro_id r) (replans s))))"

section \<open>The tree shows every row once\<close>

definition tree_tasks :: "tree_view \<Rightarrow> rtask list" where
  "tree_tasks v = concat (map (\<lambda>(p, ms). concat (map (\<lambda>m. map tv_task (mv_tasks m)) ms)) (tr_phases v))"

definition tree_milestones :: "tree_view \<Rightarrow> milestone list" where
  "tree_milestones v = concat (map (\<lambda>(p, ms). map mv_milestone ms) (tr_phases v))"

lemma mset_concat_groups:
  assumes "distinct (map k ks)"
  shows "mset (concat (map (\<lambda>x. filter (\<lambda>r. g r = k x) rs) ks)) = mset (filter (\<lambda>r. g r \<in> set (map k ks)) rs)"
  using assms
proof (induction ks)
  case (Cons x ks)
  have "mset (filter (\<lambda>r. g r \<in> set (map k (x # ks))) rs) =
      mset (filter (\<lambda>r. g r = k x) rs) + mset (filter (\<lambda>r. g r \<in> set (map k ks)) rs)"
    using Cons.prems by (induction rs) auto
  then show ?case using Cons by simp
qed simp

lemma mset_concat_cong:
  "(\<And>x. x \<in> set xs \<Longrightarrow> mset (f x) = mset (g x)) \<Longrightarrow> mset (concat (map f xs)) = mset (concat (map g xs))"
  by (induction xs) auto

lemma concat_map_concat:
  "concat (map f (concat (map g xs))) = concat (map (\<lambda>x. concat (map f (g x))) xs)"
  by (induction xs) auto

lemma count_where_mset: "mset xs = mset ys \<Longrightarrow> count_where P xs = count_where P ys"
  unfolding count_where_def size_mset [symmetric] mset_filter by simp

lemma milestone_in_row:
  assumes "tree_ok s" "m \<in> set (milestones s)"
  shows "milestone_in s r (ms_id m) \<longleftrightarrow> phase_in s r (ms_phase_id m)"
  using assms distinct_mapD [of ms_id "milestones s" m] unfolding milestone_in_def tree_ok_def by metis

lemma task_in_row:
  assumes "tree_ok s" "t \<in> set (rtasks s)"
  shows "task_in s r (rt_id t) \<longleftrightarrow> milestone_in s r (rt_milestone_id t)"
  using assms distinct_mapD [of rt_id "rtasks s" t] unfolding task_in_def tree_ok_def by metis

lemma tree_milestones_mset:
  assumes "tree_ok s"
  shows "mset (tree_milestones (serialize_tree today s r st)) = mset (roadmap_milestones s (ro_id r))"
proof -
  let ?ps = "sort_key ph_order (filter (\<lambda>p. ph_roadmap_id p = ro_id r) (phases s))"
  have "mset (tree_milestones (serialize_tree today s r st)) =
      mset (concat (map (\<lambda>p. filter (\<lambda>m. ms_phase_id m = ph_id p) (milestones s)) ?ps))"
    by (simp add: tree_milestones_def serialize_tree_def Let_def comp_def milestone_view_of_def)
      (rule mset_concat_cong, simp)
  also have "distinct (map ph_id ?ps)"
    using assms by (simp add: tree_ok_def distinct_map sorted_sort_key inj_on_def)
  then have "mset (concat (map (\<lambda>p. filter (\<lambda>m. ms_phase_id m = ph_id p) (milestones s)) ?ps)) =
      mset (filter (\<lambda>m. ms_phase_id m \<in> set (map ph_id ?ps)) (milestones s))"
    by (rule mset_concat_groups)
  also have "filter (\<lambda>m. ms_phase_id m \<in> set (map ph_id ?ps)) (milestones s) = roadmap_milestones s (ro_id r)"
    unfolding roadmap_milestones_def by (rule filter_cong) (force simp: phase_in_def)+
  finally show ?thesis .
qed

lemma tree_tasks_mset:
  assumes "tree_ok s"
  shows "mset (tree_tasks (serialize_tree today s r st)) = mset (filter (\<lambda>t. task_in s (ro_id r) (rt_id t)) (rtasks s))"
proof -
  let ?v = "serialize_tree today s r st"
  let ?ms = "tree_milestones ?v"
  have v: "mv_milestone \<circ> milestone_view_of today s (ro_id r) = id"
    by (simp add: fun_eq_iff milestone_view_of_def Let_def)
  have "tree_tasks ?v = concat (map (\<lambda>m. sort_key rt_order (tasks_of s (ms_id m))) ?ms)"
    by (simp add: tree_tasks_def tree_milestones_def serialize_tree_def Let_def comp_def case_prod_unfold
        milestone_view_of_def task_view_of_def concat_map_concat)
  then have "mset (tree_tasks ?v) = mset (concat (map (\<lambda>m. tasks_of s (ms_id m)) ?ms))"
    by simp (rule mset_concat_cong, simp)
  also have "distinct (map ms_id ?ms)"
    using mset_eq_imp_distinct_iff [OF arg_cong [where f = "image_mset ms_id", OF tree_milestones_mset [OF assms], folded mset_map]]
      roadmap_milestones_distinct [of s] assms by (simp add: tree_ok_def)
  then have "mset (concat (map (\<lambda>m. tasks_of s (ms_id m)) ?ms)) =
      mset (filter (\<lambda>t. rt_milestone_id t \<in> set (map ms_id ?ms)) (rtasks s))"
    unfolding tasks_of_def by (rule mset_concat_groups)
  also have "set ?ms = set (roadmap_milestones s (ro_id r))"
    using tree_milestones_mset [OF assms] by (rule mset_eq_setD)
  then have "filter (\<lambda>t. rt_milestone_id t \<in> set (map ms_id ?ms)) (rtasks s) =
      filter (\<lambda>t. task_in s (ro_id r) (rt_id t)) (rtasks s)"
    by (intro filter_cong refl) (force simp: roadmap_milestones_def milestone_in_def task_in_row [OF assms])
  finally show ?thesis .
qed

lemma dependency_map_of:
  "(case map_of (dependency_map s r) t of None \<Rightarrow> [] | Some ds \<Rightarrow> ds) = deps_of (roadmap_edges s r) t"
proof -
  let ?es = "roadmap_edges s r"
  have "map_of (map (\<lambda>t. (t, deps_of ?es t)) ks) t = (if t \<in> set ks then Some (deps_of ?es t) else None)" for ks
    by (induction ks) auto
  moreover have "deps_of ?es t = []" if "t \<notin> fst ` set ?es"
    using that set_deps_of [of ?es t] by (auto simp: image_iff set_empty [symmetric])
  ultimately show ?thesis by (simp add: dependency_map_def Let_def)
qed

text \<open>
  The tree of a roadmap. It shows every milestone and every task of the roadmap exactly once and
  none of another roadmap's, each task with exactly the tasks it directly waits for, and its slip
  count is the number of milestones it shows as overdue.
\<close>

theorem tree_complete:
  assumes "roadmap_reachable decode s"
  shows "let v = serialize_tree today s r st
    in mset (tree_milestones v) = mset (filter (\<lambda>m. milestone_in s (ro_id r) (ms_id m)) (milestones s))
       \<and> mset (tree_tasks v) = mset (filter (\<lambda>t. task_in s (ro_id r) (rt_id t)) (rtasks s))
       \<and> tr_slipped_count v = count_where mv_overdue (concat (map snd (tr_phases v)))
       \<and> (\<forall>(p, ms) \<in> set (tr_phases v). \<forall>m \<in> set ms. \<forall>t \<in> set (mv_tasks m).
            set (tv_depends_on t) = {d. (rt_id (tv_task t), d) \<in> dep_rel s})"
proof -
  have t: "tree_ok s" using roadmap_reachable_inv [OF assms] by (simp add: roadmap_inv_def)
  let ?v = "serialize_tree today s r st"
  have "roadmap_milestones s (ro_id r) = filter (\<lambda>m. milestone_in s (ro_id r) (ms_id m)) (milestones s)"
    unfolding roadmap_milestones_def by (intro filter_cong refl) (simp add: milestone_in_row [OF t])
  then have ms: "mset (tree_milestones ?v) = mset (filter (\<lambda>m. milestone_in s (ro_id r) (ms_id m)) (milestones s))"
    using tree_milestones_mset [OF t] by simp
  have "count_where mv_overdue (concat (map snd (tr_phases ?v))) = count_where (milestone_overdue today) (tree_milestones ?v)"
    by (simp add: tree_milestones_def serialize_tree_def Let_def comp_def case_prod_unfold count_where_def
        filter_concat length_concat milestone_view_of_def filter_map)
  also have "\<dots> = count_where (milestone_overdue today) (roadmap_milestones s (ro_id r))"
    by (rule count_where_mset [OF tree_milestones_mset [OF t]])
  finally have slip: "tr_slipped_count ?v = count_where mv_overdue (concat (map snd (tr_phases ?v)))"
    by (simp add: serialize_tree_def Let_def detect_drift_def count_where_def)
  have deps: "set (tv_depends_on x) = {d. (rt_id (tv_task x), d) \<in> dep_rel s}"
    if "(p, ms) \<in> set (tr_phases ?v)" "m \<in> set ms" "x \<in> set (mv_tasks m)" for p ms m x
  proof -
    have "tv_task x \<in> set (tree_tasks ?v)" using that by (force simp: tree_tasks_def)
    then have "task_in s (ro_id r) (rt_id (tv_task x))"
      using mset_eq_setD [OF tree_tasks_mset [OF t, of today r st]] by auto
    moreover have "tv_depends_on x = deps_of (roadmap_edges s (ro_id r)) (rt_id (tv_task x))"
      using that by (auto simp: serialize_tree_def Let_def milestone_view_of_def task_view_of_def dependency_map_of)
    ultimately show ?thesis by (auto simp: set_deps_of set_roadmap_edges)
  qed
  show ?thesis unfolding Let_def using ms tree_tasks_mset [OF t] slip deps by blast
qed

lemma worked_db_rows:
  "roadmaps worked_db = [sample_roadmap]"
  by (simp add: worked_db_def sample_requests_def fresh_start_def slipped_simps body_simps Let_def
      percent_def py_round_div_def)

theorem tree_complete_witness:
  "mset (tree_tasks (serialize_tree 100 worked_db sample_roadmap sample_startup)) = mset (rtasks worked_db)
   \<and> length (rtasks worked_db) = 2"
proof -
  have ids: "map rt_id (rtasks worked_db) = [22, 23]"
    using worked_db_value(1) [THEN arg_cong [where f = "map fst"]] by (simp add: comp_def)
  have "task_in worked_db 11 i" if found: "map_sum id rt_id (find_task (sample_member 7 MR_founder MS_active) i worked_db) = Inr i" for i
  proof -
    obtain t where "find_task (sample_member 7 MR_founder MS_active) i worked_db = Inr t"
      using found by (cases "find_task (sample_member 7 MR_founder MS_active) i worked_db") auto
    from find_task_ok(3) [OF this] show ?thesis
      by (auto simp: require_roadmap_def roadmap_of_def worked_db_rows sample_roadmap_def split: option.splits if_splits)
  qed
  then have "task_in worked_db 11 22" "task_in worked_db 11 23" using worked_db_value(4,5) by blast+
  then have "task_in worked_db 11 (rt_id t)" if "t \<in> set (rtasks worked_db)" for t
    using that ids by (metis empty_iff image_eqI insert_iff list.set(1,2) set_map)
  then have "filter (\<lambda>t. task_in worked_db 11 (rt_id t)) (rtasks worked_db) = rtasks worked_db" by simp
  moreover have "length (rtasks worked_db) = 2" using arg_cong [OF ids, of length] by simp
  ultimately show ?thesis
    using tree_complete [OF worked_db_reachable, of 100 sample_roadmap sample_startup]
    by (simp add: Let_def sample_roadmap_def)
qed

end
