(* ===== verification/Mission.thy ===== *)
theory Mission
  imports Roadmap_Requests
begin

text \<open>
  The daily mission (\<^verbatim>\<open>app/services/mission/service.py\<close>, \<^verbatim>\<open>app/db/models/mission.py\<close>,
  \<^verbatim>\<open>app/api/v1/endpoints/mission.py\<close>): a mission is generated when it is first read, from what was
  snoozed in the mission before it and from the open roadmap tasks; its tasks are completed,
  snoozed, reordered or rejected, and the streak is derived from the missions.
\<close>

record mission =
  mi_id :: uid
  mi_startup_id :: uid
  mi_date :: day
  mi_generated_by :: string
  mi_status :: mission_status

record mission_task =
  mt_id :: uid
  mt_mission_id :: uid
  mt_roadmap_task_id :: "uid option"
  mt_title :: string
  mt_reason :: "string option"
  mt_effort :: task_effort
  mt_order :: int
  mt_status :: mission_task_status
  mt_completed_at :: "instant option"
  mt_reject_reason :: "string option"

text \<open>\<open>mst_delivery_time\<close> is a time of day, in microseconds.\<close>

record mission_settings =
  mst_startup_id :: uid
  mst_mission_size :: int
  mst_delivery_time :: int
  mst_weekend_missions :: bool

record mission_db = roadmap_db +
  missions :: "mission list"
  mission_tasks :: "mission_task list"
  mission_settings :: "mission_settings list"

definition default_mission_size :: int where
  "default_mission_size = 3"

definition is_weekend :: "day \<Rightarrow> bool" where
  "is_weekend d = (weekday d = 5 \<or> weekday d = 6)"

definition streak_milestones :: "nat list" where
  "streak_milestones = [7, 30, 100]"

definition valid_reject_reasons :: "string list" where
  "valid_reject_reasons = [''Already done'', ''Wrong priority'', ''Doesn'' @ [CHR 0x27] @ ''t apply'']"

section \<open>Generation\<close>

definition settings_of :: "'a mission_db_scheme \<Rightarrow> uid \<Rightarrow> mission_settings option" where
  "settings_of s st = find (\<lambda>x. mst_startup_id x = st) (mission_settings s)"

definition mission_on :: "'a mission_db_scheme \<Rightarrow> uid \<Rightarrow> day \<Rightarrow> mission option" where
  "mission_on s st d = find (\<lambda>m. mi_startup_id m = st \<and> mi_date m = d) (missions s)"

text \<open>The open tasks of the roadmap joined with their milestone and phase, in priority order.\<close>

definition task_join :: "'a roadmap_db_scheme \<Rightarrow> uid \<Rightarrow> (rtask \<times> milestone \<times> phase) list" where
  "task_join s r =
     [(t, m, p). t \<leftarrow> rtasks s, m \<leftarrow> milestones s, p \<leftarrow> phases s,
        rt_milestone_id t = ms_id m \<and> ms_phase_id m = ph_id p \<and> ph_roadmap_id p = r \<and> rt_status t \<noteq> RM_done]"

definition candidate_tasks :: "'a roadmap_db_scheme \<Rightarrow> uid \<Rightarrow> rtask list" where
  "candidate_tasks s r =
     map fst (sort_key (\<lambda>(t, m, p). (nulls_last (ms_due_on m), ph_order p, ms_order m, rt_order t)) (task_join s r))"

definition prior_mission :: "'a mission_db_scheme \<Rightarrow> uid \<Rightarrow> day \<Rightarrow> mission option" where
  "prior_mission s st today =
     (case sort_key (\<lambda>m. - mi_date m) (filter (\<lambda>m. mi_startup_id m = st \<and> mi_date m < today) (missions s)) of
        [] \<Rightarrow> None | m # _ \<Rightarrow> Some m)"

definition snoozed_tasks :: "'a mission_db_scheme \<Rightarrow> uid \<Rightarrow> mission_task list" where
  "snoozed_tasks s m =
     sort_key mt_order (filter (\<lambda>t. mt_mission_id t = m \<and> mt_status t = MT_snoozed) (mission_tasks s))"

text \<open>What a new mission task copies: its roadmap task, title, reason and effort.\<close>

type_synonym task_copy = "uid option \<times> string \<times> string option \<times> task_effort"

definition copy_of_snoozed :: "mission_task \<Rightarrow> task_copy" where
  "copy_of_snoozed t = (mt_roadmap_task_id t, mt_title t, mt_reason t, mt_effort t)"

definition copy_of_candidate :: "'a roadmap_db_scheme \<Rightarrow> rtask \<Rightarrow> task_copy" where
  "copy_of_candidate s t =
     (Some (rt_id t), rt_title t,
      (case find (\<lambda>m. ms_id m = rt_milestone_id t) (milestones s) of
         None \<Rightarrow> None
       | Some m \<Rightarrow> Some (''From your '' @ [CHR 0x27] @ ms_title m @ [CHR 0x27] @ '' milestone.'')),
      rt_effort t)"

text \<open>
  The loop that adds tasks until the mission has \<open>n\<close> of them: it is run on the snoozed tasks and
  then, from the order reached, on the candidates.
\<close>

fun add_copies ::
    "uid \<Rightarrow> int \<Rightarrow> int \<Rightarrow> task_copy list \<Rightarrow> 'a mission_db_scheme \<Rightarrow> int \<times> 'a mission_db_scheme" where
  "add_copies m n k [] s = (k, s)"
| "add_copies m n k ((rid, title, reason, eff) # cs) s =
     (if n \<le> k then (k, s)
      else (let (i, s1) = fresh_id s
            in add_copies m n (k + 1) cs (s1\<lparr>mission_tasks := mission_tasks s1 @
                 [\<lparr>mt_id = i, mt_mission_id = m, mt_roadmap_task_id = rid, mt_title = title,
                   mt_reason = reason, mt_effort = eff, mt_order = k, mt_status = MT_todo,
                   mt_completed_at = None, mt_reject_reason = None\<rparr>]\<rparr>)))"

definition new_mission ::
    "string \<Rightarrow> uid \<Rightarrow> day \<Rightarrow> 'a mission_db_scheme \<Rightarrow> mission \<times> 'a mission_db_scheme" where
  "new_mission by st d s =
     (let (i, s1) = fresh_id s;
          m = \<lparr>mi_id = i, mi_startup_id = st, mi_date = d, mi_generated_by = by, mi_status = MiS_pending\<rparr>
      in (m, s1\<lparr>missions := missions s1 @ [m]\<rparr>))"

definition enqueue_mission_reason ::
    "instant \<Rightarrow> mission \<Rightarrow> int \<Rightarrow> 'a mission_db_scheme \<Rightarrow> 'a mission_db_scheme" where
  "enqueue_mission_reason now m n s =
     (if n = 0 then s
      else snd (enqueue now ''ai.mission.reason'' [(''mission_id'', JUid (mi_id m))] (Some (mi_startup_id m)) s))"

definition get_or_generate_today ::
    "instant \<Rightarrow> day \<Rightarrow> uid \<Rightarrow> 'a mission_db_scheme \<Rightarrow> mission option \<times> 'a mission_db_scheme" where
  "get_or_generate_today now today st s =
     (case mission_on s st today of
        Some m \<Rightarrow> (Some m, s)
      | None \<Rightarrow>
          (case roadmap_of s st of
             None \<Rightarrow> (None, s)
           | Some r \<Rightarrow>
               (let n = (case settings_of s st of None \<Rightarrow> default_mission_size | Some x \<Rightarrow> mst_mission_size x);
                    weekend = (case settings_of s st of None \<Rightarrow> False | Some x \<Rightarrow> mst_weekend_missions x);
                    (m, s1) = new_mission ''system'' st today s
                in if is_weekend today \<and> \<not> weekend then (Some m, s1)
                   else (let carried = (case prior_mission s1 st today of
                                          None \<Rightarrow> [] | Some p \<Rightarrow> snoozed_tasks s1 (mi_id p));
                             taken = take (nat n) carried;
                             ids = List.map_filter mt_roadmap_task_id taken;
                             (k, s2) = add_copies (mi_id m) n 0 (map copy_of_snoozed carried) s1;
                             fresh_tasks = filter (\<lambda>t. rt_id t \<notin> set ids) (candidate_tasks s2 (ro_id r));
                             (total, s3) = add_copies (mi_id m) n k (map (copy_of_candidate s2) fresh_tasks) s2
                         in (Some m, enqueue_mission_reason now m total s3)))))"

section \<open>The streak\<close>

definition complete_on :: "'a mission_db_scheme \<Rightarrow> uid \<Rightarrow> day \<Rightarrow> bool" where
  "complete_on s st d = (case mission_on s st d of None \<Rightarrow> False | Some m \<Rightarrow> mi_status m = MiS_complete)"

lemma mission_onD:
  "mission_on s st d = Some m \<Longrightarrow> m \<in> set (missions s) \<and> mi_startup_id m = st \<and> mi_date m = d"
  unfolding mission_on_def by (drule find_SomeD) simp

lemma complete_onE:
  assumes "complete_on s st d"
  obtains m where "mission_on s st d = Some m" "m \<in> set (missions s)" "mi_date m = d" "mi_status m = MiS_complete"
proof (cases "mission_on s st d")
  case (Some m)
  then show thesis using assms mission_onD [OF Some] that by (simp add: complete_on_def)
qed (use assms in \<open>simp add: complete_on_def\<close>)

text \<open>
  \<^verbatim>\<open>while True\<close>: every day counted has a mission of its own, so the walk back ends.
\<close>

function streak_back :: "'a mission_db_scheme \<Rightarrow> uid \<Rightarrow> day \<Rightarrow> nat" where
  "streak_back s st d = (if complete_on s st d then Suc (streak_back s st (d - 1)) else 0)"
  by pat_completeness auto

termination
proof (relation "measure (\<lambda>(s, st, d). card {m \<in> set (missions s). mi_date m \<le> d})")
  fix s :: "'a mission_db_scheme" and st d
  assume "complete_on s st d"
  then obtain m where "m \<in> set (missions s)" "mi_date m = d" by (rule complete_onE)
  then have "{m \<in> set (missions s). mi_date m \<le> d - 1} \<subset> {m \<in> set (missions s). mi_date m \<le> d}" by fastforce
  then show "((s, st, d - 1), s, st, d) \<in> measure (\<lambda>(s, st, d). card {m \<in> set (missions s). mi_date m \<le> d})"
    by (simp add: psubset_card_mono)
qed simp

declare streak_back.simps [simp del]

definition streak :: "day \<Rightarrow> uid \<Rightarrow> 'a mission_db_scheme \<Rightarrow> nat" where
  "streak today st s = streak_back s st (if complete_on s st today then today else today - 1)"

section \<open>Task actions\<close>

definition update_mission :: "uid \<Rightarrow> (mission \<Rightarrow> mission) \<Rightarrow> 'a mission_db_scheme \<Rightarrow> 'a mission_db_scheme" where
  "update_mission i f s = s\<lparr>missions := update_where (\<lambda>m. mi_id m = i) f (missions s)\<rparr>"

definition update_mission_task ::
    "uid \<Rightarrow> (mission_task \<Rightarrow> mission_task) \<Rightarrow> 'a mission_db_scheme \<Rightarrow> 'a mission_db_scheme" where
  "update_mission_task i f s = s\<lparr>mission_tasks := update_where (\<lambda>t. mt_id t = i) f (mission_tasks s)\<rparr>"

definition mission_by_id :: "'a mission_db_scheme \<Rightarrow> uid \<Rightarrow> mission option" where
  "mission_by_id s i = find (\<lambda>m. mi_id m = i) (missions s)"

definition tasks_in :: "'a mission_db_scheme \<Rightarrow> uid \<Rightarrow> mission_task list" where
  "tasks_in s m = filter (\<lambda>t. mt_mission_id t = m) (mission_tasks s)"

definition remaining :: "'a mission_db_scheme \<Rightarrow> uid \<Rightarrow> nat" where
  "remaining s m = count_where (\<lambda>t. mt_status t \<notin> {MT_done, MT_rejected}) (tasks_in s m)"

definition done_count :: "'a mission_db_scheme \<Rightarrow> uid \<Rightarrow> nat" where
  "done_count s m = count_where (\<lambda>t. mt_status t = MT_done) (tasks_in s m)"

definition maybe_complete_mission ::
    "instant \<Rightarrow> day \<Rightarrow> mission \<Rightarrow> 'a mission_db_scheme \<Rightarrow> 'a mission_db_scheme" where
  "maybe_complete_mission now today m s =
     (if mi_status m = MiS_complete \<or> remaining s (mi_id m) \<noteq> 0 \<or> done_count s (mi_id m) = 0 then s
      else (let s1 = update_mission (mi_id m) (\<lambda>x. x\<lparr>mi_status := MiS_complete\<rparr>) s;
                s2 = publish now ''mission.completed''
                       [(''startup_id'', JUid (mi_startup_id m)), (''mission_id'', JUid (mi_id m)),
                        (''mission_date'', JDay (mi_date m))] s1
            in case startup_by_id s2 (mi_startup_id m) of
                 None \<Rightarrow> s2
               | Some st \<Rightarrow>
                   (let k = streak today (st_id st) s2
                    in if k \<in> set streak_milestones
                       then publish now ''mission.streak.milestone''
                              [(''startup_id'', JUid (mi_startup_id m)), (''streak'', JInt (int k))] s2
                       else s2)))"

definition recheck_mission ::
    "instant \<Rightarrow> day \<Rightarrow> uid \<Rightarrow> 'a mission_db_scheme \<Rightarrow> 'a mission_db_scheme" where
  "recheck_mission now today i s =
     (case mission_by_id s i of None \<Rightarrow> s | Some m \<Rightarrow> maybe_complete_mission now today m s)"

definition complete_task ::
    "instant \<Rightarrow> day \<Rightarrow> startup \<Rightarrow> mission_task \<Rightarrow> 'a mission_db_scheme \<Rightarrow> 'a mission_db_scheme" where
  "complete_task now today st t s =
     (if mt_status t = MT_done then s
      else recheck_mission now today (mt_mission_id t)
             (publish now ''mission.task.completed''
                [(''startup_id'', JUid (st_id st)), (''mission_id'', JUid (mt_mission_id t)),
                 (''task_id'', JUid (mt_id t))]
                (update_mission_task (mt_id t) (\<lambda>x. x\<lparr>mt_status := MT_done, mt_completed_at := Some now\<rparr>) s)))"

definition snooze_task :: "mission_task \<Rightarrow> 'a mission_db_scheme \<Rightarrow> 'a mission_db_scheme" where
  "snooze_task t = update_mission_task (mt_id t) (\<lambda>x. x\<lparr>mt_status := MT_snoozed\<rparr>)"

definition reorder_task :: "mission_task \<Rightarrow> int \<Rightarrow> 'a mission_db_scheme \<Rightarrow> 'a mission_db_scheme" where
  "reorder_task t k = update_mission_task (mt_id t) (\<lambda>x. x\<lparr>mt_order := k\<rparr>)"

definition reject_task ::
    "instant \<Rightarrow> day \<Rightarrow> mission_task \<Rightarrow> string \<Rightarrow> 'a mission_db_scheme \<Rightarrow> 'a mission_db_scheme" where
  "reject_task now today t reason s =
     recheck_mission now today (mt_mission_id t)
       (update_mission_task (mt_id t) (\<lambda>x. x\<lparr>mt_status := MT_rejected, mt_reject_reason := Some reason\<rparr>) s)"

definition add_custom_task ::
    "mission \<Rightarrow> string \<Rightarrow> task_effort option \<Rightarrow> 'a mission_db_scheme \<Rightarrow> mission_task \<times> 'a mission_db_scheme" where
  "add_custom_task m title eff s =
     (let k = next_order (map mt_order (tasks_in s (mi_id m)));
          (i, s1) = fresh_id s;
          t = \<lparr>mt_id = i, mt_mission_id = mi_id m, mt_roadmap_task_id = None, mt_title = title,
               mt_reason = None, mt_effort = (case eff of None \<Rightarrow> TE_medium | Some e \<Rightarrow> e), mt_order = k,
               mt_status = MT_todo, mt_completed_at = None, mt_reject_reason = None\<rparr>
      in (t, s1\<lparr>mission_tasks := mission_tasks s1 @ [t]\<rparr>))"

section \<open>History\<close>

definition weekly_window_days :: int where
  "weekly_window_days = 7"

definition actionable :: "'a mission_db_scheme \<Rightarrow> mission \<Rightarrow> bool" where
  "actionable s m = (\<exists>t \<in> set (mission_tasks s). mt_mission_id t = mi_id m \<and> mt_status t \<noteq> MT_rejected)"

definition weekly_completion_pct :: "day \<Rightarrow> uid \<Rightarrow> 'a mission_db_scheme \<Rightarrow> int" where
  "weekly_completion_pct today st s =
     (let window = filter (\<lambda>m. mi_startup_id m = st \<and> today - (weekly_window_days - 1) \<le> mi_date m
                             \<and> mi_date m \<le> today \<and> actionable s m) (missions s)
      in if window = [] then 0
         else percent (count_where (\<lambda>m. mi_status m = MiS_complete) window) (length window))"

record mission_row =
  mr_date :: day
  mr_completed :: nat
  mr_total :: nat
  mr_status :: mission_status

definition mission_history :: "day \<Rightarrow> uid \<Rightarrow> 'a mission_db_scheme \<Rightarrow> mission_row list \<times> int" where
  "mission_history today st s =
     (map (\<lambda>m. \<lparr>mr_date = mi_date m, mr_completed = done_count s (mi_id m),
                mr_total = count_where (\<lambda>t. mt_status t \<noteq> MT_rejected) (tasks_in s (mi_id m)),
                mr_status = mi_status m\<rparr>)
        (sort_key (\<lambda>m. - mi_date m) (filter (\<lambda>m. mi_startup_id m = st) (missions s))),
      weekly_completion_pct today st s)"

section \<open>The endpoints\<close>

definition find_mission_task :: "membership \<Rightarrow> uid \<Rightarrow> 'a mission_db_scheme \<Rightarrow> mission_task result" where
  "find_mission_task m i s =
     (case find (\<lambda>t. mt_id t = i \<and> (\<exists>x \<in> set (missions s). mi_id x = mt_mission_id t \<and> mi_startup_id x = m_startup_id m))
             (mission_tasks s) of
        None \<Rightarrow> Inl NotFound | Some t \<Rightarrow> Inr t)"

definition require_startup :: "membership \<Rightarrow> 'a core_db_scheme \<Rightarrow> startup result" where
  "require_startup m s = (case startup_by_id s (m_startup_id m) of None \<Rightarrow> Inl NotFound | Some st \<Rightarrow> Inr st)"

definition get_today ::
    "instant \<Rightarrow> day \<Rightarrow> membership \<Rightarrow> 'a mission_db_scheme
     \<Rightarrow> (mission \<times> nat \<times> mission_task list) option result \<times> 'a mission_db_scheme" where
  "get_today now today m s =
     (case require_startup m s of
        Inl e \<Rightarrow> (Inl e, s)
      | Inr st \<Rightarrow>
          (let (x, s1) = get_or_generate_today now today (st_id st) s
           in (Inr (map_option (\<lambda>mi. (mi, streak today (st_id st) s1, sort_key mt_order (tasks_in s1 (mi_id mi)))) x), s1)))"

definition get_history ::
    "day \<Rightarrow> membership \<Rightarrow> 'a mission_db_scheme \<Rightarrow> (mission_row list \<times> int) result" where
  "get_history today m s =
     (case require_startup m s of Inl e \<Rightarrow> Inl e | Inr st \<Rightarrow> Inr (mission_history today (st_id st) s))"

definition six_am :: int where
  "six_am = hours 6"

definition get_settings ::
    "uid \<Rightarrow> 'a mission_db_scheme \<Rightarrow> mission_settings \<times> 'a mission_db_scheme" where
  "get_settings st s =
     (case settings_of s st of
        Some x \<Rightarrow> (x, s)
      | None \<Rightarrow>
          (let x = \<lparr>mst_startup_id = st, mst_mission_size = 3, mst_delivery_time = six_am,
                    mst_weekend_missions = False\<rparr>
           in (x, s\<lparr>mission_settings := mission_settings s @ [x]\<rparr>)))"

definition patch_settings ::
    "int option \<Rightarrow> int option \<Rightarrow> bool option \<Rightarrow> membership \<Rightarrow> 'a mission_db_scheme
     \<Rightarrow> mission_settings result \<times> 'a mission_db_scheme" where
  "patch_settings n delivery weekend m s =
     (let (x, s1) = get_settings (m_startup_id m) s
      in if (case n of None \<Rightarrow> False | Some k \<Rightarrow> \<not> (1 \<le> k \<and> k \<le> 3))
         then (Inl (validation_error [''mission_size'']), s1)
         else (let f = (\<lambda>x. x\<lparr>mst_mission_size := set_field n (mst_mission_size x),
                              mst_delivery_time := set_field delivery (mst_delivery_time x),
                              mst_weekend_missions := set_field weekend (mst_weekend_missions x)\<rparr>)
               in (Inr (f x), s1\<lparr>mission_settings := update_where (\<lambda>y. mst_startup_id y = m_startup_id m) f
                                   (mission_settings s1)\<rparr>)))"

definition create_mission_task ::
    "instant \<Rightarrow> day \<Rightarrow> string \<Rightarrow> task_effort option \<Rightarrow> user \<Rightarrow> membership \<Rightarrow> 'a mission_db_scheme
     \<Rightarrow> mission_task result \<times> 'a mission_db_scheme" where
  "create_mission_task now today title eff user m s =
     (case require_startup m s of
        Inl e \<Rightarrow> (Inl e, s)
      | Inr st \<Rightarrow>
          (let (x, s1) = get_or_generate_today now today (st_id st) s;
               (mi, s2) = (case x of Some mi \<Rightarrow> (mi, s1) | None \<Rightarrow> new_mission ''user'' (st_id st) today s1);
               (t, s3) = add_custom_task mi title eff s2
           in (Inr t, write_activity now (st_id st) ''mission.task.added''
                 (actor_name user @ '' added '' @ [CHR 0x27] @ mt_title t @ [CHR 0x27] @ '' to today'' @ [CHR 0x27] @ ''s mission'')
                 (Some (u_id user)) (Some ''mission_task'') (Some (mt_id t)) None s3)))"

record task_action =
  ta_action :: string
  ta_order :: "int option"
  ta_reject_reason :: "string option"

definition task_activity ::
    "instant \<Rightarrow> startup \<Rightarrow> user \<Rightarrow> string \<Rightarrow> string \<Rightarrow> mission_task \<Rightarrow> 'a mission_db_scheme \<Rightarrow> 'a mission_db_scheme" where
  "task_activity now st user action verb t =
     write_activity now (st_id st) action (actor_name user @ verb @ [CHR 0x27] @ mt_title t @ [CHR 0x27])
       (Some (u_id user)) (Some ''mission_task'') (Some (mt_id t)) None"

definition patch_task ::
    "instant \<Rightarrow> day \<Rightarrow> uid \<Rightarrow> task_action \<Rightarrow> user \<Rightarrow> membership \<Rightarrow> 'a mission_db_scheme
     \<Rightarrow> unit result \<times> 'a mission_db_scheme" where
  "patch_task now today i body user m s =
     (case require_startup m s of
        Inl e \<Rightarrow> (Inl e, s)
      | Inr st \<Rightarrow>
          (case find_mission_task m i s of
             Inl e \<Rightarrow> (Inl e, s)
           | Inr t \<Rightarrow>
               if ta_action body = ''complete'' then
                 (Inr (), if mt_status t = MT_done then s
                          else task_activity now st user ''mission.task.completed'' '' completed '' t
                                 (complete_task now today st t s))
               else if ta_action body = ''snooze'' then
                 (Inr (), task_activity now st user ''mission.task.snoozed'' '' snoozed '' t (snooze_task t s))
               else if ta_action body = ''reorder'' then
                 (case ta_order body of
                    None \<Rightarrow> (Inl (validation_error [''order'']), s)
                  | Some k \<Rightarrow> (Inr (), reorder_task t k s))
               else if ta_action body = ''reject'' then
                 (case ta_reject_reason body of
                    None \<Rightarrow> (Inl (validation_error [''reject_reason'']), s)
                  | Some reason \<Rightarrow>
                      if reason \<notin> set valid_reject_reasons
                      then (Inl (validation_error [''reject_reason'']), s)
                      else (Inr (), task_activity now st user ''mission.task.rejected'' '' rejected '' t
                                      (reject_task now today t reason s)))
               else (Inl (validation_error [''action'']), s)))"

end
