(* ===== verification/Mission_Inv.thy ===== *)
theory Mission_Inv
  imports Mission "HOL-Library.Multiset"
begin

text \<open>
  What a generated mission contains, and what every request on missions keeps: one mission a day,
  no roadmap task twice in a mission, and one announcement for each completed mission.
\<close>

section \<open>The plan of a mission\<close>

definition copy_row :: "uid \<Rightarrow> int \<Rightarrow> uid \<Rightarrow> task_copy \<Rightarrow> mission_task" where
  "copy_row m k i c =
     (case c of (rid, title, reason, eff) \<Rightarrow>
       \<lparr>mt_id = i, mt_mission_id = m, mt_roadmap_task_id = rid, mt_title = title, mt_reason = reason,
        mt_effort = eff, mt_order = k, mt_status = MT_todo, mt_completed_at = None, mt_reject_reason = None\<rparr>)"

fun copy_rows :: "uid \<Rightarrow> int \<Rightarrow> uid \<Rightarrow> task_copy list \<Rightarrow> mission_task list" where
  "copy_rows m k i [] = []"
| "copy_rows m k i (c # cs) = copy_row m k i c # copy_rows m (k + 1) (Suc i) cs"

lemma length_copy_rows [simp]: "length (copy_rows m k i cs) = length cs"
  by (induction m k i cs rule: copy_rows.induct) simp_all

lemma copy_rows_append:
  "copy_rows m k i (a @ b) = copy_rows m k i a @ copy_rows m (k + int (length a)) (i + length a) b"
  by (induction m k i a rule: copy_rows.induct) (simp_all add: algebra_simps)

lemma copy_rows_fields:
  "map mt_mission_id (copy_rows m k i cs) = replicate (length cs) m"
  "map mt_id (copy_rows m k i cs) = [i ..< i + length cs]"
  "map mt_roadmap_task_id (copy_rows m k i cs) = map fst cs"
  "map mt_order (copy_rows m k i cs) = map (\<lambda>j. k + int j) [0 ..< length cs]"
proof (induction m k i cs rule: copy_rows.induct)
  case (2 m k i c cs)
  have s: "[0 ..< Suc (length cs)] = 0 # map Suc [0 ..< length cs]" by (metis map_Suc_upt upt_conv_Cons zero_less_Suc)
  show "map mt_mission_id (copy_rows m k i (c # cs)) = replicate (length (c # cs)) m"
    "map mt_id (copy_rows m k i (c # cs)) = [i ..< i + length (c # cs)]"
    "map mt_roadmap_task_id (copy_rows m k i (c # cs)) = map fst (c # cs)"
    using 2 by (simp_all add: copy_row_def upt_conv_Cons split: prod.split del: upt_Suc)
  show "map mt_order (copy_rows m k i (c # cs)) = map (\<lambda>j. k + int j) [0 ..< length (c # cs)]"
    using 2 by (simp add: s copy_row_def comp_def algebra_simps split: prod.split del: upt_Suc)
qed simp_all

lemma add_copies_spec:
  "add_copies m n k cs s =
     (let c = take (nat (n - k)) cs
      in (k + int (length c), s\<lparr>fresh := fresh s + length c, mission_tasks := mission_tasks s @ copy_rows m k (fresh s) c\<rparr>))"
proof (induction m n k cs s rule: add_copies.induct)
  case (2 m n k rid title reason eff cs s)
  show ?case
  proof (cases "n \<le> k")
    case False
    then have "nat (n - k) = Suc (nat (n - (k + 1)))" by simp
    then show ?thesis using 2 False by (simp add: fresh_id_def Let_def copy_row_def algebra_simps)
  qed simp
qed simp

definition mission_size_of :: "'a mission_db_scheme \<Rightarrow> uid \<Rightarrow> int" where
  "mission_size_of s st = (case settings_of s st of None \<Rightarrow> default_mission_size | Some x \<Rightarrow> mst_mission_size x)"

definition weekend_off :: "'a mission_db_scheme \<Rightarrow> uid \<Rightarrow> day \<Rightarrow> bool" where
  "weekend_off s st d \<longleftrightarrow> is_weekend d \<and> \<not> (case settings_of s st of None \<Rightarrow> False | Some x \<Rightarrow> mst_weekend_missions x)"

definition carried_tasks :: "'a mission_db_scheme \<Rightarrow> uid \<Rightarrow> day \<Rightarrow> mission_task list" where
  "carried_tasks s st d = (case prior_mission s st d of None \<Rightarrow> [] | Some p \<Rightarrow> snoozed_tasks s (mi_id p))"

text \<open>
  The rows that the two runs of the loop write, as one list: a closed form of the code, used only to
  unroll it. What is in it is stated without it in \<open>mission_plan\<close>.
\<close>

definition plan :: "'a mission_db_scheme \<Rightarrow> uid \<Rightarrow> roadmap \<Rightarrow> day \<Rightarrow> task_copy list" where
  "plan s st r d =
     (let n = nat (mission_size_of s st);
          carried = carried_tasks s st d;
          ids = List.map_filter mt_roadmap_task_id (take n carried)
      in take n (map copy_of_snoozed carried
           @ map (copy_of_candidate s) (filter (\<lambda>t. rt_id t \<notin> set ids) (candidate_tasks s (ro_id r)))))"

lemma new_mission_frame [simp]:
  "rtasks (snd (new_mission by st d s)) = rtasks s" "milestones (snd (new_mission by st d s)) = milestones s"
  "phases (snd (new_mission by st d s)) = phases s" "roadmaps (snd (new_mission by st d s)) = roadmaps s"
  "task_dependencies (snd (new_mission by st d s)) = task_dependencies s"
  "mission_tasks (snd (new_mission by st d s)) = mission_tasks s"
  "mission_settings (snd (new_mission by st d s)) = mission_settings s"
  "events (snd (new_mission by st d s)) = events s" "fresh (snd (new_mission by st d s)) = Suc (fresh s)"
  "missions (snd (new_mission by st d s)) = missions s @ [fst (new_mission by st d s)]"
  "fst (new_mission by st d s) = \<lparr>mi_id = fresh s, mi_startup_id = st, mi_date = d, mi_generated_by = by, mi_status = MiS_pending\<rparr>"
  by (simp_all add: new_mission_def fresh_id_def Let_def)

lemma candidate_frame:
  assumes "rtasks s' = rtasks s" "milestones s' = milestones s" "phases s' = phases s"
  shows "candidate_tasks s' r = candidate_tasks s r" "copy_of_candidate s' t = copy_of_candidate s t"
  using assms by (simp_all add: candidate_tasks_def task_join_def copy_of_candidate_def)

lemma carried_new_mission: "carried_tasks (snd (new_mission by st d s)) st d = carried_tasks s st d"
  by (simp add: carried_tasks_def prior_mission_def snoozed_tasks_def split: option.split list.split)

lemma generated_state:
  assumes "mission_on s st d = None" "roadmap_of s st = Some r"
  shows "get_or_generate_today now d st s =
    (let m = \<lparr>mi_id = fresh s, mi_startup_id = st, mi_date = d, mi_generated_by = ''system'', mi_status = MiS_pending\<rparr>;
         s1 = s\<lparr>fresh := Suc (fresh s), missions := missions s @ [m]\<rparr>;
         p = (if weekend_off s st d then [] else plan s st r d);
         s2 = s1\<lparr>fresh := Suc (fresh s) + length p, mission_tasks := mission_tasks s @ copy_rows (fresh s) 0 (Suc (fresh s)) p\<rparr>
     in (Some m, enqueue_mission_reason now m (int (length p)) s2))"
proof (cases "weekend_off s st d")
  case True
  then show ?thesis
    using assms by (simp add: get_or_generate_today_def new_mission_def fresh_id_def Let_def weekend_off_def
        enqueue_mission_reason_def)
next
  case False
  let ?m = "\<lparr>mi_id = fresh s, mi_startup_id = st, mi_date = d, mi_generated_by = ''system'', mi_status = MiS_pending\<rparr>"
  define s1 where "s1 = snd (new_mission ''system'' st d s)"
  have nm: "new_mission ''system'' st d s = (?m, s1)" by (simp add: s1_def prod_eq_iff)
  have s1: "s1 = s\<lparr>fresh := Suc (fresh s), missions := missions s @ [?m]\<rparr>"
    by (simp add: s1_def new_mission_def fresh_id_def Let_def)
  define n where "n = mission_size_of s st"
  define C where "C = map copy_of_snoozed (carried_tasks s st d)"
  define ids where "ids = List.map_filter mt_roadmap_task_id (take (nat n) (carried_tasks s st d))"
  define F where "F = map (copy_of_candidate s) (filter (\<lambda>t. rt_id t \<notin> set ids) (candidate_tasks s (ro_id r)))"
  define a where "a = take (nat n) C"
  define b where "b = take (nat (n - int (length a))) F"
  have d: "nat (n - int k) = nat n - k" for k by arith
  have p: "plan s st r d = a @ b"
    unfolding b_def d by (simp add: plan_def Let_def n_def C_def ids_def F_def a_def take_map min_def)
  have carried: "(case prior_mission s1 st d of None \<Rightarrow> [] | Some p \<Rightarrow> snoozed_tasks s1 (mi_id p)) = carried_tasks s st d"
    using carried_new_mission [of "''system''" st d s] unfolding s1_def carried_tasks_def .
  define s2 where "s2 = s1\<lparr>fresh := fresh s1 + length a, mission_tasks := mission_tasks s1 @ copy_rows (fresh s) 0 (fresh s1) a\<rparr>"
  have c1: "add_copies (fresh s) n 0 C s1 = (int (length a), s2)"
    by (simp add: add_copies_spec a_def s2_def Let_def)
  have cf: "candidate_tasks s2 (ro_id r) = candidate_tasks s (ro_id r)" "copy_of_candidate s2 = copy_of_candidate s"
    using candidate_frame [of s2 s] by (simp_all add: fun_eq_iff s2_def s1_def)
  have c2: "add_copies (fresh s) n (int (length a)) F s2 =
      (int (length (a @ b)), s1\<lparr>fresh := fresh s1 + length (a @ b),
         mission_tasks := mission_tasks s1 @ copy_rows (fresh s) 0 (fresh s1) (a @ b)\<rparr>)"
    by (simp add: add_copies_spec b_def [symmetric] Let_def s2_def copy_rows_append add.assoc)
  have w: "\<not> (is_weekend d \<and> \<not> (case settings_of s st of None \<Rightarrow> False | Some x \<Rightarrow> mst_weekend_missions x))"
    using False unfolding weekend_off_def .
  have "get_or_generate_today now d st s = (Some ?m, enqueue_mission_reason now ?m (int (length (a @ b)))
      (s1\<lparr>fresh := fresh s1 + length (a @ b), mission_tasks := mission_tasks s1 @ copy_rows (fresh s) 0 (fresh s1) (a @ b)\<rparr>))"
    unfolding get_or_generate_today_def mission_size_of_def [symmetric] n_def [symmetric]
    by (simp only: assms nm w carried ids_def [symmetric] C_def [symmetric] mission.simps c1 c2 cf F_def [symmetric]
        Let_def prod.case option.case if_False)
  then show ?thesis using False by (simp add: Let_def p s1)
qed

section \<open>The invariant\<close>

definition completions :: "(string \<times> payload) list \<Rightarrow> uid \<Rightarrow> nat" where
  "completions es i = count_where (\<lambda>(e, p). e = ''mission.completed'' \<and> jget p ''mission_id'' = JUid i) es"

definition missions_ok :: "'a mission_db_scheme \<Rightarrow> bool" where
  "missions_ok s \<longleftrightarrow>
     distinct (map mi_id (missions s)) \<and> distinct (map (\<lambda>m. (mi_startup_id m, mi_date m)) (missions s))
     \<and> ids_below (fresh s) (map mi_id (missions s))
     \<and> distinct (map mt_id (mission_tasks s)) \<and> ids_below (fresh s) (map mt_id (mission_tasks s))
     \<and> mt_mission_id ` set (mission_tasks s) \<subseteq> mi_id ` set (missions s)"

definition links_ok :: "'a mission_db_scheme \<Rightarrow> bool" where
  "links_ok s \<longleftrightarrow> (\<forall>m. distinct (List.map_filter mt_roadmap_task_id (tasks_in s m)))"

definition announced :: "'a mission_db_scheme \<Rightarrow> bool" where
  "announced s \<longleftrightarrow> (\<forall>i. completions (events s) i =
     (if \<exists>m \<in> set (missions s). mi_id m = i \<and> mi_status m = MiS_complete then 1 else 0))"

definition mission_inv :: "'a mission_db_scheme \<Rightarrow> bool" where
  "mission_inv s \<longleftrightarrow> roadmap_inv s \<and> missions_ok s \<and> links_ok s \<and> announced s"

lemma completions_append [simp]: "completions (es @ fs) i = completions es i + completions fs i"
  by (simp add: completions_def)

lemma completions_Nil [simp]: "completions [] i = 0"
  by (simp add: completions_def)

lemma mission_inv_cong:
  assumes "mission_inv s" "missions s' = missions s" "mission_tasks s' = mission_tasks s" "fresh s \<le> fresh s'"
    "rtasks s' = rtasks s" "milestones s' = milestones s" "phases s' = phases s"
    "task_dependencies s' = task_dependencies s" "\<And>i. completions (events s') i = completions (events s) i"
  shows "mission_inv s'"
  using assms roadmap_inv_cong [of s s'] ids_below_mono [OF _ assms(4)]
  by (simp add: mission_inv_def missions_ok_def links_ok_def tasks_in_def announced_def)

lemma publish_missions [simp]:
  "missions (publish now e p s) = missions s" "mission_tasks (publish now e p s) = mission_tasks s"
  "mission_settings (publish now e p s) = mission_settings s"
  by (rule publish_frame [of now e p s]; simp)+

lemma publish_other:
  assumes "mission_inv s" "e \<noteq> ''mission.completed''"
  shows "mission_inv (publish now e p s)"
  using assms by (intro mission_inv_cong [OF assms(1)]) (simp_all add: publish_fresh completions_def)

lemma write_activity_missions [simp]:
  "missions (write_activity now st a m ac ety eid meta s) = missions s"
  "mission_tasks (write_activity now st a m ac ety eid meta s) = mission_tasks s"
  "mission_settings (write_activity now st a m ac ety eid meta s) = mission_settings s"
  "events (write_activity now st a m ac ety eid meta s) = events s"
  by (simp_all add: write_activity_def fresh_id_def Let_def)

lemma write_activity_fresh: "fresh s \<le> fresh (write_activity now st a m ac ety eid meta s)"
  by (simp add: write_activity_def fresh_id_def Let_def)

lemma write_activity_keeps:
  "mission_inv s \<Longrightarrow> mission_inv (write_activity now st a m ac ety eid meta s)"
  by (rule mission_inv_cong [of s]) (simp_all add: write_activity_fresh)

lemma task_activity_keeps: "mission_inv s \<Longrightarrow> mission_inv (task_activity now st u a v t s)"
  by (simp add: task_activity_def write_activity_keeps)

lemma enqueue_reason_keeps: "mission_inv s \<Longrightarrow> mission_inv (enqueue_mission_reason now m n s)"
  by (rule mission_inv_cong [of s]) (simp_all add: enqueue_mission_reason_def enqueue_def fresh_id_def Let_def)

lemma map_filter_append [simp]: "List.map_filter f (xs @ ys) = List.map_filter f xs @ List.map_filter f ys"
  by (simp add: List.map_filter_def)

lemma map_filter_update_where:
  "(\<And>x. P x \<Longrightarrow> g (f x) = g x) \<Longrightarrow> List.map_filter g (update_where P f xs) = List.map_filter g xs"
  by (induction xs) (simp_all add: List.map_filter_simps split: option.split)

lemma new_mission_keeps:
  assumes "mission_inv s" "mission_on s st d = None"
  shows "mission_inv (s\<lparr>fresh := Suc (fresh s), missions := missions s @
     [\<lparr>mi_id = fresh s, mi_startup_id = st, mi_date = d, mi_generated_by = by, mi_status = MiS_pending\<rparr>]\<rparr>)"
    (is "mission_inv ?s")
proof -
  have "(st, d) \<notin> (\<lambda>m. (mi_startup_id m, mi_date m)) ` set (missions s)"
    using assms(2) by (auto simp: mission_on_def find_None_iff)
  moreover have "fresh s \<notin> mi_id ` set (missions s)"
    using assms(1) by (auto simp: mission_inv_def missions_ok_def dest: ids_below_fresh)
  moreover have "roadmap_inv ?s" by (rule roadmap_inv_cong [of s]) (use assms(1) in \<open>simp_all add: mission_inv_def\<close>)
  moreover have "missions_ok ?s" using assms(1) calculation(1,2)
    by (simp add: mission_inv_def missions_ok_def subset_insertI2)
  ultimately show ?thesis using assms(1) by (simp add: mission_inv_def links_ok_def tasks_in_def announced_def)
qed

lemma add_tasks_keeps:
  assumes "mission_inv s" "i \<in> mi_id ` set (missions s)" "set (map mt_mission_id ts) \<subseteq> {i}"
    "map mt_id ts = [fresh s ..< fresh s + length ts]"
    "distinct (List.map_filter mt_roadmap_task_id (tasks_in s i) @ List.map_filter mt_roadmap_task_id ts)"
  shows "mission_inv (s\<lparr>fresh := fresh s + length ts, mission_tasks := mission_tasks s @ ts\<rparr>)" (is "mission_inv ?s")
proof -
  have ids: "mt_id ` set ts = {fresh s ..< fresh s + length ts}" "distinct (map mt_id ts)"
    by (metis assms(4) set_map set_upt) (simp add: assms(4))
  have "missions_ok ?s"
    using assms(1-4) ids by (auto simp: mission_inv_def missions_ok_def ids_below_def subset_iff intro: order_less_le_trans)
  moreover have "tasks_in ?s m = tasks_in s m @ (if m = i then ts else [])" for m
    using assms(3) by (auto simp: tasks_in_def filter_id_conv filter_empty_conv)
  then have "links_ok ?s" using assms(1,5) by (auto simp: mission_inv_def links_ok_def)
  moreover have "roadmap_inv ?s" by (rule roadmap_inv_cong [of s]) (use assms(1) in \<open>simp_all add: mission_inv_def\<close>)
  ultimately show ?thesis using assms(1) by (simp add: mission_inv_def announced_def)
qed

lemma update_task_keeps:
  assumes "mission_inv s"
    "\<And>t. mt_id (f t) = mt_id t \<and> mt_mission_id (f t) = mt_mission_id t \<and> mt_roadmap_task_id (f t) = mt_roadmap_task_id t"
  shows "mission_inv (update_mission_task i f s)"
proof -
  let ?s = "update_mission_task i f s"
  have "tasks_in ?s m = update_where (\<lambda>t. mt_id t = i) f (tasks_in s m)" for m
    using assms(2) by (simp add: tasks_in_def update_mission_task_def filter_update_where)
  then have "links_ok ?s"
    using assms by (simp add: mission_inv_def links_ok_def map_filter_update_where)
  moreover have "map mt_id (mission_tasks ?s) = map mt_id (mission_tasks s)"
    "map mt_mission_id (mission_tasks ?s) = map mt_mission_id (mission_tasks s)"
    using assms(2) by (simp_all add: update_mission_task_def map_update_where)
  then have "missions_ok ?s"
    using assms(1) unfolding mission_inv_def missions_ok_def set_map [symmetric]
    by (simp add: update_mission_task_def)
  moreover have "roadmap_inv ?s"
    by (rule roadmap_inv_cong [of s]) (use assms(1) in \<open>simp_all add: mission_inv_def update_mission_task_def\<close>)
  ultimately show ?thesis using assms(1) by (simp add: mission_inv_def announced_def update_mission_task_def)
qed

section \<open>Generation keeps it\<close>

lemma single_concat:
  assumes "distinct (map k xs)" "\<And>x. k x \<noteq> a \<Longrightarrow> f x = []" "\<And>x. length (f x) \<le> 1"
  shows "length (concat (map f xs)) \<le> 1"
  using assms(1)
proof (induction xs)
  case (Cons x xs)
  show ?case
  proof (cases "k x = a")
    case True
    then have "f y = []" if "y \<in> set xs" for y using Cons.prems that assms(2) [of y] by (metis distinct.simps(2) image_eqI list.map(2) set_map)
    then have "concat (map f (x # xs)) = f x" by simp
    then show ?thesis using assms(3) by metis
  qed (use Cons assms(2) in simp)
qed simp

lemma distinct_concat_single:
  assumes "distinct (map k xs)" "\<And>x. length (f x) \<le> 1" "\<And>x y. y \<in> set (f x) \<Longrightarrow> g y = k x"
  shows "distinct (map g (concat (map f xs)))"
  using assms(1)
proof (induction xs)
  case (Cons x xs)
  have "distinct (map g (f x))" using assms(2) [of x] by (cases "f x") auto
  moreover have "g y = k x" if "y \<in> set (f x)" for y by (rule assms(3) [OF that])
  moreover have "g y \<in> k ` set xs" if "y \<in> set (concat (map f xs))" for y using that assms(3) by auto
  ultimately show ?case using Cons by fastforce
qed simp

lemma candidates_distinct:
  assumes "tree_ok s"
  shows "distinct (map rt_id (candidate_tasks s r))"
proof -
  have d: "distinct (map rt_id (rtasks s))" "distinct (map ms_id (milestones s))" "distinct (map ph_id (phases s))"
    using assms by (simp_all add: tree_ok_def)
  let ?f = "\<lambda>t m. concat (map (\<lambda>p. if rt_milestone_id t = ms_id m \<and> ms_phase_id m = ph_id p \<and> ph_roadmap_id p = r
      \<and> rt_status t \<noteq> RM_done then [(t, m, p)] else []) (phases s))"
  have p: "length (?f t m) \<le> 1" for t m by (rule single_concat [OF d(3), where a = "ms_phase_id m"]) auto
  have "length (concat (map (?f t) (milestones s))) \<le> 1" for t
    by (rule single_concat [OF d(2) _ p, where a = "rt_milestone_id t"]) auto
  then have "distinct (map (\<lambda>x. rt_id (fst x)) (task_join s r))"
    unfolding task_join_def by (rule distinct_concat_single [OF d(1)]) (auto split: if_splits)
  moreover have "mset (map rt_id (candidate_tasks s r)) = mset (map (\<lambda>x. rt_id (fst x)) (task_join s r))"
    by (simp add: candidate_tasks_def multiset.map_comp comp_def)
  ultimately show ?thesis using mset_eq_imp_distinct_iff by blast
qed

lemma map_filter_filter: "distinct (List.map_filter g xs) \<Longrightarrow> distinct (List.map_filter g (filter P xs))"
proof (induction xs)
  case (Cons x xs)
  have "set (List.map_filter g (filter P xs)) \<subseteq> set (List.map_filter g xs)" by (auto simp: List.map_filter_def)
  then show ?case using Cons by (auto simp: List.map_filter_simps split: option.splits)
qed (simp add: List.map_filter_simps)

lemma map_filter_sorted: "distinct (List.map_filter g (sort_key k xs)) = distinct (List.map_filter g xs)"
  by (rule mset_eq_imp_distinct_iff) (simp add: List.map_filter_def)

lemma map_filter_take: "distinct (List.map_filter g xs) \<Longrightarrow> distinct (List.map_filter g (take n xs))"
  using map_filter_append [of g "take n xs" "drop n xs"] by simp

lemma carried_distinct:
  assumes "links_ok s"
  shows "distinct (List.map_filter mt_roadmap_task_id (carried_tasks s st d))"
proof -
  have "distinct (List.map_filter mt_roadmap_task_id (snoozed_tasks s m))" for m
  proof -
    have "filter (\<lambda>t. mt_mission_id t = m \<and> mt_status t = MT_snoozed) (mission_tasks s) =
        filter (\<lambda>t. mt_status t = MT_snoozed) (tasks_in s m)"
      by (simp add: tasks_in_def conj_commute)
    then show ?thesis
      using assms by (simp add: snoozed_tasks_def map_filter_sorted map_filter_filter links_ok_def)
  qed
  then show ?thesis by (simp add: carried_tasks_def List.map_filter_simps split: option.split)
qed

lemma plan_links_distinct:
  assumes "tree_ok s" "links_ok s"
  shows "distinct (List.map_filter fst (plan s st r d))"
proof -
  define n where "n = nat (mission_size_of s st)"
  define c where "c = take n (carried_tasks s st d)"
  define ids where "ids = List.map_filter mt_roadmap_task_id c"
  define F where "F = filter (\<lambda>t. rt_id t \<notin> set ids) (candidate_tasks s (ro_id r))"
  have p: "plan s st r d = map copy_of_snoozed c @ map (copy_of_candidate s) (take (n - length (carried_tasks s st d)) F)"
    by (simp add: plan_def Let_def n_def c_def ids_def F_def take_map)
  have 1: "List.map_filter fst (map copy_of_snoozed xs) = List.map_filter mt_roadmap_task_id xs" for xs
    by (simp add: List.map_filter_def copy_of_snoozed_def filter_map comp_def)
  have 2: "List.map_filter fst (map (copy_of_candidate s) xs) = map rt_id xs" for xs
    by (simp add: List.map_filter_def copy_of_candidate_def filter_map comp_def)
  have "distinct ids" unfolding ids_def c_def by (rule map_filter_take [OF carried_distinct [OF assms(2)]])
  moreover have "distinct (map rt_id (take k F))" for k
    using candidates_distinct [OF assms(1), of "ro_id r"]
    by (simp add: F_def distinct_map_filter take_map [symmetric] distinct_take)
  moreover have "rt_id t \<notin> set ids" if "t \<in> set (take k F)" for t k
    using in_set_takeD [OF that] by (simp add: F_def)
  ultimately show ?thesis by (auto simp: p 1 2 ids_def [symmetric] image_iff)
qed

lemma map_filter_via_map: "List.map_filter g xs = List.map_filter id (map g xs)"
  by (induction xs) (simp_all add: List.map_filter_simps split: option.split)

lemma generate_keeps:
  assumes "mission_inv s"
  shows "mission_inv (snd (get_or_generate_today now d st s))"
proof (cases "mission_on s st d = None \<and> roadmap_of s st \<noteq> None")
  case True
  then obtain r where none: "mission_on s st d = None" and r: "roadmap_of s st = Some r" by blast
  let ?m = "\<lparr>mi_id = fresh s, mi_startup_id = st, mi_date = d, mi_generated_by = ''system'', mi_status = MiS_pending\<rparr>"
  let ?s1 = "s\<lparr>fresh := Suc (fresh s), missions := missions s @ [?m]\<rparr>"
  let ?p = "if weekend_off s st d then [] else plan s st r d"
  let ?rows = "copy_rows (fresh s) 0 (Suc (fresh s)) ?p"
  have s1: "mission_inv ?s1" by (rule new_mission_keeps [OF assms none])
  have "set (map mt_mission_id (mission_tasks s)) \<subseteq> set (map mi_id (missions s))"
    using assms by (simp add: mission_inv_def missions_ok_def)
  then have "fresh s \<notin> set (map mt_mission_id (mission_tasks s))"
    using assms ids_below_fresh [of "fresh s" "map mi_id (missions s)"] by (auto simp: mission_inv_def missions_ok_def)
  then have "mt_mission_id t \<noteq> fresh s" if "t \<in> set (mission_tasks s)" for t
    using that by (metis image_eqI set_map)
  then have "tasks_in ?s1 (fresh s) = []" by (simp add: tasks_in_def filter_empty_conv)
  moreover have "List.map_filter mt_roadmap_task_id ?rows = List.map_filter fst ?p"
    unfolding map_filter_via_map [of mt_roadmap_task_id] map_filter_via_map [of fst] copy_rows_fields(3) ..
  moreover have "distinct (List.map_filter fst ?p)"
    using plan_links_distinct [of s] assms by (simp add: mission_inv_def roadmap_inv_def List.map_filter_simps)
  ultimately have "mission_inv (?s1\<lparr>fresh := fresh ?s1 + length ?rows, mission_tasks := mission_tasks ?s1 @ ?rows\<rparr>)"
    by (intro add_tasks_keeps [OF s1, of "fresh s"]) (simp_all add: copy_rows_fields image_iff set_replicate_conv_if)
  moreover have "fresh ?s1 + length ?rows = Suc (fresh s) + length ?p" "mission_tasks ?s1 = mission_tasks s" by simp_all
  ultimately have "mission_inv (?s1\<lparr>fresh := Suc (fresh s) + length ?p, mission_tasks := mission_tasks s @ ?rows\<rparr>)"
    by metis
  then show ?thesis
    unfolding generated_state [OF none r] Let_def snd_conv by (rule enqueue_reason_keeps)
qed (use assms in \<open>auto simp: get_or_generate_today_def split: option.split\<close>)

section \<open>Completion keeps it\<close>

lemma mission_by_idD: "mission_by_id s i = Some m \<Longrightarrow> m \<in> set (missions s) \<and> mi_id m = i"
  unfolding mission_by_id_def by (drule find_SomeD) simp

definition completed_state :: "instant \<Rightarrow> mission \<Rightarrow> 'a mission_db_scheme \<Rightarrow> 'a mission_db_scheme" where
  "completed_state now m s =
     publish now ''mission.completed''
       [(''startup_id'', JUid (mi_startup_id m)), (''mission_id'', JUid (mi_id m)), (''mission_date'', JDay (mi_date m))]
       (update_mission (mi_id m) (\<lambda>x. x\<lparr>mi_status := MiS_complete\<rparr>) s)"

lemma completed_state_fields [simp]:
  "missions (completed_state now m s) = update_where (\<lambda>x. mi_id x = mi_id m) (\<lambda>x. x\<lparr>mi_status := MiS_complete\<rparr>) (missions s)"
  "mission_tasks (completed_state now m s) = mission_tasks s"
  "rtasks (completed_state now m s) = rtasks s" "milestones (completed_state now m s) = milestones s"
  "phases (completed_state now m s) = phases s" "task_dependencies (completed_state now m s) = task_dependencies s"
  by (simp_all add: completed_state_def update_mission_def)

lemma completed_state_events:
  "completions (events (completed_state now m s)) i = completions (events s) i + (if i = mi_id m then 1 else 0)"
  by (simp add: completed_state_def update_mission_def completions_def jget_def)

lemma completed_state_fresh: "fresh s \<le> fresh (completed_state now m s)"
  unfolding completed_state_def
  using publish_fresh [of "update_mission (mi_id m) (\<lambda>x. x\<lparr>mi_status := MiS_complete\<rparr>) s"]
  by (simp add: update_mission_def)

lemma completed_keeps:
  assumes "mission_inv s" "m \<in> set (missions s)" "mi_status m \<noteq> MiS_complete"
  shows "mission_inv (completed_state now m s)"
proof -
  let ?s = "completed_state now m s" and ?f = "\<lambda>x. x\<lparr>mi_status := MiS_complete\<rparr>"
  let ?u = "update_where (\<lambda>x. mi_id x = mi_id m) ?f (missions s)"
  have u: "map mi_id ?u = map mi_id (missions s)"
    "map (\<lambda>m. (mi_startup_id m, mi_date m)) ?u = map (\<lambda>m. (mi_startup_id m, mi_date m)) (missions s)"
    by (simp_all add: map_update_where)
  note fresh = ids_below_mono [OF _ completed_state_fresh [of s now m]]
  have "mt_mission_id ` set (mission_tasks s) \<subseteq> mi_id ` set ?u"
    unfolding set_map [symmetric] u using assms(1) by (simp add: mission_inv_def missions_ok_def)
  then have "missions_ok ?s" using assms(1) fresh by (simp add: mission_inv_def missions_ok_def u)
  moreover have "links_ok ?s" using assms(1) by (simp add: mission_inv_def links_ok_def tasks_in_def)
  moreover have "roadmap_inv ?s"
    by (rule roadmap_inv_cong [of s]) (use assms(1) completed_state_fresh in \<open>simp_all add: mission_inv_def\<close>)
  moreover have "announced ?s"
    unfolding announced_def
  proof
    fix i
    have "distinct (map mi_id (missions s))" using assms(1) by (simp add: mission_inv_def missions_ok_def)
    then have only: "x = m" if "x \<in> set (missions s)" "mi_id x = mi_id m" for x
      using distinct_mapD [of mi_id "missions s" x m] that assms(2) by blast
    have ann: "completions (events s) i = (if \<exists>x \<in> set (missions s). mi_id x = i \<and> mi_status x = MiS_complete then 1 else 0)"
      using assms(1) by (simp add: mission_inv_def announced_def)
    show "completions (events ?s) i = (if \<exists>x \<in> set (missions ?s). mi_id x = i \<and> mi_status x = MiS_complete then 1 else 0)"
    proof (cases "i = mi_id m")
      case True
      then have "completions (events s) i = 0" using ann only assms(3) by auto
      moreover have "\<exists>x \<in> set ?u. mi_id x = i \<and> mi_status x = MiS_complete"
        unfolding set_update_where using assms(2) True by (intro bexI [of _ "m\<lparr>mi_status := MiS_complete\<rparr>"]) (auto simp: image_iff)
      ultimately show ?thesis using True by (simp add: completed_state_events)
    next
      case False
      then have "(\<exists>x \<in> set ?u. mi_id x = i \<and> mi_status x = MiS_complete) =
          (\<exists>x \<in> set (missions s). mi_id x = i \<and> mi_status x = MiS_complete)"
        by (intro ex_update_where) simp
      then show ?thesis using ann False by (simp add: completed_state_events)
    qed
  qed
  ultimately show ?thesis by (simp add: mission_inv_def)
qed

lemma maybe_complete_unfold:
  "maybe_complete_mission now today m s =
     (if mi_status m = MiS_complete \<or> remaining s (mi_id m) \<noteq> 0 \<or> done_count s (mi_id m) = 0 then s
      else (case startup_by_id (completed_state now m s) (mi_startup_id m) of
              None \<Rightarrow> completed_state now m s
            | Some st \<Rightarrow>
                if streak today (st_id st) (completed_state now m s) \<in> set streak_milestones
                then publish now ''mission.streak.milestone''
                       [(''startup_id'', JUid (mi_startup_id m)),
                        (''streak'', JInt (int (streak today (st_id st) (completed_state now m s))))] (completed_state now m s)
                else completed_state now m s))"
  unfolding maybe_complete_mission_def completed_state_def Let_def by (rule refl)

lemma recheck_keeps:
  assumes "mission_inv s"
  shows "mission_inv (recheck_mission now today i s)"
proof (cases "mission_by_id s i")
  case (Some m)
  have m: "m \<in> set (missions s)" using mission_by_idD [OF Some] by simp
  have c: "mission_inv (completed_state now m s)" if "mi_status m \<noteq> MiS_complete"
    by (rule completed_keeps [OF assms m that])
  show ?thesis
    using assms c Some by (simp add: recheck_mission_def maybe_complete_unfold publish_other split: option.split)
qed (use assms in \<open>simp add: recheck_mission_def\<close>)

lemma complete_task_keeps: "mission_inv s \<Longrightarrow> mission_inv (complete_task now today st t s)"
  by (simp add: complete_task_def recheck_keeps publish_other update_task_keeps)

lemma reject_task_keeps: "mission_inv s \<Longrightarrow> mission_inv (reject_task now today t reason s)"
  by (simp add: reject_task_def recheck_keeps update_task_keeps)

lemma add_custom_keeps:
  assumes "mission_inv s" "mi_id m \<in> mi_id ` set (missions s)"
  shows "mission_inv (snd (add_custom_task m title eff s))"
proof -
  let ?t = "fst (add_custom_task m title eff s)"
  have t: "mt_id ?t = fresh s" "mt_mission_id ?t = mi_id m" "mt_roadmap_task_id ?t = None"
    by (simp_all add: add_custom_task_def fresh_id_def Let_def)
  have "mission_inv (s\<lparr>fresh := fresh s + length [?t], mission_tasks := mission_tasks s @ [?t]\<rparr>)"
    by (rule add_tasks_keeps [OF assms])
      (use assms(1) t in \<open>simp_all add: List.map_filter_simps mission_inv_def links_ok_def\<close>)
  then show ?thesis by (simp add: add_custom_task_def fresh_id_def Let_def)
qed

end
