(* ===== verification/Mission_Requests.thy ===== *)
theory Mission_Requests
  imports Mission_Inv
begin

text \<open>
  The requests on missions and what holds along their histories; what a generated mission contains;
  when a task action completes the mission; the streak; and two places where the derived figures
  do not follow the documentation.
\<close>

datatype mission_request =
    MQ_today
  | MQ_settings
  | MQ_patch_settings "int option" "int option" "bool option"
  | MQ_create_task string "task_effort option"
  | MQ_patch_task uid task_action

fun mission_body ::
    "instant \<Rightarrow> day \<Rightarrow> user \<Rightarrow> mission_request \<Rightarrow> membership \<Rightarrow> 'a mission_db_scheme
     \<Rightarrow> unit result \<times> 'a mission_db_scheme" where
  "mission_body now today u MQ_today m s = forget done_ok (get_today now today m s)"
| "mission_body now today u MQ_settings m s = (Inr (), snd (get_settings (m_startup_id m) s))"
| "mission_body now today u (MQ_patch_settings n d w) m s = forget done_ok (patch_settings n d w m s)"
| "mission_body now today u (MQ_create_task t e) m s = forget done_ok (create_mission_task now today t e u m s)"
| "mission_body now today u (MQ_patch_task i b) m s = patch_task now today i b u m s"

definition mission_roles :: "mission_request \<Rightarrow> membership_role list" where
  "mission_roles q = (if q = MQ_today \<or> q = MQ_settings then [] else editors)"

record mission_call =
  qc_credential :: "string option"
  qc_workspace :: uid
  qc_now :: instant
  qc_today :: day
  qc_user :: user
  qc_request :: mission_request

definition serve_mission ::
    "(string \<Rightarrow> json option) \<Rightarrow> mission_call \<Rightarrow> 'a mission_db_scheme \<Rightarrow> unit result \<times> 'a mission_db_scheme" where
  "serve_mission decode q s =
     workspace_request decode (qc_credential q) (qc_workspace q) (mission_roles (qc_request q)) True
       (mission_body (qc_now q) (qc_today q) (qc_user q) (qc_request q)) s"

section \<open>Every request keeps the invariant\<close>

lemma settings_keep:
  assumes "mission_inv s"
  shows "mission_inv (s\<lparr>mission_settings := x\<rparr>)"
  by (rule mission_inv_cong [OF assms]) simp_all

lemma get_today_keeps: "mission_inv s \<Longrightarrow> mission_inv (snd (get_today now today m s))"
  by (simp add: get_today_def case_prod_unfold Let_def generate_keeps split: sum.split)

lemma get_settings_keeps: "mission_inv s \<Longrightarrow> mission_inv (snd (get_settings st s))"
  by (simp add: get_settings_def Let_def settings_keep split: option.split)

lemma patch_settings_keeps:
  assumes "mission_inv s"
  shows "mission_inv (snd (patch_settings n d w m s))"
proof -
  note g = get_settings_keeps [OF assms, of "m_startup_id m"]
  obtain x s1 where e: "get_settings (m_startup_id m) s = (x, s1)" by (cases "get_settings (m_startup_id m) s")
  show ?thesis
    using g settings_keep [of s1] unfolding patch_settings_def e prod.case Let_def by (auto split: if_split)
qed

lemma generated_in:
  assumes "fst (get_or_generate_today now d st s) = Some m"
  shows "m \<in> set (missions (snd (get_or_generate_today now d st s)))"
proof (cases "mission_on s st d")
  case None
  then obtain r where "roadmap_of s st = Some r"
    using assms by (auto simp: get_or_generate_today_def split: option.splits)
  then show ?thesis
    using assms generated_state [OF None, of r now]
    by (auto simp: Let_def enqueue_mission_reason_def enqueue_def fresh_id_def)
next
  case (Some x)
  then show ?thesis using assms mission_onD [OF Some] by (simp add: get_or_generate_today_def)
qed

lemma generated_none:
  assumes "fst (get_or_generate_today now d st s) = None"
  shows "mission_on s st d = None \<and> snd (get_or_generate_today now d st s) = s"
  using assms by (auto simp: get_or_generate_today_def Let_def case_prod_unfold split: option.splits if_splits)

lemma create_mission_task_keeps:
  assumes "mission_inv s"
  shows "mission_inv (snd (create_mission_task now today title eff u m s))"
proof (cases "require_startup m s")
  case (Inr st)
  define g where "g = get_or_generate_today now today (st_id st) s"
  define p where "p = (case fst g of Some mi \<Rightarrow> (mi, snd g) | None \<Rightarrow> new_mission ''user'' (st_id st) today (snd g))"
  have g: "mission_inv (snd g)" unfolding g_def by (rule generate_keeps [OF assms])
  have p: "mission_inv (snd p) \<and> mi_id (fst p) \<in> mi_id ` set (missions (snd p))"
  proof (cases "fst g")
    case None
    then have "mission_on (snd g) (st_id st) today = None"
      using generated_none [of now today "st_id st" s] by (simp add: g_def)
    from new_mission_keeps [OF g this, of "''user''"] show ?thesis
      using None by (simp add: p_def new_mission_def fresh_id_def Let_def)
  next
    case (Some mi)
    then show ?thesis using g generated_in [of now today "st_id st" s mi] by (simp add: p_def g_def)
  qed
  have "snd (create_mission_task now today title eff u m s) =
      write_activity now (st_id st) ''mission.task.added''
        (actor_name u @ '' added '' @ [CHR 0x27] @ mt_title (fst (add_custom_task (fst p) title eff (snd p))) @ [CHR 0x27]
           @ '' to today'' @ [CHR 0x27] @ ''s mission'')
        (Some (u_id u)) (Some ''mission_task'') (Some (mt_id (fst (add_custom_task (fst p) title eff (snd p))))) None
        (snd (add_custom_task (fst p) title eff (snd p)))"
    unfolding create_mission_task_def Inr sum.case case_prod_unfold Let_def p_def g_def fst_conv snd_conv by (rule refl)
  then show ?thesis using p by (simp add: write_activity_keeps add_custom_keeps)
qed (use assms in \<open>simp add: create_mission_task_def\<close>)

lemma patch_task_keeps: "mission_inv s \<Longrightarrow> mission_inv (snd (patch_task now today i b u m s))"
  by (simp add: patch_task_def task_activity_keeps complete_task_keeps reject_task_keeps snooze_task_def
      reorder_task_def update_task_keeps split: sum.split option.split)

lemma mission_body_keeps: "mission_inv s \<Longrightarrow> mission_inv (snd (mission_body now today u q m s))"
  by (cases q) (simp_all add: get_today_keeps get_settings_keeps patch_settings_keeps create_mission_task_keeps
      patch_task_keeps)

lemma serve_mission_keeps: "mission_inv s \<Longrightarrow> mission_inv (snd (serve_mission decode q s))"
  unfolding serve_mission_def by (rule workspace_request_invariant [of mission_inv]) (simp_all add: mission_body_keeps)

section \<open>Histories\<close>

text \<open>
  \<open>scheduled\<close> is the worker, or the dashboard, generating a mission. \<open>elsewhere\<close> is the rest of the
  application: the roadmap and the other tables may change, in the ways that keep the roadmap well formed,
  and the worker rewrites the reasons of tasks, but no mission and no announcement of a completed one.
\<close>

definition reasoned :: "(uid \<Rightarrow> string option) \<Rightarrow> mission_task \<Rightarrow> mission_task" where
  "reasoned f t = t\<lparr>mt_reason := f (mt_id t)\<rparr>"

lemma reasoned_simps [simp]:
  "mt_id (reasoned f t) = mt_id t" "mt_mission_id (reasoned f t) = mt_mission_id t"
  "mt_roadmap_task_id (reasoned f t) = mt_roadmap_task_id t" "mt_status (reasoned f t) = mt_status t"
  by (simp_all add: reasoned_def)

inductive mission_reachable :: "(string \<Rightarrow> json option) \<Rightarrow> 'a mission_db_scheme \<Rightarrow> bool"
  for decode :: "string \<Rightarrow> json option" where
  start: "roadmap_inv s \<Longrightarrow> missions s = [] \<Longrightarrow> mission_tasks s = []
    \<Longrightarrow> ''mission.completed'' \<notin> fst ` set (events s) \<Longrightarrow> mission_reachable decode s"
| request: "mission_reachable decode s \<Longrightarrow> mission_reachable decode (snd (serve_mission decode q s))"
| scheduled: "mission_reachable decode s \<Longrightarrow> mission_reachable decode (snd (get_or_generate_today now today st s))"
| elsewhere: "mission_reachable decode s \<Longrightarrow> roadmap_inv s' \<Longrightarrow> missions s' = missions s
    \<Longrightarrow> mission_tasks s' = map (reasoned f) (mission_tasks s) \<Longrightarrow> fresh s \<le> fresh s' \<Longrightarrow> events s' = events s @ es
    \<Longrightarrow> ''mission.completed'' \<notin> fst ` set es \<Longrightarrow> mission_reachable decode s'"

lemma no_completions: "''mission.completed'' \<notin> fst ` set es \<Longrightarrow> completions es i = 0"
  by (auto simp: completions_def count_where_0_iff image_iff split: prod.split)

lemma mission_reachable_inv: "mission_reachable decode s \<Longrightarrow> mission_inv s"
proof (induction rule: mission_reachable.induct)
  case (start s)
  then show ?case
    by (simp add: mission_inv_def missions_ok_def links_ok_def announced_def tasks_in_def no_completions
        List.map_filter_simps)
next
  case (request s q)
  then show ?case using serve_mission_keeps [of s decode q] by simp
next
  case (scheduled s now today st)
  then show ?case by (simp add: generate_keeps)
next
  case (elsewhere s s' f es)
  have "tasks_in s' m = map (reasoned f) (tasks_in s m)" for m
    by (simp add: tasks_in_def elsewhere(4) filter_map comp_def)
  then have "List.map_filter mt_roadmap_task_id (tasks_in s' m) = List.map_filter mt_roadmap_task_id (tasks_in s m)" for m
    by (simp add: List.map_filter_def filter_map comp_def)
  then show ?case
    using elsewhere ids_below_mono [OF _ elsewhere(5)] no_completions [OF elsewhere(7)]
    by (simp add: mission_inv_def missions_ok_def links_ok_def announced_def comp_def image_image)
qed

text \<open>
  C10: along every history of mission requests, interleaved with whatever the rest of the application
  does, a workspace has at most one mission a day; every mission task belongs to an existing
  mission and no roadmap task appears twice in a mission; and the completion of a mission is
  announced exactly once, when it happens.
\<close>

theorem mission_histories:
  assumes "mission_reachable decode s"
  shows "(\<forall>m \<in> set (missions s). \<forall>m' \<in> set (missions s).
       mi_startup_id m = mi_startup_id m' \<and> mi_date m = mi_date m' \<longrightarrow> m = m')
    \<and> (\<forall>t \<in> set (mission_tasks s). \<exists>m \<in> set (missions s). mi_id m = mt_mission_id t)
    \<and> (\<forall>t \<in> set (mission_tasks s). \<forall>t' \<in> set (mission_tasks s). mt_mission_id t = mt_mission_id t'
         \<and> mt_roadmap_task_id t \<noteq> None \<and> mt_roadmap_task_id t = mt_roadmap_task_id t' \<longrightarrow> t = t')
    \<and> (\<forall>m \<in> set (missions s). completions (events s) (mi_id m) = (if mi_status m = MiS_complete then 1 else 0))"
proof -
  have i: "mission_inv s" by (rule mission_reachable_inv [OF assms])
  have "m = m'" if "m \<in> set (missions s)" "m' \<in> set (missions s)" "mi_startup_id m = mi_startup_id m'" "mi_date m = mi_date m'" for m m'
    using i that distinct_mapD [of "\<lambda>m. (mi_startup_id m, mi_date m)" "missions s" m m']
    by (simp add: mission_inv_def missions_ok_def)
  moreover have "\<exists>m \<in> set (missions s). mi_id m = mt_mission_id t" if "t \<in> set (mission_tasks s)" for t
  proof -
    have "mt_mission_id t \<in> mi_id ` set (missions s)"
      using i that by (auto simp: mission_inv_def missions_ok_def)
    then show ?thesis by (auto simp: image_iff)
  qed
  moreover have "t = t'" if same: "t \<in> set (mission_tasks s)" "t' \<in> set (mission_tasks s)"
      "mt_mission_id t = mt_mission_id t' \<and> mt_roadmap_task_id t \<noteq> None \<and> mt_roadmap_task_id t = mt_roadmap_task_id t'" for t t'
  proof -
    let ?k = "mt_mission_id t"
    have "distinct (List.map_filter mt_roadmap_task_id (tasks_in s ?k))" using i by (simp add: mission_inv_def links_ok_def)
    then have inj: "inj_on (the \<circ> mt_roadmap_task_id) (set (filter (\<lambda>t. mt_roadmap_task_id t \<noteq> None) (tasks_in s ?k)))"
      by (simp add: List.map_filter_def distinct_map)
    have "mt_roadmap_task_id t' \<noteq> None" using same(3) by metis
    then show ?thesis by (intro inj_onD [OF inj]) (use same in \<open>simp_all add: tasks_in_def del: not_None_eq\<close>)
  qed
  moreover have "completions (events s) (mi_id m) = (if mi_status m = MiS_complete then 1 else 0)"
    if "m \<in> set (missions s)" for m
    using i that distinct_mapD [of mi_id "missions s" _ m]
    by (auto simp: mission_inv_def announced_def missions_ok_def)
  ultimately show ?thesis by blast
qed

section \<open>What a new mission contains\<close>

lemma enqueue_reason_frame [simp]:
  "missions (enqueue_mission_reason now m n s) = missions s"
  "mission_tasks (enqueue_mission_reason now m n s) = mission_tasks s"
  "rtasks (enqueue_mission_reason now m n s) = rtasks s" "milestones (enqueue_mission_reason now m n s) = milestones s"
  "phases (enqueue_mission_reason now m n s) = phases s"
  by (simp_all add: enqueue_mission_reason_def enqueue_def fresh_id_def Let_def)

lemma no_tasks_of_fresh:
  assumes "mission_inv s" "t \<in> set (mission_tasks s)"
  shows "mt_mission_id t \<noteq> fresh s"
proof
  assume "mt_mission_id t = fresh s"
  moreover have "mt_mission_id ` set (mission_tasks s) \<subseteq> mi_id ` set (missions s)"
    using assms(1) by (simp add: mission_inv_def missions_ok_def)
  ultimately have "fresh s \<in> set (map mi_id (missions s))" using imageI [OF assms(2), of mt_mission_id] by auto
  then show False
    using assms(1) ids_below_fresh [of "fresh s" "map mi_id (missions s)"] by (simp add: mission_inv_def missions_ok_def)
qed

lemma prior_mission_latest:
  "prior_mission s st d = None \<Longrightarrow> q \<in> set (missions s) \<Longrightarrow> mi_startup_id q = st \<Longrightarrow> \<not> mi_date q < d"
  "prior_mission s st d = Some p \<Longrightarrow> p \<in> set (missions s) \<and> mi_startup_id p = st \<and> mi_date p < d"
  "prior_mission s st d = Some p \<Longrightarrow> q \<in> set (missions s) \<Longrightarrow> mi_startup_id q = st \<Longrightarrow> mi_date q < d
     \<Longrightarrow> mi_date q \<le> mi_date p"
proof -
  let ?ys = "sort_key (\<lambda>m. - mi_date m) (filter (\<lambda>m. mi_startup_id m = st \<and> mi_date m < d) (missions s))"
  have e: "prior_mission s st d = (case ?ys of [] \<Rightarrow> None | m # _ \<Rightarrow> Some m)" by (simp add: prior_mission_def)
  have mem: "x \<in> set ?ys \<longleftrightarrow> x \<in> set (missions s) \<and> mi_startup_id x = st \<and> mi_date x < d" for x by auto
  have sorted: "sorted (map (\<lambda>m. - mi_date m) ?ys)" by simp
  show "\<not> mi_date q < d" if "prior_mission s st d = None" "q \<in> set (missions s)" "mi_startup_id q = st"
    using that mem [of q] unfolding e by (cases ?ys) auto
  assume "prior_mission s st d = Some p"
  then obtain zs where ys: "?ys = p # zs" unfolding e by (cases ?ys) auto
  then show "p \<in> set (missions s) \<and> mi_startup_id p = st \<and> mi_date p < d" using mem [of p] by simp
  assume "q \<in> set (missions s)" "mi_startup_id q = st" "mi_date q < d"
  then have "q \<in> set (p # zs)" using mem [of q] unfolding ys by simp
  then show "mi_date q \<le> mi_date p" using sorted unfolding ys by auto
qed

text \<open>The tasks that were snoozed in the workspace's latest mission before the day.\<close>

definition snoozed_before :: "'a mission_db_scheme \<Rightarrow> uid \<Rightarrow> day \<Rightarrow> mission_task set" where
  "snoozed_before s st d = {t \<in> set (mission_tasks s). mt_status t = MT_snoozed
     \<and> (\<exists>q \<in> set (missions s). mi_id q = mt_mission_id t \<and> mi_startup_id q = st \<and> mi_date q < d
          \<and> (\<forall>q' \<in> set (missions s). mi_startup_id q' = st \<and> mi_date q' < d \<longrightarrow> mi_date q' \<le> mi_date q))}"

lemma carried_tasks_spec:
  assumes "missions_ok s"
  shows "set (carried_tasks s st d) = snoozed_before s st d"
    "distinct (carried_tasks s st d)" "sorted (map mt_order (carried_tasks s st d))"
proof -
  have u: "distinct (map (\<lambda>m. (mi_startup_id m, mi_date m)) (missions s))" "distinct (mission_tasks s)"
    using assms by (simp_all add: missions_ok_def distinct_map)
  have t: "set (carried_tasks s st d) = {t \<in> set (mission_tasks s). mt_status t = MT_snoozed
      \<and> (\<exists>p. prior_mission s st d = Some p \<and> mt_mission_id t = mi_id p)}"
    by (cases "prior_mission s st d") (auto simp: carried_tasks_def snoozed_tasks_def)
  have latest: "q = p" if p: "prior_mission s st d = Some p" and q: "q \<in> set (missions s)" "mi_startup_id q = st" "mi_date q < d"
      "\<forall>q' \<in> set (missions s). mi_startup_id q' = st \<and> mi_date q' < d \<longrightarrow> mi_date q' \<le> mi_date q" for p q
  proof (rule distinct_mapD [OF u(1)])
    note p' = prior_mission_latest(2) [OF p]
    show "q \<in> set (missions s)" "p \<in> set (missions s)" using q p' by simp_all
    have "mi_date q = mi_date p" by (intro antisym) (use prior_mission_latest(3) [OF p q(1-3)] q(4) p' in auto)
    then show "(mi_startup_id q, mi_date q) = (mi_startup_id p, mi_date p)" using q p' by simp
  qed
  have "(\<exists>p. prior_mission s st d = Some p \<and> i = mi_id p) \<longleftrightarrow>
      (\<exists>q \<in> set (missions s). mi_id q = i \<and> mi_startup_id q = st \<and> mi_date q < d
          \<and> (\<forall>q' \<in> set (missions s). mi_startup_id q' = st \<and> mi_date q' < d \<longrightarrow> mi_date q' \<le> mi_date q))" for i
  proof (cases "prior_mission s st d")
    case None
    then show ?thesis using prior_mission_latest(1) [OF None] by auto
  next
    case (Some p)
    show ?thesis
    proof
      assume "\<exists>p'. prior_mission s st d = Some p' \<and> i = mi_id p'"
      then show "\<exists>q \<in> set (missions s). mi_id q = i \<and> mi_startup_id q = st \<and> mi_date q < d
          \<and> (\<forall>q' \<in> set (missions s). mi_startup_id q' = st \<and> mi_date q' < d \<longrightarrow> mi_date q' \<le> mi_date q)"
        using prior_mission_latest(2,3) [OF Some] Some by (intro bexI [of _ p]) auto
    next
      assume "\<exists>q \<in> set (missions s). mi_id q = i \<and> mi_startup_id q = st \<and> mi_date q < d
          \<and> (\<forall>q' \<in> set (missions s). mi_startup_id q' = st \<and> mi_date q' < d \<longrightarrow> mi_date q' \<le> mi_date q)"
      then obtain q where "q \<in> set (missions s)" "mi_id q = i" "mi_startup_id q = st" "mi_date q < d"
          "\<forall>q' \<in> set (missions s). mi_startup_id q' = st \<and> mi_date q' < d \<longrightarrow> mi_date q' \<le> mi_date q" by (elim bexE conjE)
      then show "\<exists>p'. prior_mission s st d = Some p' \<and> i = mi_id p'" using latest [OF Some, of q] Some by simp
    qed
  qed
  then show "set (carried_tasks s st d) = snoozed_before s st d" by (simp add: t snoozed_before_def)
  show "distinct (carried_tasks s st d)" using u(2)
    by (simp add: carried_tasks_def snoozed_tasks_def split: option.split)
  show "sorted (map mt_order (carried_tasks s st d))"
    by (simp add: carried_tasks_def snoozed_tasks_def split: option.split)
qed

text \<open>The open tasks of a roadmap, each with its milestone and phase.\<close>

definition open_tasks :: "'a roadmap_db_scheme \<Rightarrow> uid \<Rightarrow> (rtask \<times> milestone \<times> phase) set" where
  "open_tasks s r = {(t, m, p). t \<in> set (rtasks s) \<and> m \<in> set (milestones s) \<and> p \<in> set (phases s)
     \<and> rt_milestone_id t = ms_id m \<and> ms_phase_id m = ph_id p \<and> ph_roadmap_id p = r \<and> rt_status t \<noteq> RM_done}"

definition by_deadline :: "rtask \<times> milestone \<times> phase \<Rightarrow> (nat \<times> int) \<times> int \<times> int \<times> int" where
  "by_deadline x = (case x of (t, m, p) \<Rightarrow> (nulls_last (ms_due_on m), ph_order p, ms_order m, rt_order t))"

definition copy_of_open :: "rtask \<times> milestone \<times> phase \<Rightarrow> task_copy" where
  "copy_of_open x = (case x of (t, m, p) \<Rightarrow> (Some (rt_id t), rt_title t,
     Some (''From your '' @ [CHR 0x27] @ ms_title m @ [CHR 0x27] @ '' milestone.''), rt_effort t))"

definition open_sorted :: "'a roadmap_db_scheme \<Rightarrow> uid \<Rightarrow> (rtask \<times> milestone \<times> phase) list" where
  "open_sorted s r = sort_key by_deadline (task_join s r)"

lemma open_sorted_spec:
  assumes "tree_ok s"
  shows "set (open_sorted s r) = open_tasks s r" "distinct (open_sorted s r)"
    "candidate_tasks s r = map fst (open_sorted s r)"
    "x \<in> set (open_sorted s r) \<Longrightarrow> copy_of_candidate s (fst x) = copy_of_open x"
proof -
  show set: "set (open_sorted s r) = open_tasks s r"
    by (auto simp: open_sorted_def open_tasks_def task_join_def)
  show cand: "candidate_tasks s r = map fst (open_sorted s r)"
    by (simp add: candidate_tasks_def open_sorted_def by_deadline_def [abs_def])
  have "distinct (map rt_id (map fst (open_sorted s r)))" using candidates_distinct [OF assms, of r] by (simp add: cand)
  then show "distinct (open_sorted s r)" by (simp add: distinct_map)
  assume x: "x \<in> set (open_sorted s r)"
  obtain t m p where e: "x = (t, m, p)" by (cases x)
  have "m \<in> set (milestones s)" "rt_milestone_id t = ms_id m" using x unfolding set by (simp_all add: open_tasks_def e)
  moreover have "distinct (map ms_id (milestones s))" using assms by (simp add: tree_ok_def)
  ultimately show "copy_of_candidate s (fst x) = copy_of_open x"
    using find_key_unique [of ms_id "milestones s" m] by (simp add: copy_of_candidate_def copy_of_open_def e)
qed

lemma in_map_filter_links: "i \<in> set (List.map_filter mt_roadmap_task_id ts) \<longleftrightarrow> (\<exists>t \<in> set ts. mt_roadmap_task_id t = Some i)"
  by (force simp: List.map_filter_def)

lemma plan_unfold:
  assumes "tree_ok s"
  shows "plan s st r d = take (nat (mission_size_of s st)) (map copy_of_snoozed (carried_tasks s st d)
    @ map copy_of_open (filter (\<lambda>x. \<forall>c \<in> set (take (nat (mission_size_of s st)) (carried_tasks s st d)).
         mt_roadmap_task_id c \<noteq> Some (rt_id (fst x))) (open_sorted s (ro_id r))))"
proof -
  let ?Q = "\<lambda>t. \<forall>c \<in> set (take (nat (mission_size_of s st)) (carried_tasks s st d)). mt_roadmap_task_id c \<noteq> Some (rt_id t)"
  have "filter (\<lambda>t. rt_id t \<notin> set (List.map_filter mt_roadmap_task_id (take (nat (mission_size_of s st)) (carried_tasks s st d))))
      (candidate_tasks s (ro_id r)) = map fst (filter (\<lambda>x. ?Q (fst x)) (open_sorted s (ro_id r)))"
    by (simp add: open_sorted_spec(3) [OF assms] in_map_filter_links filter_map comp_def)
  moreover have "map (copy_of_candidate s) (map fst (filter (\<lambda>x. ?Q (fst x)) (open_sorted s (ro_id r))))
      = map copy_of_open (filter (\<lambda>x. ?Q (fst x)) (open_sorted s (ro_id r)))"
    unfolding map_map by (rule map_cong [OF refl]) (use open_sorted_spec(4) [OF assms] in auto)
  ultimately show ?thesis by (simp only: plan_def Let_def)
qed

lemma generated_rows:
  assumes "mission_inv s" "mission_on s st d = None" "roadmap_of s st = Some r"
  shows "\<exists>m s'. get_or_generate_today now d st s = (Some m, s') \<and> mi_status m = MiS_pending
    \<and> tasks_in s' (mi_id m) = copy_rows (mi_id m) 0 (Suc (mi_id m)) (if weekend_off s st d then [] else plan s st r d)
    \<and> get_or_generate_today now' d st s' = (Some m, s')
    \<and> rtasks s' = rtasks s \<and> milestones s' = milestones s \<and> phases s' = phases s"
proof -
  let ?m = "\<lparr>mi_id = fresh s, mi_startup_id = st, mi_date = d, mi_generated_by = ''system'', mi_status = MiS_pending\<rparr>"
  let ?rows = "copy_rows (fresh s) 0 (Suc (fresh s)) (if weekend_off s st d then [] else plan s st r d)"
  define s' where "s' = snd (get_or_generate_today now d st s)"
  note g = generated_state [OF assms(2,3), of now, unfolded Let_def]
  have e: "get_or_generate_today now d st s = (Some ?m, s')" unfolding s'_def g by simp
  have tables: "missions s' = missions s @ [?m]" "mission_tasks s' = mission_tasks s @ ?rows"
    "rtasks s' = rtasks s" "milestones s' = milestones s" "phases s' = phases s"
    unfolding s'_def g by simp_all
  have "mission_on s' st d = Some ?m" using assms(2) by (simp add: mission_on_def tables find_append)
  then have again: "get_or_generate_today now' d st s' = (Some ?m, s')" by (simp add: get_or_generate_today_def)
  have "filter (\<lambda>t. mt_mission_id t = fresh s) (mission_tasks s) = []"
    using no_tasks_of_fresh [OF assms(1)] by (simp add: filter_empty_conv)
  moreover have "filter (\<lambda>t. mt_mission_id t = fresh s) (copy_rows (fresh s) k i cs) = copy_rows (fresh s) k i cs" for k i cs
    by (induction "fresh s" k i cs rule: copy_rows.induct) (simp_all add: copy_row_def split: prod.split)
  ultimately have rows: "tasks_in s' (mi_id ?m) = ?rows" by (simp add: tasks_in_def tables)
  show ?thesis using e again rows tables by (intro exI [of _ ?m] exI [of _ s']) simp
qed

text \<open>
  C11: the mission of a day. Reading it for the first time creates it pending. On a weekend day that
  the workspace's settings leave free it is empty. On any other day its tasks are, in order and
  not more than the workspace's mission size: copies of the tasks that were snoozed in the latest mission
  before, by their order; then copies of the tasks of the roadmap that are not done and that
  were not just carried over, by the deadline of their milestone (none last), the position of their
  phase, of their milestone and their own, each with the reason that names its milestone. They are
  numbered from zero and all to be done; reading the mission again the same day changes nothing, and
  the roadmap is never written.
\<close>

theorem mission_plan:
  assumes "mission_reachable decode s" "mission_on s st d = None" "roadmap_of s st = Some r"
  shows "\<exists>m s' C F. get_or_generate_today now d st s = (Some m, s') \<and> mi_status m = MiS_pending
    \<and> map (\<lambda>t. (mt_roadmap_task_id t, mt_title t, mt_reason t, mt_effort t)) (tasks_in s' (mi_id m)) =
        (if weekend_off s st d then [] else take (nat (mission_size_of s st))
          (map (\<lambda>t. (mt_roadmap_task_id t, mt_title t, mt_reason t, mt_effort t)) C
           @ map (\<lambda>(t, mi, p). (Some (rt_id t), rt_title t,
                Some (''From your '' @ [CHR 0x27] @ ms_title mi @ [CHR 0x27] @ '' milestone.''), rt_effort t)) F))
    \<and> distinct C \<and> sorted (map mt_order C)
    \<and> set C = {t \<in> set (mission_tasks s). mt_status t = MT_snoozed
         \<and> (\<exists>q \<in> set (missions s). mi_id q = mt_mission_id t \<and> mi_startup_id q = st \<and> mi_date q < d
              \<and> (\<forall>q' \<in> set (missions s). mi_startup_id q' = st \<and> mi_date q' < d \<longrightarrow> mi_date q' \<le> mi_date q))}
    \<and> distinct F \<and> sorted (map (\<lambda>(t, mi, p). (nulls_last (ms_due_on mi), ph_order p, ms_order mi, rt_order t)) F)
    \<and> set F = {(t, mi, p). t \<in> set (rtasks s) \<and> mi \<in> set (milestones s) \<and> p \<in> set (phases s)
         \<and> rt_milestone_id t = ms_id mi \<and> ms_phase_id mi = ph_id p \<and> ph_roadmap_id p = ro_id r \<and> rt_status t \<noteq> RM_done
         \<and> (\<forall>c \<in> set (take (nat (mission_size_of s st)) C). mt_roadmap_task_id c \<noteq> Some (rt_id t))}
    \<and> map mt_order (tasks_in s' (mi_id m)) = map int [0 ..< length (tasks_in s' (mi_id m))]
    \<and> (\<forall>t \<in> set (tasks_in s' (mi_id m)). mt_status t = MT_todo)
    \<and> get_or_generate_today now' d st s' = (Some m, s')
    \<and> rtasks s' = rtasks s \<and> milestones s' = milestones s \<and> phases s' = phases s"
proof -
  have inv: "mission_inv s" by (rule mission_reachable_inv [OF assms(1)])
  then have ok: "missions_ok s" and tree: "tree_ok s" by (simp_all add: mission_inv_def roadmap_inv_def)
  let ?p = "if weekend_off s st d then [] else plan s st r d"
  let ?C = "carried_tasks s st d"
  let ?Q = "\<lambda>x. \<forall>c \<in> set (take (nat (mission_size_of s st)) ?C). mt_roadmap_task_id c \<noteq> Some (rt_id (fst x))"
  let ?F = "filter ?Q (open_sorted s (ro_id r))"
  obtain m s' where g: "get_or_generate_today now d st s = (Some m, s')" "mi_status m = MiS_pending"
    and rows: "tasks_in s' (mi_id m) = copy_rows (mi_id m) 0 (Suc (mi_id m)) ?p"
    and rest: "get_or_generate_today now' d st s' = (Some m, s')" "rtasks s' = rtasks s" "milestones s' = milestones s" "phases s' = phases s"
    using generated_rows [OF inv assms(2,3), of now now'] by blast
  have copies: "map (\<lambda>t. (mt_roadmap_task_id t, mt_title t, mt_reason t, mt_effort t)) (copy_rows j k i cs) = cs"
    "\<forall>t \<in> set (copy_rows j k i cs). mt_status t = MT_todo" for j k i cs
    by (induction j k i cs rule: copy_rows.induct) (auto simp: copy_row_def split: prod.split)
  have F: "distinct ?F" "sorted (map by_deadline ?F)" "set ?F = {x \<in> open_tasks s (ro_id r). ?Q x}"
    using open_sorted_spec(1,2) [OF tree, of "ro_id r"] by (auto simp: open_sorted_def intro!: sorted_filter)
  have p: "?p = (if weekend_off s st d then [] else take (nat (mission_size_of s st)) (map copy_of_snoozed ?C @ map copy_of_open ?F))"
    by (simp add: plan_unfold [OF tree])
  have "map mt_order (tasks_in s' (mi_id m)) = map int [0 ..< length (tasks_in s' (mi_id m))]"
    by (simp add: rows copy_rows_fields)
  moreover have "set ?F = {(t, mi, p). t \<in> set (rtasks s) \<and> mi \<in> set (milestones s) \<and> p \<in> set (phases s)
       \<and> rt_milestone_id t = ms_id mi \<and> ms_phase_id mi = ph_id p \<and> ph_roadmap_id p = ro_id r \<and> rt_status t \<noteq> RM_done
       \<and> (\<forall>c \<in> set (take (nat (mission_size_of s st)) ?C). mt_roadmap_task_id c \<noteq> Some (rt_id t))}"
    unfolding F(3) open_tasks_def by auto
  ultimately show ?thesis
    using g rows rest copies F(1,2) carried_tasks_spec [OF ok, of st d, unfolded snoozed_before_def] p
    by (intro exI [of _ m] exI [of _ s'] exI [of _ ?C] exI [of _ ?F] conjI)
      (simp_all only: copies rows by_deadline_def [abs_def] copy_of_open_def [abs_def] copy_of_snoozed_def [abs_def])
qed

section \<open>When an action completes the mission\<close>

definition mission_complete :: "'a mission_db_scheme \<Rightarrow> uid \<Rightarrow> bool" where
  "mission_complete s i \<longleftrightarrow> (\<exists>m \<in> set (missions s). mi_id m = i \<and> mi_status m = MiS_complete)"

lemma recheck_completes:
  assumes "mission_inv s" "x \<in> set (missions s)"
  shows "mission_complete (recheck_mission now today (mi_id x) s) (mi_id x) \<longleftrightarrow>
      mi_status x = MiS_complete \<or> (remaining s (mi_id x) = 0 \<and> done_count s (mi_id x) \<noteq> 0)"
    "mission_tasks (recheck_mission now today (mi_id x) s) = mission_tasks s"
proof -
  have d: "distinct (map mi_id (missions s))" using assms(1) by (simp add: mission_inv_def missions_ok_def)
  have id: "mission_by_id s (mi_id x) = Some x"
    unfolding mission_by_id_def by (rule find_key_unique [OF d assms(2)])
  have only: "y = x" if "y \<in> set (missions s)" "mi_id y = mi_id x" for y
    by (rule distinct_mapD [OF d that(1) assms(2) that(2)])
  let ?c = "completed_state now x s"
  have now_complete: "mission_complete ?c (mi_id x)"
    unfolding mission_complete_def completed_state_fields set_update_where
    using assms(2) by (intro bexI [of _ "x\<lparr>mi_status := MiS_complete\<rparr>"]) (auto simp: image_iff)
  have more: "mission_complete (publish now e p ?c) (mi_id x)" for e p
    using now_complete by (simp add: mission_complete_def)
  show "mission_complete (recheck_mission now today (mi_id x) s) (mi_id x) \<longleftrightarrow>
      mi_status x = MiS_complete \<or> (remaining s (mi_id x) = 0 \<and> done_count s (mi_id x) \<noteq> 0)"
  proof (cases "mi_status x = MiS_complete \<or> remaining s (mi_id x) \<noteq> 0 \<or> done_count s (mi_id x) = 0")
    case True
    then show ?thesis
      using id only assms(2) by (auto simp: recheck_mission_def maybe_complete_unfold mission_complete_def)
  next
    case False
    then show ?thesis
      using id now_complete more by (simp add: recheck_mission_def maybe_complete_unfold split: option.split)
  qed
  show "mission_tasks (recheck_mission now today (mi_id x) s) = mission_tasks s"
    using id by (simp add: recheck_mission_def maybe_complete_unfold split: option.split)
qed

lemma find_mission_taskD:
  "find_mission_task m i s = Inr t \<Longrightarrow> t \<in> set (mission_tasks s) \<and> mt_id t = i"
  by (auto simp: find_mission_task_def dest: find_SomeD split: option.splits)

text \<open>
  Completing or rejecting a task of a pending mission. Afterwards the mission is complete exactly
  when none of its tasks is open any more and at least one of them is done; no other task changes
  its status.
\<close>

theorem action_completes:
  assumes "mission_reachable decode s" "find_mission_task m i s = Inr t" "mt_status t \<noteq> MT_done"
    and "x \<in> set (missions s)" "mi_id x = mt_mission_id t" "mi_status x = MiS_pending"
    and "ta_action body \<in> {''complete'', ''reject''}" "patch_task now today i body u m s = (Inr (), s')"
  shows "(mission_complete s' (mi_id x) \<longleftrightarrow>
      (\<forall>a \<in> set (tasks_in s' (mi_id x)). mt_status a \<in> {MT_done, MT_rejected})
      \<and> (\<exists>a \<in> set (tasks_in s' (mi_id x)). mt_status a = MT_done))
    \<and> map (\<lambda>a. (mt_id a, mt_mission_id a, mt_status a)) (mission_tasks s') =
        map (\<lambda>a. (mt_id a, mt_mission_id a, if mt_id a = i then (if ta_action body = ''complete'' then MT_done else MT_rejected) else mt_status a))
          (mission_tasks s)"
proof -
  have inv: "mission_inv s" by (rule mission_reachable_inv [OF assms(1)])
  have t: "mt_id t = i" using find_mission_taskD [OF assms(2)] by simp
  obtain f and s1 :: "'a mission_db_scheme" where f: "f = (\<lambda>a. a\<lparr>mt_status := MT_done, mt_completed_at := Some now\<rparr>) \<and> ta_action body = ''complete''
      \<or> (\<exists>r. f = (\<lambda>a. a\<lparr>mt_status := MT_rejected, mt_reject_reason := Some r\<rparr>) \<and> ta_action body = ''reject'')"
    and s1: "mission_inv s1" "missions s1 = missions s"
      "mission_tasks s1 = update_where (\<lambda>a. mt_id a = i) f (mission_tasks s)"
    and s': "mission_tasks s' = mission_tasks (recheck_mission now today (mt_mission_id t) s1)"
      "missions s' = missions (recheck_mission now today (mt_mission_id t) s1)"
  proof (cases "ta_action body = ''complete''")
    case True
    let ?f = "\<lambda>a. a\<lparr>mt_status := MT_done, mt_completed_at := Some now\<rparr>"
    let ?s1 = "\<lambda>st. publish now ''mission.task.completed''
                [(''startup_id'', JUid (st_id st)), (''mission_id'', JUid (mt_mission_id t)),
                 (''task_id'', JUid (mt_id t))] (update_mission_task (mt_id t) ?f s)"
    obtain st where "require_startup m s = Inr st" using assms(8) by (cases "require_startup m s") (auto simp: patch_task_def)
    then have "s' = task_activity now st u ''mission.task.completed'' '' completed '' t
        (recheck_mission now today (mt_mission_id t) (?s1 st))"
      using assms(2,3,8) True by (simp add: patch_task_def complete_task_def)
    moreover have "mission_inv (?s1 st)" by (intro publish_other update_task_keeps inv) simp_all
    ultimately show thesis
      using True t by (intro that [of ?f "?s1 st"]) (simp_all add: task_activity_def update_mission_task_def)
  next
    case False
    then have rej: "ta_action body = ''reject''" using assms(7) by simp
    obtain st where st: "require_startup m s = Inr st" using assms(8) by (cases "require_startup m s") (auto simp: patch_task_def)
    obtain r where r: "ta_reject_reason body = Some r" "r \<in> set valid_reject_reasons"
      using assms(2,8) rej st by (auto simp: patch_task_def split: option.splits if_splits)
    let ?f = "\<lambda>a. a\<lparr>mt_status := MT_rejected, mt_reject_reason := Some r\<rparr>"
    have "s' = task_activity now st u ''mission.task.rejected'' '' rejected '' t
        (recheck_mission now today (mt_mission_id t) (update_mission_task (mt_id t) ?f s))"
      using assms(2,8) rej st r by (simp add: patch_task_def reject_task_def)
    moreover have "mission_inv (update_mission_task (mt_id t) ?f s)" by (intro update_task_keeps inv) simp
    ultimately show thesis
      using rej t by (intro that [of ?f "update_mission_task (mt_id t) ?f s"]) (auto simp: task_activity_def update_mission_task_def)
  qed
  have x: "x \<in> set (missions s1)" using assms(4) s1(2) by simp
  note c = recheck_completes [OF s1(1) x, of now today]
  have tasks: "tasks_in s' (mi_id x) = tasks_in s1 (mi_id x)"
    using s'(1) c(2) assms(5) by (simp add: tasks_in_def)
  have "mission_complete s' (mi_id x) \<longleftrightarrow> remaining s1 (mi_id x) = 0 \<and> done_count s1 (mi_id x) \<noteq> 0"
    using c(1) s'(2) assms(5,6) by (simp add: mission_complete_def)
  also have "\<dots> \<longleftrightarrow> (\<forall>a \<in> set (tasks_in s' (mi_id x)). mt_status a \<in> {MT_done, MT_rejected})
      \<and> (\<exists>a \<in> set (tasks_in s' (mi_id x)). mt_status a = MT_done)"
    unfolding tasks remaining_def done_count_def count_where_0_iff by blast
  moreover have "map (\<lambda>a. (mt_id a, mt_mission_id a, mt_status a)) (mission_tasks s') =
        map (\<lambda>a. (mt_id a, mt_mission_id a, if mt_id a = i then (if ta_action body = ''complete'' then MT_done else MT_rejected) else mt_status a))
          (mission_tasks s)"
    using s'(1) c(2) assms(5) s1(3) f by (auto simp: update_where_def)
  ultimately show ?thesis by blast
qed

section \<open>The streak\<close>

lemma streak_back_spec:
  "(\<forall>k < streak_back s st d. complete_on s st (d - int k)) \<and> \<not> complete_on s st (d - int (streak_back s st d))"
proof (induction s st d rule: streak_back.induct)
  case (1 s st d)
  show ?case
  proof (cases "complete_on s st d")
    case True
    have "complete_on s st (d - int k)" if "k < Suc (streak_back s st (d - 1))" for k
      using that 1 [OF True] True by (cases k) (auto simp: algebra_simps)
    then show ?thesis using 1 [OF True] True by (simp add: streak_back.simps [of s st d] algebra_simps)
  qed (simp add: streak_back.simps [of s st d])
qed

lemma streak_back_cong:
  "(\<And>x. complete_on s' st x = complete_on s st x) \<Longrightarrow> streak_back s' st d = streak_back s st d"
proof (induction s st d rule: streak_back.induct)
  case (1 s st d)
  then show ?case by (simp add: streak_back.simps [of s st d] streak_back.simps [of s' st d])
qed

lemma complete_on_generate:
  "complete_on (snd (get_or_generate_today now d st' s)) st x = complete_on s st x"
proof (cases "mission_on s st' d = None \<and> roadmap_of s st' \<noteq> None")
  case True
  then obtain r where r: "mission_on s st' d = None" "roadmap_of s st' = Some r" by blast
  have "find P (missions s @ [m]) = (if find P (missions s) = None \<and> P m then Some m else find P (missions s))" for P m
    by (simp add: find_append split: option.split)
  then show ?thesis
    unfolding complete_on_def mission_on_def generated_state [OF r] Let_def by (auto split: option.split)
qed (auto simp: get_or_generate_today_def split: option.split)

text \<open>
  C12: the streak. It ends (every day it counts has a mission of its own) and it is the length of the
  longest run of completed days that ends today, or yesterday when today's mission is not complete;
  reading today's mission never changes it.
\<close>

theorem streak_spec:
  "(let n = streak today st s; last = (if complete_on s st today then today else today - 1)
    in (\<forall>k < n. complete_on s st (last - int k)) \<and> \<not> complete_on s st (last - int n))
   \<and> streak today st (snd (get_or_generate_today now today st s)) = streak today st s"
proof -
  let ?s = "snd (get_or_generate_today now today st s)"
  have "streak_back ?s st d = streak_back s st d" for d by (rule streak_back_cong) (rule complete_on_generate)
  then show ?thesis
    using streak_back_spec [of s st] by (simp add: streak_def Let_def complete_on_generate)
qed

section \<open>What the derived figures leave out\<close>

lemma sort_key_last_first:
  assumes "\<And>x. x \<in> set xs \<Longrightarrow> f m < f x"
  shows "sort_key f (xs @ [m]) = m # sort_key f xs"
proof -
  have "foldr (insort_key f) xs [m] = m # foldr (insort_key f) xs []"
    using assms
  proof (induction xs)
    case (Cons a xs)
    then have "\<not> f a \<le> f m" by (simp add: not_le)
    then show ?case using Cons by simp
  qed simp
  then show ?thesis by (simp add: sort_key_def)
qed

definition counted :: "day \<Rightarrow> uid \<Rightarrow> 'a mission_db_scheme \<Rightarrow> mission list" where
  "counted today st s =
     filter (\<lambda>m. mi_startup_id m = st \<and> today - 6 \<le> mi_date m \<and> mi_date m \<le> today \<and> actionable s m) (missions s)"

text \<open>
  The weekly figure counts at most seven missions; it is between 0 and 100, 0 when there is
  nothing to count, and 100 exactly when every mission it counts is complete.
\<close>

theorem weekly_figure:
  assumes "mission_reachable decode s"
  shows "length (counted today st s) \<le> 7
    \<and> 0 \<le> weekly_completion_pct today st s \<and> weekly_completion_pct today st s \<le> 100
    \<and> (counted today st s = [] \<longrightarrow> weekly_completion_pct today st s = 0)
    \<and> (counted today st s \<noteq> [] \<longrightarrow>
        weekly_completion_pct today st s = 100 \<longleftrightarrow> (\<forall>m \<in> set (counted today st s). mi_status m = MiS_complete))"
proof -
  let ?w = "counted today st s" and ?c = "\<lambda>m. mi_status m = MiS_complete"
  have pct: "weekly_completion_pct today st s = (if ?w = [] then 0 else percent (count_where ?c ?w) (length ?w))"
    by (simp add: weekly_completion_pct_def counted_def weekly_window_days_def Let_def)
  have "distinct (map (\<lambda>m. (mi_startup_id m, mi_date m)) (missions s))"
    using mission_reachable_inv [OF assms] by (simp add: mission_inv_def missions_ok_def)
  then have "inj_on mi_date (set ?w)" "distinct ?w"
    by (auto simp: distinct_map inj_on_def counted_def)
  then have "length ?w = card (mi_date ` set ?w)" by (simp add: card_image distinct_card)
  also have "\<dots> \<le> card {today - 6 .. today}" by (rule card_mono) (auto simp: counted_def)
  finally have len: "length ?w \<le> 7" by simp
  show ?thesis
  proof (cases "?w = []")
    case False
    then show ?thesis
      using len pct percent_range [OF _ count_where_le, of ?w ?c] percent_100_iff [OF _ count_where_le, of ?w ?c]
        count_where_all_iff [of ?c ?w] by simp
  qed (use len pct in simp)
qed

text \<open>
  A completed mission can drop out of the weekly figure. Rejecting the only task of a completed
  mission that is not rejected yet is accepted: the mission stays complete and still counts in the
  streak, but the weekly percentage no longer counts it and the history shows it as 0 of 0.
\<close>

theorem rejected_after_complete:
  assumes "mission_reachable decode s" "find_mission_task m i s = Inr t" "require_startup m s = Inr st"
    and "x \<in> set (missions s)" "mi_id x = mt_mission_id t" "mi_status x = MiS_complete"
    and "\<forall>a \<in> set (tasks_in s (mi_id x)). mt_id a \<noteq> i \<longrightarrow> mt_status a = MT_rejected"
    and "ta_action body = ''reject''" "ta_reject_reason body = Some r" "r \<in> set valid_reject_reasons"
  shows "\<exists>s'. patch_task now today i body u m s = (Inr (), s') \<and> missions s' = missions s
    \<and> (\<forall>d. streak d (mi_startup_id x) s' = streak d (mi_startup_id x) s)
    \<and> \<not> actionable s' x \<and> weekly_completion_pct d (mi_startup_id x) s' =
         weekly_completion_pct d (mi_startup_id x) (s'\<lparr>missions := filter (\<lambda>y. y \<noteq> x) (missions s')\<rparr>)"
proof -
  have inv: "mission_inv s" by (rule mission_reachable_inv [OF assms(1)])
  have t: "mt_id t = i" using find_mission_taskD [OF assms(2)] by simp
  let ?f = "\<lambda>a. a\<lparr>mt_status := MT_rejected, mt_reject_reason := Some r\<rparr>"
  let ?s1 = "update_mission_task i ?f s"
  have d: "distinct (map mi_id (missions s))" using inv by (simp add: mission_inv_def missions_ok_def)
  have "mission_by_id ?s1 (mt_mission_id t) = Some x"
    using find_key_unique [OF d assms(4)] assms(5) by (simp add: mission_by_id_def update_mission_task_def)
  then have "reject_task now today t r s = ?s1"
    using assms(6) t by (simp add: reject_task_def recheck_mission_def maybe_complete_mission_def)
  then have e: "patch_task now today i body u m s =
      (Inr (), task_activity now st u ''mission.task.rejected'' '' rejected '' t ?s1)"
    using assms(2,3,8-10) by (simp add: patch_task_def)
  define s' where "s' = task_activity now st u ''mission.task.rejected'' '' rejected '' t ?s1"
  have tables: "missions s' = missions s" "mission_tasks s' = update_where (\<lambda>a. mt_id a = i) ?f (mission_tasks s)"
    by (simp_all add: s'_def task_activity_def update_mission_task_def)
  have none: "\<not> actionable s' x"
    using assms(7) by (auto simp: actionable_def tables set_update_where tasks_in_def split: if_splits)
  have "streak_back s' k d = streak_back s k d" for k d
    by (rule streak_back_cong) (simp add: complete_on_def mission_on_def tables)
  then have "streak d k s' = streak d k s" for d k
    by (simp add: streak_def complete_on_def mission_on_def tables)
  moreover have "weekly_completion_pct d (mi_startup_id x) s' =
      weekly_completion_pct d (mi_startup_id x) (s'\<lparr>missions := filter (\<lambda>y. y \<noteq> x) (missions s')\<rparr>)"
  proof -
    have "filter P (filter (\<lambda>y. y \<noteq> x) ms) = filter P ms" if "\<not> P x" for P ms
      using that by (induction ms) auto
    moreover have "actionable (s'\<lparr>missions := k\<rparr>) = actionable s'" for k by (simp add: fun_eq_iff actionable_def)
    ultimately show ?thesis using none by (simp add: weekly_completion_pct_def Let_def)
  qed
  ultimately show ?thesis using e none tables(1) by (auto simp: s'_def)
qed

text \<open>
  A weekend off loses what was snoozed. Reading an empty weekend mission makes it the mission
  before Monday's, so the tasks snoozed on Friday, which Monday would have carried, are not.
\<close>

theorem weekend_loses_snoozed:
  assumes "roadmap_of s st = Some r" "weekend_off s st d" "d < d'" "mission_reachable decode s"
    and "\<forall>m \<in> set (missions s). mi_startup_id m = st \<longrightarrow> mi_date m < d"
  shows "carried_tasks s st d' = carried_tasks s st d
    \<and> carried_tasks (snd (get_or_generate_today now d st s)) st d' = []"
proof
  have "filter (\<lambda>m. mi_startup_id m = st \<and> mi_date m < d') (missions s) =
      filter (\<lambda>m. mi_startup_id m = st \<and> mi_date m < d) (missions s)"
    using assms(3,5) by (intro filter_cong refl) auto
  then show "carried_tasks s st d' = carried_tasks s st d" by (simp add: carried_tasks_def prior_mission_def)
  have none: "mission_on s st d = None" using assms(5) by (auto simp: mission_on_def find_None_iff)
  let ?m = "\<lparr>mi_id = fresh s, mi_startup_id = st, mi_date = d, mi_generated_by = ''system'', mi_status = MiS_pending\<rparr>"
  define s' where "s' = snd (get_or_generate_today now d st s)"
  have tables: "missions s' = missions s @ [?m]" "mission_tasks s' = mission_tasks s"
    using assms(2) by (simp_all add: s'_def generated_state [OF none assms(1)] Let_def)
  let ?F = "filter (\<lambda>m. mi_startup_id m = st \<and> mi_date m < d') (missions s)"
  have "filter (\<lambda>m. mi_startup_id m = st \<and> mi_date m < d') (missions s') = ?F @ [?m]"
    using assms(3) by (simp add: tables)
  moreover have "sort_key (\<lambda>m. - mi_date m) (?F @ [?m]) = ?m # sort_key (\<lambda>m. - mi_date m) ?F"
  proof (rule sort_key_last_first)
    show "- mi_date ?m < - mi_date x" if "x \<in> set ?F" for x using that assms(5) by auto
  qed
  ultimately have "prior_mission s' st d' = Some ?m" by (simp add: prior_mission_def)
  moreover have "snoozed_tasks s' (fresh s) = []"
    using no_tasks_of_fresh [OF mission_reachable_inv [OF assms(4)]]
    by (auto simp: snoozed_tasks_def tables filter_empty_conv)
  ultimately show "carried_tasks (snd (get_or_generate_today now d st s)) st d' = []"
    by (simp add: carried_tasks_def s'_def)
qed

end
