(* ===== verification/Mission_Samples.thy ===== *)
theory Mission_Samples
  imports Mission_Requests
begin

text \<open>
  A short history of a workspace with two roadmap tasks, evaluated, at which the properties of the
  missions are witnessed: the mission of day 100 as generated, with one task done, finished, and
  with one task snoozed.
\<close>

definition mission_ground :: "unit mission_db_scheme" where
  "mission_ground = roadmap_db.extend (empty_roadmap_db\<lparr>fresh := 40, users := [sample_founder],
       startups := [sample_startup], memberships := [sample_member 7 MR_founder MS_active],
       roadmaps := [sample_roadmap],
       phases := [\<lparr>ph_id = 2, ph_roadmap_id = 11, ph_name = ''p'', ph_order = 0, ph_starts_on = None, ph_ends_on = None\<rparr>],
       milestones := [sample_milestone 21 110], rtasks := [sample_task 22 21, sample_task 23 21]\<rparr>)
     (mission_db.fields [] [] [])"

definition mission_call_of :: "day \<Rightarrow> mission_request \<Rightarrow> mission_call" where
  "mission_call_of d q = \<lparr>qc_credential = Some [], qc_workspace = 9, qc_now = 5, qc_today = d,
     qc_user = sample_founder, qc_request = q\<rparr>"

definition on_mission :: "string \<Rightarrow> uid \<Rightarrow> mission_request" where
  "on_mission action i = MQ_patch_task i \<lparr>ta_action = action, ta_order = None, ta_reject_reason = Some ''Already done''\<rparr>"

definition after_requests :: "mission_request list \<Rightarrow> unit mission_db_scheme" where
  "after_requests qs = foldl (\<lambda>s q. snd (serve_mission (\<lambda>_. Some (JUid 7)) (mission_call_of 100 q) s)) mission_ground qs"

lemmas ground_simps = mission_ground_def mission_db.defs slipped_simps sample_startup_def sample_founder_def sample_member_def

lemma ground_inv: "roadmap_inv mission_ground"
  by (simp add: roadmap_inv_def tree_ok_def progress_ok_def edges_inside_def dep_rel_def ground_simps acyclic_def
      milestone_progress_def tasks_of_def percent_def)

lemma after_requests_reachable: "mission_reachable (\<lambda>_. Some (JUid 7)) (after_requests qs)"
proof (induction qs rule: rev_induct)
  case Nil
  show ?case unfolding after_requests_def foldl_Nil
    by (rule mission_reachable.start [OF ground_inv]) (simp_all add: ground_simps)
next
  case (snoc q qs)
  then show ?case by (simp add: after_requests_def mission_reachable.request)
qed

lemma serve_mission_eval:
  assumes "users s = [sample_founder]" "memberships s = [sample_member 7 MR_founder MS_active]"
  shows "snd (serve_mission (\<lambda>_. Some (JUid 7)) (mission_call_of d q) s) =
     snd (run_tx (mission_body 5 d sample_founder q (sample_member 7 MR_founder MS_active)) s)"
  using assms by (simp add: serve_mission_def mission_call_of_def workspace_request_def workspace_guard_def
      get_current_user_def resolve_workspace_def require_role_def mission_roles_def editors_def
      get_verified_user_def sample_founder_def sample_member_def)

lemma ground_fields:
  "users mission_ground = [sample_founder]" "memberships mission_ground = [sample_member 7 MR_founder MS_active]"
  "startups mission_ground = [sample_startup]" "roadmaps mission_ground = [sample_roadmap]"
  "missions mission_ground = []" "mission_tasks mission_ground = []" "mission_settings mission_ground = []"
  "fresh mission_ground = 40" "rtasks mission_ground = [sample_task 22 21, sample_task 23 21]"
  "milestones mission_ground = [sample_milestone 21 110]"
  by (simp_all add: ground_simps)

lemma ground_candidates: "candidate_tasks mission_ground 11 = [sample_task 22 21, sample_task 23 21]"
  by (simp add: candidate_tasks_def task_join_def ground_fields ground_simps less_eq_prod_def nulls_last_def)

definition first_mission :: mission where
  "first_mission = \<lparr>mi_id = 40, mi_startup_id = 9, mi_date = 100, mi_generated_by = ''system'', mi_status = MiS_pending\<rparr>"

lemma ground_plan:
  "map fst (plan mission_ground 9 sample_roadmap 100) = [Some 22, Some 23]"
  "mission_on mission_ground 9 100 = None" "roadmap_of mission_ground 9 = Some sample_roadmap"
  "\<not> weekend_off mission_ground 9 100"
  by (simp_all add: plan_def mission_size_of_def settings_of_def ground_fields default_mission_size_def
      carried_tasks_def prior_mission_def ground_candidates sample_roadmap_def List.map_filter_simps
      copy_of_candidate_def sample_task_def mission_on_def roadmap_of_def weekend_off_def is_weekend_def weekday_def)


definition copied :: "uid \<Rightarrow> task_copy" where
  "copied i = (Some i, ''t'', Some (''From your '' @ [CHR 0x27] @ ''m'' @ [CHR 0x27] @ '' milestone.''), TE_medium)"

lemma ground_plan_value: "plan mission_ground 9 sample_roadmap 100 = [copied 22, copied 23]"
  by (simp add: plan_def mission_size_of_def settings_of_def ground_fields default_mission_size_def
      carried_tasks_def prior_mission_def ground_candidates sample_roadmap_def List.map_filter_simps
      copy_of_candidate_def sample_task_def sample_milestone_def copied_def)

lemma write_activity_core [simp]:
  "users (write_activity now st a m ac ety eid meta s) = users s"
  "memberships (write_activity now st a m ac ety eid meta s) = memberships s"
  "startups (write_activity now st a m ac ety eid meta s) = startups s"
  "roadmaps (write_activity now st a m ac ety eid meta s) = roadmaps s"
  by (simp_all add: write_activity_def fresh_id_def Let_def)

lemma day_1:
  "missions (after_requests [MQ_today]) = [first_mission]"
  "mission_tasks (after_requests [MQ_today]) = [copy_row 40 0 41 (copied 22), copy_row 40 1 42 (copied 23)]"
  "users (after_requests [MQ_today]) = [sample_founder]"
  "memberships (after_requests [MQ_today]) = [sample_member 7 MR_founder MS_active]"
  "startups (after_requests [MQ_today]) = [sample_startup]"
  "roadmaps (after_requests [MQ_today]) = [sample_roadmap]" "mission_settings (after_requests [MQ_today]) = []"
  by (simp_all add: after_requests_def serve_mission_eval ground_fields run_tx_def forget_def done_ok_def get_today_def
      require_startup_def startup_by_id_def sample_member_def sample_startup_def case_prod_unfold Let_def
      generated_state [OF ground_plan(2,3)] ground_plan(4) ground_plan_value first_mission_def
      enqueue_mission_reason_def enqueue_def fresh_id_def)

lemma after_snoc:
  "after_requests (qs @ [q]) = snd (serve_mission (\<lambda>_. Some (JUid 7)) (mission_call_of 100 q) (after_requests qs))"
  by (simp add: after_requests_def)

lemmas action_simps = serve_mission_eval run_tx_def on_mission_def patch_task_def require_startup_def
  startup_by_id_def sample_startup_def sample_member_def find_mission_task_def first_mission_def copy_row_def copied_def
  complete_task_def reject_task_def snooze_task_def recheck_mission_def mission_by_id_def maybe_complete_mission_def
  update_mission_task_def remaining_def done_count_def tasks_in_def task_activity_def valid_reject_reasons_def

definition in_progress :: "unit mission_db_scheme" where
  "in_progress = after_requests ([MQ_today] @ [on_mission ''complete'' 41])"

definition finished :: "unit mission_db_scheme" where
  "finished = after_requests (([MQ_today] @ [on_mission ''complete'' 41]) @ [on_mission ''reject'' 42])"

definition postponed :: "unit mission_db_scheme" where
  "postponed = after_requests ([MQ_today] @ [on_mission ''snooze'' 41])"

lemma in_progress_fields:
  "missions in_progress = [first_mission]"
  "\<exists>t u. mission_tasks in_progress = [t, u] \<and> map (\<lambda>t. (mt_id t, mt_mission_id t, mt_status t)) [t, u] = [(41, 40, MT_done), (42, 40, MT_todo)]"
  "users in_progress = [sample_founder]" "memberships in_progress = [sample_member 7 MR_founder MS_active]"
  "startups in_progress = [sample_startup]"
  unfolding in_progress_def after_snoc by (simp_all add: day_1 action_simps)

lemma finished_fields:
  "missions finished = [first_mission\<lparr>mi_status := MiS_complete\<rparr>]"
  "\<exists>t u. mission_tasks finished = [t, u] \<and> map (\<lambda>t. (mt_id t, mt_mission_id t, mt_status t)) [t, u] = [(41, 40, MT_done), (42, 40, MT_rejected)]"
  "startups finished = [sample_startup]"
proof -
  obtain t u where t: "mission_tasks in_progress = [t, u]" "mt_id t = 41" "mt_mission_id t = 40" "mt_status t = MT_done"
    "mt_id u = 42" "mt_mission_id u = 40" "mt_status u = MT_todo"
    using in_progress_fields(2) by auto
  show "missions finished = [first_mission\<lparr>mi_status := MiS_complete\<rparr>]"
    "\<exists>t u. mission_tasks finished = [t, u] \<and> map (\<lambda>t. (mt_id t, mt_mission_id t, mt_status t)) [t, u] = [(41, 40, MT_done), (42, 40, MT_rejected)]"
    "startups finished = [sample_startup]"
    unfolding finished_def after_snoc [of "[MQ_today] @ _"] in_progress_def [symmetric]
    by (simp_all add: in_progress_fields(1,3-5) t action_simps Let_def update_mission_def)
qed

lemma postponed_fields:
  "missions postponed = [first_mission]"
  "\<exists>t u. mission_tasks postponed = [t, u] \<and> map (\<lambda>t. (mt_id t, mt_mission_id t, mt_status t)) [t, u] = [(41, 40, MT_snoozed), (42, 40, MT_todo)]"
  "roadmaps postponed = [sample_roadmap]" "mission_settings postponed = []"
  unfolding postponed_def after_snoc by (simp_all add: day_1 action_simps)

theorem mission_histories_witness:
  "completions (events finished) 40 = 1 \<and> completions (events in_progress) 40 = 0"
proof -
  have "mission_reachable (\<lambda>_. Some (JUid 7)) finished" "mission_reachable (\<lambda>_. Some (JUid 7)) in_progress"
    unfolding finished_def in_progress_def by (rule after_requests_reachable)+
  from mission_histories [OF this(1)] mission_histories [OF this(2)] show ?thesis
    by (simp add: finished_fields(1) in_progress_fields(1) first_mission_def)
qed

lemma open_pair:
  "P a x q \<Longrightarrow> P b x q \<Longrightarrow>
   {(t, m, p). t \<in> set [a, b] \<and> m \<in> set [x] \<and> p \<in> set [q] \<and> P t m p} = {(a, x, hd [q]), (b, x, hd [q])}"
  by auto

theorem mission_plan_witness:
  "\<exists>m s'. get_or_generate_today 5 100 9 mission_ground = (Some m, s')
    \<and> mt_roadmap_task_id ` set (tasks_in s' (mi_id m)) = {Some 22, Some 23}
    \<and> get_or_generate_today 6 100 9 s' = (Some m, s')"
proof -
  have r: "mission_reachable (\<lambda>_. Some (JUid 7)) mission_ground"
    using after_requests_reachable [of "[]"] by (simp add: after_requests_def)
  have size: "mission_size_of mission_ground 9 = 3"
    by (simp add: mission_size_of_def settings_of_def ground_fields default_mission_size_def)
  have phase: "phases mission_ground = [\<lparr>ph_id = 2, ph_roadmap_id = 11, ph_name = ''p'', ph_order = 0, ph_starts_on = None, ph_ends_on = None\<rparr>]"
    by (simp add: ground_simps)
  note ground = size phase ground_plan(4) ground_fields(5,6,9,10)
  have "\<exists>m s' (C :: mission_task list) F. get_or_generate_today 5 100 9 mission_ground = (Some m, s')
    \<and> map (\<lambda>t. (mt_roadmap_task_id t, mt_title t, mt_reason t, mt_effort t)) (tasks_in s' (mi_id m)) =
        take 3 (map (\<lambda>t. (mt_roadmap_task_id t, mt_title t, mt_reason t, mt_effort t)) C
           @ map (\<lambda>(t, mi, p). (Some (rt_id t), rt_title t,
                Some (''From your '' @ [CHR 0x27] @ ms_title mi @ [CHR 0x27] @ '' milestone.''), rt_effort t)) F)
    \<and> set C = {} \<and> distinct F
    \<and> set F = {(sample_task 22 21, sample_milestone 21 110, hd (phases mission_ground)),
               (sample_task 23 21, sample_milestone 21 110, hd (phases mission_ground))}
    \<and> get_or_generate_today 6 100 9 s' = (Some m, s')"
    using mission_plan [OF r ground_plan(2,3), of 5 6] unfolding ground
    apply (elim exE conjE)
    subgoal for m s' C F
      apply (rule exI [of _ m], rule exI [of _ s'], rule exI [of _ C], rule exI [of _ F], intro conjI)
           apply assumption
          apply (simp add: ground_plan(4))
         apply simp
        apply assumption
       apply (rule trans [OF _ open_pair], assumption)
        apply (simp_all add: sample_roadmap_def sample_task_def sample_milestone_def)
      done
    done
  then obtain m s' and C :: "mission_task list" and F where g: "get_or_generate_today 5 100 9 mission_ground = (Some m, s')"
    and rows: "map (\<lambda>t. (mt_roadmap_task_id t, mt_title t, mt_reason t, mt_effort t)) (tasks_in s' (mi_id m)) =
        take 3 (map (\<lambda>t. (mt_roadmap_task_id t, mt_title t, mt_reason t, mt_effort t)) C
           @ map (\<lambda>(t, mi, p). (Some (rt_id t), rt_title t,
                Some (''From your '' @ [CHR 0x27] @ ms_title mi @ [CHR 0x27] @ '' milestone.''), rt_effort t)) F)"
    and C: "set C = {}" and F: "distinct F"
      "set F = {(sample_task 22 21, sample_milestone 21 110, hd (phases mission_ground)),
               (sample_task 23 21, sample_milestone 21 110, hd (phases mission_ground))}"
    and again: "get_or_generate_today 6 100 9 s' = (Some m, s')"
    by (elim exE conjE) (rule that; assumption)
  have "length F = 2" using distinct_card [OF F(1)] F(2) by (simp add: sample_task_def)
  then have "map (\<lambda>t. (mt_roadmap_task_id t, mt_title t, mt_reason t, mt_effort t)) (tasks_in s' (mi_id m)) =
      map (\<lambda>(t, mi, p). (Some (rt_id t), rt_title t,
                Some (''From your '' @ [CHR 0x27] @ ms_title mi @ [CHR 0x27] @ '' milestone.''), rt_effort t)) F"
    using rows C by simp
  from arg_cong [OF this, of "\<lambda>xs. fst ` set xs"]
  have "mt_roadmap_task_id ` set (tasks_in s' (mi_id m)) = (\<lambda>(t, mi, p). Some (rt_id t)) ` set F"
    by (simp add: image_image case_prod_unfold)
  then have "mt_roadmap_task_id ` set (tasks_in s' (mi_id m)) = {Some 22, Some 23}" by (simp add: F(2) sample_task_def)
  with g again show ?thesis by blast
qed

theorem action_completes_witness:
  "\<exists>s'. patch_task 6 100 42 \<lparr>ta_action = ''complete'', ta_order = None, ta_reject_reason = None\<rparr> sample_founder
       (sample_member 7 MR_founder MS_active) in_progress = (Inr (), s') \<and> mission_complete s' 40"
proof -
  let ?m = "sample_member 7 MR_founder MS_active"
  let ?b = "\<lparr>ta_action = ''complete'', ta_order = None, ta_reject_reason = None\<rparr>"
  obtain t u where t: "mission_tasks in_progress = [t, u]" "mt_id t = 41" "mt_mission_id t = 40" "mt_status t = MT_done"
    "mt_id u = 42" "mt_mission_id u = 40" "mt_status u = MT_todo"
    using in_progress_fields(2) by auto
  have r: "mission_reachable (\<lambda>_. Some (JUid 7)) in_progress" unfolding in_progress_def by (rule after_requests_reachable)
  have f: "find_mission_task ?m 42 in_progress = Inr u"
    by (simp add: find_mission_task_def t in_progress_fields(1) first_mission_def sample_member_def)
  have "require_startup ?m in_progress = Inr sample_startup"
    by (simp add: require_startup_def startup_by_id_def in_progress_fields(5) sample_startup_def sample_member_def)
  then obtain s' where e: "patch_task 6 100 42 ?b sample_founder ?m in_progress = (Inr (), s')"
    by (simp add: patch_task_def f)
  have "mt_status u \<noteq> MT_done" "first_mission \<in> set (missions in_progress)" "mi_id first_mission = mt_mission_id u"
    "mi_status first_mission = MiS_pending" "ta_action ?b \<in> {''complete'', ''reject''}"
    by (simp_all add: t in_progress_fields(1) first_mission_def)
  note c = action_completes [OF r f this e]
  then have "map (\<lambda>a. (mt_id a, mt_mission_id a, mt_status a)) (mission_tasks s') = [(41, 40, MT_done), (42, 40, MT_done)]"
    by (simp add: t)
  then obtain a b where "mission_tasks s' = [a, b]" "mt_mission_id a = 40" "mt_mission_id b = 40"
    "mt_status a = MT_done" "mt_status b = MT_done" by (auto simp: map_eq_Cons_conv)
  then have "mission_complete s' 40" using c by (simp add: tasks_in_def first_mission_def)
  with e show ?thesis by blast
qed

theorem rejected_after_complete_witness:
  "\<exists>s'. patch_task 6 100 41 \<lparr>ta_action = ''reject'', ta_order = None, ta_reject_reason = Some ''Already done''\<rparr>
       sample_founder (sample_member 7 MR_founder MS_active) finished = (Inr (), s')
     \<and> missions s' = missions finished \<and> mission_complete finished 40
     \<and> \<not> actionable s' (first_mission\<lparr>mi_status := MiS_complete\<rparr>)"
proof -
  let ?m = "sample_member 7 MR_founder MS_active" and ?x = "first_mission\<lparr>mi_status := MiS_complete\<rparr>"
  let ?b = "\<lparr>ta_action = ''reject'', ta_order = None, ta_reject_reason = Some ''Already done''\<rparr>"
  obtain t u where t: "mission_tasks finished = [t, u]" "mt_id t = 41" "mt_mission_id t = 40" "mt_status t = MT_done"
    "mt_id u = 42" "mt_mission_id u = 40" "mt_status u = MT_rejected"
    using finished_fields(2) by auto
  have r: "mission_reachable (\<lambda>_. Some (JUid 7)) finished" unfolding finished_def by (rule after_requests_reachable)
  have f: "find_mission_task ?m 41 finished = Inr t"
    by (simp add: find_mission_task_def t finished_fields(1) first_mission_def sample_member_def)
  have st: "require_startup ?m finished = Inr sample_startup"
    by (simp add: require_startup_def startup_by_id_def finished_fields(3) sample_startup_def sample_member_def)
  have "?x \<in> set (missions finished)" "mi_id ?x = mt_mission_id t" "mi_status ?x = MiS_complete"
    "\<forall>a \<in> set (tasks_in finished (mi_id ?x)). mt_id a \<noteq> 41 \<longrightarrow> mt_status a = MT_rejected"
    "ta_action ?b = ''reject''" "ta_reject_reason ?b = Some ''Already done''" "''Already done'' \<in> set valid_reject_reasons"
    by (simp_all add: finished_fields(1) first_mission_def t tasks_in_def valid_reject_reasons_def)
  from rejected_after_complete [OF r f st this, where now = 6 and today = 100 and u = sample_founder]
  obtain s' where "patch_task 6 100 41 ?b sample_founder ?m finished = (Inr (), s')" "missions s' = missions finished"
    "\<not> actionable s' ?x" by blast
  moreover have "mission_complete finished 40" by (simp add: mission_complete_def finished_fields(1) first_mission_def)
  ultimately show ?thesis by blast
qed

theorem weekend_loses_snoozed_witness:
  "carried_tasks postponed 9 106 \<noteq> []
   \<and> carried_tasks (snd (get_or_generate_today 6 104 9 postponed)) 9 106 = []"
proof -
  have r: "mission_reachable (\<lambda>_. Some (JUid 7)) postponed" unfolding postponed_def by (rule after_requests_reachable)
  have "roadmap_of postponed 9 = Some sample_roadmap" "weekend_off postponed 9 104"
    by (simp_all add: roadmap_of_def postponed_fields sample_roadmap_def weekend_off_def settings_of_def is_weekend_def weekday_def)
  then have w: "carried_tasks postponed 9 106 = carried_tasks postponed 9 104"
    "carried_tasks (snd (get_or_generate_today 6 104 9 postponed)) 9 106 = []"
    using weekend_loses_snoozed [OF _ _ _ r, of 9 sample_roadmap 104 106 6] by (simp_all add: postponed_fields first_mission_def)
  obtain t u where t: "mission_tasks postponed = [t, u]" "mt_mission_id t = 40" "mt_status t = MT_snoozed"
    using postponed_fields(2) by auto
  have "t \<in> set (carried_tasks postponed 9 104)"
    by (simp add: carried_tasks_def prior_mission_def postponed_fields first_mission_def snoozed_tasks_def t)
  then show ?thesis using w by (auto simp del: set_empty)
qed

theorem weekly_figure_witness:
  "length (counted 100 9 finished) = 1 \<and> weekly_completion_pct 100 9 finished = 100"
proof -
  have r: "mission_reachable (\<lambda>_. Some (JUid 7)) finished" unfolding finished_def by (rule after_requests_reachable)
  obtain t u where t: "mission_tasks finished = [t, u]" "mt_mission_id t = 40" "mt_status t = MT_done"
    using finished_fields(2) by auto
  have "counted 100 9 finished = [first_mission\<lparr>mi_status := MiS_complete\<rparr>]"
    by (simp add: counted_def finished_fields(1) first_mission_def actionable_def t)
  then show ?thesis using weekly_figure [OF r, of 100 9] by simp
qed


theorem streak_spec_witness: "streak 100 9 finished = 1"
proof -
  have c: "complete_on finished 9 d \<longleftrightarrow> d = 100" for d
    by (simp add: complete_on_def mission_on_def finished_fields(1) first_mission_def)
  from streak_spec [of 100 9 finished 5]
  have n: "\<forall>k < streak 100 9 finished. (100::int) - int k = 100" "(100::int) - int (streak 100 9 finished) \<noteq> 100"
    by (simp_all add: Let_def c)
  then have "streak 100 9 finished \<noteq> 0" "\<not> 1 < streak 100 9 finished" by (fastforce, auto)
  then show ?thesis by linarith
qed

end
