(* ===== verification/Journal.thy ===== *)
theory Journal
  imports Member_Requests Py_Text Keyed_Store
begin

text \<open>
  The founder's journal (\<^verbatim>\<open>app/services/journal\<close>, \<^verbatim>\<open>app/api/v1/endpoints/journal.py\<close>,
  \<^verbatim>\<open>app/schemas/journal.py\<close>): one encrypted entry per founder, workspace and day, and the mood log
  that mirrors it. The content is encrypted with Fernet, which is a parameter.
\<close>

record journal_entry =
  je_id :: uid
  je_startup_id :: uid
  je_founder_id :: uid
  je_date :: day
  je_content_encrypted :: string
  je_mood :: int
  je_stress :: int
  je_created_at :: instant
  je_updated_at :: instant

record mood_log =
  ml_id :: uid
  ml_startup_id :: uid
  ml_founder_id :: uid
  ml_date :: day
  ml_mood :: int
  ml_stress :: int
  ml_created_at :: instant
  ml_updated_at :: instant

record journal_db = notif_db +
  journal_entries :: "journal_entry list"
  mood_logs :: "mood_log list"

record journal_entry_create =
  jc_date :: day
  jc_content :: string
  jc_mood :: journal_mood
  jc_stress :: int

text \<open>A field that is unset is \<^const>\<open>None\<close>, one that is sent as \<^verbatim>\<open>null\<close> is \<open>Some None\<close>.\<close>

record journal_entry_update =
  ju_content :: "string option option"
  ju_mood :: "journal_mood option option"
  ju_stress :: "int option option"

section \<open>Encryption\<close>

text \<open>
  \<open>fk_key\<close> is \<^verbatim>\<open>settings.JOURNAL_ENCRYPTION_KEY\<close>. Of the Fernet package: \<open>fk_valid\<close> says whether
  \<^verbatim>\<open>Fernet(key)\<close> accepts a key, \<open>fk_encrypt\<close> makes the token of a text (with the random bits and
  the time of the call), \<open>fk_decrypt\<close> answers \<^const>\<open>None\<close> for \<^verbatim>\<open>InvalidToken\<close>.
\<close>

record fernet =
  fk_key :: string
  fk_valid :: "string \<Rightarrow> bool"
  fk_encrypt :: "string \<Rightarrow> nat \<Rightarrow> string \<Rightarrow> string"
  fk_decrypt :: "string \<Rightarrow> string \<Rightarrow> string option"

definition get_fernet :: "fernet \<Rightarrow> string result" where
  "get_fernet fk =
     (if fk_key fk = [] then Inl JournalNotConfigured
      else if \<not> fk_valid fk (fk_key fk) then Inl JournalNotConfigured
      else Inr (fk_key fk))"

definition encrypt_content :: "fernet \<Rightarrow> nat \<Rightarrow> string \<Rightarrow> string result" where
  "encrypt_content fk rnd content =
     (case get_fernet fk of Inl e \<Rightarrow> Inl e | Inr key \<Rightarrow> Inr (fk_encrypt fk key rnd content))"

definition decrypt_content :: "fernet \<Rightarrow> string \<Rightarrow> string result" where
  "decrypt_content fk content_encrypted =
     (case get_fernet fk of
        Inl e \<Rightarrow> Inl e
      | Inr key \<Rightarrow>
          (case fk_decrypt fk key content_encrypted of
             None \<Rightarrow> Inl JournalContentUnreadable
           | Some content \<Rightarrow> Inr content))"

section \<open>Access and moods\<close>

definition check_founder_access :: "'a core_db_scheme \<Rightarrow> uid \<Rightarrow> uid \<Rightarrow> unit result" where
  "check_founder_access s user_id startup_id =
     (case find (\<lambda>m. m_user_id m = user_id \<and> m_startup_id m = startup_id \<and> m_status m = MS_active
                     \<and> m_role m = MR_founder) (memberships s) of
        None \<Rightarrow> Inl Forbidden
      | Some _ \<Rightarrow> Inr ())"

fun mood_to_score :: "journal_mood \<Rightarrow> int" where
  "mood_to_score JM_rough = 1"
| "mood_to_score JM_meh = 2"
| "mood_to_score JM_okay = 3"
| "mood_to_score JM_good = 4"
| "mood_to_score JM_great = 5"

definition score_to_mood :: "int \<Rightarrow> journal_mood result" where
  "score_to_mood score =
     (case map_of [(1, JM_rough), (2, JM_meh), (3, JM_okay), (4, JM_good), (5, JM_great)] score of
        None \<Rightarrow> Inl (Uncaught ''ValueError'')
      | Some mood \<Rightarrow> Inr mood)"

lemma score_round_trip [simp]: "score_to_mood (mood_to_score m) = Inr m"
  by (cases m) (simp_all add: score_to_mood_def)

lemma score_to_mood_ok: "score_to_mood n = Inr m \<longleftrightarrow> n = mood_to_score m"
  by (cases m) (auto simp: score_to_mood_def split: if_splits option.splits)

section \<open>Lookups and the mood log\<close>

definition entry_key :: "journal_entry \<Rightarrow> uid \<times> uid \<times> day" where
  "entry_key e = (je_startup_id e, je_founder_id e, je_date e)"

definition log_key :: "mood_log \<Rightarrow> uid \<times> uid \<times> day" where
  "log_key l = (ml_startup_id l, ml_founder_id l, ml_date l)"

text \<open>The rows a founder owns in a workspace.\<close>

definition own_entries :: "'a journal_db_scheme \<Rightarrow> uid \<Rightarrow> uid \<Rightarrow> journal_entry list" where
  "own_entries s st f = filter (\<lambda>e. je_startup_id e = st \<and> je_founder_id e = f) (journal_entries s)"

definition own_logs :: "'a journal_db_scheme \<Rightarrow> uid \<Rightarrow> uid \<Rightarrow> mood_log list" where
  "own_logs s st f = filter (\<lambda>l. ml_startup_id l = st \<and> ml_founder_id l = f) (mood_logs s)"

definition find_entry :: "'a journal_db_scheme \<Rightarrow> uid \<Rightarrow> uid \<Rightarrow> uid \<Rightarrow> journal_entry result" where
  "find_entry s entry_id startup_id founder_id =
     (case find (\<lambda>e. je_id e = entry_id \<and> je_startup_id e = startup_id \<and> je_founder_id e = founder_id)
             (journal_entries s) of
        None \<Rightarrow> Inl NotFound
      | Some e \<Rightarrow> Inr e)"

definition entry_by_date :: "'a journal_db_scheme \<Rightarrow> uid \<Rightarrow> uid \<Rightarrow> day \<Rightarrow> journal_entry option" where
  "entry_by_date s startup_id founder_id entry_date =
     find (\<lambda>e. je_startup_id e = startup_id \<and> je_founder_id e = founder_id \<and> je_date e = entry_date)
       (journal_entries s)"

definition put_log :: "instant \<Rightarrow> uid \<Rightarrow> uid \<times> uid \<times> day \<Rightarrow> int \<times> int \<Rightarrow> mood_log list \<Rightarrow> mood_log list" where
  "put_log now i k v t =
     upsert_where (\<lambda>l. log_key l = k) (\<lambda>l. l\<lparr>ml_mood := fst v, ml_stress := snd v, ml_updated_at := now\<rparr>)
       \<lparr>ml_id = i, ml_startup_id = fst k, ml_founder_id = fst (snd k), ml_date = snd (snd k),
        ml_mood = fst v, ml_stress = snd v, ml_created_at = now, ml_updated_at = now\<rparr> t"

definition upsert_mood_log ::
    "instant \<Rightarrow> uid \<Rightarrow> uid \<Rightarrow> day \<Rightarrow> journal_mood \<Rightarrow> int \<Rightarrow> 'a journal_db_scheme \<Rightarrow> 'a journal_db_scheme" where
  "upsert_mood_log now startup_id founder_id entry_date mood stress s =
     s\<lparr>fresh := Suc (fresh s),
       mood_logs := put_log now (fresh s) (startup_id, founder_id, entry_date) (mood_to_score mood, stress) (mood_logs s)\<rparr>"

section \<open>Create, read, update and delete\<close>

definition put_entry ::
    "instant \<Rightarrow> uid \<Rightarrow> uid \<times> uid \<times> day \<Rightarrow> string \<times> int \<times> int \<Rightarrow> journal_entry list \<Rightarrow> journal_entry list" where
  "put_entry now i k v t =
     upsert_where (\<lambda>e. entry_key e = k)
       (\<lambda>e. e\<lparr>je_content_encrypted := fst v, je_mood := fst (snd v), je_stress := snd (snd v), je_updated_at := now\<rparr>)
       \<lparr>je_id = i, je_startup_id = fst k, je_founder_id = fst (snd k), je_date = snd (snd k),
        je_content_encrypted = fst v, je_mood = fst (snd v), je_stress = snd (snd v),
        je_created_at = now, je_updated_at = now\<rparr> t"

definition create_entry ::
    "fernet \<Rightarrow> nat \<Rightarrow> instant \<Rightarrow> uid \<Rightarrow> uid \<Rightarrow> journal_entry_create \<Rightarrow> 'a journal_db_scheme
     \<Rightarrow> journal_entry result \<times> 'a journal_db_scheme" where
  "create_entry fk rnd now user_id startup_id data s =
     (case check_founder_access s user_id startup_id of
        Inl e \<Rightarrow> (Inl e, s)
      | Inr _ \<Rightarrow>
          (case encrypt_content fk rnd (jc_content data) of
             Inl e \<Rightarrow> (Inl e, s)
           | Inr token \<Rightarrow>
               let k = (startup_id, user_id, jc_date data);
                   s1 = s\<lparr>fresh := Suc (fresh s),
                          journal_entries := put_entry now (fresh s) k
                            (token, mood_to_score (jc_mood data), jc_stress data) (journal_entries s)\<rparr>;
                   s2 = upsert_mood_log now startup_id user_id (jc_date data) (jc_mood data) (jc_stress data) s1
               in (case entry_by_date s1 startup_id user_id (jc_date data) of
                     None \<Rightarrow> (Inl (Uncaught ''NoResultFound''), s1)
                   | Some entry \<Rightarrow> (Inr entry, s2))))"

definition get_entry :: "uid \<Rightarrow> uid \<Rightarrow> uid \<Rightarrow> 'a journal_db_scheme \<Rightarrow> journal_entry result" where
  "get_entry user_id startup_id entry_id s =
     (case check_founder_access s user_id startup_id of
        Inl e \<Rightarrow> Inl e
      | Inr _ \<Rightarrow> find_entry s entry_id startup_id user_id)"

definition get_entry_content :: "fernet \<Rightarrow> journal_entry \<Rightarrow> string result" where
  "get_entry_content fk entry = decrypt_content fk (je_content_encrypted entry)"

text \<open>
  The three fields in the order of the code, each refused when it is \<^verbatim>\<open>null\<close>. The refusal of a
  \<^verbatim>\<open>null\<close> stress names the field \<^verbatim>\<open>content\<close>, as the code does.
\<close>

definition set_content :: "fernet \<Rightarrow> nat \<Rightarrow> string option option \<Rightarrow> journal_entry \<Rightarrow> journal_entry result" where
  "set_content fk rnd field entry =
     (case field of
        None \<Rightarrow> Inr entry
      | Some None \<Rightarrow> Inl (validation_error [''content''])
      | Some (Some content) \<Rightarrow>
          (case encrypt_content fk rnd content of
             Inl e \<Rightarrow> Inl e
           | Inr token \<Rightarrow> Inr (entry\<lparr>je_content_encrypted := token\<rparr>)))"

definition set_mood :: "journal_mood option option \<Rightarrow> journal_entry \<Rightarrow> journal_entry result" where
  "set_mood field entry =
     (case field of
        None \<Rightarrow> Inr entry
      | Some None \<Rightarrow> Inl (validation_error [''mood''])
      | Some (Some mood) \<Rightarrow> Inr (entry\<lparr>je_mood := mood_to_score mood\<rparr>))"

definition set_stress :: "int option option \<Rightarrow> journal_entry \<Rightarrow> journal_entry result" where
  "set_stress field entry =
     (case field of
        None \<Rightarrow> Inr entry
      | Some None \<Rightarrow> Inl (validation_error [''content''])
      | Some (Some stress) \<Rightarrow> Inr (entry\<lparr>je_stress := stress\<rparr>))"

definition edited :: "fernet \<Rightarrow> nat \<Rightarrow> journal_entry_update \<Rightarrow> journal_entry \<Rightarrow> journal_entry result" where
  "edited fk rnd data entry =
     (case set_content fk rnd (ju_content data) entry of
        Inl e \<Rightarrow> Inl e
      | Inr e1 \<Rightarrow>
          (case set_mood (ju_mood data) e1 of
             Inl e \<Rightarrow> Inl e
           | Inr e2 \<Rightarrow> set_stress (ju_stress data) e2))"

text \<open>The row is written when a column changed.\<close>

definition save_entry :: "instant \<Rightarrow> journal_entry \<Rightarrow> journal_entry \<Rightarrow> 'a journal_db_scheme \<Rightarrow> 'a journal_db_scheme" where
  "save_entry now old new s =
     (if new = old then s
      else s\<lparr>journal_entries :=
             update_where (\<lambda>e. je_id e = je_id old) (\<lambda>_. new\<lparr>je_updated_at := now\<rparr>) (journal_entries s)\<rparr>)"

definition saved_entry :: "instant \<Rightarrow> journal_entry \<Rightarrow> journal_entry \<Rightarrow> journal_entry" where
  "saved_entry now old new = (if new = old then old else new\<lparr>je_updated_at := now\<rparr>)"

definition update_entry ::
    "fernet \<Rightarrow> nat \<Rightarrow> instant \<Rightarrow> uid \<Rightarrow> uid \<Rightarrow> uid \<Rightarrow> journal_entry_update \<Rightarrow> 'a journal_db_scheme
     \<Rightarrow> journal_entry result \<times> 'a journal_db_scheme" where
  "update_entry fk rnd now user_id startup_id entry_id data s =
     (case check_founder_access s user_id startup_id of
        Inl e \<Rightarrow> (Inl e, s)
      | Inr _ \<Rightarrow>
          (case find_entry s entry_id startup_id user_id of
             Inl e \<Rightarrow> (Inl e, s)
           | Inr entry \<Rightarrow>
               (case edited fk rnd data entry of
                  Inl e \<Rightarrow> (Inl e, s)
                | Inr entry' \<Rightarrow>
                    (case score_to_mood (je_mood entry') of
                       Inl e \<Rightarrow> (Inl e, s)
                     | Inr mood \<Rightarrow>
                         (Inr (saved_entry now entry entry'),
                          upsert_mood_log now startup_id user_id (je_date entry') mood (je_stress entry')
                            (save_entry now entry entry' s))))))"

definition delete_entry ::
    "uid \<Rightarrow> uid \<Rightarrow> uid \<Rightarrow> 'a journal_db_scheme \<Rightarrow> unit result \<times> 'a journal_db_scheme" where
  "delete_entry user_id startup_id entry_id s =
     (case check_founder_access s user_id startup_id of
        Inl e \<Rightarrow> (Inl e, s)
      | Inr _ \<Rightarrow>
          (case find_entry s entry_id startup_id user_id of
             Inl e \<Rightarrow> (Inl e, s)
           | Inr entry \<Rightarrow>
               (Inr (), s\<lparr>mood_logs := (case find (\<lambda>l. log_key l = (startup_id, user_id, je_date entry)) (mood_logs s) of
                                     None \<Rightarrow> mood_logs s
                                   | Some l \<Rightarrow> delete_where (\<lambda>x. ml_id x = ml_id l) (mood_logs s)),
                         journal_entries := delete_where (\<lambda>x. je_id x = je_id entry) (journal_entries s)\<rparr>)))"

section \<open>Listing, search and mood trend\<close>

definition list_entries ::
    "uid \<Rightarrow> uid \<Rightarrow> nat \<Rightarrow> nat \<Rightarrow> 'a journal_db_scheme \<Rightarrow> (journal_entry list \<times> nat) result" where
  "list_entries user_id startup_id limit offset s =
     (case check_founder_access s user_id startup_id of
        Inl e \<Rightarrow> Inl e
      | Inr _ \<Rightarrow>
          let own = own_entries s startup_id user_id
          in Inr (py_slice offset limit (desc_by (\<lambda>e. (je_date e, je_created_at e)) own), length own))"

text \<open>The entries whose decrypted text contains the needle; the first unreadable one ends the search.\<close>

fun matching_entries :: "fernet \<Rightarrow> string \<Rightarrow> journal_entry list \<Rightarrow> journal_entry list result" where
  "matching_entries fk needle [] = Inr []"
| "matching_entries fk needle (entry # entries) =
     (case decrypt_content fk (je_content_encrypted entry) of
        Inl e \<Rightarrow> Inl e
      | Inr content \<Rightarrow>
          (case matching_entries fk needle entries of
             Inl e \<Rightarrow> Inl e
           | Inr matches \<Rightarrow> Inr (if contains needle (py_lower content) then entry # matches else matches)))"

definition search_entries ::
    "fernet \<Rightarrow> uid \<Rightarrow> uid \<Rightarrow> string \<Rightarrow> nat \<Rightarrow> nat \<Rightarrow> 'a journal_db_scheme \<Rightarrow> (journal_entry list \<times> nat) result" where
  "search_entries fk user_id startup_id query limit offset s =
     (case check_founder_access s user_id startup_id of
        Inl e \<Rightarrow> Inl e
      | Inr _ \<Rightarrow>
          let entries = desc_by je_date (own_entries s startup_id user_id);
              needle = py_lower (strip query)
          in if needle = [] then Inr (py_slice offset limit entries, length entries)
             else (case matching_entries fk needle entries of
                     Inl e \<Rightarrow> Inl e
                   | Inr matches \<Rightarrow> Inr (py_slice offset limit matches, length matches)))"

definition mood_trend ::
    "uid \<Rightarrow> uid \<Rightarrow> day option \<Rightarrow> day option \<Rightarrow> nat \<Rightarrow> 'a journal_db_scheme \<Rightarrow> mood_log list result" where
  "mood_trend user_id startup_id start_date end_date limit s =
     (case check_founder_access s user_id startup_id of
        Inl e \<Rightarrow> Inl e
      | Inr _ \<Rightarrow>
          Inr (take limit (sort_key ml_date
            (filter (\<lambda>l. (case end_date of None \<Rightarrow> True | Some d \<Rightarrow> ml_date l \<le> d))
              (filter (\<lambda>l. (case start_date of None \<Rightarrow> True | Some d \<Rightarrow> d \<le> ml_date l))
                (own_logs s startup_id user_id))))))"

definition prompts :: "string list" where
  "prompts =
     [''What moved forward today, and what surprised you about it?'',
      ''What felt heavier than expected today?'',
      ''What is one decision you made today that matters?'',
      ''What went well today that you do not want to overlook?'',
      ''What would you change if you could replay today?'',
      ''What gave you energy today?'',
      ''What is the most important thing on your mind right now?'']"

definition get_prompt :: "day \<Rightarrow> string" where
  "get_prompt today = prompts ! nat (today mod int (length prompts))"

section \<open>Endpoints\<close>

text \<open>The response models.\<close>

record entry_response =
  er_id :: uid
  er_startup_id :: uid
  er_founder_id :: uid
  er_date :: day
  er_content :: string
  er_mood :: journal_mood
  er_stress :: int

record entry_list_item =
  li_id :: uid
  li_date :: day
  li_mood :: journal_mood
  li_first_line :: string

definition entry_response_of :: "fernet \<Rightarrow> journal_entry \<Rightarrow> entry_response result" where
  "entry_response_of fk entry =
     (case get_entry_content fk entry of
        Inl e \<Rightarrow> Inl e
      | Inr content \<Rightarrow>
          (case score_to_mood (je_mood entry) of
             Inl e \<Rightarrow> Inl e
           | Inr mood \<Rightarrow>
               Inr \<lparr>er_id = je_id entry, er_startup_id = je_startup_id entry, er_founder_id = je_founder_id entry,
                    er_date = je_date entry, er_content = content, er_mood = mood, er_stress = je_stress entry\<rparr>))"

definition entry_list_item_of :: "fernet \<Rightarrow> journal_entry \<Rightarrow> entry_list_item result" where
  "entry_list_item_of fk entry =
     (case get_entry_content fk entry of
        Inl e \<Rightarrow> Inl e
      | Inr content \<Rightarrow>
          (case score_to_mood (je_mood entry) of
             Inl e \<Rightarrow> Inl e
           | Inr mood \<Rightarrow>
               Inr \<lparr>li_id = je_id entry, li_date = je_date entry, li_mood = mood,
                    li_first_line = (if splitlines content \<noteq> [] then splitlines content ! 0 else [])\<rparr>))"

text \<open>
  \<^verbatim>\<open>_startup\<close> and \<^verbatim>\<open>_require_founder\<close>, with which every handler starts; the founder is the user of the
  request, whose membership the workspace guard resolved.
\<close>

definition founder_startup :: "user \<Rightarrow> membership \<Rightarrow> 'a core_db_scheme \<Rightarrow> startup result" where
  "founder_startup user m s =
     (case startup_by_id s (m_startup_id m) of
        None \<Rightarrow> Inl NotFound
      | Some startup \<Rightarrow>
          (case check_founder_access s (u_id user) (st_id startup) of
             Inl e \<Rightarrow> Inl e
           | Inr _ \<Rightarrow> Inr startup))"

definition valid_create :: "day \<Rightarrow> journal_entry_create \<Rightarrow> string list" where
  "valid_create today b =
     (if today < jc_date b then [''date''] else []) @
     (if jc_content b = [] \<or> blank (jc_content b) then [''content''] else []) @
     (if 1 \<le> jc_stress b \<and> jc_stress b \<le> 10 then [] else [''stress''])"

definition valid_update :: "journal_entry_update \<Rightarrow> string list" where
  "valid_update b =
     (case ju_content b of Some (Some c) \<Rightarrow> if blank c then [''content''] else [] | _ \<Rightarrow> []) @
     (case ju_stress b of Some (Some n) \<Rightarrow> if 1 \<le> n \<and> n \<le> 10 then [] else [''stress''] | _ \<Rightarrow> [])"

text \<open>
  The handler commits and only then builds its response: an exception of the response leaves the
  write in place.
\<close>

definition commit_then :: "('r \<Rightarrow> 'b result) \<Rightarrow> ('s \<Rightarrow> 'r result \<times> 's) \<Rightarrow> 's \<Rightarrow> 'b result \<times> 's" where
  "commit_then respond f s = (case f s of (Inl e, _) \<Rightarrow> (Inl e, s) | (Inr a, s') \<Rightarrow> (respond a, s'))"

definition create_journal_entry where
  "create_journal_entry fk rnd now today b user m s =
     (if valid_create today b \<noteq> [] then (Inl (RequestInvalid (valid_create today b)), s)
      else (case founder_startup user m s of
              Inl e \<Rightarrow> (Inl e, s)
            | Inr startup \<Rightarrow>
                commit_then (entry_response_of fk) (create_entry fk rnd now (u_id user) (st_id startup) b) s))"

definition valid_listing :: "int \<Rightarrow> int \<Rightarrow> string option \<Rightarrow> string list" where
  "valid_listing skip limit search =
     (if skip < 0 then [''skip''] else []) @
     (if 1 \<le> limit \<and> limit \<le> 100 then [] else [''limit'']) @
     (if search = Some [] then [''search''] else [])"

definition list_journal_entries where
  "list_journal_entries fk skip limit search user m s =
     (if valid_listing skip limit search \<noteq> [] then Inl (RequestInvalid (valid_listing skip limit search))
      else (case founder_startup user m s of
        Inl e \<Rightarrow> Inl e
      | Inr startup \<Rightarrow>
          (case (case search of
                   Some q \<Rightarrow> search_entries fk (u_id user) (st_id startup) q (nat limit) (nat skip) s
                 | None \<Rightarrow> list_entries (u_id user) (st_id startup) (nat limit) (nat skip) s) of
             Inl e \<Rightarrow> Inl e
           | Inr (entries, n) \<Rightarrow>
               (case map_result (entry_list_item_of fk) entries of
                  Inl e \<Rightarrow> Inl e
                | Inr items \<Rightarrow> Inr (items, n)))))"

definition get_mood_trend where
  "get_mood_trend start_date end_date limit user m s =
     (if \<not> (1 \<le> limit \<and> limit \<le> 365) then Inl (RequestInvalid [''limit''])
      else case founder_startup user m s of
        Inl e \<Rightarrow> Inl e
      | Inr startup \<Rightarrow>
          if (case (start_date, end_date) of (Some a, Some b) \<Rightarrow> b < a | _ \<Rightarrow> False)
          then Inl (validation_error [''start_date''])
          else (case mood_trend (u_id user) (st_id startup) start_date end_date (nat limit) s of
                  Inl e \<Rightarrow> Inl e
                | Inr logs \<Rightarrow>
                    map_result (\<lambda>l. case score_to_mood (ml_mood l) of
                        Inl e \<Rightarrow> Inl e | Inr mood \<Rightarrow> Inr (ml_date l, mood, ml_stress l)) logs))"

definition get_today_journal_prompt where
  "get_today_journal_prompt today user m s =
     (case founder_startup user m s of Inl e \<Rightarrow> Inl e | Inr _ \<Rightarrow> Inr (get_prompt today))"

definition get_journal_entry where
  "get_journal_entry fk entry_id user m s =
     (case founder_startup user m s of
        Inl e \<Rightarrow> Inl e
      | Inr startup \<Rightarrow>
          (case get_entry (u_id user) (st_id startup) entry_id s of
             Inl e \<Rightarrow> Inl e
           | Inr entry \<Rightarrow> entry_response_of fk entry))"

definition update_journal_entry where
  "update_journal_entry fk rnd now entry_id b user m s =
     (if valid_update b \<noteq> [] then (Inl (RequestInvalid (valid_update b)), s)
      else (case founder_startup user m s of
              Inl e \<Rightarrow> (Inl e, s)
            | Inr startup \<Rightarrow>
                commit_then (entry_response_of fk)
                  (update_entry fk rnd now (u_id user) (st_id startup) entry_id b) s))"

definition delete_journal_entry where
  "delete_journal_entry entry_id user m s =
     (case founder_startup user m s of
        Inl e \<Rightarrow> (Inl e, s)
      | Inr startup \<Rightarrow>
          commit_then (\<lambda>_. Inr entry_id) (delete_entry (u_id user) (st_id startup) entry_id) s)"

end
