(* ===== verification/Journal_Inv.thy ===== *)
theory Journal_Inv
  imports Journal
begin

text \<open>
  The two tables of the journal as stores keyed by workspace, founder and day; the mood log as the
  image of the entries; and the invariant every request keeps.
\<close>

definition entry_val :: "journal_entry \<Rightarrow> string \<times> int \<times> int" where
  "entry_val e = (je_content_encrypted e, je_mood e, je_stress e)"

definition log_val :: "mood_log \<Rightarrow> int \<times> int" where
  "log_val l = (ml_mood l, ml_stress l)"

lemma row_value_put_entry:
  "row_value entry_key entry_val (put_entry now i k v t) = (row_value entry_key entry_val t)(k \<mapsto> v)"
  unfolding put_entry_def by (rule row_value_upsert) (auto simp: entry_key_def entry_val_def)

lemma row_value_put_log:
  "row_value log_key log_val (put_log now i k v t) = (row_value log_key log_val t)(k \<mapsto> v)"
  unfolding put_log_def by (rule row_value_upsert) (auto simp: log_key_def log_val_def)

lemma distinct_put_entry: "distinct (map entry_key t) \<Longrightarrow> distinct (map entry_key (put_entry now i k v t))"
  unfolding put_entry_def by (rule distinct_upsert) (auto simp: entry_key_def)

lemma distinct_put_log: "distinct (map log_key t) \<Longrightarrow> distinct (map log_key (put_log now i k v t))"
  unfolding put_log_def by (rule distinct_upsert) (auto simp: log_key_def)

interpretation jm: mirrored_stores
    "row_value entry_key entry_val" "put_entry now i" "\<lambda>k. delete_where (\<lambda>e. entry_key e = k)"
    "\<lambda>t. distinct (map entry_key t)"
    "row_value log_key log_val" "put_log now' j" "\<lambda>k. delete_where (\<lambda>l. log_key l = k)"
    "\<lambda>t. distinct (map log_key t)" snd
  for now i now' j
  by unfold_locales
    (simp_all add: row_value_put_entry row_value_put_log row_value_delete distinct_put_entry distinct_put_log
      distinct_map_delete_where)

section \<open>The invariant\<close>

definition entry_ok :: "journal_entry \<Rightarrow> bool" where
  "entry_ok e \<longleftrightarrow> je_mood e \<in> range mood_to_score \<and> 1 \<le> je_stress e \<and> je_stress e \<le> 10"

definition tables_ok :: "uid \<Rightarrow> journal_entry list \<Rightarrow> mood_log list \<Rightarrow> bool" where
  "tables_ok n es ls \<longleftrightarrow>
     distinct (map je_id es) \<and> ids_below n (map je_id es) \<and> distinct (map ml_id ls) \<and> ids_below n (map ml_id ls)
     \<and> jm.agree es ls \<and> (\<forall>e \<in> set es. entry_ok e)"

definition journal_inv :: "'a journal_db_scheme \<Rightarrow> bool" where
  "journal_inv s \<longleftrightarrow> tables_ok (fresh s) (journal_entries s) (mood_logs s)"

lemma agreeD:
  "jm.agree es ls \<Longrightarrow> distinct (map entry_key es)" "jm.agree es ls \<Longrightarrow> distinct (map log_key ls)"
  "jm.agree es ls \<Longrightarrow> row_value log_key log_val ls k = map_option snd (row_value entry_key entry_val es k)"
  unfolding jm.agree_def by blast+

lemma tables_ok_mono: "tables_ok n es ls \<Longrightarrow> n \<le> n' \<Longrightarrow> tables_ok n' es ls"
  by (auto simp: tables_ok_def intro: ids_below_mono)

lemma put_log_ids:
  assumes "distinct (map ml_id t)" "ids_below n (map ml_id t)"
  shows "distinct (map ml_id (put_log now n k v t)) \<and> ids_below (Suc n) (map ml_id (put_log now n k v t))"
  unfolding put_log_def by (rule upsert_where_ids) (use assms in simp_all)

lemma put_entry_ids:
  assumes "distinct (map je_id t)" "ids_below n (map je_id t)"
  shows "distinct (map je_id (put_entry now n k v t)) \<and> ids_below (Suc n) (map je_id (put_entry now n k v t))"
  unfolding put_entry_def by (rule upsert_where_ids) (use assms in simp_all)

lemma put_entry_ok:
  assumes "\<forall>e \<in> set t. entry_ok e" "fst (snd v) \<in> range mood_to_score" "1 \<le> snd (snd v)" "snd (snd v) \<le> 10"
  shows "\<forall>e \<in> set (put_entry now n k v t). entry_ok e"
  unfolding put_entry_def by (rule set_upsert) (use assms in \<open>auto simp: entry_ok_def\<close>)

text \<open>Writing an entry and its log together.\<close>

lemma tables_put:
  assumes "tables_ok n es ls" "fst (snd v) \<in> range mood_to_score" "1 \<le> snd (snd v)" "snd (snd v) \<le> 10"
  shows "tables_ok (Suc (Suc n)) (put_entry now n k v es) (put_log now' (Suc n) k (snd v) ls)"
proof -
  have "ids_below (Suc n) (map ml_id ls)" using assms(1) by (simp add: tables_ok_def)
  then show ?thesis
    using assms jm.agree_put [of es ls now n k v now' "Suc n"] put_entry_ids [of es n now k v]
      put_log_ids [of ls "Suc n" now' k "snd v"] put_entry_ok [of es v now n k]
    by (auto simp: tables_ok_def)
qed

text \<open>Changing an entry in place and writing its log.\<close>

lemma tables_save:
  assumes ok: "tables_ok n es ls" and e: "e \<in> set es"
    and e': "je_id e' = je_id e" "entry_key e' = entry_key e" "entry_ok e'"
  shows "tables_ok (Suc n) (update_where (\<lambda>x. je_id x = je_id e) (\<lambda>_. e') es)
    (put_log now n (entry_key e) (snd (entry_val e')) ls)"
proof -
  let ?es = "update_where (\<lambda>x. je_id x = je_id e) (\<lambda>_. e') es"
  have ag: "jm.agree es ls" using ok by (simp add: tables_ok_def)
  have a: "distinct (map je_id es)" "distinct (map entry_key es)" "jm.agree es ls"
    using ok ag agreeD(1) [OF ag] by (simp_all add: tables_ok_def)
  have u: "?es = upsert_where (\<lambda>x. entry_key x = entry_key e) (\<lambda>_. e') e' es"
    unfolding update_where_by_key [OF a(1,2) e] by (rule update_as_upsert [OF e]) simp
  have ids: "map je_id ?es = map je_id es" by (rule map_update_where) (simp add: e')
  have "row_value entry_key entry_val ?es = (row_value entry_key entry_val es)(entry_key e \<mapsto> entry_val e')"
    unfolding u by (rule row_value_upsert) (simp_all add: e')
  moreover have "distinct (map entry_key ?es)" unfolding u by (rule distinct_upsert) (simp_all add: a e')
  ultimately have "jm.agree ?es (put_log now n (entry_key e) (snd (entry_val e')) ls)"
    using agreeD(2) [OF a(3)]
    by (intro jm.agree_written [OF a(3), where w = "Put (entry_key e) (entry_val e')"])
      (simp_all add: row_value_put_log distinct_put_log)
  moreover have "\<forall>x \<in> set ?es. entry_ok x" using ok e'(3) by (auto simp: tables_ok_def set_update_where)
  ultimately show ?thesis
    using ok put_log_ids [of ls n now "entry_key e" "snd (entry_val e')"] by (simp add: tables_ok_def ids)
qed

lemma tables_delete:
  assumes ok: "tables_ok n es ls" and e: "e \<in> set es"
  shows "tables_ok n (delete_where (\<lambda>x. je_id x = je_id e) es)
     (case find (\<lambda>l. log_key l = entry_key e) ls of None \<Rightarrow> ls | Some l \<Rightarrow> delete_where (\<lambda>x. ml_id x = ml_id l) ls)"
proof -
  have ag: "jm.agree es ls" using ok by (simp add: tables_ok_def)
  have a: "distinct (map je_id es)" "distinct (map entry_key es)" "jm.agree es ls"
    "distinct (map ml_id ls)" "distinct (map log_key ls)"
    using ok ag agreeD(1,2) [OF ag] by (simp_all add: tables_ok_def)
  have "(case find (\<lambda>l. log_key l = entry_key e) ls of None \<Rightarrow> ls | Some l \<Rightarrow> delete_where (\<lambda>x. ml_id x = ml_id l) ls)
      = delete_where (\<lambda>l. log_key l = entry_key e) ls"
  proof (cases "find (\<lambda>l. log_key l = entry_key e) ls")
    case None
    have "delete_where (\<lambda>l. log_key l = entry_key e) ls = ls"
      unfolding delete_where_def by (rule filter_True) (use find_NoneD [OF None] in simp)
    then show ?thesis by (simp add: None)
  next
    case (Some l)
    then have "l \<in> set ls" "log_key l = entry_key e" using find_SomeD [OF Some] by simp_all
    then show ?thesis using Some delete_where_by_key [OF a(4,5), of l] by simp
  qed
  then show ?thesis
    using ok jm.agree_clear [OF a(3), of "entry_key e"]
    unfolding delete_where_by_key [OF a(1,2) e]
    by (simp add: tables_ok_def distinct_map_delete_where ids_below_delete)
qed

section \<open>Every operation keeps it\<close>

lemma find_entry_okD:
  assumes "find_entry s i st f = Inr e"
  shows "e \<in> set (journal_entries s)" "je_id e = i" "je_startup_id e = st" "je_founder_id e = f"
  using assms by (auto simp: find_entry_def dest: find_SomeD split: option.splits)

lemma create_entry_keeps:
  assumes "journal_inv s" "1 \<le> jc_stress b" "jc_stress b \<le> 10"
  shows "journal_inv (snd (commit_then f (create_entry fk rnd now u st b) s))"
  using assms tables_put [of "fresh s" "journal_entries s" "mood_logs s" "(_, mood_to_score (jc_mood b), jc_stress b)"]
  by (simp add: create_entry_def commit_then_def upsert_mood_log_def Let_def journal_inv_def
      split: sum.split option.split)

lemma edited_okD:
  assumes "edited fk rnd b e = Inr e'"
  shows "je_id e' = je_id e" "entry_key e' = entry_key e" "je_date e' = je_date e"
    "entry_ok e \<Longrightarrow> valid_update b = [] \<Longrightarrow> entry_ok e'"
  using assms
  by (auto simp: edited_def set_content_def set_mood_def set_stress_def entry_key_def entry_ok_def valid_update_def
      split: sum.splits option.splits if_splits)

lemma update_entry_keeps:
  assumes inv: "journal_inv s" and b: "valid_update b = []"
  shows "journal_inv (snd (commit_then f (update_entry fk rnd now u st i b) s))"
proof (cases "update_entry fk rnd now u st i b s")
  case (Pair r s')
  show ?thesis
  proof (cases r)
    case (Inr x)
    with Pair obtain e e' mood where e: "find_entry s i st u = Inr e" "edited fk rnd b e = Inr e'"
      and m: "je_mood e' = mood_to_score mood"
      and s': "s' = upsert_mood_log now st u (je_date e') mood (je_stress e') (save_entry now e e' s)"
      by (auto simp: update_entry_def score_to_mood_ok split: sum.splits)
    note f = find_entry_okD [OF e(1)] and d = edited_okD [OF e(2)]
    have ok: "tables_ok (fresh s) (journal_entries s) (mood_logs s)" using inv by (simp add: journal_inv_def)
    then have "entry_ok e'" using d(4) b f(1) by (auto simp: tables_ok_def)
    let ?n = "saved_entry now e e'"
    have n: "je_id ?n = je_id e" "entry_key ?n = entry_key e" "entry_ok ?n" "snd (entry_val ?n) = (mood_to_score mood, je_stress e')"
      using d(1,2) \<open>entry_ok e'\<close> m
      by (auto simp: saved_entry_def entry_key_def entry_ok_def entry_val_def)
    have "journal_entries (save_entry now e e' s) = update_where (\<lambda>x. je_id x = je_id e) (\<lambda>_. ?n) (journal_entries s)"
    proof (cases "e' = e")
      case True
      have "distinct (map je_id (journal_entries s))" using ok by (simp add: tables_ok_def)
      then show ?thesis using True f(1)
        by (auto simp: save_entry_def saved_entry_def intro!: update_where_id [symmetric] dest: distinct_mapD)
    qed (simp add: save_entry_def saved_entry_def)
    moreover have "entry_key e = (st, u, je_date e')" using f d(3) by (simp add: entry_key_def)
    ultimately show ?thesis
      using tables_save [OF ok f(1) n(1-3), of now] n(4) Pair Inr s'
      by (simp add: commit_then_def journal_inv_def upsert_mood_log_def save_entry_def split: if_splits)
  qed (use inv Pair in \<open>simp add: commit_then_def\<close>)
qed

lemma delete_entry_keeps:
  assumes "journal_inv s"
  shows "journal_inv (snd (commit_then f (delete_entry u st i) s))"
proof (cases "find_entry s i st u")
  case (Inr e)
  note f = find_entry_okD [OF Inr]
  have "entry_key e = (st, u, je_date e)" using f by (simp add: entry_key_def)
  then show ?thesis
    using assms tables_delete [of "fresh s" "journal_entries s" "mood_logs s" e] f(1) Inr
    by (simp add: delete_entry_def commit_then_def journal_inv_def split: sum.split)
qed (use assms in \<open>simp add: delete_entry_def commit_then_def split: sum.split\<close>)

end
