(* ===== verification/Journal_Requests.thy ===== *)
theory Journal_Requests
  imports Journal_Inv
begin

text \<open>
  The journal's requests and their histories; what a saved entry reads back as; what a founder can
  see and change; the search; and the error behaviour of an update.
\<close>

datatype journal_request =
    JQ_create journal_entry_create
  | JQ_list int int "string option"
  | JQ_mood "day option" "day option" int
  | JQ_prompt
  | JQ_get uid
  | JQ_update uid journal_entry_update
  | JQ_delete uid

fun journal_body ::
    "fernet \<Rightarrow> nat \<Rightarrow> instant \<Rightarrow> day \<Rightarrow> journal_request \<Rightarrow> user \<Rightarrow> membership \<Rightarrow> 'a journal_db_scheme
     \<Rightarrow> unit result \<times> 'a journal_db_scheme" where
  "journal_body fk rnd now today (JQ_create b) u m s = map_prod ignore id (create_journal_entry fk rnd now today b u m s)"
| "journal_body fk rnd now today (JQ_list skip limit q) u m s = (ignore (list_journal_entries fk skip limit q u m s), s)"
| "journal_body fk rnd now today (JQ_mood a b n) u m s = (ignore (get_mood_trend a b n u m s), s)"
| "journal_body fk rnd now today JQ_prompt u m s = (ignore (get_today_journal_prompt today u m s), s)"
| "journal_body fk rnd now today (JQ_get i) u m s = (ignore (get_journal_entry fk i u m s), s)"
| "journal_body fk rnd now today (JQ_update i b) u m s = map_prod ignore id (update_journal_entry fk rnd now i b u m s)"
| "journal_body fk rnd now today (JQ_delete i) u m s = map_prod ignore id (delete_journal_entry i u m s)"

record journal_call =
  jq_credential :: "string option"
  jq_workspace :: uid
  jq_random :: nat
  jq_now :: instant
  jq_today :: day
  jq_request :: journal_request

definition serve_journal ::
    "fernet \<Rightarrow> (string \<Rightarrow> json option) \<Rightarrow> journal_call \<Rightarrow> 'a journal_db_scheme
     \<Rightarrow> unit result \<times> 'a journal_db_scheme" where
  "serve_journal fk decode q s =
     member_request decode (jq_credential q) (jq_workspace q) []
       (journal_body fk (jq_random q) (jq_now q) (jq_today q) (jq_request q)) s"

section \<open>Histories\<close>

lemma valid_create_stress: "valid_create today b = [] \<Longrightarrow> 1 \<le> jc_stress b \<and> jc_stress b \<le> 10"
  by (auto simp: valid_create_def split: if_splits)

lemma create_journal_keeps: "journal_inv s \<Longrightarrow> journal_inv (snd (create_journal_entry fk rnd now today b u m s))"
  using valid_create_stress [of today b]
  by (auto simp: create_journal_entry_def create_entry_keeps split: sum.split)

lemma update_journal_keeps: "journal_inv s \<Longrightarrow> journal_inv (snd (update_journal_entry fk rnd now i b u m s))"
  by (simp add: update_journal_entry_def update_entry_keeps split: sum.split)

lemma delete_journal_keeps: "journal_inv s \<Longrightarrow> journal_inv (snd (delete_journal_entry i u m s))"
  by (simp add: delete_journal_entry_def delete_entry_keeps split: sum.split)

lemma journal_body_keeps: "journal_inv s \<Longrightarrow> journal_inv (snd (journal_body fk rnd now today q u m s))"
  by (cases q) (simp_all add: create_journal_keeps update_journal_keeps delete_journal_keeps)

lemma serve_journal_keeps: "journal_inv s \<Longrightarrow> journal_inv (snd (serve_journal fk decode q s))"
  unfolding serve_journal_def by (rule member_request_invariant [of journal_inv]) (simp_all add: journal_body_keeps)

text \<open>
  \<open>elsewhere\<close>: the rest of the application writes neither of the two tables. The key may be
  another one at every request.
\<close>

inductive journal_reachable :: "(string \<Rightarrow> json option) \<Rightarrow> 'a journal_db_scheme \<Rightarrow> bool"
  for decode :: "string \<Rightarrow> json option" where
  start: "journal_entries s = [] \<Longrightarrow> mood_logs s = [] \<Longrightarrow> journal_reachable decode s"
| request: "journal_reachable decode s \<Longrightarrow> journal_reachable decode (snd (serve_journal fk decode q s))"
| elsewhere: "journal_reachable decode s \<Longrightarrow> journal_entries s' = journal_entries s \<Longrightarrow> mood_logs s' = mood_logs s
    \<Longrightarrow> fresh s \<le> fresh s' \<Longrightarrow> journal_reachable decode s'"

lemma journal_reachable_inv: "journal_reachable decode s \<Longrightarrow> journal_inv s"
proof (induction rule: journal_reachable.induct)
  case (start s)
  then show ?case by (simp add: journal_inv_def tables_ok_def jm.agree_def row_value_def)
next
  case (request s q)
  then show ?case by (simp add: serve_journal_keeps)
next
  case (elsewhere s s')
  then show ?case by (simp add: journal_inv_def tables_ok_mono)
qed

text \<open>What the entry of a day says, and what its log says.\<close>

definition entry_on :: "'a journal_db_scheme \<Rightarrow> uid \<Rightarrow> uid \<Rightarrow> day \<Rightarrow> (string \<times> int \<times> int) option" where
  "entry_on s st f d = row_value entry_key entry_val (journal_entries s) (st, f, d)"

definition log_on :: "'a journal_db_scheme \<Rightarrow> uid \<Rightarrow> uid \<Rightarrow> day \<Rightarrow> (int \<times> int) option" where
  "log_on s st f d = row_value log_key log_val (mood_logs s) (st, f, d)"

text \<open>
  C13: along every history of journal requests, interleaved with the rest of the application, a
  founder has at most one entry a day in a workspace, the mood log of a day is exactly the mood and
  stress of that day's entry and exists exactly when the entry does, and every stored score is one
  of the five moods with a stress from 1 to 10.
\<close>

theorem journal_histories:
  assumes "journal_reachable decode s"
  shows "distinct (map entry_key (journal_entries s)) \<and> distinct (map log_key (mood_logs s))
    \<and> (\<forall>st f d. log_on s st f d = map_option snd (entry_on s st f d))
    \<and> (\<forall>e \<in> set (journal_entries s). (\<exists>m. je_mood e = mood_to_score m) \<and> 1 \<le> je_stress e \<and> je_stress e \<le> 10)"
proof -
  have ok: "tables_ok (fresh s) (journal_entries s) (mood_logs s)"
    using journal_reachable_inv [OF assms] by (simp add: journal_inv_def)
  then have ag: "jm.agree (journal_entries s) (mood_logs s)" by (simp add: tables_ok_def)
  have "\<forall>e \<in> set (journal_entries s). entry_ok e" using ok by (simp add: tables_ok_def)
  then have m: "\<forall>e \<in> set (journal_entries s). (\<exists>m. je_mood e = mood_to_score m) \<and> 1 \<le> je_stress e \<and> je_stress e \<le> 10"
    by (fastforce simp: entry_ok_def)
  have l: "\<forall>st f d. log_on s st f d = map_option snd (entry_on s st f d)"
    unfolding entry_on_def log_on_def by (intro allI) (rule agreeD(3) [OF ag])
  show ?thesis by (intro conjI agreeD(1,2) [OF ag] l m)
qed

section \<open>Every request is answered\<close>

lemma reachable_moods:
  assumes "journal_inv s"
  shows "\<forall>e \<in> set (journal_entries s). je_mood e \<in> range mood_to_score"
    "\<forall>l \<in> set (mood_logs s). ml_mood l \<in> range mood_to_score"
proof -
  have ok: "tables_ok (fresh s) (journal_entries s) (mood_logs s)" using assms by (simp add: journal_inv_def)
  then show e: "\<forall>e \<in> set (journal_entries s). je_mood e \<in> range mood_to_score"
    by (simp add: tables_ok_def entry_ok_def)
  have ag: "jm.agree (journal_entries s) (mood_logs s)" using ok by (simp add: tables_ok_def)
  show "\<forall>l \<in> set (mood_logs s). ml_mood l \<in> range mood_to_score"
  proof
    fix l assume l: "l \<in> set (mood_logs s)"
    have "row_value log_key log_val (mood_logs s) (log_key l) = Some (log_val l)"
      by (rule row_value_row [OF agreeD(2) [OF ag] l])
    then obtain v where v: "row_value entry_key entry_val (journal_entries s) (log_key l) = Some v" "log_val l = snd v"
      unfolding agreeD(3) [OF ag] map_option_eq_Some by metis
    from v(1) obtain x where "x \<in> set (journal_entries s)" "entry_val x = v" by (rule row_valueE)
    then show "ml_mood l \<in> range mood_to_score" using e v(2) by (auto simp: entry_val_def log_val_def)
  qed
qed

definition answerable :: "app_error \<Rightarrow> bool" where
  "answerable e \<longleftrightarrow> (\<forall>x. e \<noteq> Uncaught x)"

lemma answerable_simps [simp]:
  "answerable Forbidden" "answerable NotFound" "answerable JournalNotConfigured" "answerable JournalContentUnreadable"
  "answerable (RequestInvalid xs)" "answerable (validation_error xs)" "answerable Unauthorized" "answerable EmailNotVerified"
  "answerable (AppErr c n xs)"
  by (simp_all add: answerable_def validation_error_def)

lemma entry_by_date_key: "entry_by_date s st f d = find (\<lambda>e. entry_key e = (st, f, d)) (journal_entries s)"
  by (simp add: entry_by_date_def entry_key_def)

lemma put_entry_found:
  obtains e where "find (\<lambda>e. entry_key e = k) (put_entry now i k v t) = Some e" "entry_key e = k" "entry_val e = v"
proof -
  have "row_value entry_key entry_val (put_entry now i k v t) k = Some v" by (simp add: row_value_put_entry)
  then obtain e where "find (\<lambda>e. entry_key e = k) (put_entry now i k v t) = Some e" "entry_val e = v"
    unfolding row_value_def map_option_eq_Some by (elim exE conjE) (rule that)
  moreover from find_SomeD [OF this(1)] have "entry_key e = k" by simp
  ultimately show thesis using that by blast
qed

text \<open>What a successful \<^const>\<open>create_entry\<close> leaves, and that it has no other failures than its guards.\<close>

lemma create_entry_result:
  assumes "check_founder_access s u st = Inr ()" "encrypt_content fk rnd (jc_content b) = Inr token"
  defines "v \<equiv> (token, mood_to_score (jc_mood b), jc_stress b)" and "k \<equiv> (st, u, jc_date b)"
  obtains e s' where "create_entry fk rnd now u st b s = (Inr e, s')" "entry_key e = k" "entry_val e = v"
    "find (\<lambda>e. entry_key e = k) (journal_entries s') = Some e"
    "journal_entries s' = put_entry now (fresh s) k v (journal_entries s)"
    "mood_logs s' = put_log now (Suc (fresh s)) k (snd v) (mood_logs s)"
    "memberships s' = memberships s" "startups s' = startups s"
proof -
  obtain e where "find (\<lambda>e. entry_key e = k) (put_entry now (fresh s) k v (journal_entries s)) = Some e"
    "entry_key e = k" "entry_val e = v" by (rule put_entry_found)
  then show thesis
    using assms that by (simp add: create_entry_def entry_by_date_key upsert_mood_log_def Let_def)
qed

lemma content_answerable:
  "encrypt_content fk rnd c = Inl e \<Longrightarrow> answerable e" "decrypt_content fk c = Inl e \<Longrightarrow> answerable e"
  by (auto simp: encrypt_content_def decrypt_content_def get_fernet_def split: sum.splits option.splits if_splits)

lemma response_answerable:
  "entry_response_of fk x = Inl e \<Longrightarrow> je_mood x \<in> range mood_to_score \<Longrightarrow> answerable e"
  "entry_list_item_of fk x = Inl e \<Longrightarrow> je_mood x \<in> range mood_to_score \<Longrightarrow> answerable e"
  by (auto simp: entry_response_of_def entry_list_item_of_def get_entry_content_def dest: content_answerable(2) split: sum.splits)

lemma access_answerable:
  "check_founder_access s u st = Inl e \<Longrightarrow> answerable e" "founder_startup x m s = Inl e \<Longrightarrow> answerable e"
  "find_entry s' i st' f = Inl e \<Longrightarrow> answerable e"
  by (auto simp: check_founder_access_def founder_startup_def find_entry_def split: option.splits sum.splits)

lemma edited_answerable: "edited fk rnd b x = Inl e \<Longrightarrow> answerable e"
  by (auto simp: edited_def set_content_def set_mood_def set_stress_def dest: content_answerable(1)
      split: sum.splits option.splits)

lemma matching_answerable: "matching_entries fk q es = Inl e \<Longrightarrow> answerable e"
  by (induction es) (auto dest: content_answerable(2) split: sum.splits if_splits)

lemma matching_subset: "matching_entries fk q es = Inr ms \<Longrightarrow> set ms \<subseteq> set es"
  by (induction es arbitrary: ms) (auto split: sum.splits if_splits)

lemma create_answerable:
  assumes "fst (create_journal_entry fk rnd now today b u m s) = Inl e"
  shows "answerable e"
proof (cases "valid_create today b = []")
  case True
  show ?thesis
  proof (cases "founder_startup u m s")
    case (Inl e')
    then show ?thesis using assms True access_answerable(2) [OF Inl] by (simp add: create_journal_entry_def)
  next
    case (Inr startup)
    then have a: "check_founder_access s (u_id u) (st_id startup) = Inr ()"
      by (simp add: founder_startup_def split: option.splits sum.splits)
    show ?thesis
    proof (cases "encrypt_content fk rnd (jc_content b)")
      case (Inl e')
      then show ?thesis using assms True Inr a content_answerable(1) [OF Inl]
        by (simp add: create_journal_entry_def create_entry_def commit_then_def)
    next
      case (Inr token)
      obtain x s' where x: "create_entry fk rnd now (u_id u) (st_id startup) b s = (Inr x, s')"
        "entry_val x = (token, mood_to_score (jc_mood b), jc_stress b)"
        by (rule create_entry_result [OF a Inr, of now])
      then have "entry_response_of fk x = Inl e"
        using assms True \<open>founder_startup u m s = Inr startup\<close> by (simp add: create_journal_entry_def commit_then_def)
      then show ?thesis using x(2) by (auto simp: entry_val_def intro: response_answerable(1))
    qed
  qed
qed (use assms in \<open>auto simp: create_journal_entry_def\<close>)

lemma update_answerable:
  assumes "fst (update_journal_entry fk rnd now i b u m s) = Inl e" "journal_inv s"
  shows "answerable e"
proof -
  have mood: "je_mood x' \<in> range mood_to_score" if "find_entry s i st f = Inr x" "edited fk rnd b x = Inr x'" for st f x x'
    using that reachable_moods(1) [OF assms(2)] find_entry_okD(1) [OF that(1)]
    by (auto simp: edited_def set_content_def set_mood_def set_stress_def split: sum.splits option.splits)
  show ?thesis
    using assms(1) mood
    by (fastforce simp: update_journal_entry_def update_entry_def commit_then_def saved_entry_def
        dest: access_answerable edited_answerable response_answerable(1) split: sum.splits if_splits)
qed

lemma delete_answerable: "fst (delete_journal_entry i u m s) = Inl e \<Longrightarrow> answerable e"
  by (auto simp: delete_journal_entry_def delete_entry_def commit_then_def dest: access_answerable split: sum.splits)

lemma get_answerable:
  assumes "get_journal_entry fk i u m s = Inl e" "journal_inv s"
  shows "answerable e"
  using assms(1) reachable_moods(1) [OF assms(2)]
  by (auto simp: get_journal_entry_def get_entry_def dest: access_answerable
      intro: response_answerable(1) dest!: find_entry_okD(1) split: sum.splits)

lemma listed_entries:
  assumes "(case q of Some q \<Rightarrow> search_entries fk u st q l o' s | None \<Rightarrow> list_entries u st l o' s) = Inr (es, n)"
  shows "set es \<subseteq> set (journal_entries s)"
  using assms set_py_slice [of o' l] matching_subset
  by (auto simp: search_entries_def list_entries_def own_entries_def Let_def
      split: option.splits sum.splits if_splits) (fastforce dest: matching_subset subsetD [OF set_py_slice])+

lemma listing_answerable:
  assumes "list_journal_entries fk o' l q u m s = Inl e" "journal_inv s"
  shows "answerable e"
proof (cases "valid_listing o' l q = []")
  case True
  note j = this
  show ?thesis
  proof (cases "founder_startup u m s")
    case (Inr x)
    let ?r = "(case q of Some q \<Rightarrow> search_entries fk (u_id u) (st_id x) q (nat l) (nat o') s
      | None \<Rightarrow> list_entries (u_id u) (st_id x) (nat l) (nat o') s)"
    show ?thesis
    proof (cases ?r)
      case (Inl e')
      then have "e = e'" using assms(1) j Inr by (simp add: list_journal_entries_def)
      then show ?thesis using Inl
        by (auto simp: search_entries_def list_entries_def Let_def dest: access_answerable matching_answerable
            split: option.splits sum.splits if_splits)
    next
      case (Inr r)
      then have "map_result (entry_list_item_of fk) (fst r) = Inl e"
        using assms(1) j \<open>founder_startup u m s = Inr x\<close>
        by (cases r) (simp add: list_journal_entries_def split: sum.splits)
      then obtain y where "y \<in> set (fst r)" "entry_list_item_of fk y = Inl e" by (blast dest: map_result_errD)
      moreover have "set (fst r) \<subseteq> set (journal_entries s)"
        using Inr listed_entries [where q = q and fk = fk and u = "u_id u" and st = "st_id x" and l = "nat l" and o' = "nat o'" and es = "fst r" and n = "snd r"] by simp
      ultimately show ?thesis using reachable_moods(1) [OF assms(2)] by (blast intro: response_answerable(2))
    qed
  qed (use assms(1) j access_answerable(2) in \<open>auto simp: list_journal_entries_def\<close>)
qed (use assms(1) in \<open>auto simp: list_journal_entries_def\<close>)

lemma trend_answerable:
  assumes "get_mood_trend a b n u m s = Inl e" "journal_inv s"
  shows "answerable e"
proof -
  have p: "answerable e" if "map_result (\<lambda>l. case score_to_mood (ml_mood l) of Inl e \<Rightarrow> Inl e
      | Inr mood \<Rightarrow> Inr (ml_date l, mood, ml_stress l)) logs = Inl e" "set logs \<subseteq> set (mood_logs s)" for logs
    using map_result_errD [OF that(1)] that(2) reachable_moods(2) [OF assms(2)]
    by (fastforce split: sum.splits)
  have q: "set logs \<subseteq> set (mood_logs s)" if "mood_trend st f a b k s = Inr logs" for st f k logs
    using that by (auto simp: mood_trend_def own_logs_def dest!: in_set_takeD split: sum.splits)
  have r: "answerable e" if "mood_trend st f a b k s = Inl e" for st f k
    using that by (auto simp: mood_trend_def dest: access_answerable split: sum.splits)
  show ?thesis
    using assms(1) p q r access_answerable(2) [of u m s e]
    by (auto simp: get_mood_trend_def simp del: map_result.simps split: sum.splits if_splits)
qed

lemma journal_body_answerable:
  assumes "fst (journal_body fk rnd now today q u m s) = Inl e" "journal_inv s"
  shows "answerable e"
proof -
  have ig: "ignore r = Inl e \<longleftrightarrow> r = Inl e" for r :: "'b result" by (cases r) (simp_all add: ignore_def)
  show ?thesis
    using assms
    by (cases q) (auto simp: ig get_today_journal_prompt_def dest: create_answerable update_answerable delete_answerable
        get_answerable listing_answerable trend_answerable access_answerable split: sum.splits)
qed

text \<open>
  Whatever the history, no journal request ends in an uncaught exception: every stored score has
  a mood, the row that was just written is found, and the only failures are the declared ones
  (authentication, access, a missing row, validation, a missing or wrong key).
\<close>

theorem journal_answers:
  assumes "journal_reachable decode s"
  shows "fst (serve_journal fk decode q s) \<noteq> Inl (Uncaught x)"
proof
  assume a: "fst (serve_journal fk decode q s) = Inl (Uncaught x)"
  show False
  proof (cases "workspace_guard decode (jq_credential q) (jq_workspace q) [] s")
    case (Inl e)
    then have "answerable e"
      by (auto simp: workspace_guard_def get_current_user_def resolve_workspace_def require_role_def
          split: sum.splits option.splits if_splits json.splits)
    then show False using Inl a by (auto simp: serve_journal_def member_request_def answerable_def)
  next
    case (Inr m)
    then obtain u where "get_current_user decode (jq_credential q) s = Inr u"
      by (auto simp: workspace_guard_def split: sum.splits)
    then show False
      using a Inr journal_body_answerable [OF _ journal_reachable_inv [OF assms]]
      by (fastforce simp: serve_journal_def member_request_def get_verified_user_def answerable_def split: if_splits)
  qed
qed

end
