(* ===== verification/Journal_Reading.thy ===== *)
theory Journal_Reading
  imports Journal_Requests
begin

text \<open>
  What a founder reads: a saved entry as it was written, the entries the search finds, and nothing
  of another founder's; and an update whose answer is an error although it was stored.
\<close>

section \<open>A saved entry reads back\<close>

text \<open>
  The documented behaviour of Fernet: a token made with a key decrypts with that key to the text.
\<close>

definition fernet_law :: "fernet \<Rightarrow> bool" where
  "fernet_law fk \<longleftrightarrow> (\<forall>key rnd x. fk_valid fk key \<longrightarrow> fk_decrypt fk key (fk_encrypt fk key rnd x) = Some x)"

lemma decrypt_encrypted:
  "fernet_law fk \<Longrightarrow> encrypt_content fk rnd x = Inr token \<Longrightarrow> decrypt_content fk token = Inr x"
  by (auto simp: fernet_law_def encrypt_content_def decrypt_content_def get_fernet_def split: if_splits)

lemma founder_startup_cong:
  "memberships s' = memberships s \<Longrightarrow> startups s' = startups s \<Longrightarrow> founder_startup u m s' = founder_startup u m s"
  by (simp add: founder_startup_def startup_by_id_def check_founder_access_def cong: option.case_cong)

lemma find_entry_unique:
  assumes "journal_inv s" "e \<in> set (journal_entries s)" "entry_key e = (st, f, d)"
  shows "find_entry s (je_id e) st f = Inr e"
proof -
  have "distinct (map je_id (journal_entries s))" using assms(1) by (simp add: journal_inv_def tables_ok_def)
  moreover have "find (\<lambda>x. je_id x = je_id e \<and> je_startup_id x = st \<and> je_founder_id x = f) (journal_entries s)
      = find (\<lambda>x. je_id x = je_id e) (journal_entries s)"
    by (rule find_cong_set) (use calculation assms(2,3) in \<open>auto simp: entry_key_def dest: distinct_mapD\<close>)
  ultimately show ?thesis using find_key_unique [of je_id "journal_entries s" e] assms(2) by (simp add: find_entry_def)
qed

text \<open>
  C14: an entry that is saved reads back as it was written (for every key and random bits, given that
  Fernet decrypts what it encrypted): the answer of the request and of a later read of its id show
  the founder, day, text, mood and stress sent; the mood log of the day shows the mood and stress;
  every other day and founder reads as before.
\<close>

theorem journal_round_trip:
  assumes "journal_reachable decode s" "fernet_law fk"
    "create_journal_entry fk rnd now today b u m s = (Inr r, s')"
  shows "er_founder_id r = u_id u \<and> er_date r = jc_date b \<and> er_content r = jc_content b
      \<and> er_mood r = jc_mood b \<and> er_stress r = jc_stress b
    \<and> get_journal_entry fk (er_id r) u m s' = Inr r
    \<and> log_on s' (er_startup_id r) (u_id u) (jc_date b) = Some (mood_to_score (jc_mood b), jc_stress b)
    \<and> (\<forall>st f d. (st, f, d) \<noteq> (er_startup_id r, u_id u, jc_date b) \<longrightarrow>
         entry_on s' st f d = entry_on s st f d \<and> log_on s' st f d = log_on s st f d)"
proof -
  have v: "valid_create today b = []" using assms(3) by (auto simp: create_journal_entry_def split: if_splits)
  with assms(3) obtain x where x: "founder_startup u m s = Inr x"
    and c: "commit_then (entry_response_of fk) (create_entry fk rnd now (u_id u) (st_id x) b) s = (Inr r, s')"
    by (auto simp: create_journal_entry_def split: sum.splits)
  have a: "check_founder_access s (u_id u) (st_id x) = Inr ()"
    using x by (simp add: founder_startup_def split: option.splits sum.splits)
  obtain token where t: "encrypt_content fk rnd (jc_content b) = Inr token"
    using c by (auto simp: create_entry_def a commit_then_def split: sum.splits)
  obtain e s'' where e: "create_entry fk rnd now (u_id u) (st_id x) b s = (Inr e, s'')"
    "entry_key e = (st_id x, u_id u, jc_date b)" "entry_val e = (token, mood_to_score (jc_mood b), jc_stress b)"
    "find (\<lambda>e. entry_key e = (st_id x, u_id u, jc_date b)) (journal_entries s'') = Some e"
    "journal_entries s'' = put_entry now (fresh s) (st_id x, u_id u, jc_date b)
       (token, mood_to_score (jc_mood b), jc_stress b) (journal_entries s)"
    "mood_logs s'' = put_log now (Suc (fresh s)) (st_id x, u_id u, jc_date b)
       (snd (token, mood_to_score (jc_mood b), jc_stress b)) (mood_logs s)"
    "memberships s'' = memberships s" "startups s'' = startups s"
    by (rule create_entry_result [OF a t, of now])
  have resp: "entry_response_of fk e = Inr \<lparr>er_id = je_id e, er_startup_id = st_id x, er_founder_id = u_id u,
      er_date = jc_date b, er_content = jc_content b, er_mood = jc_mood b, er_stress = jc_stress b\<rparr>"
    using e(2,3) decrypt_encrypted [OF assms(2) t]
    by (simp add: entry_response_of_def get_entry_content_def entry_key_def entry_val_def)
  with c e(1) have r: "r = \<lparr>er_id = je_id e, er_startup_id = st_id x, er_founder_id = u_id u,
      er_date = jc_date b, er_content = jc_content b, er_mood = jc_mood b, er_stress = jc_stress b\<rparr>" "s' = s''"
    by (simp_all add: commit_then_def)
  have inv: "journal_inv s'"
    using create_journal_keeps [OF journal_reachable_inv [OF assms(1)], of fk rnd now today b u m] assms(3) by simp
  have "find_entry s' (je_id e) (st_id x) (u_id u) = Inr e"
    using find_entry_unique [OF inv _ e(2)] find_SomeD [OF e(4)] r(2) by simp
  moreover have "founder_startup u m s' = Inr x" "check_founder_access s' (u_id u) (st_id x) = Inr ()"
    using founder_startup_cong [of s' s u m] e(7,8) r(2) x a by (simp_all add: check_founder_access_def)
  ultimately have "get_journal_entry fk (er_id r) u m s' = Inr r"
    using resp r(1) by (simp add: get_journal_entry_def get_entry_def)
  then show ?thesis
    using r by (auto simp: entry_on_def log_on_def e(5,6) row_value_put_entry row_value_put_log)
qed

section \<open>A founder's journal is private\<close>

text \<open>The database as one founder of one workspace sees it.\<close>

definition own_view :: "uid \<Rightarrow> uid \<Rightarrow> 'a journal_db_scheme \<Rightarrow> 'a journal_db_scheme" where
  "own_view st f s = s\<lparr>journal_entries := own_entries s st f, mood_logs := own_logs s st f\<rparr>"

definition others_entries :: "uid \<Rightarrow> uid \<Rightarrow> 'a journal_db_scheme \<Rightarrow> journal_entry list" where
  "others_entries st f s = filter (\<lambda>e. je_startup_id e = st \<longrightarrow> je_founder_id e \<noteq> f) (journal_entries s)"

definition others_logs :: "uid \<Rightarrow> uid \<Rightarrow> 'a journal_db_scheme \<Rightarrow> mood_log list" where
  "others_logs st f s = filter (\<lambda>l. ml_startup_id l = st \<longrightarrow> ml_founder_id l \<noteq> f) (mood_logs s)"

lemma own_view_fields [simp]:
  "memberships (own_view st f s) = memberships s" "startups (own_view st f s) = startups s"
  "own_entries (own_view st f s) st f = own_entries s st f" "own_logs (own_view st f s) st f = own_logs s st f"
  by (simp_all add: own_view_def own_entries_def own_logs_def)

lemma find_own_view: "find_entry (own_view st f s) i st f = find_entry s i st f"
proof -
  have "find (\<lambda>e. je_id e = i \<and> je_startup_id e = st \<and> je_founder_id e = f)
      (filter (\<lambda>e. je_startup_id e = st \<and> je_founder_id e = f) es)
    = find (\<lambda>e. je_id e = i \<and> je_startup_id e = st \<and> je_founder_id e = f) es" for es :: "journal_entry list"
    by (induction es) auto
  then show ?thesis by (simp add: find_entry_def own_view_def own_entries_def)
qed

lemma founder_startup_id: "founder_startup u m s = Inr x \<Longrightarrow> st_id x = m_startup_id m"
  by (auto simp: founder_startup_def startup_by_id_def dest: find_SomeD split: option.splits sum.splits)

lemma filter_upsert_none:
  assumes "\<And>r. P r \<Longrightarrow> \<not> Q r" "\<And>r. P r \<Longrightarrow> \<not> Q (f r)" "\<not> Q new"
  shows "filter Q (upsert_where P f new t) = filter Q t"
proof -
  have "filter Q (update_where P f t) = filter Q t" by (induction t) (use assms in auto)
  then show ?thesis using assms(3) by (simp add: upsert_where_def)
qed

lemma others_put:
  "filter (\<lambda>e. je_startup_id e = st \<longrightarrow> je_founder_id e \<noteq> f) (put_entry now i (st, f, d) v t)
     = filter (\<lambda>e. je_startup_id e = st \<longrightarrow> je_founder_id e \<noteq> f) t"
  "filter (\<lambda>l. ml_startup_id l = st \<longrightarrow> ml_founder_id l \<noteq> f) (put_log now i (st, f, d) w t')
     = filter (\<lambda>l. ml_startup_id l = st \<longrightarrow> ml_founder_id l \<noteq> f) t'"
  unfolding put_entry_def put_log_def
  by (rule filter_upsert_none; auto simp: entry_key_def log_key_def)+

lemma others_saved:
  fixes e e' :: journal_entry
  assumes "distinct (map je_id es)" "e \<in> set es" "je_startup_id e = st" "je_founder_id e = f"
    "je_startup_id e' = st" "je_founder_id e' = f"
  shows "filter (\<lambda>e. je_startup_id e = st \<longrightarrow> je_founder_id e \<noteq> f) (update_where (\<lambda>x. je_id x = je_id e) (\<lambda>_. e') es)
    = filter (\<lambda>e. je_startup_id e = st \<longrightarrow> je_founder_id e \<noteq> f) es"
proof -
  have *: "filter Q (update_where P (\<lambda>_. e') xs) = filter Q xs"
    if "\<And>r. r \<in> set xs \<Longrightarrow> P r \<Longrightarrow> \<not> Q r" "\<not> Q e'" for P Q and xs :: "journal_entry list"
    using that by (induction xs) auto
  show ?thesis by (rule *) (use assms in \<open>auto dest: distinct_mapD\<close>)
qed

lemma others_deleted:
  fixes t :: "'a list"
  assumes "distinct (map k t)" "r \<in> set t" "\<not> Q r"
  shows "filter Q (delete_where (\<lambda>x. k x = k r) t) = filter Q t"
proof -
  have *: "filter Q (delete_where P xs) = filter Q xs" if "\<And>r. r \<in> set xs \<Longrightarrow> P r \<Longrightarrow> \<not> Q r" for P and xs :: "'a list"
    using that by (induction xs) auto
  show ?thesis by (rule *) (use assms in \<open>auto dest: distinct_mapD\<close>)
qed

definition untouched :: "uid \<Rightarrow> uid \<Rightarrow> 'a journal_db_scheme \<Rightarrow> 'a journal_db_scheme \<Rightarrow> bool" where
  "untouched st f s s' \<longleftrightarrow> others_entries st f s' = others_entries st f s \<and> others_logs st f s' = others_logs st f s"

lemma untouched_refl [simp]: "untouched st f s s"
  by (simp add: untouched_def)

lemma create_untouched:
  "m_startup_id m = st \<Longrightarrow> untouched st (u_id u) s (snd (create_journal_entry fk rnd now today b u m s))"
  by (auto simp: create_journal_entry_def create_entry_def commit_then_def upsert_mood_log_def Let_def untouched_def
      others_entries_def others_logs_def others_put dest: founder_startup_id split: sum.split option.split)

lemma update_untouched:
  assumes "journal_inv s" "m_startup_id m = st"
  shows "untouched st (u_id u) s (snd (update_journal_entry fk rnd now i b u m s))"
proof (cases "snd (update_journal_entry fk rnd now i b u m s) = s")
  case False
  then obtain x e e' mood where x: "founder_startup u m s = Inr x"
    and e: "find_entry s i (st_id x) (u_id u) = Inr e" "edited fk rnd b e = Inr e'"
    and s': "snd (update_journal_entry fk rnd now i b u m s)
      = upsert_mood_log now (st_id x) (u_id u) (je_date e') mood (je_stress e') (save_entry now e e' s)"
    by (auto simp: update_journal_entry_def update_entry_def commit_then_def split: sum.splits if_splits)
  note f = find_entry_okD [OF e(1)]
  have "distinct (map je_id (journal_entries s))" using assms(1) by (simp add: journal_inv_def tables_ok_def)
  from others_saved [OF this f(1,3,4), of "e'\<lparr>je_updated_at := now\<rparr>"]
  have "others_entries st (u_id u) (save_entry now e e' s) = others_entries st (u_id u) s"
    using f edited_okD(2) [OF e(2)] founder_startup_id [OF x] assms(2)
    by (simp add: others_entries_def save_entry_def entry_key_def)
  then show ?thesis
    unfolding s' using founder_startup_id [OF x] assms(2)
    by (simp add: untouched_def upsert_mood_log_def others_entries_def others_logs_def others_put save_entry_def)
qed simp

lemma delete_untouched:
  assumes "journal_inv s" "m_startup_id m = st"
  shows "untouched st (u_id u) s (snd (delete_journal_entry i u m s))"
proof (cases "snd (delete_journal_entry i u m s) = s")
  case False
  then obtain x e where x: "founder_startup u m s = Inr x" and e: "find_entry s i (st_id x) (u_id u) = Inr e"
    and s': "snd (delete_journal_entry i u m s) = snd (delete_entry (u_id u) (st_id x) i s)"
    and a: "check_founder_access s (u_id u) (st_id x) = Inr ()"
    by (auto simp: delete_journal_entry_def delete_entry_def commit_then_def split: sum.splits)
  note f = find_entry_okD [OF e] and st = founder_startup_id [OF x] assms(2)
  have d: "distinct (map je_id (journal_entries s))" "distinct (map ml_id (mood_logs s))"
    using assms(1) by (simp_all add: journal_inv_def tables_ok_def)
  have "filter (\<lambda>l. ml_startup_id l = st \<longrightarrow> ml_founder_id l \<noteq> u_id u) (delete_where (\<lambda>x. ml_id x = ml_id l) (mood_logs s))
      = filter (\<lambda>l. ml_startup_id l = st \<longrightarrow> ml_founder_id l \<noteq> u_id u) (mood_logs s)"
    if "find (\<lambda>l. log_key l = (st_id x, u_id u, je_date e)) (mood_logs s) = Some l" for l
    by (rule others_deleted [OF d(2)]) (use find_SomeD [OF that] st in \<open>auto simp: log_key_def\<close>)
  moreover have "filter (\<lambda>e. je_startup_id e = st \<longrightarrow> je_founder_id e \<noteq> u_id u) (delete_where (\<lambda>x. je_id x = je_id e) (journal_entries s))
      = filter (\<lambda>e. je_startup_id e = st \<longrightarrow> je_founder_id e \<noteq> u_id u) (journal_entries s)"
    by (rule others_deleted [OF d(1)]) (use f st in auto)
  ultimately show ?thesis
    unfolding s' using st a e
    by (auto simp: delete_entry_def untouched_def others_entries_def others_logs_def split: option.split)
qed simp

lemma journal_body_untouched:
  assumes "journal_inv s" "m_startup_id m = st"
  shows "untouched st (u_id u) s (snd (journal_body fk rnd now today q u m s))"
  using assms by (cases q) (simp_all add: create_untouched update_untouched delete_untouched)

lemma own_view_answers:
  assumes "m_startup_id m = st"
  shows "list_journal_entries fk o' l q u m (own_view st (u_id u) s) = list_journal_entries fk o' l q u m s"
    "get_mood_trend a b n u m (own_view st (u_id u) s) = get_mood_trend a b n u m s"
    "get_journal_entry fk i u m (own_view st (u_id u) s) = get_journal_entry fk i u m s"
proof -
  have f: "founder_startup u m (own_view st (u_id u) s) = founder_startup u m s"
    by (rule founder_startup_cong) simp_all
  have c: "check_founder_access (own_view st (u_id u) s) x y = check_founder_access s x y" for x y
    by (simp add: check_founder_access_def)
  have i: "st_id x = st" if "founder_startup u m s = Inr x" for x using founder_startup_id [OF that] assms by simp
  have "search_entries fk (u_id u) st y k j (own_view st (u_id u) s) = search_entries fk (u_id u) st y k j s"
    "list_entries (u_id u) st k j (own_view st (u_id u) s) = list_entries (u_id u) st k j s" for y k j
    by (simp_all add: search_entries_def list_entries_def c Let_def cong: sum.case_cong)
  then show "list_journal_entries fk o' l q u m (own_view st (u_id u) s) = list_journal_entries fk o' l q u m s"
    using i by (cases "founder_startup u m s") (simp_all add: list_journal_entries_def f cong: option.case_cong)
  show "get_mood_trend a b n u m (own_view st (u_id u) s) = get_mood_trend a b n u m s"
    using i by (cases "founder_startup u m s") (simp_all add: get_mood_trend_def f mood_trend_def c cong: sum.case_cong)
  show "get_journal_entry fk i u m (own_view st (u_id u) s) = get_journal_entry fk i u m s"
    using i by (cases "founder_startup u m s") (simp_all add: get_journal_entry_def f get_entry_def c find_own_view cong: sum.case_cong)
qed

text \<open>
  C15: a journal is private. A request writes no entry and no log of another founder or of another
  workspace, whoever makes it; what the caller is answered (the listing, the search, an entry by its
  id, the mood trend) is computed from the caller's own rows in that workspace alone.
\<close>

theorem journal_private:
  assumes "journal_reachable decode s" "m_startup_id m = st"
  shows "untouched st (u_id u) s (snd (journal_body fk rnd now today req u m s))
    \<and> list_journal_entries fk skip limit q u m s = list_journal_entries fk skip limit q u m (own_view st (u_id u) s)
    \<and> get_journal_entry fk i u m s = get_journal_entry fk i u m (own_view st (u_id u) s)
    \<and> get_mood_trend a b n u m s = get_mood_trend a b n u m (own_view st (u_id u) s)"
  by (intro conjI journal_body_untouched [OF journal_reachable_inv [OF assms(1)] assms(2)]
      own_view_answers [OF assms(2), symmetric])

section \<open>Search\<close>

lemma insort_key_same_order:
  "(\<And>y. y \<in> set ys \<Longrightarrow> f x \<le> f y \<longleftrightarrow> g x \<le> g y) \<Longrightarrow> insort_key f x ys = insort_key g x ys"
  by (induction ys) auto

lemma sort_key_same_order:
  "(\<And>x y. x \<in> set xs \<Longrightarrow> y \<in> set xs \<Longrightarrow> f x \<le> f y \<longleftrightarrow> g x \<le> g y) \<Longrightarrow> sort_key f xs = sort_key g xs"
proof (induction xs)
  case (Cons a xs)
  then have "sort_key f xs = sort_key g xs" by simp
  moreover have "insort_key f a (sort_key g xs) = insort_key g a (sort_key g xs)"
    by (rule insort_key_same_order) (use Cons.prems in simp)
  ultimately show ?case by simp
qed simp

text \<open>A founder's entries have distinct dates, so both orders of the code are the same.\<close>

lemma own_dates:
  assumes "journal_inv s"
  shows "distinct (map je_date (own_entries s st f))"
proof -
  have "distinct (map entry_key (journal_entries s))"
    using assms agreeD(1) [of "journal_entries s" "mood_logs s"] by (simp add: journal_inv_def tables_ok_def)
  then have "distinct (map entry_key (own_entries s st f))" by (simp add: own_entries_def distinct_map_filter)
  then show ?thesis by (auto simp: distinct_map inj_on_def own_entries_def entry_key_def)
qed

lemma own_order:
  assumes "journal_inv s"
  shows "desc_by (\<lambda>e. (je_date e, je_created_at e)) (own_entries s st f) = desc_by je_date (own_entries s st f)"
  unfolding desc_by_def using own_dates [OF assms, of st f]
  by (intro arg_cong [where f = rev] sort_key_same_order) (auto simp: less_eq_prod_def dest: distinct_mapD)

lemma matching_filter:
  assumes "\<And>e. e \<in> set es \<Longrightarrow> decrypt_content fk (je_content_encrypted e) = Inr (plain e)"
  shows "matching_entries fk needle es = Inr (filter (\<lambda>e. contains needle (py_lower (plain e))) es)"
  using assms by (induction es) auto

definition newest_first :: "'a journal_db_scheme \<Rightarrow> uid \<Rightarrow> uid \<Rightarrow> journal_entry list" where
  "newest_first s st f = desc_by je_date (own_entries s st f)"

lemma sorted_desc_strict:
  fixes k :: "'r \<Rightarrow> 'k::linorder"
  shows "sorted_wrt (\<lambda>a b. k b \<le> k a) xs \<Longrightarrow> distinct (map k xs) \<Longrightarrow> sorted_wrt (\<lambda>a b. k b < k a) xs"
  by (induction xs) (auto simp: less_le image_iff)

lemma newest_first_strict:
  assumes "journal_inv s"
  shows "sorted_wrt (\<lambda>a b. je_date b < je_date a) (newest_first s st f)"
proof -
  show ?thesis unfolding newest_first_def
    by (rule sorted_desc_strict [OF desc_by_sorted distinct_desc_by [OF own_dates [OF assms]]])
qed

text \<open>
  When the founder's entries can be read, the search is the listing filtered by plaintext: it finds
  the entries whose text contains the trimmed query without regard to case, newest day first, each
  once, and reports their number; its pages of any length together are all of them; and a query
  of spaces answers what the plain listing answers.
\<close>

theorem search_spec:
  assumes "journal_reachable decode s" "check_founder_access s f st = Inr ()"
    "\<forall>e \<in> set (own_entries s st f). decrypt_content fk (je_content_encrypted e) = Inr (plain e)"
  defines "hits q \<equiv> filter (\<lambda>e. contains (py_lower (strip q)) (py_lower (plain e))) (newest_first s st f)"
  shows "search_entries fk f st q limit offset s = Inr (py_slice offset limit (hits q), length (hits q))
    \<and> sorted_wrt (\<lambda>a b. je_date b < je_date a) (hits q)
    \<and> (length (hits q) \<le> n * limit \<longrightarrow>
         concat (map (\<lambda>k. case search_entries fk f st q limit (k * limit) s of Inl _ \<Rightarrow> [] | Inr (es, _) \<Rightarrow> es) [0..<n]) = hits q)
    \<and> (blank q \<longrightarrow> search_entries fk f st q limit offset s = list_entries f st limit offset s)"
proof -
  note inv = journal_reachable_inv [OF assms(1)]
  have r: "search_entries fk f st q limit offset s = Inr (py_slice offset limit (hits q), length (hits q))" for offset
  proof (cases "py_lower (strip q) = []")
    case True
    then have "hits q = newest_first s st f" by (simp add: hits_def contains_def)
    then show ?thesis using True assms(2) by (simp add: search_entries_def newest_first_def)
  next
    case False
    then show ?thesis
      using assms(2) matching_filter [of "newest_first s st f" fk plain "py_lower (strip q)"] assms(3)
      by (simp add: search_entries_def newest_first_def hits_def)
  qed
  have "sorted_wrt (\<lambda>a b. je_date b < je_date a) (hits q)"
    unfolding hits_def by (rule sorted_wrt_filter [OF newest_first_strict [OF inv]])
  moreover have "length (hits q) \<le> n * limit \<longrightarrow>
      concat (map (\<lambda>k. case search_entries fk f st q limit (k * limit) s of Inl _ \<Rightarrow> [] | Inr (es, _) \<Rightarrow> es) [0..<n]) = hits q"
    by (simp add: r concat_pages)
  moreover have "blank q \<longrightarrow> search_entries fk f st q limit offset s = list_entries f st limit offset s"
    using assms(2) own_order [OF inv, of st f]
    by (simp add: blank_def search_entries_def list_entries_def Let_def)
  ultimately show ?thesis using r by simp
qed

section \<open>Errors of an update\<close>

text \<open>
  Changing the mood of an entry whose text cannot be decrypted answers an error, and is stored all
  the same: the handler commits before it builds the response that fails.
\<close>

theorem unreadable_update_saved:
  assumes "journal_reachable decode s" "founder_startup u m s = Inr x" "find_entry s i (st_id x) (u_id u) = Inr e"
    "decrypt_content fk (je_content_encrypted e) = Inl err"
  shows "\<exists>s'. update_journal_entry fk rnd now i \<lparr>ju_content = None, ju_mood = Some (Some mood), ju_stress = None\<rparr> u m s
      = (Inl err, s')
    \<and> entry_on s' (st_id x) (u_id u) (je_date e) = Some (je_content_encrypted e, mood_to_score mood, je_stress e)
    \<and> log_on s' (st_id x) (u_id u) (je_date e) = Some (mood_to_score mood, je_stress e)"
proof -
  let ?b = "\<lparr>ju_content = None, ju_mood = Some (Some mood), ju_stress = None\<rparr>"
  let ?e = "e\<lparr>je_mood := mood_to_score mood\<rparr>"
  let ?s = "upsert_mood_log now (st_id x) (u_id u) (je_date e) mood (je_stress e) (save_entry now e ?e s)"
  note inv = journal_reachable_inv [OF assms(1)] and f = find_entry_okD [OF assms(3)]
  have "check_founder_access s (u_id u) (st_id x) = Inr ()"
    using assms(2) by (simp add: founder_startup_def split: option.splits sum.splits)
  then have u: "update_journal_entry fk rnd now i ?b u m s = (Inl err, ?s)"
    using assms(2-4)
    by (simp add: update_journal_entry_def valid_update_def commit_then_def update_entry_def edited_def set_content_def
        set_mood_def set_stress_def entry_response_of_def get_entry_content_def saved_entry_def)
  have d: "distinct (map entry_key (journal_entries s))" "distinct (map je_id (journal_entries s))"
    using inv agreeD(1) [of "journal_entries s" "mood_logs s"] by (simp_all add: journal_inv_def tables_ok_def)
  have k: "entry_key e = (st_id x, u_id u, je_date e)" using f by (simp add: entry_key_def)
  have "row_value entry_key entry_val (journal_entries (save_entry now e ?e s)) (entry_key e) = Some (entry_val ?e)"
  proof (cases "?e = e")
    case True
    then show ?thesis using row_value_row [OF d(1) f(1), of entry_val] by (simp add: save_entry_def)
  next
    case False
    let ?n = "?e\<lparr>je_updated_at := now\<rparr>"
    have "row_value entry_key entry_val (upsert_where (\<lambda>r. entry_key r = entry_key e) (\<lambda>_. ?n) ?n (journal_entries s))
        = (row_value entry_key entry_val (journal_entries s))(entry_key e \<mapsto> entry_val ?e)"
      by (rule row_value_upsert) (simp_all add: entry_key_def entry_val_def)
    then show ?thesis
      using False update_as_upsert [OF f(1), of entry_key "entry_key e" "\<lambda>_. ?n" ?n]
      by (simp add: save_entry_def update_where_by_key [OF d(2,1) f(1)])
  qed
  then have "entry_on ?s (st_id x) (u_id u) (je_date e) = Some (je_content_encrypted e, mood_to_score mood, je_stress e)"
    using k by (simp add: entry_on_def upsert_mood_log_def entry_val_def)
  moreover have "log_on ?s (st_id x) (u_id u) (je_date e) = Some (mood_to_score mood, je_stress e)"
    by (simp add: log_on_def upsert_mood_log_def row_value_put_log)
  ultimately show ?thesis using u by blast
qed

text \<open>A \<^verbatim>\<open>null\<close> stress is refused in the name of the content.\<close>

lemma null_stress_blames_content:
  "set_stress (Some None) entry = Inl (validation_error [''content''])"
  by (simp add: set_stress_def)

end
