(* ===== verification/Journal_Samples.thy ===== *)
theory Journal_Samples
  imports Journal_Reading Roadmap_Requests
begin

text \<open>
  The journal of a founder over two days, evaluated, at which the properties of the journal are
  witnessed; the encryption is a marker in front of the text.
\<close>

definition marker_fernet :: fernet where
  "marker_fernet = \<lparr>fk_key = ''k'', fk_valid = (\<lambda>_. True), fk_encrypt = (\<lambda>_ _ x. CHR ''!'' # x),
     fk_decrypt = (\<lambda>_ t. case t of [] \<Rightarrow> None | c # x \<Rightarrow> if c = CHR ''!'' then Some x else None)\<rparr>"

definition journal_ground :: "unit journal_db_scheme" where
  "journal_ground = notif_db.extend (empty_notif_db\<lparr>fresh := 40, users := [sample_founder],
       startups := [sample_startup], memberships := [sample_member 7 MR_founder MS_active]\<rparr>)
     (journal_db.fields [] [])"

definition journal_call_of :: "journal_request \<Rightarrow> journal_call" where
  "journal_call_of q = \<lparr>jq_credential = Some [], jq_workspace = 9, jq_random = 3, jq_now = 5, jq_today = 101, jq_request = q\<rparr>"

definition journal_after :: "journal_request list \<Rightarrow> unit journal_db_scheme" where
  "journal_after qs = foldl (\<lambda>s q. snd (serve_journal marker_fernet (\<lambda>_. Some (JUid 7)) (journal_call_of q) s)) journal_ground qs"

definition day_note :: "day \<Rightarrow> string \<Rightarrow> journal_entry_create" where
  "day_note d c = \<lparr>jc_date = d, jc_content = c, jc_mood = JM_good, jc_stress = 3\<rparr>"

definition two_days :: "unit journal_db_scheme" where
  "two_days = journal_after [JQ_create (day_note 100 ''Met Ana''), JQ_create (day_note 101 ''Rest'')]"

lemma journal_after_reachable: "journal_reachable (\<lambda>_. Some (JUid 7)) (journal_after qs)"
proof (induction qs rule: rev_induct)
  case Nil
  show ?case unfolding journal_after_def foldl_Nil
    by (rule journal_reachable.start) (simp_all add: journal_ground_def notif_db.defs journal_db.defs)
next
  case (snoc q qs)
  then show ?case by (simp add: journal_after_def journal_reachable.request)
qed

lemma two_days_reachable: "journal_reachable (\<lambda>_. Some (JUid 7)) two_days"
  unfolding two_days_def by (rule journal_after_reachable)

lemma marker_law: "fernet_law marker_fernet"
  by (simp add: fernet_law_def marker_fernet_def)

lemma founder_startup_ground:
  assumes "memberships s = [sample_member 7 MR_founder MS_active]" "startups s = [sample_startup]"
  shows "founder_startup sample_founder (sample_member 7 MR_founder MS_active) s = Inr sample_startup"
  using assms
  by (simp add: founder_startup_def startup_by_id_def check_founder_access_def sample_member_def sample_startup_def
      sample_founder_def)

lemma check_ground:
  "memberships s = [sample_member 7 MR_founder MS_active] \<Longrightarrow> check_founder_access s 7 9 = Inr ()"
  by (simp add: check_founder_access_def sample_member_def)

lemma serve_journal_eval:
  assumes "users s = [sample_founder]" "memberships s = [sample_member 7 MR_founder MS_active]"
  shows "snd (serve_journal marker_fernet (\<lambda>_. Some (JUid 7)) (journal_call_of q) s) =
     snd (journal_body marker_fernet 3 5 101 q sample_founder (sample_member 7 MR_founder MS_active) s)"
  using assms by (simp add: serve_journal_def journal_call_of_def member_request_def workspace_guard_def
      get_current_user_def resolve_workspace_def require_role_def get_verified_user_def sample_founder_def sample_member_def)

lemma create_eval:
  assumes "memberships s = [sample_member 7 MR_founder MS_active]" "startups s = [sample_startup]"
    "d \<le> 101" "\<not> blank c"
  shows "snd (create_journal_entry marker_fernet 3 5 101 (day_note d c) sample_founder (sample_member 7 MR_founder MS_active) s)
    = s\<lparr>fresh := Suc (Suc (fresh s)),
        journal_entries := put_entry 5 (fresh s) (9, 7, d) (CHR ''!'' # c, 4, 3) (journal_entries s),
        mood_logs := put_log 5 (Suc (fresh s)) (9, 7, d) (4, 3) (mood_logs s)\<rparr>"
proof -
  have a: "st_id sample_startup = 9" "u_id sample_founder = 7" by (simp_all add: sample_startup_def sample_founder_def)
  obtain e s' where "create_entry marker_fernet 3 5 7 9 (day_note d c) s = (Inr e, s')"
    by (rule create_entry_result [OF check_ground [OF assms(1)], of marker_fernet 3 "day_note d c" "CHR ''!'' # c" 5])
      (simp_all add: encrypt_content_def get_fernet_def marker_fernet_def day_note_def)
  moreover from this have "s' = s\<lparr>fresh := Suc (Suc (fresh s)),
        journal_entries := put_entry 5 (fresh s) (9, 7, d) (CHR ''!'' # c, 4, 3) (journal_entries s),
        mood_logs := put_log 5 (Suc (fresh s)) (9, 7, d) (4, 3) (mood_logs s)\<rparr>"
    by (simp add: create_entry_def check_ground [OF assms(1)] encrypt_content_def get_fernet_def marker_fernet_def
        day_note_def Let_def upsert_mood_log_def split: option.splits) (auto simp: journal_db.defs)
  moreover have "valid_create 101 (day_note d c) = []" using assms(3,4) by (auto simp: valid_create_def day_note_def blank_iff)
  ultimately show ?thesis
    using founder_startup_ground [OF assms(1,2)] a by (simp add: create_journal_entry_def commit_then_def)
qed

definition first_entry :: journal_entry where
  "first_entry = \<lparr>je_id = 40, je_startup_id = 9, je_founder_id = 7, je_date = 100, je_content_encrypted = ''!Met Ana'',
     je_mood = 4, je_stress = 3, je_created_at = 5, je_updated_at = 5\<rparr>"

definition second_entry :: journal_entry where
  "second_entry = \<lparr>je_id = 42, je_startup_id = 9, je_founder_id = 7, je_date = 101, je_content_encrypted = ''!Rest'',
     je_mood = 4, je_stress = 3, je_created_at = 5, je_updated_at = 5\<rparr>"

lemma not_blank_samples: "\<not> blank ''Met Ana''" "\<not> blank ''Rest''"
  by (simp_all add: blank_iff is_space_def)

lemma two_days_fields:
  "journal_entries two_days = [first_entry, second_entry]"
  "map log_val (mood_logs two_days) = [(4, 3), (4, 3)]"
  "memberships two_days = [sample_member 7 MR_founder MS_active]" "startups two_days = [sample_startup]"
  "users two_days = [sample_founder]"
proof -
  let ?s = "journal_after [JQ_create (day_note 100 ''Met Ana'')]"
  have g: "users journal_ground = [sample_founder]" "memberships journal_ground = [sample_member 7 MR_founder MS_active]"
    "startups journal_ground = [sample_startup]" "journal_entries journal_ground = []" "mood_logs journal_ground = []"
    "fresh journal_ground = 40"
    by (simp_all add: journal_ground_def notif_db.defs journal_db.defs)
  have s: "?s = journal_ground\<lparr>fresh := 42, journal_entries := put_entry 5 40 (9, 7, 100) (''!Met Ana'', 4, 3) [],
        mood_logs := put_log 5 41 (9, 7, 100) (4, 3) []\<rparr>"
    by (simp add: journal_after_def serve_journal_eval g create_eval not_blank_samples)
  have t: "two_days = ?s\<lparr>fresh := 44, journal_entries := put_entry 5 42 (9, 7, 101) (''!Rest'', 4, 3) (journal_entries ?s),
        mood_logs := put_log 5 43 (9, 7, 101) (4, 3) (mood_logs ?s)\<rparr>"
    by (simp add: two_days_def journal_after_def serve_journal_eval g create_eval not_blank_samples)
  show "journal_entries two_days = [first_entry, second_entry]"
    "map log_val (mood_logs two_days) = [(4, 3), (4, 3)]"
    "memberships two_days = [sample_member 7 MR_founder MS_active]" "startups two_days = [sample_startup]"
    "users two_days = [sample_founder]"
    unfolding t s
    by (simp_all add: g put_entry_def put_log_def upsert_where_def entry_key_def log_key_def first_entry_def
        second_entry_def log_val_def)
qed

section \<open>Witnesses\<close>

theorem journal_histories_witness:
  "entry_on two_days 9 7 100 = Some (''!Met Ana'', 4, 3) \<and> log_on two_days 9 7 100 = Some (4, 3)"
proof -
  have "entry_on two_days 9 7 100 = Some (''!Met Ana'', 4, 3)"
    by (simp add: entry_on_def row_value_def two_days_fields(1) entry_key_def entry_val_def first_entry_def)
  moreover have "log_on two_days 9 7 100 = map_option snd (entry_on two_days 9 7 100)"
    using journal_histories [OF two_days_reachable] by blast
  ultimately show ?thesis by simp
qed

theorem journal_answers_witness:
  "fst (serve_journal marker_fernet (\<lambda>_. Some (JUid 7)) (journal_call_of (JQ_get 77)) two_days) \<noteq> Inl (Uncaught ''ValueError'')"
  by (rule journal_answers [OF two_days_reachable])

theorem journal_round_trip_witness:
  "\<exists>r s'. create_journal_entry marker_fernet 3 5 101 (day_note 99 ''Met Ana'') sample_founder
       (sample_member 7 MR_founder MS_active) two_days = (Inr r, s')
     \<and> er_content r = ''Met Ana'' \<and> get_journal_entry marker_fernet (er_id r) sample_founder
         (sample_member 7 MR_founder MS_active) s' = Inr r"
proof -
  let ?c = "create_journal_entry marker_fernet 3 5 101 (day_note 99 ''Met Ana'') sample_founder
       (sample_member 7 MR_founder MS_active) two_days"
  have "valid_create 101 (day_note 99 ''Met Ana'') = []" using not_blank_samples by (auto simp: valid_create_def day_note_def)
  moreover obtain e s' where e: "create_entry marker_fernet 3 5 7 9 (day_note 99 ''Met Ana'') two_days = (Inr e, s')"
    "entry_val e = (''!Met Ana'', 4, 3)"
    by (rule create_entry_result [OF check_ground [OF two_days_fields(3)], of marker_fernet 3 "day_note 99 ''Met Ana''" "''!Met Ana''" 5])
      (simp_all add: encrypt_content_def get_fernet_def marker_fernet_def day_note_def)
  moreover have "is_ok (entry_response_of marker_fernet e)"
    using e(2) by (simp add: entry_response_of_def get_entry_content_def decrypt_content_def get_fernet_def
        marker_fernet_def entry_val_def score_to_mood_def)
  then obtain r where "entry_response_of marker_fernet e = Inr r" by (cases "entry_response_of marker_fernet e") simp_all
  ultimately have c: "?c = (Inr r, s')"
    using founder_startup_ground [OF two_days_fields(3,4)]
    by (simp add: create_journal_entry_def commit_then_def sample_startup_def sample_founder_def)
  from journal_round_trip [OF two_days_reachable marker_law this]
  have "er_content r = ''Met Ana''" "get_journal_entry marker_fernet (er_id r) sample_founder
      (sample_member 7 MR_founder MS_active) s' = Inr r"
    by (simp_all add: day_note_def)
  with c show ?thesis by blast
qed

theorem journal_private_witness:
  "others_entries 9 7 (snd (journal_body marker_fernet 3 5 101 (JQ_delete 40) sample_founder
      (sample_member 7 MR_founder MS_active) two_days)) = []"
proof -
  have m: "m_startup_id (sample_member 7 MR_founder MS_active) = 9" by (simp add: sample_member_def)
  have "others_entries 9 7 two_days = []"
    by (simp add: others_entries_def two_days_fields(1) first_entry_def second_entry_def)
  then show ?thesis
    using conjunct1 [OF journal_private [OF two_days_reachable m, where u = sample_founder
        and fk = marker_fernet and rnd = 3 and now = 5 and today = 101 and req = "JQ_delete 40"]]
    by (simp add: untouched_def sample_founder_def del: journal_body.simps)
qed

lemma newest_two_days: "newest_first two_days 9 7 = [second_entry, first_entry]"
  by (simp add: newest_first_def desc_by_def own_entries_def two_days_fields(1) first_entry_def second_entry_def)

theorem search_spec_witness:
  "search_entries marker_fernet 7 9 '' ana '' 10 0 two_days = Inr ([first_entry], 1)"
proof -
  have read: "\<forall>e \<in> set (own_entries two_days 9 7).
      decrypt_content marker_fernet (je_content_encrypted e) = Inr (tl (je_content_encrypted e))"
    by (simp add: own_entries_def two_days_fields(1) first_entry_def second_entry_def decrypt_content_def
        get_fernet_def marker_fernet_def)
  have "filter (\<lambda>e. contains (py_lower (strip '' ana '')) (py_lower (tl (je_content_encrypted e)))) (newest_first two_days 9 7)
      = [first_entry]"
    by (simp add: newest_two_days first_entry_def second_entry_def contains_def strip_def lstrip_def is_space_def
        py_lower_def py_lower_char_def char_of_odd sublist_Cons_right)
  then show ?thesis
    using search_spec [OF two_days_reachable check_ground [OF two_days_fields(3)] read,
        where q = "'' ana ''" and limit = 10 and offset = 0] by (simp add: py_slice_def)
qed

text \<open>The key is lost: a wrong marker is found in front of the text.\<close>

definition other_key :: fernet where
  "other_key = marker_fernet\<lparr>fk_decrypt := (\<lambda>_ _. None)\<rparr>"

theorem unreadable_update_saved_witness:
  "\<exists>s'. update_journal_entry other_key 3 6 40 \<lparr>ju_content = None, ju_mood = Some (Some JM_rough), ju_stress = None\<rparr>
      sample_founder (sample_member 7 MR_founder MS_active) two_days = (Inl JournalContentUnreadable, s')
    \<and> entry_on s' 9 7 100 = Some (''!Met Ana'', 1, 3)"
proof -
  have f: "find_entry two_days 40 (st_id sample_startup) (u_id sample_founder) = Inr first_entry"
    by (simp add: find_entry_def two_days_fields(1) first_entry_def sample_startup_def sample_founder_def)
  have d: "decrypt_content other_key (je_content_encrypted first_entry) = Inl JournalContentUnreadable"
    by (simp add: decrypt_content_def get_fernet_def other_key_def marker_fernet_def)
  obtain s' where "update_journal_entry other_key 3 6 40
      \<lparr>ju_content = None, ju_mood = Some (Some JM_rough), ju_stress = None\<rparr>
      sample_founder (sample_member 7 MR_founder MS_active) two_days = (Inl JournalContentUnreadable, s')"
    "entry_on s' (st_id sample_startup) (u_id sample_founder) (je_date first_entry)
      = Some (je_content_encrypted first_entry, mood_to_score JM_rough, je_stress first_entry)"
    using unreadable_update_saved [OF two_days_reachable founder_startup_ground [OF two_days_fields(3,4)] f d,
        where mood = JM_rough and now = 6 and rnd = 3] by blast
  then show ?thesis by (auto simp: sample_startup_def sample_founder_def first_entry_def)
qed

end
