(* ===== verification/Doc_Requests.thy ===== *)
theory Doc_Requests
  imports Doc_Inv Monotone_Rows
begin

text \<open>
  The requests that write the document tables, the public links included, their histories, and what
  only moves forward along them: the version of a document, the status of a signature request, a
  recorded signature.
\<close>

datatype doc_request =
    DQ_create document_create
  | DQ_save uid document_save
  | DQ_delete uid
  | DQ_upload "string option" string int "string option"
  | DQ_delete_file uid
  | DQ_share uid string share_access "int option"
  | DQ_revoke uid uid
  | DQ_request uid "signer_input list" "string option" "int option"
  | DQ_remind uid
  | DQ_cancel uid

text \<open>\<open>raws\<close> are the tokens the request draws.\<close>

fun doc_body ::
    "(string \<Rightarrow> string) \<Rightarrow> (storage_key \<Rightarrow> string) \<Rightarrow> instant \<Rightarrow> (nat \<Rightarrow> string) \<Rightarrow> doc_request \<Rightarrow> user \<Rightarrow> membership
     \<Rightarrow> 'a documents_db_scheme \<Rightarrow> unit result \<times> 'a documents_db_scheme" where
  "doc_body hash url_of now raws (DQ_create b) u m s = map_prod ignore id (create_document_endpoint now b m s)"
| "doc_body hash url_of now raws (DQ_save i b) u m s = map_prod ignore id (update_document_endpoint now i b m s)"
| "doc_body hash url_of now raws (DQ_delete i) u m s = map_prod ignore id (delete_document_endpoint i m s)"
| "doc_body hash url_of now raws (DQ_upload n t k f) u m s =
     map_prod ignore id (upload_document_file url_of now n t k f m s)"
| "doc_body hash url_of now raws (DQ_delete_file i) u m s = map_prod ignore id (delete_document_file now i m s)"
| "doc_body hash url_of now raws (DQ_share i e a n) u m s =
     map_prod ignore id (create_share_endpoint hash now (raws 0) i e a n m s)"
| "doc_body hash url_of now raws (DQ_revoke i j) u m s = map_prod ignore id (revoke_share_endpoint now i j m s)"
| "doc_body hash url_of now raws (DQ_request i g t n) u m s =
     map_prod ignore id (create_signature_request_endpoint hash now raws i g t n m s)"
| "doc_body hash url_of now raws (DQ_remind i) u m s =
     map_prod ignore id (remind_signature_request_endpoint hash now raws i m s)"
| "doc_body hash url_of now raws (DQ_cancel i) u m s = map_prod ignore id (cancel_signature_request_endpoint now i m s)"

record doc_call =
  dq_credential :: "string option"
  dq_workspace :: uid
  dq_now :: instant
  dq_raws :: "nat \<Rightarrow> string"
  dq_request :: doc_request

definition serve_documents ::
    "(string \<Rightarrow> string) \<Rightarrow> (storage_key \<Rightarrow> string) \<Rightarrow> (string \<Rightarrow> json option) \<Rightarrow> doc_call \<Rightarrow> 'a documents_db_scheme
     \<Rightarrow> unit result \<times> 'a documents_db_scheme" where
  "serve_documents hash url_of decode q s =
     member_request decode (dq_credential q) (dq_workspace q) document_roles
       (doc_body hash url_of (dq_now q) (dq_raws q) (dq_request q)) s"

text \<open>
  \<open>generated\<close> is the worker, which stores a business plan as a document (\<^verbatim>\<open>app/worker/handlers/plan.py\<close>); \<open>elsewhere\<close>
  is the rest of the application, which writes none of these tables.
\<close>

inductive doc_step ::
    "(string \<Rightarrow> string) \<Rightarrow> (storage_key \<Rightarrow> string) \<Rightarrow> (string \<Rightarrow> json option) \<Rightarrow> 'a documents_db_scheme
     \<Rightarrow> 'a documents_db_scheme \<Rightarrow> bool"
  for hash :: "string \<Rightarrow> string" and url_of :: "storage_key \<Rightarrow> string" and decode :: "string \<Rightarrow> json option" where
  request: "doc_step hash url_of decode s (snd (serve_documents hash url_of decode q s))"
| open_link: "doc_step hash url_of decode s (snd (open_shared_endpoint hash now token s))"
| sign_link: "doc_step hash url_of decode s (snd (sign_endpoint hash now token name ip ua s))"
| generated: "create_document now st u k t secs f tk ai s = (Inr d, s') \<Longrightarrow> doc_step hash url_of decode s s'"
| elsewhere: "documents s' = documents s \<Longrightarrow> document_files s' = document_files s
    \<Longrightarrow> document_shares s' = document_shares s \<Longrightarrow> signature_requests s' = signature_requests s
    \<Longrightarrow> signature_signers s' = signature_signers s \<Longrightarrow> blobs s' = blobs s \<Longrightarrow> fresh s \<le> fresh s'
    \<Longrightarrow> doc_step hash url_of decode s s'"

definition no_documents :: "'a documents_db_scheme \<Rightarrow> bool" where
  "no_documents s \<longleftrightarrow> documents s = [] \<and> document_files s = [] \<and> document_shares s = []
     \<and> signature_requests s = [] \<and> signature_signers s = []"

definition doc_reachable ::
    "(string \<Rightarrow> string) \<Rightarrow> (storage_key \<Rightarrow> string) \<Rightarrow> (string \<Rightarrow> json option) \<Rightarrow> 'a documents_db_scheme \<Rightarrow> bool" where
  "doc_reachable hash url_of decode s \<longleftrightarrow> (\<exists>s0. no_documents s0 \<and> (doc_step hash url_of decode)\<^sup>*\<^sup>* s0 s)"

lemma doc_reachable_step: "doc_reachable hash url_of decode s \<Longrightarrow> doc_step hash url_of decode s s' \<Longrightarrow> doc_reachable hash url_of decode s'"
  unfolding doc_reachable_def by (meson rtranclp.rtrancl_into_rtrancl)

lemma doc_reachable_steps:
  "doc_reachable hash url_of decode s \<Longrightarrow> (doc_step hash url_of decode)\<^sup>*\<^sup>* s s' \<Longrightarrow> doc_reachable hash url_of decode s'"
  unfolding doc_reachable_def by (meson rtranclp_trans)

section \<open>What a committed request did\<close>

text \<open>
  Every operation that ends well: the invariant holds after it and the rows of three tables moved
  forward.
\<close>

definition document_value :: "document \<Rightarrow> int \<times> string \<times> doc_section list \<times> document_status \<times> string option" where
  "document_value d = (d_version d, d_title d, d_sections d, d_status d, d_folder d)"

definition signature_of :: "signature_signer \<Rightarrow> (instant \<times> string option \<times> string option \<times> string option) option" where
  "signature_of x = map_option (\<lambda>t. (t, ss_signed_name x, ss_signed_ip x, ss_signed_user_agent x)) (ss_signed_at x)"

definition status_le :: "signature_request_status \<Rightarrow> signature_request_status \<Rightarrow> bool" where
  "status_le a b \<longleftrightarrow> a = SR_awaiting \<or> a = b"

lemma status_le_refl [simp]: "status_le a a"
  by (simp add: status_le_def)

definition doc_moves :: "'a documents_db_scheme \<Rightarrow> 'a documents_db_scheme \<Rightarrow> bool" where
  "doc_moves s s' \<longleftrightarrow> fresh s \<le> fresh s'
     \<and> moves d_id document_value version_le (fresh s) (documents s) (documents s')
     \<and> moves sr_id sr_status status_le (fresh s) (signature_requests s) (signature_requests s')
     \<and> moves ss_id signature_of recorded_le (fresh s) (signature_signers s) (signature_signers s')"

lemma doc_moves_frame:
  assumes "fresh s \<le> fresh s'" "documents s' = documents s" "signature_requests s' = signature_requests s"
    "signature_signers s' = signature_signers s"
  shows "doc_moves s s'"
  using assms by (simp add: doc_moves_def moves_refl)

lemma doc_moves_publish: "doc_moves s s' \<Longrightarrow> doc_moves s (publish now e p s')"
  using publish_fresh [of s' now e p] by (simp add: doc_moves_def)

definition committed :: "'a documents_db_scheme \<Rightarrow> 'a documents_db_scheme \<Rightarrow> bool" where
  "committed s s' \<longleftrightarrow> doc_inv s' \<and> doc_moves s s'"

lemma committed_refl: "doc_inv s \<Longrightarrow> committed s s"
  by (simp add: committed_def doc_moves_frame)

lemma doc_tx_committed:
  assumes "doc_inv s" "\<And>a s'. f s = (Inr a, s') \<Longrightarrow> committed s s'"
    "\<And>e s'. f s = (Inl e, s') \<Longrightarrow> set (blobs s) \<subseteq> set (blobs s')"
  shows "committed s (snd (doc_tx f s))"
proof -
  have "doc_inv (snd (doc_tx f s))"
    by (rule doc_tx_inv [OF assms(1)]) (use assms(2,3) in \<open>auto simp: committed_def\<close>)
  moreover have "doc_moves s (snd (doc_tx f s))"
  proof (cases "f s")
    case (Pair r s')
    then show ?thesis
      using assms(2) by (cases r) (auto simp: doc_tx_def committed_def intro!: doc_moves_frame)
  qed
  ultimately show ?thesis by (simp add: committed_def)
qed

lemma doc_ids:
  assumes "doc_inv s"
  shows "distinct (map d_id (documents s))" "distinct (map sr_id (signature_requests s))"
    "distinct (map ss_id (signature_signers s))"
  using assms by (simp_all add: doc_inv_def docs_ok_def requests_ok_def)

lemma doc_moves_from:
  assumes "doc_moves s1 s'" "fresh s \<le> fresh s1" "documents s1 = documents s"
    "signature_requests s1 = signature_requests s" "signature_signers s1 = signature_signers s"
  shows "doc_moves s s'"
  using assms unfolding doc_moves_def by (auto intro: moves_less [OF _ assms(2)])

lemma create_endpoint_committed:
  assumes "doc_inv s"
  shows "committed s (snd (create_document_endpoint now b m s))"
  unfolding create_document_endpoint_def
proof (rule doc_tx_committed [OF assms])
  obtain n where n: "fresh s \<le> n" "snd (starting_point b s) = s\<lparr>fresh := n\<rparr>" using starting_point_frame [of s b] by blast
  then have sp: "starting_point b s = (fst (starting_point b s), s\<lparr>fresh := n\<rparr>)" by (metis prod.collapse)
  let ?f = "\<lambda>s. case startup_one m s of Inl e \<Rightarrow> (Inl e, s) | Inr startup \<Rightarrow>
          (case starting_point b s of (Inl e, s1) \<Rightarrow> (Inl e, s1)
           | (Inr (kind, title, secs), s1) \<Rightarrow>
               (case create_document now (st_id startup) (m_user_id m) kind title (map section_json secs)
                       (dc_folder b) (dc_template_key b) False s1 of
                  (Inl e, s2) \<Rightarrow> (Inl e, s2) | (Inr doc, s2) \<Rightarrow> (Inr (serialize_document doc), s2)))"
  show "committed s s'" if e: "?f s = (Inr a, s')" for a s'
  proof -
    obtain x :: startup and kind title secs doc where c: "create_document now (st_id x) (m_user_id m) kind title (map section_json secs)
        (dc_folder b) (dc_template_key b) False (s\<lparr>fresh := n\<rparr>) = (Inr doc, s')"
      using e sp by (auto split: sum.splits prod.splits)
    have "doc_inv s'" by (rule create_document_keeps [OF doc_inv_fresh [OF assms n(1)] c])
    moreover have "doc_moves (s\<lparr>fresh := n\<rparr>) s'"
      using create_document_shape [OF c] by (auto simp: doc_moves_def moves_refl intro: moves_append)
    ultimately show ?thesis using n(1) doc_moves_from [of "s\<lparr>fresh := n\<rparr>" s' s] by (simp add: committed_def)
  qed
  show "set (blobs s) \<subseteq> set (blobs s')" if e: "?f s = (Inl err, s')" for err s'
    using e sp by (auto dest: create_document_shape split: sum.splits prod.splits)
qed

lemma get_document_okD: "get_document s m i = Inr d \<Longrightarrow> d \<in> set (documents s) \<and> d_startup_id d = m_startup_id m \<and> d_id d = i"
  by (auto simp: get_document_def dest: find_SomeD split: option.splits)

lemma get_file_okD: "get_file s m i = Inr f \<Longrightarrow> f \<in> set (document_files s) \<and> df_startup_id f = m_startup_id m \<and> df_id f = i"
  by (auto simp: get_file_def dest: find_SomeD split: option.splits)

lemma get_request_okD:
  "get_request s m i = Inr r \<Longrightarrow> r \<in> set (signature_requests s) \<and> sr_startup_id r = m_startup_id m \<and> sr_id r = i"
  by (auto simp: get_request_def dest: find_SomeD split: option.splits)

text \<open>A save moves its own row to the next version.\<close>

lemma update_document_moves:
  assumes inv: "doc_inv s" and d: "d \<in> set (documents s)" and u: "update_document now d t secs stat f v s = (r, s')"
  shows "blobs s' = blobs s \<and> (\<forall>d'. r = Inr d' \<longrightarrow> doc_moves s s')"
proof -
  obtain n where n: "fresh s \<le> n" "validate_sections secs s = (fst (validate_sections secs s), s\<lparr>fresh := n\<rparr>)"
    by (rule validate_sections_cases)
  have "moves d_id document_value version_le k (documents s) (update_where (\<lambda>x. d_id x = d_id d) (\<lambda>_. d') (documents s))"
    if d': "d_id d' = d_id d" "d_version d' = d_version d + 1" for d' k
  proof -
    let ?f = "\<lambda>x. if d_id x = d_id d then d' else x"
    have eq: "update_where (\<lambda>x. d_id x = d_id d) (\<lambda>_. d') (documents s) = update_where (\<lambda>x. d_id x = d_id d) ?f (documents s)"
      unfolding update_where_def by (rule map_cong) auto
    have "x = d" if "x \<in> set (documents s)" "d_id x = d_id d" for x
      using that d doc_ids(1) [OF inv] by (auto dest: distinct_mapD)
    then show ?thesis unfolding eq
      by (intro moves_update) (use d' in \<open>auto simp: version_le_def document_value_def\<close>)
  qed
  then show ?thesis
    using u n
    by (cases "fst (validate_sections secs s)")
      (auto simp: update_document_def Let_def doc_moves_def moves_refl split: if_splits)
qed

lemma save_endpoint_committed:
  assumes inv: "doc_inv s"
  shows "committed s (snd (update_document_endpoint now i b m s))"
  unfolding update_document_endpoint_def
proof (rule doc_tx_committed [OF inv])
  fix a err s'
  let ?f = "\<lambda>s. case get_document s m i of Inl e \<Rightarrow> (Inl e, s)
      | Inr doc \<Rightarrow> (case update_document now doc (dw_title b) (dw_sections b) (dw_status b) (dw_folder b) (dw_version b) s of
             (Inl e, s1) \<Rightarrow> (Inl e, s1) | (Inr doc, s1) \<Rightarrow> (Inr (serialize_document doc), s1))"
  show "committed s s'" if "?f s = (Inr a, s')"
    using that update_document_keeps [OF inv] update_document_moves [OF inv]
    by (auto simp: committed_def dest!: get_document_okD split: sum.splits prod.splits)
  show "set (blobs s) \<subseteq> set (blobs s')" if "?f s = (Inl err, s')"
    using that update_document_moves [OF inv]
    by (auto dest!: get_document_okD split: sum.splits prod.splits)
qed

lemma delete_endpoint_committed:
  assumes inv: "doc_inv s"
  shows "committed s (snd (delete_document_endpoint i m s))"
  unfolding delete_document_endpoint_def
proof (rule doc_tx_committed [OF inv])
  fix a err s'
  let ?f = "\<lambda>s. case get_document s m i of Inl e \<Rightarrow> (Inl e, s) | Inr doc \<Rightarrow> (Inr (), delete_document doc s)"
  show "committed s s'" if "?f s = (Inr a, s')"
    using that delete_document_keeps [OF inv] doc_ids(1) [OF inv]
    by (auto simp: committed_def delete_document_def doc_moves_def moves_refl
        intro!: moves_delete dest!: get_document_okD split: sum.splits)
  show "set (blobs s) \<subseteq> set (blobs s')" if "?f s = (Inl err, s')"
    using that by (auto split: sum.splits)
qed

lemma upload_endpoint_committed:
  assumes inv: "doc_inv s"
  shows "committed s (snd (upload_document_file url_of now n t k f m s))"
  unfolding upload_document_file_def
proof (rule doc_tx_committed [OF inv])
  fix a err s'
  let ?f = "\<lambda>s. if t \<notin> set (map fst ext_by_content_type) then (Inl (validation_error []), s)
       else if max_file_bytes < k then (Inl (validation_error []), s)
       else (case startup_one m s of Inl e \<Rightarrow> (Inl e, s)
             | Inr startup \<Rightarrow>
                 (case upload_file url_of now (st_id startup) (m_user_id m) (or_text n ''file'') t k f s of
                    (Inl e, s1) \<Rightarrow> (Inl e, s1) | (Inr row, s1) \<Rightarrow> (Inr (serialize_file row), s1)))"
  have shape: "set (blobs s) \<subseteq> set (blobs s1) \<and> doc_moves s s1"
    if "upload_file url_of now i u name t k f s = (r, s1)" for i u name r s1
    using that publish_fresh [THEN order_trans [rotated]]
    by (auto simp: upload_file_def fresh_id_def Let_def intro!: doc_moves_publish doc_moves_frame split: if_splits)
  show "committed s s'" if "?f s = (Inr a, s')"
    using that upload_file_keeps [OF inv] shape
    by (auto simp: committed_def split: if_splits sum.splits prod.splits)
  show "set (blobs s) \<subseteq> set (blobs s')" if "?f s = (Inl err, s')"
    using that shape by (auto split: if_splits sum.splits prod.splits)
qed

lemma delete_file_endpoint_committed:
  assumes inv: "doc_inv s"
  shows "committed s (snd (delete_document_file now i m s))"
  unfolding delete_document_file_def
proof (rule doc_tx_committed [OF inv])
  fix a err s'
  let ?f = "\<lambda>s. case get_file s m i of Inl e \<Rightarrow> (Inl e, s) | Inr f \<Rightarrow> (Inr (), delete_file now f s)"
  have "doc_moves s (delete_file now f s)" for f
    unfolding delete_file_def Let_def
    by (intro doc_moves_publish) (auto simp: doc_moves_def doc_ids [OF inv] intro!: moves_refl moves_delete)
  then show "committed s s'" if "?f s = (Inr a, s')"
    using that delete_file_keeps [OF inv] by (auto simp: committed_def dest!: get_file_okD split: sum.splits)
  show "set (blobs s) \<subseteq> set (blobs s')" if "?f s = (Inl err, s')"
    using that by (auto split: sum.splits)
qed

lemma share_endpoint_committed:
  assumes inv: "doc_inv s"
  shows "committed s (snd (create_share_endpoint hash now raw i e a n m s))"
  unfolding create_share_endpoint_def
proof (rule doc_tx_committed [OF inv])
  fix b err s'
  let ?f = "\<lambda>s. case get_document s m i of Inl e \<Rightarrow> (Inl e, s)
      | Inr doc \<Rightarrow> (case create_share hash now raw doc (m_user_id m) e a n s of
             (Inl e, s1) \<Rightarrow> (Inl e, s1) | (Inr (share, raw), s1) \<Rightarrow> (Inr (serialize_share now False share, raw), s1))"
  have shape: "blobs s1 = blobs s \<and> doc_moves s s1" if "create_share hash now raw d u e a n s = (r, s1)" for d u r s1
    using that publish_fresh [THEN order_trans [rotated]]
    by (auto simp: create_share_def fresh_id_def Let_def intro!: doc_moves_publish doc_moves_frame split: if_splits)
  show "committed s s'" if "?f s = (Inr b, s')"
    using that create_share_keeps [OF inv] shape
    by (auto simp: committed_def dest!: get_document_okD split: sum.splits prod.splits)
  show "set (blobs s) \<subseteq> set (blobs s')" if "?f s = (Inl err, s')"
    using that shape by (auto split: sum.splits prod.splits)
qed

lemma revoke_endpoint_committed:
  assumes inv: "doc_inv s"
  shows "committed s (snd (revoke_share_endpoint now i j m s))"
  unfolding revoke_share_endpoint_def
proof (rule doc_tx_committed [OF inv])
  fix a err s'
  let ?f = "\<lambda>s. case find_share s m i j of Inl e \<Rightarrow> (Inl e, s) | Inr x \<Rightarrow> (Inr (), revoke_share now x s)"
  have "doc_moves s (revoke_share now x s)" for x
    unfolding revoke_share_def by (intro doc_moves_publish doc_moves_frame) simp_all
  then show "committed s s'" if "?f s = (Inr a, s')"
    using that revoke_share_keeps [OF inv] by (auto simp: committed_def split: sum.splits)
  show "set (blobs s) \<subseteq> set (blobs s')" if "?f s = (Inl err, s')"
    using that by (auto split: sum.splits)
qed

lemma open_endpoint_committed:
  assumes inv: "doc_inv s"
  shows "committed s (snd (open_shared_endpoint hash now token s))"
  unfolding open_shared_endpoint_def
proof (rule doc_tx_committed [OF inv])
  fix a err s'
  let ?f = "\<lambda>s. case open_shared hash now token s of (Inl e, s1) \<Rightarrow> (Inl e, s1)
      | (Inr share, s1) \<Rightarrow> (case find (\<lambda>d. d_id d = ds_document_id share) (documents s1) of
             None \<Rightarrow> (Inl (Uncaught ''NoResultFound''), s1)
           | Some doc \<Rightarrow> (Inr (serialize_document doc, ds_access_level share, ds_expires_at share), s1))"
  have shape: "doc_moves s s1 \<and> blobs s1 = blobs s \<and> doc_inv s1" if "open_shared hash now token s = (r, s1)" for r s1
    using that open_shared_keeps [OF inv, of hash now token]
    by (auto simp: open_shared_def intro!: doc_moves_frame split: option.splits if_splits)
  show "committed s s'" if "?f s = (Inr a, s')"
    using that shape by (auto simp: committed_def split: sum.splits prod.splits option.splits)
  show "set (blobs s) \<subseteq> set (blobs s')" if "?f s = (Inl err, s')"
    using that shape by (auto split: sum.splits prod.splits option.splits)
qed

lemma request_endpoint_committed:
  assumes inv: "doc_inv s"
  shows "committed s (snd (create_signature_request_endpoint hash now raws i g t n m s))"
  unfolding create_signature_request_endpoint_def
proof (rule doc_tx_committed [OF inv])
  fix a err s'
  let ?f = "\<lambda>s. case get_file s m i of Inl e \<Rightarrow> (Inl e, s)
      | Inr file \<Rightarrow> (case create_request hash now raws file (m_user_id m) (or_text t (df_filename file)) g n s of
             (Inl e, s1) \<Rightarrow> (Inl e, s1)
           | (Inr (req, pairs), s1) \<Rightarrow> (Inr (serialize_request now True s1 req, map snd pairs), s1))"
  have shape: "blobs s1 = blobs s \<and> doc_moves s s1" if "create_request hash now raws f u title g n s = (Inr r, s1)" for f u title r s1
  proof -
    have "doc_moves s (s\<lparr>signature_requests := signature_requests s @ [x], fresh := Suc (fresh s + length g),
        signature_signers := signature_signers s @ new_rows hash raws (fresh s) 0 (Suc (fresh s)) g\<rparr>)" if "sr_id x = fresh s" for x
    proof -
      have "fresh s \<le> ss_id y" if "y \<in> set (new_rows hash raws (fresh s) 0 (Suc (fresh s)) g)" for y
      proof -
        have "ss_id y \<in> set (map ss_id (new_rows hash raws (fresh s) 0 (Suc (fresh s)) g))" using that by simp
        then show ?thesis unfolding new_rows_facts(2) by auto
      qed
      then show ?thesis using that by (auto simp: doc_moves_def moves_refl intro: moves_append)
    qed
    then show ?thesis
      using that by (auto simp: create_request_def fresh_id_def Let_def case_prod_unfold add_signers_state
          intro!: doc_moves_publish split: if_splits)
  qed
  have err: "blobs s1 = blobs s" if "create_request hash now raws f u title g n s = (Inl e, s1)" for f u title e s1
    using that by (auto simp: create_request_def fresh_id_def Let_def case_prod_unfold add_signers_state split: if_splits)
  show "committed s s'" if "?f s = (Inr a, s')"
    using that create_request_keeps [OF inv] shape
    by (auto simp: committed_def dest!: get_file_okD split: sum.splits prod.splits)
  show "set (blobs s) \<subseteq> set (blobs s')" if "?f s = (Inl err, s')"
    using that err by (auto split: sum.splits prod.splits)
qed

lemma row_value_map_of: "row_value i val t k = map_of (map (\<lambda>r. (i r, val r)) t) k"
  by (induction t) (simp_all add: row_value_def)

lemma remind_endpoint_committed:
  assumes inv: "doc_inv s"
  shows "committed s (snd (remind_signature_request_endpoint hash now raws i m s))"
  unfolding remind_signature_request_endpoint_def
proof (rule doc_tx_committed [OF inv])
  fix a err s'
  let ?f = "\<lambda>s. case get_request s m i of Inl e \<Rightarrow> (Inl e, s)
      | Inr r \<Rightarrow> (case reissue_unsigned hash now raws r s of
             (Inl e, s1) \<Rightarrow> (Inl e, s1) | (Inr pairs, s1) \<Rightarrow> (Inr (length pairs), s1))"
  have shape: "blobs s1 = blobs s \<and> doc_moves s s1" if u: "reissue_unsigned hash now raws r s = (x, s1)" for r x s1
  proof -
    obtain gs' where gs: "snd (reissue hash raws 0 (unsigned_signers s (sr_id r)) s) = s\<lparr>signature_signers := gs'\<rparr>"
      "map untoken gs' = map untoken (signature_signers s)"
      using reissue_state [of hash raws 0 "unsigned_signers s (sr_id r)" s] by blast
    have "map (\<lambda>r. (ss_id r, signature_of r)) gs' = map (\<lambda>r. (ss_id r, signature_of r)) (signature_signers s)"
      using arg_cong [OF gs(2), of "map (\<lambda>r. (ss_id r, signature_of r))"] by (simp add: comp_def signature_of_def)
    then have "doc_moves s (s\<lparr>signature_signers := gs'\<rparr>)"
      by (simp add: doc_moves_def moves_refl moves_same row_value_map_of)
    then have "doc_moves s (snd (reissue hash raws 0 (unsigned_signers s (sr_id r)) s))"
      "blobs (snd (reissue hash raws 0 (unsigned_signers s (sr_id r)) s)) = blobs s" by (simp_all add: gs(1))
    then show ?thesis
      using u by (auto simp: reissue_unsigned_def Let_def case_prod_unfold doc_moves_frame split: if_splits)
  qed
  show "committed s s'" if "?f s = (Inr a, s')"
    using that reissue_unsigned_keeps [OF inv] shape by (auto simp: committed_def split: sum.splits prod.splits)
  show "set (blobs s) \<subseteq> set (blobs s')" if "?f s = (Inl err, s')"
    using that shape by (auto split: sum.splits prod.splits)
qed

text \<open>A status changes from awaiting only.\<close>

lemma status_moves:
  assumes inv: "doc_inv s" and r: "r \<in> set (signature_requests s)" "sr_status r = SR_awaiting"
    and f: "\<And>x. sr_id (f x) = sr_id x"
  shows "moves sr_id sr_status status_le n (signature_requests s)
    (update_where (\<lambda>x. sr_id x = sr_id r) f (signature_requests s))"
proof (rule moves_update)
  fix x assume "x \<in> set (signature_requests s)" "sr_id x = sr_id r"
  then have "x = r" using r(1) doc_ids(2) [OF inv] by (auto dest: distinct_mapD)
  then show "status_le (sr_status x) (sr_status (f x))" using r(2) by (simp add: status_le_def)
qed (simp_all add: f)

lemma cancel_endpoint_committed:
  assumes inv: "doc_inv s"
  shows "committed s (snd (cancel_signature_request_endpoint now i m s))"
  unfolding cancel_signature_request_endpoint_def
proof (rule doc_tx_committed [OF inv])
  fix a err s'
  let ?f = "\<lambda>s. case get_request s m i of Inl e \<Rightarrow> (Inl e, s) | Inr r \<Rightarrow> cancel_request now r s"
  show "committed s s'" if ok: "?f s = (Inr a, s')"
  proof -
    obtain r where r: "get_request s m i = Inr r" "cancel_request now r s = (Inr a, s')"
      using ok by (auto split: sum.splits)
    then have "r \<in> set (signature_requests s)" using get_request_okD [OF r(1)] by blast
    moreover have "sr_status r = SR_awaiting" using r(2) by (auto simp: cancel_request_def split: if_splits)
    ultimately have "doc_moves s (update_request (sr_id r) (\<lambda>r. r\<lparr>sr_status := SR_cancelled, sr_cancelled_at := Some now\<rparr>) s)"
      by (simp add: doc_moves_def update_request_def moves_refl status_moves [OF inv])
    then show ?thesis
      using r(2) cancel_request_keeps [OF inv \<open>r \<in> set (signature_requests s)\<close> r(2)]
      by (auto simp: committed_def cancel_request_def intro: doc_moves_publish split: if_splits)
  qed
  show "set (blobs s) \<subseteq> set (blobs s')" if "?f s = (Inl err, s')"
    using that by (auto simp: cancel_request_def split: sum.splits if_splits)
qed

lemma signing_moves:
  assumes inv: "doc_inv s" and g: "g \<in> set (signature_signers s)" "ss_signed_at g = None"
  shows "moves ss_id signature_of recorded_le n (signature_signers s)
    (update_where (\<lambda>x. ss_id x = ss_id g) (signed now name ip ua) (signature_signers s))"
proof (rule moves_update)
  fix x assume "x \<in> set (signature_signers s)" "ss_id x = ss_id g"
  then have "x = g" using g(1) doc_ids(3) [OF inv] by (auto dest: distinct_mapD)
  then show "recorded_le (signature_of x) (signature_of (signed now name ip ua x))"
    using g(2) by (simp add: recorded_le_def signature_of_def)
qed simp_all

lemma open_for_signing_okD:
  "open_for_signing hash now token s = Inr g \<Longrightarrow> g \<in> set (signature_signers s) \<and> ss_token_hash g = hash token \<and> ss_signed_at g = None"
  by (auto simp: open_for_signing_def dest: find_SomeD split: option.splits sum.splits if_splits)

lemma record_signature_blobs: "blobs (snd (record_signature now g n ip ua s)) = blobs s"
  by (simp add: record_signature_def Let_def complete_request_def update_request_def update_signer_def split: sum.split)

lemma sign_endpoint_committed:
  assumes inv: "doc_inv s"
  shows "committed s (snd (sign_endpoint hash now token name ip ua s))"
  unfolding sign_endpoint_def
proof (rule doc_tx_committed [OF inv])
  fix a err s'
  let ?f = "\<lambda>s. if strip name = [] then (Inl (validation_error []), s)
       else (case open_for_signing hash now token s of Inl e \<Rightarrow> (Inl e, s)
             | Inr signer \<Rightarrow> (case record_signature now signer (strip name) ip ua s of
                    (Inl e, s1) \<Rightarrow> (Inl e, s1) | (Inr r, s1) \<Rightarrow> (Inr (serialize_request now False s1 r), s1)))"
  show "committed s s'" if ok: "?f s = (Inr a, s')"
  proof -
    obtain g x where o: "open_for_signing hash now token s = Inr g" and x: "record_signature now g (strip name) ip ua s = (Inr x, s')"
      using ok by (auto split: if_splits sum.splits prod.splits)
    note g = open_for_signing_okD [OF o]
    from x have "doc_moves s s'"
    proof (cases rule: record_signature_cases)
      case (1 r p)
      have "r \<in> set (signature_requests s)" "sr_status r = SR_awaiting"
        using request_by_id_okD [OF 1(1)] 1(3) by (simp_all add: request_active_def)
      then have "doc_moves s (update_request (sr_id r) (\<lambda>r. r\<lparr>sr_status := SR_complete, sr_completed_at := Some now\<rparr>)
          (publish now ''document.signature.signed'' p (update_signer (ss_id g) (signed now (strip name) ip ua) s)))"
        using signing_moves [OF inv, of g] g publish_fresh [of "update_signer (ss_id g) (signed now (strip name) ip ua) s"]
        by (simp add: doc_moves_def update_request_def update_signer_def moves_refl status_moves [OF inv])
      moreover have "doc_moves s (update_signer (ss_id g) (signed now (strip name) ip ua) s)"
        using signing_moves [OF inv, of g] g by (simp add: doc_moves_def update_signer_def moves_refl)
      ultimately show ?thesis using 1(7) by (auto simp: complete_request_def intro: doc_moves_publish)
    qed
    then show ?thesis using record_signature_keeps [OF inv _ x] g by (simp add: committed_def)
  qed
  show "set (blobs s) \<subseteq> set (blobs s')" if "?f s = (Inl err, s')"
    using that record_signature_blobs [of now _ "strip name" ip ua s]
    by (auto split: if_splits sum.splits prod.splits) (metis snd_conv)
qed

lemma snd_map_prod_ignore [simp]: "snd (map_prod f id x) = snd x"
  by (cases x) simp

lemma doc_body_committed: "doc_inv s \<Longrightarrow> committed s (snd (doc_body hash url_of now raws q u m s))"
  by (cases q) (simp_all add: create_endpoint_committed save_endpoint_committed delete_endpoint_committed
      upload_endpoint_committed delete_file_endpoint_committed share_endpoint_committed revoke_endpoint_committed
      request_endpoint_committed remind_endpoint_committed cancel_endpoint_committed)

lemma serve_documents_committed: "doc_inv s \<Longrightarrow> committed s (snd (serve_documents hash url_of decode q s))"
  unfolding serve_documents_def
  by (rule member_request_invariant [of "committed s"]) (simp_all add: committed_refl doc_body_committed)

lemma doc_step_committed:
  assumes "doc_inv s" "doc_step hash url_of decode s s'"
  shows "committed s s'"
  using assms(2)
proof cases
  case (generated now st u k t secs f tk ai d)
  have "doc_inv s'" by (rule create_document_keeps [OF assms(1) generated])
  then show ?thesis
    using create_document_shape [OF generated] by (auto simp: committed_def doc_moves_def moves_refl intro: moves_append)
next
  case elsewhere
  then show ?thesis using assms(1) by (auto simp: committed_def intro: doc_inv_frame doc_moves_frame)
qed (simp_all add: assms(1) serve_documents_committed open_endpoint_committed sign_endpoint_committed)

lemma doc_reachable_inv: "doc_reachable hash url_of decode s \<Longrightarrow> doc_inv s"
proof -
  assume "doc_reachable hash url_of decode s"
  then obtain s0 where s0: "no_documents s0" "(doc_step hash url_of decode)\<^sup>*\<^sup>* s0 s" by (auto simp: doc_reachable_def)
  have "doc_inv s0" using s0(1)
    by (simp add: no_documents_def doc_inv_def docs_ok_def files_ok_def shares_ok_def requests_ok_def)
  with s0(2) show ?thesis
    by (induction rule: rtranclp_induct) (auto dest: doc_step_committed simp: committed_def)
qed

end
