(* ===== verification/Doc_Histories.thy ===== *)
theory Doc_Histories
  imports Doc_Requests
begin

text \<open>
  What holds between any two moments of a history of the documents: optimistic locking, the life of a
  signature request, the public share links, the objects behind the files.
\<close>

lemma row_value_Some_known:
  assumes "ids_below n (map i t)" "row_value i val t k = Some v"
  shows "k < n"
  using assms by (auto simp: row_value_def ids_below_def dest: find_SomeD)

lemma status_le_trans: "status_le a b \<Longrightarrow> status_le b c \<Longrightarrow> status_le a c"
  by (auto simp: status_le_def)

lemma doc_step_facts:
  assumes "doc_inv s" "doc_step hash url_of decode s s'"
  shows "doc_inv s'" "k < fresh s \<Longrightarrow> k < fresh s'"
    "moves d_id document_value version_le (fresh s) (documents s) (documents s')"
    "moves sr_id sr_status status_le (fresh s) (signature_requests s) (signature_requests s')"
    "moves ss_id signature_of recorded_le (fresh s) (signature_signers s) (signature_signers s')"
  using doc_step_committed [OF assms] by (auto simp: committed_def doc_moves_def)

lemma doc_below:
  assumes "doc_inv s"
  shows "ids_below (fresh s) (map d_id (documents s))" "ids_below (fresh s) (map sr_id (signature_requests s))"
    "ids_below (fresh s) (map ss_id (signature_signers s))"
  using assms by (simp_all add: doc_inv_def docs_ok_def requests_ok_def)

interpretation versions: monotone_rows "\<lambda>s. row_value d_id document_value (documents s)" version_le "\<lambda>s k. k < fresh s"
    doc_inv "doc_step hash url_of decode" for hash url_of decode
proof
  fix s s' :: "'a documents_db_scheme" and k v v'
  assume inv: "doc_inv s"
  show "row_value d_id document_value (documents s) k = Some v \<Longrightarrow> k < fresh s"
    by (rule row_value_Some_known [OF doc_below(1) [OF inv]])
  assume step: "doc_step hash url_of decode s s'"
  note f = doc_step_facts [OF inv step]
  show "doc_inv s'" by (rule f(1))
  show "k < fresh s \<Longrightarrow> k < fresh s'" by (rule f(2))
  show "version_le v v'" if "row_value d_id document_value (documents s) k = Some v"
    "row_value d_id document_value (documents s') k = Some v'"
    by (rule movesD(1) [OF f(3) row_value_Some_known [OF doc_below(1) [OF inv] that(1)] that])
  show "row_value d_id document_value (documents s') k = None"
    if "k < fresh s" "row_value d_id document_value (documents s) k = None"
    by (rule movesD(2) [OF f(3) that])
qed (simp, rule version_le_trans)

interpretation statuses: monotone_rows "\<lambda>s. row_value sr_id sr_status (signature_requests s)" status_le
    "\<lambda>s k. k < fresh s" doc_inv "doc_step hash url_of decode" for hash url_of decode
proof
  fix s s' :: "'a documents_db_scheme" and k v v'
  assume inv: "doc_inv s"
  show "row_value sr_id sr_status (signature_requests s) k = Some v \<Longrightarrow> k < fresh s"
    by (rule row_value_Some_known [OF doc_below(2) [OF inv]])
  assume step: "doc_step hash url_of decode s s'"
  note f = doc_step_facts [OF inv step]
  show "doc_inv s'" by (rule f(1))
  show "k < fresh s \<Longrightarrow> k < fresh s'" by (rule f(2))
  show "status_le v v'" if "row_value sr_id sr_status (signature_requests s) k = Some v"
    "row_value sr_id sr_status (signature_requests s') k = Some v'"
    by (rule movesD(1) [OF f(4) row_value_Some_known [OF doc_below(2) [OF inv] that(1)] that])
  show "row_value sr_id sr_status (signature_requests s') k = None"
    if "k < fresh s" "row_value sr_id sr_status (signature_requests s) k = None"
    by (rule movesD(2) [OF f(4) that])
qed (simp, rule status_le_trans)

interpretation signatures: monotone_rows "\<lambda>s. row_value ss_id signature_of (signature_signers s)" recorded_le
    "\<lambda>s k. k < fresh s" doc_inv "doc_step hash url_of decode" for hash url_of decode
proof
  fix s s' :: "'a documents_db_scheme" and k v v'
  assume inv: "doc_inv s"
  show "row_value ss_id signature_of (signature_signers s) k = Some v \<Longrightarrow> k < fresh s"
    by (rule row_value_Some_known [OF doc_below(3) [OF inv]])
  assume step: "doc_step hash url_of decode s s'"
  note f = doc_step_facts [OF inv step]
  show "doc_inv s'" by (rule f(1))
  show "k < fresh s \<Longrightarrow> k < fresh s'" by (rule f(2))
  show "recorded_le v v'" if "row_value ss_id signature_of (signature_signers s) k = Some v"
    "row_value ss_id signature_of (signature_signers s') k = Some v'"
    by (rule movesD(1) [OF f(5) row_value_Some_known [OF doc_below(3) [OF inv] that(1)] that])
  show "row_value ss_id signature_of (signature_signers s') k = None"
    if "k < fresh s" "row_value ss_id signature_of (signature_signers s) k = None"
    by (rule movesD(2) [OF f(5) that])
qed (simp, rule recorded_le_trans)

section \<open>Optimistic locking\<close>

lemma document_row: "doc_inv s \<Longrightarrow> get_document s m i = Inr d \<Longrightarrow> row_value d_id document_value (documents s) i = Some (document_value d)"
  using row_value_row [of d_id "documents s" d document_value] get_document_okD [of s m i d] doc_ids(1) [of s] by auto

lemma save_stale:
  assumes "\<And>d. get_document s m i = Inr d \<Longrightarrow> d_version d \<noteq> dw_version b"
  shows "update_document_endpoint now i b m s = (Inl NotFound, s) \<or> update_document_endpoint now i b m s = (Inl DocumentVersionConflict, s)"
proof (cases "get_document s m i")
  case (Inl e)
  then have "e = NotFound" by (auto simp: get_document_def split: option.splits)
  then show ?thesis using Inl by (simp add: update_document_endpoint_def doc_tx_def)
next
  case (Inr d)
  then show ?thesis using assms [OF Inr] by (auto simp: update_document_endpoint_def doc_tx_def update_document_def)
qed

lemma save_ok:
  assumes inv: "doc_inv s" and ok: "update_document_endpoint now i b m s = (Inr v, s')"
  obtains d d' where "get_document s m i = Inr d" "d_version d = dw_version b" "get_document s' m i = Inr d'"
    "d_version d' = d_version d + 1" "d_title d' = dw_title b" "d_status d' = dw_status b" "d_folder d' = dw_folder b"
    "v = serialize_document d'"
proof -
  obtain d d' where d: "get_document s m i = Inr d"
    and u: "update_document now d (dw_title b) (dw_sections b) (dw_status b) (dw_folder b) (dw_version b) s = (Inr d', s')"
    and v: "v = serialize_document d'"
    using ok by (auto simp: update_document_endpoint_def doc_tx_def split: sum.splits prod.splits)
  obtain n where n: "fresh s \<le> n" "validate_sections (dw_sections b) s = (fst (validate_sections (dw_sections b) s), s\<lparr>fresh := n\<rparr>)"
    by (rule validate_sections_cases)
  have d': "d_version d = dw_version b" "d_id d' = d_id d" "d_startup_id d' = d_startup_id d" "d_version d' = d_version d + 1"
    "d_title d' = dw_title b" "d_status d' = dw_status b" "d_folder d' = dw_folder b"
    "documents s' = update_where (\<lambda>x. d_id x = d_id d) (\<lambda>_. d') (documents s)"
    using u n(2) by (auto simp: update_document_def Let_def split: sum.splits prod.splits if_splits)
  note g = get_document_okD [OF d]
  have "find (\<lambda>x. d_id x = i \<and> d_startup_id x = m_startup_id m) (documents s') = Some d'"
  proof -
    have "find (\<lambda>x. d_id x = i \<and> d_startup_id x = m_startup_id m) (update_where (\<lambda>x. d_id x = d_id d) (\<lambda>_. d') ds) = Some d'"
      if "d \<in> set ds" for ds
      using that g d'(2,3) by (induction ds) auto
    then show ?thesis using g d'(8) by simp
  qed
  then have "get_document s' m i = Inr d'" by (simp add: get_document_def)
  then show thesis using that d d' v by blast
qed

text \<open>
  C16: no update is lost between requests. When an author saves with the version they read, at any later
  moment, the save is accepted only if the document still has exactly the content they read; it
  then has their title, status and folder and the next version; and from then on every save that
  brings the old version is refused and changes nothing, whatever happens in between.
\<close>

theorem no_lost_update:
  assumes "doc_reachable hash url_of decode s0" "get_document s0 m i = Inr d0"
    "(doc_step hash url_of decode)\<^sup>*\<^sup>* s0 s" "dw_version b = d_version d0"
    "update_document_endpoint now i b m s = (Inr v, s1)"
  shows "(\<exists>d d1. get_document s m i = Inr d \<and> document_value d = document_value d0
      \<and> get_document s1 m i = Inr d1 \<and> v = serialize_document d1 \<and> d_version d1 = d_version d0 + 1
      \<and> d_title d1 = dw_title b \<and> d_status d1 = dw_status b \<and> d_folder d1 = dw_folder b)
    \<and> (\<forall>s2 b' m' now'. (doc_step hash url_of decode)\<^sup>*\<^sup>* s1 s2 \<longrightarrow> dw_version b' = d_version d0 \<longrightarrow>
         update_document_endpoint now' i b' m' s2 \<in> {(Inl NotFound, s2), (Inl DocumentVersionConflict, s2)})"
proof -
  note inv0 = doc_reachable_inv [OF assms(1)]
  note inv = doc_reachable_inv [OF doc_reachable_steps [OF assms(1,3)]]
  obtain d d1 where d: "get_document s m i = Inr d" "d_version d = dw_version b" "get_document s1 m i = Inr d1"
    "d_version d1 = d_version d + 1" "d_title d1 = dw_title b" "d_status d1 = dw_status b" "d_folder d1 = dw_folder b"
    "v = serialize_document d1"
    by (rule save_ok [OF inv assms(5)])
  have "version_le (document_value d0) (document_value d)"
    by (rule versions.view_steps [OF assms(3) inv0 document_row [OF inv0 assms(2)] document_row [OF inv d(1)]])
  then have same: "document_value d = document_value d0"
    using d(2) assms(4) by (auto simp: version_le_def document_value_def)
  have inv1: "doc_inv s1"
    using save_endpoint_committed [OF inv, of now i b m] assms(5) by (simp add: committed_def)
  have "update_document_endpoint now' i b' m' s2 \<in> {(Inl NotFound, s2), (Inl DocumentVersionConflict, s2)}"
    if steps: "(doc_step hash url_of decode)\<^sup>*\<^sup>* s1 s2" and b': "dw_version b' = d_version d0" for s2 b' m' now'
  proof -
    have "d_version d2 \<noteq> dw_version b'" if d2: "get_document s2 m' i = Inr d2" for d2
    proof -
      have "version_le (document_value d1) (document_value d2)"
        by (rule versions.view_steps [OF steps inv1 document_row [OF inv1 d(3)]
              document_row [OF versions.inv_steps [OF steps inv1] d2]])
      then show ?thesis using d(2,4) b' assms(4) by (auto simp: version_le_def document_value_def)
    qed
    then show ?thesis using save_stale [of s2 m' i b' now'] by blast
  qed
  then show ?thesis using d same assms(4) by (auto simp: document_value_def)
qed

section \<open>Saves that overlap\<close>

text \<open>
  The version is compared with the row as it was loaded, and the statement the session emits sets the
  columns that changed since then, whatever the row says now. A save whose request loaded \<open>old\<close>
  and is flushed onto a later \<open>row\<close>:
\<close>

definition flush_document :: "document \<Rightarrow> document \<Rightarrow> document \<Rightarrow> document" where
  "flush_document old new row =
     row\<lparr>d_title := (if d_title new = d_title old then d_title row else d_title new),
        d_sections := (if d_sections new = d_sections old then d_sections row else d_sections new),
        d_status := (if d_status new = d_status old then d_status row else d_status new),
        d_folder := (if d_folder new = d_folder old then d_folder row else d_folder new),
        d_version := d_version new, d_updated_at := d_updated_at new\<rparr>"

definition save_overlapped ::
    "instant \<Rightarrow> document \<Rightarrow> document_save \<Rightarrow> 'a documents_db_scheme \<Rightarrow> document result \<times> 'a documents_db_scheme" where
  "save_overlapped now old b s =
     (case update_document now old (dw_title b) (dw_sections b) (dw_status b) (dw_folder b) (dw_version b) s of
        (Inl e, s1) \<Rightarrow> (Inl e, s)
      | (Inr new, s1) \<Rightarrow>
          (Inr new, s1\<lparr>documents := update_where (\<lambda>x. d_id x = d_id old) (flush_document old new) (documents s)\<rparr>))"

definition section_valid :: "json \<Rightarrow> bool" where
  "section_valid sec = (case sec of JObj kvs \<Rightarrow> is_text (jget kvs ''heading'') \<and> is_text (jget kvs ''body'') | _ \<Rightarrow> False)"

definition acceptable :: "document_save \<Rightarrow> bool" where
  "acceptable b \<longleftrightarrow> list_all section_valid (dw_sections b) \<and> fits 200 (dw_title b) \<and> fits_opt 120 (dw_folder b)"

lemma validate_sections_valid:
  "list_all section_valid xs \<Longrightarrow> \<exists>out n. validate_sections_from i xs s = (Inr out, s\<lparr>fresh := n\<rparr>)"
proof (induction xs arbitrary: i s)
  case Nil
  have "s = s\<lparr>fresh := fresh s\<rparr>" by simp
  then show ?case by (intro exI [of _ "[]"] exI [of _ "fresh s"]) simp
next
  case (Cons x xs)
  then obtain kvs where x: "x = JObj kvs" "is_text (jget kvs ''heading'')" "is_text (jget kvs ''body'')"
    by (auto simp: section_valid_def split: json.splits)
  define s1 where "s1 = (if truthy (jget kvs ''id'') then s else snd (fresh_id s))"
  obtain out n where e: "validate_sections_from (Suc i) xs s1 = (Inr out, s1\<lparr>fresh := n\<rparr>)"
    using Cons.IH [of "Suc i" s1] Cons.prems by auto
  have "s1\<lparr>fresh := n\<rparr> = s\<lparr>fresh := n\<rparr>" by (auto simp: s1_def fresh_id_def)
  then show ?case using x e by (auto simp: s1_def [symmetric] Let_def)
qed

lemma update_document_accepted:
  assumes "acceptable b" "dw_version b = d_version d"
  obtains d' n where "update_document now d (dw_title b) (dw_sections b) (dw_status b) (dw_folder b) (dw_version b) s
      = (Inr d', s\<lparr>fresh := n, documents := update_where (\<lambda>x. d_id x = d_id d) (\<lambda>_. d') (documents s)\<rparr>)"
    "d_title d' = dw_title b" "d_folder d' = dw_folder b" "d_status d' = dw_status b" "d_version d' = d_version d + 1"
    "\<exists>secs. d' = d\<lparr>d_title := dw_title b, d_sections := secs, d_status := dw_status b, d_folder := dw_folder b,
        d_version := d_version d + 1, d_updated_at := now\<rparr>"
proof -
  obtain out n where v: "validate_sections (dw_sections b) s = (Inr out, s\<lparr>fresh := n\<rparr>)"
    using validate_sections_valid [of "dw_sections b" 0 s] assms(1) by (auto simp: acceptable_def validate_sections_def)
  show thesis
    by (rule that [of "d\<lparr>d_title := dw_title b, d_sections := out, d_status := dw_status b, d_folder := dw_folder b,
        d_version := d_version d + 1, d_updated_at := now\<rparr>" n])
      (use assms v in \<open>auto simp: update_document_def acceptable_def Let_def\<close>)
qed

text \<open>Without an overlap it is the save of the code.\<close>

lemma save_alone:
  assumes "doc_inv s" "d \<in> set (documents s)" "acceptable b" "dw_version b = d_version d"
  shows "save_overlapped now d b s
    = update_document now d (dw_title b) (dw_sections b) (dw_status b) (dw_folder b) (dw_version b) s"
proof -
  obtain d' n where u: "update_document now d (dw_title b) (dw_sections b) (dw_status b) (dw_folder b) (dw_version b) s
      = (Inr d', s\<lparr>fresh := n, documents := update_where (\<lambda>x. d_id x = d_id d) (\<lambda>_. d') (documents s)\<rparr>)"
    and d': "\<exists>secs. d' = d\<lparr>d_title := dw_title b, d_sections := secs, d_status := dw_status b, d_folder := dw_folder b,
        d_version := d_version d + 1, d_updated_at := now\<rparr>"
    by (rule update_document_accepted [OF assms(3,4)])
  have "flush_document d d' x = d'" if "x \<in> set (documents s)" "d_id x = d_id d" for x
  proof -
    have "x = d" using that assms(2) doc_ids(1) [OF assms(1)] by (auto dest: distinct_mapD)
    then show ?thesis using d' by (auto simp: flush_document_def)
  qed
  then have "update_where (\<lambda>x. d_id x = d_id d) (flush_document d d') (documents s)
      = update_where (\<lambda>x. d_id x = d_id d) (\<lambda>_. d') (documents s)"
    unfolding update_where_def by (intro map_cong) auto
  then show ?thesis by (simp add: save_overlapped_def u)
qed

text \<open>
  Two saves that overlap are both accepted. When a second request loads the document before the first
  one has written it, the check of the version passes for both: both authors are told the same new
  version, the document has it, and whatever the second author changed has replaced what the
  first one saved.
\<close>

theorem overlapping_saves:
  assumes "doc_reachable hash url_of decode s" "get_document s m i = Inr d"
    "acceptable b1" "acceptable b2" "dw_version b1 = d_version d" "dw_version b2 = d_version d"
  shows "\<exists>v1 s1 v2 s2 d2. save_overlapped now1 d b1 s = (Inr v1, s1) \<and> save_overlapped now2 d b2 s1 = (Inr v2, s2)
    \<and> d_version v1 = d_version d + 1 \<and> d_version v2 = d_version d + 1
    \<and> get_document s2 m i = Inr d2 \<and> d_version d2 = d_version d + 1 \<and> d_title v1 = dw_title b1
    \<and> (dw_title b2 \<noteq> d_title d \<longrightarrow> d_title d2 = dw_title b2)
    \<and> (dw_folder b2 \<noteq> d_folder d \<longrightarrow> d_folder d2 = dw_folder b2)
    \<and> (dw_status b2 \<noteq> d_status d \<longrightarrow> d_status d2 = dw_status b2)"
proof -
  note inv = doc_reachable_inv [OF assms(1)] and g = get_document_okD [OF assms(2)]
  obtain v1 n1 where u1: "update_document now1 d (dw_title b1) (dw_sections b1) (dw_status b1) (dw_folder b1) (dw_version b1) s
      = (Inr v1, s\<lparr>fresh := n1, documents := update_where (\<lambda>x. d_id x = d_id d) (\<lambda>_. v1) (documents s)\<rparr>)"
    and v1: "d_title v1 = dw_title b1" "d_version v1 = d_version d + 1"
    by (rule update_document_accepted [OF assms(3,5)])
  define s1 where "s1 = s\<lparr>fresh := n1, documents := update_where (\<lambda>x. d_id x = d_id d) (flush_document d v1) (documents s)\<rparr>"
  have 1: "save_overlapped now1 d b1 s = (Inr v1, s1)" by (simp add: save_overlapped_def u1 s1_def)
  obtain v2 n2 where u2: "update_document now2 d (dw_title b2) (dw_sections b2) (dw_status b2) (dw_folder b2) (dw_version b2) s1
      = (Inr v2, s1\<lparr>fresh := n2, documents := update_where (\<lambda>x. d_id x = d_id d) (\<lambda>_. v2) (documents s1)\<rparr>)"
    and v2: "d_title v2 = dw_title b2" "d_folder v2 = dw_folder b2" "d_status v2 = dw_status b2" "d_version v2 = d_version d + 1"
    by (rule update_document_accepted [OF assms(4,6)])
  define s2 where "s2 = s1\<lparr>fresh := n2, documents := update_where (\<lambda>x. d_id x = d_id d) (flush_document d v2) (documents s1)\<rparr>"
  have 2: "save_overlapped now2 d b2 s1 = (Inr v2, s2)" by (simp add: save_overlapped_def u2 s2_def)
  let ?P = "\<lambda>x. d_id x = i \<and> d_startup_id x = m_startup_id m"
  have keep: "find ?P (update_where (\<lambda>x. d_id x = d_id d) (flush_document d v) ds)
      = map_option (\<lambda>x. if d_id x = d_id d then flush_document d v x else x) (find ?P ds)" for v ds
    by (rule find_update_where) (simp add: flush_document_def)
  have "find ?P (documents s) = Some d" using assms(2) by (simp add: get_document_def split: option.splits)
  then have "find ?P (documents s2) = Some (flush_document d v2 (flush_document d v1 d))"
    by (simp add: s2_def s1_def keep flush_document_def)
  then have "get_document s2 m i = Inr (flush_document d v2 (flush_document d v1 d))" by (simp add: get_document_def)
  with 1 2 v1 v2 show ?thesis
    by (intro exI [of _ v1] exI [of _ s1] exI [of _ v2] exI [of _ s2] exI [of _ "flush_document d v2 (flush_document d v1 d)"])
      (simp add: flush_document_def)
qed

section \<open>Signature requests\<close>

text \<open>
  C17: along every history a signature request is complete exactly when every one of its signers has signed
  (and it has at least one, and its file exists); a request leaves the awaiting status at most once,
  and what was recorded of a signature (its time, name, address and browser) never changes.
\<close>

theorem signature_life:
  assumes "doc_reachable hash url_of decode s" "(doc_step hash url_of decode)\<^sup>*\<^sup>* s s'"
  shows "(\<forall>r \<in> set (signature_requests s). signers_of s (sr_id r) \<noteq> []
      \<and> (sr_status r = SR_complete \<longleftrightarrow> unsigned_signers s (sr_id r) = [])
      \<and> (\<exists>f \<in> set (document_files s). df_id f = sr_file_id r))
    \<and> (\<forall>r \<in> set (signature_requests s). \<forall>r' \<in> set (signature_requests s').
        sr_id r' = sr_id r \<longrightarrow> sr_status r \<noteq> SR_awaiting \<longrightarrow> sr_status r' = sr_status r)
    \<and> (\<forall>x \<in> set (signature_signers s). \<forall>x' \<in> set (signature_signers s').
        ss_id x' = ss_id x \<longrightarrow> ss_signed_at x \<noteq> None \<longrightarrow> signature_of x' = signature_of x)"
proof -
  note inv = doc_reachable_inv [OF assms(1)] and inv' = doc_reachable_inv [OF doc_reachable_steps [OF assms]]
  have "signers_of s (sr_id r) \<noteq> [] \<and> (sr_status r = SR_complete \<longleftrightarrow> unsigned_signers s (sr_id r) = [])
      \<and> (\<exists>f \<in> set (document_files s). df_id f = sr_file_id r)" if "r \<in> set (signature_requests s)" for r
  proof -
    have ok: "request_ok (signature_signers s) r" "\<exists>f \<in> set (document_files s). df_id f = sr_file_id r"
      using inv that by (simp_all add: doc_inv_def requests_ok_def)
    have "signers_of s (sr_id r) = [] \<longleftrightarrow> signers_in (signature_signers s) (sr_id r) = []"
      using signers_of_set [of s "sr_id r"] by (metis set_empty)
    moreover have "unsigned_signers s (sr_id r) = [] \<longleftrightarrow> (\<forall>g \<in> set (signers_in (signature_signers s) (sr_id r)). ss_signed_at g \<noteq> None)"
      by (auto simp: unsigned_signers_def filter_empty_conv signers_of_set)
    ultimately show ?thesis using ok by (simp add: request_ok_def del: not_None_eq)
  qed
  moreover have "sr_status r' = sr_status r" if "r \<in> set (signature_requests s)" "r' \<in> set (signature_requests s')"
    "sr_id r' = sr_id r" "sr_status r \<noteq> SR_awaiting" for r r'
  proof -
    have "status_le (sr_status r) (sr_status r')"
      using row_value_row [OF doc_ids(2) [OF inv'] that(2), of sr_status] that(3)
      by (intro statuses.view_steps [OF assms(2) inv row_value_row [OF doc_ids(2) [OF inv] that(1)]]) simp
    then show ?thesis using that(4) by (simp add: status_le_def)
  qed
  moreover have "signature_of x' = signature_of x" if "x \<in> set (signature_signers s)" "x' \<in> set (signature_signers s')"
    "ss_id x' = ss_id x" "ss_signed_at x \<noteq> None" for x x'
  proof -
    have "recorded_le (signature_of x) (signature_of x')"
      using row_value_row [OF doc_ids(3) [OF inv'] that(2), of signature_of] that(3)
      by (intro signatures.view_steps [OF assms(2) inv row_value_row [OF doc_ids(3) [OF inv] that(1)]]) simp
    then show ?thesis using that(4) by (auto simp: recorded_le_def signature_of_def)
  qed
  ultimately show ?thesis by blast
qed

lemma find_signer_after:
  assumes "find (\<lambda>x. ss_token_hash x = h) gs = Some g" "distinct (map ss_id gs)"
  shows "find (\<lambda>x. ss_token_hash x = h) (update_where (\<lambda>x. ss_id x = ss_id g) (signed now n ip ua) gs) = Some (signed now n ip ua g)"
  using find_update_where [of "\<lambda>x. ss_id x = ss_id g" "\<lambda>x. ss_token_hash x = h" "signed now n ip ua" gs] assms(1) by simp

text \<open>
  C18: a successful signature is recorded for exactly the signer whose link was used: their time, trimmed
  name, address and browser, the other signers untouched; the request is complete exactly when no
  signer is left; the answer does not disclose the other signers; and the link is spent.
\<close>

theorem sign_spec:
  assumes "doc_reachable hash url_of decode s" "sign_endpoint hash now token name ip ua s = (Inr v, s')"
  shows "\<exists>g \<in> set (signature_signers s). ss_token_hash g = hash token \<and> ss_signed_at g = None
      \<and> signature_signers s' = update_where (\<lambda>x. ss_id x = ss_id g) (signed now (strip name) ip ua) (signature_signers s)
      \<and> rv_status v = (if \<forall>x \<in> set (unsigned_signers s (ss_request_id g)). ss_id x = ss_id g then ''complete'' else ''awaiting'')
      \<and> rv_signers v = None
      \<and> open_for_signing hash now' token s' = Inl NotFound"
proof -
  note inv = doc_reachable_inv [OF assms(1)]
  obtain g r' where o: "open_for_signing hash now token s = Inr g"
    and x: "record_signature now g (strip name) ip ua s = (Inr r', s')" and v: "v = serialize_request now False s' r'"
    using assms(2) by (auto simp: sign_endpoint_def doc_tx_def split: if_splits sum.splits prod.splits)
  note g = open_for_signing_okD [OF o]
  let ?gs = "update_where (\<lambda>x. ss_id x = ss_id g) (signed now (strip name) ip ua) (signature_signers s)"
  from x show ?thesis
  proof (cases rule: record_signature_cases)
    case (1 r p)
    note r = request_by_id_okD [OF 1(1)]
    let ?all = "\<forall>x \<in> set (signers_in ?gs (sr_id r)). ss_signed_at x \<noteq> None"
    have s': "signature_signers s' = ?gs"
      using 1(7) by (auto simp: complete_request_def update_request_def update_signer_def)
    have all: "?all \<longleftrightarrow> (\<forall>x \<in> set (unsigned_signers s (ss_request_id g)). ss_id x = ss_id g)"
    proof -
      have "?all \<longleftrightarrow> (\<forall>x \<in> set (signers_in (signature_signers s) (sr_id r)). ss_id x = ss_id g \<or> ss_signed_at x \<noteq> None)"
        by (subst signers_in_update) (auto simp: set_update_where)
      then show ?thesis using r by (auto simp: unsigned_signers_def signers_of_set)
    qed
    have "r' = (if ?all then r\<lparr>sr_status := SR_complete, sr_completed_at := Some now\<rparr> else r)"
      using x 1(1-6)
      by (auto simp: record_signature_def Let_def list_all_iff signers_of_set update_signer_def simp del: not_None_eq split: if_splits)
    moreover have "sr_status r = SR_awaiting" "\<not> expired now (sr_expires_at r)" using 1(3) by (simp_all add: request_active_def)
    ultimately have "rv_status v = (if ?all then ''complete'' else ''awaiting'')"
      unfolding v by (simp add: serialize_request_def request_status_def Let_def del: not_None_eq)
    moreover have "open_for_signing hash now' token s' = Inl NotFound"
    proof -
      have "find (\<lambda>x. ss_token_hash x = hash token) (signature_signers s) = Some g"
        using o by (auto simp: open_for_signing_def split: option.splits sum.splits if_splits)
      from find_signer_after [OF this doc_ids(3) [OF inv]] show ?thesis by (simp add: open_for_signing_def s')
    qed
    moreover have "rv_signers v = None" unfolding v by (simp add: serialize_request_def Let_def)
    ultimately show ?thesis using g s' all by (intro bexI [of _ g]) (simp_all del: not_None_eq)
  qed
qed

section \<open>Signatures that overlap\<close>

text \<open>
  The code takes no lock: a signing request sees its own write and what was committed when it read the
  signers, not the uncommitted write of another. A signature decided on the state \<open>seen\<close> and committed
  onto a later state:
\<close>

definition sign_overlapped ::
    "instant \<Rightarrow> signature_signer \<Rightarrow> string \<Rightarrow> string option \<Rightarrow> string option \<Rightarrow> 'a documents_db_scheme
     \<Rightarrow> 'a documents_db_scheme \<Rightarrow> signature_request result \<times> 'a documents_db_scheme" where
  "sign_overlapped now signer typed_name ip ua seen s =
     (case record_signature now signer typed_name ip ua seen of
        (Inl e, _) \<Rightarrow> (Inl e, s)
      | (Inr r, _) \<Rightarrow>
          let s1 = publish now ''document.signature.signed''
                     [(''startup_id'', JUid (sr_startup_id r)), (''request_id'', JUid (sr_id r)),
                      (''signer_id'', JUid (ss_id signer))]
                     (update_signer (ss_id signer) (signed now typed_name ip ua) s)
          in (Inr r, if sr_status r = SR_complete then complete_request now r s1 else s1))"

text \<open>Without an overlap it is the operation of the code.\<close>

lemma sign_alone: "record_signature now g n ip ua s = (Inr r, s') \<Longrightarrow> sign_overlapped now g n ip ua s s = (Inr r, s')"
  by (auto simp: sign_overlapped_def record_signature_def complete_request_def request_active_def Let_def
      split: sum.splits if_splits)

lemma record_not_last:
  assumes "request_by_id s (ss_request_id g) = Inr r" "ss_signed_at g = None" "request_active now r"
    "fits 255 n" "fits_opt 64 ip" "fits_opt 512 ua"
    and "g' \<in> set (unsigned_signers s (sr_id r))" "ss_id g' \<noteq> ss_id g"
  shows "fst (record_signature now g n ip ua s) = Inr r"
proof -
  have "g' \<in> set (update_where (\<lambda>x. ss_id x = ss_id g) (signed now n ip ua) (signature_signers s))"
    "ss_request_id g' = sr_id r" "ss_signed_at g' = None"
    using assms(7,8) by (auto simp: unsigned_signers_def signers_of_def set_update_where)
  then have "\<not> list_all (\<lambda>x. ss_signed_at x \<noteq> None)
      (signers_of (publish now e p (update_signer (ss_id g) (signed now n ip ua) s)) (sr_id r))" for e p
    by (auto simp: list_all_iff signers_of_def update_signer_def)
  then show ?thesis using assms(1-6) by (simp add: record_signature_def Let_def)
qed

text \<open>
  When the last two signers of a request sign at the same time each of them still sees the other missing: both
  are thanked, both signatures are recorded, and nobody completes the request. It stays awaiting with
  nobody left to sign: whatever signer of it tries again is answered with the 404.
\<close>

lemma overlapping_signatures:
  assumes "doc_reachable hash url_of decode s" "r \<in> set (signature_requests s)"
    and now: "request_active now1 r" "request_active now2 r"
    and g: "set (unsigned_signers s (sr_id r)) = {g1, g2}" "g1 \<noteq> g2"
    and fits: "fits 255 n1" "fits 255 n2" "fits_opt 64 ip1" "fits_opt 64 ip2" "fits_opt 512 ua1" "fits_opt 512 ua2"
  shows "\<exists>s1 s2. sign_overlapped now1 g1 n1 ip1 ua1 s s = (Inr r, s1) \<and> sign_overlapped now2 g2 n2 ip2 ua2 s s1 = (Inr r, s2)
    \<and> signature_requests s2 = signature_requests s \<and> sr_status r = SR_awaiting \<and> unsigned_signers s2 (sr_id r) = []
    \<and> (\<forall>g \<in> set (signers_of s2 (sr_id r)). \<forall>now n ip ua. record_signature now g n ip ua s2 = (Inl NotFound, s2))"
proof -
  note inv = doc_reachable_inv [OF assms(1)]
  have row: "x \<in> set (signature_signers s)" "ss_request_id x = sr_id r" "ss_signed_at x = None" if "x \<in> {g1, g2}" for x
    using that g(1) by (auto simp: unsigned_signers_def signers_of_def)
  have req: "request_by_id s (sr_id r) = Inr r"
    using find_key_unique [OF doc_ids(2) [OF inv] assms(2)] by (simp add: request_by_id_def)
  have ids: "ss_id g1 \<noteq> ss_id g2"
    using row [of g1] row [of g2] doc_ids(3) [OF inv] g(2) by (auto dest: distinct_mapD)
  have first: "fst (record_signature now1 g1 n1 ip1 ua1 s) = Inr r"
    by (rule record_not_last [where g' = g2]) (use row [of g1] req now fits g ids in auto)
  have second: "fst (record_signature now2 g2 n2 ip2 ua2 s) = Inr r"
    by (rule record_not_last [where g' = g1]) (use row [of g2] req now fits g ids in auto)
  have await: "sr_status r = SR_awaiting" using now(1) by (simp add: request_active_def)
  define s1 where "s1 = snd (sign_overlapped now1 g1 n1 ip1 ua1 s s)"
  define s2 where "s2 = snd (sign_overlapped now2 g2 n2 ip2 ua2 s s1)"
  have e1: "sign_overlapped now1 g1 n1 ip1 ua1 s s = (Inr r, s1)"
    and t1: "signature_signers s1 = update_where (\<lambda>x. ss_id x = ss_id g1) (signed now1 n1 ip1 ua1) (signature_signers s)"
      "signature_requests s1 = signature_requests s"
    using first await by (auto simp: s1_def sign_overlapped_def update_signer_def Let_def split: prod.splits)
  have e2: "sign_overlapped now2 g2 n2 ip2 ua2 s s1 = (Inr r, s2)"
    and t2: "signature_signers s2 = update_where (\<lambda>x. ss_id x = ss_id g2) (signed now2 n2 ip2 ua2) (signature_signers s1)"
      "signature_requests s2 = signature_requests s1"
    using second await by (auto simp: s2_def sign_overlapped_def update_signer_def Let_def split: prod.splits)
  have all: "ss_signed_at x \<noteq> None" if x: "x \<in> set (signers_of s2 (sr_id r))" for x
  proof
    assume "ss_signed_at x = None"
    then have "x \<in> set (signature_signers s)" "ss_id x \<noteq> ss_id g1" "ss_id x \<noteq> ss_id g2" "ss_request_id x = sr_id r"
      using x by (auto simp: signers_of_def t2 t1 set_update_where signed_def split: if_splits)
    then have "x \<in> {g1, g2}"
      using \<open>ss_signed_at x = None\<close> unfolding g(1) [symmetric] by (simp add: unsigned_signers_def signers_of_def)
    then show False using \<open>ss_id x \<noteq> ss_id g1\<close> \<open>ss_id x \<noteq> ss_id g2\<close> by blast
  qed
  then have "record_signature now x n ip ua s2 = (Inl NotFound, s2)" if "x \<in> set (signers_of s2 (sr_id r))" for now x n ip ua
    using that req by (simp add: record_signature_def signers_of_def request_by_id_def t1 t2)
  moreover have "unsigned_signers s2 (sr_id r) = []" using all by (simp add: unsigned_signers_def filter_empty_conv del: not_None_eq)
  ultimately show ?thesis using e1 e2 t1(2) t2(2) await by (intro exI [of _ s1] exI [of _ s2]) simp
qed

section \<open>Share links\<close>

text \<open>
  C19: a share link shows the document exactly while its share is neither revoked nor past its expiry, with
  the document's present content; every other link is answered with the same 404 and changes nothing.
  Opening it records the visit only. Once its share is revoked no link to it opens, at whatever time.
\<close>

theorem share_link:
  assumes "doc_reachable hash url_of decode s"
  shows "((\<exists>v s'. open_shared_endpoint hash now token s = (Inr v, s'))
      \<longleftrightarrow> (\<exists>x \<in> set (document_shares s). ds_token_hash x = hash token \<and> ds_revoked_at x = None
            \<and> (\<forall>t. ds_expires_at x = Some t \<longrightarrow> now < t)))
    \<and> (\<forall>e s'. open_shared_endpoint hash now token s = (Inl e, s') \<longrightarrow> e = NotFound \<and> s' = s)
    \<and> (\<forall>v s'. open_shared_endpoint hash now token s = (Inr v, s') \<longrightarrow>
        (\<exists>x d. x \<in> set (document_shares s) \<and> ds_token_hash x = hash token \<and> d \<in> set (documents s)
          \<and> d_id d = ds_document_id x \<and> d_startup_id d = ds_startup_id x
          \<and> v = (serialize_document d, ds_access_level x, ds_expires_at x)
          \<and> s' = s\<lparr>document_shares := update_where (\<lambda>y. ds_id y = ds_id x)
                     (\<lambda>y. y\<lparr>ds_last_viewed_at := Some now\<rparr>) (document_shares s)\<rparr>))
    \<and> (\<forall>i j m s'. revoke_share_endpoint now i j m s = (Inr (), s') \<longrightarrow>
        (\<exists>x \<in> set (document_shares s). ds_id x = j \<and> (\<forall>tok now'. hash tok = ds_token_hash x \<longrightarrow>
           fst (open_shared_endpoint hash now' tok s') = Inl NotFound)))"
proof -
  note inv = doc_reachable_inv [OF assms]
  have ok: "shares_ok (fresh s) (documents s) (document_shares s)" using inv by (simp add: doc_inv_def)
  have key: "find (\<lambda>x. ds_token_hash x = ds_token_hash y) (document_shares s) = Some y" if "y \<in> set (document_shares s)" for y
    using find_key_unique [OF _ that, of ds_token_hash] ok by (simp add: shares_ok_def)
  have doc: "\<exists>d. find (\<lambda>d. d_id d = ds_document_id x) (documents s) = Some d \<and> d \<in> set (documents s)
      \<and> d_id d = ds_document_id x \<and> d_startup_id d = ds_startup_id x" if x: "x \<in> set (document_shares s)" for x
  proof -
    obtain d where d: "d \<in> set (documents s)" "d_id d = ds_document_id x" "d_startup_id d = ds_startup_id x"
      using ok x by (auto simp: shares_ok_def)
    then show ?thesis using find_key_unique [OF doc_ids(1) [OF inv] d(1)] by auto
  qed
  have dead: "expired now t \<longleftrightarrow> \<not> (\<forall>x. t = Some x \<longrightarrow> now < x)" for now t by (auto simp: expired_def split: option.split)
  let ?live = "\<lambda>x. ds_token_hash x = hash token \<and> ds_revoked_at x = None \<and> \<not> expired now (ds_expires_at x)"
  have blob: "s\<lparr>blobs := blobs s\<rparr> = s" by simp
  have res: "(\<exists>x d. x \<in> set (document_shares s) \<and> ?live x \<and> d \<in> set (documents s) \<and> d_id d = ds_document_id x
      \<and> d_startup_id d = ds_startup_id x \<and> open_shared_endpoint hash now token s =
        (Inr (serialize_document d, ds_access_level x, ds_expires_at x),
         s\<lparr>document_shares := update_where (\<lambda>y. ds_id y = ds_id x) (\<lambda>y. y\<lparr>ds_last_viewed_at := Some now\<rparr>) (document_shares s)\<rparr>))
    \<or> (\<forall>x \<in> set (document_shares s). \<not> ?live x) \<and> open_shared_endpoint hash now token s = (Inl NotFound, s)"
  proof (cases "find (\<lambda>x. ds_token_hash x = hash token) (document_shares s)")
    case None
    then have "\<forall>x \<in> set (document_shares s). \<not> ?live x" by (auto dest: find_NoneD)
    then show ?thesis using None by (simp add: open_shared_endpoint_def doc_tx_def open_shared_def blob)
  next
    case (Some x)
    then have x: "x \<in> set (document_shares s)" "ds_token_hash x = hash token" using find_SomeD [OF Some] by auto
    show ?thesis
    proof (cases "?live x")
      case True
      obtain d where d: "find (\<lambda>d. d_id d = ds_document_id x) (documents s) = Some d" "d \<in> set (documents s)"
        "d_id d = ds_document_id x" "d_startup_id d = ds_startup_id x" using doc [OF x(1)] by blast
      have "open_shared_endpoint hash now token s = (Inr (serialize_document d, ds_access_level x, ds_expires_at x),
         s\<lparr>document_shares := update_where (\<lambda>y. ds_id y = ds_id x) (\<lambda>y. y\<lparr>ds_last_viewed_at := Some now\<rparr>) (document_shares s)\<rparr>)"
        using Some True d(1) by (simp add: open_shared_endpoint_def doc_tx_def open_shared_def)
      with x(1) d True show ?thesis by (intro disjI1 exI [of _ x] exI [of _ d]) simp
    next
      case False
      have "y = x" if "y \<in> set (document_shares s)" "ds_token_hash y = hash token" for y
        using key [OF that(1)] key [OF x(1)] that(2) x(2) by simp
      then have none: "\<forall>y \<in> set (document_shares s). \<not> ?live y" using False by blast
      have "ds_revoked_at x \<noteq> None \<or> expired now (ds_expires_at x)" using False x(2) by (simp del: not_None_eq)
      then have "open_shared hash now token s = (Inl NotFound, s)" using Some by (simp add: open_shared_def del: not_None_eq)
      then have "open_shared_endpoint hash now token s = (Inl NotFound, s)"
        by (simp add: open_shared_endpoint_def doc_tx_def blob)
      then show ?thesis using none by blast
    qed
  qed
  have rev: "\<exists>x \<in> set (document_shares s). ds_id x = j \<and> (\<forall>tok now'. hash tok = ds_token_hash x \<longrightarrow>
      fst (open_shared_endpoint hash now' tok s') = Inl NotFound)"
    if ok': "revoke_share_endpoint now i j m s = (Inr (), s')" for i j m s'
  proof -
    obtain x where x: "find_share s m i j = Inr x" "s' = revoke_share now x s"
      using ok' by (auto simp: revoke_share_endpoint_def doc_tx_def split: sum.splits)
    then have m: "x \<in> set (document_shares s)" "ds_id x = j"
      by (auto simp: find_share_def dest: find_SomeD split: option.splits)
    have "find (\<lambda>y. ds_token_hash y = ds_token_hash x) (document_shares s') = Some (x\<lparr>ds_revoked_at := Some now\<rparr>)"
      unfolding x(2) revoke_share_def
      using find_update_where [of "\<lambda>y. ds_id y = ds_id x" "\<lambda>y. ds_token_hash y = ds_token_hash x"
          "\<lambda>y. y\<lparr>ds_revoked_at := Some now\<rparr>" "document_shares s"] key [OF m(1)] by simp
    then show ?thesis using m by (auto simp: open_shared_endpoint_def doc_tx_def open_shared_def)
  qed
  from res show ?thesis
  proof (elim disjE exE conjE)
    fix x d assume x: "x \<in> set (document_shares s)" "ds_token_hash x = hash token" "ds_revoked_at x = None"
      "\<not> expired now (ds_expires_at x)" and d: "d \<in> set (documents s)" "d_id d = ds_document_id x" "d_startup_id d = ds_startup_id x"
      and r: "open_shared_endpoint hash now token s = (Inr (serialize_document d, ds_access_level x, ds_expires_at x),
         s\<lparr>document_shares := update_where (\<lambda>y. ds_id y = ds_id x) (\<lambda>y. y\<lparr>ds_last_viewed_at := Some now\<rparr>) (document_shares s)\<rparr>)"
    have "\<forall>t. ds_expires_at x = Some t \<longrightarrow> now < t" using x(4) by (simp add: dead)
    then have live: "\<exists>x \<in> set (document_shares s). ds_token_hash x = hash token \<and> ds_revoked_at x = None
        \<and> (\<forall>t. ds_expires_at x = Some t \<longrightarrow> now < t)" using x by blast
    show ?thesis unfolding r
      using x d live rev by (intro conjI) (simp, simp, (simp del: split_paired_Ex, metis), blast)
  next
    assume none: "\<forall>x \<in> set (document_shares s). \<not> ?live x" and r: "open_shared_endpoint hash now token s = (Inl NotFound, s)"
    show ?thesis unfolding r using none rev by (intro conjI) (simp add: dead, simp, simp, blast)
  qed
qed

text \<open>No number of days is a share without expiry, and neither is zero.\<close>

lemma zero_days_never_expires: "expiry now (Some 0) = None" "\<not> expired now' (expiry now (Some 0))"
  by (simp_all add: expiry_def expired_def)

section \<open>The tables\<close>

text \<open>
  Along every history, failed requests included, every file of the document tables has its object in
  the store under a key of its own, every share belongs to a document of its workspace, every signer to
  a signature request and every request to a file; ids and token hashes are unique.
\<close>

theorem document_tables:
  assumes "doc_reachable hash url_of decode s"
  shows "(\<forall>f \<in> set (document_files s). df_storage_key f \<in> set (blobs s)) \<and> distinct (map df_storage_key (document_files s))
    \<and> (\<forall>x \<in> set (document_shares s). \<exists>d \<in> set (documents s). d_id d = ds_document_id x \<and> d_startup_id d = ds_startup_id x)
    \<and> (\<forall>g \<in> set (signature_signers s). \<exists>r \<in> set (signature_requests s). sr_id r = ss_request_id g)
    \<and> (\<forall>r \<in> set (signature_requests s). \<exists>f \<in> set (document_files s). df_id f = sr_file_id r)
    \<and> distinct (map d_id (documents s)) \<and> distinct (map ds_token_hash (document_shares s))
    \<and> distinct (map ss_token_hash (signature_signers s))"
proof -
  have inv: "docs_ok (fresh s) (documents s)" "files_ok (fresh s) (document_files s) (blobs s)"
    "shares_ok (fresh s) (documents s) (document_shares s)"
    "requests_ok (fresh s) (document_files s) (signature_requests s) (signature_signers s)"
    using doc_reachable_inv [OF assms] by (simp_all add: doc_inv_def)
  have "\<exists>r \<in> set (signature_requests s). sr_id r = ss_request_id g" if "g \<in> set (signature_signers s)" for g
    using inv(4) that unfolding requests_ok_def by (metis imageE)
  then show ?thesis using inv by (simp add: docs_ok_def files_ok_def shares_ok_def requests_ok_def)
qed

end
