(* ===== verification/Doc_Samples.thy ===== *)
theory Doc_Samples
  imports Doc_Histories Roadmap_Requests
begin

text \<open>
  A founder's documents, evaluated: a one-pager, a share of it, a file and a request to sign it, at
  which the properties of the documents are witnessed. The tokens are their own hashes.
\<close>

definition doc_ground :: "unit documents_db_scheme" where
  "doc_ground = notif_db.extend (empty_notif_db\<lparr>fresh := 40, users := [sample_founder],
       startups := [sample_startup], memberships := [sample_member 7 MR_founder MS_active]\<rparr>)
     (documents_db.fields [] [] [] [] [] [])"

definition doc_call_of :: "doc_request \<Rightarrow> doc_call" where
  "doc_call_of q = \<lparr>dq_credential = Some [], dq_workspace = 9, dq_now = 5, dq_raws = (\<lambda>k. replicate (Suc k) CHR ''t''),
     dq_request = q\<rparr>"

definition url_at :: "storage_key \<Rightarrow> string" where
  "url_at key = ''https://files'' @ snd (snd key)"

definition doc_after :: "doc_request list \<Rightarrow> unit documents_db_scheme" where
  "doc_after qs = foldl (\<lambda>s q. snd (serve_documents id url_at (\<lambda>_. Some (JUid 7)) (doc_call_of q) s)) doc_ground qs"

lemma doc_after_reachable: "doc_reachable id url_at (\<lambda>_. Some (JUid 7)) (doc_after qs)"
proof (induction qs rule: rev_induct)
  case Nil
  have "no_documents doc_ground"
    by (simp add: no_documents_def doc_ground_def notif_db.defs documents_db.defs)
  then show ?case unfolding doc_reachable_def doc_after_def by auto
next
  case (snoc q qs)
  then show ?case by (simp add: doc_after_def doc_reachable_step doc_step.request del: id_apply)
qed

definition one_section :: "json list" where
  "one_section = [JObj [(''id'', JStr ''s1''), (''heading'', JStr ''Hook''), (''body'', JStr [])]]"

definition plan_create :: document_create where
  "plan_create = \<lparr>dc_kind = Some DK_one_pager, dc_title = Some ''Plan'', dc_folder = None, dc_template_key = None,
     dc_sections = Some one_section\<rparr>"

definition plan_save :: "string \<Rightarrow> int \<Rightarrow> document_save" where
  "plan_save title v = \<lparr>dw_title = title, dw_sections = one_section, dw_status = DS_draft, dw_folder = None, dw_version = v\<rparr>"

definition plan_made :: "unit documents_db_scheme" where
  "plan_made = doc_after [DQ_create plan_create]"

definition shared_plan :: "unit documents_db_scheme" where
  "shared_plan = doc_after [DQ_create plan_create, DQ_share 40 ''ana@x.io'' SA_view (Some 2)]"

definition awaiting_file :: "unit documents_db_scheme" where
  "awaiting_file = doc_after [DQ_upload (Some ''nda.pdf'') ''application/pdf'' 900 None,
     DQ_request 41 [\<lparr>si_email = ''ana@x.io'', si_name = None\<rparr>] None None]"

abbreviation founder_member :: membership where
  "founder_member \<equiv> sample_member 7 MR_founder MS_active"

lemmas plan_made_reachable = doc_after_reachable [of "[DQ_create plan_create]", folded plan_made_def]
lemmas shared_plan_reachable =
  doc_after_reachable [of "[DQ_create plan_create, DQ_share 40 ''ana@x.io'' SA_view (Some 2)]", folded shared_plan_def]
lemmas awaiting_file_reachable =
  doc_after_reachable [of "[DQ_upload (Some ''nda.pdf'') ''application/pdf'' 900 None,
     DQ_request 41 [\<lparr>si_email = ''ana@x.io'', si_name = None\<rparr>] None None]", folded awaiting_file_def]

section \<open>Witnesses\<close>

definition first_plan :: document where
  "first_plan = hd (documents plan_made)"

theorem no_lost_update_witness:
  "fst (update_document_endpoint 7 40 (plan_save ''C'' 1) founder_member
      (snd (update_document_endpoint 6 40 (plan_save ''B'' 1) founder_member plan_made)))
     \<in> {Inl NotFound, Inl DocumentVersionConflict}"
proof -
  let ?u = "update_document_endpoint 6 40 (plan_save ''B'' 1) founder_member plan_made"
  have d: "get_document plan_made founder_member 40 = Inr first_plan" by code_simp
  have v: "dw_version (plan_save ''B'' 1) = d_version first_plan" "dw_version (plan_save ''C'' 1) = d_version first_plan"
    by code_simp+
  have "is_ok (fst ?u)" by code_simp
  then obtain r where "?u = (Inr r, snd ?u)" by (cases "fst ?u"; cases ?u) auto
  from conjunct2 [OF no_lost_update [OF plan_made_reachable d rtranclp.rtrancl_refl v(1) this],
      rule_format, OF rtranclp.rtrancl_refl v(2), of 7 founder_member]
  show ?thesis by (elim insertE emptyE) simp_all
qed

theorem overlapping_saves_witness:
  "\<exists>v1 s1 v2 s2. save_overlapped 6 first_plan (plan_save ''B'' 1) plan_made = (Inr v1, s1)
     \<and> save_overlapped 7 first_plan (plan_save ''C'' 1) s1 = (Inr v2, s2) \<and> d_title v1 = ''B''
     \<and> (\<exists>d2. get_document s2 founder_member 40 = Inr d2 \<and> d_title d2 = ''C'' \<and> d_version d2 = 2)"
proof -
  have d: "get_document plan_made founder_member 40 = Inr first_plan" by code_simp
  have v: "acceptable (plan_save ''B'' 1)" "acceptable (plan_save ''C'' 1)" "dw_version (plan_save ''B'' 1) = d_version first_plan"
    "dw_version (plan_save ''C'' 1) = d_version first_plan" by code_simp+
  have t: "d_version first_plan = 1" "dw_title (plan_save ''C'' 1) \<noteq> d_title first_plan" by code_simp+
  from overlapping_saves [OF plan_made_reachable d v, where ?now1.0 = 6 and ?now2.0 = 7] t
  show ?thesis by (force simp: plan_save_def)
qed

definition first_request :: signature_request where
  "first_request = hd (signature_requests awaiting_file)"

theorem signature_life_witness:
  "sr_status first_request = SR_awaiting \<and> signers_of awaiting_file (sr_id first_request) \<noteq> []
     \<and> unsigned_signers awaiting_file (sr_id first_request) \<noteq> []"
proof -
  have r: "first_request \<in> set (signature_requests awaiting_file)" "sr_status first_request = SR_awaiting" by code_simp+
  from signature_life [OF awaiting_file_reachable rtranclp.rtrancl_refl] r(1)
  have "signers_of awaiting_file (sr_id first_request) \<noteq> []
      \<and> (sr_status first_request = SR_complete \<longleftrightarrow> unsigned_signers awaiting_file (sr_id first_request) = [])" by blast
  with r(2) show ?thesis by auto
qed

theorem sign_spec_witness:
  "\<exists>v s'. sign_endpoint id 6 ''t'' '' Ana '' None None awaiting_file = (Inr v, s') \<and> rv_status v = ''complete''
     \<and> open_for_signing id 9 ''t'' s' = Inl NotFound"
proof -
  let ?g = "sign_endpoint id 6 ''t'' '' Ana '' None None awaiting_file"
  have "is_ok (fst ?g)" by code_simp
  then obtain v s' where e: "?g = (Inr v, s')" by (cases "fst ?g"; cases ?g) auto
  obtain g where g: "g \<in> set (signature_signers awaiting_file)"
    "rv_status v = (if \<forall>x \<in> set (unsigned_signers awaiting_file (ss_request_id g)). ss_id x = ss_id g then ''complete'' else ''awaiting'')"
    "open_for_signing id 9 ''t'' s' = Inl NotFound"
    using sign_spec [OF awaiting_file_reachable e, where now' = 9] by blast
  have "\<forall>g \<in> set (signature_signers awaiting_file). \<forall>x \<in> set (unsigned_signers awaiting_file (ss_request_id g)). ss_id x = ss_id g"
    by code_simp
  with g e show ?thesis by auto
qed

theorem share_link_witness:
  "\<exists>v s'. open_shared_endpoint id 6 ''t'' shared_plan = (Inr v, s')"
proof -
  have "\<exists>x \<in> set (document_shares shared_plan). ds_token_hash x = id ''t'' \<and> ds_revoked_at x = None
      \<and> \<not> expired 6 (ds_expires_at x)" by code_simp
  then have "\<exists>x \<in> set (document_shares shared_plan). ds_token_hash x = id ''t'' \<and> ds_revoked_at x = None
      \<and> (\<forall>t. ds_expires_at x = Some t \<longrightarrow> 6 < t)" by (fastforce simp: expired_def)
  then show ?thesis using share_link [OF shared_plan_reachable, where now = 6 and token = "''t''"] by blast
qed

theorem document_tables_witness:
  "length (document_files awaiting_file) = 1 \<and> distinct (map df_storage_key (document_files awaiting_file))
     \<and> df_storage_key (hd (document_files awaiting_file)) \<in> set (blobs awaiting_file)"
proof -
  have "length (document_files awaiting_file) = 1" "hd (document_files awaiting_file) \<in> set (document_files awaiting_file)"
    by code_simp+
  then show ?thesis using document_tables [OF awaiting_file_reachable] by blast
qed

end
