(* ===== verification/Assessment_Bank.thy ===== *)
theory Assessment_Bank
  imports Py_Text
begin

text \<open>
  The questionnaire of the kickoff assessment: the bank of questions
  (\<^verbatim>\<open>app/services/assessment/bank.py\<close>), its branching and the validation of answers
  (\<^verbatim>\<open>engine.py\<close>), and the scoring (\<^verbatim>\<open>scoring.py\<close>). The numbers of an answer are integers here: a
  number with a fraction is accepted by the same branch of the validation and not scored.
\<close>

section \<open>Questions and their conditions\<close>

datatype qtype = QT_single_choice | QT_multi_choice | QT_scale_1_5 | QT_numeric_currency | QT_short_text

text \<open>The nodes of \<^verbatim>\<open>show_if\<close>, with the values they compare with, all texts.\<close>

datatype check = Among "string list" | Equals string

datatype condition =
    Cond_all "condition list"
  | Cond_any "condition list"
  | Cond_field string check
  | Cond_answer string check
  | Cond_true

record question =
  q_key :: string
  q_dimension :: dimension
  q_section :: string
  q_type :: qtype
  q_scoring :: "(string \<times> int) list"
  q_options :: "(string \<times> string) list option"
  q_show_if :: "condition option"

record bank =
  bk_version :: string
  bk_questions :: "question list"

definition assessment_bank :: bank where
  "assessment_bank =
     \<lparr>bk_version = ''v1'',
      bk_questions =
       [\<lparr>q_key = ''product_stage'', q_dimension = D_product, q_section = ''Product'', q_type = QT_single_choice,
         q_scoring = [(''max'', 4), (''idea'', 1), (''prototype'', 2), (''mvp'', 3), (''live'', 4)],
         q_options = Some [(''idea'', ''Just an idea''), (''prototype'', ''A prototype''), (''mvp'', ''A working MVP''),
           (''live'', ''Live with users'')], q_show_if = None\<rparr>,
        \<lparr>q_key = ''product_confidence'', q_dimension = D_product, q_section = ''Product'', q_type = QT_scale_1_5,
         q_scoring = [(''max'', 5)], q_options = None,
         q_show_if = Some (Cond_answer ''product_stage'' (Among [''mvp'', ''live'']))\<rparr>,
        \<lparr>q_key = ''market_clarity'', q_dimension = D_market, q_section = ''Market'', q_type = QT_scale_1_5,
         q_scoring = [(''max'', 5)], q_options = None, q_show_if = None\<rparr>,
        \<lparr>q_key = ''market_research'', q_dimension = D_market, q_section = ''Market'', q_type = QT_single_choice,
         q_scoring = [(''max'', 3), (''none'', 0), (''some'', 2), (''deep'', 3)],
         q_options = Some [(''none'', ''No research yet''), (''some'', ''Some interviews''),
           (''deep'', ''Deep, ongoing research'')], q_show_if = None\<rparr>,
        \<lparr>q_key = ''has_revenue'', q_dimension = D_money, q_section = ''Money'', q_type = QT_single_choice,
         q_scoring = [(''max'', 2), (''no'', 0), (''yes'', 2)],
         q_options = Some [(''no'', ''Not yet''), (''yes'', ''Yes, we have revenue'')], q_show_if = None\<rparr>,
        \<lparr>q_key = ''mrr'', q_dimension = D_money, q_section = ''Money'', q_type = QT_numeric_currency,
         q_scoring = [(''max'', 0)], q_options = None, q_show_if = Some (Cond_answer ''has_revenue'' (Equals ''yes''))\<rparr>,
        \<lparr>q_key = ''runway_confidence'', q_dimension = D_money, q_section = ''Money'', q_type = QT_scale_1_5,
         q_scoring = [(''max'', 5)], q_options = None, q_show_if = None\<rparr>,
        \<lparr>q_key = ''incorporated'', q_dimension = D_legal, q_section = ''Legal'', q_type = QT_single_choice,
         q_scoring = [(''max'', 2), (''no'', 0), (''yes'', 2)],
         q_options = Some [(''no'', ''Not incorporated''), (''yes'', ''Incorporated'')], q_show_if = None\<rparr>,
        \<lparr>q_key = ''ip_assigned'', q_dimension = D_legal, q_section = ''Legal'', q_type = QT_single_choice,
         q_scoring = [(''max'', 2), (''no'', 0), (''unsure'', 1), (''yes'', 2)],
         q_options = Some [(''no'', ''No''), (''unsure'', ''Not sure''), (''yes'', ''Yes'')],
         q_show_if = Some (Cond_answer ''incorporated'' (Equals ''yes''))\<rparr>,
        \<lparr>q_key = ''team_size'', q_dimension = D_team, q_section = ''Team'', q_type = QT_single_choice,
         q_scoring = [(''max'', 3), (''solo'', 1), (''cofounders'', 3), (''team'', 3)],
         q_options = Some [(''solo'', ''Just me''), (''cofounders'', ''Co-founders''), (''team'', ''A team'')],
         q_show_if = None\<rparr>,
        \<lparr>q_key = ''team_confidence'', q_dimension = D_team, q_section = ''Team'', q_type = QT_scale_1_5,
         q_scoring = [(''max'', 5)], q_options = None, q_show_if = None\<rparr>]\<rparr>"

section \<open>Branching\<close>

type_synonym answers = "(string \<times> json) list"

fun business_model_value :: "business_model \<Rightarrow> string" where
  "business_model_value BM_b2b = ''b2b''"
| "business_model_value BM_b2c = ''b2c''"
| "business_model_value BM_b2b2c = ''b2b2c''"
| "business_model_value BM_marketplace = ''marketplace''"
| "business_model_value BM_hardware = ''hardware''"
| "business_model_value BM_services = ''services''"

text \<open>
  \<^verbatim>\<open>getattr(startup, field, None)\<close>, the value of an enumeration read through: the columns that hold
  text. Everything else \<^verbatim>\<open>getattr\<close> finds is no text and equal to no text.
\<close>

definition startup_text :: "startup \<Rightarrow> string \<Rightarrow> string option" where
  "startup_text st field =
     (if field = ''name'' then st_name st
      else if field = ''description'' then st_description st
      else if field = ''website'' then st_website st
      else if field = ''logo_url'' then st_logo_url st
      else if field = ''industry'' then st_industry st
      else if field = ''business_model'' then map_option business_model_value (st_business_model st)
      else if field = ''stage'' then map_option startup_stage_value (st_stage st)
      else if field = ''country'' then st_country st
      else None)"

fun passes :: "check \<Rightarrow> string \<Rightarrow> bool" where
  "passes (Among xs) v = (v \<in> set xs)"
| "passes (Equals x) v = (v = x)"

fun cond :: "condition \<Rightarrow> answers \<Rightarrow> startup \<Rightarrow> bool" where
  "cond (Cond_all cs) answers startup = (\<forall>c \<in> set cs. cond c answers startup)"
| "cond (Cond_any cs) answers startup = (\<exists>c \<in> set cs. cond c answers startup)"
| "cond (Cond_field f check) answers startup =
     (case startup_text startup f of None \<Rightarrow> False | Some v \<Rightarrow> passes check v)"
| "cond (Cond_answer k check) answers startup =
     (case map_of answers k of Some (JStr v) \<Rightarrow> passes check v | _ \<Rightarrow> False)"
| "cond Cond_true answers startup = True"

definition is_applicable :: "question \<Rightarrow> answers \<Rightarrow> startup \<Rightarrow> bool" where
  "is_applicable q answers startup =
     (case q_show_if q of None \<Rightarrow> True | Some c \<Rightarrow> cond c answers startup)"

definition next_question :: "bank \<Rightarrow> answers \<Rightarrow> startup \<Rightarrow> question option" where
  "next_question bank answers startup =
     find (\<lambda>q. q_key q \<notin> fst ` set answers \<and> is_applicable q answers startup) (bk_questions bank)"

definition question_by_key :: "bank \<Rightarrow> string \<Rightarrow> question option" where
  "question_by_key bank key = find (\<lambda>q. q_key q = key) (bk_questions bank)"

section \<open>Validation\<close>

definition invalid_answer :: app_error where
  "invalid_answer = AppErr ''INVALID_ANSWER'' 422 []"

definition option_values :: "question \<Rightarrow> string list" where
  "option_values q = (case q_options q of None \<Rightarrow> [] | Some os \<Rightarrow> map fst os)"

text \<open>
  \<^verbatim>\<open>v in {...}\<close>, a membership in a set of texts: a list or an object has no hash and raises.
\<close>

definition in_options :: "question \<Rightarrow> json \<Rightarrow> bool result" where
  "in_options q v =
     (case v of
        JList _ \<Rightarrow> Inl (Uncaught ''TypeError'')
      | JObj _ \<Rightarrow> Inl (Uncaught ''TypeError'')
      | JStr x \<Rightarrow> Inr (x \<in> set (option_values q))
      | _ \<Rightarrow> Inr False)"

text \<open>\<^verbatim>\<open>any(v not in opts for v in value)\<close> stops at the first value that is no option.\<close>

fun all_options :: "question \<Rightarrow> json list \<Rightarrow> unit result" where
  "all_options q [] = Inr ()"
| "all_options q (v # vs) =
     (case in_options q v of
        Inl e \<Rightarrow> Inl e
      | Inr b \<Rightarrow> if b then all_options q vs else Inl invalid_answer)"

definition validate_answer :: "question \<Rightarrow> json \<Rightarrow> unit result" where
  "validate_answer q value =
     (case q_type q of
        QT_single_choice \<Rightarrow>
          (case in_options q value of
             Inl e \<Rightarrow> Inl e
           | Inr b \<Rightarrow> if b then Inr () else Inl invalid_answer)
      | QT_multi_choice \<Rightarrow>
          (case value of JList vs \<Rightarrow> if vs = [] then Inl invalid_answer else all_options q vs | _ \<Rightarrow> Inl invalid_answer)
      | QT_scale_1_5 \<Rightarrow>
          (case value of JInt n \<Rightarrow> if 1 \<le> n \<and> n \<le> 5 then Inr () else Inl invalid_answer | _ \<Rightarrow> Inl invalid_answer)
      | QT_numeric_currency \<Rightarrow>
          (case value of JInt n \<Rightarrow> if n < 0 then Inl invalid_answer else Inr () | _ \<Rightarrow> Inl invalid_answer)
      | QT_short_text \<Rightarrow>
          (case value of JStr x \<Rightarrow> if strip x = [] then Inl invalid_answer else Inr () | _ \<Rightarrow> Inl invalid_answer))"

section \<open>Scoring\<close>

definition scoring_get :: "question \<Rightarrow> string \<Rightarrow> int" where
  "scoring_get q k = (case map_of (q_scoring q) k of None \<Rightarrow> 0 | Some n \<Rightarrow> n)"

text \<open>The points of a value that was validated for the question.\<close>

definition points :: "question \<Rightarrow> json \<Rightarrow> int" where
  "points q value =
     (case q_type q of
        QT_scale_1_5 \<Rightarrow> (case value of JInt n \<Rightarrow> n | _ \<Rightarrow> 0)
      | QT_single_choice \<Rightarrow> (case value of JStr v \<Rightarrow> scoring_get q v | _ \<Rightarrow> 0)
      | QT_multi_choice \<Rightarrow>
          (case value of
             JList vs \<Rightarrow> min (sum_list (map (\<lambda>v. case v of JStr x \<Rightarrow> scoring_get q x | _ \<Rightarrow> 0) vs)) (scoring_get q ''max'')
           | _ \<Rightarrow> 0)
      | _ \<Rightarrow> 0)"

definition counted :: "bank \<Rightarrow> answers \<Rightarrow> startup \<Rightarrow> dimension \<Rightarrow> question list" where
  "counted bank answers startup d =
     filter (\<lambda>q. q_dimension q = d \<and> 0 < scoring_get q ''max'' \<and> q_key q \<in> fst ` set answers
       \<and> is_applicable q answers startup) (bk_questions bank)"

definition answer_of :: "answers \<Rightarrow> question \<Rightarrow> json" where
  "answer_of answers q = (case map_of answers (q_key q) of None \<Rightarrow> JNull | Some v \<Rightarrow> v)"

definition dimension_score :: "bank \<Rightarrow> answers \<Rightarrow> startup \<Rightarrow> dimension \<Rightarrow> int" where
  "dimension_score bank answers startup d =
     (let qs = counted bank answers startup d;
          earned = sum_list (map (\<lambda>q. points q (answer_of answers q)) qs);
          maxsum = sum_list (map (\<lambda>q. scoring_get q ''max'') qs);
          pct = (if maxsum \<noteq> 0 then py_round_div (100 * earned) maxsum else 50)
      in min 100 (max 0 pct))"

text \<open>\<^verbatim>\<open>max(d, key=f)\<close> and \<^verbatim>\<open>min(d, key=f)\<close>: the first of the best.\<close>

fun first_max :: "('a \<Rightarrow> int) \<Rightarrow> 'a \<Rightarrow> 'a list \<Rightarrow> 'a" where
  "first_max f x [] = x"
| "first_max f x (y # ys) = first_max f (if f x < f y then y else x) ys"

definition first_min :: "('a \<Rightarrow> int) \<Rightarrow> 'a \<Rightarrow> 'a list \<Rightarrow> 'a" where
  "first_min f = first_max (\<lambda>x. - f x)"

record scored =
  sc_dimension_scores :: "(string \<times> int) list"
  sc_overall :: int
  sc_narrative :: string

definition narrative_of :: "(string \<times> int) list \<Rightarrow> string" where
  "narrative_of ds =
     (let top = first_max snd (hd ds) (tl ds); low = first_min snd (hd ds) (tl ds)
      in ''Your strongest area is '' @ fst top @ '' ('' @ show_int (snd top) @ ''). Focus next on '' @ fst low
         @ '' ('' @ show_int (snd low) @ '').'')"

definition score :: "bank \<Rightarrow> answers \<Rightarrow> startup \<Rightarrow> scored" where
  "score bank answers startup =
     (let ds = map (\<lambda>d. (dimension_value d, dimension_score bank answers startup d)) all_dimensions
      in \<lparr>sc_dimension_scores = ds,
          sc_overall = py_round_div (sum_list (map snd ds)) (int (length ds)),
          sc_narrative = narrative_of ds\<rparr>)"

section \<open>Banks whose conditions look back\<close>

text \<open>
  What the branching relies on: keys are distinct and a question depends on the answers to earlier
  questions only.
\<close>

fun mentions :: "condition \<Rightarrow> string set" where
  "mentions (Cond_all cs) = (\<Union>c \<in> set cs. mentions c)"
| "mentions (Cond_any cs) = (\<Union>c \<in> set cs. mentions c)"
| "mentions (Cond_field f check) = {}"
| "mentions (Cond_answer k check) = {k}"
| "mentions Cond_true = {}"

fun fieldless :: "condition \<Rightarrow> bool" where
  "fieldless (Cond_all cs) = (\<forall>c \<in> set cs. fieldless c)"
| "fieldless (Cond_any cs) = (\<forall>c \<in> set cs. fieldless c)"
| "fieldless (Cond_field f check) = False"
| "fieldless (Cond_answer k check) = True"
| "fieldless Cond_true = True"

definition asks_of :: "question \<Rightarrow> string set" where
  "asks_of q = (case q_show_if q of None \<Rightarrow> {} | Some c \<Rightarrow> mentions c)"

definition looks_at_answers :: "question \<Rightarrow> bool" where
  "looks_at_answers q = (case q_show_if q of None \<Rightarrow> True | Some c \<Rightarrow> fieldless c)"

fun ordered_from :: "string list \<Rightarrow> question list \<Rightarrow> bool" where
  "ordered_from seen [] = True"
| "ordered_from seen (q # qs) =
     (q_key q \<notin> set seen \<and> asks_of q \<subseteq> set seen \<and> looks_at_answers q \<and> ordered_from (q_key q # seen) qs)"

definition ordered_bank :: "bank \<Rightarrow> bool" where
  "ordered_bank bank = ordered_from [] (bk_questions bank)"

lemma cond_cong:
  assumes "fieldless c" "\<And>k. k \<in> mentions c \<Longrightarrow> map_of a k = map_of b k"
  shows "cond c a st = cond c b st'"
  using assms by (induction c) (simp_all, blast+)

lemma is_applicable_cong:
  assumes "looks_at_answers q" "\<And>k. k \<in> asks_of q \<Longrightarrow> map_of a k = map_of b k"
  shows "is_applicable q a st = is_applicable q b st'"
proof (cases "q_show_if q")
  case (Some c)
  then show ?thesis using assms cond_cong [of c a b st st'] by (simp add: is_applicable_def asks_of_def looks_at_answers_def)
qed (simp add: is_applicable_def)

lemma ordered_from_keys:
  "ordered_from seen qs \<Longrightarrow> distinct (map q_key qs) \<and> set seen \<inter> q_key ` set qs = {}"
proof (induction qs arbitrary: seen)
  case (Cons q qs)
  then show ?case using Cons.IH [of "q_key q # seen"] by auto
qed simp

lemma ordered_from_split:
  "ordered_from seen (pre @ q # post) \<Longrightarrow> asks_of q \<subseteq> set seen \<union> q_key ` set pre \<and> looks_at_answers q"
proof (induction pre arbitrary: seen)
  case (Cons p pre)
  then show ?case using Cons.IH [of "q_key p # seen"] by auto
qed simp

lemma ordered_bank_asks:
  assumes "ordered_bank bank" "bk_questions bank = pre @ post" "q \<in> set pre" "p \<in> set post"
  shows "q_key p \<notin> asks_of q" "q_key p \<noteq> q_key q"
proof -
  have d: "distinct (map q_key (pre @ post))"
    using ordered_from_keys assms(1,2) by (metis ordered_bank_def)
  then show "q_key p \<noteq> q_key q" using assms(3,4) by (auto simp: distinct_map)
  obtain a b where ab: "pre = a @ q # b" using split_list [OF assms(3)] by blast
  have "asks_of q \<subseteq> q_key ` set a"
    using ordered_from_split [of "[]" a q "b @ post"] assms(1,2) ab by (simp add: ordered_bank_def)
  then show "q_key p \<notin> asks_of q" using d ab assms(4) by auto
qed

lemma ordered_bank_question: "ordered_bank bank \<Longrightarrow> q \<in> set (bk_questions bank) \<Longrightarrow> looks_at_answers q"
  unfolding ordered_bank_def using ordered_from_split split_list by metis

lemma assessment_bank_ordered: "ordered_bank assessment_bank"
  by code_simp

section \<open>How far the answers have come\<close>

text \<open>The questions that were put before the current one.\<close>

definition asked :: "bank \<Rightarrow> answers \<Rightarrow> startup \<Rightarrow> question list" where
  "asked bank a st =
     filter (\<lambda>q. is_applicable q a st) (takeWhile (\<lambda>q. next_question bank a st \<noteq> Some q) (bk_questions bank))"

text \<open>The answers are exactly the ones to the questions put so far.\<close>

definition in_order :: "bank \<Rightarrow> answers \<Rightarrow> startup \<Rightarrow> bool" where
  "in_order bank a st \<longleftrightarrow> fst ` set a = q_key ` set (asked bank a st)"

lemma next_questionD:
  assumes "next_question bank a st = Some q"
  shows "q \<in> set (bk_questions bank)" "q_key q \<notin> fst ` set a" "is_applicable q a st"
  using find_SomeD [OF assms [unfolded next_question_def]] by auto

lemma next_question_None:
  "next_question bank a st = None \<longleftrightarrow> (\<forall>q \<in> set (bk_questions bank). is_applicable q a st \<longrightarrow> q_key q \<in> fst ` set a)"
  by (auto simp: next_question_def find_None_iff)

text \<open>A cut of the bank: everything applicable before it is answered, and nothing else.\<close>

definition cut :: "bank \<Rightarrow> answers \<Rightarrow> startup \<Rightarrow> question list \<Rightarrow> question list \<Rightarrow> bool" where
  "cut bank a st pre post \<longleftrightarrow> bk_questions bank = pre @ post
     \<and> fst ` set a = q_key ` {q \<in> set pre. is_applicable q a st}"

lemma cut_post_unanswered:
  assumes "ordered_bank bank" "cut bank a st pre post" "q \<in> set post"
  shows "q_key q \<notin> fst ` set a"
proof
  assume "q_key q \<in> fst ` set a"
  then obtain p where "p \<in> set pre" "q_key q = q_key p" using assms(2) by (auto simp: cut_def)
  then show False using ordered_bank_asks(2) [OF assms(1) _ _ assms(3)] assms(2) by (auto simp: cut_def)
qed

lemma cut_find:
  assumes "ordered_bank bank" "cut bank a st pre post"
  shows "next_question bank a st = find (\<lambda>q. is_applicable q a st) post"
proof -
  have "find (\<lambda>q. q_key q \<notin> fst ` set a \<and> is_applicable q a st) pre = None"
    using assms(2) by (auto simp: find_None_iff cut_def)
  moreover have "find (\<lambda>q. q_key q \<notin> fst ` set a \<and> is_applicable q a st) post = find (\<lambda>q. is_applicable q a st) post"
    using cut_post_unanswered [OF assms] by (intro find_cong_set) blast
  ultimately show ?thesis using assms(2) by (simp add: next_question_def cut_def find_append)
qed

lemma cut_in_order:
  assumes "ordered_bank bank" "cut bank a st pre post"
  shows "in_order bank a st"
proof -
  let ?A = "\<lambda>q. is_applicable q a st" and ?N = "next_question bank a st"
  have qs: "bk_questions bank = pre @ post" using assms(2) by (simp add: cut_def)
  have before: "?N \<noteq> Some q" if "q \<in> set pre" for q
    using cut_find [OF assms] ordered_bank_asks(2) [OF assms(1) qs that] by (auto dest: find_SomeD)
  have rest: "filter ?A (takeWhile (\<lambda>q. find ?A post \<noteq> Some q) post) = []"
  proof -
    have "\<not> ?A q" if "q \<in> set (takeWhile (\<lambda>q. find ?A xs \<noteq> Some q) xs)" for q xs
      using that by (induction xs) (auto split: if_splits)
    then show ?thesis by (simp add: filter_empty_conv)
  qed
  have "takeWhile (\<lambda>q. ?N \<noteq> Some q) (pre @ post) = pre @ takeWhile (\<lambda>q. ?N \<noteq> Some q) post"
    using before by (intro takeWhile_append2) blast
  then have "asked bank a st = filter ?A pre"
    using rest cut_find [OF assms] qs by (simp add: asked_def)
  then show ?thesis using assms(2) by (simp add: in_order_def cut_def)
qed

lemma in_order_cut:
  assumes "in_order bank a st"
  obtains pre post where "cut bank a st pre post"
    "next_question bank a st = (case post of [] \<Rightarrow> None | q # _ \<Rightarrow> Some q)"
proof
  let ?P = "\<lambda>q. next_question bank a st \<noteq> Some q"
  let ?pre = "takeWhile ?P (bk_questions bank)" and ?post = "dropWhile ?P (bk_questions bank)"
  show "cut bank a st ?pre ?post"
    using assms by (auto simp: cut_def in_order_def asked_def)
  show "next_question bank a st = (case ?post of [] \<Rightarrow> None | q # _ \<Rightarrow> Some q)"
  proof (cases "?post")
    case Nil
    then have "\<forall>q \<in> set (bk_questions bank). ?P q" by (simp add: dropWhile_eq_Nil_conv)
    then have "next_question bank a st = None"
      using next_questionD(1) [of bank a st] by (cases "next_question bank a st") auto
    then show ?thesis unfolding Nil by simp
  next
    case (Cons q ps)
    then have "\<not> ?P q" using hd_dropWhile [of ?P "bk_questions bank"] by simp
    then show ?thesis using Cons by simp
  qed
qed

lemma in_order_Nil: "ordered_bank bank \<Longrightarrow> in_order bank [] st"
  by (rule cut_in_order [where pre = "[]" and post = "bk_questions bank"]) (simp_all add: cut_def)

text \<open>An answer to the current question keeps the order, whoever edits the workspace meanwhile.\<close>

lemma in_order_answer:
  assumes bank: "ordered_bank bank" and "in_order bank a st" and q: "next_question bank a st = Some q"
    and keys: "fst ` set a' = insert (q_key q) (fst ` set a)"
    and same: "\<And>k. k \<noteq> q_key q \<Longrightarrow> map_of a' k = map_of a k"
  shows "in_order bank a' st'"
proof -
  obtain pre post where c: "cut bank a st pre post" and n: "next_question bank a st = (case post of [] \<Rightarrow> None | q # _ \<Rightarrow> Some q)"
    by (rule in_order_cut [OF assms(2)])
  obtain ps where ps: "post = q # ps" using q n by (cases post) simp_all
  have qs: "bk_questions bank = pre @ q # ps" using c ps by (simp add: cut_def)
  have eq: "is_applicable p a' st' = is_applicable p a st" if "p \<in> set (pre @ [q])" for p
  proof (rule is_applicable_cong)
    show "looks_at_answers p" using ordered_bank_question [OF bank, of p] that qs by auto
    have "q_key q \<notin> asks_of p" using that
    proof (cases "p = q")
      case True
      have "asks_of q \<subseteq> q_key ` set pre"
        using ordered_from_split [of "[]" pre q ps] bank qs by (simp add: ordered_bank_def)
      then show ?thesis using True ordered_bank_asks(2) [OF bank qs, of _ q] by auto
    qed (use ordered_bank_asks(1) [OF bank qs, of p q] in auto)
    then show "map_of a' k = map_of a k" if "k \<in> asks_of p" for k using same that by metis
  qed
  have "q_key ` {p \<in> set (pre @ [q]). is_applicable p a' st'} = q_key ` {p \<in> set (pre @ [q]). is_applicable p a st}"
    using eq by (intro image_cong Collect_cong) auto
  also have "\<dots> = insert (q_key q) (q_key ` {p \<in> set pre. is_applicable p a st})"
    using next_questionD(3) [OF q] by auto
  finally have "cut bank a' st' (pre @ [q]) ps"
    using c qs keys by (simp add: cut_def)
  then show ?thesis by (rule cut_in_order [OF bank])
qed

lemma in_order_startup: "ordered_bank bank \<Longrightarrow> in_order bank a st \<Longrightarrow> in_order bank a st'"
proof -
  assume o: "ordered_bank bank" and i: "in_order bank a st"
  have "\<forall>q \<in> set (bk_questions bank). is_applicable q a st = is_applicable q a st'"
    using is_applicable_cong [OF ordered_bank_question [OF o]] by blast
  moreover obtain pre post where "cut bank a st pre post" using in_order_cut [OF i] by metis
  ultimately have "cut bank a st' pre post" unfolding cut_def by (metis (mono_tags, lifting) Collect_cong UnCI set_append)
  then show ?thesis by (rule cut_in_order [OF o])
qed

text \<open>Every answer leaves fewer questions unanswered.\<close>

definition unanswered :: "bank \<Rightarrow> answers \<Rightarrow> nat" where
  "unanswered bank a = count_where (\<lambda>q. q_key q \<notin> fst ` set a) (bk_questions bank)"

lemma count_where_less:
  "(\<And>r. r \<in> set t \<Longrightarrow> P r \<Longrightarrow> Q r) \<Longrightarrow> x \<in> set t \<Longrightarrow> Q x \<Longrightarrow> \<not> P x \<Longrightarrow> count_where P t < count_where Q t"
proof (induction t)
  case (Cons r t)
  have le: "count_where P t \<le> count_where Q t" using Cons.prems(1) by (intro count_where_mono) simp
  show ?case
  proof (cases "r = x")
    case False
    then have "count_where P t < count_where Q t" using Cons by simp
    then show ?thesis using Cons.prems(1) [of r] by auto
  qed (use le Cons.prems(3,4) in simp)
qed simp

lemma unanswered_less:
  assumes "next_question bank a st = Some q" "fst ` set a' = insert (q_key q) (fst ` set a)"
  shows "unanswered bank a' < unanswered bank a"
  unfolding unanswered_def using next_questionD [OF assms(1)] assms(2)
  by (intro count_where_less [where x = q]) auto

lemma unanswered_0: "unanswered bank a = 0 \<Longrightarrow> next_question bank a st = None"
  by (auto simp: unanswered_def count_where_0_iff next_question_None)

section \<open>What the scores mean\<close>

definition well_scored :: "question \<Rightarrow> bool" where
  "well_scored q =
     (case q_type q of
        QT_scale_1_5 \<Rightarrow> scoring_get q ''max'' = 5
      | QT_single_choice \<Rightarrow> list_all (\<lambda>v. 0 \<le> scoring_get q v \<and> scoring_get q v \<le> scoring_get q ''max'') (option_values q)
      | QT_multi_choice \<Rightarrow> 0 \<le> scoring_get q ''max'' \<and> list_all (\<lambda>v. 0 \<le> scoring_get q v) (option_values q)
      | _ \<Rightarrow> 0 \<le> scoring_get q ''max'')"

lemma assessment_bank_well_scored: "q \<in> set (bk_questions assessment_bank) \<Longrightarrow> well_scored q"
proof -
  have "list_all well_scored (bk_questions assessment_bank)" by code_simp
  then show "q \<in> set (bk_questions assessment_bank) \<Longrightarrow> well_scored q" by (simp add: list_all_iff)
qed

lemma all_options_ok: "all_options q vs = Inr () \<Longrightarrow> \<forall>v \<in> set vs. \<exists>x. v = JStr x \<and> x \<in> set (option_values q)"
proof (induction vs)
  case (Cons v vs)
  then show ?case by (cases v) (auto simp: in_options_def split: if_splits)
qed simp

lemma points_range:
  assumes "well_scored q" "validate_answer q v = Inr ()"
  shows "0 \<le> points q v \<and> points q v \<le> scoring_get q ''max''"
proof (cases "q_type q")
  case QT_single_choice
  then show ?thesis using assms
    by (auto simp: validate_answer_def in_options_def points_def well_scored_def list_all_iff split: json.splits if_splits)
next
  case QT_multi_choice
  then obtain vs where vs: "v = JList vs" "all_options q vs = Inr ()"
    using assms(2) by (auto simp: validate_answer_def split: json.splits if_splits)
  have "0 \<le> sum_list (map (\<lambda>v. case v of JStr x \<Rightarrow> scoring_get q x | _ \<Rightarrow> 0) vs)"
    using all_options_ok [OF vs(2)] QT_multi_choice assms(1)
    by (intro sum_list_nonneg) (auto simp: well_scored_def list_all_iff)
  then show ?thesis using QT_multi_choice vs(1) assms(1) by (simp add: points_def well_scored_def)
next
  case QT_scale_1_5
  then show ?thesis using assms by (auto simp: validate_answer_def points_def well_scored_def split: json.splits if_splits)
qed (use assms in \<open>simp_all add: points_def well_scored_def\<close>)

lemma full_marks_iff:
  fixes p m :: "'a \<Rightarrow> int"
  assumes "\<And>x. x \<in> set xs \<Longrightarrow> p x \<le> m x"
  shows "sum_list (map p xs) = sum_list (map m xs) \<longleftrightarrow> (\<forall>x \<in> set xs. p x = m x)"
  using assms
proof (induction xs)
  case (Cons x xs)
  have "sum_list (map p xs) \<le> sum_list (map m xs)" using Cons.prems by (intro sum_list_mono) simp
  then have "p x + sum_list (map p xs) = m x + sum_list (map m xs)
      \<longleftrightarrow> p x = m x \<and> sum_list (map p xs) = sum_list (map m xs)"
    using Cons.prems [of x] by auto
  then show ?case using Cons by simp
qed simp

definition valid_answers :: "bank \<Rightarrow> answers \<Rightarrow> bool" where
  "valid_answers bank a \<longleftrightarrow> (\<forall>q \<in> set (bk_questions bank). \<forall>v. map_of a (q_key q) = Some v \<longrightarrow> validate_answer q v = Inr ())"

text \<open>
  With valid answers the score of a dimension is the rounded percentage of the points that could be
  earned, the clamping never acts, and it is 100 exactly when every counted answer earns its maximum.
\<close>

lemma dimension_score_percent:
  assumes "valid_answers bank a" "\<forall>q \<in> set (bk_questions bank). well_scored q"
    and "sum_list (map (\<lambda>q. scoring_get q ''max'') (counted bank a st d)) < 200"
  shows "counted bank a st d = [] \<Longrightarrow> dimension_score bank a st d = 50"
    and "counted bank a st d \<noteq> [] \<Longrightarrow> dimension_score bank a st d
        = percent (nat (sum_list (map (\<lambda>q. points q (answer_of a q)) (counted bank a st d))))
            (nat (sum_list (map (\<lambda>q. scoring_get q ''max'') (counted bank a st d))))"
    and "counted bank a st d \<noteq> [] \<Longrightarrow> dimension_score bank a st d = 100
        \<longleftrightarrow> (\<forall>q \<in> set (counted bank a st d). points q (answer_of a q) = scoring_get q ''max'')"
proof -
  let ?qs = "counted bank a st d" and ?p = "\<lambda>q. points q (answer_of a q)" and ?m = "\<lambda>q. scoring_get q ''max''"
  show "?qs = [] \<Longrightarrow> dimension_score bank a st d = 50" by (simp add: dimension_score_def)
  have range: "0 \<le> ?p q \<and> ?p q \<le> ?m q \<and> 0 < ?m q" if "q \<in> set ?qs" for q
  proof -
    have q: "q \<in> set (bk_questions bank)" "q_key q \<in> fst ` set a" "0 < ?m q" using that by (auto simp: counted_def)
    then obtain v where v: "map_of a (q_key q) = Some v" by (meson map_of_eq_None_iff not_None_eq)
    then have "validate_answer q v = Inr ()" using assms(1) q(1) by (auto simp: valid_answers_def)
    then show ?thesis using points_range [of q v] assms(2) q v by (simp add: answer_of_def)
  qed
  assume ne: "?qs \<noteq> []"
  let ?e = "sum_list (map ?p ?qs)" and ?t = "sum_list (map ?m ?qs)"
  have e: "0 \<le> ?e" "?e \<le> ?t" using range by (auto intro!: sum_list_nonneg sum_list_mono)
  have t: "0 < ?t"
  proof (cases ?qs)
    case (Cons q qs)
    have "0 \<le> sum_list (map ?m qs)" using range Cons by (intro sum_list_nonneg) force
    then show ?thesis using range [of q] Cons by simp
  qed (use ne in simp)
  have r: "0 \<le> percent (nat ?e) (nat ?t)" "percent (nat ?e) (nat ?t) \<le> 100"
    using percent_range [of "nat ?t" "nat ?e"] e t by auto
  show pc: "dimension_score bank a st d = percent (nat ?e) (nat ?t)"
    using e t r by (simp add: dimension_score_def Let_def percent_def)
  have "percent (nat ?e) (nat ?t) = 100 \<longleftrightarrow> nat ?e = nat ?t"
    using percent_100_iff [of "nat ?t" "nat ?e"] e t assms(3) by auto
  also have "\<dots> \<longleftrightarrow> ?e = ?t" using e t by auto
  also have "\<dots> \<longleftrightarrow> (\<forall>q \<in> set ?qs. ?p q = ?m q)"
    by (rule full_marks_iff) (use range in blast)
  finally show "dimension_score bank a st d = 100 \<longleftrightarrow> (\<forall>q \<in> set ?qs. ?p q = ?m q)" by (simp add: pc)
qed

lemma assessment_bank_total: "sum_list (map (\<lambda>q. scoring_get q ''max'') (counted assessment_bank a st d)) < 200"
proof -
  have nn: "0 \<le> scoring_get q ''max''" if "q \<in> set (bk_questions assessment_bank)" for q
  proof -
    have "list_all (\<lambda>q. 0 \<le> scoring_get q ''max'') (bk_questions assessment_bank)" by code_simp
    then show ?thesis using that by (simp add: list_all_iff)
  qed
  have le: "sum_list (map f (filter P xs)) \<le> sum_list (map f xs)" if "\<And>x. x \<in> set xs \<Longrightarrow> 0 \<le> f x"
    for f :: "question \<Rightarrow> int" and P xs
    using that by (induction xs) (auto intro!: add_increasing)
  have "sum_list (map (\<lambda>q. scoring_get q ''max'') (bk_questions assessment_bank)) < 200" by code_simp
  then show ?thesis
    using le [of "bk_questions assessment_bank" "\<lambda>q. scoring_get q ''max''"] nn unfolding counted_def by (meson le_less_trans)
qed

text \<open>A finished questionnaire counts at least one answer of every dimension.\<close>

lemma finished_counts:
  assumes "next_question assessment_bank a st = None"
  shows "counted assessment_bank a st d \<noteq> []"
proof -
  have "list_all (\<lambda>d. list_ex (\<lambda>q. q_dimension q = d \<and> 0 < scoring_get q ''max'' \<and> q_show_if q = None)
      (bk_questions assessment_bank)) all_dimensions" by code_simp
  then have "list_ex (\<lambda>q. q_dimension q = d \<and> 0 < scoring_get q ''max'' \<and> q_show_if q = None) (bk_questions assessment_bank)"
    by (simp add: list_all_iff)
  then obtain q where q: "q \<in> set (bk_questions assessment_bank)" "q_dimension q = d" "0 < scoring_get q ''max''" "q_show_if q = None"
    by (auto simp: list_ex_iff)
  moreover have "is_applicable q a st" using q(4) by (simp add: is_applicable_def)
  ultimately have "q \<in> set (counted assessment_bank a st d)"
    using assms unfolding next_question_None counted_def by simp
  then show ?thesis by auto
qed

lemma dimension_score_range: "0 \<le> dimension_score bank a st d" "dimension_score bank a st d \<le> 100"
  by (simp_all add: dimension_score_def Let_def)

end
