(* ===== verification/Health.thy ===== *)
theory Health
  imports Assessment_Bank Member_Requests
begin

text \<open>
  The health score (\<^verbatim>\<open>app/services/health_score\<close>) on the tables of the assessments and of the score
  (\<^verbatim>\<open>app/db/models/assessment.py\<close>, \<^verbatim>\<open>health_score.py\<close>): its recomputation from the latest completed
  assessment, the recommendations with their user decisions, and the screens that read them.
\<close>

record assessment =
  as_id :: uid
  as_startup_id :: uid
  as_type :: assessment_type
  as_status :: assessment_status
  as_bank_version :: string
  as_created_by :: uid
  as_started_at :: instant
  as_completed_at :: "instant option"

record assessment_answer =
  aa_id :: uid
  aa_assessment_id :: uid
  aa_question_key :: string
  aa_value :: json
  aa_answered_at :: instant

record assessment_result =
  ar_assessment_id :: uid
  ar_dimension_scores :: "(string \<times> int) list"
  ar_overall :: int
  ar_narrative :: string

record health_score =
  hs_id :: uid
  hs_startup_id :: uid
  hs_score :: int
  hs_band :: string
  hs_dimension_scores :: "(string \<times> int) list"
  hs_source :: string
  hs_config_version :: int
  hs_created_at :: instant
  hs_updated_at :: instant

record health_point =
  hp_id :: uid
  hp_startup_id :: uid
  hp_score :: int
  hp_dimension_scores :: "(string \<times> int) list"
  hp_delta :: int
  hp_trigger :: string
  hp_config_version :: int
  hp_created_at :: instant

text \<open>The contribution is in hundredths, the scale of its column.\<close>

record health_signal =
  hg_id :: uid
  hg_startup_id :: uid
  hg_dimension :: string
  hg_key :: string
  hg_value :: int
  hg_contribution :: int
  hg_source :: uid

record recommendation =
  hr_id :: uid
  hr_startup_id :: uid
  hr_dimension :: string
  hr_key :: string
  hr_title :: string
  hr_body :: string
  hr_lift :: int
  hr_effort :: recommendation_effort
  hr_status :: recommendation_status
  hr_priority :: nat
  hr_resolved_at :: "instant option"

record assess_db = notif_db +
  assessments :: "assessment list"
  assessment_answers :: "assessment_answer list"
  assessment_results :: "assessment_result list"
  health_scores :: "health_score list"
  health_history :: "health_point list"
  health_signals :: "health_signal list"
  recommendations :: "recommendation list"

section \<open>Configuration\<close>

definition health_config_version :: int where
  "health_config_version = 1"

text \<open>
  In hundredths. The source writes \<^verbatim>\<open>0.20\<close>: the sum of the five products differs from the exact fifth
  of an integer by far less than its distance from a half, so that \<^verbatim>\<open>round\<close> is exact.
\<close>

definition dimension_weights :: "(string \<times> int) list" where
  "dimension_weights = [(''product'', 20), (''market'', 20), (''money'', 20), (''legal'', 20), (''team'', 20)]"

definition weight_of :: "string \<Rightarrow> int" where
  "weight_of d = (case map_of dimension_weights d of None \<Rightarrow> 0 | Some w \<Rightarrow> w)"

definition bands :: "(int \<times> int \<times> string) list" where
  "bands = [(0, 39, ''at_risk''), (40, 59, ''needs_work''), (60, 79, ''healthy''), (80, 100, ''thriving'')]"

definition min_cohort_size :: nat where
  "min_cohort_size = 5"

definition dimension_labels :: "(string \<times> string) list" where
  "dimension_labels =
     [(''product'', ''Product''), (''market'', ''Market''), (''money'', ''Financial''), (''legal'', ''Legal''),
      (''team'', ''Team'')]"

definition label_of :: "string \<Rightarrow> string" where
  "label_of d = (case map_of dimension_labels d of None \<Rightarrow> [] | Some l \<Rightarrow> l)"

record catalog_entry =
  ce_key :: string
  ce_title :: string
  ce_body :: string
  ce_lift :: int
  ce_effort :: recommendation_effort
  ce_triggers_below :: int

definition recommendation_catalog :: "(string \<times> catalog_entry list) list" where
  "recommendation_catalog =
     [(''product'',
       [\<lparr>ce_key = ''product.define_mvp'', ce_title = ''Define your MVP scope'',
         ce_body = ''Write a one-page MVP definition: the single problem, the smallest feature set that solves it, and what you are deliberately leaving out.'',
         ce_lift = 8, ce_effort = RE_medium, ce_triggers_below = 60\<rparr>,
        \<lparr>ce_key = ''product.user_feedback_loop'', ce_title = ''Set up a user feedback loop'',
         ce_body = ''Put a lightweight channel in front of real users (calls, a form, a Slack) and commit to reviewing it weekly.'',
         ce_lift = 6, ce_effort = RE_low, ce_triggers_below = 50\<rparr>]),
      (''market'',
       [\<lparr>ce_key = ''market.icp_definition'', ce_title = ''Write a one-page ICP'',
         ce_body = ''Define your ideal customer profile: who they are, the pain, and why now. Specificity beats reach at this stage.'',
         ce_lift = 7, ce_effort = RE_low, ce_triggers_below = 60\<rparr>,
        \<lparr>ce_key = ''market.competitor_map'', ce_title = ''Map your top 5 competitors'',
         ce_body = ''List the five closest alternatives (including '' @ [CHR 0x27] @ ''do nothing'' @ [CHR 0x27] @ '') and one sentence on how you differ from each.'',
         ce_lift = 5, ce_effort = RE_low, ce_triggers_below = 50\<rparr>]),
      (''money'',
       [\<lparr>ce_key = ''money.runway_model'', ce_title = ''Build a 12-month runway model'',
         ce_body = ''Model monthly cash in/out for 12 months so you know your runway and the month you must raise or break even.'',
         ce_lift = 8, ce_effort = RE_medium, ce_triggers_below = 60\<rparr>,
        \<lparr>ce_key = ''money.pricing_experiment'', ce_title = ''Run a pricing experiment'',
         ce_body = ''Test one concrete price point with real prospects. Willingness-to-pay evidence de-risks your whole model.'',
         ce_lift = 6, ce_effort = RE_medium, ce_triggers_below = 50\<rparr>]),
      (''legal'',
       [\<lparr>ce_key = ''legal.incorporate'', ce_title = ''Complete incorporation'',
         ce_body = ''Register the company and issue founder shares. Operating unincorporated exposes founders personally and blocks fundraising.'',
         ce_lift = 9, ce_effort = RE_high, ce_triggers_below = 60\<rparr>,
        \<lparr>ce_key = ''legal.founder_agreement'', ce_title = ''Sign a founders'' @ [CHR 0x27] @ '' agreement'',
         ce_body = ''Put equity splits, vesting, and roles in writing before it is contentious. This prevents the most common founder disputes.'',
         ce_lift = 7, ce_effort = RE_medium, ce_triggers_below = 50\<rparr>]),
      (''team'',
       [\<lparr>ce_key = ''team.roles_clarity'', ce_title = ''Clarify founder roles & equity'',
         ce_body = ''Write down who owns what decisions and the equity split with vesting. Ambiguity here compounds fast.'',
         ce_lift = 7, ce_effort = RE_medium, ce_triggers_below = 60\<rparr>,
        \<lparr>ce_key = ''team.hiring_plan'', ce_title = ''Draft a 6-month hiring plan'',
         ce_body = ''List the next 2-3 critical hires, when, and why. A plan turns hiring from reactive to intentional.'',
         ce_lift = 5, ce_effort = RE_low, ce_triggers_below = 50\<rparr>])]"

section \<open>Scoring\<close>

text \<open>\<^verbatim>\<open>dimension_scores.get(d, 50)\<close>.\<close>

definition score_or_50 :: "(string \<times> int) list \<Rightarrow> string \<Rightarrow> int" where
  "score_or_50 ds d = (case map_of ds d of None \<Rightarrow> 50 | Some v \<Rightarrow> v)"

definition weighted_overall :: "(string \<times> int) list \<Rightarrow> int" where
  "weighted_overall ds =
     (let total = sum_list (map (\<lambda>d. weight_of (dimension_value d) * score_or_50 ds (dimension_value d)) all_dimensions)
      in max 0 (min 100 (py_round_div total 100)))"

definition band_for :: "int \<Rightarrow> string" where
  "band_for x =
     (case find (\<lambda>(low, high, key). low \<le> x \<and> x \<le> high) bands of
        None \<Rightarrow> snd (snd (last bands))
      | Some (low, high, key) \<Rightarrow> key)"

section \<open>Recommendations\<close>

text \<open>\<^verbatim>\<open>(rank_val, estimated_lift)\<close>, sorted descending; Python's reversed sort is stable.\<close>

definition candidate_rank :: "(string \<times> int) list \<Rightarrow> string \<times> catalog_entry \<Rightarrow> int \<times> int" where
  "candidate_rank ds = (\<lambda>(dim, e). ((ce_triggers_below e - score_or_50 ds dim) * weight_of dim, ce_lift e))"

definition candidates :: "(string \<times> int) list \<Rightarrow> (string \<times> catalog_entry) list" where
  "candidates ds =
     sort_key (\<lambda>c. (- fst (candidate_rank ds c), - snd (candidate_rank ds c)))
       (concat (map (\<lambda>(dim, es). map (Pair dim) (filter (\<lambda>e. score_or_50 ds dim < ce_triggers_below e) es))
          recommendation_catalog))"

definition new_recommendation :: "uid \<Rightarrow> uid \<Rightarrow> string \<Rightarrow> catalog_entry \<Rightarrow> nat \<Rightarrow> recommendation" where
  "new_recommendation i startup_id dim e priority =
     \<lparr>hr_id = i, hr_startup_id = startup_id, hr_dimension = dim, hr_key = ce_key e, hr_title = ce_title e,
      hr_body = ce_body e, hr_lift = ce_lift e, hr_effort = ce_effort e, hr_status = RS_pending,
      hr_priority = priority, hr_resolved_at = None\<rparr>"

text \<open>One turn of the loop over the ranked candidates; \<open>existing\<close> are the rows read before it.\<close>

definition put_candidate ::
    "uid \<Rightarrow> recommendation list \<Rightarrow> nat \<Rightarrow> string \<times> catalog_entry \<Rightarrow> 'a assess_db_scheme \<Rightarrow> 'a assess_db_scheme" where
  "put_candidate startup_id existing priority c s =
     (case find (\<lambda>r. hr_key r = ce_key (snd c)) existing of
        None \<Rightarrow> s\<lparr>fresh := Suc (fresh s),
                  recommendations := recommendations s @ [new_recommendation (fresh s) startup_id (fst c) (snd c) priority]\<rparr>
      | Some row \<Rightarrow>
          if hr_status row = RS_dismissed then s
          else s\<lparr>recommendations := update_where (\<lambda>r. hr_id r = hr_id row)
                   (\<lambda>r. r\<lparr>hr_priority := priority, hr_lift := ce_lift (snd c)\<rparr>) (recommendations s)\<rparr>)"

fun put_candidates ::
    "uid \<Rightarrow> recommendation list \<Rightarrow> nat \<Rightarrow> (string \<times> catalog_entry) list \<Rightarrow> 'a assess_db_scheme \<Rightarrow> 'a assess_db_scheme" where
  "put_candidates startup_id existing priority [] s = s"
| "put_candidates startup_id existing priority (c # cs) s =
     put_candidates startup_id existing (Suc priority) cs (put_candidate startup_id existing priority c s)"

definition generate_recommendations :: "uid \<Rightarrow> (string \<times> int) list \<Rightarrow> 'a assess_db_scheme \<Rightarrow> 'a assess_db_scheme" where
  "generate_recommendations startup_id ds s =
     (let cs = candidates ds;
          keys = map (\<lambda>(dim, e). ce_key e) cs;
          s1 = s\<lparr>recommendations := delete_where (\<lambda>r. hr_startup_id r = startup_id \<and> hr_status r = RS_pending
                   \<and> hr_key r \<notin> set keys) (recommendations s)\<rparr>
      in put_candidates startup_id (filter (\<lambda>r. hr_startup_id r = startup_id) (recommendations s1)) 1 cs s1)"

section \<open>Recomputation\<close>

definition completed_of :: "'a assess_db_scheme \<Rightarrow> uid \<Rightarrow> (assessment \<times> assessment_result) list" where
  "completed_of s startup_id =
     concat (map (\<lambda>a. map (Pair a) (filter (\<lambda>r. ar_assessment_id r = as_id a) (assessment_results s)))
       (filter (\<lambda>a. as_startup_id a = startup_id \<and> as_status a = AS_completed) (assessments s)))"

definition latest_completed_result :: "'a assess_db_scheme \<Rightarrow> uid \<Rightarrow> assessment_result option" where
  "latest_completed_result s startup_id =
     (case desc_by (\<lambda>(a, r). nulls_last (as_completed_at a)) (completed_of s startup_id) of
        [] \<Rightarrow> None
      | (a, r) # _ \<Rightarrow> Some r)"

definition history_of :: "'a assess_db_scheme \<Rightarrow> uid \<Rightarrow> health_point list" where
  "history_of s startup_id = filter (\<lambda>h. hp_startup_id h = startup_id) (health_history s)"

definition delta_7d :: "'a assess_db_scheme \<Rightarrow> uid \<Rightarrow> int \<Rightarrow> instant \<Rightarrow> int" where
  "delta_7d s startup_id current now =
     (case desc_by hp_created_at (filter (\<lambda>h. hp_created_at h \<le> now - days 7) (history_of s startup_id)) of
        h # _ \<Rightarrow> current - hp_score h
      | [] \<Rightarrow> (case sort_key hp_created_at (history_of s startup_id) of
                 h # _ \<Rightarrow> current - hp_score h
               | [] \<Rightarrow> 0))"

definition health_of :: "'a assess_db_scheme \<Rightarrow> uid \<Rightarrow> health_score option" where
  "health_of s startup_id = find (\<lambda>h. hs_startup_id h = startup_id) (health_scores s)"

definition prior_max :: "'a assess_db_scheme \<Rightarrow> uid \<Rightarrow> int option" where
  "prior_max s startup_id =
     (case desc_by hp_score (history_of s startup_id) of [] \<Rightarrow> None | h # _ \<Rightarrow> Some (hp_score h))"

definition new_signal :: "uid \<Rightarrow> uid \<Rightarrow> uid \<Rightarrow> string \<Rightarrow> int \<Rightarrow> health_signal" where
  "new_signal i startup_id assessment_id d v =
     \<lparr>hg_id = i, hg_startup_id = startup_id, hg_dimension = d, hg_key = ''assessment.'' @ d, hg_value = v,
      hg_contribution = v * weight_of d, hg_source = assessment_id\<rparr>"

definition replace_signals :: "uid \<Rightarrow> uid \<Rightarrow> (string \<times> int) list \<Rightarrow> 'a assess_db_scheme \<Rightarrow> 'a assess_db_scheme" where
  "replace_signals startup_id assessment_id ds s =
     s\<lparr>fresh := fresh s + length ds,
       health_signals := delete_where (\<lambda>g. hg_startup_id g = startup_id) (health_signals s)
         @ map (\<lambda>(k, d, v). new_signal (fresh s + k) startup_id assessment_id d v) (enumerate 0 ds)\<rparr>"

text \<open>
  \<^verbatim>\<open>on_conflict_do_update\<close> does not run the \<^verbatim>\<open>onupdate\<close> of \<^verbatim>\<open>updated_at\<close>: the row of a workspace
  keeps the time of its first computation.
\<close>

definition put_health ::
    "instant \<Rightarrow> uid \<Rightarrow> int \<Rightarrow> string \<Rightarrow> (string \<times> int) list \<Rightarrow> 'a assess_db_scheme \<Rightarrow> 'a assess_db_scheme" where
  "put_health now startup_id overall band ds s =
     (let (i, s1) = fresh_id s
      in s1\<lparr>health_scores :=
           (if \<exists>h \<in> set (health_scores s). hs_startup_id h = startup_id
            then update_where (\<lambda>h. hs_startup_id h = startup_id)
                   (\<lambda>h. h\<lparr>hs_score := overall, hs_band := band, hs_dimension_scores := ds,
                          hs_config_version := health_config_version\<rparr>) (health_scores s)
            else health_scores s @ [\<lparr>hs_id = i, hs_startup_id = startup_id, hs_score = overall, hs_band = band,
                   hs_dimension_scores = ds, hs_source = ''assessment'', hs_config_version = health_config_version,
                   hs_created_at = now, hs_updated_at = now\<rparr>])\<rparr>)"

definition add_point ::
    "instant \<Rightarrow> uid \<Rightarrow> int \<Rightarrow> (string \<times> int) list \<Rightarrow> int \<Rightarrow> string \<Rightarrow> 'a assess_db_scheme \<Rightarrow> 'a assess_db_scheme" where
  "add_point now startup_id overall ds delta trigger s =
     (let (i, s1) = fresh_id s
      in s1\<lparr>health_history := health_history s @
           [\<lparr>hp_id = i, hp_startup_id = startup_id, hp_score = overall, hp_dimension_scores = ds, hp_delta = delta,
             hp_trigger = trigger, hp_config_version = health_config_version, hp_created_at = now\<rparr>]\<rparr>)"

definition int_or_null :: "int option \<Rightarrow> json" where
  "int_or_null x = (case x of None \<Rightarrow> JNull | Some n \<Rightarrow> JInt n)"

text \<open>The announcements at the end of a recomputation.\<close>

definition announce_health ::
    "instant \<Rightarrow> uid \<Rightarrow> int \<Rightarrow> int option \<Rightarrow> int option \<Rightarrow> int \<Rightarrow> 'a assess_db_scheme \<Rightarrow> 'a assess_db_scheme" where
  "announce_health now startup_id overall previous prior delta s =
     (let s1 = publish now ''healthscore.updated''
                 [(''startup_id'', JUid startup_id), (''score'', JInt overall), (''previous_score'', int_or_null previous),
                  (''band'', JStr (band_for overall)), (''delta_7d'', JInt delta), (''computed_at'', JTime now),
                  (''config_version'', JInt health_config_version)] s;
          s2 = (if delta \<le> -5
                then publish now ''healthscore.dropped''
                       [(''startup_id'', JUid startup_id), (''score'', JInt overall),
                        (''previous_score'', int_or_null previous), (''delta_7d'', JInt delta), (''computed_at'', JTime now)] s1
                else s1)
      in case prior of
           None \<Rightarrow> s2
         | Some m \<Rightarrow>
             if m < overall
             then publish now ''healthscore.record''
                    [(''startup_id'', JUid startup_id), (''score'', JInt overall), (''previous_max'', JInt m),
                     (''computed_at'', JTime now)] s2
             else s2)"

definition current_scores :: "assessment_result \<Rightarrow> (string \<times> int) list" where
  "current_scores r = map (\<lambda>d. (dimension_value d, score_or_50 (ar_dimension_scores r) (dimension_value d))) all_dimensions"

definition recompute_health_score :: "instant \<Rightarrow> uid \<Rightarrow> string \<Rightarrow> 'a assess_db_scheme \<Rightarrow> 'a assess_db_scheme" where
  "recompute_health_score now startup_id trigger s =
     (case latest_completed_result s startup_id of
        None \<Rightarrow> s
      | Some result \<Rightarrow>
          let ds = current_scores result;
              overall = weighted_overall ds;
              previous = map_option hs_score (health_of s startup_id);
              prior = prior_max s startup_id;
              delta = delta_7d s startup_id overall now;
              s1 = replace_signals startup_id (ar_assessment_id result) ds s;
              s2 = put_health now startup_id overall (band_for overall) ds s1;
              s3 = add_point now startup_id overall ds delta trigger s2;
              s4 = generate_recommendations startup_id ds s3;
              s5 = snd (enqueue now ''ai.health.recommendations'' [(''startup_id'', JUid startup_id)] (Some startup_id) s4)
          in announce_health now startup_id overall previous prior delta s5)"

end
