(* ===== verification/Assessment.thy ===== *)
theory Assessment
  imports Health Roadmap_Edit
begin

text \<open>
  The assessments (\<^verbatim>\<open>app/services/assessment/service.py\<close>, \<^verbatim>\<open>app/api/v1/endpoints/assessments.py\<close>):
  starting or resuming, answering question by question, completing with the scores, the job and the
  health score that follow; and the screens that read them.
\<close>

section \<open>Service\<close>

definition answered_map :: "'a assess_db_scheme \<Rightarrow> assessment \<Rightarrow> answers" where
  "answered_map s a =
     map (\<lambda>r. (aa_question_key r, aa_value r)) (filter (\<lambda>r. aa_assessment_id r = as_id a) (assessment_answers s))"

record question_view =
  qv_key :: string
  qv_dimension :: string
  qv_section :: string
  qv_type :: qtype
  qv_options :: "(string \<times> string) list option"

definition serialize_question :: "question option \<Rightarrow> question_view option" where
  "serialize_question = map_option (\<lambda>q. \<lparr>qv_key = q_key q, qv_dimension = dimension_value (q_dimension q),
     qv_section = q_section q, qv_type = q_type q, qv_options = q_options q\<rparr>)"

definition in_progress_of :: "'a assess_db_scheme \<Rightarrow> uid \<Rightarrow> assessment option" where
  "in_progress_of s startup_id =
     find (\<lambda>a. as_startup_id a = startup_id \<and> as_status a = AS_in_progress) (assessments s)"

text \<open>
  The insertion under the partial unique index: when another request has inserted meanwhile, the
  savepoint is undone and its row is answered.
\<close>

definition insert_or_resume ::
    "instant \<Rightarrow> assessment_type \<Rightarrow> uid \<Rightarrow> uid \<Rightarrow> 'a assess_db_scheme \<Rightarrow> assessment \<times> 'a assess_db_scheme" where
  "insert_or_resume now ty startup_id user_id s =
     (case in_progress_of s startup_id of
        Some a \<Rightarrow> (a, s)
      | None \<Rightarrow>
          (let (i, s1) = fresh_id s;
               a = \<lparr>as_id = i, as_startup_id = startup_id, as_type = ty, as_status = AS_in_progress,
                    as_bank_version = bk_version assessment_bank, as_created_by = user_id, as_started_at = now,
                    as_completed_at = None\<rparr>
           in (a, s1\<lparr>assessments := assessments s1 @ [a]\<rparr>)))"

definition start_or_resume ::
    "instant \<Rightarrow> startup \<Rightarrow> user \<Rightarrow> 'a assess_db_scheme \<Rightarrow> assessment \<times> 'a assess_db_scheme" where
  "start_or_resume now startup user s =
     (case in_progress_of s (st_id startup) of
        Some existing \<Rightarrow> (existing, s)
      | None \<Rightarrow>
          (let has_completed =
                 (\<exists>a \<in> set (assessments s). as_startup_id a = st_id startup \<and> as_status a = AS_completed)
           in insert_or_resume now (if has_completed then AT_quarterly else AT_initial) (st_id startup) (u_id user) s))"

definition put_answer :: "instant \<Rightarrow> uid \<Rightarrow> string \<Rightarrow> json \<Rightarrow> 'a assess_db_scheme \<Rightarrow> 'a assess_db_scheme" where
  "put_answer now assessment_id key value s =
     (let (i, s1) = fresh_id s
      in s1\<lparr>assessment_answers :=
           (if \<exists>r \<in> set (assessment_answers s). aa_assessment_id r = assessment_id \<and> aa_question_key r = key
            then update_where (\<lambda>r. aa_assessment_id r = assessment_id \<and> aa_question_key r = key)
                   (\<lambda>r. r\<lparr>aa_value := value\<rparr>) (assessment_answers s)
            else assessment_answers s @ [\<lparr>aa_id = i, aa_assessment_id = assessment_id, aa_question_key = key,
                   aa_value = value, aa_answered_at = now\<rparr>])\<rparr>)"

definition submit_answer ::
    "instant \<Rightarrow> assessment \<Rightarrow> startup \<Rightarrow> string \<Rightarrow> json \<Rightarrow> 'a assess_db_scheme
     \<Rightarrow> question option result \<times> 'a assess_db_scheme" where
  "submit_answer now a startup key value s =
     (if as_status a \<noteq> AS_in_progress then (Inl invalid_answer, s)
      else case next_question assessment_bank (answered_map s a) startup of
             None \<Rightarrow> (Inl invalid_answer, s)
           | Some current \<Rightarrow>
               if q_key current \<noteq> key then (Inl invalid_answer, s)
               else (case validate_answer current value of
                       Inl e \<Rightarrow> (Inl e, s)
                     | Inr _ \<Rightarrow>
                         (let s1 = put_answer now (as_id a) key value s
                          in (Inr (next_question assessment_bank (answered_map s1 a) startup), s1))))"

record completion =
  cm_assessment_id :: uid
  cm_dimension_scores :: "(string \<times> int) list"
  cm_overall :: int
  cm_narrative :: string

definition completion_of :: "assessment_result \<Rightarrow> completion" where
  "completion_of r = \<lparr>cm_assessment_id = ar_assessment_id r, cm_dimension_scores = ar_dimension_scores r,
     cm_overall = ar_overall r, cm_narrative = ar_narrative r\<rparr>"

definition incomplete :: "nat \<Rightarrow> string list \<Rightarrow> app_error" where
  "incomplete http missing = AppErr ''ASSESSMENT_INCOMPLETE'' http missing"

definition clear_pending :: "uid \<Rightarrow> 'a assess_db_scheme \<Rightarrow> 'a assess_db_scheme" where
  "clear_pending i s = s\<lparr>startups := update_where (\<lambda>x. st_id x = i)
     (\<lambda>x. x\<lparr>st_profile := map_option (\<lambda>p. p\<lparr>sp_assessment_pending := False\<rparr>) (st_profile x)\<rparr>) (startups s)\<rparr>"

text \<open>What the request that won the claim does.\<close>

definition finish_assessment ::
    "instant \<Rightarrow> assessment \<Rightarrow> startup \<Rightarrow> answers \<Rightarrow> 'a assess_db_scheme
     \<Rightarrow> (completion \<times> bool) result \<times> 'a assess_db_scheme" where
  "finish_assessment now a startup answers s =
     (let scored = score assessment_bank answers startup;
          result = \<lparr>ar_assessment_id = as_id a, ar_dimension_scores = sc_dimension_scores scored,
                    ar_overall = sc_overall scored, ar_narrative = sc_narrative scored\<rparr>;
          s1 = s\<lparr>assessment_results := assessment_results s @ [result]\<rparr>;
          s2 = (if as_type a = AT_initial then clear_pending (st_id startup) s1 else s1);
          s3 = recompute_health_score now (st_id startup) ''assessment_complete'' s2;
          job = [(''startup_id'', JUid (st_id startup)), (''assessment_id'', JUid (as_id a))];
          s4 = snd (enqueue now ''roadmap.replan'' job (Some (st_id startup)) s3);
          s5 = snd (enqueue now ''ai.assessment.narrative'' job (Some (st_id startup)) s4);
          s6 = publish now ''assessment.completed''
                 [(''assessment_id'', JUid (as_id a)), (''startup_id'', JUid (st_id startup)),
                  (''dimension_scores'', JObj (map (\<lambda>(k, v). (k, JInt v)) (sc_dimension_scores scored)))] s5
      in if as_type a = AT_initial \<and> st_profile startup = None then (Inl (Uncaught ''AttributeError''), s1)
         else if \<exists>r \<in> set (assessment_results s). ar_assessment_id r = as_id a then (Inl (Uncaught ''IntegrityError''), s2)
         else (Inr (completion_of result, True), s6))"

definition complete_assessment ::
    "instant \<Rightarrow> assessment \<Rightarrow> startup \<Rightarrow> 'a assess_db_scheme \<Rightarrow> (completion \<times> bool) result \<times> 'a assess_db_scheme" where
  "complete_assessment now a startup s =
     (let answers = answered_map s a
      in case next_question assessment_bank answers startup of
           Some nq \<Rightarrow> (Inl (incomplete 422 [q_key nq]), s)
         | None \<Rightarrow>
             (let open_row = (\<lambda>x. as_id x = as_id a \<and> as_status x = AS_in_progress);
                  s1 = s\<lparr>assessments := update_where open_row
                           (\<lambda>x. x\<lparr>as_status := AS_completed, as_completed_at := Some now\<rparr>) (assessments s)\<rparr>
              in if count_where open_row (assessments s) = 0
                 then (case find (\<lambda>r. ar_assessment_id r = as_id a) (assessment_results s1) of
                         None \<Rightarrow> (Inl (incomplete 409 []), s1)
                       | Some stored \<Rightarrow> (Inr (completion_of stored, False), s1))
                 else finish_assessment now a startup answers s1))"

section \<open>Endpoints\<close>

definition find_assessment :: "'a assess_db_scheme \<Rightarrow> membership \<Rightarrow> uid \<Rightarrow> assessment result" where
  "find_assessment s m i =
     (case find (\<lambda>a. as_id a = i \<and> as_startup_id a = m_startup_id m) (assessments s) of
        None \<Rightarrow> Inl NotFound
      | Some a \<Rightarrow> Inr a)"

definition startup_row :: "'a core_db_scheme \<Rightarrow> membership \<Rightarrow> startup result" where
  "startup_row s m = (case startup_by_id s (m_startup_id m) of None \<Rightarrow> Inl NotFound | Some x \<Rightarrow> Inr x)"

definition start_assessment ::
    "instant \<Rightarrow> user \<Rightarrow> membership \<Rightarrow> 'a assess_db_scheme
     \<Rightarrow> (uid \<times> assessment_type \<times> assessment_status \<times> question_view option) result \<times> 'a assess_db_scheme" where
  "start_assessment now user m s =
     (case startup_row s m of
        Inl e \<Rightarrow> (Inl e, s)
      | Inr startup \<Rightarrow>
          (let (a, s1) = start_or_resume now startup user s;
               nq = next_question assessment_bank (answered_map s1 a) startup
           in (Inr (as_id a, as_type a, as_status a, serialize_question nq), s1)))"

text \<open>The two lookups of the endpoints on one assessment.\<close>

definition assessment_startup :: "'a assess_db_scheme \<Rightarrow> membership \<Rightarrow> uid \<Rightarrow> (assessment \<times> startup) result" where
  "assessment_startup s m i =
     (case find_assessment s m i of
        Inl e \<Rightarrow> Inl e
      | Inr a \<Rightarrow> (case startup_row s m of Inl e \<Rightarrow> Inl e | Inr startup \<Rightarrow> Inr (a, startup)))"

definition get_next_question :: "uid \<Rightarrow> membership \<Rightarrow> 'a assess_db_scheme \<Rightarrow> question_view option result" where
  "get_next_question i m s =
     (case assessment_startup s m i of
        Inl e \<Rightarrow> Inl e
      | Inr (a, startup) \<Rightarrow> Inr (serialize_question (next_question assessment_bank (answered_map s a) startup)))"

definition post_answer ::
    "instant \<Rightarrow> uid \<Rightarrow> string \<Rightarrow> json \<Rightarrow> membership \<Rightarrow> 'a assess_db_scheme
     \<Rightarrow> question_view option result \<times> 'a assess_db_scheme" where
  "post_answer now i key value m s =
     (case assessment_startup s m i of
        Inl e \<Rightarrow> (Inl e, s)
      | Inr (a, startup) \<Rightarrow>
          (case submit_answer now a startup key value s of
             (Inl e, s1) \<Rightarrow> (Inl e, s1)
           | (Inr nq, s1) \<Rightarrow> (Inr (serialize_question nq), s1)))"

definition post_complete_assessment ::
    "instant \<Rightarrow> uid \<Rightarrow> user \<Rightarrow> membership \<Rightarrow> 'a assess_db_scheme \<Rightarrow> completion result \<times> 'a assess_db_scheme" where
  "post_complete_assessment now i user m s =
     (case assessment_startup s m i of
        Inl e \<Rightarrow> (Inl e, s)
      | Inr (a, startup) \<Rightarrow>
          (case complete_assessment now a startup s of
             (Inl e, s1) \<Rightarrow> (Inl e, s1)
           | (Inr (result, claimed), s1) \<Rightarrow>
               (Inr result,
                if claimed
                then write_activity now (st_id startup) ''assessment.completed''
                       (actor_name user @ '' completed the startup assessment'') (Some (u_id user)) (Some ''assessment'')
                       (Some (as_id a)) None s1
                else s1)))"

record assessment_item =
  ai_id :: uid
  ai_type :: assessment_type
  ai_status :: assessment_status
  ai_started_at :: instant
  ai_completed_at :: "instant option"
  ai_overall :: "int option"

definition result_of :: "'a assess_db_scheme \<Rightarrow> uid \<Rightarrow> assessment_result option" where
  "result_of s i = find (\<lambda>r. ar_assessment_id r = i) (assessment_results s)"

definition list_assessments :: "membership \<Rightarrow> 'a assess_db_scheme \<Rightarrow> assessment_item list" where
  "list_assessments m s =
     map (\<lambda>a. \<lparr>ai_id = as_id a, ai_type = as_type a, ai_status = as_status a, ai_started_at = as_started_at a,
             ai_completed_at = as_completed_at a, ai_overall = map_option ar_overall (result_of s (as_id a))\<rparr>)
       (desc_by as_started_at (filter (\<lambda>a. as_startup_id a = m_startup_id m) (assessments s)))"

fun split_at :: "char \<Rightarrow> string \<Rightarrow> string \<Rightarrow> string list" where
  "split_at c acc [] = [acc]"
| "split_at c acc (x # xs) = (if x = c then acc # split_at c [] xs else split_at c (acc @ [x]) xs)"

text \<open>\<open>uuid_of\<close> is \<^verbatim>\<open>uuid.UUID\<close>, \<open>None\<close> where it raises.\<close>

definition compare_assessments ::
    "(string \<Rightarrow> uid option) \<Rightarrow> string \<Rightarrow> membership \<Rightarrow> 'a assess_db_scheme \<Rightarrow> (string \<times> (string \<times> int) list) list result" where
  "compare_assessments uuid_of ids m s =
     (let id_list = filter (\<lambda>x. x \<noteq> []) (split_at (CHR '','') [] ids)
      in if 3 < length id_list then Inl (validation_error [])
         else map_result (\<lambda>raw. case uuid_of raw of
                  None \<Rightarrow> Inl (validation_error [])
                | Some aid \<Rightarrow>
                    (case find (\<lambda>r. ar_assessment_id r = aid \<and> (\<exists>a \<in> set (assessments s). as_id a = ar_assessment_id r
                               \<and> as_startup_id a = m_startup_id m)) (assessment_results s) of
                       None \<Rightarrow> Inl NotFound
                     | Some r \<Rightarrow> Inr (raw, ar_dimension_scores r))) id_list)"

text \<open>\<^verbatim>\<open>setdefault(bucket, []).append(x)\<close>.\<close>

definition push_to :: "string \<Rightarrow> 'b \<Rightarrow> (string \<times> 'b list) list \<Rightarrow> (string \<times> 'b list) list" where
  "push_to k x d = dict_set k ((case map_of d k of None \<Rightarrow> [] | Some xs \<Rightarrow> xs) @ [x]) d"

definition bucket_of :: "assessment_answer \<Rightarrow> string" where
  "bucket_of r = (case question_by_key assessment_bank (aa_question_key r) of
     None \<Rightarrow> ''unknown'' | Some q \<Rightarrow> dimension_value (q_dimension q))"

definition get_assessment ::
    "uid \<Rightarrow> membership \<Rightarrow> 'a assess_db_scheme
     \<Rightarrow> (assessment \<times> (string \<times> (string \<times> json) list) list \<times> assessment_result option) result" where
  "get_assessment i m s =
     (case find_assessment s m i of
        Inl e \<Rightarrow> Inl e
      | Inr a \<Rightarrow>
          Inr (a, foldl (\<lambda>d r. push_to (bucket_of r) (aa_question_key r, aa_value r) d) []
                    (filter (\<lambda>r. aa_assessment_id r = as_id a) (assessment_answers s)),
               result_of s (as_id a)))"

end
