(* ===== verification/Health_Screens.thy ===== *)
theory Health_Screens
  imports Assessment
begin

text \<open>
  The health score screens (\<^verbatim>\<open>app/services/health_score/service.py\<close>,
  \<^verbatim>\<open>app/api/v1/endpoints/health_score.py\<close>): the overview with its computation on first reading, one
  dimension, the history, and the recommendations with the founder's decisions.
\<close>

record recommendation_view =
  rw_id :: uid
  rw_dimension :: string
  rw_key :: string
  rw_title :: string
  rw_body :: string
  rw_lift :: int
  rw_effort :: recommendation_effort
  rw_status :: recommendation_status
  rw_priority :: nat

definition serialize_rec :: "recommendation \<Rightarrow> recommendation_view" where
  "serialize_rec r =
     \<lparr>rw_id = hr_id r, rw_dimension = hr_dimension r, rw_key = hr_key r, rw_title = hr_title r, rw_body = hr_body r,
      rw_lift = hr_lift r, rw_effort = hr_effort r, rw_status = hr_status r, rw_priority = hr_priority r\<rparr>"

definition recommendations_with :: "'a assess_db_scheme \<Rightarrow> uid \<Rightarrow> recommendation_status \<Rightarrow> recommendation list" where
  "recommendations_with s startup_id status =
     sort_key hr_priority (filter (\<lambda>r. hr_startup_id r = startup_id \<and> hr_status r = status) (recommendations s))"

record overview =
  ov_score :: int
  ov_band :: string
  ov_delta_7d :: int
  ov_computed_at :: instant
  ov_config_version :: int
  ov_dimensions :: "(string \<times> string \<times> int \<times> string) list"
  ov_recommendations :: "recommendation_view list"
  ov_summary :: string

definition spaced :: "string \<Rightarrow> string" where
  "spaced x = map (\<lambda>c. if c = CHR ''_'' then CHR '' '' else c) x"

text \<open>
  \<open>stored\<close> is the order in which the database answers the keys of a JSON object.
\<close>

definition overview_of ::
    "((string \<times> int) list \<Rightarrow> (string \<times> int) list) \<Rightarrow> instant \<Rightarrow> uid \<Rightarrow> health_score \<Rightarrow> 'a assess_db_scheme \<Rightarrow> overview" where
  "overview_of stored now startup_id hs s =
     (let ds = stored (hs_dimension_scores hs);
          weakest = first_min snd (hd ds) (tl ds)
      in \<lparr>ov_score = hs_score hs, ov_band = hs_band hs, ov_delta_7d = delta_7d s startup_id (hs_score hs) now,
          ov_computed_at = hs_updated_at hs, ov_config_version = hs_config_version hs,
          ov_dimensions = map (\<lambda>(k, v). (k, label_of k, v, band_for v)) ds,
          ov_recommendations = map serialize_rec (take 3 (recommendations_with s startup_id RS_pending)),
          ov_summary = ''Your Health Score is '' @ show_int (hs_score hs) @ '' ('' @ spaced (hs_band hs)
            @ ''). Your weakest area is '' @ label_of (fst weakest) @ ''.''\<rparr>)"

text \<open>\<open>None\<close> is the answer \<^verbatim>\<open>pending_assessment\<close>.\<close>

definition get_overview ::
    "((string \<times> int) list \<Rightarrow> (string \<times> int) list) \<Rightarrow> instant \<Rightarrow> uid \<Rightarrow> 'a assess_db_scheme
     \<Rightarrow> overview option \<times> 'a assess_db_scheme" where
  "get_overview stored now startup_id s =
     (let s1 = (case health_of s startup_id of
                  Some _ \<Rightarrow> s
                | None \<Rightarrow> (case latest_completed_result s startup_id of
                             None \<Rightarrow> s
                           | Some _ \<Rightarrow> recompute_health_score now startup_id ''lazy_read'' s))
      in (map_option (\<lambda>hs. overview_of stored now startup_id hs s1) (health_of s1 startup_id), s1))"

record dimension_view =
  dx_key :: string
  dx_label :: string
  dx_score :: "int option"
  dx_band :: "string option"
  dx_signals :: "health_signal list"
  dx_trend :: "(int option \<times> instant) list"
  dx_recommendations :: "recommendation_view list"

definition get_dimension :: "'a assess_db_scheme \<Rightarrow> uid \<Rightarrow> string \<Rightarrow> dimension_view result" where
  "get_dimension s startup_id dim =
     (if dim \<notin> fst ` set dimension_labels then Inl NotFound
      else let score = (case health_of s startup_id of None \<Rightarrow> None | Some hs \<Rightarrow> map_of (hs_dimension_scores hs) dim)
           in Inr \<lparr>dx_key = dim, dx_label = label_of dim, dx_score = score, dx_band = map_option band_for score,
                dx_signals = filter (\<lambda>g. hg_startup_id g = startup_id \<and> hg_dimension g = dim) (health_signals s),
                dx_trend = map (\<lambda>h. (map_of (hp_dimension_scores h) dim, hp_created_at h))
                             (sort_key hp_created_at (history_of s startup_id)),
                dx_recommendations = map serialize_rec
                  (filter (\<lambda>r. hr_dimension r = dim) (recommendations_with s startup_id RS_pending))\<rparr>)"

text \<open>Both branches of the source answer the same; a missing stage or industry compares as \<^verbatim>\<open>IS NULL\<close>.\<close>

definition get_benchmarks :: "'a assess_db_scheme \<Rightarrow> startup \<Rightarrow> string option \<times> string option \<times> nat" where
  "get_benchmarks s startup = (map_option startup_stage_value (st_stage startup), st_industry startup, min_cohort_size)"

fun parse_rec_status :: "string option \<Rightarrow> recommendation_status result" where
  "parse_rec_status None = Inr RS_pending"
| "parse_rec_status (Some x) =
     (if x = ''pending'' then Inr RS_pending else if x = ''accepted'' then Inr RS_accepted
      else if x = ''dismissed'' then Inr RS_dismissed else Inl (validation_error [''status'']))"

definition list_recommendations ::
    "string option \<Rightarrow> membership \<Rightarrow> 'a assess_db_scheme \<Rightarrow> recommendation_view list result" where
  "list_recommendations status m s =
     (case parse_rec_status status of
        Inl e \<Rightarrow> Inl e
      | Inr x \<Rightarrow>
          (case startup_row s m of
             Inl e \<Rightarrow> Inl e
           | Inr startup \<Rightarrow> Inr (map serialize_rec (recommendations_with s (st_id startup) x))))"

definition resolve_recommendation ::
    "instant \<Rightarrow> uid \<Rightarrow> uid \<Rightarrow> recommendation_status \<Rightarrow> 'a assess_db_scheme
     \<Rightarrow> recommendation_view result \<times> 'a assess_db_scheme" where
  "resolve_recommendation now startup_id rec_id target s =
     (case find (\<lambda>r. hr_id r = rec_id \<and> hr_startup_id r = startup_id) (recommendations s) of
        None \<Rightarrow> (Inl NotFound, s)
      | Some row \<Rightarrow>
          if hr_status row = target then (Inr (serialize_rec row), s)
          else if hr_status row \<noteq> RS_pending then (Inl RecommendationResolved, s)
          else let row' = row\<lparr>hr_status := target, hr_resolved_at := Some now\<rparr>
               in (Inr (serialize_rec row'),
                   s\<lparr>recommendations := update_where (\<lambda>r. hr_id r = hr_id row)
                       (\<lambda>r. r\<lparr>hr_status := target, hr_resolved_at := Some now\<rparr>) (recommendations s)\<rparr>))"

definition range_days :: "string \<Rightarrow> int option option" where
  "range_days key = map_of [(''7d'', Some 7), (''30d'', Some 30), (''90d'', Some 90), (''all'', None)] key"

definition get_history_points :: "instant \<Rightarrow> string \<Rightarrow> membership \<Rightarrow> 'a assess_db_scheme \<Rightarrow> health_point list result" where
  "get_history_points now key m s =
     (case range_days key of
        None \<Rightarrow> Inl (validation_error [''range''])
      | Some n \<Rightarrow>
          (case startup_row s m of
             Inl e \<Rightarrow> Inl e
           | Inr startup \<Rightarrow>
               Inr (sort_key hp_created_at
                 (filter (\<lambda>h. case n of None \<Rightarrow> True | Some k \<Rightarrow> now - days k \<le> hp_created_at h)
                   (history_of s (st_id startup))))))"

section \<open>Endpoints\<close>

definition get_health_score where
  "get_health_score stored now m s =
     (case startup_row s m of
        Inl e \<Rightarrow> (Inl e, s)
      | Inr startup \<Rightarrow> (case get_overview stored now (st_id startup) s of (v, s1) \<Rightarrow> (Inr v, s1)))"

definition get_dimension_endpoint where
  "get_dimension_endpoint dim m s =
     (case startup_row s m of Inl e \<Rightarrow> Inl e | Inr startup \<Rightarrow> get_dimension s (st_id startup) dim)"

definition resolve_endpoint where
  "resolve_endpoint now rec_id target m s =
     (case startup_row s m of
        Inl e \<Rightarrow> (Inl e, s)
      | Inr startup \<Rightarrow> resolve_recommendation now (st_id startup) rec_id target s)"

end
