(* ===== verification/Health_Ranking.thy ===== *)
theory Health_Ranking
  imports Health
begin

text \<open>
  What a recomputation makes of the recommendations of a workspace: every candidate has a row, the
  pending rows are candidates in the order of their rank, and a founder's decision stays.
\<close>

section \<open>The table\<close>

definition rec_key :: "recommendation \<Rightarrow> uid \<times> string" where
  "rec_key r = (hr_startup_id r, hr_key r)"

definition recs_ok :: "nat \<Rightarrow> recommendation list \<Rightarrow> bool" where
  "recs_ok n rs \<longleftrightarrow> distinct (map hr_id rs) \<and> ids_below n (map hr_id rs) \<and> distinct (map rec_key rs)"

lemma recs_ok_mono: "recs_ok n rs \<Longrightarrow> n \<le> m \<Longrightarrow> recs_ok m rs"
  using ids_below_mono by (auto simp: recs_ok_def)

definition recs_of :: "'a assess_db_scheme \<Rightarrow> uid \<Rightarrow> recommendation list" where
  "recs_of s st = filter (\<lambda>r. hr_startup_id r = st) (recommendations s)"

text \<open>Every candidate has a row, and a pending row is a candidate with its rank and its lift.\<close>

definition ranked :: "(string \<times> catalog_entry) list \<Rightarrow> recommendation list \<Rightarrow> bool" where
  "ranked cs rs \<longleftrightarrow> (\<forall>c \<in> set cs. \<exists>r \<in> set rs. hr_key r = ce_key (snd c))
     \<and> (\<forall>r \<in> set rs. hr_status r = RS_pending \<longrightarrow>
          (\<exists>k < length cs. hr_key r = ce_key (snd (cs ! k)) \<and> hr_priority r = Suc k \<and> hr_lift r = ce_lift (snd (cs ! k))))"


lemma ranked_map:
  assumes "ranked cs rs" "\<And>r. r \<in> set rs \<Longrightarrow> hr_key (f r) = hr_key r"
    "\<And>r. r \<in> set rs \<Longrightarrow> hr_status (f r) = RS_pending
       \<Longrightarrow> hr_status r = RS_pending \<and> hr_priority (f r) = hr_priority r \<and> hr_lift (f r) = hr_lift r"
  shows "ranked cs (map f rs)"
  using assms unfolding ranked_def by simp

section \<open>The candidates\<close>

abbreviation cand_key :: "string \<times> catalog_entry \<Rightarrow> string" where
  "cand_key c \<equiv> ce_key (snd c)"

definition catalog_rows :: "(string \<times> catalog_entry) list" where
  "catalog_rows = concat (map (\<lambda>(dim, es). map (Pair dim) es) recommendation_catalog)"

lemma concat_filter_rows:
  "concat (map (\<lambda>(dim, es). map (Pair dim) (filter (\<lambda>e. P (dim, e)) es)) xs) = filter P (concat (map (\<lambda>(dim, es). map (Pair dim) es) xs))"
proof (induction xs)
  case (Cons x xs)
  have "map (Pair d) (filter (\<lambda>e. P (d, e)) es) = filter P (map (Pair d) es)" for d es
    by (induction es) auto
  then show ?case using Cons by (cases x) simp
qed simp

lemma candidates_sorted_filter:
  "candidates ds = sort_key (\<lambda>c. (- fst (candidate_rank ds c), - snd (candidate_rank ds c)))
     (filter (\<lambda>(dim, e). score_or_50 ds dim < ce_triggers_below e) catalog_rows)"
  using concat_filter_rows [of "\<lambda>(dim, e). score_or_50 ds dim < ce_triggers_below e" recommendation_catalog]
  by (simp add: candidates_def catalog_rows_def)

lemma set_candidates:
  "set (candidates ds) = {c \<in> set catalog_rows. score_or_50 ds (fst c) < ce_triggers_below (snd c)}"
  by (auto simp: candidates_sorted_filter)

lemma catalog_keys: "distinct (map cand_key catalog_rows)"
  by code_simp

lemma candidate_keys: "distinct (map cand_key (candidates ds))"
  using distinct_map_filter [OF catalog_keys, of "\<lambda>(dim, e). score_or_50 ds dim < ce_triggers_below e"]
  by (simp add: candidates_sorted_filter distinct_map)

text \<open>The wider the weighted gap, the earlier; on equal gaps the larger lift first.\<close>

lemma candidates_ranked: "sorted_wrt (\<lambda>c d. candidate_rank ds d \<le> candidate_rank ds c) (candidates ds)"
proof -
  have "sorted_wrt (\<lambda>c d. (- fst (candidate_rank ds c), - snd (candidate_rank ds c))
      \<le> (- fst (candidate_rank ds d), - snd (candidate_rank ds d))) (candidates ds)"
    using sorted_sort_key [of "\<lambda>c. (- fst (candidate_rank ds c), - snd (candidate_rank ds c))"]
    by (simp add: candidates_def sorted_map)
  then show ?thesis by (rule sorted_wrt_mono_rel [rotated]) (auto simp: less_eq_prod_def)
qed

section \<open>One candidate\<close>

definition rec_at :: "recommendation list \<Rightarrow> uid \<times> string \<Rightarrow> recommendation option" where
  "rec_at t k = find (\<lambda>r. rec_key r = k) t"

lemma rec_at_row: "recs_ok n t \<Longrightarrow> r \<in> set t \<Longrightarrow> rec_at t (rec_key r) = Some r"
  by (simp add: rec_at_def recs_ok_def find_key_unique)

lemma rec_atD: "rec_at t k = Some r \<Longrightarrow> r \<in> set t \<and> rec_key r = k"
  unfolding rec_at_def by (auto dest: find_SomeD)

definition refreshed :: "nat \<Rightarrow> string \<times> catalog_entry \<Rightarrow> recommendation \<Rightarrow> recommendation" where
  "refreshed p c r = (if hr_status r = RS_dismissed then r else r\<lparr>hr_priority := p, hr_lift := ce_lift (snd c)\<rparr>)"

definition settled :: "uid \<Rightarrow> uid \<Rightarrow> nat \<Rightarrow> string \<times> catalog_entry \<Rightarrow> recommendation option \<Rightarrow> recommendation" where
  "settled i st p c o' = (case o' of None \<Rightarrow> new_recommendation i st (fst c) (snd c) p | Some r \<Rightarrow> refreshed p c r)"

lemma refreshed_simps [simp]:
  "hr_id (refreshed p c r) = hr_id r" "hr_key (refreshed p c r) = hr_key r"
  "hr_startup_id (refreshed p c r) = hr_startup_id r" "hr_status (refreshed p c r) = hr_status r"
  "hr_resolved_at (refreshed p c r) = hr_resolved_at r" "rec_key (refreshed p c r) = rec_key r"
  by (simp_all add: refreshed_def rec_key_def)

lemma put_candidate_spec:
  assumes ok: "recs_ok (fresh s) (recommendations s)"
    and look: "find (\<lambda>r. hr_key r = cand_key c) ex = rec_at (recommendations s) (st, cand_key c)"
  shows "recs_ok (fresh (put_candidate st ex p c s)) (recommendations (put_candidate st ex p c s))"
    and "fresh s \<le> fresh (put_candidate st ex p c s)"
    and "rec_at (recommendations (put_candidate st ex p c s))
      = (rec_at (recommendations s))((st, cand_key c) \<mapsto> settled (fresh s) st p c (rec_at (recommendations s) (st, cand_key c)))"
    and "st' \<noteq> st \<Longrightarrow> recs_of (put_candidate st ex p c s) st' = recs_of s st'"
proof -
  let ?k = "(st, cand_key c)" and ?R = "recommendations s" and ?s' = "put_candidate st ex p c s"
  have facts: "recs_ok (fresh ?s') (recommendations ?s') \<and> fresh s \<le> fresh ?s'
    \<and> rec_at (recommendations ?s') = (rec_at ?R)(?k \<mapsto> settled (fresh s) st p c (rec_at ?R ?k))
    \<and> (st' \<noteq> st \<longrightarrow> recs_of ?s' st' = recs_of s st')"
  proof (cases "rec_at ?R ?k")
    case None
    let ?n = "new_recommendation (fresh s) st (fst c) (snd c) p"
    have n: "rec_key ?n = ?k" "hr_id ?n = fresh s" "hr_startup_id ?n = st" by (simp_all add: new_recommendation_def rec_key_def)
    have s': "?s' = s\<lparr>fresh := Suc (fresh s), recommendations := ?R @ [?n]\<rparr>"
      using look None by (simp add: put_candidate_def)
    have "?k \<notin> rec_key ` set ?R" using None by (auto simp: rec_at_def find_None_iff)
    then have "recs_ok (Suc (fresh s)) (?R @ [?n])"
      using ok ids_below_fresh [of "fresh s" "map hr_id ?R"] by (auto simp: recs_ok_def n)
    moreover have "rec_at (?R @ [?n]) = (rec_at ?R)(?k \<mapsto> ?n)"
      using None n(1) by (intro ext) (auto simp: rec_at_def find_append split: option.split)
    ultimately show ?thesis using None n(3) by (simp add: s' settled_def recs_of_def)
  next
    case (Some row)
    note row = rec_atD [OF Some]
    have s': "?s' = s\<lparr>recommendations := update_where (\<lambda>r. hr_id r = hr_id row) (refreshed p c) ?R\<rparr>"
    proof (cases "hr_status row = RS_dismissed")
      case True
      have "refreshed p c r = r" if "r \<in> set ?R" "hr_id r = hr_id row" for r
        using distinct_mapD [of hr_id ?R r row] ok that row True by (simp add: recs_ok_def refreshed_def)
      then have "update_where (\<lambda>r. hr_id r = hr_id row) (refreshed p c) ?R = ?R" by (intro update_where_id)
      then show ?thesis using look Some True by (simp add: put_candidate_def)
    next
      case False
      have "update_where (\<lambda>r. hr_id r = hr_id row) (refreshed p c) ?R
          = update_where (\<lambda>r. hr_id r = hr_id row) (\<lambda>r. r\<lparr>hr_priority := p, hr_lift := ce_lift (snd c)\<rparr>) ?R"
        unfolding update_where_def using distinct_mapD [of hr_id ?R _ row] ok row False
        by (intro map_cong) (auto simp: refreshed_def recs_ok_def)
      then show ?thesis using look Some False by (simp add: put_candidate_def)
    qed
    have at: "rec_at (update_where (\<lambda>r. hr_id r = hr_id row) (refreshed p c) ?R) = (rec_at ?R)(?k \<mapsto> refreshed p c row)"
    proof (rule ext)
      fix k
      have "rec_at (update_where (\<lambda>r. hr_id r = hr_id row) (refreshed p c) ?R) k
          = map_option (\<lambda>r. if hr_id r = hr_id row then refreshed p c r else r) (rec_at ?R k)"
        unfolding rec_at_def by (rule find_update_where) simp
      also have "\<dots> = ((rec_at ?R)(?k \<mapsto> refreshed p c row)) k"
        using Some row rec_atD [of ?R k] distinct_mapD [of hr_id ?R _ row] ok
        by (cases "rec_at ?R k") (auto simp: recs_ok_def)
      finally show "rec_at (update_where (\<lambda>r. hr_id r = hr_id row) (refreshed p c) ?R) k = \<dots>" .
    qed
    have "recs_ok (fresh s) (update_where (\<lambda>r. hr_id r = hr_id row) (refreshed p c) ?R)"
      using ok map_update_where [of "\<lambda>r. hr_id r = hr_id row" hr_id "refreshed p c"]
        map_update_where [of "\<lambda>r. hr_id r = hr_id row" rec_key "refreshed p c"] by (simp add: recs_ok_def)
    moreover have "recs_of ?s' st' = recs_of s st'" if "st' \<noteq> st"
    proof -
      have "recs_of ?s' st' = update_where (\<lambda>r. hr_id r = hr_id row) (refreshed p c) (recs_of s st')"
        by (simp add: s' recs_of_def filter_update_where)
      also have "\<dots> = recs_of s st'"
        using distinct_mapD [of hr_id ?R _ row] ok row that
        by (intro update_where_none) (auto simp: recs_of_def recs_ok_def rec_key_def)
      finally show ?thesis .
    qed
    ultimately show ?thesis using Some at by (simp add: s' settled_def)
  qed
  then show "recs_ok (fresh ?s') (recommendations ?s')" "fresh s \<le> fresh ?s'"
    "rec_at (recommendations ?s') = (rec_at ?R)(?k \<mapsto> settled (fresh s) st p c (rec_at ?R ?k))"
    "st' \<noteq> st \<Longrightarrow> recs_of ?s' st' = recs_of s st'" by blast+
qed

section \<open>All candidates\<close>

lemma find_filter: "find P (filter Q xs) = find (\<lambda>x. Q x \<and> P x) xs"
  by (induction xs) auto

lemma put_candidates_spec:
  assumes "recs_ok (fresh s) (recommendations s)" "distinct (map cand_key cs)"
    "\<forall>c \<in> set cs. find (\<lambda>r. hr_key r = cand_key c) ex = rec_at (recommendations s) (st, cand_key c)"
  shows "recs_ok (fresh (put_candidates st ex p cs s)) (recommendations (put_candidates st ex p cs s))
    \<and> fresh s \<le> fresh (put_candidates st ex p cs s)
    \<and> (\<forall>k. k \<notin> (\<lambda>c. (st, cand_key c)) ` set cs \<longrightarrow>
         rec_at (recommendations (put_candidates st ex p cs s)) k = rec_at (recommendations s) k)
    \<and> (\<forall>i < length cs. \<exists>n. rec_at (recommendations (put_candidates st ex p cs s)) (st, cand_key (cs ! i))
         = Some (settled n st (p + i) (cs ! i) (rec_at (recommendations s) (st, cand_key (cs ! i)))))
    \<and> (\<forall>st'. st' \<noteq> st \<longrightarrow> recs_of (put_candidates st ex p cs s) st' = recs_of s st')"
  using assms
proof (induction cs arbitrary: s p)
  case (Cons c cs)
  let ?s1 = "put_candidate st ex p c s"
  note step = put_candidate_spec [OF Cons.prems(1) bspec [OF Cons.prems(3) list.set_intros(1)], where p = p]
  have other: "rec_at (recommendations ?s1) (st, cand_key d) = rec_at (recommendations s) (st, cand_key d)"
    if "d \<in> set cs" for d using that Cons.prems(2) step(3) by (auto simp: image_iff)
  have d: "distinct (map cand_key cs)" using Cons.prems(2) by simp
  have l: "\<forall>d \<in> set cs. find (\<lambda>r. hr_key r = cand_key d) ex = rec_at (recommendations ?s1) (st, cand_key d)"
    using other Cons.prems(3) by simp
  note all = Cons.IH [OF step(1) d l, of "Suc p"]
  note IH = all [THEN conjunct1] all [THEN conjunct2, THEN conjunct1]
    all [THEN conjunct2, THEN conjunct2, THEN conjunct1, rule_format]
    all [THEN conjunct2, THEN conjunct2, THEN conjunct2, THEN conjunct1, rule_format]
    all [THEN conjunct2, THEN conjunct2, THEN conjunct2, THEN conjunct2, rule_format]
  have c: "(st, cand_key c) \<notin> (\<lambda>c. (st, cand_key c)) ` set cs" using Cons.prems(2) by auto
  show ?case
  proof (intro conjI allI impI)
    show "recs_ok (fresh (put_candidates st ex p (c # cs) s)) (recommendations (put_candidates st ex p (c # cs) s))"
      using IH(1) by simp
    show "fresh s \<le> fresh (put_candidates st ex p (c # cs) s)" using IH(2) step(2) by simp
    show "rec_at (recommendations (put_candidates st ex p (c # cs) s)) k = rec_at (recommendations s) k"
      if "k \<notin> (\<lambda>c. (st, cand_key c)) ` set (c # cs)" for k using that IH(3) [of k] step(3) by simp
    show "\<exists>n. rec_at (recommendations (put_candidates st ex p (c # cs) s)) (st, cand_key ((c # cs) ! i))
       = Some (settled n st (p + i) ((c # cs) ! i) (rec_at (recommendations s) (st, cand_key ((c # cs) ! i))))"
      if i: "i < length (c # cs)" for i
    proof (cases i)
      case 0
      then show ?thesis using IH(3) [OF c] step(3) by auto
    next
      case (Suc j)
      then show ?thesis using i IH(4) [of j] other [of "cs ! j"] by simp
    qed
    show "recs_of (put_candidates st ex p (c # cs) s) st' = recs_of s st'" if "st' \<noteq> st" for st'
      using IH(5) [OF that] step(4) [OF that] by simp
  qed
qed simp

text \<open>A decision of the founder: what is kept of it for ever.\<close>

definition decision :: "recommendation \<Rightarrow> uid \<times> string \<times> recommendation_status \<times> instant option" where
  "decision r = (hr_startup_id r, hr_key r, hr_status r, hr_resolved_at r)"

definition decisions_kept :: "recommendation list \<Rightarrow> recommendation list \<Rightarrow> bool" where
  "decisions_kept t t' \<longleftrightarrow> (\<forall>r \<in> set t. hr_status r \<noteq> RS_pending \<longrightarrow>
     (\<exists>r' \<in> set t'. hr_id r' = hr_id r \<and> decision r' = decision r))"

lemma decisions_kept_refl [simp]: "decisions_kept t t"
  by (auto simp: decisions_kept_def)

lemma decisions_kept_trans: "decisions_kept t u \<Longrightarrow> decisions_kept u v \<Longrightarrow> decisions_kept t v"
proof -
  assume a: "decisions_kept t u" "decisions_kept u v"
  have "\<exists>r' \<in> set v. hr_id r' = hr_id r \<and> decision r' = decision r" if r: "r \<in> set t" "hr_status r \<noteq> RS_pending" for r
  proof -
    obtain x where x: "x \<in> set u" "hr_id x = hr_id r" "decision x = decision r"
      using a(1) r by (auto simp: decisions_kept_def)
    then have "hr_status x \<noteq> RS_pending" using r(2) by (simp add: decision_def)
    then show ?thesis using a(2) x by (metis decisions_kept_def)
  qed
  then show "decisions_kept t v" by (simp add: decisions_kept_def)
qed

lemma generate_spec:
  assumes ok: "recs_ok (fresh s) (recommendations s)"
  shows "recs_ok (fresh (generate_recommendations st ds s)) (recommendations (generate_recommendations st ds s))"
    and "fresh s \<le> fresh (generate_recommendations st ds s)"
    and "st' \<noteq> st \<Longrightarrow> recs_of (generate_recommendations st ds s) st' = recs_of s st'"
    and "ranked (candidates ds) (recs_of (generate_recommendations st ds s) st)"
    and "decisions_kept (recommendations s) (recommendations (generate_recommendations st ds s))"
proof -
  let ?cs = "candidates ds" and ?s' = "generate_recommendations st ds s"
  let ?gone = "\<lambda>r. hr_startup_id r = st \<and> hr_status r = RS_pending \<and> hr_key r \<notin> set (map (\<lambda>(dim, e). ce_key e) ?cs)"
  define s1 where "s1 = s\<lparr>recommendations := delete_where ?gone (recommendations s)\<rparr>"
  have s': "?s' = put_candidates st (recs_of s1 st) 1 ?cs s1"
    by (simp add: generate_recommendations_def s1_def recs_of_def Let_def)
  have keys: "set (map (\<lambda>(dim, e). ce_key e) ?cs) = cand_key ` set ?cs" by (auto simp: case_prod_unfold)
  have ok1: "recs_ok (fresh s1) (recommendations s1)"
    using ok by (auto simp: s1_def recs_ok_def distinct_map_delete_where ids_below_delete)
  have look: "find (\<lambda>r. hr_key r = cand_key c) (recs_of s1 st) = rec_at (recommendations s1) (st, cand_key c)" for c
    by (simp add: recs_of_def rec_at_def rec_key_def find_filter)
  note spec = put_candidates_spec [OF ok1 candidate_keys ballI [OF look], where p = 1]
  show "recs_ok (fresh ?s') (recommendations ?s')" "fresh s \<le> fresh ?s'"
    using spec by (auto simp: s' s1_def)
  show "recs_of ?s' st' = recs_of s st'" if "st' \<noteq> st"
  proof -
    have "recs_of s1 st' = recs_of s st'"
      using that by (induction "recommendations s") (auto simp: s1_def recs_of_def delete_where_def intro: filter_cong)
    then show ?thesis using spec that by (simp add: s')
  qed
  have ok': "recs_ok (fresh ?s') (recommendations ?s')" using spec by (simp add: s')
  have in1: "x \<in> set (recommendations s) \<and> \<not> ?gone x" if "x \<in> set (recommendations s1)" for x
    using that by (simp add: s1_def)
  have at: "\<exists>n. rec_at (recommendations ?s') (st, cand_key (?cs ! i))
      = Some (settled n st (Suc i) (?cs ! i) (rec_at (recommendations s1) (st, cand_key (?cs ! i))))" if "i < length ?cs" for i
    using spec that by (simp add: s')
  have same: "rec_at (recommendations ?s') k = rec_at (recommendations s1) k" if "k \<notin> (\<lambda>c. (st, cand_key c)) ` set ?cs" for k
    using spec [of ds, THEN conjunct2, THEN conjunct2, THEN conjunct1, rule_format, OF that] by (simp only: s')
  show "ranked ?cs (recs_of ?s' st)"
    unfolding ranked_def
  proof (intro conjI ballI impI)
    fix c assume "c \<in> set ?cs"
    then obtain i where i: "i < length ?cs" "c = ?cs ! i" by (auto simp: in_set_conv_nth)
    then obtain r where "rec_at (recommendations ?s') (st, cand_key c) = Some r" using at by blast
    then show "\<exists>r \<in> set (recs_of ?s' st). hr_key r = cand_key c"
      by (auto simp: recs_of_def rec_key_def dest!: rec_atD)
  next
    fix r assume r: "r \<in> set (recs_of ?s' st)" "hr_status r = RS_pending"
    then have r': "r \<in> set (recommendations ?s')" "rec_key r = (st, hr_key r)" by (auto simp: recs_of_def rec_key_def)
    have here: "rec_at (recommendations ?s') (st, hr_key r) = Some r" using rec_at_row [OF ok' r'(1)] r'(2) by simp
    show "\<exists>k < length ?cs. hr_key r = cand_key (?cs ! k) \<and> hr_priority r = Suc k \<and> hr_lift r = ce_lift (snd (?cs ! k))"
    proof (cases "hr_key r \<in> cand_key ` set ?cs")
      case True
      then obtain i where i: "i < length ?cs" "hr_key r = cand_key (?cs ! i)" by (auto simp: in_set_conv_nth)
      then obtain n where "r = settled n st (Suc i) (?cs ! i) (rec_at (recommendations s1) (st, cand_key (?cs ! i)))"
        using at [OF i(1)] here by auto
      then have "hr_priority r = Suc i \<and> hr_lift r = ce_lift (snd (?cs ! i))"
        using r(2) by (auto simp: settled_def new_recommendation_def refreshed_def split: option.splits if_splits)
      then show ?thesis using i by blast
    next
      case False
      then have "(st, hr_key r) \<notin> (\<lambda>c. (st, cand_key c)) ` set ?cs" by auto
      then have "rec_at (recommendations s1) (st, hr_key r) = Some r" using same here by metis
      then have "r \<in> set (recommendations s1)" by (blast dest: rec_atD)
      then show ?thesis using in1 [of r] r r'(2) False keys by (auto simp: rec_key_def)
    qed
  qed
  show "decisions_kept (recommendations s) (recommendations ?s')"
    unfolding decisions_kept_def
  proof (intro ballI impI)
    fix r assume r: "r \<in> set (recommendations s)" "hr_status r \<noteq> RS_pending"
    then have r1: "r \<in> set (recommendations s1)" by (simp add: s1_def)
    show "\<exists>r' \<in> set (recommendations ?s'). hr_id r' = hr_id r \<and> decision r' = decision r"
    proof (cases "rec_key r \<in> (\<lambda>c. (st, cand_key c)) ` set ?cs")
      case True
      then obtain i where i: "i < length ?cs" "rec_key r = (st, cand_key (?cs ! i))" by (auto simp: in_set_conv_nth)
      then have "rec_at (recommendations s1) (st, cand_key (?cs ! i)) = Some r" using rec_at_row [OF ok1 r1] by simp
      then obtain n where "rec_at (recommendations ?s') (rec_key r) = Some (settled n st (Suc i) (?cs ! i) (Some r))"
        using at [OF i(1)] i(2) by auto
      then have "settled n st (Suc i) (?cs ! i) (Some r) \<in> set (recommendations ?s')" by (blast dest: rec_atD)
      then show ?thesis by (intro bexI) (auto simp: settled_def decision_def)
    next
      case False
      then have "rec_at (recommendations ?s') (rec_key r) = Some r" using same rec_at_row [OF ok1 r1] by simp
      then show ?thesis by (auto dest: rec_atD)
    qed
  qed
qed

end
