(* ===== verification/Assess_Inv.thy ===== *)
theory Assess_Inv
  imports Health_Screens Health_Ranking
begin

text \<open>
  The invariant of the assessments and of the health score that follows them: one open assessment
  per workspace, answers in the order of the questionnaire, a result exactly for the completed
  ones, a health score that is the one of the latest result, and recommendations ranked by it.
\<close>

section \<open>What does not depend on the workspace\<close>

lemma bank_applicable: "q \<in> set (bk_questions assessment_bank) \<Longrightarrow> is_applicable q a st = is_applicable q a st'"
  by (rule is_applicable_cong [OF ordered_bank_question [OF assessment_bank_ordered]]) simp_all

lemma bank_next: "next_question assessment_bank a st = next_question assessment_bank a st'"
  unfolding next_question_def by (rule find_cong_set) (use bank_applicable in blast)

lemma bank_score: "score assessment_bank a st = score assessment_bank a st'"
proof -
  have "counted assessment_bank a st d = counted assessment_bank a st' d" for d
    unfolding counted_def by (rule filter_cong) (use bank_applicable in blast)+
  then show ?thesis by (simp add: score_def dimension_score_def)
qed

section \<open>The assessments\<close>

definition answers_in :: "assessment_answer list \<Rightarrow> uid \<Rightarrow> answers" where
  "answers_in t i = map (\<lambda>r. (aa_question_key r, aa_value r)) (filter (\<lambda>r. aa_assessment_id r = i) t)"

lemma answered_map_in: "answered_map s a = answers_in (assessment_answers s) (as_id a)"
  by (simp add: answered_map_def answers_in_def)

definition any_startup :: startup where
  "any_startup = \<lparr>st_id = 0, st_name = None, st_description = None, st_website = None, st_logo_url = None,
     st_industry = None, st_business_model = None, st_stage = None, st_country = None, st_created_by = 0,
     st_deleted_at = None, st_profile = None\<rparr>"

abbreviation upcoming :: "answers \<Rightarrow> question option" where
  "upcoming a \<equiv> next_question assessment_bank a any_startup"

abbreviation grade :: "answers \<Rightarrow> scored" where
  "grade a \<equiv> score assessment_bank a any_startup"

lemma upcoming: "next_question assessment_bank a st = upcoming a"
  by (rule bank_next)

lemma grade: "score assessment_bank a st = grade a"
  by (rule bank_score)

definition sheet_ok :: "answers \<Rightarrow> bool" where
  "sheet_ok a \<longleftrightarrow> distinct (map fst a) \<and> in_order assessment_bank a any_startup \<and> valid_answers assessment_bank a"

definition open_rows :: "assessment list \<Rightarrow> assessment list" where
  "open_rows t = filter (\<lambda>a. as_status a = AS_in_progress) t"

definition assessments_ok :: "nat \<Rightarrow> assessment list \<Rightarrow> assessment_answer list \<Rightarrow> bool" where
  "assessments_ok n t ans \<longleftrightarrow> distinct (map as_id t) \<and> ids_below n (map as_id t)
     \<and> distinct (map as_startup_id (open_rows t))
     \<and> (\<forall>a \<in> set t. as_status a \<noteq> AS_abandoned \<and> (as_status a = AS_completed \<longleftrightarrow> as_completed_at a \<noteq> None)
          \<and> sheet_ok (answers_in ans (as_id a)))
     \<and> (\<forall>r \<in> set ans. \<exists>a \<in> set t. as_id a = aa_assessment_id r)"

definition graded :: "answers \<Rightarrow> assessment_result \<Rightarrow> bool" where
  "graded a r \<longleftrightarrow> upcoming a = None \<and> ar_dimension_scores r = sc_dimension_scores (grade a)
     \<and> ar_overall r = sc_overall (grade a)"

definition results_ok :: "assessment list \<Rightarrow> assessment_answer list \<Rightarrow> assessment_result list \<Rightarrow> bool" where
  "results_ok t ans rs \<longleftrightarrow> distinct (map ar_assessment_id rs)
     \<and> (\<forall>r \<in> set rs. \<exists>a \<in> set t. as_id a = ar_assessment_id r \<and> as_status a = AS_completed)
     \<and> (\<forall>a \<in> set t. as_status a = AS_completed \<longrightarrow>
          (\<exists>r \<in> set rs. ar_assessment_id r = as_id a \<and> graded (answers_in ans (as_id a)) r))"

section \<open>The health desk of a workspace\<close>

definition desk_ok ::
    "assessment_result option \<Rightarrow> health_score option \<Rightarrow> health_point list \<Rightarrow> health_signal list \<Rightarrow> recommendation list \<Rightarrow> bool" where
  "desk_ok latest h pts sgs rs \<longleftrightarrow>
     (case latest of
        None \<Rightarrow> h = None \<and> pts = [] \<and> sgs = [] \<and> rs = []
      | Some res \<Rightarrow>
          (\<exists>x. h = Some x \<and> hs_dimension_scores x = current_scores res \<and> hs_score x = weighted_overall (current_scores res)
             \<and> hs_band x = band_for (hs_score x))
          \<and> pts \<noteq> [] \<and> hp_score (last pts) = weighted_overall (current_scores res)
          \<and> hp_dimension_scores (last pts) = current_scores res
          \<and> map (\<lambda>g. (hg_dimension g, hg_value g)) sgs = current_scores res
          \<and> (\<forall>g \<in> set sgs. hg_source g = ar_assessment_id res)
          \<and> ranked (candidates (current_scores res)) rs)"

definition signals_of :: "'a assess_db_scheme \<Rightarrow> uid \<Rightarrow> health_signal list" where
  "signals_of s st = filter (\<lambda>g. hg_startup_id g = st) (health_signals s)"

definition desk :: "'a assess_db_scheme \<Rightarrow> uid \<Rightarrow> bool" where
  "desk s st \<longleftrightarrow> desk_ok (latest_completed_result s st) (health_of s st) (history_of s st) (signals_of s st) (recs_of s st)"

definition assess_inv :: "'a assess_db_scheme \<Rightarrow> bool" where
  "assess_inv s \<longleftrightarrow> assessments_ok (fresh s) (assessments s) (assessment_answers s)
     \<and> results_ok (assessments s) (assessment_answers s) (assessment_results s)
     \<and> recs_ok (fresh s) (recommendations s) \<and> (\<forall>st. desk s st)"

lemma assess_publish_frame [simp]:
  "assessments (publish now e p s) = assessments s" "assessment_answers (publish now e p s) = assessment_answers s"
  "assessment_results (publish now e p s) = assessment_results s" "health_scores (publish now e p s) = health_scores s"
  "health_history (publish now e p s) = health_history s" "health_signals (publish now e p s) = health_signals s"
  "recommendations (publish now e p s) = recommendations s"
  by (rule publish_frame [of now e p s]; simp)+

lemma desk_frame:
  assumes "assessments s' = assessments s" "assessment_results s' = assessment_results s" "health_scores s' = health_scores s"
    "health_history s' = health_history s" "health_signals s' = health_signals s" "recommendations s' = recommendations s"
  shows "desk s' st = desk s st"
  using assms by (simp add: desk_def latest_completed_result_def completed_of_def health_of_def history_of_def signals_of_def recs_of_def)

lemma assessments_ok_mono: "assessments_ok n t ans \<Longrightarrow> n \<le> m \<Longrightarrow> assessments_ok m t ans"
  using ids_below_mono by (auto simp: assessments_ok_def)

lemma assess_inv_frame:
  assumes "assess_inv s" "assessments s' = assessments s" "assessment_answers s' = assessment_answers s"
    "assessment_results s' = assessment_results s" "health_scores s' = health_scores s"
    "health_history s' = health_history s" "health_signals s' = health_signals s" "recommendations s' = recommendations s"
    "fresh s \<le> fresh s'"
  shows "assess_inv s'"
  using assms assessments_ok_mono [OF _ assms(9)] recs_ok_mono [OF _ assms(9)] desk_frame [of s' s]
  by (simp add: assess_inv_def)

section \<open>A recomputation\<close>

lemma put_candidates_shape:
  "\<exists>f rs. put_candidates st ex p cs s = s\<lparr>fresh := f, recommendations := rs\<rparr>"
proof (induction cs arbitrary: p s)
  case Nil
  show ?case by (rule exI [of _ "fresh s"], rule exI [of _ "recommendations s"]) simp
next
  case (Cons c cs)
  have "\<exists>f rs. put_candidate st ex p c s = s\<lparr>fresh := f, recommendations := rs\<rparr>"
  proof (cases "find (\<lambda>r. hr_key r = cand_key c) ex")
    case None
    then show ?thesis by (auto simp: put_candidate_def)
  next
    case (Some row)
    then have "put_candidate st ex p c s = s\<lparr>fresh := fresh s, recommendations := recommendations (put_candidate st ex p c s)\<rparr>"
      by (simp add: put_candidate_def)
    then show ?thesis by blast
  qed
  then obtain f rs where "put_candidate st ex p c s = s\<lparr>fresh := f, recommendations := rs\<rparr>" by blast
  moreover obtain f' rs' where "put_candidates st ex (Suc p) cs (s\<lparr>fresh := f, recommendations := rs\<rparr>)
      = s\<lparr>fresh := f, recommendations := rs, fresh := f', recommendations := rs'\<rparr>" using Cons.IH by blast
  ultimately show ?case by auto
qed

lemma generate_frame [simp]:
  "assessments (generate_recommendations st ds s) = assessments s"
  "assessment_answers (generate_recommendations st ds s) = assessment_answers s"
  "assessment_results (generate_recommendations st ds s) = assessment_results s"
  "health_scores (generate_recommendations st ds s) = health_scores s"
  "health_history (generate_recommendations st ds s) = health_history s"
  "health_signals (generate_recommendations st ds s) = health_signals s"
  "events (generate_recommendations st ds s) = events s"
  "startups (generate_recommendations st ds s) = startups s"
proof -
  obtain f rs where "generate_recommendations st ds s = s\<lparr>fresh := f, recommendations := rs\<rparr>"
    using put_candidates_shape [of st "filter (\<lambda>r. hr_startup_id r = st) (delete_where (\<lambda>r. hr_startup_id r = st \<and> hr_status r = RS_pending
        \<and> hr_key r \<notin> set (map (\<lambda>(dim, e). ce_key e) (candidates ds))) (recommendations s))" 1 "candidates ds"
        "s\<lparr>recommendations := delete_where (\<lambda>r. hr_startup_id r = st \<and> hr_status r = RS_pending
        \<and> hr_key r \<notin> set (map (\<lambda>(dim, e). ce_key e) (candidates ds))) (recommendations s)\<rparr>"]
    unfolding generate_recommendations_def Let_def by auto
  then show "assessments (generate_recommendations st ds s) = assessments s"
    "assessment_answers (generate_recommendations st ds s) = assessment_answers s"
    "assessment_results (generate_recommendations st ds s) = assessment_results s"
    "health_scores (generate_recommendations st ds s) = health_scores s"
    "health_history (generate_recommendations st ds s) = health_history s"
    "health_signals (generate_recommendations st ds s) = health_signals s"
    "events (generate_recommendations st ds s) = events s"
    "startups (generate_recommendations st ds s) = startups s" by simp_all
qed

lemma enqueue_assess_frame [simp]:
  "assessments (snd (enqueue now ty p st s)) = assessments s"
  "assessment_answers (snd (enqueue now ty p st s)) = assessment_answers s"
  "assessment_results (snd (enqueue now ty p st s)) = assessment_results s"
  "health_scores (snd (enqueue now ty p st s)) = health_scores s"
  "health_history (snd (enqueue now ty p st s)) = health_history s"
  "health_signals (snd (enqueue now ty p st s)) = health_signals s"
  "recommendations (snd (enqueue now ty p st s)) = recommendations s"
  "startups (snd (enqueue now ty p st s)) = startups s"
  by (simp_all add: enqueue_def Let_def)

lemma announce_frame [simp]:
  "assessments (announce_health now st x pr mx d s) = assessments s"
  "assessment_answers (announce_health now st x pr mx d s) = assessment_answers s"
  "assessment_results (announce_health now st x pr mx d s) = assessment_results s"
  "health_scores (announce_health now st x pr mx d s) = health_scores s"
  "health_history (announce_health now st x pr mx d s) = health_history s"
  "health_signals (announce_health now st x pr mx d s) = health_signals s"
  "recommendations (announce_health now st x pr mx d s) = recommendations s"
  "startups (announce_health now st x pr mx d s) = startups s"
  by (simp_all add: announce_health_def Let_def split: option.split)

lemma announce_fresh: "fresh s \<le> fresh (announce_health now st x pr mx d s)"
  unfolding announce_health_def Let_def
  by (auto split: option.split intro!: order_trans [OF _ publish_fresh])

lemma replace_signals_simps [simp]:
  "assessments (replace_signals st i ds s) = assessments s" "assessment_answers (replace_signals st i ds s) = assessment_answers s"
  "assessment_results (replace_signals st i ds s) = assessment_results s" "health_scores (replace_signals st i ds s) = health_scores s"
  "health_history (replace_signals st i ds s) = health_history s" "recommendations (replace_signals st i ds s) = recommendations s"
  "fresh (replace_signals st i ds s) = fresh s + length ds" "startups (replace_signals st i ds s) = startups s"
  by (simp_all add: replace_signals_def)

lemma put_health_simps [simp]:
  "assessments (put_health now st x b ds s) = assessments s" "assessment_answers (put_health now st x b ds s) = assessment_answers s"
  "assessment_results (put_health now st x b ds s) = assessment_results s" "health_signals (put_health now st x b ds s) = health_signals s"
  "health_history (put_health now st x b ds s) = health_history s" "recommendations (put_health now st x b ds s) = recommendations s"
  "fresh (put_health now st x b ds s) = Suc (fresh s)" "startups (put_health now st x b ds s) = startups s"
  by (simp_all add: put_health_def fresh_id_def)

lemma add_point_simps [simp]:
  "assessments (add_point now st x ds d tr s) = assessments s" "assessment_answers (add_point now st x ds d tr s) = assessment_answers s"
  "assessment_results (add_point now st x ds d tr s) = assessment_results s" "health_signals (add_point now st x ds d tr s) = health_signals s"
  "health_scores (add_point now st x ds d tr s) = health_scores s" "recommendations (add_point now st x ds d tr s) = recommendations s"
  "fresh (add_point now st x ds d tr s) = Suc (fresh s)" "startups (add_point now st x ds d tr s) = startups s"
  by (simp_all add: add_point_def fresh_id_def)

lemma signals_replaced:
  "map (\<lambda>g. (hg_dimension g, hg_value g)) (signals_of (replace_signals st i ds s) st) = ds"
  "\<forall>g \<in> set (signals_of (replace_signals st i ds s) st). hg_source g = i"
  "st' \<noteq> st \<Longrightarrow> signals_of (replace_signals st i ds s) st' = signals_of s st'"
proof -
  let ?new = "map (\<lambda>(k, d, v). new_signal (fresh s + k) st i d v) (enumerate 0 ds)"
  have n: "g \<in> set ?new \<Longrightarrow> hg_startup_id g = st \<and> hg_source g = i" for g
    by (auto simp: new_signal_def)
  have old: "filter (\<lambda>g. hg_startup_id g = st) (delete_where (\<lambda>g. hg_startup_id g = st) (health_signals s)) = []"
    by (simp add: filter_empty_conv)
  have here: "signals_of (replace_signals st i ds s) st = ?new"
    using n old by (simp add: signals_of_def replace_signals_def)
  have "map (\<lambda>g. (hg_dimension g, hg_value g)) ?new = map snd (enumerate 0 ds)"
    by (simp add: new_signal_def comp_def case_prod_unfold)
  then show "map (\<lambda>g. (hg_dimension g, hg_value g)) (signals_of (replace_signals st i ds s) st) = ds"
    by (simp only: here map_snd_enumerate)
  show "\<forall>g \<in> set (signals_of (replace_signals st i ds s) st). hg_source g = i" using n by (simp only: here) blast
  show "signals_of (replace_signals st i ds s) st' = signals_of s st'" if "st' \<noteq> st"
  proof -
    have "filter (\<lambda>g. hg_startup_id g = st') ?new = []" using n that by (simp add: filter_empty_conv case_prod_unfold)
    moreover have "filter (\<lambda>g. hg_startup_id g = st') (delete_where (\<lambda>g. hg_startup_id g = st) t) = filter (\<lambda>g. hg_startup_id g = st') t" for t
      using that by (induction t) auto
    ultimately show ?thesis by (simp add: signals_of_def replace_signals_def)
  qed
qed

lemma health_put:
  "\<exists>h. health_of (put_health now st x b ds s) st = Some h \<and> hs_score h = x \<and> hs_band h = b \<and> hs_dimension_scores h = ds
     \<and> (\<forall>old. health_of s st = Some old \<longrightarrow> hs_updated_at h = hs_updated_at old \<and> hs_id h = hs_id old)"
  "st' \<noteq> st \<Longrightarrow> health_of (put_health now st x b ds s) st' = health_of s st'"
proof -
  show "\<exists>h. health_of (put_health now st x b ds s) st = Some h \<and> hs_score h = x \<and> hs_band h = b \<and> hs_dimension_scores h = ds
     \<and> (\<forall>old. health_of s st = Some old \<longrightarrow> hs_updated_at h = hs_updated_at old \<and> hs_id h = hs_id old)"
  proof (cases "health_of s st")
    case None
    then have "\<not> (\<exists>h \<in> set (health_scores s). hs_startup_id h = st)" by (auto simp: health_of_def find_None_iff)
    then show ?thesis using None by (simp add: health_of_def put_health_def fresh_id_def find_append)
  next
    case (Some h)
    then have "\<exists>h \<in> set (health_scores s). hs_startup_id h = st" by (auto simp: health_of_def dest: find_SomeD)
    then have "health_scores (put_health now st x b ds s) = update_where (\<lambda>h. hs_startup_id h = st)
        (\<lambda>h. h\<lparr>hs_score := x, hs_band := b, hs_dimension_scores := ds, hs_config_version := health_config_version\<rparr>) (health_scores s)"
      by (simp add: put_health_def fresh_id_def)
    moreover have "hs_startup_id h = st" using Some by (auto simp: health_of_def dest: find_SomeD)
    ultimately show ?thesis using Some by (simp add: health_of_def find_update_where)
  qed
  show "health_of (put_health now st x b ds s) st' = health_of s st'" if "st' \<noteq> st"
  proof -
    have "find (\<lambda>h. hs_startup_id h = st') (update_where (\<lambda>h. hs_startup_id h = st)
        (\<lambda>h. h\<lparr>hs_score := x, hs_band := b, hs_dimension_scores := ds, hs_config_version := health_config_version\<rparr>) t)
      = find (\<lambda>h. hs_startup_id h = st') t" for t :: "health_score list"
      using that by (induction t) auto
    then show ?thesis using that by (simp add: health_of_def put_health_def fresh_id_def find_append split: option.split)
  qed
qed

lemma history_added:
  "\<exists>h. history_of (add_point now st x ds d tr s) st = history_of s st @ [h] \<and> hp_score h = x \<and> hp_dimension_scores h = ds
     \<and> hp_delta h = d"
  "st' \<noteq> st \<Longrightarrow> history_of (add_point now st x ds d tr s) st' = history_of s st'"
  by (simp_all add: history_of_def add_point_def fresh_id_def)

lemma latest_frame:
  "assessments s' = assessments s \<Longrightarrow> assessment_results s' = assessment_results s \<Longrightarrow>
   latest_completed_result s' st = latest_completed_result s st"
  by (simp add: latest_completed_result_def completed_of_def)

text \<open>The whole of it: the desk of the workspace is the one of its latest result, the others stay.\<close>

lemma recompute_spec:
  fixes s :: "'a assess_db_scheme" and now :: instant and trigger :: string
  assumes ok: "recs_ok (fresh s) (recommendations s)" and res: "latest_completed_result s st = Some r"
  defines "s' \<equiv> recompute_health_score now st trigger s"
  shows "assessments s' = assessments s" "assessment_answers s' = assessment_answers s"
    "assessment_results s' = assessment_results s" "startups s' = startups s"
    and "fresh s \<le> fresh s'" and "recs_ok (fresh s') (recommendations s')"
    and "desk s' st" and "st' \<noteq> st \<Longrightarrow> desk s' st' = desk s st'"
    and "decisions_kept (recommendations s) (recommendations s')"
    and "\<And>h. health_of s st = Some h \<Longrightarrow> \<exists>h'. health_of s' st = Some h' \<and> hs_updated_at h' = hs_updated_at h"
    and "\<exists>h. history_of s' st = history_of s st @ [h] \<and> hp_score h = weighted_overall (current_scores r)
        \<and> hp_delta h = delta_7d s st (hp_score h) now"
proof -
  let ?ds = "current_scores r"
  let ?x = "weighted_overall ?ds"
  let ?d = "delta_7d s st ?x now"
  define s1 where "s1 = replace_signals st (ar_assessment_id r) ?ds s"
  define s2 where "s2 = put_health now st ?x (band_for ?x) ?ds s1"
  define s3 where "s3 = add_point now st ?x ?ds ?d trigger s2"
  define s4 where "s4 = generate_recommendations st ?ds s3"
  define s5 where "s5 = snd (enqueue now ''ai.health.recommendations'' [(''startup_id'', JUid st)] (Some st) s4)"
  have s': "s' = announce_health now st ?x (map_option hs_score (health_of s st)) (prior_max s st) ?d s5"
    unfolding s'_def recompute_health_score_def res by (simp add: Let_def s1_def s2_def s3_def s4_def s5_def)
  show "assessments s' = assessments s" "assessment_answers s' = assessment_answers s"
    "assessment_results s' = assessment_results s" "startups s' = startups s"
    by (simp_all add: s' s5_def s4_def s3_def s2_def s1_def)
  have recs: "recommendations s' = recommendations s4" "recommendations s3 = recommendations s"
    by (simp_all add: s' s5_def s3_def s2_def s1_def)
  have ok3: "recs_ok (fresh s3) (recommendations s3)"
    by (rule recs_ok_mono [where n = "fresh s"]) (simp_all add: ok recs(2), simp add: s3_def s2_def s1_def)
  note g = generate_spec [OF ok3, where st = st and ds = ?ds, folded s4_def]
  have fr: "fresh s3 \<le> fresh s4" "fresh s4 \<le> fresh s'" "fresh s \<le> fresh s3"
    using g(2) announce_fresh [of s5] by (simp_all add: s' s5_def s3_def s2_def s1_def Suc_leD)
  then show "fresh s \<le> fresh s'" by simp
  show "recs_ok (fresh s') (recommendations s')" using recs_ok_mono [OF g(1) fr(2)] recs(1) by simp
  show "decisions_kept (recommendations s) (recommendations s')" using g(5) recs by simp
  have views: "health_of s' = health_of s2" "history_of s' = history_of s3" "signals_of s' = signals_of s1" "recs_of s' = recs_of s4"
    by (rule ext, simp add: health_of_def history_of_def signals_of_def recs_of_def s' s5_def s4_def s3_def s2_def)+
  have before: "health_of s1 = health_of s" "history_of s2 = history_of s" "recs_of s3 = recs_of s"
    by (rule ext, simp add: health_of_def history_of_def recs_of_def s3_def s2_def s1_def)+
  note hp = health_put [where now = now and st = st and x = ?x and b = "band_for ?x" and ds = ?ds and s = s1, folded s2_def]
  note pt = history_added [where now = now and st = st and x = ?x and ds = ?ds and d = ?d and tr = trigger and s = s2, folded s3_def]
  note sg = signals_replaced [where st = st and i = "ar_assessment_id r" and ds = ?ds and s = s, folded s1_def]
  have latest: "latest_completed_result s' = latest_completed_result s"
    by (rule ext, rule latest_frame) (simp_all add: s' s5_def s4_def s3_def s2_def s1_def)
  show "desk s' st"
    unfolding desk_def latest res desk_ok_def option.case views before
    using hp(1) pt(1) sg(1,2) g(4) by (auto simp: before)
  show "desk s' st' = desk s st'" if "st' \<noteq> st"
    unfolding desk_def latest views using hp(2) pt(2) sg(3) g(3) that by (simp add: before)
  show "\<exists>h'. health_of s' st = Some h' \<and> hs_updated_at h' = hs_updated_at h" if "health_of s st = Some h" for h
    using hp(1) that by (auto simp: views before)
  show "\<exists>h. history_of s' st = history_of s st @ [h] \<and> hp_score h = ?x \<and> hp_delta h = delta_7d s st (hp_score h) now"
    using pt(1) by (auto simp: views before)
qed

end
