(* ===== verification/Assess_Keeps.thy ===== *)
theory Assess_Keeps
  imports Assess_Inv
begin

text \<open>
  Every operation on the assessments and the health score keeps their invariant, and what it leaves
  as it was.
\<close>

section \<open>Starting\<close>

lemma answers_in_append: "answers_in (t @ [r]) i = (if aa_assessment_id r = i then answers_in t i @ [(aa_question_key r, aa_value r)] else answers_in t i)"
  by (simp add: answers_in_def)

lemma answers_in_none: "\<forall>r \<in> set t. aa_assessment_id r \<noteq> i \<Longrightarrow> answers_in t i = []"
  by (simp add: answers_in_def filter_empty_conv)

lemma sheet_ok_Nil [simp]: "sheet_ok []"
  using in_order_Nil [OF assessment_bank_ordered] by (simp add: sheet_ok_def valid_answers_def)

lemma in_progress_of_None:
  "in_progress_of s st = None \<longleftrightarrow> st \<notin> as_startup_id ` set (open_rows (assessments s))"
  by (auto simp: in_progress_of_def find_None_iff open_rows_def)

lemma in_progress_ofD:
  "in_progress_of s st = Some a \<Longrightarrow> a \<in> set (assessments s) \<and> as_startup_id a = st \<and> as_status a = AS_in_progress"
  by (auto simp: in_progress_of_def dest: find_SomeD)

lemma latest_add_open:
  "as_status a = AS_in_progress \<Longrightarrow> assessments s' = assessments s @ [a] \<Longrightarrow> assessment_results s' = assessment_results s
   \<Longrightarrow> latest_completed_result s' st = latest_completed_result s st"
  by (simp add: latest_completed_result_def completed_of_def)

lemma insert_or_resume_keeps:
  assumes inv: "assess_inv s"
  shows "assess_inv (snd (insert_or_resume now ty st u s))"
    and "fst (insert_or_resume now ty st u s) \<in> set (assessments (snd (insert_or_resume now ty st u s)))"
    and "as_startup_id (fst (insert_or_resume now ty st u s)) = st"
    and "as_status (fst (insert_or_resume now ty st u s)) = AS_in_progress"
proof -
  have all: "assess_inv (snd (insert_or_resume now ty st u s))
    \<and> fst (insert_or_resume now ty st u s) \<in> set (assessments (snd (insert_or_resume now ty st u s)))
    \<and> as_startup_id (fst (insert_or_resume now ty st u s)) = st \<and> as_status (fst (insert_or_resume now ty st u s)) = AS_in_progress"
  proof (cases "in_progress_of s st")
    case (Some a)
    then show ?thesis using inv in_progress_ofD [OF Some] by (simp add: insert_or_resume_def)
  next
    case None
    define a where "a = \<lparr>as_id = fresh s, as_startup_id = st, as_type = ty, as_status = AS_in_progress,
       as_bank_version = bk_version assessment_bank, as_created_by = u, as_started_at = now, as_completed_at = None\<rparr>"
    define s' where "s' = s\<lparr>fresh := Suc (fresh s), assessments := assessments s @ [a]\<rparr>"
    have e: "insert_or_resume now ty st u s = (a, s')"
      using None by (simp add: insert_or_resume_def fresh_id_def a_def s'_def Let_def)
    have a: "as_id a = fresh s" "as_startup_id a = st" "as_status a = AS_in_progress" "as_completed_at a = None" by (simp_all add: a_def)
    have t: "assessments_ok (fresh s) (assessments s) (assessment_answers s)" using inv by (simp add: assess_inv_def)
    then have new: "fresh s \<notin> as_id ` set (assessments s)" using ids_below_fresh by (fastforce simp: assessments_ok_def)
    have none: "answers_in (assessment_answers s) (fresh s) = []"
      using t new by (intro answers_in_none) (force simp: assessments_ok_def)
    have "assessments_ok (fresh s') (assessments s') (assessment_answers s')"
      using t new none None a by (auto simp: s'_def assessments_ok_def in_progress_of_None open_rows_def)
    moreover have "results_ok (assessments s') (assessment_answers s') (assessment_results s')"
      using inv a by (auto simp: assess_inv_def results_ok_def s'_def)
    moreover have "desk s' x" for x
    proof -
      have "latest_completed_result s' x = latest_completed_result s x"
        by (rule latest_add_open [OF a(3)]) (simp_all add: s'_def)
      then show ?thesis using inv by (simp add: assess_inv_def desk_def health_of_def history_of_def signals_of_def recs_of_def s'_def)
    qed
    moreover have "recs_ok (fresh s') (recommendations s')"
      using inv by (auto simp: assess_inv_def s'_def intro: recs_ok_mono)
    ultimately show ?thesis using a by (simp add: e assess_inv_def) (simp add: s'_def)
  qed
  then show "assess_inv (snd (insert_or_resume now ty st u s))"
    "fst (insert_or_resume now ty st u s) \<in> set (assessments (snd (insert_or_resume now ty st u s)))"
    "as_startup_id (fst (insert_or_resume now ty st u s)) = st"
    "as_status (fst (insert_or_resume now ty st u s)) = AS_in_progress" by blast+
qed

text \<open>
  Two overlapping starts resume one assessment: the second inserts, by the type it has read before,
  where the first has inserted meanwhile.
\<close>

lemma overlapping_starts:
  "fst (insert_or_resume now' ty' st u' (snd (insert_or_resume now ty st u s))) = fst (insert_or_resume now ty st u s)"
  "snd (insert_or_resume now' ty' st u' (snd (insert_or_resume now ty st u s))) = snd (insert_or_resume now ty st u s)"
  by (simp_all add: insert_or_resume_def fresh_id_def in_progress_of_def find_append Let_def split: option.split)

lemma start_or_resume_keeps: "assess_inv s \<Longrightarrow> assess_inv (snd (start_or_resume now st u s))"
  using insert_or_resume_keeps(1) [of s] by (simp add: start_or_resume_def split: option.split)

section \<open>Answering\<close>

lemma answer_row_iff:
  "(\<exists>r \<in> set t. aa_assessment_id r = i \<and> aa_question_key r = k) \<longleftrightarrow> k \<in> fst ` set (answers_in t i)"
  by (force simp: answers_in_def)

lemma submit_answer_ok:
  assumes inv: "assess_inv s" and a: "a \<in> set (assessments s)"
    and ok: "submit_answer now a st k v s = (Inr nq, s')"
  obtains q where "as_status a = AS_in_progress" "upcoming (answered_map s a) = Some q" "q_key q = k" "validate_answer q v = Inr ()"
    "s' = s\<lparr>fresh := Suc (fresh s), assessment_answers := assessment_answers s @
       [\<lparr>aa_id = fresh s, aa_assessment_id = as_id a, aa_question_key = k, aa_value = v, aa_answered_at = now\<rparr>]\<rparr>"
    "nq = upcoming (answered_map s' a)" "answered_map s' a = answered_map s a @ [(k, v)]"
proof -
  obtain q where q: "as_status a = AS_in_progress" "next_question assessment_bank (answered_map s a) st = Some q" "q_key q = k"
      "validate_answer q v = Inr ()" "s' = put_answer now (as_id a) k v s" "nq = next_question assessment_bank (answered_map s' a) st"
    using ok by (auto simp: submit_answer_def Let_def split: if_splits option.splits sum.splits)
  have "k \<notin> fst ` set (answers_in (assessment_answers s) (as_id a))"
    using next_questionD(2) [OF q(2)] q(3) by (simp add: answered_map_in)
  then have s': "s' = s\<lparr>fresh := Suc (fresh s), assessment_answers := assessment_answers s @
       [\<lparr>aa_id = fresh s, aa_assessment_id = as_id a, aa_question_key = k, aa_value = v, aa_answered_at = now\<rparr>]\<rparr>"
    using q(5) answer_row_iff [of "assessment_answers s" "as_id a" k] by (auto simp: put_answer_def fresh_id_def)
  have m: "answered_map s' a = answered_map s a @ [(k, v)]" by (simp add: s' answered_map_in answers_in_append)
  have n: "upcoming (answered_map s a) = Some q" "nq = upcoming (answered_map s' a)"
    using q(2,6) upcoming [of "answered_map s a" st] upcoming [of "answered_map s' a" st] by simp_all
  show ?thesis by (rule that [OF q(1) n(1) q(3,4) s' n(2) m])
qed

lemma sheet_ok_answer:
  assumes "sheet_ok a" "upcoming a = Some q" "validate_answer q v = Inr ()"
  shows "sheet_ok (a @ [(q_key q, v)])"
proof -
  have new: "q_key q \<notin> fst ` set a" using next_questionD(2) [OF assms(2)] .
  have "in_order assessment_bank (a @ [(q_key q, v)]) any_startup"
  proof (rule in_order_answer [OF assessment_bank_ordered _ assms(2)])
    show "in_order assessment_bank a any_startup" using assms(1) by (simp add: sheet_ok_def)
    show "fst ` set (a @ [(q_key q, v)]) = insert (q_key q) (fst ` set a)" by simp
    show "map_of (a @ [(q_key q, v)]) k = map_of a k" if "k \<noteq> q_key q" for k
      using that by (simp add: map_add_def split: option.split)
  qed
  moreover have "validate_answer p w = Inr ()"
    if p: "p \<in> set (bk_questions assessment_bank)" "map_of (a @ [(q_key q, v)]) (q_key p) = Some w" for p w
  proof (cases "q_key p = q_key q")
    case True
    have "p = q"
      using distinct_mapD [of q_key "bk_questions assessment_bank" p q] ordered_from_keys [of "[]" "bk_questions assessment_bank"]
        assessment_bank_ordered p(1) next_questionD(1) [OF assms(2)] True by (simp add: ordered_bank_def)
    moreover have "map_of a (q_key q) = None" using new by (simp add: map_of_eq_None_iff)
    ultimately show ?thesis using p(2) assms(3) by (simp add: map_add_def)
  next
    case False
    then show ?thesis using p assms(1) by (auto simp: sheet_ok_def valid_answers_def map_add_def split: option.splits)
  qed
  ultimately show ?thesis using assms(1) new by (simp add: sheet_ok_def valid_answers_def image_iff)
qed

lemma submit_answer_keeps:
  assumes inv: "assess_inv s" and a: "a \<in> set (assessments s)" and ok: "submit_answer now a st k v s = (Inr nq, s')"
  shows "assess_inv s'"
proof -
  obtain q where q: "as_status a = AS_in_progress" "upcoming (answered_map s a) = Some q" "q_key q = k" "validate_answer q v = Inr ()"
    and s': "s' = s\<lparr>fresh := Suc (fresh s), assessment_answers := assessment_answers s @
       [\<lparr>aa_id = fresh s, aa_assessment_id = as_id a, aa_question_key = k, aa_value = v, aa_answered_at = now\<rparr>]\<rparr>"
    by (rule submit_answer_ok [OF inv a ok])
  have t: "assessments_ok (fresh s) (assessments s) (assessment_answers s)"
    and r: "results_ok (assessments s) (assessment_answers s) (assessment_results s)"
    and rest: "recs_ok (fresh s) (recommendations s)" "\<forall>st. desk s st" using inv by (simp_all add: assess_inv_def)
  have same: "x = a" if "x \<in> set (assessments s)" "as_id x = as_id a" for x
    using t distinct_mapD that a by (fastforce simp: assessments_ok_def)
  have new: "answers_in (assessment_answers s') (as_id x)
      = (if x = a then answered_map s a @ [(k, v)] else answers_in (assessment_answers s) (as_id x))"
    if "x \<in> set (assessments s)" for x
    using same [OF that] by (auto simp: s' answers_in_append answered_map_in)
  have "sheet_ok (answered_map s a @ [(k, v)])"
    using sheet_ok_answer [of "answered_map s a" q v] q t a by (simp add: assessments_ok_def answered_map_in)
  then have "\<forall>x \<in> set (assessments s). sheet_ok (answers_in (assessment_answers s') (as_id x))"
    using t new by (simp add: assessments_ok_def)
  then have "assessments_ok (fresh s') (assessments s') (assessment_answers s')"
    using t a by (auto simp: s' assessments_ok_def)
  moreover have "results_ok (assessments s') (assessment_answers s') (assessment_results s')"
  proof -
    have "x \<noteq> a" if "as_status x = AS_completed" for x using that q(1) by auto
    then show ?thesis using r new by (simp add: s' results_ok_def)
  qed
  moreover have "recs_ok (fresh s') (recommendations s')" "desk s' x" for x
    using rest desk_frame [of s' s] by (auto simp: s' intro: recs_ok_mono)
  ultimately show ?thesis by (simp add: assess_inv_def)
qed

section \<open>Completing\<close>

definition completed_row :: "instant \<Rightarrow> assessment \<Rightarrow> assessment" where
  "completed_row now a = a\<lparr>as_status := AS_completed, as_completed_at := Some now\<rparr>"

lemma completed_row_simps [simp]:
  "as_id (completed_row now a) = as_id a" "as_startup_id (completed_row now a) = as_startup_id a"
  "as_status (completed_row now a) = AS_completed" "as_completed_at (completed_row now a) = Some now"
  by (simp_all add: completed_row_def)

definition result_for :: "assessment \<Rightarrow> answers \<Rightarrow> assessment_result" where
  "result_for a ans = \<lparr>ar_assessment_id = as_id a, ar_dimension_scores = sc_dimension_scores (grade ans),
     ar_overall = sc_overall (grade ans), ar_narrative = sc_narrative (grade ans)\<rparr>"

text \<open>The tables of the assessments after a completion.\<close>

definition completes :: "instant \<Rightarrow> assessment \<Rightarrow> 'a assess_db_scheme \<Rightarrow> 'a assess_db_scheme \<Rightarrow> bool" where
  "completes now a s s' \<longleftrightarrow>
     assessments s' = update_where (\<lambda>x. as_id x = as_id a) (completed_row now) (assessments s)
     \<and> assessment_answers s' = assessment_answers s
     \<and> assessment_results s' = assessment_results s @ [result_for a (answered_map s a)]"

lemma completed_of_iff:
  "(a, r) \<in> set (completed_of s st) \<longleftrightarrow> a \<in> set (assessments s) \<and> as_startup_id a = st \<and> as_status a = AS_completed
     \<and> r \<in> set (assessment_results s) \<and> ar_assessment_id r = as_id a"
  by (auto simp: completed_of_def)

lemma completes_ok:
  assumes inv: "assess_inv s" and a: "a \<in> set (assessments s)" "as_status a = AS_in_progress" "upcoming (answered_map s a) = None"
    and c: "completes now a s s'"
  shows "assessments_ok (fresh s) (assessments s') (assessment_answers s')"
    and "results_ok (assessments s') (assessment_answers s') (assessment_results s')"
    and "\<exists>r. latest_completed_result s' (as_startup_id a) = Some r"
    and "x \<noteq> as_startup_id a \<Longrightarrow> latest_completed_result s' x = latest_completed_result s x"
proof -
  let ?t = "assessments s" and ?t' = "update_where (\<lambda>x. as_id x = as_id a) (completed_row now) (assessments s)"
  have t: "assessments_ok (fresh s) ?t (assessment_answers s)" and r: "results_ok ?t (assessment_answers s) (assessment_results s)"
    using inv by (simp_all add: assess_inv_def)
  have s': "assessments s' = ?t'" "assessment_answers s' = assessment_answers s"
    "assessment_results s' = assessment_results s @ [result_for a (answered_map s a)]" using c by (simp_all add: completes_def)
  have same: "x = a" if "x \<in> set ?t" "as_id x = as_id a" for x
    using t distinct_mapD that a(1) by (fastforce simp: assessments_ok_def)
  have ids: "map as_id ?t' = map as_id ?t" by (rule map_update_where) simp
  have no_result: "as_id a \<notin> ar_assessment_id ` set (assessment_results s)"
    using r same a(2) by (fastforce simp: results_ok_def)
  have open': "open_rows (update_where (\<lambda>x. as_id x = as_id a) (completed_row now) t)
      = filter (\<lambda>x. as_id x \<noteq> as_id a) (open_rows t)" for t
    unfolding open_rows_def by (induction t) auto
  have set': "set ?t' = (\<lambda>x. if as_id x = as_id a then completed_row now x else x) ` set ?t" by (rule set_update_where)
  show ok: "assessments_ok (fresh s) (assessments s') (assessment_answers s')"
    unfolding assessments_ok_def s'
  proof (intro conjI)
    show "distinct (map as_id ?t')" "ids_below (fresh s) (map as_id ?t')" using t by (simp_all add: ids assessments_ok_def)
    show "distinct (map as_startup_id (open_rows ?t'))"
      using t unfolding open' by (simp add: assessments_ok_def distinct_map_filter)
    show "\<forall>x \<in> set ?t'. as_status x \<noteq> AS_abandoned \<and> (as_status x = AS_completed) = (as_completed_at x \<noteq> None)
        \<and> sheet_ok (answers_in (assessment_answers s) (as_id x))"
      using t unfolding set' by (auto simp: assessments_ok_def)
    show "\<forall>r \<in> set (assessment_answers s). \<exists>x \<in> set ?t'. as_id x = aa_assessment_id r"
      using t ids unfolding assessments_ok_def by (metis (no_types, lifting) image_iff list.set_map)
  qed
  have "graded (answered_map s a) (result_for a (answered_map s a))" using a(3) by (simp add: graded_def result_for_def)
  then have graded: "graded (answers_in (assessment_answers s) (as_id a)) (result_for a (answered_map s a))"
    by (simp add: answered_map_in)
  have row: "completed_row now a \<in> set ?t'" using a(1) unfolding set' by force
  have keep: "x \<in> set ?t'" if "x \<in> set ?t" "as_id x \<noteq> as_id a" for x using that unfolding set' by force
  have new: "y = completed_row now a \<or> y \<in> set ?t \<and> as_id y \<noteq> as_id a" if "y \<in> set ?t'" for y
    using that same unfolding set' by auto
  have rid: "ar_assessment_id (result_for a (answered_map s a)) = as_id a" by (simp add: result_for_def)
  show "results_ok (assessments s') (assessment_answers s') (assessment_results s')"
    unfolding results_ok_def s'
  proof (intro conjI ballI impI)
    show "distinct (map ar_assessment_id (assessment_results s @ [result_for a (answered_map s a)]))"
      using r no_result rid by (simp add: results_ok_def)
    fix x assume "x \<in> set (assessment_results s @ [result_for a (answered_map s a)])"
    then show "\<exists>y \<in> set ?t'. as_id y = ar_assessment_id x \<and> as_status y = AS_completed"
      using r row rid keep no_result unfolding results_ok_def by fastforce
  next
    fix y assume "y \<in> set ?t'" "as_status y = AS_completed"
    then show "\<exists>x \<in> set (assessment_results s @ [result_for a (answered_map s a)]).
        ar_assessment_id x = as_id y \<and> graded (answers_in (assessment_answers s) (as_id y)) x"
      using r new [of y] graded rid unfolding results_ok_def by auto
  qed
  have "(completed_row now a, result_for a (answered_map s a)) \<in> set (completed_of s' (as_startup_id a))"
    using row rid by (simp add: completed_of_iff s')
  then have "completed_of s' (as_startup_id a) \<noteq> []" by auto
  then have "desc_by (\<lambda>(a, r). nulls_last (as_completed_at a)) (completed_of s' (as_startup_id a)) \<noteq> []"
    unfolding desc_by_def by (metis set_empty set_rev set_sort)
  then show "\<exists>r. latest_completed_result s' (as_startup_id a) = Some r"
    by (auto simp: latest_completed_result_def neq_Nil_conv split: list.splits)
  show "latest_completed_result s' x = latest_completed_result s x" if x: "x \<noteq> as_startup_id a"
  proof -
    have rows: "filter (\<lambda>b. as_startup_id b = x \<and> as_status b = AS_completed) ?t'
        = filter (\<lambda>b. as_startup_id b = x \<and> as_status b = AS_completed) ?t"
    proof -
      have "\<forall>b \<in> set ?t. as_id b = as_id a \<longrightarrow> as_startup_id b \<noteq> x" using same x by blast
      moreover have "filter (\<lambda>b. as_startup_id b = x \<and> as_status b = AS_completed)
          (update_where (\<lambda>x. as_id x = as_id a) (completed_row now) t)
          = filter (\<lambda>b. as_startup_id b = x \<and> as_status b = AS_completed) t"
        if "\<forall>b \<in> set t. as_id b = as_id a \<longrightarrow> as_startup_id b \<noteq> x" for t
        using that by (induction t) auto
      ultimately show ?thesis by blast
    qed
    have "filter (\<lambda>r. ar_assessment_id r = as_id b) (assessment_results s')
        = filter (\<lambda>r. ar_assessment_id r = as_id b) (assessment_results s)"
      if "b \<in> set ?t" "as_startup_id b = x" for b
      using same [of b] that x by (auto simp: s' result_for_def)
    then have "completed_of s' x = completed_of s x"
      unfolding completed_of_def s'(1) rows by (intro arg_cong [where f = concat] map_cong) auto
    then show ?thesis by (simp add: latest_completed_result_def)
  qed
qed

definition completions_of :: "(string \<times> payload) list \<Rightarrow> uid \<Rightarrow> nat" where
  "completions_of es i = count_where (\<lambda>(e, p). e = ''assessment.completed'' \<and> jget p ''assessment_id'' = JUid i) es"

lemma completions_of_simps [simp]:
  "completions_of (es @ es') i = completions_of es i + completions_of es' i" "completions_of [] i = 0"
  "completions_of ((e, p) # es) i
     = (if e = ''assessment.completed'' \<and> jget p ''assessment_id'' = JUid i then 1 else 0) + completions_of es i"
  by (simp_all add: completions_of_def)

lemma announce_completions [simp]: "completions_of (events (announce_health now st x pr mx d s)) i = completions_of (events s) i"
  by (simp add: announce_health_def Let_def split: option.split)

lemma recompute_completions [simp]:
  "completions_of (events (recompute_health_score now st tr s)) i = completions_of (events s) i"
proof (cases "latest_completed_result s st")
  case (Some r)
  then show ?thesis
    by (simp add: recompute_health_score_def Let_def add_point_def put_health_def replace_signals_def fresh_id_def)
qed (simp add: recompute_health_score_def)

lemma clear_pending_simps [simp]:
  "assessments (clear_pending i s) = assessments s" "assessment_answers (clear_pending i s) = assessment_answers s"
  "assessment_results (clear_pending i s) = assessment_results s" "health_scores (clear_pending i s) = health_scores s"
  "health_history (clear_pending i s) = health_history s" "health_signals (clear_pending i s) = health_signals s"
  "recommendations (clear_pending i s) = recommendations s" "fresh (clear_pending i s) = fresh s" "events (clear_pending i s) = events s"
  by (simp_all add: clear_pending_def)

text \<open>The request that wins the claim.\<close>

lemma finish_won:
  assumes inv: "assess_inv s" and a: "a \<in> set (assessments s)" "as_status a = AS_in_progress" "upcoming (answered_map s a) = None"
    and st: "as_startup_id a = st_id st" and good: "\<not> (as_type a = AT_initial \<and> st_profile st = None)"
    and no_result: "\<not> (\<exists>x \<in> set (assessment_results s). ar_assessment_id x = as_id a)"
  obtains s' where "finish_assessment now a st (answered_map s a)
      (s\<lparr>assessments := update_where (\<lambda>x. as_id x = as_id a) (completed_row now) (assessments s)\<rparr>)
        = (Inr (completion_of (result_for a (answered_map s a)), True), s')"
    "completes now a s s'" "assess_inv s'" "decisions_kept (recommendations s) (recommendations s')"
    "\<And>i. completions_of (events s') i = completions_of (events s) i + (if i = as_id a then 1 else 0)"
    "fresh s \<le> fresh s'"
proof -
  define s2 where "s2 = s\<lparr>assessments := update_where (\<lambda>x. as_id x = as_id a) (completed_row now) (assessments s),
    assessment_results := assessment_results s @ [result_for a (answered_map s a)]\<rparr>"
  define s3 where "s3 = (if as_type a = AT_initial then clear_pending (st_id st) s2 else s2)"
  define s4 where "s4 = recompute_health_score now (st_id st) ''assessment_complete'' s3"
  define job where "job = [(''startup_id'', JUid (st_id st)), (''assessment_id'', JUid (as_id a))]"
  define s5 where "s5 = snd (enqueue now ''ai.assessment.narrative'' job (Some (st_id st))
    (snd (enqueue now ''roadmap.replan'' job (Some (st_id st)) s4)))"
  define ev where "ev = [(''assessment_id'', JUid (as_id a)), (''startup_id'', JUid (st_id st)),
    (''dimension_scores'', JObj (map (\<lambda>(k, v). (k, JInt v)) (sc_dimension_scores (grade (answered_map s a)))))]"
  define s6 where "s6 = publish now ''assessment.completed'' ev s5"
  have f: "finish_assessment now a st (answered_map s a)
      (s\<lparr>assessments := update_where (\<lambda>x. as_id x = as_id a) (completed_row now) (assessments s)\<rparr>) = (Inr (completion_of (result_for a (answered_map s a)), True), s6)"
    using good no_result unfolding finish_assessment_def Let_def grade [of "answered_map s a" st]
    by (simp add: result_for_def s2_def s3_def s4_def s5_def s6_def job_def ev_def)
  have c2: "completes now a s s3" by (simp add: completes_def s2_def s3_def)
  note c = completes_ok [OF inv a(1,2,3) c2]
  obtain x where x: "latest_completed_result s3 (st_id st) = Some x" using c(3) st by auto
  have recs3: "recs_ok (fresh s3) (recommendations s3)" using inv by (simp add: assess_inv_def s3_def s2_def)
  note rec = recompute_spec [OF recs3 x, where now = now and trigger = "''assessment_complete''", folded s4_def]
  have same3: "recommendations s3 = recommendations s" "events s3 = events s" by (simp_all add: s3_def s2_def)
  have frame: "assessments s6 = assessments s3" "assessment_answers s6 = assessment_answers s3" "assessment_results s6 = assessment_results s3"
    "recommendations s6 = recommendations s4" "health_scores s6 = health_scores s4" "health_history s6 = health_history s4"
    "health_signals s6 = health_signals s4"
    using rec(1-3) by (simp_all add: s6_def s5_def)
  have fr: "fresh s3 = fresh s" "fresh s4 \<le> fresh s6"
    using publish_fresh [of s5 now "''assessment.completed''" ev] by (simp_all add: s3_def s2_def s6_def s5_def)
  have "desk s6 y" for y
  proof -
    have d: "desk s6 y = desk s4 y" using frame rec(1-3) by (intro desk_frame) simp_all
    show ?thesis
    proof (cases "y = st_id st")
      case False
      have "desk s3 y = desk s y"
        using c(4) [of y] False st
        by (simp add: desk_def health_of_def history_of_def signals_of_def recs_of_def s3_def s2_def)
      then show ?thesis using rec(8) [OF False] inv d by (simp add: assess_inv_def)
    qed (use rec(7) d in simp)
  qed
  moreover have "assessments_ok (fresh s6) (assessments s6) (assessment_answers s6)"
    using assessments_ok_mono [OF c(1), of "fresh s6"] frame rec(5) fr by simp
  ultimately have "assess_inv s6"
    using c(2) frame recs_ok_mono [OF rec(6) fr(2)] by (simp add: assess_inv_def)
  moreover have "completes now a s s6" using c2 frame by (simp add: completes_def)
  moreover have "decisions_kept (recommendations s) (recommendations s6)"
    using rec(9) same3 by (simp add: frame)
  moreover have "completions_of (events s6) i = completions_of (events s) i + (if i = as_id a then 1 else 0)" for i
    using same3 by (simp add: s6_def s5_def s4_def ev_def jget_def)
  moreover have "fresh s \<le> fresh s6" using fr rec(5) by simp
  ultimately show ?thesis using f by (intro that) auto
qed

text \<open>What a call of \<^verbatim>\<open>complete_assessment\<close> can do.\<close>

lemma complete_cases:
  assumes inv: "assess_inv s" and a: "a \<in> set (assessments s)" and st: "as_startup_id a = st_id st"
  obtains (unfinished) q where "upcoming (answered_map s a) = Some q"
      "complete_assessment now a st s = (Inl (incomplete 422 [q_key q]), s)"
  | (again) r where "as_status a = AS_completed" "r \<in> set (assessment_results s)" "ar_assessment_id r = as_id a"
      "complete_assessment now a st s = (Inr (completion_of r, False), s)"
  | (no_profile) s' where "as_status a = AS_in_progress" "as_type a = AT_initial" "st_profile st = None"
      "complete_assessment now a st s = (Inl (Uncaught ''AttributeError''), s')"
  | (won) s' where "as_status a = AS_in_progress" "upcoming (answered_map s a) = None"
      "complete_assessment now a st s = (Inr (completion_of (result_for a (answered_map s a)), True), s')"
      "completes now a s s'" "assess_inv s'" "decisions_kept (recommendations s) (recommendations s')"
      "\<And>i. completions_of (events s') i = completions_of (events s) i + (if i = as_id a then 1 else 0)"
      "fresh s \<le> fresh s'"
proof (cases "upcoming (answered_map s a)")
  case (Some q)
  then show ?thesis using unfinished upcoming [of "answered_map s a" st] by (simp add: complete_assessment_def)
next
  case None
  let ?open = "\<lambda>x. as_id x = as_id a \<and> as_status x = AS_in_progress"
  have t: "assessments_ok (fresh s) (assessments s) (assessment_answers s)"
    and r: "results_ok (assessments s) (assessment_answers s) (assessment_results s)" using inv by (simp_all add: assess_inv_def)
  have same: "x = a" if "x \<in> set (assessments s)" "as_id x = as_id a" for x
    using t distinct_mapD that a by (fastforce simp: assessments_ok_def)
  have n: "next_question assessment_bank (answered_map s a) st = None" using None upcoming [of "answered_map s a" st] by simp
  show ?thesis
  proof (cases "as_status a = AS_in_progress")
    case False
    then have "as_status a = AS_completed" using t a by (cases "as_status a") (auto simp: assessments_ok_def)
    then obtain x where x: "x \<in> set (assessment_results s)" "ar_assessment_id x = as_id a" using r a by (auto simp: results_ok_def)
    have "find (\<lambda>r. ar_assessment_id r = as_id a) (assessment_results s) = Some x"
      using find_key_unique [of ar_assessment_id "assessment_results s" x] r x by (simp add: results_ok_def)
    moreover have zero: "count_where ?open (assessments s) = 0" using same False by (auto simp: count_where_0_iff)
    moreover have "update_where ?open (\<lambda>x. x\<lparr>as_status := AS_completed, as_completed_at := Some now\<rparr>) (assessments s) = assessments s"
      using same False by (intro update_where_none) blast
    ultimately have "complete_assessment now a st s = (Inr (completion_of x, False), s)"
      using n by (simp add: complete_assessment_def Let_def)
    with \<open>as_status a = AS_completed\<close> x show ?thesis by (rule again)
  next
    case True
    have some: "count_where ?open (assessments s) \<noteq> 0" using a True by (auto simp: count_where_0_iff)
    have "update_where ?open (\<lambda>x. x\<lparr>as_status := AS_completed, as_completed_at := Some now\<rparr>) (assessments s)
        = update_where (\<lambda>x. as_id x = as_id a) (completed_row now) (assessments s)"
      unfolding update_where_def using same True by (intro map_cong) (auto simp: completed_row_def)
    then have s1: "complete_assessment now a st s = finish_assessment now a st (answered_map s a)
        (s\<lparr>assessments := update_where (\<lambda>x. as_id x = as_id a) (completed_row now) (assessments s)\<rparr>)"
      using n some by (simp add: complete_assessment_def Let_def)
    have no_result: "\<not> (\<exists>x \<in> set (assessment_results s). ar_assessment_id x = as_id a)"
      using r same True by (fastforce simp: results_ok_def)
    show ?thesis
    proof (cases "as_type a = AT_initial \<and> st_profile st = None")
      case bad: True
      then show ?thesis using True s1 by (intro no_profile) (simp_all add: finish_assessment_def Let_def)
    next
      case good: False
      show ?thesis
      proof (rule finish_won [OF inv a True None st good no_result, of now])
        fix s' assume w: "finish_assessment now a st (answered_map s a)
            (s\<lparr>assessments := update_where (\<lambda>x. as_id x = as_id a) (completed_row now) (assessments s)\<rparr>)
              = (Inr (completion_of (result_for a (answered_map s a)), True), s')"
          "completes now a s s'" "assess_inv s'" "decisions_kept (recommendations s) (recommendations s')"
          "\<And>i. completions_of (events s') i = completions_of (events s) i + (if i = as_id a then 1 else 0)" "fresh s \<le> fresh s'"
        show ?thesis by (rule won [OF True None _ w(2-6)]) (simp add: s1 w(1))
      qed
    qed
  qed
qed

end
