(* ===== verification/Assess_Requests.thy ===== *)
theory Assess_Requests
  imports Assess_Keeps
begin

text \<open>
  The requests on the assessments and the health score, their histories, and what holds along them.
\<close>

section \<open>Decisions and readings\<close>

lemma resolve_keeps:
  assumes inv: "assess_inv s"
  shows "assess_inv (snd (resolve_recommendation now st i target s))"
    and "decisions_kept (recommendations s) (recommendations (snd (resolve_recommendation now st i target s)))"
proof -
  let ?s' = "snd (resolve_recommendation now st i target s)"
  have all: "assess_inv ?s' \<and> decisions_kept (recommendations s) (recommendations ?s')"
  proof (cases "?s' = s")
    case True
    then show ?thesis using inv by simp
  next
    case False
    then obtain row where row: "find (\<lambda>r. hr_id r = i \<and> hr_startup_id r = st) (recommendations s) = Some row" "hr_status row = RS_pending"
      "hr_status row \<noteq> target"
      by (auto simp: resolve_recommendation_def Let_def split: option.splits if_splits)
    let ?f = "\<lambda>r :: recommendation. r\<lparr>hr_status := target, hr_resolved_at := Some now\<rparr>"
    have s': "?s' = s\<lparr>recommendations := update_where (\<lambda>r. hr_id r = hr_id row) ?f (recommendations s)\<rparr>"
      using row by (simp add: resolve_recommendation_def Let_def)
    have mem: "row \<in> set (recommendations s)" using row(1) by (auto dest: find_SomeD)
    have same: "r = row" if "r \<in> set (recommendations s)" "hr_id r = hr_id row" for r
      using distinct_mapD [of hr_id "recommendations s" r row] inv that mem by (simp add: assess_inv_def recs_ok_def)
    have "recs_ok (fresh s) (update_where (\<lambda>r. hr_id r = hr_id row) ?f (recommendations s))"
      using inv map_update_where [of "\<lambda>r. hr_id r = hr_id row" hr_id ?f] map_update_where [of "\<lambda>r. hr_id r = hr_id row" rec_key ?f]
      by (simp add: assess_inv_def recs_ok_def rec_key_def)
    moreover have "desk ?s' x" for x
    proof -
      have recs: "recs_of ?s' x = update_where (\<lambda>r. hr_id r = hr_id row) ?f (recs_of s x)"
        by (simp add: s' recs_of_def filter_update_where)
      have "ranked cs (update_where (\<lambda>r. hr_id r = hr_id row) ?f rs)" if "ranked cs rs" for cs rs
        unfolding update_where_def by (rule ranked_map [OF that]) (use row(2,3) in \<open>auto split: if_splits\<close>)
      then have "desk_ok l h p g (recs_of s x) \<Longrightarrow> desk_ok l h p g (recs_of ?s' x)" for l h p g
        unfolding recs desk_ok_def by (auto split: option.splits)
      moreover have "desk s x" using inv by (simp add: assess_inv_def)
      ultimately show ?thesis
        by (simp add: desk_def s' latest_completed_result_def completed_of_def health_of_def history_of_def signals_of_def)
    qed
    moreover have "decisions_kept (recommendations s) (recommendations ?s')"
      unfolding decisions_kept_def s'
      using row(2) same by (auto simp: set_update_where image_iff)
    ultimately show ?thesis using inv by (simp add: assess_inv_def s')
  qed
  then show "assess_inv ?s'" "decisions_kept (recommendations s) (recommendations ?s')" by blast+
qed

text \<open>The computation on first reading never runs: a completed assessment has a score already.\<close>

lemma overview_reads: "assess_inv s \<Longrightarrow> snd (get_overview stored now st s) = s"
proof -
  assume "assess_inv s"
  then have "desk s st" by (simp add: assess_inv_def)
  then show ?thesis by (auto simp: desk_def desk_ok_def get_overview_def Let_def split: option.splits)
qed

section \<open>Requests\<close>

datatype assess_request =
    RQ_start
  | RQ_answer uid string json
  | RQ_complete uid
  | RQ_overview
  | RQ_accept uid
  | RQ_dismiss uid

fun assess_roles :: "assess_request \<Rightarrow> membership_role list" where
  "assess_roles RQ_overview = []"
| "assess_roles q = [MR_founder]"

fun assess_body ::
    "((string \<times> int) list \<Rightarrow> (string \<times> int) list) \<Rightarrow> instant \<Rightarrow> assess_request \<Rightarrow> user \<Rightarrow> membership
     \<Rightarrow> 'a assess_db_scheme \<Rightarrow> unit result \<times> 'a assess_db_scheme" where
  "assess_body stored now RQ_start u m s = map_prod ignore id (run_tx (start_assessment now u m) s)"
| "assess_body stored now (RQ_answer i k v) u m s = map_prod ignore id (run_tx (post_answer now i k v m) s)"
| "assess_body stored now (RQ_complete i) u m s = map_prod ignore id (run_tx (post_complete_assessment now i u m) s)"
| "assess_body stored now RQ_overview u m s = map_prod ignore id (run_tx (get_health_score stored now m) s)"
| "assess_body stored now (RQ_accept i) u m s = map_prod ignore id (run_tx (resolve_endpoint now i RS_accepted m) s)"
| "assess_body stored now (RQ_dismiss i) u m s = map_prod ignore id (run_tx (resolve_endpoint now i RS_dismissed m) s)"

record assess_call =
  aq_credential :: "string option"
  aq_workspace :: uid
  aq_now :: instant
  aq_request :: assess_request

definition serve_assess ::
    "((string \<times> int) list \<Rightarrow> (string \<times> int) list) \<Rightarrow> (string \<Rightarrow> json option) \<Rightarrow> assess_call
     \<Rightarrow> 'a assess_db_scheme \<Rightarrow> unit result \<times> 'a assess_db_scheme" where
  "serve_assess stored decode q s =
     member_request decode (aq_credential q) (aq_workspace q) (assess_roles (aq_request q))
       (assess_body stored (aq_now q) (aq_request q)) s"

text \<open>
  \<open>elsewhere\<close> is the rest of the application; of these tables its workers rewrite the narratives and
  the texts of the recommendations, and nothing else announces a completion.
\<close>

definition narrated :: "(uid \<Rightarrow> string) \<Rightarrow> assessment_result \<Rightarrow> assessment_result" where
  "narrated f r = r\<lparr>ar_narrative := f (ar_assessment_id r)\<rparr>"

definition reworded :: "(uid \<Rightarrow> string) \<Rightarrow> recommendation \<Rightarrow> recommendation" where
  "reworded g r = r\<lparr>hr_body := g (hr_id r)\<rparr>"

inductive assess_step ::
    "((string \<times> int) list \<Rightarrow> (string \<times> int) list) \<Rightarrow> (string \<Rightarrow> json option) \<Rightarrow> 'a assess_db_scheme
     \<Rightarrow> 'a assess_db_scheme \<Rightarrow> bool"
  for stored :: "(string \<times> int) list \<Rightarrow> (string \<times> int) list" and decode :: "string \<Rightarrow> json option" where
  request: "assess_step stored decode s (snd (serve_assess stored decode q s))"
| elsewhere: "assessments s' = assessments s \<Longrightarrow> assessment_answers s' = assessment_answers s
    \<Longrightarrow> assessment_results s' = map (narrated f) (assessment_results s) \<Longrightarrow> health_scores s' = health_scores s
    \<Longrightarrow> health_history s' = health_history s \<Longrightarrow> health_signals s' = health_signals s
    \<Longrightarrow> recommendations s' = map (reworded g) (recommendations s) \<Longrightarrow> fresh s \<le> fresh s'
    \<Longrightarrow> (\<And>i. completions_of (events s') i = completions_of (events s) i) \<Longrightarrow> assess_step stored decode s s'"

definition no_assessments :: "'a assess_db_scheme \<Rightarrow> bool" where
  "no_assessments s \<longleftrightarrow> assessments s = [] \<and> assessment_answers s = [] \<and> assessment_results s = [] \<and> health_scores s = []
     \<and> health_history s = [] \<and> health_signals s = [] \<and> recommendations s = [] \<and> (\<forall>i. completions_of (events s) i = 0)"

definition assess_reachable ::
    "((string \<times> int) list \<Rightarrow> (string \<times> int) list) \<Rightarrow> (string \<Rightarrow> json option) \<Rightarrow> 'a assess_db_scheme \<Rightarrow> bool" where
  "assess_reachable stored decode s \<longleftrightarrow> (\<exists>s0. no_assessments s0 \<and> (assess_step stored decode)\<^sup>*\<^sup>* s0 s)"

section \<open>What a step keeps\<close>

definition announced_once :: "'a assess_db_scheme \<Rightarrow> bool" where
  "announced_once s \<longleftrightarrow> (\<forall>i. completions_of (events s) i
     = (if \<exists>a \<in> set (assessments s). as_id a = i \<and> as_status a = AS_completed then 1 else 0))"

text \<open>What a finished assessment is remembered by.\<close>

definition finished :: "'a assess_db_scheme \<Rightarrow> assessment \<Rightarrow> assessment_result \<Rightarrow> bool" where
  "finished s a r \<longleftrightarrow> a \<in> set (assessments s) \<and> as_status a = AS_completed \<and> r \<in> set (assessment_results s)
     \<and> ar_assessment_id r = as_id a"

definition finished_kept :: "'a assess_db_scheme \<Rightarrow> 'a assess_db_scheme \<Rightarrow> bool" where
  "finished_kept s s' \<longleftrightarrow> (\<forall>a r. finished s a r \<longrightarrow> answered_map s' a = answered_map s a
     \<and> (\<exists>r'. finished s' a r' \<and> ar_dimension_scores r' = ar_dimension_scores r \<and> ar_overall r' = ar_overall r))"

definition advances :: "'a assess_db_scheme \<Rightarrow> 'a assess_db_scheme \<Rightarrow> bool" where
  "advances s s' \<longleftrightarrow> assess_inv s' \<and> (announced_once s \<longrightarrow> announced_once s') \<and> finished_kept s s'
     \<and> decisions_kept (recommendations s) (recommendations s')"

lemma finished_kept_refl [simp]: "finished_kept s s"
  by (auto simp: finished_kept_def)

lemma finished_kept_trans: "finished_kept s t \<Longrightarrow> finished_kept t u \<Longrightarrow> finished_kept s u"
  unfolding finished_kept_def by metis

lemma advances_refl: "assess_inv s \<Longrightarrow> advances s s"
  by (simp add: advances_def)

lemma advances_trans: "advances s t \<Longrightarrow> advances t u \<Longrightarrow> advances s u"
  unfolding advances_def by (meson finished_kept_trans decisions_kept_trans)

lemma run_tx_advances:
  assumes "assess_inv s" "\<And>v s'. f s = (Inr v, s') \<Longrightarrow> advances s s'"
  shows "advances s (snd (run_tx f s))"
  using assms advances_refl [OF assms(1)] by (cases "f s"; cases "fst (f s)") (auto simp: run_tx_def)

lemma advances_assessments:
  assumes "assess_inv s'" "set (assessments s) \<subseteq> set (assessments s')" "\<And>a. a \<in> set (assessments s') \<Longrightarrow> as_status a = AS_completed \<Longrightarrow> a \<in> set (assessments s)"
    "assessment_results s' = assessment_results s" "events s' = events s" "recommendations s' = recommendations s"
    "\<And>a. as_status a = AS_completed \<Longrightarrow> a \<in> set (assessments s) \<Longrightarrow> answered_map s' a = answered_map s a"
  shows "advances s s'"
proof -
  have same: "a \<in> set (assessments s') \<and> as_status a = AS_completed \<longleftrightarrow> a \<in> set (assessments s) \<and> as_status a = AS_completed" for a
    using assms(2,3) by blast
  have "finished s' a r = finished s a r" for a r using same [of a] by (auto simp: finished_def assms(4))
  then have "finished_kept s s'" using assms(7) by (auto simp: finished_kept_def finished_def)
  moreover have "announced_once s' = announced_once s"
  proof -
    have "(\<exists>a \<in> set (assessments s'). as_id a = i \<and> as_status a = AS_completed)
        \<longleftrightarrow> (\<exists>a \<in> set (assessments s). as_id a = i \<and> as_status a = AS_completed)" for i using same by blast
    then show ?thesis by (simp add: announced_once_def assms(5))
  qed
  ultimately show ?thesis using assms(1,6) by (simp add: advances_def)
qed

lemma start_advances:
  assumes inv: "assess_inv s" and ok: "start_assessment now u m s = (Inr v, s')"
  shows "advances s s'"
proof -
  obtain st where s': "s' = snd (start_or_resume now st u s)"
    using ok by (auto simp: start_assessment_def case_prod_unfold Let_def split: sum.splits)
  show ?thesis
  proof (cases "in_progress_of s (st_id st)")
    case (Some a)
    then show ?thesis using advances_refl [OF inv] by (simp add: s' start_or_resume_def)
  next
    case None
    then obtain ty where ty: "s' = snd (insert_or_resume now ty (st_id st) (u_id u) s)"
      by (simp add: s' start_or_resume_def Let_def)
    define a where "a = fst (insert_or_resume now ty (st_id st) (u_id u) s)"
    have a: "as_status a = AS_in_progress" unfolding a_def by (rule insert_or_resume_keeps [OF inv])
    have e: "s' = s\<lparr>fresh := Suc (fresh s), assessments := assessments s @ [a]\<rparr>"
      using None by (simp add: ty a_def insert_or_resume_def fresh_id_def Let_def)
    show ?thesis
    proof (rule advances_assessments)
      show "assess_inv s'" unfolding s' by (rule start_or_resume_keeps [OF inv])
    qed (use a in \<open>auto simp: e answered_map_def\<close>)
  qed
qed

lemma answer_advances:
  assumes inv: "assess_inv s" and ok: "post_answer now i k v m s = (Inr w, s')"
  shows "advances s s'"
proof -
  obtain a st nq where a: "a \<in> set (assessments s)" and sub: "submit_answer now a st k v s = (Inr nq, s')"
    using ok by (auto simp: post_answer_def assessment_startup_def find_assessment_def dest: find_SomeD split: sum.splits option.splits prod.splits)
  let ?row = "\<lparr>aa_id = fresh s, aa_assessment_id = as_id a, aa_question_key = k, aa_value = v, aa_answered_at = now\<rparr>"
  obtain op: "as_status a = AS_in_progress"
    and s': "s' = s\<lparr>fresh := Suc (fresh s), assessment_answers := assessment_answers s @ [?row]\<rparr>"
    by (rule submit_answer_ok [OF inv a sub]) simp
  have other: "as_id b \<noteq> as_id a" if "as_status b = AS_completed" "b \<in> set (assessments s)" for b
    using distinct_mapD [of as_id "assessments s" b a] inv a that op by (auto simp: assess_inv_def assessments_ok_def)
  show ?thesis
    using submit_answer_keeps [OF inv a sub]
    by (intro advances_assessments) (auto simp: s' answered_map_in answers_in_append dest: other)
qed

lemma complete_advances:
  assumes inv: "assess_inv s" and ok: "post_complete_assessment now i u m s = (Inr v, s')"
  shows "advances s s'"
proof -
  obtain a st where f: "assessment_startup s m i = Inr (a, st)"
    using ok by (auto simp: post_complete_assessment_def split: sum.splits)
  then have a: "a \<in> set (assessments s)" "as_startup_id a = st_id st"
    by (auto simp: assessment_startup_def find_assessment_def startup_row_def startup_by_id_def dest!: find_SomeD split: sum.splits option.splits)
  show ?thesis
  proof (rule complete_cases [OF inv a, of now])
    fix q assume "complete_assessment now a st s = (Inl (incomplete 422 [q_key q]), s)"
    then show ?thesis using ok f by (simp add: post_complete_assessment_def)
  next
    fix r assume "complete_assessment now a st s = (Inr (completion_of r, False), s)"
    then show ?thesis using ok f advances_refl [OF inv] by (simp add: post_complete_assessment_def)
  next
    fix s'' assume "complete_assessment now a st s = (Inl (Uncaught ''AttributeError''), s'')"
    then show ?thesis using ok f by (simp add: post_complete_assessment_def)
  next
    fix s1 assume op: "as_status a = AS_in_progress"
      and won: "complete_assessment now a st s = (Inr (completion_of (result_for a (answered_map s a)), True), s1)"
      "completes now a s s1" "assess_inv s1" "decisions_kept (recommendations s) (recommendations s1)"
      "\<And>i. completions_of (events s1) i = completions_of (events s) i + (if i = as_id a then 1 else 0)"
    have s': "s' = write_activity now (st_id st) ''assessment.completed'' (actor_name u @ '' completed the startup assessment'')
        (Some (u_id u)) (Some ''assessment'') (Some (as_id a)) None s1"
      using ok f won(1) by (simp add: post_complete_assessment_def)
    have frame: "assessments s' = assessments s1" "assessment_answers s' = assessment_answers s1"
      "assessment_results s' = assessment_results s1" "recommendations s' = recommendations s1" "events s' = events s1"
      "health_scores s' = health_scores s1" "health_history s' = health_history s1" "health_signals s' = health_signals s1"
      "fresh s1 \<le> fresh s'"
      by (simp_all add: s' write_activity_def)
    have inv': "assess_inv s'" by (rule assess_inv_frame [OF won(3)]) (use frame in simp_all)
    have same: "x = a" if "x \<in> set (assessments s)" "as_id x = as_id a" for x
      using distinct_mapD [of as_id "assessments s" x a] inv a(1) that by (simp add: assess_inv_def assessments_ok_def)
    have t': "set (assessments s') = insert (completed_row now a) {x \<in> set (assessments s). as_id x \<noteq> as_id a}"
      using won(2) same a(1) by (auto simp: frame completes_def set_update_where)
    have "announced_once s'" if "announced_once s"
      unfolding announced_once_def
    proof
      fix j
      show "completions_of (events s') j = (if \<exists>x \<in> set (assessments s'). as_id x = j \<and> as_status x = AS_completed then 1 else 0)"
      proof (cases "j = as_id a")
        case True
        have "\<not> (\<exists>x \<in> set (assessments s). as_id x = as_id a \<and> as_status x = AS_completed)" using same op by fastforce
        then show ?thesis using that True won(5) [of j] by (simp add: announced_once_def frame(5) t')
      next
        case False
        then have "(\<exists>x \<in> set (assessments s'). as_id x = j \<and> as_status x = AS_completed)
            \<longleftrightarrow> (\<exists>x \<in> set (assessments s). as_id x = j \<and> as_status x = AS_completed)" unfolding t' by auto
        then show ?thesis using that False won(5) [of j] by (simp add: announced_once_def frame(5))
      qed
    qed
    moreover have "finished_kept s s'"
      unfolding finished_kept_def
    proof (intro allI impI conjI)
      fix b r assume b: "finished s b r"
      then have "as_id b \<noteq> as_id a" using same [of b] op by (auto simp: finished_def)
      then have "finished s' b r" using b won(2) t' by (auto simp: finished_def frame completes_def)
      then show "\<exists>r'. finished s' b r' \<and> ar_dimension_scores r' = ar_dimension_scores r \<and> ar_overall r' = ar_overall r" by blast
      show "answered_map s' b = answered_map s b" using won(2) by (simp add: answered_map_in frame completes_def)
    qed
    ultimately show ?thesis using inv' won(4) by (simp add: advances_def frame)
  qed
qed

lemma resolve_advances:
  assumes inv: "assess_inv s" and ok: "resolve_endpoint now i target m s = (Inr v, s')"
  shows "advances s s'"
proof -
  obtain st where "resolve_recommendation now st i target s = (Inr v, s')"
    using ok by (auto simp: resolve_endpoint_def split: sum.splits)
  then have s': "s' = snd (resolve_recommendation now st i target s)" by simp
  have frame: "assessments s' = assessments s" "assessment_answers s' = assessment_answers s"
    "assessment_results s' = assessment_results s" "events s' = events s"
    by (simp_all add: s' resolve_recommendation_def Let_def split: option.split)
  then have "finished_kept s s'" "announced_once s' = announced_once s"
    by (auto simp: finished_kept_def finished_def answered_map_def announced_once_def)
  then show ?thesis using resolve_keeps [OF inv, of now st i target] by (simp add: advances_def s')
qed

lemma serve_assess_advances:
  assumes "assess_inv s" shows "advances s (snd (serve_assess stored decode q s))"
  unfolding serve_assess_def
proof (rule member_request_caller [of decode "aq_credential q" "aq_workspace q" "assess_roles (aq_request q)"
    "assess_body stored (aq_now q) (aq_request q)" s])
  fix e assume "member_request decode (aq_credential q) (aq_workspace q) (assess_roles (aq_request q))
     (assess_body stored (aq_now q) (aq_request q)) s = (Inl e, s)"
  then show "advances s (snd (member_request decode (aq_credential q) (aq_workspace q) (assess_roles (aq_request q))
     (assess_body stored (aq_now q) (aq_request q)) s))" using advances_refl [OF assms] by simp
next
  fix u m assume e: "member_request decode (aq_credential q) (aq_workspace q) (assess_roles (aq_request q))
     (assess_body stored (aq_now q) (aq_request q)) s = assess_body stored (aq_now q) (aq_request q) u m s"
  have "advances s s'" if "get_health_score stored now m s = (Inr v, s')" for now v s'
    using that overview_reads [OF assms] advances_refl [OF assms]
    by (auto simp: get_health_score_def split: sum.splits prod.splits) (metis snd_conv)
  then show "advances s (snd (member_request decode (aq_credential q) (aq_workspace q) (assess_roles (aq_request q))
     (assess_body stored (aq_now q) (aq_request q)) s))"
    unfolding e
    by (cases "aq_request q")
      (auto intro!: run_tx_advances [OF assms] dest: start_advances [OF assms] answer_advances [OF assms]
        complete_advances [OF assms] resolve_advances [OF assms])
qed

section \<open>The workers' rewording\<close>

lemma sort_key_map: "sort_key f (map g xs) = map g (sort_key (\<lambda>x. f (g x)) xs)"
proof (induction xs)
  case (Cons x xs)
  have "insort_key f (g x) (map g ys) = map g (insort_key (\<lambda>x. f (g x)) x ys)" for ys
    by (induction ys) auto
  then show ?case using Cons by (simp add: sort_key_def)
qed simp

lemma latest_narrated:
  assumes "assessments s' = assessments s" "assessment_results s' = map (narrated f) (assessment_results s)"
  shows "latest_completed_result s' st = map_option (narrated f) (latest_completed_result s st)"
proof -
  let ?g = "\<lambda>(a, r). (a :: assessment, narrated f r)"
  have id: "ar_assessment_id (narrated f r) = ar_assessment_id r" for r by (simp add: narrated_def)
  have "completed_of s' st = map ?g (completed_of s st)"
    by (simp add: completed_of_def assms map_concat filter_map comp_def id)
  then have "desc_by (\<lambda>(a, r). nulls_last (as_completed_at a)) (completed_of s' st)
      = map ?g (desc_by (\<lambda>(a, r). nulls_last (as_completed_at a)) (completed_of s st))"
    by (simp add: desc_by_def sort_key_map rev_map case_prod_unfold)
  then show ?thesis
    by (simp add: latest_completed_result_def split: list.split)
qed

lemma elsewhere_advances:
  assumes inv: "assess_inv s" and e: "assessments s' = assessments s" "assessment_answers s' = assessment_answers s"
    "assessment_results s' = map (narrated f) (assessment_results s)" "health_scores s' = health_scores s"
    "health_history s' = health_history s" "health_signals s' = health_signals s"
    "recommendations s' = map (reworded g) (recommendations s)" "fresh s \<le> fresh s'"
    "\<And>i. completions_of (events s') i = completions_of (events s) i"
  shows "advances s s'"
proof -
  have n: "ar_assessment_id (narrated f r) = ar_assessment_id r" "ar_dimension_scores (narrated f r) = ar_dimension_scores r"
    "ar_overall (narrated f r) = ar_overall r" "graded a (narrated f r) = graded a r" "current_scores (narrated f r) = current_scores r" for a r
    by (simp_all add: narrated_def graded_def current_scores_def)
  have w: "hr_id (reworded g r) = hr_id r" "rec_key (reworded g r) = rec_key r" "decision (reworded g r) = decision r"
    "hr_startup_id (reworded g r) = hr_startup_id r" "hr_status (reworded g r) = hr_status r" for r
    by (simp_all add: reworded_def rec_key_def decision_def)
  have "results_ok (assessments s') (assessment_answers s') (assessment_results s')"
    using inv unfolding assess_inv_def results_ok_def e by (simp add: comp_def n)
  moreover have "recs_ok (fresh s') (recommendations s')"
    using inv recs_ok_mono [OF _ e(8), of "map (reworded g) (recommendations s)"]
    unfolding assess_inv_def recs_ok_def e by (simp add: comp_def w)
  moreover have "desk s' st" for st
  proof -
    have recs: "recs_of s' st = map (reworded g) (recs_of s st)" by (simp add: recs_of_def e filter_map comp_def w)
    have "ranked cs (recs_of s' st)" if "ranked cs (recs_of s st)" for cs
      unfolding recs by (rule ranked_map [OF that]) (simp_all add: reworded_def)
    moreover have "desk s st" using inv by (simp add: assess_inv_def)
    ultimately show ?thesis
      unfolding desk_def latest_narrated [OF e(1,3)] desk_ok_def
      by (auto simp: n health_of_def history_of_def signals_of_def e recs split: option.splits)
  qed
  ultimately have "assess_inv s'"
    using inv assessments_ok_mono [OF _ e(8)] by (simp add: assess_inv_def e)
  moreover have "announced_once s' = announced_once s" by (simp add: announced_once_def e)
  moreover have "finished_kept s s'"
    unfolding finished_kept_def finished_def answered_map_def e by (force simp: n)
  moreover have "decisions_kept (recommendations s) (recommendations s')"
    unfolding decisions_kept_def e by (force simp: w)
  ultimately show ?thesis by (simp add: advances_def)
qed

end
