(* ===== verification/Assess_Histories.thy ===== *)
theory Assess_Histories
  imports Assess_Requests
begin

text \<open>
  What holds along every history of the assessments: how far the answers have come, that a
  questionnaire can always be finished, what a finished one is worth, and that the health score and
  its recommendations follow the latest one.
\<close>

lemma assess_step_advances: "assess_inv s \<Longrightarrow> assess_step stored decode s s' \<Longrightarrow> advances s s'"
  by (erule assess_step.cases) (use serve_assess_advances elsewhere_advances in blast)+

lemma assess_steps_advance: "(assess_step stored decode)\<^sup>*\<^sup>* s s' \<Longrightarrow> assess_inv s \<Longrightarrow> advances s s'"
proof (induction rule: rtranclp_induct)
  case (step y z)
  then show ?case using assess_step_advances [of y stored decode z] advances_trans [of s y z] by (auto simp: advances_def)
qed (rule advances_refl)

lemma assess_start: "no_assessments s \<Longrightarrow> assess_inv s \<and> announced_once s"
  by (simp add: no_assessments_def assess_inv_def assessments_ok_def results_ok_def recs_ok_def open_rows_def desk_def desk_ok_def
      latest_completed_result_def completed_of_def desc_by_def health_of_def history_of_def signals_of_def recs_of_def announced_once_def)

lemma assess_reachable_inv:
  assumes "assess_reachable stored decode s"
  shows "assess_inv s" "announced_once s"
  using assms assess_steps_advance assess_start unfolding assess_reachable_def advances_def by metis+

lemma assess_reachable_steps:
  "assess_reachable stored decode s \<Longrightarrow> (assess_step stored decode)\<^sup>*\<^sup>* s s' \<Longrightarrow> assess_reachable stored decode s'"
  unfolding assess_reachable_def by (meson rtranclp_trans)

lemma finished_graded:
  assumes "assess_inv s" "finished s a r"
  shows "graded (answered_map s a) r"
proof -
  have r: "results_ok (assessments s) (assessment_answers s) (assessment_results s)" using assms(1) by (simp add: assess_inv_def)
  then obtain y where y: "y \<in> set (assessment_results s)" "ar_assessment_id y = as_id a" "graded (answered_map s a) y"
    using assms(2) unfolding results_ok_def finished_def answered_map_in by blast
  then show ?thesis
    using r distinct_mapD [of ar_assessment_id "assessment_results s" r y] assms(2) by (simp add: results_ok_def finished_def)
qed

section \<open>The questionnaire\<close>

text \<open>
  C20: along every history a workspace has at most one assessment in progress; the answers of an
  assessment are, each once and each valid, the ones to the questions its branching has put before
  the current one, whatever happens to the workspace meanwhile; an assessment has a result exactly
  when it is completed, then no question is left and the result is the score of its answers.
\<close>

theorem assessment_histories:
  assumes "assess_reachable stored decode s"
  shows "distinct (map as_startup_id (filter (\<lambda>a. as_status a = AS_in_progress) (assessments s)))
    \<and> (\<forall>a \<in> set (assessments s). \<forall>st.
         distinct (map fst (answered_map s a))
         \<and> fst ` set (answered_map s a) = q_key ` set (asked assessment_bank (answered_map s a) st)
         \<and> (\<forall>q \<in> set (bk_questions assessment_bank). \<forall>v.
              map_of (answered_map s a) (q_key q) = Some v \<longrightarrow> validate_answer q v = Inr ())
         \<and> (as_status a = AS_completed \<longleftrightarrow> (\<exists>r \<in> set (assessment_results s). ar_assessment_id r = as_id a))
         \<and> (\<forall>r \<in> set (assessment_results s). ar_assessment_id r = as_id a \<longrightarrow>
              next_question assessment_bank (answered_map s a) st = None
              \<and> ar_dimension_scores r = sc_dimension_scores (score assessment_bank (answered_map s a) st)
              \<and> ar_overall r = sc_overall (score assessment_bank (answered_map s a) st)))"
proof (intro conjI ballI allI impI)
  note inv = assess_reachable_inv(1) [OF assms]
  have t: "assessments_ok (fresh s) (assessments s) (assessment_answers s)"
    and r: "results_ok (assessments s) (assessment_answers s) (assessment_results s)" using inv by (simp_all add: assess_inv_def)
  show "distinct (map as_startup_id (filter (\<lambda>a. as_status a = AS_in_progress) (assessments s)))"
    using t by (simp add: assessments_ok_def open_rows_def)
  fix a st assume a: "a \<in> set (assessments s)"
  have sheet: "sheet_ok (answered_map s a)" using t a by (simp add: assessments_ok_def answered_map_in)
  then show "distinct (map fst (answered_map s a))" by (simp add: sheet_ok_def)
  show "fst ` set (answered_map s a) = q_key ` set (asked assessment_bank (answered_map s a) st)"
    using sheet in_order_startup [OF assessment_bank_ordered, of "answered_map s a" any_startup st]
    by (simp add: sheet_ok_def in_order_def)
  show "validate_answer q v = Inr ()"
    if "q \<in> set (bk_questions assessment_bank)" "map_of (answered_map s a) (q_key q) = Some v" for q v
    using sheet that by (simp add: sheet_ok_def valid_answers_def)
  have one: "b = a" if "b \<in> set (assessments s)" "as_id b = as_id a" for b
    using t distinct_mapD [of as_id "assessments s" b a] a that by (simp add: assessments_ok_def)
  have complete: "as_status a = AS_completed" if "x \<in> set (assessment_results s)" "ar_assessment_id x = as_id a" for x
    using r one that unfolding results_ok_def by metis
  show "as_status a = AS_completed \<longleftrightarrow> (\<exists>x \<in> set (assessment_results s). ar_assessment_id x = as_id a)"
    using r a complete unfolding results_ok_def by blast
  fix x assume x: "x \<in> set (assessment_results s)" "ar_assessment_id x = as_id a"
  have g: "graded (answered_map s a) x"
    using finished_graded [OF inv, of a x] a x complete [OF x] by (simp add: finished_def)
  show "next_question assessment_bank (answered_map s a) st = None"
    using g bank_next [of "answered_map s a" st any_startup] by (simp add: graded_def)
  show "ar_dimension_scores x = sc_dimension_scores (score assessment_bank (answered_map s a) st)"
    "ar_overall x = sc_overall (score assessment_bank (answered_map s a) st)"
    using g bank_score [of "answered_map s a" st any_startup] by (simp_all add: graded_def)
qed

section \<open>Finishing\<close>

text \<open>
  A client that answers whatever question comes next, \<open>pick\<close> being its answers, and stops after \<open>n\<close>.
\<close>

fun answer_all :: "(question \<Rightarrow> json) \<Rightarrow> nat \<Rightarrow> instant \<Rightarrow> uid \<Rightarrow> membership \<Rightarrow> 'a assess_db_scheme \<Rightarrow> 'a assess_db_scheme" where
  "answer_all pick 0 now i m s = s"
| "answer_all pick (Suc n) now i m s =
     (case assessment_startup s m i of
        Inl e \<Rightarrow> s
      | Inr (a, st) \<Rightarrow>
          (case next_question assessment_bank (answered_map s a) st of
             None \<Rightarrow> s
           | Some q \<Rightarrow> answer_all pick n now i m (snd (post_answer now i (q_key q) (pick q) m s))))"

definition first_answer :: "question \<Rightarrow> json" where
  "first_answer q =
     (case q_type q of
        QT_single_choice \<Rightarrow> JStr (hd (option_values q))
      | QT_multi_choice \<Rightarrow> JList [JStr (hd (option_values q))]
      | QT_scale_1_5 \<Rightarrow> JInt 3
      | QT_numeric_currency \<Rightarrow> JInt 0
      | QT_short_text \<Rightarrow> JStr ''-'')"

lemma first_answer_valid: "q \<in> set (bk_questions assessment_bank) \<Longrightarrow> validate_answer q (first_answer q) = Inr ()"
proof -
  have "list_all (\<lambda>q. validate_answer q (first_answer q) = Inr ()) (bk_questions assessment_bank)" by code_simp
  then show "q \<in> set (bk_questions assessment_bank) \<Longrightarrow> validate_answer q (first_answer q) = Inr ()" by (simp add: list_all_iff)
qed

lemma assessment_startupD:
  "assessment_startup s m i = Inr (a, st) \<Longrightarrow> a \<in> set (assessments s) \<and> as_id a = i \<and> as_startup_id a = st_id st"
  by (auto simp: assessment_startup_def find_assessment_def startup_row_def startup_by_id_def
      dest!: find_SomeD split: sum.splits option.splits)

lemma assessment_startup_frame:
  "assessments s' = assessments s \<Longrightarrow> startups s' = startups s \<Longrightarrow> assessment_startup s' m i = assessment_startup s m i"
proof -
  assume "assessments s' = assessments s" "startups s' = startups s"
  then have "find_assessment s' m i = find_assessment s m i" "startup_row s' m = startup_row s m"
    by (simp_all add: find_assessment_def startup_row_def startup_by_id_def)
  then show "assessment_startup s' m i = assessment_startup s m i" by (simp add: assessment_startup_def split: sum.split)
qed

lemma submit_next:
  assumes "as_status a = AS_in_progress" "next_question assessment_bank (answered_map s a) st = Some q" "validate_answer q v = Inr ()"
  shows "\<exists>nq s'. submit_answer now a st (q_key q) v s = (Inr nq, s')"
  using assms by (simp add: submit_answer_def Let_def)

lemma answer_all_finishes:
  assumes "assess_inv s" "assessment_startup s m i = Inr (a, st)" "as_status a = AS_in_progress"
    and "unanswered assessment_bank (answered_map s a) \<le> n"
    and good: "\<forall>q \<in> set (bk_questions assessment_bank). validate_answer q (pick q) = Inr ()"
  shows "assess_inv (answer_all pick n now i m s)
    \<and> assessment_startup (answer_all pick n now i m s) m i = Inr (a, st)
    \<and> upcoming (answered_map (answer_all pick n now i m s) a) = None"
  using assms(1-4)
proof (induction n arbitrary: s)
  case 0
  then show ?case by (simp add: unanswered_0)
next
  case (Suc n)
  note a = assessment_startupD [OF Suc.prems(2), THEN conjunct1]
  show ?case
  proof (cases "next_question assessment_bank (answered_map s a) st")
    case None
    then show ?thesis using Suc.prems bank_next [of "answered_map s a" st any_startup] by simp
  next
    case (Some q)
    then have q: "q \<in> set (bk_questions assessment_bank)" by (rule next_questionD)
    obtain nq s' where sub: "submit_answer now a st (q_key q) (pick q) s = (Inr nq, s')"
      using submit_next [OF Suc.prems(3) Some] good q by blast
    have post: "post_answer now i (q_key q) (pick q) m s = (Inr (serialize_question nq), s')"
      using Suc.prems(2) sub by (simp add: post_answer_def)
    let ?row = "\<lparr>aa_id = fresh s, aa_assessment_id = as_id a, aa_question_key = q_key q, aa_value = pick q, aa_answered_at = now\<rparr>"
    obtain s': "s' = s\<lparr>fresh := Suc (fresh s), assessment_answers := assessment_answers s @ [?row]\<rparr>"
      and ans: "answered_map s' a = answered_map s a @ [(q_key q, pick q)]"
      by (rule submit_answer_ok [OF Suc.prems(1) a sub]) simp
    have "assessment_startup s' m i = Inr (a, st)"
      using Suc.prems(2) assessment_startup_frame [of s' s m i] by (simp add: s')
    moreover have "unanswered assessment_bank (answered_map s' a) \<le> n"
      using unanswered_less [OF Some, of "answered_map s' a"] Suc.prems(4) by (simp add: ans)
    ultimately show ?thesis
      using Suc.IH [of s'] submit_answer_keeps [OF Suc.prems(1) a sub] Suc.prems(2,3) Some post by simp
  qed
qed

text \<open>
  C21: a questionnaire in progress can always be finished: whatever a founder answers to the question
  that comes next, as long as each answer is one the question admits (and every question admits one),
  after at most eleven answers no question is left and the completion is granted.
\<close>

theorem questionnaire_finishes:
  assumes "assess_reachable stored decode s" "assessment_startup s m i = Inr (a, st)" "as_status a = AS_in_progress"
    and "\<forall>q \<in> set (bk_questions assessment_bank). validate_answer q (pick q) = Inr ()"
    and "as_type a = AT_initial \<Longrightarrow> st_profile st \<noteq> None"
  shows "get_next_question i m (answer_all pick 11 now i m s) = Inr None
    \<and> (\<exists>c s'. post_complete_assessment now i u m (answer_all pick 11 now i m s) = (Inr c, s'))"
proof -
  let ?s = "answer_all pick 11 now i m s"
  have "unanswered assessment_bank (answered_map s a) \<le> length (bk_questions assessment_bank)"
    by (simp add: unanswered_def count_where_def)
  also have "length (bk_questions assessment_bank) = 11" by code_simp
  finally have all: "assess_inv ?s \<and> assessment_startup ?s m i = Inr (a, st) \<and> upcoming (answered_map ?s a) = None"
    by (rule answer_all_finishes [OF assess_reachable_inv(1) [OF assms(1)] assms(2,3) _ assms(4)])
  then have d: "a \<in> set (assessments ?s)" "as_startup_id a = st_id st" using assessment_startupD by metis+
  have "\<exists>c b s'. complete_assessment now a st ?s = (Inr (c, b), s')"
    by (rule complete_cases [OF all [THEN conjunct1] d, of now]) (use all assms(3,5) in auto)
  then have "\<exists>c s'. post_complete_assessment now i u m ?s = (Inr c, s')"
    using all by (auto simp: post_complete_assessment_def)
  moreover have "get_next_question i m ?s = Inr None"
    using all bank_next [of "answered_map ?s a" st any_startup] by (simp add: get_next_question_def serialize_question_def)
  ultimately show ?thesis by blast
qed

section \<open>Answering\<close>

definition unhashable :: "json \<Rightarrow> bool" where
  "unhashable v = (case v of JList _ \<Rightarrow> True | JObj _ \<Rightarrow> True | _ \<Rightarrow> False)"

lemma validate_cases:
  assumes "q_type q \<noteq> QT_multi_choice"
  shows "validate_answer q v = (if q_type q = QT_single_choice \<and> unhashable v then Inl (Uncaught ''TypeError'')
    else if validate_answer q v = Inr () then Inr () else Inl invalid_answer)"
  using assms by (cases v; cases "q_type q") (simp_all add: validate_answer_def in_options_def unhashable_def)

lemma bank_no_multi: "q \<in> set (bk_questions assessment_bank) \<Longrightarrow> q_type q \<noteq> QT_multi_choice"
proof -
  have "list_all (\<lambda>q. q_type q \<noteq> QT_multi_choice) (bk_questions assessment_bank)" by code_simp
  then show "q \<in> set (bk_questions assessment_bank) \<Longrightarrow> q_type q \<noteq> QT_multi_choice" by (simp add: list_all_iff)
qed

text \<open>
  C22: an answer is accepted exactly when the assessment is in progress, it answers the question that
  comes next and is one that question admits; it is then the next row of the assessment's answers.
  Any other answer is refused as invalid and stores nothing, except that a list or an object sent for
  a single choice is not refused but fails the request.
\<close>

theorem answer_spec:
  assumes "assess_reachable stored decode s" "assessment_startup s m i = Inr (a, st)"
  shows "case next_question assessment_bank (answered_map s a) st of
      None \<Rightarrow> post_answer now i k v m s = (Inl invalid_answer, s)
    | Some q \<Rightarrow>
        if as_status a \<noteq> AS_in_progress \<or> k \<noteq> q_key q then post_answer now i k v m s = (Inl invalid_answer, s)
        else if q_type q = QT_single_choice \<and> unhashable v then post_answer now i k v m s = (Inl (Uncaught ''TypeError''), s)
        else if validate_answer q v = Inr ()
        then (\<exists>s'. post_answer now i k v m s = (Inr (serialize_question (next_question assessment_bank (answered_map s a @ [(k, v)]) st)), s')
               \<and> answered_map s' a = answered_map s a @ [(k, v)])
        else post_answer now i k v m s = (Inl invalid_answer, s)"
proof (cases "next_question assessment_bank (answered_map s a) st")
  case None
  then show ?thesis using assms(2) by (simp add: post_answer_def submit_answer_def)
next
  case (Some q)
  have q: "q \<in> set (bk_questions assessment_bank)" using Some by (rule next_questionD)
  have inv: "assess_inv s" using assms(1) by (rule assess_reachable_inv)
  show ?thesis
  proof (cases "as_status a = AS_in_progress \<and> k = q_key q \<and> validate_answer q v = Inr ()")
    case True
    obtain nq s' where sub: "submit_answer now a st k v s = (Inr nq, s')"
      using submit_next [of a s st q v now] Some True by blast
    obtain "nq = upcoming (answered_map s' a)" "answered_map s' a = answered_map s a @ [(k, v)]"
      by (rule submit_answer_ok [OF inv assessment_startupD [OF assms(2), THEN conjunct1] sub]) simp
    then show ?thesis
      using True Some sub assms(2) validate_cases [OF bank_no_multi [OF q], of v] bank_next [of "answered_map s' a" any_startup st]
      by (auto simp: post_answer_def)
  next
    case False
    then show ?thesis
      using Some assms(2) validate_cases [OF bank_no_multi [OF q], of v]
      by (cases "validate_answer q v") (auto simp: post_answer_def submit_answer_def split: if_splits)
  qed
qed

section \<open>What a finished assessment is worth\<close>

text \<open>
  C23: a completed assessment is never reopened, answered or scored again: in whatever comes after,
  its answers, its dimension scores and its overall score are those of the moment it was completed,
  its completion has been announced exactly once, and to complete it once more answers the stored
  scores and changes nothing.
\<close>

theorem completed_final:
  assumes "assess_reachable stored decode s" "finished s a r" "(assess_step stored decode)\<^sup>*\<^sup>* s s'"
  shows "answered_map s' a = answered_map s a \<and> completions_of (events s') (as_id a) = 1
    \<and> (\<exists>r'. finished s' a r' \<and> ar_dimension_scores r' = ar_dimension_scores r \<and> ar_overall r' = ar_overall r
         \<and> (\<forall>m now u st. assessment_startup s' m (as_id a) = Inr (a, st) \<longrightarrow>
              post_complete_assessment now (as_id a) u m s' = (Inr (completion_of r'), s')))"
proof -
  have inv: "assess_inv s" by (rule assess_reachable_inv [OF assms(1)])
  note r' = assess_reachable_steps [OF assms(1,3)]
  have adv: "advances s s'" by (rule assess_steps_advance [OF assms(3) inv])
  then obtain x where x: "finished s' a x" "ar_dimension_scores x = ar_dimension_scores r" "ar_overall x = ar_overall r"
    and ans: "answered_map s' a = answered_map s a"
    using assms(2) by (auto simp: advances_def finished_kept_def)
  have once: "completions_of (events s') (as_id a) = 1"
    using assess_reachable_inv(2) [OF r'] x(1) by (auto simp: announced_once_def finished_def)
  have again: "post_complete_assessment now (as_id a) u m s' = (Inr (completion_of x), s')"
    if f: "assessment_startup s' m (as_id a) = Inr (a, st)" for m now u st
  proof -
    note a = assessment_startupD [OF f]
    have one: "y = x" if "y \<in> set (assessment_results s')" "ar_assessment_id y = as_id a" for y
      using assess_reachable_inv(1) [OF r'] distinct_mapD [of ar_assessment_id "assessment_results s'" y x] that x(1)
      by (simp add: assess_inv_def results_ok_def finished_def)
    have "upcoming (answered_map s' a) = None"
      using finished_graded [OF assess_reachable_inv(1) [OF r'] x(1)] by (simp add: graded_def)
    moreover have "as_status a = AS_completed" using x(1) by (simp add: finished_def)
    moreover have "a \<in> set (assessments s')" "as_startup_id a = st_id st" using a by simp_all
    ultimately have "complete_assessment now a st s' = (Inr (completion_of x, False), s')"
      using one by (rule_tac complete_cases [OF assess_reachable_inv(1) [OF r'], of a st now]) simp_all
    then show ?thesis using f by (simp add: post_complete_assessment_def)
  qed
  show ?thesis using ans once x again by blast
qed

lemma py_round_div_scale: "0 < k \<Longrightarrow> py_round_div (k * a) (k * b) = py_round_div a b"
  by (simp add: py_round_div_def Let_def mult_less_cancel_left mult.left_commute [of 2 k])

lemma score_of: "map_of (sc_dimension_scores (score bank a st)) (dimension_value d) = Some (dimension_score bank a st d)"
  by (cases d) (simp_all add: score_def Let_def all_dimensions_def)

lemma graded_scores:
  assumes "graded a r"
  shows "ar_dimension_scores r = map (\<lambda>d. (dimension_value d, dimension_score assessment_bank a st d)) all_dimensions"
    and "current_scores r = ar_dimension_scores r" and "weighted_overall (ar_dimension_scores r) = ar_overall r"
    and "0 \<le> ar_overall r \<and> ar_overall r \<le> 100"
proof -
  let ?f = "dimension_score assessment_bank a st"
  show ds: "ar_dimension_scores r = map (\<lambda>d. (dimension_value d, ?f d)) all_dimensions"
    using assms bank_score [of a any_startup st] by (simp add: graded_def score_def Let_def)
  then show "current_scores r = ar_dimension_scores r"
    by (simp add: current_scores_def all_dimensions_def score_or_50_def)
  have ov: "ar_overall r = py_round_div (sum_list (map ?f all_dimensions)) 5"
    using assms bank_score [of a any_startup st] by (simp add: graded_def score_def Let_def comp_def all_dimensions_def)
  have range: "0 \<le> sum_list (map ?f all_dimensions) \<and> sum_list (map ?f all_dimensions) \<le> 500"
    using dimension_score_range [of assessment_bank a st] by (simp add: all_dimensions_def) (smt (verit))
  then show b: "0 \<le> ar_overall r \<and> ar_overall r \<le> 100"
    using py_round_div_ge [of 5 0] py_round_div_le [of 5 _ 100] by (simp add: ov)
  have "sum_list (map (\<lambda>d. weight_of (dimension_value d) * score_or_50 (ar_dimension_scores r) (dimension_value d)) all_dimensions)
      = 20 * sum_list (map ?f all_dimensions)"
    by (simp add: ds all_dimensions_def weight_of_def dimension_weights_def score_or_50_def)
  then show "weighted_overall (ar_dimension_scores r) = ar_overall r"
    using py_round_div_scale [of 20 _ 5] b by (simp add: weighted_overall_def Let_def ov)
qed

lemma band_for_range:
  "0 \<le> x \<Longrightarrow> x \<le> 100 \<Longrightarrow> \<exists>low high. (low, high, band_for x) \<in> set bands \<and> low \<le> x \<and> x \<le> high"
  by (simp add: band_for_def bands_def)

text \<open>
  C24: the scores of a completed assessment: one for each of the five dimensions, the percentage,
  rounded, of the points the answers that count for the dimension could have earned, so between 0 and
  100, and 100 exactly when each of them earns its maximum; at least one answer counts for every
  dimension, so that the default of 50 is never given; the overall score is the rounded mean.
\<close>

theorem scores_mean:
  assumes "assess_reachable stored decode s" "finished s a r"
  shows "map fst (ar_dimension_scores r) = map dimension_value all_dimensions
    \<and> ar_overall r = py_round_div (sum_list (map snd (ar_dimension_scores r))) 5 \<and> 0 \<le> ar_overall r \<and> ar_overall r \<le> 100
    \<and> (\<forall>d st. let qs = counted assessment_bank (answered_map s a) st d in qs \<noteq> []
         \<and> (\<exists>x. map_of (ar_dimension_scores r) (dimension_value d) = Some x
              \<and> x = percent (nat (sum_list (map (\<lambda>q. points q (answer_of (answered_map s a) q)) qs)))
                      (nat (sum_list (map (\<lambda>q. scoring_get q ''max'') qs)))
              \<and> 0 \<le> x \<and> x \<le> 100
              \<and> (x = 100 \<longleftrightarrow> (\<forall>q \<in> set qs. points q (answer_of (answered_map s a) q) = scoring_get q ''max''))))"
proof -
  have inv: "assess_inv s" by (rule assess_reachable_inv [OF assms(1)])
  then have g: "graded (answered_map s a) r" using finished_graded assms(2) by blast
  have valid: "valid_answers assessment_bank (answered_map s a)"
    using inv assms(2) by (auto simp: assess_inv_def assessments_ok_def finished_def sheet_ok_def answered_map_in)
  have fin: "next_question assessment_bank (answered_map s a) st = None" for st
    using g bank_next [of "answered_map s a" st any_startup] by (simp add: graded_def)
  have ws: "\<forall>q \<in> set (bk_questions assessment_bank). well_scored q" using assessment_bank_well_scored by blast
  note pc = dimension_score_percent [OF valid ws assessment_bank_total]
  have at: "map_of (ar_dimension_scores r) (dimension_value d) = Some (dimension_score assessment_bank (answered_map s a) st d)" for d st
    using g score_of [of assessment_bank "answered_map s a" st d] bank_score [of "answered_map s a" any_startup st]
    by (simp add: graded_def)
  have "ar_overall r = py_round_div (sum_list (map snd (ar_dimension_scores r))) 5"
    using g by (simp add: graded_def score_def Let_def all_dimensions_def)
  moreover have "map fst (ar_dimension_scores r) = map dimension_value all_dimensions"
    using graded_scores(1) [OF g, of any_startup] by (simp add: comp_def)
  ultimately show ?thesis
    using graded_scores(4) [OF g] finished_counts [OF fin] at pc(2,3) [OF finished_counts [OF fin]]
      dimension_score_range [of assessment_bank "answered_map s a"]
    by (simp add: Let_def)
qed

section \<open>The health score\<close>

lemma latest_finished:
  "latest_completed_result s st = Some r \<Longrightarrow> \<exists>a. finished s a r \<and> as_startup_id a = st"
proof -
  assume "latest_completed_result s st = Some r"
  then obtain a rest where "desc_by (\<lambda>(a, r). nulls_last (as_completed_at a)) (completed_of s st) = (a, r) # rest"
    by (auto simp: latest_completed_result_def split: list.splits prod.splits)
  then have "(a, r) \<in> set (desc_by (\<lambda>(a, r). nulls_last (as_completed_at a)) (completed_of s st))" by simp
  then have "(a, r) \<in> set (completed_of s st)" by (simp add: desc_by_def)
  then show ?thesis by (auto simp: completed_of_iff finished_def)
qed

text \<open>
  C25: what is stored of a workspace's health is what its latest completed assessment gives: nothing
  without one; with one, the health score is its overall score (the five equal weights give its
  rounded mean back), the band is the one whose range holds the score, the dimensions, the signals
  and the last point of the history are its dimension scores; computing it anew, at any time, gives
  the same score and band.
\<close>

theorem health_follows:
  assumes "assess_reachable stored decode s"
  shows "case latest_completed_result s st of
      None \<Rightarrow> health_of s st = None \<and> history_of s st = [] \<and> signals_of s st = [] \<and> recs_of s st = []
    | Some r \<Rightarrow> (\<exists>h. health_of s st = Some h \<and> hs_score h = ar_overall r \<and> hs_dimension_scores h = ar_dimension_scores r
        \<and> (\<exists>low high. (low, high, hs_band h) \<in> set bands \<and> low \<le> hs_score h \<and> hs_score h \<le> high)
        \<and> history_of s st \<noteq> [] \<and> hp_score (last (history_of s st)) = ar_overall r
        \<and> hp_dimension_scores (last (history_of s st)) = ar_dimension_scores r
        \<and> map (\<lambda>g. (hg_dimension g, hg_value g)) (signals_of s st) = ar_dimension_scores r
        \<and> (\<exists>h'. health_of (recompute_health_score now st trigger s) st = Some h' \<and> hs_score h' = hs_score h \<and> hs_band h' = hs_band h))"
proof (cases "latest_completed_result s st")
  case None
  then show ?thesis using assess_reachable_inv(1) [OF assms] by (auto simp: assess_inv_def desk_def desk_ok_def dest!: spec [of _ st])
next
  case (Some r)
  have inv: "assess_inv s" by (rule assess_reachable_inv [OF assms])
  obtain a where "finished s a r" using latest_finished [OF Some] by blast
  then have g: "graded (answered_map s a) r" by (rule finished_graded [OF inv])
  let ?s' = "recompute_health_score now st trigger s"
  have ok: "recs_ok (fresh s) (recommendations s)" using inv by (simp add: assess_inv_def)
  note again = recompute_spec [OF ok Some, where now = now and trigger = trigger]
  have "latest_completed_result ?s' st = Some r"
    using latest_frame [OF again(1,3)] Some by simp
  then obtain h' where h': "health_of ?s' st = Some h'" "hs_score h' = weighted_overall (current_scores r)" "hs_band h' = band_for (hs_score h')"
    using again(7) by (auto simp: desk_def desk_ok_def)
  have d: "desk s st" using inv by (simp add: assess_inv_def)
  then obtain h where h: "health_of s st = Some h" "hs_dimension_scores h = current_scores r"
      "hs_score h = weighted_overall (current_scores r)" "hs_band h = band_for (hs_score h)"
    using Some by (auto simp: desk_def desk_ok_def)
  note sc = graded_scores(2,3,4) [OF g]
  show ?thesis
    using Some d h h' sc band_for_range [of "hs_score h"] by (simp add: desk_def desk_ok_def)
qed

text \<open>
  The recommendations of a workspace with a score: at most one of each kind; every entry of the
  catalogue whose dimension is below its threshold has one; a pending one is such an entry, and its
  priority is its rank, the wider weighted gap first and on equal gaps the larger lift; and once the
  founder has accepted or dismissed a recommendation, its decision and its time stay in whatever comes
  after, later assessments included.
\<close>

theorem recommendations_spec:
  assumes "assess_reachable stored decode s" "latest_completed_result s st = Some r"
  defines "cs \<equiv> candidates (ar_dimension_scores r)"
  shows "distinct (map hr_key (recs_of s st))
    \<and> set cs = {c \<in> set catalog_rows. score_or_50 (ar_dimension_scores r) (fst c) < ce_triggers_below (snd c)}
    \<and> sorted_wrt (\<lambda>c d. candidate_rank (ar_dimension_scores r) d \<le> candidate_rank (ar_dimension_scores r) c) cs
    \<and> (\<forall>c \<in> set cs. \<exists>x \<in> set (recs_of s st). hr_key x = ce_key (snd c))
    \<and> (\<forall>x \<in> set (recs_of s st). hr_status x = RS_pending \<longrightarrow>
         (\<exists>k < length cs. hr_key x = ce_key (snd (cs ! k)) \<and> hr_priority x = Suc k \<and> hr_lift x = ce_lift (snd (cs ! k))))
    \<and> (\<forall>x \<in> set (recommendations s). hr_status x \<noteq> RS_pending \<longrightarrow>
         (\<forall>s'. (assess_step stored decode)\<^sup>*\<^sup>* s s' \<longrightarrow> (\<exists>y \<in> set (recommendations s'). hr_id y = hr_id x \<and> hr_key y = hr_key x
            \<and> hr_status y = hr_status x \<and> hr_resolved_at y = hr_resolved_at x)))"
proof (intro conjI)
  have inv: "assess_inv s" by (rule assess_reachable_inv [OF assms(1)])
  have cur: "current_scores r = ar_dimension_scores r"
    using latest_finished [OF assms(2)] finished_graded [OF inv] graded_scores(2) by blast
  show "distinct (map hr_key (recs_of s st))"
  proof -
    have "distinct (map rec_key (recs_of s st))"
      using inv by (simp add: assess_inv_def recs_ok_def recs_of_def distinct_map_filter)
    moreover have "map rec_key (recs_of s st) = map (Pair st) (map hr_key (recs_of s st))"
      by (simp add: rec_key_def recs_of_def)
    ultimately show ?thesis by (metis distinct_map)
  qed
  show "set cs = {c \<in> set catalog_rows. score_or_50 (ar_dimension_scores r) (fst c) < ce_triggers_below (snd c)}"
    unfolding cs_def by (rule set_candidates)
  show "sorted_wrt (\<lambda>c d. candidate_rank (ar_dimension_scores r) d \<le> candidate_rank (ar_dimension_scores r) c) cs"
    unfolding cs_def by (rule candidates_ranked)
  have "ranked cs (recs_of s st)"
  proof -
    have "desk s st" using inv by (simp add: assess_inv_def)
    then show ?thesis using assms(2) by (simp add: desk_def desk_ok_def cs_def cur)
  qed
  then show "\<forall>c \<in> set cs. \<exists>x \<in> set (recs_of s st). hr_key x = ce_key (snd c)"
    "\<forall>x \<in> set (recs_of s st). hr_status x = RS_pending \<longrightarrow>
       (\<exists>k < length cs. hr_key x = ce_key (snd (cs ! k)) \<and> hr_priority x = Suc k \<and> hr_lift x = ce_lift (snd (cs ! k)))"
    unfolding ranked_def by blast+
  show "\<forall>x \<in> set (recommendations s). hr_status x \<noteq> RS_pending \<longrightarrow>
         (\<forall>s'. (assess_step stored decode)\<^sup>*\<^sup>* s s' \<longrightarrow> (\<exists>y \<in> set (recommendations s'). hr_id y = hr_id x \<and> hr_key y = hr_key x
            \<and> hr_status y = hr_status x \<and> hr_resolved_at y = hr_resolved_at x))"
    using assess_steps_advance [OF _ inv] unfolding advances_def decisions_kept_def decision_def by (metis prod.inject)
qed

end
