(* ===== verification/Assess_Samples.thy ===== *)
theory Assess_Samples
  imports Assess_Histories Roadmap_Requests
begin

text \<open>
  A founder takes the kickoff assessment, evaluated: started, answered and completed, at which the
  properties of the assessments and of the health score are witnessed.
\<close>

definition profiled_startup :: startup where
  "profiled_startup = sample_startup\<lparr>st_profile := Some \<lparr>sp_goals = [], sp_notes = None, sp_onboarding_step = 4,
     sp_onboarding_completed_at = Some 3, sp_assessment_pending = True\<rparr>\<rparr>"

definition assess_ground :: "unit assess_db_scheme" where
  "assess_ground = notif_db.extend (empty_notif_db\<lparr>fresh := 40, users := [sample_founder],
       startups := [profiled_startup], memberships := [sample_member 7 MR_founder MS_active]\<rparr>)
     (assess_db.fields [] [] [] [] [] [] [])"

definition assess_call_of :: "assess_request \<Rightarrow> assess_call" where
  "assess_call_of q = \<lparr>aq_credential = Some [], aq_workspace = 9, aq_now = 5, aq_request = q\<rparr>"

definition assess_after :: "assess_request list \<Rightarrow> unit assess_db_scheme" where
  "assess_after qs = foldl (\<lambda>s q. snd (serve_assess (\<lambda>x. x) (\<lambda>_. Some (JUid 7)) (assess_call_of q) s)) assess_ground qs"

lemma assess_after_reachable: "assess_reachable (\<lambda>x. x) (\<lambda>_. Some (JUid 7)) (assess_after qs)"
proof (induction qs rule: rev_induct)
  case Nil
  have "no_assessments assess_ground"
    by (simp add: no_assessments_def assess_ground_def notif_db.defs assess_db.defs empty_notif_db_def)
  then show ?case unfolding assess_reachable_def assess_after_def by auto
next
  case (snoc q qs)
  have "assess_step (\<lambda>x. x) (\<lambda>_. Some (JUid 7)) (assess_after qs) (assess_after (qs @ [q]))"
    unfolding assess_after_def by (simp add: assess_step.request)
  then show ?case by (rule assess_reachable_steps [OF snoc r_into_rtranclp])
qed

definition in_flight :: "unit assess_db_scheme" where
  "in_flight = assess_after [RQ_start, RQ_answer 40 ''product_stage'' (JStr ''idea'')]"

definition answers_of_founder :: "assess_request list" where
  "answers_of_founder = map (\<lambda>(k, v). RQ_answer 40 k v)
     [(''product_stage'', JStr ''idea''), (''market_clarity'', JInt 5), (''market_research'', JStr ''deep''),
      (''has_revenue'', JStr ''no''), (''runway_confidence'', JInt 2), (''incorporated'', JStr ''no''),
      (''team_size'', JStr ''solo''), (''team_confidence'', JInt 4)]"

definition answered_all :: "unit assess_db_scheme" where
  "answered_all = assess_after (RQ_start # answers_of_founder)"

definition taken :: "unit assess_db_scheme" where
  "taken = assess_after (RQ_start # answers_of_founder @ [RQ_complete 40])"

lemmas in_flight_reachable = assess_after_reachable [of "[RQ_start, RQ_answer 40 ''product_stage'' (JStr ''idea'')]", folded in_flight_def]
lemmas taken_reachable = assess_after_reachable [of "RQ_start # answers_of_founder @ [RQ_complete 40]", folded taken_def]

abbreviation founder_of_9 :: membership where
  "founder_of_9 \<equiv> sample_member 7 MR_founder MS_active"

definition open_one :: assessment where
  "open_one = hd (assessments in_flight)"

definition market_question :: question where
  "market_question = bk_questions assessment_bank ! 2"

lemma in_flight_state:
  "assessment_startup in_flight founder_of_9 40 = Inr (open_one, profiled_startup) \<and> as_status open_one = AS_in_progress
   \<and> map_option q_key (next_question assessment_bank (answered_map in_flight open_one) profiled_startup) = Some ''market_clarity''
   \<and> validate_answer market_question (JInt 4) = Inr () \<and> validate_answer market_question (JInt 9) \<noteq> Inr ()
   \<and> next_question assessment_bank (answered_map in_flight open_one) profiled_startup = Some market_question"
  by code_simp

lemmas open_one_found = in_flight_state [THEN conjunct1]

text \<open>The completion is not evaluated, its state follows from the lemmas of the service.\<close>

definition open_two :: assessment where
  "open_two = \<lparr>as_id = 40, as_startup_id = 9, as_type = AT_initial, as_status = AS_in_progress, as_bank_version = ''v1'',
     as_created_by = 7, as_started_at = 5, as_completed_at = None\<rparr>"

definition founder_answers :: answers where
  "founder_answers =
     [(''product_stage'', JStr ''idea''), (''market_clarity'', JInt 5), (''market_research'', JStr ''deep''),
      (''has_revenue'', JStr ''no''), (''runway_confidence'', JInt 2), (''incorporated'', JStr ''no''),
      (''team_size'', JStr ''solo''), (''team_confidence'', JInt 4)]"

lemma answered_all_state:
  "assessments answered_all = [open_two] \<and> answered_map answered_all open_two = founder_answers
   \<and> assessment_startup answered_all founder_of_9 40 = Inr (open_two, profiled_startup) \<and> assessment_results answered_all = []"
  by code_simp

lemma founder_member_request:
  "member_request (\<lambda>_. Some (JUid 7)) (Some []) 9 [MR_founder] body answered_all = body sample_founder founder_of_9 answered_all"
  for body :: "user \<Rightarrow> membership \<Rightarrow> unit assess_db_scheme \<Rightarrow> unit result \<times> unit assess_db_scheme"
  by code_simp

lemma founder_grade:
  "map snd (sc_dimension_scores (grade founder_answers)) = [25, 100, 29, 0, 62] \<and> sc_overall (grade founder_answers) = 43
   \<and> upcoming founder_answers = None"
  by code_simp

definition done_one :: assessment where
  "done_one = completed_row 5 open_two"

definition graded_one :: assessment_result where
  "graded_one = result_for open_two founder_answers"

lemma done_one_facts: "as_id done_one = 40" "as_startup_id done_one = 9" "as_status done_one = AS_completed"
  "as_completed_at done_one = Some 5" "ar_assessment_id graded_one = 40"
  by (simp_all add: done_one_def graded_one_def open_two_def result_for_def)

lemma graded_one_scores: "map snd (ar_dimension_scores graded_one) = [25, 100, 29, 0, 62]" "ar_overall graded_one = 43"
  using founder_grade by (simp_all add: graded_one_def result_for_def)

lemma taken_completes:
  "finished taken done_one graded_one" "assessments taken = [done_one]" "assessment_results taken = [graded_one]"
proof -
  let ?s = answered_all
  have a: "open_two \<in> set (assessments ?s)" "as_startup_id open_two = st_id profiled_startup" "as_status open_two = AS_in_progress"
    using answered_all_state by (simp_all add: open_two_def profiled_startup_def sample_startup_def)
  have st: "upcoming (answered_map ?s open_two) = None" "st_profile profiled_startup \<noteq> None"
    using answered_all_state founder_grade by (simp_all add: profiled_startup_def)
  have "taken = snd (serve_assess (\<lambda>x. x) (\<lambda>_. Some (JUid 7)) (assess_call_of (RQ_complete 40)) ?s)"
    by (simp add: taken_def answered_all_def assess_after_def)
  then have t: "taken = snd (run_tx (post_complete_assessment 5 40 sample_founder founder_of_9) ?s)"
    by (simp add: serve_assess_def assess_call_of_def founder_member_request)
  have inv: "assess_inv ?s" unfolding answered_all_def by (rule assess_reachable_inv [OF assess_after_reachable])
  obtain s' where c: "complete_assessment 5 open_two profiled_startup ?s = (Inr (completion_of graded_one, True), s')" "completes 5 open_two ?s s'"
    by (rule complete_cases [OF inv a(1,2), of 5]) (use a(3) st answered_all_state in \<open>simp_all add: graded_one_def\<close>)
  have t': "assessments taken = assessments s'" "assessment_results taken = assessment_results s'"
    using c(1) answered_all_state by (simp_all add: t run_tx_def post_complete_assessment_def write_activity_def)
  show "assessments taken = [done_one]" "assessment_results taken = [graded_one]"
    using c(2) answered_all_state by (simp_all add: t' completes_def done_one_def graded_one_def update_where_def)
  then show "finished taken done_one graded_one"
    by (simp add: finished_def done_one_facts)
qed

lemma taken_latest: "latest_completed_result taken 9 = Some graded_one"
  by (simp add: latest_completed_result_def completed_of_def desc_by_def taken_completes done_one_facts)

section \<open>Witnesses\<close>

theorem assessment_histories_witness:
  "distinct (map fst (answered_map taken done_one)) \<and> as_status done_one = AS_completed
     \<and> next_question assessment_bank (answered_map taken done_one) profiled_startup = None"
  using assessment_histories [OF taken_reachable] by (simp add: taken_completes done_one_facts)

theorem questionnaire_finishes_witness:
  "get_next_question 40 founder_of_9 (answer_all first_answer 11 6 40 founder_of_9 in_flight) = Inr None
    \<and> (\<exists>c s'. post_complete_assessment 6 40 sample_founder founder_of_9 (answer_all first_answer 11 6 40 founder_of_9 in_flight) = (Inr c, s'))"
proof -
  have "as_status open_one = AS_in_progress" "st_profile profiled_startup \<noteq> None"
    using in_flight_state by (simp_all add: profiled_startup_def)
  then show ?thesis
    by (intro questionnaire_finishes [OF in_flight_reachable open_one_found]) (auto intro: first_answer_valid)
qed

theorem answer_spec_witness:
  "post_answer 6 40 ''market_clarity'' (JInt 9) founder_of_9 in_flight = (Inl invalid_answer, in_flight)
    \<and> (\<exists>s'. post_answer 6 40 ''market_clarity'' (JInt 4) founder_of_9 in_flight
          = (Inr (serialize_question (next_question assessment_bank (answered_map in_flight open_one @ [(''market_clarity'', JInt 4)]) profiled_startup)), s'))
    \<and> is_ok (fst (post_answer 6 40 ''market_clarity'' (JInt 4) founder_of_9 in_flight))"
proof -
  have q: "q_key market_question = ''market_clarity''" "q_type market_question \<noteq> QT_single_choice"
    by (simp_all add: market_question_def assessment_bank_def)
  note spec = answer_spec [OF in_flight_reachable open_one_found, where now = 6 and k = "''market_clarity''"]
  show ?thesis using spec [where v = "JInt 9"] spec [where v = "JInt 4"] q in_flight_state by (auto simp: is_ok_def)
qed

theorem completed_final_witness:
  "completions_of (events taken) 40 = 1 \<and> (\<exists>r. finished taken done_one r \<and> ar_overall r = 43)"
  using completed_final [OF taken_reachable taken_completes(1) rtranclp.rtrancl_refl] graded_one_scores(2)
  unfolding done_one_facts by metis

theorem scores_mean_witness:
  "ar_overall graded_one = py_round_div (25 + 100 + 29 + 0 + 62) 5 \<and> ar_overall graded_one = 43"
  using scores_mean [OF taken_reachable taken_completes(1)] graded_one_scores by simp

theorem health_follows_witness:
  "\<exists>h. health_of taken 9 = Some h \<and> hs_score h = 43 \<and> map snd (hs_dimension_scores h) = [25, 100, 29, 0, 62]"
  using health_follows [OF taken_reachable, of 9 7 "[]"] graded_one_scores by (auto simp: taken_latest)

theorem recommendations_spec_witness:
  "distinct (map hr_key (recs_of taken 9)) \<and> ''legal.incorporate'' \<in> hr_key ` set (recs_of taken 9)"
proof -
  have "list_ex (\<lambda>c. ce_key (snd c) = ''legal.incorporate'') (candidates (ar_dimension_scores graded_one))" by code_simp
  then show ?thesis
    using recommendations_spec [OF taken_reachable taken_latest] by (auto simp: list_ex_iff image_iff) (metis snd_conv)
qed

end
