(* ===== verification/Worker_Queue.thy ===== *)
theory Worker_Queue
  imports Tenancy
begin

text \<open>
  The worker's queue (\<^verbatim>\<open>app/worker/runner.py\<close>, \<^verbatim>\<open>app/api/v1/endpoints/jobs.py\<close>): claiming a batch,
  running each job in a savepoint of its own, retrying with backoff. The handlers are an argument, by
  the type of the job, and \<open>text_of\<close> is \<^verbatim>\<open>str\<close> of an exception.
\<close>

section \<open>Settings\<close>

record worker_settings =
  ws_batch_size :: nat
  ws_max_attempts :: int
  ws_stale_seconds :: int

definition worker_defaults :: worker_settings where
  "worker_defaults = \<lparr>ws_batch_size = 10, ws_max_attempts = 5, ws_stale_seconds = 300\<rparr>"

definition backoff_seconds :: "int \<Rightarrow> int" where
  "backoff_seconds attempts = min (30 * 2 ^ nat (attempts - 1)) 3600"

section \<open>Claiming\<close>

definition stale :: "instant \<Rightarrow> int \<Rightarrow> job \<Rightarrow> bool" where
  "stale now stale_seconds j \<longleftrightarrow> j_status j = JS_running \<and> j_updated_at j < now - seconds stale_seconds"

text \<open>The bulk update runs the \<^verbatim>\<open>onupdate\<close> of \<^verbatim>\<open>updated_at\<close>.\<close>

definition reap_stale :: "instant \<Rightarrow> int \<Rightarrow> 'a platform_db_scheme \<Rightarrow> nat \<times> 'a platform_db_scheme" where
  "reap_stale now stale_seconds s =
     (count_where (stale now stale_seconds) (jobs s),
      s\<lparr>jobs := update_where (stale now stale_seconds) (\<lambda>j. j\<lparr>j_status := JS_queued, j_updated_at := now\<rparr>) (jobs s)\<rparr>)"

definition claimable :: "instant \<Rightarrow> job \<Rightarrow> bool" where
  "claimable now j \<longleftrightarrow> j_status j = JS_queued \<and> (case j_run_after j of None \<Rightarrow> True | Some t \<Rightarrow> t \<le> now)"

text \<open>\<open>locked\<close> are the rows other transactions hold, which \<^verbatim>\<open>skip_locked\<close> passes over.\<close>

definition pick_jobs :: "instant \<Rightarrow> uid set \<Rightarrow> nat \<Rightarrow> 'a platform_db_scheme \<Rightarrow> uid list" where
  "pick_jobs now locked n s =
     map j_id (take n (sort_key j_created_at (filter (\<lambda>j. claimable now j \<and> j_id j \<notin> locked) (jobs s))))"

definition mark_running :: "instant \<Rightarrow> uid list \<Rightarrow> 'a platform_db_scheme \<Rightarrow> 'a platform_db_scheme" where
  "mark_running now ids s = s\<lparr>jobs := update_where (\<lambda>j. j_id j \<in> set ids)
     (\<lambda>j. j\<lparr>j_status := JS_running, j_attempts := j_attempts j + 1, j_updated_at := now\<rparr>) (jobs s)\<rparr>"

definition claim_batch :: "instant \<Rightarrow> uid set \<Rightarrow> worker_settings \<Rightarrow> 'a platform_db_scheme \<Rightarrow> uid list \<times> 'a platform_db_scheme" where
  "claim_batch now locked w s =
     (let s1 = snd (reap_stale now (ws_stale_seconds w) s);
          ids = pick_jobs now locked (ws_batch_size w) s1
      in (ids, mark_running now ids s1))"

section \<open>Running\<close>

type_synonym 's handler = "job \<Rightarrow> 's \<Rightarrow> unit result \<times> 's"

definition set_job :: "uid \<Rightarrow> (job \<Rightarrow> job) \<Rightarrow> 'a platform_db_scheme \<Rightarrow> 'a platform_db_scheme" where
  "set_job i f s = s\<lparr>jobs := update_where (\<lambda>j. j_id j = i) f (jobs s)\<rparr>"

definition finalize_success :: "instant \<Rightarrow> job \<Rightarrow> 'a platform_db_scheme \<Rightarrow> 'a platform_db_scheme" where
  "finalize_success now j = set_job (j_id j) (\<lambda>x. x\<lparr>j_status := JS_succeeded, j_error := None, j_updated_at := now\<rparr>)"

definition finalize_failure ::
    "instant \<Rightarrow> worker_settings \<Rightarrow> string \<Rightarrow> job \<Rightarrow> 'a platform_db_scheme \<Rightarrow> 'a platform_db_scheme" where
  "finalize_failure now w msg j =
     set_job (j_id j) (\<lambda>x.
       if j_attempts j < ws_max_attempts w
       then x\<lparr>j_error := Some msg, j_status := JS_queued,
              j_run_after := Some (now + seconds (backoff_seconds (j_attempts j))), j_updated_at := now\<rparr>
       else x\<lparr>j_error := Some msg, j_status := JS_failed, j_updated_at := now\<rparr>)"

definition finalize_terminal_failure :: "instant \<Rightarrow> string \<Rightarrow> job \<Rightarrow> 'a platform_db_scheme \<Rightarrow> 'a platform_db_scheme" where
  "finalize_terminal_failure now msg j =
     set_job (j_id j) (\<lambda>x. x\<lparr>j_error := Some msg, j_status := JS_failed, j_updated_at := now\<rparr>)"

definition no_handler_text :: "string \<Rightarrow> string" where
  "no_handler_text ty = ''no handler for '' @ [CHR 0x27] @ ty @ [CHR 0x27]"

text \<open>
  One turn of the loop of \<^verbatim>\<open>run_once\<close>: the savepoint undoes the writes of a handler that raises. The
  boolean says whether the job succeeded.
\<close>

definition run_job ::
    "(string \<Rightarrow> ('a platform_db_scheme) handler option) \<Rightarrow> (app_error \<Rightarrow> string) \<Rightarrow> worker_settings \<Rightarrow> instant \<Rightarrow> uid
     \<Rightarrow> 'a platform_db_scheme \<Rightarrow> bool \<times> 'a platform_db_scheme" where
  "run_job handlers text_of w now i s =
     (case find (\<lambda>j. j_id j = i) (jobs s) of
        None \<Rightarrow> (False, s)
      | Some j \<Rightarrow>
          (case handlers (j_type j) of
             None \<Rightarrow> (False, finalize_terminal_failure now (no_handler_text (j_type j)) j s)
           | Some h \<Rightarrow>
               (case h j s of
                  (Inl e, _) \<Rightarrow> (False, finalize_failure now w (text_of e) j s)
                | (Inr _, s1) \<Rightarrow> (True, finalize_success now j s1))))"

text \<open>\<open>clock\<close> is the time at which a job of the batch is done.\<close>

fun run_jobs ::
    "(string \<Rightarrow> ('a platform_db_scheme) handler option) \<Rightarrow> (app_error \<Rightarrow> string) \<Rightarrow> worker_settings \<Rightarrow> (uid \<Rightarrow> instant)
     \<Rightarrow> uid list \<Rightarrow> 'a platform_db_scheme \<Rightarrow> 'a platform_db_scheme" where
  "run_jobs handlers text_of w clock [] s = s"
| "run_jobs handlers text_of w clock (i # is) s =
     run_jobs handlers text_of w clock is (snd (run_job handlers text_of w (clock i) i s))"

definition run_once ::
    "(string \<Rightarrow> ('a platform_db_scheme) handler option) \<Rightarrow> (app_error \<Rightarrow> string) \<Rightarrow> worker_settings \<Rightarrow> instant \<Rightarrow> (uid \<Rightarrow> instant)
     \<Rightarrow> 'a platform_db_scheme \<Rightarrow> nat \<times> 'a platform_db_scheme" where
  "run_once handlers text_of w now clock s =
     (let (ids, s1) = claim_batch now {} w s in (length ids, run_jobs handlers text_of w clock ids s1))"

section \<open>The job screen\<close>

definition get_job :: "uid \<Rightarrow> user \<Rightarrow> 'a core_db_scheme \<Rightarrow> job result" where
  "get_job i u s =
     (case find (\<lambda>j. j_id j = i) (jobs s) of
        None \<Rightarrow> Inl NotFound
      | Some j \<Rightarrow>
          (case j_startup_id j of
             None \<Rightarrow> Inl NotFound
           | Some st \<Rightarrow>
               if \<exists>m \<in> set (memberships s). m_user_id m = u_id u \<and> m_startup_id m = st \<and> m_status m = MS_active
               then Inr j else Inl NotFound))"

section \<open>Claims\<close>

lemma reap_jobs: "jobs (snd (reap_stale now k s)) = update_where (stale now k) (\<lambda>j. j\<lparr>j_status := JS_queued, j_updated_at := now\<rparr>) (jobs s)"
  by (simp add: reap_stale_def)

lemma reap_ids [simp]: "map j_id (jobs (snd (reap_stale now k s))) = map j_id (jobs s)"
  by (simp add: reap_jobs map_update_where)

lemma mark_ids [simp]: "map j_id (jobs (mark_running now ids s)) = map j_id (jobs s)"
  by (simp add: mark_running_def map_update_where)

lemma set_job_ids [simp]: "(\<And>x. j_id (f x) = j_id x) \<Longrightarrow> map j_id (jobs (set_job i f s)) = map j_id (jobs s)"
  by (simp add: set_job_def map_update_where)

lemma distinct_map_sort_take: "distinct (map k t) \<Longrightarrow> distinct (map k (take n (sort_key f (filter P t))))"
proof -
  assume "distinct (map k t)"
  then have "distinct (map k (filter P t))" by (rule distinct_map_filter)
  then have "distinct (map k (sort_key f (filter P t)))" by (simp add: distinct_map)
  then show ?thesis by (metis distinct_take take_map)
qed

lemma pick_jobs_distinct: "distinct (map j_id (jobs s)) \<Longrightarrow> distinct (pick_jobs now locked n s)"
  unfolding pick_jobs_def by (rule distinct_map_sort_take)

lemma pick_jobsD: "i \<in> set (pick_jobs now locked n s) \<Longrightarrow> \<exists>j \<in> set (jobs s). j_id j = i \<and> claimable now j \<and> i \<notin> locked"
  unfolding pick_jobs_def by (auto dest!: in_set_takeD)

section \<open>The queue as a map\<close>

definition job_at :: "'a platform_db_scheme \<Rightarrow> uid \<Rightarrow> job option" where
  "job_at s i = find (\<lambda>j. j_id j = i) (jobs s)"

lemma job_atD: "job_at s i = Some j \<Longrightarrow> j \<in> set (jobs s) \<and> j_id j = i"
  unfolding job_at_def by (auto dest: find_SomeD)

definition queue_ok :: "'a platform_db_scheme \<Rightarrow> bool" where
  "queue_ok s \<longleftrightarrow> distinct (map j_id (jobs s)) \<and> ids_below (fresh s) (map j_id (jobs s))"

lemma job_at_row: "queue_ok s \<Longrightarrow> j \<in> set (jobs s) \<Longrightarrow> job_at s (j_id j) = Some j"
  unfolding job_at_def queue_ok_def by (simp add: find_key_unique)

lemma job_at_set_job: "(\<And>x. j_id (f x) = j_id x) \<Longrightarrow>
   job_at (set_job k f s) i = map_option (\<lambda>j. if i = k then f j else j) (job_at s i)"
proof -
  assume keep: "\<And>x. j_id (f x) = j_id x"
  have "job_at (set_job k f s) i = map_option (\<lambda>j. if j_id j = k then f j else j) (job_at s i)"
    unfolding job_at_def set_job_def by (simp add: find_update_where keep)
  then show ?thesis by (cases "job_at s i") (auto dest: job_atD)
qed

definition requeued :: "instant \<Rightarrow> int \<Rightarrow> job \<Rightarrow> job" where
  "requeued now k j = (if stale now k j then j\<lparr>j_status := JS_queued, j_updated_at := now\<rparr> else j)"

definition running :: "instant \<Rightarrow> job \<Rightarrow> job" where
  "running now j = j\<lparr>j_status := JS_running, j_attempts := j_attempts j + 1, j_updated_at := now\<rparr>"

lemma running_simps [simp]:
  "j_id (running now j) = j_id j" "j_status (running now j) = JS_running" "j_attempts (running now j) = j_attempts j + 1"
  by (simp_all add: running_def)

lemma requeued_simps [simp]:
  "j_id (requeued now k j) = j_id j" "j_attempts (requeued now k j) = j_attempts j" "j_created_at (requeued now k j) = j_created_at j"
  by (simp_all add: requeued_def)

lemma job_at_reap: "job_at (snd (reap_stale now k s)) i = map_option (requeued now k) (job_at s i)"
proof -
  have "job_at (snd (reap_stale now k s)) i
      = map_option (\<lambda>j. if stale now k j then j\<lparr>j_status := JS_queued, j_updated_at := now\<rparr> else j) (job_at s i)"
    unfolding job_at_def reap_jobs by (rule find_update_where) simp
  then show ?thesis by (simp add: requeued_def [abs_def])
qed

lemma job_at_mark: "job_at (mark_running now ids s) i = map_option (\<lambda>j. if i \<in> set ids then running now j else j) (job_at s i)"
proof -
  have "job_at (mark_running now ids s) i = map_option (\<lambda>j. if j_id j \<in> set ids then running now j else j) (job_at s i)"
    unfolding job_at_def mark_running_def running_def [abs_def] by (simp add: find_update_where)
  then show ?thesis by (cases "job_at s i") (auto dest: job_atD)
qed

lemma queue_ok_frames [simp]:
  "queue_ok (snd (reap_stale now k s)) = queue_ok s" "queue_ok (mark_running now ids s) = queue_ok s"
  "(\<And>x. j_id (f x) = j_id x) \<Longrightarrow> queue_ok (set_job i f s) = queue_ok s"
  by (simp_all only: queue_ok_def reap_ids mark_ids set_job_ids)
    (simp_all add: reap_stale_def mark_running_def set_job_def)

text \<open>What a claim does to a row.\<close>

lemma claim_batch_at:
  assumes "claim_batch now locked w s = (ids, s')"
  shows "job_at s' i = map_option (\<lambda>j. let j1 = requeued now (ws_stale_seconds w) j in if i \<in> set ids then running now j1 else j1) (job_at s i)"
    and "queue_ok s' = queue_ok s" and "queue_ok s \<Longrightarrow> distinct ids"
    and "queue_ok s \<Longrightarrow> i \<in> set ids \<Longrightarrow> \<exists>j. job_at s i = Some j \<and> claimable now (requeued now (ws_stale_seconds w) j) \<and> i \<notin> locked"
proof -
  let ?s1 = "snd (reap_stale now (ws_stale_seconds w) s)"
  have ids: "ids = pick_jobs now locked (ws_batch_size w) ?s1" and s': "s' = mark_running now ids ?s1"
    using assms by (auto simp: claim_batch_def Let_def)
  show "job_at s' i = map_option (\<lambda>j. let j1 = requeued now (ws_stale_seconds w) j in if i \<in> set ids then running now j1 else j1) (job_at s i)"
    by (cases "job_at s i") (simp_all add: s' job_at_mark job_at_reap Let_def)
  show "queue_ok s' = queue_ok s" by (simp add: s')
  show "queue_ok s \<Longrightarrow> distinct ids" unfolding ids by (rule pick_jobs_distinct) (simp add: queue_ok_def)
  assume ok: "queue_ok s" and i: "i \<in> set ids"
  obtain j where j: "j \<in> set (jobs ?s1)" "j_id j = i" "claimable now j" "i \<notin> locked"
    using pick_jobsD [of i now locked "ws_batch_size w" ?s1] i ids by blast
  then have "job_at ?s1 i = Some j" using job_at_row [of ?s1 j] ok by simp
  then show "\<exists>j. job_at s i = Some j \<and> claimable now (requeued now (ws_stale_seconds w) j) \<and> i \<notin> locked"
    using j by (auto simp: job_at_reap)
qed

section \<open>What handlers may do to the queue\<close>

text \<open>They, and the requests of the application, add queued jobs under new ids and touch no other row.\<close>

definition grows :: "'a platform_db_scheme \<Rightarrow> 'a platform_db_scheme \<Rightarrow> bool" where
  "grows s s' \<longleftrightarrow> fresh s \<le> fresh s' \<and> (\<exists>new. jobs s' = jobs s @ new \<and> distinct (map j_id new)
     \<and> (\<forall>j \<in> set new. fresh s \<le> j_id j \<and> j_id j < fresh s' \<and> j_status j = JS_queued \<and> j_attempts j = 0))"

lemma grows_same: "jobs s' = jobs s \<Longrightarrow> fresh s \<le> fresh s' \<Longrightarrow> grows s s'"
  by (simp add: grows_def)

lemma grows_trans: "grows s t \<Longrightarrow> grows t u \<Longrightarrow> grows s u"
proof -
  assume st: "grows s t" and tu: "grows t u"
  obtain xs where xs: "jobs t = jobs s @ xs" "distinct (map j_id xs)"
      "\<forall>j \<in> set xs. fresh s \<le> j_id j \<and> j_id j < fresh t \<and> j_status j = JS_queued \<and> j_attempts j = 0"
    using st unfolding grows_def by blast
  obtain ys where ys: "jobs u = jobs t @ ys" "distinct (map j_id ys)"
      "\<forall>j \<in> set ys. fresh t \<le> j_id j \<and> j_id j < fresh u \<and> j_status j = JS_queued \<and> j_attempts j = 0"
    using tu unfolding grows_def by blast
  have "fresh s \<le> fresh t" "fresh t \<le> fresh u" using st tu by (simp_all add: grows_def)
  moreover have "distinct (map j_id (xs @ ys))" using xs(2,3) ys(2,3) by fastforce
  ultimately show "grows s u"
    unfolding grows_def using xs(1,3) ys(1,3) by (intro conjI exI [of _ "xs @ ys"]) (simp, simp, simp, force)
qed

lemma grows_enqueue: "grows s (snd (enqueue now ty p st s))"
  unfolding grows_def by (simp add: enqueue_def Let_def)

lemma grows_queue_ok:
  assumes "grows s s'" "queue_ok s" shows "queue_ok s'"
proof -
  obtain new where new: "jobs s' = jobs s @ new" "distinct (map j_id new)" "fresh s \<le> fresh s'"
      "\<forall>j \<in> set new. fresh s \<le> j_id j \<and> j_id j < fresh s' \<and> j_status j = JS_queued \<and> j_attempts j = 0"
    using assms(1) unfolding grows_def by blast
  have "j_id j < fresh s" if "j \<in> set (jobs s)" for j using assms(2) that by (simp add: queue_ok_def ids_below_def)
  then have "distinct (map j_id (jobs s @ new))" using assms(2) new(2,4) by (fastforce simp: queue_ok_def)
  moreover have "ids_below (fresh s') (map j_id (jobs s @ new))"
    using assms(2) new(3,4) by (auto simp: queue_ok_def ids_below_def)
  ultimately show ?thesis using new(1) by (simp add: queue_ok_def)
qed

lemma grows_at:
  assumes "grows s s'"
  shows "job_at s i = Some j \<Longrightarrow> job_at s' i = Some j"
    and "job_at s i = None \<Longrightarrow> job_at s' i = Some j \<Longrightarrow> j_status j = JS_queued \<and> j_attempts j = 0"
proof -
  obtain new where new: "jobs s' = jobs s @ new" "\<forall>j \<in> set new. j_status j = JS_queued \<and> j_attempts j = 0"
    using assms unfolding grows_def by blast
  show "job_at s i = Some j \<Longrightarrow> job_at s' i = Some j" by (simp add: job_at_def new(1) find_append)
  assume "job_at s i = None" "job_at s' i = Some j"
  then have "find (\<lambda>j. j_id j = i) new = Some j" by (simp add: job_at_def new(1) find_append)
  then show "j_status j = JS_queued \<and> j_attempts j = 0" using new(2) by (auto dest: find_SomeD)
qed

end
