(* ===== verification/Worker_Runs.thy ===== *)
theory Worker_Runs
  imports Worker_Queue
begin

text \<open>
  Several workers on one queue (\<^verbatim>\<open>app/worker/runner.py\<close>): between a claim and the end of a job the
  other workers and the application go on, and a worker may die with the jobs it holds.
\<close>

section \<open>Steps\<close>

text \<open>
  The state is the list of the jobs held, with their worker, the ledger of the runs that ended, with
  their outcome, and the database. A claim is \<open>timely\<close> when no job held by a living worker, running or
  still waiting in its batch, is past the window after which it is taken for abandoned. The jobs of a
  batch are all stamped when the batch is claimed, so this asks that the whole batch be finished within
  the window, not each of its jobs. With \<open>careful\<close> every claim is timely; without, claims come at any time.
\<close>

definition timely :: "instant \<Rightarrow> worker_settings \<Rightarrow> (nat \<times> uid) list \<Rightarrow> 'a platform_db_scheme \<Rightarrow> bool" where
  "timely now w held s \<longleftrightarrow> (\<forall>i \<in> snd ` set held. \<forall>j. job_at s i = Some j \<longrightarrow> \<not> stale now (ws_stale_seconds w) j)"

type_synonym 's workers = "(nat \<times> uid) list \<times> (uid \<times> bool) list \<times> 's"

inductive worker_step ::
    "(string \<Rightarrow> ('a platform_db_scheme) handler option) \<Rightarrow> (app_error \<Rightarrow> string) \<Rightarrow> worker_settings \<Rightarrow> bool \<Rightarrow> bool
     \<Rightarrow> ('a platform_db_scheme) workers \<Rightarrow> ('a platform_db_scheme) workers \<Rightarrow> bool"
  for handlers :: "string \<Rightarrow> ('a platform_db_scheme) handler option" and text_of :: "app_error \<Rightarrow> string"
    and w :: worker_settings and careful crashes :: bool where
  claim: "k \<notin> fst ` set held \<Longrightarrow> (careful \<Longrightarrow> timely now w held s) \<Longrightarrow> claim_batch now {} w s = (ids, s')
    \<Longrightarrow> worker_step handlers text_of w careful crashes (held, log, s) (held @ map (Pair k) ids, log, s')"
| finish: "(k, i) \<in> set held \<Longrightarrow> run_job handlers text_of w now i s = (ok, s')
    \<Longrightarrow> worker_step handlers text_of w careful crashes (held, log, s) (remove1 (k, i) held, log @ [(i, ok)], s')"
| crash: "crashes \<Longrightarrow> worker_step handlers text_of w careful crashes (held, log, s) (filter (\<lambda>h. fst h \<noteq> k) held, log, s)"
| elsewhere: "grows s s' \<Longrightarrow> worker_step handlers text_of w careful crashes (held, log, s) (held, log, s')"

inductive_cases worker_stepE: "worker_step handlers text_of w careful crashes (held, log, s) x"

definition runs :: "(uid \<times> bool) list \<Rightarrow> uid \<Rightarrow> nat" where
  "runs log i = count_where (\<lambda>r. fst r = i) log"

definition successes :: "(uid \<times> bool) list \<Rightarrow> uid \<Rightarrow> nat" where
  "successes log i = count_where (\<lambda>r. r = (i, True)) log"

lemma runs_simps [simp]:
  "runs [] i = 0" "runs (log @ [(k, b)]) i = runs log i + (if k = i then 1 else 0)"
  "successes [] i = 0" "successes (log @ [(k, b)]) i = successes log i + (if k = i \<and> b then 1 else 0)"
  by (simp_all add: runs_def successes_def)

lemma no_runs: "\<forall>r \<in> set log. fst r \<noteq> i \<Longrightarrow> runs log i = 0 \<and> successes log i = 0"
  by (auto simp: runs_def successes_def count_where_0_iff)

definition row_ok :: "worker_settings \<Rightarrow> bool \<Rightarrow> uid set \<Rightarrow> (uid \<times> bool) list \<Rightarrow> job \<Rightarrow> bool" where
  "row_ok w crashes hs log j \<longleftrightarrow>
     (let n = int (runs log (j_id j)) + (if j_id j \<in> hs then 1 else 0)
      in successes log (j_id j) = (if j_status j = JS_succeeded then 1 else 0) \<and> n \<le> j_attempts j
         \<and> (j_id j \<in> hs \<longrightarrow> j_status j = JS_running)
         \<and> (\<not> crashes \<longrightarrow> n = j_attempts j \<and> j_attempts j \<le> ws_max_attempts w
              \<and> (j_status j = JS_running \<longrightarrow> j_id j \<in> hs) \<and> (j_status j = JS_queued \<longrightarrow> j_attempts j < ws_max_attempts w)))"

definition workers_inv :: "worker_settings \<Rightarrow> bool \<Rightarrow> ('a platform_db_scheme) workers \<Rightarrow> bool" where
  "workers_inv w crashes x \<longleftrightarrow>
     (case x of (held, log, s) \<Rightarrow>
        queue_ok s \<and> distinct (map snd held) \<and> snd ` set held \<union> fst ` set log \<subseteq> dom (job_at s)
        \<and> (\<forall>i j. job_at s i = Some j \<longrightarrow> row_ok w crashes (snd ` set held) log j))"

lemma workers_invI:
  assumes "queue_ok s" "distinct (map snd held)" "snd ` set held = hs" "hs \<subseteq> dom (job_at s)" "fst ` set log \<subseteq> dom (job_at s)"
    "\<And>i j. job_at s i = Some j \<Longrightarrow> row_ok w crashes hs log j"
  shows "workers_inv w crashes (held, log, s)"
  using assms by (simp add: workers_inv_def)

lemma workers_invD:
  assumes "workers_inv w crashes (held, log, s)"
  shows "queue_ok s" "distinct (map snd held)" "snd ` set held \<subseteq> dom (job_at s)" "fst ` set log \<subseteq> dom (job_at s)"
    "job_at s i = Some j \<Longrightarrow> row_ok w crashes (snd ` set held) log j"
  using assms by (simp_all add: workers_inv_def)

section \<open>The interface of the handlers\<close>

locale job_handlers =
  fixes handlers :: "string \<Rightarrow> ('a platform_db_scheme) handler option"
    and text_of :: "app_error \<Rightarrow> string" and w :: worker_settings
  assumes handler_grows: "handlers ty = Some h \<Longrightarrow> h j s = (Inr v, s') \<Longrightarrow> grows s s'"
    and attempts_pos: "1 \<le> ws_max_attempts w"
begin

text \<open>What a run does to the row of its job; the other rows stay.\<close>

lemma run_job_at:
  assumes s: "queue_ok s" and j: "job_at s i = Some j" and run: "run_job handlers text_of w now i s = (ok, s')"
  shows "queue_ok s'"
    and "\<exists>j'. job_at s' i = Some j' \<and> j_id j' = i \<and> j_attempts j' = j_attempts j
       \<and> (j_status j' = JS_succeeded \<longleftrightarrow> ok) \<and> j_status j' \<noteq> JS_running
       \<and> (j_status j' = JS_queued \<longrightarrow> j_attempts j < ws_max_attempts w)"
    and "k \<noteq> i \<Longrightarrow> job_at s k = Some x \<Longrightarrow> job_at s' k = Some x"
    and "k \<noteq> i \<Longrightarrow> job_at s k = None \<Longrightarrow> job_at s' k = Some x \<Longrightarrow> j_status x = JS_queued \<and> j_attempts x = 0"
proof -
  have i: "j_id j = i" using j by (blast dest: job_atD)
  note at = run_job_def finalize_terminal_failure_def finalize_failure_def finalize_success_def job_at_set_job i
  have f: "find (\<lambda>j. j_id j = i) (jobs s) = Some j" using j by (simp add: job_at_def)
  have all: "queue_ok s' \<and> (\<exists>j'. job_at s' i = Some j' \<and> j_id j' = i \<and> j_attempts j' = j_attempts j
       \<and> (j_status j' = JS_succeeded \<longleftrightarrow> ok) \<and> j_status j' \<noteq> JS_running
       \<and> (j_status j' = JS_queued \<longrightarrow> j_attempts j < ws_max_attempts w))
     \<and> (\<forall>k x. k \<noteq> i \<longrightarrow> job_at s k = Some x \<longrightarrow> job_at s' k = Some x)
     \<and> (\<forall>k x. k \<noteq> i \<longrightarrow> job_at s k = None \<longrightarrow> job_at s' k = Some x \<longrightarrow> j_status x = JS_queued \<and> j_attempts x = 0)"
  proof (cases "handlers (j_type j)")
    case None
    then show ?thesis using run f s j by (auto simp: at)
  next
    case (Some h)
    obtain v s1 where h: "h j s = (v, s1)" by (cases "h j s")
    show ?thesis
    proof (cases v)
      case (Inl e)
      then show ?thesis using run f s j Some h by (auto simp: at)
    next
      case (Inr u)
      have g: "grows s s1" using handler_grows [OF Some] h Inr by blast
      have s': "ok" "s' = finalize_success now j s1" using run f Some h Inr by (simp_all add: run_job_def)
      have "job_at s1 i = Some j" by (rule grows_at(1) [OF g j])
      then show ?thesis
        using grows_queue_ok [OF g s] grows_at [OF g] by (auto simp: s' at)
    qed
  qed
  show "queue_ok s'" using all by blast
  show "\<exists>j'. job_at s' i = Some j' \<and> j_id j' = i \<and> j_attempts j' = j_attempts j
       \<and> (j_status j' = JS_succeeded \<longleftrightarrow> ok) \<and> j_status j' \<noteq> JS_running
       \<and> (j_status j' = JS_queued \<longrightarrow> j_attempts j < ws_max_attempts w)" using all by blast
  show "k \<noteq> i \<Longrightarrow> job_at s k = Some x \<Longrightarrow> job_at s' k = Some x" using all by blast
  show "k \<noteq> i \<Longrightarrow> job_at s k = None \<Longrightarrow> job_at s' k = Some x \<Longrightarrow> j_status x = JS_queued \<and> j_attempts x = 0"
    using all by blast
qed

lemma row_ok_new:
  assumes "j_status j = JS_queued" "j_attempts j = 0" "j_id j \<notin> hs" "j_id j \<notin> fst ` set log"
  shows "row_ok w crashes hs log j"
  using assms no_runs [of log "j_id j"] attempts_pos by (force simp: row_ok_def)

lemma row_ok_requeued:
  assumes "row_ok w crashes hs log j" "j_id j \<in> hs \<Longrightarrow> \<not> stale now k j"
  shows "row_ok w crashes hs log (requeued now k j)"
proof (cases "stale now k j")
  case True
  then have "j_id j \<notin> hs" "j_status j = JS_running" using assms(2) by (auto simp: stale_def)
  then show ?thesis using assms(1) True by (simp add: row_ok_def Let_def requeued_def)
qed (use assms(1) in \<open>simp add: requeued_def\<close>)

lemma row_ok_running:
  assumes "row_ok w crashes hs log j" "claimable now j" "j_id j \<notin> hs" "j_id j \<in> ids"
  shows "row_ok w crashes (hs \<union> ids) log (running now j)"
  using assms by (auto simp: row_ok_def Let_def claimable_def)

lemma row_ok_other: "row_ok w crashes hs log j \<Longrightarrow> j_id j \<notin> ids \<Longrightarrow> row_ok w crashes (hs \<union> ids) log j"
  by (simp add: row_ok_def)

lemma inv_grows:
  assumes "workers_inv w crashes (held, log, s)" "grows s s'"
  shows "workers_inv w crashes (held, log, s')"
proof -
  note inv = workers_invD [OF assms(1)]
  have rows: "row_ok w crashes (snd ` set held) log j" if j: "job_at s' i = Some j" for i j
  proof (cases "job_at s i")
    case None
    have "j_id j = i" using j by (blast dest: job_atD)
    moreover have "i \<notin> snd ` set held" "i \<notin> fst ` set log" using inv(3,4) None by auto
    ultimately show ?thesis using grows_at(2) [OF assms(2) None j] by (intro row_ok_new) auto
  next
    case (Some x)
    then show ?thesis using inv(5) grows_at(1) [OF assms(2) Some] j by simp
  qed
  have "dom (job_at s) \<subseteq> dom (job_at s')" using grows_at(1) [OF assms(2)] by fastforce
  then have "snd ` set held \<subseteq> dom (job_at s')" "fst ` set log \<subseteq> dom (job_at s')" using inv(3,4) by blast+
  then show ?thesis
    by (intro workers_invI [OF grows_queue_ok [OF assms(2) inv(1)] inv(2) refl _ _ rows]) simp_all
qed

lemma inv_finish:
  assumes inv: "workers_inv w crashes (held, log, s)" and h: "(k, i) \<in> set held"
    and run: "run_job handlers text_of w now i s = (ok, s')"
  shows "workers_inv w crashes (remove1 (k, i) held, log @ [(i, ok)], s')"
proof -
  note ok = workers_invD(1,2) [OF inv] and known = workers_invD(3,4) [OF inv] and rows = workers_invD(5) [OF inv]
  have "i \<in> snd ` set held" using h by force
  then obtain j where j: "job_at s i = Some j" using known(1) by auto
  then have i: "j_id j = i" by (blast dest: job_atD)
  note r = run_job_at [OF ok(1) j run]
  have hs: "snd ` set (remove1 (k, i) held) = snd ` set held - {i}"
    using ok(2) h by (induction held) (auto simp: image_iff)
  have new_rows: "row_ok w crashes (snd ` set held - {i}) (log @ [(i, ok)]) x" if x: "job_at s' l = Some x" for l x
  proof (cases "l = i")
    case True
    then obtain "j_id x = i" "j_attempts x = j_attempts j" "j_status x = JS_succeeded \<longleftrightarrow> ok" "j_status x \<noteq> JS_running"
        "j_status x = JS_queued \<longrightarrow> j_attempts j < ws_max_attempts w" using r(2) x by auto
    then show ?thesis using rows [OF j] i \<open>i \<in> snd ` set held\<close> by (auto simp: row_ok_def Let_def split: if_splits)
  next
    case False
    have l: "j_id x = l" using x by (blast dest: job_atD)
    show ?thesis
    proof (cases "job_at s l")
      case None
      then have "l \<notin> snd ` set held" "l \<notin> fst ` set log" using known by auto
      then show ?thesis using r(4) [OF False None x] l False by (intro row_ok_new) auto
    next
      case (Some y)
      then have "x = y" using r(3) [OF False] x by simp
      then show ?thesis using rows [OF Some] l False by (simp add: row_ok_def)
    qed
  qed
  have dom: "dom (job_at s) \<subseteq> dom (job_at s')"
  proof
    fix l assume "l \<in> dom (job_at s)"
    then show "l \<in> dom (job_at s')" using r(2) r(3) [of l] by (cases "l = i") auto
  qed
  have d: "distinct (map snd (remove1 (k, i) held))"
    using ok(2) by (metis distinct_map distinct_remove1 inj_on_subset set_remove1_subset)
  have "snd ` set held - {i} \<subseteq> dom (job_at s')" "insert i (fst ` set log) \<subseteq> dom (job_at s')"
    using known dom j by blast+
  then show ?thesis by (intro workers_invI [OF r(1) d hs _ _ new_rows]) simp_all
qed

lemma inv_claim:
  assumes inv: "workers_inv w crashes (held, log, s)" and time: "timely now w held s"
    and c: "claim_batch now {} w s = (ids, s')"
  shows "workers_inv w crashes (held @ map (Pair k) ids, log, s')"
proof -
  note ok = workers_invD(1,2) [OF inv] and known = workers_invD(3,4) [OF inv] and rows = workers_invD(5) [OF inv]
  note claim = claim_batch_at [OF c]
  have fresh_stale: "\<not> stale now (ws_stale_seconds w) x" if "l \<in> snd ` set held" "job_at s l = Some x" for l x
    using time that unfolding timely_def by blast
  have free: "i \<notin> snd ` set held" if i: "i \<in> set ids" for i
  proof
    assume h: "i \<in> snd ` set held"
    obtain x where x: "job_at s i = Some x" "claimable now (requeued now (ws_stale_seconds w) x)" using claim(4) [OF ok(1) i] by blast
    then have "j_status x = JS_running" using rows [OF x(1)] h job_atD [OF x(1)] by (auto simp: row_ok_def Let_def)
    then show False using x(2) fresh_stale [OF h x(1)] by (simp add: claimable_def requeued_def)
  qed
  have hs: "snd ` set (held @ map (Pair k) ids) = snd ` set held \<union> set ids" by force
  have new_rows: "row_ok w crashes (snd ` set held \<union> set ids) log x'" if x': "job_at s' l = Some x'" for l x'
  proof -
    obtain x where x: "job_at s l = Some x"
      "x' = (if l \<in> set ids then running now (requeued now (ws_stale_seconds w) x) else requeued now (ws_stale_seconds w) x)"
      using x' claim(1) [of l] by (cases "job_at s l") (auto simp: Let_def)
    have l: "j_id x = l" using x(1) by (blast dest: job_atD)
    have r: "row_ok w crashes (snd ` set held) log (requeued now (ws_stale_seconds w) x)"
      using fresh_stale [OF _ x(1)] l by (intro row_ok_requeued rows [OF x(1)]) simp
    show ?thesis
    proof (cases "l \<in> set ids")
      case True
      then have "claimable now (requeued now (ws_stale_seconds w) x)" using claim(4) [OF ok(1) True] x(1) by simp
      then show ?thesis using row_ok_running [OF r, of now "set ids"] x(2) True free [OF True] l by simp
    next
      case False
      then show ?thesis using row_ok_other [OF r, of "set ids"] x(2) l by simp
    qed
  qed
  have dom: "dom (job_at s) \<subseteq> dom (job_at s')" using claim(1) by auto
  have new: "set ids \<subseteq> dom (job_at s)" using claim(4) [OF ok(1)] by blast
  have q: "queue_ok s'" using ok(1) claim(2) by simp
  have d: "distinct (map snd (held @ map (Pair k) ids))" using ok(2) claim(3) [OF ok(1)] free by (auto simp: comp_def)
  have "snd ` set held \<union> set ids \<subseteq> dom (job_at s')" "fst ` set log \<subseteq> dom (job_at s')"
    using subset_trans [OF Un_least [OF known(1) new] dom] subset_trans [OF known(2) dom] by simp_all
  then show ?thesis by (intro workers_invI [OF q d hs _ _ new_rows]) simp_all
qed

lemma inv_crash:
  assumes "workers_inv w True (held, log, s)"
  shows "workers_inv w True (filter (\<lambda>h. fst h \<noteq> k) held, log, s)"
proof -
  let ?held = "filter (\<lambda>h. fst h \<noteq> k) held"
  note inv = workers_invD [OF assms]
  have sub: "snd ` set ?held \<subseteq> snd ` set held" by auto
  have rows: "row_ok w True (snd ` set ?held) log j" if "job_at s i = Some j" for i j
    using inv(5) [OF that] sub by (auto simp: row_ok_def Let_def split: if_splits)
  show ?thesis
    by (intro workers_invI [OF inv(1) _ refl _ _ rows]) (use inv(2,3,4) sub in \<open>auto simp: distinct_map_filter\<close>)
qed

lemma workers_step_inv:
  assumes "worker_step handlers text_of w True crashes x y" "workers_inv w crashes x"
  shows "workers_inv w crashes y"
  using assms by (cases rule: worker_step.cases) (auto intro: inv_claim inv_finish inv_crash inv_grows)

text \<open>A job that succeeded or failed for good is left alone.\<close>

lemma settled_step:
  assumes "worker_step handlers text_of w True crashes (held, log, s) (held', log', s')" "workers_inv w crashes (held, log, s)"
    and j: "job_at s i = Some j" "j_status j \<in> {JS_succeeded, JS_failed}"
  shows "job_at s' i = Some j"
proof -
  note inv = workers_invD [OF assms(2)]
  have claimed: "job_at t i = Some j" if c: "claim_batch now {} w s = (ids, t)" for now ids t
  proof -
    have "\<not> stale now (ws_stale_seconds w) j" using j(2) by (auto simp: stale_def)
    then have same: "requeued now (ws_stale_seconds w) j = j" by (simp add: requeued_def)
    then have "i \<notin> set ids" using claim_batch_at(4) [OF c inv(1), of i] j by (auto simp: claimable_def)
    then show ?thesis using claim_batch_at(1) [OF c, of i] j(1) same by simp
  qed
  have finished: "job_at t i = Some j" if h: "(k, l) \<in> set held" and run: "run_job handlers text_of w now l s = (ok, t)" for k l now ok t
  proof -
    have l: "l \<in> snd ` set held" using h by force
    then obtain x where x: "job_at s l = Some x" using inv(3) by auto
    have "j_status x = JS_running" using inv(5) [OF x] l job_atD [OF x] by (simp add: row_ok_def Let_def)
    then have "i \<noteq> l" using j x by auto
    then show ?thesis using run_job_at(3) [OF inv(1) x run] j(1) by blast
  qed
  show ?thesis
    using assms(1) j(1) by (elim worker_stepE) (auto dest: claimed finished grows_at(1))
qed

lemma workers_steps_inv:
  "(worker_step handlers text_of w True crashes)\<^sup>*\<^sup>* x y \<Longrightarrow> workers_inv w crashes x \<Longrightarrow> workers_inv w crashes y"
  by (induction rule: rtranclp_induct) (blast intro: workers_step_inv)+

lemma settled_steps:
  assumes "(worker_step handlers text_of w True crashes)\<^sup>*\<^sup>* (held, log, s) x" "workers_inv w crashes (held, log, s)"
    and j: "job_at s i = Some j" "j_status j \<in> {JS_succeeded, JS_failed}"
  shows "job_at (snd (snd x)) i = Some j"
  using assms(1)
proof (induction rule: rtranclp_induct)
  case (step y z)
  obtain h l t h' l' t' where yz: "y = (h, l, t)" "z = (h', l', t')" by (cases y; cases z) auto
  then show ?case
    using settled_step [of crashes h l t h' l' t' i j] step workers_steps_inv [OF step(1) assms(2)] j(2) by simp
qed (use j in simp)

lemma workers_start:
  assumes "queue_ok s" "\<forall>j \<in> set (jobs s). j_status j = JS_queued \<and> j_attempts j = 0"
  shows "workers_inv w crashes ([], [], s)"
proof (rule workers_invI)
  fix i j assume "job_at s i = Some j"
  then have "j_status j = JS_queued" "j_attempts j = 0" using assms(2) by (auto dest: job_atD)
  then show "row_ok w crashes {} [] j" by (intro row_ok_new) simp_all
qed (use assms(1) in simp_all)

end

section \<open>Histories of the workers\<close>

definition workers_reachable where
  "workers_reachable handlers text_of w careful crashes x \<longleftrightarrow>
     (\<exists>s. queue_ok s \<and> (\<forall>j \<in> set (jobs s). j_status j = JS_queued \<and> j_attempts j = 0)
        \<and> (worker_step handlers text_of w careful crashes)\<^sup>*\<^sup>* ([], [], s) x)"

lemma workers_reachable_step:
  "workers_reachable handlers text_of w careful crashes x \<Longrightarrow> worker_step handlers text_of w careful crashes x y
   \<Longrightarrow> workers_reachable handlers text_of w careful crashes y"
  unfolding workers_reachable_def by (meson rtranclp.rtrancl_into_rtrancl)

text \<open>What is asked of the handlers: they add jobs to the queue and touch no row of it.\<close>

definition add_jobs_only :: "(string \<Rightarrow> ('a platform_db_scheme) handler option) \<Rightarrow> bool" where
  "add_jobs_only handlers \<longleftrightarrow> (\<forall>ty h j s v s'. handlers ty = Some h \<longrightarrow> h j s = (Inr v, s') \<longrightarrow> grows s s')"

lemma job_handlersI: "add_jobs_only handlers \<Longrightarrow> 1 \<le> ws_max_attempts w \<Longrightarrow> job_handlers handlers w"
  unfolding add_jobs_only_def by unfold_locales blast+

lemma workers_reachable_inv:
  assumes "add_jobs_only handlers" "1 \<le> ws_max_attempts w" "workers_reachable handlers text_of w True crashes x"
  shows "workers_inv w crashes x"
  using assms(3) job_handlers.workers_steps_inv [OF job_handlersI [OF assms(1,2)]]
    job_handlers.workers_start [OF job_handlersI [OF assms(1,2)]]
  unfolding workers_reachable_def by blast

text \<open>
  That claims are timely is exactly what the queue needs: a claim while a held job is past the window
  takes the job from its holder, back into the queue or into the hands of a second worker.
\<close>

lemma untimely_claim:
  assumes "(k, i) \<in> set held" "job_at s i = Some j" "stale now (ws_stale_seconds w) j"
    and "claim_batch now {} w s = (ids, s')"
  shows "i \<in> set ids \<or> (\<exists>j'. job_at s' i = Some j' \<and> j_status j' = JS_queued)"
  using claim_batch_at(1) [OF assms(4), of i] assms(2,3) by (auto simp: Let_def requeued_def)


text \<open>
  When besides no worker dies, a job is run at most as often as the settings allow, and its
  counter of attempts is exactly the number of its runs that ended, and the one in progress.
\<close>

theorem attempts_bounded:
  assumes "add_jobs_only handlers" "1 \<le> ws_max_attempts w"
    and "workers_reachable handlers text_of w True False (held, log, s)" and "job_at s i = Some j"
  shows "j_attempts j \<le> ws_max_attempts w
    \<and> j_attempts j = int (runs log i) + (if i \<in> snd ` set held then 1 else 0)
    \<and> (j_status j = JS_running \<longleftrightarrow> i \<in> snd ` set held)"
  using workers_invD(5) [OF workers_reachable_inv [OF assms(1-3)] assms(4)] job_atD [OF assms(4)]
  by (auto simp: row_ok_def Let_def split: if_splits)

section \<open>A claim\<close>

lemma take_sorted_first:
  assumes "x \<in> set (take n (sort_key f xs))" "y \<in> set xs" "y \<notin> set (take n (sort_key f xs))"
  shows "f x \<le> f y \<and> n \<le> length xs"
proof -
  let ?s = "sort_key f xs"
  have split: "?s = take n ?s @ drop n ?s" by simp
  have y: "y \<in> set (drop n ?s)" using assms(2,3) split by (metis UnE set_append set_sort)
  have "sorted (map f (take n ?s) @ map f (drop n ?s))"
    using sorted_sort_key [of f xs] by (metis split map_append)
  then have "f x \<le> f y" using assms(1) y by (simp add: sorted_append)
  moreover have "drop n ?s \<noteq> []" using y by auto
  ultimately show ?thesis by simp
qed

text \<open>
  A claim takes at most a batch of jobs, each of them due (queued and past its delay, or running
  and abandoned), marks each as running with one more attempt and leaves every other row as it was,
  abandoned ones put back into the queue; when a due job is left, the batch is full and nothing
  younger was taken; and a claim that overlaps another takes none of the rows the other holds.
\<close>

theorem claim_spec:
  assumes "queue_ok s" "claim_batch now locked w s = (ids, s')"
  shows "length ids \<le> ws_batch_size w \<and> distinct ids \<and> set ids \<inter> locked = {}
    \<and> (\<forall>i. job_at s' i = (case job_at s i of None \<Rightarrow> None
         | Some j \<Rightarrow> let j1 = requeued now (ws_stale_seconds w) j in Some (if i \<in> set ids then running now j1 else j1)))
    \<and> (\<forall>i \<in> set ids. \<exists>j. job_at s i = Some j \<and> claimable now (requeued now (ws_stale_seconds w) j)
         \<and> (\<forall>k l. job_at s k = Some l \<longrightarrow> claimable now (requeued now (ws_stale_seconds w) l) \<longrightarrow> k \<notin> set ids \<longrightarrow> k \<notin> locked
              \<longrightarrow> j_created_at j \<le> j_created_at l \<and> length ids = ws_batch_size w))"
proof -
  let ?s1 = "snd (reap_stale now (ws_stale_seconds w) s)"
  let ?due = "filter (\<lambda>j. claimable now j \<and> j_id j \<notin> locked) (jobs ?s1)"
  let ?picked = "take (ws_batch_size w) (sort_key j_created_at ?due)"
  note claim = claim_batch_at [OF assms(2)]
  have ids: "ids = map j_id ?picked" using assms(2) by (auto simp: claim_batch_def pick_jobs_def Let_def)
  have order: "j_created_at j \<le> j_created_at l \<and> length ids = ws_batch_size w"
    if i: "i \<in> set ids" "job_at s i = Some j" and l: "job_at s k = Some l" "claimable now (requeued now (ws_stale_seconds w) l)" "k \<notin> set ids" "k \<notin> locked"
    for i j k l
  proof -
    have j': "job_at ?s1 i = Some (requeued now (ws_stale_seconds w) j)" "job_at ?s1 k = Some (requeued now (ws_stale_seconds w) l)"
      using i(2) l(1) by (simp_all add: job_at_reap)
    obtain p where p: "p \<in> set ?picked" "j_id p = i" using i(1) unfolding ids by auto
    then have "p \<in> set (jobs ?s1)" by (auto dest: in_set_takeD)
    then have pj: "p = requeued now (ws_stale_seconds w) j" using job_at_row [of ?s1 p] assms(1) p(2) j'(1) by simp
    have due: "requeued now (ws_stale_seconds w) l \<in> set ?due" using job_atD [OF j'(2)] l(2,4) by auto
    have "requeued now (ws_stale_seconds w) l \<notin> set ?picked"
    proof
      assume "requeued now (ws_stale_seconds w) l \<in> set ?picked"
      then have "j_id (requeued now (ws_stale_seconds w) l) \<in> j_id ` set ?picked" by (rule imageI)
      then show False using l(3) job_atD [OF j'(2)] unfolding ids set_map by simp
    qed
    then have "j_created_at p \<le> j_created_at (requeued now (ws_stale_seconds w) l) \<and> ws_batch_size w \<le> length ?due"
      using take_sorted_first [OF p(1) due] by blast
    then show ?thesis using ids by (simp add: pj)
  qed
  have at: "job_at s' i = (case job_at s i of None \<Rightarrow> None
       | Some j \<Rightarrow> let j1 = requeued now (ws_stale_seconds w) j in Some (if i \<in> set ids then running now j1 else j1))" for i
    using claim(1) [of i] by (simp add: Let_def split: option.split)
  have "length ids \<le> ws_batch_size w" unfolding ids by simp
  moreover have "set ids \<inter> locked = {}" using claim(4) [OF assms(1)] by blast
  ultimately show ?thesis using claim(3,4) [OF assms(1)] at order by blast
qed

section \<open>A failure\<close>

lemma backoff_range: "1 \<le> a \<Longrightarrow> 30 \<le> backoff_seconds a \<and> backoff_seconds a \<le> 3600"
  unfolding backoff_seconds_def using one_le_power [of "2 :: int" "nat (a - 1)"] by simp

lemma backoff_doubles: "1 \<le> a \<Longrightarrow> backoff_seconds (a + 1) = min (2 * backoff_seconds a) 3600"
proof -
  assume "1 \<le> a"
  then have "nat a = Suc (nat (a - 1))" by simp
  then show ?thesis by (simp add: backoff_seconds_def min_def)
qed

text \<open>
  C27: a handler that raises leaves no trace but in the row of its own job: the error is kept and,
  while attempts are left, the job is queued for half a minute after its first failure, twice as long
  after each further one and at most an hour, before which nobody claims it; at the last attempt, and
  at once when no handler is registered for its type, it fails for good.
\<close>

theorem failure_isolated:
  assumes "queue_ok s" "job_at s i = Some j" "1 \<le> j_attempts j"
    and "handlers (j_type j) = None \<or> (\<exists>h e s1. handlers (j_type j) = Some h \<and> h j s = (Inl e, s1))"
  shows "\<exists>s' j'. run_job handlers text_of w now i s = (False, s') \<and> s' = s\<lparr>jobs := jobs s'\<rparr>
    \<and> (\<forall>k. k \<noteq> i \<longrightarrow> job_at s' k = job_at s k) \<and> job_at s' i = Some j' \<and> j_error j' \<noteq> None \<and> j_attempts j' = j_attempts j
    \<and> (if handlers (j_type j) \<noteq> None \<and> j_attempts j < ws_max_attempts w
       then j_status j' = JS_queued \<and> 30 \<le> backoff_seconds (j_attempts j) \<and> backoff_seconds (j_attempts j) \<le> 3600
         \<and> backoff_seconds (j_attempts j + 1) = min (2 * backoff_seconds (j_attempts j)) 3600
         \<and> (\<forall>t. claimable t j' \<longleftrightarrow> now + seconds (backoff_seconds (j_attempts j)) \<le> t)
       else j_status j' = JS_failed)"
proof -
  have i: "j_id j = i" using assms(2) by (blast dest: job_atD)
  have f: "find (\<lambda>j. j_id j = i) (jobs s) = Some j" using assms(2) by (simp add: job_at_def)
  note b = backoff_range [OF assms(3)] backoff_doubles [OF assms(3)]
  show ?thesis
  proof (cases "handlers (j_type j)")
    case None
    then have "run_job handlers text_of w now i s = (False, finalize_terminal_failure now (no_handler_text (j_type j)) j s)"
      using f by (simp add: run_job_def)
    then show ?thesis using None assms(2)
      by (simp add: finalize_terminal_failure_def i job_at_set_job option.map_ident) (simp add: set_job_def)
  next
    case (Some h)
    then obtain e s1 where "h j s = (Inl e, s1)" using assms(4) by auto
    then have "run_job handlers text_of w now i s = (False, finalize_failure now w (text_of e) j s)"
      using f Some by (simp add: run_job_def)
    then show ?thesis using Some assms(2) b
      by (simp add: finalize_failure_def i job_at_set_job option.map_ident claimable_def) (simp add: set_job_def)
  qed
qed

end
