(* ===== verification/Scheduler.thy ===== *)
theory Scheduler
  imports Worker_Runs Health Mission Claim_Once
begin

text \<open>
  The scheduled tasks (\<^verbatim>\<open>app/worker/scheduler.py\<close>, \<^verbatim>\<open>app/worker/handlers/scheduled.py\<close>): what is due, the
  ledger that lets each task fire once per workspace and period, and the handlers of their jobs.
  \<open>local\<close> is the conversion of an instant to the configured time zone, whose data is not part of the
  source.
\<close>

section \<open>Tables\<close>

text \<open>The text of an id is the id itself.\<close>

record scheduled_run =
  sn_id :: uid
  sn_task_key :: string
  sn_scope_key :: uid
  sn_period_key :: string

record worker_db = mission_db +
  scheduled_runs :: "scheduled_run list"
  assessment_rows :: "assessment list"

record due =
  du_task_key :: string
  du_scope_key :: uid
  du_period_key :: string
  du_job_type :: string
  du_startup_id :: uid
  du_payload :: payload

record local_time =
  lt_year :: int
  lt_month :: int
  lt_day :: int
  lt_hour :: int
  lt_date :: day

section \<open>What is due\<close>

definition mission_gen_hour :: int where
  "mission_gen_hour = 6"

definition quarterly_reassess_days :: int where
  "quarterly_reassess_days = 90"

definition sched_mission :: string where
  "sched_mission = ''scheduled.mission.generate''"

definition sched_overdue :: string where
  "sched_overdue = ''scheduled.roadmap.overdue''"

definition sched_quarterly :: string where
  "sched_quarterly = ''scheduled.assessment.quarterly''"

definition padded :: "nat \<Rightarrow> int \<Rightarrow> string" where
  "padded n k = (let x = show_int k in replicate (n - length x) (CHR ''0'') @ x)"

text \<open>\<^verbatim>\<open>date.isoformat()\<close>.\<close>

definition isoformat :: "local_time \<Rightarrow> string" where
  "isoformat t = padded 4 (lt_year t) @ ''-'' @ padded 2 (lt_month t) @ ''-'' @ padded 2 (lt_day t)"

definition quarter_key :: "local_time \<Rightarrow> string" where
  "quarter_key t = show_int (lt_year t) @ ''-Q'' @ show_int ((lt_month t - 1) div 3 + 1)"

definition active_startup_ids :: "'a core_db_scheme \<Rightarrow> uid list" where
  "active_startup_ids s =
     map st_id (filter (\<lambda>x. st_deleted_at x = None
       \<and> (\<exists>m \<in> set (memberships s). m_startup_id m = st_id x \<and> m_status m = MS_active)) (startups s))"

definition run_claimed :: "'a worker_db_scheme \<Rightarrow> string \<Rightarrow> uid \<Rightarrow> string \<Rightarrow> bool" where
  "run_claimed s task scope period \<longleftrightarrow>
     (\<exists>r \<in> set (scheduled_runs s). sn_task_key r = task \<and> sn_scope_key r = scope \<and> sn_period_key r = period)"

definition startup_payload :: "uid \<Rightarrow> payload" where
  "startup_payload i = [(''startup_id'', JUid i)]"

definition due_missions :: "local_time \<Rightarrow> 'a worker_db_scheme \<Rightarrow> due list" where
  "due_missions t s =
     (if lt_hour t < mission_gen_hour then []
      else map (\<lambda>i. \<lparr>du_task_key = ''mission.generate'', du_scope_key = i, du_period_key = isoformat t,
                    du_job_type = sched_mission, du_startup_id = i, du_payload = startup_payload i\<rparr>)
             (filter (\<lambda>i. \<not> run_claimed s ''mission.generate'' i (isoformat t)) (active_startup_ids s)))"

text \<open>The joins of a milestone to its workspace.\<close>

definition milestone_startup :: "'a roadmap_db_scheme \<Rightarrow> milestone \<Rightarrow> startup option" where
  "milestone_startup s m =
     (case find (\<lambda>p. ph_id p = ms_phase_id m) (phases s) of
        None \<Rightarrow> None
      | Some p \<Rightarrow>
          (case find (\<lambda>r. ro_id r = ph_roadmap_id p) (roadmaps s) of
             None \<Rightarrow> None
           | Some r \<Rightarrow> startup_by_id s (ro_startup_id r)))"

definition is_overdue :: "day \<Rightarrow> 'a roadmap_db_scheme \<Rightarrow> milestone \<Rightarrow> bool" where
  "is_overdue today s m \<longleftrightarrow> (case ms_due_on m of None \<Rightarrow> False | Some d \<Rightarrow> d < today) \<and> ms_status m \<noteq> RM_done
     \<and> (case milestone_startup s m of None \<Rightarrow> False | Some st \<Rightarrow> st_deleted_at st = None)"

definition overdue_rows :: "day \<Rightarrow> 'a worker_db_scheme \<Rightarrow> (uid \<times> uid) list" where
  "overdue_rows today s =
     map (\<lambda>m. (ms_id m, case milestone_startup s m of None \<Rightarrow> 0 | Some st \<Rightarrow> st_id st))
       (filter (\<lambda>m. is_overdue today s m \<and> \<not> run_claimed s ''roadmap.overdue'' (ms_id m) ''once'') (milestones s))"

definition due_overdue_milestones :: "local_time \<Rightarrow> 'a worker_db_scheme \<Rightarrow> due list" where
  "due_overdue_milestones t s =
     map (\<lambda>(m, i). \<lparr>du_task_key = ''roadmap.overdue'', du_scope_key = m, du_period_key = ''once'', du_job_type = sched_overdue,
                  du_startup_id = i, du_payload = startup_payload i @ [(''milestone_id'', JUid m)]\<rparr>)
       (overdue_rows (lt_date t) s)"

text \<open>The grouped query: \<^verbatim>\<open>max\<close> passes over \<^verbatim>\<open>NULL\<close>, and is \<^verbatim>\<open>NULL\<close> of nothing.\<close>

definition last_completed :: "'a worker_db_scheme \<Rightarrow> uid \<Rightarrow> instant option" where
  "last_completed s st =
     (case List.map_filter as_completed_at
         (filter (\<lambda>a. as_startup_id a = st \<and> as_status a = AS_completed) (assessment_rows s)) of
        [] \<Rightarrow> None
      | x # xs \<Rightarrow> Some (foldl max x xs))"

definition due_quarterly :: "instant \<Rightarrow> local_time \<Rightarrow> 'a worker_db_scheme \<Rightarrow> due list" where
  "due_quarterly now t s =
     (let cutoff = now - days quarterly_reassess_days;
          due_ids = map st_id (filter (\<lambda>x. st_deleted_at x = None
            \<and> (case last_completed s (st_id x) of None \<Rightarrow> False | Some l \<Rightarrow> l \<le> cutoff)) (startups s))
      in map (\<lambda>i. \<lparr>du_task_key = ''assessment.quarterly'', du_scope_key = i, du_period_key = quarter_key t,
                  du_job_type = sched_quarterly, du_startup_id = i, du_payload = startup_payload i\<rparr>)
           (filter (\<lambda>i. \<not> (\<exists>a \<in> set (assessment_rows s). as_startup_id a = i \<and> as_status a = AS_in_progress)
              \<and> \<not> run_claimed s ''assessment.quarterly'' i (quarter_key t)) due_ids))"

section \<open>The tick\<close>

text \<open>
  The insertion in a savepoint, under the unique index: the violation is the answer that another has
  claimed.
\<close>

definition claim_run :: "string \<times> uid \<times> string \<Rightarrow> 'a worker_db_scheme \<Rightarrow> bool \<times> 'a worker_db_scheme" where
  "claim_run k s =
     (case k of (task, scope, period) \<Rightarrow>
        if run_claimed s task scope period then (False, s)
        else (let (i, s1) = fresh_id s
              in (True, s1\<lparr>scheduled_runs := scheduled_runs s1 @
                   [\<lparr>sn_id = i, sn_task_key = task, sn_scope_key = scope, sn_period_key = period\<rparr>]\<rparr>)))"

definition due_key :: "due \<Rightarrow> string \<times> uid \<times> string" where
  "due_key d = (du_task_key d, du_scope_key d, du_period_key d)"

fun fire :: "instant \<Rightarrow> due list \<Rightarrow> 'a worker_db_scheme \<Rightarrow> nat \<times> 'a worker_db_scheme" where
  "fire now [] s = (0, s)"
| "fire now (d # ds) s =
     (case claim_run (due_key d) s of
        (False, s1) \<Rightarrow> fire now ds s1
      | (True, s1) \<Rightarrow>
          (let s2 = snd (enqueue now (du_job_type d) (du_payload d) (Some (du_startup_id d)) s1);
               (n, s3) = fire now ds s2
           in (Suc n, s3)))"

definition all_due :: "(instant \<Rightarrow> local_time) \<Rightarrow> instant \<Rightarrow> 'a worker_db_scheme \<Rightarrow> due list" where
  "all_due local now s =
     due_missions (local now) s @ due_overdue_milestones (local now) s @ due_quarterly now (local now) s"

definition scheduler_tick :: "(instant \<Rightarrow> local_time) \<Rightarrow> instant \<Rightarrow> 'a worker_db_scheme \<Rightarrow> nat \<times> 'a worker_db_scheme" where
  "scheduler_tick local now s = fire now (all_due local now s) s"

section \<open>The handlers\<close>

text \<open>\<^verbatim>\<open>uuid.UUID(str(job.payload[key]))\<close>.\<close>

definition payload_uid :: "job \<Rightarrow> string \<Rightarrow> uid result" where
  "payload_uid j k =
     (case map_of (j_payload j) k of
        None \<Rightarrow> Inl (Uncaught ''KeyError'')
      | Some (JUid i) \<Rightarrow> Inr i
      | Some _ \<Rightarrow> Inl (Uncaught ''ValueError''))"

definition payload_get :: "job \<Rightarrow> string \<Rightarrow> json result" where
  "payload_get j k = (case map_of (j_payload j) k of None \<Rightarrow> Inl (Uncaught ''KeyError'') | Some v \<Rightarrow> Inr v)"

text \<open>\<open>today\<close> is the date of the server, \<^verbatim>\<open>date.today()\<close>, whatever the configured time zone.\<close>

definition handle_mission_generate :: "instant \<Rightarrow> day \<Rightarrow> ('a mission_db_scheme) handler" where
  "handle_mission_generate now today j s =
     (case payload_uid j ''startup_id'' of
        Inl e \<Rightarrow> (Inl e, s)
      | Inr i \<Rightarrow>
          (case startup_by_id s i of
             None \<Rightarrow> (Inr (), s)
           | Some st \<Rightarrow>
               (case get_or_generate_today now today (st_id st) s of
                  (None, s1) \<Rightarrow> (Inr (), s1)
                | (Some m, s1) \<Rightarrow>
                    (Inr (), publish now ''mission.ready'' [(''startup_id'', JUid (st_id st)), (''mission_id'', JUid (mi_id m))] s1))))"

definition handle_roadmap_overdue :: "instant \<Rightarrow> ('a roadmap_db_scheme) handler" where
  "handle_roadmap_overdue now j s =
     (case payload_uid j ''milestone_id'' of
        Inl e \<Rightarrow> (Inl e, s)
      | Inr i \<Rightarrow>
          (case find (\<lambda>m. ms_id m = i) (milestones s) of
             None \<Rightarrow> (Inr (), s)
           | Some m \<Rightarrow>
               if ms_status m = RM_done then (Inr (), s)
               else (case payload_get j ''startup_id'' of
                       Inl e \<Rightarrow> (Inl e, s)
                     | Inr v \<Rightarrow>
                         (Inr (), publish now ''roadmap.milestone.overdue''
                            [(''startup_id'', v), (''milestone_id'', JUid (ms_id m))] s))))"

definition handle_assessment_quarterly :: "instant \<Rightarrow> ('a notif_db_scheme) handler" where
  "handle_assessment_quarterly now j s =
     (case payload_get j ''startup_id'' of
        Inl e \<Rightarrow> (Inl e, s)
      | Inr v \<Rightarrow> (Inr (), publish now ''assessment.quarterly.due'' [(''startup_id'', v)] s))"

definition scheduled_handlers :: "instant \<Rightarrow> day \<Rightarrow> string \<Rightarrow> ('a mission_db_scheme) handler option" where
  "scheduled_handlers now today ty =
     (if ty = sched_mission then Some (handle_mission_generate now today)
      else if ty = sched_overdue then Some (handle_roadmap_overdue now)
      else if ty = sched_quarterly then Some (handle_assessment_quarterly now)
      else None)"

section \<open>The handlers only add to the queue\<close>

lemma grows_refl [simp]: "grows s s"
  by (simp add: grows_same)

lemma email_jobs_grows: "grows s (email_jobs st cat now ns s)"
proof (induction ns arbitrary: s)
  case (Cons n ns)
  have "grows s (email_job st cat now n s)" by (simp add: email_job_def grows_enqueue)
  then show ?case using grows_trans [OF _ Cons.IH] by simp
qed simp

lemma publish_grows: "grows s (publish now e p s)"
proof -
  let ?s1 = "s\<lparr>events := events s @ [(e, p)]\<rparr>"
  have s1: "grows s ?s1" by (rule grows_same) simp_all
  have "grows ?s1 s'" if h: "handle now e p ?s1 = Some s'" for s'
  proof (cases "s' = ?s1")
    case False
    then obtain st rows s2 ids cat title where
      c: "create_notifications now ids st e title [] p ?s1 = (rows, s2)" and s': "s' = email_jobs st cat now rows s2"
      using h by (auto simp: handle_def Let_def split: option.splits json.splits if_splits prod.splits)
    have "grows ?s1 s2" using c by (intro grows_same) (auto simp: create_notifications_def Let_def)
    then show ?thesis using grows_trans [OF _ email_jobs_grows] s' by blast
  qed simp
  then show ?thesis
    using s1 grows_trans [OF s1] by (cases "handle now e p ?s1") (simp_all add: publish_def Let_def)
qed

lemma add_copies_grows: "grows s (snd (add_copies m n k cs s))"
proof (induction cs arbitrary: k s)
  case (Cons c cs)
  obtain rid title reason eff where c: "c = (rid, title, reason, eff)" by (cases c)
  have step: "grows s (s\<lparr>fresh := Suc (fresh s), mission_tasks := t\<rparr>)" for t by (rule grows_same) simp_all
  show ?case using grows_trans [OF step Cons.IH] by (simp add: c fresh_id_def Let_def)
qed simp

lemma generate_today_grows: "grows s (snd (get_or_generate_today now today st s))"
proof -
  have new: "grows s (snd (new_mission b st today s))" for b and s :: "'a mission_db_scheme"
    by (rule grows_same) (simp_all add: new_mission_def fresh_id_def Let_def)
  have reason: "grows s (enqueue_mission_reason now m n s)" for m n and s :: "'a mission_db_scheme"
    by (simp add: enqueue_mission_reason_def grows_enqueue)
  show ?thesis
    using grows_trans [OF grows_trans [OF grows_trans [OF new add_copies_grows] add_copies_grows] reason] new
    by (simp add: get_or_generate_today_def case_prod_unfold Let_def split: option.split)
qed

lemma scheduled_handlers_add: "add_jobs_only (scheduled_handlers now today)"
  unfolding add_jobs_only_def
proof (intro allI impI)
  fix ty and h :: "('a mission_db_scheme) handler" and j s v s'
  assume h: "scheduled_handlers now today ty = Some h" "h j s = (Inr v, s')"
  have "grows s (publish now e p (snd (get_or_generate_today now today st s)))" for e p st
    by (rule grows_trans [OF generate_today_grows publish_grows])
  then show "grows s s'"
    using h generate_today_grows [of s now today] publish_grows [of s now]
    by (auto simp: scheduled_handlers_def handle_mission_generate_def handle_roadmap_overdue_def handle_assessment_quarterly_def
        split: if_splits sum.splits option.splits prod.splits) (metis snd_conv)+
qed

interpretation scheduled: job_handlers "scheduled_handlers now today" text_of worker_defaults
  for now today text_of
proof
  fix ty and h :: "('a mission_db_scheme) handler" and j s v s'
  assume "scheduled_handlers now today ty = Some h" "h j s = (Inr v, s')"
  then show "grows s s'" using scheduled_handlers_add [of now today] unfolding add_jobs_only_def by blast
qed (simp add: worker_defaults_def)

section \<open>Once per workspace and period\<close>

definition run_key :: "scheduled_run \<Rightarrow> string \<times> uid \<times> string" where
  "run_key r = (sn_task_key r, sn_scope_key r, sn_period_key r)"

lemma run_claimed_iff: "run_claimed s a b c \<longleftrightarrow> (a, b, c) \<in> run_key ` set (scheduled_runs s)"
  by (auto simp: run_claimed_def run_key_def image_iff)

lemma claim_run_simps:
  "k \<in> run_key ` set (scheduled_runs s) \<Longrightarrow> claim_run k s = (False, s)"
  "k \<notin> run_key ` set (scheduled_runs s) \<Longrightarrow>
     \<exists>r. run_key r = k \<and> claim_run k s = (True, s\<lparr>fresh := Suc (fresh s), scheduled_runs := scheduled_runs s @ [r]\<rparr>)"
proof -
  obtain a b c where k: "k = (a, b, c)" by (cases k)
  show "k \<in> run_key ` set (scheduled_runs s) \<Longrightarrow> claim_run k s = (False, s)"
    by (simp add: k claim_run_def run_claimed_iff)
  assume "k \<notin> run_key ` set (scheduled_runs s)"
  then show "\<exists>r. run_key r = k \<and> claim_run k s = (True, s\<lparr>fresh := Suc (fresh s), scheduled_runs := scheduled_runs s @ [r]\<rparr>)"
    by (intro exI [of _ "\<lparr>sn_id = fresh s, sn_task_key = a, sn_scope_key = b, sn_period_key = c\<rparr>"])
      (simp add: k claim_run_def run_claimed_iff run_key_def fresh_id_def Let_def)
qed

interpretation once_per_period: claim_once claim_run "(=)" "\<lambda>k s. k \<in> run_key ` set (scheduled_runs s)" "\<lambda>_. True"
proof
  fix k i :: "string \<times> uid \<times> string" and s s' :: "'a worker_db_scheme"
  show "k \<in> run_key ` set (scheduled_runs s')" if "k = i" "claim_run i s = (True, s')"
    using that claim_run_simps [of i s] by (cases "i \<in> run_key ` set (scheduled_runs s)") auto
  show "\<not> fst (claim_run i s)" if "k = i" "k \<in> run_key ` set (scheduled_runs s)"
    using that claim_run_simps(1) [of i s] by simp
  show "k \<in> run_key ` set (scheduled_runs (snd (claim_run i s)))" if "k \<in> run_key ` set (scheduled_runs s)"
    using that claim_run_simps [of i s] by (cases "i \<in> run_key ` set (scheduled_runs s)") auto
qed simp

text \<open>
  However claims interleave with each other and with anything that does not delete from the ledger,
  a (task, scope, period) is claimed at most once.
\<close>

lemma claims_once:
  fixes es :: "(string \<times> uid \<times> string, 'a worker_db_scheme) event list"
  assumes "\<forall>f s. Other f \<in> set es \<longrightarrow> run_key ` set (scheduled_runs s) \<subseteq> run_key ` set (scheduled_runs (f s))"
  shows "wins ((=) k) (fst (run_events claim_run es s)) \<le> 1
    \<and> (run_claimed s (fst k) (fst (snd k)) (snd (snd k)) \<longrightarrow> wins ((=) k) (fst (run_events claim_run es s)) = 0)"
proof -
  have "once_per_period.harmless k es" using assms unfolding once_per_period.harmless_def by blast
  then show ?thesis
    using once_per_period.at_most_one_win [OF TrueI] once_per_period.no_wins_when_spent [OF TrueI, of k s es]
    by (simp add: run_claimed_iff)
qed

section \<open>The jobs of interleaved ticks\<close>

text \<open>
  The jobs of the scheduler that are in the queue, in the order they entered it (a finished job stays
  in the table, and nothing else enters jobs of these types).
\<close>

definition job_of :: "job \<Rightarrow> string \<times> payload \<times> uid option" where
  "job_of j = (j_type j, j_payload j, j_startup_id j)"

definition fired_job :: "due \<Rightarrow> string \<times> payload \<times> uid option" where
  "fired_job d = (du_job_type d, du_payload d, Some (du_startup_id d))"

definition scheduled_jobs :: "'a platform_db_scheme \<Rightarrow> (string \<times> payload \<times> uid option) list" where
  "scheduled_jobs s = filter (\<lambda>j. fst j \<in> {sched_mission, sched_overdue, sched_quarterly}) (map job_of (jobs s))"

text \<open>The job that a row of the ledger stands for.\<close>

definition fires :: "scheduled_run \<Rightarrow> string \<times> payload \<times> uid option \<Rightarrow> bool" where
  "fires r j \<longleftrightarrow>
     sn_task_key r = ''mission.generate''
       \<and> j = (sched_mission, startup_payload (sn_scope_key r), Some (sn_scope_key r))
   \<or> sn_task_key r = ''roadmap.overdue'' \<and> sn_period_key r = ''once''
       \<and> (\<exists>i. j = (sched_overdue, startup_payload i @ [(''milestone_id'', JUid (sn_scope_key r))], Some i))
   \<or> sn_task_key r = ''assessment.quarterly''
       \<and> j = (sched_quarterly, startup_payload (sn_scope_key r), Some (sn_scope_key r))"

text \<open>
  Several workers tick at the same time. A worker reads what is due, possibly before the latest
  commits of the others (\<open>seen\<close> is any state), and goes through its list item by item; between two items
  come those of the others and the rest of the application, which touches neither the ledger nor the
  jobs of the scheduler, other than their status. (A tick commits once, at its end; until then the unique
  index makes the claim of another worker on the same key wait. A tick that fails as a whole leaves neither
  rows nor jobs, as if it had not run.)
\<close>

inductive ticking ::
    "(instant \<Rightarrow> local_time) \<Rightarrow> 'a worker_db_scheme \<Rightarrow> (nat \<Rightarrow> instant \<times> due list) \<Rightarrow> 'a worker_db_scheme \<Rightarrow> bool"
  for local :: "instant \<Rightarrow> local_time" and s0 :: "'a worker_db_scheme" where
  idle: "ticking local s0 (\<lambda>_. (0, [])) s0"
| reads: "ticking local s0 ws s \<Longrightarrow> ticking local s0 (ws(k := (now, all_due local now (seen :: ('a worker_db_scheme))))) s"
| item: "ticking local s0 ws s \<Longrightarrow> ws k = (now, d # ds) \<Longrightarrow> ticking local s0 (ws(k := (now, ds))) (snd (fire now [d] s))"
| elsewhere: "ticking local s0 ws s \<Longrightarrow> scheduled_runs s' = scheduled_runs s \<Longrightarrow> scheduled_jobs s' = scheduled_jobs s
    \<Longrightarrow> ticking local s0 ws s'"

lemma fire_split:
  "snd (fire now (d # ds) s) = snd (fire now ds (snd (fire now [d] s)))"
  by (simp add: Let_def case_prod_unfold split: prod.split bool.split)

text \<open>A tick that nobody disturbs is such a history.\<close>

lemma ticking_fire:
  "ticking local s0 ws s \<Longrightarrow> ws k = (now, ds) \<Longrightarrow> ticking local s0 (ws(k := (now, []))) (snd (fire now ds s))"
proof (induction ds arbitrary: ws s)
  case Nil
  then show ?case using fun_upd_triv [of ws k] by simp
next
  case (Cons d ds)
  have "ticking local s0 (ws(k := (now, ds))) (snd (fire now [d] s))" by (rule ticking.item [OF Cons.prems])
  from Cons.IH [OF this fun_upd_same] show ?case by (simp only: fire_split [of now d ds] fun_upd_upd)
qed

lemma ticking_tick:
  "ticking local s0 ws s \<Longrightarrow> ticking local s0 (ws(k := (now, []))) (snd (scheduler_tick local now s))"
  using ticking_fire [OF ticking.reads [where k = k and now = now and seen = s], where k = k] by (simp add: scheduler_tick_def)

lemma due_fires: "d \<in> set (all_due local now s) \<Longrightarrow> run_key r = due_key d \<Longrightarrow> fires r (fired_job d)"
  by (auto simp: all_due_def due_missions_def due_overdue_milestones_def due_quarterly_def Let_def run_key_def due_key_def
      fires_def fired_job_def split: if_splits)

lemma fires_scheduled: "fires r j \<Longrightarrow> fst j \<in> {sched_mission, sched_overdue, sched_quarterly}"
  by (auto simp: fires_def)

text \<open>One item: either it had been claimed and nothing happens, or it enters one row and one job.\<close>

lemma fire_item:
  "due_key d \<in> run_key ` set (scheduled_runs s) \<Longrightarrow> snd (fire now [d] s) = s"
  "due_key d \<notin> run_key ` set (scheduled_runs s) \<Longrightarrow> \<exists>r. run_key r = due_key d
     \<and> scheduled_runs (snd (fire now [d] s)) = scheduled_runs s @ [r]
     \<and> map job_of (jobs (snd (fire now [d] s))) = map job_of (jobs s) @ [fired_job d]"
proof -
  show "due_key d \<in> run_key ` set (scheduled_runs s) \<Longrightarrow> snd (fire now [d] s) = s"
    by (simp add: claim_run_simps(1))
  assume "due_key d \<notin> run_key ` set (scheduled_runs s)"
  then obtain r where r: "run_key r = due_key d"
      "claim_run (due_key d) s = (True, s\<lparr>fresh := Suc (fresh s), scheduled_runs := scheduled_runs s @ [r]\<rparr>)"
    using claim_run_simps(2) [of "due_key d" s] by blast
  then show "\<exists>r. run_key r = due_key d
     \<and> scheduled_runs (snd (fire now [d] s)) = scheduled_runs s @ [r]
     \<and> map job_of (jobs (snd (fire now [d] s))) = map job_of (jobs s) @ [fired_job d]"
    by (intro exI [of _ r]) (simp add: enqueue_def Let_def job_of_def fired_job_def)
qed

lemma ticking_dues: "ticking local s0 ws s \<Longrightarrow> d \<in> set (snd (ws k)) \<Longrightarrow> \<exists>now seen. d \<in> set (all_due local now (seen :: 'a worker_db_scheme))"
  for s0 :: "'a worker_db_scheme"
proof (induction arbitrary: k d rule: ticking.induct)
  case (item ws s l now e ds)
  then show ?case by (cases "k = l") (auto, metis list.set_intros(2) snd_conv)
qed (auto split: if_splits)

text \<open>
  C28: however the ticks of several workers interleave, item by item and each from its own reading
  of what is due, with each other and with the rest of the application: the jobs the scheduler has
  entered into the queue correspond one to one, in order, to the rows it has entered into the
  ledger, each job for the task and the workspace (or milestone) of its row, and no two rows are for
  the same task, workspace (or milestone) and period, nor for one that the ledger had. So a task is
  queued at most once per period.
\<close>

theorem scheduled_once:
  assumes "ticking local s0 ws s"
  shows "\<exists>rs js. scheduled_runs s = scheduled_runs s0 @ rs \<and> scheduled_jobs s = scheduled_jobs s0 @ js
    \<and> list_all2 fires rs js \<and> distinct (map run_key rs)
    \<and> run_key ` set rs \<inter> run_key ` set (scheduled_runs s0) = {}"
  using assms
proof (induction rule: ticking.induct)
  case (item ws s k now d ds)
  then obtain rs js where IH: "scheduled_runs s = scheduled_runs s0 @ rs" "scheduled_jobs s = scheduled_jobs s0 @ js"
      "list_all2 fires rs js" "distinct (map run_key rs)" "run_key ` set rs \<inter> run_key ` set (scheduled_runs s0) = {}"
    by blast
  show ?case
  proof (cases "due_key d \<in> run_key ` set (scheduled_runs s)")
    case True
    then show ?thesis using IH by (simp only: fire_item(1)) blast
  next
    case False
    obtain r where r: "run_key r = due_key d" "scheduled_runs (snd (fire now [d] s)) = scheduled_runs s @ [r]"
        "map job_of (jobs (snd (fire now [d] s))) = map job_of (jobs s) @ [fired_job d]"
      using fire_item(2) [OF False] by blast
    obtain now' and seen :: "'a worker_db_scheme" where "d \<in> set (all_due local now' seen)"
      using ticking_dues [OF item(1), of d k] item(2) by auto
    then have f: "fires r (fired_job d)" using r(1) by (rule due_fires)
    then have "scheduled_jobs (snd (fire now [d] s)) = scheduled_jobs s @ [fired_job d]"
      using fires_scheduled [OF f] r(3) by (simp add: scheduled_jobs_def)
    moreover have "list_all2 fires (rs @ [r]) (js @ [fired_job d])" using IH(3) f by (simp add: list_all2_appendI)
    ultimately show ?thesis
      using IH r(1,2) False by (intro exI [of _ "rs @ [r]"] exI [of _ "js @ [fired_job d]"]) auto
  qed
qed auto

section \<open>A tick\<close>

lemma fire_all:
  assumes "distinct (map due_key ds)" "set (map due_key ds) \<inter> run_key ` set (scheduled_runs s) = {}"
  shows "\<exists>f js rs. fire now ds s = (length ds, s\<lparr>fresh := f, jobs := jobs s @ js, scheduled_runs := scheduled_runs s @ rs\<rparr>)
    \<and> map job_of js = map fired_job ds \<and> map run_key rs = map due_key ds"
  using assms
proof (induction ds arbitrary: s)
  case Nil
  show ?case by (rule exI [of _ "fresh s"], rule exI [of _ "[]"], rule exI [of _ "[]"]) simp
next
  case (Cons d ds)
  obtain r where r: "run_key r = due_key d"
      "claim_run (due_key d) s = (True, s\<lparr>fresh := Suc (fresh s), scheduled_runs := scheduled_runs s @ [r]\<rparr>)"
    using claim_run_simps(2) [of "due_key d" s] Cons.prems(2) by auto
  let ?s1 = "s\<lparr>fresh := Suc (fresh s), scheduled_runs := scheduled_runs s @ [r]\<rparr>"
  let ?j = "new_job (Suc (fresh s)) now (du_job_type d) (du_payload d) (Some (du_startup_id d))"
  let ?s2 = "?s1\<lparr>fresh := Suc (Suc (fresh s)), jobs := jobs s @ [?j]\<rparr>"
  have s2: "snd (enqueue now (du_job_type d) (du_payload d) (Some (du_startup_id d)) ?s1) = ?s2"
    by (simp add: enqueue_def Let_def)
  have "set (map due_key ds) \<inter> run_key ` set (scheduled_runs ?s2) = {}" using Cons.prems r(1) by auto
  then obtain f js rs where ih: "fire now ds ?s2 = (length ds, ?s2\<lparr>fresh := f, jobs := jobs ?s2 @ js, scheduled_runs := scheduled_runs ?s2 @ rs\<rparr>)"
      "map job_of js = map fired_job ds" "map run_key rs = map due_key ds"
    using Cons.IH [of ?s2] Cons.prems(1) by auto
  have "job_of ?j = fired_job d" by (simp add: job_of_def fired_job_def)
  then show ?case
    using ih r s2 by (intro exI [of _ f] exI [of _ "?j # js"] exI [of _ "r # rs"]) simp
qed

lemma claimed_after:
  "scheduled_runs s' = scheduled_runs s @ rs \<Longrightarrow> map run_key rs = map due_key ds
   \<Longrightarrow> run_claimed s' a b c \<longleftrightarrow> run_claimed s a b c \<or> (a, b, c) \<in> due_key ` set ds"
proof -
  assume a: "scheduled_runs s' = scheduled_runs s @ rs" "map run_key rs = map due_key ds"
  have "run_key ` set rs = due_key ` set ds" using a(2) by (metis set_map)
  then show ?thesis by (auto simp: run_claimed_iff a(1))
qed

lemma all_due_distinct:
  assumes "distinct (map st_id (startups s))" "distinct (map ms_id (milestones s))"
  shows "distinct (map due_key (all_due local now s))"
proof -
  have ids: "distinct (active_startup_ids s)" using assms(1) by (simp add: active_startup_ids_def distinct_map_filter)
  have q: "distinct (map st_id (filter P (startups s)))" for P using assms(1) by (simp add: distinct_map_filter)
  have "distinct (map due_key (due_missions (local now) s))"
    using ids by (simp add: due_missions_def due_key_def comp_def distinct_map inj_on_def)
  moreover have "distinct (map due_key (due_overdue_milestones (local now) s))"
  proof -
    have "distinct (map ms_id (filter P (milestones s)))" for P using assms(2) by (simp add: distinct_map_filter)
    then show ?thesis
      by (simp add: due_overdue_milestones_def overdue_rows_def due_key_def comp_def distinct_map inj_on_def)
  qed
  moreover have "distinct (map due_key (due_quarterly now (local now) s))"
    using q by (simp add: due_quarterly_def due_key_def comp_def Let_def distinct_map inj_on_def)
  ultimately show ?thesis
    by (auto simp: all_due_def due_missions_def due_overdue_milestones_def due_quarterly_def due_key_def Let_def)
qed

lemma all_due_unclaimed: "set (map due_key (all_due local now s)) \<inter> run_key ` set (scheduled_runs s) = {}"
proof -
  have "\<not> run_claimed s (du_task_key d) (du_scope_key d) (du_period_key d)" if "d \<in> set (all_due local now s)" for d
    using that by (auto simp: all_due_def due_missions_def due_overdue_milestones_def overdue_rows_def due_quarterly_def Let_def split: if_splits)
  then show ?thesis by (auto simp: run_claimed_iff due_key_def)
qed

lemma mission_due:
  assumes "mission_gen_hour \<le> lt_hour (local now)" "i \<in> set (active_startup_ids s)"
    "\<not> run_claimed s ''mission.generate'' i (isoformat (local now))"
  shows "\<exists>d \<in> set (all_due local now s). due_key d = (''mission.generate'', i, isoformat (local now))"
proof -
  have "\<exists>d \<in> set (due_missions (local now) s). due_key d = (''mission.generate'', i, isoformat (local now))"
    using assms by (simp add: due_missions_def due_key_def)
  then show ?thesis by (auto simp: all_due_def)
qed

lemma due_gone:
  assumes "\<And>a b c. run_claimed s' a b c \<longleftrightarrow> run_claimed s a b c \<or> (a, b, c) \<in> due_key ` set (all_due local now s)"
    and "startups s' = startups s" "memberships s' = memberships s" "milestones s' = milestones s" "phases s' = phases s"
    "roadmaps s' = roadmaps s" "assessment_rows s' = assessment_rows s"
  shows "all_due local now s' = []"
proof -
  have active: "active_startup_ids s' = active_startup_ids s" by (simp add: active_startup_ids_def assms)
  have at: "milestone_startup s' m = milestone_startup s m" for m
    by (simp add: milestone_startup_def startup_by_id_def assms split: option.split)
  have over: "is_overdue d s' m = is_overdue d s m" for d m by (simp add: is_overdue_def at)
  have last: "last_completed s' i = last_completed s i" for i by (simp add: last_completed_def assms)
  have claimed: "run_claimed s' a b c" if "d \<in> set (all_due local now s)" "due_key d = (a, b, c)" for a b c d
    using assms(1) that by (metis image_eqI)
  have "due_missions (local now) s' = []"
  proof (rule ccontr)
    assume "due_missions (local now) s' \<noteq> []"
    then obtain i where i: "mission_gen_hour \<le> lt_hour (local now)" "i \<in> set (active_startup_ids s)"
        "\<not> run_claimed s' ''mission.generate'' i (isoformat (local now))"
      by (auto simp: due_missions_def active filter_empty_conv split: if_splits)
    then have "\<not> run_claimed s ''mission.generate'' i (isoformat (local now))" using assms(1) by blast
    then show False using mission_due [of local now i s] i claimed by blast
  qed
  moreover have "due_overdue_milestones (local now) s' = []"
  proof (rule ccontr)
    assume "due_overdue_milestones (local now) s' \<noteq> []"
    then obtain m where m: "m \<in> set (milestones s)" "is_overdue (lt_date (local now)) s m"
        "\<not> run_claimed s' ''roadmap.overdue'' (ms_id m) ''once''"
      by (auto simp: due_overdue_milestones_def overdue_rows_def over assms(4) filter_empty_conv)
    then have "\<not> run_claimed s ''roadmap.overdue'' (ms_id m) ''once''" using assms(1) by blast
    then have "\<exists>d \<in> set (all_due local now s). due_key d = (''roadmap.overdue'', ms_id m, ''once'')"
      using m by (force simp: all_due_def due_overdue_milestones_def overdue_rows_def due_key_def)
    then show False using claimed m(3) by blast
  qed
  moreover have "due_quarterly now (local now) s' = []"
  proof (rule ccontr)
    assume "due_quarterly now (local now) s' \<noteq> []"
    then obtain d where d: "d \<in> set (due_quarterly now (local now) s')" by (cases "due_quarterly now (local now) s'") auto
    then have "\<not> run_claimed s' (du_task_key d) (du_scope_key d) (du_period_key d)"
      by (auto simp: due_quarterly_def Let_def)
    moreover have "d \<in> set (due_quarterly now (local now) s)"
      using d assms(1) by (auto simp: due_quarterly_def Let_def assms(2,7) last)
    ultimately show False using claimed [of d] by (simp add: all_due_def due_key_def)
  qed
  ultimately show ?thesis by (simp add: all_due_def)
qed

text \<open>
  A tick puts into the queue exactly one job for each task that is due and has not fired in its
  period, in order, and enters each in the ledger; after it every workspace with an active member has
  had its mission fired for the local day, once the hour has come; and a second tick at the same time
  does nothing.
\<close>

theorem tick_spec:
  assumes "distinct (map st_id (startups s))" "distinct (map ms_id (milestones s))"
    and "scheduler_tick local now s = (n, s')"
  shows "n = length (all_due local now s)
    \<and> (\<exists>js. jobs s' = jobs s @ js \<and> map job_of js = map fired_job (all_due local now s))
    \<and> (\<forall>a b c. run_claimed s' a b c \<longleftrightarrow> run_claimed s a b c \<or> (a, b, c) \<in> due_key ` set (all_due local now s))
    \<and> (\<forall>x \<in> set (startups s). \<forall>m \<in> set (memberships s). mission_gen_hour \<le> lt_hour (local now) \<longrightarrow> st_deleted_at x = None
         \<longrightarrow> m_startup_id m = st_id x \<longrightarrow> m_status m = MS_active
         \<longrightarrow> run_claimed s' ''mission.generate'' (st_id x) (isoformat (local now)))
    \<and> scheduler_tick local now s' = (0, s')"
proof -
  obtain f js rs where fire: "(n, s') = (length (all_due local now s),
      s\<lparr>fresh := f, jobs := jobs s @ js, scheduled_runs := scheduled_runs s @ rs\<rparr>)"
    "map job_of js = map fired_job (all_due local now s)" "map run_key rs = map due_key (all_due local now s)"
    using fire_all [OF all_due_distinct [OF assms(1,2), of local now] all_due_unclaimed, of now] assms(3)
    unfolding scheduler_tick_def by metis
  then have s': "s' = s\<lparr>fresh := f, jobs := jobs s @ js, scheduled_runs := scheduled_runs s @ rs\<rparr>" by simp
  have claimed: "run_claimed s' a b c \<longleftrightarrow> run_claimed s a b c \<or> (a, b, c) \<in> due_key ` set (all_due local now s)" for a b c
    by (rule claimed_after [OF _ fire(3)]) (simp add: s')
  have "all_due local now s' = []" by (rule due_gone [OF claimed]) (simp_all add: s')
  then have again: "scheduler_tick local now s' = (0, s')" by (simp add: scheduler_tick_def)
  have mission: "run_claimed s' ''mission.generate'' (st_id x) (isoformat (local now))"
    if "x \<in> set (startups s)" "m \<in> set (memberships s)" "mission_gen_hour \<le> lt_hour (local now)" "st_deleted_at x = None"
      "m_startup_id m = st_id x" "m_status m = MS_active" for x m
  proof (cases "run_claimed s ''mission.generate'' (st_id x) (isoformat (local now))")
    case False
    have "st_id x \<in> set (active_startup_ids s)" "mission_gen_hour \<le> lt_hour (local now)"
      using that by (auto simp: active_startup_ids_def)
    then obtain d where "d \<in> set (all_due local now s)" "due_key d = (''mission.generate'', st_id x, isoformat (local now))"
      using mission_due [of local now "st_id x" s] False by blast
    then show ?thesis using claimed by (metis image_eqI)
  qed (use claimed in blast)
  show ?thesis
    using fire(1,2) s' claimed mission again by (intro conjI allI ballI impI exI [of _ js]) simp_all
qed

text \<open>
  The handler of the mission task asks for the mission of the server's date: when the configured
  time zone is a day ahead of it, the mission announced is the one the workspace had already.
\<close>

lemma mission_of_server_day:
  assumes "payload_uid j ''startup_id'' = Inr i" "startup_by_id s i = Some st" "mission_on s (st_id st) today = Some m"
  shows "handle_mission_generate now today j s
    = (Inr (), publish now ''mission.ready'' [(''startup_id'', JUid (st_id st)), (''mission_id'', JUid (mi_id m))] s)"
  using assms by (simp add: handle_mission_generate_def get_or_generate_today_def)

end
