(* ===== verification/Worker_Samples.thy ===== *)
theory Worker_Samples
  imports Worker_Runs Scheduler Mission_Samples
begin

text \<open>
  What becomes of a job that takes too long, or that kills its worker; and the queue's properties at
  concrete queues.
\<close>

text \<open>One job in the queue, and a handler that succeeds once and then times out.\<close>

definition lone_queue :: platform_db where
  "lone_queue = \<lparr>fresh = 5, events = [], jobs = [new_job 3 0 ''t'' [] None], activity_log = [], audit_log = []\<rparr>"

definition flaky :: "string \<Rightarrow> platform_db handler option" where
  "flaky ty = Some (\<lambda>j s. if fresh s = 5 then (Inr (), s) else (Inl (Uncaught ''TimeoutError''), s))"

definition text_of_error :: "app_error \<Rightarrow> string" where
  "text_of_error e = error_code e"

lemma flaky_adds: "add_jobs_only flaky"
  by (auto simp: add_jobs_only_def flaky_def grows_same split: if_splits)

lemma lone_queue_reachable: "workers_reachable handlers text_of w careful crashes ([], [], lone_queue)"
  unfolding workers_reachable_def
  by (rule exI [of _ lone_queue]) (simp add: lone_queue_def queue_ok_def new_job_def)

definition taken_at :: "instant \<Rightarrow> platform_db \<Rightarrow> platform_db" where
  "taken_at now s = snd (claim_batch now {} worker_defaults s)"

definition ran_at :: "instant \<Rightarrow> platform_db \<Rightarrow> platform_db" where
  "ran_at now s = snd (run_job flaky text_of_error worker_defaults now 3 s)"

definition later_rows :: "platform_db \<Rightarrow> platform_db" where
  "later_rows s = s\<lparr>fresh := 6\<rparr>"

text \<open>
  A bound on the time of each handler is not enough, because the jobs of a batch are run one after
  the other but are all stamped at the claim: with two jobs of two hundred seconds each, the second
  is claimed by another worker while it runs, having run for a hundred seconds only.
\<close>

definition two_queue :: platform_db where
  "two_queue = lone_queue\<lparr>jobs := [new_job 3 0 ''t'' [] None, new_job 4 0 ''t'' [] None]\<rparr>"

lemma batch_outlives_window:
  "\<exists>s1 s2 s3. claim_batch 0 {} worker_defaults two_queue = ([3, 4], s1)
     \<and> run_job flaky text_of_error worker_defaults (seconds 200) 3 s1 = (True, s2)
     \<and> claim_batch (seconds 301) {} worker_defaults s2 = ([4], s3)
     \<and> worker_step flaky text_of_error worker_defaults False False ([(1, 4)], [(3, True)], s2) ([(1, 4), (2, 4)], [(3, True)], s3)"
proof -
  define s1 where "s1 = snd (claim_batch 0 {} worker_defaults two_queue)"
  define s2 where "s2 = snd (run_job flaky text_of_error worker_defaults (seconds 200) 3 s1)"
  define s3 where "s3 = snd (claim_batch (seconds 301) {} worker_defaults s2)"
  have c: "claim_batch 0 {} worker_defaults two_queue = ([3, 4], s1)" unfolding s1_def by code_simp
  have r: "run_job flaky text_of_error worker_defaults (seconds 200) 3 s1 = (True, s2)" unfolding s2_def s1_def by code_simp
  have d: "claim_batch (seconds 301) {} worker_defaults s2 = ([4], s3)" unfolding s3_def s2_def s1_def by code_simp
  have "worker_step flaky text_of_error worker_defaults False False ([(1, 4)], [(3, True)], s2) ([(1, 4), (2, 4)], [(3, True)], s3)"
    using worker_step.claim [of 2 "[(1, 4)]", OF _ _ d, where careful = False and log = "[(3, True)]"] by simp
  then show ?thesis using c r d by blast
qed

text \<open>
  Without that bound on the time a handler takes the queue's promises fail: a job whose handler
  outlives the window is claimed by a second worker while the first still runs it, so that it runs
  twice at once, and when the second succeeds and the first then raises, the success is overwritten
  and the job is queued to run again.
\<close>

theorem success_overwritten:
  "\<exists>held log s held' log' s'. workers_reachable flaky text_of_error worker_defaults False False (held, log, s)
     \<and> (worker_step flaky text_of_error worker_defaults False False)\<^sup>*\<^sup>* (held, log, s) (held', log', s')
     \<and> held = [(1, 3), (2, 3)] \<and> successes log' 3 = 1
     \<and> map_option j_status (job_at s' 3) = Some JS_queued"
proof -
  let ?step = "worker_step flaky text_of_error worker_defaults False False"
  let ?late = "seconds 301"
  let ?s1 = "taken_at 0 lone_queue"
  let ?s2 = "taken_at ?late ?s1"
  let ?s3 = "ran_at ?late ?s2"
  let ?s4 = "later_rows ?s3"
  let ?s5 = "ran_at ?late ?s4"
  have c1: "claim_batch 0 {} worker_defaults lone_queue = ([3], ?s1)"
    and c2: "claim_batch ?late {} worker_defaults ?s1 = ([3], ?s2)" by code_simp+
  have r1: "run_job flaky text_of_error worker_defaults ?late 3 ?s2 = (True, ?s3)"
    and r2: "run_job flaky text_of_error worker_defaults ?late 3 ?s4 = (False, ?s5)" by code_simp+
  have g: "grows ?s3 ?s4"
  proof (rule grows_same)
    show "jobs ?s4 = jobs ?s3" by (simp add: later_rows_def)
    show "fresh ?s3 \<le> fresh ?s4" by code_simp
  qed
  have q: "map_option j_status (job_at ?s5 3) = Some JS_queued" by code_simp
  have st1: "?step ([], [], lone_queue) ([(1, 3)], [], ?s1)"
    using worker_step.claim [of 1 "[]", OF _ _ c1, where careful = False and log = "[]"] by simp
  have st2: "?step ([(1, 3)], [], ?s1) ([(1, 3), (2, 3)], [], ?s2)"
    using worker_step.claim [of 2 "[(1, 3)]", OF _ _ c2, where careful = False and log = "[]"] by simp
  have r: "workers_reachable flaky text_of_error worker_defaults False False ([(1, 3), (2, 3)], [], ?s2)"
    by (rule workers_reachable_step [OF workers_reachable_step [OF lone_queue_reachable st1] st2])
  have "?step ([(1, 3), (2, 3)], [], ?s2) ([(1, 3)], [(3, True)], ?s3)"
    using worker_step.finish [of 2 3 "[(1, 3), (2, 3)]", OF _ r1, where log = "[]"] by simp
  moreover have "?step ([(1, 3)], [(3, True)], ?s3) ([(1, 3)], [(3, True)], ?s4)" using g by (rule worker_step.elsewhere)
  moreover have "?step ([(1, 3)], [(3, True)], ?s4) ([], [(3, True), (3, False)], ?s5)"
    using worker_step.finish [of 1 3 "[(1, 3)]", OF _ r2, where log = "[(3, True)]"] by simp
  ultimately have "?step\<^sup>*\<^sup>* ([(1, 3), (2, 3)], [], ?s2) ([], [(3, True), (3, False)], ?s5)"
    by (meson converse_rtranclp_into_rtranclp rtranclp.rtrancl_refl)
  moreover have "successes [(3, True), (3, False)] 3 = 1" by (simp add: successes_def)
  ultimately show ?thesis using r q by blast
qed

section \<open>A job that kills its worker\<close>

definition poisoned :: "nat \<Rightarrow> platform_db" where
  "poisoned n = lone_queue\<lparr>jobs := [(new_job 3 0 ''t'' [] None)\<lparr>j_status := JS_running, j_attempts := int n,
     j_updated_at := seconds (301 * int n)\<rparr>]\<rparr>"

lemma poisoned_claim: "claim_batch (seconds (301 * int (Suc n))) {} worker_defaults (poisoned n) = ([3], poisoned (Suc n))"
  by (simp add: claim_batch_def reap_stale_def stale_def pick_jobs_def mark_running_def claimable_def poisoned_def
      lone_queue_def worker_defaults_def new_job_def seconds_def algebra_simps)

text \<open>
  The ceiling on attempts is looked at only when a handler raises: a job that takes its worker
  down with it is put back into the queue and claimed again for ever, its attempts without bound.
\<close>

theorem endless_attempts:
  "\<exists>s j. workers_reachable flaky text_of_error worker_defaults True True ([], [], s)
     \<and> job_at s 3 = Some j \<and> j_attempts j = int (Suc n)"
proof -
  let ?step = "worker_step flaky text_of_error worker_defaults True True"
  have gone: "?step ([(1, 3)], [], s) ([], [], s)" for s
    using worker_step.crash [where k = 1 and held = "[(1, 3)]" and crashes = True and log = "[]" and s = s] by simp
  have "workers_reachable flaky text_of_error worker_defaults True True ([], [], poisoned (Suc n))"
  proof (induction n)
    case 0
    have "claim_batch (seconds 301) {} worker_defaults lone_queue = ([3], poisoned 1)" by code_simp
    then have "?step ([], [], lone_queue) ([(1, 3)], [], poisoned 1)"
      using worker_step.claim [where k = 1 and held = "[]" and log = "[]" and careful = True and ids = "[3]"]
      by (fastforce simp: timely_def)
    then show ?case using lone_queue_reachable gone workers_reachable_step by (metis One_nat_def)
  next
    case (Suc n)
    have "?step ([], [], poisoned (Suc n)) ([(1, 3)], [], poisoned (Suc (Suc n)))"
      using worker_step.claim [where k = 1 and held = "[]" and log = "[]" and careful = True, OF _ _ poisoned_claim]
      by (simp add: timely_def)
    then show ?case using Suc gone workers_reachable_step by blast
  qed
  moreover have "job_at (poisoned (Suc n)) 3 = Some (hd (jobs (poisoned (Suc n))))"
    "j_attempts (hd (jobs (poisoned (Suc n)))) = int (Suc n)"
    by (simp_all add: job_at_def poisoned_def new_job_def)
  ultimately show ?thesis by blast
qed

section \<open>Witnesses\<close>

lemma once_claimed: "workers_reachable flaky text_of_error worker_defaults True False ([(1, 3)], [], taken_at 0 lone_queue)"
proof -
  have "claim_batch 0 {} worker_defaults lone_queue = ([3], taken_at 0 lone_queue)" by code_simp
  then have "worker_step flaky text_of_error worker_defaults True False ([], [], lone_queue) ([(1, 3)], [], taken_at 0 lone_queue)"
    using worker_step.claim [where k = 1 and held = "[]" and log = "[]" and careful = True and ids = "[3]"]
    by (fastforce simp: timely_def)
  then show ?thesis using lone_queue_reachable workers_reachable_step by blast
qed


theorem attempts_bounded_witness:
  "map_option j_attempts (job_at (taken_at 0 lone_queue) 3) = Some 1"
proof -
  have "\<not> Option.is_none (job_at (taken_at 0 lone_queue) 3)" by code_simp
  then obtain j where j: "job_at (taken_at 0 lone_queue) 3 = Some j" by (auto simp: Option.is_none_def)
  have "1 \<le> ws_max_attempts worker_defaults" by (simp add: worker_defaults_def)
  from attempts_bounded [OF flaky_adds this once_claimed j] show ?thesis by (simp add: j)
qed

theorem claim_spec_witness:
  "claim_batch 0 {} worker_defaults lone_queue = ([3], taken_at 0 lone_queue) \<and> length [3 :: nat] \<le> 10
    \<and> job_at (taken_at 0 lone_queue) 3 = Some (running 0 (new_job 3 0 ''t'' [] None))"
proof -
  have c: "claim_batch 0 {} worker_defaults lone_queue = ([3], taken_at 0 lone_queue)" by code_simp
  have q: "queue_ok lone_queue" by (simp add: queue_ok_def lone_queue_def)
  have "job_at lone_queue 3 = Some (new_job 3 0 ''t'' [] None)" by (simp add: job_at_def lone_queue_def)
  moreover have "requeued 0 (ws_stale_seconds worker_defaults) (new_job 3 0 ''t'' [] None) = new_job 3 0 ''t'' [] None"
    by (simp add: requeued_def stale_def)
  ultimately show ?thesis
    using c claim_spec [OF q c, THEN conjunct2, THEN conjunct2, THEN conjunct2, THEN conjunct1, rule_format, of 3] by simp
qed

theorem failure_isolated_witness:
  "\<exists>s' j'. run_job (\<lambda>_. None) text_of_error worker_defaults 9 3 (taken_at 0 lone_queue) = (False, s')
     \<and> job_at s' 3 = Some j' \<and> j_status j' = JS_failed"
proof -
  let ?s = "taken_at 0 lone_queue" and ?h = "\<lambda>_. None :: platform_db handler option"
  have "queue_ok ?s" by (simp add: taken_at_def claim_batch_def queue_ok_def lone_queue_def Let_def case_prod_unfold
      reap_stale_def mark_running_def)
  moreover have "map_option j_attempts (job_at ?s 3) = Some 1" by code_simp
  then obtain j where "job_at ?s 3 = Some j" "1 \<le> j_attempts j" by auto
  ultimately show ?thesis using failure_isolated [of ?s 3 j ?h text_of_error worker_defaults 9] by auto
qed

text \<open>The scheduler's properties at a founder's workspace with an overdue milestone.\<close>

definition spring_morning :: "instant \<Rightarrow> local_time" where
  "spring_morning now = \<lparr>lt_year = 2026, lt_month = 3, lt_day = 2, lt_hour = 8, lt_date = 200\<rparr>"

definition worker_ground :: "unit worker_db_scheme" where
  "worker_ground = mission_db.extend mission_ground (worker_db.fields [] [])"

theorem tick_spec_witness:
  "\<exists>s'. scheduler_tick spring_morning 5 worker_ground = (2, s')
     \<and> run_claimed s' ''mission.generate'' 9 ''2026-03-02'' \<and> scheduler_tick spring_morning 5 s' = (0, s')"
proof -
  obtain n s' where t: "scheduler_tick spring_morning 5 worker_ground = (n, s')" by (cases "scheduler_tick spring_morning 5 worker_ground")
  have d: "distinct (map st_id (startups worker_ground))" "distinct (map ms_id (milestones worker_ground))" by code_simp+
  have active: "active_startup_ids worker_ground = [9]" "scheduled_runs worker_ground = []" "assessment_rows worker_ground = []"
    by code_simp+
  have iso: "isoformat (spring_morning 5) = ''2026-03-02''" by code_simp
  have k: "(''mission.generate'', 9, ''2026-03-02'') \<in> due_key ` set (all_due spring_morning 5 worker_ground)"
    using mission_due [of spring_morning 5 9 worker_ground] active unfolding iso
    by (force simp: run_claimed_def spring_morning_def mission_gen_hour_def)
  have "overdue_rows 200 worker_ground = [(21, 9)]" by code_simp
  then have l: "length (all_due spring_morning 5 worker_ground) = 2"
    using active by (simp add: all_due_def due_missions_def due_overdue_milestones_def due_quarterly_def last_completed_def
        spring_morning_def mission_gen_hour_def run_claimed_def List.map_filter_simps)
  note spec = tick_spec [OF d t]
  have "n = 2" using spec l by blast
  moreover have "run_claimed s' ''mission.generate'' 9 ''2026-03-02''" using spec k by blast
  moreover have "scheduler_tick spring_morning 5 s' = (0, s')" using spec by blast
  ultimately show ?thesis using t by blast
qed

text \<open>Two workers that read the same two due tasks; the second fires the first of them after the first worker did.\<close>

theorem scheduled_once_witness:
  "\<exists>ws s. ticking spring_morning worker_ground ws s
     \<and> length (scheduled_jobs s) = length (scheduled_jobs worker_ground) + length (scheduled_runs s)
     \<and> distinct (map run_key (scheduled_runs s))"
proof -
  let ?due = "all_due spring_morning 5 worker_ground"
  have "ticking spring_morning worker_ground ((\<lambda>_. (0, []))(1 := (5, ?due), 2 := (5, ?due))) worker_ground"
    by (intro ticking.reads ticking.idle)
  then have "ticking spring_morning worker_ground ((\<lambda>_. (0, []))(1 := (5, ?due), 2 := (5, ?due), 1 := (5, [])))
      (snd (fire 5 ?due worker_ground))" by (rule ticking_fire) simp
  then have "ticking spring_morning worker_ground ((\<lambda>_. (0, []))(1 := (5, ?due), 2 := (5, ?due), 1 := (5, []), 2 := (5, [])))
      (snd (fire 5 ?due (snd (fire 5 ?due worker_ground))))" by (rule ticking_fire) simp
  note h = this
  have "scheduled_runs worker_ground = []" by code_simp
  then obtain rs js where "scheduled_runs (snd (fire 5 ?due (snd (fire 5 ?due worker_ground)))) = rs"
      "scheduled_jobs (snd (fire 5 ?due (snd (fire 5 ?due worker_ground)))) = scheduled_jobs worker_ground @ js"
      "list_all2 fires rs js" "distinct (map run_key rs)"
    using scheduled_once [OF h] by auto
  then show ?thesis using h by (intro exI conjI) (auto dest: list_all2_lengthD)
qed

end
