(* ===== verification/Worker_Email.thy ===== *)
theory Worker_Email
  imports Scheduler Py_Text
begin

text \<open>
  The e-mail of a notification (\<^verbatim>\<open>app/worker/handlers/email.py\<close>). \<open>send\<close> is the configured sender, \<open>app_url\<close>
  and \<open>host\<close> are the settings \<^verbatim>\<open>APP_BASE_URL\<close> and \<^verbatim>\<open>SERVER_HOST\<close>.
\<close>

record email_message =
  em_to :: string
  em_subject :: string
  em_html :: string

definition category_path :: "(string \<times> string) list" where
  "category_path =
     [(''documents'', ''/documents''), (''business'', ''/business-builder''), (''roadmap_missions'', ''/roadmap''),
      (''health_assessment'', ''/health''), (''team'', ''/team'')]"

definition rstrip_slash :: "string \<Rightarrow> string" where
  "rstrip_slash x = rev (dropWhile (\<lambda>c. c = CHR ''/'') (rev x))"

definition starts_with :: "string \<Rightarrow> string \<Rightarrow> bool" where
  "starts_with p x = (take (length p) x = p)"

definition deep_link :: "string \<Rightarrow> string \<Rightarrow> notification \<Rightarrow> string" where
  "deep_link app_url host n =
     (let base = rstrip_slash (if app_url = [] then host else app_url);
          base = (if starts_with ''http://'' base \<or> starts_with ''https://'' base then base else []);
          path = (case category_for (n_type n) of
                    None \<Rightarrow> ''/notifications''
                  | Some c \<Rightarrow> (case map_of category_path c of None \<Rightarrow> ''/notifications'' | Some p \<Rightarrow> p))
      in base @ path)"

text \<open>\<^verbatim>\<open>html.escape\<close>, quotes included.\<close>

definition escape_char :: "char \<Rightarrow> string" where
  "escape_char c =
     (if c = CHR ''&'' then ''&amp;'' else if c = CHR ''<'' then ''&lt;'' else if c = CHR ''>'' then ''&gt;''
      else if c = CHR 0x22 then ''&quot;'' else if c = CHR 0x27 then ''&#x27;'' else [c])"

definition html_escape :: "string \<Rightarrow> string" where
  "html_escape x = concat (map escape_char x)"

definition dq :: "string \<Rightarrow> string" where
  "dq x = [CHR 0x22] @ x @ [CHR 0x22]"

definition render_email :: "string \<Rightarrow> string \<Rightarrow> notification \<Rightarrow> string" where
  "render_email app_url host n =
     (let link = html_escape (deep_link app_url host n);
          title = html_escape (n_title n);
          body = html_escape (n_body n)
      in ''<div style='' @ dq ''font-family:system-ui,sans-serif;max-width:520px'' @ ''>''
         @ ''<h2>'' @ title @ ''</h2>''
         @ ''<p>'' @ body @ ''</p>''
         @ ''<p><a href='' @ dq link @ '' style='' @ dq (''display:inline-block;padding:10px 16px;''
             @ ''background:#4f46e5;color:#fff;border-radius:6px;text-decoration:none'') @ ''>Open Cofoundaz</a></p>''
         @ ''<hr><p style='' @ dq ''font-size:12px;color:#666'' @ ''>''
         @ ''Manage your notification preferences in Settings.</p></div>'')"

definition one_line :: "string \<Rightarrow> string" where
  "one_line x = map (\<lambda>c. if c = CHR 0x0D \<or> c = CHR 0x0A then CHR '' '' else c) x"

definition email_of :: "string \<Rightarrow> string \<Rightarrow> user \<Rightarrow> notification \<Rightarrow> email_message" where
  "email_of app_url host u n =
     \<lparr>em_to = u_email u, em_subject = one_line (n_title n), em_html = render_email app_url host n\<rparr>"

definition handle_email_notification ::
    "(email_message \<Rightarrow> unit result) \<Rightarrow> string \<Rightarrow> string \<Rightarrow> ('a notif_db_scheme) handler" where
  "handle_email_notification send app_url host j s =
     (case payload_uid j ''notification_id'' of
        Inl e \<Rightarrow> (Inl e, s)
      | Inr i \<Rightarrow>
          (case find (\<lambda>n. n_id n = i) (notifications s) of
             None \<Rightarrow> (Inr (), s)
           | Some n \<Rightarrow>
               (case user_by_id s (n_user_id n) of
                  None \<Rightarrow> (Inr (), s)
                | Some u \<Rightarrow> if u_email u = [] then (Inr (), s) else (send (email_of app_url host u n), s))))"

section \<open>What reaches the mailbox\<close>

definition special :: "char set" where
  "special = {CHR ''<'', CHR ''>'', CHR 0x22, CHR 0x27}"

lemma html_escape_safe: "set (html_escape x) \<inter> special = {}"
proof -
  have "set (escape_char c) \<inter> special = {}" for c by (simp add: escape_char_def special_def)
  then show ?thesis unfolding html_escape_def by auto
qed

fun html_unescape :: "string \<Rightarrow> string" where
  "html_unescape [] = []"
| "html_unescape (c # cs) =
     (if c \<noteq> CHR ''&'' then c # html_unescape cs
      else if take 4 cs = ''amp;'' then CHR ''&'' # html_unescape (drop 4 cs)
      else if take 3 cs = ''lt;'' then CHR ''<'' # html_unescape (drop 3 cs)
      else if take 3 cs = ''gt;'' then CHR ''>'' # html_unescape (drop 3 cs)
      else if take 5 cs = ''quot;'' then CHR 0x22 # html_unescape (drop 5 cs)
      else if take 5 cs = ''#x27;'' then CHR 0x27 # html_unescape (drop 5 cs)
      else c # html_unescape cs)"

lemma html_unescape_escape: "html_unescape (html_escape x) = x"
proof (induction x)
  case (Cons c x)
  have "html_unescape (escape_char c @ y) = c # html_unescape y" for y
    by (simp add: escape_char_def)
  then show ?case using Cons by (simp add: html_escape_def)
qed (simp add: html_escape_def)

text \<open>
  The subject is one line, so that no header can be smuggled into the message; the title and the body
  appear in it as text, from which they can be read back, and never as markup; the link leads to the
  configured origin or to none.
\<close>

lemma email_safe:
  "CHR 0x0A \<notin> set (em_subject (email_of app_url host u n))" "CHR 0x0D \<notin> set (em_subject (email_of app_url host u n))"
  "length (em_subject (email_of app_url host u n)) = length (n_title n)"
  "starts_with ''http://'' (deep_link app_url host n) \<or> starts_with ''https://'' (deep_link app_url host n)
     \<or> starts_with ''/'' (deep_link app_url host n)"
proof -
  show "CHR 0x0A \<notin> set (em_subject (email_of app_url host u n))" "CHR 0x0D \<notin> set (em_subject (email_of app_url host u n))"
    "length (em_subject (email_of app_url host u n)) = length (n_title n)"
    by (auto simp: email_of_def one_line_def)
  have path: "starts_with ''/'' p" if "map_of category_path c = Some p" for c p
    using that by (auto simp: category_path_def starts_with_def split: if_splits)
  have other: "starts_with ''/'' ''/notifications''" by (simp add: starts_with_def)
  have more: "starts_with p (x @ y)" if "starts_with p x" for p x y :: string
    using that by (metis append_take_drop_id append_assoc append_eq_conv_conj starts_with_def)
  obtain base p where d: "deep_link app_url host n = base @ p" "starts_with ''/'' p"
    "base = [] \<or> starts_with ''http://'' base \<or> starts_with ''https://'' base"
  proof (rule that)
    let ?base = "rstrip_slash (if app_url = [] then host else app_url)"
    let ?b = "if starts_with ''http://'' ?base \<or> starts_with ''https://'' ?base then ?base else []"
    let ?p = "case category_for (n_type n) of None \<Rightarrow> ''/notifications''
      | Some c \<Rightarrow> (case map_of category_path c of None \<Rightarrow> ''/notifications'' | Some p \<Rightarrow> p)"
    show "deep_link app_url host n = ?b @ ?p" by (simp add: deep_link_def Let_def)
    show "starts_with ''/'' ?p" using path other by (simp split: option.split)
    show "?b = [] \<or> starts_with ''http://'' ?b \<or> starts_with ''https://'' ?b" by simp
  qed
  then show "starts_with ''http://'' (deep_link app_url host n) \<or> starts_with ''https://'' (deep_link app_url host n)
     \<or> starts_with ''/'' (deep_link app_url host n)"
    using more [of _ base p] by auto
qed

end
