(* ===== verification/Spec2Isabelle.thy ===== *)
theory Spec2Isabelle
  imports Business_Samples Learning_Samples Onboarding_Ends Auth_Login Roadmap_Views Mission_Samples Journal_Samples Doc_Samples Assess_Samples Worker_Samples Worker_Email
begin

text \<open>
  A verification of the Cofoundaz API, a FastAPI service over one relational database: accounts,
  workspaces with their onboarding and invitations, and per workspace a roadmap, daily missions, a journal, documents, a business builder, a learning
  academy, and assessments with the health score that follows them.

  \<^bold>\<open>The program.\<close> A request passes the guards of \<^verbatim>\<open>app/api/deps.py\<close> (who calls, which workspace, which
  role), runs a handler of \<^verbatim>\<open>app/api/v1/endpoints\<close>, which calls the services of \<^verbatim>\<open>app/services\<close>; these
  read and write the tables of \<^verbatim>\<open>app/db/models\<close> and publish events on the bus of
  \<^verbatim>\<open>app/platform/events.py\<close>, whose handlers write notifications and queue e-mails in the same
  transaction. A handler that raises before its commit leaves the database as it was.

  \<^bold>\<open>The model.\<close> The database is a record whose fields are the tables, a table is the list of its rows in
  insertion order. Each component extends the record of the one below it, and its operations work on
  every extension, so that components compose. Identifiers come from the counter \<^verbatim>\<open>fresh\<close>, which
  stands for \<^verbatim>\<open>uuid4\<close>; the clock, the random tokens, and what is not under \<^verbatim>\<open>src/\<close> (hashing, signing,
  encryption, the object store's URLs) are arguments. An operation that can raise answers
  \<^verbatim>\<open>app_error + 'a\<close>; an exception the program does not declare is \<^verbatim>\<open>Uncaught\<close> with its Python name.

  \<^bold>\<open>The theories.\<close>
  \<^item> Basis: \<^verbatim>\<open>Prelude\<close> (lists as tables, Python's rounding), \<^verbatim>\<open>Py_Text\<close> (methods of \<^verbatim>\<open>str\<close>),
    \<^verbatim>\<open>Enums\<close> (\<^verbatim>\<open>db/models/enums.py\<close>), \<^verbatim>\<open>Errors\<close> (\<^verbatim>\<open>core/errors.py\<close>, the transaction of
    \<^verbatim>\<open>db/session.py\<close>), \<^verbatim>\<open>Platform\<close> (jobs, activity, audit), \<^verbatim>\<open>Tenancy\<close> (users, workspaces, guards),
    \<^verbatim>\<open>Member_Requests\<close> (a guarded request).
  \<^item> Interfaces, as locales: \<^verbatim>\<open>Claim_Once\<close> (a credential that is spent once), \<^verbatim>\<open>Pagination\<close> (keyset
    pages), \<^verbatim>\<open>Keyed_Store\<close> (an upsert table, and a table that mirrors another), \<^verbatim>\<open>Monotone_Rows\<close> (rows
    that only move forward). Each is interpreted on the tables of the program that promise it.
  \<^item> Notifications: \<^verbatim>\<open>Notifications\<close> (event bus, preferences, listing).
  \<^item> Authentication: \<^verbatim>\<open>Auth_Sessions\<close> (refresh tokens, one-time links, backup codes), \<^verbatim>\<open>Passwords\<close>,
    \<^verbatim>\<open>Auth_Login\<close> (the endpoints).
  \<^item> Roadmap: \<^verbatim>\<open>Roadmap_Templates\<close>, \<^verbatim>\<open>Roadmap\<close>, \<^verbatim>\<open>Roadmap_Deps\<close> (cycle check), \<^verbatim>\<open>Roadmap_Edit\<close>
    (endpoints), \<^verbatim>\<open>Replan\<close>, \<^verbatim>\<open>Roadmap_Inv\<close> and \<^verbatim>\<open>Roadmap_Requests\<close> (invariant along histories),
    \<^verbatim>\<open>Roadmap_Views\<close>.
  \<^item> Missions: \<^verbatim>\<open>Mission\<close>, \<^verbatim>\<open>Mission_Inv\<close>, \<^verbatim>\<open>Mission_Requests\<close>, \<^verbatim>\<open>Mission_Samples\<close>.
  \<^item> Journal: \<^verbatim>\<open>Journal\<close>, \<^verbatim>\<open>Journal_Inv\<close>, \<^verbatim>\<open>Journal_Requests\<close>, \<^verbatim>\<open>Journal_Reading\<close>,
    \<^verbatim>\<open>Journal_Samples\<close>.
  \<^item> Documents: \<^verbatim>\<open>Documents\<close>, \<^verbatim>\<open>Doc_Links\<close> (shares and signatures), \<^verbatim>\<open>Doc_Endpoints\<close>, \<^verbatim>\<open>Doc_Inv\<close>,
    \<^verbatim>\<open>Doc_Requests\<close>, \<^verbatim>\<open>Doc_Histories\<close>, \<^verbatim>\<open>Doc_Samples\<close>.
  \<^item> Assessments and health score: \<^verbatim>\<open>Assessment_Bank\<close> (questions, branching, scoring), \<^verbatim>\<open>Health\<close>
    (recomputation), \<^verbatim>\<open>Health_Ranking\<close> (the recommendations), \<^verbatim>\<open>Assessment\<close>, \<^verbatim>\<open>Health_Screens\<close>,
    \<^verbatim>\<open>Assess_Inv\<close>, \<^verbatim>\<open>Assess_Keeps\<close>, \<^verbatim>\<open>Assess_Requests\<close>, \<^verbatim>\<open>Assess_Histories\<close>, \<^verbatim>\<open>Assess_Samples\<close>.
  \<^item> Business builder: \<^verbatim>\<open>Business_Defs\<close> (blocks, record schemas), \<^verbatim>\<open>Business\<close> (canvases, records,
    positioning map), \<^verbatim>\<open>Business_Suggestions\<close>, \<^verbatim>\<open>Business_Endpoints\<close>, \<^verbatim>\<open>Llm\<close> (the client of the language
    model), \<^verbatim>\<open>Business_Ai\<close> (the jobs that fill and plan), \<^verbatim>\<open>Business_Inv\<close>, \<^verbatim>\<open>Business_Keeps\<close>,
    \<^verbatim>\<open>Business_Histories\<close>, \<^verbatim>\<open>Business_Facts\<close>,
    \<^verbatim>\<open>Business_Answers\<close>, \<^verbatim>\<open>Business_Records\<close>, \<^verbatim>\<open>Business_Samples\<close>.
  \<^item> Learning academy: \<^verbatim>\<open>Learning_Catalog\<close>, \<^verbatim>\<open>Learning\<close>, \<^verbatim>\<open>Learning_Inv\<close>,
    \<^verbatim>\<open>Learning_Facts\<close>, \<^verbatim>\<open>Learning_Samples\<close>.
  \<^item> Onboarding (\<^verbatim>\<open>services/onboarding\<close>, \<^verbatim>\<open>endpoints/onboarding\<close>, \<^verbatim>\<open>endpoints/invitations.py\<close>): \<^verbatim>\<open>Onboarding\<close>
    (draft workspace, steps, invitations, completion), \<^verbatim>\<open>Onboarding_Inv\<close>,
    \<^verbatim>\<open>Onboarding_Histories\<close> (the life of an invitation), \<^verbatim>\<open>Onboarding_Ends\<close> (expiry and completion).
  \<^item> Worker: \<^verbatim>\<open>Worker_Queue\<close> (claims, runs, retries of jobs), \<^verbatim>\<open>Worker_Runs\<close> (several workers, as a step
    relation, and the interface of the handlers), \<^verbatim>\<open>Scheduler\<close> (the scheduled tasks and their handlers),
    \<^verbatim>\<open>Worker_Email\<close>, \<^verbatim>\<open>Worker_Samples\<close>.

  \<^bold>\<open>Histories.\<close> Every component with state has a step relation: its own requests, with any arguments
  and refused ones included, what other components do to its tables (the worker generates missions, rewrites
  their reasons and stores business plans as documents; deleting a document clears it from its plan), and
  steps of the rest of the application that leave its tables alone. A request is one step, as under
  serialisable isolation. Where the program relies on more than it has, the overlap is written out:
  saves of a document (\<^verbatim>\<open>save_overlapped\<close>), the last signatures of a request (\<^verbatim>\<open>sign_overlapped\<close>),
  starts of an assessment (\<^verbatim>\<open>insert_or_resume\<close>), the two parts of a canvas job, a completion that waits
  for a lock, claims and runs of several workers (\<^verbatim>\<open>worker_step\<close>) and their ticks, item by item
  (\<^verbatim>\<open>ticking\<close>).

  \<^bold>\<open>What is assumed of the surroundings.\<close> The queue's promises need each claim to come while no held job
  is past the stale window since its batch was claimed (\<^verbatim>\<open>timely\<close>); \<^verbatim>\<open>untimely_claim\<close>,
  \<^verbatim>\<open>batch_outlives_window\<close> and \<^verbatim>\<open>success_overwritten\<close> show what happens otherwise. The largest slip of a
  re-plan needs milestones that do not wait for each other in a circle, which \<^verbatim>\<open>milestones_in_a_circle\<close>
  shows the dependency check does not give.

  \<^bold>\<open>Fuel.\<close> The depth-first search of the dependencies, the topological order of the re-planning and the
  walk of the streak recurse on a measure; no definition carries fuel.

  \<^bold>\<open>Not modelled.\<close> Configuration, logging, application wiring; the clients of e-mail, Redis and the
  object store; the live notification stream; the prompts sent to the language model; the
  dashboard; of onboarding, requests that overlap; of the worker, the narrative of an assessment and the
  texts of recommendations and missions.
\<close>

section \<open>From the scheduler to the mission\<close>

lemma published_missions [simp]: "missions (publish now e p s) = missions s"
  by (rule publish_frame [of now e p s]; simp)+

text \<open>
  C29: the job the scheduler puts into the queue for a workspace with a roadmap succeeds, whatever the
  day: afterwards the workspace has a mission for it, the one it had already if any, and the last
  event published announces it.
\<close>

theorem mission_delivered:
  assumes "startup_by_id s i = Some st" "roadmap_of s i = Some r"
    and "job_at s k = Some j" "j_type j = sched_mission" "j_payload j = startup_payload i"
  shows "\<exists>m s'. run_job (scheduled_handlers now today) text_of w now k s = (True, s')
    \<and> mission_on s' i today = Some m \<and> (\<forall>m'. mission_on s i today = Some m' \<longrightarrow> m' = m)
    \<and> last (events s') = (''mission.ready'', [(''startup_id'', JUid i), (''mission_id'', JUid (mi_id m))])
    \<and> map_option j_status (job_at s' k) = Some JS_succeeded"
proof -
  have st: "st_id st = i" using assms(1) by (auto simp: startup_by_id_def dest: find_SomeD)
  let ?g = "get_or_generate_today now today i s"
  have k: "j_id j = k" "find (\<lambda>j. j_id j = k) (jobs s) = Some j" using assms(3) job_atD by (auto simp: job_at_def)
  obtain m where m: "fst ?g = Some m" "mission_on (snd ?g) i today = Some m" "\<forall>m'. mission_on s i today = Some m' \<longrightarrow> m' = m"
  proof (cases "mission_on s i today")
    case None
    let ?m = "\<lparr>mi_id = fresh s, mi_startup_id = i, mi_date = today, mi_generated_by = ''system'', mi_status = MiS_pending\<rparr>"
    have "missions (snd ?g) = missions s @ [?m]"
      unfolding generated_state [OF None assms(2)] Let_def by (simp add: enqueue_mission_reason_def enqueue_def Let_def)
    then have on: "mission_on (snd ?g) i today = Some ?m" using None by (simp add: mission_on_def find_append)
    have new: "fst ?g = Some ?m" unfolding generated_state [OF None assms(2)] Let_def by simp
    show ?thesis by (rule that [OF new on]) (simp add: None)
  next
    case (Some m)
    then have g: "?g = (Some m, s)" by (simp add: get_or_generate_today_def)
    show ?thesis by (rule that [of m]) (simp_all add: g Some)
  qed
  let ?p = "publish now ''mission.ready'' [(''startup_id'', JUid i), (''mission_id'', JUid (mi_id m))] (snd ?g)"
  have h: "handle_mission_generate now today j s = (Inr (), ?p)"
    using m(1) assms(1,5) st
    by (cases ?g) (simp add: handle_mission_generate_def payload_uid_def startup_payload_def)
  have "job_at ?p k = Some j"
    using grows_at(1) [OF grows_trans [OF generate_today_grows publish_grows] assms(3)] by blast
  then have "map_option j_status (job_at (finalize_success now j ?p) k) = Some JS_succeeded"
    by (simp add: finalize_success_def job_at_set_job k)
  moreover have "run_job (scheduled_handlers now today) text_of w now k s = (True, finalize_success now j ?p)"
    using h k assms(4) by (simp add: run_job_def scheduled_handlers_def)
  moreover have "mission_on (finalize_success now j ?p) i today = Some m"
    using m(2) by (simp add: mission_on_def finalize_success_def set_job_def)
  moreover have "last (events (finalize_success now j ?p)) = (''mission.ready'', [(''startup_id'', JUid i), (''mission_id'', JUid (mi_id m))])"
    by (simp add: finalize_success_def set_job_def)
  ultimately show ?thesis using m(3) by blast
qed

definition morning :: "unit mission_db_scheme" where
  "morning = mission_ground\<lparr>startups := [sample_startup], jobs := [new_job 4 0 sched_mission (startup_payload 9) (Some 9)]\<rparr>"

theorem mission_delivered_witness:
  "\<exists>m s'. run_job (scheduled_handlers 5 100) text_of_error worker_defaults 5 4 morning = (True, s') \<and> mission_on s' 9 100 = Some m"
proof -
  have s: "startup_by_id morning 9 = Some sample_startup" by (simp add: morning_def startup_by_id_def sample_startup_def)
  have "\<not> Option.is_none (roadmap_of morning 9)" by code_simp
  then obtain r where r: "roadmap_of morning 9 = Some r" by (auto simp: Option.is_none_def)
  have j: "job_at morning 4 = Some (new_job 4 0 sched_mission (startup_payload 9) (Some 9))" by (simp add: morning_def job_at_def)
  from mission_delivered [OF s r j] show ?thesis by (simp add: new_job_def) blast
qed

end
